(* ===== verification/Prelude.thy ===== *)
theory Prelude
  imports Complex_Main "HOL-Library.AList"
begin

text \<open>
  Shared vocabulary of the development.

  \<^item> Exceptions raised by the modelled services are values of one datatype \<open>exn\<close>; a fallible
    operation returns \<open>exn + 'a\<close> (\<open>Inl\<close> is a raise).
  \<^item> Unicode text is a list of code points (\<open>pystr\<close>), so that \<open>length\<close> counts what Python's
    \<open>len\<close> counts; ASCII identifiers, keys and enumeration values are \<open>string\<close>.
  \<^item> A UTC instant (a naive UTC \<open>datetime\<close> column) is an \<open>int\<close> of microseconds since the epoch,
    a calendar date is an \<open>int\<close> day number, a monotonic clock reading is a \<open>rat\<close> of seconds.
    Python floats of the clocks are modelled as exact rationals: rounding is not modelled.
  \<^item> \<open>Asia/Shanghai\<close> is the fixed offset UTC+8, which is what the zone data give for every instant
    since September 1991.
\<close>

section \<open>Hint collections\<close>

named_theorems guard_simps \<open>facts that evaluate the guards of the services' operations\<close>
named_theorems frame_simps \<open>fields an operation leaves unchanged\<close>

section \<open>Exceptions and results\<close>

datatype exn =
    ValueError string
  | QuotaError string
  | TicketError string
  | PreflightError string int
  | ConfigError string int
  | RuntimeError string
  | ConnectionError string
  | TimeoutError

type_synonym 'a res = "exn + 'a"

definition bindR :: "'a res \<Rightarrow> ('a \<Rightarrow> 'b res) \<Rightarrow> 'b res" where
  "bindR m f = (case m of Inl e \<Rightarrow> Inl e | Inr x \<Rightarrow> f x)"

lemma bindR_simps [simp]:
  "bindR (Inl e) f = Inl e"
  "bindR (Inr x) f = f x"
  by (simp_all add: bindR_def)

lemma bindR_Inr_iff: "bindR m f = Inr y \<longleftrightarrow> (\<exists>x. m = Inr x \<and> f x = Inr y)"
  by (cases m) auto

lemma bindR_Inl_iff:
  "bindR m f = Inl e \<longleftrightarrow> m = Inl e \<or> (\<exists>x. m = Inr x \<and> f x = Inl e)"
  by (cases m) auto

lemma if_Inl_Inr_iff [guard_simps]:
  "(if b then Inl e else r) = Inr y \<longleftrightarrow> \<not> b \<and> r = Inr y"
  by auto

section \<open>Text, time\<close>

type_synonym pystr = "nat list"
type_synonym datetime = int
type_synonym date = int
type_synonym clock = rat

text \<open>An ASCII literal as text.\<close>

definition asc :: "string \<Rightarrow> pystr" where
  "asc s = map of_char s"

lemma asc_inject [simp]: "asc a = asc b \<longleftrightarrow> a = b"
proof -
  have "inj (of_char :: char \<Rightarrow> nat)"
    by (simp add: inj_def)
  then show ?thesis
    by (simp add: asc_def inj_map_eq_map)
qed

lemma length_asc [simp]: "length (asc s) = length s"
  by (simp add: asc_def)

lemma asc_Nil_iff [simp]: "asc s = [] \<longleftrightarrow> s = []"
  by (simp add: asc_def)

definition us_second :: int where
  "us_second = 1000000"

definition us_day :: int where
  "us_day = 86400000000"

definition sh_offset :: int where
  "sh_offset = 28800000000"

text \<open>The calendar date of an instant in Shanghai, and the instant at which that date starts.\<close>

definition sh_date :: "datetime \<Rightarrow> date" where
  "sh_date t = (t + sh_offset) div us_day"

definition sh_midnight :: "date \<Rightarrow> datetime" where
  "sh_midnight d = d * us_day - sh_offset"

lemma sh_date_midnight [simp]: "sh_date (sh_midnight d) = d"
  by (simp add: sh_date_def sh_midnight_def us_day_def)

lemma sh_date_iff: "sh_date t = d \<longleftrightarrow> sh_midnight d \<le> t \<and> t < sh_midnight (d + 1)"
proof -
  have pos: "0 < us_day" by (simp add: us_day_def)
  have "sh_date t = d \<longleftrightarrow> d * us_day \<le> t + sh_offset \<and> t + sh_offset < (d + 1) * us_day"
  proof
    assume "sh_date t = d"
    then have d: "d = (t + sh_offset) div us_day" by (simp add: sh_date_def)
    have "t + sh_offset = d * us_day + (t + sh_offset) mod us_day"
      unfolding d by simp
    then show "d * us_day \<le> t + sh_offset \<and> t + sh_offset < (d + 1) * us_day"
      using pos_mod_sign [OF pos, of "t + sh_offset"] pos_mod_bound [OF pos, of "t + sh_offset"]
      by (simp add: algebra_simps)
  next
    assume "d * us_day \<le> t + sh_offset \<and> t + sh_offset < (d + 1) * us_day"
    then have "0 \<le> t + sh_offset - d * us_day" "t + sh_offset - d * us_day < us_day"
      by (simp_all add: algebra_simps)
    moreover have "t + sh_offset = us_day * d + (t + sh_offset - d * us_day)"
      by (simp add: algebra_simps)
    ultimately have "(t + sh_offset) div us_day = d"
      by (rule int_div_pos_eq [rotated])
    then show "sh_date t = d" by (simp add: sh_date_def)
  qed
  then show ?thesis by (auto simp: sh_midnight_def)
qed

lemma sh_date_mono: "s \<le> t \<Longrightarrow> sh_date s \<le> sh_date t"
  by (simp add: sh_date_def us_day_def zdiv_mono1)

section \<open>Insertion-ordered dictionaries\<close>

text \<open>
  A Python dict whose order matters is an association list: assignment keeps the position of an
  existing key and appends a new one, which is \<open>AList.update\<close>; \<open>pop\<close> is \<open>AList.delete\<close>.
\<close>

type_synonym ('k, 'v) dict = "('k \<times> 'v) list"

definition dict_wf :: "('k, 'v) dict \<Rightarrow> bool" where
  "dict_wf d \<longleftrightarrow> distinct (map fst d)"

lemma dict_wf_Nil [simp]: "dict_wf []"
  by (simp add: dict_wf_def)

lemma dict_wf_update [simp]: "dict_wf d \<Longrightarrow> dict_wf (AList.update k v d)"
  by (simp add: dict_wf_def distinct_update)

lemma dict_wf_delete [simp]: "dict_wf d \<Longrightarrow> dict_wf (AList.delete k d)"
  by (simp add: dict_wf_def distinct_delete)

lemma dict_get_update: "map_of (AList.update k v d) k' = (if k' = k then Some v else map_of d k')"
  by (simp add: update_conv')

lemma dict_get_delete: "map_of (AList.delete k d) k' = (if k' = k then None else map_of d k')"
  by (simp add: delete_conv')

lemma length_update_bound: "length (AList.update k v d) \<le> Suc (length d)"
  by (induction d) auto

lemma length_update_in: "k \<in> fst ` set d \<Longrightarrow> length (AList.update k v d) = length d"
  by (induction d) auto

lemma length_update_new: "k \<notin> fst ` set d \<Longrightarrow> length (AList.update k v d) = Suc (length d)"
  by (induction d) auto

lemma dict_wf_filter [simp]: "dict_wf d \<Longrightarrow> dict_wf (filter P d)"
  by (simp add: dict_wf_def distinct_map_filter)

lemma dict_get_filter:
  "dict_wf d \<Longrightarrow> map_of (filter (\<lambda>(k, v). P k v) d) k =
     (case map_of d k of None \<Rightarrow> None | Some v \<Rightarrow> if P k v then Some v else None)"
proof (induction d)
  case (Cons kv d)
  have "k \<notin> fst ` set d \<Longrightarrow> map_of (filter (\<lambda>(k, v). P k v) d) k = None"
    by (auto simp: map_of_eq_None_iff)
  with Cons show ?case by (cases kv) (auto simp: dict_wf_def map_of_eq_None_iff)
qed simp

lemma filter_update_length:
  "map_of d k = Some v0 \<Longrightarrow> P (k, v0) \<Longrightarrow> length (filter P (AList.update k v d)) \<le> length (filter P d)"
  by (induction d) (auto split: if_splits)

lemma filter_delete_length: "length (filter P (AList.delete k d)) \<le> length (filter P d)"
  by (induction d) auto

section \<open>Searching and sums over lists\<close>

lemma find_Some_mem: "find P xs = Some x \<Longrightarrow> x \<in> set xs \<and> P x"
  by (induction xs) (auto split: if_splits)

lemma sum_list_nonneg_int: "(\<And>x. x \<in> set xs \<Longrightarrow> 0 \<le> f x) \<Longrightarrow> 0 \<le> sum_list (map f xs)" for f :: "'a \<Rightarrow> int"
  by (induction xs) auto

lemma sum_list_filter_split:
  "sum_list (map f xs) = sum_list (map f (filter P xs)) + sum_list (map f (filter (\<lambda>x. \<not> P x) xs))"
  for f :: "'a \<Rightarrow> int"
  by (induction xs) auto

text \<open>Capped event counters, as the services' \<open>Counter\<close> attributes keep them.\<close>

definition bump :: "('k \<Rightarrow> nat) \<Rightarrow> 'k \<Rightarrow> ('k \<Rightarrow> nat)" where
  "bump c k = c(k := min 1000000000 (c k + 1))"

end
