(* ===== verification/Json.thy ===== *)
theory Json
  imports Prelude
begin

text \<open>
  JSON values as Python sees them after \<open>json.loads\<close>: the dynamic type tests of the code
  (\<open>type(v) is int\<close>, \<open>isinstance(v, dict)\<close>) are constructor tests here. Object keys are ASCII
  \<open>string\<close>s, text values are code-point lists, and a dict keeps its insertion order. A float is
  a finite rational or one of the three non-finite values, so that comparisons with NaN come out
  false as they do in Python.
\<close>

datatype pyfloat = Fin rat | PosInf | NegInf | NaN

datatype json =
    JNull
  | JBool bool
  | JInt int
  | JFloat pyfloat
  | JStr pystr
  | JList "json list"
  | JObj "(string \<times> json) list"

fun is_obj :: "json \<Rightarrow> bool" where
  "is_obj (JObj _) = True"
| "is_obj _ = False"

fun obj_fields :: "json \<Rightarrow> (string \<times> json) list" where
  "obj_fields (JObj kvs) = kvs"
| "obj_fields _ = []"

text \<open>\<open>d.get(k)\<close> and \<open>d.get(k, default)\<close> on a dict.\<close>

definition jget :: "json \<Rightarrow> string \<Rightarrow> json" where
  "jget j k = (case map_of (obj_fields j) k of None \<Rightarrow> JNull | Some v \<Rightarrow> v)"

definition jget_def' :: "json \<Rightarrow> string \<Rightarrow> json \<Rightarrow> json" where
  "jget_def' j k d = (case map_of (obj_fields j) k of None \<Rightarrow> d | Some v \<Rightarrow> v)"

definition jkeys :: "json \<Rightarrow> string list" where
  "jkeys j = map fst (obj_fields j)"

definition jhas :: "json \<Rightarrow> string \<Rightarrow> bool" where
  "jhas j k \<longleftrightarrow> k \<in> set (jkeys j)"

text \<open>\<open>{**defaults, **overrides}\<close> read at one key.\<close>

definition jmerge :: "(string \<times> json) list \<Rightarrow> json \<Rightarrow> string \<Rightarrow> json" where
  "jmerge defaults over k = jget_def' over k (jget (JObj defaults) k)"

fun as_int :: "json \<Rightarrow> int option" where
  "as_int (JInt n) = Some n"
| "as_int _ = None"

text \<open>
  Python's \<open>==\<close> between a value and an integer literal: booleans and floats compare by value.
\<close>

fun py_eq_int :: "json \<Rightarrow> int \<Rightarrow> bool" where
  "py_eq_int (JInt n) k = (n = k)"
| "py_eq_int (JBool b) k = ((if b then 1 else 0) = k)"
| "py_eq_int (JFloat (Fin r)) k = (r = of_int k)"
| "py_eq_int _ k = False"

text \<open>A value as a number, for comparisons: \<open>None\<close> when it is not an \<open>int\<close>/\<open>float\<close> or is a bool.\<close>

fun as_number :: "json \<Rightarrow> pyfloat option" where
  "as_number (JInt n) = Some (Fin (of_int n))"
| "as_number (JFloat f) = Some f"
| "as_number _ = None"

fun pf_le :: "pyfloat \<Rightarrow> pyfloat \<Rightarrow> bool" where
  "pf_le (Fin a) (Fin b) = (a \<le> b)"
| "pf_le NaN _ = False"
| "pf_le _ NaN = False"
| "pf_le NegInf _ = True"
| "pf_le _ PosInf = True"
| "pf_le _ _ = False"

lemma as_int_iff [simp]: "as_int j = Some n \<longleftrightarrow> j = JInt n"
  by (cases j) auto

lemma jget_simps [simp]:
  "jget (JObj kvs) k = (case map_of kvs k of None \<Rightarrow> JNull | Some v \<Rightarrow> v)"
  by (simp add: jget_def)

lemma jhas_iff: "jhas j k \<longleftrightarrow> (\<exists>v. map_of (obj_fields j) k = Some v)"
  unfolding jhas_def jkeys_def by (metis map_of_eq_None_iff not_None_eq option.distinct(1) set_map)

lemma jget_def'_has: "jhas j k \<Longrightarrow> jget_def' j k d = jget j k"
  by (auto simp: jhas_iff jget_def'_def jget_def)

lemma jget_def'_hasnot: "\<not> jhas j k \<Longrightarrow> jget_def' j k d = d"
  by (auto simp: jhas_iff jget_def'_def split: option.splits)

section \<open>Whitespace\<close>

text \<open>The code points for which Python's \<open>str.isspace\<close> holds; \<open>strip\<close> removes them at both ends.\<close>

definition py_space :: "nat \<Rightarrow> bool" where
  "py_space c \<longleftrightarrow> c \<in> {9, 10, 11, 12, 13, 28, 29, 30, 31, 32, 133, 160, 5760, 8232, 8233, 8239, 8287, 12288}
     \<or> (8192 \<le> c \<and> c \<le> 8202)"

definition py_strip :: "pystr \<Rightarrow> pystr" where
  "py_strip s = rev (dropWhile py_space (rev (dropWhile py_space s)))"

text \<open>The truth value of \<open>s.strip()\<close>.\<close>

definition nonblank :: "pystr \<Rightarrow> bool" where
  "nonblank s \<longleftrightarrow> py_strip s \<noteq> []"

lemma nonblank_iff: "nonblank s \<longleftrightarrow> (\<exists>c \<in> set s. \<not> py_space c)"
proof
  assume "nonblank s"
  then have "\<not> (\<forall>c \<in> set (dropWhile py_space s). py_space c)"
    by (auto simp: nonblank_def py_strip_def dropWhile_eq_Nil_conv)
  then show "\<exists>c \<in> set s. \<not> py_space c"
    by (auto dest: set_dropWhileD)
next
  assume "\<exists>c \<in> set s. \<not> py_space c"
  then have "dropWhile py_space s \<noteq> []"
    by (auto simp: dropWhile_eq_Nil_conv)
  then have "\<not> py_space (hd (dropWhile py_space s))" and "hd (dropWhile py_space s) \<in> set (dropWhile py_space s)"
    by (simp_all add: hd_dropWhile)
  then show "nonblank s"
    by (auto simp: nonblank_def py_strip_def dropWhile_eq_Nil_conv)
qed

end
