(* ===== verification/CallModel.thy ===== *)
theory CallModel
  imports Json
begin

text \<open>
  The voice tables of \<open>backend/models/realtime_voice.py\<close>. Each closed vocabulary
  (\<open>VOICE_..._STATUSES\<close> and its siblings) is a datatype; its \<open>..._str\<close> function gives the stored
  string. The columns' \<open>@validates\<close> hooks are \<open>choice\<close>/\<open>optional_choice\<close> over the list of stored
  strings, so a value the ORM accepts is one the datatype can name (\<open>vocab_exact\<close>). A table row is a
  record whose fields are the columns, prefixed by the table: \<open>vc_\<close> for \<open>voice_call\<close>, \<open>tn_\<close> for
  \<open>voice_call_turn\<close>, and so on. A table is the list of its rows in id order; its unique
  constraints are a predicate. The bookkeeping columns \<open>created_at\<close>/\<open>updated_at\<close> are kept only
  where a modelled operation reads them.
\<close>

section \<open>Vocabularies\<close>

text \<open>\<open>_choice\<close> and \<open>_optional_choice\<close>: the value when it is allowed, \<open>ValueError\<close> otherwise.\<close>

definition choice :: "string \<Rightarrow> string option \<Rightarrow> string list \<Rightarrow> string res" where
  "choice field value allowed =
     (case value of
        Some v \<Rightarrow> if v \<in> set allowed then Inr v else Inl (ValueError field)
      | None \<Rightarrow> Inl (ValueError field))"

definition optional_choice :: "string \<Rightarrow> string option \<Rightarrow> string list \<Rightarrow> string option res" where
  "optional_choice field value allowed =
     (case value of
        None \<Rightarrow> Inr None
      | Some _ \<Rightarrow> (case choice field value allowed of Inl e \<Rightarrow> Inl e | Inr v \<Rightarrow> Inr (Some v)))"

datatype call_initiator =
    By_user
  | By_character

primrec call_initiator_str :: "call_initiator \<Rightarrow> string" where
    "call_initiator_str By_user = ''user''"
  | "call_initiator_str By_character = ''character''"

definition call_initiator_list :: "call_initiator list" where
  "call_initiator_list = [By_user, By_character]"

datatype call_status =
    Deciding
  | Ringing
  | Connected
  | Reconnecting
  | Ending
  | Ended
  | Missed
  | Failed
  | Cancelled

primrec call_status_str :: "call_status \<Rightarrow> string" where
    "call_status_str Deciding = ''deciding''"
  | "call_status_str Ringing = ''ringing''"
  | "call_status_str Connected = ''connected''"
  | "call_status_str Reconnecting = ''reconnecting''"
  | "call_status_str Ending = ''ending''"
  | "call_status_str Ended = ''ended''"
  | "call_status_str Missed = ''missed''"
  | "call_status_str Failed = ''failed''"
  | "call_status_str Cancelled = ''cancelled''"

definition call_status_list :: "call_status list" where
  "call_status_list = [Deciding, Ringing, Connected, Reconnecting, Ending, Ended, Missed, Failed, Cancelled]"

datatype summary_status =
    Sum_pending
  | Sum_ready
  | Sum_failed
  | Sum_not_applicable

primrec summary_status_str :: "summary_status \<Rightarrow> string" where
    "summary_status_str Sum_pending = ''pending''"
  | "summary_status_str Sum_ready = ''ready''"
  | "summary_status_str Sum_failed = ''failed''"
  | "summary_status_str Sum_not_applicable = ''not_applicable''"

definition summary_status_list :: "summary_status list" where
  "summary_status_list = [Sum_pending, Sum_ready, Sum_failed, Sum_not_applicable]"

datatype evidence =
    Full
  | Exact_played
  | Confirmed_sentences
  | No_evidence

primrec evidence_str :: "evidence \<Rightarrow> string" where
    "evidence_str Full = ''full''"
  | "evidence_str Exact_played = ''exact_played''"
  | "evidence_str Confirmed_sentences = ''confirmed_sentences''"
  | "evidence_str No_evidence = ''none''"

definition evidence_list :: "evidence list" where
  "evidence_list = [Full, Exact_played, Confirmed_sentences, No_evidence]"

datatype turn_status =
    Collecting
  | Finalized
  | Interrupted
  | Aborted

primrec turn_status_str :: "turn_status \<Rightarrow> string" where
    "turn_status_str Collecting = ''collecting''"
  | "turn_status_str Finalized = ''finalized''"
  | "turn_status_str Interrupted = ''interrupted''"
  | "turn_status_str Aborted = ''aborted''"

definition turn_status_list :: "turn_status list" where
  "turn_status_list = [Collecting, Finalized, Interrupted, Aborted]"

datatype memory_status =
    Mem_skipped
  | Mem_pending
  | Mem_processing
  | Mem_success
  | Mem_failed
  | Mem_cancelled

primrec memory_status_str :: "memory_status \<Rightarrow> string" where
    "memory_status_str Mem_skipped = ''skipped''"
  | "memory_status_str Mem_pending = ''pending''"
  | "memory_status_str Mem_processing = ''processing''"
  | "memory_status_str Mem_success = ''success''"
  | "memory_status_str Mem_failed = ''failed''"
  | "memory_status_str Mem_cancelled = ''cancelled''"

definition memory_status_list :: "memory_status list" where
  "memory_status_list = [Mem_skipped, Mem_pending, Mem_processing, Mem_success, Mem_failed, Mem_cancelled]"

datatype safety_status =
    Saf_pending
  | Saf_passed
  | Saf_matched
  | Saf_error_allowed

primrec safety_status_str :: "safety_status \<Rightarrow> string" where
    "safety_status_str Saf_pending = ''pending''"
  | "safety_status_str Saf_passed = ''passed''"
  | "safety_status_str Saf_matched = ''matched''"
  | "safety_status_str Saf_error_allowed = ''error_allowed''"

definition safety_status_list :: "safety_status list" where
  "safety_status_list = [Saf_pending, Saf_passed, Saf_matched, Saf_error_allowed]"

datatype crisis_status =
    Cri_pending
  | Cri_passed
  | Cri_matched
  | Cri_suspected
  | Cri_isolation_failed

primrec crisis_status_str :: "crisis_status \<Rightarrow> string" where
    "crisis_status_str Cri_pending = ''pending''"
  | "crisis_status_str Cri_passed = ''passed''"
  | "crisis_status_str Cri_matched = ''matched''"
  | "crisis_status_str Cri_suspected = ''suspected''"
  | "crisis_status_str Cri_isolation_failed = ''isolation_failed''"

definition crisis_status_list :: "crisis_status list" where
  "crisis_status_list = [Cri_pending, Cri_passed, Cri_matched, Cri_suspected, Cri_isolation_failed]"

datatype clear_reason =
    Clr_expired
  | Clr_admin_deleted

primrec clear_reason_str :: "clear_reason \<Rightarrow> string" where
    "clear_reason_str Clr_expired = ''expired''"
  | "clear_reason_str Clr_admin_deleted = ''admin_deleted''"

definition clear_reason_list :: "clear_reason list" where
  "clear_reason_list = [Clr_expired, Clr_admin_deleted]"

datatype postprocess_status =
    Post_pending
  | Post_processing
  | Post_success
  | Post_partial_success
  | Post_failed
  | Post_cancelled

primrec postprocess_status_str :: "postprocess_status \<Rightarrow> string" where
    "postprocess_status_str Post_pending = ''pending''"
  | "postprocess_status_str Post_processing = ''processing''"
  | "postprocess_status_str Post_success = ''success''"
  | "postprocess_status_str Post_partial_success = ''partial_success''"
  | "postprocess_status_str Post_failed = ''failed''"
  | "postprocess_status_str Post_cancelled = ''cancelled''"

definition postprocess_status_list :: "postprocess_status list" where
  "postprocess_status_list = [Post_pending, Post_processing, Post_success, Post_partial_success, Post_failed, Post_cancelled]"

datatype followup_type =
    Topic_continuation
  | Emotional_followup
  | Missed_explanation

primrec followup_type_str :: "followup_type \<Rightarrow> string" where
    "followup_type_str Topic_continuation = ''topic_continuation''"
  | "followup_type_str Emotional_followup = ''emotional_followup''"
  | "followup_type_str Missed_explanation = ''missed_explanation''"

definition followup_type_list :: "followup_type list" where
  "followup_type_list = [Topic_continuation, Emotional_followup, Missed_explanation]"

datatype followup_status =
    Fol_pending
  | Fol_processing
  | Fol_sent
  | Fol_cancelled
  | Fol_failed

primrec followup_status_str :: "followup_status \<Rightarrow> string" where
    "followup_status_str Fol_pending = ''pending''"
  | "followup_status_str Fol_processing = ''processing''"
  | "followup_status_str Fol_sent = ''sent''"
  | "followup_status_str Fol_cancelled = ''cancelled''"
  | "followup_status_str Fol_failed = ''failed''"

definition followup_status_list :: "followup_status list" where
  "followup_status_list = [Fol_pending, Fol_processing, Fol_sent, Fol_cancelled, Fol_failed]"

datatype relationship_stage =
    Stranger
  | Friend
  | Intimate
  | Soulmate

primrec relationship_stage_str :: "relationship_stage \<Rightarrow> string" where
    "relationship_stage_str Stranger = ''stranger''"
  | "relationship_stage_str Friend = ''friend''"
  | "relationship_stage_str Intimate = ''intimate''"
  | "relationship_stage_str Soulmate = ''soulmate''"

definition relationship_stage_list :: "relationship_stage list" where
  "relationship_stage_list = [Stranger, Friend, Intimate, Soulmate]"

section \<open>Rows\<close>

record voice_call =
  vc_id :: int
  vc_call_id :: string
  vc_user_id :: int
  vc_initiated_by :: call_initiator
  vc_status :: call_status
  vc_call01_fallback :: "bool option"
  vc_end_reason :: "string option"
  vc_provider :: "string option"
  vc_provider_session_id :: "string option"
  vc_provider_dialog_id :: "string option"
  vc_connected_at :: "datetime option"
  vc_ended_at :: "datetime option"
  vc_duration_seconds :: int
  vc_free_seconds_used :: int
  vc_extra_seconds_used :: int
  vc_grace_seconds :: int
  vc_growth_eligible_seconds :: int
  vc_growth_points :: int
  vc_sort_seq :: "int option"
  vc_summary_status :: summary_status
  vc_call_summary :: "pystr option"
  vc_user_emotion :: "pystr option"
  vc_assistant_emotion :: "pystr option"
  vc_unfinished_topics :: "json option"
  vc_summary_reasoning :: "pystr option"
  vc_config_snapshot :: json
  vc_capability_snapshot :: json
  vc_transcript_retention_days :: int
  vc_generated_retention_days :: int
  vc_transcript_expires_at :: "datetime option"
  vc_generated_text_expires_at :: "datetime option"
  vc_reasoning_expires_at :: "datetime option"
  vc_deletion_fence_at :: "datetime option"
  vc_deleted_at :: "datetime option"
  vc_deleted_by :: "int option"
  vc_created_at :: datetime

record idempotency_row =
  im_id :: int
  im_user_id :: int
  im_idempotency_key :: string
  im_request_payload_sha256 :: string
  im_call_id :: "string option"
  im_ticket_jti :: "string option"
  im_ticket_expires_at :: "datetime option"
  im_ticket_consumed_at :: "datetime option"
  im_replay_expires_at :: datetime

record turn_row =
  tn_id :: int
  tn_call_id :: string
  tn_turn_index :: int
  tn_question_id :: "pystr option"
  tn_reply_id :: "pystr option"
  tn_user_text_final :: "pystr option"
  tn_user_asr_confidence :: "pyfloat option"
  tn_assistant_text_generated :: "pystr option"
  tn_assistant_text_effective :: "pystr option"
  tn_evidence :: evidence
  tn_assistant_interrupted :: bool
  tn_played_audio_ms :: "int option"
  tn_playback_completed_at :: "datetime option"
  tn_status :: turn_status
  tn_memory_status :: memory_status
  tn_user_safety :: safety_status
  tn_assistant_safety :: safety_status
  tn_user_crisis :: crisis_status
  tn_assistant_crisis :: crisis_status
  tn_started_at :: datetime
  tn_finalized_at :: "datetime option"
  tn_effective_text_expires_at :: "datetime option"
  tn_generated_text_expires_at :: "datetime option"
  tn_effective_text_cleared_at :: "datetime option"
  tn_generated_text_cleared_at :: "datetime option"
  tn_content_clear_reason :: "clear_reason option"

record quota_account =
  qa_user_id :: int
  qa_free_quota_date :: date
  qa_free_remaining_seconds :: int
  qa_extra_remaining_seconds :: int
  qa_version :: int

record ledger_row =
  lg_call_id :: string
  lg_segment_seq :: int
  lg_free_seconds_used :: int
  lg_extra_seconds_used :: int
  lg_usage_type :: string
  lg_duration_seconds :: "int option"
  lg_quota_date :: "date option"

record memory_job =
  mj_id :: int
  mj_call_id :: string
  mj_turn_id :: int
  mj_turn_index :: int
  mj_pipeline_version :: string
  mj_status :: memory_status
  mj_attempt_count :: int
  mj_next_retry_at :: "datetime option"
  mj_extraction_snapshot :: "json option"
  mj_fail_reason :: "string option"
  mj_lease_owner :: "string option"
  mj_lease_expires_at :: "datetime option"
  mj_created_at :: datetime

record memory_trace =
  mt_call_id :: string
  mt_turn_index :: int
  mt_doc_id :: string
  mt_memory_type :: string
  mt_stable_key :: pystr
  mt_pipeline_version :: string
  mt_written_at :: datetime

record postprocess_job =
  pj_id :: int
  pj_call_id :: string
  pj_job_type :: string
  pj_status :: postprocess_status
  pj_attempt_count :: int
  pj_next_retry_at :: "datetime option"
  pj_fail_reason :: "string option"
  pj_lease_owner :: "string option"
  pj_lease_expires_at :: "datetime option"
  pj_created_at :: datetime

record followup_job =
  fj_id :: int
  fj_call_id :: string
  fj_user_id :: int
  fj_candidate_due_at :: datetime
  fj_due_at :: datetime
  fj_latest_due_at :: datetime
  fj_content :: pystr
  fj_content_type :: followup_type
  fj_status :: followup_status
  fj_cancel_reason :: "string option"
  fj_agent_message_id :: "int option"
  fj_relationship_stage_snapshot :: relationship_stage
  fj_schedule_config_version :: json
  fj_timezone_snapshot :: string
  fj_allowed_window_snapshot :: json
  fj_jitter_minutes :: int
  fj_attempt_count :: int
  fj_next_retry_at :: "datetime option"
  fj_fail_reason :: "string option"
  fj_lease_owner :: "string option"
  fj_lease_expires_at :: "datetime option"
  fj_created_at :: datetime

record crisis_row =
  cr_id :: int
  cr_call_id :: string
  cr_turn_index :: int
  cr_direction :: string
  cr_matched_keyword :: "pystr option"
  cr_content_plaintext :: "pystr option"
  cr_match_status :: string
  cr_is_persona_incident :: bool
  cr_expires_at :: datetime
  cr_cleared_at :: "datetime option"

section \<open>Unique constraints\<close>

text \<open>
  A SQL unique key ignores rows with a NULL component, so the question key only compares rows whose
  \<open>question_id\<close> is set.
\<close>

definition uk_voice_call :: "voice_call list \<Rightarrow> bool" where
  "uk_voice_call calls \<longleftrightarrow> distinct (map vc_call_id calls)"

definition uk_voice_turn :: "turn_row list \<Rightarrow> bool" where
  "uk_voice_turn turns \<longleftrightarrow>
     distinct (map (\<lambda>t. (tn_call_id t, tn_turn_index t)) turns) \<and>
     distinct (map (\<lambda>t. (tn_call_id t, tn_question_id t)) (filter (\<lambda>t. tn_question_id t \<noteq> None) turns))"

definition uk_voice_memory_job :: "memory_job list \<Rightarrow> bool" where
  "uk_voice_memory_job jobs \<longleftrightarrow> distinct (map (\<lambda>j. (mj_turn_id j, mj_pipeline_version j)) jobs)"

definition uk_voice_memory_trace :: "memory_trace list \<Rightarrow> bool" where
  "uk_voice_memory_trace rows \<longleftrightarrow>
     distinct (map (\<lambda>r. (mt_call_id r, mt_turn_index r, mt_doc_id r, mt_pipeline_version r)) rows)"

definition uk_voice_usage :: "ledger_row list \<Rightarrow> bool" where
  "uk_voice_usage rows \<longleftrightarrow> distinct (map (\<lambda>r. (lg_call_id r, lg_segment_seq r)) rows)"

definition uk_voice_crisis :: "crisis_row list \<Rightarrow> bool" where
  "uk_voice_crisis rows \<longleftrightarrow>
     distinct (map (\<lambda>r. (cr_call_id r, cr_turn_index r, cr_direction r)) rows)"

section \<open>Vocabulary facts\<close>

lemma call_status_str_inject [simp]: "call_status_str a = call_status_str b \<longleftrightarrow> a = b"
  by (cases a; cases b) simp_all

lemma turn_status_str_inject [simp]: "turn_status_str a = turn_status_str b \<longleftrightarrow> a = b"
  by (cases a; cases b) simp_all

lemma memory_status_str_inject [simp]: "memory_status_str a = memory_status_str b \<longleftrightarrow> a = b"
  by (cases a; cases b) simp_all

lemma safety_status_str_inject [simp]: "safety_status_str a = safety_status_str b \<longleftrightarrow> a = b"
  by (cases a; cases b) simp_all

lemma crisis_status_str_inject [simp]: "crisis_status_str a = crisis_status_str b \<longleftrightarrow> a = b"
  by (cases a; cases b) simp_all

lemma followup_status_str_inject [simp]: "followup_status_str a = followup_status_str b \<longleftrightarrow> a = b"
  by (cases a; cases b) simp_all

lemma postprocess_status_str_inject [simp]:
  "postprocess_status_str a = postprocess_status_str b \<longleftrightarrow> a = b"
  by (cases a; cases b) simp_all

lemma relationship_stage_str_inject [simp]:
  "relationship_stage_str a = relationship_stage_str b \<longleftrightarrow> a = b"
  by (cases a; cases b) simp_all

lemma vocab_exact:
  assumes "\<And>x. x \<in> set xs"
  shows "choice field v (map f xs) = Inr s \<longleftrightarrow> v = Some s \<and> (\<exists>x. s = f x)"
  using assms by (auto simp: choice_def split: option.splits)

lemma call_status_list_UNIV: "x \<in> set call_status_list"
  by (cases x) (simp_all add: call_status_list_def)

lemma turn_status_list_UNIV: "x \<in> set turn_status_list"
  by (cases x) (simp_all add: turn_status_list_def)

lemma memory_status_list_UNIV: "x \<in> set memory_status_list"
  by (cases x) (simp_all add: memory_status_list_def)

lemma safety_status_list_UNIV: "x \<in> set safety_status_list"
  by (cases x) (simp_all add: safety_status_list_def)

lemma crisis_status_list_UNIV: "x \<in> set crisis_status_list"
  by (cases x) (simp_all add: crisis_status_list_def)

lemma followup_status_list_UNIV: "x \<in> set followup_status_list"
  by (cases x) (simp_all add: followup_status_list_def)

lemma relationship_stage_list_UNIV: "x \<in> set relationship_stage_list"
  by (cases x) (simp_all add: relationship_stage_list_def)

end
