(* ===== verification/Metrics.thy ===== *)
theory Metrics
  imports Prelude "HOL-Library.List_Lexorder" "HOL-Library.Char_ord" "HOL-Library.Sublist"
begin

text \<open>
  The bounded producer counters of \<open>realtime_voice_metric_service.py\<close>: the closed table of event
  names and dimension values (\<open>event_dimensions\<close>, in the order of the source), the validation and
  the atomic increment script behind \<open>VoiceMetrics.emit_many\<close>, and the staging of events on a SQL
  transaction with its savepoint rollback hook.

  A staged event is a triple of name, dimensions and amount. The field of a counter hash is the
  dimensions in key order (the canonical JSON of the code), with the millisecond value of a
  duration sample. A counter value in Redis is a canonical decimal numeral (\<open>CNum\<close>) or anything
  else (\<open>CBad\<close>).
\<close>

section \<open>The event table\<close>

definition summary_reasons :: "string list" where
  "summary_reasons = [
    ''ineligible'', ''source_expired'', ''source_unavailable'', ''deleted'', ''lease_expired'',
    ''summary_configuration_invalid'', ''invalid_or_rejected_output'', ''model_unavailable'',
    ''result_commit_failed'']"

definition preflight_reasons :: "string list" where
  "preflight_reasons = [
    ''invalid_idempotency_key'', ''invalid_request'', ''invalid_device'', ''user_missing'',
    ''user_banned'', ''IDEMPOTENCY_KEY_REUSED'', ''idempotency_record_incomplete'',
    ''browser_unsupported'', ''microphone_denied'', ''dial_cooldown'', ''maintenance'',
    ''soft_stop'', ''disabled'', ''not_allowlisted'', ''quota_empty'', ''provider_unavailable'',
    ''crisis_config_unavailable'', ''user_busy'', ''capacity_full'', ''internal_unavailable'']"

definition call_statuses :: "string list" where
  "call_statuses = [
    ''deciding'', ''ringing'', ''connected'', ''reconnecting'', ''ending'', ''ended'', ''missed'',
    ''failed'', ''cancelled'']"

definition call_reasons :: "string list" where
  "call_reasons = [
    ''user_hangup'', ''user_cancel'', ''exit_intent'', ''silence_timeout'', ''quota_exhausted'',
    ''hard_limit'', ''reconnect_timeout'', ''provider_error'', ''system_error'',
    ''character_missed'', ''none'', ''other'']"

definition memory_job_reasons :: "string list" where
  "memory_job_reasons = [
    ''deletion_fence'', ''source_expired'', ''retention_expired'', ''recovery_snapshot_required'',
    ''lease_expired'', ''snapshot_invalid'', ''extract_unavailable'', ''write_unavailable'',
    ''safety_filtered'', ''invalid_output'', ''dropped_items'', ''skipped'', ''ineligible'',
    ''other'']"

definition recall_statuses :: "string list" where
  "recall_statuses = [
    ''ready'', ''cancelled'', ''context_unavailable'', ''cache_unavailable'', ''timeout'',
    ''invalid_output'', ''unavailable'', ''filtered'', ''not_needed'', ''empty'']"

definition admin_actions :: "string list" where
  "admin_actions = [
    ''view'', ''export'', ''debug'', ''retry'', ''delete'']"

definition event_dims_recall :: "(string \<times> (string \<times> string list) list) list" where
  "event_dims_recall = [
    (''voice.recall.trigger'', [(''result'', [''attempt''])]),
    (''voice.recall.result'', [(''result'', recall_statuses)]),
    (''voice.recall.latency_ms'', [(''result'', recall_statuses)]),
    (''voice.recall.mode'', [(''mode'', [''current_turn_requested'', ''next_turn_cached'', ''none''])]),
    (''voice.recall.source'', [
        (''source'',
          [''none'', ''short_term'', ''preamble'', ''topic_cache'', ''long_term''])]),
    (''voice.recall.timeout'', []),
    (''voice.recall.cache'', [(''result'', [''hit'', ''stored'', ''unavailable''])]),
    (''voice.recall.late'', [(''reason'', [''text_started'', ''stale_question''])]),
    (''voice.recall.delivery'', [
        (''result'',
          [''current_turn_requested'', ''next_turn'', ''failure'', ''cancelled''])]),
    (''voice.recall.double_reply'', [
        (''result'',
          [''detected'', ''prevented'']),
        (''unit'',
          [''frame'', ''injection''])]),
    (''voice.recall.reply_observed'', [
        (''kind'',
          [''primary'', ''extra'', ''overflow'']),
        (''evidence'',
          [''verified'', ''unverified''])]),
    (''voice.recall.not_measurable'', [(''reason'', [''adoption'', ''current_turn_capability''])])]"

definition event_dims_memory :: "(string \<times> (string \<times> string list) list) list" where
  "event_dims_memory = [
    (''voice.memory_job.enqueue'', [(''result'', [''pending'', ''skipped'', ''cancelled''])]),
    (''voice.memory_job.claim'', [(''phase'', [''first'', ''retry''])]),
    (''voice.memory_job.enqueue_to_claim_ms'', [
        (''phase'',
          [''first'', ''retry'']),
        (''capped'',
          [''true'', ''false''])]),
    (''voice.memory_job.result'', [(''result'', [''success'', ''failed'', ''skipped'', ''cancelled''])]),
    (''voice.memory_job.retry'', [(''source'', [''automatic'', ''admin'']), (''reason'', memory_job_reasons)]),
    (''voice.memory_job.drop'', [(''reason'', memory_job_reasons)]),
    (''voice.memory_job.compensate'', [(''result'', [''repaired'', ''no_change''])]),
    (''voice.memory_job.compensated_jobs'', []),
    (''voice.memory_job.fence_cancel'', []),
    (''voice.memory_extract.enqueue'', [(''result'', [''pending'', ''skipped'', ''cancelled''])]),
    (''voice.memory_extract.eligible'', [(''result'', [''eligible'', ''skipped''])]),
    (''voice.memory_extract.skip'', [
        (''reason'',
          [''deletion_fence'', ''low_confidence'', ''no_user_text'', ''not_closed'',
           ''no_effective_text'', ''safety'', ''crisis'', ''no_meaningful_text'',
           ''invalid_output'', ''all_items_dropped'', ''no_items''])]),
    (''voice.memory_extract.result'', [
        (''result'',
          [''ready'', ''skipped'', ''invalid_output'', ''unavailable''])]),
    (''voice.memory_extract.drop'', [
        (''reason'',
          [''invalid_atom'', ''duplicate_key'', ''item_limit'', ''schema_invalid'', ''safety''])]),
    (''voice.memory_extract.output'', [(''bucket'', [''0'', ''1'', ''2'', ''3'', ''4'', ''5''])]),
    (''voice.memory_upsert.source_observation'', [
        (''previous'',
          [''voice'', ''text'', ''admin'', ''unknown'']),
        (''current'',
          [''voice'']),
        (''boundary'',
          [''prewrite''])]),
    (''voice.memory_upsert.result'', [
        (''result'',
          [''written'', ''existing'', ''superseded'', ''cancelled'', ''failure''])]),
    (''voice.memory_upsert.conflict'', [
        (''scope'',
          [''stable_key'', ''cross_channel'']),
        (''result'',
          [''busy'', ''existing'', ''superseded'', ''not_measurable''])])]"

definition event_dims_context :: "(string \<times> (string \<times> string list) list) list" where
  "event_dims_context = [
    (''voice.context_pack.result'', [(''result'', [''full'', ''minimal'', ''failure'', ''cancelled''])]),
    (''voice.context_pack.duration_ms'', [(''result'', [''full'', ''minimal'', ''failure'', ''cancelled''])]),
    (''voice.context_pack.size_chars'', [(''section'', [''persona'', ''dynamic''])]),
    (''voice.context_pack.crop_count'', []),
    (''voice.context_pack.fallback'', [
        (''reason'',
          [''timeout'', ''source_failed'', ''source_invalid'', ''compile_timeout'', ''unavailable''])]),
    (''voice.context_pack.failure'', [
        (''reason'',
          [''persona_anchor_invalid'', ''context_config_invalid'', ''persona_empty'',
           ''minimum_context_budget_invalid'', ''referenced_persona_unavailable'', ''timeout'',
           ''cancelled'', ''unavailable''])]),
    (''voice.context_pack.barrier'', [(''result'', [''released'', ''not_released''])])]"

definition event_dims_safety :: "(string \<times> (string \<times> string list) list) list" where
  "event_dims_safety = [
    (''voice.crisis.assessment'', [
        (''direction'',
          [''user'', ''assistant'']),
        (''result'',
          [''passed'', ''matched'', ''suspected''])]),
    (''voice.crisis.hit'', [
        (''direction'',
          [''user'', ''assistant'']),
        (''result'',
          [''matched'', ''suspected''])]),
    (''voice.crisis.suspected'', [
        (''direction'',
          [''user'', ''assistant'']),
        (''reason'',
          [''redis_unavailable'', ''missing'', ''invalid_json'', ''invalid_or_empty'', ''unavailable''])]),
    (''voice.crisis.redis_error'', [(''direction'', [''user'', ''assistant''])]),
    (''voice.crisis.alert'', [(''result'', [''success'', ''failure''])]),
    (''voice.crisis.audit'', [(''action'', [''list'', ''detail'']), (''result'', [''success'', ''failure''])]),
    (''voice.content_safety.result'', [
        (''direction'',
          [''user'', ''assistant'']),
        (''result'',
          [''passed'', ''matched'', ''error_allowed''])]),
    (''voice.content_safety.keyword_hit'', [(''direction'', [''user'', ''assistant''])]),
    (''voice.content_safety.exception_allowed'', [(''direction'', [''user'', ''assistant''])]),
    (''voice.content_safety.deduplicated'', [(''direction'', [''user'', ''assistant''])]),
    (''voice.content_safety.dedup_unavailable'', [(''direction'', [''user'', ''assistant''])])]"

definition event_dims_growth :: "(string \<times> (string \<times> string list) list) list" where
  "event_dims_growth = [
    (''voice.growth.result'', [(''result'', [''eligible'', ''ineligible''])]),
    (''voice.growth.eligible_seconds'', []),
    (''voice.growth.points'', []),
    (''voice.growth.daily_cap_hit'', []),
    (''voice.growth.idempotent'', []),
    (''voice.cross_modal.proactive_reset'', []),
    (''voice.cross_modal.p0_suppressed'', []),
    (''voice.cross_modal.diary'', [(''result'', [''voice_interaction''])]),
    (''voice.cross_modal.diary_summary'', [(''result'', [''ready'', ''fallback''])])]"

definition event_dims_reconnect :: "(string \<times> (string \<times> string list) list) list" where
  "event_dims_reconnect = [
    (''voice.reconnect.trigger'', [(''reason'', [''client_disconnect'', ''provider_disconnect''])]),
    (''voice.reconnect.attempt'', [(''phase'', [''window'', ''provider''])]),
    (''voice.reconnect.result'', [
        (''result'',
          [''restored'', ''timeout'', ''failure'', ''cancelled'', ''disconnect_failed''])]),
    (''voice.reconnect.duration_ms'', [
        (''result'',
          [''restored'', ''timeout'', ''failure'', ''cancelled'', ''disconnect_failed''])]),
    (''voice.reconnect.timeout'', []),
    (''voice.reconnect.mode'', [(''mode'', [''same_session'', ''new_session'', ''unavailable''])]),
    (''voice.reconnect.no_charge_boundary'', [(''boundary'', [''pause'', ''resume''])]),
    (''voice.reconnect.no_charge_ms'', [(''boundary'', [''meter_observation''])])]"

definition event_dims_ending :: "(string \<times> (string \<times> string list) list) list" where
  "event_dims_ending = [
    (''voice.finalizer.end_reason'', [(''reason'', call_reasons)]),
    (''voice.finalizer.replay'', []),
    (''voice.finalizer.policy'', [
        (''kind'',
          [''hard_limit'', ''quota_exhausted'', ''silence_timeout'', ''exit_intent'',
           ''silence_goodbye'', ''exit_goodbye'', ''native_exit'', ''goodbye_cancelled'',
           ''grace_started'', ''silence_confirm'', ''time_low''])]),
    (''voice.barge_in.decision'', [
        (''source'',
          [''filter'', ''classifier'']),
        (''result'',
          [''candidate'', ''backchannel'', ''escalated''])]),
    (''voice.barge_in.stop_clear'', [
        (''result'',
          [''requested'', ''send_failed'', ''acknowledged'', ''ack_unavailable''])]),
    (''voice.barge_in.stop_clear_latency_ms'', [(''boundary'', [''server_request_to_client_ack''])]),
    (''voice.barge_in.truncate'', [
        (''result'',
          [''requested'', ''success'', ''failure'', ''not_measurable'']),
        (''reason'',
          [''request'', ''confirmed'', ''request_failed'', ''capability_unavailable'',
           ''identity_unavailable'', ''confirmation_unavailable''])]),
    (''voice.barge_in.false_interrupt'', [(''result'', [''not_measurable''])]),
    (''voice.barge_in.truncate_outcome'', [
        (''result'',
          [''success'', ''failure'', ''unknown'']),
        (''evidence'',
          [''verified'', ''unverified''])])]"

definition event_dims_turn :: "(string \<times> (string \<times> string list) list) list" where
  "event_dims_turn = [
    (''voice.effective_text.evidence'', [
        (''level'',
          [''exact_played'', ''confirmed_sentences'', ''full'', ''none''])]),
    (''voice.effective_text.observed'', [
        (''level'',
          [''exact_played'', ''confirmed_sentences'', ''full'', ''none'']),
        (''evidence'',
          [''verified'', ''unverified''])]),
    (''voice.effective_text.event'', [
        (''kind'',
          [''mapping_unavailable'', ''ack_unavailable'', ''invalid_client_event'',
           ''duplicate_client_event'', ''out_of_order_client_event''])]),
    (''voice.turn.event'', [
        (''kind'',
          [''interim'', ''final'', ''duplicate'', ''out_of_order'', ''orphan'', ''incomplete'',
           ''late'', ''gate_error'', ''isolation_failed'', ''persistence_failed''])]),
    (''voice.turn.close_duration_ms'', []),
    (''voice.turn.closed'', [])]"

definition event_dims_state :: "(string \<times> (string \<times> string list) list) list" where
  "event_dims_state = [
    (''voice.state.transition'', [(''from'', call_statuses), (''to'', call_statuses), (''reason'', call_reasons)]),
    (''voice.state.invalid_transition'', []),
    (''voice.state.terminal_replay'', [])]"

definition event_dims_socket :: "(string \<times> (string \<times> string list) list) list" where
  "event_dims_socket = [
    (''voice.ws.connection'', [
        (''channel'',
          [''initial'', ''reconnect'']),
        (''result'',
          [''accepted'', ''disconnected''])]),
    (''voice.ws.concurrency'', [
        (''scope'',
          [''process_handlers'']),
        (''bucket'',
          [''0'', ''1'', ''2_5'', ''6_10'', ''over_10''])]),
    (''voice.ws.rejection'', [
        (''channel'',
          [''initial'', ''reconnect'']),
        (''reason'',
          [''origin'', ''tls'', ''ticket'', ''connection''])]),
    (''voice.ws.frame_rejection'', [
        (''reason'',
          [''frame_too_large'', ''frame_rate_exceeded'', ''frame_invalid'', ''invalid''])]),
    (''voice.ws.heartbeat_timeout'', []),
    (''voice.ws.close_reason'', [
        (''reason'',
          [''user_hangup'', ''user_cancel'', ''exit_intent'', ''silence_timeout'',
           ''quota_exhausted'', ''hard_limit'', ''reconnect_timeout'', ''provider_error'',
           ''system_error'', ''character_missed'', ''other'', ''unavailable''])])]"

definition event_dims_establish :: "(string \<times> (string \<times> string list) list) list" where
  "event_dims_establish = [
    (''voice.call01.decision_duration_ms'', [(''result'', [''model'', ''fallback''])]),
    (''voice.call01.output'', [(''result'', [''valid'', ''invalid'', ''timeout''])]),
    (''voice.call01.decision'', [(''result'', [''answer'', ''missed'']), (''mode'', [''forced'', ''ordinary''])]),
    (''voice.call01.fallback'', [(''reason'', [''timeout'', ''decision_invalid''])]),
    (''voice.call01.final_latency_ms'', [(''result'', [''connected'', ''missed'', ''failed'', ''cancelled''])]),
    (''voice.call01.ringing_result'', [(''result'', [''connected'', ''missed'', ''failed'', ''cancelled''])]),
    (''voice.call01.provider_ready'', [(''order'', [''before_target'', ''after_target'', ''unavailable''])]),
    (''voice.preflight.result'', [(''result'', [''created'', ''replay'', ''blocked'', ''cancelled''])]),
    (''voice.preflight.block_reason'', [(''reason'', preflight_reasons)]),
    (''voice.preflight.idempotency'', [(''result'', [''replay'', ''conflict''])]),
    (''voice.lease.acquire'', [(''result'', [''acquired'', ''user_busy'', ''capacity_full'', ''failure''])]),
    (''voice.lease.renew'', [(''result'', [''renewed'', ''owner_mismatch'', ''failure''])]),
    (''voice.lease.release'', [(''result'', [''released'', ''owner_mismatch'', ''failure''])]),
    (''voice.lease.owner_mismatch'', [(''operation'', [''renew'', ''release'', ''check''])]),
    (''voice.lease.reconcile'', [(''result'', [''success'', ''failure''])]),
    (''voice.lease.reconcile_corrected'', []),
    (''voice.ops_stop.result'', [
        (''operation'',
          [''soft'', ''hard'']),
        (''result'',
          [''success'', ''repeated'', ''partial_failure'', ''failure'', ''rejected''])])]"

definition event_dims_quota :: "(string \<times> (string \<times> string list) list) list" where
  "event_dims_quota = [
    (''voice.quota.usage_slice'', [(''kind'', [''connected'', ''grace''])]),
    (''voice.quota.usage_seconds'', [(''kind'', [''connected'', ''grace''])]),
    (''voice.quota.balance_zero'', []),
    (''voice.quota.grace'', [(''result'', [''trigger'', ''end''])]),
    (''voice.quota.grace_seconds'', []),
    (''voice.quota.billing_input_seconds'', [(''source'', [''server''])]),
    (''voice.quota.deduplicated'', []),
    (''voice.quota.transaction_conflict'', [(''reason'', [''checkpoint'', ''balance'', ''database''])])]"

definition event_dims_provider :: "(string \<times> (string \<times> string list) list) list" where
  "event_dims_provider = [
    (''voice.provider.session'', [
        (''operation'',
          [''connect'', ''finish'']),
        (''result'',
          [''attempt'', ''success'', ''failure'', ''cancelled''])]),
    (''voice.provider.start'', [(''result'', [''attempt'', ''success'', ''failure'', ''cancelled''])]),
    (''voice.provider.error'', [
        (''reason'',
          [''invalid_config'', ''credential_missing'', ''authentication_failed'', ''timeout'',
           ''upstream_unavailable'', ''protocol_error'', ''evidence_invalid''])]),
    (''voice.provider.usage'', [(''result'', [''received'', ''missing'', ''invalid'', ''late''])]),
    (''voice.provider.capability'', [
        (''capability'',
          [''supports_reply_cancel'', ''supports_context_truncate'',
           ''supports_current_turn_rag_gate'', ''supports_session_reconnect'',
           ''supports_playback_text_mapping'', ''supports_sentence_playback_ack'']),
        (''result'',
          [''enabled'', ''downgraded'', ''not_measurable''])])]"

definition event_dims_summary :: "(string \<times> (string \<times> string list) list) list" where
  "event_dims_summary = [
    (''voice.timeline.insert'', [(''status'', [''ended'', ''missed''])]),
    (''voice.timeline.update'', [(''status'', [''ready'', ''not_applicable'', ''failed''])]),
    (''voice.timeline.pending_reload'', []),
    (''voice.timeline.cursor_duplicate'', [(''scope'', [''page'', ''anchor''])]),
    (''voice.timeline.cursor_missing'', [(''scope'', [''anchor''])]),
    (''voice.summary.eligible'', [(''result'', [''eligible'', ''ineligible''])]),
    (''voice.summary.result'', [(''result'', [''ready'', ''not_applicable'', ''failed'', ''cancelled''])]),
    (''voice.summary.failure'', [(''reason'', summary_reasons)]),
    (''voice.summary.static_fallback'', [(''reason'', summary_reasons)]),
    (''voice.summary.card_update'', [(''status'', [''ready'', ''not_applicable'', ''failed''])]),
    (''voice.summary.reasoning_expiry'', [])]"

definition event_dims_followup :: "(string \<times> (string \<times> string list) list) list" where
  "event_dims_followup = [
    (''voice.followup.branch'', [(''branch'', [''missed'', ''topic''])]),
    (''voice.followup.schedule'', [(''result'', [''pending'', ''cancelled'', ''window_deferred''])]),
    (''voice.followup.send'', [(''result'', [''sent''])]),
    (''voice.followup.cancel'', [
        (''reason'',
          [''source_missing'', ''source_deleted'', ''source_expired'', ''deadline_exceeded'',
           ''content_unavailable'', ''source_ineligible'', ''user_chatted'', ''topic_continued'',
           ''already_sent'', ''quota_unavailable'', ''deletion_fence'', ''retention_expired'',
           ''max_delay_exceeded''])]),
    (''voice.followup.retry'', [(''reason'', [''dispatch_unavailable'', ''count_pending'', ''lease_expired''])]),
    (''voice.followup.failure'', [(''reason'', [''source_missing'', ''invalid_snapshot'', ''message_missing''])])]"

definition event_dims_retention :: "(string \<times> (string \<times> string list) list) list" where
  "event_dims_retention = [
    (''voice.retention.expiry_scan'', [
        (''kind'',
          [''contents'', ''replays'']),
        (''result'',
          [''success'', ''failure''])]),
    (''voice.retention.single_call_delete'', [
        (''result'',
          [''deleted'', ''repeated'', ''failure'', ''rejected''])]),
    (''voice.retention.fence'', [(''result'', [''set'', ''existing''])]),
    (''voice.retention.cancel'', [
        (''kind'',
          [''memory'', ''postprocess'', ''followup'']),
        (''reason'',
          [''deletion_fence'', ''source_expired'', ''retention_expired''])]),
    (''voice.retention.retry'', [
        (''reason'',
          [''contents_unavailable'', ''replays_unavailable'', ''delete_unavailable''])])]"

definition event_dims_admin :: "(string \<times> (string \<times> string list) list) list" where
  "event_dims_admin = [
    (''voice.admin_record.authorization'', [
        (''action'',
          admin_actions),
        (''result'',
          [''authorized'', ''denied''])]),
    (''voice.admin_record.result'', [
        (''action'',
          admin_actions),
        (''result'',
          [''success'', ''rejected'', ''failure''])]),
    (''voice.admin_record.audit'', [(''action'', admin_actions), (''result'', [''success'', ''failure''])]),
    (''voice.admin_record.fixed_snapshot'', [(''result'', [''valid'', ''projection_mismatch''])])]"

definition event_dimensions :: "(string \<times> (string \<times> string list) list) list" where
  "event_dimensions =
     event_dims_recall
     @ event_dims_memory
     @ event_dims_context
     @ event_dims_safety
     @ event_dims_growth
     @ event_dims_reconnect
     @ event_dims_ending
     @ event_dims_turn
     @ event_dims_state
     @ event_dims_socket
     @ event_dims_establish
     @ event_dims_quota
     @ event_dims_provider
     @ event_dims_summary
     @ event_dims_followup
     @ event_dims_retention
     @ event_dims_admin"

section \<open>Validation\<close>

type_synonym dims = "(string \<times> string) list"
type_synonym event = "string \<times> dims \<times> int"
type_synonym field = "dims \<times> int option"

text \<open>The three checks of \<open>emit_many\<close>: a registered name with exactly its dimension keys, every
  value in its closed set, a bounded nonnegative amount.\<close>

definition dims_ok :: "(string \<times> string list) list \<Rightarrow> dims \<Rightarrow> bool" where
  "dims_ok schema d \<longleftrightarrow>
     set (map fst d) = set (map fst schema) \<and>
     (\<forall>(k, v) \<in> set d. case map_of schema k of None \<Rightarrow> False | Some vs \<Rightarrow> v \<in> set vs)"

definition event_ok :: "event \<Rightarrow> bool" where
  "event_ok ev = (case ev of (name, d, amount) \<Rightarrow>
     (case map_of event_dimensions name of
        None \<Rightarrow> False
      | Some schema \<Rightarrow> dims_ok schema d \<and> 0 \<le> amount \<and> amount \<le> 1000000000))"

definition duration_metric :: "string \<Rightarrow> bool" where
  "duration_metric name \<longleftrightarrow> suffix ''_ms'' name \<and> map_of event_dimensions name \<noteq> None"

definition canon :: "dims \<Rightarrow> dims" where
  "canon d = sort_key fst d"

text \<open>The commands one event contributes: a histogram sample for a duration, and the counter
  itself unless its amount is zero.\<close>

definition event_cmds :: "string \<Rightarrow> event \<Rightarrow> (string \<times> field \<times> int) list" where
  "event_cmds day ev = (case ev of (name, d, amount) \<Rightarrow>
     (if duration_metric name
      then [(''voice.duration_histogram:'' @ name @ '':'' @ day, (canon d, Some amount), 1)]
      else []) @
     (if amount \<noteq> 0 then [(name @ '':'' @ day, (canon d, None), amount)] else []))"

fun build_cmds :: "string \<Rightarrow> event list \<Rightarrow> (string \<times> field \<times> int) list option" where
  "build_cmds day [] = Some []"
| "build_cmds day (ev # evs) =
     (if event_ok ev then map_option (\<lambda>cs. event_cmds day ev @ cs) (build_cmds day evs) else None)"

section \<open>The increment script\<close>

datatype cval = CNum int | CBad

datatype rkey = RNone | RHash "(field \<times> cval) list" | ROther

record cstore =
  cs_keys :: "string \<Rightarrow> rkey"
  cs_ttl :: "string \<Rightarrow> int option"

definition hget :: "rkey \<Rightarrow> field \<Rightarrow> cval option" where
  "hget r f = (case r of RHash h \<Rightarrow> map_of h f | _ \<Rightarrow> None)"

definition cmd_valid :: "cstore \<Rightarrow> string \<times> field \<times> int \<Rightarrow> bool" where
  "cmd_valid s c = (case c of (key, f, _) \<Rightarrow>
     cs_keys s key \<noteq> ROther \<and>
     (case hget (cs_keys s key) f of
        None \<Rightarrow> True
      | Some (CNum n) \<Rightarrow> n \<le> 1000000000000
      | Some CBad \<Rightarrow> False))"

definition counter :: "cstore \<Rightarrow> string \<Rightarrow> field \<Rightarrow> int" where
  "counter s key f = (case hget (cs_keys s key) f of Some (CNum n) \<Rightarrow> n | _ \<Rightarrow> 0)"

definition cmd_apply :: "string \<times> field \<times> int \<Rightarrow> cstore \<Rightarrow> cstore" where
  "cmd_apply c s = (case c of (key, f, amount) \<Rightarrow>
     s\<lparr>cs_keys := (cs_keys s)(key := RHash (AList.update f (CNum (counter s key f + amount))
                     (case cs_keys s key of RHash h \<Rightarrow> h | _ \<Rightarrow> []))),
       cs_ttl := (cs_ttl s)(key := Some 172800)\<rparr>)"

text \<open>\<open>_INCREMENT\<close>: every key is checked before any is changed.\<close>

definition increment_script :: "(string \<times> field \<times> int) list \<Rightarrow> cstore \<Rightarrow> cstore option" where
  "increment_script cs s = (if list_all (cmd_valid s) cs then Some (fold cmd_apply cs s) else None)"

text \<open>
  What the bounded call to the cache can do: return the script's reply, fail before running it, or
  run it and lose the reply (the 0.1 s deadline).
\<close>

datatype delivery = Replied | Unreachable | Reply_lost

definition emit_many :: "delivery \<Rightarrow> string \<Rightarrow> event list \<Rightarrow> cstore \<Rightarrow> bool \<times> cstore" where
  "emit_many dl day evs s =
     (case build_cmds day evs of
        None \<Rightarrow> (False, s)
      | Some [] \<Rightarrow> (True, s)
      | Some cs \<Rightarrow>
          (case dl of
             Unreachable \<Rightarrow> (False, s)
           | Reply_lost \<Rightarrow> (False, case increment_script cs s of None \<Rightarrow> s | Some s' \<Rightarrow> s')
           | Replied \<Rightarrow> (case increment_script cs s of None \<Rightarrow> (False, s) | Some s' \<Rightarrow> (True, s'))))"

section \<open>Staging on a transaction\<close>

text \<open>
  A transaction is its path of identities from itself to the root, each with its \<open>nested\<close> flag
  (true for a savepoint). The hook first climbs from the internal subtransactions of a flush.
\<close>

type_synonym txn = "(nat \<times> bool) list"
type_synonym staged = "(event \<times> txn) list"

fun climb :: "txn \<Rightarrow> txn" where
  "climb [] = []"
| "climb ((i, nested) # ps) = (if nested \<or> ps = [] then (i, nested) # ps else climb ps)"

definition is_nested :: "txn \<Rightarrow> bool" where
  "is_nested t = (case t of [] \<Rightarrow> False | (_, nested) # _ \<Rightarrow> nested)"

definition stage_voice_metrics :: "txn \<Rightarrow> event list \<Rightarrow> staged \<Rightarrow> staged" where
  "stage_voice_metrics owner evs st = st @ map (\<lambda>ev. (ev, owner)) evs"

definition discard_rolled_back :: "txn \<Rightarrow> staged \<Rightarrow> staged" where
  "discard_rolled_back previous st =
     (let p = climb previous in
      if \<not> is_nested p then [] else filter (\<lambda>(ev, owner). \<not> suffix p owner) st)"

definition flush_voice_metrics :: "delivery \<Rightarrow> string \<Rightarrow> staged \<Rightarrow> cstore \<Rightarrow> staged \<times> cstore" where
  "flush_voice_metrics dl day st s =
     ([], if st = [] then s else snd (emit_many dl day (map fst st) s))"

section \<open>Facts\<close>

lemma build_cmds_Some_iff:
  "build_cmds day evs = Some cs \<longleftrightarrow> list_all event_ok evs \<and> cs = concat (map (event_cmds day) evs)"
  by (induction evs arbitrary: cs) auto

lemma counter_cmd_apply:
  "counter (cmd_apply (k, f, a) s) k' f' =
     (if k' = k \<and> f' = f then counter s k f + a else counter s k' f')"
  if "cs_keys s k \<noteq> ROther"
  using that by (auto simp: counter_def cmd_apply_def hget_def dict_get_update split: rkey.splits)

lemma not_other_cmd_apply: "cs_keys s k \<noteq> ROther \<Longrightarrow> cs_keys (cmd_apply c s) k \<noteq> ROther"
  by (cases c) (auto simp: cmd_apply_def)

lemma counter_fold:
  assumes "\<forall>c \<in> set cs. cs_keys s (fst c) \<noteq> ROther"
  shows "counter (fold cmd_apply cs s) k f =
    counter s k f + sum_list (map (\<lambda>(k', f', a). if k' = k \<and> f' = f then a else 0) cs)"
  using assms
proof (induction cs arbitrary: s)
  case (Cons c cs)
  obtain k' f' a where c: "c = (k', f', a)" by (cases c)
  have "\<forall>c' \<in> set cs. cs_keys (cmd_apply c s) (fst c') \<noteq> ROther"
    using Cons.prems by (intro ballI not_other_cmd_apply) simp
  then have "counter (fold cmd_apply cs (cmd_apply c s)) k f =
    counter (cmd_apply c s) k f + sum_list (map (\<lambda>(k', f', a). if k' = k \<and> f' = f then a else 0) cs)"
    by (rule Cons.IH)
  with Cons.prems show ?case by (auto simp: c counter_cmd_apply)
qed simp

lemma increment_counter:
  assumes "increment_script cs s = Some s'"
  shows "counter s' k f = counter s k f + sum_list (map (\<lambda>(k', f', a). if k' = k \<and> f' = f then a else 0) cs)"
proof -
  have "\<forall>c \<in> set cs. cs_keys s (fst c) \<noteq> ROther"
    using assms by (auto simp: increment_script_def list_all_iff cmd_valid_def split: if_splits)
  then show ?thesis
    using assms by (auto simp: increment_script_def counter_fold split: if_splits)
qed

definition event_sum :: "string \<Rightarrow> dims \<Rightarrow> event list \<Rightarrow> int" where
  "event_sum name d evs = sum_list (map (\<lambda>(n, e, a). if n = name \<and> canon e = d then a else 0) evs)"

lemma event_cmds_sum:
  assumes "key = name @ '':'' @ day"
  shows "sum_list (map (\<lambda>(k', f', a). if k' = key \<and> f' = (d, None) then a else 0)
     (event_cmds day ev)) = (case ev of (n, e, a) \<Rightarrow> if n = name \<and> canon e = d then a else 0)"
  using assms by (cases ev) (auto simp: event_cmds_def)

lemma concat_cmds_sum:
  assumes "key = name @ '':'' @ day"
  shows "sum_list (map (\<lambda>(k', f', a). if k' = key \<and> f' = (d, None) then a else 0)
     (concat (map (event_cmds day) evs))) = event_sum name d evs"
  unfolding event_sum_def
  by (induction evs) (simp_all add: event_cmds_sum [OF assms])

lemma emit_many_Replied:
  "emit_many Replied day evs s =
     (let cs = concat (map (event_cmds day) evs) in
      if list_all event_ok evs \<and> list_all (cmd_valid s) cs then (True, fold cmd_apply cs s) else (False, s))"
proof (cases "build_cmds day evs")
  case None
  then have "\<not> list_all event_ok evs"
    using build_cmds_Some_iff by (metis option.distinct(1))
  with None show ?thesis by (auto simp: emit_many_def Let_def)
next
  case (Some cs)
  then have ok: "list_all event_ok evs" and cs: "concat (map (event_cmds day) evs) = cs"
    by (simp_all add: build_cmds_Some_iff)
  show ?thesis
    unfolding cs Let_def using Some ok
    by (cases cs) (simp_all add: emit_many_def increment_script_def)
qed

lemma emit_many_counts_h:
  assumes "fst (emit_many Replied day evs s)"
  shows "counter (snd (emit_many Replied day evs s)) (name @ '':'' @ day) (d, None) =
    counter s (name @ '':'' @ day) (d, None) + event_sum name d evs"
proof -
  let ?cs = "concat (map (event_cmds day) evs)"
  from assms have "increment_script ?cs s = Some (snd (emit_many Replied day evs s))"
    by (auto simp: emit_many_Replied Let_def increment_script_def split: if_splits)
  from increment_counter [OF this, of "name @ '':'' @ day" "(d, None)"]
  show ?thesis using concat_cmds_sum [OF refl, of name day d evs] by simp
qed

lemma emit_many_False_unchanged_h:
  assumes "\<not> fst (emit_many dl day evs s)" "dl \<noteq> Reply_lost"
  shows "snd (emit_many dl day evs s) = s"
  using assms
  by (auto simp: emit_many_def increment_script_def split: option.splits list.splits delivery.splits if_splits)

section \<open>Looking up an event name\<close>

text \<open>
  The second component of a name (\<open>state\<close> of \<open>voice.state.transition\<close>) determines its group of the
  table, which makes a lookup local to that group.
\<close>

definition name_component :: "string \<Rightarrow> string" where
  "name_component k = takeWhile (\<lambda>c. c \<noteq> CHR ''.'') (drop 6 k)"

definition components_within :: "string list \<Rightarrow> (string \<times> 'a) list \<Rightarrow> bool" where
  "components_within cs t \<longleftrightarrow> list_all (\<lambda>kv. name_component (fst kv) \<in> set cs) t"

definition dims_in :: "(string \<times> (string \<times> string list) list) list \<Rightarrow> string \<Rightarrow> dims \<Rightarrow> bool" where
  "dims_in t name d = (case map_of t name of None \<Rightarrow> False | Some schema \<Rightarrow> dims_ok schema d)"

definition dims_registered :: "string \<Rightarrow> dims \<Rightarrow> bool" where
  "dims_registered name d = dims_in event_dimensions name d"

lemma event_ok_dims: "event_ok (name, d, a) \<longleftrightarrow> dims_registered name d \<and> 0 \<le> a \<and> a \<le> 1000000000"
  by (auto simp: event_ok_def dims_registered_def dims_in_def split: option.splits)

lemma components_None:
  "components_within cs t \<Longrightarrow> name_component k \<notin> set cs \<Longrightarrow> map_of t k = None"
  by (auto simp: components_within_def list_all_iff map_of_eq_None_iff)

lemma group_components:
  "components_within [''recall''] event_dims_recall"
  "components_within [''memory_job'', ''memory_extract'', ''memory_upsert''] event_dims_memory"
  "components_within [''context_pack''] event_dims_context"
  "components_within [''crisis'', ''content_safety''] event_dims_safety"
  "components_within [''growth'', ''cross_modal''] event_dims_growth"
  "components_within [''reconnect''] event_dims_reconnect"
  "components_within [''finalizer'', ''barge_in''] event_dims_ending"
  "components_within [''effective_text'', ''turn''] event_dims_turn"
  "components_within [''state''] event_dims_state"
  "components_within [''ws''] event_dims_socket"
  "components_within [''call01'', ''preflight'', ''lease'', ''ops_stop''] event_dims_establish"
  "components_within [''quota''] event_dims_quota"
  "components_within [''provider''] event_dims_provider"
  "components_within [''timeline'', ''summary''] event_dims_summary"
  "components_within [''followup''] event_dims_followup"
  "components_within [''retention''] event_dims_retention"
  "components_within [''admin_record''] event_dims_admin"
  by code_simp+

lemmas group_None = group_components [THEN components_None]

lemma reg_group:
  assumes "dims_in t name d" "\<And>s. map_of t name = Some s \<Longrightarrow> map_of event_dimensions name = Some s"
  shows "dims_registered name d"
  using assms by (auto simp: dims_registered_def dims_in_def split: option.splits)

lemma reg_recall:
  assumes "name_component name \<in> set [''recall'']" "dims_in event_dims_recall name d"
  shows "dims_registered name d"
  using assms(2) by (rule reg_group)
    (use assms(1) in \<open>auto simp: event_dimensions_def map_of_append map_add_def group_None\<close>)

lemma reg_memory:
  assumes "name_component name \<in> set [''memory_job'', ''memory_extract'', ''memory_upsert'']" "dims_in event_dims_memory name d"
  shows "dims_registered name d"
  using assms(2) by (rule reg_group)
    (use assms(1) in \<open>auto simp: event_dimensions_def map_of_append map_add_def group_None\<close>)

lemma reg_context:
  assumes "name_component name \<in> set [''context_pack'']" "dims_in event_dims_context name d"
  shows "dims_registered name d"
  using assms(2) by (rule reg_group)
    (use assms(1) in \<open>auto simp: event_dimensions_def map_of_append map_add_def group_None\<close>)

lemma reg_safety:
  assumes "name_component name \<in> set [''crisis'', ''content_safety'']" "dims_in event_dims_safety name d"
  shows "dims_registered name d"
  using assms(2) by (rule reg_group)
    (use assms(1) in \<open>auto simp: event_dimensions_def map_of_append map_add_def group_None\<close>)

lemma reg_growth:
  assumes "name_component name \<in> set [''growth'', ''cross_modal'']" "dims_in event_dims_growth name d"
  shows "dims_registered name d"
  using assms(2) by (rule reg_group)
    (use assms(1) in \<open>auto simp: event_dimensions_def map_of_append map_add_def group_None\<close>)

lemma reg_reconnect:
  assumes "name_component name \<in> set [''reconnect'']" "dims_in event_dims_reconnect name d"
  shows "dims_registered name d"
  using assms(2) by (rule reg_group)
    (use assms(1) in \<open>auto simp: event_dimensions_def map_of_append map_add_def group_None\<close>)

lemma reg_ending:
  assumes "name_component name \<in> set [''finalizer'', ''barge_in'']" "dims_in event_dims_ending name d"
  shows "dims_registered name d"
  using assms(2) by (rule reg_group)
    (use assms(1) in \<open>auto simp: event_dimensions_def map_of_append map_add_def group_None\<close>)

lemma reg_turn:
  assumes "name_component name \<in> set [''effective_text'', ''turn'']" "dims_in event_dims_turn name d"
  shows "dims_registered name d"
  using assms(2) by (rule reg_group)
    (use assms(1) in \<open>auto simp: event_dimensions_def map_of_append map_add_def group_None\<close>)

lemma reg_state:
  assumes "name_component name \<in> set [''state'']" "dims_in event_dims_state name d"
  shows "dims_registered name d"
  using assms(2) by (rule reg_group)
    (use assms(1) in \<open>auto simp: event_dimensions_def map_of_append map_add_def group_None\<close>)

lemma reg_socket:
  assumes "name_component name \<in> set [''ws'']" "dims_in event_dims_socket name d"
  shows "dims_registered name d"
  using assms(2) by (rule reg_group)
    (use assms(1) in \<open>auto simp: event_dimensions_def map_of_append map_add_def group_None\<close>)

lemma reg_establish:
  assumes "name_component name \<in> set [''call01'', ''preflight'', ''lease'', ''ops_stop'']" "dims_in event_dims_establish name d"
  shows "dims_registered name d"
  using assms(2) by (rule reg_group)
    (use assms(1) in \<open>auto simp: event_dimensions_def map_of_append map_add_def group_None\<close>)

lemma reg_quota:
  assumes "name_component name \<in> set [''quota'']" "dims_in event_dims_quota name d"
  shows "dims_registered name d"
  using assms(2) by (rule reg_group)
    (use assms(1) in \<open>auto simp: event_dimensions_def map_of_append map_add_def group_None\<close>)

lemma reg_provider:
  assumes "name_component name \<in> set [''provider'']" "dims_in event_dims_provider name d"
  shows "dims_registered name d"
  using assms(2) by (rule reg_group)
    (use assms(1) in \<open>auto simp: event_dimensions_def map_of_append map_add_def group_None\<close>)

lemma reg_summary:
  assumes "name_component name \<in> set [''timeline'', ''summary'']" "dims_in event_dims_summary name d"
  shows "dims_registered name d"
  using assms(2) by (rule reg_group)
    (use assms(1) in \<open>auto simp: event_dimensions_def map_of_append map_add_def group_None\<close>)

lemma reg_followup:
  assumes "name_component name \<in> set [''followup'']" "dims_in event_dims_followup name d"
  shows "dims_registered name d"
  using assms(2) by (rule reg_group)
    (use assms(1) in \<open>auto simp: event_dimensions_def map_of_append map_add_def group_None\<close>)

lemma reg_retention:
  assumes "name_component name \<in> set [''retention'']" "dims_in event_dims_retention name d"
  shows "dims_registered name d"
  using assms(2) by (rule reg_group)
    (use assms(1) in \<open>auto simp: event_dimensions_def map_of_append map_add_def group_None\<close>)

lemma reg_admin:
  assumes "name_component name \<in> set [''admin_record'']" "dims_in event_dims_admin name d"
  shows "dims_registered name d"
  using assms(2) by (rule reg_group)
    (use assms(1) in \<open>auto simp: event_dimensions_def map_of_append map_add_def group_None\<close>)

section \<open>Staging facts\<close>

lemma map_fst_stage: "map fst (stage_voice_metrics owner evs st) = map fst st @ evs"
  by (simp add: stage_voice_metrics_def comp_def)

lemma discard_savepoint:
  assumes "is_nested (climb p)" "\<forall>(ev, owner) \<in> set st. \<not> suffix (climb p) owner"
    "\<forall>(ev, owner) \<in> set inner. suffix (climb p) owner"
  shows "discard_rolled_back p (st @ inner) = st"
proof -
  have "filter (\<lambda>(ev, owner). \<not> suffix (climb p) owner) st = st"
    using assms(2) by (auto simp: filter_id_conv)
  moreover have "filter (\<lambda>(ev, owner). \<not> suffix (climb p) owner) inner = []"
    using assms(3) by (auto simp: filter_empty_conv)
  ultimately show ?thesis using assms(1) by (simp add: discard_rolled_back_def)
qed

section \<open>Properties\<close>

text \<open>One \<open>emit_many\<close> is all or nothing. When it reports success, every counter of the day has grown
  by exactly the sum of the amounts the batch carries for that name and those dimensions (in any
  order of the dimension keys); when it reports failure to a reply the script gave, no key has
  changed, however many of the commands were acceptable.\<close>

theorem emit_many_atomic:
  "case emit_many Replied day evs s of (ok, s') \<Rightarrow>
     (if ok then counter s' (name @ '':'' @ day) (d, None) = counter s (name @ '':'' @ day) (d, None) + event_sum name d evs
      else s' = s)"
  using emit_many_counts_h [of day evs s name d] emit_many_False_unchanged_h [of Replied day evs s]
  by (auto split: prod.splits)

text \<open>Rolling back a savepoint drops exactly the events staged inside it (by the savepoint or any
  transaction nested in it) and keeps the others in their order.\<close>

theorem savepoint_rollback_exact:
  assumes "is_nested (climb p)" "\<forall>(e, owner) \<in> set st. \<not> suffix (climb p) owner"
    "\<forall>(e, owner) \<in> set inner. suffix (climb p) owner"
  shows "discard_rolled_back p (st @ inner) = st"
  using assms by (rule discard_savepoint)

theorem savepoint_rollback_exact_witness:
  "discard_rolled_back [(3, False), (2, True), (1, False)]
     (stage_voice_metrics [(1, False)] [(''voice.state.terminal_replay'', [], 1)] []
      @ stage_voice_metrics [(2, True), (1, False)] [(''voice.finalizer.replay'', [], 1)] [])
   = stage_voice_metrics [(1, False)] [(''voice.state.terminal_replay'', [], 1)] []"
  by (rule savepoint_rollback_exact) (simp_all add: is_nested_def stage_voice_metrics_def suffix_def)

end
