(* ===== verification/Database.thy ===== *)
theory Database
  imports CallModel Metrics
begin

text \<open>
  The tables one voice transaction reads and writes, as one record, and the accesses the services
  share: row lookup by unique key, in-place update, the per-user timeline sequence
  (\<open>timeline_seq_service.py\<close>), and the metric events attached to the transaction.

  An operation takes the database at the start of its transaction and returns the one at its end, so
  a rollback is the caller keeping the value it passed in. Row locks are not modelled: an operation
  is one atomic step, which is what its \<open>FOR UPDATE\<close> order provides. \<open>db_staged\<close> holds the events
  staged in the current transaction, \<open>db_emitted\<close> those handed to the counters after a commit; a
  rollback drops staged events because they are part of the value (the hook of \<open>Metrics\<close> does this on
  the session).
\<close>

section \<open>The remaining rows\<close>

record relationship =
  rl_user_id :: int
  rl_level :: int
  rl_growth_value :: int
  rl_last_interaction_at :: "datetime option"
  rl_consecutive_login_days :: int
  rl_relation_description :: "pystr option"
  rl_user_real_name :: "pystr option"
  rl_user_hobby_name :: "pystr option"
  rl_user_description :: "pystr option"
  rl_character_purpose :: "pystr option"
  rl_character_attitude :: "pystr option"
  rl_future_timestamp :: "int option"
  rl_future_action :: "pystr option"
  rl_proactive_times :: int

record growth_log =
  gl_user_id :: int
  gl_action_type :: string
  gl_points :: int
  gl_source_type :: "string option"
  gl_source_id :: "string option"
  gl_eligible_seconds :: "int option"
  gl_business_date :: "date option"
  gl_created_at :: datetime

record level_history =
  lh_user_id :: int
  lh_from_level :: int
  lh_to_level :: int
  lh_achieved_at :: datetime

record database =
  db_users :: "int list"
  db_calls :: "voice_call list"
  db_turns :: "turn_row list"
  db_accounts :: "quota_account list"
  db_ledger :: "ledger_row list"
  db_followups :: "followup_job list"
  db_memory_jobs :: "memory_job list"
  db_traces :: "memory_trace list"
  db_post_jobs :: "postprocess_job list"
  db_crises :: "crisis_row list"
  db_idempotency :: "idempotency_row list"
  db_seq :: "(int \<times> int) list"
  db_relationships :: "relationship list"
  db_growth :: "growth_log list"
  db_levels :: "level_history list"
  db_staged :: "event list"
  db_emitted :: "event list"

section \<open>Keyed access\<close>

definition row_find :: "('r \<Rightarrow> 'k) \<Rightarrow> 'k \<Rightarrow> 'r list \<Rightarrow> 'r option" where
  "row_find key k rows = find (\<lambda>r. key r = k) rows"

definition row_put :: "('r \<Rightarrow> 'k) \<Rightarrow> 'r \<Rightarrow> 'r list \<Rightarrow> 'r list" where
  "row_put key r rows = map (\<lambda>x. if key x = key r then r else x) rows"

lemma row_find_key: "row_find key k rows = Some r \<Longrightarrow> key r = k \<and> r \<in> set rows"
  unfolding row_find_def by (drule find_Some_mem) auto

lemma row_find_put:
  assumes "row_find key (key r) rows \<noteq> None"
  shows "row_find key k (row_put key r rows) = (if k = key r then Some r else row_find key k rows)"
proof (cases "k = key r")
  case True
  with assms show ?thesis by (induction rows) (auto simp: row_find_def row_put_def)
next
  case False
  then show ?thesis by (induction rows) (auto simp: row_find_def row_put_def)
qed

lemma map_key_row_put [simp]: "map key (row_put key r rows) = map key rows"
  by (simp add: row_put_def)

lemma length_row_put [simp]: "length (row_put key r rows) = length rows"
  by (simp add: row_put_def)

lemma set_row_put: "x \<in> set (row_put key r rows) \<Longrightarrow> x = r \<or> x \<in> set rows \<and> key x \<noteq> key r"
  by (auto simp: row_put_def split: if_splits)

lemma map_row_put_other:
  assumes "distinct (map key rows)" "t \<in> set rows" "key t' = key t" "f t' = f t"
  shows "map f (row_put key t' rows) = map f rows"
proof -
  have "f (if key x = key t' then t' else x) = f x" if "x \<in> set rows" for x
    using that assms by (auto simp: distinct_map dest: inj_onD)
  then show ?thesis by (simp add: row_put_def)
qed

text \<open>
  What a client of a keyed table relies on; the model's tables are instances of it.
\<close>

locale keyed_table =
  fixes get :: "'k \<Rightarrow> 's \<Rightarrow> 'r option"
    and put :: "'r \<Rightarrow> 's \<Rightarrow> 's"
    and key :: "'r \<Rightarrow> 'k"
  assumes get_put: "get (key r) s \<noteq> None \<Longrightarrow> get k (put r s) = (if k = key r then Some r else get k s)"
    and get_key: "get k s = Some r \<Longrightarrow> key r = k"
begin

lemma get_put_same: "get k s = Some r \<Longrightarrow> key r' = k \<Longrightarrow> get k (put r' s) = Some r'"
  using get_put [of r' s k] by auto

lemma get_put_other: "get k s = Some r \<Longrightarrow> key r' = k \<Longrightarrow> k' \<noteq> k \<Longrightarrow> get k' (put r' s) = get k' s"
  using get_put [of r' s k'] by auto

lemma get_put_put:
  "get k s = Some r \<Longrightarrow> key r1 = k \<Longrightarrow> key r2 = k \<Longrightarrow> get k (put r2 (put r1 s)) = Some r2"
  using get_put_same [of k "put r1 s" r1 r2] get_put_same [of k s r r1] by simp

end

definition get_call :: "string \<Rightarrow> database \<Rightarrow> voice_call option" where
  "get_call cid db = row_find vc_call_id cid (db_calls db)"

definition put_call :: "voice_call \<Rightarrow> database \<Rightarrow> database" where
  "put_call r db = db\<lparr>db_calls := row_put vc_call_id r (db_calls db)\<rparr>"

definition get_account :: "int \<Rightarrow> database \<Rightarrow> quota_account option" where
  "get_account u db = row_find qa_user_id u (db_accounts db)"

definition put_account :: "quota_account \<Rightarrow> database \<Rightarrow> database" where
  "put_account a db = db\<lparr>db_accounts := row_put qa_user_id a (db_accounts db)\<rparr>"

definition get_relationship :: "int \<Rightarrow> database \<Rightarrow> relationship option" where
  "get_relationship u db = row_find rl_user_id u (db_relationships db)"

definition put_relationship :: "relationship \<Rightarrow> database \<Rightarrow> database" where
  "put_relationship r db = db\<lparr>db_relationships := row_put rl_user_id r (db_relationships db)\<rparr>"

definition get_followup :: "int \<Rightarrow> database \<Rightarrow> followup_job option" where
  "get_followup i db = row_find fj_id i (db_followups db)"

definition put_followup :: "followup_job \<Rightarrow> database \<Rightarrow> database" where
  "put_followup j db = db\<lparr>db_followups := row_put fj_id j (db_followups db)\<rparr>"

definition get_memory_job :: "int \<Rightarrow> database \<Rightarrow> memory_job option" where
  "get_memory_job i db = row_find mj_id i (db_memory_jobs db)"

definition put_memory_job :: "memory_job \<Rightarrow> database \<Rightarrow> database" where
  "put_memory_job j db = db\<lparr>db_memory_jobs := row_put mj_id j (db_memory_jobs db)\<rparr>"

definition get_turn :: "int \<Rightarrow> database \<Rightarrow> turn_row option" where
  "get_turn i db = row_find tn_id i (db_turns db)"

definition put_turn :: "turn_row \<Rightarrow> database \<Rightarrow> database" where
  "put_turn t db = db\<lparr>db_turns := row_put tn_id t (db_turns db)\<rparr>"

interpretation turns: keyed_table get_turn put_turn tn_id
  by unfold_locales (auto simp: get_turn_def put_turn_def row_find_put dest: row_find_key)

interpretation calls: keyed_table get_call put_call vc_call_id
  by unfold_locales (auto simp: get_call_def put_call_def row_find_put dest: row_find_key)

interpretation accounts: keyed_table get_account put_account qa_user_id
  by unfold_locales (auto simp: get_account_def put_account_def row_find_put dest: row_find_key)

interpretation rels: keyed_table get_relationship put_relationship rl_user_id
  by unfold_locales (auto simp: get_relationship_def put_relationship_def row_find_put dest: row_find_key)

interpretation followups: keyed_table get_followup put_followup fj_id
  by unfold_locales (auto simp: get_followup_def put_followup_def row_find_put dest: row_find_key)

interpretation memory_jobs: keyed_table get_memory_job put_memory_job mj_id
  by unfold_locales (auto simp: get_memory_job_def put_memory_job_def row_find_put dest: row_find_key)

section \<open>Events of the transaction\<close>

definition stage :: "event list \<Rightarrow> database \<Rightarrow> database" where
  "stage evs db = db\<lparr>db_staged := db_staged db @ evs\<rparr>"

text \<open>\<open>db.commit()\<close> followed by \<open>flush_voice_metrics(db, metrics)\<close> with a metrics adapter present.\<close>

definition commit_flush :: "database \<Rightarrow> database" where
  "commit_flush db = db\<lparr>db_staged := [], db_emitted := db_emitted db @ db_staged db\<rparr>"

definition ev :: "string \<Rightarrow> (string \<times> string) list \<Rightarrow> int \<Rightarrow> event" where
  "ev name d amount = (name, d, amount)"

text \<open>Every event the services stage is one \<open>emit_many\<close> accepts.\<close>

definition staged_ok :: "database \<Rightarrow> bool" where
  "staged_ok db \<longleftrightarrow> list_all event_ok (db_staged db) \<and> list_all event_ok (db_emitted db)"

lemma staged_ok_stage [simp]: "staged_ok (stage evs db) \<longleftrightarrow> staged_ok db \<and> list_all event_ok evs"
  by (auto simp: staged_ok_def stage_def)

lemma staged_ok_commit [simp]: "staged_ok (commit_flush db) = staged_ok db"
  by (auto simp: staged_ok_def commit_flush_def)

lemma db_frame [simp, frame_simps]:
  "db_staged (put_call r db) = db_staged db" "db_emitted (put_call r db) = db_emitted db"
  "db_turns (put_call r db) = db_turns db" "db_seq (put_call r db) = db_seq db"
  "db_calls (stage evs db) = db_calls db" "db_turns (stage evs db) = db_turns db"
  "db_seq (stage evs db) = db_seq db" "db_ledger (stage evs db) = db_ledger db"
  "db_accounts (stage evs db) = db_accounts db" "db_followups (stage evs db) = db_followups db"
  "db_relationships (stage evs db) = db_relationships db" "db_growth (stage evs db) = db_growth db"
  "db_calls (commit_flush db) = db_calls db" "db_turns (commit_flush db) = db_turns db"
  "db_ledger (put_call r db) = db_ledger db" "db_accounts (put_call r db) = db_accounts db"
  "db_followups (put_call r db) = db_followups db" "db_relationships (put_call r db) = db_relationships db"
  "db_growth (put_call r db) = db_growth db" "db_users (put_call r db) = db_users db"
  "db_users (stage evs db) = db_users db"
  by (simp_all add: put_call_def stage_def commit_flush_def)

lemma get_frame [simp, frame_simps]:
  "get_call c (stage evs db) = get_call c db" "get_call c (commit_flush db) = get_call c db"
  "get_account u (stage evs db) = get_account u db" "get_account u (put_call r db) = get_account u db"
  "get_relationship u (stage evs db) = get_relationship u db"
  "get_relationship u (put_call r db) = get_relationship u db"
  by (simp_all add: get_call_def get_account_def get_relationship_def)

lemma turn_job_frame [simp, frame_simps]:
  "db_calls (put_turn t db) = db_calls db" "db_memory_jobs (put_turn t db) = db_memory_jobs db"
  "db_traces (put_turn t db) = db_traces db" "db_staged (put_turn t db) = db_staged db"
  "db_emitted (put_turn t db) = db_emitted db" "db_post_jobs (put_turn t db) = db_post_jobs db"
  "db_relationships (put_turn t db) = db_relationships db" "db_crises (put_turn t db) = db_crises db"
  "db_calls (put_memory_job j db) = db_calls db" "db_turns (put_memory_job j db) = db_turns db"
  "db_traces (put_memory_job j db) = db_traces db" "db_staged (put_memory_job j db) = db_staged db"
  "db_emitted (put_memory_job j db) = db_emitted db" "db_post_jobs (put_memory_job j db) = db_post_jobs db"
  "db_relationships (put_memory_job j db) = db_relationships db" "db_crises (put_memory_job j db) = db_crises db"
  "db_memory_jobs (stage evs db) = db_memory_jobs db" "db_traces (stage evs db) = db_traces db"
  "db_post_jobs (stage evs db) = db_post_jobs db" "db_crises (stage evs db) = db_crises db"
  "db_memory_jobs (commit_flush db) = db_memory_jobs db" "db_traces (commit_flush db) = db_traces db"
  "db_relationships (commit_flush db) = db_relationships db" "db_crises (commit_flush db) = db_crises db"
  "db_memory_jobs (put_call r db) = db_memory_jobs db" "db_traces (put_call r db) = db_traces db"
  "db_crises (put_call r db) = db_crises db"
  by (simp_all add: put_turn_def put_memory_job_def stage_def commit_flush_def put_call_def)

lemma get_turn_frame [simp, frame_simps]:
  "get_call c (put_turn t db) = get_call c db" "get_call c (put_memory_job j db) = get_call c db"
  "get_turn i (put_memory_job j db) = get_turn i db" "get_turn i (stage evs db) = get_turn i db"
  "get_turn i (put_call r db) = get_turn i db" "get_turn i (commit_flush db) = get_turn i db"
  "get_memory_job i (put_turn t db) = get_memory_job i db" "get_memory_job i (stage evs db) = get_memory_job i db"
  "get_memory_job i (put_call r db) = get_memory_job i db" "get_memory_job i (commit_flush db) = get_memory_job i db"
  "get_relationship u (put_turn t db) = get_relationship u db"
  "get_relationship u (put_memory_job j db) = get_relationship u db"
  by (simp_all add: get_call_def get_turn_def get_memory_job_def get_relationship_def)

section \<open>The timeline sequence\<close>

definition next_seq :: "int \<Rightarrow> database \<Rightarrow> int" where
  "next_seq u db = (case map_of (db_seq db) u of Some n \<Rightarrow> n | None \<Rightarrow> 1)"

definition allocate_sort_seq :: "int \<Rightarrow> int \<Rightarrow> database \<Rightarrow> (int list \<times> database) res" where
  "allocate_sort_seq u count db =
     (if count < 1 then Inl (ValueError ''count'')
      else let start = next_seq u db in
           Inr ([start..start + count - 1], db\<lparr>db_seq := AList.update u (start + count) (db_seq db)\<rparr>))"

lemma next_seq_allocate:
  assumes "allocate_sort_seq u n db = Inr (xs, db')"
  shows "xs = [next_seq u db..next_seq u db + n - 1]" "length xs = nat n" "1 \<le> n"
    "next_seq v db' = (if v = u then next_seq u db + n else next_seq v db)"
    "db_calls db' = db_calls db"
  using assms
  by (auto simp: allocate_sort_seq_def Let_def next_seq_def dict_get_update split: if_splits)

text \<open>Card numbers: below the user's next number and never shared by two of the user's calls.\<close>

definition seq_inv :: "database \<Rightarrow> bool" where
  "seq_inv db \<longleftrightarrow>
     (\<forall>c \<in> set (db_calls db). \<forall>s. vc_sort_seq c = Some s \<longrightarrow> s < next_seq (vc_user_id c) db) \<and>
     (\<forall>c \<in> set (db_calls db). \<forall>d \<in> set (db_calls db).
        vc_user_id c = vc_user_id d \<and> vc_sort_seq c \<noteq> None \<and> vc_sort_seq c = vc_sort_seq d \<longrightarrow>
        vc_call_id c = vc_call_id d)"

section \<open>Empty values\<close>

definition empty_db :: database where
  "empty_db = \<lparr>db_users = [], db_calls = [], db_turns = [], db_accounts = [], db_ledger = [],
     db_followups = [], db_memory_jobs = [], db_traces = [], db_post_jobs = [], db_crises = [], db_idempotency = [],
     db_seq = [], db_relationships = [], db_growth = [], db_levels = [], db_staged = [], db_emitted = []\<rparr>"

text \<open>The row the creation inserts, before any snapshot is attached: the column defaults.\<close>

definition blank_call :: "int \<Rightarrow> string \<Rightarrow> int \<Rightarrow> call_status \<Rightarrow> voice_call" where
  "blank_call i cid u st = \<lparr>vc_id = i, vc_call_id = cid, vc_user_id = u, vc_initiated_by = By_user,
     vc_status = st, vc_call01_fallback = None, vc_end_reason = None, vc_provider = None,
     vc_provider_session_id = None, vc_provider_dialog_id = None, vc_connected_at = None,
     vc_ended_at = None, vc_duration_seconds = 0, vc_free_seconds_used = 0, vc_extra_seconds_used = 0,
     vc_grace_seconds = 0, vc_growth_eligible_seconds = 0, vc_growth_points = 0, vc_sort_seq = None,
     vc_summary_status = Sum_not_applicable, vc_call_summary = None, vc_user_emotion = None,
     vc_assistant_emotion = None, vc_unfinished_topics = None, vc_summary_reasoning = None,
     vc_config_snapshot = JObj [], vc_capability_snapshot = JObj [], vc_transcript_retention_days = 180,
     vc_generated_retention_days = 30, vc_transcript_expires_at = None,
     vc_generated_text_expires_at = None, vc_reasoning_expires_at = None, vc_deletion_fence_at = None,
     vc_deleted_at = None, vc_deleted_by = None, vc_created_at = 0\<rparr>"

lemma blank_call_simps [simp]:
  "vc_call_id (blank_call i cid u st) = cid" "vc_user_id (blank_call i cid u st) = u"
  "vc_status (blank_call i cid u st) = st" "vc_sort_seq (blank_call i cid u st) = None"
  "vc_connected_at (blank_call i cid u st) = None" "vc_ended_at (blank_call i cid u st) = None"
  "vc_deletion_fence_at (blank_call i cid u st) = None" "vc_end_reason (blank_call i cid u st) = None"
  by (simp_all add: blank_call_def)

end
