(* ===== verification/Card.thy ===== *)
theory Card
  imports Database
begin

text \<open>
  The occurrence card of a call (\<open>realtime_voice_card_service.py\<close>): the test for meaningful user
  text, summary eligibility, and the staging of a card with a fresh timeline number.
\<close>

section \<open>Meaningful text\<close>

text \<open>
  \<open>re.sub(r'[\s,...]+', '', value)\<close> removes spaces and light punctuation; what is left must be
  non-empty and not a sequence of filler words, \<open>(?:...)+\<close> over single filler characters and
  \<open>shi de?\<close> / \<open>hao de?\<close>.
\<close>

definition punct_char :: "nat \<Rightarrow> bool" where
  "punct_char c \<longleftrightarrow> py_space c \<or>
     c \<in> {65292, 12290, 65281, 65311, 12289, 44, 46, 33, 63, 65374, 126, 8230}"

definition filler_chars :: "nat list" where
  "filler_chars = [21999, 21834, 21734, 22114, 23545, 21704, 21621, 35830, 21769, 21571]"

definition de_char :: nat where
  "de_char = 30340"

definition de_heads :: "nat list" where
  "de_heads = [26159, 22909]"

fun all_fillers :: "pystr \<Rightarrow> bool" where
  "all_fillers [] = True"
| "all_fillers [c] = (c \<in> set filler_chars \<or> c \<in> set de_heads)"
| "all_fillers (c # d # cs) =
     (if c \<in> set filler_chars then all_fillers (d # cs)
      else if c \<in> set de_heads
      then (if d = de_char then all_fillers cs else all_fillers (d # cs))
      else False)"

definition compact_text :: "pystr \<Rightarrow> pystr" where
  "compact_text t = filter (\<lambda>c. \<not> punct_char c) t"

definition meaningful_user_text :: "pystr option \<Rightarrow> bool" where
  "meaningful_user_text v =
     (let c = compact_text (case v of None \<Rightarrow> [] | Some t \<Rightarrow> t) in c \<noteq> [] \<and> \<not> all_fillers c)"

text \<open>The alternatives of the regular expression as words.\<close>

definition filler_words :: "pystr list" where
  "filler_words = map (\<lambda>c. [c]) filler_chars @ concat (map (\<lambda>c. [[c], [c, de_char]]) de_heads)"

definition filler_lang :: "pystr \<Rightarrow> bool" where
  "filler_lang t \<longleftrightarrow> (\<exists>ws. ws \<noteq> [] \<and> set ws \<subseteq> set filler_words \<and> t = concat ws)"

lemma filler_word_cases:
  assumes "w \<in> set filler_words"
  obtains c where "w = [c]" "c \<in> set filler_chars \<or> c \<in> set de_heads"
  | c where "w = [c, de_char]" "c \<in> set de_heads"
  using assms by (auto simp: filler_words_def)

lemma heads_disjoint: "c \<in> set de_heads \<Longrightarrow> c \<notin> set filler_chars"
  "de_char \<notin> set filler_chars" "de_char \<notin> set de_heads"
  by (auto simp: filler_chars_def de_heads_def de_char_def)

lemma all_fillers_Cons1:
  assumes "c \<in> set filler_chars \<or> c \<in> set de_heads" "all_fillers t"
  shows "all_fillers (c # t)"
proof (cases t)
  case (Cons d cs)
  have "d \<noteq> de_char"
  proof
    assume d: "d = de_char"
    with assms(2) Cons heads_disjoint show False by (cases cs) (auto split: if_splits)
  qed
  with assms Cons heads_disjoint show ?thesis by auto
qed (use assms in simp)

lemma all_fillers_Cons2: "c \<in> set de_heads \<Longrightarrow> all_fillers t \<Longrightarrow> all_fillers (c # de_char # t)"
  using heads_disjoint by auto

lemma all_fillers_words:
  assumes "set ws \<subseteq> set filler_words"
  shows "all_fillers (concat ws)"
  using assms
proof (induction ws)
  case (Cons w ws)
  then have "w \<in> set filler_words" and IH: "all_fillers (concat ws)" by simp_all
  from this(1) show ?case
    by (rule filler_word_cases) (use IH all_fillers_Cons1 all_fillers_Cons2 in auto)
qed simp

lemma single_filler_word: "c \<in> set filler_chars \<or> c \<in> set de_heads \<Longrightarrow> [c] \<in> set filler_words"
  "c \<in> set de_heads \<Longrightarrow> [c, de_char] \<in> set filler_words"
  by (auto simp: filler_words_def)

lemma all_fillers_split:
  "all_fillers t \<Longrightarrow> \<exists>ws. set ws \<subseteq> set filler_words \<and> t = concat ws"
proof (induction t rule: all_fillers.induct)
  case 1
  show ?case by (rule exI [of _ "[]"]) simp
next
  case (2 c)
  then show ?case using single_filler_word(1) by (intro exI [of _ "[[c]]"]) simp
next
  case (3 c d cs)
  note hyps = 3
  consider "c \<in> set filler_chars" | "c \<in> set de_heads" "d = de_char" | "c \<in> set de_heads" "d \<noteq> de_char"
    using hyps(4) by (auto split: if_splits)
  then show ?case
  proof cases
    case 1
    with hyps(1,4) obtain ws where "set ws \<subseteq> set filler_words" "d # cs = concat ws" by auto
    with 1 single_filler_word(1) show ?thesis by (intro exI [of _ "[c] # ws"]) auto
  next
    case 2
    with hyps(2,4) heads_disjoint obtain ws where "set ws \<subseteq> set filler_words" "cs = concat ws" by auto
    with 2 single_filler_word(2) show ?thesis by (intro exI [of _ "[c, de_char] # ws"]) auto
  next
    case 3
    with hyps(3,4) heads_disjoint obtain ws where "set ws \<subseteq> set filler_words" "d # cs = concat ws"
      by auto
    with 3 single_filler_word(1) show ?thesis by (intro exI [of _ "[c] # ws"]) auto
  qed
qed

lemma all_fillers_iff:
  assumes "t \<noteq> []"
  shows "all_fillers t \<longleftrightarrow> filler_lang t"
proof
  assume "all_fillers t"
  then obtain ws where "set ws \<subseteq> set filler_words" "t = concat ws"
    using all_fillers_split by blast
  moreover from this(2) assms have "ws \<noteq> []" by auto
  ultimately show "filler_lang t" unfolding filler_lang_def by blast
next
  assume "filler_lang t"
  then show "all_fillers t" unfolding filler_lang_def using all_fillers_words by blast
qed

section \<open>Eligibility and the card\<close>

text \<open>The turns whose user text counts: both sides passed safety and crisis, the reply has an effect.\<close>

definition summary_source :: "turn_row \<Rightarrow> bool" where
  "summary_source t \<longleftrightarrow>
     tn_status t \<in> {Finalized, Interrupted} \<and> tn_evidence t \<noteq> No_evidence \<and>
     tn_assistant_text_effective t \<noteq> None \<and> tn_assistant_text_effective t \<noteq> Some [] \<and>
     tn_user_safety t = Saf_passed \<and> tn_assistant_safety t = Saf_passed \<and>
     tn_user_crisis t = Cri_passed \<and> tn_assistant_crisis t = Cri_passed"

definition summary_eligible :: "database \<Rightarrow> voice_call \<Rightarrow> bool" where
  "summary_eligible db c \<longleftrightarrow>
     vc_connected_at c \<noteq> None \<and> 15 \<le> vc_duration_seconds c \<and>
     (\<exists>t \<in> set (db_turns db). tn_call_id t = vc_call_id c \<and> summary_source t \<and>
        meaningful_user_text (tn_user_text_final t))"

definition stage_call_card :: "voice_call \<Rightarrow> database \<Rightarrow> (bool \<times> voice_call \<times> database) res" where
  "stage_call_card c db =
     (if vc_sort_seq c \<noteq> None \<or> vc_deletion_fence_at c \<noteq> None then Inr (False, c, db)
      else if vc_status c \<notin> {Ended, Missed} then Inr (False, c, db)
      else bindR (allocate_sort_seq (vc_user_id c) 1 db) (\<lambda>(xs, db').
        let c' = c\<lparr>vc_summary_status := if summary_eligible db c then Sum_pending else Sum_not_applicable,
                   vc_sort_seq := Some (hd xs)\<rparr> in
        Inr (True, c',
          stage [ev ''voice.timeline.insert'' [(''status'', call_status_str (vc_status c))] 1]
            (put_call c' db'))))"

definition timeline_display_at :: "voice_call \<Rightarrow> datetime option" where
  "timeline_display_at c = (if vc_status c = Missed then Some (vc_created_at c) else vc_ended_at c)"

definition timeline_summary :: "voice_call \<Rightarrow> datetime \<Rightarrow> pystr option" where
  "timeline_summary c now =
     (if vc_summary_status c = Sum_ready \<and>
         (case vc_transcript_expires_at c of None \<Rightarrow> True | Some e \<Rightarrow> e > now)
      then vc_call_summary c else None)"

section \<open>Facts\<close>

lemma stage_call_card_total: "\<exists>b c' db'. stage_call_card c db = Inr (b, c', db')"
  by (auto simp: stage_call_card_def allocate_sort_seq_def Let_def)

lemma stage_call_card_True:
  assumes "stage_call_card c db = Inr (True, c', db')"
  shows "vc_sort_seq c = None" "vc_deletion_fence_at c = None" "vc_status c \<in> {Ended, Missed}"
    "c' = c\<lparr>vc_summary_status := if summary_eligible db c then Sum_pending else Sum_not_applicable,
            vc_sort_seq := Some (next_seq (vc_user_id c) db)\<rparr>"
    "db' = stage [ev ''voice.timeline.insert'' [(''status'', call_status_str (vc_status c))] 1]
       (put_call c' (db\<lparr>db_seq := AList.update (vc_user_id c) (next_seq (vc_user_id c) db + 1) (db_seq db)\<rparr>))"
  using assms
  by (auto simp: stage_call_card_def allocate_sort_seq_def Let_def split: if_splits)

lemma stage_call_card_False:
  assumes "stage_call_card c db = Inr (False, c', db')"
  shows "c' = c" "db' = db"
  using assms by (auto simp: stage_call_card_def allocate_sort_seq_def Let_def split: if_splits)

lemma stage_call_card_frame:
  assumes "stage_call_card c db = Inr (b, c', db')"
  shows "vc_call_id c' = vc_call_id c" "vc_user_id c' = vc_user_id c" "vc_status c' = vc_status c"
    "vc_connected_at c' = vc_connected_at c" "vc_ended_at c' = vc_ended_at c"
    "vc_end_reason c' = vc_end_reason c" "vc_duration_seconds c' = vc_duration_seconds c"
    "vc_growth_eligible_seconds c' = vc_growth_eligible_seconds c"
    "vc_config_snapshot c' = vc_config_snapshot c"
    "vc_deleted_at c' = vc_deleted_at c" "vc_deletion_fence_at c' = vc_deletion_fence_at c"
    "db_turns db' = db_turns db" "db_relationships db' = db_relationships db"
    "db_followups db' = db_followups db" "db_growth db' = db_growth db"
    "db_accounts db' = db_accounts db" "db_ledger db' = db_ledger db"
    "map vc_call_id (db_calls db') = map vc_call_id (db_calls db)"
  using assms
  by (auto simp: stage_call_card_def allocate_sort_seq_def Let_def put_call_def stage_def split: if_splits)

lemma reg_timeline:
  "dims_registered ''voice.timeline.insert'' [(''status'', ''ended'')]"
  "dims_registered ''voice.timeline.insert'' [(''status'', ''missed'')]"
  by (rule reg_summary; code_simp)+

lemma event_ok_timeline:
  "s \<in> {Ended, Missed} \<Longrightarrow> event_ok (ev ''voice.timeline.insert'' [(''status'', call_status_str s)] 1)"
  using reg_timeline by (auto simp: ev_def event_ok_dims)

lemma next_seq_put_stage [simp]:
  "next_seq u (put_call c db) = next_seq u db" "next_seq u (stage evs db) = next_seq u db"
  by (simp_all add: next_seq_def)

text \<open>A card takes a number no other card of the user has and keeps the numbering invariant.\<close>

lemma stage_call_card_seq_inv:
  assumes inv: "seq_inv db" and st: "stage_call_card c db = Inr (True, c', db')"
  shows "seq_inv db'"
proof -
  let ?n = "next_seq (vc_user_id c) db"
  note card = stage_call_card_True [OF st]
  have c': "vc_sort_seq c' = Some ?n" "vc_user_id c' = vc_user_id c" by (simp_all add: card(4))
  have nx: "next_seq u db' = (if u = vc_user_id c then ?n + 1 else next_seq u db)" for u
    by (simp add: card(5) next_seq_def dict_get_update)
  have calls: "x = c' \<or> x \<in> set (db_calls db)" if "x \<in> set (db_calls db')" for x
    using that set_row_put [of x vc_call_id c'] by (auto simp: card(5) put_call_def stage_def)
  have lt: "s < next_seq (vc_user_id x) db" if "x \<in> set (db_calls db)" "vc_sort_seq x = Some s" for x s
    using inv that unfolding seq_inv_def by blast
  have uniq: "vc_call_id x = vc_call_id y" if "x \<in> set (db_calls db)" "y \<in> set (db_calls db)"
    "vc_user_id x = vc_user_id y" "vc_sort_seq x \<noteq> None" "vc_sort_seq x = vc_sort_seq y" for x y
    using inv that unfolding seq_inv_def by blast
  show ?thesis
    unfolding seq_inv_def
  proof (intro conjI ballI allI impI)
    fix x s assume x: "x \<in> set (db_calls db')" "vc_sort_seq x = Some s"
    with calls [OF x(1)] lt [of x s] show "s < next_seq (vc_user_id x) db'"
      by (auto simp: nx c')
  next
    fix x y assume x: "x \<in> set (db_calls db')" and y: "y \<in> set (db_calls db')"
      and eq: "vc_user_id x = vc_user_id y \<and> vc_sort_seq x \<noteq> None \<and> vc_sort_seq x = vc_sort_seq y"
    from eq have e: "vc_user_id x = vc_user_id y" "vc_sort_seq x \<noteq> None" "vc_sort_seq x = vc_sort_seq y"
      by blast+
    have no: False if "z \<in> set (db_calls db)" "vc_sort_seq z = Some ?n" "vc_user_id z = vc_user_id c" for z
      using lt [OF that(1,2)] that(3) by simp
    show "vc_call_id x = vc_call_id y"
      using calls [OF x] calls [OF y] uniq [OF _ _ e] no [of x] no [of y] e c' by metis
  qed
qed

lemma stage_call_card_staged_ok:
  assumes "staged_ok db" "stage_call_card c db = Inr (b, c', db')"
  shows "staged_ok db'"
proof (cases b)
  case True
  with assms(2) have st: "stage_call_card c db = Inr (True, c', db')" by simp
  have "staged_ok (put_call c' (db\<lparr>db_seq := q\<rparr>))" for q
    using assms(1) by (simp add: staged_ok_def put_call_def)
  with stage_call_card_True(3,5) [OF st] event_ok_timeline show ?thesis by simp
next
  case False
  with assms(2) have "stage_call_card c db = Inr (False, c', db')" by simp
  with assms(1) stage_call_card_False(2) show ?thesis by metis
qed

section \<open>Properties\<close>

text \<open>The filler test of \<open>meaningful_user_text\<close> is its regular expression: a text is meaningless
  exactly when, spaces and light punctuation removed, it is empty or a non-empty concatenation of the
  filler words (the single fillers, \<open>shi\<close>/\<open>hao\<close> with or without \<open>de\<close>).\<close>

theorem meaningful_text_regex:
  "meaningful_user_text v \<longleftrightarrow>
     compact_text (case v of None \<Rightarrow> [] | Some t \<Rightarrow> t) \<noteq> [] \<and>
     \<not> filler_lang (compact_text (case v of None \<Rightarrow> [] | Some t \<Rightarrow> t))"
  using all_fillers_iff by (auto simp: meaningful_user_text_def Let_def)

text \<open>Staging a card takes the user's next timeline number and keeps the numbering sound: every card
  number stays below its user's next number, and no two calls of a user share one.\<close>

theorem card_numbers_unique:
  assumes "seq_inv db" "stage_call_card c db = Inr (True, c', db')"
  shows "seq_inv db' \<and> vc_sort_seq c' = Some (next_seq (vc_user_id c) db)"
  using stage_call_card_seq_inv [OF assms] stage_call_card_True(4) [OF assms(2)] by simp

theorem card_numbers_unique_witness:
  "\<exists>c' db'. seq_inv db' \<and> vc_sort_seq c' = Some (next_seq 7 empty_db) \<and>
     stage_call_card (blank_call 1 ''c'' 7 Missed) empty_db = Inr (True, c', db')"
proof -
  have i: "seq_inv empty_db" by (simp add: seq_inv_def empty_db_def)
  obtain c' db' where s: "stage_call_card (blank_call 1 ''c'' 7 Missed) empty_db = Inr (True, c', db')"
    by (simp add: stage_call_card_def allocate_sort_seq_def blank_call_def Let_def)
  from card_numbers_unique [OF i s] s show ?thesis by (auto simp: blank_call_def)
qed

end
