(* ===== verification/Schedule.thy ===== *)
theory Schedule
  imports CallModel "HOL-Library.List_Lexorder" "HOL-Library.Char_ord"
begin

text \<open>
  The follow-up schedule of \<open>realtime_voice_config_service.py\<close>: the validator
  \<open>validate_followup_schedule\<close>, the pure resolution \<open>resolve_followup_preview\<close> of a candidate
  instant to a send instant, and the dispatcher's own window test \<open>_next_window\<close>.

  An issue is its code and its field; the human-readable message and the \<open>allowed\<close> hint of the
  code are not kept. A window is a pair of minutes of the Shanghai day. Instants are UTC
  microseconds, so \<open>timedelta(minutes=m)\<close> is \<open>m * us_minute\<close>. The textual decoding of the
  preview request (\<open>datetime.fromisoformat\<close>) is not modelled: the resolution takes the instant.
\<close>

type_synonym issue = "string \<times> string"
type_synonym window = "int \<times> int"

definition us_minute :: int where
  "us_minute = 60000000"

definition us_hour :: int where
  "us_hour = 3600000000"

section \<open>Clock texts\<close>

text \<open>
  \<open>\d\<close> and \<open>int\<close> accept every Unicode decimal digit; these are the zeros of its runs of ten.
\<close>

definition digit_zeros :: "nat list" where
  "digit_zeros = [48, 1632, 1776, 1984, 2406, 2534, 2662, 2790, 2918, 3046, 3174, 3302, 3430, 3558,
    3664, 3792, 3872, 4160, 4240, 6112, 6160, 6470, 6608, 6784, 6800, 6992, 7088, 7232, 7248, 42528,
    43216, 43264, 43472, 43504, 43600, 44016, 65296, 66720, 68912, 69734, 69872, 69942, 70096, 70384,
    70736, 70864, 71248, 71360, 71472, 71904, 72016, 72784, 73040, 73120, 92768, 92864, 93008, 120782,
    120792, 120802, 120812, 120822, 123200, 123632, 125264, 130032]"

definition digit_value :: "nat \<Rightarrow> int option" where
  "digit_value c = map_option (\<lambda>z. int c - int z) (find (\<lambda>z. z \<le> c \<and> c < z + 10) digit_zeros)"

text \<open>\<open>(?:[01]\d|2[0-3]):[0-5]\d\<close>, read as minutes of the day.\<close>

definition hhmm_minutes :: "pystr \<Rightarrow> int option" where
  "hhmm_minutes t =
     (case t of
        [h1, h2, c, m1, m2] \<Rightarrow>
          (case (digit_value h2, digit_value m2) of
             (Some b, Some d) \<Rightarrow>
               if (h1 \<in> {48, 49} \<or> h1 = 50 \<and> h2 \<in> {48..51}) \<and> c = 58 \<and> m1 \<in> {48..53}
               then Some ((10 * (int h1 - 48) + b) * 60 + (10 * (int m1 - 48) + d))
               else None
           | _ \<Rightarrow> None)
      | _ \<Rightarrow> None)"

definition window_minutes :: "json \<Rightarrow> int option" where
  "window_minutes v = (case v of JStr t \<Rightarrow> hhmm_minutes t | _ \<Rightarrow> None)"

lemma digit_value_bounds: "digit_value c = Some d \<Longrightarrow> 0 \<le> d \<and> d \<le> 9"
  by (auto simp: digit_value_def find_Some_iff)

lemma digit_value_ascii: "c \<in> {48..57} \<Longrightarrow> digit_value c = Some (int c - 48)"
  by (simp add: digit_value_def digit_zeros_def)

lemma hhmm_minutes_bounds:
  assumes "hhmm_minutes t = Some m"
  shows "0 \<le> m \<and> m < 1440"
proof -
  from assms obtain h1 h2 c m1 m2 b d where
    d: "digit_value h2 = Some b" "digit_value m2 = Some d"
    and h: "h1 \<in> {48, 49} \<or> h1 = 50 \<and> h2 \<in> {48..51}" and m1: "m1 \<in> {48..53}"
    and m: "m = (10 * (int h1 - 48) + b) * 60 + (10 * (int m1 - 48) + d)"
    by (auto simp: hhmm_minutes_def split: list.splits option.splits if_splits)
  have b: "0 \<le> b" "b \<le> 9" and dd: "0 \<le> d" "d \<le> 9"
    using digit_value_bounds d by blast+
  have hour: "10 * (int h1 - 48) + b \<le> 23 \<and> 0 \<le> 10 * (int h1 - 48) + b"
  proof (cases "h1 = 50")
    case True
    with h d(1) show ?thesis by (auto simp: digit_value_ascii)
  qed (use h b in auto)
  show ?thesis using m hour m1 dd by auto
qed

lemma window_minutes_bounds: "window_minutes v = Some m \<Longrightarrow> 0 \<le> m \<and> m < 1440"
  by (auto simp: window_minutes_def hhmm_minutes_bounds split: json.splits)

section \<open>Validation\<close>

definition range_invalid :: string where
  "range_invalid = ''FOLLOWUP_WINDOW_RANGE_INVALID''"

definition too_short :: string where
  "too_short = ''FOLLOWUP_WINDOW_TOO_SHORT_FOR_JITTER''"

definition overlap_code :: string where
  "overlap_code = ''FOLLOWUP_WINDOW_OVERLAP''"

definition schedule_fields :: "string list" where
  "schedule_fields = [''jitter_max_minutes'', ''jitter_min_minutes'', ''max_delay_hours'', ''stages'',
     ''timezone'']"

definition stage_names :: "string list" where
  "stage_names = [''stranger'', ''friend'', ''intimate'', ''soulmate'']"

fun nat_str :: "nat \<Rightarrow> string" where
  "nat_str n = (if n < 10 then [char_of (48 + n)] else nat_str (n div 10) @ [char_of (48 + n mod 10)])"

declare nat_str.simps [simp del]

text \<open>One window: the issue it raises, and its normalised bounds unless the loop skips it.\<close>

definition window_bounds :: "json \<Rightarrow> window option" where
  "window_bounds w =
     (if is_obj w \<and> set (jkeys w) = {''start'', ''end''}
      then (case (window_minutes (jget w ''start''), window_minutes (jget w ''end'')) of
              (Some s, Some e) \<Rightarrow> if s < e then Some (s, e) else None
            | _ \<Rightarrow> None)
      else None)"

definition window_issues :: "json \<Rightarrow> string \<Rightarrow> json \<Rightarrow> issue list" where
  "window_issues jitter_max field w =
     (case window_bounds w of
        None \<Rightarrow> [(range_invalid, field)]
      | Some (s, e) \<Rightarrow>
          (case jitter_max of
             JInt j \<Rightarrow> if e - s \<le> j then [(too_short, field)] else []
           | _ \<Rightarrow> []))"

text \<open>\<open>normalized.sort()\<close> orders the triples start, end, index lexicographically.\<close>

definition normalized_windows :: "json list \<Rightarrow> (int \<times> int \<times> int) list" where
  "normalized_windows ws =
     sort_key (\<lambda>(s, e, i). [s, e, i])
       (concat (map (\<lambda>(i, w). case window_bounds w of None \<Rightarrow> [] | Some (s, e) \<Rightarrow> [(s, e, i)])
          (zip (map int [0..<length ws]) ws)))"

fun has_overlap :: "(int \<times> int \<times> int) list \<Rightarrow> bool" where
  "has_overlap ((s1, e1, i1) # (s2, e2, i2) # rest) = (s2 < e1 \<or> has_overlap ((s2, e2, i2) # rest))"
| "has_overlap _ = False"

definition stage_issues :: "json \<Rightarrow> json \<Rightarrow> string \<Rightarrow> issue list" where
  "stage_issues jitter_max stages stage =
     (let stage_value = jget stages stage;
          base = ''followup.schedule.stages.'' @ stage;
          field = base @ ''.windows'';
          windows = jget stage_value ''windows'' in
      map (\<lambda>k. (range_invalid, base @ ''.'' @ k))
        (sort (filter (\<lambda>k. k \<noteq> ''windows'') (jkeys stage_value)))
      @ (case windows of
           JList (w # ws) \<Rightarrow>
             concat (map (\<lambda>(i, v). window_issues jitter_max (field @ ''['' @ nat_str i @ '']'') v)
               (zip [0..<length (w # ws)] (w # ws)))
             @ (if has_overlap (normalized_windows (w # ws)) then [(overlap_code, field)] else [])
         | _ \<Rightarrow> [(range_invalid, field)]))"

definition jitter_ok :: "json \<Rightarrow> json \<Rightarrow> bool" where
  "jitter_ok lo hi = (case (lo, hi) of (JInt a, JInt b) \<Rightarrow> 0 \<le> a \<and> a \<le> b \<and> b \<le> 20 | _ \<Rightarrow> False)"

definition validate_followup_schedule :: "json \<Rightarrow> issue list" where
  "validate_followup_schedule schedule =
     (if \<not> is_obj schedule then [(range_invalid, ''followup.schedule'')]
      else
        map (\<lambda>k. (range_invalid, ''followup.schedule.'' @ k))
          (filter (\<lambda>k. \<not> jhas schedule k) schedule_fields)
        @ map (\<lambda>k. (range_invalid, ''followup.schedule.'' @ k))
          (sort (filter (\<lambda>k. k \<notin> set schedule_fields) (jkeys schedule)))
        @ (if jget schedule ''timezone'' = JStr (asc ''Asia/Shanghai'') then []
           else [(range_invalid, ''followup.schedule.timezone'')])
        @ (if jitter_ok (jget schedule ''jitter_min_minutes'') (jget schedule ''jitter_max_minutes'') then []
           else [(range_invalid, ''followup.schedule.jitter'')])
        @ (if jget schedule ''max_delay_hours'' = JInt 24 then []
           else [(range_invalid, ''followup.schedule.max_delay_hours'')])
        @ (let stages = jget schedule ''stages'' in
           if \<not> is_obj stages then [(range_invalid, ''followup.schedule.stages'')]
           else
             concat (map (stage_issues (jget schedule ''jitter_max_minutes'') stages) stage_names)
             @ map (\<lambda>k. (range_invalid, ''followup.schedule.stages.'' @ k))
                 (sort (filter (\<lambda>k. k \<notin> set stage_names) (jkeys stages)))))"

section \<open>Resolution\<close>

record preview =
  pv_resolution :: string
  pv_in_window :: bool
  pv_window :: "(datetime \<times> datetime) option"
  pv_jitter :: int
  pv_due :: "datetime option"
  pv_delay_seconds :: "int option"
  pv_cancel :: "string option"

definition window_at :: "date \<Rightarrow> window \<Rightarrow> datetime \<times> datetime" where
  "window_at day w = (sh_midnight day + fst w * us_minute, sh_midnight day + snd w * us_minute)"

definition followup_delay_within_limit :: "datetime \<Rightarrow> datetime \<Rightarrow> int \<Rightarrow> bool" where
  "followup_delay_within_limit candidate due max_hours \<longleftrightarrow> due - candidate \<le> max_hours * us_hour"

text \<open>\<open>schedule["stages"][stage]["windows"]\<close>, normalised; \<open>None\<close> when a window is malformed.\<close>

definition stage_windows :: "json \<Rightarrow> relationship_stage \<Rightarrow> json list" where
  "stage_windows schedule stage =
     (case jget (jget (jget schedule ''stages'') (relationship_stage_str stage)) ''windows'' of
        JList ws \<Rightarrow> ws | _ \<Rightarrow> [])"

definition sorted_windows :: "json list \<Rightarrow> window list option" where
  "sorted_windows ws =
     map_option (sort_key (\<lambda>(s, e). [s, e]))
       (those (map (\<lambda>w. case (window_minutes (jget w ''start''), window_minutes (jget w ''end'')) of
          (Some s, Some e) \<Rightarrow> Some (s, e) | _ \<Rightarrow> None) ws))"

definition future_windows :: "window list \<Rightarrow> datetime \<Rightarrow> (datetime \<times> datetime) list" where
  "future_windows ws candidate =
     sort_key fst (filter (\<lambda>w. candidate < fst w)
       (concat (map (\<lambda>k. map (window_at (sh_date candidate + k)) ws) [0, 1, 2])))"

definition resolve_windows :: "window list \<Rightarrow> int \<Rightarrow> datetime \<Rightarrow> int \<Rightarrow> preview" where
  "resolve_windows ws max_hours candidate jitter =
     (case find (\<lambda>w. fst w \<le> candidate \<and> candidate < snd w) (map (window_at (sh_date candidate)) ws) of
        Some w \<Rightarrow>
          \<lparr>pv_resolution = ''in_window'', pv_in_window = True, pv_window = Some w, pv_jitter = 0,
           pv_due = Some candidate, pv_delay_seconds = Some 0, pv_cancel = None\<rparr>
      | None \<Rightarrow>
          (case future_windows ws candidate of
             w # _ \<Rightarrow>
               (let due = fst w + jitter * us_minute;
                    delay = (due - candidate) div us_second in
                if followup_delay_within_limit candidate due max_hours
                then \<lparr>pv_resolution = ''next_window'', pv_in_window = False, pv_window = Some w,
                      pv_jitter = jitter, pv_due = Some due, pv_delay_seconds = Some delay,
                      pv_cancel = None\<rparr>
                else \<lparr>pv_resolution = ''cancelled'', pv_in_window = False, pv_window = Some w,
                      pv_jitter = jitter, pv_due = None, pv_delay_seconds = Some delay,
                      pv_cancel = Some ''max_delay_exceeded''\<rparr>)
           | [] \<Rightarrow>
               \<lparr>pv_resolution = ''cancelled'', pv_in_window = False, pv_window = None,
                pv_jitter = jitter, pv_due = None, pv_delay_seconds = None,
                pv_cancel = Some ''max_delay_exceeded''\<rparr>))"

definition resolve_followup_preview ::
  "json \<Rightarrow> relationship_stage \<Rightarrow> datetime \<Rightarrow> int \<Rightarrow> preview res" where
  "resolve_followup_preview schedule stage candidate jitter =
     (if \<not> (0 \<le> jitter \<and> jitter \<le> 20) then Inl (ConfigError ''FOLLOWUP_PREVIEW_INPUT_INVALID'' 400)
      else (case (sorted_windows (stage_windows schedule stage), jget schedule ''max_delay_hours'') of
              (Some ws, JInt h) \<Rightarrow> Inr (resolve_windows ws h candidate jitter)
            | _ \<Rightarrow> Inl (RuntimeError ''schedule_not_validated'')))"

text \<open>\<open>VoiceFollowupJobService._next_window\<close>: \<open>Inr None\<close> inside a window, otherwise the next start.\<close>

fun next_window_loop :: "datetime \<Rightarrow> json list \<Rightarrow> datetime list \<Rightarrow> datetime option res" where
  "next_window_loop now [] future = Inr (Some (Min (set future)))"
| "next_window_loop now (w # ws) future =
     (if \<not> is_obj w then Inl (ValueError ''invalid_window_snapshot'')
      else (case (window_minutes (jget w ''start''), window_minutes (jget w ''end'')) of
              (Some s, Some e) \<Rightarrow>
                (let start = fst (window_at (sh_date now) (s, e)); stop = snd (window_at (sh_date now) (s, e)) in
                 if start \<ge> stop then Inl (ValueError ''invalid_window_snapshot'')
                 else if start \<le> now \<and> now < stop then Inr None
                 else next_window_loop now ws
                        (future @ [if now < start then start else start + us_day]))
            | _ \<Rightarrow> Inl (ValueError ''invalid_window_snapshot'')))"

definition next_window :: "string \<Rightarrow> json \<Rightarrow> datetime \<Rightarrow> datetime option res" where
  "next_window tz snapshot now =
     (case snapshot of
        JList (w # ws) \<Rightarrow>
          if tz \<noteq> ''Asia/Shanghai'' then Inl (ValueError ''invalid_window_snapshot'')
          else next_window_loop now (w # ws) []
      | _ \<Rightarrow> Inl (ValueError ''invalid_window_snapshot''))"

text \<open>\<open>DEFAULT_FOLLOWUP_SCHEDULE\<close>.\<close>

definition default_stage :: "string \<Rightarrow> string \<Rightarrow> json" where
  "default_stage s e = JObj [(''windows'', JList [JObj [(''start'', JStr (asc s)), (''end'', JStr (asc e))]])]"

definition default_followup_schedule :: json where
  "default_followup_schedule = JObj [
     (''timezone'', JStr (asc ''Asia/Shanghai'')),
     (''jitter_min_minutes'', JInt 0),
     (''jitter_max_minutes'', JInt 20),
     (''max_delay_hours'', JInt 24),
     (''stages'', JObj [
        (''stranger'', default_stage ''10:00'' ''21:00''),
        (''friend'', default_stage ''09:30'' ''22:00''),
        (''intimate'', default_stage ''09:00'' ''22:30''),
        (''soulmate'', default_stage ''09:00'' ''23:00'')])]"

section \<open>What validation gives\<close>

lemma window_bounds_Some:
  assumes "window_bounds w = Some (s, e)"
  shows "window_minutes (jget w ''start'') = Some s" "window_minutes (jget w ''end'') = Some e"
    "0 \<le> s" "s < e" "e < 1440" "is_obj w"
  using assms window_minutes_bounds
  by (fastforce simp: window_bounds_def split: if_splits option.splits)+

definition good_window :: "int \<Rightarrow> window \<Rightarrow> bool" where
  "good_window j w \<longleftrightarrow> 0 \<le> fst w \<and> fst w < snd w \<and> snd w < 1440 \<and> j < snd w - fst w"

lemma window_issues_Nil:
  assumes "window_issues (JInt j) f w = []"
  obtains s e where "window_bounds w = Some (s, e)" "good_window j (s, e)"
proof -
  from assms obtain s e where b: "window_bounds w = Some (s, e)" "\<not> e - s \<le> j"
    by (auto simp: window_issues_def split: option.splits if_splits)
  with window_bounds_Some [OF b(1)] that show thesis by (simp add: good_window_def)
qed

lemma stage_issues_Nil:
  assumes "stage_issues (JInt j) stages stage = []"
  obtains ws where "jget (jget stages stage) ''windows'' = JList ws" "ws \<noteq> []"
    "\<And>w. w \<in> set ws \<Longrightarrow> \<exists>s e. window_bounds w = Some (s, e) \<and> good_window j (s, e)"
proof -
  from assms obtain ws where ws: "jget (jget stages stage) ''windows'' = JList ws" "ws \<noteq> []"
    by (auto simp: stage_issues_def Let_def split: json.splits list.splits)
  have "\<exists>s e. window_bounds w = Some (s, e) \<and> good_window j (s, e)" if "w \<in> set ws" for w
  proof -
    from that obtain i where i: "i < length ws" "ws ! i = w" by (auto simp: in_set_conv_nth)
    have "(i, w) \<in> set (zip [0..<length ws] ws)"
      using i by (auto simp: in_set_zip intro!: exI [of _ i])
    then obtain f where "window_issues (JInt j) f w = []"
      using assms ws by (cases ws) (auto simp: stage_issues_def Let_def split: if_splits)
    then show ?thesis by (metis window_issues_Nil)
  qed
  with ws that show thesis by blast
qed

lemma stage_name_in: "relationship_stage_str st \<in> set stage_names"
  by (cases st) (simp_all add: stage_names_def)

lemma valid_schedule_parts:
  assumes "validate_followup_schedule sch = []"
  obtains lo hi where "jget sch ''jitter_min_minutes'' = JInt lo" "jget sch ''jitter_max_minutes'' = JInt hi"
    "0 \<le> lo" "lo \<le> hi" "hi \<le> 20" "jget sch ''max_delay_hours'' = JInt 24"
    "jget sch ''timezone'' = JStr (asc ''Asia/Shanghai'')"
    "\<And>stage. stage \<in> set stage_names \<Longrightarrow> stage_issues (JInt hi) (jget sch ''stages'') stage = []"
proof -
  from assms have j: "jitter_ok (jget sch ''jitter_min_minutes'') (jget sch ''jitter_max_minutes'')"
    and m: "jget sch ''max_delay_hours'' = JInt 24"
    and tz: "jget sch ''timezone'' = JStr (asc ''Asia/Shanghai'')"
    and st: "\<forall>stage \<in> set stage_names.
      stage_issues (jget sch ''jitter_max_minutes'') (jget sch ''stages'') stage = []"
    by (auto simp: validate_followup_schedule_def Let_def split: if_splits)
  from j obtain lo hi where lh: "jget sch ''jitter_min_minutes'' = JInt lo"
    "jget sch ''jitter_max_minutes'' = JInt hi" "0 \<le> lo" "lo \<le> hi" "hi \<le> 20"
    by (auto simp: jitter_ok_def split: json.splits)
  show thesis
    using that [OF lh m tz] st lh(2) by simp
qed

lemma those_map_Some: "(\<And>x. x \<in> set xs \<Longrightarrow> f x = Some (g x)) \<Longrightarrow> those (map f xs) = Some (map g xs)"
  by (induction xs) auto

lemma valid_schedule_windows:
  assumes "validate_followup_schedule sch = []" "jget sch ''jitter_max_minutes'' = JInt hi"
  obtains ws where "sorted_windows (stage_windows sch stage) = Some ws" "ws \<noteq> []"
    "\<And>w. w \<in> set ws \<Longrightarrow> good_window hi w"
proof -
  from assms have "stage_issues (JInt hi) (jget sch ''stages'') (relationship_stage_str stage) = []"
    using stage_name_in [of stage] by (metis json.inject(2) valid_schedule_parts)
  from stage_issues_Nil [OF this] obtain vs
    where w: "jget (jget (jget sch ''stages'') (relationship_stage_str stage)) ''windows'' = JList vs"
    and vs: "vs \<noteq> []"
    and ok: "\<And>w. w \<in> set vs \<Longrightarrow> \<exists>s e. window_bounds w = Some (s, e) \<and> good_window hi (s, e)"
    by blast
  from w have sw: "stage_windows sch stage = vs" by (simp add: stage_windows_def)
  define g where "g w = the (window_bounds w)" for w
  have g: "window_bounds w = Some (g w)" "good_window hi (g w)" if "w \<in> set vs" for w
    using ok [OF that] by (auto simp: g_def)
  have "those (map (\<lambda>w. case (window_minutes (jget w ''start''), window_minutes (jget w ''end'')) of
      (Some s, Some e) \<Rightarrow> Some (s, e) | _ \<Rightarrow> None) vs) = Some (map g vs)"
  proof (rule those_map_Some)
    fix w assume "w \<in> set vs"
    from g(1) [OF this] obtain s e where "window_bounds w = Some (s, e)" "g w = (s, e)"
      by (cases "g w") simp
    then show "(case (window_minutes (jget w ''start''), window_minutes (jget w ''end'')) of
      (Some s, Some e) \<Rightarrow> Some (s, e) | _ \<Rightarrow> None) = Some (g w)"
      using window_bounds_Some by simp
  qed
  then have "sorted_windows vs = Some (sort_key (\<lambda>(s, e). [s, e]) (map g vs))"
    by (simp add: sorted_windows_def)
  then have "sorted_windows (stage_windows sch stage) = Some (sort_key (\<lambda>(s, e). [s, e]) (map g vs))"
    by (simp add: sw)
  then show thesis
  proof (rule that)
    have "length (sort_key (\<lambda>(s, e). [s, e]) (map g vs)) \<noteq> 0" using vs by simp
    then show "sort_key (\<lambda>(s, e). [s, e]) (map g vs) \<noteq> []" by (metis list.size(3))
    show "good_window hi w" if "w \<in> set (sort_key (\<lambda>(s, e). [s, e]) (map g vs))" for w
      using that g(2) by auto
  qed
qed

section \<open>The resolved instant\<close>

lemma sort_key_hd:
  assumes "xs \<noteq> []"
  obtains y ys where "sort_key f xs = y # ys" "y \<in> set xs" "\<And>x. x \<in> set xs \<Longrightarrow> f y \<le> f x"
proof -
  obtain y ys where y: "sort_key f xs = y # ys"
    using assms by (metis list.exhaust length_0_conv length_sort)
  have "y \<in> set xs" by (metis list.set_intros(1) set_sort y)
  moreover have "f y \<le> f x" if "x \<in> set xs" for x
  proof -
    have "sorted (map f (y # ys))" by (metis sorted_sort_key y)
    moreover have "x \<in> set (y # ys)" using that by (metis set_sort y)
    ultimately show ?thesis by auto
  qed
  ultimately show thesis using that y by blast
qed

definition window_of :: "window list \<Rightarrow> datetime \<times> datetime \<Rightarrow> bool" where
  "window_of ws w \<longleftrightarrow> (\<exists>d. \<exists>v \<in> set ws. w = window_at d v)"

text \<open>A candidate outside every window of its day goes to the first start after it.\<close>

lemma next_start:
  assumes ws: "ws \<noteq> []" "\<And>w. w \<in> set ws \<Longrightarrow> good_window j w" and j: "0 \<le> j"
    and none: "\<And>v. v \<in> set ws \<Longrightarrow>
      \<not> (fst (window_at (sh_date c) v) \<le> c \<and> c < snd (window_at (sh_date c) v))"
  obtains w rest where "future_windows ws c = w # rest" "window_of ws w" "c < fst w"
    "fst w + j * us_minute < snd w" "fst w + j * us_minute - c \<le> 24 * us_hour"
proof -
  let ?d = "sh_date c"
  let ?W = "filter (\<lambda>w. c < fst w) (concat (map (\<lambda>k. map (window_at (?d + k)) ws) [0, 1, 2]))"
  have d: "sh_midnight ?d \<le> c" "c < sh_midnight ?d + us_day"
    using sh_date_iff [of c ?d] by (auto simp: sh_midnight_def algebra_simps)
  have mid: "sh_midnight (?d + k) = sh_midnight ?d + k * us_day" for k
    by (simp add: sh_midnight_def algebra_simps)
  have tomorrow: "window_at (?d + 1) v \<in> set ?W" if "v \<in> set ws" for v
  proof -
    have "0 \<le> fst v * us_minute" using ws(2) [OF that] by (simp add: good_window_def us_minute_def)
    with that d show ?thesis by (auto simp: window_at_def mid)
  qed
  then have "?W \<noteq> []" using ws(1) by (metis empty_iff list.set(1) list.set_intros(1) neq_Nil_conv)
  then obtain w rest where w: "sort_key fst ?W = w # rest" "w \<in> set ?W"
    and least: "\<And>x. x \<in> set ?W \<Longrightarrow> fst w \<le> fst x"
    using sort_key_hd by blast
  from w(2) have c: "c < fst w" and "\<exists>k \<in> {0, 1, 2}. w \<in> window_at (?d + k) ` set ws"
    by auto
  then obtain k v where k: "k \<in> {0, 1, 2}" and v: "v \<in> set ws" "w = window_at (?d + k) v"
    by blast
  have g: "0 \<le> fst v" "fst v < snd v" "snd v < 1440" "j < snd v - fst v"
    using ws(2) [OF v(1)] by (simp_all add: good_window_def)
  have due: "fst w + j * us_minute < snd w"
    using g by (simp add: v(2) window_at_def us_minute_def)
  have "fst w + j * us_minute - c \<le> 24 * us_hour"
  proof (cases "k = 0")
    case True
    with g d show ?thesis by (simp add: v(2) window_at_def us_minute_def us_hour_def us_day_def)
  next
    case False
    with k have k1: "1 \<le> k" by auto
    have "fst w \<le> fst (window_at (?d + 1) v)" using least tomorrow [OF v(1)] by blast
    moreover have "fst (window_at ?d v) \<le> c"
    proof (rule ccontr)
      assume "\<not> fst (window_at ?d v) \<le> c"
      then have "window_at ?d v \<in> set ?W" using v(1) by force
      then have "fst w \<le> fst (window_at ?d v)" by (rule least)
      with k1 show False by (simp add: v(2) window_at_def mid us_day_def)
    qed
    then have "snd (window_at ?d v) \<le> c" using none [OF v(1)] by auto
    ultimately show ?thesis using g
      by (simp add: window_at_def mid [of 1] us_minute_def us_hour_def us_day_def)
  qed
  with w(1) v c due that show thesis
    by (auto simp: future_windows_def window_of_def)
qed

text \<open>
  On good windows the resolution never cancels: it gives an instant in a configured window, not
  before the candidate and within 24 hours of it.
\<close>

lemma resolve_windows_good:
  assumes ws: "ws \<noteq> []" "\<And>w. w \<in> set ws \<Longrightarrow> good_window j w" and j: "0 \<le> j"
  shows "\<exists>due w. pv_due (resolve_windows ws 24 c j) = Some due \<and>
      pv_cancel (resolve_windows ws 24 c j) = None \<and>
      pv_window (resolve_windows ws 24 c j) = Some w \<and> window_of ws w \<and>
      c \<le> due \<and> due - c \<le> 24 * us_hour \<and> fst w \<le> due \<and> due < snd w"
proof (cases "find (\<lambda>w. fst w \<le> c \<and> c < snd w) (map (window_at (sh_date c)) ws)")
  case (Some w)
  then have w: "w \<in> set (map (window_at (sh_date c)) ws)" "fst w \<le> c" "c < snd w"
    using find_Some_mem by fastforce+
  from w(1) have "window_of ws w" unfolding window_of_def by auto
  with Some w show ?thesis
    by (simp add: resolve_windows_def us_hour_def)
next
  case None
  then have "\<not> (fst (window_at (sh_date c) v) \<le> c \<and> c < snd (window_at (sh_date c) v))" if "v \<in> set ws" for v
    using that by (auto simp: find_None_iff)
  from next_start [OF ws j this] obtain w rest where
    w: "future_windows ws c = w # rest" "window_of ws w" "c < fst w"
    "fst w + j * us_minute < snd w" "fst w + j * us_minute - c \<le> 24 * us_hour"
    by blast
  have "0 \<le> j * us_minute" using j by (simp add: us_minute_def)
  with w None show ?thesis
    by (simp add: resolve_windows_def followup_delay_within_limit_def Let_def)
qed

lemma good_window_mono: "good_window hi w \<Longrightarrow> j \<le> hi \<Longrightarrow> good_window j w"
  by (simp add: good_window_def)

text \<open>The resolution on a valid schedule: an instant of a window of the stage within 24 hours.\<close>

definition resolves_in_window :: "json \<Rightarrow> relationship_stage \<Rightarrow> datetime \<Rightarrow> int \<Rightarrow> preview \<Rightarrow> bool" where
  "resolves_in_window sch stg c hi pv \<longleftrightarrow>
     (\<exists>due w ws. pv_due pv = Some due \<and> pv_cancel pv = None \<and> pv_window pv = Some w \<and>
        c \<le> due \<and> due - c \<le> 24 * us_hour \<and> fst w \<le> due \<and> due < snd w \<and>
        window_of ws w \<and> sorted_windows (stage_windows sch stg) = Some ws \<and>
        (\<forall>v \<in> set ws. good_window hi v))"

lemma valid_schedule_resolves_h:
  assumes v: "validate_followup_schedule sch = []"
    and hi: "jget sch ''jitter_max_minutes'' = JInt hi" and j: "0 \<le> j" "j \<le> hi"
  obtains pv where "resolve_followup_preview sch stg c j = Inr pv" "resolves_in_window sch stg c hi pv"
proof -
  obtain ws where ws: "sorted_windows (stage_windows sch stg) = Some ws" "ws \<noteq> []"
    "\<And>w. w \<in> set ws \<Longrightarrow> good_window hi w"
    using valid_schedule_windows [OF v hi] by blast
  have "hi \<le> 20" "jget sch ''max_delay_hours'' = JInt 24"
    using valid_schedule_parts [OF v] hi by (metis json.inject(2))+
  then have "resolve_followup_preview sch stg c j = Inr (resolve_windows ws 24 c j)"
    using ws(1) j by (simp add: resolve_followup_preview_def)
  moreover have "good_window j w" if "w \<in> set ws" for w
    using good_window_mono [OF ws(3) [OF that] j(2)] .
  then have "resolves_in_window sch stg c hi (resolve_windows ws 24 c j)"
    using resolve_windows_good [OF ws(2) _ j(1), of c] ws(1,3) unfolding resolves_in_window_def by metis
  ultimately show thesis using that by blast
qed

section \<open>The dispatcher's window test\<close>

text \<open>The windows of a snapshot as the dispatcher reads them, and being inside one of them.\<close>

definition snap_window :: "json \<Rightarrow> window option" where
  "snap_window w =
     (if is_obj w
      then (case (window_minutes (jget w ''start''), window_minutes (jget w ''end'')) of
              (Some s, Some e) \<Rightarrow> if s < e then Some (s, e) else None
            | _ \<Rightarrow> None)
      else None)"

definition inside :: "datetime \<Rightarrow> window \<Rightarrow> bool" where
  "inside t v \<longleftrightarrow> fst (window_at (sh_date t) v) \<le> t \<and> t < snd (window_at (sh_date t) v)"

definition after_start :: "datetime \<Rightarrow> window \<Rightarrow> datetime" where
  "after_start t v =
     (if t < fst (window_at (sh_date t) v) then fst (window_at (sh_date t) v)
      else fst (window_at (sh_date t) v) + us_day)"

lemma snap_window_bounds:
  assumes "snap_window w = Some v"
  shows "0 \<le> fst v" "fst v < snd v" "snd v < 1440"
  using assms window_minutes_bounds
  by (fastforce simp: snap_window_def split: if_splits option.splits)+

lemma next_window_loop_Cons:
  "next_window_loop now (w # ws) future =
     (case snap_window w of
        None \<Rightarrow> Inl (ValueError ''invalid_window_snapshot'')
      | Some v \<Rightarrow> if inside now v then Inr None else next_window_loop now ws (future @ [after_start now v]))"
  by (auto simp: snap_window_def inside_def after_start_def window_at_def us_minute_def Let_def
      split: option.splits)

lemma next_window_loop_inside:
  assumes "\<forall>w \<in> set ws. snap_window w \<noteq> None" "w \<in> set ws" "snap_window w = Some v" "inside now v"
  shows "next_window_loop now ws future = Inr None"
  using assms
proof (induction ws arbitrary: future)
  case (Cons u us)
  then obtain x where "snap_window u = Some x" by auto
  with Cons show ?case by (auto simp: next_window_loop_Cons simp del: next_window_loop.simps)
qed simp

lemma next_window_loop_Some:
  assumes "next_window_loop now ws future = Inr (Some t)"
  shows "(\<forall>w \<in> set ws. \<exists>v. snap_window w = Some v \<and> \<not> inside now v) \<and>
    t = Min (set future \<union> (\<lambda>w. after_start now (the (snap_window w))) ` set ws)"
  using assms
proof (induction ws arbitrary: future)
  case (Cons u us)
  then obtain x where x: "snap_window u = Some x" "\<not> inside now x"
    and r: "next_window_loop now us (future @ [after_start now x]) = Inr (Some t)"
    by (auto simp: next_window_loop_Cons simp del: next_window_loop.simps split: option.splits if_splits)
  from Cons.IH [OF r] x show ?case by (cases x) (simp add: Un_ac(3) insert_commute)
qed simp

lemma inside_date:
  assumes "0 \<le> fst v" "fst v < snd v" "snd v < 1440"
    and "fst (window_at d v) \<le> t" "t < snd (window_at d v)"
  shows "sh_date t = d"
proof -
  have "0 \<le> fst v * us_minute" "snd v * us_minute \<le> us_day"
    using assms(1-3) by (simp_all add: us_minute_def us_day_def)
  with assms(4,5) show ?thesis
    unfolding sh_date_iff by (auto simp: window_at_def sh_midnight_def algebra_simps)
qed

lemma after_start_inside:
  assumes v: "0 \<le> fst v" "fst v < snd v" "snd v < 1440"
  shows "now < after_start now v" "after_start now v \<le> now + us_day" "inside (after_start now v) v"
proof -
  have d: "sh_midnight (sh_date now) \<le> now" "now < sh_midnight (sh_date now) + us_day"
    using sh_date_iff [of now "sh_date now"] by (auto simp: sh_midnight_def algebra_simps)
  have m: "0 \<le> fst v * us_minute" "fst v * us_minute < snd v * us_minute" "snd v * us_minute < us_day"
    using v by (simp_all add: us_minute_def us_day_def)
  obtain k where k: "after_start now v = fst (window_at k v)"
    by (cases "now < fst (window_at (sh_date now) v)")
      (auto simp: after_start_def window_at_def sh_midnight_def algebra_simps
        intro: that [of "sh_date now"] that [of "sh_date now + 1"])
  have "snd (window_at k v) > after_start now v" using k m by (simp add: window_at_def)
  with inside_date [OF v] k show "inside (after_start now v) v"
    by (metis inside_def order_refl)
  show "now < after_start now v" "after_start now v \<le> now + us_day"
    using d m by (auto simp: after_start_def window_at_def)
qed

lemma next_window_later_h:
  assumes "next_window tz snap now = Inr (Some t)"
  shows "now < t \<and> t \<le> now + us_day \<and> next_window tz snap t = Inr None"
proof -
  from assms obtain w ws where snap: "snap = JList (w # ws)" "tz = ''Asia/Shanghai''"
    and l: "next_window_loop now (w # ws) [] = Inr (Some t)"
    by (auto simp: next_window_def simp del: next_window_loop.simps split: json.splits list.splits if_splits)
  let ?S = "(\<lambda>w. after_start now (the (snap_window w))) ` set (w # ws)"
  from next_window_loop_Some [OF l] have ok: "\<forall>u \<in> set (w # ws). \<exists>v. snap_window u = Some v"
    and t: "t = Min ?S" by auto
  have "Min ?S \<in> ?S" by (rule Min_in) simp_all
  then obtain u where u: "u \<in> set (w # ws)" "t = after_start now (the (snap_window u))"
    using t by auto
  from ok u(1) obtain v where v: "snap_window u = Some v" by blast
  note good = after_start_inside [OF snap_window_bounds [OF v], of now]
  have "next_window_loop t (w # ws) [] = Inr None"
    using next_window_loop_inside [OF _ u(1) v] ok good(3) u(2) v by fastforce
  with good u(2) v snap show ?thesis
    by (simp add: next_window_def del: next_window_loop.simps)
qed

lemma those_SomeD: "those xs = Some ys \<Longrightarrow> xs = map Some ys"
  by (induction xs arbitrary: ys) (auto split: option.splits)

lemma sorted_windows_mem:
  assumes "sorted_windows vs = Some ws" "v \<in> set ws"
  obtains w where "w \<in> set vs" "window_minutes (jget w ''start'') = Some (fst v)"
    "window_minutes (jget w ''end'') = Some (snd v)"
proof -
  let ?f = "\<lambda>w. case (window_minutes (jget w ''start''), window_minutes (jget w ''end'')) of
    (Some s, Some e) \<Rightarrow> Some (s, e) | _ \<Rightarrow> None"
  from assms obtain us where us: "those (map ?f vs) = Some us" "v \<in> set us"
    by (auto simp: sorted_windows_def)
  from us have "Some v \<in> set (map ?f vs)"
    by (simp only: those_SomeD [OF us(1)]) simp
  then have "\<exists>w \<in> set vs. ?f w = Some v" by (metis (no_types, lifting) image_iff list.set_map)
  then obtain w where "w \<in> set vs" "?f w = Some v" by blast
  with that show thesis by (auto split: option.splits)
qed

section \<open>The default schedule\<close>

lemma default_stage_valid:
  assumes "st \<in> set stage_names"
  shows "stage_issues (JInt 20) (jget default_followup_schedule ''stages'') st = []"
  using assms
  by (auto simp: stage_names_def default_followup_schedule_def default_stage_def stage_issues_def Let_def
      jkeys_def window_issues_def window_bounds_def window_minutes_def hhmm_minutes_def asc_def
      digit_value_ascii normalized_windows_def)

lemma default_schedule_valid: "validate_followup_schedule default_followup_schedule = []"
proof -
  have "concat (map (stage_issues (JInt 20) (jget default_followup_schedule ''stages'')) stage_names) = []"
    using default_stage_valid by simp
  then show ?thesis
    by (simp add: validate_followup_schedule_def default_followup_schedule_def Let_def schedule_fields_def
        jhas_def jkeys_def jitter_ok_def stage_names_def)
qed

section \<open>Properties\<close>

text \<open>A follow-up schedule that passes the validator resolves every candidate instant, for every
  relationship stage and every jitter within its own maximum, to a send instant that lies inside one
  of the stage's windows, is not before the candidate and is at most 24 hours after it. In
  particular the cancellation \<open>max_delay_exceeded\<close> never happens on a valid schedule.\<close>

theorem valid_schedule_resolves:
  assumes "validate_followup_schedule sch = []" "jget sch ''jitter_max_minutes'' = JInt hi" "0 \<le> j" "j \<le> hi"
  shows "\<exists>pv. resolve_followup_preview sch stg c j = Inr pv \<and> resolves_in_window sch stg c hi pv"
  using valid_schedule_resolves_h [OF assms] by blast

theorem valid_schedule_resolves_witness:
  "\<exists>pv. resolve_followup_preview default_followup_schedule Intimate 1234567890 13 = Inr pv \<and>
     resolves_in_window default_followup_schedule Intimate 1234567890 20 pv"
  by (rule valid_schedule_resolves [OF default_schedule_valid]) (simp_all add: default_followup_schedule_def)

text \<open>When the dispatcher's window test defers a job, it defers it to a later instant at most one day
  ahead, and at that instant the same test lets the job through.\<close>

theorem next_window_progress:
  assumes "next_window tz snap now = Inr (Some t)"
  shows "now < t \<and> t \<le> now + us_day \<and> next_window tz snap t = Inr None"
  using assms by (rule next_window_later_h)

theorem next_window_progress_witness:
  "next_window ''Asia/Shanghai'' (JList [JObj [(''start'', JStr (asc ''10:00'')), (''end'', JStr (asc ''21:00''))]]) 7200000000
   = Inr None"
proof -
  have n: "next_window ''Asia/Shanghai'' (JList [JObj [(''start'', JStr (asc ''10:00'')), (''end'', JStr (asc ''21:00''))]]) 0
      = Inr (Some 7200000000)"
    by (simp add: next_window_def window_minutes_def hhmm_minutes_def asc_def digit_value_ascii window_at_def
        sh_date_def sh_midnight_def us_day_def sh_offset_def us_minute_def Let_def)
  from next_window_progress [OF n] show ?thesis by blast
qed

end
