(* ===== verification/Followup.thy ===== *)
theory Followup
  imports Card Schedule
begin

text \<open>
  Staging of a follow-up job inside the transaction that produced it
  (\<open>realtime_voice_summary_followup_service.py\<close>): the missed-call explanation of a terminal
  transition and the candidate of a summary.

  \<open>seed\<close> is the outcome of \<open>secrets.randbelow\<close>: the draw below \<open>n\<close> is \<open>seed mod n\<close>, so every draw is
  some seed. \<open>fj_schedule_config_version\<close> keeps the JSON value whose \<open>str\<close> the column stores.
\<close>

section \<open>The explanation template\<close>

definition ascii_upper :: "pystr \<Rightarrow> pystr" where
  "ascii_upper t = map (\<lambda>c. if 97 \<le> c \<and> c \<le> 122 then c - 32 else c) t"

definition placeholder_texts :: "pystr list" where
  "placeholder_texts = [asc ''TODO'', asc ''TBD'', asc ''PLACEHOLDER'', [24453, 22635, 20889],
     [21344, 20301, 25991, 26696]]"

text \<open>\<open>%\([^)]+\)[a-z]\<close> after its percent sign.\<close>

definition named_percent :: "pystr \<Rightarrow> bool" where
  "named_percent t =
     (case t of
        [] \<Rightarrow> False
      | c # r \<Rightarrow> c = 40 \<and> takeWhile (\<lambda>x. x \<noteq> 41) r \<noteq> [] \<and>
          (case dropWhile (\<lambda>x. x \<noteq> 41) r of
             _ # x # _ \<Rightarrow> 97 \<le> x \<and> x \<le> 122
           | _ \<Rightarrow> False))"

text \<open>\<open>re.search(r'[{}]|<%|%>|%\([^)]+\)[a-z]|%s', t)\<close>.\<close>

fun has_marker :: "pystr \<Rightarrow> bool" where
  "has_marker [] = False"
| "has_marker (c # cs) =
     (c = 123 \<or> c = 125
      \<or> c = 60 \<and> take 1 cs = [37]
      \<or> c = 37 \<and> (take 1 cs = [62] \<or> take 1 cs = [115] \<or> named_percent cs)
      \<or> has_marker cs)"

definition default_missed_template :: pystr where
  "default_missed_template = [21018, 21018, 27809, 25509, 21040, 20320, 30340, 30005, 35805, 65292,
     26202, 19968, 28857, 25105, 20204, 20877, 32842, 21568, 12290]"

definition missed_template :: "json \<Rightarrow> pystr" where
  "missed_template content =
     (case content of
        JStr t \<Rightarrow>
          if \<not> nonblank t \<or> ascii_upper (py_strip t) \<in> set placeholder_texts \<or> has_marker t
          then default_missed_template else t
      | _ \<Rightarrow> default_missed_template)"

section \<open>Staging\<close>

definition mapping :: "json \<Rightarrow> json" where
  "mapping v = (if is_obj v then v else JObj [])"

definition randbelow :: "int \<Rightarrow> int \<Rightarrow> int" where
  "randbelow seed n = seed mod n"

definition stage_of_level :: "int \<Rightarrow> relationship_stage option" where
  "stage_of_level l =
     (if l = 0 then Some Stranger else if l = 1 then Some Friend
      else if l = 2 then Some Intimate else if l = 3 then Some Soulmate else None)"

definition fresh_id :: "int list \<Rightarrow> int" where
  "fresh_id xs = fold max xs 0 + 1"

record candidate =
  cd_type :: followup_type
  cd_content :: pystr
  cd_delay :: int

definition find_followup :: "string \<Rightarrow> followup_type \<Rightarrow> database \<Rightarrow> followup_job option" where
  "find_followup cid ty db = find (\<lambda>j. fj_call_id j = cid \<and> fj_content_type j = ty) (db_followups db)"

definition followup_events :: "followup_job \<Rightarrow> event list" where
  "followup_events row =
     [ev ''voice.followup.branch''
        [(''branch'', if fj_content_type row = Missed_explanation then ''missed'' else ''topic'')] 1,
      ev ''voice.followup.schedule'' [(''result'', followup_status_str (fj_status row))] 1]
     @ (case fj_cancel_reason row of
          Some r \<Rightarrow> [ev ''voice.followup.cancel'' [(''reason'', r)] 1]
        | None \<Rightarrow> [])"

definition call_schedule :: "voice_call \<Rightarrow> json \<times> json" where
  "call_schedule c =
     (let snapshot = mapping (vc_config_snapshot c);
          schedule = jget (mapping (jget (mapping (jget snapshot ''resolved_config'')) ''followup'')) ''schedule'' in
      if validate_followup_schedule schedule \<noteq> []
      then (default_followup_schedule, JStr (asc ''code-default''))
      else (schedule, jget_def' snapshot ''config_version'' (JStr (asc ''code-default''))))"

definition schedule_int :: "json \<Rightarrow> string \<Rightarrow> int" where
  "schedule_int schedule k = (case jget schedule k of JInt n \<Rightarrow> n | _ \<Rightarrow> 0)"

definition followup_stage :: "voice_call \<Rightarrow> bool \<Rightarrow> database \<Rightarrow> relationship_stage res" where
  "followup_stage c allow_new db =
     (case get_relationship (vc_user_id c) db of
        None \<Rightarrow> if allow_new then Inr Stranger else Inl (ValueError ''summary_relationship_snapshot_missing'')
      | Some r \<Rightarrow>
          (case stage_of_level (rl_level r) of
             None \<Rightarrow> Inl (ValueError ''summary_relationship_snapshot_missing'')
           | Some s \<Rightarrow> Inr s))"

definition followup_row ::
  "datetime \<Rightarrow> voice_call \<Rightarrow> candidate \<Rightarrow> int \<Rightarrow> json \<Rightarrow> json \<Rightarrow> relationship_stage \<Rightarrow> datetime \<Rightarrow> preview
     \<Rightarrow> followup_job" where
  "followup_row utcnow c cand i schedule version stg candidate_at pv =
     \<lparr>fj_id = i, fj_call_id = vc_call_id c, fj_user_id = vc_user_id c,
      fj_candidate_due_at = candidate_at,
      fj_due_at = (case pv_due pv of Some d \<Rightarrow> d | None \<Rightarrow> candidate_at),
      fj_latest_due_at = candidate_at + schedule_int schedule ''max_delay_hours'' * us_hour,
      fj_content = cd_content cand, fj_content_type = cd_type cand,
      fj_status = (if pv_cancel pv = None then Fol_pending else Fol_cancelled),
      fj_cancel_reason = pv_cancel pv, fj_agent_message_id = None,
      fj_relationship_stage_snapshot = stg, fj_schedule_config_version = version,
      fj_timezone_snapshot = ''Asia/Shanghai'',
      fj_allowed_window_snapshot = JList (stage_windows schedule stg),
      fj_jitter_minutes = pv_jitter pv, fj_attempt_count = 0, fj_next_retry_at = None,
      fj_fail_reason = None, fj_lease_owner = None, fj_lease_expires_at = None,
      fj_created_at = utcnow\<rparr>"

definition followup_jitter :: "int \<Rightarrow> json \<Rightarrow> int option \<Rightarrow> int res" where
  "followup_jitter seed schedule jitter_minutes =
     (let lo = schedule_int schedule ''jitter_min_minutes'';
          hi = schedule_int schedule ''jitter_max_minutes'';
          jitter = (case jitter_minutes of None \<Rightarrow> lo + randbelow seed (hi - lo + 1) | Some j \<Rightarrow> j) in
      if lo \<le> jitter \<and> jitter \<le> hi then Inr jitter
      else Inl (ValueError ''summary_followup_jitter_out_of_range''))"

definition new_followup ::
  "datetime \<Rightarrow> int \<Rightarrow> voice_call \<Rightarrow> candidate \<Rightarrow> int option \<Rightarrow> relationship_stage \<Rightarrow> int \<Rightarrow> followup_job res" where
  "new_followup utcnow seed c cand jitter_minutes stg i =
     (let schedule = fst (call_schedule c); version = snd (call_schedule c) in
      bindR (followup_jitter seed schedule jitter_minutes) (\<lambda>jitter.
        (case vc_ended_at c of
           None \<Rightarrow> Inl (RuntimeError ''ended_at'')
         | Some ended \<Rightarrow>
             (let candidate_at = ended + cd_delay cand * us_minute in
              bindR (resolve_followup_preview schedule stg candidate_at jitter) (\<lambda>pv.
                Inr (followup_row utcnow c cand i schedule version stg candidate_at pv))))))"

definition stage_followup ::
  "datetime \<Rightarrow> int \<Rightarrow> voice_call \<Rightarrow> candidate \<Rightarrow> int option \<Rightarrow> bool \<Rightarrow> database
     \<Rightarrow> (followup_job \<times> database) res" where
  "stage_followup utcnow seed c cand jitter_minutes allow_new db =
     (case find_followup (vc_call_id c) (cd_type cand) db of
        Some row \<Rightarrow> Inr (row, db)
      | None \<Rightarrow>
          bindR (followup_stage c allow_new db) (\<lambda>stg.
          bindR (new_followup utcnow seed c cand jitter_minutes stg
                   (fresh_id (map fj_id (db_followups db)))) (\<lambda>row.
          Inr (row, stage (followup_events row) (db\<lparr>db_followups := db_followups db @ [row]\<rparr>)))))"

definition stage_missed_followup ::
  "datetime \<Rightarrow> int \<Rightarrow> voice_call \<Rightarrow> database \<Rightarrow> (followup_job option \<times> database) res" where
  "stage_missed_followup utcnow seed c db =
     (if vc_status c \<noteq> Missed \<or> vc_connected_at c \<noteq> None \<or> vc_ended_at c = None
         \<or> vc_deleted_at c \<noteq> None \<or> vc_deletion_fence_at c \<noteq> None
      then Inr (None, db)
      else
        let script = mapping (jget (mapping (vc_config_snapshot c)) ''resolved_script'');
            content = missed_template (jget (mapping (jget script ''followup'')) ''missed_explanation_template'') in
        bindR (stage_followup utcnow seed c
                 \<lparr>cd_type = Missed_explanation, cd_content = content, cd_delay = 0\<rparr> None True db)
          (\<lambda>rd. Inr (Some (fst rd), snd rd)))"

section \<open>Facts\<close>

lemma call_schedule_valid: "validate_followup_schedule (fst (call_schedule c)) = []"
  by (simp add: call_schedule_def Let_def default_schedule_valid)

lemma snap_window_of_bounds: "window_bounds w = Some v \<Longrightarrow> snap_window w = Some v"
  by (auto simp: window_bounds_def snap_window_def split: if_splits option.splits)

text \<open>The windows a valid schedule gives a stage, as the dispatcher will read them.\<close>

lemma valid_stage_snapshot:
  assumes "validate_followup_schedule sch = []"
  shows "stage_windows sch stg \<noteq> []" "\<forall>w \<in> set (stage_windows sch stg). snap_window w \<noteq> None"
proof -
  obtain hi where hi: "stage_issues (JInt hi) (jget sch ''stages'') (relationship_stage_str stg) = []"
    using valid_schedule_parts [OF assms] stage_name_in by metis
  from stage_issues_Nil [OF hi] obtain ws where
    w: "jget (jget (jget sch ''stages'') (relationship_stage_str stg)) ''windows'' = JList ws" "ws \<noteq> []"
    and b: "\<And>w. w \<in> set ws \<Longrightarrow> \<exists>s e. window_bounds w = Some (s, e) \<and> good_window hi (s, e)"
    by blast
  from w have sw: "stage_windows sch stg = ws" by (simp add: stage_windows_def)
  with w show "stage_windows sch stg \<noteq> []" by simp
  show "\<forall>w \<in> set (stage_windows sch stg). snap_window w \<noteq> None"
    unfolding sw using b snap_window_of_bounds by fastforce
qed

text \<open>The resolved instant passes the dispatcher's own test on the frozen windows.\<close>

lemma resolved_inside:
  assumes v: "validate_followup_schedule sch = []"
    and w: "window_of ws w" "sorted_windows (stage_windows sch stg) = Some ws"
    "\<forall>v \<in> set ws. good_window hi v" and due: "fst w \<le> due" "due < snd w"
  shows "next_window ''Asia/Shanghai'' (JList (stage_windows sch stg)) due = Inr None"
proof -
  note snap = valid_stage_snapshot [OF v, of stg]
  from w(1) obtain d x where x: "x \<in> set ws" "w = window_at d x" by (auto simp: window_of_def)
  from w(3) x(1) have g: "0 \<le> fst x" "fst x < snd x" "snd x < 1440" by (simp_all add: good_window_def)
  have "sh_date due = d" using inside_date [OF g] x(2) due by simp
  then have ins: "inside due x" using x(2) due by (simp add: inside_def)
  obtain u where u: "u \<in> set (stage_windows sch stg)" "window_minutes (jget u ''start'') = Some (fst x)"
    "window_minutes (jget u ''end'') = Some (snd x)"
    using sorted_windows_mem [OF w(2) x(1)] by blast
  with snap(2) have su: "snap_window u = Some x"
    using g by (auto simp: snap_window_def split: if_splits)
  have "next_window_loop due (stage_windows sch stg) [] = Inr None"
    using next_window_loop_inside [OF snap(2) u(1) su ins] by blast
  with snap(1) show ?thesis
    by (cases "stage_windows sch stg") (simp_all add: next_window_def del: next_window_loop.simps)
qed

lemma schedule_int_simps [simp]: "jget s k = JInt n \<Longrightarrow> schedule_int s k = n"
  by (simp add: schedule_int_def)

lemma followup_jitter_total:
  assumes "validate_followup_schedule sch = []"
  obtains j hi where "followup_jitter seed sch None = Inr j" "0 \<le> j" "j \<le> hi"
    "jget sch ''jitter_max_minutes'' = JInt hi"
proof -
  obtain lo hi where p: "jget sch ''jitter_min_minutes'' = JInt lo" "jget sch ''jitter_max_minutes'' = JInt hi"
    "0 \<le> lo" "lo \<le> hi"
    using valid_schedule_parts [OF assms] by metis
  define m where "m = seed mod (hi - lo + 1)"
  have m: "0 \<le> m" "m < hi - lo + 1"
    unfolding m_def by (rule pos_mod_sign pos_mod_bound, use p(4) in linarith)+
  with p show thesis
    by (intro that [of "lo + m" hi]) (simp_all add: followup_jitter_def randbelow_def m_def [symmetric])
qed

lemma followup_row_simps [simp]:
  "fj_id (followup_row t c cand i s v stg ca pv) = i"
  "fj_call_id (followup_row t c cand i s v stg ca pv) = vc_call_id c"
  "fj_user_id (followup_row t c cand i s v stg ca pv) = vc_user_id c"
  "fj_candidate_due_at (followup_row t c cand i s v stg ca pv) = ca"
  "fj_due_at (followup_row t c cand i s v stg ca pv) = (case pv_due pv of Some d \<Rightarrow> d | None \<Rightarrow> ca)"
  "fj_latest_due_at (followup_row t c cand i s v stg ca pv) = ca + schedule_int s ''max_delay_hours'' * us_hour"
  "fj_content (followup_row t c cand i s v stg ca pv) = cd_content cand"
  "fj_content_type (followup_row t c cand i s v stg ca pv) = cd_type cand"
  "fj_status (followup_row t c cand i s v stg ca pv) = (if pv_cancel pv = None then Fol_pending else Fol_cancelled)"
  "fj_cancel_reason (followup_row t c cand i s v stg ca pv) = pv_cancel pv"
  "fj_timezone_snapshot (followup_row t c cand i s v stg ca pv) = ''Asia/Shanghai''"
  "fj_allowed_window_snapshot (followup_row t c cand i s v stg ca pv) = JList (stage_windows s stg)"
  by (simp_all add: followup_row_def)

text \<open>
  A new job is pending with an instant in a window of its stage, and the dispatcher's window test
  will accept that instant.
\<close>

lemma new_followup_pending:
  assumes "vc_ended_at c = Some ended"
  obtains row where "new_followup utcnow seed c cand None stg i = Inr row"
    "fj_status row = Fol_pending" "fj_cancel_reason row = None"
    "fj_candidate_due_at row = ended + cd_delay cand * us_minute"
    "fj_candidate_due_at row \<le> fj_due_at row" "fj_due_at row \<le> fj_latest_due_at row"
    "next_window (fj_timezone_snapshot row) (fj_allowed_window_snapshot row) (fj_due_at row) = Inr None"
    "fj_id row = i" "fj_call_id row = vc_call_id c" "fj_content_type row = cd_type cand"
    "fj_content row = cd_content cand" "fj_user_id row = vc_user_id c"
proof -
  let ?sch = "fst (call_schedule c)" and ?at = "ended + cd_delay cand * us_minute"
  note v = call_schedule_valid [of c]
  obtain j hi where j: "followup_jitter seed ?sch None = Inr j" "0 \<le> j" "j \<le> hi"
    "jget ?sch ''jitter_max_minutes'' = JInt hi"
    using followup_jitter_total [OF v] by blast
  obtain pv where pv: "resolve_followup_preview ?sch stg ?at j = Inr pv" "resolves_in_window ?sch stg ?at hi pv"
    using valid_schedule_resolves_h [OF v j(4) j(2,3)] by blast
  from pv(2) obtain due w ws where r: "pv_due pv = Some due"
    "pv_cancel pv = None" "?at \<le> due" "due - ?at \<le> 24 * us_hour" "fst w \<le> due" "due < snd w"
    "window_of ws w" "sorted_windows (stage_windows ?sch stg) = Some ws"
    "\<forall>x \<in> set ws. good_window hi x"
    unfolding resolves_in_window_def by blast
  have "jget ?sch ''max_delay_hours'' = JInt 24"
    by (rule valid_schedule_parts [OF v])
  moreover have "next_window ''Asia/Shanghai'' (JList (stage_windows ?sch stg)) due = Inr None"
    using resolved_inside [OF v r(7,8,9) r(5,6)] .
  moreover have "new_followup utcnow seed c cand None stg i =
      Inr (followup_row utcnow c cand i ?sch (snd (call_schedule c)) stg ?at pv)"
    by (simp add: new_followup_def Let_def j(1) pv(1) assms)
  ultimately show thesis
    using r(1-4) that [of "followup_row utcnow c cand i ?sch (snd (call_schedule c)) stg ?at pv"] by simp
qed

lemma reg_followup_events:
  "dims_registered ''voice.followup.branch'' [(''branch'', ''missed'')]"
  "dims_registered ''voice.followup.branch'' [(''branch'', ''topic'')]"
  "dims_registered ''voice.followup.schedule'' [(''result'', ''pending'')]"
  by (rule reg_followup; code_simp)+

lemma followup_events_ok:
  "fj_status row = Fol_pending \<Longrightarrow> fj_cancel_reason row = None \<Longrightarrow> list_all event_ok (followup_events row)"
  by (simp add: followup_events_def ev_def event_ok_dims reg_followup_events)

lemma stage_followup_cases:
  assumes "stage_followup utcnow seed c cand None allow_new db = Inr (row, db')"
  shows "find_followup (vc_call_id c) (cd_type cand) db = Some row \<and> db' = db \<or>
    find_followup (vc_call_id c) (cd_type cand) db = None \<and>
    (\<exists>stg. new_followup utcnow seed c cand None stg (fresh_id (map fj_id (db_followups db))) = Inr row) \<and>
    db' = stage (followup_events row) (db\<lparr>db_followups := db_followups db @ [row]\<rparr>)"
  using assms by (auto simp: stage_followup_def bindR_Inr_iff split: option.splits)

lemma stage_followup_frame:
  assumes "stage_followup utcnow seed c cand None allow_new db = Inr (row, db')"
  shows "db_calls db' = db_calls db" "db_turns db' = db_turns db" "db_relationships db' = db_relationships db"
    "db_growth db' = db_growth db" "db_accounts db' = db_accounts db" "db_ledger db' = db_ledger db"
    "db_seq db' = db_seq db" "db_users db' = db_users db"
  using stage_followup_cases [OF assms] by (auto simp: stage_def)

lemma stage_followup_staged_ok:
  assumes "stage_followup utcnow seed c cand None allow_new db = Inr (row, db')" "staged_ok db"
  shows "staged_ok db'"
proof (cases "find_followup (vc_call_id c) (cd_type cand) db")
  case None
  then obtain stg where n: "new_followup utcnow seed c cand None stg (fresh_id (map fj_id (db_followups db))) = Inr row"
    and db': "db' = stage (followup_events row) (db\<lparr>db_followups := db_followups db @ [row]\<rparr>)"
    using stage_followup_cases [OF assms(1)] by auto
  from n obtain ended where "vc_ended_at c = Some ended"
    by (auto simp: new_followup_def Let_def bindR_Inr_iff split: option.splits)
  from new_followup_pending [OF this] n have "fj_status row = Fol_pending" "fj_cancel_reason row = None"
    by (metis sum.inject(2))+
  with db' assms(2) followup_events_ok show ?thesis by (simp add: staged_ok_def stage_def)
next
  case (Some r)
  with stage_followup_cases [OF assms(1)] assms(2) show ?thesis by auto
qed

lemma find_app: "find P (xs @ ys) = (case find P xs of None \<Rightarrow> find P ys | Some x \<Rightarrow> Some x)"
  by (induction xs) auto

text \<open>At most one job per call and kind, whatever is staged again.\<close>

definition followups_unique :: "database \<Rightarrow> bool" where
  "followups_unique db \<longleftrightarrow> distinct (map (\<lambda>j. (fj_call_id j, fj_content_type j)) (db_followups db))"

lemma stage_followup_unique:
  assumes "stage_followup utcnow seed c cand None allow_new db = Inr (row, db')" "followups_unique db"
  shows "followups_unique db' \<and> find_followup (vc_call_id c) (cd_type cand) db' = Some row"
proof (cases "find_followup (vc_call_id c) (cd_type cand) db")
  case None
  then obtain stg where n: "new_followup utcnow seed c cand None stg (fresh_id (map fj_id (db_followups db))) = Inr row"
    and db': "db' = stage (followup_events row) (db\<lparr>db_followups := db_followups db @ [row]\<rparr>)"
    using stage_followup_cases [OF assms(1)] by auto
  from n obtain ended where "vc_ended_at c = Some ended"
    by (auto simp: new_followup_def Let_def bindR_Inr_iff split: option.splits)
  from new_followup_pending [OF this] n
  have k: "fj_call_id row = vc_call_id c" "fj_content_type row = cd_type cand"
    by (metis sum.inject(2))+
  from None have "(fj_call_id row, fj_content_type row) \<notin>
      set (map (\<lambda>j. (fj_call_id j, fj_content_type j)) (db_followups db))"
    by (auto simp: find_followup_def find_None_iff k)
  with assms(2) None k db' show ?thesis
    by (auto simp: followups_unique_def find_followup_def stage_def find_app)
next
  case (Some r)
  with stage_followup_cases [OF assms(1)] assms(2) show ?thesis by auto
qed

lemma stage_missed_followup_frame:
  assumes "stage_missed_followup utcnow seed c db = Inr (r, db')"
  shows "db_calls db' = db_calls db" "db_turns db' = db_turns db" "db_relationships db' = db_relationships db"
    "db_growth db' = db_growth db" "db_accounts db' = db_accounts db" "db_ledger db' = db_ledger db"
    "db_seq db' = db_seq db" "db_users db' = db_users db"
  using assms
  by (auto simp: stage_missed_followup_def Let_def bindR_Inr_iff stage_followup_frame split: if_splits)

lemma stage_missed_followup_staged_ok:
  assumes "stage_missed_followup utcnow seed c db = Inr (r, db')" "staged_ok db"
  shows "staged_ok db'"
  using assms
  by (auto simp: stage_missed_followup_def Let_def bindR_Inr_iff intro: stage_followup_staged_ok split: if_splits)

section \<open>Properties\<close>

text \<open>Every newly staged follow-up job (no explicit jitter, the call has ended) is pending, falls due
  between its candidate instant and its latest instant, and its frozen zone and windows pass the
  dispatcher's own window test at the due instant, whatever the call's configuration snapshot holds
  (an invalid schedule is replaced by the default one) and whatever jitter is drawn.\<close>

theorem staged_followup_deliverable:
  assumes "vc_ended_at c = Some ended"
  shows "\<exists>row. new_followup utcnow seed c cand None stg i = Inr row \<and>
    fj_status row = Fol_pending \<and> fj_candidate_due_at row \<le> fj_due_at row \<and> fj_due_at row \<le> fj_latest_due_at row \<and>
    next_window (fj_timezone_snapshot row) (fj_allowed_window_snapshot row) (fj_due_at row) = Inr None"
  using new_followup_pending [OF assms] by metis

theorem staged_followup_deliverable_witness:
  "\<exists>row. new_followup 0 17 ((blank_call 1 ''c'' 7 Missed)\<lparr>vc_ended_at := Some 0\<rparr>)
      \<lparr>cd_type = Missed_explanation, cd_content = [104], cd_delay = 0\<rparr> None Friend 1 = Inr row \<and>
    fj_status row = Fol_pending \<and> fj_candidate_due_at row \<le> fj_due_at row \<and> fj_due_at row \<le> fj_latest_due_at row \<and>
    next_window (fj_timezone_snapshot row) (fj_allowed_window_snapshot row) (fj_due_at row) = Inr None"
  by (rule staged_followup_deliverable [of _ 0]) simp

text \<open>Staging is idempotent per call and kind: it keeps at most one job per call and kind, and a
  second staging returns the first job and changes nothing.\<close>

theorem stage_followup_once:
  assumes "stage_followup utcnow seed c cand None allow_new db = Inr (row, db')" "followups_unique db"
  shows "followups_unique db' \<and>
    stage_followup utcnow2 seed2 c cand jit allow_new2 db' = Inr (row, db')"
  using stage_followup_unique [OF assms] by (simp add: stage_followup_def)

definition ended_missed :: voice_call where
  "ended_missed = (blank_call 1 ''c'' 7 Missed)\<lparr>vc_ended_at := Some 0\<rparr>"

definition explain :: candidate where
  "explain = \<lparr>cd_type = Missed_explanation, cd_content = [104], cd_delay = 0\<rparr>"

lemma empty_stage_followup: "\<exists>row db'. stage_followup 0 5 ended_missed explain None True empty_db = Inr (row, db')"
proof -
  have "vc_ended_at ended_missed = Some 0" by (simp add: ended_missed_def)
  then obtain row where "new_followup 0 5 ended_missed explain None Stranger 1 = Inr row"
    by (rule new_followup_pending)
  then show ?thesis
    by (simp add: stage_followup_def find_followup_def empty_db_def followup_stage_def get_relationship_def
        row_find_def fresh_id_def)
qed

theorem stage_followup_once_witness:
  "\<exists>row db'. followups_unique db' \<and>
     stage_followup 60 9 ended_missed explain (Some 3) False db' = Inr (row, db')"
proof -
  obtain row db' where s: "stage_followup 0 5 ended_missed explain None True empty_db = Inr (row, db')"
    using empty_stage_followup by blast
  from stage_followup_once [OF s, of 60 9 "Some 3" False] show ?thesis
    by (auto simp: followups_unique_def empty_db_def)
qed

end
