(* ===== verification/CallState.thy ===== *)
theory CallState
  imports Followup
begin

text \<open>
  The lifecycle of a call (\<open>realtime_voice_state_service.py\<close>): the transition table, the finalising
  step shared with the terminator, and the serialized \<open>transition_call\<close>.

  \<open>now\<close> is the server instant the caller passes (with its zone, so \<open>utc_naive\<close> is the identity on
  instants), \<open>utcnow\<close> the clock the ORM defaults read, \<open>seed\<close> the outcome of the jitter draw.
\<close>

section \<open>The table\<close>

definition TERMINAL :: "call_status list" where
  "TERMINAL = [Ended, Missed, Failed, Cancelled]"

definition ACTIVE :: "call_status list" where
  "ACTIVE = [Deciding, Ringing, Connected, Reconnecting, Ending]"

fun TRANSITIONS :: "call_status \<Rightarrow> call_status list" where
  "TRANSITIONS Deciding = [Ringing, Missed, Failed, Cancelled]"
| "TRANSITIONS Ringing = [Connected, Missed, Failed, Cancelled]"
| "TRANSITIONS Connected = [Reconnecting, Ending]"
| "TRANSITIONS Reconnecting = [Connected, Ending]"
| "TRANSITIONS Ending = [Ended]"
| "TRANSITIONS _ = []"

definition REASONS :: "string list" where
  "REASONS = [''user_hangup'', ''user_cancel'', ''exit_intent'', ''silence_timeout'',
    ''quota_exhausted'', ''hard_limit'', ''reconnect_timeout'', ''provider_error'',
    ''system_error'', ''character_missed'']"

definition reason_dim :: "string option \<Rightarrow> string" where
  "reason_dim r = (case r of None \<Rightarrow> ''none'' | Some s \<Rightarrow> if s \<in> set REASONS then s else ''other'')"

definition stage_transition_metric ::
  "call_status \<Rightarrow> call_status \<Rightarrow> string option \<Rightarrow> database \<Rightarrow> database" where
  "stage_transition_metric before after reason db =
     stage [ev ''voice.state.transition''
       [(''from'', call_status_str before), (''to'', call_status_str after), (''reason'', reason_dim reason)] 1] db"

section \<open>Finalising a row\<close>

definition final_status :: "voice_call \<Rightarrow> string \<Rightarrow> call_status" where
  "final_status row reason =
     (if vc_connected_at row \<noteq> None then Ended
      else if reason = ''user_cancel'' \<or> reason = ''user_hangup'' then Cancelled
      else if reason = ''character_missed'' then Missed else Failed)"

definition stage_final_state :: "voice_call \<Rightarrow> string \<Rightarrow> datetime \<Rightarrow> (bool \<times> voice_call) res" where
  "stage_final_state row reason now =
     (if vc_status row \<in> set TERMINAL then Inr (False, row)
      else if vc_status row \<notin> set ACTIVE then Inl (ValueError ''invalid_call_state'')
      else
        let target = final_status row reason in
        Inr (True, row\<lparr>vc_status := target,
               vc_end_reason := Some (if target = Cancelled then ''user_cancel'' else reason),
               vc_ended_at := Some now,
               vc_summary_status := (if vc_connected_at row = None then Sum_not_applicable
                                     else vc_summary_status row)\<rparr>))"

section \<open>Transitions\<close>

definition terminal_reason :: "call_status \<Rightarrow> string" where
  "terminal_reason t =
     (if t = Missed then ''character_missed'' else if t = Failed then ''system_error'' else ''user_cancel'')"

definition bad_call01 :: "bool option \<Rightarrow> call_status list \<Rightarrow> call_status \<Rightarrow> bool" where
  "bad_call01 call01 expected target \<longleftrightarrow>
     call01 \<noteq> None \<and> (expected \<noteq> [Deciding] \<or> target \<notin> {Ringing, Missed, Cancelled})"

definition bad_transition :: "call_status list \<Rightarrow> call_status \<Rightarrow> bool" where
  "bad_transition expected target \<longleftrightarrow>
     expected = [] \<or> target = Ended \<or> (\<exists>s \<in> set expected. target \<notin> set (TRANSITIONS s))"

text \<open>The terminal branch: finalise, stage the card, and for a missed call its explanation.\<close>

definition enter_terminal ::
  "datetime \<Rightarrow> datetime \<Rightarrow> int \<Rightarrow> voice_call \<Rightarrow> call_status \<Rightarrow> database \<Rightarrow> (voice_call \<times> database) res" where
  "enter_terminal now utcnow seed row target db =
     (if vc_connected_at row \<noteq> None then Inl (ValueError ''connected_call_requires_finalizer'')
      else bindR (stage_final_state row (terminal_reason target) now) (\<lambda>(b, r1).
        bindR (stage_call_card r1 (put_call r1 db)) (\<lambda>(b2, r2, db2).
          if target = Missed
          then bindR (stage_missed_followup utcnow seed r2 db2) (\<lambda>(j, db3). Inr (r2, db3))
          else Inr (r2, db2))))"

definition enter_live :: "datetime \<Rightarrow> voice_call \<Rightarrow> call_status \<Rightarrow> database \<Rightarrow> voice_call \<times> database" where
  "enter_live now row target db =
     (let r = row\<lparr>vc_status := target,
                  vc_connected_at := (if target = Connected \<and> vc_connected_at row = None then Some now
                                      else vc_connected_at row)\<rparr> in
      (r, put_call r db))"

definition transition_call ::
  "datetime \<Rightarrow> datetime \<Rightarrow> int \<Rightarrow> string \<Rightarrow> call_status list \<Rightarrow> call_status \<Rightarrow> bool option \<Rightarrow> database
     \<Rightarrow> (bool \<times> database) res" where
  "transition_call now utcnow seed cid expected target call01 db =
     (if bad_call01 call01 expected target then Inl (ValueError ''invalid_call01_fact_transition'')
      else if bad_transition expected target then Inl (ValueError ''invalid_call_transition'')
      else (case get_call cid db of
        None \<Rightarrow> Inr (False, commit_flush db)
      | Some row0 \<Rightarrow>
          if vc_status row0 \<notin> set expected
          then Inr (False, commit_flush
                 (if vc_status row0 \<in> set TERMINAL
                  then stage [ev ''voice.state.terminal_replay'' [] 1] db else db))
          else
            let row = (case call01 of None \<Rightarrow> row0 | Some b \<Rightarrow> row0\<lparr>vc_call01_fallback := Some b\<rparr>);
                before = vc_status row in
            bindR (if target \<in> set TERMINAL then enter_terminal now utcnow seed row target db
                   else Inr (enter_live now row target db)) (\<lambda>(r, db1).
              Inr (True, commit_flush (stage_transition_metric before target (vc_end_reason r) db1)))))"

section \<open>The table's shape\<close>

lemma status_partition: "s \<in> set ACTIVE \<longleftrightarrow> s \<notin> set TERMINAL"
  by (cases s) (simp_all add: ACTIVE_def TERMINAL_def)

lemma TRANSITIONS_active: "t \<in> set (TRANSITIONS s) \<Longrightarrow> s \<in> set ACTIVE"
  by (cases s) (simp_all add: ACTIVE_def)

text \<open>The facts a call row keeps: its marks of time agree with its status.\<close>

definition call_wf :: "voice_call \<Rightarrow> bool" where
  "call_wf c \<longleftrightarrow>
     (vc_ended_at c \<noteq> None \<longleftrightarrow> vc_status c \<in> set TERMINAL) \<and>
     (vc_end_reason c \<noteq> None \<longleftrightarrow> vc_status c \<in> set TERMINAL) \<and>
     (vc_connected_at c \<noteq> None \<longleftrightarrow> vc_status c \<in> {Connected, Reconnecting, Ending, Ended}) \<and>
     (vc_sort_seq c \<noteq> None \<longrightarrow> vc_status c \<in> {Ended, Missed})"

lemma call_wf_connected:
  "call_wf c \<Longrightarrow> vc_status c \<in> {Deciding, Ringing} \<Longrightarrow> vc_connected_at c = None"
  by (auto simp: call_wf_def)

lemma stage_final_state_total: "\<exists>b c'. stage_final_state c reason now = Inr (b, c')"
  by (auto simp: stage_final_state_def status_partition Let_def)

lemma stage_final_state_active:
  assumes "vc_status c \<in> set ACTIVE"
  shows "stage_final_state c reason now = Inr (True,
     c\<lparr>vc_status := final_status c reason,
       vc_end_reason := Some (if final_status c reason = Cancelled then ''user_cancel'' else reason),
       vc_ended_at := Some now,
       vc_summary_status := (if vc_connected_at c = None then Sum_not_applicable else vc_summary_status c)\<rparr>)"
  using assms by (simp add: stage_final_state_def status_partition Let_def)

lemma final_status_terminal: "final_status c reason \<in> set TERMINAL"
  by (simp add: final_status_def TERMINAL_def)

lemma stage_final_state_wf:
  assumes "call_wf c" "stage_final_state c reason now = Inr (b, c')"
  shows "call_wf c'"
proof (cases "vc_status c \<in> set ACTIVE")
  case True
  then have "vc_sort_seq c = None" using assms(1) by (auto simp: call_wf_def ACTIVE_def)
  moreover have "vc_connected_at c = None \<Longrightarrow> final_status c reason \<in> {Cancelled, Missed, Failed}"
    "vc_connected_at c \<noteq> None \<Longrightarrow> final_status c reason = Ended"
    by (simp_all add: final_status_def)
  ultimately show ?thesis
    using assms(2) final_status_terminal [of c reason] unfolding stage_final_state_active [OF True]
    by (cases "vc_connected_at c = None") (auto simp: call_wf_def)
next
  case False
  with assms show ?thesis by (auto simp: stage_final_state_def status_partition)
qed

lemma stage_call_card_wf:
  assumes "call_wf c" "stage_call_card c db = Inr (b, c', db')"
  shows "call_wf c'"
proof (cases b)
  case True
  with assms have "stage_call_card c db = Inr (True, c', db')" by simp
  from stage_call_card_True [OF this] assms(1) show ?thesis by (auto simp: call_wf_def)
next
  case False
  with assms have "stage_call_card c db = Inr (False, c', db')" by simp
  from stage_call_card_False [OF this] assms(1) show ?thesis by simp
qed

section \<open>Transitions in detail\<close>

lemma transition_call_raises:
  "transition_call now utcnow seed cid expected target call01 db = Inl e \<Longrightarrow>
     bad_call01 call01 expected target \<and> e = ValueError ''invalid_call01_fact_transition'' \<or>
     bad_transition expected target \<and> e = ValueError ''invalid_call_transition'' \<or>
     (\<exists>row. get_call cid db = Some row \<and> vc_status row \<in> set expected \<and> target \<in> set TERMINAL)"
  by (auto simp: transition_call_def bindR_Inl_iff Let_def split: if_splits option.splits)

lemma transition_call_False:
  assumes "transition_call now utcnow seed cid expected target call01 db = Inr (False, db')"
  shows "db_calls db' = db_calls db"
  using assms
  by (auto simp: transition_call_def bindR_Inr_iff Let_def split: if_splits option.splits)

text \<open>What a successful transition does to the row.\<close>

lemma transition_call_True:
  assumes "transition_call now utcnow seed cid expected target call01 db = Inr (True, db')"
  obtains row0 row r db1 where "get_call cid db = Some row0" "vc_status row0 \<in> set expected"
    "row = (case call01 of None \<Rightarrow> row0 | Some b \<Rightarrow> row0\<lparr>vc_call01_fallback := Some b\<rparr>)"
    "\<forall>s \<in> set expected. target \<in> set (TRANSITIONS s)" "target \<noteq> Ended"
    "if target \<in> set TERMINAL then enter_terminal now utcnow seed row target db = Inr (r, db1)
     else (r, db1) = enter_live now row target db"
    "db' = commit_flush (stage_transition_metric (vc_status row0) target (vc_end_reason r) db1)"
proof -
  from assms obtain row0 where r0: "get_call cid db = Some row0" "vc_status row0 \<in> set expected"
    and ok: "\<not> bad_transition expected target"
    by (auto simp: transition_call_def bad_transition_def split: if_splits option.splits)
  define row where "row = (case call01 of None \<Rightarrow> row0 | Some b \<Rightarrow> row0\<lparr>vc_call01_fallback := Some b\<rparr>)"
  have st: "vc_status row = vc_status row0" by (simp add: row_def split: option.splits)
  from assms r0 ok obtain r db1 where
    e: "(if target \<in> set TERMINAL then enter_terminal now utcnow seed row target db
         else Inr (enter_live now row target db)) = Inr (r, db1)"
    and db': "db' = commit_flush (stage_transition_metric (vc_status row0) target (vc_end_reason r) db1)"
    by (auto simp: transition_call_def bindR_Inr_iff Let_def row_def [symmetric] st split: if_splits)
  show thesis
    using that [OF r0 row_def _ _ _ db'] ok e by (auto simp: bad_transition_def split: if_splits)
qed

lemma enter_terminal_Inr:
  assumes "enter_terminal now utcnow seed row target db = Inr (r, db')" "vc_status row \<in> set ACTIVE"
    "target \<in> {Missed, Failed, Cancelled}"
  obtains r1 b where "vc_connected_at row = None"
    "r1 = row\<lparr>vc_status := target, vc_end_reason := Some (terminal_reason target),
              vc_ended_at := Some now, vc_summary_status := Sum_not_applicable\<rparr>"
    "\<exists>db2. stage_call_card r1 (put_call r1 db) = Inr (b, r, db2) \<and>
       (if target = Missed then \<exists>j. stage_missed_followup utcnow seed r db2 = Inr (j, db') else db' = db2)"
proof -
  have fs: "final_status row (terminal_reason target) = target" if "vc_connected_at row = None"
    using assms(3) that by (auto simp: final_status_def terminal_reason_def)
  from assms fs that show thesis
    by (fastforce simp: enter_terminal_def bindR_Inr_iff stage_final_state_active terminal_reason_def split: if_splits)
qed

lemma get_call_seq [simp]: "get_call k (db\<lparr>db_seq := q\<rparr>) = get_call k db"
  by (simp add: get_call_def)

lemma stage_call_card_get:
  assumes "stage_call_card c db = Inr (b, c', db')" "get_call (vc_call_id c) db = Some c"
  shows "get_call k db' = (if k = vc_call_id c then Some c' else get_call k db)"
proof (cases b)
  case True
  with assms have st: "stage_call_card c db = Inr (True, c', db')" by simp
  have id: "vc_call_id c' = vc_call_id c" using stage_call_card_frame(1) [OF assms(1)] .
  show ?thesis
    using assms(2) by (simp add: stage_call_card_True(5) [OF st] id calls.get_put)
next
  case False
  with assms(1) have "c' = c" "db' = db" using stage_call_card_False by metis+
  with assms(2) show ?thesis by simp
qed

lemma stage_missed_followup_get:
  "stage_missed_followup utcnow seed c db = Inr (j, db') \<Longrightarrow> get_call k db' = get_call k db"
  by (simp add: get_call_def stage_missed_followup_frame)

text \<open>The row a transition leaves, and the rows it does not touch.\<close>

definition row_step :: "datetime \<Rightarrow> call_status \<Rightarrow> voice_call \<Rightarrow> voice_call \<Rightarrow> bool" where
  "row_step now target c c' \<longleftrightarrow>
     vc_call_id c' = vc_call_id c \<and> vc_user_id c' = vc_user_id c \<and> vc_status c' = target \<and>
     vc_connected_at c' = (if target = Connected \<and> vc_connected_at c = None then Some now
                           else vc_connected_at c) \<and>
     vc_ended_at c' = (if target \<in> set TERMINAL then Some now else vc_ended_at c) \<and>
     vc_end_reason c' = (if target \<in> set TERMINAL then Some (terminal_reason target) else vc_end_reason c) \<and>
     (vc_sort_seq c' \<noteq> None \<longrightarrow> vc_sort_seq c' = vc_sort_seq c \<or> target = Missed)"

lemma enter_terminal_step:
  assumes e: "enter_terminal now utcnow seed row target db = Inr (r, db')"
    and st: "vc_status row \<in> set ACTIVE" "target \<in> {Missed, Failed, Cancelled}"
    and g: "get_call (vc_call_id row) db \<noteq> None"
  shows "row_step now target row r" "vc_connected_at row = None"
    "get_call k db' = (if k = vc_call_id row then Some r else get_call k db)"
proof -
  obtain r1 b db2 where nc: "vc_connected_at row = None"
    and r1: "r1 = row\<lparr>vc_status := target, vc_end_reason := Some (terminal_reason target),
              vc_ended_at := Some now, vc_summary_status := Sum_not_applicable\<rparr>"
    and card: "stage_call_card r1 (put_call r1 db) = Inr (b, r, db2)"
    and m: "if target = Missed then \<exists>j. stage_missed_followup utcnow seed r db2 = Inr (j, db') else db' = db2"
    using enter_terminal_Inr [OF e st] by metis
  have g1: "get_call (vc_call_id r1) (put_call r1 db) = Some r1"
    using g by (auto simp: r1 calls.get_put)
  have "get_call k db' = get_call k db2" using m stage_missed_followup_get by (auto split: if_splits)
  then show "get_call k db' = (if k = vc_call_id row then Some r else get_call k db)"
    using stage_call_card_get [OF card g1, of k] g by (auto simp: r1 calls.get_put)
  show "vc_connected_at row = None" by (rule nc)
  have "vc_sort_seq r = vc_sort_seq row \<or> target = Missed"
  proof (cases b)
    case True
    with card have "stage_call_card r1 (put_call r1 db) = Inr (True, r, db2)" by simp
    then have "vc_status r1 \<in> {Ended, Missed}" by (rule stage_call_card_True(3))
    with st(2) show ?thesis by (auto simp: r1)
  next
    case False
    with card have "stage_call_card r1 (put_call r1 db) = Inr (False, r, db2)" by simp
    then have "r = r1" by (rule stage_call_card_False(1))
    then show ?thesis by (simp add: r1)
  qed
  with st(2) stage_call_card_frame [OF card] show "row_step now target row r"
    by (auto simp: row_step_def r1 TERMINAL_def)
qed

lemma transition_call_step:
  assumes t: "transition_call now utcnow seed cid expected target call01 db = Inr (True, db')"
  obtains row0 row r where "get_call cid db = Some row0" "vc_status row0 \<in> set expected"
    "target \<in> set (TRANSITIONS (vc_status row0))" "target \<noteq> Ended"
    "row = (case call01 of None \<Rightarrow> row0 | Some b \<Rightarrow> row0\<lparr>vc_call01_fallback := Some b\<rparr>)"
    "row_step now target row r" "target \<in> set TERMINAL \<longrightarrow> vc_connected_at row0 = None"
    "\<forall>k. get_call k db' = (if k = cid then Some r else get_call k db)"
proof -
  obtain row0 row r db1 where r0: "get_call cid db = Some row0" "vc_status row0 \<in> set expected"
    and row: "row = (case call01 of None \<Rightarrow> row0 | Some b \<Rightarrow> row0\<lparr>vc_call01_fallback := Some b\<rparr>)"
    and tr: "\<forall>s \<in> set expected. target \<in> set (TRANSITIONS s)" "target \<noteq> Ended"
    and e: "if target \<in> set TERMINAL then enter_terminal now utcnow seed row target db = Inr (r, db1)
     else (r, db1) = enter_live now row target db"
    and db': "db' = commit_flush (stage_transition_metric (vc_status row0) target (vc_end_reason r) db1)"
    by (rule transition_call_True [OF t]) (rule that, assumption+)
  from tr(1) r0(2) have tt: "target \<in> set (TRANSITIONS (vc_status row0))" by blast
  have same: "vc_status row = vc_status row0" "vc_connected_at row = vc_connected_at row0"
    "vc_call_id row = cid"
    using calls.get_key [OF r0(1)] by (auto simp: row split: option.splits)
  have g': "get_call k db' = get_call k db1" for k
    by (simp add: db' stage_transition_metric_def)
  show thesis
  proof (cases "target \<in> set TERMINAL")
    case True
    have a: "vc_status row \<in> set ACTIVE" using TRANSITIONS_active [OF tt] same by simp
    have m: "target \<in> {Missed, Failed, Cancelled}" using True tr(2) by (auto simp: TERMINAL_def)
    have g: "get_call (vc_call_id row) db \<noteq> None" using r0(1) same by simp
    from True e have et: "enter_terminal now utcnow seed row target db = Inr (r, db1)" by simp
    note step = enter_terminal_step [OF et a m g]
    show thesis
      using that [OF r0 tt tr(2) row step(1)] step(2,3) same g' by simp
  next
    case False
    with e have r: "r = row\<lparr>vc_status := target,
        vc_connected_at := (if target = Connected \<and> vc_connected_at row = None then Some now
                            else vc_connected_at row)\<rparr>" and db1: "db1 = put_call r db"
      by (auto simp: enter_live_def Let_def)
    have rs: "row_step now target row r" using False by (simp add: row_step_def r)
    have gg: "\<forall>k. get_call k db' = (if k = cid then Some r else get_call k db)"
      using r0(1) same(3) by (simp add: g' db1 calls.get_put r)
    show thesis by (rule that [OF r0 tt tr(2) row rs _ gg]) (use False in simp)
  qed
qed

lemma row_step_wf:
  assumes "call_wf c" "row_step now target c c'" "target \<in> set (TRANSITIONS (vc_status c))" "target \<noteq> Ended"
  shows "call_wf c'"
  using assms
  by (cases "vc_status c") (auto simp: call_wf_def row_step_def TERMINAL_def)

definition calls_wf :: "database \<Rightarrow> bool" where
  "calls_wf db \<longleftrightarrow> (\<forall>cid c. get_call cid db = Some c \<longrightarrow> call_wf c)"

lemma call01_wf:
  "call_wf (case call01 of None \<Rightarrow> c | Some b \<Rightarrow> c\<lparr>vc_call01_fallback := Some b\<rparr>) \<longleftrightarrow> call_wf c"
  by (cases call01) (simp_all add: call_wf_def)

lemma transition_call_wf:
  assumes t: "transition_call now utcnow seed cid expected target call01 db = Inr (b, db')" and wf: "calls_wf db"
  shows "calls_wf db'"
proof (cases b)
  case True
  with t have tr: "transition_call now utcnow seed cid expected target call01 db = Inr (True, db')" by simp
  obtain row0 row r where
    r0: "get_call cid db = Some row0" "target \<in> set (TRANSITIONS (vc_status row0))" "target \<noteq> Ended"
    and row: "row = (case call01 of None \<Rightarrow> row0 | Some b \<Rightarrow> row0\<lparr>vc_call01_fallback := Some b\<rparr>)"
    and s: "row_step now target row r"
    and g: "\<forall>k. get_call k db' = (if k = cid then Some r else get_call k db)"
    by (rule transition_call_step [OF tr]) (rule that, assumption+)
  have "vc_status row = vc_status row0" by (simp add: row split: option.splits)
  moreover have "call_wf row" using wf r0(1) by (auto simp: row call01_wf calls_wf_def)
  ultimately have "call_wf r" using row_step_wf [OF _ s] r0 by simp
  with wf g show ?thesis by (auto simp: calls_wf_def)
next
  case False
  with t have "db_calls db' = db_calls db" using transition_call_False by simp
  with wf show ?thesis by (simp add: calls_wf_def get_call_def)
qed

text \<open>A call in a terminal state never changes again by a transition.\<close>

lemma transition_terminal_frozen:
  assumes "get_call cid db = Some c" "vc_status c \<in> set TERMINAL"
    and t: "transition_call now utcnow seed k expected target call01 db = Inr (b, db')"
  shows "get_call cid db' = Some c"
proof (cases b)
  case True
  with t have tr: "transition_call now utcnow seed k expected target call01 db = Inr (True, db')" by simp
  obtain row0 r where
    r0: "get_call k db = Some row0" "target \<in> set (TRANSITIONS (vc_status row0))"
    and g: "\<forall>x. get_call x db' = (if x = k then Some r else get_call x db)"
    by (rule transition_call_step [OF tr]) (rule that, assumption+)
  have "k \<noteq> cid"
  proof
    assume "k = cid"
    then have "row0 = c" using r0(1) assms(1) by simp
    then show False using TRANSITIONS_active [OF r0(2)] assms(2) by (simp add: status_partition)
  qed
  with g assms(1) show ?thesis by simp
next
  case False
  with t have "db_calls db' = db_calls db" using transition_call_False by simp
  with assms(1) show ?thesis by (simp add: get_call_def)
qed

section \<open>The events of a transition\<close>

lemma call_status_dim: "call_status_str s \<in> set call_statuses"
  by (cases s) (simp_all add: call_statuses_def)

lemma reason_dim_in: "reason_dim r \<in> set call_reasons"
  by (auto simp: reason_dim_def REASONS_def call_reasons_def split: option.splits)

lemma transition_schema:
  "map_of event_dims_state ''voice.state.transition'' =
     Some [(''from'', call_statuses), (''to'', call_statuses), (''reason'', call_reasons)]"
  by (simp add: event_dims_state_def)

lemma reg_transition:
  "dims_registered ''voice.state.transition''
     [(''from'', call_status_str a), (''to'', call_status_str b), (''reason'', reason_dim r)]"
proof (rule reg_state)
  show "name_component ''voice.state.transition'' \<in> set [''state'']" by code_simp
  show "dims_in event_dims_state ''voice.state.transition''
     [(''from'', call_status_str a), (''to'', call_status_str b), (''reason'', reason_dim r)]"
    by (simp add: dims_in_def transition_schema dims_ok_def call_status_dim reason_dim_in)
qed

lemma reg_replay: "dims_registered ''voice.state.terminal_replay'' []"
  by (rule reg_state; code_simp)

lemma staged_ok_put_call [simp]: "staged_ok (put_call r db) = staged_ok db"
  by (simp add: staged_ok_def)

lemma staged_ok_transition_metric [simp]:
  "staged_ok (stage_transition_metric a b r db) = staged_ok db"
  by (simp add: stage_transition_metric_def ev_def event_ok_dims reg_transition)

lemma card_after_put_staged_ok:
  "stage_call_card c (put_call r db) = Inr (b, c', db') \<Longrightarrow> staged_ok db \<Longrightarrow> staged_ok db'"
  by (rule stage_call_card_staged_ok) simp_all

lemma enter_terminal_staged_ok:
  assumes "enter_terminal now utcnow seed row target db = Inr (r, db')" "staged_ok db"
  shows "staged_ok db'"
proof -
  from assms(1) obtain r1 b db2 where "stage_call_card r1 (put_call r1 db) = Inr (b, r, db2)"
    and m: "db' = db2 \<or> (\<exists>j. stage_missed_followup utcnow seed r db2 = Inr (j, db'))"
    by (auto simp: enter_terminal_def bindR_Inr_iff split: if_splits)
  then have "staged_ok db2" using assms(2) card_after_put_staged_ok by blast
  with m stage_missed_followup_staged_ok show ?thesis by blast
qed

lemma transition_call_staged_ok:
  assumes t: "transition_call now utcnow seed cid expected target call01 db = Inr (b, db')" and ok: "staged_ok db"
  shows "staged_ok db'"
proof (cases b)
  case True
  with t have tr: "transition_call now utcnow seed cid expected target call01 db = Inr (True, db')" by simp
  obtain row0 row r db1 where "get_call cid db = Some row0"
    and e: "if target \<in> set TERMINAL then enter_terminal now utcnow seed row target db = Inr (r, db1)
     else (r, db1) = enter_live now row target db"
    and db': "db' = commit_flush (stage_transition_metric (vc_status row0) target (vc_end_reason r) db1)"
    by (rule transition_call_True [OF tr]) (rule that, assumption+)
  have "staged_ok db1"
    using e ok enter_terminal_staged_ok by (auto simp: enter_live_def Let_def split: if_splits)
  then show ?thesis by (simp add: db')
next
  case False
  with t ok show ?thesis
    by (auto simp: transition_call_def bindR_Inr_iff Let_def ev_def event_ok_dims reg_replay
        split: if_splits option.splits)
qed

section \<open>Properties\<close>

text \<open>C1: A transition that reports success moved exactly the named call along an edge of the table from
  one of the expected states: \<open>connected_at\<close> is set by the first connection and never moved, the end
  marks appear exactly on a terminal target, a terminal target is reached only by a call that never
  connected, and no other call of the database is touched.\<close>

theorem transition_follows_table:
  assumes "transition_call now utcnow seed cid expected target call01 db = Inr (True, db')"
  shows "\<exists>row0 row r. get_call cid db = Some row0 \<and> vc_status row0 \<in> set expected \<and>
    target \<in> set (TRANSITIONS (vc_status row0)) \<and> target \<noteq> Ended \<and>
    row = (case call01 of None \<Rightarrow> row0 | Some b \<Rightarrow> row0\<lparr>vc_call01_fallback := Some b\<rparr>) \<and>
    row_step now target row r \<and> (target \<in> set TERMINAL \<longrightarrow> vc_connected_at row0 = None) \<and>
    (\<forall>k. get_call k db' = (if k = cid then Some r else get_call k db))"
  by (rule transition_call_step [OF assms]) blast

definition one_call_db :: "voice_call \<Rightarrow> database" where
  "one_call_db c = empty_db\<lparr>db_calls := [c]\<rparr>"

lemma get_one_call: "get_call k (one_call_db c) = (if vc_call_id c = k then Some c else None)"
  by (simp add: one_call_db_def get_call_def row_find_def)

lemma ring_transition:
  "\<exists>db'. transition_call 5 5 0 ''c'' [Deciding] Ringing None (one_call_db (blank_call 1 ''c'' 7 Deciding)) = Inr (True, db')"
  by (simp add: transition_call_def bad_call01_def bad_transition_def get_one_call enter_live_def TERMINAL_def Let_def)

theorem transition_follows_table_witness:
  "\<exists>db' r. row_step 5 Ringing (blank_call 1 ''c'' 7 Deciding) r \<and> get_call ''c'' db' = Some r"
proof -
  obtain db' where t: "transition_call 5 5 0 ''c'' [Deciding] Ringing None
      (one_call_db (blank_call 1 ''c'' 7 Deciding)) = Inr (True, db')"
    using ring_transition by blast
  from transition_follows_table [OF t] obtain r where "row_step 5 Ringing (blank_call 1 ''c'' 7 Deciding) r"
    "\<forall>k. get_call k db' = (if k = ''c'' then Some r else get_call k (one_call_db (blank_call 1 ''c'' 7 Deciding)))"
    by (auto simp: get_one_call)
  then show ?thesis by (intro exI [of _ db'] exI [of _ r]) simp
qed

text \<open>C2: Whatever a transition reports, on every database of well-formed calls, it keeps every call row well formed
  (end marks exactly on terminal rows, a connection mark exactly on connected, reconnecting, ending and ended rows, a
  card number only on ended or missed rows), and every row that was terminal is still there, unchanged.\<close>

theorem transition_keeps_wf_and_terminals:
  assumes "transition_call now utcnow seed cid expected target call01 db = Inr (b, db')" "calls_wf db"
  shows "calls_wf db' \<and> (\<forall>k c. get_call k db = Some c \<longrightarrow> vc_status c \<in> set TERMINAL \<longrightarrow> get_call k db' = Some c)"
  using transition_call_wf [OF assms] transition_terminal_frozen [OF _ _ assms(1)] by blast

definition ended_call :: voice_call where
  "ended_call = (blank_call 1 ''c'' 7 Ended)\<lparr>vc_connected_at := Some 3, vc_ended_at := Some 9,
     vc_end_reason := Some ''user_hangup''\<rparr>"

definition two_call_db :: database where
  "two_call_db = empty_db\<lparr>db_calls := [ended_call, blank_call 2 ''d'' 7 Ringing]\<rparr>"

lemma get_two_call:
  "get_call k two_call_db = (if k = ''c'' then Some ended_call else if k = ''d'' then Some (blank_call 2 ''d'' 7 Ringing) else None)"
  by (simp add: two_call_db_def get_call_def row_find_def ended_call_def)

lemma fail_transition:
  "\<exists>db'. transition_call 12 12 0 ''d'' [Deciding, Ringing] Failed None two_call_db = Inr (True, db')"
proof -
  obtain b r db1 where "enter_terminal 12 12 0 (blank_call 2 ''d'' 7 Ringing) Failed two_call_db = Inr (r, db1)"
    using stage_call_card_total by (fastforce simp: enter_terminal_def stage_final_state_def bindR_Inr_iff TERMINAL_def ACTIVE_def Let_def)
  then show ?thesis
    by (simp add: transition_call_def bad_call01_def bad_transition_def get_two_call TERMINAL_def bindR_Inr_iff)
qed

theorem transition_keeps_wf_and_terminals_witness:
  "\<exists>db' r. transition_call 12 12 0 ''d'' [Deciding, Ringing] Failed None two_call_db = Inr (True, db') \<and>
     get_call ''d'' db' = Some r \<and> vc_status r = Failed \<and> call_wf r \<and> vc_ended_at r \<noteq> None \<and>
     calls_wf db' \<and> get_call ''c'' db' = Some ended_call"
proof -
  obtain db' where t: "transition_call 12 12 0 ''d'' [Deciding, Ringing] Failed None two_call_db = Inr (True, db')"
    using fail_transition by blast
  have w: "calls_wf two_call_db"
    by (auto simp: calls_wf_def get_two_call call_wf_def ended_call_def TERMINAL_def split: if_splits)
  note W = transition_keeps_wf_and_terminals [OF t w]
  obtain row0 row r where "row_step 12 Failed row r" "\<forall>k. get_call k db' = (if k = ''d'' then Some r else get_call k two_call_db)"
    by (rule transition_call_step [OF t])
  then have r: "get_call ''d'' db' = Some r" "vc_status r = Failed" by (simp_all add: row_step_def)
  have "call_wf r" using W r(1) by (auto simp: calls_wf_def)
  moreover from this have "vc_ended_at r \<noteq> None" using r(2) by (simp add: call_wf_def TERMINAL_def)
  moreover have "get_call ''c'' db' = Some ended_call" using W by (simp add: get_two_call ended_call_def TERMINAL_def)
  ultimately show ?thesis using W t r by blast
qed

text \<open>Every event a transition stages or flushes, the card's and the follow-up's included, is one the
  counter service accepts, so no batch is dropped for an unknown name or dimension.\<close>

theorem transition_events_accepted:
  assumes "transition_call now utcnow seed cid expected target call01 db = Inr (b, db')" "staged_ok db"
  shows "staged_ok db' \<and> db_staged db' = []"
  using transition_call_staged_ok [OF assms] assms(1)
  by (auto simp: transition_call_def bindR_Inr_iff Let_def commit_flush_def split: if_splits option.splits)

theorem transition_events_accepted_witness:
  "\<exists>db'. transition_call 5 5 0 ''c'' [Deciding] Ringing None (one_call_db (blank_call 1 ''c'' 7 Deciding)) = Inr (True, db')
     \<and> staged_ok db' \<and> db_staged db' = []"
proof -
  obtain db' where t: "transition_call 5 5 0 ''c'' [Deciding] Ringing None
      (one_call_db (blank_call 1 ''c'' 7 Deciding)) = Inr (True, db')"
    using ring_transition by blast
  have "staged_ok (one_call_db (blank_call 1 ''c'' 7 Deciding))"
    by (simp add: staged_ok_def one_call_db_def empty_db_def)
  from transition_events_accepted [OF t this] t show ?thesis by blast
qed

end
