(* ===== verification/Decision.thy ===== *)
theory Decision
  imports CallState
begin

text \<open>
  The answer decision and the ring gate of \<open>realtime_voice_decision_service.py\<close>: the frozen ring
  timing with its 4 s / 12 s bounds, \<open>decide_call\<close> with its fallback, the gate that turns elapsed
  time and readiness into the next state, and the counters a decision reads from the tables.

  The model call is a value: it answers with a text, times out or raises. The parser of the text
  (\<open>DecisionOutput.model_validate_json\<close>) is an argument \<open>parse\<close>; the field bounds the schema
  declares are checked here. \<open>seed\<close> is the outcome of \<open>secrets.randbelow\<close>.
\<close>

section \<open>Ring timing\<close>

record ring_settings =
  rs_max_wait :: "int option"
  rs_min_ring :: "int option"
  rs_fallback_min :: "int option"
  rs_fallback_max :: "int option"
  rs_prompt :: "pystr option"

definition setting :: "int option \<Rightarrow> int \<Rightarrow> int" where
  "setting v d = (case v of Some x \<Rightarrow> x | None \<Rightarrow> d)"

definition ring_timing :: "ring_settings \<Rightarrow> int \<times> int \<times> int \<times> int" where
  "ring_timing st =
     (let cap = min 12 (max 4 (setting (rs_max_wait st) 12));
          mn = min cap (max 4 (setting (rs_min_ring st) 4));
          lo = min 8 (max 4 (setting (rs_fallback_min st) 4));
          hi = min 8 (max lo (setting (rs_fallback_max st) 8)) in
      (mn, cap, lo, hi))"

section \<open>The decision\<close>

datatype model_reply = Reply pystr | Timed_out | Raised

record decision_output =
  do_answer :: bool
  do_delay :: int
  do_opening :: pystr

record call_decision =
  cd_answer :: bool
  cd_delay_seconds :: int
  cd_opening :: pystr
  cd_fallback :: bool
  cd_category :: "string option"
  cd_forced :: bool

definition neutral_opening :: pystr where
  "neutral_opening = [21890, 65292, 25105, 22312, 12290]"

text \<open>The bounds \<open>DecisionOutput\<close> declares.\<close>

definition output_ok :: "decision_output \<Rightarrow> bool" where
  "output_ok out \<longleftrightarrow> 0 \<le> do_delay out \<and> do_delay out \<le> 12 \<and> length (do_opening out) \<le> 200"

definition model_output :: "(pystr \<Rightarrow> decision_output option) \<Rightarrow> ring_settings \<Rightarrow> model_reply \<Rightarrow> string + decision_output" where
  "model_output parse st reply =
     (if \<not> nonblank (case rs_prompt st of None \<Rightarrow> [] | Some p \<Rightarrow> p) then Inl ''decision_invalid''
      else (case reply of
              Timed_out \<Rightarrow> Inl ''timeout''
            | Raised \<Rightarrow> Inl ''decision_invalid''
            | Reply raw \<Rightarrow>
                if length raw > 4096 then Inl ''decision_invalid''
                else (case parse raw of
                        Some out \<Rightarrow> if output_ok out then Inr out else Inl ''decision_invalid''
                      | None \<Rightarrow> Inl ''decision_invalid'')))"

definition fallback_output :: "int \<Rightarrow> ring_settings \<Rightarrow> decision_output" where
  "fallback_output seed st =
     (case ring_timing st of (mn, cap, lo, hi) \<Rightarrow>
        \<lparr>do_answer = True, do_delay = lo + randbelow seed (hi - lo + 1), do_opening = neutral_opening\<rparr>)"

definition decide_call ::
  "(pystr \<Rightarrow> decision_output option) \<Rightarrow> int \<Rightarrow> ring_settings \<Rightarrow> int \<Rightarrow> model_reply \<Rightarrow> call_decision" where
  "decide_call parse seed st missed reply =
     (case ring_timing st of (mn, cap, lo, hi) \<Rightarrow>
        (let r = model_output parse st reply;
             out = (case r of Inl _ \<Rightarrow> fallback_output seed st | Inr out \<Rightarrow> out);
             forced = missed \<ge> 5;
             answer = do_answer out \<or> forced in
         \<lparr>cd_answer = answer,
          cd_delay_seconds = (if answer then min cap (max mn (do_delay out)) else 0),
          cd_opening = (if forced \<and> \<not> do_answer out then neutral_opening else do_opening out),
          cd_fallback = (case r of Inl _ \<Rightarrow> True | Inr _ \<Rightarrow> False),
          cd_category = (case r of Inl c \<Rightarrow> Some c | Inr _ \<Rightarrow> None),
          cd_forced = forced\<rparr>))"

definition decision_events :: "call_decision \<Rightarrow> int \<Rightarrow> event list" where
  "decision_events d ms =
     [ev ''voice.call01.decision_duration_ms'' [(''result'', if cd_fallback d then ''fallback'' else ''model'')] (max 0 ms),
      ev ''voice.call01.output''
        [(''result'', if \<not> cd_fallback d then ''valid''
                    else if cd_category d = Some ''timeout'' then ''timeout'' else ''invalid'')] 1,
      ev ''voice.call01.decision''
        [(''result'', if cd_answer d then ''answer'' else ''missed''),
         (''mode'', if cd_forced d then ''forced'' else ''ordinary'')] 1]
     @ (if cd_fallback d
        then [ev ''voice.call01.fallback'' [(''reason'', case cd_category d of Some c \<Rightarrow> c | None \<Rightarrow> '''')] 1]
        else [])"

section \<open>The ring gate\<close>

record ring_gate =
  rg_target :: int
  rg_minimum :: int
  rg_ceiling :: int

definition ring_result :: "ring_gate \<Rightarrow> rat \<Rightarrow> bool \<Rightarrow> bool \<Rightarrow> bool \<Rightarrow> call_status" where
  "ring_result g elapsed ready cancelled provider_error =
     (if cancelled then Cancelled
      else if provider_error \<or> of_int (rg_ceiling g) \<le> elapsed \<and> \<not> ready then Failed
      else if ready \<and> of_int (max (rg_minimum g) (rg_target g)) \<le> elapsed then Connected
      else Ringing)"

section \<open>What the decision reads\<close>

definition other_calls :: "int \<Rightarrow> string \<Rightarrow> database \<Rightarrow> voice_call list" where
  "other_calls u cid db = filter (\<lambda>c. vc_user_id c = u \<and> vc_call_id c \<noteq> cid) (db_calls db)"

definition previous_calls :: "int \<Rightarrow> string \<Rightarrow> database \<Rightarrow> int" where
  "previous_calls u cid db = int (length (other_calls u cid db))"

definition calls_today :: "int \<Rightarrow> string \<Rightarrow> datetime \<Rightarrow> database \<Rightarrow> int" where
  "calls_today u cid now db =
     int (length (filter (\<lambda>c. sh_midnight (sh_date now) \<le> vc_created_at c) (other_calls u cid db)))"

definition missed_last_5_minutes :: "int \<Rightarrow> string \<Rightarrow> datetime \<Rightarrow> database \<Rightarrow> int" where
  "missed_last_5_minutes u cid now db =
     int (length (filter (\<lambda>c. vc_status c = Missed \<and>
        (case vc_ended_at c of Some t \<Rightarrow> now - 5 * us_minute \<le> t | None \<Rightarrow> False)) (other_calls u cid db)))"

section \<open>Facts\<close>

lemma ring_timing_bounds_h:
  assumes "ring_timing st = (mn, cap, lo, hi)"
  shows "4 \<le> mn \<and> mn \<le> cap \<and> cap \<le> 12 \<and> 4 \<le> lo \<and> lo \<le> hi \<and> hi \<le> 8"
proof -
  have eq: "cap = min 12 (max 4 (setting (rs_max_wait st) 12))"
    "mn = min cap (max 4 (setting (rs_min_ring st) 4))"
    "lo = min 8 (max 4 (setting (rs_fallback_min st) 4))"
    "hi = min 8 (max lo (setting (rs_fallback_max st) 8))"
    using assms by (auto simp: ring_timing_def Let_def)
  have c: "4 \<le> cap" "cap \<le> 12" by (simp_all add: eq(1))
  have l: "4 \<le> lo" "lo \<le> 8" by (simp_all add: eq(3))
  from c(1) have "4 \<le> mn" "mn \<le> cap" by (simp_all add: eq(2))
  moreover from l have "lo \<le> hi" "hi \<le> 8" by (simp_all add: eq(4))
  ultimately show ?thesis using c l by simp
qed

lemma randbelow_bounds: "0 < n \<Longrightarrow> 0 \<le> randbelow seed n \<and> randbelow seed n < n"
  by (simp add: randbelow_def)

lemma decide_call_delay_h:
  assumes "ring_timing st = (mn, cap, lo, hi)"
  shows "if cd_answer (decide_call parse seed st missed reply)
         then mn \<le> cd_delay_seconds (decide_call parse seed st missed reply) \<and>
              cd_delay_seconds (decide_call parse seed st missed reply) \<le> cap
         else cd_delay_seconds (decide_call parse seed st missed reply) = 0"
  using ring_timing_bounds_h [OF assms] by (auto simp: decide_call_def assms Let_def)

lemma decide_call_forced_h:
  "5 \<le> missed \<Longrightarrow> cd_answer (decide_call parse seed st missed reply)"
  by (simp add: decide_call_def Let_def split: prod.splits)

lemma decide_call_failure_answers_h:
  assumes "\<forall>raw. reply \<noteq> Reply raw"
  shows "cd_answer (decide_call parse seed st missed reply) \<and> cd_fallback (decide_call parse seed st missed reply)
    \<and> cd_opening (decide_call parse seed st missed reply) = neutral_opening"
  using assms
  by (cases reply) (auto simp: decide_call_def model_output_def fallback_output_def Let_def split: prod.splits)

text \<open>With the bounds of \<open>ring_timing\<close>, a gate decides nothing early and decides everything by its ceiling.\<close>

lemma ring_result_early:
  assumes "4 \<le> rg_minimum g" "elapsed < 4" "\<not> cancelled" "\<not> provider_error" "4 \<le> rg_ceiling g"
  shows "ring_result g elapsed ready cancelled provider_error = Ringing"
proof -
  have "\<not> of_int (rg_ceiling g) \<le> elapsed" "\<not> of_int (max (rg_minimum g) (rg_target g)) \<le> elapsed"
    using assms(1,2,5) by (auto simp: not_le intro!: less_le_trans [OF assms(2)])
  with assms(3,4) show ?thesis by (simp add: ring_result_def)
qed

lemma ring_result_ceiling:
  assumes "rg_minimum g \<le> rg_ceiling g" "rg_target g \<le> rg_ceiling g" "of_int (rg_ceiling g) \<le> elapsed"
  shows "ring_result g elapsed ready cancelled provider_error \<noteq> Ringing"
proof -
  have "(of_int (max (rg_minimum g) (rg_target g)) :: rat) \<le> of_int (rg_ceiling g)"
    using assms(1,2) by (simp only: of_int_le_iff max.bounded_iff)
  with assms(3) have "of_int (max (rg_minimum g) (rg_target g)) \<le> elapsed" by (rule order_trans [rotated])
  with assms(3) show ?thesis by (auto simp: ring_result_def)
qed

lemma reg_decision_events:
  "dims_registered ''voice.call01.decision_duration_ms'' [(''result'', ''fallback'')]"
  "dims_registered ''voice.call01.decision_duration_ms'' [(''result'', ''model'')]"
  "dims_registered ''voice.call01.output'' [(''result'', ''valid'')]"
  "dims_registered ''voice.call01.output'' [(''result'', ''timeout'')]"
  "dims_registered ''voice.call01.output'' [(''result'', ''invalid'')]"
  "dims_registered ''voice.call01.decision'' [(''result'', ''answer''), (''mode'', ''forced'')]"
  "dims_registered ''voice.call01.decision'' [(''result'', ''answer''), (''mode'', ''ordinary'')]"
  "dims_registered ''voice.call01.decision'' [(''result'', ''missed''), (''mode'', ''forced'')]"
  "dims_registered ''voice.call01.decision'' [(''result'', ''missed''), (''mode'', ''ordinary'')]"
  "dims_registered ''voice.call01.fallback'' [(''reason'', ''timeout'')]"
  "dims_registered ''voice.call01.fallback'' [(''reason'', ''decision_invalid'')]"
  by (rule reg_establish; code_simp)+

lemma model_output_category: "model_output parse st reply = Inl c \<Longrightarrow> c = ''timeout'' \<or> c = ''decision_invalid''"
  by (simp add: model_output_def split: if_splits model_reply.splits option.splits)

lemma decision_category:
  "cd_category (decide_call parse seed st missed reply) \<in> {None, Some ''timeout'', Some ''decision_invalid''}"
  "cd_fallback (decide_call parse seed st missed reply) \<longleftrightarrow> cd_category (decide_call parse seed st missed reply) \<noteq> None"
proof -
  obtain mn cap lo hi where rt: "ring_timing st = (mn, cap, lo, hi)" by (cases "ring_timing st")
  have "cd_category (decide_call parse seed st missed reply) =
      (case model_output parse st reply of Inl c \<Rightarrow> Some c | Inr _ \<Rightarrow> None)"
    "cd_fallback (decide_call parse seed st missed reply) =
      (case model_output parse st reply of Inl c \<Rightarrow> True | Inr _ \<Rightarrow> False)"
    by (simp_all add: decide_call_def rt Let_def)
  then show "cd_category (decide_call parse seed st missed reply) \<in> {None, Some ''timeout'', Some ''decision_invalid''}"
    "cd_fallback (decide_call parse seed st missed reply) \<longleftrightarrow> cd_category (decide_call parse seed st missed reply) \<noteq> None"
    using model_output_category [of parse st reply] by (cases "model_output parse st reply"; auto)+
qed

lemma decision_events_ok_h:
  assumes "ms \<le> 1000000000"
  shows "list_all event_ok (decision_events (decide_call parse seed st missed reply) ms)"
proof -
  let ?d = "decide_call parse seed st missed reply"
  have "cd_category ?d = None \<or> cd_category ?d = Some ''timeout'' \<or> cd_category ?d = Some ''decision_invalid''"
    using decision_category(1) by blast
  then show ?thesis
    using assms decision_category(2) [of parse seed st missed reply]
    by (elim disjE; cases "cd_answer ?d"; cases "cd_forced ?d")
      (simp_all add: decision_events_def ev_def event_ok_dims reg_decision_events)
qed

section \<open>Properties\<close>

text \<open>Whatever the frozen settings, the model and the draw do, a decision is within the hard bounds: an
  answer rings between 4 and 12 seconds (within the frozen minimum and ceiling), a refusal has no
  delay; five misses in five minutes force an answer, and a model failure answers with the neutral
  opening and is marked as a fallback.\<close>

theorem decision_bounds:
  "let d = decide_call parse seed st missed reply in
   case ring_timing st of (mn, cap, lo, hi) \<Rightarrow>
     4 \<le> mn \<and> mn \<le> cap \<and> cap \<le> 12 \<and> 4 \<le> lo \<and> lo \<le> hi \<and> hi \<le> 8 \<and>
     (if cd_answer d then mn \<le> cd_delay_seconds d \<and> cd_delay_seconds d \<le> cap else cd_delay_seconds d = 0) \<and>
     (if 5 \<le> missed then cd_answer d else True) \<and>
     (if reply = Timed_out \<or> reply = Raised
      then cd_answer d \<and> cd_fallback d \<and> cd_opening d = neutral_opening else True)"
proof -
  obtain mn cap lo hi where rt: "ring_timing st = (mn, cap, lo, hi)" by (cases "ring_timing st")
  show ?thesis
    using ring_timing_bounds_h [OF rt] decide_call_delay_h [OF rt, of parse seed missed reply]
      decide_call_forced_h [of missed parse seed st reply]
      decide_call_failure_answers_h [of reply parse seed st missed]
    by (auto simp: rt Let_def)
qed

text \<open>A ring gate built from the frozen timing stays ringing for the first four seconds unless it is
  cancelled or the provider fails, and is decided (not ringing) once its ceiling has elapsed.\<close>

theorem ring_gate_window:
  assumes "ring_timing st = (mn, cap, lo, hi)" "rg_minimum g = mn" "rg_ceiling g = cap" "rg_target g \<le> cap"
  shows "(elapsed < 4 \<longrightarrow> ring_result g elapsed ready False False = Ringing) \<and>
    (of_int cap \<le> elapsed \<longrightarrow> ring_result g elapsed ready cancelled provider_error \<noteq> Ringing)"
  using ring_result_early [of g elapsed False False ready] ring_result_ceiling [of g elapsed ready cancelled provider_error]
    ring_timing_bounds_h [OF assms(1)] assms(2-4) by auto

theorem ring_gate_window_witness:
  "ring_result \<lparr>rg_target = 9, rg_minimum = 4, rg_ceiling = 12\<rparr> 3 True False False = Ringing \<and>
   ring_result \<lparr>rg_target = 9, rg_minimum = 4, rg_ceiling = 12\<rparr> 12 False False False \<noteq> Ringing"
proof -
  have rt: "ring_timing \<lparr>rs_max_wait = None, rs_min_ring = None, rs_fallback_min = None,
      rs_fallback_max = None, rs_prompt = None\<rparr> = (4, 12, 4, 8)"
    by (simp add: ring_timing_def setting_def)
  show ?thesis
    using ring_gate_window [OF rt, of "\<lparr>rg_target = 9, rg_minimum = 4, rg_ceiling = 12\<rparr>" 3 True False False]
      ring_gate_window [OF rt, of "\<lparr>rg_target = 9, rg_minimum = 4, rg_ceiling = 12\<rparr>" 12 False False False]
    by simp
qed

end
