(* ===== verification/Lease.thy ===== *)
theory Lease
  imports Prelude
begin

text \<open>
  The call-owned leases of \<open>realtime_voice_lease_service.py\<close>. Each Lua script is one atomic function
  of the cache keys it touches: the per-user key (value and expiry), the sorted set of active calls
  (score = expiry), the hash of owners, and the cool-down key. Times are the cache's milliseconds.

  Whether a key with expiry \<open>e\<close> is still readable at the instant \<open>e\<close> itself is not something the
  code fixes, so it is an argument \<open>alive\<close>; the laws of the locale \<open>px_clock\<close> are what is documented:
  readable strictly before the expiry, gone strictly after.
\<close>

record lease_store =
  ls_user :: "(int \<times> string \<times> int) list"
  ls_active :: "(string \<times> int) list"
  ls_owners :: "(string \<times> int) list"
  ls_cooldown :: "(int \<times> string \<times> int) list"

type_synonym px = "int \<Rightarrow> int \<Rightarrow> bool"

definition empty_store :: lease_store where
  "empty_store = \<lparr>ls_user = [], ls_active = [], ls_owners = [], ls_cooldown = []\<rparr>"

definition px_get :: "px \<Rightarrow> int \<Rightarrow> ('k \<times> string \<times> int) list \<Rightarrow> 'k \<Rightarrow> (string \<times> int) option" where
  "px_get alive now d k =
     (case map_of d k of None \<Rightarrow> None | Some (v, e) \<Rightarrow> if alive now e then Some (v, e) else None)"

definition user_owner :: "px \<Rightarrow> int \<Rightarrow> lease_store \<Rightarrow> int \<Rightarrow> string option" where
  "user_owner alive now s u = map_option fst (px_get alive now (ls_user s) u)"

section \<open>The scripts\<close>

text \<open>\<open>ZRANGEBYSCORE -inf now\<close>, the \<open>HDEL\<close> of each, \<open>ZREMRANGEBYSCORE\<close>; \<open>PRUNE_EXPIRED\<close> counts them.\<close>

definition expired_ids :: "int \<Rightarrow> lease_store \<Rightarrow> string list" where
  "expired_ids now s = map fst (filter (\<lambda>(c, e). e \<le> now) (ls_active s))"

definition prune :: "int \<Rightarrow> lease_store \<Rightarrow> lease_store" where
  "prune now s =
     s\<lparr>ls_owners := filter (\<lambda>(c, u). c \<notin> set (expired_ids now s)) (ls_owners s),
       ls_active := filter (\<lambda>(c, e). \<not> e \<le> now) (ls_active s)\<rparr>"

definition PRUNE_EXPIRED :: "int \<Rightarrow> lease_store \<Rightarrow> nat \<times> lease_store" where
  "PRUNE_EXPIRED now s = (length (expired_ids now s), prune now s)"

definition ACQUIRE ::
  "px \<Rightarrow> int \<Rightarrow> int \<Rightarrow> string \<Rightarrow> int \<Rightarrow> int \<Rightarrow> lease_store \<Rightarrow> string \<times> lease_store" where
  "ACQUIRE alive now u c ttl limit s =
     (let s1 = prune now s; owner = user_owner alive now s1 u in
      if owner \<noteq> None \<and> owner \<noteq> Some c then (''user_busy'', s1)
      else if owner = None \<and> int (length (ls_active s1)) \<ge> limit then (''capacity_full'', s1)
      else (''acquired'',
        s1\<lparr>ls_user := AList.update u (c, now + ttl) (ls_user s1),
           ls_active := AList.update c (now + ttl) (ls_active s1),
           ls_owners := AList.update c u (ls_owners s1)\<rparr>))"

definition RENEW :: "px \<Rightarrow> int \<Rightarrow> int \<Rightarrow> string \<Rightarrow> int \<Rightarrow> lease_store \<Rightarrow> bool \<times> lease_store" where
  "RENEW alive now u c ttl s =
     (if user_owner alive now s u \<noteq> Some c
         \<or> (case map_of (ls_active s) c of None \<Rightarrow> True | Some e \<Rightarrow> e \<le> now)
      then (False, s)
      else (True, s\<lparr>ls_user := AList.update u (c, now + ttl) (ls_user s),
                    ls_active := AList.update c (now + ttl) (ls_active s)\<rparr>))"

definition RELEASE :: "px \<Rightarrow> int \<Rightarrow> int \<Rightarrow> string \<Rightarrow> lease_store \<Rightarrow> bool \<times> lease_store" where
  "RELEASE alive now u c s =
     (if map_of (ls_owners s) c \<noteq> Some u then (False, s)
      else (True, s\<lparr>ls_user := (if user_owner alive now s u = Some c
                                then AList.delete u (ls_user s) else ls_user s),
                    ls_active := AList.delete c (ls_active s),
                    ls_owners := AList.delete c (ls_owners s)\<rparr>))"

text \<open>\<open>SET ... PX remaining NX\<close> and the \<open>PTTL\<close> reply.\<close>

definition COOLDOWN :: "px \<Rightarrow> int \<Rightarrow> int \<Rightarrow> string \<Rightarrow> int \<Rightarrow> lease_store \<Rightarrow> int \<times> lease_store" where
  "COOLDOWN alive now u c ended s =
     (let remaining = min 3000 (ended + 3000 - now) in
      if remaining \<le> 0 then (0, s)
      else (case px_get alive now (ls_cooldown s) u of
              Some (_, e) \<Rightarrow> (e - now, s)
            | None \<Rightarrow> (remaining,
                s\<lparr>ls_cooldown := AList.update u (c, now + remaining) (ls_cooldown s)\<rparr>)))"

section \<open>The service\<close>

definition hex_char :: "char \<Rightarrow> bool" where
  "hex_char c \<longleftrightarrow> c \<in> set ''0123456789abcdef''"

text \<open>\<open>str(UUID(call_id)) == call_id\<close>: the canonical lower-case form.\<close>

definition canonical_uuid :: "string \<Rightarrow> bool" where
  "canonical_uuid s \<longleftrightarrow>
     length s = 36 \<and>
     list_all (\<lambda>(i, c). if i \<in> {8, 13, 18, 23} then c = CHR ''-'' else hex_char c) (zip [0..<36] s)"

definition lease_validate :: "string \<Rightarrow> int \<Rightarrow> unit res" where
  "lease_validate c ttl =
     (if \<not> canonical_uuid c then Inl (ValueError ''invalid_call_id'')
      else if \<not> (10000 \<le> ttl \<and> ttl \<le> 60000) then Inl (ValueError ''invalid_lease_ttl'')
      else Inr ())"

definition lease_user_key :: "int \<Rightarrow> unit res" where
  "lease_user_key u = (if u < 1 then Inl (ValueError ''invalid_user_id'') else Inr ())"

definition lease_acquire ::
  "px \<Rightarrow> int \<Rightarrow> int \<Rightarrow> string \<Rightarrow> int \<Rightarrow> int \<Rightarrow> lease_store \<Rightarrow> ((bool \<times> string) \<times> lease_store) res" where
  "lease_acquire alive now u c ttl limit s =
     bindR (lease_validate c ttl) (\<lambda>_.
     if limit < 1 then Inl (ValueError ''invalid_global_limit'')
     else bindR (lease_user_key u) (\<lambda>_.
       let r = ACQUIRE alive now u c ttl limit s in Inr ((fst r = ''acquired'', fst r), snd r)))"

text \<open>
  \<open>renew\<close>: the script's reply, or a failed cache call (\<open>reached = False\<close>); a lease that is not
  renewed asks for the end of its call with the reason \<open>system_error\<close>.
\<close>

definition lease_renew ::
  "px \<Rightarrow> int \<Rightarrow> bool \<Rightarrow> int \<Rightarrow> string \<Rightarrow> int \<Rightarrow> lease_store
     \<Rightarrow> (bool \<times> lease_store \<times> (string \<times> int \<times> string) option) res" where
  "lease_renew alive now reached u c ttl s =
     bindR (lease_validate c ttl) (\<lambda>_.
       let (renewed, s') = (if reached \<and> 1 \<le> u then RENEW alive now u c ttl s else (False, s)) in
       Inr (renewed, s', if renewed then None else Some (c, u, ''system_error'')))"

definition lease_release :: "px \<Rightarrow> int \<Rightarrow> int \<Rightarrow> string \<Rightarrow> lease_store \<Rightarrow> (bool \<times> lease_store) res" where
  "lease_release alive now u c s = bindR (lease_user_key u) (\<lambda>_. Inr (RELEASE alive now u c s))"

definition owner_matches :: "px \<Rightarrow> int \<Rightarrow> int \<Rightarrow> string \<Rightarrow> lease_store \<Rightarrow> bool" where
  "owner_matches alive now u c s \<longleftrightarrow> user_owner alive now s u = Some c"

definition check_new_dial :: "px \<Rightarrow> int \<Rightarrow> int \<Rightarrow> lease_store \<Rightarrow> bool" where
  "check_new_dial alive now u s =
     (case px_get alive now (ls_cooldown s) u of None \<Rightarrow> False | Some (_, e) \<Rightarrow> e - now > 0)"

section \<open>Facts about single operations\<close>

locale px_clock =
  fixes alive :: px
  assumes before: "now < e \<Longrightarrow> alive now e"
    and after: "e < now \<Longrightarrow> \<not> alive now e"
begin

lemma alive_le: "alive now e \<Longrightarrow> now \<le> e"
  using after [of e now] by linarith

text \<open>The cool-down ends at the same instant whichever way the boundary is read.\<close>

lemma dial_blocked_iff:
  assumes "map_of (ls_cooldown s) u = Some (c, e)"
  shows "check_new_dial alive now u s \<longleftrightarrow> now < e"
  using assms before [of now e] by (auto simp: check_new_dial_def px_get_def)

lemma cooldown_window:
  assumes "map_of (ls_cooldown s) u = None" "ended \<le> now" "now < ended + 3000"
  shows "check_new_dial alive t u (snd (COOLDOWN alive now u c ended s)) \<longleftrightarrow> t < ended + 3000"
proof -
  have "map_of (ls_cooldown (snd (COOLDOWN alive now u c ended s))) u = Some (c, ended + 3000)"
    using assms by (simp add: COOLDOWN_def px_get_def dict_get_update)
  then show ?thesis by (rule dial_blocked_iff)
qed

lemma busy_while_owned:
  assumes "map_of (ls_user s) u = Some (c, e)" "now < e" "d \<noteq> c"
  shows "fst (ACQUIRE alive now u d ttl limit s) = ''user_busy''"
    "map_of (ls_user (snd (ACQUIRE alive now u d ttl limit s))) u = Some (c, e)"
  using assms before [of now e] by (simp_all add: ACQUIRE_def Let_def user_owner_def px_get_def prune_def)

end

definition strict_expiry :: px where
  "strict_expiry now e \<longleftrightarrow> now < e"

definition late_expiry :: px where
  "late_expiry now e \<longleftrightarrow> now \<le> e"

interpretation strict_px: px_clock strict_expiry
  by unfold_locales (simp_all add: strict_expiry_def)

interpretation late_px: px_clock late_expiry
  by unfold_locales (simp_all add: late_expiry_def)

lemma prune_frame [simp]:
  "ls_user (prune now s) = ls_user s" "ls_cooldown (prune now s) = ls_cooldown s"
  by (simp_all add: prune_def)

lemma ACQUIRE_cases:
  obtains (busy) d where "user_owner alive now s u = Some d" "d \<noteq> c"
      "ACQUIRE alive now u c ttl limit s = (''user_busy'', prune now s)"
  | (full) "user_owner alive now s u = None" "limit \<le> int (length (ls_active (prune now s)))"
      "ACQUIRE alive now u c ttl limit s = (''capacity_full'', prune now s)"
  | (acquired) "user_owner alive now s u = Some c
        \<or> user_owner alive now s u = None \<and> int (length (ls_active (prune now s))) < limit"
      "ACQUIRE alive now u c ttl limit s = (''acquired'',
        (prune now s)\<lparr>ls_user := AList.update u (c, now + ttl) (ls_user s),
           ls_active := AList.update c (now + ttl) (ls_active (prune now s)),
           ls_owners := AList.update c u (ls_owners (prune now s))\<rparr>)"
proof -
  have o: "user_owner alive now (prune now s) u = user_owner alive now s u"
    by (simp add: user_owner_def)
  show thesis
    using busy full acquired
    by (cases "user_owner alive now s u"; cases "limit \<le> int (length (ls_active (prune now s)))")
      (auto simp: ACQUIRE_def Let_def o split: if_splits)
qed

section \<open>Every reachable lease state\<close>

text \<open>
  States reached with a fixed limit by calls that each belong to one user (\<open>own\<close>) and ask for a
  lease only while they do not hold the user's key, as the creation service does with its fresh ids.
  Time does not run backwards.
\<close>

inductive lease_run :: "px \<Rightarrow> (string \<Rightarrow> int) \<Rightarrow> int \<Rightarrow> int \<Rightarrow> lease_store \<Rightarrow> bool"
  for alive :: px and own :: "string \<Rightarrow> int" and limit :: int where
  run_init: "lease_run alive own limit now empty_store"
| run_tick: "lease_run alive own limit now s \<Longrightarrow> now \<le> now' \<Longrightarrow> lease_run alive own limit now' s"
| run_acquire: "lease_run alive own limit now s \<Longrightarrow> user_owner alive now s (own c) \<noteq> Some c \<Longrightarrow> 0 < ttl \<Longrightarrow>
    lease_run alive own limit now (snd (ACQUIRE alive now (own c) c ttl limit s))"
| run_renew: "lease_run alive own limit now s \<Longrightarrow> 0 < ttl \<Longrightarrow>
    lease_run alive own limit now (snd (RENEW alive now (own c) c ttl s))"
| run_release: "lease_run alive own limit now s \<Longrightarrow>
    lease_run alive own limit now (snd (RELEASE alive now u c s))"
| run_prune: "lease_run alive own limit now s \<Longrightarrow> lease_run alive own limit now (prune now s)"

definition live_entries :: "int \<Rightarrow> lease_store \<Rightarrow> (string \<times> int) list" where
  "live_entries now s = filter (\<lambda>(c, e). now < e) (ls_active s)"

definition lease_inv :: "(string \<Rightarrow> int) \<Rightarrow> int \<Rightarrow> int \<Rightarrow> lease_store \<Rightarrow> bool" where
  "lease_inv own limit now s \<longleftrightarrow>
     dict_wf (ls_user s) \<and> dict_wf (ls_active s) \<and> dict_wf (ls_owners s) \<and>
     int (length (live_entries now s)) \<le> max 0 limit \<and>
     (\<forall>u c e. map_of (ls_user s) u = Some (c, e) \<longrightarrow> own c = u) \<and>
     (\<forall>u c e. map_of (ls_user s) u = Some (c, e) \<and> now < e \<longrightarrow> map_of (ls_active s) c = Some e) \<and>
     (\<forall>c e. map_of (ls_active s) c = Some e \<longrightarrow> map_of (ls_owners s) c = Some (own c)) \<and>
     (\<forall>c u. map_of (ls_owners s) c = Some u \<longrightarrow> own c = u)"

lemma prune_gets:
  assumes "dict_wf (ls_active s)" "dict_wf (ls_owners s)"
  shows "map_of (ls_active (prune now s)) c =
      (case map_of (ls_active s) c of None \<Rightarrow> None | Some e \<Rightarrow> if now < e then Some e else None)"
    "map_of (ls_owners (prune now s)) c =
      (case map_of (ls_owners s) c of None \<Rightarrow> None
       | Some u \<Rightarrow> if (\<exists>e. map_of (ls_active s) c = Some e \<and> e \<le> now) then None else Some u)"
proof -
  have "c \<in> set (expired_ids now s) \<longleftrightarrow> (\<exists>e. map_of (ls_active s) c = Some e \<and> e \<le> now)"
    using assms(1) by (force simp: expired_ids_def dict_wf_def)
  then show "map_of (ls_owners (prune now s)) c =
      (case map_of (ls_owners s) c of None \<Rightarrow> None
       | Some u \<Rightarrow> if (\<exists>e. map_of (ls_active s) c = Some e \<and> e \<le> now) then None else Some u)"
    using assms(2) by (auto simp: prune_def dict_get_filter split: option.splits)
  show "map_of (ls_active (prune now s)) c =
      (case map_of (ls_active s) c of None \<Rightarrow> None | Some e \<Rightarrow> if now < e then Some e else None)"
    using assms(1) by (simp add: prune_def dict_get_filter not_le split: option.splits)
qed

lemma prune_live: "live_entries now (prune now s) = live_entries now s"
  by (auto simp: live_entries_def prune_def intro!: filter_cong)

lemma prune_length: "ls_active (prune now s) = live_entries now s"
  by (auto simp: live_entries_def prune_def intro!: filter_cong)

lemma lease_invI:
  assumes "dict_wf (ls_user s)" "dict_wf (ls_active s)" "dict_wf (ls_owners s)"
    "int (length (live_entries now s)) \<le> max 0 limit"
    "\<And>u c e. map_of (ls_user s) u = Some (c, e) \<Longrightarrow> own c = u"
    "\<And>u c e. map_of (ls_user s) u = Some (c, e) \<Longrightarrow> now < e \<Longrightarrow> map_of (ls_active s) c = Some e"
    "\<And>c e. map_of (ls_active s) c = Some e \<Longrightarrow> map_of (ls_owners s) c = Some (own c)"
    "\<And>c u. map_of (ls_owners s) c = Some u \<Longrightarrow> own c = u"
  shows "lease_inv own limit now s"
  unfolding lease_inv_def using assms by blast

lemma lease_invD:
  assumes "lease_inv own limit now s"
  shows "dict_wf (ls_user s)" "dict_wf (ls_active s)" "dict_wf (ls_owners s)"
    "int (length (live_entries now s)) \<le> max 0 limit"
    "map_of (ls_user s) u = Some (c, e) \<Longrightarrow> own c = u"
    "map_of (ls_user s) u = Some (c, e) \<Longrightarrow> now < e \<Longrightarrow> map_of (ls_active s) c = Some e"
    "map_of (ls_active s) c = Some e \<Longrightarrow> map_of (ls_owners s) c = Some (own c)"
    "map_of (ls_owners s) c = Some u \<Longrightarrow> own c = u"
  using assms unfolding lease_inv_def by blast+

lemma prune_inv:
  assumes i: "lease_inv own limit now s"
  shows "lease_inv own limit now (prune now s)"
proof -
  note d = lease_invD [OF i] and g = prune_gets [OF lease_invD(2,3) [OF i]]
  show ?thesis
  proof (rule lease_invI)
    show "dict_wf (ls_active (prune now s))" "dict_wf (ls_owners (prune now s))"
      using d(2,3) by (simp_all add: prune_def)
    show "map_of (ls_active (prune now s)) c = Some e" if "map_of (ls_user (prune now s)) u = Some (c, e)" "now < e" for u c e
      using d(6) [of u c e] that by (simp add: g)
    show "map_of (ls_owners (prune now s)) c = Some (own c)" if "map_of (ls_active (prune now s)) c = Some e" for c e
      using that d(7) [of c e] by (simp add: g split: option.splits if_splits)
    show "own c = u" if "map_of (ls_owners (prune now s)) c = Some u" for c u
      using that d(8) [of c u] by (simp add: g split: option.splits if_splits)
  qed (use d in \<open>simp_all add: prune_live\<close>)
qed

lemma tick_inv:
  assumes i: "lease_inv own limit now s" and t: "now \<le> now'"
  shows "lease_inv own limit now' s"
proof -
  note d = lease_invD [OF i]
  have "live_entries now' s = filter (\<lambda>(c, e). now' < e) (live_entries now s)"
    using t by (auto simp: live_entries_def intro!: filter_cong)
  then have "length (live_entries now' s) \<le> length (live_entries now s)" by simp
  with d(4) have "int (length (live_entries now' s)) \<le> max 0 limit" by linarith
  then show ?thesis
  proof (rule lease_invI [OF d(1-3)])
    show "map_of (ls_active s) c = Some e" if "map_of (ls_user s) u = Some (c, e)" "now' < e" for u c e
      using d(6) [OF that(1)] that(2) t by linarith
  qed (fact d(5) d(7) d(8))+
qed

lemma acquire_inv:
  assumes i: "lease_inv own limit now s" and n: "user_owner alive now s (own c) \<noteq> Some c"
  shows "lease_inv own limit now (snd (ACQUIRE alive now (own c) c ttl limit s))"
proof (rule ACQUIRE_cases [of alive now s "own c" c ttl limit])
  assume a: "user_owner alive now s (own c) = Some c
        \<or> user_owner alive now s (own c) = None \<and> int (length (ls_active (prune now s))) < limit"
    and r: "ACQUIRE alive now (own c) c ttl limit s = (''acquired'',
        (prune now s)\<lparr>ls_user := AList.update (own c) (c, now + ttl) (ls_user s),
           ls_active := AList.update c (now + ttl) (ls_active (prune now s)),
           ls_owners := AList.update c (own c) (ls_owners (prune now s))\<rparr>)"
  let ?p = "prune now s"
  note p = lease_invD [OF prune_inv [OF i]]
  let ?s' = "?p\<lparr>ls_user := AList.update (own c) (c, now + ttl) (ls_user s),
           ls_active := AList.update c (now + ttl) (ls_active ?p),
           ls_owners := AList.update c (own c) (ls_owners ?p)\<rparr>"
  have "int (length (ls_active ?p)) < limit" using a n by simp
  then have "int (length (ls_active ?s')) \<le> limit"
    using length_update_bound [of c "now + ttl" "ls_active ?p"] by simp
  moreover have "length (live_entries now ?s') \<le> length (ls_active ?s')"
    by (simp add: live_entries_def)
  ultimately have "int (length (live_entries now ?s')) \<le> max 0 limit" by linarith
  then have "lease_inv own limit now ?s'"
  proof (rule lease_invI [rotated 3])
    show "own d = u" if "map_of (ls_user ?s') u = Some (d, e)" for u d e
      using that p(5) [of u d e] by (simp add: dict_get_update split: if_splits)
    show "map_of (ls_active ?s') d = Some e" if "map_of (ls_user ?s') u = Some (d, e)" "now < e" for u d e
      using that p(5,6) [of u d e] by (auto simp add: dict_get_update split: if_splits)
    show "map_of (ls_owners ?s') d = Some (own d)" if "map_of (ls_active ?s') d = Some e" for d e
      using that p(7) [of d e] by (simp add: dict_get_update split: if_splits)
    show "own d = u" if "map_of (ls_owners ?s') d = Some u" for d u
      using that p(8) [of d u] by (simp add: dict_get_update split: if_splits)
  qed (use p(1-3) in simp_all)
  then show ?thesis by (simp add: r)
qed (use prune_inv [OF i] in simp_all)

lemma renew_inv:
  assumes i: "lease_inv own limit now s"
  shows "lease_inv own limit now (snd (RENEW alive now (own c) c ttl s))"
proof (cases "fst (RENEW alive now (own c) c ttl s)")
  case True
  then obtain e where e: "map_of (ls_active s) c = Some e" "now < e"
    and r: "snd (RENEW alive now (own c) c ttl s) =
      s\<lparr>ls_user := AList.update (own c) (c, now + ttl) (ls_user s),
        ls_active := AList.update c (now + ttl) (ls_active s)\<rparr>"
    by (auto simp: RENEW_def split: if_splits option.splits)
  note d = lease_invD [OF i]
  let ?s' = "s\<lparr>ls_user := AList.update (own c) (c, now + ttl) (ls_user s),
        ls_active := AList.update c (now + ttl) (ls_active s)\<rparr>"
  have "length (live_entries now ?s') \<le> length (live_entries now s)"
    using e by (simp add: live_entries_def filter_update_length [where P = "\<lambda>(c, e). now < e"])
  with d(4) have "int (length (live_entries now ?s')) \<le> max 0 limit" by linarith
  then have "lease_inv own limit now ?s'"
  proof (rule lease_invI [rotated 3])
    show "own x = u" if "map_of (ls_user ?s') u = Some (x, f)" for u x f
      using that d(5) [of u x f] by (simp add: dict_get_update split: if_splits)
    show "map_of (ls_active ?s') x = Some f" if "map_of (ls_user ?s') u = Some (x, f)" "now < f" for u x f
      using that d(5,6) [of u x f] by (auto simp add: dict_get_update split: if_splits)
    show "map_of (ls_owners ?s') x = Some (own x)" if "map_of (ls_active ?s') x = Some f" for x f
      using that d(7) [of x] e(1) by (simp add: dict_get_update split: if_splits)
    show "own x = u" if "map_of (ls_owners ?s') x = Some u" for x u
      using that d(8) [of x u] by simp
  qed (use d(1-3) in simp_all)
  then show ?thesis by (simp add: r)
next
  case False
  then have "snd (RENEW alive now (own c) c ttl s) = s" by (auto simp: RENEW_def)
  then show ?thesis using i by simp
qed

lemma release_inv:
  assumes i: "lease_inv own limit now s" and clk: "px_clock alive"
  shows "lease_inv own limit now (snd (RELEASE alive now u c s))"
proof (cases "map_of (ls_owners s) c = Some u")
  case True
  note d = lease_invD [OF i]
  have own: "own c = u" by (rule d(8) [OF True])
  let ?s' = "snd (RELEASE alive now u c s)"
  have s': "ls_active ?s' = AList.delete c (ls_active s)" "ls_owners ?s' = AList.delete c (ls_owners s)"
    "ls_user ?s' = (if user_owner alive now s u = Some c then AList.delete u (ls_user s) else ls_user s)"
    using True by (simp_all add: RELEASE_def)
  have "length (live_entries now ?s') \<le> length (live_entries now s)"
    by (simp add: live_entries_def s' filter_delete_length)
  with d(4) have "int (length (live_entries now ?s')) \<le> max 0 limit" by linarith
  then show ?thesis
  proof (rule lease_invI [rotated 3])
    have sub: "map_of (ls_user s) v = Some (x, e)" if "map_of (ls_user ?s') v = Some (x, e)" for v x e
      using that by (simp add: s'(3) dict_get_delete split: if_splits)
    show "own x = v" if "map_of (ls_user ?s') v = Some (x, e)" for v x e
      by (rule d(5) [OF sub [OF that]])
    show "map_of (ls_active ?s') x = Some e" if k: "map_of (ls_user ?s') v = Some (x, e)" "now < e" for v x e
    proof -
      have "x \<noteq> c"
      proof
        assume xc: "x = c"
        with d(5) [OF sub [OF k(1)]] own have vu: "v = u" by simp
        have "user_owner alive now s u = Some c"
          using sub [OF k(1)] px_clock.before [OF clk k(2)] vu xc by (simp add: user_owner_def px_get_def)
        with k(1) vu show False by (simp add: s'(3) dict_get_delete)
      qed
      with d(6) [OF sub [OF k(1)] k(2)] show ?thesis by (simp add: s'(1) dict_get_delete)
    qed
    show "map_of (ls_owners ?s') x = Some (own x)" if "map_of (ls_active ?s') x = Some e" for x e
      using that d(7) [of x e] by (simp add: s'(1,2) dict_get_delete split: if_splits)
    show "own x = v" if "map_of (ls_owners ?s') x = Some v" for x v
      using that d(8) [of x v] by (simp add: s'(2) dict_get_delete split: if_splits)
  qed (use d(1-3) in \<open>simp_all add: s'\<close>)
next
  case False
  with i show ?thesis by (simp add: RELEASE_def)
qed

lemma empty_inv: "lease_inv own limit now empty_store"
  by (rule lease_invI) (simp_all add: empty_store_def live_entries_def)

lemma lease_run_inv:
  assumes "lease_run alive own limit now s" "px_clock alive"
  shows "lease_inv own limit now s"
  using assms
proof (induction rule: lease_run.induct)
  case (run_tick now s now')
  then show ?case using tick_inv by blast
next
  case (run_acquire now s c ttl)
  then show ?case using acquire_inv by blast
qed (simp_all add: empty_inv renew_inv release_inv prune_inv)

text \<open>
  The users whose key is not past its expiry: each holds one call, no call is held twice, and there
  are at most \<open>limit\<close> of them.
\<close>

definition live_users :: "int \<Rightarrow> lease_store \<Rightarrow> (int \<times> string \<times> int) list" where
  "live_users now s = filter (\<lambda>(u, c, e). now < e) (ls_user s)"

lemma live_users_bound:
  assumes i: "lease_inv own limit now s"
  shows "int (length (live_users now s)) \<le> max 0 limit" "distinct (map (\<lambda>(u, c, e). c) (live_users now s))"
proof -
  note d = lease_invD [OF i]
  have dist: "distinct (map fst (live_users now s))"
    using d(1) by (simp add: live_users_def dict_wf_def distinct_map_filter)
  have mem: "own c = u \<and> (c, e) \<in> set (live_entries now s)" if "(u, c, e) \<in> set (live_users now s)" for u c e
  proof -
    from that have m: "map_of (ls_user s) u = Some (c, e)" "now < e"
      using d(1) by (simp_all add: live_users_def dict_wf_def)
    from d(5) [OF m(1)] map_of_SomeD [OF d(6) [OF m]] m(2) show ?thesis
      by (simp add: live_entries_def)
  qed
  have inj: "inj_on (\<lambda>(u, c, e). c) (set (live_users now s))"
  proof (rule inj_onI)
    fix x y assume x: "x \<in> set (live_users now s)" and y: "y \<in> set (live_users now s)"
      and eq: "(\<lambda>(u, c, e). c) x = (\<lambda>(u, c, e). c) y"
    obtain u c e where xx: "x = (u, c, e)" by (cases x)
    obtain v k f where yy: "y = (v, k, f)" by (cases y)
    from eq xx yy have ck: "c = k" by simp
    from mem x xx have "own c = u" by blast
    moreover from mem y yy have "own k = v" by blast
    ultimately have "u = v" using ck by simp
    with dist x y xx yy show "x = y" by (metis eq_key_imp_eq_value)
  qed
  have "distinct (live_users now s)" using dist by (simp add: distinct_map)
  with inj show dd: "distinct (map (\<lambda>(u, c, e). c) (live_users now s))" by (simp add: distinct_map)
  have "set (map (\<lambda>(u, c, e). c) (live_users now s)) \<subseteq> set (map fst (live_entries now s))"
    using mem by force
  then have "card (set (map (\<lambda>(u, c, e). c) (live_users now s))) \<le> card (set (map fst (live_entries now s)))"
    by (rule card_mono [rotated]) simp
  also have "\<dots> \<le> length (live_entries now s)" by (metis card_length length_map)
  finally have "length (live_users now s) \<le> length (live_entries now s)"
    using distinct_card [OF dd] by simp
  with d(4) show "int (length (live_users now s)) \<le> max 0 limit" by linarith
qed

section \<open>Properties\<close>

text \<open>C6: In every state the lease scripts can reach, with any boundary reading of key expiry, at most
  \<open>limit\<close> users hold an unexpired lease, each unexpired lease belongs to the user who owns its call,
  and no call is leased twice.\<close>

theorem lease_capacity_and_ownership:
  assumes "lease_run alive own limit now s" "px_clock alive" "0 \<le> limit"
  shows "int (length (live_users now s)) \<le> limit \<and>
    distinct (map (\<lambda>(u, c, e). c) (live_users now s)) \<and>
    list_all (\<lambda>(u, c, e). own c = u) (live_users now s)"
proof -
  note i = lease_run_inv [OF assms(1,2)]
  have "own c = u" if "(u, c, e) \<in> set (live_users now s)" for u c e
  proof (rule lease_invD(5) [OF i])
    show "map_of (ls_user s) u = Some (c, e)"
      using that lease_invD(1) [OF i] by (simp add: live_users_def dict_wf_def)
  qed
  then have "list_all (\<lambda>(u, c, e). own c = u) (live_users now s)" by (auto simp: list_all_iff)
  moreover have "int (length (live_users now s)) \<le> limit"
    using live_users_bound(1) [OF i] assms(3) by linarith
  ultimately show ?thesis using live_users_bound(2) [OF i] by blast
qed

theorem lease_capacity_and_ownership_witness:
  "int (length (live_users 9 (snd (ACQUIRE late_expiry 9 7 ''c'' 10000 1 empty_store)))) \<le> 1"
proof -
  have "user_owner late_expiry 9 empty_store ((\<lambda>c. 7) ''c'') \<noteq> Some ''c''"
    by (simp add: user_owner_def px_get_def empty_store_def)
  then have "lease_run late_expiry (\<lambda>c. 7) 1 9 (snd (ACQUIRE late_expiry 9 ((\<lambda>c. 7) ''c'') ''c'' 10000 1 empty_store))"
    by (rule run_acquire [OF run_init]) simp
  from lease_capacity_and_ownership [OF this late_px.px_clock_axioms] show ?thesis by simp
qed

text \<open>While a user's lease on a call has not expired, an acquisition for any other call of that user is
  refused as busy and does not displace the lease.\<close>

theorem lease_excludes_second_call:
  assumes "px_clock alive" "map_of (ls_user s) u = Some (c, e)" "now < e" "d \<noteq> c"
  shows "fst (ACQUIRE alive now u d ttl limit s) = ''user_busy'' \<and>
    map_of (ls_user (snd (ACQUIRE alive now u d ttl limit s))) u = Some (c, e)"
  using px_clock.busy_while_owned [OF assms] by blast

theorem lease_excludes_second_call_witness:
  "fst (ACQUIRE strict_expiry 20 7 ''d'' 10000 5
     (empty_store\<lparr>ls_user := [(7, ''c'', 30)], ls_active := [(''c'', 30)], ls_owners := [(''c'', 7)]\<rparr>)) = ''user_busy''"
proof -
  have "map_of (ls_user (empty_store\<lparr>ls_user := [(7, ''c'', 30)], ls_active := [(''c'', 30)],
      ls_owners := [(''c'', 7)]\<rparr>)) 7 = Some (''c'', 30)" by simp
  from lease_excludes_second_call [OF strict_px.px_clock_axioms this, of 20 "''d''" 10000 5]
  show ?thesis by simp
qed

text \<open>The redial cool-down set when an end commits blocks the user until exactly three seconds after
  the recorded end, however late within those seconds it is set and however the cache reads a key at
  its expiry instant.\<close>

theorem cooldown_ends_three_seconds_after_end:
  assumes "px_clock alive" "map_of (ls_cooldown s) u = None" "ended \<le> now" "now < ended + 3000"
  shows "check_new_dial alive t u (snd (COOLDOWN alive now u c ended s)) \<longleftrightarrow> t < ended + 3000"
  using assms by (rule px_clock.cooldown_window)

theorem cooldown_ends_three_seconds_after_end_witness:
  "check_new_dial late_expiry 3999 7 (snd (COOLDOWN late_expiry 2500 7 ''c'' 1000 empty_store))
   \<and> \<not> check_new_dial late_expiry 4000 7 (snd (COOLDOWN late_expiry 2500 7 ''c'' 1000 empty_store))"
  using cooldown_ends_three_seconds_after_end [OF late_px.px_clock_axioms, of empty_store 7 1000 2500 _ "''c''"]
  by (simp add: empty_store_def)

end
