(* ===== verification/Ticket.thy ===== *)
theory Ticket
  imports Lease CallState "HOL-Library.Word"
begin

text \<open>
  The purpose-separated tickets of \<open>realtime_voice_ticket_service.py\<close> and their consumption.

  The base64 of the standard library is modelled as it is: \<open>urlsafe_b64encode\<close>, and the decoder of \<open>binascii\<close> with
  its tolerance (characters outside the alphabet are skipped, padding ends the text). \<open>ticket_env\<close> holds what is not
  this code: the JSON text of a value and its reader (\<open>None\<close>: the bytes are no JSON text), HMAC-SHA256 of an ASCII text under a
  key, and the hexadecimal SHA-256 of a device id. The clock enters as \<open>int(now.timestamp() * 1000)\<close>.
\<close>

section \<open>base64\<close>

text \<open>The character of a sextet, \<open>A-Z a-z 0-9 - _\<close>.\<close>

definition b64_char :: "nat \<Rightarrow> nat" where
  "b64_char n = (if n < 26 then 65 + n else if n < 52 then 71 + n else if n < 62 then n - 4 else if n = 62 then 45 else 95)"

text \<open>\<open>base64.urlsafe_b64encode\<close>\<close>

fun b64encode :: "8 word list \<Rightarrow> pystr" where
  "b64encode [] = []"
| "b64encode [a] = [b64_char (unat a div 4), b64_char (unat a mod 4 * 16), 61, 61]"
| "b64encode [a, b] = [b64_char (unat a div 4), b64_char (unat a mod 4 * 16 + unat b div 16), b64_char (unat b mod 16 * 4), 61]"
| "b64encode (a # b # c # rest) =
     [b64_char (unat a div 4), b64_char (unat a mod 4 * 16 + unat b div 16), b64_char (unat b mod 16 * 4 + unat c div 64),
      b64_char (unat c mod 64)] @ b64encode rest"

text \<open>\<open>_b64\<close>: without the padding.\<close>

definition b64 :: "8 word list \<Rightarrow> pystr" where
  "b64 raw = rev (dropWhile (\<lambda>c. c = 61) (rev (b64encode raw)))"

text \<open>The sextet of a character after \<open>-_\<close> is translated to \<open>+/\<close>.\<close>

definition sextet :: "nat \<Rightarrow> nat option" where
  "sextet c =
     (if 65 \<le> c \<and> c \<le> 90 then Some (c - 65) else if 97 \<le> c \<and> c \<le> 122 then Some (c - 71)
      else if 48 \<le> c \<and> c \<le> 57 then Some (c + 4) else if c = 43 \<or> c = 45 then Some 62
      else if c = 47 \<or> c = 95 then Some 63 else None)"

text \<open>\<open>binascii.a2b_base64\<close> without its strict mode: the position in the quartet, the bits left over, the padding seen.\<close>

fun a2b :: "nat \<Rightarrow> nat \<Rightarrow> nat \<Rightarrow> pystr \<Rightarrow> 8 word list option" where
  "a2b quad left pads [] = (if quad = 0 then Some [] else None)"
| "a2b quad left pads (c # cs) =
     (if c = 61 then
        (if quad \<ge> 2 then if quad + (pads + 1) \<ge> 4 then Some [] else a2b quad left (pads + 1) cs else a2b quad left pads cs)
      else case sextet c of
        None \<Rightarrow> a2b quad left pads cs
      | Some v \<Rightarrow>
          if quad = 0 then a2b 1 v 0 cs
          else if quad = 1 then map_option (Cons (word_of_nat (left * 4 + v div 16))) (a2b 2 (v mod 16) 0 cs)
          else if quad = 2 then map_option (Cons (word_of_nat (left * 16 + v div 4))) (a2b 3 (v mod 4) 0 cs)
          else map_option (Cons (word_of_nat (left * 64 + v))) (a2b 0 0 0 cs))"

text \<open>\<open>base64.urlsafe_b64decode(body + '=' * (-len(body) % 4))\<close>; a text that is not ASCII is refused.\<close>

definition b64decode :: "pystr \<Rightarrow> 8 word list option" where
  "b64decode body =
     (if list_ex (\<lambda>c. 128 \<le> c) body then None
      else a2b 0 0 0 (body @ replicate (nat ((- int (length body)) mod 4)) 61))"

section \<open>Tickets\<close>

record ticket_env =
  tk_dumps :: "json \<Rightarrow> 8 word list"
  tk_loads :: "8 word list \<Rightarrow> json option"
  tk_mac :: "8 word list \<Rightarrow> pystr \<Rightarrow> 8 word list"
  tk_digest :: "string \<Rightarrow> string"

record ticket_codec =
  tc_secret :: "8 word list"
  tc_purpose :: string

definition new_codec :: "8 word list \<Rightarrow> string \<Rightarrow> ticket_codec res" where
  "new_codec secret purpose =
     (if length secret < 32 then Inl (TicketError ''ticket_signing_key_unavailable'')
      else if purpose \<noteq> ''voice_call_v1'' \<and> purpose \<noteq> ''voice_reconnect_v1'' then Inl (TicketError ''ticket_purpose_invalid'')
      else Inr \<lparr>tc_secret = secret, tc_purpose = purpose\<rparr>)"

record payload =
  pl_purpose :: string
  pl_user_id :: int
  pl_call_id :: string
  pl_jti :: string
  pl_device :: string
  pl_expires_ms :: int

text \<open>The dictionary that is signed, its keys sorted.\<close>

definition payload_json :: "payload \<Rightarrow> json" where
  "payload_json p = JObj [(''call_id'', JStr (asc (pl_call_id p))), (''device'', JStr (asc (pl_device p))),
     (''expires_ms'', JInt (pl_expires_ms p)), (''jti'', JStr (asc (pl_jti p))), (''purpose'', JStr (asc (pl_purpose p))),
     (''user_id'', JInt (pl_user_id p))]"

definition issue_payload :: "ticket_env \<Rightarrow> ticket_codec \<Rightarrow> int \<Rightarrow> string \<Rightarrow> string \<Rightarrow> string \<Rightarrow> int \<Rightarrow> payload" where
  "issue_payload env codec user_id call_id jti device_id expires_ms =
     \<lparr>pl_purpose = tc_purpose codec, pl_user_id = user_id, pl_call_id = call_id, pl_jti = jti,
      pl_device = tk_digest env device_id, pl_expires_ms = expires_ms\<rparr>"

definition signed :: "ticket_env \<Rightarrow> ticket_codec \<Rightarrow> pystr \<Rightarrow> pystr" where
  "signed env codec body = b64 (tk_mac env (tc_secret codec) body)"

definition issue_ticket :: "ticket_env \<Rightarrow> ticket_codec \<Rightarrow> int \<Rightarrow> string \<Rightarrow> string \<Rightarrow> string \<Rightarrow> int \<Rightarrow> pystr" where
  "issue_ticket env codec user_id call_id jti device_id expires_ms =
     (let body = b64 (tk_dumps env (payload_json (issue_payload env codec user_id call_id jti device_id expires_ms))) in
      body @ [46] @ signed env codec body)"

definition ticket_keys :: "string set" where
  "ticket_keys = {''purpose'', ''user_id'', ''call_id'', ''jti'', ''device'', ''expires_ms''}"

text \<open>\<open>body, signature = ticket.split('.')\<close>: exactly one point.\<close>

definition two_parts :: "pystr \<Rightarrow> (pystr \<times> pystr) option" where
  "two_parts t =
     (case dropWhile (\<lambda>c. c \<noteq> 46) t of [] \<Rightarrow> None
      | _ # rest \<Rightarrow> if 46 \<in> set rest then None else Some (takeWhile (\<lambda>c. c \<noteq> 46) t, rest))"

definition ticket_refused :: exn where
  "ticket_refused = TicketError ''ticket_invalid_or_expired''"

text \<open>The dictionary read from a body whose signature is right; a value that is no dictionary fails on its keys or on the
  first subscript.\<close>

definition check_payload :: "ticket_env \<Rightarrow> ticket_codec \<Rightarrow> string \<Rightarrow> string \<Rightarrow> int \<Rightarrow> json \<Rightarrow> bool" where
  "check_payload env codec call_id device_id now_ms v \<longleftrightarrow>
     is_obj v \<and> set (jkeys v) = ticket_keys \<and> jget v ''purpose'' = JStr (asc (tc_purpose codec)) \<and>
     jget v ''call_id'' = JStr (asc call_id) \<and> jget v ''device'' = JStr (asc (tk_digest env device_id)) \<and>
     (case jget v ''expires_ms'' of JInt n \<Rightarrow> now_ms < n | _ \<Rightarrow> False)"

text \<open>\<open>aware\<close>: \<open>now\<close> has a time zone.\<close>

definition verify_ticket :: "ticket_env \<Rightarrow> ticket_codec \<Rightarrow> json \<Rightarrow> string \<Rightarrow> string \<Rightarrow> bool \<Rightarrow> int \<Rightarrow> json res" where
  "verify_ticket env codec ticket call_id device_id aware now_ms =
     (case ticket of
        JStr t \<Rightarrow>
          if length t > 2048 \<or> \<not> aware then Inl ticket_refused
          else (case two_parts t of None \<Rightarrow> Inl ticket_refused
            | Some (body, signature) \<Rightarrow>
                if signature \<noteq> signed env codec body then Inl ticket_refused
                else (case Option.bind (b64decode body) (tk_loads env) of None \<Rightarrow> Inl ticket_refused
                  | Some v \<Rightarrow> if check_payload env codec call_id device_id now_ms v then Inr v else Inl ticket_refused))
      | _ \<Rightarrow> Inl ticket_refused)"

section \<open>Consumption\<close>

definition get_create_record :: "string \<Rightarrow> int \<Rightarrow> database \<Rightarrow> idempotency_row option" where
  "get_create_record cid u db = find (\<lambda>r. im_call_id r = Some cid \<and> im_user_id r = u) (db_idempotency db)"

definition put_create_record :: "idempotency_row \<Rightarrow> database \<Rightarrow> database" where
  "put_create_record r db =
     db\<lparr>db_idempotency := row_put (\<lambda>x. (im_user_id x, im_idempotency_key x)) r (db_idempotency db)\<rparr>"

text \<open>
  \<open>consume_voice_ticket\<close> after \<open>verify\<close> with the payload \<open>p\<close>: \<open>banned\<close> is the user's flag in SQL or in the cache,
  \<open>owner\<close> the reply of \<open>leases.owner_matches\<close>. An exception rolls the transaction back.
\<close>

definition consume_ticket ::
  "bool \<Rightarrow> bool \<Rightarrow> payload \<Rightarrow> string \<Rightarrow> datetime \<Rightarrow> database \<Rightarrow> (voice_call \<times> database) res" where
  "consume_ticket banned owner p call_id now db =
     (if pl_user_id p \<notin> set (db_users db) \<or> banned then Inl (TicketError ''ticket_user_unavailable'')
      else (case (get_create_record call_id (pl_user_id p) db, get_call call_id db) of
        (Some rec, Some call) \<Rightarrow>
          if vc_user_id call \<noteq> pl_user_id p \<or> im_ticket_jti rec \<noteq> Some (pl_jti p)
             \<or> im_ticket_consumed_at rec \<noteq> None
             \<or> (case im_ticket_expires_at rec of None \<Rightarrow> True | Some e \<Rightarrow> e \<le> now)
             \<or> vc_status call \<notin> {Deciding, Ringing}
          then Inl (TicketError ''ticket_not_consumable'')
          else if \<not> owner then Inl (TicketError ''ticket_lease_expired'')
          else Inr (call, commit_flush (put_create_record (rec\<lparr>im_ticket_consumed_at := Some now\<rparr>) db))
      | _ \<Rightarrow> Inl (TicketError ''ticket_not_consumable'')))"

section \<open>Facts\<close>

lemma b64_char:
  assumes "n < 64"
  shows "sextet (b64_char n) = Some n" "b64_char n \<noteq> 61" "b64_char n \<noteq> 46" "b64_char n < 128"
  using assms by (auto simp: sextet_def b64_char_def)

lemma octet_less: "unat (a :: 8 word) < 256"
  using unsigned_less [of a] by simp

lemma sextets:
  fixes a b c :: "8 word"
  shows "unat a div 4 < 64" "unat a mod 4 * 16 < 64" "unat a mod 4 * 16 + unat b div 16 < 64" "unat b mod 16 * 4 < 64"
    "unat b mod 16 * 4 + unat c div 64 < 64" "unat c mod 64 < 64"
  using octet_less [of a] octet_less [of b] octet_less [of c] by linarith+

text \<open>The decoder undoes the encoder.\<close>

lemma sextets_join:
  fixes x y z :: nat
  assumes "y < 256" "z < 256"
  shows "x div 4 * 4 + (x mod 4 * 16 + y div 16) div 16 = x" "x div 4 * 4 + (x mod 4 * 16) div 16 = x"
    "(x mod 4 * 16 + y div 16) mod 16 * 16 + (y mod 16 * 4 + z div 64) div 4 = y"
    "(x mod 4 * 16 + y div 16) mod 16 * 16 + (y mod 16 * 4) div 4 = y"
    "(y mod 16 * 4 + z div 64) mod 4 * 64 + z mod 64 = z"
proof -
  have y: "y div 16 < 16" and z: "z div 64 < 4" using assms by linarith+
  have "(x mod 4 * 16 + y div 16) div 16 = x mod 4" using y by (simp add: div_mult_self3)
  then show "x div 4 * 4 + (x mod 4 * 16 + y div 16) div 16 = x" by simp
  show "x div 4 * 4 + (x mod 4 * 16) div 16 = x" by simp
  have m: "(x mod 4 * 16 + y div 16) mod 16 = y div 16" using y by (metis add.commute mod_less mod_mult_self1)
  have d: "(y mod 16 * 4 + z div 64) div 4 = y mod 16" using z by (simp add: div_mult_self3)
  show "(x mod 4 * 16 + y div 16) mod 16 * 16 + (y mod 16 * 4 + z div 64) div 4 = y" unfolding m d by simp
  show "(x mod 4 * 16 + y div 16) mod 16 * 16 + (y mod 16 * 4) div 4 = y" unfolding m by simp
  have "(y mod 16 * 4 + z div 64) mod 4 = z div 64" using z by (metis add.commute mod_less mod_mult_self1)
  then show "(y mod 16 * 4 + z div 64) mod 4 * 64 + z mod 64 = z" by simp
qed

lemma a2b_quartet:
  assumes "s1 < 64" "s2 < 64" "s3 < 64" "s4 < 64"
  shows "a2b 0 0 0 ([b64_char s1, b64_char s2, b64_char s3, b64_char s4] @ cs) =
      map_option ((@) [word_of_nat (s1 * 4 + s2 div 16), word_of_nat (s2 mod 16 * 16 + s3 div 4), word_of_nat (s3 mod 4 * 64 + s4)]) (a2b 0 0 0 cs)"
    "a2b 0 0 0 [b64_char s1, b64_char s2, b64_char s3, 61] = Some [word_of_nat (s1 * 4 + s2 div 16), word_of_nat (s2 mod 16 * 16 + s3 div 4)]"
    "a2b 0 0 0 [b64_char s1, b64_char s2, 61, 61] = Some [word_of_nat (s1 * 4 + s2 div 16)]"
  using assms by (cases "a2b 0 0 0 cs"; simp add: b64_char)+

lemma a2b_encode: "a2b 0 0 0 (b64encode raw) = Some raw"
proof (induction raw rule: b64encode.induct)
  case (4 a b c rest)
  note J = sextets_join [OF octet_less [of b] octet_less [of c]]
  have e: "b64encode (a # b # c # rest) = [b64_char (unat a div 4), b64_char (unat a mod 4 * 16 + unat b div 16),
      b64_char (unat b mod 16 * 4 + unat c div 64), b64_char (unat c mod 64)] @ b64encode rest" by (rule b64encode.simps)
  show ?case
    unfolding e a2b_quartet(1) [OF sextets(1) sextets(3) sextets(5) sextets(6)] J 4 of_nat_unat by simp
next
  case (3 a b)
  note J = sextets_join [OF octet_less [of b] octet_less [of b]]
  show ?case unfolding b64encode.simps a2b_quartet(2) [OF sextets(1) sextets(3) sextets(4) sextets(4)] J of_nat_unat by simp
next
  case (2 a)
  note J = sextets_join [OF octet_less [of a] octet_less [of a]]
  show ?case unfolding b64encode.simps a2b_quartet(3) [OF sextets(1) sextets(2) sextets(2) sextets(2)] J of_nat_unat by simp
qed simp

lemma b64_step: "raw \<noteq> [] \<Longrightarrow> dropWhile (\<lambda>c. c = 61) (rev (b64encode raw)) \<noteq> []"
proof (induction raw rule: b64encode.induct)
  case (4 a b c rest)
  then show ?case by (cases "rest = []") (simp_all add: dropWhile_append b64_char sextets)
qed (simp_all add: b64_char sextets)

lemma b64_simps:
  "b64 [] = []" "b64 [a] = [b64_char (unat a div 4), b64_char (unat a mod 4 * 16)]"
  "b64 [a, b] = [b64_char (unat a div 4), b64_char (unat a mod 4 * 16 + unat b div 16), b64_char (unat b mod 16 * 4)]"
  "b64 (a # b # c # rest) =
     [b64_char (unat a div 4), b64_char (unat a mod 4 * 16 + unat b div 16), b64_char (unat b mod 16 * 4 + unat c div 64),
      b64_char (unat c mod 64)] @ b64 rest"
  using b64_step [of rest] by (cases "rest = []"; simp add: b64_def dropWhile_append b64_char sextets)+

text \<open>The padding put back is the padding taken off.\<close>

lemma b64_repadded: "b64 raw @ replicate (nat ((- int (length (b64 raw))) mod 4)) 61 = b64encode raw"
proof (induction raw rule: b64encode.induct)
  case (4 a b c rest)
  have "(- int (length (b64 (a # b # c # rest)))) mod 4 = (- int (length (b64 rest))) mod 4"
    by (simp add: b64_simps) presburger
  with 4 show ?case by (simp add: b64_simps)
next
  case (3 a b)
  have "nat ((- int (length (b64 [a, b]))) mod 4) = Suc 0" by (simp add: b64_simps)
  then show ?case by (simp add: b64_simps(3))
next
  case (2 a)
  have "nat ((- int (length (b64 [a]))) mod 4) = Suc (Suc 0)" by (simp add: b64_simps)
  then show ?case by (simp add: b64_simps(2) numeral_2_eq_2)
qed (simp add: b64_simps)

lemma b64_chars: "c \<in> set (b64 raw) \<Longrightarrow> c < 128 \<and> c \<noteq> 46"
  by (induction raw rule: b64encode.induct) (auto simp: b64_simps b64_char sextets)

lemma b64_decode: "b64decode (b64 raw) = Some raw"
proof -
  have "\<not> list_ex (\<lambda>c. 128 \<le> c) (b64 raw)" using b64_chars [of _ raw] unfolding list_ex_iff by (meson not_le)
  then show ?thesis by (simp add: b64decode_def b64_repadded a2b_encode)
qed

lemma two_parts_signed:
  assumes "46 \<notin> set body" "46 \<notin> set sig"
  shows "two_parts (body @ 46 # sig) = Some (body, sig)"
proof -
  have "dropWhile (\<lambda>c. c \<noteq> 46) (body @ 46 # sig) = 46 # sig" "takeWhile (\<lambda>c. c \<noteq> 46) (body @ 46 # sig) = body"
    using assms(1) by (auto simp: dropWhile_append takeWhile_append)
  then show ?thesis using assms(2) by (simp add: two_parts_def)
qed

lemma two_parts_Some:
  assumes "two_parts t = Some (body, sig)"
  shows "t = body @ [46] @ sig"
proof -
  obtain c rest where d: "dropWhile (\<lambda>c. c \<noteq> 46) t = c # rest" "body = takeWhile (\<lambda>c. c \<noteq> 46) t" "sig = rest"
    using assms by (auto simp: two_parts_def split: list.splits if_splits)
  have "c = 46" using hd_dropWhile [of "\<lambda>c. c \<noteq> 46" t] d(1) by simp
  then show ?thesis using takeWhile_dropWhile_id [of "\<lambda>c. c \<noteq> 46" t] d by simp
qed

lemma check_issued:
  "check_payload env codec c2 d2 now (payload_json p) \<longleftrightarrow> pl_purpose p = tc_purpose codec \<and> pl_call_id p = c2 \<and>
     pl_device p = tk_digest env d2 \<and> now < pl_expires_ms p"
  by (auto simp: check_payload_def payload_json_def jget_def jkeys_def ticket_keys_def)

lemma issued_verifies_h:
  assumes "tk_loads env (tk_dumps env (payload_json (issue_payload env codec u c j d x))) = Some (payload_json (issue_payload env codec u c j d x))"
    "tc_secret codec2 = tc_secret codec"
  shows "verify_ticket env codec2 (JStr (issue_ticket env codec u c j d x)) c2 d2 aware now =
    (if length (issue_ticket env codec u c j d x) \<le> 2048 \<and> aware \<and> tc_purpose codec = tc_purpose codec2 \<and> c = c2 \<and>
        tk_digest env d = tk_digest env d2 \<and> now < x
     then Inr (payload_json (issue_payload env codec u c j d x)) else Inl ticket_refused)"
proof -
  define body where "body = b64 (tk_dumps env (payload_json (issue_payload env codec u c j d x)))"
  have t: "issue_ticket env codec u c j d x = body @ 46 # signed env codec body" by (simp add: issue_ticket_def body_def Let_def)
  have p: "two_parts (body @ 46 # signed env codec body) = Some (body, signed env codec body)"
    using b64_chars by (intro two_parts_signed) (auto simp: body_def signed_def)
  have s: "signed env codec2 body = signed env codec body" by (simp add: signed_def assms(2))
  have v: "Option.bind (b64decode body) (tk_loads env) = Some (payload_json (issue_payload env codec u c j d x))"
    using assms(1) by (simp add: body_def b64_decode)
  show ?thesis
    unfolding t verify_ticket_def using p s v
    by (auto simp: check_issued issue_payload_def)
qed

text \<open>Nothing passes without the signature of its own body, nor past the checks.\<close>

lemma accepted_signed:
  assumes "verify_ticket env codec ticket c d aware now = Inr v"
  shows "\<exists>body raw n. ticket = JStr (body @ [46] @ signed env codec body) \<and> length (body @ [46] @ signed env codec body) \<le> 2048 \<and> aware \<and>
    b64decode body = Some raw \<and> tk_loads env raw = Some v \<and> set (jkeys v) = ticket_keys \<and>
    jget v ''purpose'' = JStr (asc (tc_purpose codec)) \<and> jget v ''call_id'' = JStr (asc c) \<and>
    jget v ''device'' = JStr (asc (tk_digest env d)) \<and> jget v ''expires_ms'' = JInt n \<and> now < n"
proof -
  from assms obtain t body sig where t: "ticket = JStr t" "length t \<le> 2048" "aware" "two_parts t = Some (body, sig)"
    "sig = signed env codec body" "Option.bind (b64decode body) (tk_loads env) = Some v" "check_payload env codec c d now v"
    by (auto simp: verify_ticket_def split: json.splits option.splits if_splits)
  from t(6) obtain raw where "b64decode body = Some raw" "tk_loads env raw = Some v" by (cases "b64decode body") simp_all
  moreover from t(7) obtain n where "jget v ''expires_ms'' = JInt n" "now < n"
    by (auto simp: check_payload_def split: json.splits)
  ultimately show ?thesis
    using t(1-3,5,7) two_parts_Some [OF t(4)] by (auto simp: check_payload_def)
qed

definition create_records_unique :: "database \<Rightarrow> bool" where
  "create_records_unique db \<longleftrightarrow>
     distinct (map (\<lambda>x. (im_user_id x, im_idempotency_key x)) (db_idempotency db)) \<and>
     (\<forall>x \<in> set (db_idempotency db). \<forall>y \<in> set (db_idempotency db).
        im_call_id x \<noteq> None \<and> im_call_id x = im_call_id y \<longrightarrow> x = y)"

lemma find_row_put:
  assumes "find P rows = Some r" "key r' = key r" "P r'"
    "\<forall>x \<in> set rows. key x = key r \<longrightarrow> x = r"
  shows "find P (row_put key r' rows) = Some r'"
  using assms by (induction rows) (auto simp: row_put_def split: if_splits)

lemma consume_twice_h:
  assumes u: "create_records_unique db" and ok: "consume_ticket banned owner p cid now db = Inr (call, db')"
  shows "consume_ticket b2 o2 p2 cid now2 db' = Inl (TicketError ''ticket_user_unavailable'') \<or>
    consume_ticket b2 o2 p2 cid now2 db' = Inl (TicketError ''ticket_not_consumable'')"
proof -
  let ?key = "\<lambda>x. (im_user_id x, im_idempotency_key x)"
  from ok obtain rec where r: "get_create_record cid (pl_user_id p) db = Some rec" "get_call cid db = Some call"
    "vc_user_id call = pl_user_id p" and db': "db' = commit_flush (put_create_record (rec\<lparr>im_ticket_consumed_at := Some now\<rparr>) db)"
    by (auto simp: consume_ticket_def split: if_splits option.splits)
  have c': "get_call cid db' = Some call"
    using r(2) by (simp add: db' put_create_record_def get_call_def)
  from r(1) have rec: "rec \<in> set (db_idempotency db)" "im_call_id rec = Some cid" "im_user_id rec = pl_user_id p"
    unfolding get_create_record_def by (auto dest: find_Some_mem)
  have "get_create_record cid (pl_user_id p) db' = Some (rec\<lparr>im_ticket_consumed_at := Some now\<rparr>)"
    unfolding get_create_record_def db' commit_flush_def put_create_record_def
    using r(1) rec u
    by (auto simp: get_create_record_def create_records_unique_def inj_on_def distinct_map
        intro!: find_row_put [where r = rec])
  then show ?thesis
    using c' r(3) by (auto simp: consume_ticket_def split: option.splits)
qed

section \<open>Properties\<close>

text \<open>C28: Under one signing key an issued ticket is accepted exactly when it is at most 2048 characters long, the
  clock has a time zone and has not reached the expiry, and purpose, call and device (by digest) are its own; then
  exactly the signed dictionary comes back, and in every other case the one refusal. Conversely whatever is accepted,
  from whatever value, is a text of at most 2048 characters that carries the signature of its own body under the key,
  and its body is the base64 of a dictionary with exactly the six keys, with the purpose, call and device asked for
  and an integer expiry after now. The base64 text, its padding that is taken off and put back and the split at the
  point are the code's; that \<open>json.loads\<close> reads back what \<open>json.dumps\<close> wrote for the issued dictionary is assumed.\<close>

theorem ticket_roundtrip:
  assumes "tk_loads env (tk_dumps env (payload_json (issue_payload env codec u c j d x))) = Some (payload_json (issue_payload env codec u c j d x))"
    "tc_secret codec2 = tc_secret codec"
  shows "verify_ticket env codec2 (JStr (issue_ticket env codec u c j d x)) c2 d2 aware now =
    (if length (issue_ticket env codec u c j d x) \<le> 2048 \<and> aware \<and> tc_purpose codec = tc_purpose codec2 \<and> c = c2 \<and>
        tk_digest env d = tk_digest env d2 \<and> now < x
     then Inr (payload_json (issue_payload env codec u c j d x)) else Inl (TicketError ''ticket_invalid_or_expired'')) \<and>
    (\<forall>ticket v. verify_ticket env codec2 ticket c2 d2 aware now = Inr v \<longrightarrow> (\<exists>body raw n.
      ticket = JStr (body @ [46] @ signed env codec2 body) \<and> length (body @ [46] @ signed env codec2 body) \<le> 2048 \<and> aware \<and>
      b64decode body = Some raw \<and> tk_loads env raw = Some v \<and> set (jkeys v) = ticket_keys \<and>
      jget v ''purpose'' = JStr (asc (tc_purpose codec2)) \<and> jget v ''call_id'' = JStr (asc c2) \<and>
      jget v ''device'' = JStr (asc (tk_digest env d2)) \<and> jget v ''expires_ms'' = JInt n \<and> now < n))"
  using issued_verifies_h [OF assms] accepted_signed unfolding ticket_refused_def by blast

definition sample_ticket_env :: "payload \<Rightarrow> ticket_env" where
  "sample_ticket_env p = \<lparr>tk_dumps = (\<lambda>_. [123, 125]), tk_loads = (\<lambda>b. if b = [123, 125] then Some (payload_json p) else None),
     tk_mac = (\<lambda>key body. [of_nat (length body), 255]), tk_digest = rev\<rparr>"

definition sample_codec :: ticket_codec where
  "sample_codec = \<lparr>tc_secret = replicate 32 7, tc_purpose = ''voice_call_v1''\<rparr>"

definition sample_payload :: payload where
  "sample_payload = \<lparr>pl_purpose = ''voice_call_v1'', pl_user_id = 7, pl_call_id = ''c'', pl_jti = ''j'', pl_device = rev ''dev'', pl_expires_ms = 100\<rparr>"

theorem ticket_roundtrip_witness:
  "verify_ticket (sample_ticket_env sample_payload) sample_codec
     (JStr (issue_ticket (sample_ticket_env sample_payload) sample_codec 7 ''c'' ''j'' ''dev'' 100)) ''c'' ''dev'' True 99 = Inr (payload_json sample_payload) \<and>
   verify_ticket (sample_ticket_env sample_payload) sample_codec
     (JStr (issue_ticket (sample_ticket_env sample_payload) sample_codec 7 ''c'' ''j'' ''dev'' 100)) ''c'' ''dev'' True 100 =
     Inl (TicketError ''ticket_invalid_or_expired'')"
proof -
  have p: "issue_payload (sample_ticket_env sample_payload) sample_codec 7 ''c'' ''j'' ''dev'' 100 = sample_payload"
    by (simp add: issue_payload_def sample_codec_def sample_ticket_env_def sample_payload_def)
  have l: "tk_loads (sample_ticket_env sample_payload) (tk_dumps (sample_ticket_env sample_payload) (payload_json sample_payload)) = Some (payload_json sample_payload)"
    by (simp add: sample_ticket_env_def)
  have n: "length (issue_ticket (sample_ticket_env sample_payload) sample_codec 7 ''c'' ''j'' ''dev'' 100) = 7"
    by (simp add: issue_ticket_def Let_def signed_def sample_ticket_env_def b64_simps)
  note R = ticket_roundtrip [where env = "sample_ticket_env sample_payload" and codec = sample_codec and u = 7 and c = "''c''" and j = "''j''" and
      d = "''dev''" and x = 100, unfolded p, OF l refl, unfolded n]
  show ?thesis using R by simp
qed

text \<open>A call ticket is consumed at most once: after a successful consumption every later attempt on
  that call fails, whatever ticket, device or instant it comes with.\<close>

theorem ticket_single_use:
  assumes "create_records_unique db" "consume_ticket banned owner p cid now db = Inr (call, db')"
  shows "consume_ticket b2 o2 p2 cid now2 db' = Inl (TicketError ''ticket_user_unavailable'') \<or>
    consume_ticket b2 o2 p2 cid now2 db' = Inl (TicketError ''ticket_not_consumable'')"
  using assms by (rule consume_twice_h)

definition ticket_db :: database where
  "ticket_db = empty_db\<lparr>db_users := [7], db_calls := [blank_call 1 ''c'' 7 Ringing],
     db_idempotency := [\<lparr>im_id = 1, im_user_id = 7, im_idempotency_key = ''k'', im_request_payload_sha256 = ''h'',
       im_call_id = Some ''c'', im_ticket_jti = Some ''j'', im_ticket_expires_at = Some 100,
       im_ticket_consumed_at = None, im_replay_expires_at = 900\<rparr>]\<rparr>"

definition ticket_payload :: payload where
  "ticket_payload = \<lparr>pl_purpose = ''voice_call_v1'', pl_user_id = 7, pl_call_id = ''c'', pl_jti = ''j'',
     pl_device = ''d'', pl_expires_ms = 100\<rparr>"

theorem ticket_single_use_witness:
  "\<exists>db'. consume_ticket False True ticket_payload ''c'' 50 ticket_db = Inr (blank_call 1 ''c'' 7 Ringing, db') \<and>
     (consume_ticket False True ticket_payload ''c'' 51 db' = Inl (TicketError ''ticket_user_unavailable'') \<or>
      consume_ticket False True ticket_payload ''c'' 51 db' = Inl (TicketError ''ticket_not_consumable''))"
proof -
  have u: "create_records_unique ticket_db" by (simp add: create_records_unique_def ticket_db_def)
  obtain db' where c: "consume_ticket False True ticket_payload ''c'' 50 ticket_db = Inr (blank_call 1 ''c'' 7 Ringing, db')"
    by (simp add: consume_ticket_def ticket_db_def ticket_payload_def get_create_record_def get_call_def row_find_def)
  from ticket_single_use [OF u c, of False True ticket_payload 51] c show ?thesis by blast
qed

end
