(* ===== verification/Reconnect.thy ===== *)
theory Reconnect
  imports Ticket
begin

text \<open>
  The bounded reconnect window of \<open>realtime_voice_reconnect_service.py\<close>. The coordinator's fields
  and its owner's \<open>stopped\<close> flag are one record; each method is an atomic step (they run under the
  coordinator's lock). \<open>now\<close> is the monotonic clock. The window's observations (metrics) and the
  owner's callbacks (\<open>disconnected\<close>, \<open>rebuild\<close>, \<open>restored\<close>, \<open>failed\<close>) are not part of the state.
\<close>

record coordinator =
  rc_user :: int
  rc_call :: string
  rc_device :: string
  rc_timeout_ms :: int
  rc_stopped :: bool
  rc_active :: bool
  rc_need_socket :: bool
  rc_socket :: "string option"
  rc_ready :: bool
  rc_deadline :: "clock option"
  rc_jti :: "string option"

definition before_deadline :: "clock \<Rightarrow> coordinator \<Rightarrow> bool" where
  "before_deadline now c = (case rc_deadline c of None \<Rightarrow> False | Some d \<Rightarrow> now < d)"

definition rc_begin :: "clock \<Rightarrow> bool \<Rightarrow> coordinator \<Rightarrow> coordinator" where
  "rc_begin now client_lost c =
     (if rc_stopped c then c
      else if rc_active c
      then (if client_lost then c\<lparr>rc_need_socket := True, rc_socket := None, rc_ready := False\<rparr> else c)
      else c\<lparr>rc_active := True, rc_need_socket := client_lost, rc_socket := None, rc_jti := None,
             rc_ready := False, rc_deadline := Some (now + of_int (rc_timeout_ms c) / 1000)\<rparr>)"

text \<open>\<open>issue\<close>: the new identifier replaces the previous one; the ticket's expiry is the deadline.\<close>

definition rc_issue :: "clock \<Rightarrow> int \<Rightarrow> string \<Rightarrow> string \<Rightarrow> coordinator \<Rightarrow> coordinator res" where
  "rc_issue now user_id device_id jti c =
     (if rc_stopped c \<or> \<not> rc_active c \<or> \<not> rc_need_socket c \<or> \<not> before_deadline now c
         \<or> user_id \<noteq> rc_user c \<or> device_id \<noteq> rc_device c
      then Inl (TicketError ''reconnect_not_available'')
      else Inr (c\<lparr>rc_jti := Some jti\<rparr>))"

definition rc_attach :: "clock \<Rightarrow> string \<Rightarrow> payload \<Rightarrow> string \<Rightarrow> coordinator \<Rightarrow> coordinator res" where
  "rc_attach now sock p device_id c =
     (if rc_stopped c \<or> \<not> rc_active c \<or> \<not> rc_need_socket c \<or> \<not> before_deadline now c
         \<or> rc_jti c = None \<or> rc_jti c \<noteq> Some (pl_jti p) \<or> pl_user_id p \<noteq> rc_user c
         \<or> device_id \<noteq> rc_device c
      then Inl (TicketError ''reconnect_ticket_not_consumable'')
      else Inr (c\<lparr>rc_jti := None, rc_socket := Some sock, rc_need_socket := False, rc_ready := True\<rparr>))"

datatype recovery = Restored | Still_waiting | Owner_stopped | Window_failed

text \<open>One pass of \<open>_recover\<close>'s loop after \<open>rebuild\<close>; past the deadline the timeout wins.\<close>

definition rc_recover :: "clock \<Rightarrow> coordinator \<Rightarrow> recovery \<times> coordinator" where
  "rc_recover now c =
     (if \<not> before_deadline now c then (Window_failed, c\<lparr>rc_active := False\<rparr>)
      else if rc_stopped c then (Owner_stopped, c)
      else if \<not> rc_need_socket c then (Restored, c\<lparr>rc_active := False\<rparr>)
      else (Still_waiting, c))"

definition rc_cancel :: "coordinator \<Rightarrow> coordinator" where
  "rc_cancel c = c\<lparr>rc_active := False, rc_jti := None, rc_ready := True\<rparr>"

section \<open>Runs\<close>

datatype rc_event =
    Begin bool
  | Issue int string string
  | Attach string payload string
  | Recover
  | Cancel

fun rc_apply :: "clock \<Rightarrow> rc_event \<Rightarrow> coordinator \<Rightarrow> coordinator" where
  "rc_apply now (Begin lost) c = rc_begin now lost c"
| "rc_apply now (Issue u d j) c = (case rc_issue now u d j c of Inl _ \<Rightarrow> c | Inr c' \<Rightarrow> c')"
| "rc_apply now (Attach k p d) c = (case rc_attach now k p d c of Inl _ \<Rightarrow> c | Inr c' \<Rightarrow> c')"
| "rc_apply now Recover c = snd (rc_recover now c)"
| "rc_apply now Cancel c = rc_cancel c"

fun rc_run :: "(clock \<times> rc_event) list \<Rightarrow> coordinator \<Rightarrow> coordinator" where
  "rc_run [] c = c"
| "rc_run ((t, e) # es) c = rc_run es (rc_apply t e c)"

fun attaches :: "string \<Rightarrow> (clock \<times> rc_event) list \<Rightarrow> coordinator \<Rightarrow> nat" where
  "attaches j [] c = 0"
| "attaches j ((t, e) # es) c =
     (case e of
        Attach k p d \<Rightarrow> (if pl_jti p = j \<and> (\<exists>c'. rc_attach t k p d c = Inr c') then 1 else 0)
      | _ \<Rightarrow> 0) + attaches j es (rc_apply t e c)"

text \<open>Only fresh identifiers are issued (\<open>uuid4\<close>).\<close>

fun issues :: "string \<Rightarrow> (clock \<times> rc_event) list \<Rightarrow> nat" where
  "issues j [] = 0"
| "issues j ((t, e) # es) = (case e of Issue _ _ i \<Rightarrow> if i = j then 1 else 0 | _ \<Rightarrow> 0) + issues j es"

lemma attach_needs:
  assumes "rc_attach now k p d c = Inr c'"
  shows "rc_jti c = Some (pl_jti p)" "rc_jti c' = None" "rc_active c" "\<not> rc_stopped c" "before_deadline now c"
    "rc_need_socket c" "rc_socket c' = Some k" "pl_user_id p = rc_user c" "d = rc_device c"
  using assms by (auto simp: rc_attach_def split: if_splits)

text \<open>Each identifier attaches a socket at most as often as it was issued, plus once if it is pending.\<close>

lemma attaches_bound:
  "attaches j es c \<le> issues j es + (if rc_jti c = Some j then 1 else 0)"
proof (induction es arbitrary: c)
  case (Cons te es)
  obtain t e where te: "te = (t, e)" by (cases te)
  show ?case
  proof (cases e)
    case (Begin b)
    have "rc_jti (rc_apply t e c) = Some j \<Longrightarrow> rc_jti c = Some j"
      by (simp add: Begin rc_begin_def split: if_splits)
    with Cons.IH [of "rc_apply t e c"] show ?thesis
      by (auto simp: te Begin split: if_splits)
  next
    case (Issue u d i)
    have "rc_jti (rc_apply t e c) = Some j \<Longrightarrow> rc_jti c = Some j \<or> i = j"
      by (auto simp: Issue rc_issue_def split: if_splits)
    with Cons.IH [of "rc_apply t e c"] show ?thesis
      by (auto simp: te Issue split: if_splits)
  next
    case (Attach k p d)
    show ?thesis
    proof (cases "rc_attach t k p d c")
      case (Inl x)
      with Cons.IH [of c] show ?thesis by (simp add: te Attach)
    next
      case (Inr c')
      with Cons.IH [of c'] attach_needs [OF Inr] show ?thesis by (auto simp: te Attach)
    qed
  next
    case Recover
    have "rc_jti (rc_apply t e c) = rc_jti c" by (simp add: Recover rc_recover_def)
    with Cons.IH [of "rc_apply t e c"] show ?thesis by (simp add: te Recover)
  next
    case Cancel
    with Cons.IH [of "rc_apply t e c"] show ?thesis by (auto simp: te Cancel rc_cancel_def)
  qed
qed simp

text \<open>A window is bounded: its deadline is fixed when it opens, and nothing inside it moves it.\<close>

lemma window_deadline_fixed:
  assumes "rc_active c" "rc_active (rc_apply now e c)"
  shows "rc_deadline (rc_apply now e c) = rc_deadline c"
  using assms
  by (cases e) (auto simp: rc_begin_def rc_issue_def rc_attach_def rc_recover_def rc_cancel_def
      split: sum.splits if_splits)

section \<open>Properties\<close>

text \<open>Over any sequence of coordinator events, a reconnect identifier attaches a socket at most as many
  times as it was issued (so at most once for a fresh identifier), starting from a coordinator that
  does not already have it pending.\<close>

theorem reconnect_ticket_single_use:
  "attaches j es c \<le> issues j es + (if rc_jti c = Some j then 1 else 0)"
  by (rule attaches_bound)

text \<open>Nothing that happens inside an open reconnect window extends it, and a recovery pass at or after
  the deadline closes it.\<close>

theorem reconnect_window_bounded:
  assumes "rc_active c" "rc_active (rc_apply now e c)"
  shows "rc_deadline (rc_apply now e c) = rc_deadline c \<and>
    (case rc_deadline c of None \<Rightarrow> True | Some dl \<Rightarrow> \<not> rc_active (rc_apply dl Recover (rc_apply now e c)))"
  using window_deadline_fixed [OF assms] by (auto simp: rc_recover_def before_deadline_def split: option.splits)

theorem reconnect_window_bounded_witness:
  "\<not> rc_active (rc_apply 5 Recover (rc_apply 2 (Begin True)
     \<lparr>rc_user = 7, rc_call = ''c'', rc_device = ''d'', rc_timeout_ms = 3000, rc_stopped = False, rc_active = True,
      rc_need_socket = False, rc_socket = None, rc_ready = False, rc_deadline = Some 5, rc_jti = None\<rparr>))"
  using reconnect_window_bounded [of "\<lparr>rc_user = 7, rc_call = ''c'', rc_device = ''d'', rc_timeout_ms = 3000,
      rc_stopped = False, rc_active = True, rc_need_socket = False, rc_socket = None, rc_ready = False,
      rc_deadline = Some 5, rc_jti = None\<rparr>" 2 "Begin True"]
  by (simp add: rc_begin_def)

end
