(* ===== verification/Playback.thy ===== *)
theory Playback
  imports Json CallModel "HOL-Library.Sublist"
begin

text \<open>
  Playback evidence (\<open>realtime_voice_playback_service.py\<close>): what the server sent for each reply, what
  the authenticated client reports it played, and the effective text that follows. Texts and the
  provider's identifiers are code-point lists; \<open>sid\<close> is the fresh sentence token of a
  \<open>sentence_started\<close> event, \<open>now\<close> the monotonic clock.

  A raising method still keeps the mutations made before the raise, so \<open>feed\<close> and \<open>client\<close> return the
  result and the object.
\<close>

section \<open>State\<close>

record effective_text =
  ef_text :: pystr
  ef_evidence :: evidence
  ef_played_ms :: "int option"
  ef_completed :: bool
  ef_interrupted :: bool

record sentence =
  sn_text :: pystr
  sn_start :: int
  sn_end :: "int option"
  sn_acked :: bool

record reply_state =
  rp_question :: pystr
  rp_text :: pystr
  rp_audio_bytes :: int
  rp_played_ms :: int
  rp_ack_floor_ms :: int
  rp_progress_seen :: bool
  rp_last_progress_at :: "clock option"
  rp_sentences :: "(pystr \<times> sentence) list"
  rp_current :: "pystr option"
  rp_text_finished :: bool
  rp_tts_finished :: bool
  rp_audio_completed :: bool
  rp_completed :: bool
  rp_interrupted :: bool

definition new_reply :: "pystr \<Rightarrow> reply_state" where
  "new_reply q = \<lparr>rp_question = q, rp_text = [], rp_audio_bytes = 0, rp_played_ms = 0,
     rp_ack_floor_ms = 0, rp_progress_seen = False, rp_last_progress_at = None, rp_sentences = [],
     rp_current = None, rp_text_finished = False, rp_tts_finished = False, rp_audio_completed = False,
     rp_completed = False, rp_interrupted = False\<rparr>"

record playback =
  pb_call_id :: string
  pb_replies :: "(pystr \<times> reply_state) list"
  pb_client_sequence :: int
  pb_provider_sequence :: "(string \<times> int) list"
  pb_observations :: "(string \<times> int) list"
  pb_evidence :: "((evidence \<times> bool) \<times> int) list"

datatype ev_payload = Text_payload pystr | Audio_payload nat | Dict_payload json | Other_payload

record provider_event =
  pe_call_id :: string
  pe_session_id :: string
  pe_sequence :: int
  pe_kind :: string
  pe_question_id :: "pystr option"
  pe_reply_id :: "pystr option"
  pe_payload :: ev_payload

section \<open>Observations\<close>

definition tally :: "'k \<Rightarrow> ('k \<times> int) list \<Rightarrow> ('k \<times> int) list" where
  "tally k d = AList.update k (min 1000000000 ((case map_of d k of None \<Rightarrow> 0 | Some n \<Rightarrow> n) + 1)) d"

definition pb_metric :: "string \<Rightarrow> playback \<Rightarrow> playback" where
  "pb_metric category st = st\<lparr>pb_observations := tally category (pb_observations st)\<rparr>"

section \<open>Provider events\<close>

definition seen :: "provider_event \<Rightarrow> playback \<Rightarrow> bool" where
  "seen e st \<longleftrightarrow>
     pe_sequence e \<le> (case map_of (pb_provider_sequence st) (pe_session_id e) of None \<Rightarrow> 0 | Some n \<Rightarrow> n)"

text \<open>The branches of one event kind on its reply: the sentence token it reports and the new reply.\<close>

definition feed_chat :: "ev_payload \<Rightarrow> reply_state \<Rightarrow> reply_state res" where
  "feed_chat pl r =
     (case pl of
        Text_payload t \<Rightarrow>
          if length (rp_text r) + length t > 131072 then Inl (ValueError ''playback_text_invalid'')
          else Inr (r\<lparr>rp_text := rp_text r @ t\<rparr>)
      | _ \<Rightarrow> Inl (ValueError ''playback_text_invalid''))"

definition feed_audio :: "ev_payload \<Rightarrow> reply_state \<Rightarrow> reply_state res" where
  "feed_audio pl r =
     (case pl of
        Audio_payload n \<Rightarrow>
          if n = 0 \<or> odd n then Inl (ValueError ''playback_audio_invalid'')
          else Inr (r\<lparr>rp_audio_bytes := rp_audio_bytes r + int n\<rparr>)
      | _ \<Rightarrow> Inl (ValueError ''playback_audio_invalid''))"

definition sentence_content :: "ev_payload \<Rightarrow> json" where
  "sentence_content pl =
     (case pl of
        Dict_payload j \<Rightarrow> if is_obj j then jget_def' j ''text'' (JStr []) else JStr []
      | _ \<Rightarrow> JStr [])"

definition open_sentence :: "pystr \<Rightarrow> pystr \<Rightarrow> reply_state \<Rightarrow> reply_state" where
  "open_sentence sid t r =
     r\<lparr>rp_sentences := AList.update sid
         \<lparr>sn_text = t, sn_start = rp_audio_bytes r, sn_end = None, sn_acked = False\<rparr> (rp_sentences r),
       rp_current := Some sid\<rparr>"

definition feed_sentence_started :: "pystr \<Rightarrow> ev_payload \<Rightarrow> reply_state \<Rightarrow> reply_state res" where
  "feed_sentence_started sid pl r =
     (if rp_current r \<noteq> None then Inl (ValueError ''playback_sentence_overlap'')
      else (case sentence_content pl of
              JStr t \<Rightarrow>
                if length t > 131072 then Inl (ValueError ''playback_sentence_invalid'')
                else Inr (open_sentence sid t r)
            | _ \<Rightarrow> Inl (ValueError ''playback_sentence_invalid'')))"

definition close_sentence :: "pystr \<Rightarrow> reply_state \<Rightarrow> reply_state" where
  "close_sentence sid r =
     r\<lparr>rp_sentences := map (\<lambda>(k, x). (k, if k = sid then x\<lparr>sn_end := Some (rp_audio_bytes r)\<rparr> else x))
         (rp_sentences r),
       rp_current := None\<rparr>"

definition feed_reply :: "pystr \<Rightarrow> provider_event \<Rightarrow> reply_state \<Rightarrow> (pystr option \<times> reply_state) res" where
  "feed_reply sid e r =
     (if pe_kind e = ''chat_text'' then map_sum id (Pair None) (feed_chat (pe_payload e) r)
      else if pe_kind e = ''tts_audio'' then map_sum id (Pair None) (feed_audio (pe_payload e) r)
      else if pe_kind e = ''sentence_started''
      then map_sum id (Pair (Some sid)) (feed_sentence_started sid (pe_payload e) r)
      else if pe_kind e = ''sentence_finished''
      then (case rp_current r of None \<Rightarrow> Inr (None, r) | Some k \<Rightarrow> Inr (Some k, close_sentence k r))
      else if pe_kind e = ''text_finished'' then Inr (None, r\<lparr>rp_text_finished := True\<rparr>)
      else if pe_kind e = ''tts_finished'' then Inr (None, r\<lparr>rp_tts_finished := True\<rparr>)
      else Inr (None, r))"

definition put_reply :: "pystr \<Rightarrow> reply_state \<Rightarrow> playback \<Rightarrow> playback" where
  "put_reply rid r st = st\<lparr>pb_replies := AList.update rid r (pb_replies st)\<rparr>"

text \<open>The event on its reply \<open>r\<close>, which is registered first; \<open>feed\<close> finds or creates it.\<close>

definition feed_at :: "pystr \<Rightarrow> provider_event \<Rightarrow> pystr \<Rightarrow> reply_state \<Rightarrow> playback \<Rightarrow> pystr option res \<times> playback" where
  "feed_at sid e rid r st =
     (let st2 = put_reply rid r st in
      if Some (rp_question r) \<noteq> pe_question_id e then (Inl (ValueError ''playback_question_mismatch''), st2)
      else if rp_interrupted r \<or> rp_completed r then (Inr None, st2)
      else (case feed_reply sid e r of
              Inl x \<Rightarrow> (Inl x, st2)
            | Inr (tok, r') \<Rightarrow> (Inr tok, put_reply rid r' st2)))"

definition note_sequence :: "provider_event \<Rightarrow> playback \<Rightarrow> playback" where
  "note_sequence e st =
     st\<lparr>pb_provider_sequence := AList.update (pe_session_id e)
       (max (pe_sequence e) (case map_of (pb_provider_sequence st) (pe_session_id e) of None \<Rightarrow> 0 | Some n \<Rightarrow> n))
       (pb_provider_sequence st)\<rparr>"

definition feed :: "bool \<Rightarrow> pystr \<Rightarrow> provider_event \<Rightarrow> playback \<Rightarrow> pystr option res \<times> playback" where
  "feed allow_buffered sid e st =
     (if pe_call_id e \<noteq> pb_call_id st then (Inl (ValueError ''playback_call_mismatch''), st)
      else if \<not> allow_buffered \<and> seen e st then (Inr None, st)
      else
        let st1 = note_sequence e st in
        (case pe_reply_id e of
           None \<Rightarrow> (Inr None, st1)
         | Some rid \<Rightarrow>
             if rid = [] then (Inr None, st1)
             else (case map_of (pb_replies st1) rid of
                     Some r \<Rightarrow> feed_at sid e rid r st1
                   | None \<Rightarrow>
                       (case pe_question_id e of
                          None \<Rightarrow> (Inl (ValueError ''playback_reply_identity_invalid''), st1)
                        | Some q \<Rightarrow>
                            if q = [] \<or> length (pb_replies st1) \<ge> 4096
                            then (Inl (ValueError ''playback_reply_identity_invalid''), st1)
                            else feed_at sid e rid (new_reply q) st1))))"

definition is_stopped :: "pystr \<Rightarrow> playback \<Rightarrow> bool" where
  "is_stopped rid st =
     (case map_of (pb_replies st) rid of None \<Rightarrow> False | Some r \<Rightarrow> rp_interrupted r \<or> rp_completed r)"

definition release_reply :: "reply_state \<Rightarrow> reply_state" where
  "release_reply r = r\<lparr>rp_text := [], rp_sentences := map (\<lambda>(k, x). (k, x\<lparr>sn_text := []\<rparr>)) (rp_sentences r)\<rparr>"

definition audio_idle :: "playback \<Rightarrow> bool" where
  "audio_idle st \<longleftrightarrow>
     \<not> (\<exists>(k, r) \<in> set (pb_replies st). rp_audio_bytes r \<noteq> 0
          \<and> \<not> (rp_audio_completed r \<or> rp_completed r \<or> rp_interrupted r))"

section \<open>The effective text\<close>

fun exact_best :: "int \<Rightarrow> pystr \<Rightarrow> pystr \<Rightarrow> pystr \<Rightarrow> sentence list \<Rightarrow> pystr" where
  "exact_best played text pre best [] = best"
| "exact_best played text pre best (s # ss) =
     (case sn_end s of
        None \<Rightarrow> best
      | Some e \<Rightarrow>
          if sn_text s = [] then best
          else let pre' = pre @ sn_text s in
            exact_best played text pre'
              (if e \<le> played * 48 \<and> e > sn_start s \<and> prefix pre' text then pre' else best) ss)"

definition confirmed_text :: "sentence list \<Rightarrow> pystr" where
  "confirmed_text ss = concat (map sn_text (filter (\<lambda>s. sn_acked s \<and> sn_text s \<noteq> []) ss))"

definition effective :: "bool \<Rightarrow> bool \<Rightarrow> reply_state \<Rightarrow> effective_text" where
  "effective mapping ack r =
     (let position = (if rp_progress_seen r then Some (rp_played_ms r) else None);
          best = exact_best (rp_played_ms r) (rp_text r) [] [] (map snd (rp_sentences r));
          confirmed = confirmed_text (map snd (rp_sentences r)) in
      if rp_completed r
      then \<lparr>ef_text = rp_text r, ef_evidence = Full, ef_played_ms = position,
            ef_completed = True, ef_interrupted = False\<rparr>
      else if mapping \<and> rp_progress_seen r \<and> best \<noteq> []
      then \<lparr>ef_text = best, ef_evidence = Exact_played, ef_played_ms = position,
            ef_completed = False, ef_interrupted = rp_interrupted r\<rparr>
      else if ack \<and> confirmed \<noteq> []
      then \<lparr>ef_text = confirmed, ef_evidence = Confirmed_sentences, ef_played_ms = position,
            ef_completed = False, ef_interrupted = rp_interrupted r\<rparr>
      else \<lparr>ef_text = [], ef_evidence = No_evidence, ef_played_ms = position,
            ef_completed = False, ef_interrupted = rp_interrupted r\<rparr>)"

definition missing_metrics :: "bool \<Rightarrow> bool \<Rightarrow> reply_state \<Rightarrow> string list" where
  "missing_metrics mapping ack r =
     (if rp_completed r then []
      else (if mapping \<and> rp_progress_seen r then [] else [''mapping_unavailable''])
        @ (if ef_evidence (effective mapping ack r) = Exact_played \<or> ack then [] else [''ack_unavailable'']))"

definition snapshot :: "bool \<Rightarrow> bool \<Rightarrow> reply_state \<Rightarrow> playback \<Rightarrow> effective_text \<times> playback" where
  "snapshot mapping ack r st =
     (let result = effective mapping ack r;
          st1 = fold pb_metric (missing_metrics mapping ack r @ [''evidence.'' @ evidence_str (ef_evidence result)]) st in
      (result, st1\<lparr>pb_evidence := tally (ef_evidence result, mapping \<or> ack) (pb_evidence st1)\<rparr>))"

section \<open>Client reports\<close>

definition CLIENT_FIELDS :: "(string \<times> string list) list" where
  "CLIENT_FIELDS = [
     (''client_playback_progress'', [''played_audio_ms'']),
     (''client_sentence_played'', [''sentence_id'']),
     (''client_reply_playback_completed'', []),
     (''client_barge_in'', [''played_audio_ms'']),
     (''client_audio_playback_completed'', [''played_audio_ms''])]"

definition frame_kind :: "json \<Rightarrow> string option" where
  "frame_kind frame = find (\<lambda>k. jget frame ''type'' = JStr (asc k)) (map fst CLIENT_FIELDS)"

text \<open>The header test: kind, reply and sequence number of an acceptable frame.\<close>

definition frame_header :: "playback \<Rightarrow> json \<Rightarrow> (string \<times> pystr \<times> reply_state \<times> int) option" where
  "frame_header st frame =
     (case (frame_kind frame, jget frame ''reply_id'', jget frame ''event_seq'') of
        (Some kind, JStr rid, JInt seq) \<Rightarrow>
          (case (map_of CLIENT_FIELDS kind, map_of (pb_replies st) rid) of
             (Some extra, Some r) \<Rightarrow>
               if set (jkeys frame) = {''type'', ''call_id'', ''reply_id'', ''event_seq''} \<union> set extra
                  \<and> jget frame ''call_id'' = JStr (asc (pb_call_id st)) \<and> 1 \<le> seq
               then Some (kind, rid, r, seq) else None
           | _ \<Rightarrow> None)
      | _ \<Rightarrow> None)"

datatype client_step = Rejected string | Repeated | Accepted reply_state

definition apply_audio_completed :: "json \<Rightarrow> reply_state \<Rightarrow> client_step" where
  "apply_audio_completed frame r =
     (case jget frame ''played_audio_ms'' of
        JInt p \<Rightarrow>
          if \<not> rp_tts_finished r \<or> rp_audio_bytes r = 0 \<or> p \<noteq> rp_audio_bytes r div 48
          then Rejected ''playback_audio_not_finished''
          else if rp_audio_completed r then Repeated
          else Accepted (r\<lparr>rp_audio_completed := True, rp_played_ms := p, rp_progress_seen := True\<rparr>)
      | _ \<Rightarrow> Rejected ''playback_audio_not_finished'')"

definition apply_position :: "clock \<Rightarrow> bool \<Rightarrow> json \<Rightarrow> reply_state \<Rightarrow> client_step" where
  "apply_position now barge frame r =
     (case jget frame ''played_audio_ms'' of
        JInt p \<Rightarrow>
          if \<not> (max (rp_played_ms r) (rp_ack_floor_ms r) \<le> p \<and> p \<le> rp_audio_bytes r div 48)
          then Rejected ''playback_position_invalid''
          else Accepted (r\<lparr>rp_last_progress_at :=
                   (if p > rp_played_ms r then Some now else rp_last_progress_at r),
                 rp_played_ms := p, rp_progress_seen := True,
                 rp_interrupted := rp_interrupted r \<or> barge\<rparr>)
      | _ \<Rightarrow> Rejected ''playback_position_invalid'')"

definition apply_sentence :: "json \<Rightarrow> reply_state \<Rightarrow> client_step" where
  "apply_sentence frame r =
     (case jget frame ''sentence_id'' of
        JStr sid \<Rightarrow>
          (case map_of (rp_sentences r) sid of
             Some s \<Rightarrow>
               (case sn_end s of
                  Some e \<Rightarrow>
                    if e \<le> sn_start s then Rejected ''playback_sentence_not_sent''
                    else Accepted (r\<lparr>rp_sentences := AList.update sid (s\<lparr>sn_acked := True\<rparr>) (rp_sentences r),
                           rp_ack_floor_ms := max (rp_ack_floor_ms r) (e div 48)\<rparr>)
                | None \<Rightarrow> Rejected ''playback_sentence_not_sent'')
           | None \<Rightarrow> Rejected ''playback_sentence_not_sent'')
      | _ \<Rightarrow> Rejected ''playback_sentence_not_sent'')"

definition apply_completed :: "reply_state \<Rightarrow> client_step" where
  "apply_completed r =
     (if \<not> rp_tts_finished r \<or> \<not> rp_text_finished r \<or> rp_audio_bytes r = 0 \<or> rp_text r = []
      then Rejected ''playback_reply_not_finished''
      else Accepted (r\<lparr>rp_completed := True, rp_audio_completed := True,
             rp_played_ms := rp_audio_bytes r div 48, rp_progress_seen := True\<rparr>))"

definition client_apply :: "clock \<Rightarrow> string \<Rightarrow> json \<Rightarrow> reply_state \<Rightarrow> client_step" where
  "client_apply now kind frame r =
     (if kind = ''client_audio_playback_completed'' then apply_audio_completed frame r
      else if kind = ''client_playback_progress'' then apply_position now False frame r
      else if kind = ''client_barge_in'' then apply_position now True frame r
      else if kind = ''client_sentence_played'' then apply_sentence frame r
      else apply_completed r)"

definition client ::
  "clock \<Rightarrow> bool \<Rightarrow> bool \<Rightarrow> json \<Rightarrow> playback \<Rightarrow> effective_text option res \<times> playback" where
  "client now mapping ack frame st =
     (case frame_header st frame of
        None \<Rightarrow> (Inl (ValueError ''playback_event_invalid''), pb_metric ''invalid_client_event'' st)
      | Some (kind, rid, r, seq) \<Rightarrow>
          if seq \<le> pb_client_sequence st
          then (Inr None, pb_metric (if seq = pb_client_sequence st then ''duplicate_client_event''
                                     else ''out_of_order_client_event'') st)
          else if rp_completed r \<or> rp_interrupted r then (Inr None, pb_metric ''duplicate_client_event'' st)
          else (case client_apply now kind frame r of
                  Rejected e \<Rightarrow> (Inl (ValueError e), pb_metric ''invalid_client_event'' st)
                | Repeated \<Rightarrow> (Inr None, (pb_metric ''duplicate_client_event'' st)\<lparr>pb_client_sequence := seq\<rparr>)
                | Accepted r' \<Rightarrow>
                    let st1 = st\<lparr>pb_replies := AList.update rid r' (pb_replies st), pb_client_sequence := seq\<rparr>;
                        res = snapshot mapping ack r' st1 in
                    (Inr (Some (fst res)), snd res)))"

section \<open>Invariant\<close>

text \<open>Positions the client can claim are bounded by the audio that was sent.\<close>

definition sentence_ok :: "int \<Rightarrow> sentence \<Rightarrow> bool" where
  "sentence_ok bytes s \<longleftrightarrow>
     0 \<le> sn_start s \<and> sn_start s \<le> bytes \<and>
     (\<forall>e. sn_end s = Some e \<longrightarrow> sn_start s \<le> e \<and> e \<le> bytes)"

definition reply_ok :: "reply_state \<Rightarrow> bool" where
  "reply_ok r \<longleftrightarrow>
     0 \<le> rp_audio_bytes r \<and> 0 \<le> rp_played_ms r \<and> rp_played_ms r \<le> rp_audio_bytes r div 48 \<and>
     0 \<le> rp_ack_floor_ms r \<and> rp_ack_floor_ms r \<le> rp_audio_bytes r div 48 \<and>
     list_all (sentence_ok (rp_audio_bytes r)) (map snd (rp_sentences r))"

definition playback_ok :: "playback \<Rightarrow> bool" where
  "playback_ok st \<longleftrightarrow> list_all reply_ok (map snd (pb_replies st))"

lemma sentence_ok_mono: "sentence_ok b s \<Longrightarrow> b \<le> b' \<Longrightarrow> sentence_ok b' s"
  by (fastforce simp: sentence_ok_def)

lemma list_all_update:
  "list_all P (map snd d) \<Longrightarrow> P v \<Longrightarrow> list_all P (map snd (AList.update k v d))"
  by (induction d) auto

lemma list_all_get: "list_all P (map snd d) \<Longrightarrow> map_of d k = Some v \<Longrightarrow> P v"
  by (induction d) (auto split: if_splits)

lemma new_reply_ok: "reply_ok (new_reply q)"
  by (simp add: reply_ok_def new_reply_def)

lemma feed_audio_ok:
  assumes r: "reply_ok r" and f: "feed_audio pl r = Inr r'"
  shows "reply_ok r'"
proof -
  from f obtain n where n: "r' = r\<lparr>rp_audio_bytes := rp_audio_bytes r + int n\<rparr>"
    by (auto simp: feed_audio_def split: ev_payload.splits if_splits)
  have "rp_audio_bytes r div 48 \<le> (rp_audio_bytes r + int n) div 48"
    by (rule zdiv_mono1) simp_all
  with r show ?thesis
    by (auto simp: n reply_ok_def list_all_iff intro: sentence_ok_mono)
qed

lemma open_sentence_ok: "reply_ok r \<Longrightarrow> reply_ok (open_sentence sid t r)"
  by (auto simp: open_sentence_def reply_ok_def sentence_ok_def intro!: list_all_update)

lemma close_sentence_ok:
  assumes "reply_ok r"
  shows "reply_ok (close_sentence sid r)"
proof -
  have "sentence_ok (rp_audio_bytes r) (x\<lparr>sn_end := Some (rp_audio_bytes r)\<rparr>)"
    if "sentence_ok (rp_audio_bytes r) x" for x
    using that by (simp add: sentence_ok_def)
  with assms show ?thesis by (auto simp: close_sentence_def reply_ok_def list_all_iff)
qed

lemma feed_chat_ok: "reply_ok r \<Longrightarrow> feed_chat pl r = Inr r' \<Longrightarrow> reply_ok r'"
  by (auto simp: feed_chat_def reply_ok_def split: ev_payload.splits if_splits)

lemma feed_sentence_started_ok: "reply_ok r \<Longrightarrow> feed_sentence_started sid pl r = Inr r' \<Longrightarrow> reply_ok r'"
  by (auto simp: feed_sentence_started_def open_sentence_ok split: json.splits if_splits)

lemma map_sum_Inr_iff: "map_sum f g x = Inr y \<longleftrightarrow> (\<exists>z. x = Inr z \<and> y = g z)"
  by (cases x) auto

lemma feed_reply_ok:
  assumes "reply_ok r" "feed_reply sid e r = Inr (tok, r')"
  shows "reply_ok r'"
proof -
  have "reply_ok (r\<lparr>rp_text_finished := True\<rparr>)" "reply_ok (r\<lparr>rp_tts_finished := True\<rparr>)"
    using assms(1) by (simp_all add: reply_ok_def)
  with assms show ?thesis
    by (auto simp: feed_reply_def map_sum_Inr_iff close_sentence_ok split: if_splits option.splits
        intro: feed_chat_ok feed_audio_ok feed_sentence_started_ok)
qed

lemma put_reply_ok: "playback_ok st \<Longrightarrow> reply_ok r \<Longrightarrow> playback_ok (put_reply rid r st)"
  by (simp add: playback_ok_def put_reply_def list_all_update)

lemma feed_at_ok: "playback_ok st \<Longrightarrow> reply_ok r \<Longrightarrow> playback_ok (snd (feed_at sid e rid r st))"
  using feed_reply_ok [of r sid e]
  by (auto simp: feed_at_def Let_def split: sum.split intro!: put_reply_ok)

lemma feed_ok:
  assumes ok: "playback_ok st"
  shows "playback_ok (snd (feed b sid e st))"
proof -
  have s: "playback_ok (note_sequence e st)" "pb_replies (note_sequence e st) = pb_replies st"
    using ok by (simp_all add: note_sequence_def playback_ok_def)
  have r: "reply_ok r" if "map_of (pb_replies st) rid = Some r" for rid r
    using ok list_all_get [OF _ that] by (simp add: playback_ok_def)
  show ?thesis
    using ok s r feed_at_ok [OF s(1)] new_reply_ok
    by (simp add: feed_def Let_def split: option.split)
qed

lemma pb_metric_frame [simp]:
  "pb_replies (pb_metric c st) = pb_replies st" "pb_client_sequence (pb_metric c st) = pb_client_sequence st"
  "pb_call_id (pb_metric c st) = pb_call_id st"
  by (simp_all add: pb_metric_def)

lemma fold_metric_frame [simp]:
  "pb_replies (fold pb_metric cs st) = pb_replies st"
  "pb_client_sequence (fold pb_metric cs st) = pb_client_sequence st"
  by (induction cs arbitrary: st) simp_all

lemma snapshot_frame [simp]:
  "pb_replies (snd (snapshot m a r st)) = pb_replies st"
  "pb_client_sequence (snd (snapshot m a r st)) = pb_client_sequence st"
  "fst (snapshot m a r st) = effective m a r"
  by (simp_all add: snapshot_def Let_def)

text \<open>The position moves forward only, and never beyond the audio.\<close>

definition reply_step :: "reply_state \<Rightarrow> reply_state \<Rightarrow> bool" where
  "reply_step r r' \<longleftrightarrow>
     reply_ok r' \<and> rp_played_ms r \<le> rp_played_ms r' \<and> rp_ack_floor_ms r \<le> rp_ack_floor_ms r' \<and>
     rp_audio_bytes r' = rp_audio_bytes r \<and> rp_text r' = rp_text r"

lemma apply_sentence_step:
  assumes r: "reply_ok r" and a: "apply_sentence frame r = Accepted r'"
  shows "reply_step r r'"
proof -
  from a obtain sid s e where s: "map_of (rp_sentences r) sid = Some s" "sn_end s = Some e"
    "r' = r\<lparr>rp_sentences := AList.update sid (s\<lparr>sn_acked := True\<rparr>) (rp_sentences r),
            rp_ack_floor_ms := max (rp_ack_floor_ms r) (e div 48)\<rparr>"
    by (auto simp: apply_sentence_def split: json.splits option.splits if_splits)
  have so: "sentence_ok (rp_audio_bytes r) s"
    using r list_all_get [OF _ s(1)] by (auto simp: reply_ok_def)
  with s(2) have e: "e \<le> rp_audio_bytes r" by (simp add: sentence_ok_def)
  then have "e div 48 \<le> rp_audio_bytes r div 48" by (rule zdiv_mono1) simp
  moreover have "sentence_ok (rp_audio_bytes r) (s\<lparr>sn_acked := True\<rparr>)" using so by (simp add: sentence_ok_def)
  ultimately show ?thesis
    using r by (auto simp: s(3) reply_step_def reply_ok_def intro!: list_all_update)
qed

lemma apply_position_step:
  "reply_ok r \<Longrightarrow> apply_position now b frame r = Accepted r' \<Longrightarrow> reply_step r r'"
  by (auto simp: apply_position_def reply_step_def reply_ok_def split: json.splits if_splits)

lemma apply_end_step:
  assumes "reply_ok r"
  shows "apply_audio_completed frame r = Accepted r' \<Longrightarrow> reply_step r r'"
    "apply_completed r = Accepted r' \<Longrightarrow> reply_step r r'"
  using assms
  by (auto simp: apply_audio_completed_def apply_completed_def reply_step_def reply_ok_def split: json.splits if_splits)

lemma client_apply_step:
  "reply_ok r \<Longrightarrow> client_apply now kind frame r = Accepted r' \<Longrightarrow> reply_step r r'"
  by (auto simp: client_apply_def split: if_splits
      intro: apply_sentence_step apply_position_step apply_end_step)

lemma frame_header_reply: "frame_header st frame = Some (k, rid, r, seq) \<Longrightarrow> map_of (pb_replies st) rid = Some r"
  by (auto simp: frame_header_def split: option.splits json.splits if_splits)

text \<open>The outcomes of a client frame.\<close>

lemma client_cases:
  obtains (rejected) e m where "client now mp ak frame st = (Inl (ValueError e), pb_metric m st)"
  | (ignored) m where "client now mp ak frame st = (Inr None, pb_metric m st)"
  | (repeated) k rid r seq where "frame_header st frame = Some (k, rid, r, seq)" "pb_client_sequence st < seq"
      "client now mp ak frame st = (Inr None, (pb_metric ''duplicate_client_event'' st)\<lparr>pb_client_sequence := seq\<rparr>)"
  | (accepted) k rid r seq r' where "frame_header st frame = Some (k, rid, r, seq)" "pb_client_sequence st < seq"
      "\<not> rp_completed r" "\<not> rp_interrupted r" "client_apply now k frame r = Accepted r'"
      "client now mp ak frame st = (Inr (Some (effective mp ak r')),
         snd (snapshot mp ak r' (st\<lparr>pb_replies := AList.update rid r' (pb_replies st), pb_client_sequence := seq\<rparr>)))"
proof (cases "frame_header st frame")
  case None
  then show thesis by (intro rejected) (simp add: client_def)
next
  case (Some x)
  obtain k rid r seq where x: "x = (k, rid, r, seq)" by (cases x)
  show thesis
  proof (cases "seq \<le> pb_client_sequence st \<or> rp_completed r \<or> rp_interrupted r")
    case True
    then have "client now mp ak frame st = (Inr None, pb_metric (if seq \<le> pb_client_sequence st
        then (if seq = pb_client_sequence st then ''duplicate_client_event'' else ''out_of_order_client_event'')
        else ''duplicate_client_event'') st)"
      by (auto simp: client_def Some x)
    then show thesis by (rule ignored)
  next
    case False
    then show thesis
      using rejected repeated accepted Some x
      by (cases "client_apply now k frame r") (auto simp: client_def Let_def)
  qed
qed

lemma client_ok:
  assumes "playback_ok st"
  shows "playback_ok (snd (client now mp ak frame st))"
proof (rule client_cases [of now mp ak frame st])
  fix k rid r seq r'
  assume h: "frame_header st frame = Some (k, rid, r, seq)" and a: "client_apply now k frame r = Accepted r'"
    and c: "client now mp ak frame st = (Inr (Some (effective mp ak r')),
         snd (snapshot mp ak r' (st\<lparr>pb_replies := AList.update rid r' (pb_replies st), pb_client_sequence := seq\<rparr>)))"
  have "reply_ok r" using assms list_all_get [OF _ frame_header_reply [OF h]] by (simp add: playback_ok_def)
  with client_apply_step [OF _ a] have "reply_ok r'" by (simp add: reply_step_def)
  then show ?thesis
    using assms by (simp add: c playback_ok_def list_all_update)
qed (use assms in \<open>simp_all add: playback_ok_def\<close>)

section \<open>What the effective text claims\<close>

lemma exact_best_prefix:
  "prefix best tx \<Longrightarrow> prefix (exact_best p tx pre best ss) tx"
  by (induction p tx pre best ss rule: exact_best.induct) (auto simp: Let_def split: option.splits)

lemma exact_best_bound:
  "exact_best p tx pre best ss = best \<or>
   (\<exists>n. 0 < n \<and> n \<le> length ss \<and> exact_best p tx pre best ss = pre @ concat (map sn_text (take n ss)) \<and>
      (\<exists>e. sn_end (ss ! (n - 1)) = Some e \<and> e \<le> p * 48))"
proof (induction p tx pre best ss rule: exact_best.induct)
  case (2 p tx pre best s ss)
  show ?case
  proof (cases "sn_end s = None \<or> sn_text s = []")
    case True
    then show ?thesis by (auto split: option.splits)
  next
    case False
    then obtain e where e: "sn_end s = Some e" "sn_text s \<noteq> []" by auto
    let ?best = "if e \<le> p * 48 \<and> e > sn_start s \<and> prefix (pre @ sn_text s) tx then pre @ sn_text s else best"
    have r: "exact_best p tx pre best (s # ss) = exact_best p tx (pre @ sn_text s) ?best ss"
      using e by (simp add: Let_def)
    from "2.IH" [OF e(1) e(2) refl] consider (kept) "exact_best p tx (pre @ sn_text s) ?best ss = ?best"
      | (more) n where "0 < n" "n \<le> length ss"
        "exact_best p tx (pre @ sn_text s) ?best ss = (pre @ sn_text s) @ concat (map sn_text (take n ss))"
        "\<exists>e. sn_end (ss ! (n - 1)) = Some e \<and> e \<le> p * 48"
      by blast
    then show ?thesis
    proof cases
      case kept
      show ?thesis
      proof (cases "e \<le> p * 48 \<and> e > sn_start s \<and> prefix (pre @ sn_text s) tx")
        case True
        with kept e r show ?thesis by (intro disjI2 exI [of _ 1]) auto
      next
        case False
        then have "?best = best" by auto
        with kept r show ?thesis by simp
      qed
    next
      case more
      then show ?thesis
        unfolding r by (intro disjI2 exI [of _ "Suc n"]) (auto simp: nth_Cons')
    qed
  qed
qed simp

lemma effective_sound_h:
  "(ef_evidence (effective mp ak r) = No_evidence \<longrightarrow> ef_text (effective mp ak r) = []) \<and>
   (ef_evidence (effective mp ak r) = Full \<longrightarrow> rp_completed r \<and> ef_text (effective mp ak r) = rp_text r) \<and>
   (ef_evidence (effective mp ak r) = Exact_played \<longrightarrow> mp \<and> ef_text (effective mp ak r) \<noteq> [] \<and>
      prefix (ef_text (effective mp ak r)) (rp_text r) \<and>
      (\<exists>n e. 0 < n \<and> n \<le> length (rp_sentences r) \<and>
        ef_text (effective mp ak r) = concat (map sn_text (take n (map snd (rp_sentences r)))) \<and>
        sn_end (map snd (rp_sentences r) ! (n - 1)) = Some e \<and> e \<le> rp_played_ms r * 48)) \<and>
   (ef_evidence (effective mp ak r) = Confirmed_sentences \<longrightarrow> ak \<and>
      ef_text (effective mp ak r) = concat (map sn_text (filter (\<lambda>s. sn_acked s \<and> sn_text s \<noteq> []) (map snd (rp_sentences r)))))"
proof -
  let ?ss = "map snd (rp_sentences r)"
  let ?b = "exact_best (rp_played_ms r) (rp_text r) [] [] ?ss"
  have p: "prefix ?b (rp_text r)" by (rule exact_best_prefix) simp
  have b: "?b \<noteq> [] \<Longrightarrow> \<exists>n e. 0 < n \<and> n \<le> length (rp_sentences r) \<and> ?b = concat (map sn_text (take n ?ss)) \<and>
      sn_end (?ss ! (n - 1)) = Some e \<and> e \<le> rp_played_ms r * 48"
    using exact_best_bound [of "rp_played_ms r" "rp_text r" "[]" "[]" ?ss] by auto
  show ?thesis
    using p b by (simp add: effective_def Let_def confirmed_text_def)
qed

text \<open>An effective text always passes the two checks of \<open>apply_effective\<close>.\<close>

lemma effective_accepted:
  "\<not> (ef_evidence (effective mp ak r) = No_evidence \<and> ef_text (effective mp ak r) \<noteq> [])"
  "\<not> (ef_evidence (effective mp ak r) = Full \<and> \<not> ef_completed (effective mp ak r))"
  by (auto simp: effective_def Let_def)

section \<open>Properties\<close>

text \<open>C18: The effective text never claims more than the evidence: \<open>full\<close> only for a completed reply and then
  its whole text; \<open>exact_played\<close> only with the mapping capability, as the prefix of the generated text
  made of the first \<open>n\<close> sentences, the last of which ended within the audio reported as played;
  \<open>confirmed_sentences\<close> only with the acknowledgement capability, as the acknowledged sentences; and
  no evidence means no text.\<close>

theorem effective_text_sound:
  "(ef_evidence (effective mp ak r) = No_evidence \<longrightarrow> ef_text (effective mp ak r) = []) \<and>
   (ef_evidence (effective mp ak r) = Full \<longrightarrow> rp_completed r \<and> ef_text (effective mp ak r) = rp_text r) \<and>
   (ef_evidence (effective mp ak r) = Exact_played \<longrightarrow> mp \<and> ef_text (effective mp ak r) \<noteq> [] \<and>
      prefix (ef_text (effective mp ak r)) (rp_text r) \<and>
      (\<exists>n e. 0 < n \<and> n \<le> length (rp_sentences r) \<and>
        ef_text (effective mp ak r) = concat (map sn_text (take n (map snd (rp_sentences r)))) \<and>
        sn_end (map snd (rp_sentences r) ! (n - 1)) = Some e \<and> e \<le> rp_played_ms r * 48)) \<and>
   (ef_evidence (effective mp ak r) = Confirmed_sentences \<longrightarrow> ak \<and>
      ef_text (effective mp ak r) = concat (map sn_text (filter (\<lambda>s. sn_acked s \<and> sn_text s \<noteq> []) (map snd (rp_sentences r)))))"
  by (rule effective_sound_h)

definition played_reply :: reply_state where
  "played_reply = (new_reply [81])\<lparr>rp_text := [104, 105, 33], rp_audio_bytes := 960, rp_played_ms := 10,
     rp_progress_seen := True,
     rp_sentences := [([1], \<lparr>sn_text = [104, 105], sn_start = 0, sn_end = Some 480, sn_acked = False\<rparr>),
                      ([2], \<lparr>sn_text = [33], sn_start = 480, sn_end = Some 960, sn_acked = False\<rparr>)]\<rparr>"

lemma played_reply_effective:
  "effective True False played_reply = \<lparr>ef_text = [104, 105], ef_evidence = Exact_played,
     ef_played_ms = Some 10, ef_completed = False, ef_interrupted = False\<rparr>"
  by (simp add: effective_def played_reply_def new_reply_def Let_def)

theorem effective_text_sound_witness:
  "prefix (ef_text (effective True False played_reply)) (rp_text played_reply)"
  using effective_text_sound [of True False played_reply] by (simp add: played_reply_effective)

text \<open>Provider events and client frames keep every reply within the audio the server sent: the played
  position and the acknowledged floor never exceed the sent milliseconds, and no sentence ends beyond
  the sent bytes, whether the event is accepted or raises.\<close>

theorem playback_within_sent_audio:
  assumes "playback_ok st"
  shows "playback_ok (snd (feed b sid e st)) \<and> playback_ok (snd (client now mp ak frame st))"
  using feed_ok [OF assms] client_ok [OF assms] by blast

theorem playback_within_sent_audio_witness:
  "playback_ok (snd (client 0 True True (JObj [(''type'', JStr (asc ''client_barge_in''))])
     \<lparr>pb_call_id = ''c'', pb_replies = [([1], played_reply)], pb_client_sequence = 0,
      pb_provider_sequence = [], pb_observations = [], pb_evidence = []\<rparr>))"
proof -
  have "playback_ok \<lparr>pb_call_id = ''c'', pb_replies = [([1], played_reply)], pb_client_sequence = 0,
      pb_provider_sequence = [], pb_observations = [], pb_evidence = []\<rparr>"
    by (simp add: playback_ok_def reply_ok_def sentence_ok_def played_reply_def new_reply_def)
  from playback_within_sent_audio [OF this] show ?thesis by blast
qed

end
