(* ===== verification/ConfigCheck.thy ===== *)
theory ConfigCheck
  imports Schedule
begin

text \<open>
  The bundle validators of \<open>realtime_voice_config_service.py\<close>: the scan for forbidden fields and
  credential values, the field checks, \<open>_validate_voice_call_config\<close>,
  \<open>_validate_voice_call_script\<close> and \<open>validate_voice_bundle\<close>.

  An issue is its code and field (\<open>Schedule\<close>); messages and \<open>allowed\<close> hints are left out. What the
  code takes from its surroundings is the environment \<open>cfg_env\<close>: the values of the credential
  environment variables, the word characters of \<open>re\<close>, \<open>str.casefold\<close>, and the pieces \<open>urlparse\<close> and
  \<open>parse_qsl\<close> give for an address (\<open>None\<close> when they raise \<open>ValueError\<close>). The retention fields are
  checked in a fixed order where the code iterates over a set.
\<close>

section \<open>Environment and codes\<close>

record url =
  ur_scheme :: string
  ur_netloc :: pystr
  ur_hostname :: "pystr option"
  ur_username :: "pystr option"
  ur_password :: "pystr option"
  ur_query :: "(pystr \<times> pystr) list"

record cfg_env =
  ce_word :: "nat \<Rightarrow> bool"
  ce_casefold :: "pystr \<Rightarrow> pystr"
  ce_credentials :: "pystr list"
  ce_url :: "pystr \<Rightarrow> url option"

definition schema :: "string \<Rightarrow> issue" where
  "schema f = (''VOICE_CONFIG_SCHEMA_INVALID'', f)"

definition range_issue :: "string \<Rightarrow> issue" where
  "range_issue f = (''VOICE_CONFIG_FIELD_RANGE_INVALID'', f)"

definition forbidden :: "string \<Rightarrow> issue" where
  "forbidden f = (''VOICE_CONFIG_FORBIDDEN_FIELD'', f)"

definition secret :: "string \<Rightarrow> issue" where
  "secret f = (''VOICE_CONFIG_SECRET_FORBIDDEN'', f)"

definition manual :: "string \<Rightarrow> issue" where
  "manual f = (''VOICE_CONFIG_MANUAL_VERIFIED_FORBIDDEN'', f)"

text \<open>An issue unless the condition holds.\<close>

definition must :: "bool \<Rightarrow> issue \<Rightarrow> issue list" where
  "must b i = (if b then [] else [i])"

lemma must_Nil [simp]: "must b i = [] \<longleftrightarrow> b"
  by (simp add: must_def)

section \<open>Values\<close>

fun is_bool :: "json \<Rightarrow> bool" where
  "is_bool (JBool _) = True"
| "is_bool _ = False"

fun is_str :: "json \<Rightarrow> bool" where
  "is_str (JStr _) = True"
| "is_str _ = False"

fun full_str :: "json \<Rightarrow> bool" where
  "full_str (JStr s) = (s \<noteq> [])"
| "full_str _ = False"

fun nonblank_str :: "json \<Rightarrow> bool" where
  "nonblank_str (JStr s) = nonblank s"
| "nonblank_str _ = False"

definition str_in :: "string list \<Rightarrow> json \<Rightarrow> bool" where
  "str_in vs j \<longleftrightarrow> list_ex (\<lambda>v. j = JStr (asc v)) vs"

fun int_list :: "json \<Rightarrow> bool" where
  "int_list (JList xs) = list_all (\<lambda>x. as_int x \<noteq> None) xs"
| "int_list _ = False"

fun text_list :: "json \<Rightarrow> bool" where
  "text_list (JList xs) = (xs \<noteq> [] \<and> list_all nonblank_str xs)"
| "text_list _ = False"

definition upper :: "nat \<Rightarrow> bool" where "upper c \<longleftrightarrow> 65 \<le> c \<and> c \<le> 90"
definition lower :: "nat \<Rightarrow> bool" where "lower c \<longleftrightarrow> 97 \<le> c \<and> c \<le> 122"
definition digit :: "nat \<Rightarrow> bool" where "digit c \<longleftrightarrow> 48 \<le> c \<and> c \<le> 57"

text \<open>\<open>^[A-Z][A-Z0-9_]{0,127}$\<close>\<close>

fun env_ref :: "pystr \<Rightarrow> bool" where
  "env_ref [] = False"
| "env_ref (c # cs) = (upper c \<and> length cs \<le> 127 \<and> list_all (\<lambda>d. upper d \<or> digit d \<or> d = 95) cs)"

text \<open>\<open>^(?:sha256:)?[0-9a-f]{64}$\<close>\<close>

definition hex64 :: "pystr \<Rightarrow> bool" where
  "hex64 t \<longleftrightarrow> length t = 64 \<and> list_all (\<lambda>c. digit c \<or> 97 \<le> c \<and> c \<le> 102) t"

definition sha256_ref :: "pystr \<Rightarrow> bool" where
  "sha256_ref t \<longleftrightarrow> hex64 t \<or> (take 7 t = asc ''sha256:'' \<and> hex64 (drop 7 t))"

text \<open>\<open>deepseek-[A-Za-z0-9._-]+\<close>\<close>

definition deepseek_model :: "pystr \<Rightarrow> bool" where
  "deepseek_model t \<longleftrightarrow> take 9 t = asc ''deepseek-'' \<and> drop 9 t \<noteq> [] \<and>
     list_all (\<lambda>c. upper c \<or> lower c \<or> digit c \<or> c \<in> {46, 95, 45}) (drop 9 t)"

fun py_in :: "pystr \<Rightarrow> pystr \<Rightarrow> bool" where
  "py_in w [] = (w = [])"
| "py_in w (c # t) = (take (length w) (c # t) = w \<or> py_in w t)"

section \<open>Credential values\<close>

text \<open>
  \<open>\bBearer\s+[A-Za-z0-9._~+/=-]{8,}|\bsk-[A-Za-z0-9_-]{8,}\<close> without regard to case. Ignoring case,
  \<open>s\<close> and \<open>k\<close> also match the long s and the Kelvin sign, and \<open>[A-Za-z]\<close> also matches these two and
  the dotted capital and dotless small i.
\<close>

definition ci_class :: "nat \<Rightarrow> bool" where
  "ci_class c \<longleftrightarrow> upper c \<or> lower c \<or> digit c \<or> c \<in> {304, 305, 383, 8490}"

definition bearer_class :: "nat \<Rightarrow> bool" where
  "bearer_class c \<longleftrightarrow> ci_class c \<or> c \<in> {46, 95, 126, 43, 47, 61, 45}"

definition key_class :: "nat \<Rightarrow> bool" where
  "key_class c \<longleftrightarrow> ci_class c \<or> c \<in> {95, 45}"

fun ci_match :: "nat list list \<Rightarrow> pystr \<Rightarrow> pystr option" where
  "ci_match [] t = Some t"
| "ci_match (cs # ps) [] = None"
| "ci_match (cs # ps) (c # t) = (if c \<in> set cs then ci_match ps t else None)"

definition bearer_word :: "nat list list" where
  "bearer_word = [[66, 98], [69, 101], [65, 97], [82, 114], [69, 101], [82, 114]]"

definition key_word :: "nat list list" where
  "key_word = [[83, 115, 383], [75, 107, 8490], [45]]"

definition long_run :: "(nat \<Rightarrow> bool) \<Rightarrow> pystr \<Rightarrow> bool" where
  "long_run p t \<longleftrightarrow> 8 \<le> length (takeWhile p t)"

definition secret_at :: "pystr \<Rightarrow> bool" where
  "secret_at t \<longleftrightarrow>
     (case ci_match bearer_word t of
        None \<Rightarrow> False | Some r \<Rightarrow> takeWhile py_space r \<noteq> [] \<and> long_run bearer_class (dropWhile py_space r)) \<or>
     (case ci_match key_word t of None \<Rightarrow> False | Some r \<Rightarrow> long_run key_class r)"

fun secret_from :: "(nat \<Rightarrow> bool) \<Rightarrow> bool \<Rightarrow> pystr \<Rightarrow> bool" where
  "secret_from word mid [] = False"
| "secret_from word mid (c # t) = ((\<not> mid \<and> secret_at (c # t)) \<or> secret_from word (word c) t)"

definition secret_value :: "cfg_env \<Rightarrow> pystr \<Rightarrow> bool" where
  "secret_value e t = secret_from (ce_word e) False t"

section \<open>The scan\<close>

definition secret_names :: "string list" where
  "secret_names = [''app_id'', ''app_key'', ''access_key'', ''access_key_secret'', ''api_key'', ''api_secret'',
     ''authorization'', ''password'', ''private_key'', ''refresh_token'', ''secret'', ''secret_key'', ''token'']"

definition experimental_names :: "string list" where
  "experimental_names = [''capability_gray'', ''mock_s2s'', ''net_profile'', ''preamble_memory_doc_ids'',
     ''percentage'', ''weak_network_profile'']"

text \<open>\<open>casefold\<close> on an ASCII key.\<close>

definition fold_key :: "string \<Rightarrow> string" where
  "fold_key k = map (\<lambda>c. let n = of_char c :: nat in if upper n then char_of (n + 32) else c) k"

definition ends_with :: "string \<Rightarrow> string \<Rightarrow> bool" where
  "ends_with t s \<longleftrightarrow> length s \<le> length t \<and> drop (length t - length s) t = s"

definition key_issues :: "string \<Rightarrow> string \<Rightarrow> issue list" where
  "key_issues path k =
     (let n = fold_key k in
      must (n \<notin> set experimental_names) (forbidden path)
      @ must (\<not> (n \<in> set secret_names \<or> ends_with n ''_secret'' \<or> ends_with n ''_token'')) (secret path))"

definition sub_path :: "string \<Rightarrow> string \<Rightarrow> string" where
  "sub_path path k = (if path = [] then k else path @ ''.'' @ k)"

fun scan :: "cfg_env \<Rightarrow> string \<Rightarrow> json \<Rightarrow> issue list"
  and scan_fields :: "cfg_env \<Rightarrow> string \<Rightarrow> (string \<times> json) list \<Rightarrow> issue list"
  and scan_items :: "cfg_env \<Rightarrow> string \<Rightarrow> nat \<Rightarrow> json list \<Rightarrow> issue list" where
  "scan e path (JObj kvs) = scan_fields e path kvs"
| "scan e path (JList xs) = scan_items e path 0 xs"
| "scan e path (JStr s) = must (\<not> (secret_value e s \<or> s \<in> set (ce_credentials e))) (secret path)"
| "scan e path JNull = []"
| "scan e path (JBool b) = []"
| "scan e path (JInt n) = []"
| "scan e path (JFloat f) = []"
| "scan_fields e path [] = []"
| "scan_fields e path ((k, v) # kvs) =
     key_issues (sub_path path k) k @ scan e (sub_path path k) v @ scan_fields e path kvs"
| "scan_items e path i [] = []"
| "scan_items e path i (x # xs) = scan e (path @ ''['' @ nat_str i @ '']'') x @ scan_items e path (Suc i) xs"

definition scan_forbidden_fields :: "cfg_env \<Rightarrow> json \<Rightarrow> issue list" where
  "scan_forbidden_fields e v = scan e [] v"

section \<open>Field checks\<close>

definition exact_keys :: "json \<Rightarrow> string \<Rightarrow> string list \<Rightarrow> string list \<Rightarrow> issue list" where
  "exact_keys v field required allowed =
     (if \<not> is_obj v then [schema field]
      else map (\<lambda>k. schema (field @ ''.'' @ k)) (sort (filter (\<lambda>k. \<not> jhas v k) required))
           @ map (\<lambda>k. schema (field @ ''.'' @ k)) (sort (filter (\<lambda>k. k \<notin> set allowed) (jkeys v))))"

definition int_range :: "json \<Rightarrow> string \<Rightarrow> int \<Rightarrow> int option \<Rightarrow> issue list" where
  "int_range v field lo hi =
     must (case v of JInt n \<Rightarrow> lo \<le> n \<and> (case hi of None \<Rightarrow> True | Some h \<Rightarrow> n \<le> h) | _ \<Rightarrow> False) (range_issue field)"

fun pf_less :: "pyfloat \<Rightarrow> pyfloat \<Rightarrow> bool" where
  "pf_less (Fin a) (Fin b) = (a < b)"
| "pf_less NegInf (Fin b) = True"
| "pf_less NegInf PosInf = True"
| "pf_less (Fin a) PosInf = True"
| "pf_less _ _ = False"

definition number_range :: "json \<Rightarrow> string \<Rightarrow> rat \<Rightarrow> rat option \<Rightarrow> issue list" where
  "number_range v field lo hi =
     must (case as_number v of
         None \<Rightarrow> False
       | Some x \<Rightarrow> \<not> pf_less x (Fin lo) \<and> (case hi of None \<Rightarrow> True | Some h \<Rightarrow> \<not> pf_less (Fin h) x))
       (range_issue field)"

definition each :: "string list \<Rightarrow> (string \<Rightarrow> issue list) \<Rightarrow> issue list" where
  "each ks f = concat (map f ks)"

lemma each_Nil_iff [simp]: "each ks f = [] \<longleftrightarrow> (\<forall>k \<in> set ks. f k = [])"
  by (auto simp: each_def)

section \<open>The call configuration\<close>

definition summary_issues :: "json \<Rightarrow> string \<Rightarrow> issue list" where
  "summary_issues config field =
     (if \<not> jhas config ''summary'' then []
      else let v = jget config ''summary'' in
        exact_keys v ''summary'' [field] [field]
        @ (if \<not> is_obj v then []
           else (case jget v field of
               JStr s \<Rightarrow>
                 if \<not> nonblank s then [schema (''summary.'' @ field)]
                 else must (field = ''model'' \<longrightarrow> length s \<le> 128 \<and> deepseek_model s) (schema ''summary.model'')
             | _ \<Rightarrow> [schema (''summary.'' @ field)])))"

definition global_issues :: "json \<Rightarrow> issue list" where
  "global_issues config =
     (let g = jget config ''global'';
          req = [''enabled'', ''maintenance_mode'', ''maintenance_message'', ''soft_stop'', ''rollout'', ''test_user_ids''] in
      exact_keys g ''global'' req req
      @ (if \<not> is_obj g then []
         else
           each [''enabled'', ''maintenance_mode'', ''soft_stop''] (\<lambda>k. must (is_bool (jget g k)) (schema (''global.'' @ k)))
           @ must (nonblank_str (jget g ''maintenance_message'')) (schema ''global.maintenance_message'')
           @ (let r = jget g ''rollout'' in
              exact_keys r ''global.rollout'' [''mode'', ''user_ids''] [''mode'', ''user_ids'']
              @ (if \<not> is_obj r then []
                 else must (str_in [''off'', ''allowlist'', ''all''] (jget r ''mode'')) (forbidden ''global.rollout.mode'')
                      @ must (int_list (jget r ''user_ids'')) (schema ''global.rollout.user_ids'')))
           @ must (int_list (jget g ''test_user_ids'')) (schema ''global.test_user_ids'')))"

definition persona_issues :: "json \<Rightarrow> issue list" where
  "persona_issues config =
     (let p = jget config ''persona_ref''; req = [''config_key'', ''version'', ''content_sha256''] in
      exact_keys p ''persona_ref'' req req
      @ (if \<not> is_obj p then []
         else must (jget p ''config_key'' = JStr (asc ''persona'')) (schema ''persona_ref.config_key'')
              @ int_range (jget p ''version'') ''persona_ref.version'' 1 None
              @ must (case jget p ''content_sha256'' of JStr s \<Rightarrow> sha256_ref s | _ \<Rightarrow> False)
                  (schema ''persona_ref.content_sha256'')))"

definition sensitive_names :: "string list" where
  "sensitive_names = [''access_key'', ''access_token'', ''api_key'', ''api_secret'', ''app_key'', ''auth'',
     ''authorization'', ''credential'', ''id_token'', ''jwt'', ''password'', ''refresh_token'', ''secret'',
     ''sign'', ''signature'', ''token'']"

text \<open>\<open>re.sub(r"[^a-z0-9]+", "_", key).strip("_")\<close>: the maximal runs of \<open>[a-z0-9]\<close> joined by underscores.\<close>

definition name_char :: "nat \<Rightarrow> bool" where
  "name_char c \<longleftrightarrow> lower c \<or> digit c"

fun squash :: "bool \<Rightarrow> pystr \<Rightarrow> pystr" where
  "squash gap [] = []"
| "squash gap (c # t) = (if name_char c then c # squash False t else if gap then squash True t else 95 # squash True t)"

definition strip_us :: "pystr \<Rightarrow> pystr" where
  "strip_us t = rev (dropWhile ((=) 95) (rev (dropWhile ((=) 95) t)))"

definition query_name :: "cfg_env \<Rightarrow> pystr \<Rightarrow> pystr" where
  "query_name e k = strip_us (squash False (ce_casefold e k))"

definition sensitive_query :: "cfg_env \<Rightarrow> (pystr \<times> pystr) list \<Rightarrow> bool" where
  "sensitive_query e q = list_ex (\<lambda>(k, v). list_ex (\<lambda>s. query_name e k = asc s) sensitive_names) q"

definition endpoint_issues :: "cfg_env \<Rightarrow> pystr \<Rightarrow> issue list" where
  "endpoint_issues e endpoint =
     (let parsed = ce_url e endpoint;
          query = (case parsed of None \<Rightarrow> [] | Some u \<Rightarrow> ur_query u) in
      must (case parsed of
              None \<Rightarrow> False
            | Some u \<Rightarrow> ur_scheme u \<in> {''wss'', ''https''} \<and> ur_netloc u \<noteq> [] \<and> ur_hostname u \<notin> {None, Some []})
        (schema ''s2s.endpoint'')
      @ must (case parsed of None \<Rightarrow> True | Some u \<Rightarrow> ur_username u = None \<and> ur_password u = None)
          (secret ''s2s.endpoint'')
      @ must (\<not> (sensitive_query e query
                 \<or> list_ex (\<lambda>s. py_in s endpoint) (ce_credentials e)
                 \<or> list_ex (\<lambda>(k, v). v \<in> set (ce_credentials e) \<or> secret_value e v) query))
          (secret ''s2s.endpoint''))"

definition s2s_fields :: "string list" where
  "s2s_fields = [''provider'', ''endpoint'', ''resource_id'', ''model_version'', ''adapter_version'',
     ''protocol_profile'', ''credential_ref'']"

fun backoff_list :: "json \<Rightarrow> bool" where
  "backoff_list (JList xs) = (xs \<noteq> [] \<and> list_all (\<lambda>x. case x of JInt n \<Rightarrow> 0 \<le> n | _ \<Rightarrow> False) xs)"
| "backoff_list _ = False"

definition s2s_issues :: "cfg_env \<Rightarrow> json \<Rightarrow> issue list" where
  "s2s_issues e config =
     (let s = jget config ''s2s'';
          req = s2s_fields @ [''credential_revision_ref'', ''connect_timeout_ms'', ''start_session_timeout_ms'',
                              ''max_retries'', ''retry_backoff_ms''] in
      exact_keys s ''s2s'' req req
      @ (if \<not> is_obj s then []
         else
           each s2s_fields (\<lambda>k. must (full_str (jget s k)) (schema (''s2s.'' @ k)))
           @ must (case jget s ''credential_ref'' of JStr r \<Rightarrow> env_ref r | _ \<Rightarrow> True) (secret ''s2s.credential_ref'')
           @ must (jget s ''credential_revision_ref'' = JNull \<or> nonblank_str (jget s ''credential_revision_ref''))
               (schema ''s2s.credential_revision_ref'')
           @ (case jget s ''endpoint'' of JStr a \<Rightarrow> endpoint_issues e a | _ \<Rightarrow> [])
           @ int_range (jget s ''connect_timeout_ms'') ''s2s.connect_timeout_ms'' 5000 (Some 30000)
           @ int_range (jget s ''start_session_timeout_ms'') ''s2s.start_session_timeout_ms'' 5000 (Some 30000)
           @ int_range (jget s ''max_retries'') ''s2s.max_retries'' 0 (Some 10)
           @ must (backoff_list (jget s ''retry_backoff_ms'')) (range_issue ''s2s.retry_backoff_ms'')))"

definition candidate_issues :: "nat \<Rightarrow> json \<Rightarrow> issue list" where
  "candidate_issues i item =
     (let field = ''voice.candidates['' @ nat_str i @ '']''; req = [''voice_id'', ''voice_version'', ''enabled''] in
      exact_keys item field req req
      @ (if \<not> is_obj item then []
         else each [''voice_id'', ''voice_version''] (\<lambda>k. must (nonblank_str (jget item k)) (schema (field @ ''.'' @ k)))
              @ must (is_bool (jget item ''enabled'')) (schema (field @ ''.enabled''))))"

definition candidate_ids :: "json list \<Rightarrow> json list" where
  "candidate_ids items = filter is_str (map (\<lambda>i. jget i ''voice_id'') (filter is_obj items))"

definition voice_issues :: "json \<Rightarrow> issue list" where
  "voice_issues config =
     (let v = jget config ''voice'';
          req = [''voice_id'', ''voice_version'', ''candidates'', ''persona_mapping'', ''speech_rate'',
                 ''loudness_rate'', ''expressive'', ''tone_instruction''] in
      exact_keys v ''voice'' req req
      @ (if \<not> is_obj v then []
         else
           each [''voice_id'', ''voice_version''] (\<lambda>k. must (full_str (jget v k)) (schema (''voice.'' @ k)))
           @ int_range (jget v ''speech_rate'') ''voice.speech_rate'' (- 50) (Some 100)
           @ int_range (jget v ''loudness_rate'') ''voice.loudness_rate'' (- 50) (Some 100)
           @ must (is_bool (jget v ''expressive'')) (schema ''voice.expressive'')
           @ (case jget v ''candidates'' of
                JList (c # cs) \<Rightarrow>
                  concat (map (\<lambda>(i, item). candidate_issues i item) (zip [0..<length (c # cs)] (c # cs)))
                  @ must (distinct (candidate_ids (c # cs))) (schema ''voice.candidates'')
              | _ \<Rightarrow> [schema ''voice.candidates''])
           @ must (is_obj (jget v ''persona_mapping'')) (schema ''voice.persona_mapping'')
           @ must (is_str (jget v ''tone_instruction'')) (schema ''voice.tone_instruction'')))"

definition VOICE_CAPABILITY_KEYS :: "string list" where
  "VOICE_CAPABILITY_KEYS = [''supports_current_turn_rag_gate'', ''supports_reply_cancel'',
     ''supports_context_truncate'', ''supports_playback_text_mapping'', ''supports_sentence_playback_ack'',
     ''supports_session_reconnect'']"

definition projection_fields :: "string list" where
  "projection_fields = [''provider_profile'', ''model_version'', ''protocol_profile'', ''adapter_version'',
     ''sdk_version'', ''evidence_suite_version'', ''evidence_fingerprint'', ''verified_at'', ''expires_at'',
     ''evidence_report_id'']"

definition capability_fields :: "string list" where
  "capability_fields = [''verification_status'', ''enabled'', ''forced_enabled'', ''effective_scope'',
     ''fallback_mode'', ''evidence_ttl_days'', ''last_test_result''] @ projection_fields"

definition capability_issues :: "json \<Rightarrow> string \<Rightarrow> issue list" where
  "capability_issues caps key =
     (let item = jget caps key; base = ''capabilities.'' @ key;
          status = jget item ''verification_status''; scope = jget item ''effective_scope'';
          result = jget item ''last_test_result'' in
      exact_keys item base capability_fields capability_fields
      @ (if \<not> is_obj item then []
         else
           each [''enabled'', ''forced_enabled''] (\<lambda>k. must (is_bool (jget item k)) (schema (base @ ''.'' @ k)))
           @ must (nonblank_str (jget item ''fallback_mode'')) (schema (base @ ''.fallback_mode''))
           @ each projection_fields
               (\<lambda>k. must (jget item k = JNull \<or> nonblank_str (jget item k)) (schema (base @ ''.'' @ k)))
           @ must (str_in [''not_run'', ''passed'', ''failed'', ''error''] result) (schema (base @ ''.last_test_result''))
           @ (if status = JStr (asc ''verified'') then [manual (base @ ''.verification_status'')]
              else must (str_in [''unverified'', ''failed'', ''stale''] status) (schema (base @ ''.verification_status'')))
           @ must (str_in [''off'', ''test'', ''all''] scope) (schema (base @ ''.effective_scope''))
           @ must (\<not> str_in [''failed'', ''stale''] status) (manual (base @ ''.verification_status''))
           @ must (\<not> str_in [''test'', ''all''] scope) (manual (base @ ''.effective_scope''))
           @ each [''enabled'', ''forced_enabled'']
               (\<lambda>k. must (jget item k \<noteq> JBool True) (manual (base @ ''.'' @ k)))
           @ each projection_fields (\<lambda>k. must (jget item k = JNull) (manual (base @ ''.'' @ k)))
           @ must (\<not> str_in [''passed'', ''failed'', ''error''] result) (manual (base @ ''.last_test_result''))
           @ int_range (jget item ''evidence_ttl_days'') (base @ ''.evidence_ttl_days'') 7 (Some 90)))"

definition capabilities_issues :: "json \<Rightarrow> issue list" where
  "capabilities_issues config =
     (let caps = jget config ''capabilities'' in
      if \<not> is_obj caps then [schema ''capabilities'']
      else
        map (\<lambda>k. schema (''capabilities.'' @ k)) (sort (filter (\<lambda>k. \<not> jhas caps k) VOICE_CAPABILITY_KEYS))
        @ map (\<lambda>k. schema (''capabilities.'' @ k))
            (sort (filter (\<lambda>k. k \<notin> set VOICE_CAPABILITY_KEYS) (jkeys caps)))
        @ each VOICE_CAPABILITY_KEYS (capability_issues caps))"

definition quota_issues :: "json \<Rightarrow> issue list" where
  "quota_issues config =
     (let q = jget config ''quota'';
          req = [''daily_free_seconds'', ''grace_seconds'', ''hard_limit_seconds'', ''timezone''] in
      exact_keys q ''quota'' req req
      @ (if \<not> is_obj q then []
         else int_range (jget q ''daily_free_seconds'') ''quota.daily_free_seconds'' 0 None
              @ int_range (jget q ''grace_seconds'') ''quota.grace_seconds'' 0 (Some 30)
              @ int_range (jget q ''hard_limit_seconds'') ''quota.hard_limit_seconds'' 1 None
              @ must (jget q ''timezone'' = JStr (asc ''Asia/Shanghai'')) (schema ''quota.timezone'')))"

definition growth_issues :: "json \<Rightarrow> issue list" where
  "growth_issues config =
     (let g = jget config ''growth'';
          req = [''segment_seconds'', ''points_per_segment'', ''daily_limit_points'', ''timezone''] in
      exact_keys g ''growth'' req req
      @ (if \<not> is_obj g then []
         else each [''segment_seconds'', ''points_per_segment''] (\<lambda>k. int_range (jget g k) (''growth.'' @ k) 1 None)
              @ int_range (jget g ''daily_limit_points'') ''growth.daily_limit_points'' 0 None
              @ must (jget g ''timezone'' = JStr (asc ''Asia/Shanghai'')) (schema ''growth.timezone'')))"

definition VOICE_INTERACTION_DEFAULTS :: "(string \<times> json) list" where
  "VOICE_INTERACTION_DEFAULTS = [(''vad_rms_threshold'', JFloat (Fin (15 / 1000))), (''candidate_ms'', JInt 200),
     (''sustained_ms'', JInt 600), (''goodbye_timeout_ms'', JInt 10000), (''post_playback_buffer_ms'', JInt 800),
     (''time_low_seconds'', JInt 60)]"

definition VOICE_CONNECTION_DEFAULTS :: "(string \<times> json) list" where
  "VOICE_CONNECTION_DEFAULTS = [(''heartbeat_interval_ms'', JInt 5000), (''user_lock_ttl_ms'', JInt 15000),
     (''reconnect_timeout_ms'', JInt 15000), (''call_ticket_ttl_ms'', JInt 30000)]"

definition interaction_ranges :: "(string \<times> int \<times> int) list" where
  "interaction_ranges = [(''candidate_ms'', 180, 250), (''sustained_ms'', 250, 2000),
     (''post_playback_buffer_ms'', 0, 3000), (''goodbye_timeout_ms'', 1000, 30000), (''time_low_seconds'', 1, 300)]"

definition ranges :: "(string \<Rightarrow> json) \<Rightarrow> string \<Rightarrow> (string \<times> int \<times> int) list \<Rightarrow> issue list" where
  "ranges eff base rs = concat (map (\<lambda>(k, lo, hi). int_range (eff k) (base @ ''.'' @ k) lo (Some hi)) rs)"

definition interaction_issues :: "json \<Rightarrow> issue list" where
  "interaction_issues config =
     (if \<not> jhas config ''interaction'' then []
      else
        let i = jget config ''interaction''; eff = jmerge VOICE_INTERACTION_DEFAULTS i in
        exact_keys i ''interaction'' [] (map fst VOICE_INTERACTION_DEFAULTS)
        @ (if \<not> is_obj i then []
           else
             must (case as_number (eff ''vad_rms_threshold'') of
                     None \<Rightarrow> False
                   | Some r \<Rightarrow> pf_le (Fin (1 / 1000)) r \<and> pf_le r (Fin (2 / 10)))
               (range_issue ''interaction.vad_rms_threshold'')
             @ ranges eff ''interaction'' interaction_ranges
             @ (case (eff ''candidate_ms'', eff ''sustained_ms'') of
                  (JInt c, JInt s) \<Rightarrow> must (c < s) (range_issue ''interaction.sustained_ms'')
                | _ \<Rightarrow> [])))"

definition connection_ranges :: "(string \<times> int \<times> int) list" where
  "connection_ranges = [(''heartbeat_interval_ms'', 1000, 10000), (''user_lock_ttl_ms'', 10000, 60000),
     (''reconnect_timeout_ms'', 1000, 60000), (''call_ticket_ttl_ms'', 5000, 60000)]"

definition concurrency_issues :: "json \<Rightarrow> issue list" where
  "concurrency_issues config =
     (let c = jget config ''concurrency''; eff = jmerge VOICE_CONNECTION_DEFAULTS c in
      exact_keys c ''concurrency'' [''global_limit''] (''global_limit'' # map fst VOICE_CONNECTION_DEFAULTS)
      @ (if \<not> is_obj c then []
         else
           int_range (jget c ''global_limit'') ''concurrency.global_limit'' 1 None
           @ ranges eff ''concurrency'' connection_ranges
           @ (case (eff ''heartbeat_interval_ms'', eff ''user_lock_ttl_ms'') of
                (JInt h, JInt t) \<Rightarrow> must (3 * h \<le> t) (schema ''concurrency.user_lock_ttl_ms'')
              | _ \<Rightarrow> [])))"

definition followup_issues :: "json \<Rightarrow> issue list" where
  "followup_issues config =
     (let f = jget config ''followup''; req = [''summary_min_effective_seconds'', ''schedule''] in
      exact_keys f ''followup'' req req
      @ (if \<not> is_obj f then []
         else int_range (jget f ''summary_min_effective_seconds'') ''followup.summary_min_effective_seconds'' 1 None
              @ validate_followup_schedule (jget f ''schedule'')))"

definition retention_fields :: "string list" where
  "retention_fields = [''effective_transcript_days'', ''generated_debug_days'', ''reasoning_days'',
     ''crisis_raw_days'', ''job_log_days'']"

definition retention_issues :: "json \<Rightarrow> issue list" where
  "retention_issues config =
     (let r = jget config ''retention'' in
      exact_keys r ''retention'' retention_fields retention_fields
      @ (if \<not> is_obj r then [] else each retention_fields (\<lambda>k. int_range (jget r k) (''retention.'' @ k) 1 None)))"

definition config_top :: "string list" where
  "config_top = [''schema_version'', ''global'', ''persona_ref'', ''s2s'', ''voice'', ''capabilities'', ''quota'',
     ''growth'', ''concurrency'', ''followup'', ''retention'']"

definition version_issues :: "json \<Rightarrow> issue list" where
  "version_issues config = must (py_eq_int (jget config ''schema_version'') 1) (schema ''schema_version'')"

definition validate_voice_call_config :: "cfg_env \<Rightarrow> json \<Rightarrow> issue list" where
  "validate_voice_call_config e config =
     exact_keys config ''config'' config_top (config_top @ [''interaction'', ''summary''])
     @ summary_issues config ''model'' @ version_issues config @ global_issues config @ persona_issues config
     @ s2s_issues e config @ voice_issues config @ capabilities_issues config @ quota_issues config
     @ growth_issues config @ interaction_issues config @ concurrency_issues config @ followup_issues config
     @ retention_issues config"

section \<open>The script\<close>

definition section_fields :: "(string \<times> string list) list" where
  "section_fields = [
     (''context_pack'', [''voice_instruction_template'', ''fallback_template_sections'', ''persona_max_chars'',
        ''dynamic_max_chars'', ''recent_dialog_max_chars'', ''memory_max_items'', ''memory_lookback_days'',
        ''build_budget_ms'', ''ready_barrier_enabled'']),
     (''call_answer'', [''prompt_template'', ''failure_fallback'', ''min_ring_seconds'', ''max_wait_seconds'',
        ''fallback_delay_min_seconds'', ''fallback_delay_max_seconds'']),
     (''recall'', [''prompt_template'', ''trigger_rules'', ''max_query_chars'', ''top_k'', ''score_threshold'',
        ''timeout_ms'', ''embedding_timeout_ms'', ''vector_timeout_ms'']),
     (''memory'', [''prompt_template'', ''max_items_per_turn'']),
     (''barge_in'', [''weak_acknowledgements'', ''strong_interruptions'', ''upgrade_connectors'']),
     (''silence_and_exit'', [''exit_intent_template'', ''silence_timeout_template'', ''silence_confirm_seconds'',
        ''silence_hangup_seconds'', ''user_resume_cancels_exit'']),
     (''followup'', [''missed_explanation_template'']),
     (''end_reason'', [''user_hangup'', ''user_cancel'', ''exit_intent'', ''silence_timeout'', ''quota_exhausted'',
        ''hard_limit'', ''reconnect_timeout'', ''provider_error'', ''system_error'']),
     (''reconnect_bridge'', [''success_template'']),
     (''crisis'', [''region'', ''in_call_banner'', ''post_call_resource_card''])]"

definition section_issues :: "json \<Rightarrow> issue list" where
  "section_issues config = concat (map (\<lambda>(sec, fs). exact_keys (jget config sec) sec fs
     (if sec = ''memory'' then fs @ [''max_retries'', ''retry_backoff_ms''] else fs)) section_fields)"

definition context_issues :: "json \<Rightarrow> issue list" where
  "context_issues config =
     (let c = jget config ''context_pack'' in
      if \<not> is_obj c then []
      else
        must (is_str (jget c ''voice_instruction_template'')) (schema ''context_pack.voice_instruction_template'')
        @ each [''persona_max_chars'', ''dynamic_max_chars'', ''recent_dialog_max_chars'', ''memory_max_items'',
            ''memory_lookback_days'', ''build_budget_ms''] (\<lambda>k. int_range (jget c k) (''context_pack.'' @ k) 1 None)
        @ must (is_bool (jget c ''ready_barrier_enabled'')) (schema ''context_pack.ready_barrier_enabled'')
        @ must (text_list (jget c ''fallback_template_sections'')) (schema ''context_pack.fallback_template_sections'')
        @ (case (jget c ''dynamic_max_chars'', jget c ''recent_dialog_max_chars'') of
             (JInt d, JInt r) \<Rightarrow> must (r \<le> d) (range_issue ''context_pack.recent_dialog_max_chars'')
           | _ \<Rightarrow> []))"

definition answer_issues :: "json \<Rightarrow> issue list" where
  "answer_issues config =
     (let c = jget config ''call_answer'' in
      if \<not> is_obj c then []
      else
        must (is_str (jget c ''prompt_template'')) (schema ''call_answer.prompt_template'')
        @ each [''min_ring_seconds'', ''max_wait_seconds'', ''fallback_delay_min_seconds'', ''fallback_delay_max_seconds'']
            (\<lambda>k. int_range (jget c k) (''call_answer.'' @ k) 1 None)
        @ must (jget c ''failure_fallback'' = JStr (asc ''answer'')) (schema ''call_answer.failure_fallback'')
        @ (case (jget c ''min_ring_seconds'', jget c ''max_wait_seconds'') of
             (JInt a, JInt b) \<Rightarrow> must (a < b) (range_issue ''call_answer.min_ring_seconds'') | _ \<Rightarrow> [])
        @ (case (jget c ''fallback_delay_min_seconds'', jget c ''fallback_delay_max_seconds'') of
             (JInt a, JInt b) \<Rightarrow> must (a \<le> b) (range_issue ''call_answer.fallback_delay_min_seconds'') | _ \<Rightarrow> []))"

definition recall_issues :: "json \<Rightarrow> issue list" where
  "recall_issues config =
     (let c = jget config ''recall'' in
      if \<not> is_obj c then []
      else
        must (is_str (jget c ''prompt_template'')) (schema ''recall.prompt_template'')
        @ each [''max_query_chars'', ''top_k'', ''timeout_ms'', ''embedding_timeout_ms'', ''vector_timeout_ms'']
            (\<lambda>k. int_range (jget c k) (''recall.'' @ k) 1 None)
        @ number_range (jget c ''score_threshold'') ''recall.score_threshold'' 0 (Some 1))"

text \<open>The retry delays: as many as retries, each 100 to 60000 ms, in non-decreasing order.\<close>

definition delays_ok :: "json \<Rightarrow> json \<Rightarrow> bool" where
  "delays_ok retries delays =
     (case (retries, delays) of
        (JInt n, JList ds) \<Rightarrow>
          0 \<le> n \<and> n \<le> 5 \<and> int (length ds) = n \<and>
          list_all (\<lambda>d. case d of JInt k \<Rightarrow> 100 \<le> k \<and> k \<le> 60000 | _ \<Rightarrow> False) ds \<and>
          sorted (List.map_filter as_int ds)
      | _ \<Rightarrow> False)"

definition memory_issues :: "json \<Rightarrow> issue list" where
  "memory_issues config =
     (let m = jget config ''memory'' in
      if \<not> is_obj m then []
      else
        must (delays_ok (jget_def' m ''max_retries'' (JInt 2)) (jget_def' m ''retry_backoff_ms'' (JList [JInt 1000, JInt 5000])))
          (range_issue ''memory.retry_backoff_ms'')
        @ must (is_str (jget m ''prompt_template'')) (schema ''memory.prompt_template'')
        @ int_range (jget m ''max_items_per_turn'') ''memory.max_items_per_turn'' 1 None)"

definition silence_issues :: "json \<Rightarrow> issue list" where
  "silence_issues config =
     (let s = jget config ''silence_and_exit'' in
      if \<not> is_obj s then []
      else
        each [''exit_intent_template'', ''silence_timeout_template'']
          (\<lambda>k. must (nonblank_str (jget s k)) (schema (''silence_and_exit.'' @ k)))
        @ int_range (jget s ''silence_confirm_seconds'') ''silence_and_exit.silence_confirm_seconds'' 1 None
        @ int_range (jget s ''silence_hangup_seconds'') ''silence_and_exit.silence_hangup_seconds'' 1 None
        @ must (is_bool (jget s ''user_resume_cancels_exit'')) (schema ''silence_and_exit.user_resume_cancels_exit'')
        @ (case (jget s ''silence_confirm_seconds'', jget s ''silence_hangup_seconds'') of
             (JInt a, JInt b) \<Rightarrow> must (a < b) (range_issue ''silence_and_exit.silence_confirm_seconds'') | _ \<Rightarrow> []))"

definition template_issues :: "json \<Rightarrow> string \<Rightarrow> string \<Rightarrow> issue list" where
  "template_issues config sec k =
     (let s = jget config sec in
      if \<not> is_obj s then [] else must (nonblank_str (jget s k)) (schema (sec @ ''.'' @ k)))"

definition end_reason_issues :: "json \<Rightarrow> issue list" where
  "end_reason_issues config =
     (let r = jget config ''end_reason'' in
      if \<not> is_obj r then []
      else
        each [''user_hangup'', ''exit_intent'', ''silence_timeout'', ''quota_exhausted'', ''hard_limit'', ''reconnect_timeout'']
          (\<lambda>k. must (nonblank_str (jget r k)) (schema (''end_reason.'' @ k)))
        @ (let u = jget r ''user_cancel'' in
           exact_keys u ''end_reason.user_cancel'' [''show_end_page'', ''action''] [''show_end_page'', ''action'']
           @ (if \<not> is_obj u then []
              else must (jget u ''show_end_page'' = JBool False) (schema ''end_reason.user_cancel.show_end_page'')
                   @ must (jget u ''action'' = JStr (asc ''return_to_chat'')) (schema ''end_reason.user_cancel.action'')))
        @ each [''provider_error'', ''system_error''] (\<lambda>c.
            let v = jget r c; base = ''end_reason.'' @ c in
            exact_keys v base [''before_connected'', ''after_connected''] [''before_connected'', ''after_connected'']
            @ (if \<not> is_obj v then []
               else each [''before_connected'', ''after_connected'']
                      (\<lambda>ph. must (nonblank_str (jget v ph)) (schema (base @ ''.'' @ ph))))))"

definition crisis_issues :: "json \<Rightarrow> issue list" where
  "crisis_issues config =
     each [''region'', ''in_call_banner'', ''post_call_resource_card''] (template_issues config ''crisis'')"

definition text_list_issues :: "json \<Rightarrow> string \<Rightarrow> string \<Rightarrow> issue list" where
  "text_list_issues config sec k =
     (let s = jget config sec in
      if \<not> is_obj s then [] else must (text_list (jget s k)) (schema (sec @ ''.'' @ k)))"

definition script_top :: "string list" where
  "script_top = [''schema_version'', ''context_pack'', ''call_answer'', ''recall'', ''memory'', ''barge_in'',
     ''silence_and_exit'', ''followup'', ''end_reason'', ''reconnect_bridge'', ''crisis'']"

definition validate_voice_call_script :: "json \<Rightarrow> issue list" where
  "validate_voice_call_script config =
     exact_keys config ''script'' script_top (script_top @ [''summary''])
     @ summary_issues config ''prompt_template'' @ version_issues config @ section_issues config
     @ context_issues config @ answer_issues config @ recall_issues config @ memory_issues config
     @ silence_issues config @ template_issues config ''followup'' ''missed_explanation_template''
     @ template_issues config ''reconnect_bridge'' ''success_template'' @ end_reason_issues config
     @ crisis_issues config
     @ each [''weak_acknowledgements'', ''strong_interruptions'', ''upgrade_connectors''] (text_list_issues config ''barge_in'')
     @ text_list_issues config ''recall'' ''trigger_rules''"

definition validate_voice_bundle :: "cfg_env \<Rightarrow> string \<Rightarrow> json \<Rightarrow> issue list" where
  "validate_voice_bundle e key config =
     (if \<not> is_obj config then [schema ''config'']
      else scan_forbidden_fields e config
        @ (if key = ''voice_call_config'' then validate_voice_call_config e config
           else if key = ''voice_call_script'' then validate_voice_call_script config
           else [schema ''config_key'']))"

end
