(* ===== verification/Quota.thy ===== *)
theory Quota
  imports CallState "HOL-Library.Char_ord" "HOL-Library.List_Lexorder" "HOL-Library.Product_Lexorder"
begin

text \<open>
  The connected meter and the settlement of voice quota (\<open>realtime_voice_quota_service.py\<close>).

  A meter (\<open>ConnectedMeter\<close>) accumulates connected and grace seconds from server observations and
  cuts them into slices per Shanghai date and kind; it writes nothing. Settlement compares the slices
  with the ledger rows of the call, debits the account by the difference and appends the difference
  to the ledger. The checkpoint store keeps the last meter of each call; its JSON text is read as the
  meter it encodes. A local wall reading is an instant; \<open>timedelta(seconds=x)\<close> rounds to
  microseconds, half to even.
\<close>

section \<open>Numbers\<close>

definition td_us :: "rat \<Rightarrow> int" where
  "td_us s = (let x = s * 1000000; f = \<lfloor>x\<rfloor>; d = x - of_int f in
     if d < 1 / 2 then f else if 1 / 2 < d then f + 1 else if even f then f else f + 1)"

definition secs :: "int \<Rightarrow> rat" where
  "secs us = of_int us / 1000000"

text \<open>\<open>int(x)\<close> truncates towards zero.\<close>

definition py_int :: "rat \<Rightarrow> int" where
  "py_int x = (if 0 \<le> x then \<lfloor>x\<rfloor> else \<lceil>x\<rceil>)"

definition nano :: rat where
  "nano = 1 / 1000000000"

section \<open>The meter\<close>

record slice =
  sl_date :: date
  sl_kind :: string
  sl_duration :: int
  sl_free :: int
  sl_extra :: int

record meter =
  mt_call_id :: string
  mt_user_id :: int
  mt_daily_seconds :: int
  mt_grace_limit :: int
  mt_last_monotonic :: "clock option"
  mt_last_wall :: "datetime option"
  mt_connected :: bool
  mt_remainder :: rat
  mt_grace_started :: "clock option"
  mt_grace_wall :: "datetime option"
  mt_grace_seconds :: int
  mt_slices :: "slice list"
  mt_muted :: bool
  mt_growth_seconds :: rat

record balance_view =
  bl_free :: int
  bl_extra :: int

definition bl_total :: "balance_view \<Rightarrow> int" where
  "bl_total b = bl_free b + bl_extra b"

definition new_meter :: "string \<Rightarrow> int \<Rightarrow> int \<Rightarrow> int \<Rightarrow> meter res" where
  "new_meter cid u daily grace_limit =
     (if cid = [] \<or> u < 1 then Inl (QuotaError ''meter_identity_invalid'')
      else if daily < 0 then Inl (QuotaError ''daily_quota_invalid'')
      else if \<not> (0 \<le> grace_limit \<and> grace_limit \<le> 30) then Inl (QuotaError ''grace_limit_invalid'')
      else Inr \<lparr>mt_call_id = cid, mt_user_id = u, mt_daily_seconds = daily, mt_grace_limit = grace_limit,
        mt_last_monotonic = None, mt_last_wall = None, mt_connected = False, mt_remainder = 0,
        mt_grace_started = None, mt_grace_wall = None, mt_grace_seconds = 0, mt_slices = [],
        mt_muted = False, mt_growth_seconds = 0\<rparr>)"

section \<open>Balances\<close>

text \<open>The ledger rows of a user's calls: the join of ledger and calls.\<close>

definition user_rows :: "int \<Rightarrow> database \<Rightarrow> ledger_row list" where
  "user_rows u db = filter (\<lambda>r. list_ex (\<lambda>c. vc_call_id c = lg_call_id r \<and> vc_user_id c = u) (db_calls db))
     (db_ledger db)"

definition day_rows :: "int \<Rightarrow> date \<Rightarrow> database \<Rightarrow> ledger_row list" where
  "day_rows u day db = filter (\<lambda>r. lg_quota_date r = Some day) (user_rows u db)"

definition balance :: "int \<Rightarrow> int \<Rightarrow> datetime \<Rightarrow> bool \<Rightarrow> database \<Rightarrow> balance_view res" where
  "balance u daily now published db =
     (if daily < 0 then Inl (QuotaError ''daily_quota_invalid'')
      else (case get_account u db of
        None \<Rightarrow> Inr \<lparr>bl_free = daily, bl_extra = 0\<rparr>
      | Some a \<Rightarrow>
          let day = sh_date now in
          if day < qa_free_quota_date a then Inl (QuotaError ''quota_clock_reversed'')
          else
            let free = (if qa_free_quota_date a = day then qa_free_remaining_seconds a else daily);
                rows = day_rows u day db;
                used = sum_list (map lg_free_seconds_used rows);
                free' = (if published \<and> qa_free_quota_date a = day \<and> (rows \<noteq> [] \<or> free \<noteq> 0)
                         then max 0 (daily - used) else free) in
            Inr \<lparr>bl_free = free', bl_extra = qa_extra_remaining_seconds a\<rparr>))"

definition add_account :: "quota_account \<Rightarrow> database \<Rightarrow> database" where
  "add_account a db = db\<lparr>db_accounts := db_accounts db @ [a]\<rparr>"

definition granted_account :: "int \<Rightarrow> date \<Rightarrow> int \<Rightarrow> quota_account" where
  "granted_account u day free = \<lparr>qa_user_id = u, qa_free_quota_date = day, qa_free_remaining_seconds = free,
     qa_extra_remaining_seconds = 0, qa_version = 0\<rparr>"

definition account_version :: "quota_account option \<Rightarrow> int" where
  "account_version a = (case a of None \<Rightarrow> 0 | Some a \<Rightarrow> qa_version a)"

text \<open>The account the grant works on: an existing one, or one derived from today's ledger.\<close>

definition grant_target :: "int \<Rightarrow> int \<Rightarrow> date \<Rightarrow> database \<Rightarrow> (quota_account \<times> database) res" where
  "grant_target u daily day db =
     (case get_account u db of
        None \<Rightarrow>
          if list_ex (\<lambda>c. vc_user_id c = u \<and> vc_status c \<in> set ACTIVE) (db_calls db)
          then Inl (QuotaError ''quota_admin_active_call'')
          else let a = granted_account u day
                         (max 0 (daily - sum_list (map lg_free_seconds_used (day_rows u day db)))) in
               Inr (a, add_account a db)
      | Some a \<Rightarrow> if day < qa_free_quota_date a then Inl (QuotaError ''quota_clock_reversed'') else Inr (a, db))"

definition credited :: "int \<Rightarrow> quota_account \<Rightarrow> quota_account" where
  "credited seconds a = a\<lparr>qa_extra_remaining_seconds := qa_extra_remaining_seconds a + seconds,
     qa_version := qa_version a + 1\<rparr>"

definition grant_extra ::
  "int \<Rightarrow> int \<Rightarrow> int \<Rightarrow> int \<Rightarrow> datetime \<Rightarrow> database \<Rightarrow> (balance_view \<times> int \<times> database) res" where
  "grant_extra u seconds expected_version daily now db =
     (if \<not> (1 \<le> seconds \<and> seconds \<le> 86400) then Inl (QuotaError ''quota_admin_amount_invalid'')
      else if expected_version < 0 then Inl (QuotaError ''quota_admin_version_invalid'')
      else if daily < 0 then Inl (QuotaError ''daily_quota_invalid'')
      else if u \<notin> set (db_users db) then Inl (QuotaError ''quota_admin_user_missing'')
      else if account_version (get_account u db) \<noteq> expected_version
      then Inl (QuotaError ''quota_admin_version_conflict'')
      else bindR (grant_target u daily (sh_date now) db) (\<lambda>(a, db1).
        if 2147483647 - seconds < qa_extra_remaining_seconds a
        then Inl (QuotaError ''quota_admin_balance_overflow'')
        else
          let db2 = put_account (credited seconds a) db1 in
          bindR (balance u daily now True db2) (\<lambda>b. Inr (b, qa_version (credited seconds a), db2))))"

definition apply_published_balance :: "int \<Rightarrow> datetime \<Rightarrow> int \<Rightarrow> database \<Rightarrow> database" where
  "apply_published_balance u now free_remaining db =
     (case get_account u db of
        None \<Rightarrow> db
      | Some a \<Rightarrow>
          if qa_free_quota_date a = sh_date now \<and> qa_free_remaining_seconds a \<noteq> free_remaining
          then put_account (a\<lparr>qa_free_remaining_seconds := free_remaining, qa_version := qa_version a + 1\<rparr>) db
          else db)"

section \<open>Reserved seconds\<close>

definition call_rows :: "string \<Rightarrow> database \<Rightarrow> ledger_row list" where
  "call_rows cid db = filter (\<lambda>r. lg_call_id r = cid) (db_ledger db)"

text \<open>Unsettled free seconds of a date, and unsettled extra seconds.\<close>

definition free_reserved :: "meter \<Rightarrow> ledger_row list \<Rightarrow> date \<Rightarrow> int" where
  "free_reserved m rows day =
     sum_list (map sl_free (filter (\<lambda>s. sl_date s = day) (mt_slices m)))
     - sum_list (map lg_free_seconds_used (filter (\<lambda>r. lg_quota_date r = Some day) rows))"

definition extra_reserved :: "meter \<Rightarrow> ledger_row list \<Rightarrow> int" where
  "extra_reserved m rows =
     sum_list (map sl_extra (mt_slices m)) - sum_list (map lg_extra_seconds_used rows)"

definition remaining :: "meter \<Rightarrow> datetime \<Rightarrow> database \<Rightarrow> int res" where
  "remaining m now db =
     bindR (balance (mt_user_id m) (mt_daily_seconds m) now False db) (\<lambda>b.
       let rows = call_rows (mt_call_id m) db;
           free = free_reserved m rows (sh_date now);
           extra = extra_reserved m rows in
       if free < 0 \<or> extra < 0 then Inl (QuotaError ''observation_checkpoint_stale'')
       else Inr (max 0 (bl_free b - free) + max 0 (bl_extra b - extra)))"

section \<open>Observation\<close>

text \<open>\<open>_append\<close>: extend the last slice when date and kind agree, else open a new one.\<close>

definition append_slice :: "slice list \<Rightarrow> date \<Rightarrow> string \<Rightarrow> int \<Rightarrow> int \<Rightarrow> int \<Rightarrow> slice list" where
  "append_slice ss day kind seconds free extra =
     (if seconds = 0 then ss
      else if ss \<noteq> [] \<and> sl_date (last ss) = day \<and> sl_kind (last ss) = kind
      then butlast ss @ [(last ss)\<lparr>sl_duration := sl_duration (last ss) + seconds,
                                   sl_free := sl_free (last ss) + free,
                                   sl_extra := sl_extra (last ss) + extra\<rparr>]
      else ss @ [\<lparr>sl_date = day, sl_kind = kind, sl_duration = seconds, sl_free = free, sl_extra = extra\<rparr>])"

definition next_midnight :: "datetime \<Rightarrow> datetime" where
  "next_midnight cursor = sh_midnight (sh_date cursor + 1)"

text \<open>One turn of the charging loop, on a portion that stays within one Shanghai date.\<close>

definition charge_portion ::
  "database \<Rightarrow> clock \<Rightarrow> datetime \<Rightarrow> rat \<Rightarrow> rat \<Rightarrow> meter \<Rightarrow> meter res" where
  "charge_portion db last0 cursor elapsed portion m =
     bindR (balance (mt_user_id m) (mt_daily_seconds m) cursor False db) (\<lambda>b.
       let day = sh_date cursor;
           rows = call_rows (mt_call_id m) db;
           fr = free_reserved m rows day;
           er = extra_reserved m rows in
       if fr < 0 \<or> er < 0 then Inl (QuotaError ''observation_checkpoint_stale'')
       else
         let free = max 0 (bl_free b - fr);
             extra = max 0 (bl_extra b - er);
             available = free + extra;
             prev = mt_remainder m;
             seconds = \<lfloor>portion + prev + nano\<rfloor>;
             charged = min seconds available;
             from_free = min charged free;
             slices = append_slice (mt_slices m) day ''connected'' charged from_free (charged - from_free);
             offset = max 0 (of_int available - prev);
             resets = (0 < mt_daily_seconds m \<and> \<bar>offset - secs (next_midnight cursor - cursor)\<bar> < nano);
             m1 = m\<lparr>mt_slices := slices, mt_remainder := portion + prev - of_int seconds\<rparr> in
         Inr (if available \<le> seconds \<and> \<not> resets
              then m1\<lparr>mt_grace_started := Some (last0 + elapsed + offset),
                      mt_grace_wall := Some (cursor + td_us offset), mt_remainder := 0\<rparr>
              else m1))"

lemma next_midnight_later: "cursor < next_midnight cursor"
  using sh_date_iff [of cursor "sh_date cursor"] by (simp add: next_midnight_def)

lemma secs_pos: "0 < n \<Longrightarrow> 1 / 1000000 \<le> secs n"
proof -
  assume "0 < n"
  then have "(1 :: rat) \<le> of_int n" by simp
  then show ?thesis by (simp add: secs_def divide_right_mono)
qed

function charge_loop ::
  "database \<Rightarrow> clock \<Rightarrow> datetime \<Rightarrow> rat \<Rightarrow> rat \<Rightarrow> meter \<Rightarrow> meter res" where
  "charge_loop db last0 cursor left elapsed m =
     (if nano < left \<and> mt_grace_started m = None then
        let portion = min left (secs (next_midnight cursor - cursor)) in
        (case charge_portion db last0 cursor elapsed portion m of
           Inl e \<Rightarrow> Inl e
         | Inr m' \<Rightarrow> charge_loop db last0 (cursor + td_us portion) (left - portion) (elapsed + portion) m')
      else Inr m)"
  by pat_completeness auto

termination
proof (relation "measure (\<lambda>(db, last0, cursor, left, elapsed, m). nat \<lceil>left * 1000000\<rceil>)", goal_cases)
  case 1
  show ?case by simp
next
  case (2 db last0 cursor left elapsed m portion m')
  have "0 < left" using 2(1) by (simp add: nano_def)
  moreover have "1 / 1000000 \<le> secs (next_midnight cursor - cursor)"
    by (rule secs_pos) (use next_midnight_later [of cursor] in simp)
  moreover have "portion = left \<or> portion = secs (next_midnight cursor - cursor)"
    using 2(2) by (simp add: min_def)
  ultimately have "(left - portion) * 1000000 \<le> left * 1000000 - 1 \<or> left - portion = 0"
    by auto
  moreover have pos: "0 < \<lceil>left * 1000000\<rceil>" using \<open>0 < left\<close> by simp
  moreover have "\<lceil>(left - portion) * 1000000\<rceil> < \<lceil>left * 1000000\<rceil>"
  proof (cases "left - portion = 0")
    case True
    then show ?thesis using pos by simp
  next
    case False
    then have "(left - portion) * 1000000 \<le> left * 1000000 - 1" using calculation by blast
    then have "\<lceil>(left - portion) * 1000000\<rceil> \<le> \<lceil>left * 1000000 - 1\<rceil>" by (rule ceiling_mono)
    also have "\<dots> = \<lceil>left * 1000000\<rceil> - 1" by simp
    finally show ?thesis by simp
  qed
  ultimately show ?case by simp
qed

declare charge_loop.simps [simp del]

text \<open>The closing grace: whole seconds, cut at midnight.\<close>

function grace_loop :: "datetime \<Rightarrow> int \<Rightarrow> slice list \<Rightarrow> slice list" where
  "grace_loop cursor left ss =
     (if left = 0 then ss
      else
        let seconds = min left (max 1 \<lceil>secs (next_midnight cursor - cursor)\<rceil>) in
        grace_loop (cursor + seconds * us_second) (left - seconds)
          (append_slice ss (sh_date cursor) ''grace'' seconds 0 0))"
  by pat_completeness auto

termination
  by (relation "measure (\<lambda>(cursor, left, ss). nat \<bar>left\<bar>)") auto

declare grace_loop.simps [simp del]

definition grace_total :: "meter \<Rightarrow> clock \<Rightarrow> clock \<Rightarrow> int" where
  "grace_total m started tick = min (mt_grace_limit m) (max 0 (py_int (tick - started + nano)))"

definition count_grace :: "clock \<Rightarrow> meter \<Rightarrow> meter res" where
  "count_grace tick m =
     (case mt_grace_started m of
        None \<Rightarrow> Inr m
      | Some started \<Rightarrow>
          (case mt_grace_wall m of
             None \<Rightarrow> Inl (ValueError ''grace_wall'')
           | Some wall \<Rightarrow>
               let total = grace_total m started tick in
               Inr (m\<lparr>mt_slices := grace_loop (wall + mt_grace_seconds m * us_second)
                                    (total - mt_grace_seconds m) (mt_slices m),
                      mt_grace_seconds := total\<rparr>)))"

definition count_growth :: "clock \<Rightarrow> meter \<Rightarrow> meter" where
  "count_growth tick m =
     (case mt_last_monotonic m of
        None \<Rightarrow> m
      | Some l \<Rightarrow>
          if mt_connected m \<and> \<not> mt_muted m
          then let growth_end = (case mt_grace_started m of None \<Rightarrow> tick | Some g \<Rightarrow> min tick g) in
               m\<lparr>mt_growth_seconds := mt_growth_seconds m + max 0 (growth_end - l)\<rparr>
          else m)"

record observation =
  ob_in_grace :: bool
  ob_grace_seconds :: int
  ob_must_end :: bool

text \<open>The charging part of an observation: only a connected meter with a previous reading pays.\<close>

definition charge_since :: "clock \<Rightarrow> meter \<Rightarrow> database \<Rightarrow> meter res" where
  "charge_since tick m db =
     (case mt_last_monotonic m of
        None \<Rightarrow> Inr m
      | Some l \<Rightarrow>
          if mt_connected m \<and> mt_grace_started m = None
          then (case mt_last_wall m of
                  None \<Rightarrow> Inl (ValueError ''last_wall'')
                | Some wall \<Rightarrow> charge_loop db l wall (tick - l) 0 m)
          else Inr m)"

definition close_observation :: "bool \<Rightarrow> clock \<Rightarrow> datetime \<Rightarrow> bool \<Rightarrow> meter \<Rightarrow> meter" where
  "close_observation online tick now muted m =
     (count_growth tick m)\<lparr>mt_muted := muted, mt_last_monotonic := Some tick,
                            mt_last_wall := Some now, mt_connected := online\<rparr>"

definition observe ::
  "bool \<Rightarrow> clock \<Rightarrow> datetime \<Rightarrow> bool \<Rightarrow> meter \<Rightarrow> database \<Rightarrow> (observation \<times> meter) res" where
  "observe online tick now muted m db =
     (if (case mt_last_monotonic m of None \<Rightarrow> False | Some l \<Rightarrow> tick < l)
      then Inl (QuotaError ''observation_out_of_order'')
      else bindR (charge_since tick m db) (\<lambda>m1.
        bindR (count_grace tick m1) (\<lambda>m2.
          let m' = close_observation online tick now muted m2 in
          Inr (\<lparr>ob_in_grace = (mt_grace_started m' \<noteq> None), ob_grace_seconds = mt_grace_seconds m',
                ob_must_end = (case mt_grace_started m' of None \<Rightarrow> False
                               | Some g \<Rightarrow> g + of_int (mt_grace_limit m') \<le> tick)\<rparr>, m'))))"

section \<open>Settlement\<close>

type_synonym use_key = "date \<times> string"
type_synonym use3 = "int \<times> int \<times> int"

definition slice_key :: "slice \<Rightarrow> use_key" where
  "slice_key s = (sl_date s, sl_kind s)"

text \<open>A ledger row as a slice; rows of before the dated ledger cannot be read as one.\<close>

definition row_slice :: "ledger_row \<Rightarrow> slice option" where
  "row_slice r = (case (lg_duration_seconds r, lg_quota_date r) of
     (Some d, Some q) \<Rightarrow> Some \<lparr>sl_date = q, sl_kind = lg_usage_type r, sl_duration = d,
                              sl_free = lg_free_seconds_used r, sl_extra = lg_extra_seconds_used r\<rparr>
   | _ \<Rightarrow> None)"

fun rows_slices :: "ledger_row list \<Rightarrow> slice list res" where
  "rows_slices [] = Inr []"
| "rows_slices (r # rs) =
     (case row_slice r of
        None \<Rightarrow> Inl (QuotaError ''legacy_usage_not_reconstructable'')
      | Some s \<Rightarrow> bindR (rows_slices rs) (\<lambda>ss. Inr (s # ss)))"

fun add3 :: "use3 \<Rightarrow> use3 \<Rightarrow> use3" where
  "add3 (a, b, c) (x, y, z) = (a + x, b + y, c + z)"

fun sub3 :: "use3 \<Rightarrow> use3 \<Rightarrow> use3" where
  "sub3 (a, b, c) (x, y, z) = (a - x, b - y, c - z)"

fun neg3 :: "use3 \<Rightarrow> bool" where
  "neg3 (a, b, c) \<longleftrightarrow> a < 0 \<or> b < 0 \<or> c < 0"

definition use_get :: "(use_key, use3) dict \<Rightarrow> use_key \<Rightarrow> use3" where
  "use_get d k = (case map_of d k of None \<Rightarrow> (0, 0, 0) | Some v \<Rightarrow> v)"

definition totals :: "slice list \<Rightarrow> (use_key, use3) dict" where
  "totals ss = foldl (\<lambda>d s. AList.update (slice_key s)
     (add3 (use_get d (slice_key s)) (sl_duration s, sl_free s, sl_extra s)) d) [] ss"

definition sum_kind :: "(use3 \<Rightarrow> int) \<Rightarrow> (string \<Rightarrow> bool) \<Rightarrow> (use_key, use3) dict \<Rightarrow> int" where
  "sum_kind f p d = sum_list (map (\<lambda>(k, v). f v) (filter (\<lambda>(k, v). p (snd k)) d))"

fun use_duration :: "use3 \<Rightarrow> int" where "use_duration (a, b, c) = a"
fun use_free :: "use3 \<Rightarrow> int" where "use_free (a, b, c) = b"
fun use_extra :: "use3 \<Rightarrow> int" where "use_extra (a, b, c) = c"

definition billed :: "(use_key, use3) dict \<Rightarrow> int" where
  "billed d = sum_kind use_duration (\<lambda>k. k = ''connected'') d"

definition eligible_growth :: "meter \<Rightarrow> (use_key, use3) dict \<Rightarrow> int" where
  "eligible_growth m d = min (billed d) \<lfloor>mt_growth_seconds m + nano\<rfloor>"

text \<open>The dictionaries' equality ignores the order of their keys.\<close>

definition dict_eq :: "('k, 'v) dict \<Rightarrow> ('k, 'v) dict \<Rightarrow> bool" where
  "dict_eq d e \<longleftrightarrow> set d = set e"

text \<open>The differences, in the order of the sorted keys.\<close>

definition all_keys :: "(use_key, use3) dict \<Rightarrow> (use_key, use3) dict \<Rightarrow> use_key list" where
  "all_keys d e = sort (remdups (map fst d @ map fst e))"

definition raw_deltas :: "(use_key, use3) dict \<Rightarrow> (use_key, use3) dict \<Rightarrow> (use_key \<times> use3) list" where
  "raw_deltas d e = map (\<lambda>k. (k, sub3 (use_get d k) (use_get e k))) (all_keys d e)"

definition deltas :: "(use_key, use3) dict \<Rightarrow> (use_key, use3) dict \<Rightarrow> (use_key \<times> use3) list res" where
  "deltas d e =
     (let raw = raw_deltas d e in
      if list_ex (\<lambda>(k, v). neg3 v) raw then Inl (QuotaError ''settlement_checkpoint_conflict'')
      else Inr (filter (\<lambda>(k, v). v \<noteq> (0, 0, 0)) raw))"

definition slice_invalid :: "use_key \<times> use3 \<Rightarrow> bool" where
  "slice_invalid = (\<lambda>((q, kind), (duration, free, extra)).
     duration < 0 \<or> (kind = ''connected'' \<and> duration \<noteq> free + extra) \<or>
     (kind = ''grace'' \<and> (free \<noteq> 0 \<or> extra \<noteq> 0)) \<or> kind \<notin> {''connected'', ''grace''})"

definition free_by_day :: "(use_key \<times> use3) list \<Rightarrow> date \<Rightarrow> int" where
  "free_by_day ds day = sum_list (map (\<lambda>(k, v). use_free v) (filter (\<lambda>(k, v). fst k = day) ds))"

definition extra_delta :: "(use_key \<times> use3) list \<Rightarrow> int" where
  "extra_delta ds = sum_list (map (\<lambda>(k, v). use_extra v) ds)"

definition day_limit :: "meter \<Rightarrow> quota_account \<Rightarrow> date \<Rightarrow> int" where
  "day_limit m a day = (if day = qa_free_quota_date a then qa_free_remaining_seconds a else mt_daily_seconds m)"

text \<open>The checks on the differences, then the debit.\<close>

definition debit :: "meter \<Rightarrow> date \<Rightarrow> (use_key \<times> use3) list \<Rightarrow> quota_account \<Rightarrow> quota_account res" where
  "debit m day ds a =
     (if day < qa_free_quota_date a then Inl (QuotaError ''quota_clock_reversed'')
      else if list_ex slice_invalid ds then Inl (QuotaError ''usage_slice_invalid'')
      else if list_ex (\<lambda>(k, v). day_limit m a (fst k) < free_by_day ds (fst k)) ds
      then Inl (QuotaError ''quota_changed_before_settlement'')
      else if qa_extra_remaining_seconds a < extra_delta ds
      then Inl (QuotaError ''quota_changed_before_settlement'')
      else
        let a1 = (if qa_free_quota_date a < day
                  then a\<lparr>qa_free_quota_date := day, qa_free_remaining_seconds := mt_daily_seconds m\<rparr> else a) in
        Inr (a1\<lparr>qa_free_remaining_seconds := qa_free_remaining_seconds a1 - free_by_day ds day,
                qa_extra_remaining_seconds := qa_extra_remaining_seconds a1 - extra_delta ds,
                qa_version := qa_version a1 + 1\<rparr>))"

fun new_rows :: "string \<Rightarrow> int \<Rightarrow> (use_key \<times> use3) list \<Rightarrow> ledger_row list" where
  "new_rows cid seq [] = []"
| "new_rows cid seq (((q, kind), (duration, free, extra)) # ds) =
     \<lparr>lg_call_id = cid, lg_segment_seq = seq + 1, lg_free_seconds_used = free, lg_extra_seconds_used = extra,
      lg_usage_type = kind, lg_duration_seconds = Some duration, lg_quota_date = Some q\<rparr>
     # new_rows cid (seq + 1) ds"

definition max_seq :: "ledger_row list \<Rightarrow> int" where
  "max_seq rows = foldr (\<lambda>r n. max (lg_segment_seq r) n) (tl rows)
     (case rows of [] \<Rightarrow> 0 | r # _ \<Rightarrow> lg_segment_seq r)"

definition settled_call :: "meter \<Rightarrow> (use_key, use3) dict \<Rightarrow> voice_call \<Rightarrow> voice_call" where
  "settled_call m d c =
     (let grace = sum_kind use_duration (\<lambda>k. k = ''grace'') d in
      c\<lparr>vc_free_seconds_used := sum_kind use_free (\<lambda>k. True) d,
        vc_extra_seconds_used := sum_kind use_extra (\<lambda>k. True) d,
        vc_grace_seconds := grace,
        vc_growth_eligible_seconds := eligible_growth m d,
        vc_duration_seconds := billed d + grace\<rparr>)"

definition settle_events :: "(use_key \<times> use3) list \<Rightarrow> event list" where
  "settle_events ds = concat (map (\<lambda>((q, kind), (duration, free, extra)).
     [ev ''voice.quota.usage_slice'' [(''kind'', kind)] 1,
      ev ''voice.quota.usage_seconds'' [(''kind'', kind)] duration,
      (if kind = ''grace'' then ev ''voice.quota.grace_seconds'' [] duration
       else ev ''voice.quota.billing_input_seconds'' [(''source'', ''server'')] (free + extra))]) ds)"

record settlement =
  st_idempotent :: bool
  st_free_seconds_used :: int
  st_extra_seconds_used :: int

definition settlement_of :: "bool \<Rightarrow> voice_call \<Rightarrow> settlement" where
  "settlement_of b c = \<lparr>st_idempotent = b, st_free_seconds_used = vc_free_seconds_used c,
     st_extra_seconds_used = vc_extra_seconds_used c\<rparr>"

text \<open>The replay branch: only an active call's growth clock may advance.\<close>

definition settle_replay :: "meter \<Rightarrow> (use_key, use3) dict \<Rightarrow> voice_call \<Rightarrow> voice_call" where
  "settle_replay m d c =
     (if vc_status c \<in> set ACTIVE
      then c\<lparr>vc_growth_eligible_seconds := max (vc_growth_eligible_seconds c) (eligible_growth m d)\<rparr>
      else c)"

definition account_or_new :: "meter \<Rightarrow> date \<Rightarrow> database \<Rightarrow> quota_account \<times> database" where
  "account_or_new m day db =
     (case get_account (mt_user_id m) db of
        Some a \<Rightarrow> (a, db)
      | None \<Rightarrow> let a = granted_account (mt_user_id m) day (mt_daily_seconds m) in (a, add_account a db))"

definition settle_debit ::
  "meter \<Rightarrow> (use_key, use3) dict \<Rightarrow> (use_key, use3) dict \<Rightarrow> voice_call \<Rightarrow> database \<Rightarrow> (settlement \<times> database) res" where
  "settle_debit m d e c db =
     bindR (deltas d e) (\<lambda>ds.
       case mt_last_wall m of
         None \<Rightarrow> Inl (ValueError ''last_wall'')
       | Some wall \<Rightarrow>
           let day = sh_date wall; (a, db1) = account_or_new m day db in
           bindR (debit m day ds a) (\<lambda>a'.
             let rows = new_rows (mt_call_id m) (max_seq (call_rows (mt_call_id m) db)) ds;
                 c' = settled_call m d c;
                 db2 = put_account a' db1;
                 db3 = put_call c' (db2\<lparr>db_ledger := db_ledger db2 @ rows\<rparr>) in
             Inr (settlement_of False c', stage (settle_events ds) db3)))"

definition settle :: "meter \<Rightarrow> database \<Rightarrow> (settlement \<times> database) res" where
  "settle m db =
     (case get_call (mt_call_id m) db of
        None \<Rightarrow> Inl (QuotaError ''call_owner_missing'')
      | Some c \<Rightarrow>
          if mt_user_id m \<notin> set (db_users db) \<or> vc_user_id c \<noteq> mt_user_id m
          then Inl (QuotaError ''call_owner_missing'')
          else bindR (rows_slices (call_rows (mt_call_id m) db)) (\<lambda>es.
            let d = totals (mt_slices m); e = totals es in
            if dict_eq d e
            then let c' = settle_replay m d c in Inr (settlement_of True c', put_call c' db)
            else settle_debit m d e c db))"

section \<open>Checkpoints\<close>

text \<open>\<open>CHECKPOINT_LUA\<close>: \<open>-1\<close> is a conflict, \<open>0\<close> an older reading, \<open>1\<close> a store.\<close>

definition checkpoint_lua :: "meter \<Rightarrow> (string \<Rightarrow> meter option) \<Rightarrow> int \<times> (string \<Rightarrow> meter option)" where
  "checkpoint_lua m cache =
     (case cache (mt_call_id m) of
        None \<Rightarrow> (1, cache(mt_call_id m \<mapsto> m))
      | Some old \<Rightarrow>
          if mt_user_id old \<noteq> mt_user_id m then (-1, cache)
          else (case (mt_last_monotonic old, mt_last_monotonic m) of
              (Some p, Some n) \<Rightarrow>
                if n < p then (0, cache)
                else if p = n \<and> old \<noteq> m then (-1, cache)
                else (1, cache(mt_call_id m \<mapsto> m))
            | _ \<Rightarrow> (-1, cache)))"

definition checkpoint :: "meter \<Rightarrow> (string \<Rightarrow> meter option) \<Rightarrow> (bool \<times> (string \<Rightarrow> meter option)) res" where
  "checkpoint m cache =
     (if mt_last_monotonic m = None then Inl (QuotaError ''checkpoint_unobserved'')
      else let (r, cache') = checkpoint_lua m cache in
           if r = -1 then Inl (QuotaError ''checkpoint_conflict'') else Inr (r = 1, cache'))"

definition recover :: "(string \<Rightarrow> meter option) \<Rightarrow> string \<Rightarrow> int \<Rightarrow> database \<Rightarrow> (settlement \<times> database) res" where
  "recover cache cid u db =
     (case cache cid of
        None \<Rightarrow> Inl (QuotaError ''checkpoint_missing'')
      | Some m \<Rightarrow>
          if mt_call_id m \<noteq> cid \<or> mt_user_id m \<noteq> u then Inl (QuotaError ''checkpoint_owner_mismatch'')
          else settle m db)"

section \<open>Sums over slices\<close>

declare split_paired_All [simp del] split_paired_Ex [simp del]

definition usum :: "(slice \<Rightarrow> int) \<Rightarrow> (use_key \<Rightarrow> bool) \<Rightarrow> slice list \<Rightarrow> int" where
  "usum f p ss = sum_list (map f (filter (\<lambda>s. p (slice_key s)) ss))"

definition tot :: "(slice \<Rightarrow> int) \<Rightarrow> slice list \<Rightarrow> use_key \<Rightarrow> int" where
  "tot f ss k = usum f (\<lambda>k'. k' = k) ss"

definition tot3 :: "slice list \<Rightarrow> use_key \<Rightarrow> use3" where
  "tot3 ss k = (tot sl_duration ss k, tot sl_free ss k, tot sl_extra ss k)"

lemma usum_simps [simp]:
  "usum f p [] = 0"
  "usum f p (s # ss) = (if p (slice_key s) then f s else 0) + usum f p ss"
  "usum f p (xs @ ys) = usum f p xs + usum f p ys"
  by (simp_all add: usum_def)

lemma tot_simps [simp]:
  "tot f [] k = 0"
  "tot f (s # ss) k = (if slice_key s = k then f s else 0) + tot f ss k"
  "tot f (xs @ ys) k = tot f xs k + tot f ys k"
  by (simp_all add: tot_def)

lemma tot_absent: "k \<notin> slice_key ` set ss \<Longrightarrow> tot f ss k = 0"
  by (induction ss) auto

lemma sum_list_one_key:
  "distinct ks \<Longrightarrow> sum_list (map (\<lambda>k. if k = a then v else (0 :: int)) ks) = (if a \<in> set ks then v else 0)"
  by (induction ks) auto

lemma usum_keys:
  assumes "distinct ks" "slice_key ` set ss \<subseteq> set ks"
  shows "usum f p ss = sum_list (map (tot f ss) (filter p ks))"
  using assms(2)
proof (induction ss)
  case Nil
  show ?case by (induction ks) auto
next
  case (Cons s ss)
  have "map (tot f (s # ss)) (filter p ks) =
    map (\<lambda>k. (if k = slice_key s then f s else 0) + tot f ss k) (filter p ks)"
    by auto
  then have "sum_list (map (tot f (s # ss)) (filter p ks)) =
    sum_list (map (\<lambda>k. if k = slice_key s then f s else 0) (filter p ks)) + sum_list (map (tot f ss) (filter p ks))"
    by (simp only: sum_list_addf)
  also have "sum_list (map (\<lambda>k. if k = slice_key s then f s else 0) (filter p ks)) =
    (if p (slice_key s) then f s else 0)"
    using assms(1) Cons.prems by (simp add: sum_list_one_key)
  finally show ?case using Cons by simp
qed

lemma totals_snoc:
  "totals (ss @ [s]) = AList.update (slice_key s)
     (add3 (use_get (totals ss) (slice_key s)) (sl_duration s, sl_free s, sl_extra s)) (totals ss)"
  by (simp add: totals_def)

lemma totals_wf [simp]: "dict_wf (totals ss)"
  by (induction ss rule: rev_induct) (simp_all add: totals_snoc, simp add: totals_def)

lemma totals_get:
  "map_of (totals ss) k = (if k \<in> slice_key ` set ss then Some (tot3 ss k) else None)"
proof (induction ss arbitrary: k rule: rev_induct)
  case Nil
  show ?case by (simp add: totals_def)
next
  case (snoc s ss)
  show ?case
  proof (cases "slice_key s \<in> slice_key ` set ss")
    case True
    then show ?thesis
      by (auto simp: totals_snoc dict_get_update snoc use_get_def tot3_def)
  next
    case False
    then show ?thesis
      by (auto simp: totals_snoc dict_get_update snoc use_get_def tot3_def tot_absent)
  qed
qed

lemma use_get_totals [simp]: "use_get (totals ss) k = tot3 ss k"
  by (auto simp: use_get_def totals_get tot3_def tot_absent)

lemma keys_totals: "set (map fst (totals ss)) = slice_key ` set ss"
proof -
  have "k \<in> set (map fst (totals ss)) \<longleftrightarrow> k \<in> slice_key ` set ss" for k
    using map_of_eq_None_iff [of "totals ss" k] by (simp add: totals_get split: if_splits)
  then show ?thesis by blast
qed

lemma sum_kind_totals: "sum_kind f p (totals ss) = sum_list (map (\<lambda>k. f (tot3 ss k)) (filter (\<lambda>k. p (snd k)) (map fst (totals ss))))"
proof -
  have "\<And>k v. (k, v) \<in> set (totals ss) \<Longrightarrow> v = tot3 ss k"
    using totals_wf [of ss] totals_get [of ss] unfolding dict_wf_def
    by (metis map_of_is_SomeI option.distinct(1) option.inject)
  then have "map (\<lambda>(k, v). f v) (filter (\<lambda>(k, v). p (snd k)) (totals ss)) =
    map (\<lambda>k. f (tot3 ss k)) (filter (\<lambda>k. p (snd k)) (map fst (totals ss)))"
    by (induction "totals ss" rule: list.induct) (auto simp: filter_map comp_def split_def)
  then show ?thesis by (simp add: sum_kind_def)
qed

lemma sum_kind_usum:
  "sum_kind use_duration p (totals ss) = usum sl_duration (\<lambda>k. p (snd k)) ss"
  "sum_kind use_free p (totals ss) = usum sl_free (\<lambda>k. p (snd k)) ss"
  "sum_kind use_extra p (totals ss) = usum sl_extra (\<lambda>k. p (snd k)) ss"
  using totals_wf [of ss] keys_totals [of ss]
  by (simp_all add: sum_kind_totals tot3_def dict_wf_def usum_keys [of "map fst (totals ss)"] del: set_map)

section \<open>Well-formed slices\<close>

definition slice_wf :: "slice \<Rightarrow> bool" where
  "slice_wf s \<longleftrightarrow> 0 < sl_duration s \<and> 0 \<le> sl_free s \<and> 0 \<le> sl_extra s \<and>
     (sl_kind s = ''connected'' \<and> sl_duration s = sl_free s + sl_extra s \<or>
      sl_kind s = ''grace'' \<and> sl_free s = 0 \<and> sl_extra s = 0)"

abbreviation slices_wf :: "slice list \<Rightarrow> bool" where
  "slices_wf ss \<equiv> list_all slice_wf ss"

lemma tot_nonneg:
  "slices_wf ss \<Longrightarrow> 0 \<le> tot sl_duration ss k \<and> 0 \<le> tot sl_free ss k \<and> 0 \<le> tot sl_extra ss k"
  by (induction ss) (auto simp: slice_wf_def)

lemma tot_duration_pos: "slices_wf ss \<Longrightarrow> k \<in> slice_key ` set ss \<longleftrightarrow> 0 < tot sl_duration ss k"
proof (induction ss)
  case (Cons s ss)
  then have "slice_wf s" and ss: "slices_wf ss" by simp_all
  then have "0 < sl_duration s" by (simp add: slice_wf_def)
  with Cons.IH [OF ss] tot_nonneg [OF ss, of k] show ?case by auto
qed simp

lemma tot_kind:
  "slices_wf ss \<Longrightarrow> snd k = ''connected'' \<Longrightarrow> tot sl_duration ss k = tot sl_free ss k + tot sl_extra ss k"
  "slices_wf ss \<Longrightarrow> snd k \<noteq> ''connected'' \<Longrightarrow> tot sl_free ss k = 0 \<and> tot sl_extra ss k = 0"
  "slices_wf ss \<Longrightarrow> snd k \<notin> {''connected'', ''grace''} \<Longrightarrow> tot sl_duration ss k = 0"
  by (induction ss) (auto simp: slice_wf_def slice_key_def)

lemma dict_eq_totals:
  assumes "slices_wf a" "slices_wf b"
  shows "dict_eq (totals a) (totals b) \<longleftrightarrow> (\<forall>k. tot3 a k = tot3 b k)"
proof -
  have "dict_eq (totals a) (totals b) \<longleftrightarrow> map_of (totals a) = map_of (totals b)"
    using totals_wf [of a] totals_wf [of b] unfolding dict_eq_def dict_wf_def
    by (simp add: map_of_inject_set)
  also have "\<dots> \<longleftrightarrow> (\<forall>k. map_of (totals a) k = map_of (totals b) k)" by (rule fun_eq_iff)
  also have "\<dots> \<longleftrightarrow> (\<forall>k. tot3 a k = tot3 b k)"
  proof
    assume l: "\<forall>k. map_of (totals a) k = map_of (totals b) k"
    show "\<forall>k. tot3 a k = tot3 b k"
    proof
      fix k
      show "tot3 a k = tot3 b k"
        using spec [OF l, of k] by (simp add: totals_get tot3_def tot_absent split: if_splits)
    qed
  next
    assume r: "\<forall>k. tot3 a k = tot3 b k"
    show "\<forall>k. map_of (totals a) k = map_of (totals b) k"
    proof
      fix k
      have "tot sl_duration a k = tot sl_duration b k" using spec [OF r, of k] by (simp add: tot3_def)
      then have "k \<in> slice_key ` set a \<longleftrightarrow> k \<in> slice_key ` set b"
        by (simp add: tot_duration_pos [OF assms(1)] tot_duration_pos [OF assms(2)])
      then show "map_of (totals a) k = map_of (totals b) k" using r by (simp add: totals_get)
    qed
  qed
  finally show ?thesis .
qed

section \<open>Differences\<close>

fun dslice :: "use_key \<times> use3 \<Rightarrow> slice" where
  "dslice ((q, kind), (duration, free, extra)) =
     \<lparr>sl_date = q, sl_kind = kind, sl_duration = duration, sl_free = free, sl_extra = extra\<rparr>"

lemma slice_key_dslice [simp]: "slice_key (dslice d) = fst d"
  by (cases d rule: dslice.cases) (simp add: slice_key_def)

lemma dslice_sel [simp]:
  "sl_duration (dslice d) = use_duration (snd d)" "sl_free (dslice d) = use_free (snd d)"
  "sl_extra (dslice d) = use_extra (snd d)" "sl_kind (dslice d) = snd (fst d)" "sl_date (dslice d) = fst (fst d)"
  by (cases d rule: dslice.cases, simp)+

declare dslice.simps [simp del]

lemma new_rows_slices: "rows_slices (new_rows cid seq ds) = Inr (map dslice ds)"
  by (induction cid seq ds rule: new_rows.induct) (simp_all add: row_slice_def dslice.simps)

lemma new_rows_call [simp]: "r \<in> set (new_rows cid seq ds) \<Longrightarrow> lg_call_id r = cid"
  by (induction cid seq ds rule: new_rows.induct) auto

lemma rows_slices_append:
  "rows_slices xs = Inr a \<Longrightarrow> rows_slices ys = Inr b \<Longrightarrow> rows_slices (xs @ ys) = Inr (a @ b)"
  by (induction xs arbitrary: a) (auto split: option.splits simp: bindR_Inr_iff)

lemma rows_slices_sums:
  "rows_slices rows = Inr ss \<Longrightarrow>
     sum_list (map lg_free_seconds_used (filter (\<lambda>r. lg_quota_date r = Some day) rows)) = usum sl_free (\<lambda>k. fst k = day) ss"
  "rows_slices rows = Inr ss \<Longrightarrow> sum_list (map lg_extra_seconds_used rows) = usum sl_extra (\<lambda>k. True) ss"
  by (induction rows arbitrary: ss)
    (auto split: option.splits simp: bindR_Inr_iff row_slice_def slice_key_def)

lemma free_by_day_usum: "free_by_day ds day = usum sl_free (\<lambda>k. fst k = day) (map dslice ds)"
  by (induction ds) (auto simp: free_by_day_def)

lemma extra_delta_usum: "extra_delta ds = usum sl_extra (\<lambda>k. True) (map dslice ds)"
  by (induction ds) (auto simp: extra_delta_def)

lemma tot_dslices:
  "distinct (map fst ds) \<Longrightarrow> tot3 (map dslice ds) k = use_get ds k"
proof (induction ds)
  case Nil
  show ?case by (simp add: tot3_def use_get_def)
next
  case (Cons d ds)
  obtain k' a b c where d: "d = (k', a, b, c)" by (cases d) auto
  have "k' \<notin> slice_key ` set (map dslice ds)" using Cons.prems by (simp add: d image_image)
  then show ?case using Cons by (auto simp: d tot3_def use_get_def tot_absent)
qed

definition deltas_of :: "slice list \<Rightarrow> slice list \<Rightarrow> (use_key \<times> use3) list \<Rightarrow> bool" where
  "deltas_of a b ds \<longleftrightarrow> distinct (map fst ds) \<and>
     (\<forall>(k, v) \<in> set ds. v = sub3 (tot3 a k) (tot3 b k) \<and> \<not> neg3 v \<and> v \<noteq> (0, 0, 0)) \<and>
     (\<forall>k. k \<notin> fst ` set ds \<longrightarrow> tot3 a k = tot3 b k)"

lemma sub3_zero: "sub3 x y = (0, 0, 0) \<longleftrightarrow> x = y"
  by (cases x; cases y) auto

lemma tot3_absent: "k \<notin> slice_key ` set ss \<Longrightarrow> tot3 ss k = (0, 0, 0)"
  by (simp add: tot3_def tot_absent)

lemma deltas_of_deltas:
  assumes "deltas (totals a) (totals b) = Inr ds"
  shows "deltas_of a b ds"
proof -
  let ?raw = "raw_deltas (totals a) (totals b)"
  have ds: "ds = filter (\<lambda>(k, v). v \<noteq> (0, 0, 0)) ?raw" and nn: "\<not> list_ex (\<lambda>(k, v). neg3 v) ?raw"
    using assms by (auto simp: deltas_def Let_def split: if_splits)
  have keys: "map fst ?raw = all_keys (totals a) (totals b)"
    by (simp add: raw_deltas_def comp_def)
  have dist: "distinct (map fst ?raw)" by (simp add: keys all_keys_def)
  have mem: "(k, v) \<in> set ?raw \<longleftrightarrow> k \<in> slice_key ` (set a \<union> set b) \<and> v = sub3 (tot3 a k) (tot3 b k)" for k v
    by (auto simp: raw_deltas_def all_keys_def keys_totals [unfolded set_map])
  have "tot3 a k = tot3 b k" if "k \<notin> fst ` set ds" for k
  proof (cases "k \<in> slice_key ` (set a \<union> set b)")
    case True
    then have "(k, sub3 (tot3 a k) (tot3 b k)) \<in> set ?raw" by (simp add: mem)
    with that have "sub3 (tot3 a k) (tot3 b k) = (0, 0, 0)"
      unfolding ds by (force simp: image_iff)
    then show ?thesis by (simp add: sub3_zero)
  next
    case False
    then have "k \<notin> slice_key ` set a" "k \<notin> slice_key ` set b" by auto
    then show ?thesis by (simp add: tot3_absent)
  qed
  moreover have "distinct (map fst ds)" unfolding ds by (rule distinct_map_filter [OF dist])
  moreover have "\<forall>(k, v) \<in> set ds. v = sub3 (tot3 a k) (tot3 b k) \<and> \<not> neg3 v \<and> v \<noteq> (0, 0, 0)"
    using nn mem unfolding ds by (auto simp: list_ex_iff)
  ultimately show ?thesis by (simp add: deltas_of_def)
qed

lemma deltas_of_total:
  assumes "deltas_of a b ds"
  shows "tot3 (b @ map dslice ds) k = tot3 a k"
proof -
  have "use_get ds k = sub3 (tot3 a k) (tot3 b k)"
  proof (cases "k \<in> fst ` set ds")
    case True
    then obtain v where v: "(k, v) \<in> set ds" by auto
    then have "map_of ds k = Some v" using assms by (simp add: deltas_of_def)
    with v assms show ?thesis by (auto simp: use_get_def deltas_of_def)
  next
    case False
    then have "tot3 a k = tot3 b k" "map_of ds k = None"
      using assms by (auto simp: deltas_of_def map_of_eq_None_iff)
    then show ?thesis using sub3_zero [of "tot3 a k" "tot3 b k"] by (simp add: use_get_def)
  qed
  moreover have "tot3 (map dslice ds) k = use_get ds k"
    using assms by (simp add: tot_dslices deltas_of_def)
  ultimately show ?thesis by (simp add: tot3_def)
qed

lemma deltas_wf:
  assumes "deltas_of a b ds" "\<not> list_ex slice_invalid ds"
  shows "slices_wf (map dslice ds)"
  unfolding list_all_iff
proof
  fix s assume "s \<in> set (map dslice ds)"
  then obtain d where d: "d \<in> set ds" and s: "s = dslice d" by auto
  obtain q kind x y z where dd: "d = ((q, kind), (x, y, z))" by (cases d) auto
  have "\<not> slice_invalid d" using assms(2) d by (simp add: list_ex_iff)
  moreover have "\<not> neg3 (x, y, z) \<and> (x, y, z) \<noteq> (0, 0, 0)"
    using conjunct1 [OF conjunct2 [OF assms(1) [unfolded deltas_of_def]], THEN bspec, OF d]
    unfolding dd prod.case by blast
  ultimately show "slice_wf s"
    by (auto simp: s dd slice_wf_def slice_invalid_def dslice.simps)
qed

section \<open>One settlement\<close>

definition row_ok :: "ledger_row \<Rightarrow> bool" where
  "row_ok r = (case row_slice r of None \<Rightarrow> False | Some s \<Rightarrow> slice_wf s)"

definition ledger_wf :: "database \<Rightarrow> bool" where
  "ledger_wf db \<longleftrightarrow> list_all row_ok (db_ledger db)"

lemma rows_slices_ok: "list_all row_ok rows \<Longrightarrow> \<exists>ss. rows_slices rows = Inr ss \<and> slices_wf ss"
  by (induction rows) (auto simp: row_ok_def split: option.splits)

lemma call_rows_ok: "ledger_wf db \<Longrightarrow> list_all row_ok (call_rows cid db)"
  by (auto simp: ledger_wf_def call_rows_def list_all_iff)

lemma new_rows_ok: "slices_wf (map dslice ds) \<Longrightarrow> list_all row_ok (new_rows cid seq ds)"
  by (induction cid seq ds rule: new_rows.induct) (simp_all add: row_ok_def row_slice_def dslice.simps)

lemma quota_frame [simp]:
  "db_ledger (put_account a db) = db_ledger db" "db_calls (put_account a db) = db_calls db"
  "db_users (put_account a db) = db_users db" "db_ledger (add_account a db) = db_ledger db"
  "db_calls (add_account a db) = db_calls db" "db_users (add_account a db) = db_users db"
  "db_staged (put_account a db) = db_staged db" "db_emitted (put_account a db) = db_emitted db"
  "db_staged (add_account a db) = db_staged db" "db_emitted (add_account a db) = db_emitted db"
  "get_call cid (put_account a db) = get_call cid db" "get_call cid (add_account a db) = get_call cid db"
  "get_account u (db\<lparr>db_ledger := l\<rparr>) = get_account u db" "get_call cid (db\<lparr>db_ledger := l\<rparr>) = get_call cid db"
  by (simp_all add: put_account_def add_account_def get_call_def get_account_def)

lemma row_find_snoc:
  "row_find key k (rs @ [a]) = (case row_find key k rs of Some r \<Rightarrow> Some r | None \<Rightarrow> if key a = k then Some a else None)"
  by (induction rs) (auto simp: row_find_def)

lemma get_account_add:
  "get_account (qa_user_id a) db = None \<Longrightarrow>
     get_account u (add_account a db) = (if u = qa_user_id a then Some a else get_account u db)"
  by (auto simp: get_account_def add_account_def row_find_snoc split: option.splits)

text \<open>What a successful settlement did: a replay that leaves ledger and account, or one debit.\<close>

definition replayed :: "meter \<Rightarrow> voice_call \<Rightarrow> database \<Rightarrow> database \<Rightarrow> bool" where
  "replayed m c db db' \<longleftrightarrow> db' = put_call (settle_replay m (totals (mt_slices m)) c) db"

definition debited ::
  "meter \<Rightarrow> voice_call \<Rightarrow> slice list \<Rightarrow> (use_key \<times> use3) list \<Rightarrow> date \<Rightarrow> quota_account \<Rightarrow> database \<Rightarrow> database \<Rightarrow> bool" where
  "debited m c es ds day a' db db' \<longleftrightarrow>
     mt_last_wall m \<noteq> None \<and> day = sh_date (the (mt_last_wall m)) \<and> deltas_of (mt_slices m) es ds \<and>
     debit m day ds (fst (account_or_new m day db)) = Inr a' \<and>
     db' = stage (settle_events ds) (put_call (settled_call m (totals (mt_slices m)) c)
       ((put_account a' (snd (account_or_new m day db)))\<lparr>db_ledger := db_ledger db @
          new_rows (mt_call_id m) (max_seq (call_rows (mt_call_id m) db)) ds\<rparr>))"

lemma account_or_new_frame [simp]:
  "db_ledger (snd (account_or_new m day db)) = db_ledger db"
  "db_calls (snd (account_or_new m day db)) = db_calls db"
  "db_users (snd (account_or_new m day db)) = db_users db"
  "db_staged (snd (account_or_new m day db)) = db_staged db"
  "db_emitted (snd (account_or_new m day db)) = db_emitted db"
  by (simp_all add: account_or_new_def Let_def split: option.splits)

lemma settle_cases:
  assumes "settle m db = Inr (r, db')"
  shows "\<exists>c es. get_call (mt_call_id m) db = Some c \<and> mt_user_id m \<in> set (db_users db) \<and>
     vc_user_id c = mt_user_id m \<and> rows_slices (call_rows (mt_call_id m) db) = Inr es \<and>
     (dict_eq (totals (mt_slices m)) (totals es) \<and> st_idempotent r \<and> replayed m c db db' \<or>
      \<not> dict_eq (totals (mt_slices m)) (totals es) \<and> \<not> st_idempotent r \<and>
      (\<exists>ds day a'. debited m c es ds day a' db db'))"
proof -
  obtain c es where c: "get_call (mt_call_id m) db = Some c" "mt_user_id m \<in> set (db_users db)"
    "vc_user_id c = mt_user_id m" "rows_slices (call_rows (mt_call_id m) db) = Inr es"
    using assms by (auto simp: settle_def bindR_Inr_iff split: option.splits if_splits)
  show ?thesis
  proof (cases "dict_eq (totals (mt_slices m)) (totals es)")
    case True
    then show ?thesis
      using assms c by (auto simp: settle_def replayed_def settlement_of_def Let_def)
  next
    case False
    then have "settle_debit m (totals (mt_slices m)) (totals es) c db = Inr (r, db')"
      using assms c by (simp add: settle_def Let_def)
    then obtain ds wall a' where ds: "deltas (totals (mt_slices m)) (totals es) = Inr ds"
      and w: "mt_last_wall m = Some wall"
      and a: "debit m (sh_date wall) ds (fst (account_or_new m (sh_date wall) db)) = Inr a'"
      and r: "\<not> st_idempotent r"
      and db': "db' = stage (settle_events ds) (put_call (settled_call m (totals (mt_slices m)) c)
       ((put_account a' (snd (account_or_new m (sh_date wall) db)))\<lparr>db_ledger := db_ledger db @
          new_rows (mt_call_id m) (max_seq (call_rows (mt_call_id m) db)) ds\<rparr>))"
      by (auto simp: settle_debit_def bindR_Inr_iff Let_def split_def settlement_of_def split: option.splits)
    have "debited m c es ds (sh_date wall) a' db db'"
      unfolding debited_def using w a db' deltas_of_deltas [OF ds] by simp
    with False c r show ?thesis by blast
  qed
qed

lemma debit_facts:
  assumes "debit m day ds a = Inr a'"
  shows "qa_user_id a' = qa_user_id a" "qa_free_quota_date a' = day" "qa_free_quota_date a \<le> day"
    "\<not> list_ex slice_invalid ds"
    "qa_extra_remaining_seconds a' = qa_extra_remaining_seconds a - extra_delta ds"
    "extra_delta ds \<le> qa_extra_remaining_seconds a"
    "qa_free_remaining_seconds a' = day_limit m a day - free_by_day ds day"
    "\<And>k v. (k, v) \<in> set ds \<Longrightarrow> free_by_day ds (fst k) \<le> day_limit m a (fst k)"
    "qa_version a' = qa_version a + 1"
  using assms
  by (auto simp: debit_def Let_def day_limit_def list_ex_iff split: if_splits)

lemma call_rows_append: "call_rows cid (db\<lparr>db_ledger := xs @ ys\<rparr>) = filter (\<lambda>r. lg_call_id r = cid) xs @ filter (\<lambda>r. lg_call_id r = cid) ys"
  by (simp add: call_rows_def)

lemma call_rows_frame [simp]:
  "call_rows cid (put_call c db) = call_rows cid db" "call_rows cid (stage evs db) = call_rows cid db"
  "call_rows cid (put_account a db) = call_rows cid db"
  by (simp_all add: call_rows_def)

lemma filter_new_rows:
  "filter (\<lambda>r. lg_call_id r = cid') (new_rows cid seq ds) = (if cid' = cid then new_rows cid seq ds else [])"
  by (induction cid seq ds rule: new_rows.induct) auto

lemma debited_rows:
  assumes "debited m c es ds day a' db db'"
  shows "call_rows cid db' = call_rows cid db @
     (if cid = mt_call_id m then new_rows (mt_call_id m) (max_seq (call_rows (mt_call_id m) db)) ds else [])"
    "db_ledger db' = db_ledger db @ new_rows (mt_call_id m) (max_seq (call_rows (mt_call_id m) db)) ds"
    "db_users db' = db_users db"
  using assms by (auto simp: debited_def call_rows_def filter_new_rows)

lemma account_or_new_user:
  "qa_user_id (fst (account_or_new m day db)) = mt_user_id m"
  "get_account (mt_user_id m) (snd (account_or_new m day db)) = Some (fst (account_or_new m day db))"
  "v \<noteq> mt_user_id m \<Longrightarrow> get_account v (snd (account_or_new m day db)) = get_account v db"
  by (auto simp: account_or_new_def Let_def granted_account_def get_account_add dest: accounts.get_key
    split: option.splits)

lemma debited_account:
  assumes "debited m c es ds day a' db db'"
  shows "get_account (mt_user_id m) db' = Some a'" "v \<noteq> mt_user_id m \<Longrightarrow> get_account v db' = get_account v db"
proof -
  have a: "qa_user_id a' = mt_user_id m"
    using assms debit_facts(1) account_or_new_user(1) by (fastforce simp: debited_def)
  have eq: "get_account v db' = get_account v (put_account a' (snd (account_or_new m day db)))" for v
    using assms by (simp add: debited_def)
  show "get_account (mt_user_id m) db' = Some a'"
    unfolding eq by (rule accounts.get_put_same [OF account_or_new_user(2) a])
  show "v \<noteq> mt_user_id m \<Longrightarrow> get_account v db' = get_account v db"
    unfolding eq by (simp add: accounts.get_put_other [OF account_or_new_user(2) a] account_or_new_user(3))
qed

lemma debited_call:
  assumes "debited m c es ds day a' db db'" "get_call (mt_call_id m) db = Some c"
  shows "get_call (mt_call_id m) db' = Some (settled_call m (totals (mt_slices m)) c)"
proof -
  have "vc_call_id (settled_call m (totals (mt_slices m)) c) = mt_call_id m"
    using calls.get_key [OF assms(2)] by (simp add: settled_call_def Let_def)
  moreover have "get_call (mt_call_id m) ((put_account a' (snd (account_or_new m day db)))\<lparr>db_ledger := l\<rparr>) = Some c" for l
    using assms(2) by (simp add: account_or_new_def Let_def split: option.splits)
  ultimately show ?thesis using assms(1) unfolding debited_def
    by (auto intro: calls.get_put_same)
qed

lemma debited_tot:
  assumes "debited m c es ds day a' db db'" "rows_slices (call_rows (mt_call_id m) db) = Inr es"
  shows "rows_slices (call_rows (mt_call_id m) db') = Inr (es @ map dslice ds)"
    "tot3 (es @ map dslice ds) k = tot3 (mt_slices m) k"
    "slices_wf (map dslice ds)"
proof -
  show "rows_slices (call_rows (mt_call_id m) db') = Inr (es @ map dslice ds)"
    unfolding debited_rows [OF assms(1)] using assms(2) by (simp add: rows_slices_append new_rows_slices)
  have d: "deltas_of (mt_slices m) es ds" using assms(1) by (simp add: debited_def)
  show "tot3 (es @ map dslice ds) k = tot3 (mt_slices m) k" by (rule deltas_of_total [OF d])
  have "\<not> list_ex slice_invalid ds" using assms(1) by (auto simp: debited_def dest: debit_facts(4))
  then show "slices_wf (map dslice ds)" by (rule deltas_wf [OF d])
qed

text \<open>After a settlement the call's ledger rows add up to the meter's slices.\<close>

definition ledger_matches :: "meter \<Rightarrow> database \<Rightarrow> bool" where
  "ledger_matches m db \<longleftrightarrow> (\<exists>es. rows_slices (call_rows (mt_call_id m) db) = Inr es \<and> slices_wf es \<and>
     (\<forall>k. tot3 es k = tot3 (mt_slices m) k))"

lemma settle_matches:
  assumes "settle m db = Inr (r, db')" "ledger_wf db" "slices_wf (mt_slices m)"
  shows "ledger_matches m db' \<and> ledger_wf db'"
proof -
  obtain c es where es: "rows_slices (call_rows (mt_call_id m) db) = Inr es"
    and alt: "dict_eq (totals (mt_slices m)) (totals es) \<and> st_idempotent r \<and> replayed m c db db' \<or>
      \<not> dict_eq (totals (mt_slices m)) (totals es) \<and> \<not> st_idempotent r \<and>
      (\<exists>ds day a'. debited m c es ds day a' db db')"
    using settle_cases [OF assms(1)] by blast
  have wf: "slices_wf es" using rows_slices_ok [OF call_rows_ok [OF assms(2)], of "mt_call_id m"] es by auto
  from alt show ?thesis
  proof
    assume a: "dict_eq (totals (mt_slices m)) (totals es) \<and> st_idempotent r \<and> replayed m c db db'"
    then have "\<forall>k. tot3 es k = tot3 (mt_slices m) k" using dict_eq_totals [OF assms(3) wf] by simp
    moreover have "call_rows cid db' = call_rows cid db" "db_ledger db' = db_ledger db" for cid
      using a by (simp_all add: replayed_def)
    ultimately show ?thesis using es wf assms(2) by (auto simp: ledger_matches_def ledger_wf_def)
  next
    assume "\<not> dict_eq (totals (mt_slices m)) (totals es) \<and> \<not> st_idempotent r \<and>
      (\<exists>ds day a'. debited m c es ds day a' db db')"
    then obtain ds day a' where d: "debited m c es ds day a' db db'" by blast
    have "list_all row_ok (db_ledger db')"
      unfolding debited_rows(2) [OF d] using assms(2) new_rows_ok [OF debited_tot(3) [OF d es]]
      by (simp add: ledger_wf_def)
    then show ?thesis
      unfolding ledger_matches_def debited_tot(1) [OF d es] using debited_tot(2,3) [OF d es] wf
      by (auto simp: ledger_wf_def)
  qed
qed

lemma settle_keeps_owner:
  assumes "settle m db = Inr (r, db')"
  shows "mt_user_id m \<in> set (db_users db')"
    "\<exists>c. get_call (mt_call_id m) db' = Some c \<and> vc_user_id c = mt_user_id m"
proof -
  obtain c es where c: "get_call (mt_call_id m) db = Some c" "mt_user_id m \<in> set (db_users db)" "vc_user_id c = mt_user_id m"
    and alt: "replayed m c db db' \<or> (\<exists>ds day a'. debited m c es ds day a' db db')"
    using settle_cases [OF assms] by blast
  have id: "vc_call_id c = mt_call_id m" by (rule calls.get_key [OF c(1)])
  show "mt_user_id m \<in> set (db_users db')"
    using alt c(2) debited_rows(3) by (auto simp: replayed_def)
  from alt show "\<exists>c. get_call (mt_call_id m) db' = Some c \<and> vc_user_id c = mt_user_id m"
  proof
    assume "replayed m c db db'"
    moreover have "get_call (mt_call_id m) (put_call (settle_replay m (totals (mt_slices m)) c) db) =
      Some (settle_replay m (totals (mt_slices m)) c)"
      by (rule calls.get_put_same [OF c(1)]) (simp add: settle_replay_def id)
    ultimately show ?thesis using c(3) by (simp add: replayed_def settle_replay_def)
  next
    assume "\<exists>ds day a'. debited m c es ds day a' db db'"
    then show ?thesis using debited_call c by (fastforce simp: settled_call_def Let_def)
  qed
qed

lemma settle_again:
  assumes "ledger_matches m db" "slices_wf (mt_slices m)" "mt_user_id m \<in> set (db_users db)"
    "get_call (mt_call_id m) db = Some c" "vc_user_id c = mt_user_id m"
  shows "\<exists>r2 db2. settle m db = Inr (r2, db2) \<and> st_idempotent r2 \<and> db_ledger db2 = db_ledger db \<and>
     db_accounts db2 = db_accounts db"
proof -
  obtain es where es: "rows_slices (call_rows (mt_call_id m) db) = Inr es" "slices_wf es"
    "\<forall>k. tot3 es k = tot3 (mt_slices m) k" using assms(1) by (auto simp: ledger_matches_def)
  have "dict_eq (totals (mt_slices m)) (totals es)" using dict_eq_totals [OF assms(2) es(2)] es(3) by simp
  then show ?thesis using assms es(1) by (simp add: settle_def settlement_of_def Let_def)
qed

section \<open>Observations keep the usage within the balance\<close>

definition account_extra :: "int \<Rightarrow> database \<Rightarrow> int" where
  "account_extra u db = (case get_account u db of None \<Rightarrow> 0 | Some a \<Rightarrow> qa_extra_remaining_seconds a)"

definition free_on :: "meter \<Rightarrow> date \<Rightarrow> database \<Rightarrow> int" where
  "free_on m day db = (case get_account (mt_user_id m) db of
     None \<Rightarrow> mt_daily_seconds m | Some a \<Rightarrow> day_limit m a day)"

definition accounts_ok :: "database \<Rightarrow> bool" where
  "accounts_ok db \<longleftrightarrow> list_all (\<lambda>a. 0 \<le> qa_free_remaining_seconds a \<and> 0 \<le> qa_extra_remaining_seconds a) (db_accounts db)"

lemma account_or_new_amounts:
  "day_limit m (fst (account_or_new m day db)) day = free_on m day db"
  "qa_extra_remaining_seconds (fst (account_or_new m day db)) = account_extra (mt_user_id m) db"
  by (auto simp: account_or_new_def free_on_def account_extra_def Let_def day_limit_def granted_account_def
    split: option.splits)

lemma accounts_ok_limit: "accounts_ok db \<Longrightarrow> 0 \<le> mt_daily_seconds m \<Longrightarrow> 0 \<le> free_on m day db"
  by (auto simp: accounts_ok_def free_on_def day_limit_def get_account_def list_all_iff
    dest!: row_find_key split: option.splits)

lemma usum_append_slice:
  "usum sl_duration p (append_slice ss day kind n fr ex) = usum sl_duration p ss + (if n \<noteq> 0 \<and> p (day, kind) then n else 0)"
  "usum sl_free p (append_slice ss day kind n fr ex) = usum sl_free p ss + (if n \<noteq> 0 \<and> p (day, kind) then fr else 0)"
  "usum sl_extra p (append_slice ss day kind n fr ex) = usum sl_extra p ss + (if n \<noteq> 0 \<and> p (day, kind) then ex else 0)"
proof -
  have split: "usum f p ss = usum f p (butlast ss) + (if p (slice_key (last ss)) then f (last ss) else 0)" if "ss \<noteq> []" for f
    using append_butlast_last_id [OF that] usum_simps(3) [of f p "butlast ss" "[last ss]"] by simp
  show "usum sl_duration p (append_slice ss day kind n fr ex) = usum sl_duration p ss + (if n \<noteq> 0 \<and> p (day, kind) then n else 0)"
    "usum sl_free p (append_slice ss day kind n fr ex) = usum sl_free p ss + (if n \<noteq> 0 \<and> p (day, kind) then fr else 0)"
    "usum sl_extra p (append_slice ss day kind n fr ex) = usum sl_extra p ss + (if n \<noteq> 0 \<and> p (day, kind) then ex else 0)"
    by (simp_all add: append_slice_def slice_key_def split)
qed

lemma slices_wf_append:
  assumes "slices_wf ss" "0 \<le> n" "0 \<le> fr" "0 \<le> ex"
    "kind = ''connected'' \<and> n = fr + ex \<or> kind = ''grace'' \<and> fr = 0 \<and> ex = 0"
  shows "slices_wf (append_slice ss day kind n fr ex)"
proof (cases "ss \<noteq> [] \<and> sl_date (last ss) = day \<and> sl_kind (last ss) = kind")
  case True
  then have "slice_wf (last ss)" "slices_wf (butlast ss)"
    using assms(1) by (auto simp: list_all_iff dest: in_set_butlastD)
  with True assms show ?thesis by (auto simp: append_slice_def slice_wf_def)
next
  case False
  with assms show ?thesis by (auto simp: append_slice_def slice_wf_def)
qed

lemma grace_loop_facts:
  assumes "0 \<le> left" "slices_wf ss"
  shows "slices_wf (grace_loop cursor left ss) \<and>
    usum sl_free p (grace_loop cursor left ss) = usum sl_free p ss \<and>
    usum sl_extra p (grace_loop cursor left ss) = usum sl_extra p ss \<and>
    usum sl_duration p ss \<le> usum sl_duration p (grace_loop cursor left ss)"
  using assms
proof (induction cursor left ss rule: grace_loop.induct)
  case (1 cursor left ss)
  show ?case
  proof (cases "left = 0")
    case True
    then have "grace_loop cursor left ss = ss" by (subst grace_loop.simps) simp
    then show ?thesis using 1(3) by simp
  next
    case False
    define n where "n = min left (max 1 \<lceil>secs (next_midnight cursor - cursor)\<rceil>)"
    have n: "0 < n" "n \<le> left" using False 1(2) by (auto simp: n_def)
    have wf: "slices_wf (append_slice ss (sh_date cursor) ''grace'' n 0 0)"
      by (rule slices_wf_append) (use 1(3) n in auto)
    have step: "grace_loop cursor left ss =
      grace_loop (cursor + n * us_second) (left - n) (append_slice ss (sh_date cursor) ''grace'' n 0 0)"
      using False by (simp add: grace_loop.simps [of cursor left ss] n_def Let_def)
    show ?thesis unfolding step
      using 1(1) [OF False n_def _ wf] n by (auto simp: usum_append_slice split: if_splits)
  qed
qed

definition use_le :: "slice list \<Rightarrow> slice list \<Rightarrow> bool" where
  "use_le a b \<longleftrightarrow> (\<forall>k. tot sl_duration a k \<le> tot sl_duration b k \<and> tot sl_free a k \<le> tot sl_free b k \<and>
     tot sl_extra a k \<le> tot sl_extra b k)"

text \<open>The usage measured so far fits the account: what settlement will debit is available.\<close>

definition fits :: "meter \<Rightarrow> database \<Rightarrow> bool" where
  "fits m db \<longleftrightarrow>
     (\<exists>es. rows_slices (call_rows (mt_call_id m) db) = Inr es \<and> slices_wf es \<and> use_le es (mt_slices m)) \<and>
     (\<forall>day. free_reserved m (call_rows (mt_call_id m) db) day \<le> free_on m day db) \<and>
     extra_reserved m (call_rows (mt_call_id m) db) \<le> account_extra (mt_user_id m) db"

definition same_identity :: "meter \<Rightarrow> meter \<Rightarrow> bool" where
  "same_identity m m' \<longleftrightarrow> mt_call_id m' = mt_call_id m \<and> mt_user_id m' = mt_user_id m \<and>
     mt_daily_seconds m' = mt_daily_seconds m \<and> mt_grace_limit m' = mt_grace_limit m"

lemma free_on_identity: "same_identity m m' \<Longrightarrow> free_on m' day db = free_on m day db"
  by (simp add: same_identity_def free_on_def day_limit_def split: option.split)

lemma reserved_usum:
  "free_reserved m rows day = usum sl_free (\<lambda>k. fst k = day) (mt_slices m)
     - sum_list (map lg_free_seconds_used (filter (\<lambda>r. lg_quota_date r = Some day) rows))"
  "extra_reserved m rows = usum sl_extra (\<lambda>k. True) (mt_slices m) - sum_list (map lg_extra_seconds_used rows)"
  by (simp_all add: free_reserved_def extra_reserved_def usum_def slice_key_def)

lemma fits_append:
  assumes f: "fits m db" and id: "same_identity m m'"
    and s: "mt_slices m' = append_slice (mt_slices m) day kind n fr ex"
    and n: "0 \<le> n" "0 \<le> fr" "0 \<le> ex"
    and fr: "fr \<le> max 0 (free_on m day db - free_reserved m (call_rows (mt_call_id m) db) day)"
    and ex: "ex \<le> max 0 (account_extra (mt_user_id m) db - extra_reserved m (call_rows (mt_call_id m) db))"
  shows "fits m' db"
proof -
  let ?rows = "call_rows (mt_call_id m) db"
  have c: "mt_call_id m' = mt_call_id m" "mt_user_id m' = mt_user_id m" using id by (simp_all add: same_identity_def)
  obtain es where es: "rows_slices ?rows = Inr es" "slices_wf es" "use_le es (mt_slices m)"
    using f by (auto simp: fits_def)
  have "use_le es (mt_slices m')"
    unfolding use_le_def s
  proof
    fix k
    show "tot sl_duration es k \<le> tot sl_duration (append_slice (mt_slices m) day kind n fr ex) k \<and>
      tot sl_free es k \<le> tot sl_free (append_slice (mt_slices m) day kind n fr ex) k \<and>
      tot sl_extra es k \<le> tot sl_extra (append_slice (mt_slices m) day kind n fr ex) k"
      using spec [OF es(3) [unfolded use_le_def], of k] n by (auto simp: tot_def usum_append_slice)
  qed
  moreover have "free_reserved m' ?rows d \<le> free_on m' d db" for d
  proof -
    have "free_reserved m ?rows d \<le> free_on m d db" using f by (simp add: fits_def)
    then show ?thesis using fr unfolding free_on_identity [OF id] reserved_usum s usum_append_slice
      by (auto split: if_splits)
  qed
  moreover have "extra_reserved m' ?rows \<le> account_extra (mt_user_id m') db"
  proof -
    have "extra_reserved m ?rows \<le> account_extra (mt_user_id m) db" using f by (simp add: fits_def)
    then show ?thesis using ex unfolding c reserved_usum s usum_append_slice by (auto split: if_splits)
  qed
  ultimately show ?thesis using es(1,2) by (auto simp: fits_def c)
qed

lemma balance_free_on:
  assumes "balance (mt_user_id m) (mt_daily_seconds m) now False db = Inr b"
  shows "bl_free b = free_on m (sh_date now) db" "bl_extra b = account_extra (mt_user_id m) db"
  using assms
  by (auto simp: balance_def free_on_def account_extra_def day_limit_def Let_def split: option.splits if_splits)

text \<open>What one portion does to the meter.\<close>

definition portion_step :: "database \<Rightarrow> date \<Rightarrow> rat \<Rightarrow> meter \<Rightarrow> meter \<Rightarrow> int \<Rightarrow> int \<Rightarrow> int \<Rightarrow> bool" where
  "portion_step db day portion m m' n fr ex \<longleftrightarrow>
     mt_slices m' = append_slice (mt_slices m) day ''connected'' n fr ex \<and> n = fr + ex \<and> 0 \<le> fr \<and> 0 \<le> ex \<and>
     fr \<le> max 0 (free_on m day db - free_reserved m (call_rows (mt_call_id m) db) day) \<and>
     ex \<le> max 0 (account_extra (mt_user_id m) db - extra_reserved m (call_rows (mt_call_id m) db)) \<and>
     - nano \<le> mt_remainder m' \<and>
     (mt_grace_started m' = None \<longleftrightarrow> mt_grace_wall m' = None) \<and>
     (mt_grace_started m' = None \<longrightarrow> of_int n + mt_remainder m' = portion + mt_remainder m)"

definition same_clock :: "meter \<Rightarrow> meter \<Rightarrow> bool" where
  "same_clock m m' \<longleftrightarrow> mt_last_monotonic m' = mt_last_monotonic m \<and> mt_last_wall m' = mt_last_wall m \<and>
     mt_connected m' = mt_connected m \<and> mt_muted m' = mt_muted m \<and>
     mt_growth_seconds m' = mt_growth_seconds m \<and> mt_grace_seconds m' = mt_grace_seconds m"

text \<open>A day rollover that coincides with exhaustion charges exactly the whole available amount.\<close>

lemma resets_exact:
  fixes portion prev tomid :: rat and available seconds :: int
  assumes "\<bar>max 0 (of_int available - prev) - tomid\<bar> < nano" "1 / 1000000 \<le> tomid" "portion \<le> tomid"
    "seconds = \<lfloor>portion + prev + nano\<rfloor>" "available \<le> seconds"
  shows "seconds = available"
proof -
  have n: "nano < 1 / 1000000" "4 * nano < 1" by (simp_all add: nano_def)
  have "prev \<le> of_int available"
  proof (rule ccontr)
    assume "\<not> prev \<le> of_int available"
    then have "max 0 (of_int available - prev) = 0" by simp
    then show False using assms(1,2) n by auto
  qed
  then have "tomid < of_int available - prev + nano" using assms(1) by auto
  then have "portion + prev + nano < of_int available + 1" using assms(3) n by auto
  then have "seconds \<le> available" using assms(4) by (simp add: floor_le_iff)
  then show ?thesis using assms(5) by simp
qed

lemma charge_portion_step:
  assumes "charge_portion db last0 cursor elapsed portion m = Inr m'"
    "0 \<le> portion" "- nano \<le> mt_remainder m" "mt_grace_started m = None" "mt_grace_wall m = None"
    "portion \<le> secs (next_midnight cursor - cursor)"
  shows "same_identity m m' \<and> same_clock m m' \<and> (\<exists>n fr ex. portion_step db (sh_date cursor) portion m m' n fr ex)"
proof -
  let ?rows = "call_rows (mt_call_id m) db" and ?day = "sh_date cursor"
  obtain b where b: "balance (mt_user_id m) (mt_daily_seconds m) cursor False db = Inr b"
    using assms(1) by (auto simp: charge_portion_def bindR_Inr_iff)
  define free where "free = max 0 (bl_free b - free_reserved m ?rows ?day)"
  define extra where "extra = max 0 (bl_extra b - extra_reserved m ?rows)"
  define seconds where "seconds = \<lfloor>portion + mt_remainder m + nano\<rfloor>"
  define charged where "charged = min seconds (free + extra)"
  define offset where "offset = max 0 (of_int (free + extra) - mt_remainder m)"
  define resets where "resets = (0 < mt_daily_seconds m \<and> \<bar>offset - secs (next_midnight cursor - cursor)\<bar> < nano)"
  define m1 where "m1 = m\<lparr>mt_slices := append_slice (mt_slices m) ?day ''connected'' charged (min charged free) (charged - min charged free),
    mt_remainder := portion + mt_remainder m - of_int seconds\<rparr>"
  have "(if free_reserved m ?rows ?day < 0 \<or> extra_reserved m ?rows < 0
      then Inl (QuotaError ''observation_checkpoint_stale'')
      else Inr (if free + extra \<le> seconds \<and> \<not> resets
        then m1\<lparr>mt_grace_started := Some (last0 + elapsed + offset), mt_grace_wall := Some (cursor + td_us offset), mt_remainder := 0\<rparr>
        else m1)) = Inr m'"
    using assms(1) unfolding charge_portion_def b bindR_simps Let_def m1_def resets_def offset_def charged_def
      seconds_def free_def extra_def .
  then have "(if free + extra \<le> seconds \<and> \<not> resets
      then m1\<lparr>mt_grace_started := Some (last0 + elapsed + offset), mt_grace_wall := Some (cursor + td_us offset), mt_remainder := 0\<rparr>
      else m1) = m'"
    by (cases "free_reserved m ?rows ?day < 0 \<or> extra_reserved m ?rows < 0") (simp_all only: if_True if_False sum.distinct sum.inject)
  note m' = this [symmetric]
  have sec: "0 \<le> seconds" using assms(2,3) by (simp add: seconds_def)
  have fe: "0 \<le> free" "0 \<le> extra" by (simp_all add: free_def extra_def)
  have free: "free = max 0 (free_on m ?day db - free_reserved m ?rows ?day)"
    and extra: "extra = max 0 (account_extra (mt_user_id m) db - extra_reserved m ?rows)"
    by (simp_all add: free_def extra_def balance_free_on [OF b])
  have "of_int seconds \<le> portion + mt_remainder m + nano" by (simp add: seconds_def)
  then have rem: "- nano \<le> portion + mt_remainder m - of_int seconds" by simp
  have full: "charged = seconds" if "\<not> (free + extra \<le> seconds \<and> \<not> resets)"
  proof (cases "free + extra \<le> seconds")
    case True
    with that have "\<bar>max 0 (of_int (free + extra) - mt_remainder m) - secs (next_midnight cursor - cursor)\<bar> < nano"
      by (simp add: resets_def offset_def)
    moreover have "1 / 1000000 \<le> secs (next_midnight cursor - cursor)"
      by (rule secs_pos) (use next_midnight_later [of cursor] in simp)
    ultimately show ?thesis using resets_exact [OF _ _ assms(6) seconds_def True] True by (simp add: charged_def)
  qed (simp add: charged_def)
  have slices: "mt_slices m' = append_slice (mt_slices m) ?day ''connected'' charged (min charged free) (charged - min charged free)"
    by (simp add: m' m1_def)
  have "portion_step db ?day portion m m' charged (min charged free) (charged - min charged free)"
    unfolding portion_step_def slices free [symmetric] extra [symmetric]
    using sec fe rem full assms(4,5) by (auto simp: m' m1_def charged_def nano_def)
  moreover have "same_identity m m' \<and> same_clock m m'" by (simp add: m' m1_def same_identity_def same_clock_def)
  ultimately show ?thesis by blast
qed

lemma same_identity_trans: "same_identity a b \<Longrightarrow> same_identity b c \<Longrightarrow> same_identity a c"
  by (simp add: same_identity_def)

lemma same_clock_trans: "same_clock a b \<Longrightarrow> same_clock b c \<Longrightarrow> same_clock a c"
  by (simp add: same_clock_def)

definition charging :: "database \<Rightarrow> meter \<Rightarrow> bool" where
  "charging db m \<longleftrightarrow> slices_wf (mt_slices m) \<and> fits m db \<and> - nano \<le> mt_remainder m \<and>
     (mt_grace_started m = None \<longleftrightarrow> mt_grace_wall m = None)"

lemma portion_step_charging:
  assumes "portion_step db day portion m m' n fr ex" "same_identity m m'" "charging db m"
  shows "charging db m'"
proof -
  have p: "mt_slices m' = append_slice (mt_slices m) day ''connected'' n fr ex" "n = fr + ex" "0 \<le> fr" "0 \<le> ex"
    using assms(1) by (simp_all add: portion_step_def)
  have "fits m' db"
    by (rule fits_append [OF _ assms(2) p(1)]) (use assms p in \<open>auto simp: portion_step_def charging_def\<close>)
  moreover have "slices_wf (mt_slices m')"
    unfolding p(1) by (rule slices_wf_append) (use assms(3) p in \<open>auto simp: charging_def\<close>)
  ultimately show ?thesis using assms(1) by (simp add: charging_def portion_step_def)
qed

text \<open>The charging loop keeps the usage within the balance, and loses no time but a sub-nanosecond
  residue.\<close>

definition connected_seconds :: "meter \<Rightarrow> rat" where
  "connected_seconds m = of_int (usum sl_duration (\<lambda>k. snd k = ''connected'') (mt_slices m)) + mt_remainder m"

lemma charge_loop_facts:
  assumes "charge_loop db last0 cursor left elapsed m = Inr m'" "charging db m" "0 \<le> left"
  shows "charging db m' \<and> same_identity m m' \<and> same_clock m m' \<and>
    (mt_grace_started m' = None \<longrightarrow>
       connected_seconds m' \<le> connected_seconds m + left \<and> connected_seconds m + left - nano \<le> connected_seconds m')"
  using assms
proof (induction db last0 cursor left elapsed m rule: charge_loop.induct)
  case (1 db last0 cursor left elapsed m)
  show ?case
  proof (cases "nano < left \<and> mt_grace_started m = None")
    case False
    then have "m' = m" using 1(2) by (simp add: charge_loop.simps [of db last0 cursor left] split: if_splits)
    then show ?thesis using 1(3,4) False by (auto simp: same_identity_def same_clock_def nano_def)
  next
    case True
    define portion where "portion = min left (secs (next_midnight cursor - cursor))"
    have "1 / 1000000 \<le> secs (next_midnight cursor - cursor)"
      by (rule secs_pos) (use next_midnight_later [of cursor] in simp)
    then have por: "0 \<le> portion" "portion \<le> left" "portion \<le> secs (next_midnight cursor - cursor)"
      using True by (auto simp: portion_def nano_def min_def)
    obtain m1 where m1: "charge_portion db last0 cursor elapsed portion m = Inr m1"
      and rest: "charge_loop db last0 (cursor + td_us portion) (left - portion) (elapsed + portion) m1 = Inr m'"
      using 1(2) True by (auto simp: charge_loop.simps [of db last0 cursor left] portion_def Let_def split: sum.splits)
    obtain n fr ex where step: "portion_step db (sh_date cursor) portion m m1 n fr ex"
      and id: "same_identity m m1" and clk: "same_clock m m1"
      using charge_portion_step [OF m1 por(1) _ _ _ por(3)] 1(3) True by (auto simp: charging_def)
    have ch: "charging db m1" by (rule portion_step_charging [OF step id 1(3)])
    have ih: "charging db m' \<and> same_identity m1 m' \<and> same_clock m1 m' \<and>
      (mt_grace_started m' = None \<longrightarrow> connected_seconds m' \<le> connected_seconds m1 + (left - portion) \<and>
        connected_seconds m1 + (left - portion) - nano \<le> connected_seconds m')"
      by (rule 1(1) [OF True portion_def m1 rest ch]) (use por in simp)
    have grace: "mt_grace_started m1 = None" if "mt_grace_started m' = None"
    proof (rule ccontr)
      assume "mt_grace_started m1 \<noteq> None"
      then have "m' = m1" using rest by (simp add: charge_loop.simps [of db last0 "cursor + td_us portion"] split: if_splits)
      then show False using that \<open>mt_grace_started m1 \<noteq> None\<close> by simp
    qed
    have "connected_seconds m1 = connected_seconds m + portion" if "mt_grace_started m1 = None"
      using that step by (simp add: portion_step_def connected_seconds_def usum_append_slice)
    with ih grace same_identity_trans [OF id] same_clock_trans [OF clk] show ?thesis by auto
  qed
qed

definition meter_ok :: "database \<Rightarrow> meter \<Rightarrow> bool" where
  "meter_ok db m \<longleftrightarrow> charging db m \<and> 0 \<le> mt_daily_seconds m \<and> 0 \<le> mt_grace_limit m \<and> mt_grace_limit m \<le> 30 \<and>
     0 \<le> mt_growth_seconds m \<and> (mt_last_monotonic m = None \<longleftrightarrow> mt_last_wall m = None) \<and>
     (case mt_grace_started m of
        None \<Rightarrow> mt_grace_seconds m = 0
      | Some g \<Rightarrow> (case mt_last_monotonic m of
          None \<Rightarrow> False | Some l \<Rightarrow> mt_grace_seconds m = grace_total m g l))"

lemma max_py_int: "max 0 (py_int x) = max 0 \<lfloor>x\<rfloor>"
proof (cases "0 \<le> x")
  case False
  then have "\<lceil>x\<rceil> \<le> 0" "\<lfloor>x\<rfloor> \<le> 0" by (simp_all add: floor_le_iff)
  then show ?thesis using False by (simp add: py_int_def)
qed (simp add: py_int_def)

lemma py_int_mono: "x \<le> y \<Longrightarrow> max 0 (py_int x) \<le> max 0 (py_int y)"
  unfolding max_py_int by (rule max.mono [OF order.refl floor_mono])

lemma grace_total_mono: "l \<le> t \<Longrightarrow> grace_total m g l \<le> grace_total m g t"
  using py_int_mono [of "l - g + nano" "t - g + nano"] by (auto simp: grace_total_def)

lemma fits_grace:
  assumes "fits m db" "slices_wf (mt_slices m)" "same_identity m m'" "0 \<le> left"
    "mt_slices m' = grace_loop cursor left (mt_slices m)"
  shows "fits m' db"
proof -
  note g = grace_loop_facts [OF assms(4,2), where cursor = cursor]
  have c: "mt_call_id m' = mt_call_id m" "mt_user_id m' = mt_user_id m"
    using assms(3) by (simp_all add: same_identity_def)
  have le: "use_le (mt_slices m) (mt_slices m')" unfolding use_le_def tot_def assms(5) using g by auto
  have r: "free_reserved m' rows day = free_reserved m rows day" "extra_reserved m' rows = extra_reserved m rows" for rows day
    unfolding reserved_usum assms(5) using g by auto
  obtain es where es: "rows_slices (call_rows (mt_call_id m) db) = Inr es" "slices_wf es" "use_le es (mt_slices m)"
    using assms(1) by (auto simp: fits_def)
  have "use_le es (mt_slices m')" using es(3) le unfolding use_le_def by (meson order.trans)
  moreover have "free_reserved m (call_rows (mt_call_id m) db) day \<le> free_on m day db"
    "extra_reserved m (call_rows (mt_call_id m) db) \<le> account_extra (mt_user_id m) db" for day
    using assms(1) by (simp_all add: fits_def)
  ultimately show ?thesis using es(1,2)
    by (simp add: fits_def c r free_on_identity [OF assms(3)])
qed

lemma charge_since_facts:
  assumes "charge_since tick m db = Inr m1" "meter_ok db m" "\<forall>l. mt_last_monotonic m = Some l \<longrightarrow> l \<le> tick"
  shows "charging db m1 \<and> same_identity m m1 \<and> same_clock m m1 \<and>
    (\<forall>g. mt_grace_started m1 = Some g \<longrightarrow> mt_grace_seconds m1 \<le> grace_total m1 g tick)"
    "mt_last_monotonic m = Some l \<Longrightarrow> mt_connected m \<Longrightarrow> mt_grace_started m1 = None \<Longrightarrow>
       connected_seconds m1 \<le> connected_seconds m + (tick - l) \<and> connected_seconds m + (tick - l) - nano \<le> connected_seconds m1"
proof -
  have ch: "charging db m" using assms(2) by (simp add: meter_ok_def)
  have pos: "0 \<le> grace_total m1 g tick" if "same_identity m m1" for g
    using assms(2) that by (simp add: meter_ok_def grace_total_def same_identity_def)
  consider (same) "m1 = m" "\<not> (mt_connected m \<and> mt_grace_started m = None) \<or> mt_last_monotonic m = None"
    | (loop) l wall where "mt_last_monotonic m = Some l" "mt_grace_started m = None"
        "charge_loop db l wall (tick - l) 0 m = Inr m1"
    using assms(1) by (auto simp: charge_since_def split: option.splits if_splits)
  note cs = this
  show "charging db m1 \<and> same_identity m m1 \<and> same_clock m m1 \<and>
    (\<forall>g. mt_grace_started m1 = Some g \<longrightarrow> mt_grace_seconds m1 \<le> grace_total m1 g tick)"
    using cs
  proof cases
    case same
    have "mt_grace_seconds m \<le> grace_total m g tick" if "mt_grace_started m = Some g" for g
      using assms(2,3) that grace_total_mono [of _ tick m g] by (auto simp: meter_ok_def split: option.splits)
    then show ?thesis using same ch by (simp add: same_identity_def same_clock_def)
  next
    case loop
    have "mt_grace_seconds m = 0" using assms(2) loop by (simp add: meter_ok_def)
    then show ?thesis using charge_loop_facts [OF loop(3) ch] assms(3) loop pos by (auto simp: same_clock_def)
  qed
  show "connected_seconds m1 \<le> connected_seconds m + (tick - l) \<and> connected_seconds m + (tick - l) - nano \<le> connected_seconds m1"
    if "mt_last_monotonic m = Some l" "mt_connected m" "mt_grace_started m1 = None"
    using cs
  proof cases
    case same
    then show ?thesis using that by auto
  next
    case loop
    then show ?thesis using charge_loop_facts [OF loop(3) ch] assms(3) that by auto
  qed
qed

lemma count_grace_facts:
  assumes "count_grace tick m1 = Inr m2" "charging db m1"
    "\<forall>g. mt_grace_started m1 = Some g \<longrightarrow> mt_grace_seconds m1 \<le> grace_total m1 g tick"
  shows "charging db m2 \<and> same_identity m1 m2 \<and> mt_grace_started m2 = mt_grace_started m1 \<and>
    mt_last_monotonic m2 = mt_last_monotonic m1 \<and> mt_growth_seconds m2 = mt_growth_seconds m1 \<and>
    (case mt_grace_started m2 of None \<Rightarrow> m2 = m1 | Some g \<Rightarrow> mt_grace_seconds m2 = grace_total m2 g tick)"
proof (cases "mt_grace_started m1")
  case None
  then show ?thesis using assms by (simp add: count_grace_def same_identity_def)
next
  case (Some g)
  then obtain wall where wall: "mt_grace_wall m1 = Some wall"
    and m2: "m2 = m1\<lparr>mt_slices := grace_loop (wall + mt_grace_seconds m1 * us_second)
        (grace_total m1 g tick - mt_grace_seconds m1) (mt_slices m1), mt_grace_seconds := grace_total m1 g tick\<rparr>"
    using assms(1) by (auto simp: count_grace_def Let_def split: option.splits)
  have left: "0 \<le> grace_total m1 g tick - mt_grace_seconds m1" using assms(3) Some by simp
  have wf: "slices_wf (mt_slices m1)" using assms(2) by (simp add: charging_def)
  have id: "same_identity m1 m2" by (simp add: m2 same_identity_def)
  have "fits m2 db" by (rule fits_grace [OF _ wf id left]) (use assms(2) in \<open>simp_all add: m2 charging_def\<close>)
  moreover have "slices_wf (mt_slices m2)" using grace_loop_facts [OF left wf] by (simp add: m2)
  ultimately show ?thesis using assms(2) Some wall id by (simp add: charging_def m2 grace_total_def)
qed

lemma observe_facts:
  assumes "observe online tick now muted m db = Inr (ob, m')" "meter_ok db m"
  shows "meter_ok db m' \<and> same_identity m m' \<and> mt_last_wall m' = Some now \<and> mt_last_monotonic m' = Some tick"
    "mt_last_monotonic m = Some l \<Longrightarrow> mt_connected m \<Longrightarrow> mt_grace_started m' = None \<Longrightarrow>
       connected_seconds m' \<le> connected_seconds m + (tick - l) \<and> connected_seconds m + (tick - l) - nano \<le> connected_seconds m'"
proof -
  obtain m1 m2 where m1: "charge_since tick m db = Inr m1" and m2: "count_grace tick m1 = Inr m2"
    and m': "m' = close_observation online tick now muted m2"
    and ord: "\<forall>l. mt_last_monotonic m = Some l \<longrightarrow> l \<le> tick"
    using assms(1) by (auto simp: observe_def bindR_Inr_iff Let_def split: if_splits option.splits)
  note c1 = charge_since_facts(1) [OF m1 assms(2) ord]
  note c2 = count_grace_facts [OF m2 conjunct1 [OF c1] conjunct2 [OF conjunct2 [OF conjunct2 [OF c1]]]]
  have grow: "0 \<le> mt_growth_seconds (count_growth tick m2)"
    using c1 c2 assms(2) by (auto simp: count_growth_def Let_def meter_ok_def same_clock_def split: option.splits)
  have cg: "mt_call_id m' = mt_call_id m2" "mt_user_id m' = mt_user_id m2" "mt_daily_seconds m' = mt_daily_seconds m2"
    "mt_grace_limit m' = mt_grace_limit m2" "mt_slices m' = mt_slices m2" "mt_remainder m' = mt_remainder m2"
    "mt_grace_started m' = mt_grace_started m2" "mt_grace_wall m' = mt_grace_wall m2" "mt_grace_seconds m' = mt_grace_seconds m2"
    "mt_last_monotonic m' = Some tick" "mt_last_wall m' = Some now" "mt_growth_seconds m' = mt_growth_seconds (count_growth tick m2)"
    by (auto simp: m' close_observation_def count_growth_def Let_def split: option.splits)
  have id: "same_identity m2 m'" "same_identity m m2"
    using c1 c2 cg by (auto simp: same_identity_def)
  have "fits m' db = fits m2 db"
    using id(1) free_on_identity [OF id(1)] by (simp add: fits_def cg free_reserved_def extra_reserved_def)
  moreover have "charging db m2" using c2 by blast
  ultimately have "charging db m'" by (simp add: charging_def cg)
  moreover have "grace_total m' g t = grace_total m2 g t" for g t by (simp add: grace_total_def cg)
  moreover have "mt_grace_seconds m' = 0" if "mt_grace_started m' = None"
  proof -
    have "mt_grace_started m1 = None" "m2 = m1" using c2 that by (auto simp: cg)
    moreover have "mt_grace_started m = None"
      using calculation(1) m1 by (auto simp: charge_since_def split: option.splits if_splits)
    ultimately show ?thesis using c1 assms(2) by (simp add: cg same_clock_def meter_ok_def)
  qed
  ultimately show "meter_ok db m' \<and> same_identity m m' \<and> mt_last_wall m' = Some now \<and> mt_last_monotonic m' = Some tick"
    using c1 c2 assms(2) grow id by (auto simp: meter_ok_def cg same_identity_def split: option.splits)
  show "connected_seconds m' \<le> connected_seconds m + (tick - l) \<and> connected_seconds m + (tick - l) - nano \<le> connected_seconds m'"
    if "mt_last_monotonic m = Some l" "mt_connected m" "mt_grace_started m' = None"
  proof -
    have "mt_grace_started m1 = None" "m2 = m1" using c2 that by (auto simp: cg)
    then show ?thesis
      using charge_since_facts(2) [OF m1 assms(2) ord that(1,2)] by (simp add: connected_seconds_def cg)
  qed
qed

lemma deltas_total_ok:
  assumes "use_le b a"
  shows "\<exists>ds. deltas (totals a) (totals b) = Inr ds"
proof -
  have "\<not> neg3 (sub3 (tot3 a k) (tot3 b k))" for k
    using spec [OF assms [unfolded use_le_def], of k] by (auto simp: tot3_def)
  then show ?thesis by (auto simp: deltas_def Let_def raw_deltas_def list_ex_iff)
qed

lemma usum_deltas:
  assumes "deltas_of a b ds"
  shows "usum sl_free p (map dslice ds) = usum sl_free p a - usum sl_free p b"
    "usum sl_extra p (map dslice ds) = usum sl_extra p a - usum sl_extra p b"
proof -
  let ?ks = "remdups (map slice_key (a @ b @ map dslice ds))"
  have "usum f p (b @ map dslice ds) = usum f p a" if "\<And>k. tot f (b @ map dslice ds) k = tot f a k" for f
  proof -
    have "usum f p (b @ map dslice ds) = sum_list (map (tot f (b @ map dslice ds)) (filter p ?ks))"
      by (rule usum_keys) (simp, simp only: set_remdups set_map set_append image_Un, blast)
    also have "\<dots> = sum_list (map (tot f a) (filter p ?ks))" using that by presburger
    also have "\<dots> = usum f p a" by (rule usum_keys [symmetric]) (simp, simp only: set_remdups set_map set_append image_Un, blast)
    finally show ?thesis .
  qed
  moreover have "tot sl_free (b @ map dslice ds) k = tot sl_free a k"
    "tot sl_extra (b @ map dslice ds) k = tot sl_extra a k" for k
    using deltas_of_total [OF assms, of k] by (simp_all add: tot3_def)
  ultimately have "usum sl_free p (b @ map dslice ds) = usum sl_free p a"
    "usum sl_extra p (b @ map dslice ds) = usum sl_extra p a" by blast+
  then show "usum sl_free p (map dslice ds) = usum sl_free p a - usum sl_free p b"
    "usum sl_extra p (map dslice ds) = usum sl_extra p a - usum sl_extra p b" by simp_all
qed

lemma deltas_valid:
  assumes "deltas_of a b ds" "slices_wf a" "slices_wf b" "use_le b a"
  shows "\<not> list_ex slice_invalid ds"
proof -
  have "\<not> slice_invalid d" if d: "d \<in> set ds" for d
  proof -
    obtain q kind x y z where dd: "d = ((q, kind), (x, y, z))" by (cases d) auto
    have v: "(x, y, z) = sub3 (tot3 a (q, kind)) (tot3 b (q, kind))" "\<not> neg3 (x, y, z)" "(x, y, z) \<noteq> (0, 0, 0)"
      using conjunct1 [OF conjunct2 [OF assms(1) [unfolded deltas_of_def]], THEN bspec, OF d]
      unfolding dd prod.case by blast+
    have eq: "x = tot sl_duration a (q, kind) - tot sl_duration b (q, kind)"
      "y = tot sl_free a (q, kind) - tot sl_free b (q, kind)"
      "z = tot sl_extra a (q, kind) - tot sl_extra b (q, kind)"
      using v(1) by (simp_all add: tot3_def)
    note ka = tot_kind [OF assms(2), of "(q, kind)", unfolded snd_conv]
    note kb = tot_kind [OF assms(3), of "(q, kind)", unfolded snd_conv]
    have nn: "0 \<le> x" using v(2) by simp
    show ?thesis
    proof (cases "kind = ''connected''")
      case True
      then have "x = y + z" using ka(1) kb(1) eq by simp
      then show ?thesis using True nn by (simp add: slice_invalid_def dd)
    next
      case False
      then have yz: "y = 0" "z = 0" using ka(2) kb(2) eq by simp_all
      have "kind = ''grace''"
      proof (rule ccontr)
        assume "kind \<noteq> ''grace''"
        then have "x = 0" using ka(3) kb(3) eq(1) False by simp
        then show False using v(3) yz by simp
      qed
      then show ?thesis using yz nn by (simp add: slice_invalid_def dd)
    qed
  qed
  then show ?thesis by (simp add: list_ex_iff)
qed

lemma fits_debit:
  assumes "fits m db" "deltas_of (mt_slices m) es ds" "rows_slices (call_rows (mt_call_id m) db) = Inr es"
    "\<not> list_ex slice_invalid ds"
    "case get_account (mt_user_id m) db of None \<Rightarrow> True | Some a \<Rightarrow> qa_free_quota_date a \<le> day"
  shows "\<exists>a'. debit m day ds (fst (account_or_new m day db)) = Inr a'"
proof -
  let ?a = "fst (account_or_new m day db)"
  have free: "free_by_day ds d = free_reserved m (call_rows (mt_call_id m) db) d" for d
    unfolding free_by_day_usum usum_deltas [OF assms(2)] reserved_usum rows_slices_sums [OF assms(3)] ..
  have extra: "extra_delta ds = extra_reserved m (call_rows (mt_call_id m) db)"
    unfolding extra_delta_usum usum_deltas [OF assms(2)] reserved_usum rows_slices_sums [OF assms(3)] ..
  have lim: "free_on m d db = day_limit m ?a d" for d
    by (auto simp: account_or_new_def free_on_def Let_def granted_account_def day_limit_def split: option.split)
  have "qa_free_quota_date ?a \<le> day"
    using assms(5) by (auto simp: account_or_new_def Let_def granted_account_def split: option.splits)
  moreover have "\<not> list_ex (\<lambda>(k, v). day_limit m ?a (fst k) < free_by_day ds (fst k)) ds"
  proof -
    have "\<not> day_limit m ?a d < free_by_day ds d" for d
      using assms(1) unfolding free lim [symmetric] by (simp add: fits_def not_less)
    then show ?thesis by (simp add: list_ex_iff split_def)
  qed
  moreover have "extra_delta ds \<le> qa_extra_remaining_seconds ?a"
    using assms(1) unfolding extra account_or_new_amounts by (simp add: fits_def)
  ultimately show ?thesis using assms(4) by (simp add: debit_def Let_def)
qed

lemma fits_settles:
  assumes "fits m db" "slices_wf (mt_slices m)" "mt_last_wall m = Some wall"
    "get_call (mt_call_id m) db = Some c" "vc_user_id c = mt_user_id m" "mt_user_id m \<in> set (db_users db)"
    "case get_account (mt_user_id m) db of None \<Rightarrow> True | Some a \<Rightarrow> qa_free_quota_date a \<le> sh_date wall"
  shows "\<exists>r db'. settle m db = Inr (r, db')"
proof -
  obtain es where es: "rows_slices (call_rows (mt_call_id m) db) = Inr es" "slices_wf es" "use_le es (mt_slices m)"
    using assms(1) by (auto simp: fits_def)
  obtain ds where ds: "deltas (totals (mt_slices m)) (totals es) = Inr ds" using deltas_total_ok [OF es(3)] by blast
  note d = deltas_of_deltas [OF ds]
  obtain a' where "debit m (sh_date wall) ds (fst (account_or_new m (sh_date wall) db)) = Inr a'"
    using fits_debit [OF assms(1) d es(1) deltas_valid [OF d assms(2) es(2,3)] assms(7)] by blast
  then have "\<exists>r db'. settle_debit m (totals (mt_slices m)) (totals es) c db = Inr (r, db')"
    by (simp add: settle_debit_def ds assms(3) Let_def split_def)
  then show ?thesis using assms(4,5,6) es(1) by (simp add: settle_def Let_def)
qed

text \<open>A sequence of observations of one call, and the meter it leaves.\<close>

fun observe_all :: "(bool \<times> clock \<times> datetime \<times> bool) list \<Rightarrow> meter \<Rightarrow> database \<Rightarrow> meter res" where
  "observe_all [] m db = Inr m"
| "observe_all ((online, tick, now, muted) # obs) m db =
     bindR (observe online tick now muted m db) (\<lambda>(ob, m'). observe_all obs m' db)"

lemma observe_all_ok:
  assumes "observe_all obs m db = Inr m'" "meter_ok db m"
  shows "meter_ok db m' \<and> same_identity m m' \<and>
    mt_last_wall m' = (if obs = [] then mt_last_wall m else Some (fst (snd (snd (last obs)))))"
  using assms
proof (induction obs arbitrary: m)
  case Nil
  then show ?case by (simp add: same_identity_def)
next
  case (Cons o' obs)
  obtain online tick now muted where o': "o' = (online, tick, now, muted)" by (cases o') auto
  obtain ob m1 where m1: "observe online tick now muted m db = Inr (ob, m1)" and rest: "observe_all obs m1 db = Inr m'"
    using Cons.prems(1) by (auto simp: o' bindR_Inr_iff)
  note f = observe_facts(1) [OF m1 Cons.prems(2)]
  show ?case using Cons.IH [OF rest] f same_identity_trans by (auto simp: o')
qed

lemma new_meter_ok:
  assumes "new_meter cid u daily g = Inr m" "call_rows cid db = []" "accounts_ok db"
  shows "meter_ok db m \<and> mt_call_id m = cid \<and> mt_user_id m = u"
proof -
  have m: "0 \<le> daily" "0 \<le> g" "g \<le> 30" "mt_call_id m = cid" "mt_user_id m = u" "mt_daily_seconds m = daily"
    "mt_grace_limit m = g" "mt_last_monotonic m = None" "mt_last_wall m = None" "mt_remainder m = 0"
    "mt_grace_started m = None" "mt_grace_wall m = None" "mt_grace_seconds m = 0" "mt_slices m = []" "mt_growth_seconds m = 0"
    using assms(1) by (auto simp: new_meter_def split: if_splits)
  have "0 \<le> free_on m day db" for day
    using accounts_ok_limit [OF assms(3), of m] m by simp
  moreover have "0 \<le> account_extra u db"
    using assms(3) by (auto simp: account_extra_def accounts_ok_def get_account_def list_all_iff
      dest!: row_find_key split: option.split)
  ultimately have "fits m db"
    using m assms(2) by (simp add: fits_def free_reserved_def extra_reserved_def use_le_def)
  then show ?thesis using m by (simp add: meter_ok_def charging_def nano_def)
qed

section \<open>Settlement, the theorems\<close>

text \<open>C4: Settlement happens exactly once. When \<open>settle\<close> succeeds, the ledger rows of the call add up,
  per date and kind, to exactly the slices the meter measured, the rows of every other call are
  untouched, and settling the same meter again succeeds as a replay that changes neither the ledger
  nor any account, so a duplicate end debits nothing.\<close>

theorem settle_exactly_once:
  assumes "settle m db = Inr (r, db')" "ledger_wf db" "slices_wf (mt_slices m)"
  shows "ledger_matches m db' \<and> ledger_wf db' \<and>
    (\<forall>cid. cid = mt_call_id m \<or> call_rows cid db' = call_rows cid db) \<and>
    (\<exists>r2 db2. settle m db' = Inr (r2, db2) \<and> st_idempotent r2 \<and> db_ledger db2 = db_ledger db' \<and>
       db_accounts db2 = db_accounts db')"
proof -
  have "call_rows cid db' = call_rows cid db" if "cid \<noteq> mt_call_id m" for cid
    using settle_cases [OF assms(1)] that debited_rows(1) by (fastforce simp: replayed_def)
  with settle_matches [OF assms] settle_keeps_owner [OF assms(1)] settle_again [OF _ assms(3)]
  show ?thesis by blast
qed

definition ledger_free :: "date \<Rightarrow> database \<Rightarrow> int" where
  "ledger_free day db = sum_list (map lg_free_seconds_used (filter (\<lambda>r. lg_quota_date r = Some day) (db_ledger db)))"

definition ledger_extra :: "database \<Rightarrow> int" where
  "ledger_extra db = sum_list (map lg_extra_seconds_used (db_ledger db))"

lemma debit_free_nonneg:
  assumes "debit m day ds a = Inr a'" "0 \<le> day_limit m a day"
  shows "0 \<le> qa_free_remaining_seconds a'"
proof (cases "\<exists>k v. (k, v) \<in> set ds \<and> fst k = day")
  case True
  then show ?thesis using debit_facts(7,8) [OF assms(1)] by fastforce
next
  case False
  then have "filter (\<lambda>(k, v). fst k = day) ds = []" by (auto simp: filter_empty_conv)
  then have "free_by_day ds day = 0" by (simp add: free_by_day_def)
  then show ?thesis using debit_facts(7) [OF assms(1)] assms(2) by simp
qed

lemma accounts_ok_put:
  assumes "accounts_ok db" "0 \<le> qa_free_remaining_seconds a" "0 \<le> qa_extra_remaining_seconds a"
  shows "accounts_ok (put_account a db)"
  unfolding accounts_ok_def list_all_iff
proof
  fix x assume "x \<in> set (db_accounts (put_account a db))"
  then have "x = a \<or> x \<in> set (db_accounts db)" by (auto simp: put_account_def dest!: set_row_put)
  then show "0 \<le> qa_free_remaining_seconds x \<and> 0 \<le> qa_extra_remaining_seconds x"
    using assms by (auto simp: accounts_ok_def list_all_iff)
qed

lemma accounts_ok_new:
  "accounts_ok db \<Longrightarrow> 0 \<le> mt_daily_seconds m \<Longrightarrow> accounts_ok (snd (account_or_new m day db))"
  by (auto simp: account_or_new_def accounts_ok_def add_account_def granted_account_def Let_def split: option.splits)

lemma debited_sums:
  assumes "debited m c es ds day a' db db'"
  shows "ledger_free day db' = ledger_free day db + free_by_day ds day"
    "ledger_extra db' = ledger_extra db + extra_delta ds"
    "free_on m day db' = free_on m day db - free_by_day ds day"
    "account_extra (mt_user_id m) db' = account_extra (mt_user_id m) db - extra_delta ds"
    "accounts_ok db \<Longrightarrow> 0 \<le> mt_daily_seconds m \<Longrightarrow> accounts_ok db'"
proof -
  show "ledger_free day db' = ledger_free day db + free_by_day ds day"
    using rows_slices_sums(1) [OF new_rows_slices]
    by (simp add: ledger_free_def debited_rows(2) [OF assms] free_by_day_usum)
  show "ledger_extra db' = ledger_extra db + extra_delta ds"
    using rows_slices_sums(2) [OF new_rows_slices]
    by (simp add: ledger_extra_def debited_rows(2) [OF assms] extra_delta_usum)
  have d: "debit m day ds (fst (account_or_new m day db)) = Inr a'"
    using assms unfolding debited_def by blast
  show "free_on m day db' = free_on m day db - free_by_day ds day"
    using debit_facts(2,7) [OF d] debited_account(1) [OF assms]
    by (simp add: account_or_new_amounts free_on_def [of m day db'] day_limit_def [of m a'])
  show "account_extra (mt_user_id m) db' = account_extra (mt_user_id m) db - extra_delta ds"
    using debit_facts(5) [OF d] debited_account(1) [OF assms]
    by (simp add: account_or_new_amounts account_extra_def [of _ db'])
  assume ok: "accounts_ok db" "0 \<le> mt_daily_seconds m"
  have "0 \<le> qa_free_remaining_seconds a'"
    by (rule debit_free_nonneg [OF d]) (simp add: account_or_new_amounts accounts_ok_limit [OF ok])
  moreover have "0 \<le> qa_extra_remaining_seconds a'" using debit_facts(5,6) [OF d] by simp
  ultimately have "accounts_ok (put_account a' (snd (account_or_new m day db)))"
    by (rule accounts_ok_put [OF accounts_ok_new [OF ok]])
  then show "accounts_ok db'" using assms by (simp add: debited_def accounts_ok_def)
qed

text \<open>C19: Settlement conserves quota and never overdraws. A successful \<open>settle\<close> moves seconds from the
  account to the ledger and creates or loses none: on the settlement's own date the free seconds left
  plus those in the ledger stay the same, and so do the extra seconds left plus those in the ledger;
  no other user's account changes, and if no account was negative before, none is afterwards.\<close>

theorem settle_conserves_quota:
  assumes "settle m db = Inr (r, db')" "mt_last_wall m = Some wall"
  shows "free_on m (sh_date wall) db' + ledger_free (sh_date wall) db' =
      free_on m (sh_date wall) db + ledger_free (sh_date wall) db \<and>
    account_extra (mt_user_id m) db' + ledger_extra db' = account_extra (mt_user_id m) db + ledger_extra db \<and>
    (\<forall>v. v = mt_user_id m \<or> get_account v db' = get_account v db) \<and>
    (accounts_ok db \<and> 0 \<le> mt_daily_seconds m \<longrightarrow> accounts_ok db')"
proof -
  obtain c es where alt: "replayed m c db db' \<or> (\<exists>ds day a'. debited m c es ds day a' db db')"
    using settle_cases [OF assms(1)] by blast
  then show ?thesis
  proof
    assume "replayed m c db db'"
    then show ?thesis
      by (simp add: replayed_def free_on_def ledger_free_def account_extra_def ledger_extra_def accounts_ok_def)
  next
    assume "\<exists>ds day a'. debited m c es ds day a' db db'"
    then obtain ds a' where d: "debited m c es ds (sh_date wall) a' db db'"
      using assms(2) by (auto simp: debited_def)
    show ?thesis using debited_sums [OF d] debited_account(2) [OF d] by auto
  qed
qed

text \<open>C29: An observed call can always be settled. Start from a fresh meter of an existing call without
  ledger rows, feed it any sequence of server observations that \<open>observe\<close> accepts, and settle: if the
  call, its user and account are as they were and the account is not dated after the last wall reading,
  \<open>settle\<close> succeeds (no conflict, overdraft or invalid slice is possible), the ledger of the call then
  adds up to the measured usage, and the grace granted is at most the limit of at most 30 seconds.\<close>

theorem observed_usage_settles:
  assumes "new_meter cid u daily g = Inr m0" "observe_all (obs @ [(online, tick, wall, muted)]) m0 db = Inr m"
    "call_rows cid db = []" "accounts_ok db" "ledger_wf db" "get_call cid db = Some c" "vc_user_id c = u"
    "u \<in> set (db_users db)"
    "case get_account u db of None \<Rightarrow> True | Some a \<Rightarrow> qa_free_quota_date a \<le> sh_date wall"
  shows "\<exists>r db'. settle m db = Inr (r, db') \<and> ledger_matches m db' \<and> accounts_ok db' \<and>
    0 \<le> mt_grace_seconds m \<and> mt_grace_seconds m \<le> mt_grace_limit m \<and> mt_grace_limit m \<le> 30"
proof -
  note m0 = new_meter_ok [OF assms(1,3,4)]
  note m = observe_all_ok [OF assms(2) conjunct1 [OF m0]]
  have id: "mt_call_id m = cid" "mt_user_id m = u" "mt_last_wall m = Some wall"
    using m m0 by (simp_all add: same_identity_def)
  have ok: "fits m db" "slices_wf (mt_slices m)" "0 \<le> mt_daily_seconds m"
    using m by (simp_all add: meter_ok_def charging_def)
  obtain r db' where s: "settle m db = Inr (r, db')"
    using fits_settles [OF ok(1,2) id(3)] assms(6-9) id by auto
  have "accounts_ok db'"
    using settle_cases [OF s] debited_sums(5) assms(4) ok(3) by (fastforce simp: replayed_def accounts_ok_def)
  moreover have "0 \<le> mt_grace_seconds m \<and> mt_grace_seconds m \<le> mt_grace_limit m \<and> mt_grace_limit m \<le> 30"
    using m by (auto simp: meter_ok_def grace_total_def split: option.splits)
  ultimately show ?thesis using s settle_matches [OF s assms(5) ok(2)] by blast
qed

text \<open>C30: No connected second is lost or billed twice. While the balance lasts (the meter is not in
  closing grace after the observation), an observation of a connected meter adds to the billed
  connected seconds plus the carried fraction exactly the monotonic time since the last observation,
  up to the loop's cut-off of one nanosecond; the carried fraction never falls below minus a
  nanosecond and the reserved usage stays within the balance.\<close>

theorem observation_time_exact:
  assumes "meter_ok db m" "observe online tick now muted m db = Inr (ob, m')"
    "mt_last_monotonic m = Some l" "mt_connected m" "mt_grace_started m' = None"
  shows "connected_seconds m + (tick - l) - nano \<le> connected_seconds m' \<and>
    connected_seconds m' \<le> connected_seconds m + (tick - l) \<and> - nano \<le> mt_remainder m' \<and> fits m' db"
  using observe_facts [OF assms(2,1)] assms(3-5) by (simp add: meter_ok_def charging_def)

text \<open>What a successful grant went through.\<close>

lemma grant_extra_guards:
  assumes "grant_extra u seconds expected daily now db = Inr (b, v, db')"
  shows "bindR (grant_target u daily (sh_date now) db) (\<lambda>(a, db1).
        if 2147483647 - seconds < qa_extra_remaining_seconds a
        then Inl (QuotaError ''quota_admin_balance_overflow'')
        else
          let db2 = put_account (credited seconds a) db1 in
          bindR (balance u daily now True db2) (\<lambda>b. Inr (b, qa_version (credited seconds a), db2))) = Inr (b, v, db')
     \<and> account_version (get_account u db) = expected \<and> u \<in> set (db_users db)"
  using assms unfolding grant_extra_def by (simp split: if_split_asm)

lemma grant_extra_effect:
  assumes "bindR (grant_target u daily (sh_date now) db) (\<lambda>(a, db1).
        if 2147483647 - seconds < qa_extra_remaining_seconds a
        then Inl (QuotaError ''quota_admin_balance_overflow'')
        else
          let db2 = put_account (credited seconds a) db1 in
          bindR (balance u daily now True db2) (\<lambda>b. Inr (b, qa_version (credited seconds a), db2))) = Inr (b, v, db')"
  shows "\<exists>a db1. grant_target u daily (sh_date now) db = Inr (a, db1) \<and> \<not> 2147483647 - seconds < qa_extra_remaining_seconds a
    \<and> balance u daily now True (put_account (credited seconds a) db1) = Inr b \<and> v = qa_version (credited seconds a)
    \<and> db' = put_account (credited seconds a) db1"
  using assms by (auto simp: bindR_Inr_iff Let_def split: if_split_asm)

text \<open>A grant is exact and guarded. A successful \<open>grant_extra\<close> adds exactly the granted seconds to the
  persistent extra pool of an existing user, raises the version by one from the version the
  administrator saw, stays within a signed 32-bit column, leaves the ledger and every other account
  alone, and reports the new pool; a stale version is refused, so no grant is applied twice.\<close>

theorem grant_extra_exact:
  assumes "grant_extra u seconds expected daily now db = Inr (b, v, db')"
  shows "account_extra u db' = account_extra u db + seconds \<and> account_extra u db' \<le> 2147483647 \<and>
    account_version (get_account u db) = expected \<and> account_version (get_account u db') = expected + 1 \<and>
    v = expected + 1 \<and> bl_extra b = account_extra u db' \<and> db_ledger db' = db_ledger db \<and>
    (\<forall>w. w = u \<or> get_account w db' = get_account w db) \<and>
    (\<exists>e. grant_extra u seconds expected daily now db' = Inl e)"
proof -
  note g = grant_extra_guards [OF assms]
  have ver: "account_version (get_account u db) = expected" "u \<in> set (db_users db)" using g by simp_all
  obtain a db1 where tgt: "grant_target u daily (sh_date now) db = Inr (a, db1)"
    and cap: "\<not> 2147483647 - seconds < qa_extra_remaining_seconds a"
    and bal: "balance u daily now True (put_account (credited seconds a) db1) = Inr b"
    and v: "v = qa_version (credited seconds a)" and db': "db' = put_account (credited seconds a) db1"
    using grant_extra_effect [OF conjunct1 [OF g]] by blast
  have a: "get_account u db1 = Some a" "qa_user_id a = u" "qa_extra_remaining_seconds a = account_extra u db"
    "qa_version a = expected" "db_ledger db1 = db_ledger db" "db_users db1 = db_users db" "\<And>w. w \<noteq> u \<Longrightarrow> get_account w db1 = get_account w db"
    using tgt ver by (auto simp: grant_target_def Let_def granted_account_def get_account_add account_extra_def
      account_version_def dest: accounts.get_key split: option.splits if_splits)
  have u: "get_account u db' = Some (credited seconds a)"
    unfolding db' by (rule accounts.get_put_same [OF a(1)]) (simp add: a credited_def)
  have o: "get_account w db' = get_account w db" if "w \<noteq> u" for w
    unfolding db' using accounts.get_put_other [OF a(1) _ that] a(2,7) that by (simp add: credited_def)
  have "bl_extra b = account_extra u db'"
    using bal unfolding db' [symmetric]
    by (auto simp: balance_def account_extra_def Let_def split: option.splits if_splits)
  moreover have "\<exists>e. grant_extra u seconds expected daily now db' = Inl e"
    using u a(4) by (simp add: grant_extra_def account_version_def credited_def)
  ultimately show ?thesis using u o cap v a ver by (auto simp: account_extra_def account_version_def db' credited_def)
qed

text \<open>Checkpoints only move forward. A successful \<open>checkpoint\<close> leaves for the call a meter of the same
  user whose monotonic reading is no older than the one stored before and no older than the one
  offered, and touches no other call; a conflicting or reversed write never replaces the stored meter.\<close>

theorem checkpoint_monotone:
  assumes "checkpoint m cache = Inr (stored, cache')"
  shows "\<exists>m'. cache' (mt_call_id m) = Some m' \<and> mt_last_monotonic m' \<noteq> None \<and> mt_user_id m' = mt_user_id m \<and>
    the (mt_last_monotonic m) \<le> the (mt_last_monotonic m') \<and>
    (stored \<longleftrightarrow> m' = m) \<and>
    (\<forall>old. cache (mt_call_id m) = Some old \<longrightarrow>
       mt_user_id old = mt_user_id m \<and> the (mt_last_monotonic old) \<le> the (mt_last_monotonic m') \<and> (stored \<or> m' = old)) \<and>
    (\<forall>cid. cid = mt_call_id m \<or> cache' cid = cache cid)"
proof (cases "cache (mt_call_id m)")
  case None
  then show ?thesis using assms by (auto simp: checkpoint_def checkpoint_lua_def split: if_splits)
next
  case (Some old)
  then obtain p n where pn: "mt_last_monotonic old = Some p" "mt_last_monotonic m = Some n" "mt_user_id old = mt_user_id m"
    using assms by (auto simp: checkpoint_def checkpoint_lua_def split: option.splits if_splits)
  show ?thesis
  proof (cases "n < p")
    case True
    then have "stored = False" "cache' = cache" "old \<noteq> m"
      using assms Some pn by (auto simp: checkpoint_def checkpoint_lua_def)
    then show ?thesis using Some pn True by simp
  next
    case False
    then have "stored = True" "cache' = cache(mt_call_id m \<mapsto> m)"
      using assms Some pn by (auto simp: checkpoint_def checkpoint_lua_def split: if_splits)
    then show ?thesis using Some pn False by simp
  qed
qed

section \<open>Witnesses\<close>

text \<open>
  User 7 has 2 free seconds a day and 1 extra second; the call is observed 2.5 seconds apart twice,
  which exhausts the balance and starts the grace.
\<close>

definition wq_db :: database where
  "wq_db = empty_db\<lparr>db_users := [7], db_calls := [blank_call 1 ''c1'' 7 Connected],
     db_accounts := [\<lparr>qa_user_id = 7, qa_free_quota_date = 0, qa_free_remaining_seconds = 2,
                      qa_extra_remaining_seconds = 1, qa_version = 4\<rparr>]\<rparr>"

definition wq_obs :: "(bool \<times> clock \<times> datetime \<times> bool) list" where
  "wq_obs = [(True, 10, 0, False), (True, 25 / 2, 2500000, False)]"

definition wq_m0 :: meter where
  "wq_m0 = \<lparr>mt_call_id = ''c1'', mt_user_id = 7, mt_daily_seconds = 2, mt_grace_limit = 5,
     mt_last_monotonic = None, mt_last_wall = None, mt_connected = False, mt_remainder = 0,
     mt_grace_started = None, mt_grace_wall = None, mt_grace_seconds = 0, mt_slices = [],
     mt_muted = False, mt_growth_seconds = 0\<rparr>"

definition wq_m1 :: meter where
  "wq_m1 = wq_m0\<lparr>mt_last_monotonic := Some (25 / 2), mt_last_wall := Some 2500000, mt_connected := True,
     mt_remainder := 1 / 2, mt_growth_seconds := 5 / 2,
     mt_slices := [\<lparr>sl_date = 0, sl_kind = ''connected'', sl_duration = 2, sl_free = 2, sl_extra = 0\<rparr>]\<rparr>"

definition wq_m2 :: meter where
  "wq_m2 = wq_m0\<lparr>mt_last_monotonic := Some 15, mt_last_wall := Some 5000000, mt_connected := True,
     mt_grace_started := Some 13, mt_grace_wall := Some 3000000, mt_grace_seconds := 2, mt_growth_seconds := 3,
     mt_slices := [\<lparr>sl_date = 0, sl_kind = ''connected'', sl_duration = 3, sl_free = 2, sl_extra = 1\<rparr>,
                   \<lparr>sl_date = 0, sl_kind = ''grace'', sl_duration = 2, sl_free = 0, sl_extra = 0\<rparr>]\<rparr>"

lemma wq_new: "new_meter ''c1'' 7 2 5 = Inr wq_m0"
  by (simp add: new_meter_def wq_m0_def)

lemma wq_observed: "observe_all wq_obs wq_m0 wq_db = Inr wq_m1"
  "observe_all (wq_obs @ [(True, 15, 5000000, False)]) wq_m0 wq_db = Inr wq_m2"
  by code_simp+

lemma wq_facts: "call_rows ''c1'' wq_db = []" "accounts_ok wq_db" "ledger_wf wq_db"
  "get_call ''c1'' wq_db = Some (blank_call 1 ''c1'' 7 Connected)" "7 \<in> set (db_users wq_db)"
  "case get_account 7 wq_db of None \<Rightarrow> True | Some a \<Rightarrow> qa_free_quota_date a \<le> sh_date 5000000"
  by code_simp+

theorem observed_usage_settles_witness:
  "\<exists>r db'. settle wq_m2 wq_db = Inr (r, db') \<and> ledger_matches wq_m2 db' \<and> mt_grace_seconds wq_m2 \<le> 5"
  using observed_usage_settles [OF wq_new wq_observed(2) wq_facts(1-4) _ wq_facts(5,6)]
  by (auto simp: wq_m2_def wq_m0_def)

definition wq_settled :: database where
  "wq_settled = (case settle wq_m2 wq_db of Inr (r, db') \<Rightarrow> db' | Inl e \<Rightarrow> wq_db)"

lemma wq_settles: "settle wq_m2 wq_db = Inr (settlement_of False (settled_call wq_m2 (totals (mt_slices wq_m2)) (blank_call 1 ''c1'' 7 Connected)), wq_settled)"
  by code_simp

theorem settle_exactly_once_witness:
  "\<exists>r2 db2. settle wq_m2 wq_settled = Inr (r2, db2) \<and> st_idempotent r2 \<and> db_accounts db2 = db_accounts wq_settled"
proof -
  have "slices_wf (mt_slices wq_m2)" by code_simp
  from settle_exactly_once [OF wq_settles wq_facts(3) this] show ?thesis by blast
qed

theorem settle_conserves_quota_witness:
  "account_extra 7 wq_settled = 0 \<and> account_extra 7 wq_settled + ledger_extra wq_settled = 1"
proof -
  have w: "mt_last_wall wq_m2 = Some 5000000" "mt_user_id wq_m2 = 7" by (simp_all add: wq_m2_def wq_m0_def)
  have "account_extra 7 wq_settled = 0" "account_extra 7 wq_db + ledger_extra wq_db = 1" by code_simp+
  then show ?thesis using settle_conserves_quota [OF wq_settles w(1)] by (simp add: w(2))
qed

theorem observation_time_exact_witness:
  "connected_seconds wq_m0 + 0 \<le> connected_seconds wq_m1 \<and> connected_seconds wq_m1 \<le> 5 / 2"
proof -
  have "meter_ok wq_db wq_m0"
    using new_meter_ok [OF wq_new wq_facts(1,2)] by blast
  moreover have "observe True 10 0 False wq_m0 wq_db = Inr (\<lparr>ob_in_grace = False, ob_grace_seconds = 0, ob_must_end = False\<rparr>,
      wq_m0\<lparr>mt_last_monotonic := Some 10, mt_last_wall := Some 0, mt_connected := True\<rparr>)"
    by code_simp
  ultimately have ok: "meter_ok wq_db (wq_m0\<lparr>mt_last_monotonic := Some 10, mt_last_wall := Some 0, mt_connected := True\<rparr>)"
    using observe_facts(1) by blast
  have "observe True (25 / 2) 2500000 False (wq_m0\<lparr>mt_last_monotonic := Some 10, mt_last_wall := Some 0, mt_connected := True\<rparr>) wq_db
    = Inr (\<lparr>ob_in_grace = False, ob_grace_seconds = 0, ob_must_end = False\<rparr>, wq_m1)"
    by code_simp
  from observation_time_exact [OF ok this, of 10] show ?thesis
    by (auto simp: wq_m0_def wq_m1_def connected_seconds_def slice_key_def)
qed

theorem grant_extra_exact_witness:
  "case grant_extra 7 60 4 2 0 wq_db of Inl e \<Rightarrow> False | Inr (b, v, db') \<Rightarrow> account_extra 7 db' = 61 \<and> v = 5"
proof -
  obtain b v db' where g: "grant_extra 7 60 4 2 0 wq_db = Inr (b, v, db')"
  proof -
    have "isl (grant_extra 7 60 4 2 0 wq_db) = False" by code_simp
    then show ?thesis using that by (cases "grant_extra 7 60 4 2 0 wq_db") auto
  qed
  have "account_extra 7 wq_db = 1" by code_simp
  with grant_extra_exact [OF g] show ?thesis by (simp add: g)
qed

theorem checkpoint_monotone_witness:
  "checkpoint wq_m1 [''c1'' \<mapsto> wq_m2] = Inr (False, [''c1'' \<mapsto> wq_m2]) \<and> the (mt_last_monotonic wq_m1) \<le> 15"
proof -
  have "checkpoint wq_m1 [''c1'' \<mapsto> wq_m2] = Inr (False, [''c1'' \<mapsto> wq_m2])"
    by (simp add: checkpoint_def checkpoint_lua_def wq_m1_def wq_m2_def wq_m0_def)
  with checkpoint_monotone [OF this] show ?thesis
    by (auto simp: wq_m1_def wq_m2_def wq_m0_def split: if_splits)
qed

end
