(* ===== verification/Seed.thy ===== *)
theory Seed
  imports ConfigCheck Quota
begin

text \<open>
  The canonical seed bundles of \<open>backend/constants/realtime_voice_config.py\<close> and what a configuration
  that passes the validators guarantees to the parts of the system that read it. The summary prompt,
  a long constant of another module, is an argument of the script seed.
\<close>

section \<open>The seed bundles\<close>

definition default_capability :: json where
  "default_capability = JObj [(''verification_status'', JStr (asc ''unverified'')),
    (''enabled'', JBool False),
    (''forced_enabled'', JBool False),
    (''effective_scope'', JStr (asc ''off'')),
    (''fallback_mode'', JStr (asc ''next_turn'')),
    (''provider_profile'', JNull),
    (''model_version'', JNull),
    (''protocol_profile'', JNull),
    (''adapter_version'', JNull),
    (''sdk_version'', JNull),
    (''evidence_suite_version'', JNull),
    (''evidence_fingerprint'', JNull),
    (''evidence_ttl_days'', JInt 30),
    (''verified_at'', JNull),
    (''expires_at'', JNull),
    (''evidence_report_id'', JNull),
    (''last_test_result'', JStr (asc ''not_run''))]"

definition phase0_candidates :: "string list" where
  "phase0_candidates = [''S_5kGC1Z212'', ''S_7fDYUZia2'', ''saturn_zh_female_keainvsheng_tob'',
      ''saturn_zh_female_nuanxinxuejie_tob'', ''saturn_zh_female_wenrouwenya_tob'',
      ''saturn_zh_female_tiexinnvyou_tob'']"

definition seed_global :: json where
  "seed_global = JObj [(''enabled'', JBool False),
    (''maintenance_mode'', JBool False),
    (''maintenance_message'', JStr [35821, 38899, 36890, 35805, 26242, 26102, 19981, 21487, 29992, 65292,
      35831, 31245, 21518, 20877, 35797]),
    (''soft_stop'', JBool False),
    (''rollout'', JObj [(''mode'', JStr (asc ''allowlist'')),
      (''user_ids'', JList [])]),
    (''test_user_ids'', JList [])]"

definition seed_s2s :: json where
  "seed_s2s = JObj [(''provider'', JStr (asc ''doubao'')),
    (''endpoint'', JStr (asc ''wss://openspeech.bytedance.com/api/v3/realtime/dialogue'')),
    (''resource_id'', JStr (asc ''volc.speech.dialog'')),
    (''model_version'', JStr (asc ''2.2.0.0'')),
    (''adapter_version'', JStr (asc ''voice_adapter_v1'')),
    (''protocol_profile'', JStr (asc ''doubao_dialog_v3_pcm'')),
    (''credential_ref'', JStr (asc ''DOUBAO_S2S_ACCESS_KEY'')),
    (''credential_revision_ref'', JNull),
    (''connect_timeout_ms'', JInt 10000),
    (''start_session_timeout_ms'', JInt 10000),
    (''max_retries'', JInt 2),
    (''retry_backoff_ms'', JList [JInt 500, JInt 1000])]"

definition seed_quota :: json where
  "seed_quota = JObj [(''daily_free_seconds'', JInt 300),
    (''grace_seconds'', JInt 30),
    (''hard_limit_seconds'', JInt 3600),
    (''timezone'', JStr (asc ''Asia/Shanghai''))]"

definition seed_growth :: json where
  "seed_growth = JObj [(''segment_seconds'', JInt 30),
    (''points_per_segment'', JInt 5),
    (''daily_limit_points'', JInt 100),
    (''timezone'', JStr (asc ''Asia/Shanghai''))]"

definition seed_interaction :: json where
  "seed_interaction = JObj [(''vad_rms_threshold'', JFloat (Fin (3 / 200))),
    (''candidate_ms'', JInt 200),
    (''sustained_ms'', JInt 600),
    (''goodbye_timeout_ms'', JInt 10000),
    (''post_playback_buffer_ms'', JInt 800),
    (''time_low_seconds'', JInt 60)]"

definition seed_concurrency :: json where
  "seed_concurrency = JObj [(''heartbeat_interval_ms'', JInt 5000),
    (''user_lock_ttl_ms'', JInt 15000),
    (''reconnect_timeout_ms'', JInt 15000),
    (''call_ticket_ttl_ms'', JInt 30000),
    (''global_limit'', JInt 1)]"

definition seed_retention :: json where
  "seed_retention = JObj [(''effective_transcript_days'', JInt 180),
    (''generated_debug_days'', JInt 30),
    (''reasoning_days'', JInt 30),
    (''crisis_raw_days'', JInt 30),
    (''job_log_days'', JInt 90)]"

definition seed_voice :: json where
  "seed_voice = JObj [(''voice_id'', JStr (asc ''saturn_zh_female_keainvsheng_tob'')),
    (''voice_version'', JStr (asc ''phase0-v1'')),
    (''candidates'', JList (map (\<lambda>v. JObj [(''voice_id'', JStr (asc v)),
      (''voice_version'', JStr (asc ''phase0-v1'')), (''enabled'', JBool True)]) phase0_candidates)),
    (''persona_mapping'', JObj []),
    (''speech_rate'', JInt 0),
    (''loudness_rate'', JInt 0),
    (''expressive'', JBool False),
    (''tone_instruction'', JStr (asc ''''))]"

definition seed_config :: "json \<Rightarrow> json" where
  "seed_config persona_ref = JObj [(''schema_version'', JInt 1), (''global'', seed_global), (''persona_ref'',
      persona_ref),
    (''s2s'', seed_s2s), (''voice'', seed_voice),
    (''capabilities'', JObj (map (\<lambda>k. (k, default_capability)) VOICE_CAPABILITY_KEYS)),
    (''quota'', seed_quota), (''growth'', seed_growth), (''interaction'', seed_interaction),
    (''concurrency'', seed_concurrency), (''summary'', JObj [(''model'', JStr (asc ''deepseek-v4-pro''))]),
    (''followup'', JObj [(''summary_min_effective_seconds'', JInt 15), (''schedule'', default_followup_schedule)]),
    (''retention'', seed_retention)]"

definition seed_context_pack :: json where
  "seed_context_pack = JObj [(''voice_instruction_template'', JStr (asc '''')),
    (''fallback_template_sections'', JList [JStr (asc ''persona''), JStr (asc ''relationship''),
      JStr (asc ''salutation''), JStr (asc ''current_time'')]),
    (''persona_max_chars'', JInt 5000),
    (''dynamic_max_chars'', JInt 2000),
    (''recent_dialog_max_chars'', JInt 800),
    (''memory_max_items'', JInt 5),
    (''memory_lookback_days'', JInt 30),
    (''build_budget_ms'', JInt 3000),
    (''ready_barrier_enabled'', JBool True)]"

definition seed_call_answer :: json where
  "seed_call_answer = JObj [(''prompt_template'', JStr (asc '''')),
    (''failure_fallback'', JStr (asc ''answer'')),
    (''min_ring_seconds'', JInt 4),
    (''max_wait_seconds'', JInt 12),
    (''fallback_delay_min_seconds'', JInt 4),
    (''fallback_delay_max_seconds'', JInt 8)]"

definition seed_recall :: json where
  "seed_recall = JObj [(''prompt_template'', JStr (asc '''')),
    (''trigger_rules'', JList [JStr [19978, 27425], JStr [20320, 36824, 35760, 24471], JStr [25105, 20043,
      21069, 35828, 36807], JStr [25105, 20043, 21069, 21578, 35785, 36807, 20320], JStr [37027, 20010, 26379,
      21451], JStr [32487, 32493, 35828], JStr [25105, 20204, 20043, 21069]]),
    (''max_query_chars'', JInt 200),
    (''top_k'', JInt 3),
    (''score_threshold'', JFloat (Fin (7 / 10))),
    (''timeout_ms'', JInt 1000),
    (''embedding_timeout_ms'', JInt 800),
    (''vector_timeout_ms'', JInt 800)]"

definition seed_memory :: json where
  "seed_memory = JObj [(''prompt_template'', JStr (asc '''')),
    (''max_items_per_turn'', JInt 5),
    (''max_retries'', JInt 2),
    (''retry_backoff_ms'', JList [JInt 1000, JInt 5000])]"

definition seed_barge_in :: json where
  "seed_barge_in = JObj [(''weak_acknowledgements'', JList [JStr [21999], JStr [21999, 21999], JStr [21834],
      JStr [21734], JStr [23545], JStr [23545, 23545], JStr [22909], JStr [22909, 30340], JStr [26159],
      JStr [26159, 30340], JStr [21704, 21704]]),
    (''strong_interruptions'', JList [JStr [31561, 31561], JStr [31561, 19968, 19979], JStr [20572, 19968,
      19979], JStr [19981, 26159], JStr [19981, 23545], JStr [31561, 20250, 20799], JStr [20808, 21035, 35828],
      JStr [35753, 25105, 35828], JStr [20320, 21548, 25105, 35828]]),
    (''upgrade_connectors'', JList [JStr [20294, 26159], JStr [21487, 26159], JStr [19981, 36807], JStr [20854,
      23454], JStr [25105, 26159, 35828], JStr [25105, 30340, 24847, 24605, 26159]])]"

definition seed_silence_and_exit :: json where
  "seed_silence_and_exit = JObj [(''exit_intent_template'', JStr [22909, 65292, 37027, 25105, 20204, 20808,
      32842, 21040, 36825]),
    (''silence_timeout_template'', JStr [22909, 20687, 26242, 26102, 21548, 19981, 21040, 20320, 65292, 25105,
      20204, 19979, 27425, 20877, 32842]),
    (''silence_confirm_seconds'', JInt 6),
    (''silence_hangup_seconds'', JInt 12),
    (''user_resume_cancels_exit'', JBool True)]"

definition seed_end_reason :: json where
  "seed_end_reason = JObj [(''user_hangup'', JStr [23601, 20808, 32842, 21040, 36825]),
    (''user_cancel'', JObj [(''show_end_page'', JBool False),
      (''action'', JStr (asc ''return_to_chat''))]),
    (''exit_intent'', JStr [22909, 65292, 37027, 25105, 20204, 20808, 32842, 21040, 36825]),
    (''silence_timeout'', JStr [22909, 20687, 26242, 26102, 21548, 19981, 21040, 20320, 65292, 25105, 20204,
      19979, 27425, 20877, 32842]),
    (''quota_exhausted'', JStr [20170, 22825, 33021, 32842, 30340, 26102, 38388, 29992, 23436, 21862, 65292,
      25105, 20204, 19979, 27425, 20877, 32842]),
    (''hard_limit'', JStr [36825, 27425, 32842, 24471, 26377, 28857, 20037, 65292, 25105, 20204, 20808, 20241,
      24687, 19968, 19979]),
    (''reconnect_timeout'', JStr [32593, 32476, 27809, 26377, 24674, 22797, 65292, 25105, 20204, 19979, 27425,
      20877, 25509, 30528, 32842]),
    (''provider_error'', JObj [(''before_connected'', JStr [26242, 26102, 26080, 27861, 25509, 36890]),
      (''after_connected'', JStr [36890, 35805, 26242, 26102, 20013, 26029, 65292, 35831, 31245, 21518, 20877,
      35797])]),
    (''system_error'', JObj [(''before_connected'', JStr [26242, 26102, 26080, 27861, 25509, 36890]),
      (''after_connected'', JStr [36890, 35805, 26242, 26102, 20013, 26029, 65292, 35831, 31245, 21518, 20877,
      35797])])]"

definition seed_crisis :: json where
  "seed_crisis = JObj [(''region'', JStr (asc ''CN-mainland'')),
    (''in_call_banner'', JStr [22914, 26524, 20320, 26377, 20260, 23475, 33258, 24049, 30340, 24565, 22836,
      65292, 35831, 20808, 32852, 31995, 36523, 36793, 21487, 20449, 20219, 30340, 20154, 65292, 25110, 25320,
      25171, 32, 49, 50, 51, 53, 54, 12290]),
    (''post_call_resource_card'', JStr [22914, 26524, 20320, 21487, 33021, 39532, 19978, 20260, 23475, 33258,
      24049, 65292, 35831, 31435, 21363, 25320, 25171, 32, 49, 49, 48, 47, 49, 50, 48, 65292, 24182, 35831,
      19968, 20301, 21487, 20449, 20219, 30340, 20154, 26469, 21040, 20320, 36523, 36793, 65307, 20063, 21487,
      20197, 25320, 25171, 32, 49, 50, 51, 53, 54, 32, 24515, 29702, 25588, 21161, 28909, 32447, 12290])]"

definition seed_script :: "pystr \<Rightarrow> json" where
  "seed_script prompt = JObj [(''schema_version'', JInt 1), (''context_pack'', seed_context_pack),
    (''call_answer'', seed_call_answer), (''recall'', seed_recall), (''summary'', JObj [(''prompt_template'',
      JStr prompt)]),
    (''memory'', seed_memory), (''barge_in'', seed_barge_in), (''silence_and_exit'', seed_silence_and_exit),
    (''followup'', JObj [(''missed_explanation_template'', JStr [21018, 21018, 27809, 25509, 21040, 20320,
      30340, 30005, 35805, 65292, 26202, 19968, 28857, 25105, 20204, 20877, 32842, 21568, 12290])]),
    (''end_reason'', seed_end_reason),
    (''reconnect_bridge'', JObj [(''success_template'', JStr [21018, 21018, 22909, 20687, 26029, 20102, 19968,
      19979, 12290, 20320, 21018, 25165, 35828, 21040, 21738, 20799, 20102, 65311])]),
    (''crisis'', seed_crisis)]"

section \<open>What the scan finds\<close>

fun json_keys :: "json \<Rightarrow> string list"
  and field_keys :: "(string \<times> json) list \<Rightarrow> string list"
  and item_keys :: "json list \<Rightarrow> string list" where
  "json_keys (JObj kvs) = field_keys kvs"
| "json_keys (JList xs) = item_keys xs"
| "json_keys (JStr s) = []"
| "json_keys JNull = []"
| "json_keys (JBool b) = []"
| "json_keys (JInt n) = []"
| "json_keys (JFloat f) = []"
| "field_keys [] = []"
| "field_keys ((k, v) # kvs) = k # json_keys v @ field_keys kvs"
| "item_keys [] = []"
| "item_keys (x # xs) = json_keys x @ item_keys xs"

fun json_strings :: "json \<Rightarrow> pystr list"
  and field_strings :: "(string \<times> json) list \<Rightarrow> pystr list"
  and item_strings :: "json list \<Rightarrow> pystr list" where
  "json_strings (JObj kvs) = field_strings kvs"
| "json_strings (JList xs) = item_strings xs"
| "json_strings (JStr s) = [s]"
| "json_strings JNull = []"
| "json_strings (JBool b) = []"
| "json_strings (JInt n) = []"
| "json_strings (JFloat f) = []"
| "field_strings [] = []"
| "field_strings ((k, v) # kvs) = json_strings v @ field_strings kvs"
| "item_strings [] = []"
| "item_strings (x # xs) = json_strings x @ item_strings xs"

definition key_ok :: "string \<Rightarrow> bool" where
  "key_ok k \<longleftrightarrow> key_issues [] k = []"

lemma key_issues_ok: "key_issues path k = [] \<longleftrightarrow> key_ok k"
  by (simp add: key_ok_def key_issues_def Let_def)

definition text_ok :: "cfg_env \<Rightarrow> pystr \<Rightarrow> bool" where
  "text_ok e s \<longleftrightarrow> \<not> secret_value e s \<and> s \<notin> set (ce_credentials e)"

lemma scan_Nil:
  "scan e path v = [] \<longleftrightarrow> list_all key_ok (json_keys v) \<and> list_all (text_ok e) (json_strings v)"
  "scan_fields e path kvs = [] \<longleftrightarrow> list_all key_ok (field_keys kvs) \<and> list_all (text_ok e) (field_strings kvs)"
  "scan_items e path i xs = [] \<longleftrightarrow> list_all key_ok (item_keys xs) \<and> list_all (text_ok e) (item_strings xs)"
  by (induction e path v and e path kvs and e path i xs rule: scan_scan_fields_scan_items.induct)
    (auto simp: key_issues_ok text_ok_def)

section \<open>The seeds are valid\<close>

lemmas seed_defs = seed_config_def seed_global_def seed_s2s_def seed_voice_def seed_quota_def seed_growth_def
  seed_interaction_def seed_concurrency_def seed_retention_def default_capability_def

lemma of_char_eq_45: "(of_char c :: nat) = 45 \<longleftrightarrow> c = CHR ''-''"
proof -
  have "(of_char c :: nat) = of_char (CHR ''-'') \<longleftrightarrow> c = CHR ''-''" by (rule of_char_eq_iff)
  then show ?thesis by simp
qed

lemma ci_match_set: "ci_match ps t = Some r \<Longrightarrow> cs \<in> set ps \<Longrightarrow> \<exists>c \<in> set t. c \<in> set cs"
  by (induction ps t rule: ci_match.induct) (auto split: if_splits)

lemma ci_match_rest: "ci_match ps t = Some r \<Longrightarrow> set r \<subseteq> set t"
  by (induction ps t rule: ci_match.induct) (auto split: if_splits)

lemma secret_at_chars: "secret_at t \<Longrightarrow> 45 \<in> set t \<or> (\<exists>c \<in> set t. py_space c)"
proof -
  assume "secret_at t"
  then consider r where "ci_match bearer_word t = Some r" "takeWhile py_space r \<noteq> []"
    | r where "ci_match key_word t = Some r"
    by (auto simp: secret_at_def split: option.splits)
  then show ?thesis
  proof cases
    case 1
    then obtain c where "c \<in> set r" "py_space c" by (cases r) (auto split: if_splits)
    then show ?thesis using ci_match_rest [OF 1(1)] by auto
  next
    case 2
    then show ?thesis using ci_match_set [OF 2, of "[45]"] by (auto simp: key_word_def)
  qed
qed

lemma no_secret: "45 \<notin> set t \<Longrightarrow> \<forall>c \<in> set t. \<not> py_space c \<Longrightarrow> \<not> secret_value e t"
proof -
  have "secret_from w b t \<Longrightarrow> 45 \<in> set t \<or> (\<exists>c \<in> set t. py_space c)" for w b
    by (induction w b t rule: secret_from.induct) (use secret_at_chars in force)+
  then show "45 \<notin> set t \<Longrightarrow> \<forall>c \<in> set t. \<not> py_space c \<Longrightarrow> \<not> secret_value e t"
    by (auto simp: secret_value_def)
qed

lemma no_secret_letters: "45 \<notin> set t \<Longrightarrow> 66 \<notin> set t \<Longrightarrow> 98 \<notin> set t \<Longrightarrow> \<not> secret_value e t"
proof -
  have at: "secret_at u \<Longrightarrow> 45 \<in> set u \<or> 66 \<in> set u \<or> 98 \<in> set u" for u
  proof -
    assume "secret_at u"
    then consider r where "ci_match bearer_word u = Some r" | r where "ci_match key_word u = Some r"
      by (auto simp: secret_at_def split: option.splits)
    then show ?thesis
    proof cases
      case 1
      then show ?thesis using ci_match_set [OF 1, of "[66, 98]"] by (auto simp: bearer_word_def)
    next
      case 2
      then show ?thesis using ci_match_set [OF 2, of "[45]"] by (auto simp: key_word_def)
    qed
  qed
  have "secret_from w b t \<Longrightarrow> 45 \<in> set t \<or> 66 \<in> set t \<or> 98 \<in> set t" for w b
    by (induction w b t rule: secret_from.induct) (use at in force)+
  then show "45 \<notin> set t \<Longrightarrow> 66 \<notin> set t \<Longrightarrow> 98 \<notin> set t \<Longrightarrow> \<not> secret_value e t"
    by (auto simp: secret_value_def)
qed

lemma nonblank_asc: "nonblank (asc s) \<longleftrightarrow> list_ex (\<lambda>c. \<not> py_space (of_char c)) s"
  by (simp add: nonblank_iff asc_def list_ex_iff)

lemma seed_config_get [simp]:
  "jget (seed_config p) ''schema_version'' = JInt 1" "jget (seed_config p) ''global'' = seed_global"
  "jget (seed_config p) ''persona_ref'' = p" "jget (seed_config p) ''s2s'' = seed_s2s"
  "jget (seed_config p) ''voice'' = seed_voice" "jget (seed_config p) ''quota'' = seed_quota"
  "jget (seed_config p) ''capabilities'' = JObj (map (\<lambda>k. (k, default_capability)) VOICE_CAPABILITY_KEYS)"
  "jget (seed_config p) ''growth'' = seed_growth" "jget (seed_config p) ''interaction'' = seed_interaction"
  "jget (seed_config p) ''concurrency'' = seed_concurrency" "jget (seed_config p) ''retention'' = seed_retention"
  "jget (seed_config p) ''summary'' = JObj [(''model'', JStr (asc ''deepseek-v4-pro''))]"
  "jget (seed_config p) ''followup'' = JObj [(''summary_min_effective_seconds'', JInt 15), (''schedule'', default_followup_schedule)]"
  by (simp_all add: seed_config_def)

lemma seed_config_shape [simp]: "is_obj (seed_config p)"
  "jkeys (seed_config p) = [''schema_version'', ''global'', ''persona_ref'', ''s2s'', ''voice'', ''capabilities'',
     ''quota'', ''growth'', ''interaction'', ''concurrency'', ''summary'', ''followup'', ''retention'']"
  by (simp_all add: seed_config_def jkeys_def)

lemma exact_keys_Nil:
  "exact_keys v f req al = [] \<longleftrightarrow> is_obj v \<and> set req \<subseteq> set (jkeys v) \<and> set (jkeys v) \<subseteq> set al"
proof -
  have "sort xs = [] \<longleftrightarrow> xs = []" for xs :: "string list"
    by (metis set_empty set_sort)
  then show ?thesis by (auto simp: exact_keys_def jhas_def filter_empty_conv)
qed

lemma seed_keys: "exact_keys (seed_config p) ''config'' config_top (config_top @ [''interaction'', ''summary'']) = []"
  by (simp add: exact_keys_Nil config_top_def)

lemma seed_version: "version_issues (seed_config p) = []"
  by (simp add: version_issues_def)

lemma seed_quota_ok: "quota_issues (seed_config p) = []"
  by (simp add: quota_issues_def Let_def seed_quota_def exact_keys_Nil jkeys_def int_range_def)

lemma seed_growth_ok: "growth_issues (seed_config p) = []"
  by (simp add: growth_issues_def Let_def seed_growth_def exact_keys_Nil jkeys_def int_range_def)

lemma seed_global_ok: "global_issues (seed_config p) = []"
  by (simp add: global_issues_def Let_def seed_global_def exact_keys_Nil jkeys_def nonblank_iff py_space_def str_in_def)

lemma seed_interaction_ok: "interaction_issues (seed_config p) = []"
  by (simp add: interaction_issues_def Let_def seed_interaction_def exact_keys_Nil jkeys_def jhas_def int_range_def
     VOICE_INTERACTION_DEFAULTS_def jmerge_def jget_def'_def ranges_def interaction_ranges_def)

lemma seed_concurrency_ok: "concurrency_issues (seed_config p) = []"
  by (simp add: concurrency_issues_def Let_def seed_concurrency_def exact_keys_Nil jkeys_def jhas_def int_range_def
     VOICE_CONNECTION_DEFAULTS_def jmerge_def jget_def'_def ranges_def connection_ranges_def)

lemma seed_retention_ok: "retention_issues (seed_config p) = []"
  by (simp add: retention_issues_def Let_def seed_retention_def exact_keys_Nil jkeys_def int_range_def retention_fields_def)

lemma seed_summary_ok: "summary_issues (seed_config p) ''model'' = []"
  by (simp add: summary_issues_def Let_def exact_keys_Nil jkeys_def jhas_def asc_def nonblank_iff py_space_def
    deepseek_model_def upper_def lower_def digit_def)

lemma seed_voice_ok: "voice_issues (seed_config p) = []"
proof -
  have ids: "candidate_ids (map (\<lambda>v. JObj [(''voice_id'', JStr (asc v)), (''voice_version'', JStr (asc ''phase0-v1'')),
      (''enabled'', JBool True)]) vs) = map (\<lambda>v. JStr (asc v)) vs" for vs
    by (induction vs) (simp_all add: candidate_ids_def)
  have "candidate_issues i (JObj [(''voice_id'', JStr (asc v)), (''voice_version'', JStr (asc ''phase0-v1'')),
      (''enabled'', JBool True)]) = []" if "v \<in> set phase0_candidates" for i v
    using that by (auto simp: candidate_issues_def Let_def exact_keys_Nil jkeys_def nonblank_asc py_space_def phase0_candidates_def)
  then have items: "concat (map (\<lambda>(i, item). candidate_issues i item) (zip is (map (\<lambda>v. JObj [(''voice_id'', JStr (asc v)),
      (''voice_version'', JStr (asc ''phase0-v1'')), (''enabled'', JBool True)]) phase0_candidates))) = []" for "is"
    by (auto dest!: set_zip_rightD)
  have dist: "distinct (map (\<lambda>v. JStr (asc v)) phase0_candidates)"
    by (simp add: phase0_candidates_def)
  obtain c cs where cs: "map (\<lambda>v. JObj [(''voice_id'', JStr (asc v)), (''voice_version'', JStr (asc ''phase0-v1'')),
      (''enabled'', JBool True)]) phase0_candidates = c # cs" by (simp add: phase0_candidates_def)
  show ?thesis
    using items dist ids [of phase0_candidates]
    by (simp add: voice_issues_def Let_def seed_voice_def exact_keys_Nil jkeys_def int_range_def cs)
qed

lemma seed_capabilities_ok: "capabilities_issues (seed_config p) = []"
proof -
  have "capability_issues (JObj (map (\<lambda>k. (k, default_capability)) VOICE_CAPABILITY_KEYS)) k = []"
    if k: "k \<in> set VOICE_CAPABILITY_KEYS" for k
  proof -
    have "map_of (map (\<lambda>k. (k, default_capability)) ks) k = Some default_capability" if "k \<in> set ks" for ks
      using that by (induction ks) auto
    then have "jget (JObj (map (\<lambda>k. (k, default_capability)) VOICE_CAPABILITY_KEYS)) k = default_capability"
      using k by simp
    then show ?thesis
      by (simp add: capability_issues_def Let_def default_capability_def exact_keys_Nil capability_fields_def
          projection_fields_def jkeys_def nonblank_asc py_space_def str_in_def int_range_def)
  qed
  then show ?thesis by (simp add: capabilities_issues_def Let_def jhas_def jkeys_def comp_def)
qed

text \<open>The environment in which the seed is validated: the URL splitter reads its address.\<close>

definition seed_endpoint :: pystr where
  "seed_endpoint = asc ''wss://openspeech.bytedance.com/api/v3/realtime/dialogue''"

definition seed_url_ok :: "cfg_env \<Rightarrow> bool" where
  "seed_url_ok e \<longleftrightarrow> ce_url e seed_endpoint = Some \<lparr>ur_scheme = ''wss'', ur_netloc = asc ''openspeech.bytedance.com'',
     ur_hostname = Some (asc ''openspeech.bytedance.com''), ur_username = None, ur_password = None, ur_query = []\<rparr>"

lemma seed_s2s_ok:
  assumes "seed_url_ok e" "\<forall>s \<in> set (ce_credentials e). \<not> py_in s seed_endpoint"
  shows "s2s_issues e (seed_config p) = []"
proof -
  have "endpoint_issues e seed_endpoint = []"
    using assms by (auto simp: endpoint_issues_def seed_url_ok_def Let_def sensitive_query_def list_ex_iff)
  moreover have "env_ref (asc ''DOUBAO_S2S_ACCESS_KEY'')" by (simp add: asc_def upper_def digit_def)
  ultimately show ?thesis
    by (simp add: s2s_issues_def Let_def seed_s2s_def exact_keys_Nil s2s_fields_def jkeys_def int_range_def
      seed_endpoint_def)
qed

definition seed_key_names :: "string list" where
  "seed_key_names = [
     ''schema_version'', ''global'', ''enabled'', ''maintenance_mode'', ''maintenance_message'', ''soft_stop'', 
     ''rollout'', ''mode'', ''user_ids'', ''test_user_ids'', ''persona_ref'', ''config_key'', ''version'', 
     ''content_sha256'', ''s2s'', ''provider'', ''endpoint'', ''resource_id'', ''model_version'', 
     ''adapter_version'', ''protocol_profile'', ''credential_ref'', ''credential_revision_ref'', 
     ''connect_timeout_ms'', ''start_session_timeout_ms'', ''max_retries'', ''retry_backoff_ms'', ''voice'', 
     ''voice_id'', ''voice_version'', ''candidates'', ''persona_mapping'', ''speech_rate'', ''loudness_rate'', 
     ''expressive'', ''tone_instruction'', ''capabilities'', ''supports_current_turn_rag_gate'', 
     ''verification_status'', ''forced_enabled'', ''effective_scope'', ''fallback_mode'', ''provider_profile'', 
     ''sdk_version'', ''evidence_suite_version'', ''evidence_fingerprint'', ''evidence_ttl_days'', 
     ''verified_at'', ''expires_at'', ''evidence_report_id'', ''last_test_result'', ''supports_reply_cancel'', 
     ''supports_context_truncate'', ''supports_playback_text_mapping'', ''supports_sentence_playback_ack'', 
     ''supports_session_reconnect'', ''quota'', ''daily_free_seconds'', ''grace_seconds'', 
     ''hard_limit_seconds'', ''timezone'', ''growth'', ''segment_seconds'', ''points_per_segment'', 
     ''daily_limit_points'', ''interaction'', ''vad_rms_threshold'', ''candidate_ms'', ''sustained_ms'', 
     ''goodbye_timeout_ms'', ''post_playback_buffer_ms'', ''time_low_seconds'', ''concurrency'', 
     ''heartbeat_interval_ms'', ''user_lock_ttl_ms'', ''reconnect_timeout_ms'', ''call_ticket_ttl_ms'', 
     ''global_limit'', ''summary'', ''model'', ''followup'', ''summary_min_effective_seconds'', ''schedule'', 
     ''jitter_min_minutes'', ''jitter_max_minutes'', ''max_delay_hours'', ''stages'', ''stranger'', 
     ''windows'', ''start'', ''end'', ''friend'', ''intimate'', ''soulmate'', ''retention'', 
     ''effective_transcript_days'', ''generated_debug_days'', ''reasoning_days'', ''crisis_raw_days'', 
     ''job_log_days'', ''context_pack'', ''voice_instruction_template'', ''fallback_template_sections'', 
     ''persona_max_chars'', ''dynamic_max_chars'', ''recent_dialog_max_chars'', ''memory_max_items'', 
     ''memory_lookback_days'', ''build_budget_ms'', ''ready_barrier_enabled'', ''call_answer'', 
     ''prompt_template'', ''failure_fallback'', ''min_ring_seconds'', ''max_wait_seconds'', 
     ''fallback_delay_min_seconds'', ''fallback_delay_max_seconds'', ''recall'', ''trigger_rules'', 
     ''max_query_chars'', ''top_k'', ''score_threshold'', ''timeout_ms'', ''embedding_timeout_ms'', 
     ''vector_timeout_ms'', ''memory'', ''max_items_per_turn'', ''barge_in'', ''weak_acknowledgements'', 
     ''strong_interruptions'', ''upgrade_connectors'', ''silence_and_exit'', ''exit_intent_template'', 
     ''silence_timeout_template'', ''silence_confirm_seconds'', ''silence_hangup_seconds'', 
     ''user_resume_cancels_exit'', ''missed_explanation_template'', ''end_reason'', ''user_hangup'', 
     ''user_cancel'', ''show_end_page'', ''action'', ''exit_intent'', ''silence_timeout'', ''quota_exhausted'', 
     ''hard_limit'', ''reconnect_timeout'', ''provider_error'', ''before_connected'', ''after_connected'', 
     ''system_error'', ''reconnect_bridge'', ''success_template'', ''crisis'', ''region'', ''in_call_banner'', 
     ''post_call_resource_card'']"

text \<open>A literal key is checked by the bits of its characters: upper-case letters have bit 5 clear.\<close>

lemma not_upper_bit5: "\<not> upper (of_char (Char b0 b1 b2 b3 b4 True b6 b7))"
  by (cases b0; cases b1; cases b2; cases b3; cases b4; cases b6; cases b7) (simp_all add: upper_def)

lemma not_upper_underscore: "\<not> upper (of_char (CHR ''_''))"
  by (simp add: upper_def)

definition plain_key :: "string \<Rightarrow> bool" where
  "plain_key k \<longleftrightarrow> list_all (\<lambda>c. \<not> upper (of_char c)) k"

lemma plain_key_simps:
  "plain_key []" "plain_key (Char b0 b1 b2 b3 b4 True b6 b7 # k) = plain_key k"
  "plain_key (CHR ''_'' # k) = plain_key k"
  using not_upper_bit5 not_upper_underscore by (simp_all add: plain_key_def)

lemma key_ok_plain:
  assumes "plain_key k" "k \<notin> set experimental_names" "k \<notin> set secret_names"
    "\<not> ends_with k ''_secret''" "\<not> ends_with k ''_token''"
  shows "key_ok k"
proof -
  have "fold_key k = k"
    using assms(1) unfolding plain_key_def fold_key_def by (induction k) (simp_all add: Let_def)
  then show ?thesis using assms(2-) by (simp add: key_ok_def key_issues_def Let_def)
qed

lemma ends_with_rev: "ends_with t s \<longleftrightarrow> take (length s) (rev t) = rev s"
proof
  assume "ends_with t s"
  then show "take (length s) (rev t) = rev s" by (simp add: ends_with_def take_rev)
next
  assume a: "take (length s) (rev t) = rev s"
  then have "length s \<le> length t" using length_take [of "length s" "rev t"] by simp
  then show "ends_with t s" using a by (simp add: ends_with_def take_rev)
qed

lemma seed_key_names_ok: "list_all key_ok seed_key_names"
  unfolding seed_key_names_def list_all_iff
  by (intro ballI key_ok_plain)
    (auto simp: plain_key_simps experimental_names_def secret_names_def ends_with_rev)

lemmas seed_key_ok = seed_key_names_ok [unfolded seed_key_names_def list.pred_inject(2)]

lemma seed_config_keys: "list_all key_ok (json_keys (seed_config p)) \<longleftrightarrow> list_all key_ok (json_keys p)"
  by (simp add: seed_defs VOICE_CAPABILITY_KEYS_def phase0_candidates_def default_followup_schedule_def default_stage_def
    seed_key_ok)

text \<open>The same for texts: without a hyphen or a space no credential pattern can match.\<close>

definition plain_text :: "string \<Rightarrow> bool" where
  "plain_text s \<longleftrightarrow> list_all (\<lambda>c. (of_char c :: nat) \<noteq> 45 \<and> \<not> py_space (of_char c)) s"

lemma plain_char:
  "(of_char (Char b0 b1 b2 b3 b4 b5 True False) :: nat) \<noteq> 45" "\<not> py_space (of_char (Char b0 b1 b2 b3 b4 b5 True False))"
  "(of_char (Char b0 b1 b2 b3 True True False False) :: nat) \<noteq> 45" "\<not> py_space (of_char (Char b0 b1 b2 b3 True True False False))"
  by (cases b0; cases b1; cases b2; cases b3; cases b4; cases b5; simp add: py_space_def)+

lemma plain_text_simps:
  "plain_text []" "plain_text (Char b0 b1 b2 b3 b4 b5 True False # s) = plain_text s"
  "plain_text (Char b0 b1 b2 b3 True True False False # s) = plain_text s"
  "plain_text (CHR ''.'' # s) = plain_text s" "plain_text (CHR ''/'' # s) = plain_text s"
  using plain_char by (simp_all add: plain_text_def py_space_def)

lemma plain_text_ok: "plain_text s \<Longrightarrow> \<not> secret_value e (asc s)"
  by (rule no_secret) (auto simp: plain_text_def asc_def list_all_iff)

definition seed_texts :: "string list" where
  "seed_texts = [
     ''allowlist'', ''persona'', ''doubao'', ''wss://openspeech.bytedance.com/api/v3/realtime/dialogue'',
     ''volc.speech.dialog'', ''2.2.0.0'', ''voice_adapter_v1'', ''doubao_dialog_v3_pcm'',
     ''DOUBAO_S2S_ACCESS_KEY'', ''saturn_zh_female_keainvsheng_tob'', ''S_5kGC1Z212'', ''S_7fDYUZia2'',
     ''saturn_zh_female_nuanxinxuejie_tob'', ''saturn_zh_female_wenrouwenya_tob'',
     ''saturn_zh_female_tiexinnvyou_tob'', ''unverified'', ''off'', ''next_turn'', ''not_run'',
     ''Asia/Shanghai'', ''10:00'', ''21:00'', ''09:30'', ''22:00'', ''09:00'', ''22:30'', ''23:00'',
     ''relationship'', ''salutation'', ''current_time'', ''answer'', ''return_to_chat'']"

lemma seed_texts_ok: "list_all (\<lambda>s. \<not> secret_value e (asc s)) seed_texts"
  unfolding seed_texts_def list_all_iff by (intro ballI plain_text_ok) (auto simp: plain_text_simps)

lemmas seed_text_ok = seed_texts_ok [unfolded seed_texts_def list.pred_inject(2)]

lemma seed_dash_ok:
  "\<not> secret_value e (asc ''phase0-v1'')"
  "\<not> secret_value e (asc ''CN-mainland'')"
  "\<not> secret_value e (asc ''deepseek-v4-pro'')"
  "\<not> secret_value e []"
  by (simp_all add: secret_value_def secret_at_def asc_def bearer_word_def key_word_def)

lemma asc_Nil: "asc [] = []"
  by (simp add: asc_def)

lemma text_list_ok: "list_all (\<lambda>c. c \<notin> {45, 66, 98}) t \<Longrightarrow> \<not> secret_value e t"
  by (rule no_secret_letters) (auto simp: list_all_iff)

lemma seed_config_texts:
  "list_all (\<lambda>s. \<not> secret_value e s) (json_strings (seed_config p)) \<longleftrightarrow>
   list_all (\<lambda>s. \<not> secret_value e s) (json_strings p)"
  by (simp add: seed_defs VOICE_CAPABILITY_KEYS_def phase0_candidates_def default_followup_schedule_def default_stage_def
    seed_text_ok seed_dash_ok text_list_ok asc_Nil)

section \<open>The script seed\<close>

lemmas script_seed_defs = seed_script_def seed_context_pack_def seed_call_answer_def seed_recall_def
  seed_memory_def seed_barge_in_def seed_silence_and_exit_def seed_end_reason_def seed_crisis_def

lemma seed_script_get [simp]:
  "jget (seed_script p) ''schema_version'' = JInt 1" "jget (seed_script p) ''context_pack'' = seed_context_pack"
  "jget (seed_script p) ''call_answer'' = seed_call_answer" "jget (seed_script p) ''recall'' = seed_recall"
  "jget (seed_script p) ''summary'' = JObj [(''prompt_template'', JStr p)]"
  "jget (seed_script p) ''memory'' = seed_memory" "jget (seed_script p) ''barge_in'' = seed_barge_in"
  "jget (seed_script p) ''silence_and_exit'' = seed_silence_and_exit"
  "jget (seed_script p) ''end_reason'' = seed_end_reason" "jget (seed_script p) ''crisis'' = seed_crisis"
  by (simp_all add: seed_script_def)

lemma seed_script_shape [simp]: "is_obj (seed_script p)"
  "jkeys (seed_script p) = [''schema_version'', ''context_pack'', ''call_answer'', ''recall'', ''summary'', ''memory'',
     ''barge_in'', ''silence_and_exit'', ''followup'', ''end_reason'', ''reconnect_bridge'', ''crisis'']"
  by (simp_all add: seed_script_def jkeys_def)

lemma script_keys_ok: "exact_keys (seed_script p) ''script'' script_top (script_top @ [''summary'']) = []"
  by (simp add: exact_keys_Nil script_top_def)

lemma script_version_ok: "version_issues (seed_script p) = []"
  by (simp add: version_issues_def)

lemma script_summary_ok: "nonblank p \<Longrightarrow> summary_issues (seed_script p) ''prompt_template'' = []"
  by (simp add: summary_issues_def Let_def exact_keys_Nil jkeys_def jhas_def)

lemma script_sections_ok: "section_issues (seed_script p) = []"
  by (simp add: section_issues_def section_fields_def exact_keys_Nil)
    (simp add: script_seed_defs jkeys_def)

lemma script_context_ok: "context_issues (seed_script p) = []"
  by (simp add: context_issues_def Let_def seed_context_pack_def int_range_def nonblank_asc py_space_def)

lemma script_answer_ok: "answer_issues (seed_script p) = []"
  by (simp add: answer_issues_def Let_def seed_call_answer_def int_range_def)

lemma script_recall_ok: "recall_issues (seed_script p) = []"
  by (simp add: recall_issues_def Let_def seed_recall_def int_range_def number_range_def)

lemma script_memory_ok: "memory_issues (seed_script p) = []"
  by (simp add: memory_issues_def Let_def seed_memory_def int_range_def delays_ok_def jget_def'_def map_filter_simps)

lemma script_silence_ok: "silence_issues (seed_script p) = []"
  by (simp add: silence_issues_def Let_def seed_silence_and_exit_def int_range_def nonblank_iff py_space_def)

lemma script_templates_ok:
  "template_issues (seed_script p) ''followup'' ''missed_explanation_template'' = []"
  "template_issues (seed_script p) ''reconnect_bridge'' ''success_template'' = []"
  by (simp_all add: template_issues_def Let_def seed_script_def nonblank_iff py_space_def)

lemma script_end_ok: "end_reason_issues (seed_script p) = []"
  by (simp add: end_reason_issues_def Let_def seed_end_reason_def exact_keys_Nil jkeys_def nonblank_iff py_space_def)

lemma script_crisis_ok: "crisis_issues (seed_script p) = []"
  by (simp add: crisis_issues_def template_issues_def Let_def seed_crisis_def nonblank_iff asc_def py_space_def)

lemma script_lists_ok: "k \<in> {''weak_acknowledgements'', ''strong_interruptions'', ''upgrade_connectors''} \<Longrightarrow>
    text_list_issues (seed_script p) ''barge_in'' k = []"
  "text_list_issues (seed_script p) ''recall'' ''trigger_rules'' = []"
  by (auto simp: text_list_issues_def Let_def seed_barge_in_def seed_recall_def nonblank_iff py_space_def)

lemma script_names_ok: "list_all key_ok (json_keys (seed_script p))"
  by (simp add: script_seed_defs seed_key_ok)

lemma script_texts_ok: "\<not> secret_value e p \<Longrightarrow> list_all (\<lambda>s. \<not> secret_value e s) (json_strings (seed_script p))"
  by (simp add: script_seed_defs seed_text_ok seed_dash_ok text_list_ok asc_Nil)

section \<open>What a valid configuration guarantees\<close>

lemma config_parts:
  assumes "validate_voice_bundle e ''voice_call_config'' cfg = []"
  shows "is_obj cfg" "scan e [] cfg = []" "exact_keys cfg ''config'' config_top (config_top @ [''interaction'', ''summary'']) = []"
    "quota_issues cfg = []" "concurrency_issues cfg = []" "interaction_issues cfg = []"
    "capabilities_issues cfg = []" "followup_issues cfg = []" "growth_issues cfg = []"
  using assms
  by (auto simp: validate_voice_bundle_def validate_voice_call_config_def scan_forbidden_fields_def split: if_splits)

lemma int_range_ok: "int_range v f lo hi = [] \<longleftrightarrow> (\<exists>n. v = JInt n \<and> lo \<le> n \<and> (\<forall>h. hi = Some h \<longrightarrow> n \<le> h))"
  by (auto simp: int_range_def split: json.splits option.splits)

lemma validated_quota:
  assumes "quota_issues cfg = []"
  shows "\<exists>d g h. jget (jget cfg ''quota'') ''daily_free_seconds'' = JInt d \<and> 0 \<le> d \<and>
     jget (jget cfg ''quota'') ''grace_seconds'' = JInt g \<and> 0 \<le> g \<and> g \<le> 30 \<and>
     jget (jget cfg ''quota'') ''hard_limit_seconds'' = JInt h \<and> 1 \<le> h"
  using assms by (auto simp: quota_issues_def Let_def int_range_ok exact_keys_def split: if_splits)

lemma validated_connection:
  assumes "concurrency_issues cfg = []"
  shows "\<exists>h t r k. jmerge VOICE_CONNECTION_DEFAULTS (jget cfg ''concurrency'') ''heartbeat_interval_ms'' = JInt h \<and>
     jmerge VOICE_CONNECTION_DEFAULTS (jget cfg ''concurrency'') ''user_lock_ttl_ms'' = JInt t \<and> 3 * h \<le> t \<and>
     jmerge VOICE_CONNECTION_DEFAULTS (jget cfg ''concurrency'') ''reconnect_timeout_ms'' = JInt r \<and> 1000 \<le> r \<and> r \<le> 60000 \<and>
     jmerge VOICE_CONNECTION_DEFAULTS (jget cfg ''concurrency'') ''call_ticket_ttl_ms'' = JInt k \<and> 5000 \<le> k \<and> k \<le> 60000"
  using assms
  by (auto simp: concurrency_issues_def Let_def int_range_ok exact_keys_def ranges_def connection_ranges_def split: if_splits)

lemma validated_capability:
  assumes "capabilities_issues cfg = []" "k \<in> set VOICE_CAPABILITY_KEYS"
  shows "jget (jget (jget cfg ''capabilities'') k) ''enabled'' = JBool False \<and>
     jget (jget (jget cfg ''capabilities'') k) ''forced_enabled'' = JBool False \<and>
     jget (jget (jget cfg ''capabilities'') k) ''effective_scope'' = JStr (asc ''off'') \<and>
     jget (jget (jget cfg ''capabilities'') k) ''verification_status'' = JStr (asc ''unverified'')"
proof -
  let ?i = "jget (jget cfg ''capabilities'') k"
  have i: "capability_issues (jget cfg ''capabilities'') k = []"
    using assms by (auto simp: capabilities_issues_def Let_def split: if_splits)
  then have obj: "is_obj ?i" by (auto simp: capability_issues_def Let_def exact_keys_def split: if_splits)
  have bools: "is_bool (jget ?i ''enabled'')" "jget ?i ''enabled'' \<noteq> JBool True"
    "is_bool (jget ?i ''forced_enabled'')" "jget ?i ''forced_enabled'' \<noteq> JBool True"
    using i obj by (simp_all add: capability_issues_def Let_def)
  have b: "is_bool v \<Longrightarrow> v \<noteq> JBool True \<Longrightarrow> v = JBool False" for v by (cases v) auto
  have scope: "jget ?i ''effective_scope'' = JStr (asc ''off'')"
    using i obj by (auto simp: capability_issues_def Let_def str_in_def)
  have status: "jget ?i ''verification_status'' = JStr (asc ''unverified'')"
    using i obj by (auto simp: capability_issues_def Let_def str_in_def split: if_splits)
  show ?thesis using b bools scope status by blast
qed

lemma validated_schedule: "followup_issues cfg = [] \<Longrightarrow> validate_followup_schedule (jget (jget cfg ''followup'') ''schedule'') = []"
  by (auto simp: followup_issues_def Let_def exact_keys_def split: if_splits)

lemma seed_bundles_valid_h:
  assumes "persona_issues (JObj [(''persona_ref'', p)]) = []" "scan e ''persona_ref'' p = []" "seed_url_ok e"
    "nonblank prompt" "\<not> secret_value e prompt"
    "\<forall>s \<in> set (ce_credentials e). \<not> py_in s seed_endpoint \<and> s \<notin> set (json_strings (seed_config p)) \<and>
       s \<notin> set (json_strings (seed_script prompt))"
  shows "validate_voice_bundle e ''voice_call_config'' (seed_config p) = [] \<and>
    validate_voice_bundle e ''voice_call_script'' (seed_script prompt) = []"
proof -
  have pp: "list_all key_ok (json_keys p) \<and> list_all (text_ok e) (json_strings p)" using assms(2) by (simp add: scan_Nil)
  then have "list_all (\<lambda>s. \<not> secret_value e s) (json_strings p)" by (auto simp: list_all_iff text_ok_def)
  then have "list_all (\<lambda>s. \<not> secret_value e s) (json_strings (seed_config p))" by (simp add: seed_config_texts)
  then have c1: "scan e [] (seed_config p) = []"
    using assms(6) pp seed_config_keys by (auto simp: scan_Nil list_all_iff text_ok_def)
  have c2: "scan e [] (seed_script prompt) = []"
    using assms(6) script_names_ok script_texts_ok [OF assms(5)] by (auto simp: scan_Nil list_all_iff text_ok_def)
  have per: "persona_issues (seed_config p) = []" using assms(1) by (simp add: persona_issues_def)
  have fol: "followup_issues (seed_config p) = []"
    by (simp add: followup_issues_def Let_def exact_keys_Nil jkeys_def int_range_ok default_schedule_valid)
  have "validate_voice_bundle e ''voice_call_config'' (seed_config p) = []"
    unfolding validate_voice_bundle_def validate_voice_call_config_def scan_forbidden_fields_def
    using c1 per fol seed_s2s_ok [of e p] assms(3,6) by (simp add: seed_keys seed_summary_ok seed_version seed_global_ok
      seed_voice_ok seed_capabilities_ok seed_quota_ok seed_growth_ok seed_interaction_ok seed_concurrency_ok seed_retention_ok)
  moreover have "validate_voice_bundle e ''voice_call_script'' (seed_script prompt) = []"
    unfolding validate_voice_bundle_def validate_voice_call_script_def scan_forbidden_fields_def
    using c2 script_summary_ok [OF assms(4)]
    by (simp add: script_keys_ok script_version_ok script_sections_ok script_context_ok script_answer_ok script_recall_ok
      script_memory_ok script_silence_ok script_templates_ok script_end_ok script_crisis_ok script_lists_ok)
  ultimately show ?thesis ..
qed

text \<open>C31: The canonical seed is publishable. For a valid persona reference, a non-blank summary prompt
  and an environment whose credential values do not occur in the seed, both seed bundles pass the
  whole validator: the structure checks, the ranges, the schedule and the scan for credentials.\<close>

theorem seed_bundles_valid:
  assumes "persona_issues (JObj [(''persona_ref'', p)]) = []" "scan e ''persona_ref'' p = []" "seed_url_ok e"
    "nonblank prompt" "\<not> secret_value e prompt"
    "\<forall>s \<in> set (ce_credentials e). \<not> py_in s seed_endpoint \<and> s \<notin> set (json_strings (seed_config p)) \<and>
       s \<notin> set (json_strings (seed_script prompt))"
  shows "validate_voice_bundle e ''voice_call_config'' (seed_config p) = [] \<and>
    validate_voice_bundle e ''voice_call_script'' (seed_script prompt) = []"
  using assms by (rule seed_bundles_valid_h)

text \<open>A published call configuration keeps its readers safe. If a bundle passes the validator, then the
  quota it configures builds a meter for every call of every user, the lease time to live is at least
  three heartbeats, reconnect window and ticket life are within their bounds, no capability is enabled
  or claims evidence, every follow-up candidate of its schedule resolves within 24 hours, and neither a
  credential value nor a credential-like text nor a forbidden key occurs anywhere in it.\<close>

theorem published_config_safe:
  assumes "validate_voice_bundle e ''voice_call_config'' cfg = []"
  shows "(\<exists>d g. jget (jget cfg ''quota'') ''daily_free_seconds'' = JInt d \<and> jget (jget cfg ''quota'') ''grace_seconds'' = JInt g \<and>
      (\<forall>cid u. cid = [] \<or> u < 1 \<or> (\<exists>m. new_meter cid u d g = Inr m))) \<and>
    (\<exists>h t r k. jmerge VOICE_CONNECTION_DEFAULTS (jget cfg ''concurrency'') ''heartbeat_interval_ms'' = JInt h \<and>
      jmerge VOICE_CONNECTION_DEFAULTS (jget cfg ''concurrency'') ''user_lock_ttl_ms'' = JInt t \<and> 3 * h \<le> t \<and>
      jmerge VOICE_CONNECTION_DEFAULTS (jget cfg ''concurrency'') ''reconnect_timeout_ms'' = JInt r \<and> 1000 \<le> r \<and> r \<le> 60000 \<and>
      jmerge VOICE_CONNECTION_DEFAULTS (jget cfg ''concurrency'') ''call_ticket_ttl_ms'' = JInt k \<and> 5000 \<le> k \<and> k \<le> 60000) \<and>
    (\<forall>k \<in> set VOICE_CAPABILITY_KEYS. jget (jget (jget cfg ''capabilities'') k) ''enabled'' = JBool False \<and>
      jget (jget (jget cfg ''capabilities'') k) ''verification_status'' = JStr (asc ''unverified'')) \<and>
    (\<forall>stg c hi j. jget (jget (jget cfg ''followup'') ''schedule'') ''jitter_max_minutes'' = JInt hi \<and> 0 \<le> j \<and> j \<le> hi \<longrightarrow>
      (\<exists>pv. resolve_followup_preview (jget (jget cfg ''followup'') ''schedule'') stg c j = Inr pv \<and>
        resolves_in_window (jget (jget cfg ''followup'') ''schedule'') stg c hi pv)) \<and>
    list_all (text_ok e) (json_strings cfg) \<and> list_all key_ok (json_keys cfg)"
proof -
  note p = config_parts [OF assms]
  obtain d g h where q: "jget (jget cfg ''quota'') ''daily_free_seconds'' = JInt d" "0 \<le> d"
    "jget (jget cfg ''quota'') ''grace_seconds'' = JInt g" "0 \<le> g" "g \<le> 30"
    using validated_quota [OF p(4)] by blast
  have "\<forall>cid u. cid = [] \<or> u < 1 \<or> (\<exists>m. new_meter cid u d g = Inr m)" using q by (simp add: new_meter_def)
  moreover have "list_all (text_ok e) (json_strings cfg) \<and> list_all key_ok (json_keys cfg)"
    using p(2) by (simp add: scan_Nil)
  ultimately show ?thesis
    using q validated_connection [OF p(5)] validated_capability [OF p(7)]
      valid_schedule_resolves_h [OF validated_schedule [OF p(8)]] by blast
qed

text \<open>The range check for floats lets a value that is not a number through: no comparison with it holds.\<close>

lemma score_threshold_accepts_nan: "number_range (JFloat NaN) ''recall.score_threshold'' 0 (Some 1) = []"
  by (simp add: number_range_def)

section \<open>Witnesses\<close>

definition seed_env :: cfg_env where
  "seed_env = \<lparr>ce_word = (\<lambda>c. upper c \<or> lower c \<or> digit c \<or> c = 95), ce_casefold = (\<lambda>s. s), ce_credentials = [],
     ce_url = (\<lambda>a. if a = seed_endpoint then Some \<lparr>ur_scheme = ''wss'', ur_netloc = asc ''openspeech.bytedance.com'',
       ur_hostname = Some (asc ''openspeech.bytedance.com''), ur_username = None, ur_password = None, ur_query = []\<rparr>
       else None)\<rparr>"

definition seed_persona :: json where
  "seed_persona = JObj [(''config_key'', JStr (asc ''persona'')), (''version'', JInt 1),
     (''content_sha256'', JStr (replicate 64 48))]"

lemma seed_persona_ok: "persona_issues (JObj [(''persona_ref'', seed_persona)]) = []"
  "scan seed_env ''persona_ref'' seed_persona = []"
proof -
  have "hex64 (replicate 64 48)" by (simp add: hex64_def digit_def list_all_iff)
  then show "persona_issues (JObj [(''persona_ref'', seed_persona)]) = []"
    by (simp add: persona_issues_def Let_def seed_persona_def exact_keys_Nil jkeys_def int_range_ok sha256_ref_def)
  have "\<not> secret_value seed_env (replicate 64 48)" by (rule no_secret_letters) simp_all
  then show "scan seed_env ''persona_ref'' seed_persona = []"
    by (simp add: scan_Nil key_issues_ok seed_persona_def seed_key_ok text_ok_def seed_text_ok seed_env_def)
qed

lemma seed_env_ok: "seed_url_ok seed_env" "nonblank (asc ''summarise'')" "\<not> secret_value seed_env (asc ''summarise'')"
  "\<forall>s \<in> set (ce_credentials seed_env). \<not> py_in s seed_endpoint \<and> s \<notin> set (json_strings (seed_config seed_persona)) \<and>
     s \<notin> set (json_strings (seed_script (asc ''summarise'')))"
proof -
  show "seed_url_ok seed_env" by (simp add: seed_url_ok_def seed_env_def)
  show "nonblank (asc ''summarise'')" by (simp add: nonblank_asc py_space_def)
  show "\<not> secret_value seed_env (asc ''summarise'')" by (rule plain_text_ok) (simp add: plain_text_simps)
  show "\<forall>s \<in> set (ce_credentials seed_env). \<not> py_in s seed_endpoint \<and> s \<notin> set (json_strings (seed_config seed_persona)) \<and>
     s \<notin> set (json_strings (seed_script (asc ''summarise'')))" by (simp add: seed_env_def)
qed

theorem seed_bundles_valid_witness:
  "validate_voice_bundle seed_env ''voice_call_config'' (seed_config seed_persona) = []"
  using seed_bundles_valid [OF seed_persona_ok seed_env_ok] by blast

theorem published_config_safe_witness:
  "list_all (\<lambda>k. jget (jget (jget (seed_config seed_persona) ''capabilities'') k) ''enabled'' = JBool False) VOICE_CAPABILITY_KEYS"
  unfolding list_all_iff
  using published_config_safe [OF conjunct1 [OF seed_bundles_valid_h [OF seed_persona_ok seed_env_ok]]] by blast

end
