(* ===== verification/MemoryText.thy ===== *)
theory MemoryText
  imports ConfigCheck Card
begin

text \<open>
  The pure part of the voice memory pipeline: keys and values of memory items
  (\<open>backend/utils/character_knowledge_validate.py\<close>), the parser of the model's output, the
  eligibility of a turn and the retry policy (\<open>realtime_voice_memory_service.py\<close>).

  \<open>json.loads\<close>, \<open>json.dumps\<close> (with and without \<open>ensure_ascii\<close>), \<open>int\<close> of a text and the short SHA-256 digest are the environment
  \<open>mem_text\<close>. A message of \<open>validate_key\<close> is a short tag here: the callers only test for \<open>None\<close>.
\<close>

section \<open>Keys and values\<close>

text \<open>\<open>[\u3400-\u4dbf\u4e00-\u9fff\uf900-\ufaff]\<close>\<close>

definition cjk :: "nat \<Rightarrow> bool" where
  "cjk c \<longleftrightarrow> (13312 \<le> c \<and> c \<le> 19903) \<or> (19968 \<le> c \<and> c \<le> 40959) \<or> (63744 \<le> c \<and> c \<le> 64255)"

definition count_cjk :: "pystr \<Rightarrow> nat" where
  "count_cjk t = length (filter cjk t)"

definition key_char :: "nat \<Rightarrow> bool" where
  "key_char c \<longleftrightarrow> cjk c \<or> digit c \<or> upper c \<or> lower c \<or> c = 45 \<or> c = 95"

text \<open>
  \<open>^[...]+$\<close> with \<open>match\<close>: \<open>$\<close> also holds before a line feed that ends the text.
\<close>

definition segment_match :: "pystr \<Rightarrow> bool" where
  "segment_match s \<longleftrightarrow>
     (let w = (if s \<noteq> [] \<and> last s = 10 then butlast s else s) in w \<noteq> [] \<and> list_all key_char w)"

fun py_split :: "nat \<Rightarrow> pystr \<Rightarrow> pystr list" where
  "py_split d [] = [[]]"
| "py_split d (c # t) =
     (if c = d then [] # py_split d t
      else (case py_split d t of [] \<Rightarrow> [[c]] | s # ss \<Rightarrow> (c # s) # ss))"

definition fullwidth_colon :: nat where
  "fullwidth_colon = 65306"

fun segment_error :: "pystr list \<Rightarrow> string option" where
  "segment_error [] = None"
| "segment_error (s # ss) =
     (if \<not> nonblank s then Some ''segment_empty''
      else if \<not> segment_match s then Some ''segment_chars''
      else segment_error ss)"

definition validate_key :: "pystr \<Rightarrow> string option" where
  "validate_key raw =
     (let key = py_strip raw; segments = py_split 45 key in
      if key = [] then Some ''empty''
      else if fullwidth_colon \<in> set key then Some ''colon''
      else if length segments \<noteq> 3 then Some ''layers''
      else (case segment_error segments of
          Some e \<Rightarrow> Some e
        | None \<Rightarrow> if count_cjk key > 20 then Some ''long'' else None))"

definition validate_value :: "pystr \<Rightarrow> string option" where
  "validate_value raw =
     (let value = py_strip raw in
      if value = [] then Some ''empty'' else if count_cjk value > 100 then Some ''long'' else None)"

section \<open>The environment\<close>

record mem_text =
  mx_loads :: "pystr \<Rightarrow> json option"
  mx_dumps :: "json \<Rightarrow> pystr"
  mx_dumps_ascii :: "json \<Rightarrow> pystr"
  mx_int :: "pystr \<Rightarrow> int option"
  mx_hash12 :: "pystr \<Rightarrow> string"

text \<open>The number of bytes of \<open>raw.encode()\<close>; a surrogate makes it raise (a \<open>ValueError\<close>).\<close>

fun utf8_len :: "pystr \<Rightarrow> nat option" where
  "utf8_len [] = Some 0"
| "utf8_len (c # t) =
     (if 55296 \<le> c \<and> c \<le> 57343 then None
      else map_option (\<lambda>n. n + (if c < 128 then 1 else if c < 2048 then 2 else if c < 65536 then 3 else 4))
        (utf8_len t))"

text \<open>\<open>int(v)\<close>: a \<open>TypeError\<close> and an \<open>OverflowError\<close> are not \<open>ValueError\<close>s.\<close>

definition rat_trunc :: "rat \<Rightarrow> int" where
  "rat_trunc r = (if 0 \<le> r then \<lfloor>r\<rfloor> else \<lceil>r\<rceil>)"

fun py_int :: "mem_text \<Rightarrow> json \<Rightarrow> int res" where
  "py_int x (JInt n) = Inr n"
| "py_int x (JBool b) = Inr (if b then 1 else 0)"
| "py_int x (JFloat (Fin r)) = Inr (rat_trunc r)"
| "py_int x (JFloat NaN) = Inl (ValueError ''int'')"
| "py_int x (JFloat _) = Inl (RuntimeError ''OverflowError'')"
| "py_int x (JStr s) = (case mx_int x s of None \<Rightarrow> Inl (ValueError ''int'') | Some n \<Rightarrow> Inr n)"
| "py_int x _ = Inl (RuntimeError ''TypeError'')"

section \<open>Memory items\<close>

datatype memory_type = User_memory | Private_memory

primrec memory_type_str :: "memory_type \<Rightarrow> string" where
  "memory_type_str User_memory = ''user''"
| "memory_type_str Private_memory = ''character_private''"

record atom =
  at_type :: memory_type
  at_key :: pystr
  at_content :: pystr

fun memory_type_of :: "json \<Rightarrow> memory_type option" where
  "memory_type_of (JStr s) =
     (if s = asc ''user'' then Some User_memory
      else if s = asc ''character_private'' then Some Private_memory else None)"
| "memory_type_of _ = None"

text \<open>An item the loop does not drop at once, stripped.\<close>

definition item_atom :: "json \<Rightarrow> atom option" where
  "item_atom item =
     (case (is_obj item, jget item ''stable_key'', jget item ''content'', memory_type_of (jget item ''memory_type'')) of
        (True, JStr k, JStr v, Some t) \<Rightarrow>
          if validate_key k \<noteq> None \<or> validate_value v \<noteq> None then None
          else Some \<lparr>at_type = t, at_key = py_strip k, at_content = py_strip v\<rparr>
      | _ \<Rightarrow> None)"

definition atom_id :: "atom \<Rightarrow> memory_type \<times> pystr" where
  "atom_id a = (at_type a, at_key a)"

definition count_reason :: "string \<Rightarrow> (string, nat) dict \<Rightarrow> (string, nat) dict" where
  "count_reason k d = AList.update k (case map_of d k of None \<Rightarrow> 1 | Some n \<Rightarrow> n + 1) d"

record parsed =
  pa_items :: "atom list"
  pa_dropped :: nat
  pa_reasons :: "(string, nat) dict"

definition drop_item :: "string \<Rightarrow> parsed \<Rightarrow> parsed" where
  "drop_item reason p = p\<lparr>pa_dropped := pa_dropped p + 1, pa_reasons := count_reason reason (pa_reasons p)\<rparr>"

text \<open>One iteration; \<open>seen\<close> is the set of identities of the items kept so far.\<close>

definition parse_item :: "nat \<Rightarrow> json \<Rightarrow> parsed \<Rightarrow> parsed" where
  "parse_item limit item p =
     (case item_atom item of
        None \<Rightarrow> drop_item ''invalid_atom'' p
      | Some a \<Rightarrow>
          let dup = (atom_id a \<in> set (map atom_id (pa_items p))) in
          if dup \<or> limit \<le> length (pa_items p)
          then drop_item (if dup then ''duplicate_key'' else ''item_limit'') p
          else p\<lparr>pa_items := pa_items p @ [a]\<rparr>)"

fun list_of :: "json \<Rightarrow> json list option" where
  "list_of (JList xs) = Some xs"
| "list_of _ = None"

definition item_limit :: "int \<Rightarrow> nat" where
  "item_limit n = nat (min 5 (max 0 n))"

definition parse_list :: "nat \<Rightarrow> json list \<Rightarrow> parsed" where
  "parse_list limit xs = fold (parse_item limit) xs \<lparr>pa_items = [], pa_dropped = 0, pa_reasons = []\<rparr>"

definition parse_memory_items :: "mem_text \<Rightarrow> json \<Rightarrow> json \<Rightarrow> parsed res" where
  "parse_memory_items x raw max_items =
     (case raw of
        JStr s \<Rightarrow>
          (case utf8_len s of
             None \<Rightarrow> Inl (ValueError ''encode'')
           | Some n \<Rightarrow>
               if n > 65536 then Inl (ValueError ''voice_memory_schema_invalid'')
               else (case mx_loads x s of
                   None \<Rightarrow> Inl (ValueError ''voice_memory_schema_invalid'')
                 | Some data \<Rightarrow>
                     (case list_of (jget data ''memory_items'') of
                        None \<Rightarrow> Inl (ValueError ''voice_memory_schema_invalid'')
                      | Some xs \<Rightarrow> bindR (py_int x max_items) (\<lambda>m. Inr (parse_list (item_limit m) xs)))))
      | _ \<Rightarrow> Inl (ValueError ''voice_memory_schema_invalid''))"

section \<open>Eligibility\<close>

definition confidence_ok :: "pyfloat option \<Rightarrow> bool" where
  "confidence_ok c = (case c of None \<Rightarrow> True | Some (Fin r) \<Rightarrow> 1/2 \<le> r \<and> r \<le> 1 | Some _ \<Rightarrow> False)"

definition memory_fillers :: "nat list" where
  "memory_fillers = [21999, 21834, 21734, 22114, 23545, 26159, 22909, 21704, 21621, 35830, 21769, 21571]"

definition opt_text :: "pystr option \<Rightarrow> pystr" where
  "opt_text t = (case t of None \<Rightarrow> [] | Some s \<Rightarrow> s)"

text \<open>\<open>bool(compact and not re.fullmatch(fillers, compact))\<close>\<close>

definition memorable_text :: "pystr \<Rightarrow> bool" where
  "memorable_text t \<longleftrightarrow>
     (let c = compact_text t in c \<noteq> [] \<and> \<not> list_all (\<lambda>x. x \<in> set memory_fillers) c)"

definition eligible_turn :: "turn_row \<Rightarrow> bool" where
  "eligible_turn t \<longleftrightarrow>
     confidence_ok (tn_user_asr_confidence t) \<and>
     memorable_text (opt_text (tn_user_text_final t)) \<and>
     opt_text (tn_assistant_text_effective t) \<noteq> [] \<and>
     tn_status t \<in> {Finalized, Interrupted} \<and> tn_evidence t \<noteq> No_evidence \<and>
     tn_user_safety t = Saf_passed \<and> tn_assistant_safety t = Saf_passed \<and>
     tn_user_crisis t = Cri_passed \<and> tn_assistant_crisis t = Cri_passed"

definition memory_skip_reason :: "turn_row \<Rightarrow> string" where
  "memory_skip_reason t =
     (if \<not> confidence_ok (tn_user_asr_confidence t) then ''low_confidence''
      else if \<not> nonblank (opt_text (tn_user_text_final t)) then ''no_user_text''
      else if tn_status t \<notin> {Finalized, Interrupted} then ''not_closed''
      else if opt_text (tn_assistant_text_effective t) = [] \<or> tn_evidence t = No_evidence then ''no_effective_text''
      else if tn_user_safety t \<noteq> Saf_passed \<or> tn_assistant_safety t \<noteq> Saf_passed then ''safety''
      else if tn_user_crisis t \<noteq> Cri_passed \<or> tn_assistant_crisis t \<noteq> Cri_passed then ''crisis''
      else ''no_meaningful_text'')"

section \<open>The retry policy\<close>

fun int_values :: "json list \<Rightarrow> int list option" where
  "int_values [] = Some []"
| "int_values (x # xs) = (case (as_int x, int_values xs) of (Some n, Some ns) \<Rightarrow> Some (n # ns) | _ \<Rightarrow> None)"

definition retry_policy :: "json \<Rightarrow> (int \<times> int list) res" where
  "retry_policy script =
     (case (jget_def' script ''max_retries'' (JInt 2),
            jget_def' script ''retry_backoff_ms'' (JList [JInt 1000, JInt 5000])) of
        (JInt n, JList ds) \<Rightarrow>
          (case int_values ds of
             None \<Rightarrow> Inl (ValueError ''invalid_memory_retry_policy'')
           | Some delays \<Rightarrow>
               if 0 \<le> n \<and> n \<le> 5 \<and> int (length delays) = n \<and>
                  list_all (\<lambda>d. 100 \<le> d \<and> d \<le> 60000) delays \<and> sorted delays
               then Inr (n, delays) else Inl (ValueError ''invalid_memory_retry_policy''))
      | _ \<Rightarrow> Inl (ValueError ''invalid_memory_retry_policy''))"

section \<open>Document identity\<close>

definition pipeline_version :: string where
  "pipeline_version = ''voice_memory_v1''"

fun int_str :: "int \<Rightarrow> string" where
  "int_str n = (if n < 0 then ''-'' @ nat_str (nat (- n)) else nat_str (nat n))"

definition build_doc_id :: "mem_text \<Rightarrow> memory_type \<Rightarrow> pystr \<Rightarrow> int \<Rightarrow> string" where
  "build_doc_id x t k u = memory_type_str t @ ''_'' @ mx_hash12 x (py_strip k) @ ''_'' @ int_str u"

section \<open>Facts\<close>

lemma retry_policy_ok:
  assumes "retry_policy script = Inr (n, ds)"
  shows "0 \<le> n" "n \<le> 5" "int (length ds) = n" "\<forall>d \<in> set ds. 100 \<le> d \<and> d \<le> 60000" "sorted ds"
  using assms by (auto simp: retry_policy_def list_all_iff split: json.splits option.splits if_splits)

lemma blank_compact: "\<not> nonblank t \<Longrightarrow> compact_text t = []"
  by (auto simp: nonblank_iff compact_text_def punct_char_def filter_empty_conv)

text \<open>Dropping and keeping: every item is counted once.\<close>

definition reasons_total :: "(string, nat) dict \<Rightarrow> nat" where
  "reasons_total d = sum_list (map snd d)"

lemma reasons_total_update:
  assumes "distinct (map fst d)"
  shows "reasons_total (AList.update k n d) + (case map_of d k of None \<Rightarrow> 0 | Some m \<Rightarrow> m) = reasons_total d + n"
  using assms
proof (induction d)
  case (Cons kv d)
  show ?case
  proof (cases "fst kv = k")
    case True
    with Cons.prems show ?thesis by (cases kv) (auto simp: reasons_total_def)
  next
    case False
    with Cons show ?thesis by (cases kv) (auto simp: reasons_total_def)
  qed
qed (simp add: reasons_total_def)

lemma count_reason_total:
  assumes "dict_wf d"
  shows "reasons_total (count_reason k d) = Suc (reasons_total d)" "dict_wf (count_reason k d)"
proof -
  show "reasons_total (count_reason k d) = Suc (reasons_total d)"
    using assms reasons_total_update [of d k "case map_of d k of None \<Rightarrow> 1 | Some n \<Rightarrow> n + 1"]
    by (cases "map_of d k") (simp_all add: count_reason_def dict_wf_def)
  show "dict_wf (count_reason k d)" using assms by (simp add: count_reason_def)
qed

definition parsed_ok :: "nat \<Rightarrow> json list \<Rightarrow> parsed \<Rightarrow> bool" where
  "parsed_ok limit xs p \<longleftrightarrow>
     length (pa_items p) \<le> limit \<and> distinct (map atom_id (pa_items p)) \<and>
     length (pa_items p) + pa_dropped p = length xs \<and> reasons_total (pa_reasons p) = pa_dropped p \<and>
     dict_wf (pa_reasons p) \<and> fst ` set (pa_reasons p) \<subseteq> {''invalid_atom'', ''duplicate_key'', ''item_limit''} \<and>
     subseq (pa_items p) (List.map_filter item_atom xs)"

lemma count_reason_keys: "fst ` set (count_reason k d) = insert k (fst ` set d)"
  by (simp add: count_reason_def dom_update)

lemma subseq_snoc: "subseq xs ys \<Longrightarrow> subseq (xs @ [a]) (ys @ [a])"
  by (simp add: list_emb_append_mono)

lemma map_filter_snoc: "List.map_filter f (xs @ [y]) = List.map_filter f xs @ (case f y of None \<Rightarrow> [] | Some z \<Rightarrow> [z])"
  by (simp add: List.map_filter_def split: option.splits)

lemma parse_item_ok:
  assumes "parsed_ok limit xs p"
  shows "parsed_ok limit (xs @ [y]) (parse_item limit y p)"
proof (cases "item_atom y")
  case None
  with assms show ?thesis
    by (auto simp: parse_item_def parsed_ok_def drop_item_def count_reason_total count_reason_keys map_filter_snoc)
next
  case (Some a)
  show ?thesis
  proof (cases "atom_id a \<in> set (map atom_id (pa_items p)) \<or> limit \<le> length (pa_items p)")
    case True
    with assms Some show ?thesis
      by (auto simp: parse_item_def parsed_ok_def drop_item_def count_reason_total count_reason_keys
          map_filter_snoc Let_def intro: list_emb_append2)
  next
    case False
    with assms Some show ?thesis
      by (auto simp: parse_item_def parsed_ok_def map_filter_snoc Let_def intro: subseq_snoc)
  qed
qed

lemma parse_list_ok: "parsed_ok limit xs (parse_list limit xs)"
proof (induction xs rule: rev_induct)
  case Nil
  show ?case by (simp add: parse_list_def parsed_ok_def reasons_total_def List.map_filter_def)
next
  case (snoc y xs)
  then show ?case using parse_item_ok by (simp add: parse_list_def)
qed

lemma item_atom_valid:
  assumes "item_atom item = Some a"
  shows "\<exists>k v. jget item ''stable_key'' = JStr k \<and> jget item ''content'' = JStr v \<and>
    validate_key k = None \<and> validate_value v = None \<and> at_key a = py_strip k \<and> at_content a = py_strip v"
  using assms by (auto simp: item_atom_def split: bool.splits json.splits option.splits if_splits)

lemma py_split_join: "t = concat (map (\<lambda>s. s @ [d]) (butlast (py_split d t))) @ last (py_split d t) \<and> py_split d t \<noteq> []"
  by (induction t) (auto split: list.splits)

lemma py_split_no_sep: "s \<in> set (py_split d t) \<Longrightarrow> d \<notin> set s"
  by (induction t arbitrary: s) (auto split: list.splits if_splits)

lemma segment_error_None:
  "segment_error ss = None \<longleftrightarrow> list_all (\<lambda>s. nonblank s \<and> segment_match s) ss"
  by (induction ss) auto

text \<open>What an accepted key looks like: three segments over the allowed characters, each but the last
  possibly ended by a line feed.\<close>

lemma valid_key_shape:
  assumes "validate_key k = None"
  shows "\<exists>a b c. py_strip k = a @ [45] @ b @ [45] @ c \<and> list_all (\<lambda>s. segment_match s \<and> 45 \<notin> set s) [a, b, c] \<and>
    count_cjk (py_strip k) \<le> 20"
proof -
  have l: "length (py_split 45 (py_strip k)) = 3"
    and e: "segment_error (py_split 45 (py_strip k)) = None" and n: "count_cjk (py_strip k) \<le> 20"
    using assms by (auto simp: validate_key_def Let_def split: if_splits option.splits)
  obtain a b c where abc: "py_split 45 (py_strip k) = [a, b, c]"
    using l by (auto simp: numeral_3_eq_3 length_Suc_conv)
  have "py_strip k = a @ [45] @ b @ [45] @ c" using py_split_join [of "py_strip k" 45] abc by simp
  moreover have "list_all (\<lambda>s. segment_match s \<and> 45 \<notin> set s) [a, b, c]"
    using e py_split_no_sep [of _ 45 "py_strip k"] unfolding segment_error_None abc by simp
  ultimately show ?thesis using n by blast
qed

text \<open>The parser of the extraction output never lets a malformed item through and accounts for every
  item: from a list of any length it keeps at most five items (and at most the configured number), all
  of distinct type and key, in the order of the output, each a stripped item that passed the key and
  value checks (so its key is three non-empty segments of at most twenty Chinese characters, its
  content at most a hundred); the number dropped is the number not kept, and the reasons add up to
  it.\<close>

theorem parsed_items_sound:
  assumes "parse_memory_items x raw m = Inr p"
  shows "\<exists>s data xs n. raw = JStr s \<and> mx_loads x s = Some data \<and> jget data ''memory_items'' = JList xs \<and>
    py_int x m = Inr n \<and> length (pa_items p) \<le> 5 \<and> int (length (pa_items p)) \<le> max 0 n \<and>
    distinct (map atom_id (pa_items p)) \<and> subseq (pa_items p) (List.map_filter item_atom xs) \<and>
    length (pa_items p) + pa_dropped p = length xs \<and> reasons_total (pa_reasons p) = pa_dropped p \<and>
    (\<forall>a \<in> set (pa_items p). count_cjk (at_content a) \<le> 100 \<and> at_content a \<noteq> [] \<and> count_cjk (at_key a) \<le> 20 \<and>
      (\<exists>u v w. at_key a = u @ [45] @ v @ [45] @ w \<and> list_all (\<lambda>s. segment_match s \<and> 45 \<notin> set s) [u, v, w]))"
proof -
  obtain s data xs n where r: "raw = JStr s" "mx_loads x s = Some data" "list_of (jget data ''memory_items'') = Some xs"
    "py_int x m = Inr n" "p = parse_list (item_limit n) xs"
    using assms by (auto simp: parse_memory_items_def bindR_Inr_iff split: json.splits option.splits if_splits)
  have l: "jget data ''memory_items'' = JList xs" using r(3) by (cases "jget data ''memory_items''") auto
  have ok: "parsed_ok (item_limit n) xs p" using r(5) parse_list_ok by simp
  have lim: "length (pa_items p) \<le> 5" "int (length (pa_items p)) \<le> max 0 n"
    using ok by (auto simp: parsed_ok_def item_limit_def)
  have atoms: "count_cjk (at_content a) \<le> 100 \<and> at_content a \<noteq> [] \<and> count_cjk (at_key a) \<le> 20 \<and>
      (\<exists>u v w. at_key a = u @ [45] @ v @ [45] @ w \<and> list_all (\<lambda>s. segment_match s \<and> 45 \<notin> set s) [u, v, w])"
    if a: "a \<in> set (pa_items p)" for a
  proof -
    have "a \<in> set (List.map_filter item_atom xs)"
      using a ok by (auto simp: parsed_ok_def dest: list_emb_set)
    then obtain item where "item_atom item = Some a" by (auto simp: List.map_filter_def)
    from item_atom_valid [OF this] obtain k v where "validate_key k = None" "validate_value v = None"
      "at_key a = py_strip k" "at_content a = py_strip v" by blast
    with valid_key_shape [of k] show ?thesis
      by (auto simp: validate_value_def Let_def split: if_splits)
  qed
  have counts: "distinct (map atom_id (pa_items p))" "subseq (pa_items p) (List.map_filter item_atom xs)"
    "length (pa_items p) + pa_dropped p = length xs" "reasons_total (pa_reasons p) = pa_dropped p"
    using ok by (simp_all add: parsed_ok_def)
  show ?thesis
    by (rule exI [of _ s], rule exI [of _ data], rule exI [of _ xs], rule exI [of _ n])
      (intro conjI ballI; (rule r l lim counts | erule atoms [THEN conjunct1] atoms [THEN conjunct2, THEN conjunct1]
        atoms [THEN conjunct2, THEN conjunct2, THEN conjunct1] atoms [THEN conjunct2, THEN conjunct2, THEN conjunct2]))
qed

definition demo_item :: json where
  "demo_item = JObj [(''stable_key'', JStr (asc ''a-b-c'')), (''content'', JStr (asc '' x'')), (''memory_type'', JStr (asc ''user''))]"

definition demo_text :: mem_text where
  "demo_text = \<lparr>mx_loads = (\<lambda>s. Some (JObj [(''memory_items'', JList [demo_item, JNull, demo_item])])),
     mx_dumps = (\<lambda>j. []), mx_dumps_ascii = (\<lambda>j. []), mx_int = (\<lambda>s. None), mx_hash12 = (\<lambda>s. ''h'')\<rparr>"

theorem parsed_items_sound_witness:
  "\<exists>p. parse_memory_items demo_text (JStr (asc ''{}'')) (JInt 5) = Inr p \<and>
     length (pa_items p) + pa_dropped p = 3 \<and> reasons_total (pa_reasons p) = pa_dropped p"
proof -
  obtain p where p: "parse_memory_items demo_text (JStr (asc ''{}'')) (JInt 5) = Inr p"
    by (simp add: parse_memory_items_def demo_text_def asc_def)
  from parsed_items_sound [OF p] show ?thesis using p by (auto simp: demo_text_def)
qed

text \<open>A turn is eligible for memory exactly when no reason of the list holds: the reason recorded
  for a turn that is skipped is always the first requirement it misses, and the fallback reason
  \<open>no_meaningful_text\<close> is recorded for an ineligible turn precisely when all the other requirements are
  met, that is when only the words of the user are missing.\<close>

theorem skip_reason_exact:
  "(eligible_turn t \<longleftrightarrow> memory_skip_reason t = ''no_meaningful_text'' \<and> memorable_text (opt_text (tn_user_text_final t))) \<and>
   (memory_skip_reason t = ''low_confidence'' \<longleftrightarrow> \<not> confidence_ok (tn_user_asr_confidence t)) \<and>
   (memory_skip_reason t = ''crisis'' \<longrightarrow> tn_user_safety t = Saf_passed \<and> tn_assistant_safety t = Saf_passed \<and>
      (tn_user_crisis t \<noteq> Cri_passed \<or> tn_assistant_crisis t \<noteq> Cri_passed)) \<and>
   (tn_user_crisis t \<noteq> Cri_passed \<or> tn_assistant_crisis t \<noteq> Cri_passed \<longrightarrow> \<not> eligible_turn t)"
proof -
  have "\<not> memorable_text s" if "\<not> nonblank s" for s
    using blank_compact [OF that] by (simp add: memorable_text_def)
  then show ?thesis by (auto simp: eligible_turn_def memory_skip_reason_def)
qed

definition demo_turn :: turn_row where
  "demo_turn = \<lparr>tn_id = 1, tn_call_id = ''c'', tn_turn_index = 1, tn_question_id = None, tn_reply_id = None,
     tn_user_text_final = Some (asc ''I moved''), tn_user_asr_confidence = None, tn_assistant_text_generated = None,
     tn_assistant_text_effective = Some (asc ''ok''), tn_evidence = Full, tn_assistant_interrupted = False,
     tn_played_audio_ms = None, tn_playback_completed_at = None, tn_status = Finalized,
     tn_memory_status = Mem_pending, tn_user_safety = Saf_passed, tn_assistant_safety = Saf_passed,
     tn_user_crisis = Cri_passed, tn_assistant_crisis = Cri_passed, tn_started_at = 0, tn_finalized_at = None,
     tn_effective_text_expires_at = None, tn_generated_text_expires_at = None, tn_effective_text_cleared_at = None,
     tn_generated_text_cleared_at = None, tn_content_clear_reason = None\<rparr>"

theorem skip_reason_exact_witness:
  "\<not> eligible_turn (demo_turn\<lparr>tn_assistant_crisis := Cri_suspected\<rparr>) \<and>
   memory_skip_reason (demo_turn\<lparr>tn_assistant_crisis := Cri_suspected\<rparr>) \<noteq> ''low_confidence''"
proof -
  define t where "t = demo_turn\<lparr>tn_assistant_crisis := Cri_suspected\<rparr>"
  have "tn_assistant_crisis t \<noteq> Cri_passed" "confidence_ok (tn_user_asr_confidence t)"
    by (simp_all add: t_def demo_turn_def confidence_ok_def)
  then show ?thesis using skip_reason_exact [of t] unfolding t_def [symmetric] by blast
qed

text \<open>The checks accept a key with a line feed inside, which the message of the check rules out.\<close>

lemma key_accepts_line_feed: "validate_key [97, 10, 45, 98, 45, 99] = None"
  by (simp add: validate_key_def py_strip_def py_space_def fullwidth_colon_def segment_match_def key_char_def
      nonblank_def digit_def upper_def lower_def count_cjk_def cjk_def)

end
