(* ===== verification/Safety.thy ===== *)
theory Safety
  imports Database ConfigCheck
begin

text \<open>
  The safety decision on one side of a voice turn: keyword matching
  (\<open>content_safety_service.match_keyword\<close>), the crisis keyword policy
  (\<open>realtime_voice_crisis_config_service.py\<close>), the crisis gate with its isolation record
  (\<open>realtime_voice_crisis_service.py\<close>) and the content gate that combines them
  (\<open>realtime_voice_safety_service.py\<close>).

  What the gates read is the environment \<open>safety_env\<close>: the cache and database replies (\<open>Inl\<close> is an
  exception or a missed deadline), \<open>str.lower\<close> and \<open>json.loads\<close>. The observation counters of the
  gates and the Redis counters behind \<open>record\<close> are telemetry and left out.
\<close>

section \<open>Decisions\<close>

datatype direction = User_side | Assistant_side

primrec dir_str :: "direction \<Rightarrow> string" where
  "dir_str User_side = ''user''"
| "dir_str Assistant_side = ''assistant''"

record gate_decision =
  gd_safety :: safety_status
  gd_crisis :: crisis_status
  gd_keyword :: "pystr option"
  gd_effective_final :: bool

definition decision :: "safety_status \<Rightarrow> crisis_status \<Rightarrow> gate_decision" where
  "decision s c = \<lparr>gd_safety = s, gd_crisis = c, gd_keyword = None, gd_effective_final = False\<rparr>"

definition permits_text :: "gate_decision \<Rightarrow> bool" where
  "permits_text d \<longleftrightarrow> gd_crisis d = Cri_passed \<and> gd_safety d \<noteq> Saf_pending"

section \<open>The environment\<close>

record safety_env =
  se_lower :: "pystr \<Rightarrow> pystr"
  se_loads :: "pystr \<Rightarrow> json option"
  se_dumps :: "pystr list \<Rightarrow> pystr"
  se_banned :: "pystr option res"
  se_crisis_cache :: "json res"
  se_published :: "json list res"
  se_cfg :: cfg_env

section \<open>Keyword matching\<close>

definition contains_word :: "safety_env \<Rightarrow> pystr \<Rightarrow> pystr \<Rightarrow> bool" where
  "contains_word env t w \<longleftrightarrow> py_in (se_lower env w) (se_lower env t)"

text \<open>\<open>match_keyword\<close> with \<open>legacy=False\<close>.\<close>

definition match_keyword :: "safety_env \<Rightarrow> pystr \<Rightarrow> pystr option \<Rightarrow> pystr option res" where
  "match_keyword env t raw =
     (if t = [] \<or> \<not> nonblank t \<or> raw = None \<or> raw = Some [] then Inr None
      else (case se_loads env (the raw) of
          None \<Rightarrow> Inl (ValueError ''json'')
        | Some (JList ws) \<Rightarrow>
            if \<not> list_all is_str ws then Inl (ValueError ''invalid_keyword_list'')
            else Inr (find (\<lambda>w. w \<noteq> [] \<and> contains_word env t w)
                   (map (\<lambda>j. case j of JStr s \<Rightarrow> s | _ \<Rightarrow> []) ws))
        | Some _ \<Rightarrow> Inl (ValueError ''invalid_keyword_list'')))"

section \<open>The crisis keyword policy\<close>

definition normalize_crisis_keywords :: "cfg_env \<Rightarrow> json \<Rightarrow> pystr list option" where
  "normalize_crisis_keywords e v =
     (case v of
        JList ws \<Rightarrow>
          if \<not> list_all is_str ws then None
          else
            let n = sort (remdups (filter (\<lambda>s. s \<noteq> []) (map (\<lambda>j. case j of JStr s \<Rightarrow> py_strip s | _ \<Rightarrow> []) ws))) in
            if n = [] \<or> scan_forbidden_fields e (JList (map JStr n)) \<noteq> [] then None else Some n
      | _ \<Rightarrow> None)"

definition parse_keywords :: "safety_env \<Rightarrow> json \<Rightarrow> pystr list \<times> string option" where
  "parse_keywords env raw =
     (if raw = JNull then ([], Some ''missing'')
      else (case (case raw of JStr s \<Rightarrow> se_loads env s | v \<Rightarrow> Some v) of
          None \<Rightarrow> ([], Some ''invalid_json'')
        | Some v \<Rightarrow> (case normalize_crisis_keywords (se_cfg env) v of
              None \<Rightarrow> ([], Some ''invalid_or_empty'')
            | Some ws \<Rightarrow> (ws, None))))"

record keyword_load =
  kl_keywords :: "pystr list"
  kl_suspected :: bool
  kl_reason :: "string option"

definition read_published :: "safety_env \<Rightarrow> (pystr list \<times> string) res" where
  "read_published env =
     bindR (se_published env) (\<lambda>rows.
       case rows of
         [] \<Rightarrow> Inr ([], ''unpublished'')
       | [v] \<Rightarrow> (case parse_keywords env v of (ws, e) \<Rightarrow> Inr (ws, if e = None then ''published'' else ''invalid''))
       | _ \<Rightarrow> Inr ([], ''invalid''))"

definition cache_words :: "safety_env \<Rightarrow> pystr list \<times> string option" where
  "cache_words env =
     (case se_crisis_cache env of
        Inl e \<Rightarrow> ([], Some ''redis_unavailable'')
      | Inr raw \<Rightarrow> parse_keywords env raw)"

definition load_crisis_keywords :: "safety_env \<Rightarrow> keyword_load" where
  "load_crisis_keywords env =
     (case cache_words env of
        (ws, None) \<Rightarrow> \<lparr>kl_keywords = ws, kl_suspected = False, kl_reason = None\<rparr>
      | (ws, Some reason) \<Rightarrow>
          (case read_published env of
             Inr (ws, status) \<Rightarrow>
               if status = ''published'' then \<lparr>kl_keywords = ws, kl_suspected = False, kl_reason = None\<rparr>
               else \<lparr>kl_keywords = [], kl_suspected = True, kl_reason = Some reason\<rparr>
           | Inl e \<Rightarrow> \<lparr>kl_keywords = [], kl_suspected = True, kl_reason = Some reason\<rparr>))"

text \<open>The refill script: it writes only over the exact value that was read before the database.\<close>

definition crisis_refill :: "safety_env \<Rightarrow> json \<Rightarrow> pystr list \<Rightarrow> json \<Rightarrow> json" where
  "crisis_refill env seen_raw ws current =
     (if (seen_raw = JNull \<and> current = JNull) \<or> (seen_raw \<noteq> JNull \<and> current = seen_raw)
      then JStr (se_dumps env ws) else current)"

text \<open>The read-only inspection of the administration page: publication and cache health.\<close>

record policy_health =
  ph_words :: "pystr list"
  ph_publication :: string
  ph_cache_status :: string

definition inspect_policy :: "safety_env \<Rightarrow> policy_health" where
  "inspect_policy env =
     (let (ws, publication) = (case read_published env of Inl e \<Rightarrow> ([], ''unavailable'') | Inr r \<Rightarrow> r) in
      \<lparr>ph_words = ws, ph_publication = publication,
       ph_cache_status =
         (case se_crisis_cache env of
            Inl e \<Rightarrow> ''unavailable''
          | Inr raw \<Rightarrow>
              (case parse_keywords env raw of
                 (c, Some e) \<Rightarrow> if e = ''missing'' then ''missing'' else ''invalid''
               | (c, None) \<Rightarrow>
                   if publication = ''published'' \<and> c = ws then ''healthy'' else ''out_of_sync''))\<rparr>)"

section \<open>The gates\<close>

definition assess_crisis :: "safety_env \<Rightarrow> pystr \<Rightarrow> gate_decision" where
  "assess_crisis env t =
     (let l = load_crisis_keywords env in
      if kl_suspected l then decision Saf_pending Cri_suspected
      else (case find (\<lambda>w. contains_word env t w) (kl_keywords l) of
          None \<Rightarrow> decision Saf_pending Cri_passed
        | Some w \<Rightarrow> (decision Saf_pending (if w = [] then Cri_passed else Cri_matched))\<lparr>gd_keyword := Some w\<rparr>))"

definition banned_status :: "safety_env \<Rightarrow> pystr \<Rightarrow> safety_status" where
  "banned_status env t =
     (case bindR (se_banned env) (match_keyword env t) of
        Inl e \<Rightarrow> Saf_error_allowed
      | Inr None \<Rightarrow> Saf_passed
      | Inr (Some w) \<Rightarrow> Saf_matched)"

text \<open>\<open>VoiceSafetyGate.assess\<close>, with or without a crisis gate behind it.\<close>

definition safety_assess :: "bool \<Rightarrow> safety_env \<Rightarrow> pystr \<Rightarrow> gate_decision" where
  "safety_assess has_crisis env t =
     (let s = banned_status env t in
      if has_crisis
      then let c = assess_crisis env t in
           \<lparr>gd_safety = s, gd_crisis = gd_crisis c, gd_keyword = gd_keyword c, gd_effective_final = False\<rparr>
      else decision s Cri_pending)"

definition permits_generated :: "bool \<Rightarrow> safety_env \<Rightarrow> pystr \<Rightarrow> bool" where
  "permits_generated has_crisis env t \<longleftrightarrow> has_crisis \<and> gd_crisis (assess_crisis env t) = Cri_passed"

section \<open>Isolation\<close>

definition crisis_key :: "crisis_row \<Rightarrow> string \<times> int \<times> string" where
  "crisis_key r = (cr_call_id r, cr_turn_index r, cr_direction r)"

definition next_crisis_id :: "database \<Rightarrow> int" where
  "next_crisis_id db = 1 + foldr (\<lambda>r n. max (cr_id r) n) (db_crises db) 0"

definition starts_with :: "pystr \<Rightarrow> pystr \<Rightarrow> bool" where
  "starts_with t w \<longleftrightarrow> take (length w) t = w"

definition crisis_days :: int where
  "crisis_days = 30 * us_day"

definition new_crisis :: "datetime \<Rightarrow> database \<Rightarrow> string \<Rightarrow> int \<Rightarrow> direction \<Rightarrow> pystr \<Rightarrow> gate_decision \<Rightarrow> crisis_row" where
  "new_crisis now db cid i d t g = \<lparr>cr_id = next_crisis_id db, cr_call_id = cid, cr_turn_index = i,
     cr_direction = dir_str d, cr_matched_keyword = gd_keyword g, cr_content_plaintext = Some t,
     cr_match_status = crisis_status_str (gd_crisis g), cr_is_persona_incident = (d = Assistant_side),
     cr_expires_at = now + crisis_days, cr_cleared_at = None\<rparr>"

text \<open>A later, cumulative text of the same side replaces the recorded one while the record lives.\<close>

definition extend_crisis :: "datetime \<Rightarrow> pystr \<Rightarrow> gate_decision \<Rightarrow> crisis_row \<Rightarrow> crisis_row" where
  "extend_crisis now t g r =
     (if cr_cleared_at r = None \<and> now < cr_expires_at r \<and>
         (gd_effective_final g \<or> starts_with t (case cr_content_plaintext r of None \<Rightarrow> [] | Some s \<Rightarrow> s))
      then r\<lparr>cr_content_plaintext := Some t\<rparr> else r)"

definition crisis_isolate ::
  "datetime \<Rightarrow> database \<Rightarrow> string \<Rightarrow> int \<Rightarrow> direction \<Rightarrow> pystr \<Rightarrow> gate_decision \<Rightarrow> database" where
  "crisis_isolate now db cid i d t g =
     (case row_find crisis_key (cid, i, dir_str d) (db_crises db) of
        Some r \<Rightarrow> db\<lparr>db_crises := row_put crisis_key (extend_crisis now t g r) (db_crises db)\<rparr>
      | None \<Rightarrow>
          stage [ev ''voice.crisis.hit'' [(''direction'', dir_str d), (''result'', crisis_status_str (gd_crisis g))] 1]
            (db\<lparr>db_crises := db_crises db @ [new_crisis now db cid i d t g]\<rparr>))"

definition clear_expired_crisis :: "datetime \<Rightarrow> database \<Rightarrow> int \<times> database" where
  "clear_expired_crisis now db =
     (let due = (\<lambda>r. cr_expires_at r \<le> now \<and> cr_cleared_at r = None) in
      (int (length (filter due (db_crises db))),
       db\<lparr>db_crises := map (\<lambda>r. if due r
            then r\<lparr>cr_content_plaintext := None, cr_matched_keyword := None, cr_cleared_at := Some now\<rparr> else r)
          (db_crises db)\<rparr>))"

text \<open>\<open>_notify_after_commit\<close>: one alert per gate, while a live record of the call exists. The flag of a
  failed notification stays down, so a later commit tries again.\<close>

definition live_crisis :: "datetime \<Rightarrow> string \<Rightarrow> database \<Rightarrow> bool" where
  "live_crisis now cid db \<longleftrightarrow>
     list_ex (\<lambda>r. cr_call_id r = cid \<and> cr_cleared_at r = None \<and> now < cr_expires_at r) (db_crises db)"

definition notify_after_commit :: "datetime \<Rightarrow> string \<Rightarrow> database \<Rightarrow> bool \<Rightarrow> bool \<Rightarrow> bool \<times> bool" where
  "notify_after_commit now cid db delivered notified =
     (if notified \<or> \<not> live_crisis now cid db then (False, notified) else (True, delivered))"

section \<open>The gate as the turn service sees it\<close>

text \<open>
  \<open>g_assess\<close> gives \<open>None\<close> for a raise or a result that is not a decision, \<open>g_isolate\<close> gives \<open>None\<close> for
  a raise, \<open>g_permits\<close> is absent for a gate without \<open>permits_generated\<close>.
\<close>

record gate =
  g_assess :: "direction \<Rightarrow> pystr \<Rightarrow> gate_decision option"
  g_isolate :: "database \<Rightarrow> string \<Rightarrow> int \<Rightarrow> direction \<Rightarrow> pystr \<Rightarrow> gate_decision \<Rightarrow> database option"
  g_permits :: "(pystr \<Rightarrow> bool) option"

definition pending_gate :: gate where
  "pending_gate = \<lparr>g_assess = (\<lambda>d t. Some (decision Saf_pending Cri_pending)),
     g_isolate = (\<lambda>db cid i d t g. None), g_permits = None\<rparr>"

definition safety_gate :: "datetime \<Rightarrow> bool \<Rightarrow> safety_env \<Rightarrow> gate" where
  "safety_gate now has_crisis env = \<lparr>g_assess = (\<lambda>d t. Some (safety_assess has_crisis env t)),
     g_isolate = (\<lambda>db cid i d t g. if has_crisis then Some (crisis_isolate now db cid i d t g) else None),
     g_permits = Some (permits_generated has_crisis env)\<rparr>"

definition has_crisis_record :: "string \<Rightarrow> int \<Rightarrow> direction \<Rightarrow> database \<Rightarrow> bool" where
  "has_crisis_record cid i d db \<longleftrightarrow> list_ex (\<lambda>r. crisis_key r = (cid, i, dir_str d)) (db_crises db)"

text \<open>What the turn service relies on: isolation writes crisis records and events only, leaves a record
  of the isolated side and never drops one.\<close>

locale crisis_gate =
  fixes g :: gate
  assumes isolate_frame: "g_isolate g db cid i d t x = Some db' \<Longrightarrow>
      \<exists>cs evs. db' = db\<lparr>db_crises := cs, db_staged := evs\<rparr>"
    and isolate_records: "g_isolate g db cid i d t x = Some db' \<Longrightarrow> has_crisis_record cid i d db'"
    and isolate_keeps: "g_isolate g db cid i d t x = Some db' \<Longrightarrow> has_crisis_record c j e db \<Longrightarrow> has_crisis_record c j e db'"
    and isolate_unique: "g_isolate g db cid i d t x = Some db' \<Longrightarrow> uk_voice_crisis (db_crises db) \<Longrightarrow> uk_voice_crisis (db_crises db')"
begin

lemma isolate_tables:
  assumes "g_isolate g db cid i d t x = Some db'"
  shows "db_calls db' = db_calls db" "db_turns db' = db_turns db" "db_memory_jobs db' = db_memory_jobs db"
    "db_users db' = db_users db" "db_accounts db' = db_accounts db" "db_ledger db' = db_ledger db"
  using isolate_frame [OF assms] by auto

end

lemma extend_crisis_key [simp]: "crisis_key (extend_crisis now t g r) = crisis_key r"
  by (simp add: extend_crisis_def crisis_key_def)

lemma has_crisis_record_iff: "has_crisis_record cid i d db \<longleftrightarrow> (cid, i, dir_str d) \<in> set (map crisis_key (db_crises db))"
  unfolding has_crisis_record_def list_ex_iff set_map image_iff by (metis (no_types))

lemma row_find_None_key: "row_find key k rows = None \<longleftrightarrow> k \<notin> set (map key rows)"
  by (auto simp: row_find_def find_None_iff)

lemma crisis_isolate_keys:
  "map crisis_key (db_crises (crisis_isolate now db cid i d t g)) =
     map crisis_key (db_crises db) @ (if has_crisis_record cid i d db then [] else [(cid, i, dir_str d)])"
proof (cases "row_find crisis_key (cid, i, dir_str d) (db_crises db)")
  case None
  then have "\<not> has_crisis_record cid i d db" by (simp add: row_find_None_key has_crisis_record_iff)
  with None show ?thesis by (simp add: crisis_isolate_def stage_def new_crisis_def crisis_key_def)
next
  case (Some r)
  then have "has_crisis_record cid i d db"
    using row_find_None_key [of crisis_key "(cid, i, dir_str d)" "db_crises db"] by (simp add: has_crisis_record_iff)
  with Some show ?thesis by (simp add: crisis_isolate_def)
qed

lemma crisis_isolate_frame:
  "\<exists>cs evs. crisis_isolate now db cid i d t x = db\<lparr>db_crises := cs, db_staged := evs\<rparr>"
proof (cases "row_find crisis_key (cid, i, dir_str d) (db_crises db)")
  case None
  then show ?thesis unfolding crisis_isolate_def
    by (intro exI [of _ "db_crises db @ [new_crisis now db cid i d t x]"] exI) (simp add: stage_def)
next
  case (Some r)
  then show ?thesis unfolding crisis_isolate_def
    by (intro exI [of _ "row_put crisis_key (extend_crisis now t x r) (db_crises db)"] exI [of _ "db_staged db"]) simp
qed

interpretation voice_safety: crisis_gate "safety_gate now has_crisis env" for now has_crisis env
proof
  fix db db' :: database and cid i d t x c j e
  assume "g_isolate (safety_gate now has_crisis env) db cid i d t x = Some db'"
  then have db': "db' = crisis_isolate now db cid i d t x" by (simp add: safety_gate_def split: if_splits)
  show "\<exists>cs evs. db' = db\<lparr>db_crises := cs, db_staged := evs\<rparr>"
    unfolding db' by (rule crisis_isolate_frame)
  show "has_crisis_record cid i d db'"
    using crisis_isolate_keys [of now db cid i d t x] unfolding has_crisis_record_iff db' by auto
  show "has_crisis_record c j e db'" if "has_crisis_record c j e db"
    using that crisis_isolate_keys [of now db cid i d t x] unfolding has_crisis_record_iff db' by auto
  show "uk_voice_crisis (db_crises db')" if u: "uk_voice_crisis (db_crises db)"
  proof -
    have eq: "uk_voice_crisis cs = distinct (map crisis_key cs)" for cs
      by (simp add: uk_voice_crisis_def crisis_key_def [abs_def])
    show ?thesis using u crisis_isolate_keys [of now db cid i d t x]
      unfolding eq db' has_crisis_record_iff by auto
  qed
qed

interpretation no_detector: crisis_gate pending_gate
  by unfold_locales (simp_all add: pending_gate_def)

section \<open>Correctness\<close>

lemma parse_keywords_ok:
  assumes "parse_keywords env raw = (ws, None)"
  shows "ws \<noteq> []" "[] \<notin> set ws" "sorted ws" "distinct ws"
proof -
  obtain v where "normalize_crisis_keywords (se_cfg env) v = Some ws"
    using assms by (auto simp: parse_keywords_def split: if_splits option.splits)
  then have "ws \<noteq> [] \<and> [] \<notin> set ws \<and> sorted ws \<and> distinct ws"
    by (auto simp: normalize_crisis_keywords_def Let_def split: json.splits if_splits)
  then show "ws \<noteq> []" "[] \<notin> set ws" "sorted ws" "distinct ws" by auto
qed

text \<open>A policy is in use only when it came whole from the cache or from the one published row.\<close>

definition policy_from :: "safety_env \<Rightarrow> pystr list \<Rightarrow> bool" where
  "policy_from env ws \<longleftrightarrow>
     cache_words env = (ws, None) \<or> (snd (cache_words env) \<noteq> None \<and> read_published env = Inr (ws, ''published''))"

lemma load_available:
  assumes "\<not> kl_suspected (load_crisis_keywords env)"
  shows "policy_from env (kl_keywords (load_crisis_keywords env))"
  using assms
  by (auto simp: load_crisis_keywords_def policy_from_def split: prod.splits option.splits sum.splits if_splits)

lemma load_suspected: "kl_suspected (load_crisis_keywords env) \<longleftrightarrow> \<not> (\<exists>ws. policy_from env ws)"
  by (auto simp: load_crisis_keywords_def policy_from_def split: prod.splits option.splits sum.splits if_splits)

lemma published_words_ok:
  assumes "read_published env = Inr (ws, ''published'')"
  shows "ws \<noteq> []" "[] \<notin> set ws"
proof -
  obtain v where "parse_keywords env v = (ws, None)"
    using assms
    by (auto simp: read_published_def bindR_def split: sum.split_asm list.split_asm prod.split_asm if_split_asm)
  then show "ws \<noteq> []" "[] \<notin> set ws" by (auto dest: parse_keywords_ok)
qed

lemma policy_words_ok:
  assumes "policy_from env ws"
  shows "ws \<noteq> []" "[] \<notin> set ws"
proof -
  have "ws \<noteq> [] \<and> [] \<notin> set ws"
    using assms parse_keywords_ok(1,2)
    by (auto simp: policy_from_def cache_words_def split: sum.splits dest: published_words_ok)
  then show "ws \<noteq> []" "[] \<notin> set ws" by auto
qed

lemma load_words: "policy_from env ws \<Longrightarrow> kl_keywords (load_crisis_keywords env) = ws"
  by (auto simp: load_crisis_keywords_def policy_from_def split: prod.splits option.splits)

text \<open>The complete behaviour of the crisis gate.\<close>

definition policy_status :: "safety_env \<Rightarrow> pystr \<Rightarrow> crisis_status" where
  "policy_status env t =
     (if kl_suspected (load_crisis_keywords env) then Cri_suspected
      else if \<exists>w \<in> set (kl_keywords (load_crisis_keywords env)). contains_word env t w then Cri_matched
      else Cri_passed)"

lemma assess_policy_status: "gd_crisis (assess_crisis env t) = policy_status env t"
proof (cases "kl_suspected (load_crisis_keywords env)")
  case True
  then show ?thesis by (simp add: assess_crisis_def policy_status_def decision_def)
next
  case False
  have ne: "[] \<notin> set (kl_keywords (load_crisis_keywords env))"
    using policy_words_ok(2) [OF load_available [OF False]] .
  show ?thesis
  proof (cases "find (\<lambda>w. contains_word env t w) (kl_keywords (load_crisis_keywords env))")
    case None
    then have "\<forall>w \<in> set (kl_keywords (load_crisis_keywords env)). \<not> contains_word env t w"
      by (auto simp: find_None_iff)
    with None False show ?thesis by (simp add: assess_crisis_def policy_status_def decision_def)
  next
    case (Some w)
    then have "w \<in> set (kl_keywords (load_crisis_keywords env))" "contains_word env t w"
      by (auto dest: find_Some_mem)
    with Some False ne show ?thesis by (auto simp: assess_crisis_def policy_status_def decision_def)
  qed
qed

lemma passed_iff:
  "policy_status env t = Cri_passed \<longleftrightarrow> (\<exists>ws. policy_from env ws \<and> list_all (\<lambda>w. \<not> contains_word env t w) ws)"
proof
  assume a: "policy_status env t = Cri_passed"
  then have "\<not> kl_suspected (load_crisis_keywords env)" by (auto simp: policy_status_def)
  with a load_available show "\<exists>ws. policy_from env ws \<and> list_all (\<lambda>w. \<not> contains_word env t w) ws"
    by (auto simp: policy_status_def list_all_iff split: if_splits)
next
  assume "\<exists>ws. policy_from env ws \<and> list_all (\<lambda>w. \<not> contains_word env t w) ws"
  then obtain ws where ws: "policy_from env ws" "list_all (\<lambda>w. \<not> contains_word env t w) ws" by blast
  then have "\<not> kl_suspected (load_crisis_keywords env)" using load_suspected by blast
  then show "policy_status env t = Cri_passed"
    using ws by (auto simp: policy_status_def load_words list_all_iff)
qed

text \<open>C32: The voice safety gate fails closed. A side's text may be stored exactly when a crisis policy was
  actually loaded (from the cache, or from the single published row when the cache gave none) and no
  keyword of it occurs in the text; the policy in use is never empty and never contains an empty
  keyword. With no policy the decision is \<open>suspected\<close>, without a crisis detector it is \<open>pending\<close>, and
  neither allows text, whatever the banned-word check says; an outage of that check alone
  (\<open>error_allowed\<close>) never blocks. The generated tail is permitted under the same condition.\<close>

theorem safety_gate_fails_closed:
  "(permits_text (safety_assess hc env t) \<longleftrightarrow>
      hc \<and> (\<exists>ws. policy_from env ws \<and> list_all (\<lambda>w. \<not> contains_word env t w) ws)) \<and>
   permits_generated hc env t = permits_text (safety_assess hc env t) \<and>
   (policy_from env ws \<longrightarrow> ws \<noteq> [] \<and> [] \<notin> set ws) \<and>
   ((\<nexists>ws. policy_from env ws) \<and> hc \<longrightarrow> gd_crisis (safety_assess hc env t) = Cri_suspected) \<and>
   (\<not> hc \<longrightarrow> gd_crisis (safety_assess hc env t) = Cri_pending) \<and>
   gd_safety (safety_assess hc env t) \<noteq> Saf_pending"
proof -
  have b: "banned_status env t \<noteq> Saf_pending" by (auto simp: banned_status_def split: sum.splits option.splits)
  have g: "permits_generated hc env t = permits_text (safety_assess hc env t)"
    using b by (auto simp: permits_generated_def permits_text_def safety_assess_def Let_def decision_def)
  have s: "(\<nexists>ws. policy_from env ws) \<longrightarrow> policy_status env t = Cri_suspected"
    using load_suspected [of env] by (auto simp: policy_status_def)
  show ?thesis
    using policy_words_ok [of env ws] b g s
    by (auto simp: permits_generated_def safety_assess_def Let_def decision_def assess_policy_status
        passed_iff [symmetric])
qed

definition outage_env :: safety_env where
  "outage_env = \<lparr>se_lower = id, se_loads = (\<lambda>t. None), se_dumps = (\<lambda>ws. []), se_banned = Inl TimeoutError,
     se_crisis_cache = Inl TimeoutError, se_published = Inl TimeoutError,
     se_cfg = \<lparr>ce_word = (\<lambda>c. False), ce_casefold = id, ce_credentials = [], ce_url = (\<lambda>t. None)\<rparr>\<rparr>"

theorem safety_gate_fails_closed_witness:
  "gd_crisis (safety_assess True outage_env (asc ''hi'')) = Cri_suspected \<and>
   \<not> permits_text (safety_assess True outage_env (asc ''hi''))"
  using safety_gate_fails_closed [of True outage_env "asc ''hi''"]
  by (simp add: policy_from_def cache_words_def read_published_def outage_env_def)

lemma unique_crisis_split:
  assumes "uk_voice_crisis cs" "row_find crisis_key k cs = Some r"
  shows "filter (\<lambda>x. crisis_key x = k) cs = [r]"
proof -
  have d: "distinct (map crisis_key cs)" using assms(1) by (simp add: uk_voice_crisis_def crisis_key_def [abs_def])
  from d assms(2) show ?thesis
  proof (induction cs)
    case (Cons c cs)
    show ?case
    proof (cases "crisis_key c = k")
      case True
      with Cons.prems have "crisis_key ` set cs \<inter> {k} = {}" by auto
      then have "filter (\<lambda>x. crisis_key x = k) cs = []" by (auto simp: filter_empty_conv)
      with True Cons.prems show ?thesis by (simp add: row_find_def)
    next
      case False
      with Cons show ?thesis by (simp add: row_find_def)
    qed
  qed (simp add: row_find_def)
qed

lemma filter_row_put:
  assumes "crisis_key r = k"
  shows "filter (\<lambda>x. crisis_key x = k) (row_put crisis_key r cs) = map (\<lambda>_. r) (filter (\<lambda>x. crisis_key x = k) cs)"
    "filter (\<lambda>x. crisis_key x \<noteq> k) (row_put crisis_key r cs) = filter (\<lambda>x. crisis_key x \<noteq> k) cs"
  using assms by (induction cs) (auto simp: row_put_def)

lemma crisis_hit_ok:
  "dims_registered ''voice.crisis.hit'' [(''direction'', dir_str d), (''result'', ''matched'')]"
  "dims_registered ''voice.crisis.hit'' [(''direction'', dir_str d), (''result'', ''suspected'')]"
  by (cases d; simp; rule reg_safety; code_simp)+

text \<open>What the administration page calls healthy is what calls use: the loaded policy is the published one.\<close>

lemma healthy_policy:
  assumes "ph_cache_status (inspect_policy env) = ''healthy''"
  shows "\<not> kl_suspected (load_crisis_keywords env) \<and>
    kl_keywords (load_crisis_keywords env) = ph_words (inspect_policy env) \<and>
    read_published env = Inr (ph_words (inspect_policy env), ''published'')"
  using assms
  by (auto simp: inspect_policy_def load_crisis_keywords_def cache_words_def Let_def
      split: prod.split_asm sum.split_asm option.split_asm if_split_asm)

text \<open>Isolating a side leaves exactly one crisis record for it and touches no other record. A first
  isolation records the text, the status and the keyword, marks an assistant side as a persona
  incident, keeps the text for thirty days and stages exactly one hit event that the counters accept. A
  later isolation of the same side never adds a record, an event or retention time: it replaces the
  text only while the record lives, and only by the final effective text or by one that extends the
  recorded text.\<close>

theorem crisis_isolation_exact:
  assumes "uk_voice_crisis (db_crises db)" "gd_crisis g = Cri_matched \<or> gd_crisis g = Cri_suspected"
  shows "uk_voice_crisis (db_crises (crisis_isolate now db cid i d t g)) \<and>
    filter (\<lambda>x. crisis_key x \<noteq> (cid, i, dir_str d)) (db_crises (crisis_isolate now db cid i d t g)) =
      filter (\<lambda>x. crisis_key x \<noteq> (cid, i, dir_str d)) (db_crises db) \<and>
    (\<exists>r. filter (\<lambda>x. crisis_key x = (cid, i, dir_str d)) (db_crises (crisis_isolate now db cid i d t g)) = [r] \<and>
      (case row_find crisis_key (cid, i, dir_str d) (db_crises db) of
         None \<Rightarrow> cr_content_plaintext r = Some t \<and> cr_matched_keyword r = gd_keyword g \<and>
           cr_match_status r = crisis_status_str (gd_crisis g) \<and> (cr_is_persona_incident r \<longleftrightarrow> d = Assistant_side) \<and>
           cr_expires_at r = now + crisis_days \<and> cr_cleared_at r = None \<and>
           (\<exists>x. event_ok x \<and> db_staged (crisis_isolate now db cid i d t g) = db_staged db @ [x])
       | Some r0 \<Rightarrow> db_staged (crisis_isolate now db cid i d t g) = db_staged db \<and>
           r\<lparr>cr_content_plaintext := cr_content_plaintext r0\<rparr> = r0 \<and>
           (cr_content_plaintext r = cr_content_plaintext r0 \<or>
            cr_content_plaintext r = Some t \<and> cr_cleared_at r0 = None \<and> now < cr_expires_at r0 \<and>
            (gd_effective_final g \<or> (\<exists>u. t = (case cr_content_plaintext r0 of None \<Rightarrow> [] | Some s \<Rightarrow> s) @ u)))))"
proof -
  define k where "k = (cid, i, dir_str d)"
  have u: "uk_voice_crisis (db_crises (crisis_isolate now db cid i d t g))"
    using voice_safety.isolate_unique [of now True undefined db cid i d t g] assms(1) by (simp add: safety_gate_def)
  have ext: "starts_with t s \<Longrightarrow> \<exists>u. t = s @ u" for s
    unfolding starts_with_def by (metis append_take_drop_id)
  show ?thesis
  proof (cases "row_find crisis_key k (db_crises db)")
    case None
    then have n: "filter (\<lambda>x. crisis_key x = k) (db_crises db) = []"
      by (simp add: row_find_None_key filter_empty_conv image_iff) metis
    have e: "event_ok (ev ''voice.crisis.hit'' [(''direction'', dir_str d), (''result'', crisis_status_str (gd_crisis g))] 1)"
      using assms(2) by (auto simp: ev_def event_ok_dims crisis_hit_ok)
    have kn: "crisis_key (new_crisis now db cid i d t g) = k" by (simp add: new_crisis_def crisis_key_def k_def)
    have eq: "crisis_isolate now db cid i d t g =
        stage [ev ''voice.crisis.hit'' [(''direction'', dir_str d), (''result'', crisis_status_str (gd_crisis g))] 1]
          (db\<lparr>db_crises := db_crises db @ [new_crisis now db cid i d t g]\<rparr>)"
      using None by (simp add: crisis_isolate_def k_def)
    show ?thesis
      using u n e kn None unfolding eq k_def [symmetric]
      by (simp add: stage_def) (simp add: new_crisis_def ev_def)
  next
    case (Some r0)
    have kr: "crisis_key (extend_crisis now t g r0) = k" using row_find_key [OF Some] by simp
    have eq: "crisis_isolate now db cid i d t g =
        db\<lparr>db_crises := row_put crisis_key (extend_crisis now t g r0) (db_crises db)\<rparr>"
      using Some by (simp add: crisis_isolate_def k_def)
    show ?thesis
      using u unfolding eq k_def [symmetric]
      by (simp add: filter_row_put [OF kr] unique_crisis_split [OF assms(1) Some] Some)
        (auto simp: extend_crisis_def dest: ext)
  qed
qed

definition demo_hit :: gate_decision where
  "demo_hit = (decision Saf_passed Cri_matched)\<lparr>gd_keyword := Some (asc ''w'')\<rparr>"

theorem crisis_isolation_exact_witness:
  "\<exists>r. filter (\<lambda>x. crisis_key x = (''c1'', 1, dir_str User_side))
     (db_crises (crisis_isolate 5 empty_db ''c1'' 1 User_side (asc ''a w'') demo_hit)) = [r] \<and>
     cr_content_plaintext r = Some (asc ''a w'')"
  using crisis_isolation_exact [of empty_db demo_hit 5 "''c1''" 1 User_side "asc ''a w''"]
  by (auto simp: empty_db_def uk_voice_crisis_def demo_hit_def decision_def row_find_def)

text \<open>Crisis text expires. After the clearing step every record whose retention has ended holds neither
  text nor keyword, every other record is untouched, the count is the number of records it cleared, a
  second run at the same instant clears nothing, and no later isolation brings text back into a cleared
  record.\<close>

theorem crisis_text_expires:
  "(\<forall>r \<in> set (db_crises (snd (clear_expired_crisis now db))).
      cr_expires_at r \<le> now \<longrightarrow> cr_cleared_at r \<noteq> None \<and>
        (r \<in> set (db_crises db) \<or> cr_content_plaintext r = None \<and> cr_matched_keyword r = None)) \<and>
   list_all2 (\<lambda>r r'. r' = r \<or> cr_expires_at r \<le> now \<and> cr_cleared_at r = None \<and>
        r' = r\<lparr>cr_content_plaintext := None, cr_matched_keyword := None, cr_cleared_at := Some now\<rparr>)
     (db_crises db) (db_crises (snd (clear_expired_crisis now db))) \<and>
   fst (clear_expired_crisis now (snd (clear_expired_crisis now db))) = 0 \<and>
   (\<forall>r. cr_cleared_at r \<noteq> None \<longrightarrow> extend_crisis now t g r = r)"
  by (auto simp: clear_expired_crisis_def Let_def extend_crisis_def list_all2_conv_all_nth filter_empty_conv)

theorem crisis_text_expires_witness:
  "map cr_content_plaintext (db_crises (snd (clear_expired_crisis 9000000000000
      (crisis_isolate 5 empty_db ''c1'' 1 User_side (asc ''a w'') demo_hit)))) = [None]"
proof -
  let ?db = "crisis_isolate 5 empty_db ''c1'' 1 User_side (asc ''a w'') demo_hit"
  have "db_crises ?db = [new_crisis 5 empty_db ''c1'' 1 User_side (asc ''a w'') demo_hit]"
    by (simp add: crisis_isolate_def empty_db_def row_find_def stage_def)
  then show ?thesis
    using crisis_text_expires [of 9000000000000 ?db "asc ''w''" demo_hit]
    by (simp add: list_all2_Cons1 new_crisis_def crisis_days_def us_day_def
        clear_expired_crisis_def Let_def)
qed

end
