(* ===== verification/MemoryJob.thy ===== *)
theory MemoryJob
  imports MemoryText CallState Safety
begin

text \<open>
  The durable memory jobs of a call (\<open>realtime_voice_memory_service.py\<close>,
  \<open>realtime_voice_job_service.py\<close>): staging with the closing of a turn, compensation, the deletion
  fence, the claim of the next job, the snapshot, the write of one item, the finish, the purge of
  expired snapshots and the administrative retry.

  Each transaction of the code is one function on the database, with the instant at which it reads
  the clock as its first argument. The row locks that a statement does not wait for (\<open>nowait\<close>,
  \<open>skip_locked\<close>) are a boolean argument: whether another session holds the row.
\<close>

section \<open>Outcome events\<close>

definition job_reason :: "string option \<Rightarrow> memory_job \<Rightarrow> string" where
  "job_reason reason j =
     (let r = (case reason of Some r \<Rightarrow> r | None \<Rightarrow> (case mj_fail_reason j of Some r \<Rightarrow> r | None \<Rightarrow> ''other'')) in
      if r \<in> set memory_job_reasons then r else ''other'')"

definition outcome_events :: "memory_job \<Rightarrow> string option \<Rightarrow> event list" where
  "outcome_events j reason =
     (let r = job_reason reason j in
      [ev ''voice.memory_job.result'' [(''result'', memory_status_str (mj_status j))] 1]
      @ (if mj_status j = Mem_failed \<and> mj_next_retry_at j \<noteq> None
         then [ev ''voice.memory_job.retry'' [(''source'', ''automatic''), (''reason'', r)] 1]
         else if mj_status j \<noteq> Mem_success then [ev ''voice.memory_job.drop'' [(''reason'', r)] 1] else [])
      @ (if mj_status j = Mem_cancelled \<and> r = ''deletion_fence'' then [ev ''voice.memory_job.fence_cancel'' [] 1] else []))"

text \<open>A job and its turn written in one transaction, with the outcome staged.\<close>

definition put_outcome :: "memory_job \<Rightarrow> turn_row \<Rightarrow> string option \<Rightarrow> database \<Rightarrow> database" where
  "put_outcome j t reason db = stage (outcome_events j reason) (put_turn t (put_memory_job j db))"

section \<open>Staging\<close>

definition find_job :: "int \<Rightarrow> database \<Rightarrow> memory_job option" where
  "find_job tid db = find (\<lambda>j. mj_turn_id j = tid \<and> mj_pipeline_version j = pipeline_version) (db_memory_jobs db)"

definition initial_status :: "voice_call \<Rightarrow> turn_row \<Rightarrow> memory_status" where
  "initial_status c t =
     (if vc_deletion_fence_at c \<noteq> None then Mem_cancelled else if eligible_turn t then Mem_pending else Mem_skipped)"

definition new_job :: "datetime \<Rightarrow> voice_call \<Rightarrow> turn_row \<Rightarrow> database \<Rightarrow> memory_job" where
  "new_job now c t db = \<lparr>mj_id = fresh_id (map mj_id (db_memory_jobs db)), mj_call_id = vc_call_id c,
     mj_turn_id = tn_id t, mj_turn_index = tn_turn_index t, mj_pipeline_version = pipeline_version,
     mj_status = initial_status c t, mj_attempt_count = 0, mj_next_retry_at = None,
     mj_extraction_snapshot = None, mj_fail_reason = None, mj_lease_owner = None,
     mj_lease_expires_at = None, mj_created_at = now\<rparr>"

definition enqueue_events :: "memory_status \<Rightarrow> turn_row \<Rightarrow> event list" where
  "enqueue_events st t =
     [ev ''voice.memory_job.enqueue'' [(''result'', memory_status_str st)] 1,
      ev ''voice.memory_extract.enqueue'' [(''result'', memory_status_str st)] 1,
      ev ''voice.memory_extract.eligible'' [(''result'', if st = Mem_pending then ''eligible'' else ''skipped'')] 1]
     @ (if st \<noteq> Mem_pending
        then [ev ''voice.memory_extract.skip''
               [(''reason'', if st = Mem_cancelled then ''deletion_fence'' else memory_skip_reason t)] 1]
        else [])"

definition stage_job :: "datetime \<Rightarrow> bool \<Rightarrow> voice_call \<Rightarrow> turn_row \<Rightarrow> database \<Rightarrow> memory_status \<times> database" where
  "stage_job now locked c t db =
     (case find_job (tn_id t) db of
        Some j \<Rightarrow> (if locked then Mem_processing else mj_status j, db)
      | None \<Rightarrow>
          let st = initial_status c t;
              t' = t\<lparr>tn_memory_status := st\<rparr> in
          (st, stage (enqueue_events st t')
             ((put_turn t' db)\<lparr>db_memory_jobs := db_memory_jobs db @ [new_job now c t db]\<rparr>)))"

definition enqueue :: "datetime \<Rightarrow> bool \<Rightarrow> string \<Rightarrow> int \<Rightarrow> database \<Rightarrow> string \<times> database" where
  "enqueue now locked cid tid db =
     (case get_call cid db of
        None \<Rightarrow> (''missing'', db)
      | Some c \<Rightarrow>
          (case get_turn tid db of
             None \<Rightarrow> (''not_closed'', db)
           | Some t \<Rightarrow>
               if tn_call_id t \<noteq> cid \<or> tn_status t \<notin> {Finalized, Interrupted} then (''not_closed'', db)
               else (case stage_job now locked c t db of (st, db') \<Rightarrow> (memory_status_str st, commit_flush db'))))"

section \<open>Compensation\<close>

record comp_snapshot =
  cs_created :: "(int \<times> string) list"
  cs_turn_keys :: "(string \<times> int) list"
  cs_job_keys :: "(int \<times> string) list"
  cs_trace_keys :: "(string \<times> int \<times> string \<times> string) list"

datatype comp_result = Comp_stopped string | Comp_done comp_snapshot

definition closed_turns :: "string \<Rightarrow> database \<Rightarrow> turn_row list" where
  "closed_turns cid db =
     sort_key tn_turn_index (filter (\<lambda>t. tn_call_id t = cid \<and> tn_status t \<in> {Finalized, Interrupted}) (db_turns db))"

definition job_key :: "memory_job \<Rightarrow> int \<times> string" where
  "job_key j = (mj_turn_id j, mj_pipeline_version j)"

definition call_jobs :: "string \<Rightarrow> database \<Rightarrow> memory_job list" where
  "call_jobs cid db =
     sort_key mj_id (filter (\<lambda>j. mj_call_id j = cid \<and> mj_pipeline_version j = pipeline_version) (db_memory_jobs db))"

definition repair_turn ::
  "datetime \<Rightarrow> voice_call \<Rightarrow> (int \<times> string) list \<Rightarrow> turn_row \<Rightarrow> (int \<times> string) list \<times> database \<Rightarrow> (int \<times> string) list \<times> database" where
  "repair_turn now c existing t acc =
     (if (tn_id t, pipeline_version) \<in> set existing then acc
      else (fst acc @ [(tn_id t, pipeline_version)], snd (stage_job now False c t (snd acc))))"

definition find_compensation :: "string \<Rightarrow> database \<Rightarrow> postprocess_job option" where
  "find_compensation cid db = find (\<lambda>p. pj_call_id p = cid \<and> pj_job_type p = ''memory_compensation'') (db_post_jobs db)"

definition record_compensation :: "datetime \<Rightarrow> string \<Rightarrow> database \<Rightarrow> database" where
  "record_compensation now cid db =
     (case find_compensation cid db of
        None \<Rightarrow> db\<lparr>db_post_jobs := db_post_jobs db @ [\<lparr>pj_id = fresh_id (map pj_id (db_post_jobs db)), pj_call_id = cid,
            pj_job_type = ''memory_compensation'', pj_status = Post_success, pj_attempt_count = 1,
            pj_next_retry_at = None, pj_fail_reason = None, pj_lease_owner = None, pj_lease_expires_at = None,
            pj_created_at = now\<rparr>]\<rparr>
      | Some p \<Rightarrow> db\<lparr>db_post_jobs := row_put pj_id (p\<lparr>pj_status := Post_success,
            pj_attempt_count := pj_attempt_count p + 1\<rparr>) (db_post_jobs db)\<rparr>)"

definition compensate :: "datetime \<Rightarrow> string \<Rightarrow> bool \<Rightarrow> database \<Rightarrow> comp_result \<times> database" where
  "compensate now cid audited db =
     (case get_call cid db of
        None \<Rightarrow> (Comp_stopped ''missing'', db)
      | Some c \<Rightarrow>
          if vc_deletion_fence_at c \<noteq> None then (Comp_stopped ''cancelled'', db)
          else if vc_status c \<notin> set TERMINAL then (Comp_stopped ''not_ended'', db)
          else
            let jobs = call_jobs cid db; turns = closed_turns cid db;
                existing = map job_key jobs;
                acc = fold (repair_turn now c existing) turns ([], db);
                created = fst acc;
                db1 = (if audited \<and> (find_compensation cid db = None \<or> created \<noteq> [])
                       then record_compensation now cid (snd acc) else snd acc);
                db2 = stage [ev ''voice.memory_job.compensate'' [(''result'', if created \<noteq> [] then ''repaired'' else ''no_change'')] 1,
                             ev ''voice.memory_job.compensated_jobs'' [] (int (length created))] db1 in
            (Comp_done \<lparr>cs_created = created, cs_turn_keys = map (\<lambda>t. (cid, tn_turn_index t)) turns,
               cs_job_keys = sort_key fst (existing @ created),
               cs_trace_keys = map (\<lambda>r. (cid, mt_turn_index r, mt_doc_id r, mt_pipeline_version r))
                 (sort_key mt_turn_index (filter (\<lambda>r. mt_call_id r = cid \<and> mt_pipeline_version r = pipeline_version) (db_traces db)))\<rparr>,
             commit_flush db2))"

section \<open>The deletion fence\<close>

definition open_status :: "memory_status \<Rightarrow> bool" where
  "open_status st \<longleftrightarrow> st \<in> {Mem_pending, Mem_processing, Mem_failed}"

definition cancel_job :: "string \<Rightarrow> memory_job \<Rightarrow> memory_job" where
  "cancel_job reason j = j\<lparr>mj_status := Mem_cancelled, mj_fail_reason := Some reason, mj_lease_owner := None,
     mj_lease_expires_at := None, mj_next_retry_at := None, mj_extraction_snapshot := None\<rparr>"

definition fence_job :: "memory_job \<Rightarrow> database \<Rightarrow> database" where
  "fence_job j db =
     (if \<not> open_status (mj_status j) then db
      else
        let j' = cancel_job ''deletion_fence'' j;
            db1 = put_memory_job j' db;
            db2 = (case get_turn (mj_turn_id j) db of
                     Some t \<Rightarrow> if tn_memory_status t \<noteq> Mem_success
                               then put_turn (t\<lparr>tn_memory_status := Mem_cancelled\<rparr>) db1 else db1
                   | None \<Rightarrow> db1) in
        stage (outcome_events j' None) db2)"

definition stage_deletion_fence :: "datetime \<Rightarrow> string \<Rightarrow> database \<Rightarrow> int \<times> database" where
  "stage_deletion_fence now cid db =
     (case get_call cid db of
        None \<Rightarrow> (0, db)
      | Some c \<Rightarrow>
          let jobs = sort_key mj_id (filter (\<lambda>j. mj_call_id j = cid) (db_memory_jobs db));
              db0 = (if vc_deletion_fence_at c = None then put_call (c\<lparr>vc_deletion_fence_at := Some now\<rparr>) db else db) in
          (int (length (filter (\<lambda>j. open_status (mj_status j)) jobs)), fold fence_job jobs db0))"

section \<open>Claiming\<close>

definition source_expiry :: "voice_call \<Rightarrow> turn_row \<Rightarrow> datetime option" where
  "source_expiry c t = (case vc_transcript_expires_at c of Some e \<Rightarrow> Some e | None \<Rightarrow> tn_effective_text_expires_at t)"

definition source_live :: "datetime \<Rightarrow> voice_call \<Rightarrow> turn_row \<Rightarrow> bool" where
  "source_live now c t = (case source_expiry c t of None \<Rightarrow> False | Some e \<Rightarrow> now < e)"

definition memory_script :: "voice_call \<Rightarrow> json res" where
  "memory_script c =
     (let m = jget (jget (vc_config_snapshot c) ''resolved_script'') ''memory'' in
      if is_obj m then Inr m else Inl (RuntimeError ''memory_script''))"

definition lease_us :: int where
  "lease_us = 210 * us_second"

definition lease_live :: "datetime \<Rightarrow> memory_job \<Rightarrow> bool" where
  "lease_live now j = (case mj_lease_expires_at j of None \<Rightarrow> False | Some e \<Rightarrow> now < e)"

text \<open>The next open job of the call, in the order of the turns.\<close>

definition claimable :: "memory_job \<Rightarrow> bool" where
  "claimable j \<longleftrightarrow> mj_status j \<in> {Mem_pending, Mem_processing} \<or> (mj_status j = Mem_failed \<and> mj_next_retry_at j \<noteq> None)"

definition next_job :: "string \<Rightarrow> database \<Rightarrow> memory_job option" where
  "next_job cid db =
     (case sort_key mj_turn_index (filter (\<lambda>j. mj_call_id j = cid \<and> mj_pipeline_version j = pipeline_version \<and> claimable j)
        (db_memory_jobs db)) of [] \<Rightarrow> None | j # js \<Rightarrow> Some j)"

definition extracting_snapshot :: json where
  "extracting_snapshot = JObj [(''version'', JInt 1), (''phase'', JStr (asc ''extracting''))]"

record claimed =
  cl_job :: int
  cl_user :: int
  cl_turn :: turn_row
  cl_snapshot :: json
  cl_previous :: pystr
  cl_script :: json
  cl_relation :: json

datatype claim = Idle | Busy | Settled memory_status | Claimed claimed

definition previous_turn :: "string \<Rightarrow> int \<Rightarrow> database \<Rightarrow> turn_row option" where
  "previous_turn cid i db =
     (case rev (sort_key tn_turn_index (filter (\<lambda>t. tn_call_id t = cid \<and> tn_turn_index t < i \<and>
         tn_status t \<in> {Finalized, Interrupted}) (db_turns db))) of [] \<Rightarrow> None | t # ts \<Rightarrow> Some t)"

definition previous_summary :: "string \<Rightarrow> int \<Rightarrow> database \<Rightarrow> pystr" where
  "previous_summary cid i db =
     (case previous_turn cid i db of
        None \<Rightarrow> []
      | Some t \<Rightarrow> if eligible_turn t then take 2000 (opt_text (tn_user_text_final t)) else [])"

definition relation_context :: "int \<Rightarrow> database \<Rightarrow> json" where
  "relation_context u db =
     (case get_relationship u db of
        None \<Rightarrow> JObj []
      | Some r \<Rightarrow> JObj [(''level'', JInt (rl_level r)), (''description'', JStr (opt_text (rl_relation_description r)))])"

definition ms_between :: "datetime \<Rightarrow> datetime \<Rightarrow> int" where
  "ms_between a b = (b - a) div 1000"

definition claim_events :: "datetime \<Rightarrow> memory_job \<Rightarrow> event list" where
  "claim_events now j =
     (let phase = (if mj_attempt_count j = 1 then ''first'' else ''retry'');
          queue = max 0 (ms_between (mj_created_at j) now) in
      [ev ''voice.memory_job.claim'' [(''phase'', phase)] 1,
       ev ''voice.memory_job.enqueue_to_claim_ms'' [(''phase'', phase),
         (''capped'', if queue > 1000000000 then ''true'' else ''false'')] (min queue 1000000000)])"

definition start_job :: "datetime \<Rightarrow> string \<Rightarrow> memory_job \<Rightarrow> memory_job" where
  "start_job now token j = j\<lparr>mj_status := Mem_processing, mj_next_retry_at := None, mj_lease_owner := Some token,
     mj_lease_expires_at := Some (now + lease_us), mj_attempt_count := mj_attempt_count j + 1,
     mj_extraction_snapshot := Some (case mj_extraction_snapshot j of None \<Rightarrow> extracting_snapshot | Some s \<Rightarrow> s)\<rparr>"

definition expired_job :: "datetime \<Rightarrow> int \<Rightarrow> int list \<Rightarrow> memory_job \<Rightarrow> memory_job" where
  "expired_job now retries delays j = j\<lparr>mj_status := Mem_failed, mj_fail_reason := Some ''lease_expired'',
     mj_lease_owner := None, mj_lease_expires_at := None,
     mj_next_retry_at := (if 1 \<le> mj_attempt_count j \<and> mj_attempt_count j \<le> retries
        then Some (now + 1000 * delays ! nat (mj_attempt_count j - 1)) else None)\<rparr>"

text \<open>The transaction at the head of \<open>process_next\<close>: what happens to the row that was selected.\<close>

definition claim_row :: "datetime \<Rightarrow> string \<Rightarrow> voice_call \<Rightarrow> memory_job \<Rightarrow> turn_row \<Rightarrow> database \<Rightarrow> (claim \<times> database) res" where
  "claim_row now token c j t db =
     (if vc_deletion_fence_at c \<noteq> None then
        Inr (Settled Mem_cancelled, put_outcome
          (j\<lparr>mj_status := Mem_cancelled, mj_extraction_snapshot := None, mj_next_retry_at := None,
             mj_lease_owner := None, mj_lease_expires_at := None\<rparr>)
          (t\<lparr>tn_memory_status := Mem_cancelled\<rparr>) (Some ''deletion_fence'') db)
      else
        let expired = (mj_status j = Mem_processing \<and> \<not> lease_live now j) in
        bindR (memory_script c) (\<lambda>script. bindR (retry_policy script) (\<lambda>(retries, delays).
          if (expired \<or> mj_status j = Mem_failed) \<and> mj_extraction_snapshot j = None then
            Inr (Settled Mem_failed, put_outcome
              (j\<lparr>mj_status := Mem_failed, mj_fail_reason := Some ''recovery_snapshot_required'',
                 mj_lease_owner := None, mj_lease_expires_at := None, mj_next_retry_at := None\<rparr>)
              (t\<lparr>tn_memory_status := Mem_failed\<rparr>) None db)
          else if expired then
            Inr (Settled Mem_failed, put_outcome (expired_job now retries delays j)
              (t\<lparr>tn_memory_status := Mem_failed\<rparr>) None db)
          else if mj_status j \<noteq> Mem_pending \<and>
              \<not> (mj_status j = Mem_failed \<and> (case mj_next_retry_at j of None \<Rightarrow> False | Some r \<Rightarrow> r \<le> now)) then
            Inr (Busy, db)
          else if \<not> source_live now c t then
            Inr (Settled Mem_cancelled, put_outcome
              (j\<lparr>mj_status := Mem_cancelled, mj_fail_reason := Some ''source_expired'',
                 mj_extraction_snapshot := None, mj_next_retry_at := None\<rparr>)
              (t\<lparr>tn_memory_status := Mem_cancelled\<rparr>) (Some ''source_expired'') db)
          else if \<not> eligible_turn t then
            Inr (Settled Mem_skipped, put_outcome
              (j\<lparr>mj_status := Mem_skipped, mj_extraction_snapshot := None\<rparr>)
              (t\<lparr>tn_memory_status := Mem_skipped\<rparr>) (Some ''ineligible'')
              (stage [ev ''voice.memory_extract.skip'' [(''reason'', memory_skip_reason t)] 1] db))
          else
            let j' = start_job now token j; t' = t\<lparr>tn_memory_status := Mem_processing\<rparr> in
            Inr (Claimed \<lparr>cl_job = mj_id j, cl_user = vc_user_id c, cl_turn = t',
                   cl_snapshot = (case mj_extraction_snapshot j of None \<Rightarrow> extracting_snapshot | Some s \<Rightarrow> s),
                   cl_previous = previous_summary (vc_call_id c) (tn_turn_index t) db, cl_script = script,
                   cl_relation = relation_context (vc_user_id c) db\<rparr>,
                 stage (claim_events now j') (put_turn t' (put_memory_job j' db))))))"

definition claim_next :: "datetime \<Rightarrow> bool \<Rightarrow> string \<Rightarrow> string \<Rightarrow> database \<Rightarrow> (claim \<times> database) res" where
  "claim_next now locked token cid db =
     (case get_call cid db of
        None \<Rightarrow> Inr (Idle, db)
      | Some c \<Rightarrow>
          (case next_job cid db of
             None \<Rightarrow> Inr (Idle, db)
           | Some j \<Rightarrow>
               if locked then Inr (Busy, db)
               else (case get_turn (mj_turn_id j) db of
                   None \<Rightarrow> Inl (RuntimeError ''turn_missing'')
                 | Some t \<Rightarrow> bindR (claim_row now token c j t db) (\<lambda>(r, db').
                     Inr (r, if r = Busy then db' else commit_flush db')))))"

section \<open>The transactions of a claimed job\<close>

definition holds_lease :: "datetime \<Rightarrow> string \<Rightarrow> memory_job \<Rightarrow> bool" where
  "holds_lease now token j \<longleftrightarrow> mj_status j = Mem_processing \<and> mj_lease_owner j = Some token \<and> lease_live now j"

definition atom_json :: "atom \<Rightarrow> json" where
  "atom_json a = JObj [(''memory_type'', JStr (asc (memory_type_str (at_type a)))), (''stable_key'', JStr (at_key a)),
     (''content'', JStr (at_content a))]"

definition ready_snapshot :: "atom list \<Rightarrow> nat \<Rightarrow> json" where
  "ready_snapshot items dropped = JObj [(''version'', JInt 1), (''phase'', JStr (asc ''ready'')),
     (''items'', JList (map atom_json items)), (''dropped'', JInt (int dropped))]"

text \<open>Equality with \<open>{'version': 1, 'phase': 'extracting'}\<close> as Python decides it.\<close>

definition is_extracting :: "json \<Rightarrow> bool" where
  "is_extracting s \<longleftrightarrow> is_obj s \<and> set (jkeys s) = {''version'', ''phase''} \<and>
     py_eq_int (jget s ''version'') 1 \<and> jget s ''phase'' = JStr (asc ''extracting'')"

definition save_snapshot ::
  "datetime \<Rightarrow> string \<Rightarrow> int \<Rightarrow> string \<Rightarrow> atom list \<Rightarrow> nat \<Rightarrow> database \<Rightarrow> (bool \<times> database) res" where
  "save_snapshot now cid jid token items dropped db =
     (case (get_call cid db, get_memory_job jid db) of
        (Some c, Some j) \<Rightarrow>
          (case get_turn (mj_turn_id j) db of
             None \<Rightarrow> Inl (RuntimeError ''turn_missing'')
           | Some t \<Rightarrow>
               if vc_deletion_fence_at c \<noteq> None \<or> \<not> source_live now c t \<or> \<not> holds_lease now token j then Inr (False, db)
               else (case mj_extraction_snapshot j of
                   None \<Rightarrow> Inr (False, db)
                 | Some s \<Rightarrow>
                     if \<not> is_extracting s then Inr (False, db)
                     else Inr (True, commit_flush (put_memory_job
                       (j\<lparr>mj_extraction_snapshot := Some (ready_snapshot items dropped)\<rparr>) db))))
      | _ \<Rightarrow> Inl (RuntimeError ''row_missing''))"

datatype write_result = Write_cancelled | Superseded | Existing | Written

definition newer_trace :: "voice_call \<Rightarrow> int \<Rightarrow> int \<Rightarrow> string \<Rightarrow> database \<Rightarrow> bool" where
  "newer_trace c u idx doc db \<longleftrightarrow>
     list_ex (\<lambda>r. mt_doc_id r = doc \<and>
       (case get_call (mt_call_id r) db of
          None \<Rightarrow> False
        | Some d \<Rightarrow> vc_user_id d = u \<and> (vc_id d > vc_id c \<or> (vc_id d = vc_id c \<and> mt_turn_index r > idx)))) (db_traces db)"

definition same_trace :: "string \<Rightarrow> int \<Rightarrow> string \<Rightarrow> database \<Rightarrow> bool" where
  "same_trace cid idx doc db \<longleftrightarrow>
     list_ex (\<lambda>r. mt_call_id r = cid \<and> mt_turn_index r = idx \<and> mt_doc_id r = doc \<and>
       mt_pipeline_version r = pipeline_version) (db_traces db)"

definition new_trace :: "datetime \<Rightarrow> string \<Rightarrow> int \<Rightarrow> string \<Rightarrow> atom \<Rightarrow> memory_trace" where
  "new_trace now cid idx doc a = \<lparr>mt_call_id = cid, mt_turn_index = idx, mt_doc_id = doc,
     mt_memory_type = memory_type_str (at_type a), mt_stable_key = at_key a,
     mt_pipeline_version = pipeline_version, mt_written_at = now\<rparr>"

text \<open>\<open>actual\<close> is what the vector writer returns for the item, \<open>busy\<close> whether another session holds the
  lock of the document.\<close>

definition write_atom ::
  "mem_text \<Rightarrow> datetime \<Rightarrow> bool \<Rightarrow> string res \<Rightarrow> string \<Rightarrow> int \<Rightarrow> string \<Rightarrow> int \<Rightarrow> int \<Rightarrow> atom \<Rightarrow> database
     \<Rightarrow> (write_result \<times> database) res" where
  "write_atom x now busy actual cid jid token u idx a db =
     (let doc = build_doc_id x (at_type a) (at_key a) u in
      if busy then Inl (RuntimeError ''voice_memory_doc_busy'')
      else (case (get_memory_job jid db, get_call cid db) of
          (Some j, Some c) \<Rightarrow>
            (case get_turn (mj_turn_id j) db of
               None \<Rightarrow> Inl (RuntimeError ''turn_missing'')
             | Some t \<Rightarrow>
                 if vc_deletion_fence_at c \<noteq> None \<or> \<not> holds_lease now token j then
                   Inr (Write_cancelled,
                     if vc_deletion_fence_at c \<noteq> None \<and> open_status (mj_status j)
                     then commit_flush (put_outcome (j\<lparr>mj_status := Mem_cancelled, mj_extraction_snapshot := None\<rparr>)
                       (t\<lparr>tn_memory_status := Mem_cancelled\<rparr>) (Some ''deletion_fence'') db)
                     else db)
                 else if \<not> source_live now c t then
                   Inr (Write_cancelled, commit_flush (put_outcome (cancel_job ''source_expired'' j)
                     (t\<lparr>tn_memory_status := Mem_cancelled\<rparr>) None db))
                 else if newer_trace c u idx doc db then Inr (Superseded, db)
                 else if same_trace cid idx doc db then Inr (Existing, db)
                 else bindR actual (\<lambda>d.
                   if d \<noteq> doc then Inl (RuntimeError ''voice_memory_doc_identity_mismatch'')
                   else Inr (Written, commit_flush (db\<lparr>db_traces := db_traces db @ [new_trace now cid idx doc a]\<rparr>))))
        | _ \<Rightarrow> Inl (RuntimeError ''row_missing'')))"

definition skip_dim :: "string option \<Rightarrow> string" where
  "skip_dim reason =
     (if reason = Some ''safety_filtered'' then ''safety''
      else if reason = Some ''invalid_output'' then ''invalid_output''
      else if reason = Some ''dropped_items'' then ''all_items_dropped'' else ''no_items'')"

text \<open>The row \<open>_finish\<close> leaves.\<close>

definition finished_job :: "datetime \<Rightarrow> memory_status \<Rightarrow> string option \<Rightarrow> datetime option \<Rightarrow> memory_job \<Rightarrow> memory_job" where
  "finished_job now st reason retry_at j = j\<lparr>mj_status := st, mj_fail_reason := reason, mj_next_retry_at := retry_at,
     mj_extraction_snapshot := (if st \<in> {Mem_success, Mem_skipped, Mem_cancelled} then None else mj_extraction_snapshot j),
     mj_lease_owner := None, mj_lease_expires_at := None\<rparr>"

definition retry_at :: "datetime \<Rightarrow> memory_status \<Rightarrow> string option \<Rightarrow> voice_call \<Rightarrow> memory_job \<Rightarrow> datetime option res" where
  "retry_at now st reason c j =
     (if st = Mem_failed \<and> reason \<in> {Some ''extract_unavailable'', Some ''write_unavailable''}
      then bindR (memory_script c) (\<lambda>script. bindR (retry_policy script) (\<lambda>(retries, delays).
        Inr (if mj_attempt_count j \<le> retries then Some (now + 1000 * delays ! nat (mj_attempt_count j - 1)) else None)))
      else Inr None)"

definition finish_job ::
  "datetime \<Rightarrow> string \<Rightarrow> int \<Rightarrow> string \<Rightarrow> memory_status \<Rightarrow> string option \<Rightarrow> database \<Rightarrow> (memory_status \<times> database) res" where
  "finish_job now cid jid token status reason db =
     (case (get_call cid db, get_memory_job jid db) of
        (Some c, Some j) \<Rightarrow>
          if \<not> holds_lease now token j then Inr (mj_status j, db)
          else
            let fenced = vc_deletion_fence_at c \<noteq> None;
                st = (if fenced then Mem_cancelled else status);
                rs = (if fenced then Some ''deletion_fence'' else reason) in
            bindR (retry_at now st rs c j) (\<lambda>ra.
              (case get_turn (mj_turn_id j) db of
                 None \<Rightarrow> Inl (RuntimeError ''turn_missing'')
               | Some t \<Rightarrow>
                   Inr (st, commit_flush (put_outcome (finished_job now st rs ra j) (t\<lparr>tn_memory_status := st\<rparr>) None
                     (if st = Mem_skipped then stage [ev ''voice.memory_extract.skip'' [(''reason'', skip_dim rs)] 1] db else db)))))
      | _ \<Rightarrow> Inl (RuntimeError ''row_missing''))"

section \<open>Purging and the administrative retry\<close>

definition purge_targets :: "datetime \<Rightarrow> database \<Rightarrow> int list" where
  "purge_targets now db =
     take 100 (map mj_id (filter (\<lambda>j. mj_extraction_snapshot j \<noteq> None \<and>
       (case (get_call (mj_call_id j) db, get_turn (mj_turn_id j) db) of
          (Some c, Some t) \<Rightarrow> vc_deletion_fence_at c \<noteq> None \<or> \<not> source_live now c t
        | _ \<Rightarrow> False)) (db_memory_jobs db)))"

definition purge_row :: "datetime \<Rightarrow> voice_call \<Rightarrow> turn_row \<Rightarrow> memory_job \<Rightarrow> database \<Rightarrow> database" where
  "purge_row now c t j db =
     (if vc_deletion_fence_at c = None \<and> source_live now c t then db
      else if open_status (mj_status j) then
        commit_flush (put_outcome (cancel_job (if vc_deletion_fence_at c \<noteq> None then ''deletion_fence'' else ''source_expired'') j)
          (t\<lparr>tn_memory_status := Mem_cancelled\<rparr>) None db)
      else commit_flush (put_memory_job (j\<lparr>mj_extraction_snapshot := None\<rparr>) db))"

definition purge_one :: "datetime \<Rightarrow> (int \<Rightarrow> bool) \<Rightarrow> int \<Rightarrow> database \<Rightarrow> database" where
  "purge_one now locked i db =
     (case get_memory_job i db of
        None \<Rightarrow> db
      | Some j \<Rightarrow>
          (case (get_call (mj_call_id j) db, get_turn (mj_turn_id j) db) of
             (Some c, Some t) \<Rightarrow> if locked i then db else purge_row now c t j db
           | _ \<Rightarrow> db))"

definition purge_expired_snapshots :: "datetime \<Rightarrow> (int \<Rightarrow> bool) \<Rightarrow> database \<Rightarrow> database" where
  "purge_expired_snapshots now locked db = fold (purge_one now locked) (purge_targets now db) db"

definition rejected :: "string \<Rightarrow> int \<Rightarrow> exn" where
  "rejected code status = ConfigError code status"

definition snapshot_rejection :: "mem_text \<Rightarrow> json option \<Rightarrow> string option" where
  "snapshot_rejection x snap =
     (case snap of
        None \<Rightarrow> Some ''VOICE_JOB_SNAPSHOT_REQUIRED''
      | Some s \<Rightarrow>
          if \<not> is_obj s \<or> \<not> py_eq_int (jget s ''version'') 1 then Some ''VOICE_JOB_SNAPSHOT_REQUIRED''
          else if jget s ''phase'' = JStr (asc ''ready'') then
            (case parse_memory_items x (JStr (mx_dumps_ascii x (JObj [(''memory_items'', jget s ''items'')]))) (JInt 5) of
               Inl e \<Rightarrow> Some ''VOICE_JOB_SNAPSHOT_INVALID''
             | Inr p \<Rightarrow>
                 if pa_dropped p > 0 \<or> (case jget s ''dropped'' of JInt n \<Rightarrow> n < 0 | _ \<Rightarrow> True)
                 then Some ''VOICE_JOB_SNAPSHOT_INVALID'' else None)
          else if \<not> is_extracting s then Some ''VOICE_JOB_SNAPSHOT_INVALID'' else None)"

definition retryable_reasons :: "string list" where
  "retryable_reasons = [''extract_unavailable'', ''write_unavailable'', ''lease_expired'']"

definition retry_memory_job ::
  "mem_text \<Rightarrow> datetime \<Rightarrow> string \<Rightarrow> bool \<Rightarrow> int \<Rightarrow> database \<Rightarrow> (memory_job \<times> database) res" where
  "retry_memory_job x now role locked jid db =
     (if role \<noteq> ''super_admin'' \<and> role \<noteq> ''tech_ops'' then Inl (rejected ''VOICE_JOB_FORBIDDEN'' 403)
      else (case get_memory_job jid db of
          None \<Rightarrow> Inl (rejected ''VOICE_JOB_NOT_FOUND'' 404)
        | Some j \<Rightarrow>
            if list_ex (\<lambda>k. mj_call_id k = mj_call_id j \<and> mj_status k = Mem_processing) (db_memory_jobs db) \<or> locked
            then Inl (rejected ''VOICE_JOB_BUSY'' 409)
            else (case (get_call (mj_call_id j) db, get_turn (mj_turn_id j) db) of
                (Some c, Some t) \<Rightarrow>
                  if vc_deletion_fence_at c \<noteq> None \<or> \<not> source_live now c t \<or> mj_pipeline_version j \<noteq> pipeline_version \<or>
                     mj_status j \<noteq> Mem_failed \<or> mj_fail_reason j \<notin> Some ` set retryable_reasons
                  then Inl (rejected ''VOICE_JOB_NOT_RETRYABLE'' 409)
                  else (case snapshot_rejection x (mj_extraction_snapshot j) of
                      Some code \<Rightarrow> Inl (rejected code 409)
                    | None \<Rightarrow>
                        let j' = j\<lparr>mj_status := Mem_pending, mj_next_retry_at := None, mj_lease_owner := None,
                                   mj_lease_expires_at := None\<rparr> in
                        Inr (j', commit_flush (stage [ev ''voice.memory_job.retry''
                            [(''source'', ''admin''), (''reason'', the (mj_fail_reason j))] 1]
                          (put_turn (t\<lparr>tn_memory_status := Mem_pending\<rparr>) (put_memory_job j' db)))))
              | _ \<Rightarrow> Inl (RuntimeError ''row_missing''))))"

section \<open>Polling\<close>

definition poll_calls :: "datetime \<Rightarrow> database \<Rightarrow> string list" where
  "poll_calls now db =
     take 8 (remdups (map mj_call_id (filter (\<lambda>j. mj_pipeline_version j = pipeline_version \<and>
       (mj_status j = Mem_pending \<or>
        (mj_status j = Mem_failed \<and> (case mj_next_retry_at j of None \<Rightarrow> False | Some r \<Rightarrow> r \<le> now)) \<or>
        (mj_status j = Mem_processing \<and> \<not> lease_live now j))) (db_memory_jobs db))))"

definition compensation_calls :: "database \<Rightarrow> string list" where
  "compensation_calls db =
     take 8 (map vc_call_id (sort_key vc_id (filter (\<lambda>c. vc_status c \<in> set TERMINAL \<and> vc_deletion_fence_at c = None \<and>
       (find_compensation (vc_call_id c) db = None \<or>
        list_ex (\<lambda>t. find_job (tn_id t) db = None) (closed_turns (vc_call_id c) db))) (db_calls db))))"

section \<open>Any interleaving of the operations\<close>

text \<open>
  The workers, the administrators and the deletion run concurrently; the rows they lock make each
  transaction one step. The identifiers in \<open>A_save\<close>, \<open>A_write\<close> and \<open>A_finish\<close> are those a claim
  returned, so the job belongs to the call.
\<close>

datatype mem_action =
    A_enqueue datetime bool string int
  | A_compensate datetime string bool
  | A_fence datetime string
  | A_claim datetime bool string string
  | A_save datetime string int string "atom list" nat
  | A_write datetime bool "string res" string int string atom
  | A_finish datetime string int string memory_status "string option"
  | A_purge datetime bool int
  | A_admin datetime string bool int

definition committed :: "database \<Rightarrow> ('a \<times> database) res \<Rightarrow> database" where
  "committed db r = (case r of Inl e \<Rightarrow> db | Inr (v, db') \<Rightarrow> db')"

definition job_of_call :: "string \<Rightarrow> int \<Rightarrow> database \<Rightarrow> bool" where
  "job_of_call cid jid db \<longleftrightarrow> (case get_memory_job jid db of None \<Rightarrow> False | Some j \<Rightarrow> mj_call_id j = cid)"

definition call_user :: "string \<Rightarrow> database \<Rightarrow> int" where
  "call_user cid db = (case get_call cid db of None \<Rightarrow> 0 | Some c \<Rightarrow> vc_user_id c)"

definition job_index :: "int \<Rightarrow> database \<Rightarrow> int" where
  "job_index jid db = (case get_memory_job jid db of None \<Rightarrow> 0 | Some j \<Rightarrow> mj_turn_index j)"

fun mem_apply :: "mem_text \<Rightarrow> mem_action \<Rightarrow> database \<Rightarrow> database" where
  "mem_apply x (A_enqueue now locked cid tid) db = snd (enqueue now locked cid tid db)"
| "mem_apply x (A_compensate now cid audited) db = snd (compensate now cid audited db)"
| "mem_apply x (A_fence now cid) db = commit_flush (snd (stage_deletion_fence now cid db))"
| "mem_apply x (A_claim now locked token cid) db = committed db (claim_next now locked token cid db)"
| "mem_apply x (A_save now cid jid token items dropped) db =
     (if job_of_call cid jid db then committed db (save_snapshot now cid jid token items dropped db) else db)"
| "mem_apply x (A_write now busy actual cid jid token a) db =
     (if job_of_call cid jid db
      then committed db (write_atom x now busy actual cid jid token (call_user cid db) (job_index jid db) a db) else db)"
| "mem_apply x (A_finish now cid jid token st reason) db =
     (if job_of_call cid jid db \<and> st \<in> {Mem_success, Mem_failed, Mem_skipped}
      then committed db (finish_job now cid jid token st reason db) else db)"
| "mem_apply x (A_purge now locked jid) db = purge_one now (\<lambda>i. locked) jid db"
| "mem_apply x (A_admin now role locked jid) db = committed db (retry_memory_job x now role locked jid db)"

definition mem_run :: "mem_text \<Rightarrow> mem_action list \<Rightarrow> database \<Rightarrow> database" where
  "mem_run x acts db = fold (mem_apply x) acts db"

end
