(* ===== verification/MemoryInv.thy ===== *)
theory MemoryInv
  imports MemoryJob
begin

text \<open>
  Correctness of the memory jobs under every interleaving of their operations: the status table and
  the ownership of a lease, the retry budget, the deletion fence, the order of the traces, and the
  acceptance of every staged event.
\<close>

section \<open>What a step does to the jobs\<close>

fun memory_edges :: "memory_status \<Rightarrow> memory_status list" where
  "memory_edges Mem_pending = [Mem_processing, Mem_skipped, Mem_cancelled]"
| "memory_edges Mem_processing = [Mem_success, Mem_failed, Mem_skipped, Mem_cancelled]"
| "memory_edges Mem_failed = [Mem_processing, Mem_pending, Mem_skipped, Mem_cancelled]"
| "memory_edges _ = []"

definition same_job :: "memory_job \<Rightarrow> memory_job \<Rightarrow> bool" where
  "same_job j j' \<longleftrightarrow> mj_id j' = mj_id j \<and> mj_call_id j' = mj_call_id j \<and> mj_turn_id j' = mj_turn_id j \<and>
     mj_turn_index j' = mj_turn_index j \<and> mj_pipeline_version j' = mj_pipeline_version j"

definition job_ok :: "memory_job \<Rightarrow> bool" where
  "job_ok j \<longleftrightarrow> (mj_status j = Mem_processing \<longleftrightarrow> mj_lease_owner j \<noteq> None) \<and>
     (mj_lease_owner j \<noteq> None \<longleftrightarrow> mj_lease_expires_at j \<noteq> None) \<and>
     (mj_next_retry_at j \<noteq> None \<longrightarrow> mj_status j \<in> {Mem_failed, Mem_skipped}) \<and>
     (mj_status j = Mem_processing \<longrightarrow> mj_extraction_snapshot j \<noteq> None) \<and>
     (\<not> open_status (mj_status j) \<longrightarrow> mj_extraction_snapshot j = None) \<and> 0 \<le> mj_attempt_count j"

text \<open>
  A row changes along an edge of the table; only a claim counts as an attempt, only an administrator
  (\<open>adm\<close>) sends a job back to \<open>pending\<close>, and a new retry is scheduled only within the limit \<open>cap\<close> of the
  call's script.
\<close>

definition call_limit :: "database \<Rightarrow> string \<Rightarrow> int option" where
  "call_limit db cid =
     (case get_call cid db of
        None \<Rightarrow> None
      | Some c \<Rightarrow> (case bindR (memory_script c) retry_policy of Inl e \<Rightarrow> None | Inr (n, ds) \<Rightarrow> Some n))"

definition job_move :: "bool \<Rightarrow> int option \<Rightarrow> memory_job \<Rightarrow> memory_job \<Rightarrow> bool" where
  "job_move adm cap j j' \<longleftrightarrow> same_job j j' \<and>
     (mj_status j = Mem_failed \<and> mj_status j' = Mem_pending \<longrightarrow> adm) \<and>
     (mj_status j' = Mem_failed \<and> mj_next_retry_at j' \<noteq> None \<longrightarrow>
        (mj_status j = Mem_failed \<and> mj_next_retry_at j' = mj_next_retry_at j) \<or>
        (case cap of None \<Rightarrow> False | Some n \<Rightarrow> mj_attempt_count j' \<le> n)) \<and>
     (mj_status j' = mj_status j \<and> open_status (mj_status j) \<or> mj_status j' \<in> set (memory_edges (mj_status j))) \<and>
     mj_attempt_count j' = mj_attempt_count j + (if mj_status j \<noteq> Mem_processing \<and> mj_status j' = Mem_processing then 1 else 0) \<and>
     (mj_status j = Mem_failed \<and> mj_status j' = Mem_processing \<longrightarrow> mj_next_retry_at j \<noteq> None)"

text \<open>What one transaction may do to the tables of the component.\<close>

definition fenced :: "database \<Rightarrow> string \<Rightarrow> bool" where
  "fenced db cid \<longleftrightarrow> (case get_call cid db of None \<Rightarrow> False | Some c \<Rightarrow> vc_deletion_fence_at c \<noteq> None)"

definition one_job :: "database \<Rightarrow> database \<Rightarrow> memory_job \<Rightarrow> memory_job \<Rightarrow> bool" where
  "one_job db db' j j' \<longleftrightarrow> get_memory_job (mj_id j) db = Some j \<and> same_job j j' \<and>
     db_memory_jobs db' = row_put mj_id j' (db_memory_jobs db) \<and> db_calls db' = db_calls db \<and> db_traces db' = db_traces db"

lemma put_outcome_frame [simp]:
  "db_memory_jobs (put_outcome j t r db) = row_put mj_id j (db_memory_jobs db)"
  "db_calls (put_outcome j t r db) = db_calls db" "db_traces (put_outcome j t r db) = db_traces db"
  by (simp_all add: put_outcome_def put_memory_job_def)

lemma put_memory_job_jobs [simp]: "db_memory_jobs (put_memory_job j db) = row_put mj_id j (db_memory_jobs db)"
  by (simp add: put_memory_job_def)

lemma same_job_refl [simp]: "same_job j j"
  by (simp add: same_job_def)

section \<open>The invariant\<close>

definition trace_pos :: "database \<Rightarrow> memory_trace \<Rightarrow> (int \<times> int \<times> int) option" where
  "trace_pos db r = map_option (\<lambda>c. (vc_user_id c, vc_id c, mt_turn_index r)) (get_call (mt_call_id r) db)"

definition trace_le :: "database \<Rightarrow> memory_trace \<Rightarrow> memory_trace \<Rightarrow> bool" where
  "trace_le db r s \<longleftrightarrow>
     (\<forall>u i m j n. mt_doc_id r = mt_doc_id s \<and> trace_pos db r = Some (u, i, m) \<and> trace_pos db s = Some (u, j, n) \<longrightarrow>
        i < j \<or> (i = j \<and> m \<le> n))"

definition mem_inv :: "database \<Rightarrow> bool" where
  "mem_inv db \<longleftrightarrow> distinct (map mj_id (db_memory_jobs db)) \<and>
     uk_voice_memory_job (db_memory_jobs db) \<and> uk_voice_memory_trace (db_traces db) \<and>
     (\<forall>j \<in> set (db_memory_jobs db). job_ok j \<and> (fenced db (mj_call_id j) \<longrightarrow> \<not> open_status (mj_status j))) \<and>
     sorted_wrt (trace_le db) (db_traces db) \<and>
     (\<forall>r \<in> set (db_traces db). mt_pipeline_version r = pipeline_version)"

lemma mem_invI:
  assumes "distinct (map mj_id (db_memory_jobs db))" "uk_voice_memory_job (db_memory_jobs db)"
    "uk_voice_memory_trace (db_traces db)" "\<And>j. j \<in> set (db_memory_jobs db) \<Longrightarrow> job_ok j"
    "\<And>j. j \<in> set (db_memory_jobs db) \<Longrightarrow> fenced db (mj_call_id j) \<Longrightarrow> \<not> open_status (mj_status j)"
    "sorted_wrt (trace_le db) (db_traces db)" "\<And>r. r \<in> set (db_traces db) \<Longrightarrow> mt_pipeline_version r = pipeline_version"
  shows "mem_inv db"
  using assms by (simp add: mem_inv_def)

lemma mem_invD:
  assumes "mem_inv db"
  shows "distinct (map mj_id (db_memory_jobs db))" "uk_voice_memory_job (db_memory_jobs db)"
    "uk_voice_memory_trace (db_traces db)" "\<And>j. j \<in> set (db_memory_jobs db) \<Longrightarrow> job_ok j"
    "\<And>j. j \<in> set (db_memory_jobs db) \<Longrightarrow> fenced db (mj_call_id j) \<Longrightarrow> \<not> open_status (mj_status j)"
    "sorted_wrt (trace_le db) (db_traces db)" "\<And>r. r \<in> set (db_traces db) \<Longrightarrow> mt_pipeline_version r = pipeline_version"
  using assms by (simp_all add: mem_inv_def)

lemma get_job_mem: "get_memory_job i db = Some j \<Longrightarrow> j \<in> set (db_memory_jobs db) \<and> mj_id j = i"
  unfolding get_memory_job_def by (drule row_find_key) auto

lemma row_put_unique:
  assumes "distinct (map mj_id js)" "j \<in> set js" "same_job j j'"
  shows "x \<in> set (row_put mj_id j' js) \<longleftrightarrow> x = j' \<or> x \<in> set js \<and> x \<noteq> j"
proof -
  have "y = j" if "y \<in> set js" "mj_id y = mj_id j" for y
    using assms(1,2) that by (auto simp: distinct_map inj_on_def)
  with assms show ?thesis by (auto simp: row_put_def same_job_def)
qed

lemma map_row_put_job:
  assumes "distinct (map mj_id js)" "j \<in> set js" "same_job j j'" "f j' = f j"
  shows "map f (row_put mj_id j' js) = map f js"
proof -
  have "f (if mj_id y = mj_id j' then j' else y) = f y" if "y \<in> set js" for y
  proof (cases "mj_id y = mj_id j")
    case True
    then have "y = j" using assms(1,2) that by (auto simp: distinct_map inj_on_def)
    with assms(4) show ?thesis by simp
  next
    case False
    with assms(3) show ?thesis by (simp add: same_job_def)
  qed
  then show ?thesis by (simp add: row_put_def)
qed

lemma calls_same:
  assumes "db_calls db' = db_calls db"
  shows "get_call c db' = get_call c db" "fenced db' c = fenced db c" "trace_le db' = trace_le db"
  using assms by (simp_all add: get_call_def fenced_def trace_le_def trace_pos_def fun_eq_iff)

lemma one_job_inv:
  assumes inv: "mem_inv db" and o: "one_job db db' j j'" and ok: "job_ok j'"
    and f: "fenced db (mj_call_id j) \<Longrightarrow> \<not> open_status (mj_status j')"
  shows "mem_inv db'"
proof -
  have j: "j \<in> set (db_memory_jobs db)" and s: "same_job j j'"
    and js: "db_memory_jobs db' = row_put mj_id j' (db_memory_jobs db)"
    and cs: "db_calls db' = db_calls db" and ts: "db_traces db' = db_traces db"
    using o by (auto simp: one_job_def dest: get_job_mem)
  note I = mem_invD [OF inv] and C = calls_same [OF cs]
  note ru = row_put_unique [OF I(1) j s]
  have c: "mj_call_id j' = mj_call_id j" using s by (simp add: same_job_def)
  show ?thesis
  proof (rule mem_invI)
    show "distinct (map mj_id (db_memory_jobs db'))" using I(1) by (simp add: js)
    show "uk_voice_memory_job (db_memory_jobs db')"
      using I(2) map_row_put_job [OF I(1) j s, of "\<lambda>j. (mj_turn_id j, mj_pipeline_version j)"] s
      by (simp add: js uk_voice_memory_job_def same_job_def)
    show "uk_voice_memory_trace (db_traces db')" using I(3) by (simp add: ts)
    show "sorted_wrt (trace_le db') (db_traces db')" using I(6) by (simp add: ts C(3))
    show "mt_pipeline_version r = pipeline_version" if "r \<in> set (db_traces db')" for r using I(7) that by (simp add: ts)
    fix x assume "x \<in> set (db_memory_jobs db')"
    then have x: "x = j' \<or> x \<in> set (db_memory_jobs db)" using ru js by auto
    then show "job_ok x" using ok I(4) by auto
    show "\<not> open_status (mj_status x)" if "fenced db' (mj_call_id x)"
      using x that f I(5) c by (auto simp: C(2))
  qed
qed

text \<open>The effect of each operation of one row.\<close>

lemma job_reason_known: "job_reason r j \<in> set memory_job_reasons"
  by (auto simp: job_reason_def Let_def memory_job_reasons_def)

lemma one_jobI:
  assumes "get_memory_job (mj_id j) db = Some j" "same_job j j'"
    "db_memory_jobs db' = row_put mj_id j' (db_memory_jobs db)" "db_calls db' = db_calls db" "db_traces db' = db_traces db"
  shows "one_job db db' j j'"
  using assms by (simp add: one_job_def)

definition job_frame :: "database \<Rightarrow> database \<Rightarrow> bool" where
  "job_frame db db' \<longleftrightarrow> db_memory_jobs db' = db_memory_jobs db \<and> db_calls db' = db_calls db \<and> db_traces db' = db_traces db"

definition one_step :: "bool \<Rightarrow> database \<Rightarrow> database \<Rightarrow> bool" where
  "one_step adm db db' \<longleftrightarrow> job_frame db db' \<or>
     (\<exists>j j'. one_job db db' j j' \<and> job_move adm (call_limit db (mj_call_id j)) j j' \<and> job_ok j' \<and>
        (fenced db (mj_call_id j) \<longrightarrow> \<not> open_status (mj_status j')))"

lemma one_step_inv: "mem_inv db \<Longrightarrow> one_step adm db db' \<Longrightarrow> mem_inv db'"
proof -
  assume inv: "mem_inv db" and st: "one_step adm db db'"
  from st consider "job_frame db db'" | j j' where "one_job db db' j j'" "job_ok j'"
    "fenced db (mj_call_id j) \<longrightarrow> \<not> open_status (mj_status j')"
    unfolding one_step_def by blast
  then show ?thesis
  proof cases
    case 1
    then have "db_memory_jobs db' = db_memory_jobs db" "db_calls db' = db_calls db" "db_traces db' = db_traces db"
      by (simp_all add: job_frame_def)
    then show ?thesis using inv unfolding mem_inv_def
      by (simp add: calls_same [OF \<open>db_calls db' = db_calls db\<close>])
  next
    case 2
    with inv show ?thesis using one_job_inv by blast
  qed
qed

lemma job_of_inv:
  assumes "mem_inv db" "get_memory_job i db = Some j"
  shows "job_ok j" "fenced db (mj_call_id j) \<longrightarrow> \<not> open_status (mj_status j)" "get_memory_job (mj_id j) db = Some j"
  using assms get_job_mem [OF assms(2)] by (auto simp: mem_inv_def)

lemma put_outcome_step:
  assumes "get_memory_job i db = Some j" "mj_id j = i" "same_job j j'" "job_move adm (call_limit db (mj_call_id j)) j j'" "job_ok j'"
    "fenced db (mj_call_id j) \<longrightarrow> \<not> open_status (mj_status j')"
  shows "one_step adm db (put_outcome j' t r db)" "one_step adm db (commit_flush (put_outcome j' t r db))"
    "one_step adm db (commit_flush (put_outcome j' t r (stage evs db)))"
    "one_step adm db (commit_flush (put_memory_job j' db))" "one_step adm db (stage evs (put_turn t (put_memory_job j' db)))"
    "one_step adm db (commit_flush (stage evs (put_turn t (put_memory_job j' db))))"
proof -
  have *: "one_step adm db d" if "db_memory_jobs d = row_put mj_id j' (db_memory_jobs db)" "db_calls d = db_calls db"
    "db_traces d = db_traces db" for d
  proof -
    have "one_job db d j j'" using that assms(1-3) by (simp add: one_job_def)
    with assms show ?thesis unfolding one_step_def by blast
  qed
  show "one_step adm db (put_outcome j' t r db)" "one_step adm db (commit_flush (put_outcome j' t r db))"
    "one_step adm db (commit_flush (put_outcome j' t r (stage evs db)))"
    "one_step adm db (commit_flush (put_memory_job j' db))" "one_step adm db (stage evs (put_turn t (put_memory_job j' db)))"
    "one_step adm db (commit_flush (stage evs (put_turn t (put_memory_job j' db))))"
    by (rule *; simp)+
qed

lemma one_step_refl [simp]: "one_step adm db db"
  by (simp add: one_step_def job_frame_def)

lemma one_step_stage [simp]: "one_step adm db (stage evs db)" "one_step adm db (commit_flush db)"
  by (simp_all add: one_step_def job_frame_def)

section \<open>The operations of one row\<close>

lemma memory_status_split: "P st \<longleftrightarrow> (st = Mem_skipped \<longrightarrow> P Mem_skipped) \<and> (st = Mem_pending \<longrightarrow> P Mem_pending) \<and>
  (st = Mem_processing \<longrightarrow> P Mem_processing) \<and> (st = Mem_success \<longrightarrow> P Mem_success) \<and>
  (st = Mem_failed \<longrightarrow> P Mem_failed) \<and> (st = Mem_cancelled \<longrightarrow> P Mem_cancelled)"
  by (cases st) auto

lemmas job_update_simps = same_job_def open_status_def

lemma claim_row_step:
  assumes inv: "mem_inv db" and j: "get_memory_job i db = Some j" and cl: "claimable j"
    and c: "get_call (mj_call_id j) db = Some c" and r: "claim_row now token c j t db = Inr (res, db')"
  shows "one_step adm db (if res = Busy then db' else commit_flush db')"
proof -
  note J = job_of_inv [OF inv j]
  have i: "mj_id j = i" using get_job_mem [OF j] by simp
  have op: "open_status (mj_status j)" using cl by (auto simp: claimable_def open_status_def)
  have fe: "fenced db (mj_call_id j) \<longleftrightarrow> vc_deletion_fence_at c \<noteq> None" using c by (simp add: fenced_def)
  have put: "one_step adm db (if res = Busy then put_outcome j' t' rs db else commit_flush (put_outcome j' t' rs db))"
    "one_step adm db (if res = Busy then put_outcome j' t' rs db else commit_flush (put_outcome j' t' rs (stage evs db)))"
    "one_step adm db (if res = Busy then put_outcome j' t' rs db else commit_flush (stage evs (put_turn t' (put_memory_job j' db))))"
    if "same_job j j'" "job_move adm (call_limit db (mj_call_id j)) j j'" "job_ok j'" "fenced db (mj_call_id j) \<longrightarrow> \<not> open_status (mj_status j')" for j' t' rs evs
    by (simp_all add: put_outcome_step [OF j i that])
  show ?thesis
  proof (cases "vc_deletion_fence_at c = None")
    case False
    then show ?thesis using J(2) op fe by simp
  next
    case True
    then have nf: "\<not> fenced db (mj_call_id j)" using fe by simp
    obtain script retries delays where sc: "memory_script c = Inr script" "retry_policy script = Inr (retries, delays)"
      using r True by (auto simp: claim_row_def bindR_Inr_iff Let_def)
    have lim: "call_limit db (mj_call_id j) = Some retries" using c sc by (simp add: call_limit_def)
    define expired where "expired = (mj_status j = Mem_processing \<and> \<not> lease_live now j)"
    define due where "due = (mj_status j = Mem_failed \<and> (case mj_next_retry_at j of None \<Rightarrow> False | Some r \<Rightarrow> r \<le> now))"
    note r' = r [unfolded claim_row_def Let_def, folded expired_def due_def, simplified sc True bindR_simps prod.case]
    consider (missing) "(expired \<or> mj_status j = Mem_failed) \<and> mj_extraction_snapshot j = None"
      | (expired) "expired" "mj_extraction_snapshot j \<noteq> None"
      | (busy) "\<not> expired" "mj_status j \<noteq> Mem_pending \<and> \<not> due"
      | (go) "\<not> expired" "mj_status j = Mem_pending \<or> due" "mj_status j = Mem_failed \<longrightarrow> mj_extraction_snapshot j \<noteq> None"
      by blast
    then show ?thesis
    proof cases
      case missing
      then have st: "mj_status j = Mem_failed" using J(1) by (auto simp: expired_def job_ok_def)
      have db': "db' = put_outcome (j\<lparr>mj_status := Mem_failed, mj_fail_reason := Some ''recovery_snapshot_required'',
                 mj_lease_owner := None, mj_lease_expires_at := None, mj_next_retry_at := None\<rparr>)
              (t\<lparr>tn_memory_status := Mem_failed\<rparr>) None db" using r' missing by simp
      show ?thesis unfolding db'
        by (rule put(1)) (use J(1) nf st missing in \<open>auto simp: job_ok_def job_move_def job_update_simps\<close>)
    next
      case expired
      then have st: "mj_status j = Mem_processing" by (simp add: expired_def)
      have db': "db' = put_outcome (expired_job now retries delays j) (t\<lparr>tn_memory_status := Mem_failed\<rparr>) None db"
        using r' expired by simp
      show ?thesis unfolding db'
        by (rule put(1)) (use J(1) nf st expired lim in \<open>auto simp: expired_job_def job_ok_def job_move_def job_update_simps\<close>)
    next
      case busy
      show ?thesis
      proof (cases "mj_status j = Mem_failed \<and> mj_extraction_snapshot j = None")
        case True
        then have db': "db' = put_outcome (j\<lparr>mj_status := Mem_failed, mj_fail_reason := Some ''recovery_snapshot_required'',
                 mj_lease_owner := None, mj_lease_expires_at := None, mj_next_retry_at := None\<rparr>)
              (t\<lparr>tn_memory_status := Mem_failed\<rparr>) None db" using r' by simp
        show ?thesis unfolding db'
          by (rule put(1)) (use J(1) nf True in \<open>auto simp: job_ok_def job_move_def job_update_simps\<close>)
      next
        case False
        then show ?thesis using r' busy by auto
      qed
    next
      case go
      then have st: "mj_status j = Mem_pending \<or> mj_status j = Mem_failed \<and> mj_next_retry_at j \<noteq> None"
        by (auto simp: due_def split: option.splits)
      show ?thesis
      proof (cases "source_live now c t")
        case False
        then have db': "db' = put_outcome (j\<lparr>mj_status := Mem_cancelled, mj_fail_reason := Some ''source_expired'',
                 mj_extraction_snapshot := None, mj_next_retry_at := None\<rparr>)
              (t\<lparr>tn_memory_status := Mem_cancelled\<rparr>) (Some ''source_expired'') db" using r' go st by auto
        show ?thesis unfolding db'
          by (rule put(1)) (use J(1) nf st in \<open>auto simp: job_ok_def job_move_def job_update_simps\<close>)
      next
        case live: True
        show ?thesis
        proof (cases "eligible_turn t")
          case False
          then have db': "res = Settled Mem_skipped" "db' = put_outcome (j\<lparr>mj_status := Mem_skipped, mj_extraction_snapshot := None\<rparr>)
              (t\<lparr>tn_memory_status := Mem_skipped\<rparr>) (Some ''ineligible'')
              (stage [ev ''voice.memory_extract.skip'' [(''reason'', memory_skip_reason t)] 1] db)" using r' go st live by auto
          have "one_step adm db (if res = Busy then put_outcome (j\<lparr>mj_status := Mem_skipped, mj_extraction_snapshot := None\<rparr>)
              (t\<lparr>tn_memory_status := Mem_skipped\<rparr>) (Some ''ineligible'') db else commit_flush db')" unfolding db'(2)
            by (rule put(2)) (use J(1) nf st in \<open>auto simp: job_ok_def job_move_def job_update_simps\<close>)
          with db'(1) show ?thesis by simp
        next
          case True
          then have db': "res \<noteq> Busy" "db' = stage (claim_events now (start_job now token j))
              (put_turn (t\<lparr>tn_memory_status := Mem_processing\<rparr>) (put_memory_job (start_job now token j) db))"
            using r' go st live by (auto simp: Let_def)
          have "one_step adm db (if res = Busy then put_outcome (start_job now token j)
              (t\<lparr>tn_memory_status := Mem_processing\<rparr>) None db else commit_flush db')" unfolding db'(2)
            by (rule put(3)) (use J(1) nf st in \<open>auto simp: job_ok_def job_move_def job_update_simps start_job_def\<close>)
          with db'(1) show ?thesis by simp
        qed
      qed
    qed
  qed
qed

lemma next_job_props:
  assumes "next_job cid db = Some j"
  shows "j \<in> set (db_memory_jobs db)" "mj_call_id j = cid" "claimable j" "mj_pipeline_version j = pipeline_version"
    "k \<in> set (db_memory_jobs db) \<Longrightarrow> mj_call_id k = cid \<Longrightarrow> mj_pipeline_version k = pipeline_version \<Longrightarrow>
       claimable k \<Longrightarrow> mj_turn_index j \<le> mj_turn_index k"
proof -
  define fs where "fs = filter (\<lambda>j. mj_call_id j = cid \<and> mj_pipeline_version j = pipeline_version \<and> claimable j) (db_memory_jobs db)"
  obtain js where js: "sort_key mj_turn_index fs = j # js"
    using assms by (auto simp: next_job_def fs_def split: list.splits)
  have eq: "set fs = set (j # js)" unfolding js [symmetric] by simp
  then have "j \<in> set fs" by simp
  then show "j \<in> set (db_memory_jobs db)" "mj_call_id j = cid" "claimable j" "mj_pipeline_version j = pipeline_version"
    by (auto simp: fs_def)
  show "mj_turn_index j \<le> mj_turn_index k" if "k \<in> set (db_memory_jobs db)" "mj_call_id k = cid"
    "mj_pipeline_version k = pipeline_version" "claimable k"
  proof -
    have "k \<in> set (j # js)" using that unfolding eq [symmetric] by (simp add: fs_def)
    moreover have "sorted (map mj_turn_index (j # js))" unfolding js [symmetric] by simp
    ultimately show ?thesis by auto
  qed
qed

lemma find_unique:
  assumes "distinct (map f xs)" "x \<in> set xs"
  shows "row_find f (f x) xs = Some x"
  using assms by (induction xs) (auto simp: row_find_def)

lemma mem_get_job: "mem_inv db \<Longrightarrow> j \<in> set (db_memory_jobs db) \<Longrightarrow> get_memory_job (mj_id j) db = Some j"
  unfolding get_memory_job_def by (rule find_unique) (auto dest: mem_invD)

lemma call_id_get: "get_call cid db = Some c \<Longrightarrow> vc_call_id c = cid"
  unfolding get_call_def by (drule row_find_key) simp

lemma claim_next_step:
  assumes inv: "mem_inv db" and r: "claim_next now locked token cid db = Inr (res, db')"
  shows "one_step adm db db'"
proof (cases "get_call cid db")
  case None
  with r show ?thesis by (simp add: claim_next_def)
next
  case (Some c)
  show ?thesis
  proof (cases "next_job cid db")
    case None
    with r Some show ?thesis by (simp add: claim_next_def)
  next
    case nj: (Some j)
    note N = next_job_props [OF nj]
    show ?thesis
    proof (cases "locked")
      case True
      with r Some nj show ?thesis by (simp add: claim_next_def)
    next
      case False
      then obtain t db1 where t: "claim_row now token c j t db = Inr (res, db1)"
        "db' = (if res = Busy then db1 else commit_flush db1)"
        using r Some nj by (auto simp: claim_next_def bindR_Inr_iff split: option.splits)
      have "one_step adm db (if res = Busy then db1 else commit_flush db1)"
        using claim_row_step [OF inv mem_get_job [OF inv N(1)] N(3) _ t(1)] Some N(2) by simp
      then show ?thesis by (simp add: t(2))
    qed
  qed
qed

lemma holds_lease_open: "holds_lease now token j \<Longrightarrow> mj_status j = Mem_processing \<and> open_status (mj_status j)"
  by (simp add: holds_lease_def open_status_def)

lemma save_snapshot_step:
  assumes inv: "mem_inv db" and r: "save_snapshot now cid jid token items dropped db = Inr (b, db')"
  shows "one_step adm db db'"
proof (cases b)
  case False
  with r have "db' = db" by (auto simp: save_snapshot_def Let_def split: option.splits if_splits)
  then show ?thesis by simp
next
  case True
  with r obtain j where j: "get_memory_job jid db = Some j" "holds_lease now token j"
    "db' = commit_flush (put_memory_job (j\<lparr>mj_extraction_snapshot := Some (ready_snapshot items dropped)\<rparr>) db)"
    by (auto simp: save_snapshot_def split: option.splits if_splits)
  have st: "mj_status j = Mem_processing" using j(2) by (simp add: holds_lease_def)
  note J = job_of_inv [OF inv j(1)]
  show ?thesis unfolding j(3)
    by (rule put_outcome_step(4) [OF j(1)])
      (use J(1,2) st get_job_mem [OF j(1)] in \<open>auto simp: job_ok_def job_move_def job_update_simps\<close>)
qed

lemma finish_job_Inr:
  assumes "finish_job now cid jid token status reason db = Inr (st, db')"
    "get_call cid db = Some c" "get_memory_job jid db = Some j" "holds_lease now token j"
  shows "\<exists>rs ra t. st = (if vc_deletion_fence_at c \<noteq> None then Mem_cancelled else status) \<and>
    rs = (if vc_deletion_fence_at c \<noteq> None then Some ''deletion_fence'' else reason) \<and>
    retry_at now st rs c j = Inr ra \<and> get_turn (mj_turn_id j) db = Some t \<and>
    db' = commit_flush (put_outcome (finished_job now st rs ra j) (t\<lparr>tn_memory_status := st\<rparr>) None
           (if st = Mem_skipped then stage [ev ''voice.memory_extract.skip'' [(''reason'', skip_dim rs)] 1] db else db))"
proof -
  define st' where "st' = (if vc_deletion_fence_at c \<noteq> None then Mem_cancelled else status)"
  define rs where "rs = (if vc_deletion_fence_at c \<noteq> None then Some ''deletion_fence'' else reason)"
  have f: "bindR (retry_at now st' rs c j) (\<lambda>ra.
              (case get_turn (mj_turn_id j) db of
                 None \<Rightarrow> Inl (RuntimeError ''turn_missing'')
               | Some t \<Rightarrow>
                   Inr (st', commit_flush (put_outcome (finished_job now st' rs ra j) (t\<lparr>tn_memory_status := st'\<rparr>) None
                     (if st' = Mem_skipped then stage [ev ''voice.memory_extract.skip'' [(''reason'', skip_dim rs)] 1] db else db))))) = Inr (st, db')"
    using assms unfolding finish_job_def Let_def st'_def rs_def by simp
  then obtain ra where "retry_at now st' rs c j = Inr ra" unfolding bindR_Inr_iff by blast
  moreover from this f obtain t where "get_turn (mj_turn_id j) db = Some t" by (auto split: option.splits)
  ultimately have "st = st'" "retry_at now st' rs c j = Inr ra" "get_turn (mj_turn_id j) db = Some t"
    "db' = commit_flush (put_outcome (finished_job now st' rs ra j) (t\<lparr>tn_memory_status := st'\<rparr>) None
           (if st' = Mem_skipped then stage [ev ''voice.memory_extract.skip'' [(''reason'', skip_dim rs)] 1] db else db))"
    using f by (auto split del: if_split)
  then show ?thesis unfolding st'_def [symmetric] rs_def [symmetric] by blast
qed

lemma finish_job_step:
  assumes inv: "mem_inv db" and r: "finish_job now cid jid token status reason db = Inr (st, db')"
    and st: "status \<in> {Mem_success, Mem_failed, Mem_skipped}" and cid: "job_of_call cid jid db"
  shows "one_step adm db db'"
proof -
  obtain c j where cj: "get_call cid db = Some c" "get_memory_job jid db = Some j"
    using r by (auto simp: finish_job_def split: option.splits)
  show ?thesis
  proof (cases "holds_lease now token j")
    case False
    with r cj show ?thesis by (simp add: finish_job_def)
  next
    case True
    define st' where "st' = (if vc_deletion_fence_at c \<noteq> None then Mem_cancelled else status)"
    from finish_job_Inr [OF r cj True] obtain rs ra t where x: "st = st'" "retry_at now st' rs c j = Inr ra"
      "db' = commit_flush (put_outcome (finished_job now st' rs ra j) (t\<lparr>tn_memory_status := st\<rparr>) None
           (if st' = Mem_skipped then stage [ev ''voice.memory_extract.skip'' [(''reason'', skip_dim rs)] 1] db else db))"
      unfolding st'_def by blast
    have "\<exists>evs. (if st' = Mem_skipped then stage [ev ''voice.memory_extract.skip'' [(''reason'', skip_dim rs)] 1] db else db) = stage evs db"
      by (auto simp: stage_def intro: exI [of _ "[]"])
    then obtain evs where db': "db' = commit_flush (put_outcome (finished_job now st' rs ra j) (t\<lparr>tn_memory_status := st\<rparr>) None (stage evs db))"
      using x(3) by auto
    note ra = x(2)
    have js: "mj_status j = Mem_processing" using True by (simp add: holds_lease_def)
    note J = job_of_inv [OF inv cj(2)]
    have ra': "ra \<noteq> None \<longrightarrow> st' = Mem_failed" using ra by (auto simp: retry_at_def bindR_Inr_iff split: if_splits)
    have lim: "ra \<noteq> None \<longrightarrow> (\<exists>n. call_limit db (mj_call_id j) = Some n \<and> mj_attempt_count j \<le> n)"
      using ra cj(1) cid cj(2) by (auto simp: retry_at_def bindR_Inr_iff call_limit_def job_of_call_def split: if_splits)
    have stt: "st' \<in> {Mem_success, Mem_failed, Mem_skipped, Mem_cancelled}" using st by (auto simp: st'_def)
    have f: "fenced db (mj_call_id j) \<longrightarrow> \<not> open_status st'"
      using J(2) js by (simp add: open_status_def)
    show ?thesis unfolding db'
      by (rule put_outcome_step(3) [OF cj(2)])
        (use J(1) js ra' stt f lim get_job_mem [OF cj(2)] in
          \<open>auto simp: finished_job_def job_ok_def job_move_def job_update_simps\<close>)
  qed
qed

lemma purge_one_step:
  assumes inv: "mem_inv db"
  shows "one_step adm db (purge_one now locked i db)"
proof (cases "get_memory_job i db")
  case (Some j)
  note J = job_of_inv [OF inv Some]
  show ?thesis
  proof (cases "get_call (mj_call_id j) db = None \<or> get_turn (mj_turn_id j) db = None \<or> locked i")
    case False
    then obtain c t where ct: "get_call (mj_call_id j) db = Some c" "get_turn (mj_turn_id j) db = Some t" by auto
    have eq: "purge_one now locked i db = purge_row now c t j db" using Some ct False by (simp add: purge_one_def)
    show ?thesis
    proof (cases "open_status (mj_status j)")
      case True
      have "one_step adm db (commit_flush (put_outcome (cancel_job reason j) t' None db))" for reason t'
        by (rule put_outcome_step(2) [OF Some])
          (use J(1) True get_job_mem [OF Some] in \<open>auto simp: cancel_job_def job_ok_def job_move_def job_update_simps\<close>)
      then show ?thesis using True unfolding eq purge_row_def by simp
    next
      case False
      then have s: "mj_extraction_snapshot j = None" using J(1) by (simp add: job_ok_def)
      have "j\<lparr>mj_extraction_snapshot := None\<rparr> = j" using s by simp
      moreover have "row_put mj_id j (db_memory_jobs db) = db_memory_jobs db"
        using mem_invD(1) [OF inv] get_job_mem [OF Some]
        by (auto simp: row_put_def distinct_map inj_on_def intro!: map_idI)
      ultimately have "job_frame db (purge_row now c t j db)"
        using False by (simp add: purge_row_def job_frame_def)
      then show ?thesis unfolding eq by (simp add: one_step_def)
    qed
  qed (use Some in \<open>auto simp: purge_one_def split: option.splits\<close>)
qed (simp add: purge_one_def)

lemma retry_memory_job_step:
  assumes inv: "mem_inv db" and r: "retry_memory_job x now role locked jid db = Inr (j', db')"
  shows "one_step True db db'"
proof -
  obtain j c t evs where j: "get_memory_job jid db = Some j" "mj_status j = Mem_failed"
    "get_call (mj_call_id j) db = Some c" "vc_deletion_fence_at c = None"
    "j' = j\<lparr>mj_status := Mem_pending, mj_next_retry_at := None, mj_lease_owner := None, mj_lease_expires_at := None\<rparr>"
    "db' = commit_flush (stage evs (put_turn t (put_memory_job j' db)))"
    using r by (auto simp: retry_memory_job_def Let_def split: if_splits option.splits)
  note J = job_of_inv [OF inv j(1)]
  have nf: "\<not> fenced db (mj_call_id j)" using j(3,4) by (simp add: fenced_def)
  show ?thesis unfolding j(6)
    by (rule put_outcome_step(6) [OF j(1)])
      (use J(1) j(2,5) nf get_job_mem [OF j(1)] in \<open>auto simp: job_ok_def job_move_def job_update_simps\<close>)
qed

section \<open>The write of an item\<close>

lemma write_atom_cases:
  assumes inv: "mem_inv db" and job: "job_of_call cid jid db"
    and r: "write_atom x now busy actual cid jid token u idx a db = Inr (w, db')"
  shows "(w \<noteq> Written \<and> one_step adm db db') \<or>
    (\<exists>c j doc. w = Written \<and> get_call cid db = Some c \<and> vc_deletion_fence_at c = None \<and>
       get_memory_job jid db = Some j \<and> holds_lease now token j \<and> doc = build_doc_id x (at_type a) (at_key a) u \<and>
       actual = Inr doc \<and> \<not> newer_trace c u idx doc db \<and> \<not> same_trace cid idx doc db \<and>
       db' = commit_flush (db\<lparr>db_traces := db_traces db @ [new_trace now cid idx doc a]\<rparr>))"
proof -
  define doc where "doc = build_doc_id x (at_type a) (at_key a) u"
  obtain j c t where jct: "get_memory_job jid db = Some j" "get_call cid db = Some c" "get_turn (mj_turn_id j) db = Some t"
    and nb: "\<not> busy"
    using r by (auto simp: write_atom_def Let_def split: option.splits if_splits)
  note J = job_of_inv [OF inv jct(1)]
  have cj: "mj_call_id j = cid" using job jct(1) by (simp add: job_of_call_def)
  have fe: "fenced db (mj_call_id j) \<longleftrightarrow> vc_deletion_fence_at c \<noteq> None" using jct(2) cj by (simp add: fenced_def)
  note r' = r [unfolded write_atom_def Let_def, folded doc_def, simplified nb jct if_False prod.case option.case]
  show ?thesis
  proof (cases "vc_deletion_fence_at c \<noteq> None \<or> \<not> holds_lease now token j")
    case True
    have "\<not> (vc_deletion_fence_at c \<noteq> None \<and> open_status (mj_status j))" using J(2) fe by blast
    then have "w = Write_cancelled" "db' = db" using r' True by (auto split: if_splits)
    then show ?thesis by simp
  next
    case F: False
    show ?thesis
    proof (cases "source_live now c t")
      case False
      then have w: "w = Write_cancelled" "db' = commit_flush (put_outcome (cancel_job ''source_expired'' j)
                     (t\<lparr>tn_memory_status := Mem_cancelled\<rparr>) None db)" using r' F by auto
      have "one_step adm db db'" unfolding w(2)
        by (rule put_outcome_step(2) [OF jct(1)])
          (use J(1) F get_job_mem [OF jct(1)] in \<open>auto simp: cancel_job_def job_ok_def job_move_def job_update_simps holds_lease_def\<close>)
      with w(1) show ?thesis by simp
    next
      case True
      then show ?thesis using r' F jct unfolding doc_def [symmetric]
        by (auto simp: bindR_Inr_iff split: if_splits)
    qed
  qed
qed

lemma trace_append_inv:
  assumes inv: "mem_inv db" and c: "get_call cid db = Some c" "vc_user_id c = u"
    and n: "\<not> newer_trace c u idx doc db" "\<not> same_trace cid idx doc db"
    and js: "db_memory_jobs db' = db_memory_jobs db" and cs: "db_calls db' = db_calls db"
    and ts: "db_traces db' = db_traces db @ [new_trace now cid idx doc a]"
  shows "mem_inv db'"
proof -
  note I = mem_invD [OF inv] and C = calls_same [OF cs]
  show ?thesis
  proof (rule mem_invI)
    have le: "trace_le db r (new_trace now cid idx doc a)" if "r \<in> set (db_traces db)" for r
    proof -
      { fix i m assume d: "mt_doc_id r = doc" "trace_pos db r = Some (u, i, m)"
        then obtain d' where d': "get_call (mt_call_id r) db = Some d'" "vc_user_id d' = u" "vc_id d' = i" "mt_turn_index r = m"
          by (auto simp: trace_pos_def)
        have "\<not> (i > vc_id c \<or> (i = vc_id c \<and> m > idx))"
          using n(1) that d d' unfolding newer_trace_def list_ex_iff by auto
        then have "i < vc_id c \<or> (i = vc_id c \<and> m \<le> idx)" by auto }
      then show ?thesis using c by (auto simp: trace_le_def trace_pos_def new_trace_def)
    qed
    show "sorted_wrt (trace_le db') (db_traces db')"
      using I(6) le by (simp add: ts C(3) sorted_wrt_append)
    show "uk_voice_memory_trace (db_traces db')"
      using I(3,7) n(2) by (auto simp: ts uk_voice_memory_trace_def new_trace_def same_trace_def list_ex_iff)
    show "mt_pipeline_version r = pipeline_version" if "r \<in> set (db_traces db')" for r
      using I(7) that by (auto simp: ts new_trace_def)
  qed (use I in \<open>simp_all add: js C(2)\<close>)
qed

section \<open>New jobs\<close>

lemma fold_max_ge: "(x :: int) \<in> set xs \<Longrightarrow> x \<le> fold max xs n"
proof (induction xs arbitrary: n)
  case (Cons y ys)
  have "m \<le> fold max ys m" for m by (induction ys arbitrary: m) (auto intro: order_trans [OF max.cobounded2])
  then have "y \<le> fold max ys (max y n)" by (meson max.cobounded1 order_trans)
  with Cons show ?case by auto
qed simp

lemma fresh_id_fresh: "fresh_id xs \<notin> set xs"
  using fold_max_ge [of _ xs 0] by (force simp: fresh_id_def)

definition adds_job :: "database \<Rightarrow> database \<Rightarrow> bool" where
  "adds_job db db' \<longleftrightarrow> db_calls db' = db_calls db \<and> db_traces db' = db_traces db \<and>
     (db_memory_jobs db' = db_memory_jobs db \<or>
      (\<exists>j. db_memory_jobs db' = db_memory_jobs db @ [j] \<and> job_ok j \<and> mj_id j \<notin> set (map mj_id (db_memory_jobs db)) \<and>
         (mj_turn_id j, mj_pipeline_version j) \<notin> set (map (\<lambda>j. (mj_turn_id j, mj_pipeline_version j)) (db_memory_jobs db)) \<and>
         mj_status j \<in> {Mem_pending, Mem_skipped, Mem_cancelled} \<and> mj_attempt_count j = 0 \<and> mj_next_retry_at j = None \<and>
         (fenced db (mj_call_id j) \<longrightarrow> \<not> open_status (mj_status j))))"

lemma adds_job_inv:
  assumes inv: "mem_inv db" and a: "adds_job db db'"
  shows "mem_inv db'"
proof -
  note I = mem_invD [OF inv]
  have cs: "db_calls db' = db_calls db" and ts: "db_traces db' = db_traces db" using a by (simp_all add: adds_job_def)
  note C = calls_same [OF cs]
  from a consider "db_memory_jobs db' = db_memory_jobs db"
    | j where "db_memory_jobs db' = db_memory_jobs db @ [j]" "job_ok j" "mj_id j \<notin> set (map mj_id (db_memory_jobs db))"
      "(mj_turn_id j, mj_pipeline_version j) \<notin> set (map (\<lambda>j. (mj_turn_id j, mj_pipeline_version j)) (db_memory_jobs db))"
      "fenced db (mj_call_id j) \<longrightarrow> \<not> open_status (mj_status j)"
    unfolding adds_job_def by blast
  then show ?thesis
  proof cases
    case 1
    show ?thesis by (rule mem_invI) (use I in \<open>simp_all add: 1 C ts\<close>)
  next
    case 2
    show ?thesis
    proof (rule mem_invI)
      show "distinct (map mj_id (db_memory_jobs db'))" using I(1) 2(3) by (simp add: 2(1))
      show "uk_voice_memory_job (db_memory_jobs db')" using I(2) 2(4) by (simp add: 2(1) uk_voice_memory_job_def)
      fix k assume "k \<in> set (db_memory_jobs db')"
      then have k: "k = j \<or> k \<in> set (db_memory_jobs db)" by (auto simp: 2(1))
      then show "job_ok k" using I(4) 2(2) by auto
      show "\<not> open_status (mj_status k)" if "fenced db' (mj_call_id k)" using k that I(5) 2(5) by (auto simp: C(2))
    qed (use I in \<open>simp_all add: ts C\<close>)
  qed
qed

lemma stage_job_adds:
  assumes c: "get_call (vc_call_id c) db = Some c"
  shows "adds_job db (snd (stage_job now locked c t db))"
proof (cases "find_job (tn_id t) db")
  case (Some j)
  then show ?thesis by (simp add: stage_job_def adds_job_def)
next
  case None
  have key: "(tn_id t, pipeline_version) \<notin> set (map (\<lambda>j. (mj_turn_id j, mj_pipeline_version j)) (db_memory_jobs db))"
    using None by (auto simp: find_job_def find_None_iff)
  define j where "j = new_job now c t db"
  have eq: "db_memory_jobs (snd (stage_job now locked c t db)) = db_memory_jobs db @ [j]"
    "db_calls (snd (stage_job now locked c t db)) = db_calls db" "db_traces (snd (stage_job now locked c t db)) = db_traces db"
    using None by (simp_all add: stage_job_def Let_def j_def stage_def)
  have "mj_id j \<notin> set (map mj_id (db_memory_jobs db))" using fresh_id_fresh [of "map mj_id (db_memory_jobs db)"] by (simp add: j_def new_job_def)
  moreover have "job_ok j" by (auto simp: job_ok_def j_def new_job_def initial_status_def open_status_def)
  moreover have "fenced db (mj_call_id j) \<longrightarrow> \<not> open_status (mj_status j)"
    using c by (auto simp: fenced_def j_def new_job_def initial_status_def open_status_def)
  moreover have "mj_status j \<in> {Mem_pending, Mem_skipped, Mem_cancelled} \<and> mj_attempt_count j = 0 \<and> mj_next_retry_at j = None"
    by (simp add: j_def new_job_def initial_status_def)
  moreover have "(mj_turn_id j, mj_pipeline_version j) \<notin> set (map (\<lambda>j. (mj_turn_id j, mj_pipeline_version j)) (db_memory_jobs db))"
    using key by (simp add: j_def new_job_def)
  ultimately show ?thesis unfolding adds_job_def using eq by blast
qed

lemma adds_job_frame:
  assumes "db_memory_jobs db2 = db_memory_jobs db1" "db_calls db2 = db_calls db1" "db_traces db2 = db_traces db1"
  shows "adds_job db db2 = adds_job db db1"
  using assms by (simp add: adds_job_def)

lemma enqueue_adds: "adds_job db (snd (enqueue now locked cid tid db))"
proof (cases "get_call cid db")
  case (Some c)
  show ?thesis
  proof (cases "get_turn tid db")
    case t: (Some t)
    have st: "adds_job db (commit_flush (snd (stage_job now locked c t db)))"
      using stage_job_adds [of c db now locked t] unfolding call_id_get [OF Some]
      by (simp add: Some adds_job_frame [of "commit_flush (snd (stage_job now locked c t db))" "snd (stage_job now locked c t db)"])
    have "snd (enqueue now locked cid tid db) = db \<or>
      snd (enqueue now locked cid tid db) = commit_flush (snd (stage_job now locked c t db))"
      using Some t by (simp add: enqueue_def split: prod.splits)
    with st show ?thesis by (auto simp: adds_job_def)
  qed (use Some in \<open>simp add: enqueue_def adds_job_def\<close>)
qed (simp add: enqueue_def adds_job_def)

inductive adds_jobs :: "database \<Rightarrow> database \<Rightarrow> bool" where
  adds_none: "db_memory_jobs db' = db_memory_jobs db \<Longrightarrow> db_calls db' = db_calls db \<Longrightarrow> db_traces db' = db_traces db \<Longrightarrow> adds_jobs db db'"
| adds_more: "adds_jobs db db1 \<Longrightarrow> adds_job db1 db2 \<Longrightarrow> adds_jobs db db2"

lemma adds_jobs_inv: "adds_jobs db db' \<Longrightarrow> mem_inv db \<Longrightarrow> mem_inv db'"
proof (induction rule: adds_jobs.induct)
  case (adds_none db' db)
  show ?case
    by (rule mem_invI) (use mem_invD [OF adds_none(4)] in \<open>simp_all add: adds_none(1,3) calls_same [OF adds_none(2)]\<close>)
next
  case (adds_more db db1 db2)
  then show ?case using adds_job_inv by blast
qed

lemma adds_jobs_calls: "adds_jobs db db' \<Longrightarrow> db_calls db' = db_calls db \<and> db_traces db' = db_traces db"
  by (induction rule: adds_jobs.induct) (auto simp: adds_job_def)

lemma repair_adds:
  assumes c: "get_call (vc_call_id c) db = Some c" and a: "adds_jobs db (snd acc)"
  shows "adds_jobs db (snd (fold (repair_turn now c existing) ts acc))"
  using a
proof (induction ts arbitrary: acc)
  case (Cons t ts)
  have c1: "get_call (vc_call_id c) (snd acc) = Some c"
    using c adds_jobs_calls [OF Cons.prems] by (simp add: get_call_def)
  have "adds_jobs db (snd (repair_turn now c existing t acc))"
    using Cons.prems adds_more [OF Cons.prems stage_job_adds [OF c1]] by (simp add: repair_turn_def)
  then show ?case using Cons.IH by simp
qed simp

lemma record_compensation_frame [simp]:
  "db_memory_jobs (record_compensation now cid db) = db_memory_jobs db"
  "db_calls (record_compensation now cid db) = db_calls db" "db_traces (record_compensation now cid db) = db_traces db"
  by (simp_all add: record_compensation_def split: option.splits)

lemma adds_jobs_frame:
  assumes "adds_jobs db db1" "db_memory_jobs db2 = db_memory_jobs db1" "db_calls db2 = db_calls db1" "db_traces db2 = db_traces db1"
  shows "adds_jobs db db2"
  using assms(1) by (rule adds_more) (simp add: adds_job_def assms)

lemma compensate_adds: "adds_jobs db (snd (compensate now cid audited db))"
proof (cases "get_call cid db")
  case None
  then show ?thesis by (simp add: compensate_def adds_none)
next
  case (Some c)
  define acc where "acc = fold (repair_turn now c (map job_key (call_jobs cid db))) (closed_turns cid db) ([], db)"
  have "adds_jobs db (snd acc)" unfolding acc_def
    by (rule repair_adds) (use Some call_id_get [OF Some] in \<open>auto intro: adds_none\<close>)
  moreover have "snd (compensate now cid audited db) = db \<or>
     (db_memory_jobs (snd (compensate now cid audited db)) = db_memory_jobs (snd acc) \<and>
      db_calls (snd (compensate now cid audited db)) = db_calls (snd acc) \<and>
      db_traces (snd (compensate now cid audited db)) = db_traces (snd acc))"
    using Some by (simp add: compensate_def Let_def acc_def [symmetric])
  moreover have "adds_jobs db db" by (simp add: adds_none)
  ultimately show ?thesis using adds_jobs_frame by metis
qed

section \<open>The fence\<close>

text \<open>After the fence every job of the call is closed; the jobs of other calls are as they were.\<close>

definition fence_row :: "string \<Rightarrow> memory_job \<Rightarrow> memory_job" where
  "fence_row cid j = (if mj_call_id j = cid \<and> open_status (mj_status j) then cancel_job ''deletion_fence'' j else j)"

lemma fence_job_frame [simp]:
  "db_calls (fence_job j db) = db_calls db" "db_traces (fence_job j db) = db_traces db"
  by (simp_all add: fence_job_def Let_def split: option.splits)

lemma fence_job_jobs:
  "db_memory_jobs (fence_job j db) =
     (if open_status (mj_status j) then row_put mj_id (cancel_job ''deletion_fence'' j) (db_memory_jobs db) else db_memory_jobs db)"
  by (simp add: fence_job_def Let_def split: option.splits)

lemma fold_fence_frame [simp]:
  "db_calls (fold fence_job js db) = db_calls db" "db_traces (fold fence_job js db) = db_traces db"
  by (induction js arbitrary: db) simp_all

lemma fold_fence_jobs:
  assumes "distinct (map mj_id js)"
  shows "db_memory_jobs (fold fence_job js db) =
    map (\<lambda>x. case find (\<lambda>j. mj_id j = mj_id x \<and> open_status (mj_status j)) js of
        None \<Rightarrow> x | Some j \<Rightarrow> cancel_job ''deletion_fence'' j) (db_memory_jobs db)"
  using assms
proof (induction js arbitrary: db)
  case (Cons j js)
  have n: "find (\<lambda>k. mj_id k = mj_id j \<and> open_status (mj_status k)) js = None"
    using Cons.prems unfolding find_None_iff by (metis distinct.simps(2) image_eqI list.map(2) list.set_map)
  have c: "mj_id (cancel_job r j) = mj_id j" for r by (simp add: cancel_job_def)
  show ?case using Cons n by (auto simp: fence_job_jobs row_put_def c)
qed simp

lemma stage_fence_tables:
  assumes inv: "mem_inv db" and c: "get_call cid db = Some c"
  shows "db_memory_jobs (snd (stage_deletion_fence now cid db)) = map (fence_row cid) (db_memory_jobs db)"
    "db_traces (snd (stage_deletion_fence now cid db)) = db_traces db"
    "fenced (snd (stage_deletion_fence now cid db)) d \<longleftrightarrow> d = cid \<or> fenced db d"
    "trace_pos (snd (stage_deletion_fence now cid db)) r = trace_pos db r"
proof -
  define js where "js = sort_key mj_id (filter (\<lambda>j. mj_call_id j = cid) (db_memory_jobs db))"
  define db0 where "db0 = (if vc_deletion_fence_at c = None then put_call (c\<lparr>vc_deletion_fence_at := Some now\<rparr>) db else db)"
  have eq: "snd (stage_deletion_fence now cid db) = fold fence_job js db0"
    using c by (simp add: stage_deletion_fence_def Let_def js_def db0_def)
  have d: "distinct (map mj_id (db_memory_jobs db))" using mem_invD(1) [OF inv] .
  then have dj: "distinct (map mj_id js)" unfolding js_def
    by (simp add: distinct_map distinct_filter distinct_sort inj_on_def)
  have "(case find (\<lambda>j. mj_id j = mj_id x \<and> open_status (mj_status j)) js of
        None \<Rightarrow> x | Some j \<Rightarrow> cancel_job ''deletion_fence'' j) = fence_row cid x"
    if x: "x \<in> set (db_memory_jobs db)" for x
  proof (cases "find (\<lambda>j. mj_id j = mj_id x \<and> open_status (mj_status j)) js")
    case None
    then have "\<not> (x \<in> set js \<and> open_status (mj_status x))" by (auto simp: find_None_iff)
    with None x show ?thesis by (auto simp: fence_row_def js_def)
  next
    case (Some j)
    then have j: "j \<in> set js" "mj_id j = mj_id x" "open_status (mj_status j)" by (auto dest: find_Some_mem)
    then have "j = x" using d x by (auto simp: js_def distinct_map inj_on_def)
    with Some j show ?thesis by (simp add: fence_row_def js_def)
  qed
  then show "db_memory_jobs (snd (stage_deletion_fence now cid db)) = map (fence_row cid) (db_memory_jobs db)"
    unfolding eq fold_fence_jobs [OF dj] by (simp add: db0_def)
  show "db_traces (snd (stage_deletion_fence now cid db)) = db_traces db" unfolding eq by (simp add: db0_def)
  have cc: "get_call e db0 = (if e = cid then Some (c\<lparr>vc_deletion_fence_at := (if vc_deletion_fence_at c = None then Some now else vc_deletion_fence_at c)\<rparr>) else get_call e db)" for e
    using calls.get_put_same [OF c, of "c\<lparr>vc_deletion_fence_at := Some now\<rparr>"]
      calls.get_put_other [OF c, of "c\<lparr>vc_deletion_fence_at := Some now\<rparr>" e] call_id_get [OF c] c
    by (auto simp: db0_def)
  have gc: "get_call e (fold fence_job js db0) = get_call e db0" for e by (simp add: get_call_def)
  show "fenced (snd (stage_deletion_fence now cid db)) d \<longleftrightarrow> d = cid \<or> fenced db d"
    unfolding eq fenced_def gc cc by auto
  show "trace_pos (snd (stage_deletion_fence now cid db)) r = trace_pos db r"
    unfolding eq trace_pos_def gc cc using c by auto
qed

lemma fence_row_same: "same_job j (fence_row cid j)"
  by (simp add: fence_row_def cancel_job_def same_job_def)

lemma fence_inv:
  assumes inv: "mem_inv db"
  shows "mem_inv (snd (stage_deletion_fence now cid db))"
proof (cases "get_call cid db")
  case None
  then show ?thesis using inv by (simp add: stage_deletion_fence_def)
next
  case (Some c)
  note T = stage_fence_tables [OF inv Some] and I = mem_invD [OF inv]
  have tl: "trace_le (snd (stage_deletion_fence now cid db)) = trace_le db" by (simp add: fun_eq_iff trace_le_def T(4))
  have fr: "mj_id (fence_row cid j) = mj_id j" "mj_turn_id (fence_row cid j) = mj_turn_id j"
    "mj_pipeline_version (fence_row cid j) = mj_pipeline_version j" "mj_call_id (fence_row cid j) = mj_call_id j" for j
    using fence_row_same [of j cid] by (simp_all add: same_job_def)
  show ?thesis
  proof (rule mem_invI)
    show "uk_voice_memory_job (db_memory_jobs (snd (stage_deletion_fence now cid db)))"
      using I(2) by (simp add: T(1) uk_voice_memory_job_def o_def fr)
    fix j assume "j \<in> set (db_memory_jobs (snd (stage_deletion_fence now cid db)))"
    then obtain k where k: "k \<in> set (db_memory_jobs db)" "j = fence_row cid k" by (auto simp: T(1))
    show "job_ok j" using I(4) [OF k(1)] unfolding k(2)
      by (auto simp: fence_row_def job_ok_def cancel_job_def open_status_def)
    show "\<not> open_status (mj_status j)" if "fenced (snd (stage_deletion_fence now cid db)) (mj_call_id j)"
      using that I(5) [OF k(1)] unfolding k(2) fr T(3) by (auto simp: fence_row_def cancel_job_def open_status_def)
  qed (use I in \<open>simp_all add: T tl o_def fr\<close>)
qed

lemma commit_inv: "mem_inv (commit_flush db) = mem_inv db"
proof -
  have "db_calls (commit_flush db) = db_calls db" by simp
  from calls_same [OF this] show ?thesis by (simp add: mem_inv_def)
qed

section \<open>Every action\<close>

lemma mem_apply_inv:
  assumes inv: "mem_inv db"
  shows "mem_inv (mem_apply x act db)"
proof (cases act)
  case (A_enqueue now locked cid tid)
  then show ?thesis using adds_job_inv [OF inv enqueue_adds] by simp
next
  case (A_compensate now cid audited)
  then show ?thesis using adds_jobs_inv [OF compensate_adds inv] by simp
next
  case (A_fence now cid)
  then show ?thesis using fence_inv [OF inv] by (simp add: commit_inv)
next
  case (A_claim now locked token cid)
  then show ?thesis using one_step_inv [OF inv claim_next_step [OF inv, where adm = True]] inv
    by (auto simp: committed_def split: sum.splits)
next
  case (A_save now cid jid token items dropped)
  then show ?thesis using one_step_inv [OF inv save_snapshot_step [OF inv, where adm = True]] inv
    by (auto simp: committed_def split: sum.splits)
next
  case (A_write now busy actual cid jid token a)
  have "mem_inv db'" if job: "job_of_call cid jid db"
    and r: "write_atom x now busy actual cid jid token (call_user cid db) (job_index jid db) a db = Inr (w, db')" for w db'
    using write_atom_cases [OF inv job r, where adm = True]
  proof
    assume "w \<noteq> Written \<and> one_step True db db'"
    then show ?thesis using one_step_inv [OF inv] by blast
  next
    assume "\<exists>c j doc. w = Written \<and> get_call cid db = Some c \<and> vc_deletion_fence_at c = None \<and>
       get_memory_job jid db = Some j \<and> holds_lease now token j \<and> doc = build_doc_id x (at_type a) (at_key a) (call_user cid db) \<and>
       actual = Inr doc \<and> \<not> newer_trace c (call_user cid db) (job_index jid db) doc db \<and> \<not> same_trace cid (job_index jid db) doc db \<and>
       db' = commit_flush (db\<lparr>db_traces := db_traces db @ [new_trace now cid (job_index jid db) doc a]\<rparr>)"
    then obtain c doc where w: "get_call cid db = Some c" "\<not> newer_trace c (call_user cid db) (job_index jid db) doc db"
      "\<not> same_trace cid (job_index jid db) doc db"
      "db' = commit_flush (db\<lparr>db_traces := db_traces db @ [new_trace now cid (job_index jid db) doc a]\<rparr>)" by blast
    show ?thesis
      by (rule trace_append_inv [OF inv w(1) _ w(2,3)]) (use w in \<open>simp_all add: call_user_def\<close>)
  qed
  then show ?thesis using A_write inv by (auto simp: committed_def split: sum.splits)
next
  case (A_finish now cid jid token st reason)
  then show ?thesis using one_step_inv [OF inv finish_job_step [OF inv, where adm = True]] inv
    by (auto simp: committed_def split: sum.splits)
next
  case (A_purge now locked jid)
  then show ?thesis using one_step_inv [OF inv purge_one_step [OF inv, where adm = True]] by simp
next
  case (A_admin now role locked jid)
  then show ?thesis using one_step_inv [OF inv retry_memory_job_step [OF inv]] inv
    by (auto simp: committed_def split: sum.splits)
qed

lemma mem_run_inv: "mem_inv db \<Longrightarrow> mem_inv (mem_run x acts db)"
  unfolding mem_run_def by (induction acts arbitrary: db) (simp_all add: mem_apply_inv)

end
