(* ===== verification/MemoryClaims.thy ===== *)
theory MemoryClaims
  imports MemoryInv
begin

text \<open>
  The properties of the memory jobs: lifecycle and ownership, retry budget, deletion fence, order of
  the traces, authorised writes, the rejections of the administrative retry, and the acceptance of
  every event.
\<close>

section \<open>The effect of an action\<close>

fun is_admin :: "mem_action \<Rightarrow> bool" where
  "is_admin (A_admin now role locked jid) = True"
| "is_admin _ = False"

definition writes_trace :: "mem_text \<Rightarrow> mem_action \<Rightarrow> database \<Rightarrow> database \<Rightarrow> bool" where
  "writes_trace x act db db' \<longleftrightarrow>
     (\<exists>now cid jid token a c j doc. act = A_write now False (Inr doc) cid jid token a \<and>
        get_call cid db = Some c \<and> vc_deletion_fence_at c = None \<and> get_memory_job jid db = Some j \<and>
        mj_call_id j = cid \<and> holds_lease now token j \<and>
        doc = build_doc_id x (at_type a) (at_key a) (vc_user_id c) \<and>
        db' = commit_flush (db\<lparr>db_traces := db_traces db @ [new_trace now cid (mj_turn_index j) doc a]\<rparr>))"

definition fences :: "mem_action \<Rightarrow> database \<Rightarrow> database \<Rightarrow> bool" where
  "fences act db db' \<longleftrightarrow> (\<exists>now cid c. act = A_fence now cid \<and> get_call cid db = Some c \<and>
     db' = commit_flush (snd (stage_deletion_fence now cid db)))"

lemma committed_step:
  assumes "\<And>v d. r = Inr (v, d) \<Longrightarrow> P d" "P db"
  shows "P (committed db r)"
  using assms by (auto simp: committed_def split: sum.splits)

lemma mem_apply_effect:
  assumes inv: "mem_inv db"
  shows "adds_jobs db (mem_apply x act db) \<or> one_step (is_admin act) db (mem_apply x act db) \<or>
    writes_trace x act db (mem_apply x act db) \<or> fences act db (mem_apply x act db)"
proof (cases act)
  case (A_enqueue now locked cid tid)
  have "adds_jobs db db" by (simp add: adds_none)
  from adds_more [OF this enqueue_adds] show ?thesis using A_enqueue by simp
next
  case (A_compensate now cid audited)
  then show ?thesis using compensate_adds by simp
next
  case (A_fence now cid)
  show ?thesis
  proof (cases "get_call cid db")
    case None
    then have "mem_apply x act db = commit_flush db" using A_fence by (simp add: stage_deletion_fence_def)
    then show ?thesis by simp
  next
    case (Some c)
    then show ?thesis using A_fence unfolding fences_def by auto
  qed
next
  case (A_claim now locked token cid)
  have "one_step False db (mem_apply x act db)"
    using A_claim by (auto simp: committed_def split: sum.splits dest: claim_next_step [OF inv, where adm = False])
  then show ?thesis using A_claim by simp
next
  case (A_save now cid jid token items dropped)
  have "one_step False db (mem_apply x act db)"
    using A_save by (auto simp: committed_def split: sum.splits dest: save_snapshot_step [OF inv, where adm = False])
  then show ?thesis using A_save by simp
next
  case (A_write now busy actual cid jid token a)
  have "one_step False db d \<or> writes_trace x act db d"
    if job: "job_of_call cid jid db"
    and r: "write_atom x now busy actual cid jid token (call_user cid db) (job_index jid db) a db = Inr (w, d)" for w d
  proof -
    have nb: "\<not> busy" using r by (simp add: write_atom_def Let_def split: if_splits)
    show ?thesis
      using write_atom_cases [OF inv job r, where adm = False] job nb A_write
      by (auto simp: writes_trace_def call_user_def job_index_def job_of_call_def)
  qed
  then show ?thesis using A_write
      committed_step [of "write_atom x now busy actual cid jid token (call_user cid db) (job_index jid db) a db"
        "\<lambda>d. one_step False db d \<or> writes_trace x act db d" db]
    by auto
next
  case (A_finish now cid jid token st reason)
  have "one_step False db (mem_apply x act db)"
    using A_finish by (auto simp: committed_def split: sum.splits dest: finish_job_step [OF inv, where adm = False])
  then show ?thesis using A_finish by simp
next
  case (A_purge now locked jid)
  then show ?thesis using purge_one_step [OF inv] by simp
next
  case (A_admin now role locked jid)
  have "one_step True db (mem_apply x act db)"
    using A_admin by (auto simp: committed_def split: sum.splits dest: retry_memory_job_step [OF inv])
  then show ?thesis using A_admin by simp
qed

lemma one_step_tables: "one_step adm db db' \<Longrightarrow> db_calls db' = db_calls db \<and> db_traces db' = db_traces db"
  by (auto simp: one_step_def job_frame_def one_job_def)

lemma adds_jobs_jobs: "adds_jobs db db' \<Longrightarrow> set (db_memory_jobs db) \<subseteq> set (db_memory_jobs db') \<and>
    (\<forall>j \<in> set (db_memory_jobs db') - set (db_memory_jobs db). mj_attempt_count j = 0 \<and> mj_next_retry_at j = None)"
  by (induction rule: adds_jobs.induct) (auto simp: adds_job_def)

lemma one_step_jobs:
  assumes inv: "mem_inv db" and st: "one_step adm db db'" and j: "j \<in> set (db_memory_jobs db)"
  shows "\<exists>j' \<in> set (db_memory_jobs db'). j' = j \<or> job_move adm (call_limit db (mj_call_id j)) j j'"
proof -
  from st consider "db_memory_jobs db' = db_memory_jobs db"
    | k k' where "get_memory_job (mj_id k) db = Some k" "same_job k k'"
      "db_memory_jobs db' = row_put mj_id k' (db_memory_jobs db)" "job_move adm (call_limit db (mj_call_id k)) k k'"
    unfolding one_step_def job_frame_def one_job_def by blast
  then show ?thesis
  proof cases
    case 1
    with j show ?thesis by auto
  next
    case 2
    note ru = row_put_unique [OF mem_invD(1) [OF inv] get_job_mem [OF 2(1), THEN conjunct1] 2(2)]
    show ?thesis
    proof (cases "j = k")
      case True
      then show ?thesis using ru 2 by auto
    next
      case False
      then show ?thesis using ru 2 j by auto
    qed
  qed
qed

lemma fence_row_move: "fence_row cid j = j \<or> job_move adm cap j (fence_row cid j)"
  by (cases "mj_status j") (auto simp: fence_row_def job_move_def cancel_job_def same_job_def open_status_def)

lemma mem_apply_jobs:
  assumes inv: "mem_inv db" and j: "j \<in> set (db_memory_jobs db)"
  shows "\<exists>j' \<in> set (db_memory_jobs (mem_apply x act db)).
     j' = j \<or> job_move (is_admin act) (call_limit db (mj_call_id j)) j j'"
  using mem_apply_effect [OF inv, of x act]
proof (elim disjE)
  assume "adds_jobs db (mem_apply x act db)"
  with j show ?thesis by (auto dest: adds_jobs_jobs)
next
  assume "one_step (is_admin act) db (mem_apply x act db)"
  from one_step_jobs [OF inv this j] show ?thesis .
next
  assume "writes_trace x act db (mem_apply x act db)"
  then have "db_memory_jobs (mem_apply x act db) = db_memory_jobs db" by (auto simp: writes_trace_def)
  with j show ?thesis by auto
next
  assume "fences act db (mem_apply x act db)"
  then obtain now cid c where f: "get_call cid db = Some c"
    "mem_apply x act db = commit_flush (snd (stage_deletion_fence now cid db))" by (auto simp: fences_def)
  have "fence_row cid j \<in> set (db_memory_jobs (mem_apply x act db))"
    using j by (simp add: f(2) stage_fence_tables(1) [OF inv f(1)])
  then show ?thesis using fence_row_move by blast
qed

lemma mem_apply_tables:
  assumes inv: "mem_inv db"
  shows "fenced db d \<Longrightarrow> fenced (mem_apply x act db) d"
    "call_limit (mem_apply x act db) d = call_limit db d"
    "db_traces (mem_apply x act db) = db_traces db \<or>
       (\<exists>r. writes_trace x act db (mem_apply x act db) \<and> \<not> fenced db (mt_call_id r) \<and> db_traces (mem_apply x act db) = db_traces db @ [r])"
proof -
  let ?d = "mem_apply x act db"
  consider "db_calls ?d = db_calls db" "db_traces ?d = db_traces db" | "writes_trace x act db ?d" | "fences act db ?d"
    using mem_apply_effect [OF inv, of x act] one_step_tables adds_jobs_calls by blast
  then have "(fenced db d \<longrightarrow> fenced ?d d) \<and> call_limit ?d d = call_limit db d \<and>
      (db_traces ?d = db_traces db \<or> (\<exists>r. writes_trace x act db ?d \<and> \<not> fenced db (mt_call_id r) \<and> db_traces ?d = db_traces db @ [r]))"
  proof cases
    case 1
    from calls_same [OF 1(1)] show ?thesis using 1 by (simp add: call_limit_def)
  next
    case 2
    then obtain now cid c and j :: memory_job and doc a where w: "get_call cid db = Some c" "vc_deletion_fence_at c = None"
      "?d = commit_flush (db\<lparr>db_traces := db_traces db @ [new_trace now cid (mj_turn_index j) doc a]\<rparr>)"
      unfolding writes_trace_def by (elim exE conjE) (rule that)
    have "db_calls ?d = db_calls db" unfolding w(3) by simp
    from calls_same [OF this] have "(fenced db d \<longrightarrow> fenced ?d d) \<and> call_limit ?d d = call_limit db d" by (simp add: call_limit_def)
    moreover have "\<not> fenced db (mt_call_id (new_trace now cid (mj_turn_index j) doc a))"
      using w(1,2) by (simp add: fenced_def new_trace_def)
    moreover have "db_traces ?d = db_traces db @ [new_trace now cid (mj_turn_index j) doc a]" unfolding w(3) by simp
    ultimately show ?thesis using 2 by blast
  next
    case 3
    then obtain now cid c where f: "get_call cid db = Some c" "?d = commit_flush (snd (stage_deletion_fence now cid db))"
      by (auto simp: fences_def)
    note T = stage_fence_tables [OF inv f(1), of now]
    have "db_calls (commit_flush (snd (stage_deletion_fence now cid db))) = db_calls (snd (stage_deletion_fence now cid db))" by simp
    note C = calls_same [OF this]
    have lim: "call_limit (snd (stage_deletion_fence now cid db)) d = call_limit db d"
    proof -
      define js where "js = sort_key mj_id (filter (\<lambda>j. mj_call_id j = cid) (db_memory_jobs db))"
      define db0 where "db0 = (if vc_deletion_fence_at c = None then put_call (c\<lparr>vc_deletion_fence_at := Some now\<rparr>) db else db)"
      have eq: "snd (stage_deletion_fence now cid db) = fold fence_job js db0"
        using f(1) by (simp add: stage_deletion_fence_def Let_def js_def db0_def)
      have g: "get_call d (fold fence_job js db0) = get_call d db0" by (simp add: get_call_def)
      have "get_call d db0 = get_call d db \<or>
          (d = cid \<and> get_call d db0 = Some (c\<lparr>vc_deletion_fence_at := Some now\<rparr>))"
        using calls.get_put_same [OF f(1), of "c\<lparr>vc_deletion_fence_at := Some now\<rparr>"]
          calls.get_put_other [OF f(1), of "c\<lparr>vc_deletion_fence_at := Some now\<rparr>" d] call_id_get [OF f(1)]
        by (auto simp: db0_def)
      then show ?thesis unfolding eq call_limit_def g using f(1) by (auto simp: memory_script_def)
    qed
    have lim': "call_limit ?d d = call_limit (snd (stage_deletion_fence now cid db)) d"
      unfolding f(2) by (simp add: call_limit_def C(1))
    show ?thesis using T lim lim' unfolding f(2) C(2) by simp
  qed
  then show "fenced db d \<Longrightarrow> fenced ?d d" "call_limit ?d d = call_limit db d"
    "db_traces ?d = db_traces db \<or> (\<exists>r. writes_trace x act db ?d \<and> \<not> fenced db (mt_call_id r) \<and> db_traces ?d = db_traces db @ [r])"
    by blast+
qed

lemma run_induct [consumes 1, case_names Nil Cons]:
  assumes "mem_inv db" "\<And>db. mem_inv db \<Longrightarrow> P [] db db"
    "\<And>act acts db. mem_inv db \<Longrightarrow> mem_inv (mem_apply x act db) \<Longrightarrow>
       P acts (mem_apply x act db) (mem_run x acts (mem_apply x act db)) \<Longrightarrow>
       P (act # acts) db (mem_run x (act # acts) db)"
  shows "P acts db (mem_run x acts db)"
  using assms(1)
proof (induction acts arbitrary: db)
  case Nil
  then show ?case using assms(2) by (simp add: mem_run_def)
next
  case (Cons act acts)
  have i: "mem_inv (mem_apply x act db)" using Cons.prems by (rule mem_apply_inv)
  show ?case using assms(3) [OF Cons.prems i Cons.IH [OF i]] .
qed

lemma mem_run_Cons: "mem_run x (act # acts) db = mem_run x acts (mem_apply x act db)"
  by (simp add: mem_run_def)

section \<open>The deletion fence\<close>

lemma run_fenced:
  assumes "mem_inv db" "fenced db cid"
  shows "fenced (mem_run x acts db) cid \<and>
    filter (\<lambda>r. mt_call_id r = cid) (db_traces (mem_run x acts db)) = filter (\<lambda>r. mt_call_id r = cid) (db_traces db)"
  using assms
proof (induction acts arbitrary: db)
  case (Cons act acts)
  note M = mem_apply_tables [OF Cons.prems(1)]
  have "filter (\<lambda>r. mt_call_id r = cid) (db_traces (mem_apply x act db)) = filter (\<lambda>r. mt_call_id r = cid) (db_traces db)"
    using M(3) [of x act] Cons.prems(2) by auto
  with Cons.IH [OF mem_apply_inv [OF Cons.prems(1)] M(1) [OF Cons.prems(2)]] show ?case
    by (simp add: mem_run_Cons)
qed (simp add: mem_run_def)

text \<open>C5: Deletion is final for the memory of a call. Once the deletion fence is committed, whatever the
  workers, the compensation, the administrators and the purge do afterwards in any order and at any
  times, every job of the call is closed and holds no snapshot of its text, and no further trace, so no
  further vector, is ever written for the call; what was written before is kept.\<close>

theorem deletion_fence_final:
  assumes "mem_inv db" "get_call cid db = Some c"
  shows "(\<forall>j \<in> set (db_memory_jobs (mem_run x acts (mem_apply x (A_fence now cid) db))).
      mj_call_id j = cid \<longrightarrow> mj_status j \<in> {Mem_success, Mem_skipped, Mem_cancelled} \<and> mj_extraction_snapshot j = None) \<and>
    filter (\<lambda>r. mt_call_id r = cid) (db_traces (mem_run x acts (mem_apply x (A_fence now cid) db))) =
      filter (\<lambda>r. mt_call_id r = cid) (db_traces db)"
proof -
  let ?d = "mem_apply x (A_fence now cid) db"
  have i: "mem_inv ?d" using assms(1) by (rule mem_apply_inv)
  have "db_calls ?d = db_calls (snd (stage_deletion_fence now cid db))" by simp
  note C = calls_same [OF this]
  note T = stage_fence_tables [OF assms, of now]
  have f: "fenced ?d cid" unfolding C(2) using T(3) by simp
  have t: "db_traces ?d = db_traces db" using T(2) by simp
  note R = run_fenced [OF i f, of x acts]
  have "mj_status j \<in> {Mem_success, Mem_skipped, Mem_cancelled} \<and> mj_extraction_snapshot j = None"
    if "j \<in> set (db_memory_jobs (mem_run x acts ?d))" "mj_call_id j = cid" for j
    using mem_invD(4,5) [OF mem_run_inv [OF i] that(1)] R that(2)
    by (cases "mj_status j") (auto simp: open_status_def job_ok_def)
  with R t show ?thesis by simp
qed

definition demo_job :: memory_job where
  "demo_job = \<lparr>mj_id = 1, mj_call_id = ''c'', mj_turn_id = 1, mj_turn_index = 1, mj_pipeline_version = pipeline_version,
     mj_status = Mem_pending, mj_attempt_count = 0, mj_next_retry_at = None, mj_extraction_snapshot = None,
     mj_fail_reason = None, mj_lease_owner = None, mj_lease_expires_at = None, mj_created_at = 0\<rparr>"

definition demo_script :: json where
  "demo_script = JObj [(''resolved_script'', JObj [(''memory'', JObj [(''max_retries'', JInt 1), (''retry_backoff_ms'', JList [JInt 1000])])])]"

definition demo_db :: database where
  "demo_db = empty_db\<lparr>db_calls := [(blank_call 1 ''c'' 7 Ended)\<lparr>vc_transcript_expires_at := Some 1000000000000, vc_config_snapshot := demo_script\<rparr>],
     db_turns := [demo_turn], db_memory_jobs := [demo_job]\<rparr>"

lemma demo_call: "\<exists>c. get_call ''c'' demo_db = Some c \<and> vc_call_id c = ''c'' \<and> vc_deletion_fence_at c = None \<and>
    vc_transcript_expires_at c = Some 1000000000000 \<and> vc_config_snapshot c = demo_script"
  by (simp add: demo_db_def get_call_def row_find_def)

lemma demo_inv: "mem_inv demo_db"
  by (simp add: mem_inv_def demo_db_def demo_job_def empty_db_def uk_voice_memory_job_def uk_voice_memory_trace_def
      job_ok_def fenced_def get_call_def row_find_def)

theorem deletion_fence_final_witness:
  "filter (\<lambda>r. mt_call_id r = ''c'') (db_traces (mem_run demo_text [A_claim 3 False ''t'' ''c''] (mem_apply demo_text (A_fence 2 ''c'') demo_db))) = []"
proof -
  obtain c where "get_call ''c'' demo_db = Some c" using demo_call by blast
  from deletion_fence_final [OF demo_inv this, of demo_text "[A_claim 3 False ''t'' ''c'']" 2]
  show ?thesis by (simp add: demo_db_def empty_db_def)
qed

section \<open>Lifecycle\<close>

text \<open>C20: Every action moves every job along the status table: from \<open>pending\<close> to \<open>processing\<close> or a closed
  state, from \<open>processing\<close> to an outcome, from \<open>failed\<close> back to \<open>processing\<close> only when a retry is
  scheduled, back to \<open>pending\<close> only by an administrator; \<open>success\<close>, \<open>skipped\<close> and \<open>cancelled\<close> are final.
  A closed job never changes again, no job disappears or changes its identity, and only a claim counts
  an attempt.\<close>

theorem memory_job_lifecycle:
  assumes "mem_inv db" "j \<in> set (db_memory_jobs db)"
  shows "mem_inv (mem_apply x act db) \<and>
    (\<exists>j' \<in> set (db_memory_jobs (mem_apply x act db)). mj_id j' = mj_id j \<and> mj_turn_id j' = mj_turn_id j \<and>
      (j' = j \<or> open_status (mj_status j) \<and> (mj_status j' = mj_status j \<or> mj_status j' \<in> set (memory_edges (mj_status j)))) \<and>
      mj_attempt_count j' = mj_attempt_count j + (if mj_status j \<noteq> Mem_processing \<and> mj_status j' = Mem_processing then 1 else 0) \<and>
      (mj_status j = Mem_failed \<and> mj_status j' = Mem_processing \<longrightarrow> mj_next_retry_at j \<noteq> None) \<and>
      (mj_status j = Mem_failed \<and> mj_status j' = Mem_pending \<longrightarrow> is_admin act))"
proof -
  obtain j' where j': "j' \<in> set (db_memory_jobs (mem_apply x act db))"
    "j' = j \<or> job_move (is_admin act) (call_limit db (mj_call_id j)) j j'"
    using mem_apply_jobs [OF assms] by blast
  have op: "open_status (mj_status j)" if "mj_status j' \<in> set (memory_edges (mj_status j))"
    using that by (cases "mj_status j") (simp_all add: open_status_def)
  from j'(2) have "mj_id j' = mj_id j \<and> mj_turn_id j' = mj_turn_id j \<and>
      (j' = j \<or> open_status (mj_status j) \<and> (mj_status j' = mj_status j \<or> mj_status j' \<in> set (memory_edges (mj_status j)))) \<and>
      mj_attempt_count j' = mj_attempt_count j + (if mj_status j \<noteq> Mem_processing \<and> mj_status j' = Mem_processing then 1 else 0) \<and>
      (mj_status j = Mem_failed \<and> mj_status j' = Mem_processing \<longrightarrow> mj_next_retry_at j \<noteq> None) \<and>
      (mj_status j = Mem_failed \<and> mj_status j' = Mem_pending \<longrightarrow> is_admin act)"
  proof
    assume m: "job_move (is_admin act) (call_limit db (mj_call_id j)) j j'"
    then have "open_status (mj_status j)" using op unfolding job_move_def by blast
    with m show ?thesis unfolding job_move_def same_job_def by blast
  qed auto
  with j'(1) mem_apply_inv [OF assms(1)] show ?thesis by blast
qed

theorem memory_job_lifecycle_witness:
  "\<exists>j' \<in> set (db_memory_jobs (mem_apply demo_text (A_claim 3 False ''t'' ''c'') demo_db)). mj_id j' = 1"
proof -
  have "demo_job \<in> set (db_memory_jobs demo_db)" by (simp add: demo_db_def)
  from memory_job_lifecycle [OF demo_inv this, of demo_text "A_claim 3 False ''t'' ''c''"]
  show ?thesis by (auto simp: demo_job_def)
qed

section \<open>The retry budget\<close>

definition within_budget :: "int \<Rightarrow> int option \<Rightarrow> memory_job \<Rightarrow> bool" where
  "within_budget n cap j \<longleftrightarrow>
     (case cap of None \<Rightarrow> True
      | Some r \<Rightarrow> (if mj_status j = Mem_pending then mj_attempt_count j \<le> r + n else mj_attempt_count j \<le> r + 1 + n) \<and>
          (mj_status j = Mem_failed \<and> mj_next_retry_at j \<noteq> None \<longrightarrow> mj_attempt_count j \<le> r))"

definition budget_inv :: "int \<Rightarrow> database \<Rightarrow> bool" where
  "budget_inv n db \<longleftrightarrow> (\<forall>j \<in> set (db_memory_jobs db). within_budget n (call_limit db (mj_call_id j)) j)"

lemma call_limit_nonneg: "call_limit db cid = Some r \<Longrightarrow> 0 \<le> r \<and> r \<le> 5"
  by (auto simp: call_limit_def bindR_def split: option.splits sum.splits dest: retry_policy_ok)

lemma move_budget:
  assumes "within_budget n cap j" "job_move adm cap j j'" "0 \<le> n" "cap = Some r \<Longrightarrow> 0 \<le> r"
  shows "within_budget (n + (if adm then 1 else 0)) cap j'"
proof (cases cap)
  case None
  then show ?thesis by (simp add: within_budget_def)
next
  case (Some r')
  show ?thesis using assms Some
    by (cases "mj_status j"; cases "mj_status j'") (auto simp: within_budget_def job_move_def)
qed

lemma budget_apply:
  assumes inv: "mem_inv db" and b: "budget_inv n db" and n: "0 \<le> n"
  shows "budget_inv (n + (if is_admin act then 1 else 0)) (mem_apply x act db)"
  unfolding budget_inv_def
proof
  let ?d = "mem_apply x act db"
  let ?n = "n + (if is_admin act then 1 else 0)"
  fix k assume k: "k \<in> set (db_memory_jobs ?d)"
  have lim: "call_limit ?d d = call_limit db d" for d by (rule mem_apply_tables(2) [OF inv])
  have mono: "within_budget ?n (call_limit db (mj_call_id j)) j" if "j \<in> set (db_memory_jobs db)" for j
    using b that by (force simp: budget_inv_def within_budget_def split: option.splits)
  have fresh: "within_budget ?n cap j" if "mj_attempt_count j = 0" "mj_next_retry_at j = None" "\<And>r. cap = Some r \<Longrightarrow> 0 \<le> r" for cap j
    using that n by (auto simp: within_budget_def split: option.splits)
  show "within_budget ?n (call_limit ?d (mj_call_id k)) k"
  proof (cases "k \<in> set (db_memory_jobs db)")
    case True
    then show ?thesis unfolding lim by (rule mono)
  next
    case new: False
    show ?thesis
    proof (cases "\<exists>j \<in> set (db_memory_jobs db). mj_id j = mj_id k")
      case True
      then obtain j where j: "j \<in> set (db_memory_jobs db)" "mj_id j = mj_id k" by blast
      obtain j' where j': "j' \<in> set (db_memory_jobs ?d)" "j' = j \<or> job_move (is_admin act) (call_limit db (mj_call_id j)) j j'"
        using mem_apply_jobs [OF inv j(1)] by blast
      have "mj_id j' = mj_id k" using j'(2) j(2) by (auto simp: job_move_def same_job_def)
      then have "j' = k" using mem_invD(1) [OF mem_apply_inv [OF inv]] j'(1) k by (auto simp: distinct_map inj_on_def)
      with j' j(1) new have m: "job_move (is_admin act) (call_limit db (mj_call_id j)) j k" by auto
      have "within_budget n (call_limit db (mj_call_id j)) j" using b j(1) by (simp add: budget_inv_def)
      from move_budget [OF this m n] call_limit_nonneg have "within_budget ?n (call_limit db (mj_call_id j)) k" by blast
      moreover have "mj_call_id k = mj_call_id j" using m by (simp add: job_move_def same_job_def)
      ultimately show ?thesis unfolding lim by simp
    next
      case False
      have "adds_jobs db ?d"
        using mem_apply_effect [OF inv, of x act]
      proof (elim disjE)
        assume "one_step (is_admin act) db ?d"
        then have "map mj_id (db_memory_jobs ?d) = map mj_id (db_memory_jobs db)"
          by (auto simp: one_step_def job_frame_def one_job_def)
        then have "mj_id ` set (db_memory_jobs ?d) = mj_id ` set (db_memory_jobs db)" unfolding list.set_map [symmetric] by simp
        with False k show ?thesis by force
      next
        assume "writes_trace x act db ?d"
        then have "db_memory_jobs ?d = db_memory_jobs db" by (auto simp: writes_trace_def)
        with new k show ?thesis by simp
      next
        assume "fences act db ?d"
        then obtain now cid c where f: "get_call cid db = Some c"
          "?d = commit_flush (snd (stage_deletion_fence now cid db))" by (auto simp: fences_def)
        have "k \<in> fence_row cid ` set (db_memory_jobs db)" using k by (simp add: f(2) stage_fence_tables(1) [OF inv f(1)])
        with False fence_row_same show ?thesis by (auto simp: same_job_def)
      qed
      with new k have "mj_attempt_count k = 0 \<and> mj_next_retry_at k = None" using adds_jobs_jobs by blast
      with fresh call_limit_nonneg show ?thesis unfolding lim by blast
    qed
  qed
qed

definition admin_count :: "mem_action list \<Rightarrow> int" where
  "admin_count acts = int (length (filter is_admin acts))"

lemma budget_run:
  "mem_inv db \<Longrightarrow> budget_inv n db \<Longrightarrow> 0 \<le> n \<Longrightarrow> budget_inv (n + admin_count acts) (mem_run x acts db)"
proof (induction acts arbitrary: db n)
  case (Cons act acts)
  have "budget_inv (n + (if is_admin act then 1 else 0) + admin_count acts) (mem_run x acts (mem_apply x act db))"
    by (rule Cons.IH [OF mem_apply_inv [OF Cons.prems(1)] budget_apply [OF Cons.prems]]) (use Cons.prems(3) in simp)
  moreover have "n + (if is_admin act then 1 else 0) + admin_count acts = n + admin_count (act # acts)"
    by (simp add: admin_count_def)
  ultimately show ?case by (simp add: mem_run_Cons)
qed (simp add: mem_run_def admin_count_def)

lemma call_limit_run: "mem_inv db \<Longrightarrow> call_limit (mem_run x acts db) d = call_limit db d"
proof (induction acts arbitrary: db)
  case (Cons act acts)
  then show ?case using mem_apply_inv mem_apply_tables(2) by (simp add: mem_run_Cons)
qed (simp add: mem_run_def)

text \<open>C33: The retry budget bounds the work on a job. From any state without jobs, in every interleaving of
  the operations, a job of a call whose script allows \<open>r\<close> retries (at most five) is claimed, and so
  inferred and written, at most \<open>r + 1\<close> times, plus once for each administrative retry of the run; a
  retry is scheduled automatically only while the attempts are at most \<open>r\<close>. So the automatic processing
  of every job ends.\<close>

theorem retry_budget:
  assumes "mem_inv db" "db_memory_jobs db = []" "j \<in> set (db_memory_jobs (mem_run x acts db))"
    "call_limit db (mj_call_id j) = Some r"
  shows "0 \<le> r \<and> r \<le> 5 \<and> mj_attempt_count j \<le> r + 1 + admin_count acts \<and>
    (mj_status j = Mem_failed \<and> mj_next_retry_at j \<noteq> None \<longrightarrow> mj_attempt_count j \<le> r)"
proof -
  have "budget_inv 0 db" using assms(2) by (simp add: budget_inv_def)
  from budget_run [OF assms(1) this, of acts x] have "budget_inv (admin_count acts) (mem_run x acts db)" by simp
  with assms(3) have "within_budget (admin_count acts) (call_limit db (mj_call_id j)) j"
    by (simp add: budget_inv_def call_limit_run [OF assms(1)])
  with assms(4) call_limit_nonneg [OF assms(4)] show ?thesis by (auto simp: within_budget_def split: if_splits)
qed

section \<open>Order and uniqueness of the traces\<close>

lemma run_traces_prefix: "mem_inv db \<Longrightarrow> \<exists>new. db_traces (mem_run x acts db) = db_traces db @ new"
proof (induction acts arbitrary: db)
  case (Cons act acts)
  from Cons.IH [OF mem_apply_inv [OF Cons.prems]] obtain new where
    "db_traces (mem_run x acts (mem_apply x act db)) = db_traces (mem_apply x act db) @ new" by blast
  with mem_apply_tables(3) [OF Cons.prems, of x act] show ?case by (auto simp: mem_run_Cons)
qed (simp add: mem_run_def)

text \<open>The vectors of a user never go back in time. In every interleaving of the operations the traces
  only grow, each (call, turn, document) is written at most once, and for every document the writes
  happen in the order of the calls and of the turns inside a call: a worker that is late with an older
  turn finds the newer trace and does not write.\<close>

theorem memory_writes_ordered:
  assumes "mem_inv db"
  shows "(\<exists>new. db_traces (mem_run x acts db) = db_traces db @ new) \<and>
    uk_voice_memory_trace (db_traces (mem_run x acts db)) \<and>
    sorted_wrt (trace_le (mem_run x acts db)) (db_traces (mem_run x acts db))"
  using run_traces_prefix [OF assms] mem_invD(3,6) [OF mem_run_inv [OF assms]] by blast

theorem memory_writes_ordered_witness:
  "uk_voice_memory_trace (db_traces (mem_run demo_text [A_claim 3 False ''t'' ''c''] demo_db))"
  using memory_writes_ordered [OF demo_inv] by blast

text \<open>A vector is written only with authority: when an action adds a trace, it is the write of a worker
  that holds the unexpired lease of a processing job of that call, the call is not fenced, the document
  is the one of the call's user, the writer confirmed exactly this document, and the new trace names the
  turn of the job.\<close>

theorem memory_write_authorised:
  assumes "mem_inv db" "db_traces (mem_apply x act db) \<noteq> db_traces db"
  shows "\<exists>now cid jid token a c j doc. act = A_write now False (Inr doc) cid jid token a \<and>
    get_call cid db = Some c \<and> vc_deletion_fence_at c = None \<and> get_memory_job jid db = Some j \<and>
    mj_call_id j = cid \<and> mj_status j = Mem_processing \<and> mj_lease_owner j = Some token \<and> lease_live now j \<and>
    doc = build_doc_id x (at_type a) (at_key a) (vc_user_id c) \<and>
    db_traces (mem_apply x act db) = db_traces db @ [new_trace now cid (mj_turn_index j) doc a]"
proof -
  have "writes_trace x act db (mem_apply x act db)" using mem_apply_tables(3) [OF assms(1), of x act] assms(2) by auto
  then obtain now cid jid token a c j doc where w: "act = A_write now False (Inr doc) cid jid token a"
    "get_call cid db = Some c" "vc_deletion_fence_at c = None" "get_memory_job jid db = Some j" "mj_call_id j = cid"
    "holds_lease now token j" "doc = build_doc_id x (at_type a) (at_key a) (vc_user_id c)"
    and d: "mem_apply x act db = commit_flush (db\<lparr>db_traces := db_traces db @ [new_trace now cid (mj_turn_index j) doc a]\<rparr>)"
    unfolding writes_trace_def by (elim exE conjE) (rule that)
  have "db_traces (mem_apply x act db) = db_traces db @ [new_trace now cid (mj_turn_index j) doc a]" unfolding d by simp
  with w show ?thesis unfolding holds_lease_def by blast
qed

definition demo_running :: database where
  "demo_running = demo_db\<lparr>db_memory_jobs := [demo_job\<lparr>mj_status := Mem_processing, mj_lease_owner := Some ''t'',
     mj_lease_expires_at := Some 100, mj_extraction_snapshot := Some extracting_snapshot, mj_attempt_count := 1\<rparr>]\<rparr>"

lemma demo_running_inv: "mem_inv demo_running"
  by (simp add: mem_inv_def demo_running_def demo_db_def demo_job_def empty_db_def uk_voice_memory_job_def
      uk_voice_memory_trace_def job_ok_def fenced_def get_call_def row_find_def open_status_def)

definition demo_atom :: atom where
  "demo_atom = \<lparr>at_type = User_memory, at_key = asc ''a-b-c'', at_content = asc ''x''\<rparr>"

definition demo_write :: mem_action where
  "demo_write = A_write 3 False (Inr (build_doc_id demo_text User_memory (asc ''a-b-c'') 7)) ''c'' 1 ''t'' demo_atom"

lemma demo_write_traces: "db_traces (mem_apply demo_text demo_write demo_running) \<noteq> db_traces demo_running"
proof -
  have "get_call ''c'' demo_running = Some ((blank_call 1 ''c'' 7 Ended)\<lparr>vc_transcript_expires_at := Some 1000000000000, vc_config_snapshot := demo_script\<rparr>)"
    by (simp add: demo_running_def demo_db_def get_call_def row_find_def)
  moreover have "\<exists>j. get_memory_job 1 demo_running = Some j \<and> mj_call_id j = ''c'' \<and> mj_turn_id j = 1 \<and> mj_turn_index j = 1 \<and> holds_lease 3 ''t'' j"
    by (simp add: demo_running_def demo_job_def get_memory_job_def row_find_def holds_lease_def lease_live_def)
  moreover have "get_turn 1 demo_running = Some demo_turn"
    by (simp add: demo_running_def demo_db_def get_turn_def row_find_def demo_turn_def)
  moreover have "db_traces demo_running = []" by (simp add: demo_running_def demo_db_def empty_db_def)
  ultimately show ?thesis
    by (auto simp: demo_write_def job_of_call_def committed_def write_atom_def Let_def call_user_def job_index_def
        source_live_def source_expiry_def newer_trace_def same_trace_def demo_atom_def)
qed

theorem memory_write_authorised_witness:
  "length (db_traces (mem_apply demo_text demo_write demo_running)) = 1"
proof -
  obtain r where "db_traces (mem_apply demo_text demo_write demo_running) = db_traces demo_running @ [r]"
    using memory_write_authorised [OF demo_running_inv demo_write_traces] by blast
  moreover have "db_traces demo_running = []" by (simp add: demo_running_def demo_db_def empty_db_def)
  ultimately show ?thesis by simp
qed

definition demo_fresh :: database where
  "demo_fresh = demo_db\<lparr>db_memory_jobs := []\<rparr>"

theorem retry_budget_witness:
  "\<exists>j \<in> set (db_memory_jobs (mem_run demo_text [A_enqueue 1 False ''c'' 1] demo_fresh)). mj_attempt_count j \<le> 2"
proof -
  let ?d = "mem_run demo_text [A_enqueue 1 False ''c'' 1] demo_fresh"
  have inv: "mem_inv demo_fresh" "db_memory_jobs demo_fresh = []"
    by (simp_all add: mem_inv_def demo_fresh_def demo_db_def empty_db_def uk_voice_memory_job_def uk_voice_memory_trace_def)
  have c: "get_call ''c'' demo_fresh = Some ((blank_call 1 ''c'' 7 Ended)\<lparr>vc_transcript_expires_at := Some 1000000000000, vc_config_snapshot := demo_script\<rparr>)"
    by (simp add: demo_fresh_def demo_db_def get_call_def row_find_def)
  have t: "get_turn 1 demo_fresh = Some demo_turn" "tn_call_id demo_turn = ''c''" "tn_status demo_turn = Finalized"
    by (simp_all add: demo_fresh_def demo_db_def get_turn_def row_find_def demo_turn_def)
  obtain j where j: "j \<in> set (db_memory_jobs ?d)" "mj_call_id j = ''c''"
    using c t inv(2) by (auto simp: mem_run_def enqueue_def stage_job_def find_job_def Let_def new_job_def)
  have l: "call_limit demo_fresh ''c'' = Some 1"
    using c by (simp add: call_limit_def memory_script_def demo_script_def retry_policy_def jget_def'_def jget_def)
  have "mj_attempt_count j \<le> 2"
    using retry_budget [OF inv j(1), of 1] l j(2) by (simp add: admin_count_def)
  with j(1) show ?thesis by blast
qed

section \<open>Ownership of a lease\<close>

fun worker_of :: "mem_action \<Rightarrow> (datetime \<times> string) option" where
  "worker_of (A_claim now locked token cid) = Some (now, token)"
| "worker_of (A_save now cid jid token items dropped) = Some (now, token)"
| "worker_of (A_write now busy actual cid jid token a) = Some (now, token)"
| "worker_of (A_finish now cid jid token st reason) = Some (now, token)"
| "worker_of _ = None"

text \<open>The only row a transaction may touch, if any, satisfies a condition.\<close>

definition touches :: "(memory_job \<Rightarrow> bool) \<Rightarrow> database \<Rightarrow> database \<Rightarrow> bool" where
  "touches P db db' \<longleftrightarrow> db_memory_jobs db' = db_memory_jobs db \<or>
     (\<exists>k k'. k \<in> set (db_memory_jobs db) \<and> P k \<and> mj_id k' = mj_id k \<and> db_memory_jobs db' = row_put mj_id k' (db_memory_jobs db))"

lemma touches_same: "db_memory_jobs db' = db_memory_jobs db \<Longrightarrow> touches P db db'"
  by (simp add: touches_def)

lemma touchesI:
  "get_memory_job i db = Some k \<Longrightarrow> P k \<Longrightarrow> mj_id k' = mj_id k \<Longrightarrow>
     db_memory_jobs db' = row_put mj_id k' (db_memory_jobs db) \<Longrightarrow> touches P db db'"
  using get_job_mem unfolding touches_def by blast

lemma touches_other:
  assumes "distinct (map mj_id (db_memory_jobs db))" "touches P db db'" "j \<in> set (db_memory_jobs db)" "\<not> P j"
  shows "j \<in> set (db_memory_jobs db')"
proof -
  have "y = k" if "y \<in> set (db_memory_jobs db)" "k \<in> set (db_memory_jobs db)" "mj_id y = mj_id k" for y k
    using assms(1) that by (auto simp: distinct_map inj_on_def)
  with assms(2-4) show ?thesis by (force simp: touches_def row_put_def)
qed

definition moves_to :: "memory_job \<Rightarrow> database \<Rightarrow> database \<Rightarrow> bool" where
  "moves_to j db db' \<longleftrightarrow> db_memory_jobs db' = db_memory_jobs db \<or>
     (\<exists>k'. mj_id k' = mj_id j \<and> db_memory_jobs db' = row_put mj_id k' (db_memory_jobs db))"

lemma moves_to_simps [simp]:
  "moves_to j db db"
  "mj_id k' = mj_id j \<Longrightarrow> moves_to j db (put_outcome k' t r db)"
  "mj_id k' = mj_id j \<Longrightarrow> moves_to j db (put_outcome k' t r (stage evs db))"
  "mj_id k' = mj_id j \<Longrightarrow> moves_to j db (stage evs (put_turn t (put_memory_job k' db)))"
  "mj_id k' = mj_id j \<Longrightarrow> moves_to j db (put_memory_job k' db)"
  "moves_to j db (commit_flush d) = moves_to j db d"
  "mj_id (expired_job now n ds j) = mj_id j" "mj_id (start_job now token j) = mj_id j"
  "mj_id (finished_job now st rs ra j) = mj_id j" "mj_id (cancel_job why j) = mj_id j"
  by (auto simp: moves_to_def expired_job_def start_job_def finished_job_def cancel_job_def)

lemma claim_row_moves:
  assumes "claim_row now token c j t db = Inr (res, db')"
  shows "moves_to j db db'"
proof (cases "vc_deletion_fence_at c = None")
  case False
  with assms show ?thesis by (auto simp: claim_row_def)
next
  case True
  obtain script retries delays where sc: "memory_script c = Inr script" "retry_policy script = Inr (retries, delays)"
    using assms True by (auto simp: claim_row_def bindR_Inr_iff Let_def)
  define expired where "expired = (mj_status j = Mem_processing \<and> \<not> lease_live now j)"
  define due where "due = (mj_status j = Mem_failed \<and> (case mj_next_retry_at j of None \<Rightarrow> False | Some r \<Rightarrow> r \<le> now))"
  note r' = assms [unfolded claim_row_def Let_def, folded expired_def due_def, simplified sc True bindR_simps prod.case]
  show ?thesis using r' by (simp split: if_split_asm) auto
qed

lemma moves_touches:
  assumes "moves_to k db db'" "get_memory_job i db = Some k" "P k"
  shows "touches P db db'"
  using assms touchesI touches_same unfolding moves_to_def by metis

lemma claim_row_busy:
  assumes "claim_row now token c j t db = Inr (res, db')" "vc_deletion_fence_at c = None"
    "mj_status j = Mem_processing" "lease_live now j"
  shows "db' = db"
proof -
  obtain script retries delays where sc: "memory_script c = Inr script" "retry_policy script = Inr (retries, delays)"
    using assms(1,2) by (auto simp: claim_row_def bindR_Inr_iff Let_def)
  show ?thesis using assms by (simp add: claim_row_def sc)
qed

lemma claim_next_touches:
  assumes inv: "mem_inv db" and r: "claim_next now locked token cid db = Inr (res, db')"
  shows "touches (\<lambda>k. \<not> (mj_status k = Mem_processing \<and> lease_live now k)) db db'"
proof -
  have "db' = db \<or> (\<exists>c k t db1. get_call cid db = Some c \<and> next_job cid db = Some k \<and>
      claim_row now token c k t db = Inr (res, db1) \<and> db' = (if res = Busy then db1 else commit_flush db1))"
    using r by (auto simp: claim_next_def bindR_Inr_iff split: option.splits if_splits)
  then show ?thesis
  proof
    assume "\<exists>c k t db1. get_call cid db = Some c \<and> next_job cid db = Some k \<and>
      claim_row now token c k t db = Inr (res, db1) \<and> db' = (if res = Busy then db1 else commit_flush db1)"
    then obtain c k t db1 where k: "get_call cid db = Some c" "next_job cid db = Some k"
      "claim_row now token c k t db = Inr (res, db1)" "db' = (if res = Busy then db1 else commit_flush db1)" by blast
    note N = next_job_props [OF k(2)]
    have g: "get_memory_job (mj_id k) db = Some k" using mem_get_job [OF inv N(1)] .
    have "open_status (mj_status k)" using N(3) by (auto simp: claimable_def open_status_def)
    then have nf: "vc_deletion_fence_at c = None"
      using mem_invD(5) [OF inv N(1)] k(1) N(2) by (cases "vc_deletion_fence_at c") (auto simp: fenced_def)
    show ?thesis
    proof (cases "mj_status k = Mem_processing \<and> lease_live now k")
      case True
      then have "db1 = db" using claim_row_busy [OF k(3) nf] by blast
      moreover have "db_memory_jobs db' = db_memory_jobs db1" by (simp add: k(4))
      ultimately show ?thesis by (simp add: touches_same)
    next
      case False
      have "moves_to k db db'" using claim_row_moves [OF k(3)] by (simp add: k(4))
      then show ?thesis by (rule moves_touches [OF _ g]) (use False in simp)
    qed
  qed (simp add: touches_same)
qed

lemma save_snapshot_touches:
  assumes "save_snapshot now cid jid token items dropped db = Inr (b, db')"
  shows "touches (holds_lease now token) db db'"
proof (cases b)
  case True
  with assms obtain j where j: "get_memory_job jid db = Some j" "holds_lease now token j"
    "db' = commit_flush (put_memory_job (j\<lparr>mj_extraction_snapshot := Some (ready_snapshot items dropped)\<rparr>) db)"
    by (auto simp: save_snapshot_def split: option.splits if_splits)
  have "moves_to j db db'" by (simp add: j(3))
  from moves_touches [OF this j(1), of "holds_lease now token"] j(2) show ?thesis by blast
next
  case False
  with assms have "db' = db" by (auto simp: save_snapshot_def split: option.splits if_splits)
  then show ?thesis by (simp add: touches_same)
qed

lemma finish_job_touches:
  assumes "finish_job now cid jid token status reason db = Inr (st, db')"
  shows "touches (holds_lease now token) db db'"
proof -
  obtain c j where cj: "get_call cid db = Some c" "get_memory_job jid db = Some j"
    using assms by (auto simp: finish_job_def split: option.splits)
  show ?thesis
  proof (cases "holds_lease now token j")
    case True
    from finish_job_Inr [OF assms cj True] obtain rs ra t where
      "db' = commit_flush (put_outcome (finished_job now st rs ra j) (t\<lparr>tn_memory_status := st\<rparr>) None
           (if st = Mem_skipped then stage [ev ''voice.memory_extract.skip'' [(''reason'', skip_dim rs)] 1] db else db))"
      by blast
    then have "moves_to j db db'" by (cases "st = Mem_skipped") simp_all
    from moves_touches [OF this cj(2), of "holds_lease now token"] True show ?thesis by blast
  next
    case False
    with assms cj show ?thesis by (simp add: finish_job_def touches_same)
  qed
qed

lemma write_atom_touches:
  assumes inv: "mem_inv db" and job: "job_of_call cid jid db"
    and r: "write_atom x now busy actual cid jid token u idx a db = Inr (w, db')"
  shows "touches (holds_lease now token) db db'"
proof -
  define doc where "doc = build_doc_id x (at_type a) (at_key a) u"
  obtain j c t where jct: "get_memory_job jid db = Some j" "get_call cid db = Some c" "get_turn (mj_turn_id j) db = Some t"
    and nb: "\<not> busy"
    using r by (auto simp: write_atom_def Let_def split: option.splits if_splits)
  note r' = r [unfolded write_atom_def Let_def, folded doc_def, simplified nb jct if_False prod.case option.case]
  show ?thesis
  proof (cases "vc_deletion_fence_at c \<noteq> None \<or> \<not> holds_lease now token j")
    case True
    have "mj_call_id j = cid" using job jct(1) by (simp add: job_of_call_def)
    then have "\<not> (vc_deletion_fence_at c \<noteq> None \<and> open_status (mj_status j))"
      using job_of_inv(2) [OF inv jct(1)] jct(2) by (auto simp: fenced_def)
    then have "db' = db" using r' True by (auto split: if_splits)
    then show ?thesis by (simp add: touches_same)
  next
    case F: False
    have "moves_to j db db'"
    proof (cases "source_live now c t")
      case False
      then have "db' = commit_flush (put_outcome (cancel_job ''source_expired'' j) (t\<lparr>tn_memory_status := Mem_cancelled\<rparr>) None db)"
        using r' F by auto
      then show ?thesis by simp
    next
      case True
      then have "db_memory_jobs db' = db_memory_jobs db" using r' F by (auto simp: bindR_Inr_iff split: if_splits)
      then show ?thesis by (simp add: moves_to_def)
    qed
    from moves_touches [OF this jct(1), of "holds_lease now token"] F show ?thesis by blast
  qed
qed

lemma committed_touches: "(\<And>v d. r = Inr (v, d) \<Longrightarrow> touches P db d) \<Longrightarrow> touches P db (committed db r)"
  by (auto simp: committed_def touches_same split: sum.splits)

text \<open>A lease is exclusive. While a worker holds the unexpired lease of a job, no transaction of another
  worker at that instant, be it a claim, a snapshot, a write or a finish, changes the row of the job: the
  loser of a lease can neither overwrite the snapshot nor settle the job of the new owner.\<close>

theorem lease_exclusive:
  assumes "mem_inv db" "j \<in> set (db_memory_jobs db)" "holds_lease now owner j"
    "worker_of act = Some (now, token)" "token \<noteq> owner"
  shows "j \<in> set (db_memory_jobs (mem_apply x act db))"
proof -
  define P where "P k \<longleftrightarrow> \<not> (mj_status k = Mem_processing \<and> lease_live now k) \<or> holds_lease now token k" for k
  have weak: "touches P db d" if "touches Q db d" "\<And>k. Q k \<Longrightarrow> P k" for Q d
    using that unfolding touches_def by blast
  have "touches P db (mem_apply x act db)"
  proof (cases act)
    case (A_claim now' locked token' cid)
    then have n: "now' = now" using assms(4) by simp
    have "touches P db d" if "claim_next now locked token' cid db = Inr (v, d)" for v d
      using claim_next_touches [OF assms(1) that] by (rule weak) (simp add: P_def)
    then have "touches P db (committed db (claim_next now locked token' cid db))" by (rule committed_touches)
    then show ?thesis using A_claim n by simp
  next
    case (A_save now' cid jid token' items dropped)
    then have n: "now' = now" "token' = token" using assms(4) by simp_all
    have "touches P db d" if "save_snapshot now cid jid token items dropped db = Inr (v, d)" for v d
      using save_snapshot_touches [OF that] by (rule weak) (simp add: P_def)
    then have "touches P db (committed db (save_snapshot now cid jid token items dropped db))" by (rule committed_touches)
    then show ?thesis using A_save n by (simp add: touches_same)
  next
    case (A_write now' busy actual cid jid token' a)
    then have n: "now' = now" "token' = token" using assms(4) by simp_all
    have "touches P db d" if "job_of_call cid jid db"
      "write_atom x now busy actual cid jid token (call_user cid db) (job_index jid db) a db = Inr (v, d)" for v d
      using write_atom_touches [OF assms(1) that] by (rule weak) (simp add: P_def)
    then have "job_of_call cid jid db \<Longrightarrow> touches P db (committed db
        (write_atom x now busy actual cid jid token (call_user cid db) (job_index jid db) a db))"
      by (intro committed_touches)
    then show ?thesis using A_write n by (simp add: touches_same)
  next
    case (A_finish now' cid jid token' st reason)
    then have n: "now' = now" "token' = token" using assms(4) by simp_all
    have "touches P db d" if "finish_job now cid jid token st reason db = Inr (v, d)" for v d
      using finish_job_touches [OF that] by (rule weak) (simp add: P_def)
    then have "touches P db (committed db (finish_job now cid jid token st reason db))" by (rule committed_touches)
    then show ?thesis using A_finish n by (simp add: touches_same)
  qed (use assms(4) in simp_all)
  moreover have "\<not> P j" using assms(3,5) by (auto simp: P_def holds_lease_def)
  ultimately show ?thesis using touches_other [OF mem_invD(1) [OF assms(1)]] assms(2) by blast
qed

theorem lease_exclusive_witness:
  "hd (db_memory_jobs demo_running) \<in>
     set (db_memory_jobs (mem_apply demo_text (A_claim 3 False ''other'' ''c'') demo_running))"
  by (rule lease_exclusive [OF demo_running_inv, where owner = "''t''" and now = 3 and token = "''other''"])
    (simp_all add: demo_running_def holds_lease_def lease_live_def)

section \<open>The administrative retry\<close>

text \<open>The administrative retry is refused (an error carries no database, so nothing is written) for anyone but the two roles
  (403), for an unknown job (404), while any job of the call is processing or its row is held (409), and
  unless the job failed for one of the three retryable reasons in an unfenced call whose text has not
  expired and whose snapshot is intact. When it is granted only the status, the schedule and the lease of
  that one row change: the attempts and the snapshot are kept, so the job can be claimed again at once
  but its automatic budget is not replenished.\<close>

theorem retry_memory_job_exact:
  "(\<forall>j' db'. retry_memory_job x now role locked jid db = Inr (j', db') \<longrightarrow>
      (\<exists>j c t. get_memory_job jid db = Some j \<and> role \<in> {''super_admin'', ''tech_ops''} \<and> \<not> locked \<and>
        \<not> list_ex (\<lambda>k. mj_call_id k = mj_call_id j \<and> mj_status k = Mem_processing) (db_memory_jobs db) \<and>
        get_call (mj_call_id j) db = Some c \<and> vc_deletion_fence_at c = None \<and> get_turn (mj_turn_id j) db = Some t \<and>
        source_live now c t \<and> mj_status j = Mem_failed \<and>
        mj_fail_reason j \<in> {Some ''extract_unavailable'', Some ''write_unavailable'', Some ''lease_expired''} \<and>
        snapshot_rejection x (mj_extraction_snapshot j) = None \<and>
        j' = j\<lparr>mj_status := Mem_pending, mj_next_retry_at := None, mj_lease_owner := None, mj_lease_expires_at := None\<rparr> \<and>
        db_memory_jobs db' = row_put mj_id j' (db_memory_jobs db) \<and> claimable j' \<and>
        mj_attempt_count j' = mj_attempt_count j \<and> mj_extraction_snapshot j' = mj_extraction_snapshot j)) \<and>
   (role \<notin> {''super_admin'', ''tech_ops''} \<longrightarrow> retry_memory_job x now role locked jid db = Inl (ConfigError ''VOICE_JOB_FORBIDDEN'' 403)) \<and>
   (role = ''tech_ops'' \<and> get_memory_job jid db = None \<longrightarrow>
      retry_memory_job x now role locked jid db = Inl (ConfigError ''VOICE_JOB_NOT_FOUND'' 404))"
proof (intro conjI allI impI)
  fix j' db' assume r: "retry_memory_job x now role locked jid db = Inr (j', db')"
  obtain j c t where j: "get_memory_job jid db = Some j" "role \<in> {''super_admin'', ''tech_ops''}" "\<not> locked"
    "\<not> list_ex (\<lambda>k. mj_call_id k = mj_call_id j \<and> mj_status k = Mem_processing) (db_memory_jobs db)"
    "get_call (mj_call_id j) db = Some c" "vc_deletion_fence_at c = None" "get_turn (mj_turn_id j) db = Some t"
    "source_live now c t" "mj_status j = Mem_failed" "mj_fail_reason j \<in> Some ` set retryable_reasons"
    "snapshot_rejection x (mj_extraction_snapshot j) = None"
    "j' = j\<lparr>mj_status := Mem_pending, mj_next_retry_at := None, mj_lease_owner := None, mj_lease_expires_at := None\<rparr>"
    "db_memory_jobs db' = row_put mj_id j' (db_memory_jobs db)"
    using r by (auto simp: retry_memory_job_def Let_def split: if_splits option.splits)
  have "claimable j'" by (simp add: j(12) claimable_def)
  moreover have "mj_fail_reason j \<in> {Some ''extract_unavailable'', Some ''write_unavailable'', Some ''lease_expired''}"
    using j(10) by (simp add: retryable_reasons_def)
  moreover have "mj_attempt_count j' = mj_attempt_count j" "mj_extraction_snapshot j' = mj_extraction_snapshot j"
    by (simp_all add: j(12))
  ultimately show "\<exists>j c t. get_memory_job jid db = Some j \<and> role \<in> {''super_admin'', ''tech_ops''} \<and> \<not> locked \<and>
        \<not> list_ex (\<lambda>k. mj_call_id k = mj_call_id j \<and> mj_status k = Mem_processing) (db_memory_jobs db) \<and>
        get_call (mj_call_id j) db = Some c \<and> vc_deletion_fence_at c = None \<and> get_turn (mj_turn_id j) db = Some t \<and>
        source_live now c t \<and> mj_status j = Mem_failed \<and>
        mj_fail_reason j \<in> {Some ''extract_unavailable'', Some ''write_unavailable'', Some ''lease_expired''} \<and>
        snapshot_rejection x (mj_extraction_snapshot j) = None \<and>
        j' = j\<lparr>mj_status := Mem_pending, mj_next_retry_at := None, mj_lease_owner := None, mj_lease_expires_at := None\<rparr> \<and>
        db_memory_jobs db' = row_put mj_id j' (db_memory_jobs db) \<and> claimable j' \<and>
        mj_attempt_count j' = mj_attempt_count j \<and> mj_extraction_snapshot j' = mj_extraction_snapshot j"
    using j by blast
qed (auto simp: retry_memory_job_def rejected_def)

theorem retry_memory_job_exact_witness:
  "retry_memory_job demo_text 3 ''viewer'' False 1 demo_db = Inl (ConfigError ''VOICE_JOB_FORBIDDEN'' 403)"
  using retry_memory_job_exact [of demo_text 3 "''viewer''" False 1 demo_db] by simp

section \<open>Events\<close>

lemma memory_dims:
  "r \<in> set memory_job_reasons \<Longrightarrow> dims_registered ''voice.memory_job.drop'' [(''reason'', r)]"
  "r \<in> set memory_job_reasons \<Longrightarrow> dims_registered ''voice.memory_job.retry'' [(''source'', ''automatic''), (''reason'', r)]"
  "r \<in> set memory_job_reasons \<Longrightarrow> dims_registered ''voice.memory_job.retry'' [(''source'', ''admin''), (''reason'', r)]"
  "dims_registered ''voice.memory_job.fence_cancel'' []"
  "dims_registered ''voice.memory_job.compensated_jobs'' []"
  "st \<in> {''repaired'', ''no_change''} \<Longrightarrow> dims_registered ''voice.memory_job.compensate'' [(''result'', st)]"
  "st \<in> {''success'', ''failed'', ''skipped'', ''cancelled''} \<Longrightarrow> dims_registered ''voice.memory_job.result'' [(''result'', st)]"
  "st \<in> {''pending'', ''skipped'', ''cancelled''} \<Longrightarrow> dims_registered ''voice.memory_job.enqueue'' [(''result'', st)]"
  "st \<in> {''pending'', ''skipped'', ''cancelled''} \<Longrightarrow> dims_registered ''voice.memory_extract.enqueue'' [(''result'', st)]"
  "st \<in> {''eligible'', ''skipped''} \<Longrightarrow> dims_registered ''voice.memory_extract.eligible'' [(''result'', st)]"
  "ph \<in> {''first'', ''retry''} \<Longrightarrow> dims_registered ''voice.memory_job.claim'' [(''phase'', ph)]"
  "ph \<in> {''first'', ''retry''} \<Longrightarrow> cp \<in> {''true'', ''false''} \<Longrightarrow>
     dims_registered ''voice.memory_job.enqueue_to_claim_ms'' [(''phase'', ph), (''capped'', cp)]"
  "r \<in> {''deletion_fence'', ''low_confidence'', ''no_user_text'', ''not_closed'', ''no_effective_text'', ''safety'', ''crisis'',
     ''no_meaningful_text'', ''invalid_output'', ''all_items_dropped'', ''no_items''} \<Longrightarrow>
     dims_registered ''voice.memory_extract.skip'' [(''reason'', r)]"
  by (rule reg_memory; simp add: name_component_def dims_in_def event_dims_memory_def dims_ok_def)+

lemma skip_reason_dim: "memory_skip_reason t \<in> {''deletion_fence'', ''low_confidence'', ''no_user_text'', ''not_closed'',
   ''no_effective_text'', ''safety'', ''crisis'', ''no_meaningful_text'', ''invalid_output'', ''all_items_dropped'', ''no_items''}"
  by (simp add: memory_skip_reason_def)

lemma outcome_events_ok:
  assumes "mj_status j \<in> {Mem_success, Mem_failed, Mem_skipped, Mem_cancelled}"
  shows "list_all event_ok (outcome_events j r)"
proof -
  have "memory_status_str (mj_status j) \<in> {''success'', ''failed'', ''skipped'', ''cancelled''}"
    using assms by (cases "mj_status j") simp_all
  moreover have "''deletion_fence'' \<in> set memory_job_reasons" by (simp add: memory_job_reasons_def)
  ultimately show ?thesis using memory_dims(7) memory_dims(1) [of "''deletion_fence''"]
    by (simp add: outcome_events_def Let_def ev_def event_ok_dims memory_dims(1,2) [OF job_reason_known] memory_dims(4))
qed

lemma staged_ok_cong: "db_staged d = db_staged e \<Longrightarrow> db_emitted d = db_emitted e \<Longrightarrow> staged_ok d = staged_ok e"
  by (simp add: staged_ok_def)

lemma staged_ok_frame [simp]:
  "staged_ok (put_turn t db) = staged_ok db" "staged_ok (put_memory_job j db) = staged_ok db"
  "staged_ok (put_call c db) = staged_ok db" "staged_ok (db\<lparr>db_memory_jobs := js\<rparr>) = staged_ok db"
  "staged_ok (db\<lparr>db_traces := ts\<rparr>) = staged_ok db" "staged_ok (db\<lparr>db_post_jobs := ps\<rparr>) = staged_ok db"
  by (simp_all add: staged_ok_def)

lemma staged_put_outcome:
  "mj_status j \<in> {Mem_success, Mem_failed, Mem_skipped, Mem_cancelled} \<Longrightarrow> staged_ok (put_outcome j t r db) = staged_ok db"
  using outcome_events_ok by (simp add: put_outcome_def)

lemma stage_job_events: "staged_ok db \<Longrightarrow> staged_ok (snd (stage_job now locked c t db))"
  using skip_reason_dim
  by (auto simp: stage_job_def Let_def enqueue_events_def initial_status_def ev_def event_ok_dims memory_dims split: option.splits)

lemma enqueue_events_kept: "staged_ok db \<Longrightarrow> staged_ok (snd (enqueue now locked cid tid db))"
proof (cases "get_call cid db"; cases "get_turn tid db")
  fix c t assume a: "staged_ok db" "get_call cid db = Some c" "get_turn tid db = Some t"
  have "snd (enqueue now locked cid tid db) \<in> {db, commit_flush (snd (stage_job now locked c t db))}"
    using a by (simp add: enqueue_def split: prod.splits)
  with stage_job_events [OF a(1), of now locked c t] a(1) show ?thesis by auto
qed (simp_all add: enqueue_def)

lemma fold_repair_events:
  "staged_ok (snd acc) \<Longrightarrow> staged_ok (snd (fold (repair_turn now c existing) ts acc)) \<and>
     length (fst (fold (repair_turn now c existing) ts acc)) \<le> length (fst acc) + length ts"
proof (induction ts arbitrary: acc)
  case (Cons t ts)
  have "staged_ok (snd (repair_turn now c existing t acc))" "length (fst (repair_turn now c existing t acc)) \<le> Suc (length (fst acc))"
    using Cons.prems stage_job_events by (simp_all add: repair_turn_def)
  with Cons.IH [of "repair_turn now c existing t acc"] show ?case by simp
qed simp

lemma record_compensation_events: "staged_ok (record_compensation now cid db) = staged_ok db"
  by (simp add: record_compensation_def split: option.splits)

lemma compensate_events:
  assumes "staged_ok db" "length (db_turns db) \<le> 1000000000"
  shows "staged_ok (snd (compensate now cid audited db))"
proof (cases "get_call cid db")
  case (Some c)
  define acc where "acc = fold (repair_turn now c (map job_key (call_jobs cid db))) (closed_turns cid db) ([], db)"
  have a: "staged_ok (snd acc)" "length (fst acc) \<le> length (closed_turns cid db)"
    using fold_repair_events [of "([], db)" now c "map job_key (call_jobs cid db)" "closed_turns cid db"] assms(1)
    by (simp_all add: acc_def)
  moreover have "length (closed_turns cid db) \<le> length (db_turns db)" by (simp add: closed_turns_def)
  ultimately have l: "int (length (fst acc)) \<le> 1000000000" using assms(2) by simp
  show ?thesis using Some assms(1) a(1) l
    by (simp add: compensate_def Let_def acc_def [symmetric] record_compensation_events ev_def event_ok_dims memory_dims)
qed (simp add: compensate_def assms)

lemma fence_events: "staged_ok db \<Longrightarrow> staged_ok (snd (stage_deletion_fence now cid db))"
proof -
  have one: "staged_ok d \<Longrightarrow> staged_ok (fence_job j d)" for j d
    using outcome_events_ok [of "cancel_job ''deletion_fence'' j" None]
    by (simp add: fence_job_def Let_def cancel_job_def split: option.splits)
  have "staged_ok d \<Longrightarrow> staged_ok (fold fence_job js d)" for js d
    by (induction js arbitrary: d) (simp_all add: one)
  then show "staged_ok db \<Longrightarrow> staged_ok (snd (stage_deletion_fence now cid db))"
    by (simp add: stage_deletion_fence_def Let_def split: option.splits)
qed

lemma claim_events_ok: "list_all event_ok (claim_events now j)"
  by (simp add: claim_events_def Let_def ev_def event_ok_dims memory_dims)

lemma claim_row_events:
  assumes "claim_row now token c j t db = Inr (res, db')" "staged_ok db"
  shows "staged_ok db'"
proof (cases "vc_deletion_fence_at c = None")
  case False
  with assms show ?thesis by (auto simp: claim_row_def staged_put_outcome)
next
  case True
  obtain script retries delays where sc: "memory_script c = Inr script" "retry_policy script = Inr (retries, delays)"
    using assms True by (auto simp: claim_row_def bindR_Inr_iff Let_def)
  define expired where "expired = (mj_status j = Mem_processing \<and> \<not> lease_live now j)"
  define due where "due = (mj_status j = Mem_failed \<and> (case mj_next_retry_at j of None \<Rightarrow> False | Some r \<Rightarrow> r \<le> now))"
  note r' = assms(1) [unfolded claim_row_def Let_def, folded expired_def due_def, simplified sc True bindR_simps prod.case]
  have e: "event_ok (ev ''voice.memory_extract.skip'' [(''reason'', memory_skip_reason t)] 1)"
    using skip_reason_dim [of t] by (simp add: ev_def event_ok_dims memory_dims)
  show ?thesis using r' assms(2)
    by (simp split: if_split_asm) (auto simp: staged_put_outcome expired_job_def e claim_events_ok)
qed

lemma mem_apply_events:
  assumes inv: "mem_inv db" and ok: "staged_ok db" and n: "length (db_turns db) \<le> 1000000000"
  shows "staged_ok (mem_apply x act db)"
proof (cases act)
  case (A_enqueue now locked cid tid)
  then show ?thesis using enqueue_events_kept [OF ok] by simp
next
  case (A_compensate now cid audited)
  then show ?thesis using compensate_events [OF ok n] by simp
next
  case (A_fence now cid)
  then show ?thesis using fence_events [OF ok] by simp
next
  case (A_claim now locked token cid)
  have "staged_ok d" if "claim_next now locked token cid db = Inr (res, d)" for res d
    using that ok by (auto simp: claim_next_def bindR_Inr_iff split: option.splits if_splits dest: claim_row_events)
  then show ?thesis using A_claim ok by (auto simp: committed_def split: sum.splits)
next
  case (A_save now cid jid token items dropped)
  have "staged_ok d" if "save_snapshot now cid jid token items dropped db = Inr (res, d)" for res d
    using that ok by (auto simp: save_snapshot_def split: option.splits if_splits)
  then show ?thesis using A_save ok by (auto simp: committed_def split: sum.splits)
next
  case (A_write now busy actual cid jid token a)
  have "staged_ok d" if "write_atom x now busy actual cid jid token u idx a db = Inr (res, d)" for res d u idx
    using that ok
    by (auto simp: write_atom_def Let_def bindR_Inr_iff staged_put_outcome cancel_job_def split: option.splits if_splits)
  then show ?thesis using A_write ok by (auto simp: committed_def split: sum.splits)
next
  case (A_finish now cid jid token st reason)
  have "staged_ok d" if r: "finish_job now cid jid token st reason db = Inr (res, d)"
    and st: "st \<in> {Mem_success, Mem_failed, Mem_skipped}" for res d
  proof -
    obtain c j where cj: "get_call cid db = Some c" "get_memory_job jid db = Some j"
      using r by (auto simp: finish_job_def split: option.splits)
    show ?thesis
    proof (cases "holds_lease now token j")
      case True
      from finish_job_Inr [OF r cj True] obtain rs ra t where f: "res = (if vc_deletion_fence_at c \<noteq> None then Mem_cancelled else st)"
        "d = commit_flush (put_outcome (finished_job now res rs ra j) (t\<lparr>tn_memory_status := res\<rparr>) None
           (if res = Mem_skipped then stage [ev ''voice.memory_extract.skip'' [(''reason'', skip_dim rs)] 1] db else db))"
        by blast
      have "mj_status (finished_job now res rs ra j) \<in> {Mem_success, Mem_failed, Mem_skipped, Mem_cancelled}"
        using st f(1) by (auto simp: finished_job_def)
      moreover have "event_ok (ev ''voice.memory_extract.skip'' [(''reason'', skip_dim rs)] 1)"
        by (simp add: ev_def event_ok_dims memory_dims skip_dim_def)
      ultimately show ?thesis using ok unfolding f(2) by (simp add: staged_put_outcome)
    next
      case False
      with r cj ok show ?thesis by (simp add: finish_job_def)
    qed
  qed
  then show ?thesis using A_finish ok by (auto simp: committed_def split: sum.splits)
next
  case (A_purge now locked jid)
  have "staged_ok (purge_one now (\<lambda>i. locked) jid db)"
    using ok by (simp add: purge_one_def purge_row_def staged_put_outcome cancel_job_def split: option.splits)
  then show ?thesis using A_purge by simp
next
  case (A_admin now role locked jid)
  have "staged_ok d" if r: "retry_memory_job x now role locked jid db = Inr (j', d)" for j' d
  proof -
    have "memory_job_reasons \<noteq> [] \<and> set retryable_reasons \<subseteq> set memory_job_reasons"
      by (simp add: retryable_reasons_def memory_job_reasons_def)
    then have e: "event_ok (ev ''voice.memory_job.retry'' [(''source'', ''admin''), (''reason'', r)] 1)"
      if "r \<in> set retryable_reasons" for r using that by (simp add: ev_def event_ok_dims memory_dims subset_iff)
    show ?thesis using r ok by (auto simp: retry_memory_job_def Let_def e split: if_splits option.splits)
  qed
  then show ?thesis using A_admin ok by (auto simp: committed_def split: sum.splits)
qed

text \<open>Every metric event the memory component stages is one the counters accept, in every action on
  every branch; so one memory transaction never makes the atomic emission of its events fail as a
  whole. (The number of turns is below the counters' limit.)\<close>

theorem memory_events_accepted:
  assumes "mem_inv db" "staged_ok db" "length (db_turns db) \<le> 1000000000"
  shows "staged_ok (mem_apply x act db)"
  using assms by (rule mem_apply_events)

theorem memory_events_accepted_witness: "staged_ok (mem_apply demo_text (A_fence 2 ''c'') demo_db)"
  by (rule memory_events_accepted [OF demo_inv]) (simp_all add: staged_ok_def demo_db_def empty_db_def)

end
