(* ===== verification/MemoryRun.thy ===== *)
theory MemoryRun
  imports MemoryClaims
begin

text \<open>
  The body of \<open>VoiceMemoryService.process_next\<close>: the extraction request, the safety filter around it,
  the snapshot, the writes of the items in their order and the finish, over the transactions of
  \<open>MemoryJob\<close>.

  \<open>mem_env\<close> holds what the worker meets: the model's answers (\<open>Inl\<close> is a raise or a missed deadline), the
  safety gate, the session buffer, the vector writer and the document lock, and the clock at each
  transaction. Between two transactions other sessions may run; that freedom is the subject of
  \<open>MemoryClaims\<close>, here they are idle.
\<close>

section \<open>The worker's surroundings\<close>

record mem_env =
  mv_text :: mem_text
  mv_gate :: gate
  mv_rules :: pystr
  mv_model :: "pystr \<Rightarrow> json res"
  mv_context :: "(string \<times> pystr) list res option"
  mv_append :: "atom \<Rightarrow> bool"
  mv_remove :: "atom \<Rightarrow> bool"
  mv_doc_busy :: "atom \<Rightarrow> bool"
  mv_writer :: "atom \<Rightarrow> string res"
  mv_clock :: "nat \<Rightarrow> datetime"

text \<open>\<open>_allows\<close>\<close>

definition allows :: "mem_env \<Rightarrow> pystr \<Rightarrow> bool" where
  "allows env t =
     (case g_assess (mv_gate env) User_side t of
        None \<Rightarrow> False
      | Some d \<Rightarrow> gd_safety d = Saf_passed \<and> gd_crisis d = Cri_passed)"

definition atom_text :: "atom \<Rightarrow> pystr" where
  "atom_text a = at_key a @ [10] @ at_content a"

section \<open>Extraction\<close>

datatype extraction = Ext_ready "atom list" nat | Ext_skipped | Ext_invalid | Ext_unavailable

definition memory_input :: "turn_row \<Rightarrow> pystr \<Rightarrow> json \<Rightarrow> pystr list \<Rightarrow> json" where
  "memory_input t previous relation candidates =
     JObj [(''call_id'', JStr (asc (tn_call_id t))), (''turn_index'', JInt (tn_turn_index t)),
       (''user_text'', JStr (opt_text (tn_user_text_final t))),
       (''assistant_text_effective'', JStr (opt_text (tn_assistant_text_effective t))),
       (''previous_turn_summary'', JStr previous), (''relationship_context'', relation),
       (''short_term_candidates'', JList (map JStr candidates)), (''origin_channel'', JStr (asc ''voice_call''))]"

definition build_memory_prompt :: "mem_env \<Rightarrow> json \<Rightarrow> pystr \<Rightarrow> pystr" where
  "build_memory_prompt env data template =
     mv_rules env @ [10] @ template @ [10] @ asc ''INPUT_JSON:'' @ [10] @ mx_dumps (mv_text env) data"

text \<open>A template that is not a text makes the concatenation raise, outside the \<open>try\<close>.\<close>

definition extract_memory :: "mem_env \<Rightarrow> claimed \<Rightarrow> pystr list \<Rightarrow> extraction res" where
  "extract_memory env cl candidates =
     (if \<not> eligible_turn (cl_turn cl) then Inr Ext_skipped
      else (case jget_def' (cl_script cl) ''prompt_template'' (JStr []) of
          JStr template \<Rightarrow>
            (case bindR (mv_model env (build_memory_prompt env
                      (memory_input (cl_turn cl) (cl_previous cl) (cl_relation cl) candidates) template))
                    (\<lambda>raw. parse_memory_items (mv_text env) raw (jget_def' (cl_script cl) ''max_items_per_turn'' (JInt 5))) of
               Inr p \<Rightarrow> Inr (Ext_ready (pa_items p) (pa_dropped p))
             | Inl (ValueError e) \<Rightarrow> Inr Ext_invalid
             | Inl e \<Rightarrow> Inr Ext_unavailable)
        | _ \<Rightarrow> Inl (RuntimeError ''TypeError'')))"

text \<open>The candidates of the session buffer, newest first while they fit.\<close>

fun take_candidates :: "int \<Rightarrow> (string \<times> pystr) list \<Rightarrow> pystr list \<Rightarrow> pystr list" where
  "take_candidates remaining [] acc = acc"
| "take_candidates remaining ((kind, t) # rest) acc =
     (if kind \<in> {''candidate'', ''correction'', ''unfinished_topic''} \<and> int (length t) \<le> remaining
      then take_candidates (remaining - int (length t)) rest (t # acc)
      else take_candidates remaining rest acc)"

definition buffered_candidates :: "mem_env \<Rightarrow> pystr list res" where
  "buffered_candidates env =
     (case mv_context env of
        None \<Rightarrow> Inr []
      | Some q \<Rightarrow> bindR q (\<lambda>items. Inr (take_candidates 8000 (rev items) [])))"

fun join_lines :: "pystr list \<Rightarrow> pystr" where
  "join_lines [] = []"
| "join_lines [t] = t"
| "join_lines (t # ts) = t @ [10] @ join_lines ts"

definition source_text :: "mem_env \<Rightarrow> claimed \<Rightarrow> pystr list \<Rightarrow> pystr" where
  "source_text env cl candidates =
     join_lines ([opt_text (tn_user_text_final (cl_turn cl)), opt_text (tn_assistant_text_effective (cl_turn cl)),
       cl_previous cl, mx_dumps (mv_text env) (cl_relation cl)] @ candidates)"

text \<open>The atoms a run works on, or the status and reason with which it finishes at once.\<close>

datatype prepared = Stop memory_status "string option" | Use "atom list" nat | Save "atom list" nat

definition ready_items :: "mem_env \<Rightarrow> json \<Rightarrow> prepared res" where
  "ready_items env snap =
     bindR (parse_memory_items (mv_text env)
         (JStr (mx_dumps_ascii (mv_text env) (JObj [(''memory_items'', jget snap ''items'')]))) (JInt 5)) (\<lambda>p.
       case jget snap ''dropped'' of
         JInt n \<Rightarrow> if pa_dropped p > 0 \<or> n < 0 then Inr (Stop Mem_failed (Some ''snapshot_invalid''))
                   else Inr (Use (pa_items p) (nat n))
       | _ \<Rightarrow> Inr (Stop Mem_failed (Some ''snapshot_invalid'')))"

definition fresh_items :: "mem_env \<Rightarrow> claimed \<Rightarrow> prepared res" where
  "fresh_items env cl =
     bindR (buffered_candidates env) (\<lambda>candidates.
       if \<not> allows env (source_text env cl candidates) then Inr (Stop Mem_skipped (Some ''safety_filtered''))
       else bindR (extract_memory env cl candidates) (\<lambda>ex.
         case ex of
           Ext_unavailable \<Rightarrow> Inr (Stop Mem_failed (Some ''extract_unavailable''))
         | Ext_skipped \<Rightarrow> Inr (Stop Mem_skipped (Some ''skipped''))
         | Ext_invalid \<Rightarrow> Inr (Stop Mem_skipped (Some ''invalid_output''))
         | Ext_ready items dropped \<Rightarrow>
             let safe = filter (\<lambda>a. allows env (atom_text a)) items in
             Inr (Save safe (dropped + (length items - length safe)))))"

text \<open>A \<open>phase\<close> that cannot be hashed raises in the membership test.\<close>

definition prepare :: "mem_env \<Rightarrow> claimed \<Rightarrow> prepared res" where
  "prepare env cl =
     (let snap = cl_snapshot cl in
      if \<not> is_obj snap then Inl (RuntimeError ''AttributeError'')
      else if \<not> py_eq_int (jget snap ''version'') 1 then Inr (Stop Mem_failed (Some ''snapshot_invalid''))
      else (case jget snap ''phase'' of
          JList xs \<Rightarrow> Inl (RuntimeError ''TypeError'')
        | JObj kvs \<Rightarrow> Inl (RuntimeError ''TypeError'')
        | ph \<Rightarrow>
            if ph = JStr (asc ''ready'') then ready_items env snap
            else if ph = JStr (asc ''extracting'') then fresh_items env cl
            else Inr (Stop Mem_failed (Some ''snapshot_invalid''))))"

section \<open>Writing the items\<close>

datatype write_end = W_raised exn | W_cancelled | W_done nat nat

fun write_items ::
  "mem_env \<Rightarrow> string \<Rightarrow> string \<Rightarrow> claimed \<Rightarrow> nat \<Rightarrow> atom list \<Rightarrow> nat \<Rightarrow> nat \<Rightarrow> database \<Rightarrow> write_end \<times> database" where
  "write_items env cid token cl k [] dropped written db = (W_done dropped written, db)"
| "write_items env cid token cl k (a # items) dropped written db =
     (if \<not> allows env (atom_text a) then write_items env cid token cl (Suc k) items (dropped + 1) written db
      else if mv_context env \<noteq> None \<and> \<not> mv_append env a then (W_raised (RuntimeError ''context''), db)
      else
        (case write_atom (mv_text env) (mv_clock env k) (mv_doc_busy env a) (mv_writer env a) cid (cl_job cl) token
             (cl_user cl) (tn_turn_index (cl_turn cl)) a db of
           Inl e \<Rightarrow> (W_raised e, db)
         | Inr (Write_cancelled, db') \<Rightarrow> (W_cancelled, db')
         | Inr (st, db') \<Rightarrow>
             if mv_context env \<noteq> None \<and> \<not> mv_remove env a then (W_raised (RuntimeError ''context''), db')
             else write_items env cid token cl (Suc k) items dropped (if st = Superseded then written else written + 1) db'))"

section \<open>The run\<close>

datatype run_end = Run_status memory_status | Run_idle | Run_busy | Run_raised exn

text \<open>\<open>_finish\<close> inside the \<open>try\<close>: when it raises, the handler finishes the job as \<open>write_unavailable\<close>.\<close>

definition finish_raising :: "mem_env \<Rightarrow> nat \<Rightarrow> string \<Rightarrow> int \<Rightarrow> string \<Rightarrow> database \<Rightarrow> run_end \<times> database" where
  "finish_raising env k cid jid token db =
     (case finish_job (mv_clock env k) cid jid token Mem_failed (Some ''write_unavailable'') db of
        Inl e \<Rightarrow> (Run_raised e, db)
      | Inr (st, db') \<Rightarrow> (Run_status st, db'))"

definition finish_run ::
  "mem_env \<Rightarrow> nat \<Rightarrow> string \<Rightarrow> int \<Rightarrow> string \<Rightarrow> memory_status \<Rightarrow> string option \<Rightarrow> database \<Rightarrow> run_end \<times> database" where
  "finish_run env k cid jid token st reason db =
     (case finish_job (mv_clock env k) cid jid token st reason db of
        Inl e \<Rightarrow> finish_raising env (Suc k) cid jid token db
      | Inr (st', db') \<Rightarrow> (Run_status st', db'))"

definition write_and_finish ::
  "mem_env \<Rightarrow> string \<Rightarrow> string \<Rightarrow> claimed \<Rightarrow> nat \<Rightarrow> atom list \<Rightarrow> nat \<Rightarrow> database \<Rightarrow> run_end \<times> database" where
  "write_and_finish env cid token cl k items dropped db =
     (case write_items env cid token cl k items dropped 0 db of
        (W_raised e, db') \<Rightarrow> finish_raising env (k + length items) cid (cl_job cl) token db'
      | (W_cancelled, db') \<Rightarrow> (Run_status Mem_cancelled, db')
      | (W_done d w, db') \<Rightarrow> finish_run env (k + length items) cid (cl_job cl) token
          (if w > 0 then Mem_success else Mem_skipped) (if d > 0 then Some ''dropped_items'' else None) db')"

definition run_claimed :: "mem_env \<Rightarrow> string \<Rightarrow> string \<Rightarrow> claimed \<Rightarrow> database \<Rightarrow> run_end \<times> database" where
  "run_claimed env cid token cl db =
     (case prepare env cl of
        Inl e \<Rightarrow> finish_raising env 1 cid (cl_job cl) token db
      | Inr (Stop st reason) \<Rightarrow> finish_run env 1 cid (cl_job cl) token st reason db
      | Inr (Use items dropped) \<Rightarrow> write_and_finish env cid token cl 1 items dropped db
      | Inr (Save items dropped) \<Rightarrow>
          (case save_snapshot (mv_clock env 1) cid (cl_job cl) token items dropped db of
             Inl e \<Rightarrow> finish_raising env 2 cid (cl_job cl) token db
           | Inr (False, db') \<Rightarrow> (Run_status Mem_cancelled, db')
           | Inr (True, db') \<Rightarrow> write_and_finish env cid token cl 2 items dropped db'))"

definition process_next :: "mem_env \<Rightarrow> bool \<Rightarrow> string \<Rightarrow> string \<Rightarrow> database \<Rightarrow> run_end \<times> database" where
  "process_next env locked token cid db =
     (case claim_next (mv_clock env 0) locked token cid db of
        Inl e \<Rightarrow> (Run_raised e, db)
      | Inr (Idle, db') \<Rightarrow> (Run_idle, db')
      | Inr (Busy, db') \<Rightarrow> (Run_busy, db')
      | Inr (Settled st, db') \<Rightarrow> (Run_status st, db')
      | Inr (Claimed cl, db') \<Rightarrow> run_claimed env cid token cl db')"

section \<open>A claimed job settles\<close>

text \<open>What stays true of the claimed rows while the worker is in time.\<close>

definition held :: "mem_env \<Rightarrow> string \<Rightarrow> string \<Rightarrow> int \<Rightarrow> database \<Rightarrow> bool" where
  "held env cid token jid db \<longleftrightarrow>
     (\<exists>c j t. get_call cid db = Some c \<and> get_memory_job jid db = Some j \<and> get_turn (mj_turn_id j) db = Some t \<and>
        vc_deletion_fence_at c = None \<and> mj_call_id j = cid \<and> mj_id j = jid \<and>
        (\<forall>k. holds_lease (mv_clock env k) token j \<and> source_live (mv_clock env k) c t) \<and>
        (\<exists>script r. memory_script c = Inr script \<and> retry_policy script = Inr r))"

definition settled :: "memory_status \<Rightarrow> int \<Rightarrow> database \<Rightarrow> bool" where
  "settled st jid db \<longleftrightarrow> st \<in> {Mem_success, Mem_failed, Mem_skipped} \<and>
     (\<exists>j. get_memory_job jid db = Some j \<and> mj_status j = st \<and> mj_lease_owner j = None)"

lemma get_job_put_outcome:
  assumes "get_memory_job jid db = Some j" "mj_id j' = jid"
  shows "get_memory_job jid (put_outcome j' t r (stage evs db)) = Some j'"
    "get_memory_job jid (put_outcome j' t r db) = Some j'"
  using assms memory_jobs.get_put_same [of jid _ j j'] by (simp_all add: put_outcome_def)

lemma finished_job_id: "mj_id (finished_job now st rs ra j) = mj_id j"
  by (simp add: finished_job_def)

lemma finish_held:
  assumes h: "held env cid token jid db" and st: "st \<in> {Mem_success, Mem_failed, Mem_skipped}"
  shows "\<exists>db'. finish_job (mv_clock env k) cid jid token st reason db = Inr (st, db') \<and> settled st jid db'"
proof -
  obtain c j t script r where x: "get_call cid db = Some c" "get_memory_job jid db = Some j" "get_turn (mj_turn_id j) db = Some t"
    "vc_deletion_fence_at c = None" "mj_id j = jid" "holds_lease (mv_clock env k) token j"
    "memory_script c = Inr script" "retry_policy script = Inr r"
    using h unfolding held_def by blast
  obtain ra where ra: "retry_at (mv_clock env k) st reason c j = Inr ra"
    using x(7,8) by (cases r; cases "st = Mem_failed \<and> (reason = Some ''extract_unavailable'' \<or> reason = Some ''write_unavailable'')")
      (auto simp: retry_at_def)
  have "\<exists>db'. finish_job (mv_clock env k) cid jid token st reason db = Inr (st, db') \<and>
      get_memory_job jid db' = Some (finished_job (mv_clock env k) st reason ra j)"
    using x ra by (cases "st = Mem_skipped")
      (simp_all add: finish_job_def Let_def get_job_put_outcome [OF x(2)] finished_job_id)
  then show ?thesis using st by (auto simp: settled_def finished_job_def)
qed

lemma finish_run_held:
  assumes "held env cid token jid db" "st \<in> {Mem_success, Mem_failed, Mem_skipped}"
  shows "\<exists>db'. finish_run env k cid jid token st reason db = (Run_status st, db') \<and> settled st jid db'"
    "\<exists>db'. finish_raising env k cid jid token db = (Run_status Mem_failed, db') \<and> settled Mem_failed jid db'"
  using finish_held [OF assms, of k reason] finish_held [OF assms(1), of Mem_failed k "Some ''write_unavailable''"]
  by (auto simp: finish_run_def finish_raising_def)

lemma write_atom_held:
  assumes h: "held env cid token jid db"
    and r: "write_atom x (mv_clock env k) busy actual cid jid token u idx a db = Inr (w, db')"
  shows "w \<noteq> Write_cancelled \<and> held env cid token jid db'"
proof -
  obtain c j t where z: "get_call cid db = Some c" "get_memory_job jid db = Some j" "get_turn (mj_turn_id j) db = Some t"
    "vc_deletion_fence_at c = None" "holds_lease (mv_clock env k) token j" "source_live (mv_clock env k) c t"
    using h unfolding held_def by blast
  have "w \<noteq> Write_cancelled \<and> (db' = db \<or> (\<exists>ts. db' = commit_flush (db\<lparr>db_traces := ts\<rparr>)))"
    using r z by (auto simp: write_atom_def Let_def bindR_Inr_iff split: if_splits)
  moreover have "held env cid token jid (commit_flush (db\<lparr>db_traces := ts\<rparr>)) = held env cid token jid db" for ts
    by (simp add: held_def get_call_def get_memory_job_def get_turn_def)
  ultimately show ?thesis using h by auto
qed

lemma write_items_held:
  assumes "held env cid token (cl_job cl) db"
  shows "\<exists>e db'. write_items env cid token cl k items d w db = (e, db') \<and> e \<noteq> W_cancelled \<and> held env cid token (cl_job cl) db'"
  using assms
proof (induction items arbitrary: k d w db)
  case (Cons a items)
  show ?case
  proof (cases "allows env (atom_text a) \<and> \<not> (mv_context env \<noteq> None \<and> \<not> mv_append env a)")
    case False
    then show ?thesis using Cons by auto
  next
    case True
    define r where "r = write_atom (mv_text env) (mv_clock env k) (mv_doc_busy env a) (mv_writer env a) cid (cl_job cl) token
             (cl_user cl) (tn_turn_index (cl_turn cl)) a db"
    show ?thesis
    proof (cases r)
      case (Inl e)
      then show ?thesis using True Cons.prems by (auto simp: r_def)
    next
      case (Inr p)
      obtain st db' where p: "p = (st, db')" by (cases p)
      have h: "st \<noteq> Write_cancelled" "held env cid token (cl_job cl) db'"
        using write_atom_held [OF Cons.prems Inr [unfolded r_def p]] by auto
      show ?thesis
        using True Inr p h Cons.IH [OF h(2)] by (cases st) (auto simp: r_def [symmetric])
    qed
  qed
qed simp

lemma write_and_finish_held:
  assumes "held env cid token (cl_job cl) db"
  shows "\<exists>st db'. write_and_finish env cid token cl k items dropped db = (Run_status st, db') \<and> settled st (cl_job cl) db'"
proof -
  obtain e db1 where w: "write_items env cid token cl k items dropped 0 db = (e, db1)" "e \<noteq> W_cancelled"
    "held env cid token (cl_job cl) db1"
    using write_items_held [OF assms] by blast
  show ?thesis
  proof (cases e)
    case (W_raised x)
    then show ?thesis using finish_run_held(2) [OF w(3), of Mem_failed "k + length items"] w(1) by (auto simp: write_and_finish_def)
  next
    case W_cancelled
    with w(2) show ?thesis by simp
  next
    case (W_done d n)
    then show ?thesis
      using finish_run_held(1) [OF w(3), of "if n > 0 then Mem_success else Mem_skipped" "k + length items"
          "if d > 0 then Some ''dropped_items'' else None"] w(1)
      by (auto simp: write_and_finish_def)
  qed
qed

lemma ready_items_cases:
  "ready_items env snap = Inr p \<Longrightarrow> p = Stop Mem_failed (Some ''snapshot_invalid'') \<or> (\<exists>items d. p = Use items d)"
  by (auto simp: ready_items_def bindR_def split: sum.split_asm json.split_asm if_split_asm)

lemma fresh_items_cases:
  "fresh_items env cl = Inr p \<Longrightarrow> (\<exists>st r. p = Stop st r \<and> st \<in> {Mem_failed, Mem_skipped}) \<or> (\<exists>items d. p = Save items d)"
  by (auto simp: fresh_items_def bindR_def Let_def split: sum.split_asm extraction.split_asm if_split_asm)

lemma prepare_cases:
  assumes "prepare env cl = Inr p"
  shows "p = Stop Mem_failed (Some ''snapshot_invalid'') \<or> ready_items env (cl_snapshot cl) = Inr p \<or>
    jget (cl_snapshot cl) ''phase'' = JStr (asc ''extracting'') \<and> fresh_items env cl = Inr p"
  using assms by (auto simp: prepare_def Let_def split: json.split_asm if_split_asm)

lemma prepare_stop: "prepare env cl = Inr (Stop st reason) \<Longrightarrow> st \<in> {Mem_success, Mem_failed, Mem_skipped}"
  using prepare_cases [of env cl "Stop st reason"] ready_items_cases [of env "cl_snapshot cl" "Stop st reason"]
    fresh_items_cases [of env cl "Stop st reason"] by auto

lemma prepare_save: "prepare env cl = Inr (Save items d) \<Longrightarrow> jget (cl_snapshot cl) ''phase'' = JStr (asc ''extracting'')"
  using prepare_cases [of env cl "Save items d"] ready_items_cases [of env "cl_snapshot cl" "Save items d"] by auto

lemma save_held:
  assumes h: "held env cid token jid db"
    and s: "get_memory_job jid db = Some j" "mj_extraction_snapshot j = Some snap" "is_extracting snap"
  shows "\<exists>db'. save_snapshot (mv_clock env k) cid jid token items d db = Inr (True, db') \<and> held env cid token jid db'"
proof -
  obtain c t where z: "get_call cid db = Some c" "get_turn (mj_turn_id j) db = Some t" "vc_deletion_fence_at c = None"
    "mj_call_id j = cid" "mj_id j = jid"
    "\<And>k. holds_lease (mv_clock env k) token j \<and> source_live (mv_clock env k) c t"
    "\<exists>script r. memory_script c = Inr script \<and> retry_policy script = Inr r"
    using h s(1) unfolding held_def by auto
  define j' where "j' = j\<lparr>mj_extraction_snapshot := Some (ready_snapshot items d)\<rparr>"
  define db' where "db' = commit_flush (put_memory_job j' db)"
  have "save_snapshot (mv_clock env k) cid jid token items d db = Inr (True, db')"
    using z s by (simp add: save_snapshot_def db'_def j'_def)
  moreover have "held env cid token jid db'"
  proof -
    have "get_memory_job jid db' = Some j'"
      using memory_jobs.get_put_same [OF s(1), of j'] z(5) by (simp add: db'_def j'_def)
    moreover have "holds_lease n token j' = holds_lease n token j" for n
      by (simp add: j'_def holds_lease_def lease_live_def)
    moreover have "get_call cid db' = Some c" "get_turn (mj_turn_id j') db' = Some t" "mj_call_id j' = cid" "mj_id j' = jid"
      using z by (simp_all add: db'_def j'_def)
    ultimately show ?thesis using z unfolding held_def by auto
  qed
  ultimately show ?thesis by blast
qed

lemma run_claimed_held:
  assumes h: "held env cid token (cl_job cl) db"
    and s: "get_memory_job (cl_job cl) db = Some j" "mj_extraction_snapshot j = Some (cl_snapshot cl)"
    and wf: "is_extracting (cl_snapshot cl) \<or> jget (cl_snapshot cl) ''phase'' = JStr (asc ''ready'')"
  shows "\<exists>st db'. run_claimed env cid token cl db = (Run_status st, db') \<and> settled st (cl_job cl) db'"
proof (cases "prepare env cl")
  case (Inl e)
  then show ?thesis using finish_run_held(2) [OF h, of Mem_failed 1] by (auto simp: run_claimed_def)
next
  case (Inr p)
  show ?thesis
  proof (cases p)
    case (Stop st reason)
    then show ?thesis using Inr finish_run_held(1) [OF h prepare_stop, of env cl st reason 1 reason] by (auto simp: run_claimed_def)
  next
    case (Use items d)
    then show ?thesis using Inr write_and_finish_held [OF h, of 1 items d] by (simp add: run_claimed_def)
  next
    case (Save items d)
    have "jget (cl_snapshot cl) ''phase'' = JStr (asc ''extracting'')" using prepare_save Inr Save by blast
    then have "is_extracting (cl_snapshot cl)" using wf by auto
    from save_held [OF h s this, of 1 items d] obtain db' where
      "save_snapshot (mv_clock env 1) cid (cl_job cl) token items d db = Inr (True, db')" "held env cid token (cl_job cl) db'" by blast
    then show ?thesis using Inr Save write_and_finish_held [of env cid token cl db' 2 items d] by (simp add: run_claimed_def)
  qed
qed

lemma claim_row_claimed:
  assumes "claim_row now token c j t db = Inr (Claimed cl, db')"
  shows "vc_deletion_fence_at c = None" "source_live now c t"
    "\<exists>script r. memory_script c = Inr script \<and> retry_policy script = Inr r"
    "db' = stage (claim_events now (start_job now token j))
       (put_turn (t\<lparr>tn_memory_status := Mem_processing\<rparr>) (put_memory_job (start_job now token j) db))"
    "cl_job cl = mj_id j" "mj_extraction_snapshot (start_job now token j) = Some (cl_snapshot cl)"
proof -
  have f: "vc_deletion_fence_at c = None" using assms by (auto simp: claim_row_def split: if_split_asm)
  obtain script retries delays where sc: "memory_script c = Inr script" "retry_policy script = Inr (retries, delays)"
    using assms f by (auto simp: claim_row_def bindR_Inr_iff Let_def)
  define expired where "expired = (mj_status j = Mem_processing \<and> \<not> lease_live now j)"
  define due where "due = (mj_status j = Mem_failed \<and> (case mj_next_retry_at j of None \<Rightarrow> False | Some r \<Rightarrow> r \<le> now))"
  note r' = assms [unfolded claim_row_def Let_def, folded expired_def due_def, simplified sc f bindR_simps prod.case]
  show "vc_deletion_fence_at c = None" by (rule f)
  show "\<exists>script r. memory_script c = Inr script \<and> retry_policy script = Inr r" using sc by blast
  have "source_live now c t \<and> db' = stage (claim_events now (start_job now token j))
       (put_turn (t\<lparr>tn_memory_status := Mem_processing\<rparr>) (put_memory_job (start_job now token j) db)) \<and>
    cl_job cl = mj_id j \<and> mj_extraction_snapshot (start_job now token j) = Some (cl_snapshot cl)"
    using r' by (simp split: if_split_asm) (auto simp: start_job_def)
  then show "source_live now c t" "db' = stage (claim_events now (start_job now token j))
       (put_turn (t\<lparr>tn_memory_status := Mem_processing\<rparr>) (put_memory_job (start_job now token j) db))"
    "cl_job cl = mj_id j" "mj_extraction_snapshot (start_job now token j) = Some (cl_snapshot cl)" by blast+
qed

text \<open>C34: A worker that is left alone settles the job it claims: whatever the model, the safety gate, the
  session buffer and the vector writer do (answer, refuse, raise or miss their deadline, at any item), if
  its clock stays inside the lease and before the expiry of the source, \<open>process_next\<close> never leaves the
  job in \<open>processing\<close>: it ends as \<open>success\<close>, \<open>failed\<close> or \<open>skipped\<close>, the status it returns is the one stored,
  and the lease is released. No error escapes, and no job is stuck until its lease expires.\<close>

theorem claimed_job_settles:
  assumes "mem_inv db" "get_call cid db = Some c"
    "claim_next (mv_clock env 0) locked token cid db = Inr (Claimed cl, db1)"
    "\<forall>k. mv_clock env k < mv_clock env 0 + lease_us"
    "\<forall>k t. get_turn (tn_id (cl_turn cl)) db = Some t \<longrightarrow> source_live (mv_clock env k) c t"
    "is_extracting (cl_snapshot cl) \<or> jget (cl_snapshot cl) ''phase'' = JStr (asc ''ready'')"
  shows "\<exists>st db2 j. process_next env locked token cid db = (Run_status st, db2) \<and>
    st \<in> {Mem_success, Mem_failed, Mem_skipped} \<and> get_memory_job (cl_job cl) db2 = Some j \<and>
    mj_status j = st \<and> mj_lease_owner j = None"
proof -
  let ?now = "mv_clock env 0"
  obtain j t d where r: "next_job cid db = Some j" "get_turn (mj_turn_id j) db = Some t"
    "claim_row ?now token c j t db = Inr (Claimed cl, d)" "db1 = commit_flush d"
    using assms(2,3) by (auto simp: claim_next_def bindR_Inr_iff split: option.splits if_splits)
  note N = next_job_props [OF r(1)] and R = claim_row_claimed [OF r(3)]
  have g: "get_memory_job (mj_id j) db = Some j" using mem_get_job [OF assms(1) N(1)] .
  define j' where "j' = start_job ?now token j"
  define t' where "t' = t\<lparr>tn_memory_status := Mem_processing\<rparr>"
  have t0: "tn_id t = mj_turn_id j" using turns.get_key [OF r(2)] .
  have ct: "cl_turn cl = t'"
  proof -
    have "vc_deletion_fence_at c = None" by (rule R(1))
    then show ?thesis using r(3) by (auto simp: claim_row_def bindR_Inr_iff Let_def t'_def split: if_split_asm prod.split_asm)
  qed
  have live: "source_live (mv_clock env k) c t" for k
    using assms(5) ct r(2) t0 by (simp add: t'_def)
  have db1: "db1 = commit_flush (stage (claim_events ?now j') (put_turn t' (put_memory_job j' db)))"
    unfolding r(4) R(4) j'_def t'_def by simp
  have id: "mj_id j' = mj_id j" "mj_call_id j' = mj_call_id j" "mj_turn_id j' = mj_turn_id j" by (simp_all add: j'_def start_job_def)
  have gj: "get_memory_job (cl_job cl) db1 = Some j'"
    using memory_jobs.get_put_same [OF g id(1)] R(5) by (simp add: db1)
  have gt: "get_turn (mj_turn_id j') db1 = Some t'"
  proof -
    have "get_turn (mj_turn_id j) (put_memory_job j' db) = Some t" using r(2) by simp
    from turns.get_put_same [OF this, of t'] show ?thesis using t0 by (simp add: db1 id t'_def)
  qed
  have "holds_lease (mv_clock env k) token j'" for k
    using assms(4) by (simp add: j'_def start_job_def holds_lease_def lease_live_def)
  moreover have "source_live (mv_clock env k) c t'" for k
    using live [of k] by (simp add: t'_def source_live_def source_expiry_def split: option.splits)
  moreover have "get_call cid db1 = Some c" using assms(2) by (simp add: db1)
  ultimately have h: "held env cid token (cl_job cl) db1"
    unfolding held_def using gj gt R(1,3,5) N(2) id by metis
  from run_claimed_held [OF h gj _ assms(6)] R(6) obtain st db2 where
    "run_claimed env cid token cl db1 = (Run_status st, db2)" "settled st (cl_job cl) db2"
    unfolding j'_def by blast
  then show ?thesis using assms(3) by (auto simp: process_next_def settled_def)
qed

definition demo_env :: mem_env where
  "demo_env = \<lparr>mv_text = demo_text, mv_gate = pending_gate, mv_rules = [], mv_model = (\<lambda>p. Inl TimeoutError),
     mv_context = None, mv_append = (\<lambda>a. True), mv_remove = (\<lambda>a. True), mv_doc_busy = (\<lambda>a. False),
     mv_writer = (\<lambda>a. Inl TimeoutError), mv_clock = (\<lambda>k. 3)\<rparr>"

lemma demo_turn_eligible: "eligible_turn demo_turn"
  by (simp add: eligible_turn_def demo_turn_def confidence_ok_def memorable_text_def opt_text_def compact_text_def
      punct_char_def py_space_def memory_fillers_def asc_def Let_def)

lemma demo_claim:
  "\<exists>cl db1. claim_next 3 False ''t'' ''c'' demo_db = Inr (Claimed cl, db1) \<and> is_extracting (cl_snapshot cl)"
proof -
  define c where "c = (blank_call 1 ''c'' 7 Ended)\<lparr>vc_transcript_expires_at := Some 1000000000000, vc_config_snapshot := demo_script\<rparr>"
  have c: "get_call ''c'' demo_db = Some c" by (simp add: demo_db_def get_call_def row_find_def c_def)
  have n: "next_job ''c'' demo_db = Some demo_job" by (simp add: next_job_def demo_db_def claimable_def demo_job_def)
  have t: "get_turn 1 demo_db = Some demo_turn" by (simp add: demo_db_def get_turn_def row_find_def demo_turn_def)
  have l: "vc_deletion_fence_at c = None" "memory_script c = Inr (JObj [(''max_retries'', JInt 1), (''retry_backoff_ms'', JList [JInt 1000])])"
    "source_live 3 c demo_turn"
    by (simp_all add: c_def memory_script_def demo_script_def source_live_def source_expiry_def)
  have p: "retry_policy (JObj [(''max_retries'', JInt 1), (''retry_backoff_ms'', JList [JInt 1000])]) = Inr (1, [1000])"
    by (simp add: retry_policy_def jget_def'_def jget_def)
  have j: "mj_status demo_job = Mem_pending" "mj_extraction_snapshot demo_job = None" "mj_turn_id demo_job = 1"
    by (simp_all add: demo_job_def)
  have "is_extracting extracting_snapshot" by (auto simp: is_extracting_def extracting_snapshot_def jkeys_def jget_def)
  then show ?thesis
    by (simp add: claim_next_def c n t j claim_row_def l p demo_turn_eligible Let_def)
qed

theorem claimed_job_settles_witness:
  "\<exists>st db2. process_next demo_env False ''t'' ''c'' demo_db = (Run_status st, db2) \<and> st \<in> {Mem_success, Mem_failed, Mem_skipped}"
proof -
  obtain cl db1 where cl: "claim_next (mv_clock demo_env 0) False ''t'' ''c'' demo_db = Inr (Claimed cl, db1)" "is_extracting (cl_snapshot cl)"
    using demo_claim by (auto simp: demo_env_def)
  obtain c where c: "get_call ''c'' demo_db = Some c" "vc_transcript_expires_at c = Some 1000000000000" using demo_call by blast
  have "\<forall>k. mv_clock demo_env k < mv_clock demo_env 0 + lease_us" by (simp add: demo_env_def lease_us_def us_second_def)
  moreover have "\<forall>k t. get_turn (tn_id (cl_turn cl)) demo_db = Some t \<longrightarrow> source_live (mv_clock demo_env k) c t"
    using c by (simp add: source_live_def source_expiry_def demo_env_def)
  ultimately show ?thesis using claimed_job_settles [OF demo_inv c(1) cl(1)] cl(2) by blast
qed

end
