(* ===== verification/Turn.thy ===== *)
theory Turn
  imports MemoryJob Playback
begin

text \<open>
  The facts of a call's turns (\<open>realtime_voice_turn_service.py\<close>): the reorder buffer of the provider's
  events, the drafts kept in memory, the rows written under the safety gate, the effective text and
  the flush at the end of a call.

  Events and effective texts are those of \<open>Playback\<close>; a turn event also carries the confidence of
  the recognition. The surroundings are \<open>turn_env\<close>: the gate, the memory job writer (absent or
  \<open>stage_job\<close>), the two clocks, and whether the transaction can be committed. The drafts and the reply
  table form one record (\<open>turn_books\<close>) inside the service, since only they are touched while an event is
  handled. A method that raises keeps the mutations made before, so it returns the error and the
  state. The counters emitted without a transaction and the alert after a commit (\<open>Safety\<close>) are left
  out.
\<close>

section \<open>State\<close>

record turn_event = provider_event +
  te_confidence :: json

record draft =
  dr_question :: pystr
  dr_reply :: "pystr option"
  dr_user_final :: "pystr option"
  dr_final_seen :: bool
  dr_generated :: pystr
  dr_tts_finished :: bool
  dr_text_finished :: bool
  dr_closed :: bool
  dr_isolated :: bool
  dr_started_at :: datetime

definition new_draft :: "datetime \<Rightarrow> pystr \<Rightarrow> draft" where
  "new_draft now q = \<lparr>dr_question = q, dr_reply = None, dr_user_final = None, dr_final_seen = False,
     dr_generated = [], dr_tts_finished = False, dr_text_finished = False, dr_closed = False,
     dr_isolated = False, dr_started_at = now\<rparr>"

record turn_books =
  tb_drafts :: "(pystr, draft) dict"
  tb_replies :: "(pystr, pystr) dict"

record turn_svc =
  ts_call :: string
  ts_session :: string
  ts_frozen :: bool
  ts_sequence :: int
  ts_pending :: "(int, turn_event) dict"
  ts_books :: turn_books
  ts_pending_effective :: "(pystr, effective_text) dict"

definition new_service :: "string \<Rightarrow> string \<Rightarrow> turn_svc" where
  "new_service cid sid = \<lparr>ts_call = cid, ts_session = sid, ts_frozen = False, ts_sequence = 0, ts_pending = [],
     ts_books = \<lparr>tb_drafts = [], tb_replies = []\<rparr>, ts_pending_effective = []\<rparr>"

record turn_env =
  tv_gate :: gate
  tv_memory :: "bool option"
  tv_now :: datetime
  tv_db_ok :: bool

text \<open>\<open>tv_memory\<close> is \<open>None\<close> without a job writer, else whether the job's row is held elsewhere.\<close>

definition turn_metric :: "string \<Rightarrow> event list" where
  "turn_metric category = [ev ''voice.turn.event'' [(''kind'', category)] 1]"

section \<open>The row of a turn\<close>

definition call_turns :: "string \<Rightarrow> database \<Rightarrow> turn_row list" where
  "call_turns cid db = filter (\<lambda>t. tn_call_id t = cid) (db_turns db)"

definition last_index :: "string \<Rightarrow> database \<Rightarrow> int" where
  "last_index cid db = fold max (map tn_turn_index (call_turns cid db)) 0"

definition find_turn :: "string \<Rightarrow> pystr \<Rightarrow> database \<Rightarrow> turn_row option" where
  "find_turn cid q db = find (\<lambda>t. tn_call_id t = cid \<and> tn_question_id t = Some q) (db_turns db)"

definition blank_turn :: "voice_call \<Rightarrow> draft \<Rightarrow> int \<Rightarrow> int \<Rightarrow> turn_row" where
  "blank_turn c d i idx = \<lparr>tn_id = i, tn_call_id = vc_call_id c, tn_turn_index = idx, tn_question_id = Some (dr_question d),
     tn_reply_id = dr_reply d, tn_user_text_final = None, tn_user_asr_confidence = None,
     tn_assistant_text_generated = None, tn_assistant_text_effective = None, tn_evidence = No_evidence,
     tn_assistant_interrupted = False, tn_played_audio_ms = None, tn_playback_completed_at = None,
     tn_status = Collecting, tn_memory_status = Mem_skipped, tn_user_safety = Saf_pending,
     tn_assistant_safety = Saf_pending, tn_user_crisis = Cri_pending, tn_assistant_crisis = Cri_pending,
     tn_started_at = dr_started_at d, tn_finalized_at = None,
     tn_effective_text_expires_at = Some (dr_started_at d + vc_transcript_retention_days c * us_day),
     tn_generated_text_expires_at = Some (dr_started_at d + vc_generated_retention_days c * us_day),
     tn_effective_text_cleared_at = None, tn_generated_text_cleared_at = None, tn_content_clear_reason = None\<rparr>"

definition opt_truthy :: "pystr option \<Rightarrow> bool" where
  "opt_truthy t \<longleftrightarrow> t \<noteq> None \<and> t \<noteq> Some []"

text \<open>\<open>_turn\<close>\<close>

definition open_turn :: "string \<Rightarrow> draft \<Rightarrow> database \<Rightarrow> (voice_call \<times> turn_row \<times> database) res" where
  "open_turn cid d db =
     (case get_call cid db of
        None \<Rightarrow> Inl (ValueError ''voice_call_not_writable'')
      | Some c \<Rightarrow>
          if vc_status c \<in> set TERMINAL \<or> vc_deletion_fence_at c \<noteq> None then Inl (ValueError ''voice_call_not_writable'')
          else (case find_turn cid (dr_question d) db of
              None \<Rightarrow>
                let row = blank_turn c d (fresh_id (map tn_id (db_turns db))) (last_index cid db + 1) in
                Inr (c, row, db\<lparr>db_turns := db_turns db @ [row]\<rparr>)
            | Some row \<Rightarrow>
                if opt_truthy (tn_reply_id row) \<and> opt_truthy (dr_reply d) \<and> tn_reply_id row \<noteq> dr_reply d
                then Inl (ValueError ''voice_reply_identity_conflict'')
                else if opt_truthy (dr_reply d)
                then let row' = row\<lparr>tn_reply_id := dr_reply d\<rparr> in Inr (c, row', put_turn row' db)
                else Inr (c, row, db)))"

section \<open>Writing a side\<close>

primrec side_safety :: "direction \<Rightarrow> turn_row \<Rightarrow> safety_status" where
  "side_safety User_side t = tn_user_safety t"
| "side_safety Assistant_side t = tn_assistant_safety t"

primrec side_crisis :: "direction \<Rightarrow> turn_row \<Rightarrow> crisis_status" where
  "side_crisis User_side t = tn_user_crisis t"
| "side_crisis Assistant_side t = tn_assistant_crisis t"

primrec set_safety :: "direction \<Rightarrow> safety_status \<Rightarrow> turn_row \<Rightarrow> turn_row" where
  "set_safety User_side s t = t\<lparr>tn_user_safety := s\<rparr>"
| "set_safety Assistant_side s t = t\<lparr>tn_assistant_safety := s\<rparr>"

primrec set_crisis :: "direction \<Rightarrow> crisis_status \<Rightarrow> turn_row \<Rightarrow> turn_row" where
  "set_crisis User_side s t = t\<lparr>tn_user_crisis := s\<rparr>"
| "set_crisis Assistant_side s t = t\<lparr>tn_assistant_crisis := s\<rparr>"

definition merge_safety :: "safety_status \<Rightarrow> safety_status \<Rightarrow> safety_status" where
  "merge_safety old new =
     (if old = Saf_matched \<or> new = Saf_matched then Saf_matched
      else if old = Saf_error_allowed \<or> new = Saf_error_allowed then Saf_error_allowed else new)"

text \<open>The facts already stored decide whether the text is a duplicate.\<close>

definition already_written :: "direction \<Rightarrow> turn_row \<Rightarrow> bool" where
  "already_written d t \<longleftrightarrow> tn_status t \<noteq> Collecting \<or>
     (d = User_side \<and> (tn_user_text_final t \<noteq> None \<or> tn_user_crisis t \<noteq> Cri_pending)) \<or>
     (d = Assistant_side \<and> tn_assistant_crisis t = Cri_isolation_failed)"

primrec clear_side :: "direction \<Rightarrow> turn_row \<Rightarrow> turn_row" where
  "clear_side User_side t = t\<lparr>tn_user_text_final := None\<rparr>"
| "clear_side Assistant_side t = t\<lparr>tn_assistant_text_generated := None, tn_assistant_text_effective := None\<rparr>"

primrec close_draft_side :: "direction \<Rightarrow> draft \<Rightarrow> draft" where
  "close_draft_side User_side d = d"
| "close_draft_side Assistant_side d = d\<lparr>dr_generated := [], dr_isolated := True\<rparr>"

definition nonempty :: "pystr \<Rightarrow> pystr option" where
  "nonempty t = (if t = [] then None else Some t)"

definition permits_tail :: "gate \<Rightarrow> pystr \<Rightarrow> bool" where
  "permits_tail g t = (case g_permits g of None \<Rightarrow> True | Some p \<Rightarrow> p t)"

definition store_text :: "gate \<Rightarrow> direction \<Rightarrow> draft \<Rightarrow> pystr \<Rightarrow> turn_row \<Rightarrow> turn_row" where
  "store_text g side d text row =
     (case side of
        User_side \<Rightarrow> row\<lparr>tn_user_text_final := Some text\<rparr>
      | Assistant_side \<Rightarrow> row\<lparr>tn_assistant_text_effective := nonempty text,
          tn_assistant_text_generated := (if permits_tail g (dr_generated d) then nonempty (dr_generated d) else None)\<rparr>)"

definition assess_side :: "gate \<Rightarrow> direction \<Rightarrow> pystr \<Rightarrow> database \<Rightarrow> gate_decision \<times> database" where
  "assess_side g side text db =
     (case g_assess g side text of
        None \<Rightarrow> (decision Saf_pending Cri_isolation_failed, stage (turn_metric ''gate_error'') db)
      | Some d \<Rightarrow> (d, db))"

definition assessed_row :: "direction \<Rightarrow> gate_decision \<Rightarrow> turn_row \<Rightarrow> turn_row" where
  "assessed_row side dec row =
     (set_crisis side (gd_crisis dec) (set_safety side (merge_safety (side_safety side row) (gd_safety dec)) row))
       \<lparr>tn_memory_status := Mem_skipped\<rparr>"

text \<open>A hit: isolate in a savepoint, then clear the side whatever the isolation did.\<close>

definition isolate_side ::
  "gate \<Rightarrow> string \<Rightarrow> direction \<Rightarrow> pystr \<Rightarrow> gate_decision \<Rightarrow> turn_row \<Rightarrow> database \<Rightarrow> turn_row \<times> database" where
  "isolate_side g cid side text dec row db =
     (case g_isolate g (put_turn row db) cid (tn_turn_index row) side text dec of
        Some db' \<Rightarrow> let row' = clear_side side row in (row', put_turn row' db')
      | None \<Rightarrow> let row' = clear_side side (set_crisis side Cri_isolation_failed row) in
                (row', stage (turn_metric ''isolation_failed'') (put_turn row' db)))"

text \<open>A side that was already isolated: the record is extended, a failure of that is ignored.\<close>

definition extend_isolation ::
  "gate \<Rightarrow> string \<Rightarrow> bool \<Rightarrow> pystr \<Rightarrow> turn_row \<Rightarrow> database \<Rightarrow> database" where
  "extend_isolation g cid eff text row db =
     (case g_isolate g db cid (tn_turn_index row) Assistant_side text
         (\<lparr>gd_safety = tn_assistant_safety row, gd_crisis = tn_assistant_crisis row, gd_keyword = None,
           gd_effective_final = eff\<rparr>) of
        Some db' \<Rightarrow> db'
      | None \<Rightarrow> db)"

definition write_row ::
  "gate \<Rightarrow> string \<Rightarrow> draft \<Rightarrow> direction \<Rightarrow> pystr \<Rightarrow> bool \<Rightarrow> turn_row \<Rightarrow> database \<Rightarrow> turn_row \<times> bool \<times> draft \<times> database" where
  "write_row g cid d side text eff row db =
     (if already_written side row then (row, False, d, stage (turn_metric ''duplicate'') db)
      else if side = Assistant_side \<and> tn_assistant_crisis row \<in> {Cri_matched, Cri_suspected}
      then (row, False, d, extend_isolation g cid eff text row db)
      else
        let (dec, db1) = assess_side g side text db; row1 = assessed_row side dec row in
        if gd_crisis dec \<in> {Cri_matched, Cri_suspected} then
          let (row2, db2) = isolate_side g cid side text dec row1 db1 in (row2, False, close_draft_side side d, db2)
        else if \<not> permits_text dec then
          let row2 = (if side = Assistant_side then clear_side side row1 else row1) in
          (row2, False, close_draft_side side d, put_turn row2 db1)
        else
          let row2 = store_text g side d text row1 in (row2, True, d, put_turn row2 db1))"

text \<open>\<open>_write_text\<close>\<close>

definition write_text ::
  "gate \<Rightarrow> string \<Rightarrow> draft \<Rightarrow> direction \<Rightarrow> pystr \<Rightarrow> bool \<Rightarrow> database \<Rightarrow> (turn_row \<times> bool \<times> draft \<times> database) res" where
  "write_text g cid d side text eff db =
     bindR (open_turn cid d db) (\<lambda>(c, row, db'). Inr (write_row g cid d side text eff row db'))"

section \<open>The effective text\<close>

definition effective_final :: "effective_text \<Rightarrow> bool" where
  "effective_final r \<longleftrightarrow> ef_completed r \<or> (ef_interrupted r \<and> ef_evidence r \<noteq> No_evidence)"

definition memory_ready :: "turn_row \<Rightarrow> bool" where
  "memory_ready t \<longleftrightarrow> opt_truthy (tn_user_text_final t) \<and> opt_truthy (tn_assistant_text_effective t) \<and>
     tn_user_safety t = Saf_passed \<and> tn_assistant_safety t = Saf_passed \<and>
     tn_user_crisis t = Cri_passed \<and> tn_assistant_crisis t = Cri_passed"

definition effective_row :: "datetime \<Rightarrow> bool \<Rightarrow> effective_text \<Rightarrow> turn_row \<Rightarrow> turn_row" where
  "effective_row now allowed r row =
     (let row1 = row\<lparr>tn_evidence := (if allowed then ef_evidence r else No_evidence), tn_played_audio_ms := ef_played_ms r,
            tn_assistant_interrupted := ef_interrupted r,
            tn_playback_completed_at := (if ef_completed r then Some now else tn_playback_completed_at row)\<rparr> in
      if ef_completed r \<or> ef_interrupted r
      then row1\<lparr>tn_status := (if ef_interrupted r then Interrupted else Finalized), tn_finalized_at := Some now,
             tn_memory_status := (if memory_ready row1 then Mem_pending else tn_memory_status row1)\<rparr>
      else row1)"

text \<open>\<open>_stage_effective\<close>: a closed row gets its memory job in the same transaction.\<close>

definition stage_effective ::
  "turn_env \<Rightarrow> string \<Rightarrow> draft \<Rightarrow> effective_text \<Rightarrow> database \<Rightarrow> (draft \<times> database) res" where
  "stage_effective env cid d r db =
     bindR (write_text (tv_gate env) cid d Assistant_side (ef_text r) (effective_final r) db) (\<lambda>(row, allowed, d', db1).
       if tn_status row \<noteq> Collecting then Inr (d', db1)
       else
         let row' = effective_row (tv_now env) allowed r row; db2 = put_turn row' db1 in
         Inr (d', case (tv_memory env, get_call cid db2) of
             (Some locked, Some c) \<Rightarrow>
               if ef_completed r \<or> ef_interrupted r then snd (stage_job (tv_now env) locked c row' db2) else db2
           | _ \<Rightarrow> db2))"

section \<open>Handling one event\<close>

definition event_kinds :: "string list" where
  "event_kinds = [''user_speech_started'', ''asr_interim'', ''asr_final'', ''user_speech_finished'', ''chat_text'',
     ''sentence_started'', ''sentence_finished'', ''text_finished'', ''tts_finished'']"

definition get_draft :: "turn_books \<Rightarrow> pystr \<Rightarrow> draft option" where
  "get_draft b q = map_of (tb_drafts b) q"

definition put_draft :: "draft \<Rightarrow> turn_books \<Rightarrow> turn_books" where
  "put_draft d b = b\<lparr>tb_drafts := AList.update (dr_question d) d (tb_drafts b)\<rparr>"

text \<open>\<open>_draft\<close>\<close>

definition ensure_draft :: "datetime \<Rightarrow> pystr option \<Rightarrow> turn_books \<Rightarrow> (draft \<times> turn_books) res" where
  "ensure_draft now question b =
     (case question of
        None \<Rightarrow> Inl (ValueError ''voice_question_missing'')
      | Some q \<Rightarrow>
          if q = [] then Inl (ValueError ''voice_question_missing'')
          else (case get_draft b q of
              Some d \<Rightarrow> Inr (d, b)
            | None \<Rightarrow>
                if length (tb_drafts b) \<ge> 4096 then Inl (ValueError ''voice_turn_limit'')
                else Inr (new_draft now q, put_draft (new_draft now q) b)))"

text \<open>The confidence of a final: \<open>None\<close> when it makes the transaction raise.\<close>

definition set_confidence :: "json \<Rightarrow> turn_row \<Rightarrow> turn_row option" where
  "set_confidence j row =
     (if j = JNull then Some row
      else (case as_number j of
          Some (Fin r) \<Rightarrow> if 0 \<le> r \<and> r \<le> 1 then Some (row\<lparr>tn_user_asr_confidence := Some (Fin r)\<rparr>) else None
        | _ \<Rightarrow> None))"

text \<open>The transaction of a final: committed whole or not at all.\<close>

definition store_final :: "turn_env \<Rightarrow> string \<Rightarrow> draft \<Rightarrow> pystr \<Rightarrow> json \<Rightarrow> database \<Rightarrow> database" where
  "store_final env cid d text conf db =
     (case write_text (tv_gate env) cid d User_side text False db of
        Inl x \<Rightarrow> db
      | Inr (row, allowed, d', db1) \<Rightarrow>
          (case set_confidence conf row of
             None \<Rightarrow> db
           | Some row' \<Rightarrow> if tv_db_ok env then commit_flush (put_turn row' db1) else db))"

text \<open>The branches of \<open>_handle\<close> on an open draft whose reply has been settled.\<close>

definition handle_kind ::
  "turn_env \<Rightarrow> string \<Rightarrow> turn_event \<Rightarrow> draft \<Rightarrow> turn_books \<Rightarrow> database \<Rightarrow> exn option \<times> turn_books \<times> database" where
  "handle_kind env cid e d b db =
     (if pe_kind e = ''asr_final'' then
        (if dr_final_seen d then (None, b, db)
         else (case pe_payload e of
             Text_payload t \<Rightarrow>
               if length t > 65536 then (Some (ValueError ''voice_final_invalid''), b, db)
               else (None, put_draft (d\<lparr>dr_user_final := None, dr_final_seen := True\<rparr>) b,
                     store_final env cid (d\<lparr>dr_user_final := Some t\<rparr>) t (te_confidence e) db)
           | _ \<Rightarrow> (Some (ValueError ''voice_final_invalid''), b, db)))
      else if pe_kind e = ''chat_text'' then
        (case (opt_truthy (pe_reply_id e), pe_payload e) of
           (True, Text_payload t) \<Rightarrow>
             if length (dr_generated d) + length t > 131072 then (Some (ValueError ''voice_generated_invalid''), b, db)
             else (None, if dr_isolated d then b else put_draft (d\<lparr>dr_generated := dr_generated d @ t\<rparr>) b, db)
         | _ \<Rightarrow> (Some (ValueError ''voice_generated_invalid''), b, db))
      else if pe_kind e = ''tts_finished'' then (None, put_draft (d\<lparr>dr_tts_finished := True\<rparr>) b, db)
      else if pe_kind e = ''text_finished'' then (None, put_draft (d\<lparr>dr_text_finished := True\<rparr>) b, db)
      else (None, b, db))"

definition reply_conflict :: "turn_event \<Rightarrow> turn_books \<Rightarrow> bool" where
  "reply_conflict e b \<longleftrightarrow>
     (case pe_reply_id e of
        None \<Rightarrow> False
      | Some rid \<Rightarrow> (case map_of (tb_replies b) rid of None \<Rightarrow> False | Some q \<Rightarrow> pe_question_id e \<noteq> Some q))"

definition settle_reply :: "turn_event \<Rightarrow> draft \<Rightarrow> turn_books \<Rightarrow> (draft \<times> turn_books) res" where
  "settle_reply e d b =
     (case pe_reply_id e of
        None \<Rightarrow> Inr (d, b)
      | Some rid \<Rightarrow>
          if rid = [] then Inr (d, b)
          else if (case map_of (tb_replies b) rid of None \<Rightarrow> False | Some q \<Rightarrow> q \<noteq> dr_question d) \<or>
                  (dr_reply d \<noteq> None \<and> dr_reply d \<noteq> Some rid)
          then Inl (ValueError ''voice_reply_identity_conflict'')
          else let d' = d\<lparr>dr_reply := Some rid\<rparr> in
               Inr (d', (put_draft d' b)\<lparr>tb_replies := AList.update rid (dr_question d) (tb_replies b)\<rparr>))"

definition drop_backchannel :: "turn_event \<Rightarrow> turn_books \<Rightarrow> turn_books" where
  "drop_backchannel e b =
     (case pe_question_id e of
        None \<Rightarrow> b
      | Some q \<Rightarrow>
          (case get_draft b q of
             None \<Rightarrow> b
           | Some d \<Rightarrow>
               if \<not> dr_final_seen d \<and> dr_generated d = [] \<and> dr_reply d = None
               then b\<lparr>tb_drafts := AList.delete q (tb_drafts b)\<rparr> else b))"

text \<open>\<open>_handle\<close>\<close>

definition handle :: "turn_env \<Rightarrow> string \<Rightarrow> turn_event \<Rightarrow> turn_books \<Rightarrow> database \<Rightarrow> exn option \<times> turn_books \<times> database" where
  "handle env cid e b db =
     (if pe_kind e = ''backchannel_filtered'' then (None, drop_backchannel e b, db)
      else if pe_kind e \<notin> set event_kinds then (None, b, db)
      else if reply_conflict e b then (Some (ValueError ''voice_reply_identity_conflict''), b, db)
      else (case ensure_draft (tv_now env) (pe_question_id e) b of
          Inl x \<Rightarrow> (Some x, b, db)
        | Inr (d, b1) \<Rightarrow>
            if dr_closed d then (None, b1, db)
            else (case settle_reply e d b1 of
                Inl x \<Rightarrow> (Some x, b1, db)
              | Inr (d', b2) \<Rightarrow> handle_kind env cid e d' b2 db)))"

section \<open>The reorder buffer\<close>

lemma length_delete_in: "map_of d k = Some v \<Longrightarrow> length (AList.delete k d) < length d"
  by (induction d) (auto simp: le_imp_less_Suc length_delete_le split: if_splits)

text \<open>The loop of \<open>consume\<close>: an event that raises stays at the head of the buffer.\<close>

function drain :: "turn_env \<Rightarrow> turn_svc \<Rightarrow> database \<Rightarrow> unit res \<times> turn_svc \<times> database" where
  "drain env s db =
     (case map_of (ts_pending s) (ts_sequence s + 1) of
        None \<Rightarrow> (Inr (), s, db)
      | Some e \<Rightarrow>
          (case handle env (ts_call s) e (ts_books s) db of
             (Some x, b, db') \<Rightarrow> (Inl x, s\<lparr>ts_books := b\<rparr>, db')
           | (None, b, db') \<Rightarrow>
               drain env (s\<lparr>ts_books := b, ts_sequence := ts_sequence s + 1,
                 ts_pending := AList.delete (ts_sequence s + 1) (ts_pending s)\<rparr>) db'))"
  by pat_completeness auto
termination drain
  by (relation "measure (\<lambda>(env, s, db). length (ts_pending s))") (auto dest: length_delete_in)

declare drain.simps [simp del]

definition identity_ok :: "pystr option \<Rightarrow> bool" where
  "identity_ok t = (case t of None \<Rightarrow> True | Some s \<Rightarrow> 1 \<le> length s \<and> length s \<le> 64)"

definition consume :: "turn_env \<Rightarrow> turn_event \<Rightarrow> turn_svc \<Rightarrow> database \<Rightarrow> unit res \<times> turn_svc \<times> database" where
  "consume env e s db =
     (if pe_call_id e \<noteq> ts_call s \<or> pe_session_id e \<noteq> ts_session s
      then (Inl (ValueError ''voice_event_identity_mismatch''), s, db)
      else if pe_sequence e < 1 then (Inl (ValueError ''voice_event_sequence_invalid''), s, db)
      else if \<not> identity_ok (pe_question_id e) \<or> \<not> identity_ok (pe_reply_id e)
      then (Inl (ValueError ''voice_event_identity_invalid''), s, db)
      else if ts_frozen s then (Inr (), s, db)
      else if pe_sequence e \<le> ts_sequence s \<or> map_of (ts_pending s) (pe_sequence e) \<noteq> None then (Inr (), s, db)
      else if pe_sequence e > ts_sequence s + 128 \<or> length (ts_pending s) \<ge> 128
      then (Inl (ValueError ''voice_event_reorder_limit''), s, db)
      else drain env (s\<lparr>ts_pending := AList.update (pe_sequence e) e (ts_pending s)\<rparr>) db)"

section \<open>Effective results, freezing and the final flush\<close>

text \<open>The checks of \<open>apply_effective\<close>: the draft, or the value it returns or raises.\<close>

definition effective_target :: "pystr \<Rightarrow> effective_text \<Rightarrow> turn_svc \<Rightarrow> (bool res) + draft" where
  "effective_target rid r s =
     (if (ef_evidence r = No_evidence \<and> ef_text r \<noteq> []) \<or> (ef_evidence r = Full \<and> \<not> ef_completed r)
      then Inl (Inl (ValueError ''voice_effective_evidence_mismatch''))
      else if ts_frozen s then Inl (Inr False)
      else (case map_of (tb_replies (ts_books s)) rid of
          None \<Rightarrow> Inl (Inl (ValueError ''voice_reply_unknown''))
        | Some q \<Rightarrow>
            (case get_draft (ts_books s) q of
               None \<Rightarrow> Inl (Inl (RuntimeError ''KeyError''))
             | Some d \<Rightarrow>
                 if dr_closed d then Inl (Inr False)
                 else if ef_completed r \<and> \<not> dr_tts_finished d then Inl (Inl (ValueError ''voice_reply_audio_unfinished''))
                 else if ef_evidence r = Full \<and> \<not> dr_isolated d \<and> ef_text r \<noteq> dr_generated d
                 then Inl (Inl (ValueError ''voice_full_text_mismatch''))
                 else Inr d)))"

definition shut_draft :: "draft \<Rightarrow> draft" where
  "shut_draft d = d\<lparr>dr_closed := True, dr_generated := []\<rparr>"

definition apply_effective :: "turn_env \<Rightarrow> pystr \<Rightarrow> effective_text \<Rightarrow> turn_svc \<Rightarrow> database \<Rightarrow> bool res \<times> turn_svc \<times> database" where
  "apply_effective env rid r s db =
     (case effective_target rid r s of
        Inl out \<Rightarrow> (out, s, db)
      | Inr d \<Rightarrow>
          let (d1, db1) = (case stage_effective env (ts_call s) d r db of
                  Inl x \<Rightarrow> (shut_draft d, db)
                | Inr (d', db') \<Rightarrow> if tv_db_ok env then (d', commit_flush db') else (shut_draft d', db));
              d2 = (if ef_completed r \<or> ef_interrupted r then shut_draft d1 else d1) in
          (Inr True, s\<lparr>ts_books := put_draft d2 (ts_books s), ts_pending_effective := AList.delete rid (ts_pending_effective s)\<rparr>, db1))"

text \<open>The task is cancelled inside the transaction: nothing is committed and the result stays pending.\<close>

definition cancel_effective :: "pystr \<Rightarrow> effective_text \<Rightarrow> turn_svc \<Rightarrow> turn_svc" where
  "cancel_effective rid r s =
     (case effective_target rid r s of
        Inl out \<Rightarrow> s
      | Inr d \<Rightarrow> s\<lparr>ts_pending_effective := AList.update rid r (ts_pending_effective s)\<rparr>)"

definition freeze :: "turn_svc \<Rightarrow> turn_svc" where
  "freeze s = s\<lparr>ts_frozen := True, ts_pending := []\<rparr>"

fun flush_effective ::
  "turn_env \<Rightarrow> string \<Rightarrow> turn_books \<Rightarrow> (pystr \<times> effective_text) list \<Rightarrow> database \<Rightarrow> database res \<times> turn_books" where
  "flush_effective env cid b [] db = (Inr db, b)"
| "flush_effective env cid b ((rid, r) # rest) db =
     (case map_of (tb_replies b) rid of
        None \<Rightarrow> (Inl (RuntimeError ''KeyError''), b)
      | Some q \<Rightarrow>
          (case get_draft b q of
             None \<Rightarrow> (Inl (RuntimeError ''KeyError''), b)
           | Some d \<Rightarrow>
               (case stage_effective env cid d r db of
                  Inl x \<Rightarrow> (Inl x, b)
                | Inr (d', db') \<Rightarrow> flush_effective env cid (put_draft d' b) rest db')))"

definition abort_row :: "datetime \<Rightarrow> turn_row \<Rightarrow> turn_row" where
  "abort_row now row = row\<lparr>tn_status := Aborted, tn_memory_status := Mem_skipped, tn_finalized_at := Some now\<rparr>"

definition flush_draft :: "turn_env \<Rightarrow> string \<Rightarrow> draft \<Rightarrow> database \<Rightarrow> database res" where
  "flush_draft env cid d db =
     (if dr_closed d then Inr db
      else bindR (case dr_user_final d of
                    None \<Rightarrow> Inr db
                  | Some t \<Rightarrow> bindR (write_text (tv_gate env) cid d User_side t False db) (\<lambda>(row, allowed, d', db'). Inr db'))
        (\<lambda>db1. bindR (open_turn cid d db1) (\<lambda>(c, row, db2).
           Inr (if tn_status row = Collecting
                then stage (turn_metric ''incomplete'') (put_turn (abort_row (tv_now env) row) db2) else db2))))"

fun flush_drafts :: "turn_env \<Rightarrow> string \<Rightarrow> draft list \<Rightarrow> database \<Rightarrow> database res" where
  "flush_drafts env cid [] db = Inr db"
| "flush_drafts env cid (d # ds) db = bindR (flush_draft env cid d db) (flush_drafts env cid ds)"

definition forget_texts :: "turn_books \<Rightarrow> turn_books" where
  "forget_texts b = b\<lparr>tb_drafts := map (\<lambda>(q, d). (q, d\<lparr>dr_user_final := None, dr_generated := []\<rparr>)) (tb_drafts b)\<rparr>"

text \<open>\<open>final_flush\<close> runs in the transaction of its caller.\<close>

definition final_flush :: "turn_env \<Rightarrow> turn_svc \<Rightarrow> database \<Rightarrow> database res \<times> turn_svc" where
  "final_flush env s db =
     (if \<not> ts_frozen s then (Inl (ValueError ''voice_turn_producer_not_frozen''), s)
      else let (res, b) = flush_effective env (ts_call s) (ts_books s) (ts_pending_effective s) db in
           (bindR res (flush_drafts env (ts_call s) (map snd (tb_drafts b))),
            s\<lparr>ts_books := forget_texts b, ts_pending_effective := []\<rparr>))"

text \<open>\<open>safe_user_context\<close>\<close>

definition safe_user_context :: "string \<Rightarrow> pystr \<Rightarrow> database \<Rightarrow> pystr" where
  "safe_user_context cid q db =
     (case find (\<lambda>t. tn_call_id t = cid \<and> tn_question_id t = Some q \<and> tn_user_crisis t = Cri_passed \<and> tn_user_safety t = Saf_passed)
        (db_turns db) of
        None \<Rightarrow> []
      | Some t \<Rightarrow> take 8000 (opt_text (tn_user_text_final t)))"

end
