(* ===== verification/TurnClaims.thy ===== *)
theory TurnClaims
  imports Turn MemoryInv
begin

text \<open>
  What the turn service guarantees: the facts about the rows of a call under every sequence of its
  operations (texts stored only under a decision that permits them, one row per question with
  consecutive indices, a crisis record for every hit, a memory job for every closed row) and the order
  in which the events of the provider are handled.
\<close>

section \<open>The invariant of the rows\<close>

primrec side_stored :: "direction \<Rightarrow> turn_row \<Rightarrow> bool" where
  "side_stored User_side t \<longleftrightarrow> tn_user_text_final t \<noteq> None"
| "side_stored Assistant_side t \<longleftrightarrow> tn_assistant_text_effective t \<noteq> None \<or> tn_assistant_text_generated t \<noteq> None"

definition side_private :: "direction \<Rightarrow> turn_row \<Rightarrow> bool" where
  "side_private side t \<longleftrightarrow> (side_stored side t \<longrightarrow> side_crisis side t = Cri_passed \<and> side_safety side t \<noteq> Saf_pending)"

definition side_recorded :: "direction \<Rightarrow> turn_row \<Rightarrow> database \<Rightarrow> bool" where
  "side_recorded side t db \<longleftrightarrow> (side_crisis side t \<in> {Cri_matched, Cri_suspected} \<longrightarrow>
     has_crisis_record (tn_call_id t) (tn_turn_index t) side db)"

definition row_ok :: "database \<Rightarrow> turn_row \<Rightarrow> bool" where
  "row_ok db t \<longleftrightarrow> (\<forall>side. side_private side t \<and> side_recorded side t db)"

definition turn_key :: "turn_row \<Rightarrow> string \<times> pystr option" where
  "turn_key t = (tn_call_id t, tn_question_id t)"

definition turns_inv :: "database \<Rightarrow> bool" where
  "turns_inv db \<longleftrightarrow> distinct (map tn_id (db_turns db)) \<and> distinct (map turn_key (db_turns db)) \<and>
     (\<forall>c. map tn_turn_index (call_turns c db) = [1..int (length (call_turns c db))]) \<and>
     (\<forall>t \<in> set (db_turns db). row_ok db t)"

text \<open>A step of one row: its key, and everything else the operations share, stays.\<close>

definition same_row :: "turn_row \<Rightarrow> turn_row \<Rightarrow> bool" where
  "same_row t t' \<longleftrightarrow> tn_id t' = tn_id t \<and> tn_call_id t' = tn_call_id t \<and> tn_turn_index t' = tn_turn_index t \<and>
     tn_question_id t' = tn_question_id t"

definition keeps_records :: "database \<Rightarrow> database \<Rightarrow> bool" where
  "keeps_records db db' \<longleftrightarrow> (\<forall>c i side. has_crisis_record c i side db \<longrightarrow> has_crisis_record c i side db')"

definition row_step :: "turn_row \<Rightarrow> turn_row \<Rightarrow> database \<Rightarrow> database \<Rightarrow> bool" where
  "row_step t t' db db' \<longleftrightarrow> same_row t t' \<and> keeps_records db db' \<and>
     db_turns db' = row_put tn_id t' (db_turns db) \<and> db_calls db' = db_calls db"

lemma same_row_refl [simp, intro]: "same_row t t"
  by (simp add: same_row_def)

lemma keeps_records_refl [simp, intro]: "keeps_records db db"
  by (simp add: keeps_records_def)

lemma keeps_records_trans [trans]: "keeps_records a b \<Longrightarrow> keeps_records b c \<Longrightarrow> keeps_records a c"
  by (simp add: keeps_records_def)

lemma keeps_records_crises: "db_crises db' = db_crises db \<Longrightarrow> keeps_records db db'"
  by (simp add: keeps_records_def has_crisis_record_def)

lemma row_put_self:
  assumes "distinct (map tn_id rows)" "t \<in> set rows"
  shows "row_put tn_id t rows = rows"
  unfolding row_put_def using assms by (intro map_idI) (metis eq_key_imp_eq_value inj_on_eq_iff distinct_map)

lemma get_turn_mem: "get_turn i db = Some t \<Longrightarrow> t \<in> set (db_turns db) \<and> tn_id t = i"
  unfolding get_turn_def by (drule row_find_key) simp

lemma turn_ids_unique: "turns_inv db \<Longrightarrow> t \<in> set (db_turns db) \<Longrightarrow> u \<in> set (db_turns db) \<Longrightarrow> tn_id t = tn_id u \<Longrightarrow> t = u"
  unfolding turns_inv_def distinct_map by (metis inj_onD)

lemma recorded_keep: "keeps_records db db' \<Longrightarrow> side_recorded side t db \<Longrightarrow> side_recorded side t db'"
  by (auto simp: side_recorded_def keeps_records_def)

lemma row_ok_keep: "keeps_records db db' \<Longrightarrow> row_ok db t \<Longrightarrow> row_ok db' t"
  by (auto simp: row_ok_def recorded_keep)

lemma filter_row_put_map:
  assumes "distinct (map tn_id rows)" "t \<in> set rows" "same_row t t'"
  shows "map tn_turn_index (filter (\<lambda>x. tn_call_id x = c) (row_put tn_id t' rows)) =
    map tn_turn_index (filter (\<lambda>x. tn_call_id x = c) rows)"
proof -
  have "x = t" if "x \<in> set rows" "tn_id x = tn_id t'" for x
    using that assms by (auto simp: distinct_map same_row_def dest: inj_onD)
  then have a: "(if tn_id x = tn_id t' then t' else x) = (if x = t then t' else x)" if "x \<in> set rows" for x
    using that assms(3) by (auto simp: same_row_def)
  have b: "row_put tn_id t' rows = map (\<lambda>x. if x = t then t' else x) rows"
    unfolding row_put_def using a by (rule map_cong [OF refl])
  show ?thesis unfolding b using assms(3) by (induction rows) (auto simp: same_row_def)
qed

text \<open>The only way an operation changes a row.\<close>

lemma row_step_inv:
  assumes inv: "turns_inv db" and t: "t \<in> set (db_turns db)" and st: "row_step t t' db db'" and ok: "row_ok db' t'"
  shows "turns_inv db'"
proof -
  have s: "same_row t t'" "db_turns db' = row_put tn_id t' (db_turns db)" "keeps_records db db'"
    using st by (simp_all add: row_step_def)
  have d: "distinct (map tn_id (db_turns db))" using inv by (simp add: turns_inv_def)
  have "map turn_key (db_turns db') = map turn_key (db_turns db)"
    unfolding s(2) using d t s(1) by (intro map_row_put_other) (auto simp: same_row_def turn_key_def)
  moreover have "map tn_turn_index (call_turns c db') = map tn_turn_index (call_turns c db)" for c
    unfolding call_turns_def s(2) by (rule filter_row_put_map [OF d t s(1)])
  moreover from this have "length (call_turns c db') = length (call_turns c db)" for c
    by (metis length_map)
  moreover have "row_ok db' u" if "u \<in> set (db_turns db')" for u
    using that inv ok row_ok_keep [OF s(3)] unfolding s(2) by (auto simp: turns_inv_def dest!: set_row_put)
  ultimately show ?thesis using inv unfolding turns_inv_def s(2) by simp
qed

lemma get_turn_row_put:
  "get_turn (tn_id t) db = Some t \<Longrightarrow> tn_id t' = tn_id t \<Longrightarrow> db_turns db' = row_put tn_id t' (db_turns db) \<Longrightarrow>
   get_turn (tn_id t') db' = Some t'"
  by (auto simp: get_turn_def row_find_put)

section \<open>Writing a side keeps the invariant\<close>

lemma assessed_row_fields [simp]:
  "same_row t (assessed_row side dec t)" "tn_status (assessed_row side dec t) = tn_status t"
  "side_crisis side (assessed_row side dec t) = gd_crisis dec"
  "side_safety side (assessed_row side dec t) = merge_safety (side_safety side t) (gd_safety dec)"
  "side_stored d (assessed_row side dec t) = side_stored d t"
  by (cases side; cases d; simp add: assessed_row_def same_row_def)+

lemma assessed_row_other:
  assumes "d \<noteq> side"
  shows "side_crisis d (assessed_row side dec t) = side_crisis d t" "side_safety d (assessed_row side dec t) = side_safety d t"
  using assms by (cases side; cases d; simp add: assessed_row_def)+

lemma clear_side_fields [simp]:
  "same_row t (clear_side side t)" "tn_status (clear_side side t) = tn_status t"
  "side_crisis d (clear_side side t) = side_crisis d t" "side_safety d (clear_side side t) = side_safety d t"
  "side_stored d (clear_side side t) \<longleftrightarrow> side_stored d t \<and> d \<noteq> side"
  by (cases side; cases d; simp add: same_row_def)+

lemma set_crisis_fields [simp]:
  "same_row t (set_crisis side c t)" "tn_status (set_crisis side c t) = tn_status t"
  "side_crisis d (set_crisis side c t) = (if d = side then c else side_crisis d t)"
  "side_safety d (set_crisis side c t) = side_safety d t" "side_stored d (set_crisis side c t) = side_stored d t"
  by (cases side; cases d; simp add: same_row_def)+

lemma store_text_fields [simp]:
  "same_row t (store_text g side dr x t)" "tn_status (store_text g side dr x t) = tn_status t"
  "side_crisis d (store_text g side dr x t) = side_crisis d t"
  "side_safety d (store_text g side dr x t) = side_safety d t"
  by (cases side; cases d; simp add: store_text_def same_row_def)+

lemma store_text_other: "d \<noteq> side \<Longrightarrow> side_stored d (store_text g side dr x t) = side_stored d t"
  by (cases side; cases d; simp add: store_text_def)

lemma merge_safety_pending: "merge_safety a b = Saf_pending \<longleftrightarrow> b = Saf_pending \<and> a \<notin> {Saf_matched, Saf_error_allowed}"
  by (auto simp: merge_safety_def)

lemma same_row_trans: "same_row a b \<Longrightarrow> same_row b c \<Longrightarrow> same_row a c"
  by (simp add: same_row_def)

text \<open>A row whose other side is untouched is in order when the written side is.\<close>

lemma row_ok_side:
  assumes "row_ok db t" "keeps_records db db'" "same_row t t'" "side_private side t'" "side_recorded side t' db'"
    and "\<And>d. d \<noteq> side \<Longrightarrow> side_crisis d t' = side_crisis d t"
    and "\<And>d. d \<noteq> side \<Longrightarrow> side_safety d t' = side_safety d t"
    and "\<And>d. d \<noteq> side \<Longrightarrow> side_stored d t' \<Longrightarrow> side_stored d t"
  shows "row_ok db' t'"
proof -
  have "side_private d t' \<and> side_recorded d t' db'" for d
  proof (cases "d = side")
    case False
    then have "side_private d t'" using assms(1,6-8) by (auto simp: row_ok_def side_private_def)
    moreover have "side_recorded d t' db'"
      using assms(1-3) assms(6) [OF False] by (auto simp: row_ok_def side_recorded_def same_row_def keeps_records_def)
    ultimately show ?thesis ..
  qed (use assms(4,5) in simp)
  then show ?thesis by (simp add: row_ok_def)
qed

lemma assess_side_frame:
  assumes "assess_side g side x db = (dec, db1)"
  shows "db_turns db1 = db_turns db" "db_calls db1 = db_calls db" "db_crises db1 = db_crises db"
    "db_memory_jobs db1 = db_memory_jobs db"
  using assms by (auto simp: assess_side_def split: option.splits)

lemma put_turn_turns [simp]: "db_turns (put_turn t db) = row_put tn_id t (db_turns db)"
  by (simp add: put_turn_def)

lemma row_put_twice: "tn_id a = tn_id b \<Longrightarrow> row_put tn_id b (row_put tn_id a rows) = row_put tn_id b rows"
  by (simp add: row_put_def)

section \<open>Opening a row\<close>

lemma fold_max_upto: "fold max [1..int n] 0 = int n"
proof (induction n)
  case (Suc n)
  have "[1..int (Suc n)] = [1..int n] @ [int (Suc n)]" using upto_rec2 [of 1 "int (Suc n)"] by simp
  then show ?case using Suc by simp
qed simp

definition closed_jobs :: "database \<Rightarrow> bool" where
  "closed_jobs db \<longleftrightarrow> (\<forall>t \<in> set (db_turns db). tn_status t \<in> {Finalized, Interrupted} \<longrightarrow> find_job (tn_id t) db \<noteq> None)"

lemma find_job_jobs: "db_memory_jobs db' = db_memory_jobs db \<Longrightarrow> find_job i db' = find_job i db"
  by (simp add: find_job_def)

lemma closed_jobs_step:
  assumes "closed_jobs db" "t \<in> set (db_turns db)" "row_step t t' db db'" "tn_status t' = tn_status t"
    and "db_memory_jobs db' = db_memory_jobs db"
  shows "closed_jobs db'"
  using assms find_job_jobs [OF assms(5)]
  by (auto simp: closed_jobs_def row_step_def same_row_def dest!: set_row_put)

lemma turns_inv_same:
  assumes "turns_inv db" "db_turns db' = db_turns db" "keeps_records db db'"
  shows "turns_inv db'"
  using assms row_ok_keep [OF assms(3)] by (auto simp: turns_inv_def call_turns_def)

lemma turns_inv_new:
  assumes inv: "turns_inv db" and n: "find_turn cid (dr_question d) db = None" and c: "vc_call_id c = cid"
    and t: "t = blank_turn c d (fresh_id (map tn_id (db_turns db))) (last_index cid db + 1)"
  shows "turns_inv (db\<lparr>db_turns := db_turns db @ [t]\<rparr>)"
proof -
  let ?db = "db\<lparr>db_turns := db_turns db @ [t]\<rparr>"
  have f: "tn_id t \<notin> set (map tn_id (db_turns db))"
    using fresh_id_fresh [of "map tn_id (db_turns db)"] by (simp add: t blank_turn_def)
  have q: "turn_key t \<notin> set (map turn_key (db_turns db))"
    using n c by (auto simp: find_turn_def find_None_iff turn_key_def t blank_turn_def)
  have i: "map tn_turn_index (call_turns cid db) = [1..int (length (call_turns cid db))]"
    using inv by (simp add: turns_inv_def)
  have l: "last_index cid db = int (length (call_turns cid db))" unfolding last_index_def i by (rule fold_max_upto)
  have idx: "map tn_turn_index (call_turns x ?db) = [1..int (length (call_turns x ?db))]" for x
  proof (cases "x = cid")
    case True
    have "call_turns x ?db = call_turns cid db @ [t]" using True c by (simp add: call_turns_def t blank_turn_def)
    moreover have "[1..int (length (call_turns cid db @ [t]))] = [1..int (length (call_turns cid db))] @ [int (length (call_turns cid db)) + 1]"
      using upto_rec2 [of 1 "int (length (call_turns cid db)) + 1"] by (simp add: add.commute)
    ultimately show ?thesis using i l by (simp add: t blank_turn_def)
  next
    case False
    then have "call_turns x ?db = call_turns x db" using c by (simp add: call_turns_def t blank_turn_def)
    then show ?thesis using inv by (simp add: turns_inv_def)
  qed
  have "side_private side t \<and> side_recorded side t ?db" for side
    by (cases side) (simp_all add: side_private_def side_recorded_def t blank_turn_def)
  then have "row_ok ?db t" by (simp add: row_ok_def)
  moreover have "keeps_records db ?db" by (rule keeps_records_crises) simp
  ultimately have "row_ok ?db u" if "u \<in> set (db_turns ?db)" for u
    using that inv row_ok_keep [of db ?db] by (auto simp: turns_inv_def)
  then show ?thesis using inv f q idx unfolding turns_inv_def by simp
qed

lemma reply_row_step:
  assumes "turns_inv db" "t \<in> set (db_turns db)"
  shows "row_step t (t\<lparr>tn_reply_id := r\<rparr>) db (put_turn (t\<lparr>tn_reply_id := r\<rparr>) db)"
    "row_ok (put_turn (t\<lparr>tn_reply_id := r\<rparr>) db) (t\<lparr>tn_reply_id := r\<rparr>)"
proof -
  have k: "keeps_records db (put_turn (t\<lparr>tn_reply_id := r\<rparr>) db)" by (rule keeps_records_crises) simp
  then show "row_step t (t\<lparr>tn_reply_id := r\<rparr>) db (put_turn (t\<lparr>tn_reply_id := r\<rparr>) db)"
    by (simp add: row_step_def same_row_def)
  have "row_ok db t" using assms by (simp add: turns_inv_def)
  moreover have "side_private side (t\<lparr>tn_reply_id := r\<rparr>) = side_private side t"
    "side_recorded side (t\<lparr>tn_reply_id := r\<rparr>) x = side_recorded side t x" for side x
    by (cases side; simp add: side_private_def side_recorded_def)+
  ultimately show "row_ok (put_turn (t\<lparr>tn_reply_id := r\<rparr>) db) (t\<lparr>tn_reply_id := r\<rparr>)"
    using row_ok_keep [OF k] by (simp add: row_ok_def)
qed

lemma find_turn_mem: "find_turn cid q db = Some t \<Longrightarrow> t \<in> set (db_turns db) \<and> tn_call_id t = cid \<and> tn_question_id t = Some q"
  unfolding find_turn_def by (drule find_Some_mem) auto

lemma row_put_mem: "t \<in> set rows \<Longrightarrow> tn_id t' = tn_id t \<Longrightarrow> t' \<in> set (row_put tn_id t' rows)"
  by (force simp: row_put_def)

lemma open_turn_step:
  assumes inv: "turns_inv db" and o: "open_turn cid d db = Inr (c, t, db1)"
  shows "turns_inv db1" "t \<in> set (db_turns db1)" "tn_call_id t = cid" "tn_question_id t = Some (dr_question d)"
    "get_call cid db1 = Some c" "db_memory_jobs db1 = db_memory_jobs db" "db_calls db1 = db_calls db"
    "keeps_records db db1" "closed_jobs db \<Longrightarrow> closed_jobs db1"
proof -
  have c: "get_call cid db = Some c" using o by (auto simp: open_turn_def Let_def split: option.splits if_splits)
  have cid: "vc_call_id c = cid" using c by (rule calls.get_key)
  have "turns_inv db1 \<and> t \<in> set (db_turns db1) \<and> tn_call_id t = cid \<and> tn_question_id t = Some (dr_question d) \<and>
    db_memory_jobs db1 = db_memory_jobs db \<and> db_calls db1 = db_calls db \<and> keeps_records db db1 \<and>
    (closed_jobs db \<longrightarrow> closed_jobs db1)"
  proof (cases "find_turn cid (dr_question d) db")
    case None
    have t: "t = blank_turn c d (fresh_id (map tn_id (db_turns db))) (last_index cid db + 1)"
      and d1: "db1 = db\<lparr>db_turns := db_turns db @ [t]\<rparr>"
      using o c None by (auto simp: open_turn_def Let_def split: if_splits)
    have "closed_jobs db \<longrightarrow> closed_jobs db1"
      by (auto simp: closed_jobs_def d1 t blank_turn_def find_job_def)
    moreover have "keeps_records db db1" unfolding d1 by (rule keeps_records_crises) simp
    ultimately show ?thesis using turns_inv_new [OF inv None cid t] t cid
      by (simp add: d1 blank_turn_def)
  next
    case (Some t0)
    note m = find_turn_mem [OF Some]
    show ?thesis
    proof (cases "opt_truthy (dr_reply d)")
      case False
      then have "t = t0" "db1 = db" using o c Some by (auto simp: open_turn_def split: if_splits)
      then show ?thesis using inv m by simp
    next
      case True
      then have t: "t = t0\<lparr>tn_reply_id := dr_reply d\<rparr>" and d1: "db1 = put_turn t db"
        using o c Some by (auto simp: open_turn_def Let_def split: if_splits)
      note st = reply_row_step [OF inv conjunct1 [OF m], of "dr_reply d", folded t, folded d1]
      have "tn_status t = tn_status t0" by (simp add: t)
      then show ?thesis
        using row_step_inv [OF inv conjunct1 [OF m] st] closed_jobs_step [OF _ conjunct1 [OF m] st(1)] st(1) m
        by (auto simp: d1 row_step_def t intro: row_put_mem)
    qed
  qed
  then show "turns_inv db1" "t \<in> set (db_turns db1)" "tn_call_id t = cid" "tn_question_id t = Some (dr_question d)"
    "get_call cid db1 = Some c" "db_memory_jobs db1 = db_memory_jobs db" "db_calls db1 = db_calls db"
    "keeps_records db db1" "closed_jobs db \<Longrightarrow> closed_jobs db1"
    using c by (simp_all add: get_call_def)
qed

context crisis_gate
begin

lemma isolate_keeps_records: "g_isolate g db cid i d t x = Some db' \<Longrightarrow> keeps_records db db'"
  unfolding keeps_records_def using isolate_keeps by blast

lemma extend_isolation_frame:
  "keeps_records db (extend_isolation g cid eff x t db)" "db_turns (extend_isolation g cid eff x t db) = db_turns db"
  "db_calls (extend_isolation g cid eff x t db) = db_calls db"
  "db_memory_jobs (extend_isolation g cid eff x t db) = db_memory_jobs db"
  by (auto simp: extend_isolation_def isolate_keeps_records isolate_tables split: option.splits)

lemma isolate_side_step:
  assumes "isolate_side g cid side x dec t db = (t', db')" "tn_call_id t = cid"
  shows "row_step t t' db db'" "side_private side t'" "side_recorded side t' db'" "tn_status t' = tn_status t"
    "db_memory_jobs db' = db_memory_jobs db" "d \<noteq> side \<Longrightarrow> side_crisis d t' = side_crisis d t"
    "side_safety d t' = side_safety d t" "side_stored d t' \<Longrightarrow> side_stored d t"
proof -
  have "row_step t t' db db' \<and> side_private side t' \<and> side_recorded side t' db' \<and> tn_status t' = tn_status t \<and>
    db_memory_jobs db' = db_memory_jobs db \<and> (d \<noteq> side \<longrightarrow> side_crisis d t' = side_crisis d t) \<and>
    side_safety d t' = side_safety d t \<and> (side_stored d t' \<longrightarrow> side_stored d t)"
  proof (cases "g_isolate g (put_turn t db) cid (tn_turn_index t) side x dec")
    case None
    have t': "t' = clear_side side (set_crisis side Cri_isolation_failed t)"
      and db': "db' = stage (turn_metric ''isolation_failed'') (put_turn t' db)"
      using assms None by (auto simp: isolate_side_def Let_def)
    have "same_row t t'" unfolding t' by (rule same_row_trans [OF set_crisis_fields(1) clear_side_fields(1)])
    moreover have "keeps_records db db'" unfolding db' by (rule keeps_records_crises) simp
    ultimately show ?thesis using t' db'
      by (simp add: row_step_def side_private_def side_recorded_def)
  next
    case (Some db0)
    have t': "t' = clear_side side t" and db': "db' = put_turn t' db0"
      using assms Some by (auto simp: isolate_side_def Let_def)
    have k: "keeps_records db db0"
      using isolate_keeps_records [OF Some] by (simp add: keeps_records_def has_crisis_record_def)
    have "has_crisis_record cid (tn_turn_index t) side db0" by (rule isolate_records [OF Some])
    then have r: "side_recorded side t' db'"
      using assms(2) by (cases side) (auto simp: side_recorded_def t' db' has_crisis_record_def)
    have "tn_id (clear_side side t) = tn_id t" by (cases side) simp_all
    then have "db_turns db' = row_put tn_id t' (db_turns db)" "db_calls db' = db_calls db" "db_memory_jobs db' = db_memory_jobs db"
      using isolate_tables [OF Some] by (simp_all add: db' t' row_put_twice)
    moreover have "keeps_records db db'" using k by (simp add: keeps_records_def has_crisis_record_def db')
    ultimately show ?thesis using r by (simp add: row_step_def t' side_private_def)
  qed
  then show "row_step t t' db db'" "side_private side t'" "side_recorded side t' db'" "tn_status t' = tn_status t"
    "db_memory_jobs db' = db_memory_jobs db" "d \<noteq> side \<Longrightarrow> side_crisis d t' = side_crisis d t"
    "side_safety d t' = side_safety d t" "side_stored d t' \<Longrightarrow> side_stored d t" by simp_all
qed

lemma write_row_step:
  assumes inv: "turns_inv db" and t: "t \<in> set (db_turns db)" "tn_call_id t = cid"
    and w: "write_row g cid dr side x eff t db = (t', al, dr', db')"
  shows "row_step t t' db db' \<and> row_ok db' t' \<and> tn_status t' = tn_status t \<and> db_memory_jobs db' = db_memory_jobs db"
proof -
  have ok: "row_ok db t" using inv t by (simp add: turns_inv_def)
  have self: "row_put tn_id t (db_turns db) = db_turns db" using inv t by (intro row_put_self) (simp_all add: turns_inv_def)
  have same: ?thesis if "t' = t" "db_turns db' = db_turns db" "db_calls db' = db_calls db" "keeps_records db db'"
      "db_memory_jobs db' = db_memory_jobs db"
    using that self row_ok_keep [OF that(4) ok] by (simp add: row_step_def)
  obtain dec db1 where a: "assess_side g side x db = (dec, db1)" by fastforce
  note f = assess_side_frame [OF a]
  define t1 where "t1 = assessed_row side dec t"
  have k1: "keeps_records db db1" using f by (intro keeps_records_crises)
  have t1: "same_row t t1" "tn_status t1 = tn_status t" "\<And>d. d \<noteq> side \<Longrightarrow> side_crisis d t1 = side_crisis d t"
      "\<And>d. d \<noteq> side \<Longrightarrow> side_safety d t1 = side_safety d t" "\<And>d. side_stored d t1 = side_stored d t"
      "side_crisis side t1 = gd_crisis dec" "side_safety side t1 = merge_safety (side_safety side t) (gd_safety dec)"
    unfolding t1_def by (simp_all add: assessed_row_other)
  show ?thesis
  proof (cases "already_written side t")
    case True
    then have "t' = t" "db' = stage (turn_metric ''duplicate'') db" using w by (simp_all add: write_row_def)
    then show ?thesis by (intro same) (simp_all add: keeps_records_crises)
  next
    case fresh: False
    show ?thesis
    proof (cases "side = Assistant_side \<and> tn_assistant_crisis t \<in> {Cri_matched, Cri_suspected}")
      case True
      then have "t' = t" "db' = extend_isolation g cid eff x t db" using w fresh by (auto simp: write_row_def)
      then show ?thesis by (intro same) (simp_all add: extend_isolation_frame)
    next
      case ext: False
      show ?thesis
      proof (cases "gd_crisis dec \<in> {Cri_matched, Cri_suspected}")
        case True
        obtain t2 db2 where i: "isolate_side g cid side x dec t1 db1 = (t2, db2)" by fastforce
        have e: "t' = t2" "db' = db2"
          using w fresh ext True a i unfolding write_row_def Let_def t1_def by (auto split: if_splits)
        have c1: "tn_call_id t1 = cid" using t(2) t1(1) by (simp add: same_row_def)
        note st = isolate_side_step [OF i c1]
        have step: "row_step t t2 db db2"
          using st(1) t1(1) keeps_records_trans [OF k1] f by (auto simp: row_step_def intro: same_row_trans)
        have "row_ok db2 t2"
          by (rule row_ok_side [OF ok _ _ st(2,3)]) (use step st t1 in \<open>auto simp: row_step_def\<close>)
        then show ?thesis using e step st t1(2) f by simp
      next
        case nohit: False
        define t2 where "t2 = (if \<not> permits_text dec then (if side = Assistant_side then clear_side side t1 else t1)
          else store_text g side dr x t1)"
        have e: "t' = t2" "db' = put_turn t2 db1"
          using w fresh ext nohit a unfolding write_row_def Let_def t1_def t2_def by (auto split: if_splits)
        have s: "same_row t t2"
          unfolding t2_def using t1(1) by (auto intro: same_row_trans simp del: clear_side.simps)
        have k: "keeps_records db (put_turn t2 db1)"
          using k1 by (simp add: keeps_records_def has_crisis_record_def)
        have p: "side_private side t2"
        proof (cases "permits_text dec")
          case True
          then show ?thesis using t1(6,7)
            by (auto simp: t2_def side_private_def permits_text_def merge_safety_pending)
        next
          case False
          have "\<not> side_stored side t2"
          proof (cases side)
            case User_side
            then show ?thesis using False fresh by (auto simp: t2_def t1(5) already_written_def)
          next
            case Assistant_side
            then show ?thesis using False by (simp add: t2_def del: clear_side.simps side_stored.simps)
          qed
          then show ?thesis by (simp add: side_private_def)
        qed
        have r: "side_recorded side t2 (put_turn t2 db1)"
          using nohit t1(6) by (auto simp: side_recorded_def t2_def simp del: clear_side.simps side_crisis.simps)
        have "row_ok (put_turn t2 db1) t2"
          by (rule row_ok_side [OF ok k s p r]) (auto simp: t2_def t1 store_text_other simp del: clear_side.simps side_crisis.simps side_safety.simps side_stored.simps split: if_splits)
        then show ?thesis using e s k f t1(2) by (auto simp: row_step_def t2_def simp del: clear_side.simps)
      qed
    qed
  qed
qed

lemma write_text_step:
  assumes inv: "turns_inv db" and w: "write_text g cid d side x eff db = Inr (t, al, d', db')"
  shows "turns_inv db'" "t \<in> set (db_turns db')" "tn_call_id t = cid" "closed_jobs db \<Longrightarrow> closed_jobs db'"
    "keeps_records db db'" "\<exists>c. get_call cid db' = Some c" "db_memory_jobs db' = db_memory_jobs db"
proof -
  obtain c t0 db0 where o: "open_turn cid d db = Inr (c, t0, db0)" and r: "write_row g cid d side x eff t0 db0 = (t, al, d', db')"
    using w by (auto simp: write_text_def bindR_def split: sum.splits)
  note ot = open_turn_step [OF inv o]
  have st: "row_step t0 t db0 db'" "row_ok db' t" "tn_status t = tn_status t0" "db_memory_jobs db' = db_memory_jobs db0"
    using write_row_step [OF ot(1-3) r] by simp_all
  show "turns_inv db'" by (rule row_step_inv [OF ot(1,2) st(1,2)])
  show "t \<in> set (db_turns db')" using st(1) ot(2) by (auto simp: row_step_def same_row_def intro: row_put_mem)
  show "tn_call_id t = cid" using st(1) ot(3) by (simp add: row_step_def same_row_def)
  show "closed_jobs db'" if "closed_jobs db" by (rule closed_jobs_step [OF ot(9) [OF that] ot(2) st(1,3,4)])
  show "keeps_records db db'" using ot(8) st(1) by (auto simp: row_step_def intro: keeps_records_trans)
  show "\<exists>c. get_call cid db' = Some c" using ot(5) st(1) by (simp add: row_step_def get_call_def)
  show "db_memory_jobs db' = db_memory_jobs db" using ot(6) st(4) by simp
qed

end

section \<open>The effective text\<close>

lemma effective_row_fields:
  "same_row t (effective_row now al r t)" "side_private side (effective_row now al r t) = side_private side t"
  "side_recorded side (effective_row now al r t) db = side_recorded side t db"
  "tn_status (effective_row now al r t) =
     (if ef_completed r \<or> ef_interrupted r then if ef_interrupted r then Interrupted else Finalized else tn_status t)"
  by (cases side; simp add: effective_row_def same_row_def Let_def side_private_def side_recorded_def)+

lemma row_ok_crises: "row_ok db t \<Longrightarrow> db_crises db' = db_crises db \<Longrightarrow> row_ok db' t"
  by (erule row_ok_keep [OF keeps_records_crises, rotated])

text \<open>A change of a row that touches neither its key nor the two sides.\<close>

lemma plain_change:
  assumes inv: "turns_inv db" and t: "t \<in> set (db_turns db)" and s: "same_row t t'"
    and p: "\<And>side. side_private side t' = side_private side t"
    and r: "\<And>side x. side_recorded side t' x = side_recorded side t x"
    and d: "db_turns db' = row_put tn_id t' (db_turns db)" "db_calls db' = db_calls db" "db_crises db' = db_crises db"
  shows "turns_inv db'" "row_step t t' db db'"
proof -
  show st: "row_step t t' db db'" using s d by (auto simp: row_step_def keeps_records_crises)
  have "row_ok db t" using inv t by (simp add: turns_inv_def)
  then have "row_ok db' t'" using row_ok_crises [OF _ d(3)] p r by (simp add: row_ok_def)
  then show "turns_inv db'" by (rule row_step_inv [OF inv t st])
qed

lemma stage_job_step:
  assumes inv: "turns_inv db" and t: "t \<in> set (db_turns db)"
  shows "turns_inv (snd (stage_job now lk c t db))" "find_job (tn_id t) (snd (stage_job now lk c t db)) \<noteq> None"
    "find_job i db \<noteq> None \<Longrightarrow> find_job i (snd (stage_job now lk c t db)) \<noteq> None"
    "keeps_records db (snd (stage_job now lk c t db))"
    "u \<in> set (db_turns (snd (stage_job now lk c t db))) \<Longrightarrow> \<exists>v \<in> set (db_turns db). tn_id u = tn_id v \<and> tn_status u = tn_status v"
proof -
  let ?r = "snd (stage_job now lk c t db)"
  have "turns_inv ?r \<and> find_job (tn_id t) ?r \<noteq> None \<and> (find_job i db \<noteq> None \<longrightarrow> find_job i ?r \<noteq> None) \<and> keeps_records db ?r \<and>
    (u \<in> set (db_turns ?r) \<longrightarrow> (\<exists>v \<in> set (db_turns db). tn_id u = tn_id v \<and> tn_status u = tn_status v))"
  proof (cases "find_job (tn_id t) db")
    case (Some j)
    then show ?thesis using inv by (auto simp: stage_job_def)
  next
    case None
    define t' where "t' = t\<lparr>tn_memory_status := initial_status c t\<rparr>"
    define j where "j = new_job now c t db"
    have r: "?r = stage (enqueue_events (initial_status c t) t') ((put_turn t' db)\<lparr>db_memory_jobs := db_memory_jobs db @ [j]\<rparr>)"
      using None by (simp add: stage_job_def t'_def j_def Let_def)
    have p: "side_private side t' = side_private side t" "side_recorded side t' x = side_recorded side t x" for side x
      by (cases side; simp add: t'_def side_private_def side_recorded_def)+
    have "turns_inv ?r" "row_step t t' db ?r"
      by (rule plain_change [OF inv t _ p]; simp add: r same_row_def t'_def)+
    moreover have "j \<in> set (db_memory_jobs ?r)" "mj_turn_id j = tn_id t \<and> mj_pipeline_version j = pipeline_version"
      by (simp_all add: r) (simp_all add: j_def new_job_def)
    then have "find_job (tn_id t) ?r \<noteq> None" unfolding find_job_def find_None_iff by blast
    moreover have "find_job i db \<noteq> None \<longrightarrow> find_job i ?r \<noteq> None"
      by (auto simp: r find_job_def find_None_iff)
    moreover have "u \<in> set (db_turns ?r) \<longrightarrow> (\<exists>v \<in> set (db_turns db). tn_id u = tn_id v \<and> tn_status u = tn_status v)"
      using t by (auto simp: r t'_def dest!: set_row_put)
    ultimately show ?thesis by (simp add: row_step_def)
  qed
  then show "turns_inv ?r" "find_job (tn_id t) ?r \<noteq> None" "find_job i db \<noteq> None \<Longrightarrow> find_job i ?r \<noteq> None"
    "keeps_records db ?r"
    "u \<in> set (db_turns ?r) \<Longrightarrow> \<exists>v \<in> set (db_turns db). tn_id u = tn_id v \<and> tn_status u = tn_status v" by blast+
qed

definition has_writer :: "turn_env \<Rightarrow> bool" where
  "has_writer env \<longleftrightarrow> tv_memory env \<noteq> None"

definition facts_kept :: "database \<Rightarrow> database \<Rightarrow> bool" where
  "facts_kept db db' \<longleftrightarrow> turns_inv db' \<and> keeps_records db db' \<and> (closed_jobs db \<longrightarrow> closed_jobs db')"

lemma facts_kept_refl: "turns_inv db \<Longrightarrow> facts_kept db db"
  by (simp add: facts_kept_def)

lemma facts_kept_trans: "facts_kept a b \<Longrightarrow> facts_kept b c \<Longrightarrow> facts_kept a c"
  by (auto simp: facts_kept_def intro: keeps_records_trans)

lemma facts_kept_same:
  assumes "facts_kept a b" "db_turns c = db_turns b" "db_crises c = db_crises b" "db_memory_jobs c = db_memory_jobs b"
  shows "facts_kept a c"
proof -
  have k: "keeps_records b c" by (rule keeps_records_crises [OF assms(3)])
  show ?thesis using assms(1) turns_inv_same [OF _ assms(2) k] keeps_records_trans [OF _ k] find_job_jobs [OF assms(4)]
    by (auto simp: facts_kept_def closed_jobs_def assms(2))
qed

lemma facts_kept_flush: "facts_kept a b \<Longrightarrow> facts_kept a (commit_flush b)"
  by (erule facts_kept_same) simp_all

lemma facts_kept_stage: "facts_kept a b \<Longrightarrow> facts_kept a (stage evs b)"
  by (erule facts_kept_same) simp_all

text \<open>An environment whose gate keeps the contract of the isolation.\<close>

locale turn_service = crisis_gate "tv_gate env" for env :: turn_env
begin

lemma stage_effective_step:
  assumes inv: "turns_inv db" and w: "stage_effective env cid d r db = Inr (d', db')"
  shows "turns_inv db'" "keeps_records db db'" "has_writer env \<Longrightarrow> closed_jobs db \<Longrightarrow> closed_jobs db'"
proof -
  obtain t al db1 where wt: "write_text (tv_gate env) cid d Assistant_side (ef_text r) (effective_final r) db = Inr (t, al, d', db1)"
    using w by (auto simp: stage_effective_def Let_def bindR_def split: sum.splits if_splits option.splits)
  note s1 = write_text_step [OF inv wt]
  define t2 where "t2 = effective_row (tv_now env) al r t"
  define db2 where "db2 = put_turn t2 db1"
  note f = effective_row_fields [where t = t and now = "tv_now env" and al = al and r = r, folded t2_def]
  have p2: "turns_inv db2" "row_step t t2 db1 db2"
    by (rule plain_change [OF s1(1,2) f(1)]; simp add: db2_def f)+
  have mem2: "t2 \<in> set (db_turns db2)" using s1(2) f(1) by (auto simp: db2_def same_row_def intro: row_put_mem)
  have k2: "keeps_records db db2" using s1(5) p2(2) by (auto simp: row_step_def intro: keeps_records_trans)
  obtain c where c: "get_call cid db2 = Some c" using s1(6) by (auto simp: db2_def)
  have others: "find_job (tn_id u) db2 \<noteq> None"
    if "closed_jobs db" "u \<in> set (db_turns db2)" "tn_id u \<noteq> tn_id t2" "tn_status u \<in> {Finalized, Interrupted}" for u
    using s1(4) [OF that(1)] that(2-) find_job_jobs [of db2 db1]
    by (auto simp: closed_jobs_def db2_def dest!: set_row_put)
  have "turns_inv db' \<and> keeps_records db db' \<and> (has_writer env \<longrightarrow> closed_jobs db \<longrightarrow> closed_jobs db')"
  proof (cases "tn_status t = Collecting")
    case False
    then have "db' = db1" using w wt by (simp add: stage_effective_def bindR_def)
    then show ?thesis using s1 by simp
  next
    case True
    have db': "db' = (case (tv_memory env, Some c) of
        (Some locked, Some c) \<Rightarrow> if ef_completed r \<or> ef_interrupted r then snd (stage_job (tv_now env) locked c t2 db2) else db2
      | _ \<Rightarrow> db2)"
      using w wt True c unfolding stage_effective_def bindR_def Let_def t2_def db2_def by (auto split: option.split)
    show ?thesis
    proof (cases "tv_memory env \<noteq> None \<and> (ef_completed r \<or> ef_interrupted r)")
      case True
      then obtain lk where e: "db' = snd (stage_job (tv_now env) lk c t2 db2)" using db' by auto
      note sj = stage_job_step [OF p2(1) mem2, where now = "tv_now env" and lk = lk and c = c, folded e]
      have "closed_jobs db'" if cl: "closed_jobs db"
      proof -
        have "find_job (tn_id u) db' \<noteq> None" if u: "u \<in> set (db_turns db')" "tn_status u \<in> {Finalized, Interrupted}" for u
        proof -
          obtain v where v: "v \<in> set (db_turns db2)" "tn_id u = tn_id v" "tn_status u = tn_status v" using sj(5) [OF u(1)] by blast
          show ?thesis
          proof (cases "tn_id v = tn_id t2")
            case True then show ?thesis using sj(2) v(2) by simp
          next
            case False then show ?thesis using sj(3) others [OF cl v(1) False] u(2) v by simp
          qed
        qed
        then show ?thesis by (simp add: closed_jobs_def)
      qed
      then show ?thesis using sj(1) keeps_records_trans [OF k2 sj(4)] by simp
    next
      case False
      then have e: "db' = db2" using db' by (auto split: option.splits)
      have "closed_jobs db'" if cl: "closed_jobs db" "has_writer env"
      proof -
        have "tn_status t2 = tn_status t" using f(4) False cl(2) by (auto simp: has_writer_def)
        then show ?thesis using closed_jobs_step [OF s1(4) [OF cl(1)] s1(2) p2(2)] by (simp add: e db2_def)
      qed
      then show ?thesis using p2(1) k2 e by simp
    qed
  qed
  then show "turns_inv db'" "keeps_records db db'" "has_writer env \<Longrightarrow> closed_jobs db \<Longrightarrow> closed_jobs db'" by blast+
qed

lemma plain_change_jobs:
  assumes "turns_inv db" "t \<in> set (db_turns db)" "same_row t t'"
    "\<And>side. side_private side t' = side_private side t" "\<And>side x. side_recorded side t' x = side_recorded side t x"
    and "tn_status t' = tn_status t \<or> tn_status t' \<notin> {Finalized, Interrupted}"
  shows "facts_kept db (put_turn t' db)"
proof -
  have p: "turns_inv (put_turn t' db)" "row_step t t' db (put_turn t' db)"
    by (rule plain_change [OF assms(1-5)]; simp)+
  have "closed_jobs (put_turn t' db)" if "closed_jobs db"
    using that assms(2,3,6) find_job_jobs [of "put_turn t' db" db]
    by (auto simp: closed_jobs_def same_row_def dest!: set_row_put)
  then show ?thesis using p by (simp add: facts_kept_def row_step_def)
qed

lemma write_text_facts:
  "write_text (tv_gate env) cid d side x eff db = Inr (t, al, d', db') \<Longrightarrow> turns_inv db \<Longrightarrow> facts_kept db db'"
  using write_text_step [of db cid d side x eff t al d' db'] by (simp add: facts_kept_def)

lemma open_turn_facts: "open_turn cid d db = Inr (c, t, db') \<Longrightarrow> turns_inv db \<Longrightarrow> facts_kept db db'"
  using open_turn_step [of db cid d c t db'] by (simp add: facts_kept_def)

lemma stage_effective_facts:
  "has_writer env \<Longrightarrow> stage_effective env cid d r db = Inr (d', db') \<Longrightarrow> turns_inv db \<Longrightarrow> facts_kept db db'"
  using stage_effective_step [of db cid d r d' db'] by (simp add: facts_kept_def)

lemma store_final_facts:
  assumes inv: "turns_inv db"
  shows "facts_kept db (store_final env cid d x conf db)"
proof (cases "write_text (tv_gate env) cid d User_side x False db")
  case (Inl e)
  then show ?thesis by (simp add: store_final_def facts_kept_refl inv)
next
  case (Inr q)
  obtain t al d' db1 where w: "q = (t, al, d', db1)" by (cases q)
  note s1 = write_text_step [OF inv Inr [unfolded w]]
  have k: "facts_kept db db1" by (rule write_text_facts [OF Inr [unfolded w] inv])
  show ?thesis
  proof (cases "set_confidence conf t")
    case None
    then show ?thesis using Inr w by (simp add: store_final_def facts_kept_refl inv)
  next
    case (Some t')
    have f: "same_row t t'" "tn_status t' = tn_status t" "side_private side t' = side_private side t"
      "side_recorded side t' y = side_recorded side t y" for side y
      using Some by (cases side; auto simp: set_confidence_def same_row_def side_private_def side_recorded_def
          split: if_splits option.splits pyfloat.splits)+
    have "facts_kept db1 (put_turn t' db1)" by (rule plain_change_jobs [OF s1(1,2) f(1,3,4)]) (simp add: f(2))
    then have "facts_kept db (put_turn t' db1)" by (rule facts_kept_trans [OF k])
    then have "facts_kept db (commit_flush (put_turn t' db1))" by (rule facts_kept_flush)
    then show ?thesis using Inr w Some by (simp add: store_final_def facts_kept_refl inv)
  qed
qed

lemma handle_facts:
  assumes "turns_inv db" "handle env cid e b db = (x, b', db')"
  shows "facts_kept db db'"
proof -
  have "handle_kind env cid e d b2 db = (x, b', db') \<Longrightarrow> facts_kept db db'" for d b2
    using store_final_facts [OF assms(1)] facts_kept_refl [OF assms(1)]
    by (auto simp: handle_kind_def split: if_splits ev_payload.splits bool.splits)
  then show ?thesis using assms(2) facts_kept_refl [OF assms(1)]
    by (auto simp: handle_def split: if_splits sum.splits)
qed

lemma flush_draft_facts:
  assumes inv: "turns_inv db" and f: "flush_draft env cid d db = Inr db'"
  shows "facts_kept db db'"
proof (cases "dr_closed d")
  case True
  then show ?thesis using f facts_kept_refl [OF inv] by (simp add: flush_draft_def)
next
  case False
  then obtain db1 c t db2
    where a: "(case dr_user_final d of None \<Rightarrow> Inr db
        | Some x \<Rightarrow> bindR (write_text (tv_gate env) cid d User_side x False db) (\<lambda>(row, allowed, d', db'). Inr db')) = Inr db1"
      and o: "open_turn cid d db1 = Inr (c, t, db2)"
      and db': "db' = (if tn_status t = Collecting then stage (turn_metric ''incomplete'') (put_turn (abort_row (tv_now env) t) db2) else db2)"
    using f by (auto simp: flush_draft_def bindR_Inr_iff)
  have k1: "facts_kept db db1"
    using a write_text_facts [OF _ inv] facts_kept_refl [OF inv] by (auto simp: bindR_def split: option.splits sum.splits)
  then have inv1: "turns_inv db1" by (simp add: facts_kept_def)
  note ot = open_turn_step [OF inv1 o]
  have k2: "facts_kept db db2" by (rule facts_kept_trans [OF k1 open_turn_facts [OF o inv1]])
  have p: "same_row t (abort_row (tv_now env) t)" "side_private side (abort_row (tv_now env) t) = side_private side t"
    "side_recorded side (abort_row (tv_now env) t) y = side_recorded side t y" for side y
    by (cases side; simp add: abort_row_def same_row_def side_private_def side_recorded_def)+
  have "facts_kept db2 (put_turn (abort_row (tv_now env) t) db2)"
    by (rule plain_change_jobs [OF ot(1,2) p]) (simp add: abort_row_def)
  then show ?thesis using k2 facts_kept_trans [OF k2] facts_kept_stage by (simp add: db')
qed

lemma flush_drafts_facts: "turns_inv db \<Longrightarrow> flush_drafts env cid ds db = Inr db' \<Longrightarrow> facts_kept db db'"
proof (induction ds arbitrary: db)
  case Nil
  then show ?case by (simp add: facts_kept_refl)
next
  case (Cons d ds)
  then obtain db1 where f: "flush_draft env cid d db = Inr db1" "flush_drafts env cid ds db1 = Inr db'"
    by (auto simp: bindR_def split: sum.splits)
  have "facts_kept db db1" by (rule flush_draft_facts [OF Cons.prems(1) f(1)])
  then show ?case using Cons.IH [OF _ f(2)] by (auto simp: facts_kept_def intro: keeps_records_trans)
qed

lemma flush_effective_facts:
  assumes "has_writer env"
  shows "turns_inv db \<Longrightarrow> flush_effective env cid b rs db = (Inr db', b') \<Longrightarrow> facts_kept db db'"
proof (induction rs arbitrary: b db)
  case Nil
  then show ?case by (simp add: facts_kept_refl)
next
  case (Cons r rs)
  obtain rid ef where r: "r = (rid, ef)" by (cases r)
  obtain q d d1 db1 where f: "stage_effective env cid d ef db = Inr (d1, db1)"
      "flush_effective env cid (put_draft d1 b) rs db1 = (Inr db', b')"
    using Cons.prems(2) unfolding r by (auto split: option.splits sum.splits)
  have "facts_kept db db1" by (rule stage_effective_facts [OF assms f(1) Cons.prems(1)])
  then show ?case using Cons.IH [OF _ f(2)] by (auto simp: facts_kept_def intro: keeps_records_trans)
qed

lemma final_flush_facts:
  assumes "has_writer env" "turns_inv db" "final_flush env s db = (Inr db', s')"
  shows "facts_kept db db'"
proof -
  obtain db1 b where f: "flush_effective env (ts_call s) (ts_books s) (ts_pending_effective s) db = (Inr db1, b)"
      "flush_drafts env (ts_call s) (map snd (tb_drafts b)) db1 = Inr db'"
    using assms(3) by (auto simp: final_flush_def bindR_def split: if_splits prod.splits sum.splits)
  have k: "facts_kept db db1" by (rule flush_effective_facts [OF assms(1,2) f(1)])
  then show ?thesis using flush_drafts_facts [OF _ f(2)] by (auto simp: facts_kept_def intro: keeps_records_trans)
qed

lemma apply_effective_facts:
  assumes "has_writer env" "turns_inv db" "apply_effective env rid r s db = (out, s', db')"
  shows "facts_kept db db'"
  using assms(3) facts_kept_refl [OF assms(2)] stage_effective_facts [OF assms(1) _ assms(2)]
  by (auto simp: apply_effective_def Let_def facts_kept_flush split: sum.splits prod.splits if_splits)

end

lemma drain_facts: "turn_service env \<Longrightarrow> turns_inv db \<Longrightarrow> drain env s db = (x, s', db') \<Longrightarrow> facts_kept db db'"
proof (induction env s db rule: drain.induct)
  case (1 env s db)
  show ?case
  proof (cases "map_of (ts_pending s) (ts_sequence s + 1)")
    case None
    then show ?thesis using 1 facts_kept_refl by (simp add: drain.simps)
  next
    case (Some e)
    obtain y b db1 where h: "handle env (ts_call s) e (ts_books s) db = (y, b, db1)" by (cases "handle env (ts_call s) e (ts_books s) db")
    have k: "facts_kept db db1" by (rule turn_service.handle_facts [OF 1(2,3) h])
    show ?thesis
    proof (cases y)
      case (Some ex)
      then show ?thesis using k 1(4) \<open>map_of _ _ = Some e\<close> h by (auto simp: drain.simps)
    next
      case None
      then have "facts_kept db1 db'"
        using 1(1) [OF Some h [symmetric] None] 1(2,4) k Some h by (subst (asm) drain.simps) (auto simp: facts_kept_def)
      then show ?thesis by (rule facts_kept_trans [OF k])
    qed
  qed
qed

lemma consume_facts: "turn_service env \<Longrightarrow> turns_inv db \<Longrightarrow> consume env e s db = (x, s', db') \<Longrightarrow> facts_kept db db'"
  using drain_facts [of env db] by (auto simp: consume_def facts_kept_refl split: if_splits)

section \<open>The operations of a service in sequence\<close>

text \<open>What one operation runs with: the instant, whether the crisis port is installed, the policy it
  finds, whether the job's row is held elsewhere and whether the database commits.\<close>

type_synonym turn_ports = "datetime \<times> bool \<times> safety_env \<times> bool \<times> bool"

fun live_env :: "turn_ports \<Rightarrow> turn_env" where
  "live_env (now, hc, se, lk, ok) = \<lparr>tv_gate = safety_gate now hc se, tv_memory = Some lk, tv_now = now, tv_db_ok = ok\<rparr>"

datatype turn_action = Do_consume turn_event | Do_effective pystr effective_text | Do_cancelled pystr effective_text
  | Do_freeze | Do_flush

text \<open>\<open>Do_flush\<close> runs in the transaction that ends the call: an error rolls it back.\<close>

fun turn_do :: "turn_ports \<times> turn_action \<Rightarrow> turn_svc \<times> database \<Rightarrow> turn_svc \<times> database" where
  "turn_do (p, Do_consume e) (s, db) = snd (consume (live_env p) e s db)"
| "turn_do (p, Do_effective rid r) (s, db) = snd (apply_effective (live_env p) rid r s db)"
| "turn_do (p, Do_cancelled rid r) (s, db) = (cancel_effective rid r s, db)"
| "turn_do (p, Do_freeze) (s, db) = (freeze s, db)"
| "turn_do (p, Do_flush) (s, db) =
     (case final_flush (live_env p) s db of (Inl x, s') \<Rightarrow> (s', db) | (Inr db', s') \<Rightarrow> (s', commit_flush db'))"

definition turn_run :: "(turn_ports \<times> turn_action) list \<Rightarrow> turn_svc \<times> database \<Rightarrow> turn_svc \<times> database" where
  "turn_run acts st = fold turn_do acts st"

interpretation live: turn_service "live_env p" for p
proof -
  obtain now hc se lk ok where p: "p = (now, hc, se, lk, ok)" by (cases p)
  show "turn_service (live_env p)"
    unfolding turn_service_def p using voice_safety.crisis_gate_axioms by simp
qed

lemma live_writer [simp]: "has_writer (live_env p)"
  by (cases p) (simp add: has_writer_def)

lemma turn_do_facts:
  assumes "turns_inv db" "turn_do (p, a) (s, db) = (s', db')"
  shows "facts_kept db db'"
proof (cases a)
  case (Do_consume e)
  then show ?thesis using assms consume_facts [OF live.turn_service_axioms assms(1)]
    by (cases "consume (live_env p) e s db") auto
next
  case (Do_effective rid r)
  then show ?thesis using assms live.apply_effective_facts [OF live_writer assms(1)]
    by (cases "apply_effective (live_env p) rid r s db") auto
next
  case Do_flush
  obtain r s1 where f: "final_flush (live_env p) s db = (r, s1)" by fastforce
  show ?thesis
  proof (cases r)
    case (Inl x)
    then show ?thesis using assms(2) Do_flush f facts_kept_refl [OF assms(1)] by simp
  next
    case (Inr db1)
    have "facts_kept db db1" by (rule live.final_flush_facts [OF live_writer assms(1) f [unfolded Inr]])
    then have "facts_kept db (commit_flush db1)" by (rule facts_kept_flush)
    then show ?thesis using assms(2) Do_flush f Inr by simp
  qed
qed (use assms facts_kept_refl in auto)

lemma turn_run_facts: "turns_inv db \<Longrightarrow> turn_run acts (s, db) = (s', db') \<Longrightarrow> facts_kept db db'"
  unfolding turn_run_def
proof (induction acts arbitrary: s db)
  case (Cons a acts)
  obtain s1 db1 where d: "turn_do a (s, db) = (s1, db1)" by fastforce
  have k: "facts_kept db db1" using turn_do_facts [OF Cons.prems(1)] d by (cases a) auto
  then have "facts_kept db1 db'" using Cons d by (auto simp: facts_kept_def)
  then show ?case by (rule facts_kept_trans [OF k])
qed (simp add: facts_kept_refl)

section \<open>The order of the events\<close>

definition first_with :: "int \<Rightarrow> turn_event list \<Rightarrow> turn_event option" where
  "first_with k es = find (\<lambda>e. pe_sequence e = k) es"

fun handle_all :: "turn_env \<Rightarrow> string \<Rightarrow> turn_event list \<Rightarrow> turn_books \<Rightarrow> database \<Rightarrow> exn option \<times> turn_books \<times> database" where
  "handle_all env cid [] b db = (None, b, db)"
| "handle_all env cid (e # es) b db =
     (case handle env cid e b db of
        (Some x, b', db') \<Rightarrow> (Some x, b', db')
      | (None, b', db') \<Rightarrow> handle_all env cid es b' db')"

fun consume_all :: "turn_env \<Rightarrow> turn_event list \<Rightarrow> turn_svc \<Rightarrow> database \<Rightarrow> unit res \<times> turn_svc \<times> database" where
  "consume_all env [] s db = (Inr (), s, db)"
| "consume_all env (e # es) s db =
     (case consume env e s db of
        (Inl x, s', db') \<Rightarrow> (Inl x, s', db')
      | (Inr u, s', db') \<Rightarrow> consume_all env es s' db')"

lemma handle_all_snoc:
  "handle_all env cid es b db = (None, b1, db1) \<Longrightarrow> handle env cid e b1 db1 = (None, b2, db2) \<Longrightarrow>
   handle_all env cid (es @ [e]) b db = (None, b2, db2)"
  by (induction es arbitrary: b db) (auto split: prod.splits option.splits)

text \<open>The state after the events \<open>es\<close> arrived: those numbered up to the sequence were handled in order, the
  later ones wait.\<close>

definition in_order ::
  "turn_env \<Rightarrow> turn_books \<Rightarrow> database \<Rightarrow> turn_event list \<Rightarrow> turn_svc \<Rightarrow> database \<Rightarrow> bool" where
  "in_order env b0 db0 es s db \<longleftrightarrow> 0 \<le> ts_sequence s \<and> \<not> ts_frozen s \<and>
     (\<forall>k \<in> {1..ts_sequence s}. first_with k es \<noteq> None) \<and>
     (\<forall>k. map_of (ts_pending s) k = (if ts_sequence s < k then first_with k es else None)) \<and>
     handle_all env (ts_call s) (map (\<lambda>k. the (first_with k es)) [1..ts_sequence s]) b0 db0 = (None, ts_books s, db)"

lemma drain_in_order:
  "in_order env b0 db0 es s db \<Longrightarrow> drain env s db = (Inr u, s', db') \<Longrightarrow>
   in_order env b0 db0 es s' db' \<and> first_with (ts_sequence s' + 1) es = None \<and> ts_call s' = ts_call s"
proof (induction env s db rule: drain.induct)
  case (1 env s db)
  let ?n = "ts_sequence s"
  have p: "map_of (ts_pending s) (?n + 1) = first_with (?n + 1) es" using 1(2) by (simp add: in_order_def)
  show ?case
  proof (cases "map_of (ts_pending s) (?n + 1)")
    case None
    then show ?thesis using 1(2,3) p by (simp add: drain.simps)
  next
    case e: (Some e)
    obtain y b db1 where h: "handle env (ts_call s) e (ts_books s) db = (y, b, db1)" by (cases "handle env (ts_call s) e (ts_books s) db")
    have y: "y = None" using 1(3) e h by (cases y) (simp_all add: drain.simps)
    define s1 where "s1 = s\<lparr>ts_books := b, ts_sequence := ?n + 1, ts_pending := AList.delete (?n + 1) (ts_pending s)\<rparr>"
    have d: "drain env s1 db1 = (Inr u, s', db')"
      using 1(3) e h y unfolding s1_def by (subst (asm) drain.simps) simp
    have up: "[1..?n + 1] = [1..?n] @ [?n + 1]" using 1(2) upto_rec2 [of 1 "?n + 1"] by (simp add: in_order_def)
    have "handle_all env (ts_call s1) (map (\<lambda>k. the (first_with k es)) [1..?n + 1]) b0 db0 = (None, b, db1)"
      using 1(2) h y e p by (auto simp: up s1_def in_order_def intro!: handle_all_snoc)
    moreover have "first_with k es \<noteq> None" if "k \<in> {1..?n + 1}" for k
      using that 1(2) p e by (cases "k = ?n + 1") (auto simp: in_order_def)
    moreover have "map_of (ts_pending s1) k = (if ?n + 1 < k then first_with k es else None)" for k
      using 1(2) by (auto simp: s1_def in_order_def delete_conv')
    ultimately have "in_order env b0 db0 es s1 db1" using 1(2) by (simp add: in_order_def s1_def)
    from 1(1) [OF e h [symmetric] y refl, folded s1_def, OF this d] show ?thesis by (simp add: s1_def)
  qed
qed

lemma first_with_snoc: "first_with k es \<noteq> None \<Longrightarrow> first_with k (es @ [e]) = first_with k es"
  by (induction es) (auto simp: first_with_def)

lemma first_with_new: "first_with k es = None \<Longrightarrow> first_with k (es @ [e]) = (if pe_sequence e = k then Some e else None)"
  by (induction es) (auto simp: first_with_def)

definition settled :: "turn_env \<Rightarrow> turn_books \<Rightarrow> database \<Rightarrow> turn_event list \<Rightarrow> turn_svc \<Rightarrow> database \<Rightarrow> bool" where
  "settled env b0 db0 es s db \<longleftrightarrow> in_order env b0 db0 es s db \<and> first_with (ts_sequence s + 1) es = None"

lemma consume_in_order:
  assumes st: "settled env b0 db0 es s db" and c: "consume env e s db = (Inr u, s', db')"
  shows "settled env b0 db0 (es @ [e]) s' db' \<and> ts_call s' = ts_call s"
proof -
  let ?k = "pe_sequence e"
  have io: "in_order env b0 db0 es s db" using st by (simp add: settled_def)
  have k1: "1 \<le> ?k" using c by (auto simp: consume_def split: if_splits)
  have same: "map (\<lambda>k. the (first_with k (es @ [e]))) [1..ts_sequence s] = map (\<lambda>k. the (first_with k es)) [1..ts_sequence s]"
    using io by (auto simp: in_order_def first_with_snoc)
  show ?thesis
  proof (cases "?k \<le> ts_sequence s \<or> map_of (ts_pending s) ?k \<noteq> None")
    case True
    then have f: "first_with ?k es \<noteq> None" using io k1 by (auto simp: in_order_def)
    have eq: "first_with k (es @ [e]) = first_with k es" for k
      using first_with_snoc [of k es e] first_with_new [of k es e] f by (cases "first_with k es") auto
    have "s' = s \<and> db' = db" using c True io by (auto simp: consume_def in_order_def split: if_splits)
    then show ?thesis using st same by (simp add: settled_def in_order_def eq)
  next
    case False
    define s1 where "s1 = s\<lparr>ts_pending := AList.update ?k e (ts_pending s)\<rparr>"
    have d: "drain env s1 db = (Inr u, s', db')"
      using c False io by (auto simp: consume_def in_order_def s1_def split: if_splits)
    have n: "first_with ?k es = None" using io False by (auto simp: in_order_def split: if_splits)
    have eq: "first_with k (es @ [e]) = (if k = ?k then Some e else first_with k es)" for k
      using first_with_snoc [of k es e] first_with_new [of k es e] n by (cases "first_with k es") auto
    have "in_order env b0 db0 (es @ [e]) s1 db"
      using io False same by (auto simp: in_order_def s1_def eq update_conv' same [unfolded eq])
    from drain_in_order [OF this d] show ?thesis by (simp add: settled_def s1_def)
  qed
qed

lemma consume_all_in_order:
  "settled env b0 db0 es s db \<Longrightarrow> consume_all env fs s db = (Inr u, s', db') \<Longrightarrow>
   settled env b0 db0 (es @ fs) s' db' \<and> ts_call s' = ts_call s"
proof (induction fs arbitrary: es s db)
  case (Cons f fs)
  obtain y s1 db1 where c: "consume env f s db = (y, s1, db1)" by (cases "consume env f s db")
  with Cons.prems(2) obtain v where y: "y = Inr v" by (cases y) auto
  note k = consume_in_order [OF Cons.prems(1) c [unfolded y]]
  have "consume_all env fs s1 db1 = (Inr u, s', db')" using Cons.prems(2) c y by simp
  then show ?case using Cons.IH [OF conjunct1 [OF k]] k by simp
qed simp

section \<open>Correctness\<close>

text \<open>A call with one final text that arrives while no crisis policy can be read.\<close>

definition demo_event :: "int \<Rightarrow> string \<Rightarrow> ev_payload \<Rightarrow> turn_event" where
  "demo_event k kind pl = \<lparr>pe_call_id = ''c'', pe_session_id = ''s'', pe_sequence = k, pe_kind = kind,
     pe_question_id = Some (asc ''q''), pe_reply_id = None, pe_payload = pl, te_confidence = JNull\<rparr>"

definition demo_db :: database where
  "demo_db = empty_db\<lparr>db_calls := [blank_call 1 ''c'' 7 Connected]\<rparr>"

definition demo_ports :: turn_ports where
  "demo_ports = (5, True, outage_env, False, True)"

definition demo_draft :: draft where
  "demo_draft = (new_draft 5 (asc ''q''))\<lparr>dr_user_final := Some (asc ''hi'')\<rparr>"

definition demo_acts :: "(turn_ports \<times> turn_action) list" where
  "demo_acts = [(demo_ports, Do_consume (demo_event 1 ''asr_final'' (Text_payload (asc ''hi''))))]"

lemma demo_turns_inv: "turns_inv demo_db" "closed_jobs demo_db"
  by (simp_all add: turns_inv_def demo_db_def empty_db_def call_turns_def closed_jobs_def)

lemmas demo_simps = demo_event_def demo_ports_def demo_db_def empty_db_def demo_draft_def new_draft_def new_service_def

lemma demo_open:
  "open_turn ''c'' demo_draft demo_db = Inr (blank_call 1 ''c'' 7 Connected, blank_turn (blank_call 1 ''c'' 7 Connected) demo_draft 1 1,
     demo_db\<lparr>db_turns := [blank_turn (blank_call 1 ''c'' 7 Connected) demo_draft 1 1]\<rparr>)"
  by (simp add: open_turn_def demo_simps get_call_def row_find_def TERMINAL_def find_turn_def fresh_id_def last_index_def
      call_turns_def Let_def)

lemma demo_assess: "safety_assess True outage_env x = decision Saf_error_allowed Cri_suspected"
  by (simp add: safety_assess_def Let_def assess_crisis_def load_crisis_keywords_def cache_words_def read_published_def
      outage_env_def decision_def banned_status_def)

lemma demo_final:
  "map (\<lambda>t. (tn_turn_index t, tn_user_text_final t, tn_user_crisis t, tn_status t))
      (db_turns (store_final (live_env demo_ports) ''c'' demo_draft (asc ''hi'') JNull demo_db)) = [(1, None, Cri_suspected, Collecting)]"
  by (simp add: store_final_def write_text_def demo_open demo_ports_def)
    (simp add: write_row_def already_written_def blank_turn_def assess_side_def safety_gate_def demo_assess decision_def
      isolate_side_def assessed_row_def Let_def row_put_def set_confidence_def crisis_isolate_def split: option.split)

lemma demo_run:
  "map (\<lambda>t. (tn_turn_index t, tn_user_text_final t, tn_user_crisis t, tn_status t))
     (db_turns (snd (turn_run demo_acts (new_service ''c'' ''s'', demo_db)))) = [(1, None, Cri_suspected, Collecting)]"
proof -
  let ?e = "demo_event 1 ''asr_final'' (Text_payload (asc ''hi''))"
  define db1 where "db1 = store_final (live_env demo_ports) ''c'' demo_draft (asc ''hi'') JNull demo_db"
  have "\<exists>b. handle (live_env demo_ports) ''c'' ?e (ts_books (new_service ''c'' ''s'')) demo_db = (None, b, db1)"
    unfolding db1_def
    by (simp add: handle_def demo_event_def event_kinds_def reply_conflict_def ensure_draft_def get_draft_def put_draft_def
        settle_reply_def handle_kind_def new_service_def) (simp add: demo_ports_def demo_draft_def new_draft_def)
  then have "snd (turn_run demo_acts (new_service ''c'' ''s'', demo_db)) = db1"
    by (auto simp: turn_run_def demo_acts_def consume_def drain.simps new_service_def demo_event_def identity_ok_def)
  then show ?thesis using demo_final by (simp add: db1_def)
qed

text \<open>C3: Under every sequence of events, effective texts, cancellations, freezing and final flushes, with any
  policy outage, job lock or failed commit in between: a side of a turn holds text only while its crisis
  status is passed and its safety is decided, and a side marked matched or suspected has its crisis record.\<close>

theorem turn_texts_gated:
  assumes "turns_inv db" "turn_run acts (s, db) = (s', db')"
  shows "list_all (\<lambda>t. (side_stored side t \<longrightarrow> side_crisis side t = Cri_passed \<and> side_safety side t \<noteq> Saf_pending) \<and>
    (side_crisis side t \<in> {Cri_matched, Cri_suspected} \<longrightarrow>
       has_crisis_record (tn_call_id t) (tn_turn_index t) side db')) (db_turns db')"
proof -
  have "turns_inv db'" using turn_run_facts [OF assms] by (simp add: facts_kept_def)
  then show ?thesis
    by (auto simp: list_all_iff turns_inv_def row_ok_def side_private_def side_recorded_def)
qed

theorem turn_texts_gated_witness:
  "list_all (\<lambda>t. has_crisis_record (tn_call_id t) (tn_turn_index t) User_side
      (snd (turn_run demo_acts (new_service ''c'' ''s'', demo_db))) \<and> tn_user_text_final t = None)
    (db_turns (snd (turn_run demo_acts (new_service ''c'' ''s'', demo_db))))"
proof -
  obtain s db where r: "turn_run demo_acts (new_service ''c'' ''s'', demo_db) = (s, db)" by fastforce
  show ?thesis
    using turn_texts_gated [OF demo_turns_inv(1) r, of User_side] demo_run unfolding r by (auto simp: list_all_iff)
qed

text \<open>The rows of every call stay numbered 1, 2, 3 and so on without a gap or a repetition, and a question
  has at most one row in a call, under every sequence of operations of the service.\<close>

theorem turn_rows_numbered:
  assumes "turns_inv db" "turn_run acts (s, db) = (s', db')"
  shows "map tn_turn_index (call_turns c db') = [1..int (length (call_turns c db'))] \<and>
    distinct (map turn_key (db_turns db'))"
  using turn_run_facts [OF assms] by (simp add: facts_kept_def turns_inv_def)

theorem turn_rows_numbered_witness:
  "map tn_turn_index (call_turns ''c'' (snd (turn_run demo_acts (new_service ''c'' ''s'', demo_db)))) =
     [1..int (length (call_turns ''c'' (snd (turn_run demo_acts (new_service ''c'' ''s'', demo_db)))))]"
  using turn_rows_numbered [OF demo_turns_inv(1) surjective_pairing] by blast

text \<open>A turn that closes gets its memory job in the same transaction: when every finalized or interrupted
  turn has a job at the start, every such turn has one after any sequence of operations, failed commits and
  rolled back flushes included.\<close>

theorem closed_turn_has_job:
  assumes "turns_inv db" "closed_jobs db" "turn_run acts (s, db) = (s', db')"
  shows "closed_jobs db'"
  using turn_run_facts [OF assms(1,3)] assms(2) by (simp add: facts_kept_def)

definition demo_closed :: "(turn_ports \<times> turn_action) list" where
  "demo_closed = [(demo_ports, Do_consume (demo_event 1 ''asr_final'' (Text_payload (asc ''hi''))\<lparr>pe_reply_id := Some (asc ''r'')\<rparr>)),
     (demo_ports, Do_effective (asc ''r'') \<lparr>ef_text = [], ef_evidence = No_evidence, ef_played_ms = None,
        ef_completed = False, ef_interrupted = True\<rparr>)]"

theorem closed_turn_has_job_witness:
  "closed_jobs (snd (turn_run demo_closed (new_service ''c'' ''s'', demo_db)))"
  using closed_turn_has_job [OF demo_turns_inv surjective_pairing] .

text \<open>C7: The reorder buffer hides the order of delivery: when the events of a session arrive in any order,
  repeated ones included, and none is refused, the drafts and the database are those of handling the first
  event of each number once, in the order of the numbers, as far as the numbers go without a gap.\<close>

theorem reorder_buffer_refines_order:
  assumes "consume_all env es (new_service cid sid) db = (Inr u, s, db')"
  shows "first_with (ts_sequence s + 1) es = None \<and> list_all (\<lambda>k. first_with k es \<noteq> None) [1..ts_sequence s] \<and>
    handle_all env cid (map (\<lambda>k. the (first_with k es)) [1..ts_sequence s]) (ts_books (new_service cid sid)) db =
      (None, ts_books s, db')"
proof -
  have "settled env (ts_books (new_service cid sid)) db [] (new_service cid sid) db"
    by (simp add: settled_def in_order_def new_service_def first_with_def)
  from consume_all_in_order [OF this assms] show ?thesis
    by (auto simp: settled_def in_order_def list_all_iff new_service_def)
qed

theorem reorder_buffer_refines_order_witness:
  "\<exists>b. handle_all (live_env demo_ports) ''c'' [demo_event 1 ''user_speech_started'' Other_payload, demo_event 2 ''tts_finished'' Other_payload]
      (ts_books (new_service ''c'' ''s'')) demo_db = (None, b, demo_db) \<and>
    ts_books (fst (snd (consume_all (live_env demo_ports)
       [demo_event 2 ''tts_finished'' Other_payload, demo_event 2 ''chat_text'' Other_payload, demo_event 1 ''user_speech_started'' Other_payload]
       (new_service ''c'' ''s'') demo_db))) = b"
proof -
  let ?es = "[demo_event 2 ''tts_finished'' Other_payload, demo_event 2 ''chat_text'' Other_payload, demo_event 1 ''user_speech_started'' Other_payload]"
  obtain s where c: "consume_all (live_env demo_ports) ?es (new_service ''c'' ''s'') demo_db = (Inr (), s, demo_db)"
      and n: "ts_sequence s = 2"
    by (simp add: demo_event_def consume_def new_service_def identity_ok_def drain.simps handle_def event_kinds_def
        reply_conflict_def ensure_draft_def get_draft_def put_draft_def settle_reply_def handle_kind_def new_draft_def)
  have f: "first_with 1 ?es = Some (demo_event 1 ''user_speech_started'' Other_payload)"
    "first_with 2 ?es = Some (demo_event 2 ''tts_finished'' Other_payload)"
    by (simp_all add: first_with_def demo_event_def)
  have "[1..2 :: int] = [1, 2]" by (simp add: upto.simps)
  then show ?thesis
    using reorder_buffer_refines_order [OF c] n f by (simp add: c del: handle_all.simps consume_all.simps)
qed

end
