(* ===== verification/Ending.thy ===== *)
theory Ending
  imports Playback Database
begin

text \<open>
  How a call ends (\<open>realtime_voice_ending_service.py\<close>): the policy that turns clock ticks, silence, exit
  intents and played goodbyes into actions, the gate that asks a model about the closing, and the
  buffer that holds the output of a closing call until it is approved.

  The clock is the server's monotonic clock (\<open>rat\<close>); an operation returns the actions it proposes and the
  policy. The model's answer, the disclosure guard and \<open>json.loads\<close> are parameters. \<open>filter\<close> awaits the
  gate, so it is two operations, and others may run in between.
\<close>

section \<open>The policy\<close>

record ending =
  ep_observations :: "(string, int) dict"
  ep_grace_seen :: bool
  ep_connected_at :: rat
  ep_hard_limit :: rat
  ep_goodbye_timeout :: rat
  ep_silence_confirm :: rat
  ep_silence_hangup :: rat
  ep_time_low :: rat
  ep_buffer_ms :: int
  ep_wait_started :: "rat option"
  ep_silence_elapsed :: rat
  ep_last_tick :: "rat option"
  ep_was_waiting :: bool
  ep_confirmed_silence :: bool
  ep_pending_reason :: "string option"
  ep_goodbye_deadline :: "rat option"
  ep_goodbye_reply :: "pystr option"
  ep_native_pending :: bool
  ep_played_deadline :: "rat option"
  ep_generation :: int
  ep_soft_closing :: bool
  ep_ended :: bool

definition new_ending :: "rat \<Rightarrow> rat \<Rightarrow> rat \<Rightarrow> rat \<Rightarrow> rat \<Rightarrow> rat \<Rightarrow> int \<Rightarrow> ending" where
  "new_ending start hard bye confirm hangup low buffer =
     \<lparr>ep_observations = [], ep_grace_seen = False, ep_connected_at = start, ep_hard_limit = hard,
      ep_goodbye_timeout = bye, ep_silence_confirm = confirm, ep_silence_hangup = hangup, ep_time_low = low,
      ep_buffer_ms = buffer, ep_wait_started = None, ep_silence_elapsed = 0, ep_last_tick = None, ep_was_waiting = False,
      ep_confirmed_silence = False, ep_pending_reason = None, ep_goodbye_deadline = None, ep_goodbye_reply = None,
      ep_native_pending = False, ep_played_deadline = None, ep_generation = 0, ep_soft_closing = False, ep_ended = False\<rparr>"

definition ep_observe :: "string \<Rightarrow> ending \<Rightarrow> ending" where
  "ep_observe kind p = p\<lparr>ep_observations := tally kind (ep_observations p)\<rparr>"

definition ep_take_metrics :: "ending \<Rightarrow> event list \<times> ending" where
  "ep_take_metrics p =
     (map (\<lambda>(kind, n). ev ''voice.finalizer.policy'' [(''kind'', kind)] n) (ep_observations p), p\<lparr>ep_observations := []\<rparr>)"

definition finish :: "string \<Rightarrow> ending \<Rightarrow> string list \<times> ending" where
  "finish reason p =
     (if ep_ended p then ([], p) else ([''end:'' @ reason], ep_observe reason (p\<lparr>ep_ended := True\<rparr>)))"

definition goodbye :: "string \<Rightarrow> rat \<Rightarrow> ending \<Rightarrow> string list \<times> ending" where
  "goodbye reason now p =
     (if ep_ended p \<or> ep_pending_reason p \<noteq> None then ([], p)
      else ([''goodbye:'' @ reason],
        (ep_observe (if reason = ''silence_timeout'' then ''silence_goodbye'' else ''exit_goodbye'') p)
          \<lparr>ep_pending_reason := Some reason, ep_goodbye_deadline := Some (now + ep_goodbye_timeout p),
           ep_generation := ep_generation p + 1\<rparr>))"

definition native_exit :: "pystr option \<Rightarrow> ending \<Rightarrow> string list \<times> ending" where
  "native_exit rid p =
     (if ep_ended p \<or> ep_pending_reason p \<noteq> None then ([], p)
      else ([], (ep_observe ''native_exit'' p)\<lparr>ep_pending_reason := Some ''exit_intent'', ep_native_pending := True,
        ep_goodbye_reply := rid, ep_goodbye_deadline := None, ep_generation := ep_generation p + 1\<rparr>))"

text \<open>\<open>explicit\<close> is the answer of the semantic gate: anything but a plain yes is not an exit.\<close>

definition exit_intent :: "rat \<Rightarrow> bool option \<Rightarrow> ending \<Rightarrow> string list \<times> ending" where
  "exit_intent now explicit p = (if explicit \<noteq> Some True then ([], p) else goodbye ''exit_intent'' now p)"

definition reset_silence :: "ending \<Rightarrow> ending" where
  "reset_silence p = p\<lparr>ep_wait_started := None, ep_silence_elapsed := 0, ep_last_tick := None, ep_was_waiting := False,
     ep_confirmed_silence := False\<rparr>"

definition resume :: "ending \<Rightarrow> string list \<times> ending" where
  "resume p =
     (let q = reset_silence p in
      if ep_ended p \<or> ep_pending_reason p = None then ([], q)
      else ([''cancel_goodbye''], ep_observe ''goodbye_cancelled''
        (q\<lparr>ep_pending_reason := None, ep_goodbye_deadline := None, ep_goodbye_reply := None, ep_native_pending := False,
           ep_played_deadline := None, ep_generation := ep_generation p + 1\<rparr>)))"

definition bind_goodbye :: "pystr option \<Rightarrow> int \<Rightarrow> ending \<Rightarrow> ending" where
  "bind_goodbye rid generation p =
     (if generation = ep_generation p \<and> ep_pending_reason p \<noteq> None \<and> \<not> ep_ended p
      then p\<lparr>ep_goodbye_reply := rid\<rparr> else p)"

definition played :: "pystr option \<Rightarrow> rat \<Rightarrow> ending \<Rightarrow> ending" where
  "played rid now p =
     (if ep_pending_reason p \<noteq> None \<and> ep_goodbye_reply p = rid \<and> \<not> ep_ended p \<and> ep_played_deadline p = None
      then p\<lparr>ep_played_deadline := Some (now + of_int (ep_buffer_ms p) / 1000), ep_goodbye_deadline := None\<rparr>
      else p)"

text \<open>The gateway replaces a silence goodbye whose reply the closing gate could not judge by a fixed one.\<close>

definition silence_fallback :: "rat \<Rightarrow> ending \<Rightarrow> ending" where
  "silence_fallback now p =
     (if ep_pending_reason p = Some ''silence_timeout''
      then p\<lparr>ep_goodbye_reply := None, ep_goodbye_deadline := Some (now + ep_goodbye_timeout p)\<rparr> else p)"

definition reached :: "rat \<Rightarrow> rat option \<Rightarrow> bool" where
  "reached now deadline = (case deadline of None \<Rightarrow> False | Some d \<Rightarrow> d \<le> now)"

definition count_silence :: "rat \<Rightarrow> ending \<Rightarrow> ending" where
  "count_silence now p =
     p\<lparr>ep_wait_started := (case ep_wait_started p of None \<Rightarrow> Some now | Some w \<Rightarrow> Some w),
       ep_silence_elapsed := ep_silence_elapsed p +
         (case (ep_was_waiting p, ep_last_tick p) of (True, Some l) \<Rightarrow> max 0 (now - l) | _ \<Rightarrow> 0),
       ep_last_tick := Some now, ep_was_waiting := True\<rparr>"

definition break_silence :: "rat \<Rightarrow> bool \<Rightarrow> ending \<Rightarrow> ending" where
  "break_silence now mic_ok p =
     (let q = p\<lparr>ep_last_tick := Some now, ep_was_waiting := False\<rparr> in
      if \<not> mic_ok \<or> \<not> ep_confirmed_silence p
      then q\<lparr>ep_wait_started := None, ep_silence_elapsed := 0, ep_confirmed_silence := False\<rparr> else q)"

definition low_time :: "rat \<Rightarrow> ending \<Rightarrow> string list \<times> ending" where
  "low_time remaining p =
     (if remaining \<le> ep_time_low p \<and> \<not> ep_soft_closing p
      then ([''time_low''], ep_observe ''time_low'' (p\<lparr>ep_soft_closing := True\<rparr>)) else ([], p))"

definition tick_silence :: "rat \<Rightarrow> rat \<Rightarrow> ending \<Rightarrow> string list \<times> ending" where
  "tick_silence now remaining p =
     (if ep_silence_hangup p \<le> ep_silence_elapsed p then goodbye ''silence_timeout'' now p
      else if ep_silence_confirm p \<le> ep_silence_elapsed p \<and> \<not> ep_confirmed_silence p
      then ([''silence_confirm''], ep_observe ''silence_confirm'' (p\<lparr>ep_confirmed_silence := True\<rparr>))
      else low_time remaining p)"

definition see_grace :: "rat option \<Rightarrow> ending \<Rightarrow> ending" where
  "see_grace grace p =
     (if grace \<noteq> None \<and> \<not> ep_grace_seen p then ep_observe ''grace_started'' (p\<lparr>ep_grace_seen := True\<rparr>) else p)"

definition tick :: "rat \<Rightarrow> bool \<Rightarrow> bool \<Rightarrow> rat \<Rightarrow> rat option \<Rightarrow> ending \<Rightarrow> string list \<times> ending" where
  "tick now waiting mic_ok remaining grace p =
     (if ep_ended p then ([], p)
      else
        let p1 = see_grace grace p in
        if ep_connected_at p1 + ep_hard_limit p1 \<le> now then finish ''hard_limit'' p1
        else if reached now grace then finish ''quota_exhausted'' p1
        else (case ep_pending_reason p1 of
            Some reason \<Rightarrow>
              if reached now (ep_played_deadline p1) \<or> reached now (ep_goodbye_deadline p1) then finish reason p1 else ([], p1)
          | None \<Rightarrow>
              if waiting \<and> mic_ok then tick_silence now remaining (count_silence now p1)
              else low_time remaining (break_silence now mic_ok p1)))"

section \<open>The semantic gate\<close>

record closing_env =
  cg_guard :: "bool res"
  cg_model :: "pystr res"
  cg_loads :: "pystr \<Rightarrow> json option"

text \<open>The guard's verdict on the data, the model's answer to the prompt. No answer is \<open>None\<close>.\<close>

definition closing_decision :: "string \<Rightarrow> closing_env \<Rightarrow> bool option" where
  "closing_decision key env =
     (case (cg_guard env, cg_model env) of
        (Inr True, Inr raw) \<Rightarrow>
          (case cg_loads env raw of
             Some (JObj kvs) \<Rightarrow>
               if set (map fst kvs) = {key} then (case jget (JObj kvs) key of JBool b \<Rightarrow> Some b | _ \<Rightarrow> None) else None
           | _ \<Rightarrow> None)
      | _ \<Rightarrow> None)"

definition explicit_exit :: "pystr \<Rightarrow> closing_env \<Rightarrow> bool option" where
  "explicit_exit user env = (if length user > 8000 then Some False else closing_decision ''explicit'' env)"

definition allow_reply :: "pystr \<Rightarrow> closing_env \<Rightarrow> bool option" where
  "allow_reply reply env = (if length reply > 16000 then Some False else closing_decision ''allowed'' env)"

section \<open>The closing output\<close>

record candidate =
  ca_events :: "provider_event list"
  ca_text :: pystr
  ca_bytes :: int

record closing_buffer =
  cb_pending :: "(pystr, candidate) dict"
  cb_decisions :: "(pystr, bool) dict"
  cb_failures :: "(pystr, string) dict"

definition new_buffer :: closing_buffer where
  "new_buffer = \<lparr>cb_pending = [], cb_decisions = [], cb_failures = []\<rparr>"

definition collect :: "provider_event \<Rightarrow> candidate \<Rightarrow> candidate" where
  "collect e c =
     (case pe_payload e of
        Audio_payload n \<Rightarrow> c\<lparr>ca_events := ca_events c @ [e], ca_bytes := ca_bytes c + int n\<rparr>
      | Text_payload t \<Rightarrow>
          if pe_kind e = ''chat_text'' then c\<lparr>ca_events := ca_events c @ [e], ca_text := ca_text c @ t\<rparr>
          else c\<lparr>ca_events := ca_events c @ [e]\<rparr>
      | _ \<Rightarrow> c\<lparr>ca_events := ca_events c @ [e]\<rparr>)"

definition oversized :: "candidate \<Rightarrow> bool" where
  "oversized c \<longleftrightarrow> ca_bytes c > 2000000 \<or> length (ca_text c) > 16000 \<or> length (ca_events c) > 4096"

text \<open>\<open>normalized\<close>: the punctuation category of Unicode is a parameter.\<close>

definition normalized :: "(nat \<Rightarrow> bool) \<Rightarrow> pystr \<Rightarrow> pystr" where
  "normalized skip t = filter (\<lambda>c. \<not> skip c) t"

definition exact_goodbye :: "(nat \<Rightarrow> bool) \<Rightarrow> pystr option \<Rightarrow> pystr \<Rightarrow> bool" where
  "exact_goodbye skip expected t =
     (case expected of None \<Rightarrow> False | Some x \<Rightarrow> normalized skip x \<noteq> [] \<and> normalized skip t = normalized skip x)"

text \<open>What one call of \<open>filter\<close> does up to the await: it answers, or it has to ask the gate.\<close>

datatype filtered = Answer "provider_event list" bool | Decide pystr "bool option" | Ask pystr pystr

definition filter_start ::
  "(nat \<Rightarrow> bool) \<Rightarrow> provider_event \<Rightarrow> bool \<Rightarrow> pystr option \<Rightarrow> closing_buffer \<Rightarrow> (filtered \<times> closing_buffer) res" where
  "filter_start skip e restricted expected b =
     (case pe_reply_id e of
        None \<Rightarrow> Inr (Answer [e] False, b)
      | Some rid \<Rightarrow>
          if rid = [] then Inr (Answer [e] False, b)
          else (case map_of (cb_decisions b) rid of
              Some ok \<Rightarrow> Inr (Answer (if ok then [e] else []) False, b)
            | None \<Rightarrow>
                if \<not> restricted \<and> map_of (cb_pending b) rid = None then Inr (Answer [e] False, b)
                else if map_of (cb_pending b) rid = None \<and> length (cb_pending b) + length (cb_decisions b) \<ge> 4096
                then Inl (ValueError ''closing_reply_limit'')
                else
                  let c = collect e (case map_of (cb_pending b) rid of
                            None \<Rightarrow> \<lparr>ca_events = [], ca_text = [], ca_bytes = 0\<rparr> | Some c \<Rightarrow> c);
                      b1 = b\<lparr>cb_pending := AList.update rid c (cb_pending b)\<rparr> in
                  if oversized c then
                    Inr (Answer [] True, b1\<lparr>cb_pending := AList.delete rid (cb_pending b1),
                      cb_decisions := AList.update rid False (cb_decisions b1)\<rparr>)
                  else if pe_kind e \<noteq> ''text_finished'' then Inr (Answer [] False, b1)
                  else if exact_goodbye skip expected (ca_text c) then Inr (Decide rid (Some True), b1)
                  else if ca_text c = [] then Inr (Decide rid (Some False), b1)
                  else Inr (Ask rid (ca_text c), b1)))"

text \<open>The rest of \<open>filter\<close>, with the verdict on the candidate.\<close>

definition filter_finish :: "pystr \<Rightarrow> bool option \<Rightarrow> closing_buffer \<Rightarrow> (provider_event list \<times> bool) \<times> closing_buffer" where
  "filter_finish rid verdict b =
     (let failures = (case verdict of None \<Rightarrow> AList.update rid ''unavailable'' (cb_failures b)
                      | Some False \<Rightarrow> AList.update rid ''rejected'' (cb_failures b) | Some True \<Rightarrow> cb_failures b);
          ok = (verdict = Some True);
          held = (case map_of (cb_pending b) rid of None \<Rightarrow> [] | Some c \<Rightarrow> ca_events c);
          b1 = b\<lparr>cb_failures := failures, cb_pending := AList.delete rid (cb_pending b)\<rparr> in
      if map_of (cb_decisions b) rid \<noteq> None then (([], False), b1)
      else ((if ok then held else [], \<not> ok), b1\<lparr>cb_decisions := AList.update rid ok (cb_decisions b)\<rparr>))"

definition discard :: "closing_buffer \<Rightarrow> closing_buffer" where
  "discard b = b\<lparr>cb_decisions := fold (\<lambda>(rid, c). AList.update rid False) (cb_pending b) (cb_decisions b), cb_pending := []\<rparr>"

section \<open>Runs of the policy\<close>

datatype ending_input =
    In_tick rat bool bool rat "rat option"
  | In_exit rat "bool option"
  | In_native "pystr option"
  | In_resume
  | In_bind "pystr option" int
  | In_played "pystr option" rat
  | In_fallback rat

fun ep_step :: "ending_input \<Rightarrow> ending \<Rightarrow> string list \<times> ending" where
  "ep_step (In_tick now waiting mic remaining grace) p = tick now waiting mic remaining grace p"
| "ep_step (In_exit now explicit) p = exit_intent now explicit p"
| "ep_step (In_native rid) p = native_exit rid p"
| "ep_step In_resume p = resume p"
| "ep_step (In_bind rid g) p = ([], bind_goodbye rid g p)"
| "ep_step (In_played rid now) p = ([], played rid now p)"
| "ep_step (In_fallback now) p = ([], silence_fallback now p)"

fun ep_run :: "ending_input list \<Rightarrow> ending \<Rightarrow> string list \<times> ending" where
  "ep_run [] p = ([], p)"
| "ep_run (i # inputs) p = (let (a, q) = ep_step i p; (b, r) = ep_run inputs q in (a @ b, r))"

definition is_end :: "string \<Rightarrow> bool" where
  "is_end a \<longleftrightarrow> take 4 a = ''end:''"

lemma ep_observe_fields [simp]:
  "ep_ended (ep_observe k p) = ep_ended p" "ep_pending_reason (ep_observe k p) = ep_pending_reason p"
  "ep_connected_at (ep_observe k p) = ep_connected_at p" "ep_hard_limit (ep_observe k p) = ep_hard_limit p"
  "ep_goodbye_deadline (ep_observe k p) = ep_goodbye_deadline p" "ep_played_deadline (ep_observe k p) = ep_played_deadline p"
  "ep_native_pending (ep_observe k p) = ep_native_pending p" "ep_goodbye_reply (ep_observe k p) = ep_goodbye_reply p"
  "ep_wait_started (ep_observe k p) = ep_wait_started p" "ep_silence_elapsed (ep_observe k p) = ep_silence_elapsed p"
  "ep_last_tick (ep_observe k p) = ep_last_tick p" "ep_was_waiting (ep_observe k p) = ep_was_waiting p"
  "ep_silence_hangup (ep_observe k p) = ep_silence_hangup p" "ep_generation (ep_observe k p) = ep_generation p"
  "ep_goodbye_timeout (ep_observe k p) = ep_goodbye_timeout p" "ep_time_low (ep_observe k p) = ep_time_low p"
  "ep_silence_confirm (ep_observe k p) = ep_silence_confirm p" "ep_confirmed_silence (ep_observe k p) = ep_confirmed_silence p"
  by (simp_all add: ep_observe_def)

lemma see_grace_fields [simp]:
  "ep_ended (see_grace g p) = ep_ended p" "ep_pending_reason (see_grace g p) = ep_pending_reason p"
  "ep_connected_at (see_grace g p) = ep_connected_at p" "ep_hard_limit (see_grace g p) = ep_hard_limit p"
  "ep_goodbye_deadline (see_grace g p) = ep_goodbye_deadline p" "ep_played_deadline (see_grace g p) = ep_played_deadline p"
  "ep_native_pending (see_grace g p) = ep_native_pending p" "ep_wait_started (see_grace g p) = ep_wait_started p"
  "ep_silence_elapsed (see_grace g p) = ep_silence_elapsed p" "ep_last_tick (see_grace g p) = ep_last_tick p"
  "ep_silence_hangup (see_grace g p) = ep_silence_hangup p" "ep_was_waiting (see_grace g p) = ep_was_waiting p"
  by (simp_all add: see_grace_def)

text \<open>What one step does to the end of the call: it ends it with exactly one action or leaves it open.\<close>

lemmas ending_defs = tick_def exit_intent_def native_exit_def resume_def bind_goodbye_def played_def silence_fallback_def
  goodbye_def finish_def tick_silence_def low_time_def count_silence_def break_silence_def reset_silence_def

lemma step_end:
  "ep_step i p = (a, q) \<Longrightarrow>
     (ep_ended q \<longleftrightarrow> ep_ended p \<or> list_ex is_end a) \<and> (ep_ended p \<longrightarrow> a = []) \<and> length a \<le> 1 \<and>
     ep_connected_at q = ep_connected_at p \<and> ep_hard_limit q = ep_hard_limit p"
proof (cases i)
  case (In_tick now waiting mic remaining grace)
  define p1 where "p1 = see_grace grace p"
  have p1: "ep_ended p1 = ep_ended p" "ep_connected_at p1 = ep_connected_at p" "ep_hard_limit p1 = ep_hard_limit p"
    by (simp_all add: p1_def)
  assume "ep_step i p = (a, q)"
  then show ?thesis using p1 unfolding In_tick ep_step.simps tick_def p1_def [symmetric] Let_def
    by (auto simp: finish_def tick_silence_def goodbye_def low_time_def count_silence_def break_silence_def Let_def is_end_def
        split: if_split_asm option.split_asm)
qed (auto simp: exit_intent_def native_exit_def resume_def bind_goodbye_def played_def silence_fallback_def goodbye_def
    reset_silence_def Let_def is_end_def split: if_split_asm)

definition past_limit :: "rat \<Rightarrow> ending_input \<Rightarrow> bool" where
  "past_limit t i = (case i of In_tick now waiting mic remaining grace \<Rightarrow> t \<le> now | _ \<Rightarrow> False)"

lemma step_limit:
  "ep_step i p = (a, q) \<Longrightarrow> past_limit (ep_connected_at p + ep_hard_limit p) i \<Longrightarrow> ep_ended q"
  by (cases i) (auto simp: past_limit_def tick_def finish_def Let_def split: if_splits)

lemma run_end:
  "ep_run inputs p = (acts, q) \<Longrightarrow>
     (ep_ended q \<longleftrightarrow> ep_ended p \<or> list_ex is_end acts) \<and> (ep_ended p \<longrightarrow> acts = []) \<and>
     (\<forall>pre a post. acts = pre @ a # post \<and> is_end a \<longrightarrow> post = []) \<and>
     (list_ex (past_limit (ep_connected_at p + ep_hard_limit p)) inputs \<longrightarrow> ep_ended q)"
proof (induction inputs arbitrary: p acts)
  case (Cons i inputs)
  obtain a p1 where s: "ep_step i p = (a, p1)" by fastforce
  obtain b where r: "ep_run inputs p1 = (b, q)" and acts: "acts = a @ b"
    using Cons.prems s by (auto simp: Let_def split: prod.splits)
  note st = step_end [OF s] and ih = Cons.IH [OF r]
  have "post = []" if sp: "acts = pre @ x # post" "is_end x" for pre x post
  proof (cases a)
    case Nil
    then show ?thesis using ih sp acts by simp
  next
    case (Cons y ys)
    then have a: "a = [y]" using st by simp
    show ?thesis
    proof (cases pre)
      case Nil
      then have "ep_ended p1" using sp a acts st by simp
      then show ?thesis using ih sp a acts Nil by simp
    next
      case (Cons z zs)
      then have "b = zs @ x # post" using sp a acts by simp
      then show ?thesis using ih sp(2) by blast
    qed
  qed
  moreover have "ep_ended q" if "list_ex (past_limit (ep_connected_at p + ep_hard_limit p)) (i # inputs)"
    using that step_limit [OF s] st ih by auto
  ultimately show ?case using st ih acts by auto
qed simp

section \<open>Silence\<close>

definition tick_times :: "ending_input list \<Rightarrow> rat list" where
  "tick_times inputs = concat (map (\<lambda>i. case i of In_tick now waiting mic remaining grace \<Rightarrow> [now] | _ \<Rightarrow> []) inputs)"

definition undisturbed :: "ending_input \<Rightarrow> bool" where
  "undisturbed i = (case i of In_tick now waiting mic remaining grace \<Rightarrow> mic | In_resume \<Rightarrow> False | _ \<Rightarrow> True)"

text \<open>A tick at \<open>w\<close> saw the service waiting for a working microphone, and since then the user did not speak.\<close>

definition waiting_since :: "ending_input list \<Rightarrow> rat \<Rightarrow> bool" where
  "waiting_since h w \<longleftrightarrow>
     (\<exists>pre remaining grace mid. h = pre @ In_tick w True True remaining grace # mid \<and> list_all undisturbed mid)"

definition silence_inv :: "ending_input list \<Rightarrow> ending \<Rightarrow> bool" where
  "silence_inv h p \<longleftrightarrow> (ep_wait_started p = None \<longrightarrow> \<not> ep_was_waiting p) \<and> (case ep_last_tick p of None \<Rightarrow> True | Some l \<Rightarrow> l \<in> set (tick_times h)) \<and>
     (ep_pending_reason p = None \<and> \<not> ep_ended p \<longrightarrow>
       (case ep_wait_started p of
          None \<Rightarrow> ep_silence_elapsed p = 0
        | Some w \<Rightarrow> waiting_since h w \<and> (\<exists>l. ep_last_tick p = Some l \<and> w + ep_silence_elapsed p \<le> l)))"

lemma tick_times_snoc: "tick_times (h @ [i]) = tick_times h @ (case i of In_tick now waiting mic remaining grace \<Rightarrow> [now] | _ \<Rightarrow> [])"
  by (simp add: tick_times_def)

lemma waiting_since_snoc: "waiting_since h w \<Longrightarrow> undisturbed i \<Longrightarrow> waiting_since (h @ [i]) w"
  unfolding waiting_since_def by force

lemma waiting_since_now: "waiting_since (h @ [In_tick w True True remaining grace]) w"
  unfolding waiting_since_def by force

lemma count_silence_inv:
  assumes "silence_inv h p" "ep_pending_reason p = None" "\<not> ep_ended p" "\<forall>t \<in> set (tick_times h). t \<le> now"
  shows "silence_inv (h @ [In_tick now True True remaining grace]) (count_silence now p) \<and>
    (\<exists>w. ep_wait_started (count_silence now p) = Some w \<and> w + ep_silence_elapsed (count_silence now p) \<le> now \<and>
      waiting_since (h @ [In_tick now True True remaining grace]) w)"
proof -
  let ?i = "In_tick now True True remaining grace"
  have u: "undisturbed ?i" by (simp add: undisturbed_def)
  have t: "now \<in> set (tick_times (h @ [?i]))" by (simp add: tick_times_snoc)
  show ?thesis
  proof (cases "ep_wait_started p")
    case None
    then have "ep_silence_elapsed p = 0" "\<not> ep_was_waiting p" using assms(1-3) by (simp_all add: silence_inv_def)
    then show ?thesis using None t waiting_since_now [of h now remaining grace]
      by (simp add: silence_inv_def count_silence_def)
  next
    case (Some w)
    then obtain l where l: "ep_last_tick p = Some l" "w + ep_silence_elapsed p \<le> l" "waiting_since h w"
      using assms(1-3) by (auto simp: silence_inv_def)
    then have "l \<le> now" using assms(1,4) by (auto simp: silence_inv_def)
    moreover from this have "(case (ep_was_waiting p, Some l) of (True, Some l) \<Rightarrow> max 0 (now - l) | _ \<Rightarrow> 0) \<le> now - l"
      by (cases "ep_was_waiting p") auto
    ultimately have "w + ep_silence_elapsed (count_silence now p) \<le> now"
      using l by (simp add: count_silence_def)
    then show ?thesis using Some l t waiting_since_snoc [OF l(3) u]
      by (simp add: silence_inv_def) (simp add: count_silence_def)
  qed
qed

lemma silence_inv_keep:
  assumes "silence_inv h p" "undisturbed i"
    and "ep_wait_started q = ep_wait_started p" "ep_silence_elapsed q = ep_silence_elapsed p" "ep_last_tick q = ep_last_tick p"
      "ep_was_waiting q = ep_was_waiting p" "ep_pending_reason q = None \<and> \<not> ep_ended q \<longrightarrow> ep_pending_reason p = None \<and> \<not> ep_ended p"
  shows "silence_inv (h @ [i]) q"
  using assms waiting_since_snoc [OF _ assms(2)] by (auto simp: silence_inv_def tick_times_snoc split: option.splits)

lemma silence_inv_closed:
  assumes "silence_inv h p"
    and "ep_wait_started q = ep_wait_started p" "ep_last_tick q = ep_last_tick p"
      "ep_was_waiting q = ep_was_waiting p" "ep_pending_reason q \<noteq> None \<or> ep_ended q"
  shows "silence_inv (h @ [i]) q"
  using assms by (auto simp: silence_inv_def tick_times_snoc split: option.splits)

lemma break_silence_inv:
  assumes "silence_inv h p" "ep_pending_reason p = None" "\<not> ep_ended p" "\<forall>t \<in> set (tick_times h). t \<le> now"
  shows "silence_inv (h @ [In_tick now waiting mic remaining grace]) (break_silence now mic p)"
proof (cases "\<not> mic \<or> \<not> ep_confirmed_silence p")
  case True
  then show ?thesis by (simp add: break_silence_def Let_def silence_inv_def tick_times_snoc)
next
  case False
  have u: "undisturbed (In_tick now waiting mic remaining grace)" using False by (simp add: undisturbed_def)
  show ?thesis using False assms waiting_since_snoc [OF _ u]
    by (fastforce simp: break_silence_def Let_def silence_inv_def tick_times_snoc split: option.splits)
qed

lemma low_time_fields:
  "ep_wait_started (snd (low_time r p)) = ep_wait_started p" "ep_silence_elapsed (snd (low_time r p)) = ep_silence_elapsed p"
  "ep_last_tick (snd (low_time r p)) = ep_last_tick p" "ep_was_waiting (snd (low_time r p)) = ep_was_waiting p"
  "ep_pending_reason (snd (low_time r p)) = ep_pending_reason p" "ep_ended (snd (low_time r p)) = ep_ended p"
  by (simp_all add: low_time_def)

lemma low_time_inv: "silence_inv h p \<Longrightarrow> silence_inv h (snd (low_time r p))"
  by (simp add: silence_inv_def low_time_fields cong: option.case_cong)

lemma goodbye_closed:
  "ep_pending_reason (snd (goodbye r now p)) \<noteq> None \<or> ep_ended (snd (goodbye r now p))"
  "ep_wait_started (snd (goodbye r now p)) = ep_wait_started p" "ep_last_tick (snd (goodbye r now p)) = ep_last_tick p"
  "ep_was_waiting (snd (goodbye r now p)) = ep_was_waiting p"
  by (auto simp: goodbye_def)

lemma silence_inv_shut:
  assumes "silence_inv h p" "ep_wait_started q = ep_wait_started p" "ep_last_tick q = ep_last_tick p"
    "ep_was_waiting q = ep_was_waiting p" "ep_pending_reason q \<noteq> None \<or> ep_ended q"
  shows "silence_inv h q"
  using assms by (auto simp: silence_inv_def split: option.splits)

lemma tick_silence_inv: "silence_inv h p \<Longrightarrow> silence_inv h (snd (tick_silence now r p))"
proof -
  assume h: "silence_inv h p"
  have "silence_inv h (snd (goodbye ''silence_timeout'' now p))"
    by (rule silence_inv_shut [OF h goodbye_closed(2-4,1)])
  moreover have "silence_inv h (ep_observe ''silence_confirm'' (p\<lparr>ep_confirmed_silence := True\<rparr>))"
    using h by (simp add: silence_inv_def cong: option.case_cong)
  ultimately show ?thesis using low_time_inv [OF h] by (simp add: tick_silence_def)
qed

lemma see_grace_inv: "silence_inv h p \<Longrightarrow> silence_inv h (see_grace g p)"
  by (simp add: silence_inv_def cong: option.case_cong)

lemma clock_tick_inv:
  assumes h: "silence_inv h p" and t: "\<forall>t \<in> set (tick_times h). t \<le> now"
  shows "silence_inv (h @ [In_tick now waiting mic remaining grace]) (snd (tick now waiting mic remaining grace p))"
proof (cases "ep_ended p")
  case True
  then show ?thesis using silence_inv_closed [OF h, of p] by (simp add: tick_def)
next
  case False
  define p1 where "p1 = see_grace grace p"
  have h1: "silence_inv h p1" unfolding p1_def by (rule see_grace_inv [OF h])
  have e1: "\<not> ep_ended p1" using False by (simp add: p1_def)
  let ?i = "In_tick now waiting mic remaining grace"
  have fin: "silence_inv (h @ [?i]) (snd (finish r p1))" for r
    by (rule silence_inv_closed [OF h1]) (simp_all add: finish_def)
  show ?thesis
  proof (cases "ep_pending_reason p1")
    case (Some r)
    have "silence_inv (h @ [?i]) p1" by (rule silence_inv_closed [OF h1]) (simp_all add: Some)
    then show ?thesis using fin False Some by (auto simp: tick_def p1_def [symmetric] Let_def)
  next
    case None
    have "silence_inv (h @ [?i]) (snd (tick_silence now remaining (count_silence now p1)))" if "waiting" "mic"
      using count_silence_inv [OF h1 None e1 t, of remaining grace] that by (simp add: tick_silence_inv)
    moreover have "silence_inv (h @ [?i]) (snd (low_time remaining (break_silence now mic p1)))"
      by (rule low_time_inv [OF break_silence_inv [OF h1 None e1 t]])
    ultimately show ?thesis using fin False None by (auto simp: tick_def p1_def [symmetric] Let_def)
  qed
qed

lemma step_silence_inv:
  assumes h: "silence_inv h p" and t: "sorted (tick_times (h @ [i]))"
  shows "silence_inv (h @ [i]) (snd (ep_step i p))"
proof (cases i)
  case (In_tick now waiting mic remaining grace)
  then show ?thesis using clock_tick_inv [OF h] t by (simp add: tick_times_snoc sorted_append)
next
  case In_resume
  then show ?thesis by (simp add: resume_def Let_def reset_silence_def silence_inv_def tick_times_snoc)
next
  case (In_exit now explicit)
  show ?thesis
  proof (cases "explicit = Some True")
    case True
    have "silence_inv (h @ [i]) (snd (goodbye ''exit_intent'' now p))"
      by (rule silence_inv_closed [OF h goodbye_closed(2-4,1)])
    then show ?thesis using In_exit True by (simp add: exit_intent_def)
  next
    case False
    then show ?thesis using In_exit silence_inv_keep [OF h, of i p] by (simp add: exit_intent_def undisturbed_def)
  qed
qed (auto intro!: silence_inv_keep [OF h] simp: undisturbed_def native_exit_def bind_goodbye_def played_def silence_fallback_def)

lemma ep_run_append: "ep_run (xs @ ys) p = (let (a, q) = ep_run xs p; (b, r) = ep_run ys q in (a @ b, r))"
  by (induction xs arbitrary: p) (auto simp: Let_def split: prod.splits)

lemma run_silence_inv:
  "ep_run inputs (new_ending st hard bye confirm hangup low buf) = (acts, p) \<Longrightarrow> sorted (tick_times inputs) \<Longrightarrow> silence_inv inputs p"
proof (induction inputs arbitrary: acts p rule: rev_induct)
  case Nil
  then show ?case by (auto simp: new_ending_def silence_inv_def)
next
  case (snoc i inputs)
  obtain a q where r: "ep_run inputs (new_ending st hard bye confirm hangup low buf) = (a, q)" by fastforce
  have p: "p = snd (ep_step i q)" using snoc.prems(1) r by (auto simp: ep_run_append Let_def split: prod.splits)
  have "sorted (tick_times inputs)" using snoc.prems(2) by (simp add: tick_times_snoc sorted_append)
  then show ?case using snoc.IH [OF r] step_silence_inv [OF _ snoc.prems(2)] p by simp
qed

lemma step_hangup: "ep_step i p = (a, q) \<Longrightarrow> ep_silence_hangup q = ep_silence_hangup p"
  by (cases i) (auto simp: ending_defs Let_def split: if_splits option.splits)

lemma run_hangup: "ep_run inputs p = (a, q) \<Longrightarrow> ep_silence_hangup q = ep_silence_hangup p"
  by (induction inputs arbitrary: p a) (auto simp: Let_def dest!: step_hangup split: prod.splits)

text \<open>C39: The call ends once. In every run the policy is ended exactly when one of its actions ended the call,
  that action is the last one, an ended policy proposes nothing, and a tick at or after the hard limit has
  ended the call whatever came before.\<close>

theorem call_ends_once:
  assumes "ep_run inputs p = (acts, q)"
  shows "(ep_ended q \<longleftrightarrow> ep_ended p \<or> list_ex is_end acts) \<and> (ep_ended p \<longrightarrow> acts = []) \<and>
    (\<forall>pre a post. acts = pre @ a # post \<and> is_end a \<longrightarrow> post = []) \<and>
    (list_ex (past_limit (ep_connected_at p + ep_hard_limit p)) inputs \<longrightarrow> ep_ended q)"
  by (rule run_end [OF assms])

definition demo_ending :: ending where
  "demo_ending = new_ending 0 600 5 8 15 60 800"

theorem call_ends_once_witness:
  "ep_ended (snd (ep_run [In_tick 1 True True 500 None, In_exit 2 (Some True), In_tick 600 False True 0 None, In_resume] demo_ending)) \<and>
   fst (ep_run [In_tick 1 True True 500 None, In_exit 2 (Some True), In_tick 600 False True 0 None, In_resume] demo_ending) =
     [''goodbye:exit_intent'', ''end:hard_limit'']"
proof -
  let ?is = "[In_tick 1 True True 500 None, In_exit 2 (Some True), In_tick 600 False True 0 None, In_resume]"
  obtain acts q where r: "ep_run ?is demo_ending = (acts, q)" by fastforce
  have "list_ex (past_limit (ep_connected_at demo_ending + ep_hard_limit demo_ending)) ?is"
    by (simp add: past_limit_def demo_ending_def new_ending_def)
  then have "ep_ended q" using call_ends_once [OF r] by blast
  moreover have "fst (ep_run ?is demo_ending) = [''goodbye:exit_intent'', ''end:hard_limit'']"
    by (simp add: demo_ending_def new_ending_def ending_defs Let_def see_grace_def reached_def)
  ultimately show ?thesis using r by simp
qed

text \<open>Silence never ends a call early. When the ticks come in the order of the clock and one of them proposes the
  silence goodbye, then a tick at least \<open>silence_hangup\<close> seconds before saw the service waiting for a working
  microphone, and since that tick the microphone never failed and the user never resumed.\<close>

theorem silence_goodbye_justified:
  assumes "ep_run inputs (new_ending st hard bye confirm hangup low buf) = (acts, p)"
    and "sorted (tick_times (inputs @ [In_tick now waiting mic remaining grace]))"
    and "''goodbye:silence_timeout'' \<in> set (fst (tick now waiting mic remaining grace p))"
  shows "\<exists>w. waiting_since (inputs @ [In_tick now waiting mic remaining grace]) w \<and> hangup \<le> now - w"
proof -
  have t: "\<forall>t \<in> set (tick_times inputs). t \<le> now" "sorted (tick_times inputs)"
    using assms(2) by (auto simp: tick_times_snoc sorted_append)
  define p1 where "p1 = see_grace grace p"
  have inv: "silence_inv inputs p1" unfolding p1_def by (rule see_grace_inv [OF run_silence_inv [OF assms(1) t(2)]])
  have hg: "ep_silence_hangup p1 = hangup" using run_hangup [OF assms(1)] by (simp add: p1_def new_ending_def)
  have c: "waiting" "mic" "ep_pending_reason p1 = None" "\<not> ep_ended p1" "hangup \<le> ep_silence_elapsed (count_silence now p1)"
    using assms(3) hg unfolding p1_def
    by (auto simp: tick_def Let_def finish_def tick_silence_def goodbye_def low_time_def count_silence_def split: if_splits option.splits)
  show ?thesis using count_silence_inv [OF inv c(3,4) t(1), of remaining grace] c(1,2,5) by force
qed

theorem silence_goodbye_justified_witness:
  "\<exists>w. waiting_since [In_tick 1 True True 500 None, In_tick 10 True True 500 None, In_tick 17 True True 500 None] w \<and> 15 \<le> 17 - w"
proof -
  let ?is = "[In_tick 1 True True 500 None, In_tick 10 True True 500 None]"
  obtain acts p where r: "ep_run ?is demo_ending = (acts, p)" by fastforce
  have "''goodbye:silence_timeout'' \<in> set (fst (tick 17 True True 500 None p))"
    using r by (auto simp: demo_ending_def new_ending_def ending_defs Let_def see_grace_def reached_def ep_observe_def)
  from silence_goodbye_justified [OF r [unfolded demo_ending_def] _ this] show ?thesis by (simp add: tick_times_def)
qed

section \<open>The closing output is guarded\<close>

datatype closing_op =
    Op_event provider_event bool "pystr option"
  | Op_finish pystr "bool option"
  | Op_discard

text \<open>An operation and the events it releases. A verdict that needs no model is given at once.\<close>

fun cb_step :: "(nat \<Rightarrow> bool) \<Rightarrow> closing_op \<Rightarrow> closing_buffer \<Rightarrow> provider_event list \<times> closing_buffer" where
  "cb_step skip (Op_event e restricted expected) b =
     (case filter_start skip e restricted expected b of
        Inl x \<Rightarrow> ([], b)
      | Inr (Answer out rejected, b') \<Rightarrow> (out, b')
      | Inr (Decide rid verdict, b') \<Rightarrow> (let (r, b'') = filter_finish rid verdict b' in (fst r, b''))
      | Inr (Ask rid text, b') \<Rightarrow> ([], b'))"
| "cb_step skip (Op_finish rid verdict) b = (let (r, b') = filter_finish rid verdict b in (fst r, b'))"
| "cb_step skip Op_discard b = ([], discard b)"

fun cb_run :: "(nat \<Rightarrow> bool) \<Rightarrow> closing_op list \<Rightarrow> closing_buffer \<Rightarrow> provider_event list \<times> closing_buffer" where
  "cb_run skip [] b = ([], b)"
| "cb_run skip (op # ops) b = (let (out, b1) = cb_step skip op b; (rest, b2) = cb_run skip ops b1 in (out @ rest, b2))"

definition op_restricted :: "pystr \<Rightarrow> closing_op \<Rightarrow> bool" where
  "op_restricted rid op = (case op of Op_event e restricted x \<Rightarrow> pe_reply_id e = Some rid \<longrightarrow> restricted | _ \<Rightarrow> True)"

text \<open>The two ways a reply is approved: the gate said yes, or its whole text is the fixed goodbye.\<close>

definition approves :: "(nat \<Rightarrow> bool) \<Rightarrow> pystr \<Rightarrow> closing_op \<Rightarrow> bool" where
  "approves skip rid op =
     (case op of
        Op_finish r verdict \<Rightarrow> r = rid \<and> verdict = Some True
      | Op_event e restricted expected \<Rightarrow> pe_reply_id e = Some rid \<and> pe_kind e = ''text_finished'' \<and>
          (case expected of None \<Rightarrow> False | Some x \<Rightarrow> normalized skip x \<noteq> [])
      | Op_discard \<Rightarrow> False)"

definition of_reply :: "pystr \<Rightarrow> provider_event \<Rightarrow> bool" where
  "of_reply rid e \<longleftrightarrow> pe_reply_id e = Some rid"

definition held_own :: "closing_buffer \<Rightarrow> bool" where
  "held_own b \<longleftrightarrow> (\<forall>rid c. map_of (cb_pending b) rid = Some c \<longrightarrow> list_all (of_reply rid) (ca_events c))"

definition denied :: "pystr \<Rightarrow> closing_buffer \<Rightarrow> bool" where
  "denied rid b \<longleftrightarrow> map_of (cb_decisions b) rid = Some False"

definition unapproved :: "pystr \<Rightarrow> closing_buffer \<Rightarrow> bool" where
  "unapproved rid b \<longleftrightarrow> map_of (cb_decisions b) rid \<noteq> Some True"

lemma discard_decisions:
  "map_of (cb_decisions (discard b)) rid =
     (if rid \<in> fst ` set (cb_pending b) then Some False else map_of (cb_decisions b) rid)"
proof -
  have "map_of (fold (\<lambda>(r, c). AList.update r False) ps ds) rid = (if rid \<in> fst ` set ps then Some False else map_of ds rid)"
    for ps :: "(pystr \<times> candidate) list" and ds
    by (induction ps arbitrary: ds) (auto simp: dict_get_update)
  then show ?thesis by (simp add: discard_def)
qed

lemma collect_events [simp]: "ca_events (collect e c) = ca_events c @ [e]"
  by (simp add: collect_def split: ev_payload.split)

text \<open>Finishing releases events of its own reply only, and only with an approval and no earlier verdict.\<close>

lemma filter_finish_step:
  assumes "held_own b" "filter_finish r verdict b = ((out, rejected), b')"
  shows "held_own b'" "list_all (of_reply r) out" "out \<noteq> [] \<Longrightarrow> verdict = Some True \<and> map_of (cb_decisions b) r = None"
    "map_of (cb_decisions b') x =
       (if x = r \<and> map_of (cb_decisions b) r = None then Some (verdict = Some True) else map_of (cb_decisions b) x)"
  using assms
  by (auto simp: filter_finish_def Let_def held_own_def dict_get_update dict_get_delete split: if_splits option.splits)

lemma filter_start_step:
  assumes "held_own b" "filter_start skip e restricted expected b = Inr (f, b')"
  shows "held_own b'"
    "map_of (cb_decisions b') x = map_of (cb_decisions b) x \<or>
       map_of (cb_decisions b) x = None \<and> map_of (cb_decisions b') x = Some False"
    "f = Answer out rejected \<Longrightarrow> out = [] \<or> out = [e] \<and>
       (case pe_reply_id e of None \<Rightarrow> True | Some r \<Rightarrow> r = [] \<or> map_of (cb_decisions b) r = Some True \<or>
          map_of (cb_decisions b) r = None \<and> \<not> restricted)"
    "f = Decide r verdict \<Longrightarrow> pe_reply_id e = Some r \<and> map_of (cb_decisions b) r = None \<and>
       (verdict = Some True \<longrightarrow> approves skip r (Op_event e restricted expected))"
  using assms
  by (auto simp: filter_start_def Let_def held_own_def dict_get_update dict_get_delete of_reply_def approves_def
      exact_goodbye_def split: option.split_asm if_split_asm)

lemma cb_step_held:
  assumes "held_own b" "cb_step skip op b = (out, b')"
  shows "held_own b' \<and> (denied rid b \<longrightarrow> denied rid b')"
proof (cases op)
  case (Op_event e restricted expected)
  show ?thesis
  proof (cases "filter_start skip e restricted expected b")
    case (Inl x)
    then show ?thesis using assms Op_event by simp
  next
    case (Inr fb)
    then obtain f b1 where f: "filter_start skip e restricted expected b = Inr (f, b1)" by (cases fb) auto
    note st = filter_start_step(1,2) [OF assms(1) f]
    have d: "denied rid b \<longrightarrow> denied rid b1" using st(2) [of rid] by (auto simp: denied_def)
    show ?thesis
    proof (cases f)
      case (Decide r v)
      obtain o1 rj b2 where g: "filter_finish r v b1 = ((o1, rj), b2)" by (metis surj_pair)
      then have "b' = b2" using assms(2) Op_event f Decide by simp
      then show ?thesis using filter_finish_step(1,4) [OF st(1) g] d by (auto simp: denied_def)
    qed (use assms(2) Op_event f st(1) d in auto)
  qed
next
  case (Op_finish r v)
  obtain o1 rj b2 where g: "filter_finish r v b = ((o1, rj), b2)" by (metis surj_pair)
  then have "b' = b2" using assms(2) Op_finish by simp
  then show ?thesis using filter_finish_step(1,4) [OF assms(1) g] by (auto simp: denied_def)
next
  case Op_discard
  then show ?thesis using assms by (auto simp: denied_def discard_decisions held_own_def) (simp_all add: discard_def)
qed

text \<open>The events one step releases of a reply that is not approved.\<close>

lemma cb_step_guard:
  assumes h: "held_own b" and s: "cb_step skip op b = (out, b')" and r: "rid \<noteq> []" and u: "unapproved rid b"
    and g: "denied rid b \<or> op_restricted rid op \<and> \<not> approves skip rid op"
  shows "list_all (\<lambda>e. \<not> of_reply rid e) out \<and> unapproved rid b'"
proof (cases op)
  case (Op_event e restricted expected)
  show ?thesis
  proof (cases "filter_start skip e restricted expected b")
    case (Inl x)
    then show ?thesis using s u Op_event by simp
  next
    case (Inr fb)
    then obtain f b1 where f: "filter_start skip e restricted expected b = Inr (f, b1)" by (cases fb) auto
    note st = filter_start_step [OF h f]
    have u1: "unapproved rid b1" using st(2) [of rid] u by (auto simp: unapproved_def)
    show ?thesis
    proof (cases f)
      case (Answer o1 rj)
      then have o: "out = o1" "b' = b1" using s Op_event f by simp_all
      have "\<not> of_reply rid x" if "x \<in> set o1" for x
        using st(3) [OF Answer] that r u g Op_event
        by (auto simp: of_reply_def unapproved_def denied_def op_restricted_def split: option.splits)
      then show ?thesis using o u1 by (simp add: list_all_iff)
    next
      case (Decide q v)
      obtain o1 rj b2 where ff: "filter_finish q v b1 = ((o1, rj), b2)" by (metis surj_pair)
      then have o: "out = o1" "b' = b2" using s Op_event f Decide by simp_all
      note fs = filter_finish_step [OF st(1) ff]
      note dc = st(4) [OF Decide]
      have v: "v \<noteq> Some True" if "q = rid" using that dc g Op_event by (auto simp: denied_def)
      have "list_all (\<lambda>e. \<not> of_reply rid e) o1"
      proof (cases "q = rid")
        case True
        have "o1 = []"
    proof (rule ccontr)
      assume "o1 \<noteq> []"
      from fs(3) [OF this] v True show False by auto
    qed
        then show ?thesis by simp
      next
        case False
        then show ?thesis using fs(2) by (auto simp: list_all_iff of_reply_def)
      qed
      moreover have "unapproved rid b2" using fs(4) [of rid] u1 v by (auto simp: unapproved_def)
      ultimately show ?thesis using o by simp
    qed (use s Op_event f u1 in auto)
  qed
next
  case (Op_finish q v)
  obtain o1 rj b2 where ff: "filter_finish q v b = ((o1, rj), b2)" by (metis surj_pair)
  then have o: "out = o1" "b' = b2" using s Op_finish by simp_all
  note fs = filter_finish_step [OF h ff]
  have v: "v \<noteq> Some True \<or> map_of (cb_decisions b) q \<noteq> None" if "q = rid"
    using that g Op_finish by (auto simp: denied_def approves_def)
  have "list_all (\<lambda>e. \<not> of_reply rid e) o1"
  proof (cases "q = rid")
    case True
    have "o1 = []"
    proof (rule ccontr)
      assume "o1 \<noteq> []"
      from fs(3) [OF this] v True show False by auto
    qed
    then show ?thesis by simp
  next
    case False
    then show ?thesis using fs(2) by (auto simp: list_all_iff of_reply_def)
  qed
  moreover have "unapproved rid b2" using fs(4) [of rid] u v by (auto simp: unapproved_def)
  ultimately show ?thesis using o by simp
next
  case Op_discard
  then show ?thesis using s u by (auto simp: unapproved_def discard_decisions split: if_splits)
qed

lemma cb_run_guard:
  "held_own b \<Longrightarrow> cb_run skip ops b = (out, b') \<Longrightarrow> rid \<noteq> [] \<Longrightarrow> unapproved rid b \<Longrightarrow>
   denied rid b \<or> list_all (\<lambda>op. op_restricted rid op \<and> \<not> approves skip rid op) ops \<Longrightarrow>
   list_all (\<lambda>e. \<not> of_reply rid e) out"
proof (induction ops arbitrary: b out)
  case (Cons op ops)
  obtain o1 b1 where s: "cb_step skip op b = (o1, b1)" by fastforce
  obtain o2 where r: "cb_run skip ops b1 = (o2, b')" "out = o1 @ o2"
    using Cons.prems(2) s by (auto simp: Let_def split: prod.splits)
  have g: "denied rid b \<or> op_restricted rid op \<and> \<not> approves skip rid op" using Cons.prems(5) by auto
  note st = cb_step_guard [OF Cons.prems(1) s Cons.prems(3,4) g]
  note hd = cb_step_held [OF Cons.prems(1) s, of rid]
  have "list_all (\<lambda>e. \<not> of_reply rid e) o2"
    by (rule Cons.IH [OF conjunct1 [OF hd] r(1) Cons.prems(3) conjunct2 [OF st]]) (use hd Cons.prems(5) in auto)
  then show ?case using st r by simp
qed simp

lemma cb_run_held: "held_own b \<Longrightarrow> cb_run skip ops b = (out, b') \<Longrightarrow> held_own b'"
proof (induction ops arbitrary: b out)
  case (Cons op ops)
  obtain o1 b1 where s: "cb_step skip op b = (o1, b1)" by fastforce
  then show ?case using Cons cb_step_held [OF Cons.prems(1) s] by (auto simp: Let_def split: prod.splits)
qed simp

text \<open>Nothing of a closing reply is heard before it is approved, in any interleaving of events, verdicts and
  discards. Of a reply whose events are all filtered under restriction, an event is released only if the
  gate said yes to it or its text is checked against a fixed goodbye; and once a reply was rejected, was
  too large or was discarded, nothing of it is released, whatever the gate answers afterwards.\<close>

theorem closing_output_guarded:
  assumes "cb_run skip ops new_buffer = (out, b)" "cb_run skip ops' b = (out', b')" "rid \<noteq> []"
  shows "(list_all (op_restricted rid) ops \<and> list_ex (of_reply rid) out \<longrightarrow> list_ex (approves skip rid) ops) \<and>
    (map_of (cb_decisions b) rid = Some False \<longrightarrow> \<not> list_ex (of_reply rid) out')"
proof -
  have h: "held_own new_buffer" "unapproved rid new_buffer" by (simp_all add: held_own_def new_buffer_def unapproved_def)
  have "list_all (\<lambda>e. \<not> of_reply rid e) out" if "list_all (op_restricted rid) ops" "\<not> list_ex (approves skip rid) ops"
    using cb_run_guard [OF h(1) assms(1,3) h(2)] that by (auto simp: list_all_iff list_ex_iff)
  moreover have "list_all (\<lambda>e. \<not> of_reply rid e) out'" if "map_of (cb_decisions b) rid = Some False"
    using cb_run_guard [OF cb_run_held [OF h(1) assms(1)] assms(2,3)] that by (simp add: denied_def unapproved_def)
  ultimately show ?thesis by (auto simp: list_all_iff list_ex_iff)
qed

definition demo_chat :: "string \<Rightarrow> ev_payload \<Rightarrow> provider_event" where
  "demo_chat kind pl = \<lparr>pe_call_id = ''c'', pe_session_id = ''s'', pe_sequence = 1, pe_kind = kind, pe_question_id = None,
     pe_reply_id = Some (asc ''r''), pe_payload = pl\<rparr>"

theorem closing_output_guarded_witness:
  "\<exists>out b. cb_run (\<lambda>c. False) [Op_event (demo_chat ''chat_text'' (Text_payload (asc ''hi''))) True None, Op_discard] new_buffer = (out, b) \<and>
     \<not> list_ex (of_reply (asc ''r'')) (fst (cb_run (\<lambda>c. False) [Op_finish (asc ''r'') (Some True),
       Op_event (demo_chat ''text_finished'' Other_payload) True None] b))"
proof -
  let ?ops = "[Op_event (demo_chat ''chat_text'' (Text_payload (asc ''hi''))) True None, Op_discard]"
  obtain out b where r: "cb_run (\<lambda>c. False) ?ops new_buffer = (out, b)" by fastforce
  obtain out' b' where r': "cb_run (\<lambda>c. False) [Op_finish (asc ''r'') (Some True),
      Op_event (demo_chat ''text_finished'' Other_payload) True None] b = (out', b')" by fastforce
  have d: "map_of (cb_decisions b) (asc ''r'') = Some False"
    using r by (auto simp: filter_start_def demo_chat_def new_buffer_def collect_def oversized_def discard_def Let_def)
  have "\<not> list_ex (of_reply (asc ''r'')) out'"
    using closing_output_guarded [OF r r', of "asc ''r''"] d by simp
  then show ?thesis using r unfolding r' [symmetric] by (metis fst_conv r')
qed

end
