(* ===== verification/Dispatch.thy ===== *)
theory Dispatch
  imports Followup Safety
begin

text \<open>
  The dispatch of follow-ups (\<open>realtime_voice_followup_job_service.py\<close>): polling, the claim of a job under a
  lease, the check that it may still be sent, the message written in the same transaction, the count
  after it.

  The table of messages and the chat log are kept beside the database. Every transaction is one operation
  with the instants its clock calls return; a raise leaves the state as it was. The quota check, the
  topic model, the digest of its inputs and the counting service are parameters. The counters sent after
  a commit are left out.
\<close>

section \<open>State\<close>

record message =
  ms_id :: int
  ms_user :: int
  ms_trigger_type :: string
  ms_content :: pystr
  ms_action_score :: int
  ms_sort_seq :: int
  ms_created_at :: datetime

record chat =
  ch_user :: int
  ch_role :: string
  ch_created_at :: datetime

record dispatch =
  dp_db :: database
  dp_messages :: "message list"
  dp_chats :: "chat list"

definition put_job :: "followup_job \<Rightarrow> dispatch \<Rightarrow> dispatch" where
  "put_job j st = st\<lparr>dp_db := put_followup j (dp_db st)\<rparr>"

definition release :: "followup_job \<Rightarrow> followup_job" where
  "release j = j\<lparr>fj_lease_owner := None, fj_lease_expires_at := None\<rparr>"

definition counting :: "followup_job \<Rightarrow> bool" where
  "counting j \<longleftrightarrow> fj_status j = Fol_sent \<and> fj_fail_reason j = Some ''count_pending''"

section \<open>Polling and claiming\<close>

definition no_later :: "datetime \<Rightarrow> datetime option \<Rightarrow> bool" where
  "no_later now t \<longleftrightarrow> (case t of None \<Rightarrow> True | Some x \<Rightarrow> x \<le> now)"

definition pollable :: "datetime \<Rightarrow> followup_job \<Rightarrow> bool" where
  "pollable now j \<longleftrightarrow> no_later now (fj_next_retry_at j) \<and>
     (fj_status j = Fol_pending \<and> fj_due_at j \<le> now \<or>
      fj_status j = Fol_processing \<and> no_later now (fj_lease_expires_at j) \<or>
      counting j \<and> no_later now (fj_lease_expires_at j))"

definition poll_ids :: "datetime \<Rightarrow> database \<Rightarrow> int list" where
  "poll_ids now db = take 8 (map fj_id (sort_key fj_due_at (sort_key fj_id (filter (pollable now) (db_followups db)))))"

definition later :: "datetime \<Rightarrow> datetime option \<Rightarrow> bool" where
  "later now t \<longleftrightarrow> (case t of None \<Rightarrow> False | Some x \<Rightarrow> now < x)"

datatype claimed = Stopped string | Accounting | Dispatching

text \<open>The first transaction of \<open>process\<close>.\<close>

definition claim_followup :: "datetime \<Rightarrow> string \<Rightarrow> int \<Rightarrow> int \<Rightarrow> dispatch \<Rightarrow> claimed \<times> dispatch" where
  "claim_followup now owner lease_seconds jid st =
     (case get_followup jid (dp_db st) of
        None \<Rightarrow> (Stopped ''missing'', st)
      | Some j \<Rightarrow>
          let accounting = (counting j \<or> fj_status j \<in> {Fol_pending, Fol_processing} \<and> fj_agent_message_id j \<noteq> None) in
          if fj_status j \<notin> {Fol_pending, Fol_processing} \<and> \<not> accounting then (Stopped (followup_status_str (fj_status j)), st)
          else if fj_lease_owner j \<notin> {None, Some []} \<and> later now (fj_lease_expires_at j) then (Stopped ''busy'', st)
          else if later now (fj_next_retry_at j) then (Stopped ''not_due'', st)
          else if \<not> accounting \<and> fj_due_at j > now then (Stopped ''not_due'', st)
          else if get_call (fj_call_id j) (dp_db st) = None then
            (Stopped ''failed'', put_job (release (j\<lparr>fj_status := Fol_failed, fj_fail_reason := Some ''source_missing''\<rparr>)) st)
          else
            let j1 = (if accounting then j\<lparr>fj_status := Fol_sent, fj_fail_reason := Some ''count_pending''\<rparr>
                      else j\<lparr>fj_status := Fol_processing\<rparr>) in
            (if accounting then Accounting else Dispatching,
             put_job (j1\<lparr>fj_attempt_count := fj_attempt_count j + 1, fj_lease_owner := Some owner,
               fj_lease_expires_at := Some (now + lease_seconds * us_second), fj_next_retry_at := None\<rparr>) st))"

section \<open>Whether a job may be sent\<close>

record topic_inputs =
  ti_user :: int
  ti_call :: string
  ti_type :: followup_type
  ti_content :: pystr
  ti_unfinished :: json
  ti_texts :: "pystr list"
  ti_config :: json

definition default_minimum_seconds :: int where
  "default_minimum_seconds = 15"

definition minimum_seconds :: "voice_call \<Rightarrow> int" where
  "minimum_seconds c =
     (case jget_def' (jget (jget (vc_config_snapshot c) ''resolved_config'') ''followup'') ''summary_min_effective_seconds''
         (JInt default_minimum_seconds) of
        JInt n \<Rightarrow> if n < 1 then default_minimum_seconds else n
      | _ \<Rightarrow> default_minimum_seconds)"

definition expires_later :: "datetime \<Rightarrow> datetime option \<Rightarrow> bool" where
  "expires_later now t \<longleftrightarrow> (case t of None \<Rightarrow> False | Some x \<Rightarrow> now < x)"

definition source_turn :: "datetime \<Rightarrow> string \<Rightarrow> turn_row \<Rightarrow> bool" where
  "source_turn now cid t \<longleftrightarrow> tn_call_id t = cid \<and> tn_status t \<in> {Finalized, Interrupted} \<and> tn_evidence t \<noteq> No_evidence \<and>
     tn_assistant_text_effective t \<notin> {None, Some []} \<and> tn_effective_text_cleared_at t = None \<and>
     expires_later now (tn_effective_text_expires_at t) \<and> tn_user_safety t = Saf_passed \<and> tn_assistant_safety t = Saf_passed \<and>
     tn_user_crisis t = Cri_passed \<and> tn_assistant_crisis t = Cri_passed"

definition summary_source_ok :: "datetime \<Rightarrow> voice_call \<Rightarrow> database \<Rightarrow> bool" where
  "summary_source_ok now c db \<longleftrightarrow> vc_status c = Ended \<and> vc_connected_at c \<noteq> None \<and> vc_duration_seconds c \<ge> minimum_seconds c \<and>
     vc_summary_status c = Sum_ready \<and>
     list_ex (\<lambda>t. source_turn now (vc_call_id c) t \<and> meaningful_user_text (tn_user_text_final t)) (db_turns db)"

definition chatted_since :: "int \<Rightarrow> datetime \<Rightarrow> chat list \<Rightarrow> bool" where
  "chatted_since u t chats \<longleftrightarrow> list_ex (\<lambda>x. ch_user x = u \<and> ch_role x = ''user'' \<and> t \<le> ch_created_at x) chats"

definition later_call :: "datetime \<Rightarrow> followup_job \<Rightarrow> voice_call \<Rightarrow> voice_call \<Rightarrow> bool" where
  "later_call now j c x \<longleftrightarrow> vc_user_id x = fj_user_id j \<and> vc_call_id x \<noteq> vc_call_id c \<and>
     (case (vc_connected_at x, vc_ended_at c) of (Some a, Some b) \<Rightarrow> b \<le> a | _ \<Rightarrow> False) \<and>
     vc_deleted_at x = None \<and> vc_deletion_fence_at x = None \<and>
     (case vc_transcript_expires_at x of None \<Rightarrow> True | Some e \<Rightarrow> now < e)"

definition later_text :: "datetime \<Rightarrow> turn_row \<Rightarrow> pystr option" where
  "later_text now t =
     (case tn_user_text_final t of
        None \<Rightarrow> None
      | Some x \<Rightarrow>
          if x \<noteq> [] \<and> tn_effective_text_cleared_at t = None \<and> expires_later now (tn_effective_text_expires_at t) \<and>
            tn_user_safety t = Saf_passed \<and> tn_user_crisis t = Cri_passed
          then Some x else None)"

definition later_texts :: "datetime \<Rightarrow> followup_job \<Rightarrow> voice_call \<Rightarrow> database \<Rightarrow> pystr list" where
  "later_texts now j c db =
     (let rows = concat (map (\<lambda>x. map (\<lambda>t. ((the (vc_connected_at x), tn_turn_index t), later_text now t))
                   (filter (\<lambda>t. tn_call_id t = vc_call_id x \<and> later_text now t \<noteq> None) (db_turns db)))
                 (filter (later_call now j c) (db_calls db))) in
      map (\<lambda>r. the (snd r)) (sort_key (\<lambda>r. fst (fst r)) (sort_key (\<lambda>r. snd (fst r)) rows)))"

definition unfinished_topics :: "voice_call \<Rightarrow> json" where
  "unfinished_topics c =
     (case vc_unfinished_topics c of
        None \<Rightarrow> JList []
      | Some v \<Rightarrow> if v \<in> set [JNull, JBool False, JInt 0, JStr [], JObj []] then JList [] else v)"

definition topic_of :: "datetime \<Rightarrow> followup_job \<Rightarrow> voice_call \<Rightarrow> database \<Rightarrow> topic_inputs option" where
  "topic_of now j c db =
     (case later_texts now j c db of
        [] \<Rightarrow> None
      | ts \<Rightarrow> Some \<lparr>ti_user = fj_user_id j, ti_call = vc_call_id c, ti_type = fj_content_type j, ti_content = fj_content j,
                ti_unfinished = unfinished_topics c, ti_texts = ts, ti_config = vc_config_snapshot c\<rparr>)"

definition job_window :: "followup_job \<Rightarrow> datetime \<Rightarrow> datetime option res" where
  "job_window j now = next_window (fj_timezone_snapshot j) (fj_allowed_window_snapshot j) now"

text \<open>The verdict of the topic model on the inputs with that digest.\<close>

type_synonym topic_result = "(string \<times> bool) option"

definition topic_reason ::
  "(topic_inputs \<Rightarrow> string) \<Rightarrow> datetime \<Rightarrow> followup_job \<Rightarrow> voice_call \<Rightarrow> topic_result \<Rightarrow> database \<Rightarrow> string option res" where
  "topic_reason dg now j c topic db =
     bindR (job_window j now) (\<lambda>w.
       case (if w = None then topic_of now j c db else None) of
         None \<Rightarrow> Inr None
       | Some inputs \<Rightarrow>
           (case topic of
              Some (d, continued) \<Rightarrow>
                if d \<noteq> dg inputs then Inl (RuntimeError ''topic_inputs_changed'')
                else Inr (if continued then Some ''topic_continued'' else None)
            | None \<Rightarrow> Inl (RuntimeError ''topic_inputs_changed'')))"

definition sent_sibling :: "followup_job \<Rightarrow> database \<Rightarrow> bool" where
  "sent_sibling j db \<longleftrightarrow>
     list_ex (\<lambda>x. fj_call_id x = fj_call_id j \<and> fj_id x \<noteq> fj_id j \<and> fj_agent_message_id x \<noteq> None) (db_followups db)"

definition ineligible ::
  "(topic_inputs \<Rightarrow> string) \<Rightarrow> datetime \<Rightarrow> voice_call option \<Rightarrow> followup_job \<Rightarrow> topic_result \<Rightarrow> dispatch \<Rightarrow> string option res" where
  "ineligible dg now call j topic st =
     (case call of
        None \<Rightarrow> Inr (Some ''source_missing'')
      | Some c \<Rightarrow>
          if vc_user_id c \<noteq> fj_user_id j then Inr (Some ''source_missing'')
          else if vc_deleted_at c \<noteq> None \<or> vc_deletion_fence_at c \<noteq> None then Inr (Some ''source_deleted'')
          else if (case vc_transcript_expires_at c of None \<Rightarrow> False | Some e \<Rightarrow> e \<le> now) then Inr (Some ''source_expired'')
          else if now > fj_latest_due_at j then Inr (Some ''deadline_exceeded'')
          else if \<not> nonblank (fj_content j) then Inr (Some ''content_unavailable'')
          else if (if fj_content_type j = Missed_explanation then vc_status c \<noteq> Missed \<or> vc_connected_at c \<noteq> None
                   else \<not> summary_source_ok now c (dp_db st)) then Inr (Some ''source_ineligible'')
          else (case vc_ended_at c of
              None \<Rightarrow> Inr (Some ''source_ineligible'')
            | Some e \<Rightarrow>
                if chatted_since (fj_user_id j) e (dp_chats st) then Inr (Some ''user_chatted'')
                else bindR (topic_reason dg now j c topic (dp_db st)) (\<lambda>r.
                  Inr (case r of Some x \<Rightarrow> Some x
                       | None \<Rightarrow> if sent_sibling j (dp_db st) then Some ''already_sent'' else None))))"

section \<open>The dispatching transaction\<close>

record dispatch_env =
  de_first :: datetime
  de_checked :: datetime
  de_staged :: datetime
  de_written :: datetime
  de_quota :: "bool res"
  de_topic :: topic_result
  de_digest :: "topic_inputs \<Rightarrow> string"

text \<open>The instants of the clock calls: before the checks, after the quota, inside and at the end of staging.\<close>

definition cancel_followup :: "string \<Rightarrow> followup_job \<Rightarrow> dispatch \<Rightarrow> dispatch" where
  "cancel_followup reason j st =
     put_job (release (j\<lparr>fj_status := Fol_cancelled, fj_cancel_reason := Some reason, fj_fail_reason := None, fj_next_retry_at := None\<rparr>)) st"

definition lease_over :: "datetime \<Rightarrow> followup_job \<Rightarrow> bool res" where
  "lease_over now j = (case fj_lease_expires_at j of None \<Rightarrow> Inl (RuntimeError ''TypeError'') | Some e \<Rightarrow> Inr (e \<le> now))"

definition new_message :: "datetime \<Rightarrow> followup_job \<Rightarrow> int \<Rightarrow> dispatch \<Rightarrow> message" where
  "new_message now j n st = \<lparr>ms_id = fresh_id (map ms_id (dp_messages st)), ms_user = fj_user_id j,
     ms_trigger_type = ''VOICE_FOLLOWUP'', ms_content = fj_content j, ms_action_score = 0, ms_sort_seq = n, ms_created_at = now\<rparr>"

text \<open>\<open>_stage_message\<close>: a reason not to send after all, or the state with the message.\<close>

definition stage_message :: "dispatch_env \<Rightarrow> voice_call option \<Rightarrow> followup_job \<Rightarrow> dispatch \<Rightarrow> (string option \<times> dispatch) res" where
  "stage_message env call j st =
     bindR (allocate_sort_seq (fj_user_id j) 1 (dp_db st)) (\<lambda>(ns, db1).
       let st1 = st\<lparr>dp_db := db1\<rparr>; now = de_written env in
       bindR (ineligible (de_digest env) (de_staged env) call j (de_topic env) st1) (\<lambda>r.
         case r of
           Some x \<Rightarrow> Inr (Some x, st1)
         | None \<Rightarrow>
             if now > fj_latest_due_at j then Inr (Some ''deadline_exceeded'', st1)
             else if (case call of None \<Rightarrow> False | Some c \<Rightarrow> (case vc_transcript_expires_at c of None \<Rightarrow> False | Some e \<Rightarrow> e \<le> now))
             then Inr (Some ''source_expired'', st1)
             else bindR (lease_over now j) (\<lambda>over.
               if over then Inl (RuntimeError ''lease_expired'')
               else bindR (job_window j now) (\<lambda>w.
                 if w \<noteq> None then Inl (RuntimeError ''window_changed'')
                 else let m = new_message now j (hd ns) st1 in
                   Inr (None, put_job (j\<lparr>fj_agent_message_id := Some (ms_id m), fj_status := Fol_sent, fj_cancel_reason := None,
                       fj_fail_reason := Some ''count_pending'', fj_next_retry_at := None\<rparr>)
                     (st1\<lparr>dp_messages := dp_messages st1 @ [m]\<rparr>))))))"

definition send_checked :: "dispatch_env \<Rightarrow> voice_call option \<Rightarrow> followup_job \<Rightarrow> dispatch \<Rightarrow> (string \<times> dispatch) res" where
  "send_checked env call j st =
     bindR (de_quota env) (\<lambda>allowed.
       if \<not> allowed then Inr (''cancelled'', cancel_followup ''quota_unavailable'' j st)
       else bindR (lease_over (de_checked env) j) (\<lambda>over.
         if over then Inl (RuntimeError ''lease_expired'')
         else bindR (ineligible (de_digest env) (de_checked env) call j (de_topic env) st) (\<lambda>r.
           case r of
             Some x \<Rightarrow> Inr (''cancelled'', cancel_followup x j st)
           | None \<Rightarrow> bindR (job_window j (de_checked env)) (\<lambda>w.
               if w \<noteq> None then Inl (RuntimeError ''window_changed'')
               else bindR (stage_message env call j st) (\<lambda>(r2, st2).
                 case r2 of Some x \<Rightarrow> Inr (''cancelled'', cancel_followup x j st2) | None \<Rightarrow> Inr (''sent'', st2))))))"

definition dispatch_job :: "dispatch_env \<Rightarrow> string \<Rightarrow> int \<Rightarrow> dispatch \<Rightarrow> (string \<times> dispatch) res" where
  "dispatch_job env owner jid st =
     (case get_followup jid (dp_db st) of
        None \<Rightarrow> Inr (''stale'', st)
      | Some j \<Rightarrow>
          if fj_status j \<noteq> Fol_processing \<or> fj_lease_owner j \<noteq> Some owner then Inr (''stale'', st)
          else
            let call = get_call (fj_call_id j) (dp_db st); now = de_first env in
            bindR (lease_over now j) (\<lambda>over.
              if over then Inl (RuntimeError ''lease_expired'')
              else bindR (ineligible (de_digest env) now call j (de_topic env) st) (\<lambda>r.
                case r of
                  Some x \<Rightarrow> Inr (''cancelled'', cancel_followup x j st)
                | None \<Rightarrow> bindR (job_window j now) (\<lambda>w.
                    case w of
                      Some t \<Rightarrow>
                        if t > fj_latest_due_at j then Inr (''cancelled'', cancel_followup ''deadline_exceeded'' j st)
                        else Inr (''pending'', put_job (release (j\<lparr>fj_status := Fol_pending, fj_next_retry_at := Some t,
                               fj_fail_reason := None\<rparr>)) st)
                    | None \<Rightarrow> send_checked env call j st))))"

section \<open>Failures and counting\<close>

definition fail_followup :: "datetime \<Rightarrow> string \<Rightarrow> int \<Rightarrow> string \<Rightarrow> bool \<Rightarrow> int \<Rightarrow> dispatch \<Rightarrow> string \<times> dispatch" where
  "fail_followup now owner jid reason retryable retry_seconds st =
     (case get_followup jid (dp_db st) of
        None \<Rightarrow> (''stale'', st)
      | Some j \<Rightarrow>
          if fj_status j \<noteq> Fol_processing \<or> fj_lease_owner j \<noteq> Some owner then (''stale'', st)
          else let s = (if retryable then Fol_pending else Fol_failed) in
            (followup_status_str s, put_job (release (j\<lparr>fj_status := s, fj_fail_reason := Some reason,
               fj_next_retry_at := (if retryable then Some (now + retry_seconds * us_second) else None)\<rparr>)) st))"

definition failure_of :: "exn \<Rightarrow> string \<times> bool" where
  "failure_of x = (case x of ValueError s \<Rightarrow> (''invalid_snapshot'', False) | _ \<Rightarrow> (''dispatch_unavailable'', True))"

definition dedupe_days :: "voice_call option \<Rightarrow> int" where
  "dedupe_days call =
     (case call of
        None \<Rightarrow> 90
      | Some c \<Rightarrow>
          (case jget_def' (jget (jget (vc_config_snapshot c) ''resolved_config'') ''retention'') ''job_log_days'' (JInt 90) of
             JInt n \<Rightarrow> if n < 1 then 90 else n
           | _ \<Rightarrow> 90))"

record count_args =
  ca_user :: int
  ca_message :: int
  ca_occurred_at :: datetime
  ca_ttl_seconds :: int
  ca_key :: "int \<times> int"

text \<open>The idempotency key is the pair of the ids it is printed from.\<close>

definition account_start :: "string \<Rightarrow> int \<Rightarrow> dispatch \<Rightarrow> (string + count_args) \<times> dispatch" where
  "account_start owner jid st =
     (case get_followup jid (dp_db st) of
        None \<Rightarrow> (Inl ''stale'', st)
      | Some j \<Rightarrow>
          if fj_status j \<noteq> Fol_sent \<or> fj_lease_owner j \<noteq> Some owner then (Inl ''stale'', st)
          else (case find (\<lambda>m. fj_agent_message_id j = Some (ms_id m) \<and> ms_user m = fj_user_id j) (dp_messages st) of
              None \<Rightarrow> (Inl ''sent'', put_job (release (j\<lparr>fj_fail_reason := Some ''message_missing''\<rparr>)) st)
            | Some m \<Rightarrow>
                (Inr \<lparr>ca_user = fj_user_id j, ca_message = ms_id m, ca_occurred_at = ms_created_at m,
                    ca_ttl_seconds = dedupe_days (get_call (fj_call_id j) (dp_db st)) * 86400, ca_key = (fj_id j, ms_id m)\<rparr>, st)))"

definition account_finish :: "datetime \<Rightarrow> string \<Rightarrow> int \<Rightarrow> bool \<Rightarrow> int \<Rightarrow> dispatch \<Rightarrow> string \<times> dispatch" where
  "account_finish now owner jid success retry_seconds st =
     (case get_followup jid (dp_db st) of
        None \<Rightarrow> (''stale'', st)
      | Some j \<Rightarrow>
          if fj_status j \<noteq> Fol_sent \<or> fj_lease_owner j \<noteq> Some owner then (''stale'', st)
          else (''sent'', put_job (release (j\<lparr>fj_fail_reason := (if success then None else Some ''count_pending''),
                 fj_next_retry_at := (if success then None else Some (now + retry_seconds * us_second))\<rparr>)) st))"

section \<open>The whole of process\<close>

definition prepare_topic ::
  "(topic_inputs \<Rightarrow> string) \<Rightarrow> datetime \<Rightarrow> (topic_inputs \<Rightarrow> bool res) option \<Rightarrow> string \<Rightarrow> int \<Rightarrow> dispatch \<Rightarrow> topic_result res" where
  "prepare_topic dg now model owner jid st =
     (case get_followup jid (dp_db st) of
        None \<Rightarrow> Inr None
      | Some j \<Rightarrow>
          if fj_status j \<noteq> Fol_processing \<or> fj_lease_owner j \<noteq> Some owner then Inr None
          else (case get_call (fj_call_id j) (dp_db st) of
              None \<Rightarrow> Inr None
            | Some c \<Rightarrow>
                if vc_ended_at c = None \<or> vc_deleted_at c \<noteq> None \<or> vc_deletion_fence_at c \<noteq> None \<or>
                  (case vc_transcript_expires_at c of None \<Rightarrow> False | Some e \<Rightarrow> e \<le> now) \<or> now > fj_latest_due_at j
                then Inr None
                else bindR (job_window j now) (\<lambda>w.
                  if w \<noteq> None then Inr None
                  else (case topic_of now j c (dp_db st) of
                      None \<Rightarrow> Inr None
                    | Some inputs \<Rightarrow>
                        (case model of
                           None \<Rightarrow> Inl (RuntimeError ''topic_check_unavailable'')
                         | Some f \<Rightarrow> bindR (f inputs) (\<lambda>b. Inr (Some (dg inputs, b))))))))"

record process_env =
  pe_claim_at :: datetime
  pe_topic_at :: datetime
  pe_times :: dispatch_env
  pe_model :: "(topic_inputs \<Rightarrow> bool res) option"
  pe_fail_at :: datetime
  pe_count :: "count_args \<Rightarrow> bool"
  pe_count_at :: datetime
  pe_lease_seconds :: int
  pe_retry_seconds :: int

definition account :: "process_env \<Rightarrow> string \<Rightarrow> int \<Rightarrow> dispatch \<Rightarrow> string \<times> dispatch" where
  "account env owner jid st =
     (case account_start owner jid st of
        (Inl out, st1) \<Rightarrow> (out, st1)
      | (Inr args, st1) \<Rightarrow> account_finish (pe_count_at env) owner jid (pe_count env args) (pe_retry_seconds env) st1)"

definition process_followup :: "process_env \<Rightarrow> string \<Rightarrow> int \<Rightarrow> dispatch \<Rightarrow> string \<times> dispatch" where
  "process_followup env owner jid st =
     (case claim_followup (pe_claim_at env) owner (pe_lease_seconds env) jid st of
        (Stopped out, st1) \<Rightarrow> (out, st1)
      | (Accounting, st1) \<Rightarrow> account env owner jid st1
      | (Dispatching, st1) \<Rightarrow>
          (case bindR (prepare_topic (de_digest (pe_times env)) (pe_topic_at env) (pe_model env) owner jid st1) (\<lambda>topic.
                  dispatch_job ((pe_times env)\<lparr>de_topic := topic\<rparr>) owner jid st1) of
             Inl x \<Rightarrow> fail_followup (pe_fail_at env) owner jid (fst (failure_of x)) (snd (failure_of x)) (pe_retry_seconds env) st1
           | Inr (out, st2) \<Rightarrow> if out = ''sent'' then account env owner jid st2 else (out, st2)))"

end
