(* ===== verification/Retention.thy ===== *)
theory Retention
  imports MemoryInv
begin

text \<open>
  The retention of call contents (\<open>realtime_voice_retention_service.py\<close>): what is due, the purge of one call
  by expiry or by an administrator, the pages of calls and of replay records.

  A purge is one transaction. The page services call it once per call, so the calls before a failure stay
  purged. The answer lists the changed rows and fields; whether the session cache could be deleted is an
  argument. The audit log, the check of the administrator's role and the counters sent after the commit
  are left out, except that the purge returns the latter.
\<close>

section \<open>What is due\<close>

definition due_at :: "datetime \<Rightarrow> datetime option \<Rightarrow> bool" where
  "due_at now expiry \<longleftrightarrow> (case expiry of None \<Rightarrow> False | Some e \<Rightarrow> e \<le> now)"

definition default_job_days :: int where
  "default_job_days = 90"

definition job_days :: "voice_call \<Rightarrow> int" where
  "job_days c =
     (case jget_def' (jget (jget (vc_config_snapshot c) ''resolved_config'') ''retention'') ''job_log_days'' (JInt default_job_days) of
        JInt n \<Rightarrow> if n > 0 then n else default_job_days
      | _ \<Rightarrow> default_job_days)"

definition fenced_call :: "voice_call \<Rightarrow> bool" where
  "fenced_call c \<longleftrightarrow> vc_deletion_fence_at c \<noteq> None \<or> vc_deleted_at c \<noteq> None"

definition has_due_content :: "datetime \<Rightarrow> string \<Rightarrow> database \<Rightarrow> bool" where
  "has_due_content now cid db =
     (case get_call cid db of
        None \<Rightarrow> False
      | Some c \<Rightarrow>
          fenced_call c \<or> due_at now (vc_transcript_expires_at c) \<or> due_at now (vc_generated_text_expires_at c) \<or>
          due_at now (vc_reasoning_expires_at c) \<or>
          list_ex (\<lambda>t. tn_call_id t = cid \<and>
            (due_at now (tn_effective_text_expires_at t) \<or> due_at now (tn_generated_text_expires_at t))) (db_turns db) \<or>
          list_ex (\<lambda>r. cr_call_id r = cid \<and> cr_expires_at r \<le> now) (db_crises db) \<or>
          (let cutoff = now - job_days c * us_day in
             list_ex (\<lambda>j. mj_call_id j = cid \<and> mj_created_at j \<le> cutoff) (db_memory_jobs db) \<or>
             list_ex (\<lambda>j. pj_call_id j = cid \<and> pj_created_at j \<le> cutoff) (db_post_jobs db) \<or>
             list_ex (\<lambda>j. fj_call_id j = cid \<and> fj_created_at j \<le> cutoff) (db_followups db)))"

section \<open>The purge of a call\<close>

text \<open>What the loops of one purge share, and the fields of a change report.\<close>

record purge =
  pu_now :: datetime
  pu_fenced :: bool
  pu_call_expired :: bool
  pu_generated_due :: bool
  pu_days :: int

type_synonym change = "string \<times> int \<times> string list"

definition cleared :: "(string \<times> bool) list \<Rightarrow> string list" where
  "cleared fs = map fst (filter snd fs)"

definition report :: "string \<Rightarrow> int \<Rightarrow> string list \<Rightarrow> change list" where
  "report table i fs = (if fs = [] then [] else [(table, i, fs)])"

definition text_due :: "purge \<Rightarrow> turn_row \<Rightarrow> bool" where
  "text_due p t \<longleftrightarrow> pu_fenced p \<or> pu_call_expired p \<or> due_at (pu_now p) (tn_effective_text_expires_at t)"

definition tail_due :: "purge \<Rightarrow> turn_row \<Rightarrow> bool" where
  "tail_due p t \<longleftrightarrow> pu_fenced p \<or> pu_generated_due p \<or> due_at (pu_now p) (tn_generated_text_expires_at t)"

definition first_time :: "datetime \<Rightarrow> datetime option \<Rightarrow> datetime option" where
  "first_time now old = (case old of None \<Rightarrow> Some now | Some x \<Rightarrow> Some x)"

definition clear_cause :: "purge \<Rightarrow> clear_reason" where
  "clear_cause p = (if pu_fenced p then Clr_admin_deleted else Clr_expired)"

definition wipe_turn :: "purge \<Rightarrow> turn_row \<Rightarrow> turn_row" where
  "wipe_turn p t =
     (let t1 = (if text_due p t
           then t\<lparr>tn_user_text_final := None, tn_assistant_text_effective := None,
             tn_effective_text_cleared_at := first_time (pu_now p) (tn_effective_text_cleared_at t),
             tn_content_clear_reason := Some (clear_cause p)\<rparr> else t) in
      if tail_due p t
      then t1\<lparr>tn_assistant_text_generated := None,
          tn_generated_text_cleared_at := first_time (pu_now p) (tn_generated_text_cleared_at t1),
          tn_content_clear_reason := (if tn_content_clear_reason t1 \<noteq> Some Clr_admin_deleted then Some (clear_cause p)
            else tn_content_clear_reason t1)\<rparr> else t1)"

definition turn_changes :: "purge \<Rightarrow> turn_row \<Rightarrow> change list" where
  "turn_changes p t = report ''voice_call_turn'' (tn_id t)
     (cleared [(''user_text_final'', text_due p t \<and> tn_user_text_final t \<noteq> None),
               (''assistant_text_effective'', text_due p t \<and> tn_assistant_text_effective t \<noteq> None),
               (''assistant_text_generated'', tail_due p t \<and> tn_assistant_text_generated t \<noteq> None)])"

definition job_due :: "purge \<Rightarrow> datetime \<Rightarrow> bool \<Rightarrow> bool" where
  "job_due p created source_expired \<longleftrightarrow> created + pu_days p * us_day \<le> pu_now p \<or> pu_fenced p \<or> pu_call_expired p \<or> source_expired"

definition purge_reason :: "purge \<Rightarrow> bool \<Rightarrow> string" where
  "purge_reason p source_expired =
     (if pu_fenced p then ''deletion_fence'' else if pu_call_expired p \<or> source_expired then ''source_expired'' else ''retention_expired'')"

definition cancel_event :: "string \<Rightarrow> string \<Rightarrow> event" where
  "cancel_event kind reason = ev ''voice.retention.cancel'' [(''kind'', kind), (''reason'', reason)] 1"

definition wipe_memory_job :: "purge \<Rightarrow> bool \<Rightarrow> memory_job \<Rightarrow> memory_job" where
  "wipe_memory_job p src j =
     (if \<not> job_due p (mj_created_at j) src then j
      else if open_status (mj_status j)
      then j\<lparr>mj_extraction_snapshot := None, mj_status := Mem_cancelled, mj_next_retry_at := None, mj_lease_owner := None,
        mj_lease_expires_at := None, mj_fail_reason := Some (purge_reason p src)\<rparr>
      else j\<lparr>mj_extraction_snapshot := None\<rparr>)"

definition wipe_post_job :: "purge \<Rightarrow> postprocess_job \<Rightarrow> postprocess_job" where
  "wipe_post_job p j =
     (if job_due p (pj_created_at j) False \<and> pj_status j \<in> {Post_pending, Post_processing, Post_failed}
      then j\<lparr>pj_status := Post_cancelled, pj_next_retry_at := None, pj_lease_owner := None, pj_lease_expires_at := None,
        pj_fail_reason := Some (purge_reason p False)\<rparr> else j)"

definition wipe_followup :: "purge \<Rightarrow> followup_job \<Rightarrow> followup_job" where
  "wipe_followup p j =
     (if \<not> job_due p (fj_created_at j) False then j
      else if fj_status j \<in> {Fol_pending, Fol_processing, Fol_failed}
      then j\<lparr>fj_content := [], fj_status := Fol_cancelled, fj_next_retry_at := None, fj_lease_owner := None,
        fj_lease_expires_at := None, fj_cancel_reason := Some (purge_reason p False)\<rparr>
      else j\<lparr>fj_content := []\<rparr>)"

definition crisis_due :: "purge \<Rightarrow> crisis_row \<Rightarrow> bool" where
  "crisis_due p r \<longleftrightarrow> pu_fenced p \<or> cr_expires_at r \<le> pu_now p"

definition wipe_crisis :: "purge \<Rightarrow> crisis_row \<Rightarrow> crisis_row" where
  "wipe_crisis p r =
     (if crisis_due p r
      then r\<lparr>cr_content_plaintext := None, cr_matched_keyword := None, cr_cleared_at := first_time (pu_now p) (cr_cleared_at r)\<rparr>
      else r)"

text \<open>A memory job is cancelled with its outcome staged and its turn marked.\<close>

definition source_due :: "purge \<Rightarrow> turn_row list \<Rightarrow> memory_job \<Rightarrow> bool" where
  "source_due p ts j =
     (case find (\<lambda>t. tn_id t = mj_turn_id j) ts of None \<Rightarrow> False | Some t \<Rightarrow> due_at (pu_now p) (tn_effective_text_expires_at t))"

definition purge_memory_job :: "purge \<Rightarrow> turn_row list \<Rightarrow> memory_job \<Rightarrow> event list \<times> database \<Rightarrow> event list \<times> database" where
  "purge_memory_job p ts j acc =
     (let src = source_due p ts j; j' = wipe_memory_job p src j; db1 = put_memory_job j' (snd acc) in
      if job_due p (mj_created_at j) src \<and> open_status (mj_status j) then
        (fst acc @ [cancel_event ''memory'' (purge_reason p src)],
         stage (outcome_events j' (Some (purge_reason p src)))
           (case find (\<lambda>t. tn_id t = mj_turn_id j) ts of
              None \<Rightarrow> db1
            | Some t0 \<Rightarrow>
                (case get_turn (tn_id t0) db1 of
                   None \<Rightarrow> db1
                 | Some t \<Rightarrow> if tn_memory_status t \<noteq> Mem_success then put_turn (t\<lparr>tn_memory_status := Mem_cancelled\<rparr>) db1 else db1)))
      else (fst acc, db1))"

definition memory_changes :: "purge \<Rightarrow> turn_row list \<Rightarrow> memory_job \<Rightarrow> change list" where
  "memory_changes p ts j = report ''voice_memory_job'' (mj_id j)
     (cleared [(''extraction_snapshot'', job_due p (mj_created_at j) (source_due p ts j) \<and> mj_extraction_snapshot j \<noteq> None)])"

definition post_events :: "purge \<Rightarrow> postprocess_job \<Rightarrow> event list" where
  "post_events p j = (if pj_status j \<noteq> pj_status (wipe_post_job p j) then [cancel_event ''postprocess'' (purge_reason p False)] else [])"

definition followup_purge_events :: "purge \<Rightarrow> followup_job \<Rightarrow> event list" where
  "followup_purge_events p j =
     (if fj_status j \<noteq> fj_status (wipe_followup p j)
      then [cancel_event ''followup'' (purge_reason p False), ev ''voice.followup.cancel'' [(''reason'', purge_reason p False)] 1] else [])"

definition followup_changes :: "purge \<Rightarrow> followup_job \<Rightarrow> change list" where
  "followup_changes p j = report ''voice_followup_job'' (fj_id j)
     (cleared [(''content'', job_due p (fj_created_at j) False \<and> fj_content j \<noteq> [])])"

definition crisis_changes :: "purge \<Rightarrow> crisis_row \<Rightarrow> change list" where
  "crisis_changes p r = report ''voice_crisis_record'' (cr_id r)
     (cleared [(''content_plaintext'', crisis_due p r \<and> cr_content_plaintext r \<noteq> None),
               (''matched_keyword'', crisis_due p r \<and> cr_matched_keyword r \<noteq> None)])"

text \<open>The call's own row: the reasoning, and all the rest when an administrator deletes it.\<close>

definition reasoning_due :: "purge \<Rightarrow> voice_call \<Rightarrow> bool" where
  "reasoning_due p c \<longleftrightarrow> (pu_fenced p \<or> due_at (pu_now p) (vc_reasoning_expires_at c)) \<and> vc_summary_reasoning c \<noteq> None"

definition wipe_reasoning :: "purge \<Rightarrow> voice_call \<Rightarrow> voice_call" where
  "wipe_reasoning p c = (if reasoning_due p c then c\<lparr>vc_summary_reasoning := None\<rparr> else c)"

definition delete_row :: "datetime \<Rightarrow> int \<Rightarrow> voice_call \<Rightarrow> voice_call" where
  "delete_row now admin c =
     c\<lparr>vc_sort_seq := None, vc_call_summary := None, vc_summary_reasoning := None, vc_unfinished_topics := None,
       vc_user_emotion := None, vc_assistant_emotion := None,
       vc_deleted_at := first_time now (vc_deleted_at c),
       vc_deleted_by := (if vc_deleted_at c = None then Some admin else vc_deleted_by c)\<rparr>"

definition delete_changes :: "voice_call \<Rightarrow> change list" where
  "delete_changes c = report ''voice_call'' (vc_id c)
     (cleared [(''sort_seq'', vc_sort_seq c \<noteq> None), (''call_summary'', vc_call_summary c \<noteq> None),
        (''summary_reasoning'', vc_summary_reasoning c \<noteq> None), (''unfinished_topics'', vc_unfinished_topics c \<noteq> None),
        (''user_emotion'', vc_user_emotion c \<noteq> None), (''assistant_emotion'', vc_assistant_emotion c \<noteq> None)])"

record purge_report =
  pr_call :: string
  pr_changed :: "change list"
  pr_cache :: bool

definition map_if :: "('a \<Rightarrow> bool) \<Rightarrow> ('a \<Rightarrow> 'a) \<Rightarrow> 'a list \<Rightarrow> 'a list" where
  "map_if P f xs = map (\<lambda>x. if P x then f x else x) xs"

definition of_call :: "('r \<Rightarrow> string) \<Rightarrow> ('r \<Rightarrow> int) \<Rightarrow> string \<Rightarrow> 'r list \<Rightarrow> 'r list" where
  "of_call key i cid rows = sort_key i (filter (\<lambda>r. key r = cid) rows)"

definition purge_of :: "datetime \<Rightarrow> voice_call \<Rightarrow> purge" where
  "purge_of now c = \<lparr>pu_now = now, pu_fenced = fenced_call c, pu_call_expired = due_at now (vc_transcript_expires_at c),
     pu_generated_due = due_at now (vc_generated_text_expires_at c), pu_days = job_days c\<rparr>"

definition cache_due :: "purge \<Rightarrow> turn_row list \<Rightarrow> bool" where
  "cache_due p ts \<longleftrightarrow> pu_call_expired p \<or> pu_fenced p \<or> list_ex (text_due p) ts"

text \<open>The rows of the call, wiped.\<close>

definition wipe_rows :: "purge \<Rightarrow> string \<Rightarrow> database \<Rightarrow> event list \<times> database" where
  "wipe_rows p cid db =
     (let ts = of_call tn_call_id tn_id cid (db_turns db);
          db1 = db\<lparr>db_turns := map_if (\<lambda>t. tn_call_id t = cid) (wipe_turn p) (db_turns db)\<rparr>;
          (evs, db2) = fold (purge_memory_job p ts) (of_call mj_call_id mj_id cid (db_memory_jobs db)) ([], db1) in
      (evs @ concat (map (post_events p) (of_call pj_call_id pj_id cid (db_post_jobs db)))
         @ concat (map (followup_purge_events p) (of_call fj_call_id fj_id cid (db_followups db))),
       db2\<lparr>db_post_jobs := map_if (\<lambda>j. pj_call_id j = cid) (wipe_post_job p) (db_post_jobs db2),
           db_followups := map_if (\<lambda>j. fj_call_id j = cid) (wipe_followup p) (db_followups db2),
           db_crises := map_if (\<lambda>r. cr_call_id r = cid) (wipe_crisis p) (db_crises db2)\<rparr>))"

definition wipe_changes :: "purge \<Rightarrow> string \<Rightarrow> voice_call \<Rightarrow> database \<Rightarrow> change list" where
  "wipe_changes p cid c db =
     (let ts = of_call tn_call_id tn_id cid (db_turns db) in
      concat (map (turn_changes p) ts)
      @ (if reasoning_due p c then [(''voice_call'', vc_id c, [''summary_reasoning''])] else [])
      @ concat (map (memory_changes p ts) (of_call mj_call_id mj_id cid (db_memory_jobs db)))
      @ concat (map (followup_changes p) (of_call fj_call_id fj_id cid (db_followups db)))
      @ concat (map (crisis_changes p) (of_call cr_call_id cr_id cid (db_crises db))))"

text \<open>The transaction of \<open>_purge_call\<close>: \<open>admin\<close> is the administrator who deletes, \<open>None\<close> for the expiry scan.\<close>

definition purge_tx ::
  "datetime \<Rightarrow> int option \<Rightarrow> bool \<Rightarrow> string \<Rightarrow> database \<Rightarrow> (purge_report \<times> event list \<times> database) res" where
  "purge_tx now admin cache_ok cid db =
     (case get_call cid db of
          None \<Rightarrow>
            if admin \<noteq> None then Inl (ConfigError ''VOICE_CALL_NOT_FOUND'' 404)
            else Inr (\<lparr>pr_call = cid, pr_changed = [], pr_cache = False\<rparr>, [], db)
        | Some c0 \<Rightarrow>
            let was_fenced = (vc_deletion_fence_at c0 \<noteq> None);
                (cancelled, db0) = (if admin \<noteq> None then stage_deletion_fence now cid db else (0, db));
                fence_events = (if admin = None then []
                  else [ev ''voice.retention.fence'' [(''result'', if was_fenced then ''existing'' else ''set'')] 1]
                    @ (if cancelled \<noteq> 0 then [ev ''voice.retention.cancel''
                         [(''kind'', ''memory''), (''reason'', ''deletion_fence'')] cancelled] else []));
                c = (case get_call cid db0 of None \<Rightarrow> c0 | Some c \<Rightarrow> c);
                p = purge_of now c;
                c1 = wipe_reasoning p c;
                (evs, db1) = wipe_rows p cid db0;
                c2 = (case admin of None \<Rightarrow> c1 | Some a \<Rightarrow> delete_row now a c1);
                changes = wipe_changes p cid c db0 @ (if admin = None then [] else delete_changes c1);
                cache = cache_due p (of_call tn_call_id tn_id cid (db_turns db0)) in
            if cache \<and> \<not> cache_ok then Inl TimeoutError
            else Inr (\<lparr>pr_call = cid, pr_changed = changes, pr_cache = cache\<rparr>,
              fence_events @ evs
              @ (if reasoning_due p c \<and> \<not> pu_fenced p then [ev ''voice.summary.reasoning_expiry'' [] 1] else [])
              @ (if admin = None then [] else [ev ''voice.retention.single_call_delete''
                   [(''result'', if vc_deleted_at c0 \<noteq> None then ''repeated'' else ''deleted'')] 1]),
              commit_flush (put_call c2 db1)))"

text \<open>The expiry scan looks first, without locks, whether anything is due.\<close>

definition purge_call ::
  "datetime \<Rightarrow> int option \<Rightarrow> bool \<Rightarrow> string \<Rightarrow> database \<Rightarrow> (purge_report \<times> event list \<times> database) res" where
  "purge_call now admin cache_ok cid db =
     (if admin = None \<and> \<not> has_due_content now cid db
      then Inr (\<lparr>pr_call = cid, pr_changed = [], pr_cache = False\<rparr>, [], db)
      else purge_tx now admin cache_ok cid db)"

definition delete_call ::
  "datetime \<Rightarrow> string \<Rightarrow> int \<Rightarrow> bool \<Rightarrow> string \<Rightarrow> database \<Rightarrow> (purge_report \<times> event list \<times> database) res" where
  "delete_call now role admin cache_ok cid db =
     (if role \<noteq> ''super_admin'' then Inl (ConfigError ''VOICE_DELETE_FORBIDDEN'' 403)
      else if \<not> (1 \<le> length cid \<and> length cid \<le> 64) then Inl (ConfigError ''VOICE_CALL_INVALID'' 422)
      else purge_call now (Some admin) cache_ok cid db)"

section \<open>Pages\<close>

definition page_ok :: "int \<Rightarrow> int \<Rightarrow> bool" where
  "page_ok after limit \<longleftrightarrow> 0 \<le> after \<and> 1 \<le> limit \<and> limit \<le> 100"

definition page :: "('r \<Rightarrow> int) \<Rightarrow> int \<Rightarrow> int \<Rightarrow> 'r list \<Rightarrow> 'r list" where
  "page i after limit rows = take (nat limit) (sort_key i (filter (\<lambda>r. i r > after) rows))"

definition next_cursor :: "int list \<Rightarrow> int option" where
  "next_cursor ids = (if ids = [] then None else Some (last ids))"

text \<open>The calls of a page in turn. A failure leaves the calls before it purged.\<close>

fun purge_each :: "datetime \<Rightarrow> (string \<Rightarrow> bool) \<Rightarrow> string list \<Rightarrow> database \<Rightarrow> (purge_report list res) \<times> database" where
  "purge_each now cache_ok [] db = (Inr [], db)"
| "purge_each now cache_ok (cid # cids) db =
     (case purge_call now None (cache_ok cid) cid db of
        Inl x \<Rightarrow> (Inl x, db)
      | Inr (r, evs, db') \<Rightarrow>
          (case purge_each now cache_ok cids db' of (res, db'') \<Rightarrow> (map_sum id ((#) r) res, db'')))"

record contents_page =
  cp_candidates :: "int list"
  cp_reports :: "purge_report list"
  cp_next :: "int option"

definition purge_contents ::
  "datetime \<Rightarrow> (string \<Rightarrow> bool) \<Rightarrow> int \<Rightarrow> int \<Rightarrow> database \<Rightarrow> contents_page res \<times> database" where
  "purge_contents now cache_ok after limit db =
     (if \<not> page_ok after limit then (Inl (ValueError ''invalid_retention_page''), db)
      else let cs = page vc_id after limit (db_calls db) in
        (case purge_each now cache_ok (map vc_call_id cs) db of
           (Inl x, db') \<Rightarrow> (Inl x, db')
         | (Inr rs, db') \<Rightarrow>
             (Inr \<lparr>cp_candidates = map vc_id cs, cp_reports = rs, cp_next = next_cursor (map vc_id cs)\<rparr>, db')))"

text \<open>Replay records: the candidates are read before the locks, so their deadline is checked again on the
  rows as they are then (\<open>locked\<close>).\<close>

definition purge_replays ::
  "datetime \<Rightarrow> int \<Rightarrow> int \<Rightarrow> idempotency_row list \<Rightarrow> database \<Rightarrow> (int list \<times> int list \<times> int option \<times> database) res" where
  "purge_replays now after limit read db =
     (if \<not> page_ok after limit then Inl (ValueError ''invalid_retention_page'')
      else
        let ids = map im_id (page im_id after limit (filter (\<lambda>r. im_replay_expires_at r \<le> now) read)) in
        if ids = [] then Inr ([], [], None, db)
        else
          let gone = sort_key id (map im_id (filter (\<lambda>r. im_id r \<in> set ids \<and> im_replay_expires_at r \<le> now) (db_idempotency db))) in
          Inr (ids, gone, Some (last ids),
            commit_flush (db\<lparr>db_idempotency := filter (\<lambda>r. im_id r \<notin> set gone) (db_idempotency db)\<rparr>)))"

section \<open>What a purge does to the rows\<close>

text \<open>A turn without the status of its memory job, which is all a purge of jobs changes in it.\<close>

definition strip :: "turn_row \<Rightarrow> turn_row" where
  "strip t = t\<lparr>tn_memory_status := Mem_skipped\<rparr>"

definition same_turns :: "database \<Rightarrow> database \<Rightarrow> bool" where
  "same_turns a b \<longleftrightarrow> map strip (db_turns b) = map strip (db_turns a)"

lemma strip_id: "tn_id (strip t) = tn_id t"
  by (simp add: strip_def)

lemma same_turns_ids: "same_turns a b \<Longrightarrow> map tn_id (db_turns b) = map tn_id (db_turns a)"
proof -
  assume "same_turns a b"
  then have "map tn_id (map strip (db_turns b)) = map tn_id (map strip (db_turns a))" by (simp add: same_turns_def)
  then show ?thesis by (simp add: strip_id comp_def)
qed

lemma same_turns_status:
  assumes "distinct (map tn_id (db_turns db))" "get_turn i db = Some t"
  shows "same_turns db (put_turn (t\<lparr>tn_memory_status := m\<rparr>) db)"
  using assms map_row_put_other [of tn_id "db_turns db" t "t\<lparr>tn_memory_status := m\<rparr>" strip]
  by (auto simp: same_turns_def put_turn_def strip_def get_turn_def dest: row_find_key)

lemma same_turns_trans: "same_turns a b \<Longrightarrow> same_turns b c \<Longrightarrow> same_turns a c"
  by (simp add: same_turns_def)

lemma same_turns_cong: "db_turns c = db_turns b \<Longrightarrow> same_turns a b \<Longrightarrow> same_turns a c"
  by (simp add: same_turns_def)

text \<open>The tables a purge of jobs leaves alone.\<close>

definition other_tables :: "database \<Rightarrow> _" where
  "other_tables db = (db_calls db, db_traces db, db_ledger db, db_accounts db, db_growth db, db_levels db, db_relationships db,
     db_post_jobs db, db_followups db, db_crises db, db_idempotency db)"

lemma other_tables_frame [simp]:
  "other_tables (put_turn t db) = other_tables db" "other_tables (put_memory_job j db) = other_tables db"
  "other_tables (stage evs db) = other_tables db" "other_tables (commit_flush db) = other_tables db"
  by (simp_all add: other_tables_def put_turn_def put_memory_job_def stage_def commit_flush_def)

lemma fence_job_turns:
  assumes "distinct (map tn_id (db_turns db))"
  shows "same_turns db (fence_job j db)" "other_tables (fence_job j db) = other_tables db"
proof -
  have "same_turns db (put_turn (t\<lparr>tn_memory_status := Mem_cancelled\<rparr>) (put_memory_job j' db))"
    if "get_turn (mj_turn_id j) db = Some t" for t j'
    by (rule same_turns_cong [OF _ same_turns_status [OF assms that]]) (simp add: put_turn_def put_memory_job_def)
  then show "same_turns db (fence_job j db)"
    by (auto simp: fence_job_def Let_def same_turns_def put_memory_job_def stage_def split: option.split)
  show "other_tables (fence_job j db) = other_tables db" by (simp add: fence_job_def Let_def split: option.split)
qed

lemma fold_fence_turns:
  "distinct (map tn_id (db_turns db)) \<Longrightarrow> same_turns db (fold fence_job js db) \<and> other_tables (fold fence_job js db) = other_tables db"
proof (induction js arbitrary: db)
  case (Cons j js)
  note f = fence_job_turns [OF Cons.prems, of j]
  have d: "distinct (map tn_id (db_turns (fence_job j db)))" using Cons.prems same_turns_ids [OF f(1)] by simp
  show ?case using Cons.IH [OF d] f same_turns_trans [OF f(1)] by simp
qed (simp add: same_turns_def)

lemma purge_job_step:
  assumes d: "distinct (map tn_id (db_turns (snd acc)))"
  shows "same_turns (snd acc) (snd (purge_memory_job p ts j acc))"
    "other_tables (snd (purge_memory_job p ts j acc)) = other_tables (snd acc)"
    "db_memory_jobs (snd (purge_memory_job p ts j acc)) = row_put mj_id (wipe_memory_job p (source_due p ts j) j) (db_memory_jobs (snd acc))"
proof -
  have st: "same_turns (snd acc) (put_turn (t\<lparr>tn_memory_status := Mem_cancelled\<rparr>) (put_memory_job j' (snd acc)))"
    if "get_turn i (snd acc) = Some t" for t i j'
    by (rule same_turns_cong [OF _ same_turns_status [OF d that]]) (simp add: put_turn_def put_memory_job_def)
  show "same_turns (snd acc) (snd (purge_memory_job p ts j acc))"
    using st by (auto simp: purge_memory_job_def Let_def same_turns_def split: option.split)
  show "other_tables (snd (purge_memory_job p ts j acc)) = other_tables (snd acc)"
    by (simp add: purge_memory_job_def Let_def split: option.split)
  show "db_memory_jobs (snd (purge_memory_job p ts j acc)) =
      row_put mj_id (wipe_memory_job p (source_due p ts j) j) (db_memory_jobs (snd acc))"
    by (simp add: purge_memory_job_def Let_def put_memory_job_def put_turn_def stage_def split: option.split)
qed

lemma wipe_job_id [simp]: "mj_id (wipe_memory_job p src j) = mj_id j" "mj_call_id (wipe_memory_job p src j) = mj_call_id j"
  by (simp_all add: wipe_memory_job_def)

lemma fold_purge_jobs:
  assumes "distinct (map tn_id (db_turns (snd acc)))" "distinct (map mj_id js)"
  shows "same_turns (snd acc) (snd (fold (purge_memory_job p ts) js acc)) \<and>
    other_tables (snd (fold (purge_memory_job p ts) js acc)) = other_tables (snd acc) \<and>
    db_memory_jobs (snd (fold (purge_memory_job p ts) js acc)) =
      map (\<lambda>x. case find (\<lambda>j. mj_id j = mj_id x) js of None \<Rightarrow> x | Some j \<Rightarrow> wipe_memory_job p (source_due p ts j) j)
        (db_memory_jobs (snd acc))"
  using assms
proof (induction js arbitrary: acc)
  case Nil
  then show ?case by (simp add: same_turns_def)
next
  case (Cons j js)
  note st = purge_job_step [OF Cons.prems(1), of p ts j]
  have d: "distinct (map tn_id (db_turns (snd (purge_memory_job p ts j acc))))"
    using Cons.prems(1) same_turns_ids [OF st(1)] by simp
  have n: "find (\<lambda>k. mj_id k = mj_id j) js = None"
    using Cons.prems(2) unfolding find_None_iff by (metis distinct.simps(2) image_eqI list.map(2) list.set_map)
  note ih = Cons.IH [OF d]
  show ?case using ih Cons.prems(2) st same_turns_trans [OF st(1)] n
    by (auto simp: row_put_def intro!: map_cong split: option.split)
qed

lemma of_call_find:
  assumes "distinct (map mj_id rows)" "x \<in> set rows"
  shows "find (\<lambda>j. mj_id j = mj_id x) (of_call mj_call_id mj_id cid rows) = (if mj_call_id x = cid then Some x else None)"
proof (cases "find (\<lambda>j. mj_id j = mj_id x) (of_call mj_call_id mj_id cid rows)")
  case None
  then show ?thesis using assms(2) by (auto simp: find_None_iff of_call_def)
next
  case (Some j)
  then have j: "j \<in> set rows" "mj_id j = mj_id x" "mj_call_id j = cid" by (auto simp: of_call_def dest: find_Some_mem)
  then have "j = x" using assms by (auto simp: distinct_map dest: inj_onD)
  then show ?thesis using Some j by simp
qed

lemma wipe_rows_tables:
  assumes "distinct (map tn_id (db_turns db))" "distinct (map mj_id (db_memory_jobs db))" "wipe_rows p cid db = (evs, db')"
  shows "map strip (db_turns db') = map strip (map_if (\<lambda>t. tn_call_id t = cid) (wipe_turn p) (db_turns db))"
    "db_memory_jobs db' = map_if (\<lambda>j. mj_call_id j = cid)
       (\<lambda>j. wipe_memory_job p (source_due p (of_call tn_call_id tn_id cid (db_turns db)) j) j) (db_memory_jobs db)"
    "db_post_jobs db' = map_if (\<lambda>j. pj_call_id j = cid) (wipe_post_job p) (db_post_jobs db)"
    "db_followups db' = map_if (\<lambda>j. fj_call_id j = cid) (wipe_followup p) (db_followups db)"
    "db_crises db' = map_if (\<lambda>r. cr_call_id r = cid) (wipe_crisis p) (db_crises db)"
    "db_calls db' = db_calls db" "db_traces db' = db_traces db" "db_ledger db' = db_ledger db" "db_accounts db' = db_accounts db"
    "db_growth db' = db_growth db"
proof -
  define ts where "ts = of_call tn_call_id tn_id cid (db_turns db)"
  define db1 where "db1 = db\<lparr>db_turns := map_if (\<lambda>t. tn_call_id t = cid) (wipe_turn p) (db_turns db)\<rparr>"
  define js where "js = of_call mj_call_id mj_id cid (db_memory_jobs db)"
  obtain e2 db2 where f: "fold (purge_memory_job p ts) js ([], db1) = (e2, db2)" by fastforce
  have e: "db' = db2\<lparr>db_post_jobs := map_if (\<lambda>j. pj_call_id j = cid) (wipe_post_job p) (db_post_jobs db2),
           db_followups := map_if (\<lambda>j. fj_call_id j = cid) (wipe_followup p) (db_followups db2),
           db_crises := map_if (\<lambda>r. cr_call_id r = cid) (wipe_crisis p) (db_crises db2)\<rparr>"
    using assms(3) f by (auto simp: wipe_rows_def Let_def ts_def [symmetric] db1_def [symmetric] js_def [symmetric])
  have "map tn_id (db_turns db1) = map tn_id (db_turns db)"
    by (simp add: db1_def map_if_def comp_def wipe_turn_def Let_def)
  then have d1: "distinct (map tn_id (db_turns (snd ([] :: event list, db1))))" using assms(1) by simp
  have dj: "distinct (map mj_id js)"
    using assms(2) by (simp add: js_def of_call_def distinct_map distinct_filter distinct_sort inj_on_def)
  note F = fold_purge_jobs [OF d1 dj, of p ts, unfolded f snd_conv]
  show "map strip (db_turns db') = map strip (map_if (\<lambda>t. tn_call_id t = cid) (wipe_turn p) (db_turns db))"
    using F by (simp add: e same_turns_def db1_def)
  have "db_memory_jobs db2 = map_if (\<lambda>j. mj_call_id j = cid) (\<lambda>j. wipe_memory_job p (source_due p ts j) j) (db_memory_jobs db)"
    using F of_call_find [OF assms(2)] by (auto simp: map_if_def db1_def js_def intro!: map_cong)
  then show "db_memory_jobs db' = map_if (\<lambda>j. mj_call_id j = cid)
       (\<lambda>j. wipe_memory_job p (source_due p (of_call tn_call_id tn_id cid (db_turns db)) j) j) (db_memory_jobs db)"
    by (simp add: e ts_def)
  have o: "other_tables db2 = other_tables db" using F by (simp add: db1_def other_tables_def)
  then show "db_post_jobs db' = map_if (\<lambda>j. pj_call_id j = cid) (wipe_post_job p) (db_post_jobs db)"
    "db_followups db' = map_if (\<lambda>j. fj_call_id j = cid) (wipe_followup p) (db_followups db)"
    "db_crises db' = map_if (\<lambda>r. cr_call_id r = cid) (wipe_crisis p) (db_crises db)"
    "db_calls db' = db_calls db" "db_traces db' = db_traces db" "db_ledger db' = db_ledger db" "db_accounts db' = db_accounts db"
    "db_growth db' = db_growth db"
    by (simp_all add: e other_tables_def)
qed

section \<open>Deleting a call\<close>

definition texts :: "turn_row \<Rightarrow> string \<times> pystr option \<times> pystr option \<times> pystr option" where
  "texts t = (tn_call_id t, tn_user_text_final t, tn_assistant_text_effective t, tn_assistant_text_generated t)"

definition no_text :: "string \<Rightarrow> string \<times> pystr option \<times> pystr option \<times> pystr option \<Rightarrow> bool" where
  "no_text cid x = (case x of (c, u, e, g) \<Rightarrow> c = cid \<longrightarrow> u = None \<and> e = None \<and> g = None)"

text \<open>Nothing of the content of a call is left, and none of its jobs is open.\<close>

definition rows_gone :: "string \<Rightarrow> database \<Rightarrow> bool" where
  "rows_gone cid db \<longleftrightarrow> list_all (no_text cid) (map texts (db_turns db)) \<and>
     list_all (\<lambda>j. mj_call_id j = cid \<longrightarrow> mj_extraction_snapshot j = None \<and> \<not> open_status (mj_status j)) (db_memory_jobs db) \<and>
     list_all (\<lambda>j. pj_call_id j = cid \<longrightarrow> pj_status j \<notin> {Post_pending, Post_processing, Post_failed}) (db_post_jobs db) \<and>
     list_all (\<lambda>j. fj_call_id j = cid \<longrightarrow> fj_content j = [] \<and> fj_status j \<notin> {Fol_pending, Fol_processing, Fol_failed}) (db_followups db) \<and>
     list_all (\<lambda>r. cr_call_id r = cid \<longrightarrow> cr_content_plaintext r = None \<and> cr_matched_keyword r = None) (db_crises db)"

definition call_gone :: "voice_call \<Rightarrow> bool" where
  "call_gone c \<longleftrightarrow> vc_sort_seq c = None \<and> vc_call_summary c = None \<and> vc_summary_reasoning c = None \<and>
     vc_unfinished_topics c = None \<and> vc_user_emotion c = None \<and> vc_assistant_emotion c = None \<and>
     vc_deleted_at c \<noteq> None \<and> vc_deletion_fence_at c \<noteq> None"

definition other_calls :: "string \<Rightarrow> database \<Rightarrow> _" where
  "other_calls cid db = (filter (\<lambda>x. fst x \<noteq> cid) (map texts (db_turns db)), filter (\<lambda>j. mj_call_id j \<noteq> cid) (db_memory_jobs db),
     filter (\<lambda>j. pj_call_id j \<noteq> cid) (db_post_jobs db), filter (\<lambda>j. fj_call_id j \<noteq> cid) (db_followups db),
     filter (\<lambda>r. cr_call_id r \<noteq> cid) (db_crises db), filter (\<lambda>c. vc_call_id c \<noteq> cid) (db_calls db),
     db_traces db, db_ledger db, db_accounts db, db_growth db)"

lemma texts_strip: "texts (strip t) = texts t"
  by (simp add: texts_def strip_def)

lemma map_texts_strip: "map strip xs = map strip ys \<Longrightarrow> map texts xs = map texts ys"
proof -
  assume "map strip xs = map strip ys"
  then have "map texts (map strip xs) = map texts (map strip ys)" by simp
  then show ?thesis by (simp add: comp_def texts_strip)
qed

lemma filter_map_if: "(\<And>x. P x \<Longrightarrow> Q (f x) = Q x) \<Longrightarrow> (\<And>x. P x \<Longrightarrow> \<not> Q x) \<Longrightarrow> filter Q (map_if P f xs) = filter Q xs"
  by (induction xs) (auto simp: map_if_def)

lemma list_all_map_if: "(\<And>x. P x \<Longrightarrow> Q (f x)) \<Longrightarrow> (\<And>x. \<not> P x \<Longrightarrow> Q x) \<Longrightarrow> list_all Q (map_if P f xs)"
  by (induction xs) (auto simp: map_if_def)

lemma wipe_ids [simp]:
  "tn_call_id (wipe_turn p t) = tn_call_id t" "pj_call_id (wipe_post_job p j) = pj_call_id j"
  "fj_call_id (wipe_followup p k) = fj_call_id k" "cr_call_id (wipe_crisis p r) = cr_call_id r"
  by (simp_all add: wipe_turn_def Let_def wipe_post_job_def wipe_followup_def wipe_crisis_def)

lemma wipe_rows_gone:
  assumes "distinct (map tn_id (db_turns db))" "distinct (map mj_id (db_memory_jobs db))" "wipe_rows p cid db = (evs, db')" "pu_fenced p"
  shows "rows_gone cid db'"
    "filter (\<lambda>x. fst x \<noteq> cid) (map texts (db_turns db')) = filter (\<lambda>x. fst x \<noteq> cid) (map texts (db_turns db))"
    "filter (\<lambda>j. mj_call_id j \<noteq> cid) (db_memory_jobs db') = filter (\<lambda>j. mj_call_id j \<noteq> cid) (db_memory_jobs db)"
    "filter (\<lambda>j. pj_call_id j \<noteq> cid) (db_post_jobs db') = filter (\<lambda>j. pj_call_id j \<noteq> cid) (db_post_jobs db)"
    "filter (\<lambda>j. fj_call_id j \<noteq> cid) (db_followups db') = filter (\<lambda>j. fj_call_id j \<noteq> cid) (db_followups db)"
    "filter (\<lambda>r. cr_call_id r \<noteq> cid) (db_crises db') = filter (\<lambda>r. cr_call_id r \<noteq> cid) (db_crises db)"
proof -
  note T = wipe_rows_tables [OF assms(1-3)]
  note tx = map_texts_strip [OF T(1)]
  have "list_all (no_text cid) (map texts (map_if (\<lambda>t. tn_call_id t = cid) (wipe_turn p) xs))" for xs
    using assms(4) by (induction xs) (auto simp: map_if_def no_text_def texts_def wipe_turn_def text_due_def tail_due_def Let_def)
  moreover have "list_all (\<lambda>j. mj_call_id j = cid \<longrightarrow> mj_extraction_snapshot j = None \<and> \<not> open_status (mj_status j)) (db_memory_jobs db')"
    unfolding T(2) using assms(4)
    by (intro list_all_map_if) (auto simp: wipe_memory_job_def job_due_def, simp add: open_status_def)
  moreover have "list_all (\<lambda>j. pj_call_id j = cid \<longrightarrow> pj_status j \<notin> {Post_pending, Post_processing, Post_failed}) (db_post_jobs db')"
    unfolding T(3) using assms(4) by (intro list_all_map_if) (auto simp: wipe_post_job_def job_due_def split: if_splits)
  moreover have "list_all (\<lambda>j. fj_call_id j = cid \<longrightarrow> fj_content j = [] \<and> fj_status j \<notin> {Fol_pending, Fol_processing, Fol_failed}) (db_followups db')"
    unfolding T(4) using assms(4) by (intro list_all_map_if) (auto simp: wipe_followup_def job_due_def split: if_splits)
  moreover have "list_all (\<lambda>r. cr_call_id r = cid \<longrightarrow> cr_content_plaintext r = None \<and> cr_matched_keyword r = None) (db_crises db')"
    unfolding T(5) using assms(4) by (intro list_all_map_if) (auto simp: wipe_crisis_def crisis_due_def)
  ultimately show "rows_gone cid db'" using tx by (simp add: rows_gone_def)
  have "filter (\<lambda>x. fst x \<noteq> cid) (map texts (map_if (\<lambda>t. tn_call_id t = cid) (wipe_turn p) xs)) = filter (\<lambda>x. fst x \<noteq> cid) (map texts xs)" for xs
    by (induction xs) (auto simp: map_if_def texts_def)
  then show "filter (\<lambda>x. fst x \<noteq> cid) (map texts (db_turns db')) = filter (\<lambda>x. fst x \<noteq> cid) (map texts (db_turns db))"
    using tx by simp
  show "filter (\<lambda>j. mj_call_id j \<noteq> cid) (db_memory_jobs db') = filter (\<lambda>j. mj_call_id j \<noteq> cid) (db_memory_jobs db)"
    "filter (\<lambda>j. pj_call_id j \<noteq> cid) (db_post_jobs db') = filter (\<lambda>j. pj_call_id j \<noteq> cid) (db_post_jobs db)"
    "filter (\<lambda>j. fj_call_id j \<noteq> cid) (db_followups db') = filter (\<lambda>j. fj_call_id j \<noteq> cid) (db_followups db)"
    "filter (\<lambda>r. cr_call_id r \<noteq> cid) (db_crises db') = filter (\<lambda>r. cr_call_id r \<noteq> cid) (db_crises db)"
    unfolding T by (intro filter_map_if; simp)+
qed

lemma filter_put_call:
  assumes "vc_call_id x = cid"
  shows "filter (\<lambda>c. vc_call_id c \<noteq> cid) (db_calls (put_call x db)) = filter (\<lambda>c. vc_call_id c \<noteq> cid) (db_calls db)"
proof -
  have "filter (\<lambda>c. vc_call_id c \<noteq> cid) (row_put vc_call_id x rows) = filter (\<lambda>c. vc_call_id c \<noteq> cid) rows" for rows
    using assms by (induction rows) (auto simp: row_put_def)
  then show ?thesis by (simp add: put_call_def)
qed

text \<open>The fence of a deletion, which comes first.\<close>

lemma fence_step:
  assumes inv: "mem_inv db" and c: "get_call cid db = Some c0" and d: "distinct (map tn_id (db_turns db))"
    and f: "stage_deletion_fence now cid db = (n, db0)"
  shows "\<exists>c. get_call cid db0 = Some c \<and> vc_deletion_fence_at c \<noteq> None \<and>
      c = c0\<lparr>vc_deletion_fence_at := vc_deletion_fence_at c\<rparr>"
    "mem_inv db0" "distinct (map tn_id (db_turns db0))" "map texts (db_turns db0) = map texts (db_turns db)"
    "db_memory_jobs db0 = map (fence_row cid) (db_memory_jobs db)"
    "filter (\<lambda>c. vc_call_id c \<noteq> cid) (db_calls db0) = filter (\<lambda>c. vc_call_id c \<noteq> cid) (db_calls db)"
    "db_post_jobs db0 = db_post_jobs db" "db_followups db0 = db_followups db" "db_crises db0 = db_crises db"
    "db_traces db0 = db_traces db" "db_ledger db0 = db_ledger db" "db_accounts db0 = db_accounts db" "db_growth db0 = db_growth db"
proof -
  define js where "js = sort_key mj_id (filter (\<lambda>j. mj_call_id j = cid) (db_memory_jobs db))"
  define r where "r = (if vc_deletion_fence_at c0 = None then c0\<lparr>vc_deletion_fence_at := Some now\<rparr> else c0)"
  define d0 where "d0 = (if vc_deletion_fence_at c0 = None then put_call (c0\<lparr>vc_deletion_fence_at := Some now\<rparr>) db else db)"
  have eq: "db0 = fold fence_job js d0" using f c by (simp add: stage_deletion_fence_def Let_def js_def d0_def)
  have d1: "distinct (map tn_id (db_turns d0))" using d by (simp add: d0_def)
  note F = fold_fence_turns [OF d1, of js, folded eq]
  note T = stage_fence_tables [OF inv c, of now, unfolded f snd_conv]
  have id: "vc_call_id c0 = cid" using c by (rule calls.get_key)
  have "get_call cid d0 = Some r"
    using c calls.get_put_same [OF c, of "c0\<lparr>vc_deletion_fence_at := Some now\<rparr>"] id by (simp add: d0_def r_def)
  then have "get_call cid db0 = Some r" by (simp add: eq get_call_def)
  moreover have "vc_deletion_fence_at r \<noteq> None" "r = c0\<lparr>vc_deletion_fence_at := vc_deletion_fence_at r\<rparr>"
    by (simp_all add: r_def)
  ultimately show "\<exists>c. get_call cid db0 = Some c \<and> vc_deletion_fence_at c \<noteq> None \<and>
      c = c0\<lparr>vc_deletion_fence_at := vc_deletion_fence_at c\<rparr>" by blast
  show "mem_inv db0" using fence_inv [OF inv, of now cid] f by simp
  show "distinct (map tn_id (db_turns db0))" using d1 same_turns_ids [OF conjunct1 [OF F]] by simp
  show "map texts (db_turns db0) = map texts (db_turns db)"
    using F map_texts_strip [of "db_turns db0" "db_turns d0"] by (simp add: same_turns_def d0_def)
  show "db_memory_jobs db0 = map (fence_row cid) (db_memory_jobs db)" by (rule T(1))
  show "filter (\<lambda>c. vc_call_id c \<noteq> cid) (db_calls db0) = filter (\<lambda>c. vc_call_id c \<noteq> cid) (db_calls db)"
    using id filter_put_call [of "c0\<lparr>vc_deletion_fence_at := Some now\<rparr>" cid] by (simp add: eq d0_def)
  have "other_tables db0 = other_tables d0" using F by simp
  then show "db_post_jobs db0 = db_post_jobs db" "db_followups db0 = db_followups db" "db_crises db0 = db_crises db"
    "db_traces db0 = db_traces db" "db_ledger db0 = db_ledger db" "db_accounts db0 = db_accounts db" "db_growth db0 = db_growth db"
    by (simp_all add: other_tables_def d0_def put_call_def)
qed

text \<open>The parts of a successful deletion.\<close>

lemma purge_tx_admin:
  assumes t: "purge_tx now (Some a) ok cid db = Inr (rep, evs, db')" and inv: "mem_inv db" and d: "distinct (map tn_id (db_turns db))"
  obtains c0 n db0 c p e1 db1 where "get_call cid db = Some c0" "stage_deletion_fence now cid db = (n, db0)"
    "get_call cid db0 = Some c" "vc_deletion_fence_at c \<noteq> None" "c = c0\<lparr>vc_deletion_fence_at := vc_deletion_fence_at c\<rparr>"
    "p = purge_of now c" "pu_fenced p" "wipe_rows p cid db0 = (e1, db1)"
    "db' = commit_flush (put_call (delete_row now a (wipe_reasoning p c)) db1)"
    "pr_changed rep = wipe_changes p cid c db0 @ delete_changes (wipe_reasoning p c)" "pr_cache rep"
proof -
  obtain c0 where c0: "get_call cid db = Some c0" using t by (auto simp: purge_tx_def split: option.splits)
  obtain n db0 where f: "stage_deletion_fence now cid db = (n, db0)" by fastforce
  obtain c where c: "get_call cid db0 = Some c" "vc_deletion_fence_at c \<noteq> None" "c = c0\<lparr>vc_deletion_fence_at := vc_deletion_fence_at c\<rparr>"
    using fence_step(1) [OF inv c0 d f] by blast
  have p: "pu_fenced (purge_of now c)" using c(2) by (simp add: purge_of_def fenced_call_def)
  then have ca: "cache_due (purge_of now c) ts" for ts by (simp add: cache_due_def)
  obtain e1 db1 where w: "wipe_rows (purge_of now c) cid db0 = (e1, db1)" by fastforce
  show ?thesis
    by (rule that [OF c0 f c refl p w]) (use t c0 f c(1) w ca in \<open>auto simp: purge_tx_def Let_def split: if_splits\<close>)
qed

lemma delete_row_gone:
  assumes "vc_deletion_fence_at c \<noteq> None"
  shows "call_gone (delete_row now a (wipe_reasoning p c))" "vc_call_id (delete_row now a (wipe_reasoning p c)) = vc_call_id c"
  using assms by (auto simp: call_gone_def delete_row_def wipe_reasoning_def first_time_def split: option.split)

lemma deletion_wipes:
  assumes t: "purge_tx now (Some a) ok cid db = Inr (rep, evs, db')" and inv: "mem_inv db" and d: "distinct (map tn_id (db_turns db))"
  shows "rows_gone cid db'" "\<exists>c. get_call cid db' = Some c \<and> call_gone c" "pr_cache rep" "other_calls cid db' = other_calls cid db"
proof -
  obtain c0 n db0 c p e1 db1 where x: "get_call cid db = Some c0" "stage_deletion_fence now cid db = (n, db0)"
    "get_call cid db0 = Some c" "vc_deletion_fence_at c \<noteq> None" "c = c0\<lparr>vc_deletion_fence_at := vc_deletion_fence_at c\<rparr>"
    "p = purge_of now c" "pu_fenced p" "wipe_rows p cid db0 = (e1, db1)"
    "db' = commit_flush (put_call (delete_row now a (wipe_reasoning p c)) db1)" "pr_cache rep"
    by (rule purge_tx_admin [OF t inv d])
  note F = fence_step [OF inv x(1) d x(2)]
  note W = wipe_rows_gone [OF F(3) mem_invD(1) [OF F(2)] x(8,7)]
  note T = wipe_rows_tables [OF F(3) mem_invD(1) [OF F(2)] x(8)]
  define r where "r = delete_row now a (wipe_reasoning p c)"
  have id: "vc_call_id c = cid" using x(3) by (rule calls.get_key)
  have rid: "vc_call_id r = cid" unfolding r_def using delete_row_gone(2) [OF x(4)] id by simp
  have g1: "get_call cid db1 = Some c" using x(3) T(6) by (simp add: get_call_def)
  have e: "db' = commit_flush (put_call r db1)" using x(9) by (simp add: r_def)
  show "pr_cache rep" by (rule x(10))
  show "rows_gone cid db'" using W(1)
    by (simp add: e rows_gone_def) (simp add: put_call_def commit_flush_def)
  have "get_call cid db' = Some r" using calls.get_put_same [OF g1 rid] by (simp add: e)
  then show "\<exists>c. get_call cid db' = Some c \<and> call_gone c" using delete_row_gone(1) [OF x(4)] by (auto simp: r_def)
  have j: "filter (\<lambda>j. mj_call_id j \<noteq> cid) (map (fence_row cid) xs) = filter (\<lambda>j. mj_call_id j \<noteq> cid) xs" for xs
    by (induction xs) (auto simp: fence_row_def cancel_job_def)
  have cl: "filter (\<lambda>c. vc_call_id c \<noteq> cid) (db_calls db') = filter (\<lambda>c. vc_call_id c \<noteq> cid) (db_calls db)"
    using filter_put_call [OF rid, of db1] T(6) F(6) by (simp add: e)
  have "db_turns db' = db_turns db1" "db_memory_jobs db' = db_memory_jobs db1" "db_post_jobs db' = db_post_jobs db1"
    "db_followups db' = db_followups db1" "db_crises db' = db_crises db1" "db_traces db' = db_traces db1"
    "db_ledger db' = db_ledger db1" "db_accounts db' = db_accounts db1" "db_growth db' = db_growth db1"
    by (simp_all add: e put_call_def commit_flush_def)
  then show "other_calls cid db' = other_calls cid db"
    unfolding other_calls_def cl by (simp only: W(2-6) T(7-10) F(4,5,7-13) j)
qed

lemma report_none: "(\<And>x. x \<in> set fs \<Longrightarrow> \<not> snd x) \<Longrightarrow> report t i (cleared fs) = []"
  by (simp add: report_def cleared_def filter_empty_conv)

lemma gone_no_changes:
  assumes "rows_gone cid db" "call_gone c" "vc_deletion_fence_at c \<noteq> None"
  shows "wipe_changes (purge_of now c) cid c db = []" "delete_changes (wipe_reasoning p c) = []"
proof -
  have "turn_changes q t = []" if "t \<in> set (of_call tn_call_id tn_id cid (db_turns db))" for q t
    using that assms(1) unfolding turn_changes_def
    by (intro report_none) (auto simp: of_call_def rows_gone_def list_all_iff no_text_def texts_def)
  moreover have "memory_changes q ts j = []" if "j \<in> set (of_call mj_call_id mj_id cid (db_memory_jobs db))" for q ts j
    using that assms(1) unfolding memory_changes_def by (intro report_none) (auto simp: of_call_def rows_gone_def list_all_iff)
  moreover have "followup_changes q j = []" if "j \<in> set (of_call fj_call_id fj_id cid (db_followups db))" for q j
    using that assms(1) unfolding followup_changes_def by (intro report_none) (auto simp: of_call_def rows_gone_def list_all_iff)
  moreover have "crisis_changes q r = []" if "r \<in> set (of_call cr_call_id cr_id cid (db_crises db))" for q r
    using that assms(1) unfolding crisis_changes_def by (intro report_none) (auto simp: of_call_def rows_gone_def list_all_iff)
  moreover have "\<not> reasoning_due q c" for q using assms(2) by (simp add: reasoning_due_def call_gone_def)
  ultimately show "wipe_changes (purge_of now c) cid c db = []" by (simp add: wipe_changes_def Let_def)
  have w: "wipe_reasoning p c = c" using assms(2) by (simp add: wipe_reasoning_def reasoning_due_def call_gone_def)
  show "delete_changes (wipe_reasoning p c) = []"
    using assms(2) w unfolding delete_changes_def by (intro report_none) (auto simp: call_gone_def)
qed

lemma fold_fence_closed: "list_all (\<lambda>j. \<not> open_status (mj_status j)) js \<Longrightarrow> fold fence_job js db = db"
  by (induction js) (simp_all add: fence_job_def)

lemma fence_again:
  assumes "get_call cid db = Some c" "vc_deletion_fence_at c \<noteq> None" "rows_gone cid db"
  shows "stage_deletion_fence now cid db = (0, db)"
proof -
  let ?js = "sort_key mj_id (filter (\<lambda>j. mj_call_id j = cid) (db_memory_jobs db))"
  have "list_all (\<lambda>j. \<not> open_status (mj_status j)) ?js" using assms(3) by (auto simp: rows_gone_def list_all_iff)
  then show ?thesis using assms(1,2) fold_fence_closed [of ?js db]
    by (auto simp: stage_deletion_fence_def Let_def filter_empty_conv list_all_iff)
qed

lemma delete_again:
  assumes "get_call cid db = Some c" "call_gone c" "rows_gone cid db" "purge_tx now (Some a) ok cid db = Inr (rep, evs, db')"
  shows "pr_changed rep = []"
proof -
  have f: "vc_deletion_fence_at c \<noteq> None" using assms(2) by (simp add: call_gone_def)
  have "pr_changed rep = wipe_changes (purge_of now c) cid c db @ delete_changes (wipe_reasoning (purge_of now c) c)"
    using assms(4) fence_again [OF assms(1) f assms(3), of now] assms(1)
    by (auto simp: purge_tx_def Let_def split: prod.splits if_splits)
  then show ?thesis using gone_no_changes [OF assms(3,2) f] by simp
qed

text \<open>C37: Deleting a call removes every content of it, whatever state its jobs are in. After a successful deletion
  no text of a turn, no extraction snapshot, no follow-up content, no crisis text or keyword and none of the
  summaries of the call is left, its jobs are all closed, the fence and the deletion are recorded and the
  session cache was deleted; the texts of the turns, the other contents and the jobs of every other call, and the
  traces, usage, balances and growth of all calls, are untouched. Only a super administrator can do it, and deleting
  again reports nothing changed.\<close>

theorem deletion_complete:
  assumes "delete_call now role a ok cid db = Inr (rep, evs, db')" "mem_inv db" "distinct (map tn_id (db_turns db))"
  shows "role = ''super_admin'' \<and> rows_gone cid db' \<and> (\<exists>c. get_call cid db' = Some c \<and> call_gone c) \<and> pr_cache rep \<and>
    other_calls cid db' = other_calls cid db \<and>
    (\<forall>now2 a2 ok2 r2. delete_call now2 role a2 ok2 cid db' = Inr r2 \<longrightarrow> pr_changed (fst r2) = [])"
proof -
  have r: "role = ''super_admin''" and t: "purge_tx now (Some a) ok cid db = Inr (rep, evs, db')"
    using assms(1) by (auto simp: delete_call_def purge_call_def split: if_splits)
  note D = deletion_wipes [OF t assms(2,3)]
  obtain c where c: "get_call cid db' = Some c" "call_gone c" using D(2) by blast
  have "pr_changed (fst r2) = []" if "delete_call now2 role a2 ok2 cid db' = Inr r2" for now2 a2 ok2 r2
  proof -
    have "purge_tx now2 (Some a2) ok2 cid db' = Inr r2"
      using that by (auto simp: delete_call_def purge_call_def split: if_splits)
    then show ?thesis using delete_again [OF c D(1)] by (cases r2) auto
  qed
  then show ?thesis using r D by blast
qed

definition spoken_db :: database where
  "spoken_db = empty_db\<lparr>db_calls := [(blank_call 1 ''c'' 7 Ended)\<lparr>vc_call_summary := Some (asc ''s'')\<rparr>],
     db_turns := [demo_turn]\<rparr>"

theorem deletion_complete_witness:
  "\<exists>rep evs db'. delete_call 9 ''super_admin'' 3 True ''c'' spoken_db = Inr (rep, evs, db') \<and> rows_gone ''c'' db' \<and> pr_cache rep"
proof -
  have inv: "mem_inv spoken_db"
    by (simp add: mem_inv_def spoken_db_def empty_db_def uk_voice_memory_job_def uk_voice_memory_trace_def)
  have d: "distinct (map tn_id (db_turns spoken_db))" by (simp add: spoken_db_def)
  obtain rep evs db' where r: "delete_call 9 ''super_admin'' 3 True ''c'' spoken_db = Inr (rep, evs, db')"
  proof -
    have "\<exists>x. delete_call 9 ''super_admin'' 3 True ''c'' spoken_db = Inr x"
      by (simp add: delete_call_def purge_call_def purge_tx_def spoken_db_def get_call_def row_find_def Let_def split: prod.split)
    then show ?thesis using that by (metis prod.exhaust)
  qed
  from deletion_complete [OF r inv d] r show ?thesis by blast
qed

section \<open>The expiry scan\<close>

lemma map_if_id: "(\<And>x. x \<in> set xs \<Longrightarrow> P x \<Longrightarrow> f x = x) \<Longrightarrow> map_if P f xs = xs"
  by (induction xs) (auto simp: map_if_def)

lemma put_job_self:
  "distinct (map mj_id (db_memory_jobs db)) \<Longrightarrow> j \<in> set (db_memory_jobs db) \<Longrightarrow> put_memory_job j db = db"
  using map_row_put_other [of mj_id "db_memory_jobs db" j j id] by (simp add: put_memory_job_def)

lemma put_call_self:
  assumes "uk_voice_call (db_calls db)" "get_call cid db = Some c"
  shows "put_call c db = db"
proof -
  have "c \<in> set (db_calls db)" using row_find_key [OF assms(2) [unfolded get_call_def]] by simp
  then show ?thesis using map_row_put_other [of vc_call_id "db_calls db" c c id] assms(1)
    by (simp add: put_call_def uk_voice_call_def)
qed

lemma fold_purge_none:
  assumes "distinct (map mj_id (db_memory_jobs db))"
    "\<And>j. j \<in> set js \<Longrightarrow> j \<in> set (db_memory_jobs db) \<and> \<not> job_due p (mj_created_at j) (source_due p ts j)"
  shows "fold (purge_memory_job p ts) js (evs, db) = (evs, db)"
  using assms(2)
proof (induction js)
  case (Cons j js)
  then have "purge_memory_job p ts j (evs, db) = (evs, db)"
    using put_job_self [OF assms(1)] by (simp add: purge_memory_job_def Let_def wipe_memory_job_def)
  then show ?case using Cons by simp
qed simp

lemma nothing_due_flags:
  assumes "\<not> has_due_content now cid db" "get_call cid db = Some c"
  shows "\<not> pu_fenced (purge_of now c)" "\<not> pu_call_expired (purge_of now c)" "\<not> pu_generated_due (purge_of now c)"
    "\<not> reasoning_due (purge_of now c) c"
    "t \<in> set (db_turns db) \<Longrightarrow> tn_call_id t = cid \<Longrightarrow> \<not> text_due (purge_of now c) t \<and> \<not> tail_due (purge_of now c) t"
    "j \<in> set (db_memory_jobs db) \<Longrightarrow> mj_call_id j = cid \<Longrightarrow> \<not> job_due (purge_of now c) (mj_created_at j) False"
    "k \<in> set (db_post_jobs db) \<Longrightarrow> pj_call_id k = cid \<Longrightarrow> \<not> job_due (purge_of now c) (pj_created_at k) False"
    "l \<in> set (db_followups db) \<Longrightarrow> fj_call_id l = cid \<Longrightarrow> \<not> job_due (purge_of now c) (fj_created_at l) False"
    "r \<in> set (db_crises db) \<Longrightarrow> cr_call_id r = cid \<Longrightarrow> \<not> crisis_due (purge_of now c) r"
  using assms
  by (auto simp: has_due_content_def purge_of_def text_due_def tail_due_def job_due_def crisis_due_def reasoning_due_def list_ex_iff Let_def)

text \<open>C38: Looking first is enough. When the unlocked look finds nothing due in a call, the purge transaction would
  change no row, stage no event and report no change, so skipping it loses nothing: whatever the scan leaves
  alone is not due.\<close>

theorem scan_skips_only_undue:
  assumes "\<not> has_due_content now cid db" "get_call cid db = Some c" "distinct (map mj_id (db_memory_jobs db))"
    "uk_voice_call (db_calls db)" "db_staged db = []"
  shows "purge_tx now None ok cid db = Inr (\<lparr>pr_call = cid, pr_changed = [], pr_cache = False\<rparr>, [], db)"
proof -
  define p where "p = purge_of now c"
  define ts where "ts = of_call tn_call_id tn_id cid (db_turns db)"
  note N = nothing_due_flags [OF assms(1,2), folded p_def]
  have t: "\<not> text_due p t \<and> \<not> tail_due p t" if "t \<in> set ts" for t using that N(5) by (auto simp: ts_def of_call_def)
  have src: "\<not> source_due p ts j" for j
    using t by (auto simp: source_due_def text_due_def split: option.splits dest: find_Some_mem)
  have js: "fold (purge_memory_job p ts) (of_call mj_call_id mj_id cid (db_memory_jobs db)) ([], db) = ([], db)"
    by (rule fold_purge_none [OF assms(3)]) (use N(6) src in \<open>auto simp: of_call_def\<close>)
  have "map_if (\<lambda>t. tn_call_id t = cid) (wipe_turn p) (db_turns db) = db_turns db"
    by (rule map_if_id) (use N(5) in \<open>auto simp: wipe_turn_def Let_def\<close>)
  moreover have "map_if (\<lambda>j. pj_call_id j = cid) (wipe_post_job p) (db_post_jobs db) = db_post_jobs db"
    by (rule map_if_id) (use N(7) in \<open>auto simp: wipe_post_job_def\<close>)
  moreover have "map_if (\<lambda>j. fj_call_id j = cid) (wipe_followup p) (db_followups db) = db_followups db"
    by (rule map_if_id) (use N(8) in \<open>auto simp: wipe_followup_def\<close>)
  moreover have "map_if (\<lambda>r. cr_call_id r = cid) (wipe_crisis p) (db_crises db) = db_crises db"
    by (rule map_if_id) (use N(9) in \<open>auto simp: wipe_crisis_def\<close>)
  moreover have "concat (map (post_events p) (of_call pj_call_id pj_id cid (db_post_jobs db))) = []"
    using N(7) by (auto simp: of_call_def post_events_def wipe_post_job_def)
  moreover have "concat (map (followup_purge_events p) (of_call fj_call_id fj_id cid (db_followups db))) = []"
    using N(8) by (auto simp: of_call_def followup_purge_events_def wipe_followup_def)
  ultimately have w: "wipe_rows p cid db = ([], db)" using js by (simp add: wipe_rows_def Let_def ts_def)
  have "turn_changes p t = []" if "t \<in> set ts" for t
    using t [OF that] unfolding turn_changes_def by (intro report_none) auto
  moreover have "memory_changes p ts j = []" if "j \<in> set (of_call mj_call_id mj_id cid (db_memory_jobs db))" for j
    using that N(6) src unfolding memory_changes_def by (intro report_none) (auto simp: of_call_def)
  moreover have "followup_changes p j = []" if "j \<in> set (of_call fj_call_id fj_id cid (db_followups db))" for j
    using that N(8) unfolding followup_changes_def by (intro report_none) (auto simp: of_call_def)
  moreover have "crisis_changes p r = []" if "r \<in> set (of_call cr_call_id cr_id cid (db_crises db))" for r
    using that N(9) unfolding crisis_changes_def by (intro report_none) (auto simp: of_call_def)
  ultimately have ch: "wipe_changes p cid c db = []"
    using N(4) by (simp add: wipe_changes_def Let_def ts_def [symmetric])
  have ca: "\<not> cache_due p ts" using N(1,2) t by (auto simp: cache_due_def list_ex_iff)
  have wr: "wipe_reasoning p c = c" using N(4) by (simp add: wipe_reasoning_def)
  have pc: "put_call c db = db" by (rule put_call_self [OF assms(4,2)])
  show ?thesis using w ch ca wr pc N(4) assms(2,5)
    by (simp add: purge_tx_def Let_def p_def [symmetric] ts_def [symmetric] commit_flush_def)
qed

theorem scan_skips_only_undue_witness:
  "\<exists>rep. purge_tx 9 None False ''c'' spoken_db = Inr (rep, [], spoken_db) \<and> pr_changed rep = []"
proof -
  have "\<not> has_due_content 9 ''c'' spoken_db" "get_call ''c'' spoken_db = Some ((blank_call 1 ''c'' 7 Ended)\<lparr>vc_call_summary := Some (asc ''s'')\<rparr>)"
    "distinct (map mj_id (db_memory_jobs spoken_db))" "uk_voice_call (db_calls spoken_db)" "db_staged spoken_db = []"
    by (simp_all add: has_due_content_def spoken_db_def empty_db_def get_call_def row_find_def uk_voice_call_def fenced_call_def
        due_at_def blank_call_def demo_turn_def)
  from scan_skips_only_undue [OF this, of False] show ?thesis by simp
qed

end
