(* ===== verification/DispatchClaims.thy ===== *)
theory DispatchClaims
  imports Dispatch Retention
begin

text \<open>
  What the dispatch of follow-ups guarantees under every interleaving of its transactions with each other,
  with the purge of contents and with any change of the calls, turns and chats: at most one message for a
  call, a job's message for ever, and the conditions under which a message is sent.
\<close>

section \<open>Actions\<close>

datatype dispatch_action =
    D_claim datetime string int int
  | D_send dispatch_env string int
  | D_fail datetime string int string bool int
  | D_account string int
  | D_counted datetime string int bool int
  | D_purge purge int
  | D_world "voice_call list" "turn_row list" "chat list"

text \<open>\<open>D_world\<close> is whatever the rest of the program does to the tables that the dispatch only reads.\<close>

fun dispatch_do :: "dispatch_action \<Rightarrow> dispatch \<Rightarrow> dispatch" where
  "dispatch_do (D_claim now owner lease jid) st = snd (claim_followup now owner lease jid st)"
| "dispatch_do (D_send env owner jid) st = (case dispatch_job env owner jid st of Inl x \<Rightarrow> st | Inr (out, st') \<Rightarrow> st')"
| "dispatch_do (D_fail now owner jid reason retryable retry) st = snd (fail_followup now owner jid reason retryable retry st)"
| "dispatch_do (D_account owner jid) st = snd (account_start owner jid st)"
| "dispatch_do (D_counted now owner jid success retry) st = snd (account_finish now owner jid success retry st)"
| "dispatch_do (D_purge p jid) st =
     (case get_followup jid (dp_db st) of None \<Rightarrow> st | Some j \<Rightarrow> put_job (wipe_followup p j) st)"
| "dispatch_do (D_world calls turns chats) st = st\<lparr>dp_db := (dp_db st)\<lparr>db_calls := calls, db_turns := turns\<rparr>, dp_chats := chats\<rparr>"

definition dispatch_run :: "dispatch_action list \<Rightarrow> dispatch \<Rightarrow> dispatch" where
  "dispatch_run acts st = fold dispatch_do acts st"

section \<open>The invariant\<close>

abbreviation jobs_of :: "dispatch \<Rightarrow> followup_job list" where
  "jobs_of st \<equiv> db_followups (dp_db st)"

text \<open>A job with a message is never open again; a sent job has one. (A job whose call has vanished fails even
  when its message was sent.)\<close>

definition consistent :: "followup_job \<Rightarrow> bool" where
  "consistent j \<longleftrightarrow> (fj_agent_message_id j \<noteq> None \<longrightarrow> fj_status j \<notin> {Fol_pending, Fol_processing}) \<and>
     (fj_status j = Fol_sent \<longrightarrow> fj_agent_message_id j \<noteq> None)"

definition dispatch_inv :: "dispatch \<Rightarrow> bool" where
  "dispatch_inv st \<longleftrightarrow> distinct (map fj_id (jobs_of st)) \<and> distinct (map ms_id (dp_messages st)) \<and>
     (\<forall>j \<in> set (jobs_of st). consistent j) \<and>
     (\<forall>j \<in> set (jobs_of st). \<forall>i. fj_agent_message_id j = Some i \<longrightarrow> i \<in> set (map ms_id (dp_messages st))) \<and>
     (\<forall>j \<in> set (jobs_of st). \<forall>k \<in> set (jobs_of st). fj_agent_message_id j \<noteq> None \<and> fj_agent_message_id k \<noteq> None \<and>
        (fj_call_id j = fj_call_id k \<or> fj_agent_message_id j = fj_agent_message_id k) \<longrightarrow> fj_id j = fj_id k) \<and>
     (\<forall>m \<in> set (dp_messages st). \<exists>j \<in> set (jobs_of st). fj_agent_message_id j = Some (ms_id m) \<and> fj_user_id j = ms_user m)"

definition same_core :: "followup_job \<Rightarrow> followup_job \<Rightarrow> bool" where
  "same_core j j' \<longleftrightarrow> fj_id j' = fj_id j \<and> fj_call_id j' = fj_call_id j \<and> fj_user_id j' = fj_user_id j \<and>
     fj_agent_message_id j' = fj_agent_message_id j"

definition kept :: "dispatch \<Rightarrow> dispatch \<Rightarrow> bool" where
  "kept st st' \<longleftrightarrow> (\<exists>ms. dp_messages st' = dp_messages st @ ms) \<and>
     (\<forall>j \<in> set (jobs_of st). fj_agent_message_id j \<noteq> None \<longrightarrow>
        (\<exists>j' \<in> set (jobs_of st'). same_core j j'))"

lemma get_followup_mem: "get_followup i db = Some j \<Longrightarrow> j \<in> set (db_followups db) \<and> fj_id j = i"
  unfolding get_followup_def by (drule row_find_key) simp

lemma put_job_simps [simp]:
  "jobs_of (put_job j st) = row_put fj_id j (jobs_of st)" "dp_messages (put_job j st) = dp_messages st"
  "dp_chats (put_job j st) = dp_chats st"
  by (simp_all add: put_job_def put_followup_def)

lemma row_put_cases:
  assumes "distinct (map fj_id rows)" "j \<in> set rows" "fj_id j' = fj_id j"
  shows "x \<in> set (row_put fj_id j' rows) \<longleftrightarrow> x = j' \<or> x \<in> set rows \<and> x \<noteq> j"
proof -
  have "fj_id y = fj_id j \<longleftrightarrow> y = j" if "y \<in> set rows" for y
    using that assms(1,2) by (auto simp: distinct_map dest: inj_onD)
  then show ?thesis using assms(2,3) unfolding row_put_def by force
qed

text \<open>A change of a job that keeps its message keeps the invariant.\<close>

lemma job_change:
  assumes inv: "dispatch_inv st" and j: "j \<in> set (jobs_of st)" and s: "same_core j j'"
    and f: "consistent j'"
    and st': "dp_messages st' = dp_messages st" "jobs_of st' = row_put fj_id j' (jobs_of st)"
  shows "dispatch_inv st'" "kept st st'"
proof -
  have d: "distinct (map fj_id (jobs_of st))" using inv by (simp add: dispatch_inv_def)
  have m: "x \<in> set (jobs_of st') \<longleftrightarrow> x = j' \<or> x \<in> set (jobs_of st) \<and> x \<noteq> j" for x
    unfolding st'(2) by (rule row_put_cases [OF d j]) (use s in \<open>simp add: same_core_def\<close>)
  have c: "fj_id j' = fj_id j" "fj_call_id j' = fj_call_id j" "fj_user_id j' = fj_user_id j" "fj_agent_message_id j' = fj_agent_message_id j"
    using s by (simp_all add: same_core_def)
  show "dispatch_inv st'"
    unfolding dispatch_inv_def
  proof (intro conjI ballI allI impI)
    show "distinct (map fj_id (jobs_of st'))" using d by (simp add: st'(2))
    show "distinct (map ms_id (dp_messages st'))" using inv by (simp add: st'(1) dispatch_inv_def)
    show "consistent x" if "x \<in> set (jobs_of st')" for x
      using that m [of x] f inv by (auto simp: dispatch_inv_def)
    show "i \<in> set (map ms_id (dp_messages st'))" if "x \<in> set (jobs_of st')" "fj_agent_message_id x = Some i" for x i
      using that m [of x] inv j c(4) unfolding st'(1) dispatch_inv_def by auto
    show "fj_id x = fj_id y" if "x \<in> set (jobs_of st')" "y \<in> set (jobs_of st')" "fj_agent_message_id x \<noteq> None \<and> fj_agent_message_id y \<noteq> None \<and>
        (fj_call_id x = fj_call_id y \<or> fj_agent_message_id x = fj_agent_message_id y)" for x y
      using that m [of x] m [of y] inv j c unfolding dispatch_inv_def by metis
    show "\<exists>x \<in> set (jobs_of st'). fj_agent_message_id x = Some (ms_id u) \<and> fj_user_id x = ms_user u" if "u \<in> set (dp_messages st')" for u
      using that inv j c m unfolding st'(1) dispatch_inv_def by metis
  qed
  show "kept st st'" using m s by (auto simp: kept_def st'(1) same_core_def)
qed

lemma kept_refl: "kept st st"
  by (auto simp: kept_def same_core_def)

lemma kept_trans: "kept a b \<Longrightarrow> kept b c \<Longrightarrow> kept a c"
  unfolding kept_def same_core_def by (metis append.assoc)

section \<open>What the dispatching transaction does\<close>

definition sent_as :: "dispatch_env \<Rightarrow> followup_job \<Rightarrow> dispatch \<Rightarrow> dispatch \<Rightarrow> bool" where
  "sent_as env j st st' \<longleftrightarrow> (\<exists>c m.
     get_call (fj_call_id j) (dp_db st) = Some c \<and> dp_messages st' = dp_messages st @ [m] \<and>
     ms_id m = fresh_id (map ms_id (dp_messages st)) \<and> ms_user m = fj_user_id j \<and> ms_content m = fj_content j \<and>
     ms_sort_seq m = next_seq (fj_user_id j) (dp_db st) \<and> ms_created_at m = de_written env \<and> de_written env \<le> fj_latest_due_at j \<and>
     (case vc_transcript_expires_at c of None \<Rightarrow> True | Some e \<Rightarrow> de_written env < e) \<and>
     job_window j (de_written env) = Inr None \<and> de_quota env = Inr True \<and>
     ineligible (de_digest env) (de_staged env) (Some c) j (de_topic env)
       (st\<lparr>dp_db := (dp_db st)\<lparr>db_seq := AList.update (fj_user_id j) (next_seq (fj_user_id j) (dp_db st) + 1) (db_seq (dp_db st))\<rparr>\<rparr>) = Inr None \<and>
     jobs_of st' = row_put fj_id (j\<lparr>fj_agent_message_id := Some (ms_id m), fj_status := Fol_sent, fj_cancel_reason := None,
       fj_fail_reason := Some ''count_pending'', fj_next_retry_at := None\<rparr>) (jobs_of st))"

lemma cancel_followup_job:
  "\<exists>j'. jobs_of (cancel_followup r j st) = row_put fj_id j' (jobs_of st) \<and> same_core j j' \<and> fj_status j' = Fol_cancelled \<and>
     dp_messages (cancel_followup r j st) = dp_messages st"
  unfolding cancel_followup_def
  by (rule exI [of _ "release (j\<lparr>fj_status := Fol_cancelled, fj_cancel_reason := Some r, fj_fail_reason := None, fj_next_retry_at := None\<rparr>)"])
    (simp add: same_core_def release_def)

definition closed_as :: "followup_job \<Rightarrow> dispatch \<Rightarrow> dispatch \<Rightarrow> bool" where
  "closed_as j st st' \<longleftrightarrow> (\<exists>j'. jobs_of st' = row_put fj_id j' (jobs_of st) \<and> same_core j j' \<and>
     fj_status j' \<in> {Fol_cancelled, Fol_pending} \<and> dp_messages st' = dp_messages st)"

lemma cancel_closed: "jobs_of st2 = jobs_of st \<Longrightarrow> dp_messages st2 = dp_messages st \<Longrightarrow> closed_as j st (cancel_followup r j st2)"
  using cancel_followup_job [of r j st2] unfolding closed_as_def by auto

lemma stage_message_cases:
  assumes "stage_message env call j st = Inr (r, st')"
  shows "case r of Some x \<Rightarrow> jobs_of st' = jobs_of st \<and> dp_messages st' = dp_messages st
    | None \<Rightarrow> (\<exists>c. call = Some c \<and> (get_call (fj_call_id j) (dp_db st) = Some c \<longrightarrow> de_quota env = Inr True \<longrightarrow> sent_as env j st st'))"
proof -
  define n where "n = next_seq (fj_user_id j) (dp_db st)"
  define st1 where "st1 = st\<lparr>dp_db := (dp_db st)\<lparr>db_seq := AList.update (fj_user_id j) (n + 1) (db_seq (dp_db st))\<rparr>\<rparr>"
  have al: "allocate_sort_seq (fj_user_id j) 1 (dp_db st) = Inr ([n], dp_db st1)"
    by (simp add: allocate_sort_seq_def Let_def n_def st1_def)
  have s1: "jobs_of st1 = jobs_of st" "dp_messages st1 = dp_messages st" "st\<lparr>dp_db := dp_db st1\<rparr> = st1" by (simp_all add: st1_def)
  obtain w where w: "ineligible (de_digest env) (de_staged env) call j (de_topic env) st1 = Inr w"
    using assms unfolding stage_message_def al by (auto simp: Let_def s1(3) bindR_Inr_iff)
  show ?thesis
  proof (cases w)
    case (Some x)
    then have "r = Some x" "st' = st1" using assms w unfolding stage_message_def al by (auto simp: Let_def s1(3))
    then show ?thesis by (simp add: s1)
  next
    case None
    obtain c where c: "call = Some c" using w None by (cases call) (auto simp: ineligible_def)
    show ?thesis
    proof (cases r)
      case (Some x)
      then have "st' = st1" using assms w None c unfolding stage_message_def al
        by (auto simp: Let_def s1(3) bindR_Inr_iff split: if_split_asm)
      then show ?thesis by (simp add: s1 Some)
    next
      case rn: None
      let ?m = "new_message (de_written env) j n st1"
      have e: "st' = put_job (j\<lparr>fj_agent_message_id := Some (ms_id ?m), fj_status := Fol_sent, fj_cancel_reason := None,
           fj_fail_reason := Some ''count_pending'', fj_next_retry_at := None\<rparr>) (st1\<lparr>dp_messages := dp_messages st1 @ [?m]\<rparr>)"
        and t: "de_written env \<le> fj_latest_due_at j" "case vc_transcript_expires_at c of None \<Rightarrow> True | Some e \<Rightarrow> de_written env < e"
          "job_window j (de_written env) = Inr None"
        using assms w None c rn unfolding stage_message_def al
        by (auto simp: Let_def s1(3) bindR_Inr_iff split: if_split_asm option.splits)
      have "sent_as env j st st'" if "get_call (fj_call_id j) (dp_db st) = Some c" "de_quota env = Inr True"
        unfolding sent_as_def
        by (rule exI [of _ c], rule exI [of _ ?m])
          (use that e t w None c in \<open>simp add: s1 n_def [symmetric] st1_def [symmetric]\<close>, simp add: new_message_def s1)
      then show ?thesis using rn c by auto
    qed
  qed
qed

lemma send_checked_cases:
  assumes "send_checked env (get_call (fj_call_id j) (dp_db st)) j st = Inr (out, st')"
  shows "out \<noteq> ''sent'' \<and> closed_as j st st' \<or> out = ''sent'' \<and> sent_as env j st st'"
proof -
  let ?call = "get_call (fj_call_id j) (dp_db st)"
  obtain allowed where a: "de_quota env = Inr allowed" using assms by (auto simp: send_checked_def bindR_Inr_iff)
  show ?thesis
  proof (cases allowed)
    case False
    then show ?thesis using assms a cancel_closed [of st st] by (auto simp: send_checked_def)
  next
    case True
    obtain r where r: "ineligible (de_digest env) (de_checked env) ?call j (de_topic env) st = Inr r"
      using assms a True by (auto simp: send_checked_def bindR_Inr_iff split: if_split_asm)
    show ?thesis
    proof (cases r)
      case (Some x)
      then show ?thesis using assms a True r cancel_closed [of st st]
        by (auto simp: send_checked_def bindR_Inr_iff split: if_split_asm)
    next
      case None
      obtain r2 st2 where s: "stage_message env ?call j st = Inr (r2, st2)"
          and e: "(out, st') = (case r2 of Some x \<Rightarrow> (''cancelled'', cancel_followup x j st2) | None \<Rightarrow> (''sent'', st2))"
        using assms a True r None
        by (auto simp: send_checked_def bindR_Inr_iff split: if_split_asm option.split_asm)
      show ?thesis using stage_message_cases [OF s] e a True cancel_closed [of st2 st]
        by (cases r2) auto
    qed
  qed
qed

lemma dispatch_cases:
  assumes "dispatch_job env owner jid st = Inr (out, st')"
  shows "out \<noteq> ''sent'' \<and> st' = st \<or>
    (\<exists>j. get_followup jid (dp_db st) = Some j \<and> fj_status j = Fol_processing \<and> fj_lease_owner j = Some owner \<and>
      (out \<noteq> ''sent'' \<and> closed_as j st st' \<or> out = ''sent'' \<and> sent_as env j st st'))"
proof (cases "get_followup jid (dp_db st)")
  case None
  then show ?thesis using assms by (auto simp: dispatch_job_def)
next
  case (Some j)
  show ?thesis
  proof (cases "fj_status j \<noteq> Fol_processing \<or> fj_lease_owner j \<noteq> Some owner")
    case True
    then show ?thesis using assms Some by (auto simp: dispatch_job_def)
  next
    case False
    have p: "closed_as j st (put_job (release (j\<lparr>fj_status := Fol_pending, fj_next_retry_at := Some t, fj_fail_reason := None\<rparr>)) st)" for t
      unfolding closed_as_def
      by (rule exI [of _ "release (j\<lparr>fj_status := Fol_pending, fj_next_retry_at := Some t, fj_fail_reason := None\<rparr>)"])
        (simp add: same_core_def release_def)
    have "out \<noteq> ''sent'' \<and> closed_as j st st' \<or> out = ''sent'' \<and> sent_as env j st st'"
      using assms Some False p cancel_closed [of st st j] send_checked_cases [of env j st out st']
      by (auto simp: dispatch_job_def Let_def bindR_Inr_iff split: if_split_asm option.split_asm)
    then show ?thesis using Some False by blast
  qed
qed

section \<open>The invariant is kept\<close>

text \<open>What it takes for a job to be eligible.\<close>

lemma ineligible_None:
  assumes "ineligible dg now (Some c) j topic st = Inr None"
  shows "vc_user_id c = fj_user_id j" "vc_deleted_at c = None" "vc_deletion_fence_at c = None" "now \<le> fj_latest_due_at j"
    "nonblank (fj_content j)" "\<not> sent_sibling j (dp_db st)"
    "if fj_content_type j = Missed_explanation then vc_status c = Missed \<and> vc_connected_at c = None else summary_source_ok now c (dp_db st)"
    "\<exists>e. vc_ended_at c = Some e \<and> \<not> chatted_since (fj_user_id j) e (dp_chats st)"
    "case vc_transcript_expires_at c of None \<Rightarrow> True | Some e \<Rightarrow> now < e"
  using assms
  by (auto simp: ineligible_def bindR_Inr_iff split: if_split_asm option.split_asm)

lemma topic_not_continued:
  assumes "ineligible dg now (Some c) j topic st = Inr None" "job_window j now = Inr None" "topic_of now j c (dp_db st) = Some inputs"
  shows "topic = Some (dg inputs, False)"
proof -
  obtain r where r: "topic_reason dg now j c topic (dp_db st) = Inr r" "r = None"
    using assms(1) by (auto simp: ineligible_def bindR_Inr_iff split: if_split_asm option.split_asm)
  then show ?thesis using assms(2,3) by (auto simp: topic_reason_def split: option.split_asm if_split_asm)
qed

lemma sent_inv:
  assumes inv: "dispatch_inv st" and j: "j \<in> set (jobs_of st)" "fj_status j = Fol_processing" and s: "sent_as env j st st'"
  shows "dispatch_inv st'" "kept st st'"
proof -
  obtain c m where y: "dp_messages st' = dp_messages st @ [m]" "ms_id m = fresh_id (map ms_id (dp_messages st))" "ms_user m = fj_user_id j"
      "ineligible (de_digest env) (de_staged env) (Some c) j (de_topic env)
        (st\<lparr>dp_db := (dp_db st)\<lparr>db_seq := AList.update (fj_user_id j) (next_seq (fj_user_id j) (dp_db st) + 1) (db_seq (dp_db st))\<rparr>\<rparr>) = Inr None"
    and jobs: "jobs_of st' = row_put fj_id (j\<lparr>fj_agent_message_id := Some (ms_id m), fj_status := Fol_sent, fj_cancel_reason := None,
       fj_fail_reason := Some ''count_pending'', fj_next_retry_at := None\<rparr>) (jobs_of st)"
    using s unfolding sent_as_def by blast
  note x = y(1-3)
  have sib0: "\<not> sent_sibling j (dp_db st)" using ineligible_None(6) [OF y(4)] by (simp add: sent_sibling_def)
  define j' where "j' = j\<lparr>fj_agent_message_id := Some (ms_id m), fj_status := Fol_sent, fj_cancel_reason := None,
       fj_fail_reason := Some ''count_pending'', fj_next_retry_at := None\<rparr>"
  have j': "fj_id j' = fj_id j" "fj_call_id j' = fj_call_id j" "fj_user_id j' = fj_user_id j" "fj_agent_message_id j' = Some (ms_id m)"
    "fj_status j' = Fol_sent" by (simp_all add: j'_def)
  have d: "distinct (map fj_id (jobs_of st))" using inv by (simp add: dispatch_inv_def)
  have mem: "y \<in> set (jobs_of st') \<longleftrightarrow> y = j' \<or> y \<in> set (jobs_of st) \<and> y \<noteq> j" for y
    unfolding jobs j'_def [symmetric] by (rule row_put_cases [OF d j(1) j'(1)])
  have none: "fj_agent_message_id j = None" using inv j by (auto simp: dispatch_inv_def consistent_def)
  have fresh: "ms_id m \<notin> set (map ms_id (dp_messages st))" unfolding x(2) by (rule fresh_id_fresh)
  have sib: "fj_agent_message_id y = None" if "y \<in> set (jobs_of st)" "y \<noteq> j" "fj_call_id y = fj_call_id j" for y
    using sib0 that j(1) d unfolding sent_sibling_def list_ex_iff by (auto simp: distinct_map dest: inj_onD)
  have old: "fj_agent_message_id y \<noteq> Some (ms_id m)" if "y \<in> set (jobs_of st)" for y
    using that inv fresh unfolding dispatch_inv_def by blast
  show "dispatch_inv st'"
    unfolding dispatch_inv_def
  proof (intro conjI ballI allI impI)
    show "distinct (map fj_id (jobs_of st'))" using d by (simp add: jobs)
    show "distinct (map ms_id (dp_messages st'))" using inv fresh by (simp add: x(1) dispatch_inv_def)
    show "consistent y" if "y \<in> set (jobs_of st')" for y
      using that mem [of y] j' inv by (auto simp: dispatch_inv_def consistent_def)
    show "i \<in> set (map ms_id (dp_messages st'))" if "y \<in> set (jobs_of st')" "fj_agent_message_id y = Some i" for y i
      using that mem [of y] inv j'(4) unfolding x(1) dispatch_inv_def by auto
    show "fj_id y = fj_id z" if "y \<in> set (jobs_of st')" "z \<in> set (jobs_of st')" "fj_agent_message_id y \<noteq> None \<and> fj_agent_message_id z \<noteq> None \<and>
        (fj_call_id y = fj_call_id z \<or> fj_agent_message_id y = fj_agent_message_id z)" for y z
    proof -
      have "y = j' \<and> z = j' \<or> y \<in> set (jobs_of st) \<and> z \<in> set (jobs_of st)"
        using that mem [of y] mem [of z] sib [of y] sib [of z] old [of y] old [of z] j' by auto
      then show ?thesis using that(3) inv unfolding dispatch_inv_def by blast
    qed
    show "\<exists>y \<in> set (jobs_of st'). fj_agent_message_id y = Some (ms_id u) \<and> fj_user_id y = ms_user u" if u: "u \<in> set (dp_messages st')" for u
    proof (cases "u = m")
      case True
      then show ?thesis using mem [of j'] j' x(3) by auto
    next
      case False
      then obtain y where "y \<in> set (jobs_of st)" "fj_agent_message_id y = Some (ms_id u)" "fj_user_id y = ms_user u"
        using u inv unfolding x(1) dispatch_inv_def by auto
      then show ?thesis using mem [of y] none by auto
    qed
  qed
  show "kept st st'" unfolding kept_def
  proof (intro conjI ballI impI)
    show "\<exists>ms. dp_messages st' = dp_messages st @ ms" using x(1) by blast
    show "\<exists>y \<in> set (jobs_of st'). same_core k y" if "k \<in> set (jobs_of st)" "fj_agent_message_id k \<noteq> None" for k
      using that mem [of k] none by (auto simp: same_core_def)
  qed
qed

lemma dispatch_do_inv:
  assumes inv: "dispatch_inv st"
  shows "dispatch_inv (dispatch_do a st) \<and> kept st (dispatch_do a st)"
proof -
  have ch: "dispatch_inv (put_job j' st) \<and> kept st (put_job j' st)"
    if "get_followup i (dp_db st) = Some j" "same_core j j'" "consistent j'" for i j j'
    using job_change [OF inv conjunct1 [OF get_followup_mem [OF that(1)]] that(2), of "put_job j' st"] that(2,3)
    by (simp add: same_core_def)
  have st: "consistent j" if "get_followup i (dp_db st) = Some j" for i j
    using get_followup_mem [OF that] inv unfolding dispatch_inv_def by blast
  note refl = kept_refl [of st]
  show ?thesis
  proof (cases a)
    case (D_claim now owner lease jid)
    show ?thesis
    proof (cases "get_followup jid (dp_db st)")
      case None
      then show ?thesis using D_claim inv refl by (simp add: claim_followup_def)
    next
      case (Some j)
      show ?thesis using D_claim Some inv refl ch [OF Some] st [OF Some]
        by (auto simp: claim_followup_def Let_def same_core_def release_def counting_def consistent_def)
    qed
  next
    case (D_send env owner jid)
    show ?thesis
    proof (cases "dispatch_job env owner jid st")
      case (Inl x)
      then show ?thesis using D_send inv refl by simp
    next
      case (Inr q)
      then obtain out st' where q: "dispatch_job env owner jid st = Inr (out, st')" by (cases q) auto
      have e: "dispatch_do a st = st'" using D_send q by simp
      show ?thesis
      proof (cases "st' = st")
        case True
        then show ?thesis using e inv refl by simp
      next
        case False
        then obtain j where j: "get_followup jid (dp_db st) = Some j" "fj_status j = Fol_processing"
            "closed_as j st st' \<or> sent_as env j st st'" using dispatch_cases [OF q] by blast
        have mj: "j \<in> set (jobs_of st)" using get_followup_mem [OF j(1)] by simp
        from j(3) show ?thesis
        proof
          assume "closed_as j st st'"
          then obtain j' where c: "jobs_of st' = row_put fj_id j' (jobs_of st)" "same_core j j'" "fj_status j' \<in> {Fol_cancelled, Fol_pending}"
              "dp_messages st' = dp_messages st" by (auto simp: closed_as_def)
          have "consistent j'"
            using st [OF j(1)] j(2) c(2,3) by (auto simp: same_core_def consistent_def)
          then show ?thesis using job_change [OF inv mj c(2) _ c(4,1)] e by simp
        next
          assume "sent_as env j st st'"
          then show ?thesis using sent_inv [OF inv mj j(2)] e by simp
        qed
      qed
    qed
  next
    case (D_fail now owner jid reason retryable retry)
    show ?thesis
    proof (cases "get_followup jid (dp_db st)")
      case (Some j)
      show ?thesis using D_fail Some inv refl ch [OF Some] st [OF Some]
        by (auto simp: fail_followup_def Let_def same_core_def release_def consistent_def)
    qed (use D_fail inv refl in \<open>simp add: fail_followup_def\<close>)
  next
    case (D_account owner jid)
    show ?thesis
    proof (cases "get_followup jid (dp_db st)")
      case (Some j)
      show ?thesis using D_account Some inv refl ch [OF Some] st [OF Some]
        by (auto simp: account_start_def same_core_def release_def consistent_def split: option.split)
    qed (use D_account inv refl in \<open>simp add: account_start_def\<close>)
  next
    case (D_counted now owner jid success retry)
    show ?thesis
    proof (cases "get_followup jid (dp_db st)")
      case (Some j)
      show ?thesis using D_counted Some inv refl ch [OF Some] st [OF Some]
        by (auto simp: account_finish_def same_core_def release_def consistent_def)
    qed (use D_counted inv refl in \<open>simp add: account_finish_def\<close>)
  next
    case (D_purge p jid)
    show ?thesis
    proof (cases "get_followup jid (dp_db st)")
      case (Some j)
      have sc: "same_core j (wipe_followup p j)" by (simp add: wipe_followup_def same_core_def)
      have w: "consistent (wipe_followup p j)" using st [OF Some] by (simp add: wipe_followup_def consistent_def)
      from ch [OF Some sc w] show ?thesis by (simp add: D_purge Some)
    qed (use D_purge inv refl in simp)
  next
    case (D_world calls turns chats)
    have e: "jobs_of (dispatch_do a st) = jobs_of st" "dp_messages (dispatch_do a st) = dp_messages st"
      by (simp_all add: D_world)
    show ?thesis using inv refl unfolding dispatch_inv_def kept_def e by blast
  qed
qed

lemma dispatch_run_inv: "dispatch_inv st \<Longrightarrow> dispatch_inv (dispatch_run acts st) \<and> kept st (dispatch_run acts st)"
  unfolding dispatch_run_def
proof (induction acts arbitrary: st)
  case (Cons a acts)
  note st = dispatch_do_inv [OF Cons.prems, of a]
  show ?case using Cons.IH [OF conjunct1 [OF st]] st by (auto intro: kept_trans)
qed (simp add: kept_refl)

section \<open>Correctness\<close>

definition messages_of_call :: "string \<Rightarrow> dispatch \<Rightarrow> message list" where
  "messages_of_call cid st =
     filter (\<lambda>m. list_ex (\<lambda>j. fj_call_id j = cid \<and> fj_agent_message_id j = Some (ms_id m)) (jobs_of st)) (dp_messages st)"

lemma job_of_message:
  assumes inv: "dispatch_inv st" and j: "j \<in> set (jobs_of st)" "fj_agent_message_id j \<noteq> None"
    and k: "k \<in> set (jobs_of st)" "fj_agent_message_id k \<noteq> None"
    and e: "fj_call_id j = fj_call_id k \<or> fj_agent_message_id j = fj_agent_message_id k"
  shows "j = k"
proof -
  have "fj_id j = fj_id k" using inv j k e unfolding dispatch_inv_def by blast
  moreover have "distinct (map fj_id (jobs_of st))" using inv by (simp add: dispatch_inv_def)
  ultimately show ?thesis using j(1) k(1) by (simp add: distinct_map inj_on_def)
qed

lemma one_message:
  assumes "dispatch_inv st"
  shows "length (messages_of_call cid st) \<le> 1"
proof -
  have eq: "m = n" if mn: "m \<in> set (messages_of_call cid st)" "n \<in> set (messages_of_call cid st)" for m n
  proof -
    obtain j where j: "j \<in> set (jobs_of st)" "fj_call_id j = cid" "fj_agent_message_id j = Some (ms_id m)"
      using mn(1) by (auto simp: messages_of_call_def list_ex_iff)
    obtain k where k: "k \<in> set (jobs_of st)" "fj_call_id k = cid" "fj_agent_message_id k = Some (ms_id n)"
      using mn(2) by (auto simp: messages_of_call_def list_ex_iff)
    have "j = k" using job_of_message [OF assms j(1) _ k(1)] j k by simp
    then have "ms_id m = ms_id n" using j k by simp
    moreover have "distinct (map ms_id (dp_messages st))" using assms by (simp add: dispatch_inv_def)
    moreover have "m \<in> set (dp_messages st)" "n \<in> set (dp_messages st)" using mn by (simp_all add: messages_of_call_def)
    ultimately show ?thesis by (simp add: distinct_map inj_on_def)
  qed
  have "distinct (messages_of_call cid st)"
    using assms by (auto simp: messages_of_call_def dispatch_inv_def distinct_map)
  moreover have False if l: "messages_of_call cid st = m # n # ns" "distinct (messages_of_call cid st)" for m n ns
    using eq [of m n] l by simp
  ultimately show ?thesis by (metis One_nat_def le_refl length_0_conv length_Cons list.exhaust list.size(3) zero_le_one)
qed

lemma message_job:
  assumes "dispatch_inv st" "m \<in> set (dp_messages st)"
  shows "\<exists>!j. j \<in> set (jobs_of st) \<and> fj_agent_message_id j = Some (ms_id m) \<and> fj_user_id j = ms_user m"
proof -
  have "\<forall>m \<in> set (dp_messages st). \<exists>j \<in> set (jobs_of st). fj_agent_message_id j = Some (ms_id m) \<and> fj_user_id j = ms_user m"
    using assms(1) by (simp add: dispatch_inv_def)
  then obtain j where j: "j \<in> set (jobs_of st)" "fj_agent_message_id j = Some (ms_id m)" "fj_user_id j = ms_user m"
    using assms(2) by blast
  show ?thesis
  proof (rule ex1I [of _ j])
    show "k = j" if "k \<in> set (jobs_of st) \<and> fj_agent_message_id k = Some (ms_id m) \<and> fj_user_id k = ms_user m" for k
      by (rule job_of_message [OF assms(1) _ _ j(1)]) (simp_all add: that j(2))
  qed (simp add: j)
qed

lemma kept_job:
  assumes "dispatch_inv st'" "kept st st'" "j \<in> set (jobs_of st)" "fj_agent_message_id j \<noteq> None"
  shows "\<exists>j' \<in> set (jobs_of st'). same_core j j' \<and> fj_status j' \<notin> {Fol_pending, Fol_processing}"
proof -
  obtain j' where k: "j' \<in> set (jobs_of st')" "same_core j j'" using assms(2-4) unfolding kept_def by blast
  then have "consistent j'" "fj_agent_message_id j' \<noteq> None" using assms(1,4) by (simp_all add: dispatch_inv_def same_core_def)
  then have "fj_status j' \<notin> {Fol_pending, Fol_processing}" by (simp add: consistent_def)
  with k show ?thesis by blast
qed

text \<open>C35: A call gets at most one follow-up message, under every interleaving of claims, dispatches, failures, counts,
  purges and outside changes of calls, turns and chats, with leases that expire and workers that retry. Messages
  are never changed or withdrawn, each belongs to exactly one job of its user, a job keeps its message for ever
  and a job with a message is never open again, so it is never sent a second time.\<close>

theorem one_message_per_call:
  assumes "dispatch_inv st"
  shows "length (messages_of_call cid (dispatch_run acts st)) \<le> 1 \<and>
    (\<exists>ms. dp_messages (dispatch_run acts st) = dp_messages st @ ms) \<and>
    list_all (\<lambda>m. \<exists>!j. j \<in> set (jobs_of (dispatch_run acts st)) \<and> fj_agent_message_id j = Some (ms_id m) \<and> fj_user_id j = ms_user m)
      (dp_messages (dispatch_run acts st)) \<and>
    list_all (\<lambda>j. fj_agent_message_id j \<noteq> None \<longrightarrow>
        (\<exists>j' \<in> set (jobs_of (dispatch_run acts st)). same_core j j' \<and> fj_status j' \<notin> {Fol_pending, Fol_processing})) (jobs_of st)"
proof -
  let ?s = "dispatch_run acts st"
  have I: "dispatch_inv ?s" and K: "kept st ?s" using dispatch_run_inv [OF assms] by auto
  have ms: "\<exists>ms. dp_messages ?s = dp_messages st @ ms" using K by (simp add: kept_def)
  have jobs: "list_all (\<lambda>j. fj_agent_message_id j \<noteq> None \<longrightarrow>
        (\<exists>j' \<in> set (jobs_of ?s). same_core j j' \<and> fj_status j' \<notin> {Fol_pending, Fol_processing})) (jobs_of st)"
    unfolding list_all_iff using kept_job [OF I K] by blast
  show ?thesis
    by (intro conjI one_message [OF I] ms jobs) (simp add: list_all_iff message_job [OF I])
qed

definition waiting_job :: followup_job where
  "waiting_job = \<lparr>fj_id = 1, fj_call_id = ''c'', fj_user_id = 7, fj_candidate_due_at = 0, fj_due_at = 0, fj_latest_due_at = 9000000000,
     fj_content = asc ''hello'', fj_content_type = Missed_explanation, fj_status = Fol_processing, fj_cancel_reason = None,
     fj_agent_message_id = None, fj_relationship_stage_snapshot = Friend, fj_schedule_config_version = JNull,
     fj_timezone_snapshot = ''Asia/Shanghai'',
     fj_allowed_window_snapshot = JList [JObj [(''start'', JStr (asc ''10:00'')), (''end'', JStr (asc ''21:00''))]],
     fj_jitter_minutes = 0, fj_attempt_count = 1, fj_next_retry_at = None, fj_fail_reason = None, fj_lease_owner = Some ''w'',
     fj_lease_expires_at = Some 8000000000, fj_created_at = 0\<rparr>"

definition waiting_state :: dispatch where
  "waiting_state = \<lparr>dp_db = empty_db\<lparr>db_calls := [(blank_call 1 ''c'' 7 Missed)\<lparr>vc_ended_at := Some 5\<rparr>], db_followups := [waiting_job]\<rparr>,
     dp_messages = [], dp_chats = []\<rparr>"

definition noon_env :: dispatch_env where
  "noon_env = \<lparr>de_first = 7200000000, de_checked = 7200000001, de_staged = 7200000002, de_written = 7200000003, de_quota = Inr True,
     de_topic = None, de_digest = (\<lambda>i. [])\<rparr>"

lemma waiting_inv: "dispatch_inv waiting_state"
  by (simp add: dispatch_inv_def waiting_state_def consistent_def waiting_job_def)

theorem one_message_per_call_witness:
  "length (messages_of_call ''c'' (dispatch_run [D_send noon_env ''w'' 1, D_claim 7300000000 ''v'' 60 1, D_send noon_env ''v'' 1] waiting_state)) \<le> 1"
  using one_message_per_call [OF waiting_inv] by blast

text \<open>C36: A message is sent only when it should be. When the dispatching transaction answers \<open>sent\<close>, exactly one message
  with the job's content and the user's next timeline number was written, at an instant inside the frozen
  window, not after the deadline and before the transcript expired, by the holder of the claim; the quota was
  granted, the call is the user's own, neither fenced nor deleted, its outcome still qualifies, the user has not
  written since it ended, no sibling was sent, and the topic model, when later calls say anything, found the
  topic not continued.\<close>

theorem message_sent_only_when_due:
  assumes "dispatch_job env owner jid st = Inr (''sent'', st')"
  shows "\<exists>j c m e. get_followup jid (dp_db st) = Some j \<and> get_call (fj_call_id j) (dp_db st) = Some c \<and>
    fj_status j = Fol_processing \<and> fj_lease_owner j = Some owner \<and>
    dp_messages st' = dp_messages st @ [m] \<and> ms_content m = fj_content j \<and> nonblank (fj_content j) \<and>
    ms_user m = fj_user_id j \<and> vc_user_id c = fj_user_id j \<and> ms_sort_seq m = next_seq (fj_user_id j) (dp_db st) \<and>
    ms_created_at m \<le> fj_latest_due_at j \<and> job_window j (ms_created_at m) = Inr None \<and>
    (case vc_transcript_expires_at c of None \<Rightarrow> True | Some x \<Rightarrow> ms_created_at m < x) \<and> de_quota env = Inr True \<and>
    vc_deleted_at c = None \<and> vc_deletion_fence_at c = None \<and> vc_ended_at c = Some e \<and>
    \<not> chatted_since (fj_user_id j) e (dp_chats st) \<and> \<not> sent_sibling j (dp_db st) \<and>
    (if fj_content_type j = Missed_explanation then vc_status c = Missed \<and> vc_connected_at c = None
     else summary_source_ok (de_staged env) c (dp_db st)) \<and>
    (case topic_of (de_staged env) j c (dp_db st) of None \<Rightarrow> True
     | Some inputs \<Rightarrow> job_window j (de_staged env) = Inr None \<longrightarrow> de_topic env = Some (de_digest env inputs, False))"
proof -
  obtain j where j: "get_followup jid (dp_db st) = Some j" "fj_status j = Fol_processing" "fj_lease_owner j = Some owner" "sent_as env j st st'"
    using dispatch_cases [OF assms] by blast
  obtain c m where y: "get_call (fj_call_id j) (dp_db st) = Some c" "dp_messages st' = dp_messages st @ [m]" "ms_user m = fj_user_id j"
      "ms_content m = fj_content j" "ms_sort_seq m = next_seq (fj_user_id j) (dp_db st)" "ms_created_at m = de_written env"
      "de_written env \<le> fj_latest_due_at j" "case vc_transcript_expires_at c of None \<Rightarrow> True | Some e \<Rightarrow> de_written env < e"
      "job_window j (de_written env) = Inr None" "de_quota env = Inr True"
      "ineligible (de_digest env) (de_staged env) (Some c) j (de_topic env)
        (st\<lparr>dp_db := (dp_db st)\<lparr>db_seq := AList.update (fj_user_id j) (next_seq (fj_user_id j) (dp_db st) + 1) (db_seq (dp_db st))\<rparr>\<rparr>) = Inr None"
    using j(4) unfolding sent_as_def by blast
  note N = ineligible_None [OF y(11)]
  have n: "vc_user_id c = fj_user_id j" "vc_deleted_at c = None" "vc_deletion_fence_at c = None" "nonblank (fj_content j)"
      "\<not> sent_sibling j (dp_db st)" "if fj_content_type j = Missed_explanation then vc_status c = Missed \<and> vc_connected_at c = None
        else summary_source_ok (de_staged env) c (dp_db st)"
    using N(1-3,5-7) by (auto simp: sent_sibling_def summary_source_ok_def split: if_splits)
  obtain e where e: "vc_ended_at c = Some e" "\<not> chatted_since (fj_user_id j) e (dp_chats st)" using N(8) by auto
  have "case topic_of (de_staged env) j c (dp_db st) of None \<Rightarrow> True
     | Some inputs \<Rightarrow> job_window j (de_staged env) = Inr None \<longrightarrow> de_topic env = Some (de_digest env inputs, False)"
    using topic_not_continued [OF y(11)] by (auto simp: topic_of_def later_texts_def later_call_def split: option.split list.split)
  moreover have "case vc_transcript_expires_at c of None \<Rightarrow> True | Some x \<Rightarrow> ms_created_at m < x"
    using y(8) unfolding y(6) .
  ultimately show ?thesis
    by (intro exI [of _ j] exI [of _ c] exI [of _ m] exI [of _ e]) (use y n e in \<open>simp add: j(1-3)\<close>)
qed

lemma noon_window: "0 \<le> d \<Longrightarrow> d < 10 \<Longrightarrow> job_window waiting_job (7200000000 + d) = Inr None"
  by (simp add: job_window_def waiting_job_def next_window_def window_minutes_def hhmm_minutes_def asc_def digit_value_ascii
      window_at_def sh_date_def sh_midnight_def us_day_def sh_offset_def us_minute_def Let_def)

lemma noon_eligible:
  assumes "0 \<le> d" "d < 10" "dp_chats st = []" "db_followups (dp_db st) = [waiting_job]" "db_calls (dp_db st) = db_calls (dp_db waiting_state)"
    "db_turns (dp_db st) = []"
  shows "ineligible g (7200000000 + d) (Some ((blank_call 1 ''c'' 7 Missed)\<lparr>vc_ended_at := Some 5\<rparr>)) waiting_job None st = Inr None"
proof -
  have t: "topic_of n j c (dp_db st) = None" for n j c
  proof -
    have "later_texts n j c (dp_db st) = []" unfolding later_texts_def Let_def assms(6)
      by (simp add: concat_eq_Nil_conv [THEN iffD2])
    then show ?thesis by (simp add: topic_of_def)
  qed
  have "topic_reason g (7200000000 + d) waiting_job c None (dp_db st) = Inr None" for c
    using noon_window [OF assms(1,2)] by (simp add: topic_reason_def t)
  moreover have "nonblank (fj_content waiting_job)" by (simp add: waiting_job_def nonblank_def asc_def py_strip_def py_space_def)
  ultimately show ?thesis using assms
    by (simp add: ineligible_def chatted_since_def sent_sibling_def waiting_job_def blank_call_def)
qed

lemma noon_sent: "\<exists>st'. dispatch_job noon_env ''w'' 1 waiting_state = Inr (''sent'', st')"
proof -
  let ?c = "(blank_call 1 ''c'' 7 Missed)\<lparr>vc_ended_at := Some 5\<rparr>"
  let ?st1 = "waiting_state\<lparr>dp_db := (dp_db waiting_state)\<lparr>db_seq := [(7, 2)]\<rparr>\<rparr>"
  have j: "get_followup 1 (dp_db waiting_state) = Some waiting_job" "get_call (fj_call_id waiting_job) (dp_db waiting_state) = Some ?c"
    by (simp_all add: waiting_state_def waiting_job_def get_followup_def get_call_def row_find_def blank_call_def)
  have st: "dp_chats waiting_state = []" "db_followups (dp_db waiting_state) = [waiting_job]" "db_turns (dp_db waiting_state) = []"
    by (simp_all add: waiting_state_def empty_db_def)
  have l: "lease_over (7200000000 + d) waiting_job = Inr False" "\<not> 7200000000 + d > fj_latest_due_at waiting_job" if "d < 10" for d
    using that by (simp_all add: lease_over_def waiting_job_def)
  note w = noon_window [of 0] noon_window [of 1] noon_window [of 3]
  have al: "allocate_sort_seq (fj_user_id waiting_job) 1 (dp_db waiting_state) = Inr ([1], dp_db ?st1)"
    by (simp add: allocate_sort_seq_def waiting_job_def waiting_state_def next_seq_def Let_def empty_db_def)
  have e: "ineligible g 7200000000 (Some ?c) waiting_job None waiting_state = Inr None"
    "ineligible g 7200000001 (Some ?c) waiting_job None waiting_state = Inr None"
    "ineligible g 7200000002 (Some ?c) waiting_job None ?st1 = Inr None" for g
    using noon_eligible [of 0 waiting_state g] noon_eligible [of 1 waiting_state g] noon_eligible [of 2 ?st1 g] by (simp_all add: st)
  have s: "\<exists>st'. stage_message noon_env (Some ?c) waiting_job waiting_state = Inr (None, st')"
    using e(3) w(3) l [of 3] by (simp add: stage_message_def al noon_env_def blank_call_def Let_def del: One_nat_def)
  have p: "fj_status waiting_job = Fol_processing" "fj_lease_owner waiting_job = Some ''w''" by (simp_all add: waiting_job_def)
  show ?thesis
    using s e w l [of 0] l [of 1] p by (auto simp: dispatch_job_def j send_checked_def noon_env_def)
qed

theorem message_sent_only_when_due_witness:
  "\<exists>st'. dispatch_job noon_env ''w'' 1 waiting_state = Inr (''sent'', st') \<and> length (dp_messages st') = 1"
proof -
  obtain st' where s: "dispatch_job noon_env ''w'' 1 waiting_state = Inr (''sent'', st')"
    using noon_sent by blast
  obtain m where "dp_messages st' = dp_messages waiting_state @ [m]"
    using message_sent_only_when_due [OF s] by blast
  then show ?thesis using s by (simp add: waiting_state_def)
qed

end
