(* ===== verification/Capability.thy ===== *)
theory Capability
  imports Seed
begin

text \<open>
  The state of a capability in a configuration: the projection of its evidence, what makes it stale, and the
  checks of a stored configuration (\<open>realtime_voice_capability_service.py\<close>, the trusted validators of
  \<open>realtime_voice_config_service.py\<close>).

  The hashes of a value's canonical text, of a text and of the six dimensions, \<open>json.loads\<close>, \<open>isoformat\<close> and the
  default prompt of the summary are parameters, and so is \<open>fromisoformat\<close>: the instant in naive UTC and whether
  the text names an offset.
\<close>

section \<open>Environment\<close>

record cap_env =
  xe_cfg :: cfg_env
  xe_sha :: "json \<Rightarrow> pystr"
  xe_sha_text :: "pystr \<Rightarrow> pystr"
  xe_fingerprint :: "pystr list \<Rightarrow> pystr"
  xe_loads :: "pystr \<Rightarrow> json option"
  xe_iso :: "pystr \<Rightarrow> (datetime \<times> bool) option"
  xe_isoformat :: "datetime \<Rightarrow> pystr"
  xe_prompt :: pystr

definition jset :: "string \<Rightarrow> json \<Rightarrow> json \<Rightarrow> json" where
  "jset k v j = JObj (AList.update k v (obj_fields j))"

definition jtext :: "string \<Rightarrow> json" where
  "jtext s = JStr (asc s)"

section \<open>Evidence\<close>

definition EVIDENCE_FINGERPRINT_FIELDS :: "string list" where
  "EVIDENCE_FINGERPRINT_FIELDS = [''provider_profile'', ''model_version'', ''protocol_profile'', ''adapter_version'',
     ''sdk_version'', ''evidence_suite_version'']"

text \<open>\<open>^[A-Za-z0-9][A-Za-z0-9_.:@+-]*$\<close>\<close>

definition alnum :: "nat \<Rightarrow> bool" where
  "alnum c \<longleftrightarrow> upper c \<or> lower c \<or> digit c"

fun safe_dimension :: "json \<Rightarrow> bool" where
  "safe_dimension (JStr (c # cs)) = (alnum c \<and> list_all (\<lambda>d. alnum d \<or> d \<in> {95, 46, 58, 64, 43, 45}) cs)"
| "safe_dimension _ = False"

fun text_of :: "json \<Rightarrow> pystr" where
  "text_of (JStr s) = s"
| "text_of _ = []"

definition evidence_dimensions :: "json \<Rightarrow> pystr list res" where
  "evidence_dimensions v =
     (if is_obj v \<and> list_all (\<lambda>k. safe_dimension (jget v k)) EVIDENCE_FINGERPRINT_FIELDS
      then Inr (map (\<lambda>k. text_of (jget v k)) EVIDENCE_FINGERPRINT_FIELDS)
      else Inl (ValueError ''VOICE_CAPABILITY_EVIDENCE_DIMENSION_INVALID''))"

definition compute_evidence_fingerprint :: "cap_env \<Rightarrow> json \<Rightarrow> pystr res" where
  "compute_evidence_fingerprint env v = bindR (evidence_dimensions v) (\<lambda>ds. Inr (xe_fingerprint env ds))"

definition validate_evidence_ttl_days :: "json \<Rightarrow> int res" where
  "validate_evidence_ttl_days v =
     (case v of JInt n \<Rightarrow> if 7 \<le> n \<and> n \<le> 90 then Inr n else Inl (ValueError ''VOICE_CAPABILITY_EVIDENCE_TTL_INVALID'')
      | _ \<Rightarrow> Inl (ValueError ''VOICE_CAPABILITY_EVIDENCE_TTL_INVALID''))"

definition evidence_expires_at :: "datetime \<Rightarrow> json \<Rightarrow> datetime res" where
  "evidence_expires_at verified ttl = bindR (validate_evidence_ttl_days ttl) (\<lambda>n. Inr (verified + n * us_day))"

text \<open>A stamp in the configuration: stripped, with \<open>Z\<close> read as an offset.\<close>

definition zulu :: "pystr \<Rightarrow> pystr" where
  "zulu t = concat (map (\<lambda>c. if c = 90 then asc ''+00:00'' else [c]) t)"

definition parse_datetime :: "cap_env \<Rightarrow> json \<Rightarrow> datetime option" where
  "parse_datetime env v =
     (case v of JStr t \<Rightarrow> if \<not> nonblank t then None else map_option fst (xe_iso env (zulu (py_strip t))) | _ \<Rightarrow> None)"

section \<open>The runtime projection\<close>

definition disabled_projection :: "json \<Rightarrow> pystr \<Rightarrow> json" where
  "disabled_projection cap status =
     jset ''effective_scope'' (jtext ''off'') (jset ''forced_enabled'' (JBool False) (jset ''enabled'' (JBool False)
       (jset ''verification_status'' (JStr status) cap)))"

text \<open>The evidence of a verified capability is fresh for the current dimensions.\<close>

definition fresh_evidence :: "cap_env \<Rightarrow> json \<Rightarrow> json \<Rightarrow> datetime \<Rightarrow> bool" where
  "fresh_evidence env cap dims now \<longleftrightarrow>
     (case (compute_evidence_fingerprint env dims, compute_evidence_fingerprint env cap,
         validate_evidence_ttl_days (jget cap ''evidence_ttl_days'')) of
        (Inr current, Inr projected, Inr days) \<Rightarrow>
          (case jget cap ''evidence_fingerprint'' of
             JStr saved \<Rightarrow> ce_casefold (xe_cfg env) saved = current \<and> ce_casefold (xe_cfg env) saved = projected
           | _ \<Rightarrow> False) \<and>
          nonblank_str (jget cap ''evidence_report_id'') \<and>
          (case (parse_datetime env (jget cap ''verified_at''), parse_datetime env (jget cap ''expires_at'')) of
             (Some verified, Some expires) \<Rightarrow> verified + days * us_day = expires \<and> now < expires
           | _ \<Rightarrow> False)
      | _ \<Rightarrow> False) \<and>
     is_bool (jget cap ''enabled'') \<and> is_bool (jget cap ''forced_enabled'') \<and>
     str_in [''off'', ''test'', ''all''] (jget cap ''effective_scope'')"

definition resolve_runtime_capability :: "cap_env \<Rightarrow> json \<Rightarrow> json \<Rightarrow> datetime \<Rightarrow> json res" where
  "resolve_runtime_capability env cap dims now =
     (if \<not> is_obj cap then Inl (ValueError ''VOICE_CAPABILITY_STATE_INVALID'')
      else let status = jget cap ''verification_status'' in
        if \<not> str_in [''verified'', ''unverified'', ''failed'', ''stale''] status
        then Inl (ValueError ''VOICE_CAPABILITY_STATUS_INVALID'')
        else if status \<noteq> jtext ''verified'' then Inr (disabled_projection cap (text_of status))
        else if \<not> fresh_evidence env cap dims now then Inr (disabled_projection cap (asc ''stale''))
        else if jget cap ''enabled'' \<noteq> JBool True
        then Inr (jset ''effective_scope'' (jtext ''off'') (jset ''enabled'' (JBool False) cap))
        else Inr cap)"

section \<open>A stored configuration\<close>

definition trusted_issues :: "cap_env \<Rightarrow> string \<Rightarrow> json \<Rightarrow> issue list" where
  "trusted_issues env key v =
     filter (\<lambda>i. fst i \<noteq> ''VOICE_CONFIG_MANUAL_VERIFIED_FORBIDDEN'') (validate_voice_bundle (xe_cfg env) key v)"

definition cap_state :: "bool \<Rightarrow> bool \<Rightarrow> string list \<Rightarrow> json \<Rightarrow> bool" where
  "cap_state enabled forced scopes cap \<longleftrightarrow> jget cap ''enabled'' = JBool enabled \<and> jget cap ''forced_enabled'' = JBool forced \<and>
     str_in scopes (jget cap ''effective_scope'')"

definition required_projection :: "string list" where
  "required_projection = EVIDENCE_FINGERPRINT_FIELDS @ [''evidence_fingerprint'', ''verified_at'', ''expires_at'', ''evidence_report_id'']"

definition trusted_state_issue :: "string \<Rightarrow> issue" where
  "trusted_state_issue k = (''VOICE_CAPABILITY_TRUSTED_STATE_INVALID'', ''capabilities.'' @ k)"

definition capability_state_issues :: "json \<Rightarrow> string \<Rightarrow> issue list" where
  "capability_state_issues caps k =
     (let cap = jget caps k; status = jget cap ''verification_status''; i = trusted_state_issue k in
      if \<not> is_obj cap then []
      else if str_in [''unverified'', ''stale''] status
      then must (cap_state False False [''off''] cap \<or> cap_state True True [''test''] cap) i
      else if status = jtext ''failed'' then must (cap_state False False [''off''] cap) i
      else if status = jtext ''verified'' then
        must (cap_state False False [''off''] cap \<or> cap_state True False [''test'', ''all''] cap) i
        @ must (list_all (\<lambda>f. nonblank_str (jget cap f)) required_projection \<and> jget cap ''last_test_result'' = jtext ''passed'') i
      else [])"

definition trusted_capability_state_issues :: "json \<Rightarrow> issue list" where
  "trusted_capability_state_issues config =
     (if \<not> is_obj config \<or> \<not> is_obj (jget config ''capabilities'') then []
      else each VOICE_CAPABILITY_KEYS (capability_state_issues (jget config ''capabilities'')))"

definition validate_trusted_voice_bundle :: "cap_env \<Rightarrow> string \<Rightarrow> json \<Rightarrow> issue list" where
  "validate_trusted_voice_bundle env key v =
     trusted_issues env key v @ (if key = ''voice_call_config'' then trusted_capability_state_issues v else [])"

end
