(* ===== verification/Runtime.thy ===== *)
theory Runtime
  imports Capability
begin

text \<open>
  The configuration a call runs on (\<open>realtime_voice_runtime_config_service.py\<close>): the gate for new calls, the
  frozen snapshot with the capabilities narrowed to the call's user, and the loader that trusts the
  published row over the cache and falls back to the seed only under a verifiable persona reference.

  The cache's and the database's replies are arguments. Freezing and thawing copy a value, which is the
  identity here. The order of a dict's keys is kept.
\<close>

section \<open>Python equality of JSON values\<close>

function py_eq :: "json \<Rightarrow> json \<Rightarrow> bool" where
  "py_eq (JList xs) (JList ys) = (length xs = length ys \<and> list_all (\<lambda>(x, y). py_eq x y) (zip xs ys))"
| "py_eq (JObj xs) (JObj ys) = (set (map fst xs) = set (map fst ys) \<and>
     list_all (\<lambda>(k, v). case map_of ys k of None \<Rightarrow> False | Some w \<Rightarrow> py_eq v w) xs)"
| "py_eq (JInt n) v = py_eq_int v n"
| "py_eq (JBool b) v = py_eq_int v (if b then 1 else 0)"
| "py_eq (JFloat f) v = (case v of
       JInt n \<Rightarrow> f = Fin (of_int n) | JBool b \<Rightarrow> f = Fin (if b then 1 else 0) | JFloat g \<Rightarrow> f \<noteq> NaN \<and> f = g | _ \<Rightarrow> False)"
| "py_eq JNull v = (v = JNull)"
| "py_eq (JStr s) v = (v = JStr s)"
| "py_eq (JList xs) (JObj ys) = False"
| "py_eq (JObj xs) (JList ys) = False"
| "py_eq (JList xs) JNull = False"
| "py_eq (JList xs) (JBool b) = False"
| "py_eq (JList xs) (JInt n) = False"
| "py_eq (JList xs) (JFloat f) = False"
| "py_eq (JList xs) (JStr s) = False"
| "py_eq (JObj xs) JNull = False"
| "py_eq (JObj xs) (JBool b) = False"
| "py_eq (JObj xs) (JInt n) = False"
| "py_eq (JObj xs) (JFloat f) = False"
| "py_eq (JObj xs) (JStr s) = False"
  by pat_completeness auto
termination py_eq
  by (relation "measure (\<lambda>(x, y). size x)") (auto dest!: set_zip_leftD elim!: size_list_estimation' intro: le_imp_less_Suc)

section \<open>A loaded configuration\<close>

datatype config_source = Src_redis | Src_mysql | Src_canonical

record loaded =
  ld_key :: string
  ld_version :: int
  ld_schema :: json
  ld_sha :: pystr
  ld_published :: "datetime option"
  ld_payload :: json
  ld_source :: config_source
  ld_fallback :: bool
  ld_diagnostics :: "string list"

definition resolution_error :: exn where
  "resolution_error = RuntimeError ''runtime_config_resolution''"

definition canonical_match :: "cap_env \<Rightarrow> string \<Rightarrow> json \<Rightarrow> bool" where
  "canonical_match env key p \<longleftrightarrow>
     (if key = ''voice_call_config'' then is_obj (jget p ''persona_ref'') \<and> py_eq p (seed_config (jget p ''persona_ref''))
      else py_eq p (seed_script (xe_prompt env)))"

definition validate_loaded_metadata :: "cap_env \<Rightarrow> loaded \<Rightarrow> string \<Rightarrow> json res" where
  "validate_loaded_metadata env l key =
     (let p = ld_payload l in
      if \<not> is_obj p \<or> ld_key l \<noteq> key \<or> ld_version l < 0 \<or> ld_schema l \<noteq> JInt 1 \<or> \<not> py_eq_int (jget p ''schema_version'') 1
        \<or> ld_sha l \<noteq> xe_sha env p \<or> ld_fallback l \<noteq> (ld_source l = Src_canonical)
      then Inl resolution_error
      else if ld_source l = Src_canonical \<and> (ld_version l \<noteq> 0 \<or> ld_published l \<noteq> None \<or> \<not> canonical_match env key p)
      then Inl resolution_error
      else if ld_source l \<noteq> Src_canonical \<and> ld_version l < 1 then Inl resolution_error
      else if ld_version l \<noteq> 0 \<and> ld_published l = None then Inl resolution_error
      else Inr p)"

section \<open>Persona references\<close>

definition strip_sha :: "pystr \<Rightarrow> pystr" where
  "strip_sha t = (if take 7 t = asc ''sha256:'' then drop 7 t else t)"

definition persona_ref_shape :: "json \<Rightarrow> json option" where
  "persona_ref_shape v =
     (if \<not> is_obj v \<or> set (jkeys v) \<noteq> {''config_key'', ''version'', ''content_sha256''} then None
      else (case (jget v ''version'', jget v ''content_sha256'') of
          (JInt n, JStr d) \<Rightarrow>
            if jget v ''config_key'' \<noteq> jtext ''persona'' \<or> n < 1 \<or> \<not> hex64 (strip_sha d) then None
            else Some (JObj [(''config_key'', jtext ''persona''), (''version'', JInt n), (''content_sha256'', JStr (asc ''sha256:'' @ strip_sha d))])
        | _ \<Rightarrow> None))"

definition ref_version :: "json \<Rightarrow> int" where
  "ref_version r = (case jget r ''version'' of JInt n \<Rightarrow> n | _ \<Rightarrow> 0)"

definition persona_ref_is_anchored :: "json \<Rightarrow> json list \<Rightarrow> json list \<Rightarrow> bool" where
  "persona_ref_is_anchored r anchors voice_anchors \<longleftrightarrow>
     (let ps = List.map_filter persona_ref_shape anchors; vs = List.map_filter persona_ref_shape voice_anchors in
      r \<in> set ps \<or> (ps \<noteq> [] \<and> ref_version r < Min (set (map ref_version ps)) \<and> r \<in> set vs))"

section \<open>Evidence anchors\<close>

record anchor =
  an_report :: pystr
  an_capability :: string
  an_result :: string
  an_dimensions :: "pystr list"
  an_fingerprint :: pystr
  an_tested_at :: datetime
  an_verified_at :: "datetime option"
  an_ttl :: int
  an_expires_at :: "datetime option"

definition anchor_dimensions :: "anchor \<Rightarrow> json" where
  "anchor_dimensions a = JObj (zip EVIDENCE_FINGERPRINT_FIELDS (map JStr (an_dimensions a)))"

definition verified_anchor_matches :: "cap_env \<Rightarrow> string \<Rightarrow> json \<Rightarrow> anchor option \<Rightarrow> datetime \<Rightarrow> bool" where
  "verified_anchor_matches env key cap anchor now \<longleftrightarrow>
     (case anchor of
        None \<Rightarrow> False
      | Some a \<Rightarrow>
          jget cap ''last_test_result'' = jtext ''passed'' \<and> jget cap ''evidence_report_id'' = JStr (an_report a) \<and>
          an_capability a = key \<and> an_result a = ''passed'' \<and>
          map (jget cap) EVIDENCE_FINGERPRINT_FIELDS = map JStr (an_dimensions a) \<and>
          (case compute_evidence_fingerprint env (anchor_dimensions a) of
             Inl x \<Rightarrow> False
           | Inr f \<Rightarrow> an_fingerprint a = f \<and> jget cap ''evidence_fingerprint'' = JStr f) \<and>
          jget cap ''evidence_ttl_days'' = JInt (an_ttl a) \<and>
          (case (an_verified_at a, an_expires_at a, parse_datetime env (jget cap ''verified_at''),
              parse_datetime env (jget cap ''expires_at'')) of
             (Some v, Some x, Some pv, Some px) \<Rightarrow>
               pv = v \<and> px = x \<and> an_tested_at a \<le> v \<and> v \<le> now \<and> evidence_expires_at v (JInt (an_ttl a)) = Inr x
           | _ \<Rightarrow> False))"

section \<open>The gate\<close>

definition listed :: "json \<Rightarrow> int option \<Rightarrow> bool" where
  "listed ids user \<longleftrightarrow> (case (ids, user) of (JList xs, Some u) \<Rightarrow> list_ex (\<lambda>x. py_eq_int x u) xs | _ \<Rightarrow> False)"

definition published_gate_blocks :: "json \<Rightarrow> int option \<Rightarrow> bool" where
  "published_gate_blocks g user \<longleftrightarrow>
     (if jget g ''maintenance_mode'' = JBool True \<or> jget g ''soft_stop'' = JBool True then True
      else let rollout = jget g ''rollout''; mode = jget rollout ''mode'' in
        if mode = jtext ''off'' then True
        else if mode = jtext ''allowlist'' then \<not> listed (jget rollout ''user_ids'') user
        else False)"

record runtime =
  bd_config :: loaded
  bd_script :: loaded
  bd_personas :: "json list"
  bd_voice_personas :: "json list"
  bd_mysql :: bool
  bd_evidence :: "(pystr, anchor) dict"
  bd_evidence_ok :: bool
  bd_force :: "(string, json) dict"
  bd_force_ok :: bool
  bd_fallback_persona :: "json option"
  bd_gate :: "json option"
  bd_gate_user :: "int option"
  bd_gate_blocked :: bool
  bd_master :: "bool option"
  bd_master_version :: "int option"

definition should_block_new_call :: "runtime \<Rightarrow> int option \<Rightarrow> bool" where
  "should_block_new_call b user =
     (if bd_master b \<noteq> Some True then True
      else if ld_fallback (bd_config b) then
        (case bd_gate b of
           None \<Rightarrow> False
         | Some g \<Rightarrow> if user = bd_gate_user b then bd_gate_blocked b else published_gate_blocks g user)
      else published_gate_blocks (jget (ld_payload (bd_config b)) ''global'') user)"

section \<open>The snapshot\<close>

definition scope_capability_for_call :: "json \<Rightarrow> json \<Rightarrow> int option \<Rightarrow> json \<Rightarrow> bool \<Rightarrow> json res" where
  "scope_capability_for_call original resolved user ids allow_forced =
     (let status = jget resolved ''verification_status'' in
      if \<not> is_str status then Inl resolution_error
      else
        let tester = listed ids user;
            forced_test = (allow_forced \<and> str_in [''unverified'', ''stale''] status \<and> jget original ''enabled'' = JBool True \<and>
              jget original ''forced_enabled'' = JBool True \<and> jget original ''effective_scope'' = jtext ''test'') in
        if forced_test \<and> tester
        then Inr (jset ''effective_scope'' (jtext ''test'') (jset ''forced_enabled'' (JBool True) (jset ''enabled'' (JBool True) resolved)))
        else if str_in [''unverified'', ''failed'', ''stale''] status
        then Inr (disabled_projection resolved (text_of status))
        else if jget resolved ''effective_scope'' = jtext ''test'' \<and> \<not> tester
        then Inr (disabled_projection resolved (text_of status))
        else Inr resolved)"

definition missing_dimensions :: json where
  "missing_dimensions = JObj (map (\<lambda>k. (k, JNull)) EVIDENCE_FINGERPRINT_FIELDS)"

definition call_dimensions :: "(string, json) dict option \<Rightarrow> string \<Rightarrow> json" where
  "call_dimensions dims k =
     (case dims of None \<Rightarrow> missing_dimensions
      | Some ds \<Rightarrow> (case map_of ds k of None \<Rightarrow> missing_dimensions | Some v \<Rightarrow> v))"

definition evidence_anchored :: "cap_env \<Rightarrow> runtime \<Rightarrow> datetime \<Rightarrow> string \<Rightarrow> json \<Rightarrow> bool" where
  "evidence_anchored env b now k cap \<longleftrightarrow> bd_evidence_ok b \<and>
     verified_anchor_matches env k cap
       (case jget cap ''evidence_report_id'' of JStr i \<Rightarrow> map_of (bd_evidence b) i | _ \<Rightarrow> None) now"

definition force_source :: "runtime \<Rightarrow> string \<Rightarrow> json option" where
  "force_source b k = (if bd_force_ok b then (case map_of (bd_force b) k of Some s \<Rightarrow> if is_obj s then Some s else None | None \<Rightarrow> None) else None)"

definition forced_on :: "json \<Rightarrow> bool" where
  "forced_on cap \<longleftrightarrow> jget cap ''enabled'' = JBool True \<and> jget cap ''forced_enabled'' = JBool True \<and>
     jget cap ''effective_scope'' = jtext ''test''"

text \<open>One capability of the snapshot, with the recorded source when it is forced.\<close>

definition snapshot_capability ::
  "cap_env \<Rightarrow> runtime \<Rightarrow> (string, json) dict option \<Rightarrow> datetime \<Rightarrow> int option \<Rightarrow> json \<Rightarrow> json \<Rightarrow> string \<Rightarrow> (json \<times> json option) res" where
  "snapshot_capability env b dims now user ids caps k =
     (let cap = jget caps k; d = call_dimensions dims k in
      if \<not> is_obj d \<or> set (jkeys d) \<noteq> set EVIDENCE_FINGERPRINT_FIELDS then Inl resolution_error
      else (case resolve_runtime_capability env cap d now of
          Inl x \<Rightarrow> Inl resolution_error
        | Inr r \<Rightarrow>
            let ok = (jget cap ''verification_status'' = jtext ''verified'' \<longrightarrow> evidence_anchored env b now k cap);
                r1 = (if ok then r else disabled_projection r (asc ''stale''));
                src = force_source b k in
            bindR (scope_capability_for_call cap r1 user ids (ok \<and> src \<noteq> None)) (\<lambda>s.
              Inr (s, if forced_on s then src else None))))"

fun each_capability :: "(string \<Rightarrow> 'a res) \<Rightarrow> string list \<Rightarrow> (string \<times> 'a) list res" where
  "each_capability f [] = Inr []"
| "each_capability f (k # ks) = bindR (f k) (\<lambda>r. bindR (each_capability f ks) (\<lambda>rs. Inr ((k, r) # rs)))"

definition jdefault :: "string \<Rightarrow> json \<Rightarrow> json \<Rightarrow> json" where
  "jdefault k v j = (if jhas j k then j else jset k v j)"

definition merge_over :: "(string \<times> json) list \<Rightarrow> json \<Rightarrow> json" where
  "merge_over defaults over = JObj (fold (\<lambda>(k, v). AList.update k v) (obj_fields over) defaults)"

definition resolved_defaults :: "json \<Rightarrow> json" where
  "resolved_defaults c =
     (let c1 = jdefault ''summary'' (JObj [(''model'', jtext ''deepseek-v4-pro'')]) c;
          c2 = jset ''concurrency'' (merge_over VOICE_CONNECTION_DEFAULTS (jget c1 ''concurrency'')) c1 in
      jset ''interaction'' (merge_over VOICE_INTERACTION_DEFAULTS (jget_def' c2 ''interaction'' (JObj []))) c2)"

definition script_defaults :: "cap_env \<Rightarrow> json \<Rightarrow> json" where
  "script_defaults env s =
     (let s1 = jdefault ''summary'' (JObj [(''prompt_template'', JStr (xe_prompt env))]) s in
      jset ''memory'' (merge_over [(''max_retries'', JInt 2), (''retry_backoff_ms'', JList [JInt 1000, JInt 5000])] (jget s1 ''memory'')) s1)"

definition persona_anchored :: "runtime \<Rightarrow> json \<Rightarrow> bool" where
  "persona_anchored b v \<longleftrightarrow>
     (case persona_ref_shape v of
        None \<Rightarrow> False
      | Some r \<Rightarrow> bd_mysql b \<and> persona_ref_is_anchored r (bd_personas b) (bd_voice_personas b) \<or>
          ld_fallback (bd_config b) \<and> (case bd_fallback_persona b of None \<Rightarrow> False | Some p \<Rightarrow> persona_ref_shape p = Some r))"

definition jopt :: "('a \<Rightarrow> json) \<Rightarrow> 'a option \<Rightarrow> json" where
  "jopt f x = (case x of None \<Rightarrow> JNull | Some v \<Rightarrow> f v)"

definition published_text :: "cap_env \<Rightarrow> loaded \<Rightarrow> json" where
  "published_text env l = jopt (\<lambda>t. JStr (xe_isoformat env t)) (ld_published l)"

definition config_snapshot_of :: "cap_env \<Rightarrow> runtime \<Rightarrow> json \<Rightarrow> json \<Rightarrow> json" where
  "config_snapshot_of env b config script = JObj [
     (''master_switch_enabled'', jopt JBool (bd_master b)), (''master_switch_version'', jopt JInt (bd_master_version b)),
     (''config_version'', JInt (ld_version (bd_config b))), (''config_content_sha256'', JStr (ld_sha (bd_config b))),
     (''config_schema_version'', ld_schema (bd_config b)), (''config_published_at'', published_text env (bd_config b)),
     (''script_version'', JInt (ld_version (bd_script b))), (''script_content_sha256'', JStr (ld_sha (bd_script b))),
     (''script_schema_version'', ld_schema (bd_script b)), (''script_published_at'', published_text env (bd_script b)),
     (''resolved_config'', config), (''resolved_script'', script)]"

definition capability_snapshot_of :: "(string \<times> json \<times> json option) list \<Rightarrow> json" where
  "capability_snapshot_of rows = JObj (map (\<lambda>(k, s, src). (k, case src of None \<Rightarrow> s | Some x \<Rightarrow> jset ''force_source'' x s)) rows)"

definition build_snapshot ::
  "cap_env \<Rightarrow> runtime \<Rightarrow> (string, json) dict option \<Rightarrow> datetime \<Rightarrow> int option \<Rightarrow> (json \<times> json) res" where
  "build_snapshot env b dims now user =
     bindR (validate_loaded_metadata env (bd_config b) ''voice_call_config'') (\<lambda>config.
     bindR (validate_loaded_metadata env (bd_script b) ''voice_call_script'') (\<lambda>script.
       if trusted_issues env ''voice_call_config'' config \<noteq> [] \<or> trusted_issues env ''voice_call_script'' script \<noteq> []
       then Inl resolution_error
       else
         let c1 = resolved_defaults config; s1 = script_defaults env script in
         if \<not> persona_anchored b (jget c1 ''persona_ref'') then Inl resolution_error
         else if (case dims of None \<Rightarrow> False | Some ds \<Rightarrow> \<not> set (map fst ds) \<subseteq> set VOICE_CAPABILITY_KEYS)
         then Inl resolution_error
         else
           bindR (each_capability (snapshot_capability env b dims now user (jget (jget c1 ''global'') ''test_user_ids'')
               (jget c1 ''capabilities'')) VOICE_CAPABILITY_KEYS) (\<lambda>rows.
             let c2 = jset ''capabilities'' (JObj (map (\<lambda>(k, s, src). (k, s)) rows)) c1 in
             if trusted_issues env ''voice_call_config'' c2 \<noteq> [] then Inl resolution_error
             else Inr (config_snapshot_of env b c2 s1, capability_snapshot_of rows))))"

end
