(* ===== verification/Loader.thy ===== *)
theory Loader
  imports Runtime
begin

text \<open>
  The loader of the runtime configuration (\<open>realtime_voice_runtime_config_service.py\<close>): candidates from the
  cache and from the published rows, the offline envelope, the anchors read with the rows, and the choice
  among them.

  The replies of the cache (\<open>Inl\<close> when it cannot be reached) and the rows (\<open>None\<close> when the database cannot be
  read) are arguments. The counters of fallbacks are returned in the order they are sent.
\<close>

section \<open>Rows\<close>

record admin_row =
  ac_id :: int
  ac_key :: string
  ac_value :: "pystr option"
  ac_version :: int
  ac_draft_revision :: "int option"
  ac_active :: bool
  ac_draft :: bool
  ac_updated_by :: "string option"
  ac_updated_at :: "datetime option"

record admin_log =
  al_id :: int
  al_admin :: int
  al_module :: string
  al_action :: string
  al_after :: "pystr option"
  al_created_at :: "datetime option"

section \<open>Candidates\<close>

type_synonym parsed = "(json \<times> pystr) option \<times> string"

definition parse_candidate :: "cap_env \<Rightarrow> string \<Rightarrow> pystr option \<Rightarrow> parsed" where
  "parse_candidate env key raw =
     (case raw of
        None \<Rightarrow> (None, ''missing'')
      | Some t \<Rightarrow>
          (case xe_loads env t of
             None \<Rightarrow> (None, ''invalid_json'')
           | Some v \<Rightarrow>
               if \<not> is_obj v then (None, ''invalid_shape'')
               else if trusted_issues env key v \<noteq> [] then (None, ''schema_invalid'')
               else (Some (v, xe_sha env v), ''ok'')))"

text \<open>A row also needs a version and a publication time.\<close>

definition row_candidate :: "cap_env \<Rightarrow> string \<Rightarrow> admin_row \<Rightarrow> parsed" where
  "row_candidate env key row =
     (let p = parse_candidate env key (ac_value row) in
      if ac_version row < 1 then (None, ''invalid_version'')
      else if fst p \<noteq> None \<and> ac_updated_at row = None then (None, ''invalid_published_at'')
      else p)"

definition mysql_source_status :: "cap_env \<Rightarrow> string \<Rightarrow> admin_row option \<Rightarrow> bool \<Rightarrow> string" where
  "mysql_source_status env key row available =
     (if \<not> available then ''unavailable''
      else (case row of None \<Rightarrow> ''missing'' | Some r \<Rightarrow> snd (row_candidate env key r)))"

section \<open>The offline envelope\<close>

record envelope =
  en_config :: json
  en_persona :: json
  en_gate :: json

definition envelope_fields :: "string list" where
  "envelope_fields = [''envelope_schema_version'', ''config_key'', ''config_version'', ''config_schema_version'',
     ''config_content_sha256'', ''published_at'', ''config'']"

definition parse_published_envelope :: "cap_env \<Rightarrow> pystr option \<Rightarrow> envelope option" where
  "parse_published_envelope env raw =
     (case Option.bind raw (xe_loads env) of
        None \<Rightarrow> None
      | Some v \<Rightarrow>
          let config = jget v ''config'' in
          if \<not> is_obj v \<or> set (jkeys v) \<noteq> set envelope_fields \<or> \<not> py_eq_int (jget v ''envelope_schema_version'') 1
            \<or> jget v ''config_key'' \<noteq> jtext ''voice_call_config''
            \<or> (case jget v ''config_version'' of JInt n \<Rightarrow> n < 1 | _ \<Rightarrow> True)
            \<or> (case jget v ''published_at'' of JStr t \<Rightarrow> t = [] \<or> xe_iso env (zulu t) = None | _ \<Rightarrow> True)
            \<or> \<not> is_obj config \<or> jget v ''config_schema_version'' \<noteq> JInt 1 \<or> \<not> py_eq_int (jget config ''schema_version'') 1
            \<or> jget v ''config_content_sha256'' \<noteq> JStr (xe_sha env config)
            \<or> trusted_issues env ''voice_call_config'' config \<noteq> []
          then None
          else (case persona_ref_shape (jget config ''persona_ref'') of
              None \<Rightarrow> None
            | Some p \<Rightarrow>
                if is_obj (jget config ''global'')
                then Some \<lparr>en_config = config, en_persona = p, en_gate = jget config ''global''\<rparr> else None))"

section \<open>Sources of forced tests\<close>

definition force_source_fields :: "string list" where
  "force_source_fields = [''source'', ''capability_key'', ''draft_revision'', ''config_content_sha256'', ''operator_id'',
     ''forced_at'', ''reason_length'', ''reason_sha256'']"

definition lower_hex :: "pystr \<Rightarrow> bool" where
  "lower_hex t \<longleftrightarrow> list_all (\<lambda>c. digit c \<or> 97 \<le> c \<and> c \<le> 102) t"

definition sha_label :: "json \<Rightarrow> bool" where
  "sha_label v \<longleftrightarrow> (case v of JStr t \<Rightarrow> take 7 t = asc ''sha256:'' \<and> length t = 71 \<and> lower_hex (drop 7 t) | _ \<Rightarrow> False)"

definition int_between :: "int \<Rightarrow> int option \<Rightarrow> json \<Rightarrow> bool" where
  "int_between lo hi v \<longleftrightarrow> (case v of JInt n \<Rightarrow> lo \<le> n \<and> (case hi of None \<Rightarrow> True | Some h \<Rightarrow> n \<le> h) | _ \<Rightarrow> False)"

definition capability_named :: "json \<Rightarrow> string option" where
  "capability_named v = find (\<lambda>k. v = jtext k) VOICE_CAPABILITY_KEYS"

definition forced_in_time :: "cap_env \<Rightarrow> json \<Rightarrow> datetime option \<Rightarrow> bool" where
  "forced_in_time env v created \<longleftrightarrow>
     (case v of
        JStr t \<Rightarrow> t \<noteq> [] \<and>
          (case xe_iso env (zulu t) of
             Some (forced, True) \<Rightarrow> (case created of None \<Rightarrow> True | Some c \<Rightarrow> \<bar>forced - c\<bar> \<le> 5 * us_second)
           | _ \<Rightarrow> False)
      | _ \<Rightarrow> False)"

definition force_source_matches :: "cap_env \<Rightarrow> admin_log \<Rightarrow> json \<Rightarrow> json \<Rightarrow> string \<Rightarrow> json \<Rightarrow> pystr \<Rightarrow> bool" where
  "force_source_matches env entry proj src k config sha \<longleftrightarrow>
     (let note = jget proj ''change_note''; cap = jget (jget config ''capabilities'') k in
      jget src ''source'' = jtext ''admin_force_test'' \<and> int_between 1 None (jget src ''draft_revision'') \<and>
      jget src ''operator_id'' = JInt (al_admin entry) \<and> int_between 1 (Some 500) (jget src ''reason_length'') \<and>
      sha_label (jget src ''reason_sha256'') \<and> forced_in_time env (jget src ''forced_at'') (al_created_at entry) \<and>
      jget proj ''action'' = jtext ''force_enable'' \<and> jget proj ''config_key'' = jtext ''voice_call_config'' \<and>
      jget proj ''result'' = jtext ''success'' \<and> py_eq (jget proj ''draft_revision'') (jget src ''draft_revision'') \<and>
      jget proj ''content_sha256'' = JStr sha \<and> jget src ''config_content_sha256'' = JStr sha \<and>
      is_obj note \<and> jget note ''present'' = JBool True \<and> py_eq (jget note ''length'') (jget src ''reason_length'') \<and>
      jget note ''sha256'' = jget src ''reason_sha256'' \<and>
      is_obj cap \<and> str_in [''unverified'', ''stale''] (jget cap ''verification_status'') \<and> forced_on cap \<and>
      is_obj (jget proj ''verification_status'') \<and> jget (jget proj ''verification_status'') k = jget cap ''verification_status'' \<and>
      is_obj (jget proj ''forced_enabled'') \<and> jget (jget proj ''forced_enabled'') k = JBool True \<and>
      is_obj (jget proj ''effective_scope'') \<and> jget (jget proj ''effective_scope'') k = jtext ''test'')"

definition parse_force_source_log :: "cap_env \<Rightarrow> admin_log \<Rightarrow> json \<Rightarrow> pystr \<Rightarrow> (string \<times> json) option" where
  "parse_force_source_log env entry config sha =
     (if al_module entry \<noteq> ''voice_config'' \<or> al_action entry \<noteq> ''force_enable'' \<or> al_after entry \<in> {None, Some []} then None
      else (case Option.bind (al_after entry) (xe_loads env) of
          None \<Rightarrow> None
        | Some proj \<Rightarrow>
            let src = jget proj ''force_source'' in
            if \<not> is_obj proj \<or> \<not> is_obj src \<or> set (jkeys src) \<noteq> set force_source_fields then None
            else (case capability_named (jget src ''capability_key'') of
                None \<Rightarrow> None
              | Some k \<Rightarrow> if force_source_matches env entry proj src k config sha then Some (k, src) else None)))"

section \<open>What is read with the rows\<close>

record context_rows =
  cx_active :: "(string, admin_row) dict"
  cx_personas :: "admin_row list"
  cx_history :: "admin_row list"
  cx_available :: bool
  cx_evidence :: "(pystr, anchor) dict"
  cx_evidence_ok :: bool
  cx_force :: "(string, json) dict"
  cx_force_ok :: bool
  cx_master :: "(bool \<times> int) option"

definition no_context :: context_rows where
  "no_context = \<lparr>cx_active = [], cx_personas = [], cx_history = [], cx_available = False, cx_evidence = [],
     cx_evidence_ok = False, cx_force = [], cx_force_ok = False, cx_master = None\<rparr>"

text \<open>\<open>parse_master_switch_rows\<close>: exactly one row, with exactly the field \<open>enabled\<close>.\<close>

definition parse_master_switch_rows :: "cap_env \<Rightarrow> admin_row list \<Rightarrow> (bool \<times> int) option" where
  "parse_master_switch_rows env rows =
     (case rows of
        [row] \<Rightarrow>
          (case Option.bind (ac_value row) (xe_loads env) of
             Some v \<Rightarrow>
               if ac_key row \<noteq> ''voice_call_master_switch'' \<or> \<not> ac_active row \<or> ac_draft row \<or> ac_version row < 1
                 \<or> ac_updated_at row = None \<or> \<not> is_obj v \<or> set (jkeys v) \<noteq> {''enabled''} then None
               else (case jget v ''enabled'' of JBool e \<Rightarrow> Some (e, ac_version row) | _ \<Rightarrow> None)
           | None \<Rightarrow> None)
      | _ \<Rightarrow> None)"

definition newest_first :: "admin_row list \<Rightarrow> admin_row list" where
  "newest_first rows = sort_key (\<lambda>r. - ac_version r) (sort_key (\<lambda>r. - ac_id r) rows)"

definition VOICE_KEYS :: "string list" where
  "VOICE_KEYS = [''voice_call_config'', ''voice_call_script'']"

definition active_rows :: "admin_row list \<Rightarrow> (string, admin_row) dict" where
  "active_rows rows = List.map_filter (\<lambda>k. map_option (\<lambda>r. (k, r)) (find (\<lambda>r. ac_key r = k \<and> ac_active r) rows)) VOICE_KEYS"

definition capability_rows :: "json \<Rightarrow> (string \<times> json) list" where
  "capability_rows config =
     (if is_obj config \<and> is_obj (jget config ''capabilities'')
      then map (\<lambda>k. (k, jget (jget config ''capabilities'') k)) VOICE_CAPABILITY_KEYS else [])"

definition report_ids :: "json \<Rightarrow> pystr list" where
  "report_ids config = map text_of (filter nonblank_str (map (\<lambda>(k, cap). jget cap ''evidence_report_id'') (capability_rows config)))"

definition forced_keys :: "json \<Rightarrow> string list" where
  "forced_keys config = map fst (filter (\<lambda>(k, cap). jget cap ''forced_enabled'' = JBool True) (capability_rows config))"

definition force_logs :: "pystr \<Rightarrow> admin_log list \<Rightarrow> admin_log list" where
  "force_logs sha logs =
     take 128 (sort_key (\<lambda>l. - al_id l) (filter (\<lambda>l. al_module l = ''voice_config'' \<and> al_action l = ''force_enable'' \<and>
       (case al_after l of None \<Rightarrow> False | Some t \<Rightarrow> py_in sha t)) logs))"

definition force_sources :: "cap_env \<Rightarrow> json \<Rightarrow> admin_log list \<Rightarrow> (string, json) dict" where
  "force_sources env config logs =
     filter (\<lambda>(k, src). k \<in> set (forced_keys config))
       (List.map_filter (\<lambda>l. parse_force_source_log env l config (xe_sha env config)) (force_logs (xe_sha env config) logs))"

definition read_context :: "cap_env \<Rightarrow> admin_row list option \<Rightarrow> anchor list option \<Rightarrow> admin_log list option \<Rightarrow> context_rows" where
  "read_context env table evidence logs =
     (case table of
        None \<Rightarrow> no_context
      | Some all \<Rightarrow>
          let rows = newest_first (filter (\<lambda>r. \<not> ac_draft r) all);
              active = active_rows rows;
              config = (case map_of active ''voice_call_config'' of None \<Rightarrow> JNull
                | Some r \<Rightarrow> (case Option.bind (ac_value r) (xe_loads env) of None \<Rightarrow> JNull | Some v \<Rightarrow> v));
              ids = report_ids config; forced = forced_keys config in
          \<lparr>cx_active = active, cx_personas = filter (\<lambda>r. ac_key r = ''persona'') rows,
           cx_history = filter (\<lambda>r. ac_key r = ''voice_call_config'') rows, cx_available = True,
           cx_evidence = (case evidence of Some es \<Rightarrow> map (\<lambda>a. (an_report a, a)) (filter (\<lambda>a. an_report a \<in> set ids) es) | None \<Rightarrow> []),
           cx_evidence_ok = (ids = [] \<or> evidence \<noteq> None),
           cx_force = (case logs of Some ls \<Rightarrow> if forced = [] then [] else force_sources env config ls | None \<Rightarrow> []),
           cx_force_ok = (forced = [] \<or> logs \<noteq> None),
           cx_master = parse_master_switch_rows env (filter (\<lambda>r. ac_key r = ''voice_call_master_switch'' \<and> ac_active r) rows)\<rparr>)"

section \<open>Persona references of the fallback\<close>

definition row_persona_ref :: "cap_env \<Rightarrow> admin_row \<Rightarrow> json option" where
  "row_persona_ref env row =
     (if ac_key row \<noteq> ''persona'' \<or> ac_version row < 1 \<or> ac_value row \<in> {None, Some []} then None
      else Some (JObj [(''config_key'', jtext ''persona''), (''version'', JInt (ac_version row)),
        (''content_sha256'', JStr (asc ''sha256:'' @ xe_sha_text env (the (ac_value row))))]))"

definition history_ref :: "cap_env \<Rightarrow> admin_row \<Rightarrow> json option" where
  "history_ref env row =
     (if ac_version row < 1 then None
      else (case Option.bind (ac_value row) (xe_loads env) of
          None \<Rightarrow> None | Some v \<Rightarrow> if is_obj v then persona_ref_shape (jget v ''persona_ref'') else None))"

definition voice_history_persona_refs :: "cap_env \<Rightarrow> admin_row list \<Rightarrow> json list" where
  "voice_history_persona_refs env rows = rev (remdups (rev (List.map_filter (history_ref env) rows)))"

definition external_ref_known :: "cap_env \<Rightarrow> context_rows \<Rightarrow> json \<Rightarrow> bool" where
  "external_ref_known env cx r \<longleftrightarrow>
     list_ex (\<lambda>row. ac_version row = ref_version r \<and> row_persona_ref env row = Some r) (cx_personas cx) \<or>
     (let vs = filter (\<lambda>v. 1 \<le> v) (map ac_version (cx_personas cx)) in
      vs \<noteq> [] \<and> ref_version r < Min (set vs) \<and> list_ex (\<lambda>row. history_ref env row = Some r) (cx_history cx))"

definition resolve_fallback_persona_ref :: "cap_env \<Rightarrow> context_rows \<Rightarrow> json option \<Rightarrow> envelope option \<Rightarrow> json res" where
  "resolve_fallback_persona_ref env cx external en =
     (case (if cx_available cx then List.map_filter (row_persona_ref env) (filter ac_active (cx_personas cx)) else []) of
        r # rs \<Rightarrow> Inr r
      | [] \<Rightarrow>
          (case Option.bind external persona_ref_shape of
             Some r \<Rightarrow> if cx_available cx \<and> external_ref_known env cx r then Inr r
                       else (case en of Some e \<Rightarrow> Inr (en_persona e) | None \<Rightarrow> Inl resolution_error)
           | None \<Rightarrow> (case en of Some e \<Rightarrow> Inr (en_persona e) | None \<Rightarrow> Inl resolution_error)))"

definition canonical_payload :: "cap_env \<Rightarrow> string \<Rightarrow> json option \<Rightarrow> context_rows \<Rightarrow> envelope option \<Rightarrow> json res" where
  "canonical_payload env key external cx en =
     bindR (if key = ''voice_call_config''
            then bindR (resolve_fallback_persona_ref env cx external en) (\<lambda>r. Inr (seed_config r))
            else Inr (seed_script (xe_prompt env)))
       (\<lambda>p. if trusted_issues env key p \<noteq> [] then Inl resolution_error else Inr p)"

section \<open>The choice\<close>

definition loaded_from :: "string \<Rightarrow> json \<times> pystr \<Rightarrow> int \<Rightarrow> datetime option \<Rightarrow> config_source \<Rightarrow> string list \<Rightarrow> loaded" where
  "loaded_from key c version published src diagnostics =
     \<lparr>ld_key = key, ld_version = version, ld_schema = jget (fst c) ''schema_version'', ld_sha = snd c, ld_published = published,
      ld_payload = fst c, ld_source = src, ld_fallback = (src = Src_canonical), ld_diagnostics = diagnostics\<rparr>"

record resolved_key =
  rk_loaded :: loaded
  rk_redis :: string
  rk_mysql :: string

definition resolve_key ::
  "cap_env \<Rightarrow> string \<Rightarrow> (unit + pystr option) \<Rightarrow> context_rows \<Rightarrow> json option \<Rightarrow> envelope option \<Rightarrow> resolved_key res" where
  "resolve_key env key cached cx external en =
     (let (rc, rs0) = parse_candidate env key (case cached of Inl _ \<Rightarrow> None | Inr raw \<Rightarrow> raw);
          rs = (if isl cached then ''unavailable'' else rs0);
          row = map_of (cx_active cx) key;
          (mc, ms) = (case row of None \<Rightarrow> (None, if cx_available cx then ''missing'' else ''unavailable'')
                      | Some r \<Rightarrow> row_candidate env key r);
          version = (case row of None \<Rightarrow> 0 | Some r \<Rightarrow> ac_version r);
          published = (case row of None \<Rightarrow> None | Some r \<Rightarrow> ac_updated_at r);
          diags = [''redis_'' @ rs, ''mysql_'' @ ms];
          done = (\<lambda>l. Inr \<lparr>rk_loaded = l, rk_redis = rs, rk_mysql = ms\<rparr>) in
      case (rc, mc) of
        (Some r, Some m) \<Rightarrow>
          if snd r = snd m then done (loaded_from key r version published Src_redis diags)
          else done (loaded_from key m version published Src_mysql (diags @ [''redis_mysql_hash_mismatch'']))
      | (None, Some m) \<Rightarrow> done (loaded_from key m version published Src_mysql diags)
      | (_, None) \<Rightarrow>
          bindR (canonical_payload env key external cx en) (\<lambda>p.
            done (loaded_from key (p, xe_sha env p) 0 None Src_canonical
              (diags @ (if rc = None then [] else [''redis_without_mysql_publish_anchor''])))))"

record fallback_count =
  fc_key :: string
  fc_redis :: string
  fc_mysql :: string
  fc_outcome :: string

definition runtime_of :: "cap_env \<Rightarrow> context_rows \<Rightarrow> envelope option \<Rightarrow> int option \<Rightarrow> loaded \<Rightarrow> loaded \<Rightarrow> runtime" where
  "runtime_of env cx en user config script =
     (let gate = (if ld_fallback config then map_option en_gate en else None) in
      \<lparr>bd_config = config, bd_script = script, bd_personas = List.map_filter (row_persona_ref env) (cx_personas cx),
       bd_voice_personas = voice_history_persona_refs env (cx_history cx), bd_mysql = cx_available cx,
       bd_evidence = cx_evidence cx, bd_evidence_ok = cx_evidence_ok cx, bd_force = cx_force cx, bd_force_ok = cx_force_ok cx,
       bd_fallback_persona = (if ld_fallback config then map_option en_persona en else None),
       bd_gate = gate, bd_gate_user = user,
       bd_gate_blocked = (case gate of None \<Rightarrow> False | Some g \<Rightarrow> published_gate_blocks g user),
       bd_master = map_option fst (cx_master cx), bd_master_version = map_option snd (cx_master cx)\<rparr>)"

text \<open>The answer and the counters of fallbacks.\<close>

definition load_runtime ::
  "cap_env \<Rightarrow> (string \<Rightarrow> unit + pystr option) \<Rightarrow> pystr option \<Rightarrow> context_rows \<Rightarrow> json option \<Rightarrow> int option
     \<Rightarrow> runtime res \<times> fallback_count list" where
  "load_runtime env cache raw_envelope cx external user =
     (let en = parse_published_envelope env raw_envelope; kc = ''voice_call_config''; ks = ''voice_call_script'' in
      case resolve_key env kc (cache kc) cx external en of
        Inl x \<Rightarrow>
          (Inl x, [\<lparr>fc_key = kc,
             fc_redis = (case cache kc of Inl _ \<Rightarrow> ''unavailable'' | Inr raw \<Rightarrow> snd (parse_candidate env kc raw)),
             fc_mysql = mysql_source_status env kc (map_of (cx_active cx) kc) (cx_available cx), fc_outcome = ''anchor_fail_closed''\<rparr>])
      | Inr c \<Rightarrow>
          (case resolve_key env ks (cache ks) cx external en of
             Inl x \<Rightarrow> (Inl x, [])
           | Inr s \<Rightarrow>
               let b = runtime_of env cx en user (rk_loaded c) (rk_loaded s);
                   outcome = (if should_block_new_call b user then ''gate_blocked'' else ''continued'') in
               (Inr b, map (\<lambda>(k, r). \<lparr>fc_key = k, fc_redis = rk_redis r, fc_mysql = rk_mysql r, fc_outcome = outcome\<rparr>)
                  (filter (\<lambda>(k, r). ld_fallback (rk_loaded r)) [(kc, c), (ks, s)]))))"

end
