(* ===== verification/RuntimeClaims.thy ===== *)
theory RuntimeClaims
  imports Loader
begin

text \<open>
  What the runtime configuration guarantees: a capability is on in a call only with proof, and the published
  row decides, never the cache.
\<close>

section \<open>Reading updated objects\<close>

lemma jget_jset: "jget (jset k v j) k' = (if k' = k then v else jget j k')"
  by (simp add: jset_def jget_def dict_get_update)

lemma jkeys_jset: "set (jkeys (jset k v j)) = insert k (set (jkeys j))"
  by (simp add: jset_def jkeys_def dom_update)

lemma jhas_iff_jset: "jhas (jset k v j) k' \<longleftrightarrow> k' = k \<or> jhas j k'"
  by (auto simp: jhas_def jkeys_jset)

lemma is_obj_jset [simp]: "is_obj (jset k v j)"
  by (simp add: jset_def)

lemma jget_jdefault: "k' \<noteq> k \<Longrightarrow> jget (jdefault k v j) k' = jget j k'"
  by (simp add: jdefault_def jget_jset)

lemma jget_defaults:
  "k \<notin> {''summary'', ''concurrency'', ''interaction''} \<Longrightarrow> jget (resolved_defaults c) k = jget c k"
  by (simp add: resolved_defaults_def Let_def jget_jset jget_jdefault)

lemma jtext_inject [simp]: "jtext a = jtext b \<longleftrightarrow> a = b"
  by (simp add: jtext_def)

lemma disabled_get:
  "jget (disabled_projection c s) k =
     (if k = ''effective_scope'' then jtext ''off'' else if k \<in> {''forced_enabled'', ''enabled''} then JBool False
      else if k = ''verification_status'' then JStr s else jget c k)"
  by (simp add: disabled_projection_def jget_jset)

lemma str_in_jtext: "str_in vs v \<longleftrightarrow> (\<exists>s \<in> set vs. v = jtext s)"
  by (auto simp: str_in_def jtext_def list_ex_iff)

section \<open>One capability\<close>

lemma resolve_cases:
  assumes "resolve_runtime_capability env cap dims now = Inr r"
  shows "(\<exists>s. r = disabled_projection cap s \<and> (jget cap ''verification_status'' \<noteq> jtext ''verified'' \<longrightarrow> JStr s = jget cap ''verification_status'') \<and>
        (jget cap ''verification_status'' = jtext ''verified'' \<longrightarrow> s = asc ''stale''))
    \<or> (jget cap ''verification_status'' = jtext ''verified'' \<and> fresh_evidence env cap dims now \<and>
       (jget cap ''enabled'' = JBool True \<and> r = cap \<or> jget r ''enabled'' = JBool False \<and> jget r ''verification_status'' = jtext ''verified''))"
  using assms
  by (auto simp: resolve_runtime_capability_def Let_def str_in_jtext jget_jset split: if_split_asm) (auto simp: jtext_def)

text \<open>What narrowing to the call's user leaves on.\<close>

lemma scope_enabled:
  assumes "scope_capability_for_call original r user ids f = Inr s" "jget s ''enabled'' = JBool True"
  shows "f \<and> forced_on original \<and> listed ids user \<and> str_in [''unverified'', ''stale''] (jget r ''verification_status'') \<and> forced_on s
    \<or> s = r \<and> \<not> str_in [''unverified'', ''failed'', ''stale''] (jget r ''verification_status'') \<and>
      (jget r ''effective_scope'' = jtext ''test'' \<longrightarrow> listed ids user)"
  using assms
  by (auto simp: scope_capability_for_call_def Let_def forced_on_def disabled_get jget_jset split: if_split_asm)

lemma no_dimensions_stale: "\<not> fresh_evidence env cap missing_dimensions now"
proof -
  have "evidence_dimensions missing_dimensions = Inl (ValueError ''VOICE_CAPABILITY_EVIDENCE_DIMENSION_INVALID'')"
    by (simp add: evidence_dimensions_def missing_dimensions_def EVIDENCE_FINGERPRINT_FIELDS_def)
  then show ?thesis by (simp add: fresh_evidence_def compute_evidence_fingerprint_def)
qed

lemma snapshot_enabled:
  assumes s: "snapshot_capability env b dims now user ids caps k = Inr (s, src)" and e: "jget s ''enabled'' = JBool True"
  defines "cap \<equiv> jget caps k"
  shows "jget cap ''verification_status'' = jtext ''verified'' \<and> jget cap ''enabled'' = JBool True \<and> s = cap \<and> src = (if forced_on cap then force_source b k else None) \<and>
      evidence_anchored env b now k cap \<and> fresh_evidence env cap (call_dimensions dims k) now \<and>
      (jget cap ''effective_scope'' = jtext ''test'' \<longrightarrow> listed ids user)
    \<or> jget cap ''verification_status'' \<noteq> jtext ''failed'' \<and> forced_on cap \<and> listed ids user \<and> forced_on s \<and>
      src \<noteq> None \<and> src = force_source b k"
proof -
  let ?ok = "jget cap ''verification_status'' = jtext ''verified'' \<longrightarrow> evidence_anchored env b now k cap"
  obtain r where r: "resolve_runtime_capability env cap (call_dimensions dims k) now = Inr r"
      and sc: "scope_capability_for_call cap (if ?ok then r else disabled_projection r (asc ''stale'')) user ids (?ok \<and> force_source b k \<noteq> None) = Inr s"
      and src: "src = (if forced_on s then force_source b k else None)"
    using s unfolding snapshot_capability_def cap_def [symmetric]
    by (auto simp: Let_def bindR_Inr_iff split: if_split_asm sum.split_asm)
  note c = resolve_cases [OF r]
  from scope_enabled [OF sc e] show ?thesis
  proof
    assume h: "(?ok \<and> force_source b k \<noteq> None) \<and> forced_on cap \<and> listed ids user \<and>
      str_in [''unverified'', ''stale''] (jget (if ?ok then r else disabled_projection r (asc ''stale'')) ''verification_status'') \<and> forced_on s"
    then have st: "str_in [''unverified'', ''stale''] (jget r ''verification_status'')" by (auto split: if_split_asm)
    have "jget cap ''verification_status'' \<noteq> jtext ''failed''"
      using c st by (auto simp: str_in_jtext disabled_get)
    then show ?thesis using h src by auto
  next
    assume h: "s = (if ?ok then r else disabled_projection r (asc ''stale'')) \<and>
      \<not> str_in [''unverified'', ''failed'', ''stale''] (jget (if ?ok then r else disabled_projection r (asc ''stale'')) ''verification_status'') \<and>
      (jget (if ?ok then r else disabled_projection r (asc ''stale'')) ''effective_scope'' = jtext ''test'' \<longrightarrow> listed ids user)"
    then have ok: "?ok" using e by (auto simp: disabled_get split: if_split_asm)
    with h have sr: "s = r" "jget r ''effective_scope'' = jtext ''test'' \<longrightarrow> listed ids user" by auto
    from c show ?thesis
    proof
      assume "\<exists>z. r = disabled_projection cap z \<and> (jget cap ''verification_status'' \<noteq> jtext ''verified'' \<longrightarrow> JStr z = jget cap ''verification_status'') \<and>
        (jget cap ''verification_status'' = jtext ''verified'' \<longrightarrow> z = asc ''stale'')"
      then show ?thesis using e sr(1) by (auto simp: disabled_get)
    next
      assume v: "jget cap ''verification_status'' = jtext ''verified'' \<and> fresh_evidence env cap (call_dimensions dims k) now \<and>
        (jget cap ''enabled'' = JBool True \<and> r = cap \<or> jget r ''enabled'' = JBool False \<and> jget r ''verification_status'' = jtext ''verified'')"
      then have "r = cap" "jget cap ''enabled'' = JBool True" using e sr(1) by auto
      then show ?thesis using v ok sr src by auto
    qed
  qed
qed

section \<open>The snapshot\<close>

lemma each_capability_get:
  "each_capability f ks = Inr rs \<Longrightarrow> map fst rs = ks \<and> (\<forall>(k, r) \<in> set rs. f k = Inr r)"
  by (induction ks arbitrary: rs) (auto simp: bindR_Inr_iff)

lemma keys_distinct: "distinct VOICE_CAPABILITY_KEYS"
  by (simp add: VOICE_CAPABILITY_KEYS_def)

lemma map_of_map_snd: "map_of (map (\<lambda>(k, v). (k, f k v)) xs) k = map_option (f k) (map_of xs k)"
  by (induction xs) auto

lemma snapshot_rows:
  assumes "build_snapshot env b dims now user = Inr (cfg, caps)"
  obtains rows c1 where
    "each_capability (snapshot_capability env b dims now user (jget (jget (ld_payload (bd_config b)) ''global'') ''test_user_ids'')
       (jget (ld_payload (bd_config b)) ''capabilities'')) VOICE_CAPABILITY_KEYS = Inr rows"
    "caps = capability_snapshot_of rows" "c1 = resolved_defaults (ld_payload (bd_config b))"
    "cfg = config_snapshot_of env b (jset ''capabilities'' (JObj (map (\<lambda>(k, s, src). (k, s)) rows)) c1) (script_defaults env (ld_payload (bd_script b)))"
    "trusted_issues env ''voice_call_config'' (jset ''capabilities'' (JObj (map (\<lambda>(k, s, src). (k, s)) rows)) c1) = []"
    "persona_anchored b (jget (ld_payload (bd_config b)) ''persona_ref'')"
    "validate_loaded_metadata env (bd_config b) ''voice_call_config'' = Inr (ld_payload (bd_config b))"
    "trusted_issues env ''voice_call_config'' (ld_payload (bd_config b)) = []"
proof -
  have v: "validate_loaded_metadata env l k = Inr p \<Longrightarrow> p = ld_payload l" for l k p
    by (auto simp: validate_loaded_metadata_def Let_def split: if_split_asm)
  show thesis
    using assms that unfolding build_snapshot_def
    by (auto simp: bindR_Inr_iff Let_def jget_defaults dest!: v split: if_split_asm)
qed

lemma capability_snapshot_get:
  assumes "each_capability f VOICE_CAPABILITY_KEYS = Inr rows" "k \<in> set VOICE_CAPABILITY_KEYS"
  obtains s src where "f k = Inr (s, src)" "jget (capability_snapshot_of rows) k = (case src of None \<Rightarrow> s | Some x \<Rightarrow> jset ''force_source'' x s)"
    "jget (JObj (map (\<lambda>(k, s, src). (k, s)) rows)) k = s"
proof -
  note g = each_capability_get [OF assms(1)]
  obtain s src where m: "map_of rows k = Some (s, src)"
    using g assms(2) by (metis map_of_eq_None_iff not_None_eq prod.exhaust set_map)
  then have "f k = Inr (s, src)" using g map_of_SomeD [OF m] by auto
  moreover have "map_of (map (\<lambda>(k, s, src). (k, case src of None \<Rightarrow> s | Some x \<Rightarrow> jset ''force_source'' x s)) rows) k =
      Some (case src of None \<Rightarrow> s | Some x \<Rightarrow> jset ''force_source'' x s)"
    using m map_of_map_snd [of "\<lambda>k (s, src). case src of None \<Rightarrow> s | Some x \<Rightarrow> jset ''force_source'' x s" rows k]
    by (cases src) (simp_all add: case_prod_unfold)
  moreover have "map_of (map (\<lambda>(k, s, src). (k, s)) rows) k = Some s"
    using m map_of_map_snd [of "\<lambda>k (s, src). s" rows k] by (simp add: case_prod_unfold)
  ultimately show thesis using that by (cases src) (simp_all add: capability_snapshot_of_def)
qed

section \<open>Correctness\<close>

text \<open>C40: A capability is on in a call only with proof. Whatever a capability of the snapshot says, if it is enabled then
  either the published configuration enables it as verified, the six dimensions of the call have the
  fingerprint of its evidence, the evidence has not expired, a passed report of the database stands behind
  it, and its scope covers the user; or it is a test forced by an administrator for which a source is
  recorded, the user is a listed tester and its evidence did not fail, and the source is part of the snapshot.
  Without the call's dimensions only forced tests remain.\<close>

theorem enabled_capability_justified:
  assumes "build_snapshot env b dims now user = Inr (cfg, caps)" "k \<in> set VOICE_CAPABILITY_KEYS"
    "jget (jget caps k) ''enabled'' = JBool True"
  defines "cap \<equiv> jget (jget (ld_payload (bd_config b)) ''capabilities'') k"
    and "tester \<equiv> listed (jget (jget (ld_payload (bd_config b)) ''global'') ''test_user_ids'') user"
  shows "jget cap ''verification_status'' = jtext ''verified'' \<and> jget cap ''enabled'' = JBool True \<and> dims \<noteq> None \<and>
      fresh_evidence env cap (call_dimensions dims k) now \<and> evidence_anchored env b now k cap \<and>
      (jget cap ''effective_scope'' = jtext ''test'' \<longrightarrow> tester)
    \<or> jget cap ''verification_status'' \<noteq> jtext ''failed'' \<and> forced_on cap \<and> tester \<and>
      (\<exists>src. force_source b k = Some src \<and> jget (jget caps k) ''force_source'' = src)"
proof -
  obtain rows where r: "each_capability (snapshot_capability env b dims now user (jget (jget (ld_payload (bd_config b)) ''global'') ''test_user_ids'')
       (jget (ld_payload (bd_config b)) ''capabilities'')) VOICE_CAPABILITY_KEYS = Inr rows" "caps = capability_snapshot_of rows"
    using snapshot_rows [OF assms(1)] by metis
  obtain s src where s: "snapshot_capability env b dims now user (jget (jget (ld_payload (bd_config b)) ''global'') ''test_user_ids'')
       (jget (ld_payload (bd_config b)) ''capabilities'') k = Inr (s, src)" "jget caps k = (case src of None \<Rightarrow> s | Some x \<Rightarrow> jset ''force_source'' x s)"
    using capability_snapshot_get [OF r(1) assms(2)] r(2) by metis
  have e: "jget s ''enabled'' = JBool True" using assms(3) s(2) by (auto simp: jget_jset split: option.splits)
  have d: "dims \<noteq> None" if "fresh_evidence env cap (call_dimensions dims k) now"
    using that no_dimensions_stale by (cases dims) (simp_all add: call_dimensions_def)
  show ?thesis
    using snapshot_enabled [OF s(1) e] d s(2) unfolding cap_def [symmetric] tester_def [symmetric]
    by (auto simp: jget_jset)
qed

text \<open>The published row decides, never the cache. When the active row of a key is usable, the configuration has the
  row's version, publication time and content hash and is no fallback, whatever the cache holds; the cache only
  supplies a payload of the same hash. When no row is usable, the configuration is the seed under a persona
  reference, version 0, marked as a fallback, even when the cache holds a valid payload, or loading fails.\<close>

theorem published_row_decides:
  assumes "resolve_key env key cached cx external en = Inr rk"
  defines "l \<equiv> rk_loaded rk"
  shows "case map_of (cx_active cx) key of
      Some row \<Rightarrow>
        (case row_candidate env key row of
           (Some (p, sha), status) \<Rightarrow> ld_version l = ac_version row \<and> ld_version l \<ge> 1 \<and> ld_published l = ac_updated_at row \<and>
             ld_published l \<noteq> None \<and> ld_sha l = sha \<and> \<not> ld_fallback l \<and> xe_sha env (ld_payload l) = sha \<and> trusted_issues env key (ld_payload l) = [] \<and>
             (ld_payload l = p \<or> (\<exists>raw v. cached = Inr (Some raw) \<and> xe_loads env raw = Some v \<and> ld_payload l = v))
         | (None, status) \<Rightarrow> ld_fallback l \<and> ld_version l = 0 \<and> canonical_payload env key external cx en = Inr (ld_payload l))
    | None \<Rightarrow> ld_fallback l \<and> ld_version l = 0 \<and> canonical_payload env key external cx en = Inr (ld_payload l)"
proof -
  have pc: "parse_candidate env key raw = (Some (p, sha), st) \<Longrightarrow> sha = xe_sha env p \<and> trusted_issues env key p = [] \<and>
      (\<exists>t. raw = Some t \<and> xe_loads env t = Some p)" for raw p sha st
    by (auto simp: parse_candidate_def split: option.split_asm if_split_asm)
  have rc: "row_candidate env key row = (Some (p, sha), st) \<Longrightarrow> 1 \<le> ac_version row \<and> ac_updated_at row \<noteq> None \<and>
      parse_candidate env key (ac_value row) = (Some (p, sha), st)" for row p sha st
    by (auto simp: row_candidate_def Let_def split: if_split_asm)
  show ?thesis
    using assms(1) unfolding l_def resolve_key_def
    by (auto simp: Let_def loaded_from_def bindR_Inr_iff split: option.split_asm prod.split_asm option.split prod.split if_split_asm sum.split_asm
        dest!: rc pc)
qed

section \<open>Witnesses\<close>

definition forced_capability :: json where
  "forced_capability = jset ''effective_scope'' (jtext ''test'') (jset ''forced_enabled'' (JBool True) (jset ''enabled'' (JBool True)
     default_capability))"

definition demo_caps :: json where
  "demo_caps = JObj (map (\<lambda>k. (k, if k = ''supports_reply_cancel'' then forced_capability else default_capability)) VOICE_CAPABILITY_KEYS)"

definition demo_switches :: json where
  "demo_switches = jset ''test_user_ids'' (JList [JInt 7]) (jset ''rollout'' (JObj [(''mode'', jtext ''allowlist''), (''user_ids'', JList [JInt 7])]) seed_global)"

definition demo_payload :: json where
  "demo_payload = jset ''capabilities'' demo_caps (jset ''global'' demo_switches (seed_config seed_persona))"

definition demo_cap_env :: cap_env where
  "demo_cap_env = \<lparr>xe_cfg = seed_env, xe_sha = (\<lambda>v. []), xe_sha_text = (\<lambda>t. replicate 64 48), xe_fingerprint = (\<lambda>ds. []),
     xe_loads = (\<lambda>t. Some (seed_script (asc ''summarise''))), xe_iso = (\<lambda>t. None), xe_isoformat = (\<lambda>t. []), xe_prompt = asc ''summarise''\<rparr>"

lemma fields_update:
  "P k \<Longrightarrow> list_all P (json_keys v) \<Longrightarrow> list_all P (field_keys kvs) \<Longrightarrow> list_all P (field_keys (AList.update k v kvs))"
  "list_all Q (json_strings v) \<Longrightarrow> list_all Q (field_strings kvs) \<Longrightarrow> list_all Q (field_strings (AList.update k v kvs))"
  by (induction kvs) auto

lemma scan_jset: "scan e [] j = [] \<Longrightarrow> is_obj j \<Longrightarrow> scan e [] v = [] \<Longrightarrow> key_ok k \<Longrightarrow> scan e [] (jset k v j) = []"
  by (cases j) (auto simp: scan_Nil jset_def fields_update)

lemma scan_field: "scan e [] j = [] \<Longrightarrow> jhas j k \<Longrightarrow> scan e [] (jget j k) = [] \<and> key_ok k"
proof -
  have "list_all key_ok (field_keys kvs) \<Longrightarrow> list_all (text_ok e) (field_strings kvs) \<Longrightarrow> map_of kvs k = Some v \<Longrightarrow>
      scan e [] v = [] \<and> key_ok k" for kvs v
    by (induction kvs) (auto simp: scan_Nil split: if_split_asm)
  then show "scan e [] j = [] \<Longrightarrow> jhas j k \<Longrightarrow> scan e [] (jget j k) = [] \<and> key_ok k"
    by (cases j) (auto simp: scan_Nil jhas_iff jget_def)
qed

lemma demo_caps_get:
  "jget demo_caps k = (if k = ''supports_reply_cancel'' then forced_capability
     else if k \<in> set VOICE_CAPABILITY_KEYS then default_capability else JNull)"
proof -
  have "map_of (map (\<lambda>k. (k, f k)) ks) k = (if k \<in> set ks then Some (f k) else None)" for f :: "string \<Rightarrow> json" and ks
    by (induction ks) auto
  then show ?thesis by (simp add: demo_caps_def VOICE_CAPABILITY_KEYS_def)
qed

lemma forced_simp: "forced_capability = JObj (AList.update ''effective_scope'' (jtext ''test'') (AList.update ''forced_enabled'' (JBool True)
    (AList.update ''enabled'' (JBool True) (obj_fields default_capability))))"
  by (simp add: forced_capability_def jset_def default_capability_def)

lemma forced_keys_same: "jkeys forced_capability = jkeys default_capability"
  by (simp add: forced_simp default_capability_def jkeys_def)

lemma trusted_capability:
  assumes "c \<in> {default_capability, forced_capability}" "jget caps k = c"
  shows "list_all (\<lambda>i. fst i = ''VOICE_CONFIG_MANUAL_VERIFIED_FORBIDDEN'') (capability_issues caps k)"
proof -
  have k: "jkeys c = jkeys default_capability" using assms(1) forced_keys_same by blast
  have d: "exact_keys default_capability f capability_fields capability_fields = []" for f
    by (simp add: exact_keys_Nil default_capability_def capability_fields_def projection_fields_def jkeys_def)
  have o: "is_obj c" using assms(1) by (auto simp: forced_simp default_capability_def)
  have x: "exact_keys c f capability_fields capability_fields = []" for f
    using d [of f] k o by (simp add: exact_keys_Nil)
  have g: "is_obj c" "jget c ''fallback_mode'' = jtext ''next_turn''" "jget c ''last_test_result'' = jtext ''not_run''"
    "jget c ''verification_status'' = jtext ''unverified''" "jget c ''evidence_ttl_days'' = JInt 30" "is_bool (jget c ''enabled'')"
    "is_bool (jget c ''forced_enabled'')" "str_in [''off'', ''test'', ''all''] (jget c ''effective_scope'')"
    "\<forall>k \<in> set projection_fields. jget c k = JNull"
    using assms(1) by (auto simp: forced_simp default_capability_def jtext_def str_in_def projection_fields_def)
  have n: "list_all P (must b i) \<longleftrightarrow> b \<or> P i" for P b i by (simp add: must_def)
  have e: "list_all P (each ks f) \<longleftrightarrow> (\<forall>k \<in> set ks. list_all P (f k))" for P ks f by (auto simp: each_def list_all_iff)
  show ?thesis
    using g unfolding capability_issues_def assms(2) Let_def x
    by (simp add: n e manual_def str_in_jtext int_range_def)
      (simp add: jtext_def nonblank_asc py_space_def)
qed

lemma demo_capabilities: "list_all (\<lambda>i. fst i = ''VOICE_CONFIG_MANUAL_VERIFIED_FORBIDDEN'') (capabilities_issues demo_payload)"
proof -
  have "list_all (\<lambda>i. fst i = ''VOICE_CONFIG_MANUAL_VERIFIED_FORBIDDEN'') (capability_issues demo_caps k)" if "k \<in> set VOICE_CAPABILITY_KEYS" for k
    by (rule trusted_capability [of "if k = ''supports_reply_cancel'' then forced_capability else default_capability"])
      (use that in \<open>simp_all add: demo_caps_get\<close>)
  moreover have "jkeys demo_caps = VOICE_CAPABILITY_KEYS" by (simp add: demo_caps_def jkeys_def comp_def)
  ultimately show ?thesis
    by (simp add: capabilities_issues_def Let_def demo_payload_def jget_jset demo_caps_def [symmetric] jhas_def each_def list_all_iff)
      (simp add: demo_caps_def)
qed

lemma version_issues_jset: "k \<noteq> ''schema_version'' \<Longrightarrow> version_issues (jset k v c) = version_issues c"
  unfolding version_issues_def by (simp only: jget_jset simp_thms if_False if_not_P not_sym)

lemma persona_issues_jset: "k \<noteq> ''persona_ref'' \<Longrightarrow> persona_issues (jset k v c) = persona_issues c"
  unfolding persona_issues_def by (simp only: jget_jset simp_thms if_False if_not_P not_sym)

lemma s2s_issues_jset: "k \<noteq> ''s2s'' \<Longrightarrow> s2s_issues e (jset k v c) = s2s_issues e c"
  unfolding s2s_issues_def by (simp only: jget_jset simp_thms if_False if_not_P not_sym)

lemma voice_issues_jset: "k \<noteq> ''voice'' \<Longrightarrow> voice_issues (jset k v c) = voice_issues c"
  unfolding voice_issues_def by (simp only: jget_jset simp_thms if_False if_not_P not_sym)

lemma quota_issues_jset: "k \<noteq> ''quota'' \<Longrightarrow> quota_issues (jset k v c) = quota_issues c"
  unfolding quota_issues_def by (simp only: jget_jset simp_thms if_False if_not_P not_sym)

lemma growth_issues_jset: "k \<noteq> ''growth'' \<Longrightarrow> growth_issues (jset k v c) = growth_issues c"
  unfolding growth_issues_def by (simp only: jget_jset simp_thms if_False if_not_P not_sym)

lemma concurrency_issues_jset: "k \<noteq> ''concurrency'' \<Longrightarrow> concurrency_issues (jset k v c) = concurrency_issues c"
  unfolding concurrency_issues_def by (simp only: jget_jset simp_thms if_False if_not_P not_sym)

lemma followup_issues_jset: "k \<noteq> ''followup'' \<Longrightarrow> followup_issues (jset k v c) = followup_issues c"
  unfolding followup_issues_def by (simp only: jget_jset simp_thms if_False if_not_P not_sym)

lemma retention_issues_jset: "k \<noteq> ''retention'' \<Longrightarrow> retention_issues (jset k v c) = retention_issues c"
  unfolding retention_issues_def by (simp only: jget_jset simp_thms if_False if_not_P not_sym)

lemma summary_issues_jset: "k \<noteq> ''summary'' \<Longrightarrow> summary_issues (jset k v c) m = summary_issues c m"
  unfolding summary_issues_def by (simp only: jget_jset jhas_iff_jset simp_thms if_False if_not_P not_sym)

lemma interaction_issues_jset: "k \<noteq> ''interaction'' \<Longrightarrow> interaction_issues (jset k v c) = interaction_issues c"
  unfolding interaction_issues_def by (simp only: jget_jset jhas_iff_jset simp_thms if_False if_not_P not_sym)

lemmas parts_jset = version_issues_jset persona_issues_jset s2s_issues_jset voice_issues_jset quota_issues_jset
  growth_issues_jset concurrency_issues_jset followup_issues_jset retention_issues_jset summary_issues_jset interaction_issues_jset

lemma demo_valid: "validate_voice_bundle seed_env ''voice_call_config'' (seed_config seed_persona) = []"
  "validate_voice_bundle seed_env ''voice_call_script'' (seed_script (asc ''summarise'')) = []"
  using seed_bundles_valid_h [OF seed_persona_ok seed_env_ok] by blast+

lemma demo_get:
  "jget demo_payload k = (if k = ''capabilities'' then demo_caps
     else if k = ''global'' then demo_switches else jget (seed_config seed_persona) k)"
  "jhas demo_payload k \<longleftrightarrow> k \<in> {''capabilities'', ''global''} \<or> jhas (seed_config seed_persona) k" "is_obj demo_payload"
  by (auto simp: demo_payload_def jget_jset jhas_iff_jset)

lemma demo_global: "global_issues demo_payload = []"
  unfolding global_issues_def demo_get(1)
  by (simp add: Let_def demo_switches_def seed_global_def jset_def jtext_def exact_keys_Nil jkeys_def nonblank_iff py_space_def str_in_def)

lemma config_scan: "validate_voice_bundle e ''voice_call_config'' c = [] \<Longrightarrow> scan e [] c = [] \<and> is_obj c"
  by (simp add: validate_voice_bundle_def scan_forbidden_fields_def split: if_split_asm)

lemma demo_scan: "scan seed_env [] demo_payload = []"
proof -
  let ?c = "seed_config seed_persona" and ?k = "''supports_reply_cancel''"
  have c: "scan seed_env [] ?c = []" using config_scan [OF demo_valid(1)] by blast
  have g: "scan seed_env [] seed_global = [] \<and> key_ok ''global''" using scan_field [OF c, of "''global''"] by (simp add: jhas_def)
  have a: "scan seed_env [] (JObj (map (\<lambda>k. (k, default_capability)) VOICE_CAPABILITY_KEYS)) = [] \<and> key_ok ''capabilities''"
    using scan_field [OF c, of "''capabilities''"] by (simp add: jhas_def)
  have d: "scan seed_env [] default_capability = [] \<and> list_all key_ok VOICE_CAPABILITY_KEYS"
    using conjunct1 [OF a] unfolding scan_Nil(1) by (simp add: VOICE_CAPABILITY_KEYS_def)
  have dk: "key_ok ''enabled''" "key_ok ''forced_enabled''" "key_ok ''effective_scope''"
    using scan_field [OF conjunct1 [OF d]] by (simp_all add: default_capability_def jhas_def jkeys_def)
  have gk: "key_ok ''test_user_ids''" "key_ok ''rollout''"
    using scan_field [OF conjunct1 [OF g]] by (simp_all add: seed_global_def jhas_def jkeys_def)
  have ro: "scan seed_env [] (JObj [(''mode'', JStr (asc ''allowlist'')), (''user_ids'', JList [])]) = []"
    using scan_field [OF conjunct1 [OF g], of "''rollout''"] by (simp add: seed_global_def jhas_def jkeys_def)
  have rn: "scan seed_env [] (JObj [(''mode'', jtext ''allowlist''), (''user_ids'', JList [JInt 7])]) = []"
    using ro unfolding scan_Nil(1) by (simp add: jtext_def)
  have t: "scan seed_env [] (jtext ''test'') = []"
    using plain_text_ok [of "''test''" seed_env] by (simp add: jtext_def plain_text_simps scan_Nil text_ok_def seed_env_def)
  have v: "scan seed_env [] (JBool b) = []" "scan seed_env [] (JList [JInt n]) = []" for b n by (simp_all add: scan_Nil)
  have o: "is_obj default_capability" "is_obj seed_global" by (simp_all add: default_capability_def seed_global_def)
  have f: "scan seed_env [] forced_capability = []"
    unfolding forced_capability_def by (intro scan_jset v t dk o is_obj_jset conjunct1 [OF d])
  have "scan seed_env [] demo_caps = []"
    using d f unfolding scan_Nil(1) by (simp add: demo_caps_def VOICE_CAPABILITY_KEYS_def)
  then show ?thesis
    unfolding demo_payload_def demo_switches_def
    by (intro scan_jset v gk rn o c conjunct1 [OF g] conjunct2 [OF g] conjunct2 [OF a] is_obj_jset seed_config_shape(1))
qed

lemma exact_keys_jset: "exact_keys j f req al = [] \<Longrightarrow> k \<in> set al \<Longrightarrow> exact_keys (jset k v j) f req al = []"
  unfolding exact_keys_Nil jkeys_jset using is_obj_jset by blast

lemma demo_keys: "exact_keys demo_payload ''config'' config_top (config_top @ [''interaction'', ''summary'']) = []"
proof -
  have "''capabilities'' \<in> set config_top" "''global'' \<in> set config_top" by (simp_all add: config_top_def)
  then show ?thesis unfolding demo_payload_def by (intro exact_keys_jset seed_keys) simp_all
qed

lemma demo_trusted: "trusted_issues demo_cap_env ''voice_call_config'' demo_payload = []"
proof -
  have v: "validate_voice_call_config seed_env (seed_config seed_persona) = []"
    using demo_valid(1) by (simp add: validate_voice_bundle_def)
  have "list_all (\<lambda>i. fst i = ''VOICE_CONFIG_MANUAL_VERIFIED_FORBIDDEN'') (validate_voice_call_config seed_env demo_payload)"
    unfolding validate_voice_call_config_def demo_keys demo_global list_all_append
    using v demo_capabilities unfolding validate_voice_call_config_def demo_payload_def by (simp add: parts_jset)
  then show ?thesis
    unfolding trusted_issues_def validate_voice_bundle_def scan_forbidden_fields_def
    by (simp add: demo_cap_env_def demo_scan demo_get list_all_iff filter_empty_conv)
qed

definition demo_script :: json where
  "demo_script = seed_script (asc ''summarise'')"

definition demo_loaded :: "string \<Rightarrow> json \<Rightarrow> loaded" where
  "demo_loaded key p = \<lparr>ld_key = key, ld_version = 1, ld_schema = JInt 1, ld_sha = [], ld_published = Some 0, ld_payload = p,
     ld_source = Src_mysql, ld_fallback = False, ld_diagnostics = []\<rparr>"

definition demo_runtime :: runtime where
  "demo_runtime = \<lparr>bd_config = demo_loaded ''voice_call_config'' demo_payload, bd_script = demo_loaded ''voice_call_script'' demo_script,
     bd_personas = [seed_persona], bd_voice_personas = [], bd_mysql = True, bd_evidence = [], bd_evidence_ok = True,
     bd_force = [(''supports_reply_cancel'', JObj [])], bd_force_ok = True, bd_fallback_persona = None, bd_gate = None,
     bd_gate_user = None, bd_gate_blocked = False, bd_master = Some True, bd_master_version = Some 1\<rparr>"

lemma demo_metadata:
  "validate_loaded_metadata demo_cap_env (demo_loaded ''voice_call_config'' demo_payload) ''voice_call_config'' = Inr demo_payload"
  "validate_loaded_metadata demo_cap_env (demo_loaded ''voice_call_script'' demo_script) ''voice_call_script'' = Inr demo_script"
  by (simp_all add: validate_loaded_metadata_def demo_loaded_def demo_get Let_def demo_cap_env_def demo_script_def)

lemma demo_script_trusted: "trusted_issues demo_cap_env ''voice_call_script'' demo_script = []"
  using demo_valid(2) by (simp add: trusted_issues_def demo_cap_env_def demo_script_def)

lemma demo_has: "jhas demo_payload ''summary''" "jhas demo_payload ''concurrency''" "jhas demo_payload ''interaction''"
  unfolding demo_get(2) by (simp_all add: jhas_def)

lemma demo_defaults: "resolved_defaults demo_payload = demo_payload"
proof -
  have "merge_over VOICE_CONNECTION_DEFAULTS seed_concurrency = seed_concurrency"
    by (simp add: merge_over_def seed_concurrency_def VOICE_CONNECTION_DEFAULTS_def)
  moreover have "merge_over VOICE_INTERACTION_DEFAULTS seed_interaction = seed_interaction"
    by (simp add: merge_over_def seed_interaction_def VOICE_INTERACTION_DEFAULTS_def)
  moreover have "jset ''interaction'' seed_interaction (jset ''concurrency'' seed_concurrency demo_payload) = demo_payload"
    by (simp add: demo_payload_def jset_def seed_config_def)
  ultimately show ?thesis
    by (simp add: resolved_defaults_def Let_def jdefault_def demo_has demo_get(1) jget_def'_has jhas_iff_jset jget_jset)
qed

lemma demo_forced:
  "resolve_runtime_capability e forced_capability d 0 = Inr (disabled_projection forced_capability (asc ''unverified''))"
  "jget forced_capability ''verification_status'' = jtext ''unverified''" "forced_on forced_capability"
  by (simp_all add: resolve_runtime_capability_def forced_capability_def jget_jset default_capability_def Let_def str_in_jtext jtext_def forced_on_def)

lemma disabled_default: "disabled_projection default_capability (asc ''unverified'') = default_capability"
  unfolding disabled_projection_def default_capability_def jset_def jtext_def by simp

lemma demo_default:
  "resolve_runtime_capability e default_capability d 0 = Inr default_capability"
  "jget default_capability ''verification_status'' = jtext ''unverified''" "\<not> forced_on default_capability"
proof -
  show s: "jget default_capability ''verification_status'' = jtext ''unverified''" by (simp add: default_capability_def jtext_def)
  show "\<not> forced_on default_capability" by (simp add: default_capability_def forced_on_def)
  have "is_obj default_capability" by (simp add: default_capability_def)
  then show "resolve_runtime_capability e default_capability d 0 = Inr default_capability"
    using disabled_default by (simp add: resolve_runtime_capability_def s str_in_jtext) (simp add: jtext_def)
qed

lemma demo_scoped:
  "scope_capability_for_call default_capability default_capability u ids a = Inr default_capability"
  "scope_capability_for_call forced_capability (disabled_projection forced_capability (asc ''unverified'')) (Some 7) (JList [JInt 7]) True =
     Inr forced_capability"
  subgoal using disabled_default
    by (simp add: scope_capability_for_call_def demo_default Let_def str_in_jtext) (simp add: default_capability_def jtext_def)
  subgoal by (simp add: scope_capability_for_call_def disabled_projection_def jget_jset listed_def str_in_jtext forced_capability_def default_capability_def jset_def)
      (simp add: jtext_def jset_def)
  done

lemma demo_capability:
  assumes "k \<in> set VOICE_CAPABILITY_KEYS"
  shows "snapshot_capability demo_cap_env demo_runtime None 0 (Some 7) (JList [JInt 7]) demo_caps k =
     Inr (jget demo_caps k, if k = ''supports_reply_cancel'' then Some (JObj []) else None)"
proof -
  have m: "is_obj missing_dimensions" "set (jkeys missing_dimensions) = set EVIDENCE_FINGERPRINT_FIELDS"
    by (auto simp: missing_dimensions_def jkeys_def comp_def)
  have f: "force_source demo_runtime k = (if k = ''supports_reply_cancel'' then Some (JObj []) else None)" for k
    by (simp add: force_source_def demo_runtime_def)
  have n: "jtext ''unverified'' \<noteq> jtext ''verified''" by (simp add: jtext_def)
  show ?thesis
    using assms by (simp add: snapshot_capability_def call_dimensions_def m f demo_caps_get demo_forced demo_default demo_scoped n Let_def)
qed

lemma each_capability_map: "\<forall>k \<in> set ks. f k = Inr (g k) \<Longrightarrow> each_capability f ks = Inr (map (\<lambda>k. (k, g k)) ks)"
  by (induction ks) auto

lemma demo_rows:
  "each_capability (snapshot_capability demo_cap_env demo_runtime None 0 (Some 7) (JList [JInt 7]) demo_caps) VOICE_CAPABILITY_KEYS =
     Inr (map (\<lambda>k. (k, jget demo_caps k, if k = ''supports_reply_cancel'' then Some (JObj []) else None)) VOICE_CAPABILITY_KEYS)"
  by (rule each_capability_map) (use demo_capability in blast)

lemma demo_again: "jset ''capabilities'' (JObj (map (\<lambda>(k, s, src). (k, s))
    (map (\<lambda>k. (k, jget demo_caps k, if k = ''supports_reply_cancel'' then Some (JObj []) else None)) VOICE_CAPABILITY_KEYS))) demo_payload = demo_payload"
proof -
  have "jget demo_caps k = (if k = ''supports_reply_cancel'' then forced_capability else default_capability)" if "k \<in> set VOICE_CAPABILITY_KEYS" for k
    using that by (simp add: demo_caps_get)
  then have "JObj (map (\<lambda>(k, s, src). (k, s)) (map (\<lambda>k. (k, jget demo_caps k, if k = ''supports_reply_cancel'' then Some (JObj []) else None))
      VOICE_CAPABILITY_KEYS)) = demo_caps"
    by (simp add: demo_caps_def comp_def cong: map_cong)
  moreover have "jset k v (jset k v j) = jset k v j" for k v j by (simp add: jset_def)
  ultimately show ?thesis by (simp add: demo_payload_def)
qed

lemma demo_persona: "persona_anchored demo_runtime (jget demo_payload ''persona_ref'')"
proof -
  have h: "hex64 (replicate 64 48)" "strip_sha (replicate 64 48) = replicate 64 48"
    by (simp_all add: hex64_def digit_def list_all_iff strip_sha_def asc_def eval_nat_numeral)
  obtain r where "persona_ref_shape seed_persona = Some r"
    unfolding persona_ref_shape_def by (simp add: seed_persona_def jkeys_def h jtext_def)
  then show ?thesis
    by (simp add: demo_get(1) persona_anchored_def persona_ref_is_anchored_def demo_runtime_def map_filter_simps)
qed

lemma demo_snapshot: "\<exists>cfg caps. build_snapshot demo_cap_env demo_runtime None 0 (Some 7) = Inr (cfg, caps) \<and>
    jget cfg ''resolved_config'' = demo_payload \<and> jget (jget caps ''supports_reply_cancel'') ''enabled'' = JBool True"
proof -
  have r: "bd_config demo_runtime = demo_loaded ''voice_call_config'' demo_payload"
    "bd_script demo_runtime = demo_loaded ''voice_call_script'' demo_script" by (simp_all add: demo_runtime_def)
  have g: "jget (jget demo_payload ''global'') ''test_user_ids'' = JList [JInt 7]" "jget demo_payload ''capabilities'' = demo_caps"
    by (simp_all add: demo_get(1) demo_switches_def jget_jset)
  have c: "jget (jget (capability_snapshot_of (map (\<lambda>k. (k, jget demo_caps k, if k = ''supports_reply_cancel'' then Some (JObj []) else None))
      VOICE_CAPABILITY_KEYS)) ''supports_reply_cancel'') ''enabled'' = JBool True"
    by (simp add: capability_snapshot_of_def VOICE_CAPABILITY_KEYS_def demo_caps_get jget_jset forced_capability_def)
  have d: "jget (config_snapshot_of demo_cap_env demo_runtime demo_payload s) ''resolved_config'' = demo_payload" for s
    by (simp add: config_snapshot_of_def)
  show ?thesis
    using c d unfolding build_snapshot_def r
    by (simp only: demo_metadata demo_trusted demo_script_trusted bindR_simps Let_def demo_defaults demo_persona g demo_rows demo_again
      simp_thms if_False option.case(1)) blast
qed

theorem enabled_capability_justified_witness:
  "\<exists>cfg caps src. build_snapshot demo_cap_env demo_runtime None 0 (Some 7) = Inr (cfg, caps) \<and>
     jget (jget caps ''supports_reply_cancel'') ''enabled'' = JBool True \<and>
     listed (jget (jget (ld_payload (bd_config demo_runtime)) ''global'') ''test_user_ids'') (Some 7) \<and>
     force_source demo_runtime ''supports_reply_cancel'' = Some src \<and>
     jget (jget caps ''supports_reply_cancel'') ''force_source'' = src"
proof -
  obtain cfg caps where s: "build_snapshot demo_cap_env demo_runtime None 0 (Some 7) = Inr (cfg, caps)"
    "jget (jget caps ''supports_reply_cancel'') ''enabled'' = JBool True" using demo_snapshot by blast
  have k: "''supports_reply_cancel'' \<in> set VOICE_CAPABILITY_KEYS" by (simp add: VOICE_CAPABILITY_KEYS_def)
  show ?thesis using enabled_capability_justified [OF s(1) k s(2)] s by auto
qed

definition demo_context :: context_rows where
  "demo_context = no_context\<lparr>cx_active := [(''voice_call_script'', \<lparr>ac_id = 1, ac_key = ''voice_call_script'', ac_value = Some [], ac_version = 4,
     ac_draft_revision = None, ac_active = True, ac_draft = False, ac_updated_by = None, ac_updated_at = Some 5\<rparr>)], cx_available := True\<rparr>"

lemma demo_row: "map_of (cx_active demo_context) ''voice_call_script'' = Some r \<Longrightarrow>
    row_candidate demo_cap_env ''voice_call_script'' r = (Some (demo_script, []), ''ok'') \<and> ac_version r = 4 \<and> ac_updated_at r = Some 5"
  using demo_script_trusted
  by (auto simp: demo_context_def row_candidate_def parse_candidate_def Let_def demo_script_def demo_cap_env_def)

lemma demo_resolved: "\<exists>rk. resolve_key demo_cap_env ''voice_call_script'' (Inl ()) demo_context None None = Inr rk"
proof -
  obtain r where "map_of (cx_active demo_context) ''voice_call_script'' = Some r" by (simp add: demo_context_def)
  then show ?thesis using demo_row [of r] by (simp add: resolve_key_def Let_def parse_candidate_def)
qed

theorem published_row_decides_witness:
  "map_option (\<lambda>rk. (ld_version (rk_loaded rk), ld_fallback (rk_loaded rk)))
     (case resolve_key demo_cap_env ''voice_call_script'' (Inl ()) demo_context None None of Inl x \<Rightarrow> None | Inr rk \<Rightarrow> Some rk) = Some (4, False)"
proof -
  obtain rk where k: "resolve_key demo_cap_env ''voice_call_script'' (Inl ()) demo_context None None = Inr rk" using demo_resolved by blast
  obtain r where r: "map_of (cx_active demo_context) ''voice_call_script'' = Some r" by (simp add: demo_context_def)
  show ?thesis using published_row_decides [OF k] demo_row [OF r] by (simp add: r k)
qed

end
