(* ===== verification/Create.thy ===== *)
theory Create
  imports Runtime Ticket Safety
begin

text \<open>
  The creation of a call (\<open>realtime_voice_create_service.py\<close>): the checks before a call, in their order, the
  replay of an earlier request with the same idempotency key, and the one transaction that writes the call and
  its record after the lease was acquired.

  Everything the service awaits is a step that can be interrupted: \<open>cr_fault\<close> says which step raises or is
  cancelled, so that every prefix of the body is a behaviour of the model. The commit and the acquisition have
  a second step for a reply that is lost after the effect. What the services answer (the published bundle, the
  crisis words, the provider) is part of the environment; the SHA-256 of the canonical request and the issue of
  a ticket are functions of it. The rollback is assumed not to fail, as is the emission of the counters.
\<close>

section \<open>The environment\<close>

datatype create_step =
    At_user | At_banned | At_record | At_call | At_issue | At_commit | At_commit_reply | At_delete | At_cooldown
  | At_bundle | At_crisis | At_balance | At_provider | At_existing | At_acquire | At_acquire_reply | At_apply
  | At_insert | At_release

datatype create_exn = Refused string int | Broken | Call_cancelled

datatype fault = Fault_raise | Fault_cancel

type_synonym 'a created = "create_exn + 'a"

record 't create_env =
  cr_cap :: cap_env
  cr_digest :: "json \<Rightarrow> string"
  cr_issue :: "int \<Rightarrow> string \<Rightarrow> string option \<Rightarrow> pystr \<Rightarrow> int \<Rightarrow> 't"
  cr_fault :: "create_step \<Rightarrow> fault option"
  cr_alive :: px
  cr_clock :: int
  cr_banned :: bool
  cr_banned_cache :: bool
  cr_bundle :: runtime
  cr_crisis :: keyword_load
  cr_provider :: "json \<Rightarrow> bool"
  cr_new_id :: string
  cr_jti :: string
  cr_utcnow :: datetime

record 't create_reply =
  re_call_id :: string
  re_status :: call_status
  re_ticket :: "'t option"

definition bindC :: "'a created \<Rightarrow> ('a \<Rightarrow> 'b created) \<Rightarrow> 'b created" where
  "bindC m f = (case m of Inl x \<Rightarrow> Inl x | Inr a \<Rightarrow> f a)"

text \<open>An awaited step, and an awaited call whose own exception is not a refusal.\<close>

definition awaits :: "'t create_env \<Rightarrow> create_step \<Rightarrow> 'a created \<Rightarrow> 'a created" where
  "awaits env s k = (case cr_fault env s of None \<Rightarrow> k | Some Fault_raise \<Rightarrow> Inl Broken | Some Fault_cancel \<Rightarrow> Inl Call_cancelled)"

definition lift_res :: "'a res \<Rightarrow> 'a created" where
  "lift_res m = (case m of Inl x \<Rightarrow> Inl Broken | Inr a \<Rightarrow> Inr a)"

definition check :: "bool \<Rightarrow> string \<Rightarrow> int \<Rightarrow> 'a created \<Rightarrow> 'a created" where
  "check ok reason status k = (if ok then k else Inl (Refused reason status))"

section \<open>The request\<close>

definition request_fields :: "string list" where
  "request_fields = [''source'', ''device_id'', ''browser_supported'', ''microphone_granted'']"

definition uuid_text :: "pystr \<Rightarrow> bool" where
  "uuid_text t \<longleftrightarrow> list_all (\<lambda>c. c < 128) t \<and> canonical_uuid (map char_of t)"

text \<open>The text with sorted keys is a function of this object.\<close>

definition canonical_request :: "json \<Rightarrow> json created" where
  "canonical_request p =
     check (is_obj p \<and> set (jkeys p) = set request_fields) ''invalid_request'' 422
     (check (case jget p ''device_id'' of JStr t \<Rightarrow> uuid_text t | _ \<Rightarrow> False) ''invalid_device'' 422
     (check (jget p ''source'' = jtext ''home'' \<and> is_bool (jget p ''browser_supported'') \<and> is_bool (jget p ''microphone_granted''))
        ''invalid_request'' 422
     (Inr (JObj (map (\<lambda>k. (k, jget p k)) [''browser_supported'', ''device_id'', ''microphone_granted'', ''source''])))))"

section \<open>The reply\<close>

definition ms_of :: "datetime \<Rightarrow> int" where
  "ms_of t = t div 1000"

definition create_response :: "'t create_env \<Rightarrow> idempotency_row \<Rightarrow> voice_call \<Rightarrow> json \<Rightarrow> datetime \<Rightarrow> 't create_reply created" where
  "create_response env row call p now =
     (let reply = (\<lambda>t. \<lparr>re_call_id = vc_call_id call, re_status = vc_status call, re_ticket = t\<rparr>) in
      if im_ticket_consumed_at row \<noteq> None then Inr (reply None)
      else (case im_ticket_expires_at row of
          None \<Rightarrow> Inl Broken
        | Some e \<Rightarrow>
            if e \<le> now then Inr (reply None)
            else awaits env At_issue (Inr (reply (Some (cr_issue env (vc_user_id call) (vc_call_id call) (im_ticket_jti row)
              (text_of (jget p ''device_id'')) (ms_of e)))))))"

section \<open>The checks\<close>

definition find_request :: "int \<Rightarrow> string \<Rightarrow> database \<Rightarrow> idempotency_row option" where
  "find_request u key db = find (\<lambda>r. im_user_id r = u \<and> im_idempotency_key r = key) (db_idempotency db)"

definition drop_request :: "int \<Rightarrow> string \<Rightarrow> database \<Rightarrow> database" where
  "drop_request u key db =
     db\<lparr>db_idempotency := filter (\<lambda>r. \<not> (im_user_id r = u \<and> im_idempotency_key r = key)) (db_idempotency db)\<rparr>"

definition open_call :: "int \<Rightarrow> database \<Rightarrow> voice_call option" where
  "open_call u db = find (\<lambda>c. vc_user_id c = u \<and> vc_status c \<in> {Deciding, Ringing, Connected, Reconnecting, Ending}) (db_calls db)"

fun json_true :: "json \<Rightarrow> bool" where
  "json_true JNull = False"
| "json_true (JBool b) = b"
| "json_true (JInt n) = (n \<noteq> 0)"
| "json_true (JFloat f) = (f \<noteq> Fin 0)"
| "json_true (JStr s) = (s \<noteq> [])"
| "json_true (JList xs) = (xs \<noteq> [])"
| "json_true (JObj kvs) = (kvs \<noteq> [])"

definition block_reason :: "runtime \<Rightarrow> json \<Rightarrow> string" where
  "block_reason b config =
     (let gate = (if ld_fallback (bd_config b) then (case bd_gate b of None \<Rightarrow> JNull | Some g \<Rightarrow> g) else jget config ''global'') in
      if bd_master b \<noteq> Some True then ''disabled''
      else if json_true (jget gate ''maintenance_mode'') then ''maintenance''
      else if json_true (jget gate ''soft_stop'') then ''soft_stop''
      else ''not_allowlisted'')"

text \<open>A field of the validated configuration, which is an integer.\<close>

definition config_int :: "json \<Rightarrow> string \<Rightarrow> string \<Rightarrow> int" where
  "config_int config part k = (case jget (jget config part) k of JInt n \<Rightarrow> n | _ \<Rightarrow> 0)"

record create_plan =
  pn_digest :: string
  pn_snapshot :: json
  pn_capabilities :: json
  pn_free :: int

definition pn_config :: "create_plan \<Rightarrow> json" where
  "pn_config pn = jget (pn_snapshot pn) ''resolved_config''"

definition plan_call :: "'t create_env \<Rightarrow> int \<Rightarrow> string \<Rightarrow> json \<Rightarrow> datetime \<Rightarrow> lease_store \<Rightarrow> database \<Rightarrow> create_plan created" where
  "plan_call env u digest p now leases db =
     check (jget p ''browser_supported'' = JBool True) ''browser_unsupported'' 409
     (check (jget p ''microphone_granted'' = JBool True) ''microphone_denied'' 409
     (awaits env At_cooldown
     (check (\<not> check_new_dial (cr_alive env) (cr_clock env) u leases) ''dial_cooldown'' 409
     (awaits env At_bundle
     (bindC (lift_res (build_snapshot (cr_cap env) (cr_bundle env) None now (Some u))) (\<lambda>(snapshot, caps).
        let config = jget snapshot ''resolved_config'' in
        check (\<not> should_block_new_call (cr_bundle env) (Some u)) (block_reason (cr_bundle env) config) 409
        (awaits env At_crisis
        (check (\<not> kl_suspected (cr_crisis env) \<and> kl_keywords (cr_crisis env) \<noteq> []) ''crisis_config_unavailable'' 503
        (awaits env At_balance
        (bindC (lift_res (balance u (config_int config ''quota'' ''daily_free_seconds'') now True db)) (\<lambda>bal.
        check (0 < bl_total bal) ''quota_empty'' 409
        (awaits env At_provider
        (check (cr_provider env config) ''provider_unavailable'' 503
        (awaits env At_existing
        (check (open_call u db = None) ''user_busy'' 409
        (Inr \<lparr>pn_digest = digest, pn_snapshot = snapshot, pn_capabilities = caps, pn_free = bl_free bal\<rparr>))))))))))))))))"

text \<open>The body up to the acquisition: a replay, or a plan over the database without an expired record.\<close>

definition preflight ::
  "'t create_env \<Rightarrow> int \<Rightarrow> string \<Rightarrow> json \<Rightarrow> datetime \<Rightarrow> lease_store \<Rightarrow> database
     \<Rightarrow> ('t create_reply + create_plan \<times> database) created" where
  "preflight env u key p now leases db =
     check (canonical_uuid key) ''invalid_idempotency_key'' 422
     (bindC (canonical_request p) (\<lambda>canonical.
        let digest = cr_digest env canonical; fresh = (\<lambda>db1. bindC (plan_call env u digest p now leases db1) (\<lambda>pn. Inr (Inr (pn, db1)))) in
        awaits env At_user
        (check (u \<in> set (db_users db)) ''user_missing'' 401
        (check (\<not> cr_banned env) ''user_banned'' 403
        (awaits env At_banned
        (check (\<not> cr_banned_cache env) ''user_banned'' 403
        (awaits env At_record
        (case find_request u key db of
           None \<Rightarrow> fresh db
         | Some row \<Rightarrow>
             if now < im_replay_expires_at row then
               check (im_request_payload_sha256 row = digest) ''IDEMPOTENCY_KEY_REUSED'' 409
               (awaits env At_call
               (case Option.bind (im_call_id row) (\<lambda>cid. get_call cid db) of
                  None \<Rightarrow> Inl (Refused ''idempotency_record_incomplete'' 503)
                | Some call \<Rightarrow> bindC (create_response env row call p now) (\<lambda>r.
                    awaits env At_commit (awaits env At_commit_reply (Inr (Inl r))))))
             else awaits env At_delete (fresh (drop_request u key db))))))))))"

section \<open>The transaction\<close>

definition second_floor :: "datetime \<Rightarrow> datetime" where
  "second_floor t = t - t mod us_second"

definition create_ticket_expiry :: "create_plan \<Rightarrow> datetime \<Rightarrow> datetime" where
  "create_ticket_expiry pn now = second_floor (now + config_int (pn_config pn) ''concurrency'' ''call_ticket_ttl_ms'' * 1000)"

definition new_voice_call :: "'t create_env \<Rightarrow> int \<Rightarrow> create_plan \<Rightarrow> database \<Rightarrow> voice_call" where
  "new_voice_call env u pn db =
     (blank_call (fresh_id (map vc_id (db_calls db))) (cr_new_id env) u Deciding)
       \<lparr>vc_summary_status := Sum_pending, vc_config_snapshot := pn_snapshot pn, vc_capability_snapshot := pn_capabilities pn,
        vc_transcript_retention_days := config_int (pn_config pn) ''retention'' ''effective_transcript_days'',
        vc_generated_retention_days := config_int (pn_config pn) ''retention'' ''generated_debug_days'',
        vc_created_at := cr_utcnow env\<rparr>"

definition new_request :: "'t create_env \<Rightarrow> int \<Rightarrow> string \<Rightarrow> create_plan \<Rightarrow> datetime \<Rightarrow> database \<Rightarrow> idempotency_row" where
  "new_request env u key pn now db =
     \<lparr>im_id = fresh_id (map im_id (db_idempotency db)), im_user_id = u, im_idempotency_key = key,
      im_request_payload_sha256 = pn_digest pn, im_call_id = Some (cr_new_id env), im_ticket_jti = Some (cr_jti env),
      im_ticket_expires_at = Some (create_ticket_expiry pn now), im_ticket_consumed_at = None,
      im_replay_expires_at = second_floor (now + us_day)\<rparr>"

text \<open>The unique constraints of both tables.\<close>

definition insert_clash :: "voice_call \<Rightarrow> idempotency_row \<Rightarrow> database \<Rightarrow> bool" where
  "insert_clash c r db \<longleftrightarrow> vc_call_id c \<in> set (map vc_call_id (db_calls db)) \<or>
     list_ex (\<lambda>x. im_user_id x = im_user_id r \<and> im_idempotency_key x = im_idempotency_key r \<or>
       im_call_id x \<noteq> None \<and> im_call_id x = im_call_id r \<or> im_ticket_jti x \<noteq> None \<and> im_ticket_jti x = im_ticket_jti r) (db_idempotency db)"

definition insert_call :: "voice_call \<Rightarrow> idempotency_row \<Rightarrow> database \<Rightarrow> database" where
  "insert_call c r db = db\<lparr>db_calls := db_calls db @ [c], db_idempotency := db_idempotency db @ [r]\<rparr>"

text \<open>After the acquisition: the database written, and the reply unless a step fails before it.\<close>

definition write_call ::
  "'t create_env \<Rightarrow> int \<Rightarrow> string \<Rightarrow> json \<Rightarrow> datetime \<Rightarrow> create_plan \<Rightarrow> database \<Rightarrow> ('t create_reply \<times> database) created" where
  "write_call env u key p now pn db =
     awaits env At_apply
     (let db1 = apply_published_balance u now (pn_free pn) db; call = new_voice_call env u pn db1; row = new_request env u key pn now db1 in
      awaits env At_insert
      (if insert_clash call row db1 then Inl Broken
       else bindC (create_response env row call p now) (\<lambda>r. awaits env At_commit (Inr (r, commit_flush (insert_call call row db1))))))"

record 't create_run =
  ru_result :: "'t create_reply created"
  ru_db :: database
  ru_leases :: lease_store
  ru_acquired :: bool

definition place_call ::
  "'t create_env \<Rightarrow> int \<Rightarrow> string \<Rightarrow> json \<Rightarrow> datetime \<Rightarrow> create_plan \<Rightarrow> database \<Rightarrow> database \<Rightarrow> lease_store \<Rightarrow> 't create_run" where
  "place_call env u key p now pn db0 db leases =
     (let failed = (\<lambda>x. \<lparr>ru_result = Inl x, ru_db = db0, ru_leases = leases, ru_acquired = False\<rparr>);
          config = pn_config pn in
      case awaits env At_acquire (lift_res (lease_acquire (cr_alive env) (cr_clock env) u (cr_new_id env)
          (config_int config ''concurrency'' ''user_lock_ttl_ms'') (config_int config ''concurrency'' ''global_limit'') leases)) of
        Inl x \<Rightarrow> failed x
      | Inr ((ok, reason), leases1) \<Rightarrow>
          (case awaits env At_acquire_reply (check ok reason 409 (Inr ())) of
             Inl x \<Rightarrow> (failed x)\<lparr>ru_leases := leases1\<rparr>
           | Inr _ \<Rightarrow>
               (case write_call env u key p now pn db of
                  Inl x \<Rightarrow> \<lparr>ru_result = Inl x, ru_db = db0, ru_leases = leases1, ru_acquired = True\<rparr>
                | Inr (r, db2) \<Rightarrow>
                    \<lparr>ru_result = awaits env At_commit_reply (Inr r), ru_db = db2, ru_leases = leases1, ru_acquired = True\<rparr>)))"

definition create_body ::
  "'t create_env \<Rightarrow> int \<Rightarrow> string \<Rightarrow> json \<Rightarrow> datetime \<Rightarrow> database \<Rightarrow> lease_store \<Rightarrow> 't create_run" where
  "create_body env u key p now db leases =
     (case preflight env u key p now leases db of
        Inl x \<Rightarrow> \<lparr>ru_result = Inl x, ru_db = db, ru_leases = leases, ru_acquired = False\<rparr>
      | Inr (Inl r) \<Rightarrow> \<lparr>ru_result = Inr r, ru_db = db, ru_leases = leases, ru_acquired = False\<rparr>
      | Inr (Inr (pn, db1)) \<Rightarrow> place_call env u key p now pn db db1 leases)"

section \<open>The handler\<close>

definition observed_reason :: "create_exn \<Rightarrow> string" where
  "observed_reason x = (case x of Refused r _ \<Rightarrow> if r \<in> set preflight_reasons then r else ''internal_unavailable'' | _ \<Rightarrow> ''internal_unavailable'')"

definition failure_events :: "create_exn \<Rightarrow> event list" where
  "failure_events x =
     (if x = Call_cancelled then [ev ''voice.preflight.result'' [(''result'', ''cancelled'')] 1]
      else [ev ''voice.preflight.result'' [(''result'', ''blocked'')] 1,
            ev ''voice.preflight.block_reason'' [(''reason'', observed_reason x)] 1]
        @ (if observed_reason x = ''IDEMPOTENCY_KEY_REUSED'' then [ev ''voice.preflight.idempotency'' [(''result'', ''conflict'')] 1] else []))"

definition success_events :: "bool \<Rightarrow> event list" where
  "success_events created =
     (if created then [ev ''voice.preflight.result'' [(''result'', ''created'')] 1]
      else [ev ''voice.preflight.result'' [(''result'', ''replay'')] 1, ev ''voice.preflight.idempotency'' [(''result'', ''replay'')] 1])"

text \<open>What the caller sees: a refusal as it is, a cancellation as it is, anything else as unavailable.\<close>

definition visible_exn :: "create_exn \<Rightarrow> create_exn" where
  "visible_exn x = (case x of Broken \<Rightarrow> Refused ''internal_unavailable'' 503 | _ \<Rightarrow> x)"

definition create_call ::
  "'t create_env \<Rightarrow> int \<Rightarrow> string \<Rightarrow> json \<Rightarrow> datetime \<Rightarrow> database \<Rightarrow> lease_store
     \<Rightarrow> 't create_reply created \<times> database \<times> lease_store \<times> event list" where
  "create_call env u key p now db leases =
     (let run = create_body env u key p now db leases in
      case ru_result run of
        Inr r \<Rightarrow> (Inr r, ru_db run, ru_leases run, success_events (ru_acquired run))
      | Inl x \<Rightarrow>
          if \<not> ru_acquired run then (Inl (visible_exn x), ru_db run, ru_leases run, failure_events x)
          else (case awaits env At_release (lift_res (lease_release (cr_alive env) (cr_clock env) u (cr_new_id env) (ru_leases run))) of
              Inl y \<Rightarrow> (Inl y, ru_db run, ru_leases run, failure_events x)
            | Inr (_, leases2) \<Rightarrow> (Inl (visible_exn x), ru_db run, leases2, failure_events x)))"

end
