(* ===== verification/CreateClaims.thy ===== *)
theory CreateClaims
  imports Create RuntimeClaims
begin

text \<open>
  What the creation of a call guarantees: nothing is left behind by a refusal or a failure, a call is created only
  when every gate is open, a user has at most one open call in every interleaving with the transitions, a
  request with the same key is replayed, and the ticket of a new call lets its browser in.
\<close>

section \<open>The steps of the body\<close>

lemma awaits_Inr [simp]: "awaits env s k = Inr x \<longleftrightarrow> cr_fault env s = None \<and> k = Inr x"
  by (auto simp: awaits_def split: option.split fault.split)

lemma check_Inr [simp]: "check ok reason status k = Inr x \<longleftrightarrow> ok \<and> k = Inr x"
  by (simp add: check_def)

lemma bindC_Inr [simp]: "bindC m f = Inr x \<longleftrightarrow> (\<exists>a. m = Inr a \<and> f a = Inr x)"
  by (cases m) (auto simp: bindC_def)

lemma lift_res_Inr [simp]: "lift_res m = Inr x \<longleftrightarrow> m = Inr x"
  by (cases m) (auto simp: lift_res_def)

lemma canonical_request_Inr:
  "canonical_request p = Inr c \<Longrightarrow> c = JObj (map (\<lambda>k. (k, jget p k)) [''browser_supported'', ''device_id'', ''microphone_granted'', ''source''])"
  by (auto simp: canonical_request_def)

text \<open>A plan exists only under all the conditions of the body.\<close>

lemma plan_call_Inr:
  assumes "plan_call env u digest p now leases db = Inr pn"
  obtains bal where "jget p ''browser_supported'' = JBool True" "jget p ''microphone_granted'' = JBool True"
    "\<not> check_new_dial (cr_alive env) (cr_clock env) u leases"
    "build_snapshot (cr_cap env) (cr_bundle env) None now (Some u) = Inr (pn_snapshot pn, pn_capabilities pn)"
    "\<not> should_block_new_call (cr_bundle env) (Some u)"
    "\<not> kl_suspected (cr_crisis env)" "kl_keywords (cr_crisis env) \<noteq> []"
    "balance u (config_int (pn_config pn) ''quota'' ''daily_free_seconds'') now True db = Inr bal" "0 < bl_total bal"
    "cr_provider env (pn_config pn)" "open_call u db = None" "pn_digest pn = digest" "pn_free pn = bl_free bal"
  using assms unfolding plan_call_def pn_config_def
  by (auto simp: Let_def split: prod.split_asm)

lemma preflight_plan:
  assumes "preflight env u key p now leases db = Inr (Inr (pn, db1))"
  obtains canonical where "canonical_uuid key" "canonical_request p = Inr canonical" "u \<in> set (db_users db)"
    "\<not> cr_banned env" "\<not> cr_banned_cache env"
    "plan_call env u (cr_digest env canonical) p now leases db1 = Inr pn"
    "case find_request u key db of None \<Rightarrow> db1 = db | Some row \<Rightarrow> im_replay_expires_at row \<le> now \<and> db1 = drop_request u key db"
proof -
  obtain canonical where c: "canonical_request p = Inr canonical" using assms by (auto simp: preflight_def)
  have pre: "canonical_uuid key" "u \<in> set (db_users db)" "\<not> cr_banned env" "\<not> cr_banned_cache env"
    using assms c by (simp_all add: preflight_def Let_def)
  show thesis
  proof (cases "find_request u key db")
    case None
    then show thesis using assms c that [OF pre(1) c pre(2-4)] by (auto simp: preflight_def Let_def)
  next
    case (Some row)
    show thesis
    proof (cases "now < im_replay_expires_at row")
      case True
      then show thesis
        using assms c Some by (cases "Option.bind (im_call_id row) (\<lambda>cid. get_call cid db)") (auto simp: preflight_def Let_def)
    next
      case False
      then show thesis using assms c Some that [OF pre(1) c pre(2-4)] by (auto simp: preflight_def Let_def)
    qed
  qed
qed

lemma preflight_replay:
  assumes "preflight env u key p now leases db = Inr (Inl r)"
  obtains canonical row cid call where "canonical_request p = Inr canonical" "find_request u key db = Some row"
    "now < im_replay_expires_at row" "im_request_payload_sha256 row = cr_digest env canonical"
    "im_call_id row = Some cid" "get_call cid db = Some call" "create_response env row call p now = Inr r"
proof -
  obtain canonical where c: "canonical_request p = Inr canonical" using assms by (auto simp: preflight_def)
  obtain row where f: "find_request u key db = Some row"
    using assms c by (cases "find_request u key db") (auto simp: preflight_def Let_def)
  have live: "now < im_replay_expires_at row"
    using assms c f by (cases "now < im_replay_expires_at row") (auto simp: preflight_def Let_def)
  obtain call where b: "Option.bind (im_call_id row) (\<lambda>cid. get_call cid db) = Some call"
    using assms c f live by (cases "Option.bind (im_call_id row) (\<lambda>cid. get_call cid db)") (auto simp: preflight_def Let_def)
  then obtain cid where g: "im_call_id row = Some cid" "get_call cid db = Some call" by (auto simp: bind_eq_Some_conv)
  have d: "im_request_payload_sha256 row = cr_digest env canonical" "create_response env row call p now = Inr r"
    using assms c f live g by (simp_all add: preflight_def Let_def)
  show thesis using that [OF c f live d(1) g d(2)] .
qed

lemma apply_balance_tables [simp]:
  "db_calls (apply_published_balance u now f db) = db_calls db"
  "db_idempotency (apply_published_balance u now f db) = db_idempotency db"
  "db_users (apply_published_balance u now f db) = db_users db"
  by (simp_all add: apply_published_balance_def put_account_def split: option.split)

lemma write_call_Inr:
  assumes "write_call env u key p now pn db = Inr (r, db')"
  defines "db1 \<equiv> apply_published_balance u now (pn_free pn) db"
  shows "create_response env (new_request env u key pn now db1) (new_voice_call env u pn db1) p now = Inr r"
    "\<not> insert_clash (new_voice_call env u pn db1) (new_request env u key pn now db1) db1"
    "db' = commit_flush (insert_call (new_voice_call env u pn db1) (new_request env u key pn now db1) db1)"
  using assms by (auto simp: write_call_def Let_def split: if_split_asm)

lemma place_call_cases:
  defines "run env u key p now pn db db1 leases \<equiv> place_call env u key p now pn db db1 leases"
  shows "(\<exists>x. ru_result (run env u key p now pn db db1 leases) = Inl x \<and> ru_db (run env u key p now pn db db1 leases) = db) \<or>
    (\<exists>r s. write_call env u key p now pn db1 = Inr (r, ru_db (run env u key p now pn db db1 leases)) \<and>
      ru_result (run env u key p now pn db db1 leases) = awaits env At_commit_reply (Inr r) \<and>
      lease_acquire (cr_alive env) (cr_clock env) u (cr_new_id env) (config_int (pn_config pn) ''concurrency'' ''user_lock_ttl_ms'')
        (config_int (pn_config pn) ''concurrency'' ''global_limit'') leases = Inr ((True, s), ru_leases (run env u key p now pn db db1 leases)) \<and>
      ru_acquired (run env u key p now pn db db1 leases))"
proof -
  let ?a = "awaits env At_acquire (lift_res (lease_acquire (cr_alive env) (cr_clock env) u (cr_new_id env)
      (config_int (pn_config pn) ''concurrency'' ''user_lock_ttl_ms'') (config_int (pn_config pn) ''concurrency'' ''global_limit'') leases))"
  show ?thesis
  proof (cases ?a)
    case (Inl x)
    then show ?thesis by (simp add: run_def place_call_def Let_def)
  next
    case (Inr a)
    obtain k reason l where a: "a = ((k, reason), l)" by (metis prod.exhaust)
    show ?thesis
    proof (cases "awaits env At_acquire_reply (check k reason 409 (Inr ()) :: unit created)")
      case Inl: (Inl x)
      then show ?thesis using Inr by (simp add: a run_def place_call_def Let_def del: awaits_Inr lift_res_Inr check_Inr)
    next
      case reply: (Inr v)
      have k: "k" and acq: "lease_acquire (cr_alive env) (cr_clock env) u (cr_new_id env)
          (config_int (pn_config pn) ''concurrency'' ''user_lock_ttl_ms'') (config_int (pn_config pn) ''concurrency'' ''global_limit'') leases =
          Inr ((k, reason), l)" using reply Inr by (simp_all add: a)
      show ?thesis
        using reply Inr k acq
        by (cases "write_call env u key p now pn db1")
          (auto simp: a run_def place_call_def Let_def simp del: awaits_Inr lift_res_Inr check_Inr)
    qed
  qed
qed

text \<open>All outcomes of the service.\<close>

lemma create_outcomes:
  assumes "create_call env u key p now db leases = (result, db', leases', events)"
  obtains (refused) x where "result = Inl x" "db' = db"
  | (replayed) r where "result = Inr r" "db' = db" "leases' = leases" "preflight env u key p now leases db = Inr (Inl r)"
      "events = success_events False"
  | (created) pn db1 r where "preflight env u key p now leases db = Inr (Inr (pn, db1))" "write_call env u key p now pn db1 = Inr (r, db')"
      "result = Inr r" "lease_acquire (cr_alive env) (cr_clock env) u (cr_new_id env) (config_int (pn_config pn) ''concurrency'' ''user_lock_ttl_ms'')
         (config_int (pn_config pn) ''concurrency'' ''global_limit'') leases = Inr ((True, ''acquired''), leases')"
      "events = success_events True"
  | (reply_lost) pn db1 r x where "preflight env u key p now leases db = Inr (Inr (pn, db1))" "write_call env u key p now pn db1 = Inr (r, db')"
      "result = Inl x" "cr_fault env At_commit_reply \<noteq> None"
proof -
  have acq: "lease_acquire a t u c ttl limit s = Inr ((True, reason), s') \<Longrightarrow> reason = ''acquired''" for a t c ttl limit s reason s'
    by (auto simp: lease_acquire_def bindR_Inr_iff Let_def split: if_split_asm)
  have final: "(\<exists>x. result = Inl x) \<and> db' = ru_db run" if "ru_result run = Inl x" "create_body env u key p now db leases = run" for run x
    using assms that by (auto simp: create_call_def Let_def split: if_split_asm sum.split_asm prod.split_asm)
  show thesis
  proof (cases "preflight env u key p now leases db")
    case (Inl x)
    then show thesis using final [of "create_body env u key p now db leases"] refused by (auto simp: create_body_def)
  next
    case (Inr a)
    show thesis
    proof (cases a)
      case (Inl r)
      then show thesis using Inr assms replayed [of r] by (auto simp: create_call_def create_body_def Let_def)
    next
      case (Inr pd)
      then obtain pn db1 where pre: "preflight env u key p now leases db = Inr (Inr (pn, db1))"
        using \<open>preflight env u key p now leases db = Inr a\<close> by (cases pd) auto
      let ?run = "place_call env u key p now pn db db1 leases"
      have body: "create_body env u key p now db leases = ?run" by (simp add: create_body_def pre)
      consider (f) x where "ru_result ?run = Inl x" "ru_db ?run = db"
        | (ok) r s where "write_call env u key p now pn db1 = Inr (r, ru_db ?run)" "ru_result ?run = awaits env At_commit_reply (Inr r)"
            "lease_acquire (cr_alive env) (cr_clock env) u (cr_new_id env) (config_int (pn_config pn) ''concurrency'' ''user_lock_ttl_ms'')
               (config_int (pn_config pn) ''concurrency'' ''global_limit'') leases = Inr ((True, s), ru_leases ?run)" "ru_acquired ?run"
        using place_call_cases [of env u key p now pn db db1 leases] by metis
      then show thesis
      proof cases
        case f
        then show thesis using final [OF f(1) body] refused by auto
      next
        case ok
        show thesis
        proof (cases "cr_fault env At_commit_reply")
          case None
          then have "ru_result ?run = Inr r" using ok(2) by (simp add: awaits_def)
          then show thesis using assms ok(1,3,4) created [OF pre] acq [OF ok(3)] by (auto simp: create_call_def body Let_def)
        next
          case (Some f)
          then obtain x where "ru_result ?run = Inl x" using ok(2) by (cases f) (auto simp: awaits_def)
          then show thesis using final [OF _ body] ok(1) Some reply_lost [OF pre] by auto
        qed
      qed
    qed
  qed
qed

section \<open>The rows a creation writes\<close>

lemma balance_other_tables: "balance w d t b (db\<lparr>db_idempotency := rows\<rparr>) = balance w d t b db"
proof -
  have "get_account w (db\<lparr>db_idempotency := rows\<rparr>) = get_account w db" "day_rows w e (db\<lparr>db_idempotency := rows\<rparr>) = day_rows w e db" for e
    by (simp_all add: get_account_def day_rows_def user_rows_def)
  then show ?thesis by (simp only: balance_def)
qed

lemma drop_request_simps [simp]:
  "db_calls (drop_request u key db) = db_calls db" "db_users (drop_request u key db) = db_users db"
  "open_call w (drop_request u key db) = open_call w db"
  "balance w d t b (drop_request u key db) = balance w d t b db"
  by (simp_all add: drop_request_def open_call_def balance_other_tables)

lemma preflight_db1:
  assumes "preflight env u key p now leases db = Inr (Inr (pn, db1))"
  shows "db1 = db \<or> db1 = drop_request u key db" "find_request u key db1 = None"
proof -
  obtain canonical where d: "case find_request u key db of None \<Rightarrow> db1 = db | Some row \<Rightarrow> im_replay_expires_at row \<le> now \<and> db1 = drop_request u key db"
    by (rule preflight_plan [OF assms])
  then show "db1 = db \<or> db1 = drop_request u key db" by (simp split: option.split_asm)
  show "find_request u key db1 = None"
    using d by (auto simp: find_request_def drop_request_def find_None_iff split: option.split_asm)
qed

lemma commit_flush_requests [simp]: "db_idempotency (commit_flush db) = db_idempotency db" "db_users (commit_flush db) = db_users db"
  by (simp_all add: commit_flush_def)

lemma blank_call_id [simp]: "vc_call_id (new_voice_call env u pn db) = cr_new_id env" "vc_user_id (new_voice_call env u pn db) = u"
  "vc_status (new_voice_call env u pn db) = Deciding"
  by (simp_all add: new_voice_call_def blank_call_def)

text \<open>What a written call leaves in the tables.\<close>

lemma written_tables:
  assumes "preflight env u key p now leases db = Inr (Inr (pn, db1))" "write_call env u key p now pn db1 = Inr (r, db')"
  obtains call row where "db_calls db' = db_calls db @ [call]" "get_call (cr_new_id env) db' = Some call"
    "get_call (cr_new_id env) db = None" "vc_call_id call = cr_new_id env" "vc_user_id call = u" "vc_status call = Deciding"
    "vc_config_snapshot call = pn_snapshot pn" "vc_capability_snapshot call = pn_capabilities pn"
    "find_request u key db' = Some row" "get_create_record (cr_new_id env) u db' = Some row"
    "row \<in> set (db_idempotency db')" "im_user_id row = u" "im_idempotency_key row = key" "im_request_payload_sha256 row = pn_digest pn"
    "im_call_id row = Some (cr_new_id env)" "im_ticket_jti row = Some (cr_jti env)" "im_ticket_consumed_at row = None"
    "im_ticket_expires_at row = Some (create_ticket_expiry pn now)" "im_replay_expires_at row = second_floor (now + us_day)"
    "create_response env row call p now = Inr r" "db_users db' = db_users db"
proof -
  let ?b = "apply_published_balance u now (pn_free pn) db1"
  let ?c = "new_voice_call env u pn ?b" and ?r = "new_request env u key pn now ?b"
  note w = write_call_Inr [OF assms(2)]
  have calls: "db_calls db1 = db_calls db" "db_users db1 = db_users db" using preflight_db1(1) [OF assms(1)] by auto
  have new: "cr_new_id env \<notin> set (map vc_call_id (db_calls db))"
    "\<forall>x \<in> set (db_idempotency db1). im_call_id x \<noteq> Some (cr_new_id env)"
    using w(2) by (auto simp: insert_clash_def calls new_request_def list_ex_iff)
  have none: "find (\<lambda>c. vc_call_id c = cr_new_id env) (db_calls db) = None" using new(1) by (force simp: find_None_iff)
  have app: "find P xs = None \<Longrightarrow> P y \<Longrightarrow> find P (xs @ [y]) = Some y" for P xs y by (induction xs) (auto split: if_split_asm)
  have f: "find_request u key db1 = None" by (rule preflight_db1(2) [OF assms(1)])
  show thesis
  proof (rule that [of ?c ?r])
    show "get_call (cr_new_id env) db' = Some ?c" "get_call (cr_new_id env) db = None"
      using none app [OF none, of ?c] by (simp_all add: get_call_def row_find_def w(3) insert_call_def calls)
    show "find_request u key db' = Some ?r"
      using f by (simp add: find_request_def w(3) insert_call_def app new_request_def)
    have "find (\<lambda>r. im_call_id r = Some (cr_new_id env) \<and> im_user_id r = u) (db_idempotency db1) = None"
      using new(2) by (auto simp: find_None_iff)
    then show "get_create_record (cr_new_id env) u db' = Some ?r"
      by (simp add: get_create_record_def w(3) insert_call_def app new_request_def)
  qed (use w(1) calls in \<open>simp_all add: w(3) insert_call_def new_request_def\<close>, simp_all add: new_voice_call_def)
qed

section \<open>What a failure leaves\<close>

lemma reg_preflight:
  "dims_registered ''voice.preflight.result'' [(''result'', ''created'')]" "dims_registered ''voice.preflight.result'' [(''result'', ''replay'')]"
  "dims_registered ''voice.preflight.result'' [(''result'', ''blocked'')]" "dims_registered ''voice.preflight.result'' [(''result'', ''cancelled'')]"
  "dims_registered ''voice.preflight.idempotency'' [(''result'', ''replay'')]" "dims_registered ''voice.preflight.idempotency'' [(''result'', ''conflict'')]"
  by (rule reg_establish; code_simp)+

lemma reg_block_reason: "r \<in> set preflight_reasons \<Longrightarrow> dims_registered ''voice.preflight.block_reason'' [(''reason'', r)]"
proof -
  have "list_all (\<lambda>r. dims_in event_dims_establish ''voice.preflight.block_reason'' [(''reason'', r)]) preflight_reasons" by code_simp
  moreover have "name_component ''voice.preflight.block_reason'' \<in> set [''call01'', ''preflight'', ''lease'', ''ops_stop'']" by code_simp
  ultimately show "r \<in> set preflight_reasons \<Longrightarrow> dims_registered ''voice.preflight.block_reason'' [(''reason'', r)]"
    using reg_establish unfolding list_all_iff by blast
qed

lemma observed_reason_known: "observed_reason x \<in> set preflight_reasons"
proof -
  have "''internal_unavailable'' \<in> set preflight_reasons" by code_simp
  then show ?thesis by (simp add: observed_reason_def split: create_exn.split)
qed

lemma create_events_ok: "list_all event_ok (failure_events x)" "list_all event_ok (success_events b)"
  using observed_reason_known [of x]
  by (simp_all add: failure_events_def success_events_def ev_def event_ok_dims reg_preflight reg_block_reason)

lemma visible_exn_shape: "visible_exn x = Call_cancelled \<or> (\<exists>r st. visible_exn x = Refused r st)"
  by (simp add: visible_exn_def split: create_exn.split)

text \<open>A lease that is acquired and released again is as it was, up to expired entries.\<close>

definition lease_unchanged :: "px \<Rightarrow> int \<Rightarrow> lease_store \<Rightarrow> lease_store \<Rightarrow> bool" where
  "lease_unchanged alive now s s' \<longleftrightarrow> set (ls_active s') \<subseteq> set (ls_active s) \<and> set (ls_owners s') \<subseteq> set (ls_owners s) \<and>
     (\<forall>e \<in> set (ls_active s). now < snd e \<longrightarrow> e \<in> set (ls_active s')) \<and>
     ls_cooldown s' = ls_cooldown s \<and> (\<forall>v. user_owner alive now s' v = user_owner alive now s v)"

definition lease_unknown :: "px \<Rightarrow> int \<Rightarrow> string \<Rightarrow> lease_store \<Rightarrow> bool" where
  "lease_unknown alive now c s \<longleftrightarrow> c \<notin> fst ` set (ls_active s) \<and> c \<notin> fst ` set (ls_owners s) \<and>
     (\<forall>v. user_owner alive now s v \<noteq> Some c)"

lemma lease_unchanged_refl: "lease_unchanged alive now s s"
  by (simp add: lease_unchanged_def)

lemma prune_unchanged: "lease_unchanged alive now s (prune now s)"
  by (auto simp: lease_unchanged_def prune_def user_owner_def)

lemma delete_update: "k \<notin> fst ` set xs \<Longrightarrow> AList.delete k (AList.update k v xs) = xs"
  by (induction xs) auto

lemma acquire_release:
  assumes "lease_acquire alive now u c ttl limit s = Inr ((ok, reason), s1)" "lease_unknown alive now c s" "\<forall>t e. t < e \<longrightarrow> alive t e"
  shows "\<not> ok \<Longrightarrow> lease_unchanged alive now s s1"
    and "ok \<Longrightarrow> \<exists>s2. lease_release alive now u c s1 = Inr (True, s2) \<and> lease_unchanged alive now s s2"
proof -
  have v: "10000 \<le> ttl" "lease_user_key u = Inr ()" "ACQUIRE alive now u c ttl limit s = (reason, s1)" "ok = (reason = ''acquired'')"
    using assms(1) by (cases "ACQUIRE alive now u c ttl limit s"; auto simp: lease_acquire_def bindR_Inr_iff lease_validate_def Let_def split: if_split_asm)+
  have owner: "user_owner alive now (prune now s) w = user_owner alive now s w" for w by (simp add: prune_def user_owner_def)
  show "lease_unchanged alive now s s1" if "\<not> ok"
    using v(3,4) that prune_unchanged [of alive now s] by (auto simp: ACQUIRE_def Let_def split: if_split_asm)
  assume ok
  then have free: "user_owner alive now s u = None"
    and s1: "s1 = (prune now s)\<lparr>ls_user := AList.update u (c, now + ttl) (ls_user s), ls_active := AList.update c (now + ttl) (ls_active (prune now s)),
      ls_owners := AList.update c u (ls_owners (prune now s))\<rparr>"
    using v(3,4) assms(2) unfolding ACQUIRE_def Let_def owner lease_unknown_def
    by (auto simp: prune_def split: if_split_asm)
  let ?s2 = "s1\<lparr>ls_user := AList.delete u (ls_user s1), ls_active := AList.delete c (ls_active s1), ls_owners := AList.delete c (ls_owners s1)\<rparr>"
  have "user_owner alive now s1 u = Some c"
    using v(1) assms(3) by (simp add: user_owner_def px_get_def s1 dict_get_update)
  then have "RELEASE alive now u c s1 = (True, ?s2)" by (simp add: RELEASE_def s1 dict_get_update)
  then have rel: "lease_release alive now u c s1 = Inr (True, ?s2)" using v(2) by (simp add: lease_release_def)
  have p: "c \<notin> fst ` set (ls_active (prune now s))" "c \<notin> fst ` set (ls_owners (prune now s))"
    using assms(2) by (auto simp: lease_unknown_def prune_def)
  have "user_owner alive now ?s2 w = user_owner alive now s w" for w
    using free by (cases "w = u") (simp_all add: user_owner_def px_get_def s1 dict_get_update delete_conv')
  then have "lease_unchanged alive now s ?s2"
    using p by (auto simp: lease_unchanged_def s1 delete_update prune_def)
  then show "\<exists>s2. lease_release alive now u c s1 = Inr (True, s2) \<and> lease_unchanged alive now s s2" using rel by blast
qed

lemma create_failure:
  assumes c: "create_call env u key p now db leases = (Inl x, db', leases', events)"
    and f: "cr_fault env At_commit_reply = None" "cr_fault env At_acquire_reply = None" "cr_fault env At_release = None"
    and new: "lease_unknown (cr_alive env) (cr_clock env) (cr_new_id env) leases" "\<forall>t e. t < e \<longrightarrow> cr_alive env t e"
  shows "db' = db \<and> lease_unchanged (cr_alive env) (cr_clock env) leases leases' \<and> (\<exists>y. x = visible_exn y \<and> events = failure_events y)"
proof (cases "preflight env u key p now leases db")
  case (Inl y)
  then show ?thesis using c lease_unchanged_refl by (auto simp: create_call_def create_body_def Let_def)
next
  case (Inr a)
  then obtain pn db1 where pre: "preflight env u key p now leases db = Inr (Inr (pn, db1))"
    using c by (cases a) (auto simp: create_call_def create_body_def Let_def)
  let ?ttl = "config_int (pn_config pn) ''concurrency'' ''user_lock_ttl_ms''" and ?limit = "config_int (pn_config pn) ''concurrency'' ''global_limit''"
  let ?acq = "lease_acquire (cr_alive env) (cr_clock env) u (cr_new_id env) ?ttl ?limit leases"
  have body: "create_body env u key p now db leases = place_call env u key p now pn db db1 leases" by (simp add: create_body_def pre)
  show ?thesis
  proof (cases "awaits env At_acquire (lift_res ?acq)")
    case (Inl y)
    then show ?thesis using c lease_unchanged_refl by (auto simp: create_call_def body place_call_def Let_def)
  next
    case (Inr a)
    obtain k reason l where a: "a = ((k, reason), l)" by (metis prod.exhaust)
    then have acq: "?acq = Inr ((k, reason), l)" and fa: "cr_fault env At_acquire = None" using Inr by auto
    note undo = acquire_release [OF acq new]
    show ?thesis
    proof (cases k)
      case False
      then show ?thesis
        using c f(2) undo(1) by (auto simp: create_call_def body place_call_def Let_def acq fa awaits_def lift_res_def check_def)
    next
      case True
      then obtain l2 where l2: "lease_release (cr_alive env) (cr_clock env) u (cr_new_id env) l = Inr (True, l2)"
        "lease_unchanged (cr_alive env) (cr_clock env) leases l2" using undo(2) by blast
      show ?thesis
        using c f True l2
        by (cases "write_call env u key p now pn db1")
          (auto simp: create_call_def body place_call_def Let_def acq fa awaits_def lift_res_def check_def)
    qed
  qed
qed

section \<open>Open calls\<close>

text \<open>No user has two open calls.\<close>

definition one_open :: "database \<Rightarrow> bool" where
  "one_open db \<longleftrightarrow> (\<forall>i j c d. get_call i db = Some c \<and> get_call j db = Some d \<and> vc_user_id c = vc_user_id d \<and>
     vc_status c \<in> set ACTIVE \<and> vc_status d \<in> set ACTIVE \<longrightarrow> i = j)"

text \<open>Requests of any users, with any environment, in any order with transitions of any calls.\<close>

datatype 't call_act =
    Act_create "'t create_env" int string json datetime lease_store
  | Act_move datetime datetime int string "call_status list" call_status "bool option"

fun call_act_step :: "'t call_act \<Rightarrow> database \<Rightarrow> database" where
  "call_act_step (Act_create env u key p now leases) db = fst (snd (create_call env u key p now db leases))"
| "call_act_step (Act_move now utcnow seed cid expected target call01) db =
     (case transition_call now utcnow seed cid expected target call01 db of Inl x \<Rightarrow> db | Inr (b, db') \<Rightarrow> db')"

lemma open_call_None:
  assumes "open_call u db = None" "get_call i db = Some c" "vc_user_id c = u"
  shows "vc_status c \<notin> set ACTIVE"
proof -
  have "c \<in> set (db_calls db)" using row_find_key assms(2) by (metis get_call_def)
  then show ?thesis using assms(1,3) by (auto simp: open_call_def find_None_iff ACTIVE_def)
qed

lemma find_snoc: "\<not> P y \<Longrightarrow> find P (xs @ [y]) = find P xs"
  by (induction xs) auto

lemma create_one_open:
  assumes "create_call env u key p now db leases = (result, db', leases', events)" "one_open db"
  shows "one_open db'"
proof (cases "db' = db")
  case False
  obtain pn db1 r where pre: "preflight env u key p now leases db = Inr (Inr (pn, db1))" and w: "write_call env u key p now pn db1 = Inr (r, db')"
    by (rule create_outcomes [OF assms(1)]) (use False in auto)
  obtain canonical where "plan_call env u (cr_digest env canonical) p now leases db1 = Inr pn" by (rule preflight_plan [OF pre])
  then have "open_call u db1 = None" by (rule plan_call_Inr)
  then have free: "open_call u db = None" using preflight_db1(1) [OF pre] by auto
  obtain call where t: "db_calls db' = db_calls db @ [call]" "get_call (cr_new_id env) db' = Some call" "get_call (cr_new_id env) db = None"
    "vc_call_id call = cr_new_id env" "vc_user_id call = u" by (rule written_tables [OF pre w])
  have "get_call k db' = get_call k db" if "k \<noteq> cr_new_id env" for k
    using that t(1,4) find_snoc [of "\<lambda>r. vc_call_id r = k" call] by (simp add: get_call_def row_find_def)
  then have g: "get_call k db' = (if k = cr_new_id env then Some call else get_call k db)" for k using t(2) by simp
  show ?thesis
    using assms(2) open_call_None [OF free] t(5) unfolding one_open_def g by (auto split: if_split_asm)
qed (use assms(2) in simp)

lemma transition_one_open:
  assumes "transition_call now utcnow seed cid expected target call01 db = Inr (b, db')" "one_open db"
  shows "one_open db'"
proof (cases b)
  case True
  then have tr: "transition_call now utcnow seed cid expected target call01 db = Inr (True, db')" using assms(1) by simp
  obtain row0 row r where r: "get_call cid db = Some row0" "target \<in> set (TRANSITIONS (vc_status row0))"
    "row = (case call01 of None \<Rightarrow> row0 | Some b \<Rightarrow> row0\<lparr>vc_call01_fallback := Some b\<rparr>)" "row_step now target row r"
    "\<forall>k. get_call k db' = (if k = cid then Some r else get_call k db)"
    by (rule transition_call_step [OF tr]) (rule that, assumption+)
  have u: "vc_user_id r = vc_user_id row0" using r(3,4) by (auto simp: row_step_def split: option.split_asm)
  have a: "vc_status row0 \<in> set ACTIVE" by (rule TRANSITIONS_active [OF r(2)])
  show ?thesis
    using assms(2) r(1,5) u a unfolding one_open_def by (auto split: if_split_asm)
next
  case False
  then have "db_calls db' = db_calls db" using assms(1) transition_call_False by simp
  then show ?thesis using assms(2) by (simp add: one_open_def get_call_def)
qed

lemma one_open_run: "one_open db \<Longrightarrow> one_open (fold call_act_step acts db)"
proof (induction acts arbitrary: db)
  case (Cons a acts)
  have "one_open (call_act_step a db)"
  proof (cases a)
    case (Act_create env u key p now leases)
    then show ?thesis
      using create_one_open [OF _ Cons.prems] by (cases "create_call env u key p now db leases") auto
  next
    case (Act_move now utcnow seed cid expected target call01)
    then show ?thesis
      using transition_one_open [OF _ Cons.prems] Cons.prems by (auto split: sum.split)
  qed
  then show ?case by (simp add: Cons.IH)
qed simp

section \<open>The ticket of a new call\<close>

text \<open>\<open>ticket_codec_from_environment().issue\<close>: the codec for the purpose of a call.\<close>

definition call_codec :: "ticket_env \<Rightarrow> 8 word list \<Rightarrow> int \<Rightarrow> string \<Rightarrow> string option \<Rightarrow> pystr \<Rightarrow> int \<Rightarrow> pystr" where
  "call_codec tenv key u cid jti device expires =
     issue_ticket tenv \<lparr>tc_secret = key, tc_purpose = ''voice_call_v1''\<rparr> u cid (case jti of None \<Rightarrow> [] | Some j \<Rightarrow> j) (map char_of device) expires"

section \<open>Correctness\<close>

text \<open>A call is created only when every gate is open, and then the request, the row and the lease agree. If the calls
  change, then the user exists and is not banned, has no open call and no cool-down, the published gate is open under
  an enabled master switch, the frozen snapshot was built for this user, the crisis words were loaded without
  suspicion, quota is left and the provider accepts; exactly one row is added, in state deciding and with that
  snapshot, and its record holds the digest of this request. When the reply reaches the caller, the lease of the
  user belongs to the call.\<close>

theorem call_created_when_open:
  assumes "create_call env u key p now db leases = (result, db', leases', events)" "db_calls db' \<noteq> db_calls db"
    "\<forall>t e. t < e \<longrightarrow> cr_alive env t e"
  shows "u \<in> set (db_users db) \<and> \<not> cr_banned env \<and> \<not> cr_banned_cache env \<and> open_call u db = None \<and>
    \<not> check_new_dial (cr_alive env) (cr_clock env) u leases \<and> bd_master (cr_bundle env) = Some True \<and>
    \<not> should_block_new_call (cr_bundle env) (Some u) \<and> \<not> kl_suspected (cr_crisis env) \<and> kl_keywords (cr_crisis env) \<noteq> [] \<and>
    (\<exists>snapshot caps bal call row canonical.
       build_snapshot (cr_cap env) (cr_bundle env) None now (Some u) = Inr (snapshot, caps) \<and>
       cr_provider env (jget snapshot ''resolved_config'') \<and>
       balance u (config_int (jget snapshot ''resolved_config'') ''quota'' ''daily_free_seconds'') now True db = Inr bal \<and> 0 < bl_total bal \<and>
       db_calls db' = db_calls db @ [call] \<and> vc_user_id call = u \<and> vc_status call = Deciding \<and>
       vc_config_snapshot call = snapshot \<and> vc_capability_snapshot call = caps \<and>
       canonical_request p = Inr canonical \<and> find_request u key db' = Some row \<and> im_call_id row = Some (vc_call_id call) \<and>
       im_request_payload_sha256 row = cr_digest env canonical \<and>
       (\<forall>r. result = Inr r \<longrightarrow> re_call_id r = vc_call_id call \<and>
          user_owner (cr_alive env) (cr_clock env) leases' u = Some (vc_call_id call)))"
proof -
  obtain pn db1 r where pre: "preflight env u key p now leases db = Inr (Inr (pn, db1))"
    and w: "write_call env u key p now pn db1 = Inr (r, db')"
    and res: "\<forall>x. result = Inr x \<longrightarrow> x = r \<and> lease_acquire (cr_alive env) (cr_clock env) u (cr_new_id env)
       (config_int (pn_config pn) ''concurrency'' ''user_lock_ttl_ms'') (config_int (pn_config pn) ''concurrency'' ''global_limit'') leases =
         Inr ((True, ''acquired''), leases')"
    by (rule create_outcomes [OF assms(1)]) (use assms(2) in auto)
  obtain canonical where c: "canonical_request p = Inr canonical" "u \<in> set (db_users db)" "\<not> cr_banned env" "\<not> cr_banned_cache env"
    "plan_call env u (cr_digest env canonical) p now leases db1 = Inr pn" by (rule preflight_plan [OF pre])
  obtain bal where b: "\<not> check_new_dial (cr_alive env) (cr_clock env) u leases"
    "build_snapshot (cr_cap env) (cr_bundle env) None now (Some u) = Inr (pn_snapshot pn, pn_capabilities pn)"
    "\<not> should_block_new_call (cr_bundle env) (Some u)" "\<not> kl_suspected (cr_crisis env)" "kl_keywords (cr_crisis env) \<noteq> []"
    "balance u (config_int (pn_config pn) ''quota'' ''daily_free_seconds'') now True db1 = Inr bal" "0 < bl_total bal"
    "cr_provider env (pn_config pn)" "open_call u db1 = None" "pn_digest pn = cr_digest env canonical"
    by (rule plan_call_Inr [OF c(5)])
  obtain call row where t: "db_calls db' = db_calls db @ [call]" "vc_call_id call = cr_new_id env" "vc_user_id call = u" "vc_status call = Deciding"
    "vc_config_snapshot call = pn_snapshot pn" "vc_capability_snapshot call = pn_capabilities pn" "find_request u key db' = Some row"
    "im_request_payload_sha256 row = pn_digest pn" "im_call_id row = Some (cr_new_id env)" "create_response env row call p now = Inr r"
    by (rule written_tables [OF pre w])
  have m: "bd_master (cr_bundle env) = Some True" using b(3) by (auto simp: should_block_new_call_def split: if_split_asm)
  have same: "open_call u db = None" "balance u (config_int (pn_config pn) ''quota'' ''daily_free_seconds'') now True db = Inr bal"
    using preflight_db1(1) [OF pre] b(6,9) by auto
  have own: "re_call_id x = vc_call_id call \<and> user_owner (cr_alive env) (cr_clock env) leases' u = Some (vc_call_id call)" if "result = Inr x" for x
  proof -
    have "re_call_id r = vc_call_id call" using t(10)
      by (auto simp: create_response_def Let_def split: if_split_asm option.split_asm)
    moreover have "user_owner (cr_alive env) (cr_clock env) leases' u = Some (cr_new_id env)"
      using res that assms(3) by (auto simp: lease_acquire_def bindR_Inr_iff lease_validate_def ACQUIRE_def Let_def user_owner_def px_get_def
          dict_get_update split: if_split_asm)
    ultimately show ?thesis using res that t(2) by auto
  qed
  show ?thesis
    using b c t m same own unfolding pn_config_def by metis
qed

text \<open>C26: A refused, failed or cancelled creation leaves no trace. Whatever step raises or is cancelled, as long as the
  replies of the commit, the acquisition and the release are not lost, the database is the one before the request,
  every live lease is as it was (also the user's own), the caller sees a refusal with a reason or its own
  cancellation, never another exception, and every counter of the failure is a registered event.\<close>

theorem failed_creation_leaves_no_trace:
  assumes "create_call env u key p now db leases = (Inl x, db', leases', events)"
    "cr_fault env At_commit_reply = None" "cr_fault env At_acquire_reply = None" "cr_fault env At_release = None"
    "lease_unknown (cr_alive env) (cr_clock env) (cr_new_id env) leases" "\<forall>t e. t < e \<longrightarrow> cr_alive env t e"
  shows "db' = db \<and> lease_unchanged (cr_alive env) (cr_clock env) leases leases' \<and>
    (x = Call_cancelled \<or> (\<exists>r st. x = Refused r st)) \<and> list_all event_ok events"
  using create_failure [OF assms] visible_exn_shape create_events_ok by metis

text \<open>A request with the same key is answered by the call it created. After a creation, whatever happens to the
  call's row meanwhile, the same request by the same user within a day creates nothing, changes neither tables
  nor leases, reports the call's current state, and carries the very same ticket while it is neither consumed
  nor expired, otherwise none; a different request under the key is refused as reused.\<close>

theorem same_key_replays:
  assumes "create_call env u key p now db leases = (Inr r, db', leases', events)" "db_calls db' \<noteq> db_calls db"
    "cr_fault env2 = (\<lambda>s. None)" "\<not> cr_banned env2" "\<not> cr_banned_cache env2" "cr_digest env2 = cr_digest env" "cr_issue env2 = cr_issue env"
    "db_idempotency db2 = db_idempotency db'" "db_users db2 = db_users db'"
    "get_call (re_call_id r) db2 = Some call" "vc_user_id call = u" "now2 < second_floor (now + us_day)" "now \<le> now2"
  shows "create_call env2 u key p now2 db2 leases2 =
      (Inr \<lparr>re_call_id = re_call_id r, re_status = vc_status call,
            re_ticket = (if \<exists>row. find_request u key db' = Some row \<and> (\<exists>e. im_ticket_expires_at row = Some e \<and> now2 < e) then re_ticket r else None)\<rparr>,
       db2, leases2, success_events False) \<and>
    (\<forall>p2 c c2. canonical_request p = Inr c \<and> canonical_request p2 = Inr c2 \<and> cr_digest env c2 \<noteq> cr_digest env c \<longrightarrow>
       create_call env2 u key p2 now2 db2 leases2 =
         (Inl (Refused ''IDEMPOTENCY_KEY_REUSED'' 409), db2, leases2, failure_events (Refused ''IDEMPOTENCY_KEY_REUSED'' 409)))"
proof -
  obtain pn db1 r' where pre: "preflight env u key p now leases db = Inr (Inr (pn, db1))" and w: "write_call env u key p now pn db1 = Inr (r', db')" and r': "r' = r"
    by (rule create_outcomes [OF assms(1)]) (use assms(2) in auto)
  obtain canonical where c: "canonical_uuid key" "canonical_request p = Inr canonical" "u \<in> set (db_users db)"
    "plan_call env u (cr_digest env canonical) p now leases db1 = Inr pn" by (rule preflight_plan [OF pre])
  have dg: "pn_digest pn = cr_digest env canonical" by (rule plan_call_Inr [OF c(4)])
  obtain call0 row where t: "vc_call_id call0 = cr_new_id env" "vc_user_id call0 = u" "find_request u key db' = Some row"
    "im_request_payload_sha256 row = pn_digest pn"
    "im_call_id row = Some (cr_new_id env)" "im_ticket_consumed_at row = None" "im_ticket_expires_at row = Some (create_ticket_expiry pn now)"
    "im_replay_expires_at row = second_floor (now + us_day)" "create_response env row call0 p now = Inr r'" "db_users db' = db_users db"
    by (rule written_tables [OF pre w])
  have id: "re_call_id r = cr_new_id env"
    using t(9) r' t(1) by (auto simp: create_response_def Let_def split: if_split_asm option.split_asm)
  have f2: "find_request u key db2 = Some row" using t(3) assms(8) by (simp add: find_request_def)
  have cid: "vc_call_id call = cr_new_id env" using calls.get_key [OF assms(10)] id by simp
  have tick: "re_ticket r = Some (cr_issue env u (cr_new_id env) (im_ticket_jti row) (text_of (jget p ''device_id'')) (ms_of (create_ticket_expiry pn now)))"
    if "now2 < create_ticket_expiry pn now"
    using t(9) r' that assms(13) t(1,2,6,7) by (auto simp: create_response_def Let_def split: if_split_asm)
  have gates: "cr_fault env2 s = None" "u \<in> set (db_users db2)" "\<not> cr_banned env2" "\<not> cr_banned_cache env2" for s
    using c(3) t(10) assms(3,4,5,9) by simp_all
  have live: "now2 < im_replay_expires_at row" "Option.bind (im_call_id row) (\<lambda>cid. get_call cid db2) = Some call"
    using assms(10,12) t(5,8) id by simp_all
  let ?reply = "\<lparr>re_call_id = re_call_id r, re_status = vc_status call,
      re_ticket = (if \<exists>row. find_request u key db' = Some row \<and> (\<exists>e. im_ticket_expires_at row = Some e \<and> now2 < e) then re_ticket r else None)\<rparr>"
  have resp: "create_response env2 row call p now2 = Inr ?reply"
    using tick t(3,6,7) gates(1) cid id assms(7,11) by (simp add: create_response_def Let_def)
  have "preflight env2 u key p now2 leases2 db2 = Inr (Inl ?reply)"
    using c(1,2) f2 live resp t(4) dg assms(6) by (simp add: preflight_def Let_def gates)
  then have same: "create_call env2 u key p now2 db2 leases2 = (Inr ?reply, db2, leases2, success_events False)"
    by (simp add: create_call_def create_body_def Let_def)
  have "create_call env2 u key p2 now2 db2 leases2 =
      (Inl (Refused ''IDEMPOTENCY_KEY_REUSED'' 409), db2, leases2, failure_events (Refused ''IDEMPOTENCY_KEY_REUSED'' 409))"
    if d: "canonical_request p = Inr c'" "canonical_request p2 = Inr c2" "cr_digest env c2 \<noteq> cr_digest env c'" for p2 c' c2
  proof -
    have "preflight env2 u key p2 now2 leases2 db2 = Inl (Refused ''IDEMPOTENCY_KEY_REUSED'' 409)"
      using d c(1,2) f2 live(1) t(4) dg assms(6)
      by (simp add: preflight_def Let_def gates check_def awaits_def bindC_def)
    then show ?thesis by (simp add: create_call_def create_body_def Let_def visible_exn_def)
  qed
  then show ?thesis using same by blast
qed

text \<open>C22: A user never has two open calls. Starting from tables where no user has two, no sequence of creations (by any
  users, under any environment and with any step failing) and transitions of calls leads to one: the check for an
  open call and the insertion are one transaction under the lock of the user, and a terminal row never opens again.\<close>

theorem one_open_call_per_user:
  assumes "one_open db" "get_call i (fold call_act_step acts db) = Some c" "get_call j (fold call_act_step acts db) = Some d"
    "vc_user_id c = vc_user_id d" "vc_status c \<in> set ACTIVE" "vc_status d \<in> set ACTIVE"
  shows "i = j"
  using one_open_run [OF assms(1)] assms(2-6) unfolding one_open_def by blast

text \<open>The browser that asked for a call gets in. When the JSON of the payload is read back as it was written and the ticket
  is not too long, the ticket in the reply to a creation is
  accepted by the entry of the call, for the same device and before the ticket expires, whatever happened to
  the call meanwhile as long as it is deciding or ringing, the user is not banned, the record is as written and
  the lease is held: it verifies and is consumed.\<close>

theorem created_ticket_admits:
  assumes "create_call env u key p now db leases = (Inr r, db', leases', events)" "db_calls db' \<noteq> db_calls db"
    "cr_issue env = call_codec tenv signing" "re_ticket r = Some t" "length t \<le> 2048"
    "x = issue_payload tenv \<lparr>tc_secret = signing, tc_purpose = ''voice_call_v1''\<rparr> u (re_call_id r) (cr_jti env) (map char_of device) (ms_of e)"
    "tk_loads tenv (tk_dumps tenv (payload_json x)) = Some (payload_json x)"
    "jget p ''device_id'' = JStr device" "db_idempotency db2 = db_idempotency db'" "db_users db2 = db_users db'"
    "get_call (re_call_id r) db2 = Some call" "vc_user_id call = u" "vc_status call \<in> {Deciding, Ringing}"
    "find_request u key db' = Some row" "im_ticket_expires_at row = Some e" "now2 < e"
  shows "\<exists>db3. verify_ticket tenv \<lparr>tc_secret = signing, tc_purpose = ''voice_call_v1''\<rparr> (JStr t) (re_call_id r) (map char_of device) True (ms_of now2) =
      Inr (payload_json x) \<and>
    consume_ticket False True x (re_call_id r) now2 db2 = Inr (call, db3)"
proof -
  obtain pn db1 r' where pre: "preflight env u key p now leases db = Inr (Inr (pn, db1))" and w: "write_call env u key p now pn db1 = Inr (r', db')" and r': "r' = r"
    by (rule create_outcomes [OF assms(1)]) (use assms(2) in auto)
  obtain canonical where c: "u \<in> set (db_users db)" by (rule preflight_plan [OF pre])
  obtain call0 row0 where x: "vc_call_id call0 = cr_new_id env" "vc_user_id call0 = u" "find_request u key db' = Some row0"
    "get_create_record (cr_new_id env) u db' = Some row0" "im_user_id row0 = u"
    "im_call_id row0 = Some (cr_new_id env)" "im_ticket_jti row0 = Some (cr_jti env)" "im_ticket_consumed_at row0 = None"
    "im_ticket_expires_at row0 = Some (create_ticket_expiry pn now)" "create_response env row0 call0 p now = Inr r'" "db_users db' = db_users db"
    by (rule written_tables [OF pre w])
  have e: "row0 = row" "e = create_ticket_expiry pn now" using x(3,9) assms(14,15) by auto
  let ?x = "create_ticket_expiry pn now"
  have resp: "create_response env row0 call0 p now = (let reply = (\<lambda>t. \<lparr>re_call_id = cr_new_id env, re_status = vc_status call0, re_ticket = t\<rparr>) in
      if ?x \<le> now then Inr (reply None)
      else awaits env At_issue (Inr (reply (Some (cr_issue env u (cr_new_id env) (Some (cr_jti env)) device (ms_of ?x))))))"
    using assms(8) by (simp add: create_response_def x(1,2,7-9) Let_def)
  let ?t = "cr_issue env u (cr_new_id env) (Some (cr_jti env)) device (ms_of ?x)"
  have r: "create_response env row0 call0 p now = Inr r" using x(10) r' by simp
  have "r = \<lparr>re_call_id = cr_new_id env, re_status = vc_status call0, re_ticket = (if ?x \<le> now then None else Some ?t)\<rparr>"
    using r unfolding resp Let_def by (cases "?x \<le> now") simp_all
  then have t: "re_call_id r = cr_new_id env" "t = call_codec tenv signing u (cr_new_id env) (Some (cr_jti env)) device (ms_of e)"
    using assms(4) unfolding assms(3) e(2) by (simp_all split: if_split_asm)
  have "n - n mod 1000000 = 1000 * (1000 * (n div 1000000))" for n :: int by (simp add: minus_mod_eq_mult_div)
  then obtain k where k: "e = 1000 * k" unfolding e(2) create_ticket_expiry_def second_floor_def us_second_def by blast
  have "1000 * (now2 div 1000) \<le> now2" using mult_div_mod_eq [of 1000 now2] pos_mod_sign [of 1000 now2] by linarith
  then have "now2 div 1000 < k" using assms(16) k by linarith
  then have ms: "ms_of now2 < ms_of e" by (simp add: ms_of_def k)
  have x': "x = \<lparr>pl_purpose = ''voice_call_v1'', pl_user_id = u, pl_call_id = cr_new_id env, pl_jti = cr_jti env,
      pl_device = tk_digest tenv (map char_of device), pl_expires_ms = ms_of e\<rparr>"
    using assms(6) t(1) by (simp add: issue_payload_def)
  note V = issued_verifies_h [of tenv "\<lparr>tc_secret = signing, tc_purpose = ''voice_call_v1''\<rparr>" u "re_call_id r" "cr_jti env" "map char_of device" "ms_of e",
      folded assms(6), OF assms(7) refl]
  have t': "t = issue_ticket tenv \<lparr>tc_secret = signing, tc_purpose = ''voice_call_v1''\<rparr> u (re_call_id r) (cr_jti env) (map char_of device) (ms_of e)"
    using t by (simp add: call_codec_def)
  have "verify_ticket tenv \<lparr>tc_secret = signing, tc_purpose = ''voice_call_v1''\<rparr> (JStr t) (re_call_id r) (map char_of device) True (ms_of now2) = Inr (payload_json x)"
    using V [of "re_call_id r" "map char_of device" True "ms_of now2"] ms assms(5) by (simp add: t' [symmetric])
  moreover have "get_create_record (cr_new_id env) u db2 = Some row0" using x(4) assms(9) by (simp add: get_create_record_def)
  then have "\<exists>db3. consume_ticket False True x (re_call_id r) now2 db2 = Inr (call, db3)"
    using x(7,8,9,11) e assms(10-13,16) c t(1) by (auto simp: consume_ticket_def x')
  ultimately show ?thesis by blast
qed

section \<open>Witnesses\<close>

definition demo_device :: string where
  "demo_device = ''00000000-0000-4000-8000-000000000000''"

definition demo_request :: json where
  "demo_request = JObj [(''source'', jtext ''home''), (''device_id'', jtext demo_device), (''browser_supported'', JBool True),
     (''microphone_granted'', JBool True)]"

definition demo_entry :: payload where
  "demo_entry = \<lparr>pl_purpose = ''voice_call_v1'', pl_user_id = 7, pl_call_id = demo_device, pl_jti = ''j'', pl_device = rev demo_device,
     pl_expires_ms = 30000\<rparr>"

definition demo_create :: "pystr create_env" where
  "demo_create = \<lparr>cr_cap = demo_cap_env, cr_digest = (\<lambda>p. if p = JObj (map (\<lambda>k. (k, jget demo_request k))
       [''browser_supported'', ''device_id'', ''microphone_granted'', ''source'']) then ''a'' else ''b''),
     cr_issue = call_codec (sample_ticket_env demo_entry) [], cr_fault = (\<lambda>s. None), cr_alive = (\<lambda>t e. t < e), cr_clock = 0, cr_banned = False,
     cr_banned_cache = False, cr_bundle = demo_runtime,
     cr_crisis = \<lparr>kl_keywords = [asc ''x''], kl_suspected = False, kl_reason = None\<rparr>,
     cr_provider = (\<lambda>c. True), cr_new_id = demo_device, cr_jti = ''j'', cr_utcnow = 0\<rparr>"

definition demo_users :: database where
  "demo_users = empty_db\<lparr>db_users := [7]\<rparr>"

lemma demo_device_text: "canonical_uuid demo_device" "uuid_text (asc demo_device)"
proof -
  show u: "canonical_uuid demo_device" by (simp add: canonical_uuid_def demo_device_def hex_char_def upt_rec)
  have "map char_of (asc demo_device) = demo_device" by (simp add: asc_def comp_def)
  moreover have "list_all (\<lambda>c. c < 128) (asc demo_device)" by (simp add: asc_def demo_device_def)
  ultimately show "uuid_text (asc demo_device)" using u by (simp add: uuid_text_def)
qed

lemma demo_canonical: "\<exists>c. canonical_request demo_request = Inr c \<and> cr_digest demo_create c = ''a''"
  using demo_device_text(2)
  by (auto simp: canonical_request_def check_def demo_request_def demo_create_def request_fields_def jkeys_def jtext_def)

lemma demo_gate_open: "\<not> should_block_new_call demo_runtime (Some 7)"
  by (simp add: should_block_new_call_def demo_runtime_def demo_loaded_def demo_get(1) published_gate_blocks_def demo_switches_def jget_jset listed_def)
    (simp add: seed_global_def jtext_def)

lemma demo_ints:
  "config_int demo_payload ''quota'' ''daily_free_seconds'' = 300" "config_int demo_payload ''concurrency'' ''user_lock_ttl_ms'' = 15000"
  "config_int demo_payload ''concurrency'' ''global_limit'' = 1" "config_int demo_payload ''concurrency'' ''call_ticket_ttl_ms'' = 30000"
  by (simp_all add: config_int_def demo_get(1)) (simp_all add: seed_quota_def seed_concurrency_def)

lemma demo_plan: "\<exists>pn. preflight demo_create 7 demo_device demo_request 0 empty_store demo_users = Inr (Inr (pn, demo_users)) \<and>
    pn_config pn = demo_payload \<and> pn_digest pn = ''a''"
proof -
  obtain c where c: "canonical_request demo_request = Inr c" "cr_digest demo_create c = ''a''" using demo_canonical by blast
  obtain cfg caps where s: "build_snapshot demo_cap_env demo_runtime None 0 (Some 7) = Inr (cfg, caps)" "jget cfg ''resolved_config'' = demo_payload"
    using demo_snapshot by blast
  have env: "cr_fault demo_create s = None" "cr_cap demo_create = demo_cap_env" "cr_bundle demo_create = demo_runtime"
    "cr_crisis demo_create = \<lparr>kl_keywords = [asc ''x''], kl_suspected = False, kl_reason = None\<rparr>" "cr_provider demo_create p"
    "\<not> cr_banned demo_create" "\<not> cr_banned_cache demo_create" for s p
    by (simp_all add: demo_create_def)
  have d: "find_request 7 demo_device demo_users = None" "open_call 7 demo_users = None" "7 \<in> set (db_users demo_users)"
    "balance 7 300 0 True demo_users = Inr \<lparr>bl_free = 300, bl_extra = 0\<rparr>"
    "\<not> check_new_dial (cr_alive demo_create) (cr_clock demo_create) 7 empty_store"
    by (simp_all add: find_request_def open_call_def demo_users_def empty_db_def balance_def get_account_def row_find_def check_new_dial_def
        px_get_def empty_store_def)
  have r: "jget demo_request ''browser_supported'' = JBool True" "jget demo_request ''microphone_granted'' = JBool True"
    by (simp_all add: demo_request_def)
  have "plan_call demo_create 7 ''a'' demo_request 0 empty_store demo_users = Inr \<lparr>pn_digest = ''a'', pn_snapshot = cfg, pn_capabilities = caps, pn_free = 300\<rparr>"
    unfolding plan_call_def by (simp add: r env d s demo_gate_open demo_ints bl_total_def check_def awaits_def bindC_def lift_res_def Let_def)
  then show ?thesis
    using c s(2) demo_device_text(1)
    by (simp add: preflight_def env d check_def awaits_def bindC_def Let_def pn_config_def)
qed

lemma demo_ticket_short: "length (cr_issue demo_create u c j d x) \<le> 2048"
  by (simp add: demo_create_def call_codec_def issue_ticket_def Let_def signed_def sample_ticket_env_def b64_simps)

lemma demo_created:
  obtains r db' leases' events row call t where
    "create_call demo_create 7 demo_device demo_request 0 demo_users empty_store = (Inr r, db', leases', events)"
    "db_calls db' = db_calls demo_users @ [call]" "re_call_id r = demo_device" "re_ticket r = Some t"
    "get_call demo_device db' = Some call" "vc_user_id call = 7" "vc_status call = Deciding" "db_users db' = [7]"
    "find_request 7 demo_device db' = Some row" "im_ticket_expires_at row = Some 30000000" "length t \<le> 2048"
proof -
  obtain pn where pn: "preflight demo_create 7 demo_device demo_request 0 empty_store demo_users = Inr (Inr (pn, demo_users))"
    "pn_config pn = demo_payload" using demo_plan by blast
  have f: "cr_fault demo_create s = None" "cr_new_id demo_create = demo_device" "cr_clock demo_create = 0" for s by (simp_all add: demo_create_def)
  have x: "create_ticket_expiry pn 0 = 30000000" by (simp add: create_ticket_expiry_def pn(2) demo_ints second_floor_def us_second_def)
  have b: "apply_published_balance 7 0 (pn_free pn) demo_users = demo_users"
    by (simp add: apply_published_balance_def get_account_def row_find_def demo_users_def empty_db_def)
  have "\<not> insert_clash c q demo_users" for c q by (simp add: insert_clash_def demo_users_def empty_db_def)
  moreover obtain r where "create_response demo_create (new_request demo_create 7 demo_device pn 0 demo_users) (new_voice_call demo_create 7 pn demo_users) demo_request 0 = Inr r"
    "re_call_id r = demo_device" "\<exists>t. re_ticket r = Some t \<and> length t \<le> 2048"
    by (simp add: create_response_def new_request_def x f Let_def demo_ticket_short)
  ultimately obtain db' where w: "write_call demo_create 7 demo_device demo_request 0 pn demo_users = Inr (r, db')" "re_call_id r = demo_device" "\<exists>t. re_ticket r = Some t \<and> length t \<le> 2048"
    by (simp add: write_call_def b Let_def f)
  obtain leases' where "lease_acquire (cr_alive demo_create) (cr_clock demo_create) 7 demo_device 15000 1 empty_store = Inr ((True, ''acquired''), leases')"
    by (simp add: lease_acquire_def lease_validate_def lease_user_key_def demo_device_text(1) ACQUIRE_def prune_def empty_store_def user_owner_def px_get_def Let_def)
  then have "create_call demo_create 7 demo_device demo_request 0 demo_users empty_store = (Inr r, db', leases', success_events True)"
    by (simp add: create_call_def create_body_def pn demo_ints place_call_def w f Let_def awaits_def check_def lift_res_def)
  moreover obtain t where "re_ticket r = Some t" "length t \<le> 2048" using w(3) by blast
  moreover have "db_users demo_users = [7]" by (simp add: demo_users_def)
  ultimately show thesis
    using written_tables [OF pn(1) w(1)] that w(2) x f(2) by metis
qed

theorem call_created_when_open_witness:
  "\<not> should_block_new_call (cr_bundle demo_create) (Some 7) \<and> open_call 7 demo_users = None"
proof -
  obtain r db' leases' events call where c: "create_call demo_create 7 demo_device demo_request 0 demo_users empty_store = (Inr r, db', leases', events)"
    "db_calls db' = db_calls demo_users @ [call]" by (rule demo_created)
  have "db_calls db' \<noteq> db_calls demo_users" "\<forall>t e. t < e \<longrightarrow> cr_alive demo_create t e" using c(2) by (simp_all add: demo_create_def)
  then show ?thesis using call_created_when_open [OF c(1)] by simp
qed

theorem failed_creation_leaves_no_trace_witness:
  "fst (snd (create_call (demo_create\<lparr>cr_banned := True\<rparr>) 7 demo_device demo_request 0 demo_users empty_store)) = demo_users"
proof -
  let ?e = "demo_create\<lparr>cr_banned := True\<rparr>"
  have f: "cr_fault ?e s = None" "cr_fault demo_create s = None" for s by (simp_all add: demo_create_def)
  obtain c where "canonical_request demo_request = Inr c" using demo_canonical by blast
  then have "preflight ?e 7 demo_device demo_request 0 empty_store demo_users = Inl (Refused ''user_banned'' 403)"
    using demo_device_text(1) by (simp add: preflight_def bindC_def check_def awaits_def f Let_def demo_users_def)
  then obtain x l evs where c: "create_call ?e 7 demo_device demo_request 0 demo_users empty_store = (Inl x, demo_users, l, evs)"
    by (simp add: create_call_def create_body_def Let_def)
  have u: "lease_unknown (cr_alive ?e) (cr_clock ?e) (cr_new_id ?e) empty_store" "\<forall>t e. t < e \<longrightarrow> cr_alive ?e t e"
    by (simp_all add: lease_unknown_def empty_store_def user_owner_def px_get_def) (simp add: demo_create_def)
  show ?thesis using failed_creation_leaves_no_trace [OF c f(1) f(1) f(1) u] c by simp
qed

theorem same_key_replays_witness:
  "\<exists>r db'. create_call demo_create 7 demo_device demo_request 40000000 db' empty_store =
     (Inr \<lparr>re_call_id = demo_device, re_status = Deciding, re_ticket = None\<rparr>, db', empty_store, success_events False)"
proof -
  obtain r db' leases' events row call where c: "create_call demo_create 7 demo_device demo_request 0 demo_users empty_store = (Inr r, db', leases', events)"
    "db_calls db' = db_calls demo_users @ [call]" "re_call_id r = demo_device" "get_call demo_device db' = Some call" "vc_user_id call = 7"
    "vc_status call = Deciding" "find_request 7 demo_device db' = Some row" "im_ticket_expires_at row = Some 30000000" by (rule demo_created)
  have h: "db_calls db' \<noteq> db_calls demo_users" "cr_fault demo_create = (\<lambda>s. None)" "\<not> cr_banned demo_create" "\<not> cr_banned_cache demo_create"
    "get_call (re_call_id r) db' = Some call" using c by (simp_all add: demo_create_def)
  have "(40000000 :: int) < second_floor (0 + us_day)" by (simp add: second_floor_def us_day_def us_second_def)
  then show ?thesis
    using same_key_replays [OF c(1) h(1-4) refl refl refl refl h(5) c(5), of 40000000 empty_store] c(3,6-8) by auto
qed

theorem one_open_call_per_user_witness:
  "\<exists>c. get_call demo_device (fold call_act_step [Act_create demo_create 7 demo_device demo_request 0 empty_store] demo_users) = Some c \<and>
     vc_status c = Deciding"
proof -
  obtain r db' leases' events call where c: "create_call demo_create 7 demo_device demo_request 0 demo_users empty_store = (Inr r, db', leases', events)"
    "get_call demo_device db' = Some call" "vc_status call = Deciding" by (rule demo_created)
  let ?acts = "[Act_create demo_create 7 demo_device demo_request 0 empty_store]"
  have o: "one_open demo_users" by (simp add: one_open_def demo_users_def get_call_def row_find_def empty_db_def)
  have g: "get_call demo_device (fold call_act_step ?acts demo_users) = Some call" using c by simp
  have a: "vc_status call \<in> set ACTIVE" by (simp add: c(3) ACTIVE_def)
  show ?thesis using one_open_call_per_user [OF o g g refl a a] g c(3) by blast
qed

theorem created_ticket_admits_witness:
  "\<exists>t db' db3 call. verify_ticket (sample_ticket_env demo_entry) \<lparr>tc_secret = [], tc_purpose = ''voice_call_v1''\<rparr> (JStr t) demo_device demo_device True 20000 =
       Inr (payload_json demo_entry) \<and>
     consume_ticket False True demo_entry demo_device 20000000 db' = Inr (call, db3)"
proof -
  obtain r db' leases' events row call t where c: "create_call demo_create 7 demo_device demo_request 0 demo_users empty_store = (Inr r, db', leases', events)"
    "db_calls db' = db_calls demo_users @ [call]" "re_call_id r = demo_device" "re_ticket r = Some t" "get_call demo_device db' = Some call" "vc_user_id call = 7"
    "vc_status call = Deciding" "find_request 7 demo_device db' = Some row" "im_ticket_expires_at row = Some 30000000"
    "length t \<le> 2048" by (rule demo_created)
  have d: "map char_of (asc demo_device) = demo_device" by (simp add: asc_def comp_def)
  have m: "ms_of 20000000 = 20000" "ms_of 30000000 = 30000" by (simp_all add: ms_of_def)
  have j: "cr_jti demo_create = ''j''" by (simp add: demo_create_def)
  have x: "demo_entry = issue_payload (sample_ticket_env demo_entry) \<lparr>tc_secret = [], tc_purpose = ''voice_call_v1''\<rparr> 7 (re_call_id r) (cr_jti demo_create)
      (map char_of (asc demo_device)) (ms_of 30000000)"
    by (simp add: issue_payload_def c(3) d m j) (simp add: demo_entry_def sample_ticket_env_def)
  have h: "db_calls db' \<noteq> db_calls demo_users" "cr_issue demo_create = call_codec (sample_ticket_env demo_entry) []"
    "tk_loads (sample_ticket_env demo_entry) (tk_dumps (sample_ticket_env demo_entry) (payload_json demo_entry)) = Some (payload_json demo_entry)"
    "jget demo_request ''device_id'' = JStr (asc demo_device)" "get_call (re_call_id r) db' = Some call" "vc_status call \<in> {Deciding, Ringing}" "(20000000::int) < 30000000"
    using c by (simp_all add: demo_request_def jtext_def) (simp_all add: demo_create_def sample_ticket_env_def)
  show ?thesis
    using created_ticket_admits [OF c(1) h(1,2) c(4) c(10) x h(3,4) refl refl h(5) c(6) h(6) c(8,9) h(7)] unfolding c(3) d m by blast
qed

end
