(* ===== verification/Growth.thy ===== *)
theory Growth
  imports Seed Card
begin

text \<open>
  The growth of a relationship (\<open>relationship_service.py\<close>): levels by thresholds, the points a finished voice call earns,
  once per call and at most the limit of the business day, and the points of the text actions with their daily counters.
\<close>

section \<open>Levels\<close>

definition calc_level :: "int \<Rightarrow> int" where
  "calc_level growth = (if 2000 \<le> growth then 3 else if 800 \<le> growth then 2 else if 200 \<le> growth then 1 else 0)"

definition new_relationship :: "int \<Rightarrow> relationship" where
  "new_relationship u = \<lparr>rl_user_id = u, rl_level = 0, rl_growth_value = 0, rl_last_interaction_at = None,
     rl_consecutive_login_days = 0, rl_relation_description = None, rl_user_real_name = None, rl_user_hobby_name = None,
     rl_user_description = None, rl_character_purpose = None, rl_character_attitude = None, rl_future_timestamp = None,
     rl_future_action = None, rl_proactive_times = 0\<rparr>"

definition get_or_create_relationship :: "int \<Rightarrow> database \<Rightarrow> relationship \<times> database" where
  "get_or_create_relationship u db =
     (case get_relationship u db of
        Some r \<Rightarrow> (r, db)
      | None \<Rightarrow> (new_relationship u, db\<lparr>db_relationships := db_relationships db @ [new_relationship u]\<rparr>))"

text \<open>A level is only ever raised, and a rise is recorded.\<close>

definition raise_level :: "datetime \<Rightarrow> relationship \<Rightarrow> database \<Rightarrow> relationship \<times> database" where
  "raise_level utcnow r db =
     (let new = calc_level (rl_growth_value r) in
      if new > rl_level r
      then (r\<lparr>rl_level := new\<rparr>,
        db\<lparr>db_levels := db_levels db @ [\<lparr>lh_user_id = rl_user_id r, lh_from_level = rl_level r, lh_to_level = new, lh_achieved_at = utcnow\<rparr>]\<rparr>)
      else (r, db))"

section \<open>A voice call\<close>

record growth_result =
  gr_points :: int
  gr_leveled_up :: bool
  gr_growth :: int
  gr_level :: int

record growth_config =
  gw_segment :: int
  gw_points :: int
  gw_limit :: int

definition growth_settings :: "voice_call \<Rightarrow> growth_config res" where
  "growth_settings c =
     (let cfg = jget_def' (jget_def' (vc_config_snapshot c) ''resolved_config'' (JObj [])) ''growth'' seed_growth in
      if \<not> list_all (jhas cfg) [''segment_seconds'', ''points_per_segment'', ''daily_limit_points''] then Inl (RuntimeError ''KeyError'')
      else (case (jget cfg ''segment_seconds'', jget cfg ''points_per_segment'', jget cfg ''daily_limit_points'') of
          (JInt s, JInt p, JInt l) \<Rightarrow>
            if s \<le> 0 \<or> p \<le> 0 \<or> l < 0 \<or> jget cfg ''timezone'' \<noteq> JStr (asc ''Asia/Shanghai'')
            then Inl (ValueError ''voice_growth_config_invalid'')
            else Inr \<lparr>gw_segment = s, gw_points = p, gw_limit = l\<rparr>
        | _ \<Rightarrow> Inl (ValueError ''voice_growth_config_invalid'')))"

definition voice_logs :: "int \<Rightarrow> date \<Rightarrow> database \<Rightarrow> growth_log list" where
  "voice_logs u d db = filter (\<lambda>l. gl_user_id l = u \<and> gl_source_type l = Some ''voice_call'' \<and> gl_business_date l = Some d) (db_growth db)"

definition already_logged :: "string \<Rightarrow> database \<Rightarrow> bool" where
  "already_logged cid db \<longleftrightarrow> list_ex (\<lambda>l. gl_source_type l = Some ''voice_call'' \<and> gl_source_id l = Some cid) (db_growth db)"

definition growth_text :: "string \<Rightarrow> turn_row \<Rightarrow> bool" where
  "growth_text cid t \<longleftrightarrow> tn_call_id t = cid \<and> tn_status t \<in> {Finalized, Interrupted} \<and> tn_evidence t \<noteq> No_evidence \<and>
     tn_assistant_text_effective t \<noteq> None \<and> tn_assistant_text_effective t \<noteq> Some []"

definition call_meaningful :: "string \<Rightarrow> database \<Rightarrow> bool" where
  "call_meaningful cid db \<longleftrightarrow> list_ex (\<lambda>t. growth_text cid t \<and> meaningful_user_text (tn_user_text_final t)) (db_turns db)"

definition growth_qualifies :: "voice_call \<Rightarrow> database \<Rightarrow> bool" where
  "growth_qualifies c db \<longleftrightarrow> vc_connected_at c \<noteq> None \<and> vc_status c = Ended \<and>
     vc_end_reason c \<notin> {Some ''system_error'', Some ''provider_error'', Some ''reconnect_timeout''} \<and> call_meaningful (vc_call_id c) db"

definition earned_points :: "growth_config \<Rightarrow> int \<Rightarrow> int" where
  "earned_points w eligible = (eligible div gw_segment w) * gw_points w"

definition growth_events :: "bool \<Rightarrow> int \<Rightarrow> int \<Rightarrow> int \<Rightarrow> bool \<Rightarrow> event list" where
  "growth_events qualifies eligible earned points reset =
     [ev ''voice.growth.result'' [(''result'', if qualifies then ''eligible'' else ''ineligible'')] 1,
      ev ''voice.growth.eligible_seconds'' [] (if qualifies then eligible else 0),
      ev ''voice.growth.points'' [] points]
     @ (if qualifies \<and> earned > points then [ev ''voice.growth.daily_cap_hit'' [] 1] else [])
     @ (if reset then [ev ''voice.cross_modal.proactive_reset'' [] 1] else [])"

definition touch_relationship :: "voice_call \<Rightarrow> datetime \<Rightarrow> int \<Rightarrow> relationship \<Rightarrow> relationship" where
  "touch_relationship c ended points r =
     (let r1 = r\<lparr>rl_growth_value := rl_growth_value r + points\<rparr> in
      if vc_connected_at c = None then r1
      else r1\<lparr>rl_last_interaction_at := Some (max (case rl_last_interaction_at r of None \<Rightarrow> ended | Some t \<Rightarrow> t) ended),
              rl_proactive_times := 0\<rparr>)"

text \<open>The award after all checks; \<open>awarded\<close> are the voice points of the business day so far.\<close>

definition award_growth ::
  "datetime \<Rightarrow> int \<Rightarrow> voice_call \<Rightarrow> datetime \<Rightarrow> growth_config \<Rightarrow> relationship \<Rightarrow> database \<Rightarrow> growth_result \<times> database" where
  "award_growth utcnow u c ended w rel db =
     (let d = sh_date ended;
          awarded = sum_list (map gl_points (voice_logs u d db));
          meaningful = call_meaningful (vc_call_id c) db; qualifies = growth_qualifies c db;
          eligible = (if meaningful then vc_growth_eligible_seconds c else 0);
          earned = earned_points w eligible;
          points = (if qualifies then min earned (max 0 (gw_limit w - awarded)) else 0);
          reset = (vc_connected_at c \<noteq> None \<and> rl_proactive_times rel > 0);
          (rel1, db1) = raise_level utcnow (touch_relationship c ended points rel) db;
          c1 = c\<lparr>vc_growth_eligible_seconds := eligible, vc_growth_points := points\<rparr>;
          entry = \<lparr>gl_user_id = u, gl_action_type = ''voice_call'', gl_points = points, gl_source_type = Some ''voice_call'',
            gl_source_id = Some (vc_call_id c), gl_eligible_seconds = Some eligible, gl_business_date = Some d, gl_created_at = utcnow\<rparr>;
          db2 = put_call c1 (put_relationship rel1 db1) in
      (\<lparr>gr_points = points, gr_leveled_up = (rl_level rel1 > rl_level rel), gr_growth = rl_growth_value rel1, gr_level = rl_level rel1\<rparr>,
       stage (growth_events qualifies eligible earned points reset) (db2\<lparr>db_growth := db_growth db2 @ [entry]\<rparr>)))"

definition add_voice_growth :: "datetime \<Rightarrow> int \<Rightarrow> int \<Rightarrow> string \<Rightarrow> database \<Rightarrow> (growth_result \<times> database) res" where
  "add_voice_growth utcnow u eligible cid db =
     (if eligible < 0 then Inl (ValueError ''voice_growth_seconds_invalid'')
      else (case get_call cid db of
          None \<Rightarrow> Inl (ValueError ''voice_growth_call_not_terminal'')
        | Some c \<Rightarrow>
            (case (vc_user_id c = u \<and> vc_status c \<in> {Ended, Failed, Missed, Cancelled}, vc_ended_at c) of
               (True, Some ended) \<Rightarrow>
                 let (rel, db1) = get_or_create_relationship u db in
                 if already_logged cid db1
                 then Inr (\<lparr>gr_points = 0, gr_leveled_up = False, gr_growth = rl_growth_value rel, gr_level = rl_level rel\<rparr>,
                   stage [ev ''voice.growth.idempotent'' [] 1] db1)
                 else if eligible \<noteq> vc_growth_eligible_seconds c then Inl (ValueError ''voice_growth_seconds_mismatch'')
                 else bindR (growth_settings c) (\<lambda>w. Inr (award_growth utcnow u c ended w rel db1))
             | _ \<Rightarrow> Inl (ValueError ''voice_growth_call_not_terminal''))))"

section \<open>Text actions\<close>

definition growth_actions :: "(string \<times> int \<times> int) list" where
  "growth_actions = [(''dialog'', 2, 50), (''long_session'', 20, 20), (''daily_login'', 5, 10), (''reply_agent'', 10, 20)]"

text \<open>The counters of a day under the old and the new key; they live until midnight.\<close>

record growth_cache =
  gc_old :: "(int \<times> date \<times> string) \<Rightarrow> int option"
  gc_new :: "(int \<times> date \<times> string) \<Rightarrow> int option"

definition today_points :: "growth_cache \<Rightarrow> int \<times> date \<times> string \<Rightarrow> int" where
  "today_points s k = (case gc_new s k of Some n \<Rightarrow> n | None \<Rightarrow> (case gc_old s k of Some n \<Rightarrow> n | None \<Rightarrow> 0))"

definition incr_by :: "int \<Rightarrow> int option \<Rightarrow> int option" where
  "incr_by n v = Some ((case v of None \<Rightarrow> 0 | Some k \<Rightarrow> k) + n)"

definition count_points :: "int \<times> date \<times> string \<Rightarrow> int \<Rightarrow> growth_cache \<Rightarrow> growth_cache" where
  "count_points k n s = s\<lparr>gc_old := (gc_old s)(k := incr_by n (gc_old s k)), gc_new := (gc_new s)(k := incr_by n (gc_new s k))\<rparr>"

definition add_growth ::
  "datetime \<Rightarrow> date \<Rightarrow> int \<Rightarrow> string \<Rightarrow> growth_cache \<Rightarrow> database \<Rightarrow> (growth_result \<times> growth_cache \<times> database) res" where
  "add_growth utcnow today u act cache db =
     (case map_of growth_actions act of
        None \<Rightarrow> Inl (ValueError ''action_type'')
      | Some (base, limit) \<Rightarrow>
          let (rel0, db0) = (if act = ''daily_login'' then get_or_create_relationship u db else (new_relationship u, db));
              points = (if act = ''daily_login'' \<and> rl_consecutive_login_days rel0 > 7 then 10 else base);
              k = (u, today, act); current = today_points cache k in
          if current \<ge> limit then
            let (rel, db1) = get_or_create_relationship u db0 in
            Inr (\<lparr>gr_points = 0, gr_leveled_up = False, gr_growth = rl_growth_value rel, gr_level = rl_level rel\<rparr>, cache, db1)
          else
            let actual = min points (limit - current);
                (rel, db1) = get_or_create_relationship u db0;
                rel1 = rel\<lparr>rl_growth_value := rl_growth_value rel + actual, rl_last_interaction_at := Some utcnow\<rparr>;
                (rel2, db2) = raise_level utcnow rel1 db1;
                entry = \<lparr>gl_user_id = u, gl_action_type = act, gl_points = actual, gl_source_type = None, gl_source_id = None,
                  gl_eligible_seconds = None, gl_business_date = None, gl_created_at = utcnow\<rparr>;
                db3 = put_relationship rel2 db2 in
            Inr (\<lparr>gr_points = actual, gr_leveled_up = (rl_level rel2 > rl_level rel), gr_growth = rl_growth_value rel2, gr_level = rl_level rel2\<rparr>,
              count_points k actual cache, db3\<lparr>db_growth := db_growth db3 @ [entry]\<rparr>))"

end
