(* ===== verification/EndCall.thy ===== *)
theory EndCall
  imports Growth Quota CallState Lease
begin

text \<open>
  The end of a call and its supervision (\<open>realtime_voice_ops_service.py\<close>): one transaction settles the quota, flushes the
  turns, finalises the row, stages the card and the missed message and awards growth; the cleanup of the cache
  follows the commit; the hard stop ends every open call of a fixed listing, the reconciliation ends the calls that
  lost their lease or passed the hard limit.

  The process that owns a call hands over its meter and the flush of its turns; no code sets the other hook.
  Audit entries, log lines and counters sent outside a transaction are left out. A deadlock of the settlement is a
  failed attempt that was rolled back. Cancelling the request does not cancel the owned task.
\<close>

section \<open>The transaction\<close>

record local_call =
  lo_meter :: meter
  lo_flush :: "(database \<Rightarrow> database res) option"

record end_clock =
  ek_now :: datetime
  ek_utcnow :: datetime
  ek_seed :: int
  ek_meters :: "string \<Rightarrow> meter option"

record end_facts =
  ef_changed :: bool
  ef_owner :: int
  ef_ended_at :: "datetime option"

definition call_not_found :: exn where
  "call_not_found = ConfigError ''VOICE_CALL_NOT_FOUND'' 404"

definition deadlock_exn :: exn where
  "deadlock_exn = RuntimeError ''database_deadlock''"

definition settle_end :: "bool \<Rightarrow> end_clock \<Rightarrow> local_call option \<Rightarrow> string \<Rightarrow> int \<Rightarrow> voice_call \<Rightarrow> database \<Rightarrow> database res" where
  "settle_end deadlock k loc cid owner row db =
     (if vc_connected_at row = None then Inr db
      else if deadlock then Inl deadlock_exn
      else bindR (case loc of Some l \<Rightarrow> settle (lo_meter l) db | None \<Rightarrow> recover (ek_meters k) cid owner db) (\<lambda>(s, db1). Inr db1))"

definition flush_end :: "local_call option \<Rightarrow> database \<Rightarrow> database res" where
  "flush_end loc db = (case Option.bind loc lo_flush of None \<Rightarrow> Inr db | Some f \<Rightarrow> f db)"

text \<open>The row is the session's object: every step reads what the steps before it wrote.\<close>

definition row_of :: "string \<Rightarrow> database \<Rightarrow> voice_call res" where
  "row_of cid db = (case get_call cid db of None \<Rightarrow> Inl call_not_found | Some c \<Rightarrow> Inr c)"

definition finalise_call :: "end_clock \<Rightarrow> string \<Rightarrow> string \<Rightarrow> database \<Rightarrow> database res" where
  "finalise_call k cid reason db =
     bindR (row_of cid db) (\<lambda>row.
     bindR (stage_final_state row reason (ek_now k)) (\<lambda>(b, r1).
     bindR (stage_call_card r1 (put_call r1 db)) (\<lambda>(b2, r2, db2).
       if vc_status r2 = Missed then bindR (stage_missed_followup (ek_utcnow k) (ek_seed k) r2 db2) (\<lambda>(j, db3). Inr db3)
       else Inr db2)))"

definition award_end :: "end_clock \<Rightarrow> int \<Rightarrow> string \<Rightarrow> database \<Rightarrow> database res" where
  "award_end k owner cid db =
     bindR (row_of cid db) (\<lambda>row.
       if vc_connected_at row = None then Inr db
       else bindR (add_voice_growth (ek_utcnow k) owner (vc_growth_eligible_seconds row) cid db) (\<lambda>(g, db1). Inr db1))"

definition end_reason_dim :: "string option \<Rightarrow> string" where
  "end_reason_dim r = (case r of Some s \<Rightarrow> if s \<in> set call_reasons then s else ''other'' | None \<Rightarrow> ''other'')"

definition end_call_tx ::
  "bool \<Rightarrow> end_clock \<Rightarrow> local_call option \<Rightarrow> string \<Rightarrow> int option \<Rightarrow> string \<Rightarrow> database \<Rightarrow> (end_facts \<times> database) res" where
  "end_call_tx deadlock k loc cid user reason db =
     (if (case (loc, user) of (Some l, Some u) \<Rightarrow> mt_user_id (lo_meter l) \<noteq> u | _ \<Rightarrow> False) then Inl call_not_found
      else bindR (row_of cid db) (\<lambda>row.
        let owner = vc_user_id row in
        if (case user of None \<Rightarrow> False | Some u \<Rightarrow> owner \<noteq> u) then Inl call_not_found
        else if vc_status row \<notin> set ACTIVE then
          Inr (\<lparr>ef_changed = False, ef_owner = owner, ef_ended_at = vc_ended_at row\<rparr>,
            commit_flush (stage [ev ''voice.state.terminal_replay'' [] 1, ev ''voice.finalizer.replay'' [] 1] db))
        else
          bindR (settle_end deadlock k loc cid owner row db) (\<lambda>db1.
          bindR (flush_end loc db1) (\<lambda>db2.
          bindR (finalise_call k cid reason db2) (\<lambda>db3.
          bindR (award_end k owner cid db3) (\<lambda>db4.
          bindR (row_of cid db4) (\<lambda>final.
            Inr (\<lparr>ef_changed = True, ef_owner = owner, ef_ended_at = vc_ended_at final\<rparr>,
              commit_flush (stage [ev ''voice.finalizer.end_reason'' [(''reason'', end_reason_dim (vc_end_reason final))] 1]
                (stage_transition_metric (vc_status row) (vc_status final) (vc_end_reason final) db4))))))))))"

text \<open>\<open>_end_call\<close>: up to four attempts while the settlement deadlocks.\<close>

fun end_attempts ::
  "nat \<Rightarrow> nat \<Rightarrow> end_clock \<Rightarrow> local_call option \<Rightarrow> string \<Rightarrow> int option \<Rightarrow> string \<Rightarrow> database \<Rightarrow> (end_facts \<times> database) res" where
  "end_attempts 0 deadlocks k loc cid user reason db = end_call_tx (0 < deadlocks) k loc cid user reason db"
| "end_attempts (Suc left) deadlocks k loc cid user reason db =
     (let r = end_call_tx (0 < deadlocks) k loc cid user reason db in
      if r = Inl deadlock_exn then end_attempts left (deadlocks - 1) k loc cid user reason db else r)"

section \<open>The cleanup\<close>

text \<open>The parts of the cache the cleanup touches; the session context is a set of calls with one.\<close>

record call_cache =
  cc_leases :: lease_store
  cc_control :: "string list"
  cc_contexts :: "string list"

datatype cleanup_phase = Ph_cooldown | Ph_lease | Ph_control | Ph_context

record cleanup_env =
  cl_alive :: px
  cl_clock :: int
  cl_works :: "string \<Rightarrow> cleanup_phase \<Rightarrow> bool"

definition cleanup_cooldown :: "cleanup_env \<Rightarrow> string \<Rightarrow> int \<Rightarrow> datetime option \<Rightarrow> call_cache \<Rightarrow> bool \<times> call_cache" where
  "cleanup_cooldown env cid owner ended s =
     (case ended of
        None \<Rightarrow> (True, s)
      | Some t \<Rightarrow>
          if cl_works env cid Ph_cooldown
          then (True, s\<lparr>cc_leases := snd (COOLDOWN (cl_alive env) (cl_clock env) owner cid (t div 1000) (cc_leases s))\<rparr>) else (False, s))"

definition cleanup_lease :: "cleanup_env \<Rightarrow> string \<Rightarrow> int \<Rightarrow> call_cache \<Rightarrow> bool \<times> call_cache" where
  "cleanup_lease env cid owner s =
     (case lease_release (cl_alive env) (cl_clock env) owner cid (cc_leases s) of
        Inl x \<Rightarrow> (False, s)
      | Inr (b, l) \<Rightarrow> if cl_works env cid Ph_lease then (True, s\<lparr>cc_leases := l\<rparr>) else (False, s))"

definition cleanup_control :: "cleanup_env \<Rightarrow> string \<Rightarrow> call_cache \<Rightarrow> bool \<times> call_cache" where
  "cleanup_control env cid s =
     (if cl_works env cid Ph_control then (True, s\<lparr>cc_control := cc_control s @ [cid]\<rparr>) else (False, s))"

definition cleanup_context :: "cleanup_env \<Rightarrow> string \<Rightarrow> call_cache \<Rightarrow> bool \<times> call_cache" where
  "cleanup_context env cid s =
     (if cl_works env cid Ph_context then (True, s\<lparr>cc_contexts := filter (\<lambda>c. c \<noteq> cid) (cc_contexts s)\<rparr>) else (False, s))"

definition cleanup_ended :: "cleanup_env \<Rightarrow> string \<Rightarrow> int \<Rightarrow> datetime option \<Rightarrow> call_cache \<Rightarrow> bool \<times> call_cache" where
  "cleanup_ended env cid owner ended s =
     (let (a, s1) = cleanup_cooldown env cid owner ended s; (b, s2) = cleanup_lease env cid owner s1;
          (c, s3) = cleanup_control env cid s2; (d, s4) = cleanup_context env cid s3 in
      (a \<and> b \<and> c \<and> d, s4))"

record end_result =
  er_call_id :: string
  er_changed :: bool
  er_pending :: bool

definition end_call ::
  "nat \<Rightarrow> end_clock \<Rightarrow> cleanup_env \<Rightarrow> local_call option \<Rightarrow> string \<Rightarrow> int option \<Rightarrow> string \<Rightarrow> database \<Rightarrow> call_cache
     \<Rightarrow> end_result res \<times> database \<times> call_cache" where
  "end_call deadlocks k env loc cid user reason db s =
     (case end_attempts 3 deadlocks k loc cid user reason db of
        Inl x \<Rightarrow> (Inl x, db, s)
      | Inr (f, db') \<Rightarrow>
          let (clean, s') = cleanup_ended env cid (ef_owner f) (ef_ended_at f) s in
          (Inr \<lparr>er_call_id = cid, er_changed = ef_changed f, er_pending = \<not> clean\<rparr>, db', s'))"

section \<open>The hard stop\<close>

text \<open>What one end needs from its surroundings: clocks, the process's own handle, the cache, deadlocks.\<close>

record end_env =
  ex_clock :: "string \<Rightarrow> end_clock"
  ex_cleanup :: cleanup_env
  ex_local :: "string \<Rightarrow> local_call option"
  ex_deadlocks :: "string \<Rightarrow> nat"

definition end_in :: "end_env \<Rightarrow> string \<Rightarrow> int option \<Rightarrow> string \<Rightarrow> database \<Rightarrow> call_cache \<Rightarrow> end_result res \<times> database \<times> call_cache" where
  "end_in x cid user reason db s =
     end_call (ex_deadlocks x cid) (ex_clock x cid) (ex_cleanup x) (ex_local x cid) cid user reason db s"

record failure_detail =
  fd_call_id :: string
  fd_code :: string
  fd_retryable :: bool

text \<open>\<open>end_failure\<close>: no exception text leaves the service.\<close>

definition end_failure :: "string \<Rightarrow> exn option \<Rightarrow> failure_detail" where
  "end_failure cid x =
     (case (case x of
          None \<Rightarrow> (''VOICE_END_CLEANUP_PENDING'', True)
        | Some (ConfigError code status) \<Rightarrow> (code, status \<ge> 500)
        | Some (QuotaError _) \<Rightarrow> (''VOICE_END_SETTLEMENT_REVIEW_REQUIRED'', False)
        | Some (ValueError m) \<Rightarrow> if m = ''voice_growth_call_not_terminal'' then (''VOICE_END_STATE_INVALID'', False) else (''VOICE_END_FAILED'', True)
        | Some (RuntimeError m) \<Rightarrow> if m = ''database_deadlock'' then (''VOICE_END_DATABASE_UNAVAILABLE'', True) else (''VOICE_END_FAILED'', True)
        | Some (ConnectionError _) \<Rightarrow> (''VOICE_END_DEPENDENCY_UNAVAILABLE'', True)
        | Some TimeoutError \<Rightarrow> (''VOICE_END_DEPENDENCY_UNAVAILABLE'', True)
        | Some _ \<Rightarrow> (''VOICE_END_FAILED'', True)) of
        (code, retryable) \<Rightarrow> \<lparr>fd_call_id = cid, fd_code = code, fd_retryable = retryable\<rparr>)"

definition active_calls :: "database \<Rightarrow> voice_call list" where
  "active_calls db = sort_key vc_id (filter (\<lambda>c. vc_status c \<in> set ACTIVE) (db_calls db))"

record stop_report =
  st_targets :: "string list"
  st_results :: "end_result list"
  st_failed :: "string list"
  st_details :: "failure_detail list"

fun end_each ::
  "end_env \<Rightarrow> string list \<Rightarrow> database \<Rightarrow> call_cache \<Rightarrow> end_result list \<times> (string \<times> failure_detail) list \<times> database \<times> call_cache" where
  "end_each x [] db s = ([], [], db, s)"
| "end_each x (cid # cids) db s =
     (case end_in x cid None ''system_error'' db s of
        (Inl e, db1, s1) \<Rightarrow>
          (case end_each x cids db1 s1 of (rs, fs, db2, s2) \<Rightarrow> (rs, (cid, end_failure cid (Some e)) # fs, db2, s2))
      | (Inr r, db1, s1) \<Rightarrow>
          (case end_each x cids db1 s1 of (rs, fs, db2, s2) \<Rightarrow>
             (r # rs, (if er_pending r then [(cid, end_failure cid None)] else []) @ fs, db2, s2)))"

definition hard_stop :: "end_env \<Rightarrow> string \<Rightarrow> database \<Rightarrow> call_cache \<Rightarrow> stop_report res \<times> database \<times> call_cache" where
  "hard_stop x confirm db s =
     (if confirm \<noteq> ''CONFIRM'' then (Inl (ConfigError ''VOICE_CONFIG_CONFIRM_TEXT_INVALID'' 400), db, s)
      else let targets = map vc_call_id (active_calls db) in
        case end_each x targets db s of
          (rs, fs, db', s') \<Rightarrow> (Inr \<lparr>st_targets = targets, st_results = rs, st_failed = map fst fs, st_details = map snd fs\<rparr>, db', s'))"

section \<open>The reconciliation\<close>

definition hard_limit_of :: "voice_call \<Rightarrow> int" where
  "hard_limit_of c =
     (case jget_def' (jget_def' (jget_def' (vc_config_snapshot c) ''resolved_config'' (JObj [])) ''quota'' (JObj [])) ''hard_limit_seconds'' (JInt 3600) of
        JInt n \<Rightarrow> n | _ \<Rightarrow> 3600)"

definition past_hard_limit :: "datetime \<Rightarrow> voice_call \<Rightarrow> bool" where
  "past_hard_limit now c \<longleftrightarrow> (case vc_connected_at c of None \<Rightarrow> False | Some t \<Rightarrow> hard_limit_of c * us_second \<le> now - t)"

record reconcile_count =
  rn_corrected :: int
  rn_failures :: int

definition failure_seen :: "reconcile_count \<Rightarrow> reconcile_count" where
  "failure_seen n = n\<lparr>rn_failures := rn_failures n + 1\<rparr>"

definition corrected_seen :: "reconcile_count \<Rightarrow> reconcile_count" where
  "corrected_seen n = n\<lparr>rn_corrected := rn_corrected n + 1\<rparr>"

definition reclean :: "end_env \<Rightarrow> voice_call \<Rightarrow> reconcile_count \<times> database \<times> call_cache \<Rightarrow> reconcile_count \<times> database \<times> call_cache" where
  "reclean x c acc =
     (case acc of (n, db, s) \<Rightarrow>
        (case cleanup_ended (ex_cleanup x) (vc_call_id c) (vc_user_id c) (vc_ended_at c) s of
           (ok, s') \<Rightarrow> (if ok then n else failure_seen n, db, s')))"

text \<open>One open call: a lookup of the owner that fails is no evidence of an orphan.\<close>

definition supervise ::
  "end_env \<Rightarrow> datetime \<Rightarrow> (string \<Rightarrow> bool) \<Rightarrow> voice_call \<Rightarrow> reconcile_count \<times> database \<times> call_cache \<Rightarrow> reconcile_count \<times> database \<times> call_cache" where
  "supervise x now lookup_ok c acc =
     (case acc of (n, db, s) \<Rightarrow>
        let cid = vc_call_id c; limit = past_hard_limit now c in
        if \<not> limit \<and> \<not> lookup_ok cid then (failure_seen n, db, s)
        else if limit \<or> \<not> owner_matches (cl_alive (ex_cleanup x)) (cl_clock (ex_cleanup x)) (vc_user_id c) cid (cc_leases s) then
          (case end_in x cid (Some (vc_user_id c)) (if limit then ''hard_limit'' else ''system_error'') db s of
             (Inl e, db1, s1) \<Rightarrow> (failure_seen n, db1, s1)
           | (Inr r, db1, s1) \<Rightarrow> ((if er_pending r then failure_seen (corrected_seen n) else corrected_seen n), db1, s1))
        else (n, db, s))"

definition recently_ended :: "datetime \<Rightarrow> voice_call \<Rightarrow> bool" where
  "recently_ended utcnow c \<longleftrightarrow> vc_status c \<in> set TERMINAL \<and> (case vc_ended_at c of None \<Rightarrow> False | Some t \<Rightarrow> utcnow - 180 * us_second \<le> t)"

definition reconcile ::
  "end_env \<Rightarrow> datetime \<Rightarrow> datetime \<Rightarrow> (string \<Rightarrow> bool) \<Rightarrow> database \<Rightarrow> call_cache \<Rightarrow> reconcile_count \<times> database \<times> call_cache" where
  "reconcile x now utcnow lookup_ok db s =
     (let (pruned, l) = PRUNE_EXPIRED (cl_clock (ex_cleanup x)) (cc_leases s);
          rows = filter (\<lambda>c. vc_status c \<in> set ACTIVE) (db_calls db);
          ended = filter (recently_ended utcnow) (db_calls db) in
      fold (supervise x now lookup_ok) rows (fold (reclean x) ended (\<lparr>rn_corrected = 0, rn_failures = 0\<rparr>, db, s\<lparr>cc_leases := l\<rparr>)))"

end
