(* ===== verification/GrowthClaims.thy ===== *)
theory GrowthClaims
  imports Growth MemoryText
begin

text \<open>
  The promises of \<open>Growth\<close>: a call earns growth once, the points of a business day stay within its limit, the
  relationship moves by exactly the points awarded and its level never drops.
\<close>

section \<open>Levels and relationships\<close>

lemma raise_level_facts:
  assumes "raise_level t r db = (r', db')"
  shows "rl_user_id r' = rl_user_id r" "rl_growth_value r' = rl_growth_value r" "rl_level r \<le> rl_level r'"
    "rl_level r' = max (rl_level r) (calc_level (rl_growth_value r))"
    "db_calls db' = db_calls db" "db_growth db' = db_growth db" "db_relationships db' = db_relationships db"
    "db_turns db' = db_turns db" "db_staged db' = db_staged db"
  using assms by (auto simp: raise_level_def Let_def split: if_splits)

lemma get_or_create_facts:
  assumes "get_or_create_relationship u db = (r, db')"
  shows "get_relationship u db' = Some r" "rl_user_id r = u" "db_calls db' = db_calls db" "db_growth db' = db_growth db"
    "db_turns db' = db_turns db" "db_staged db' = db_staged db"
    "r = (case get_relationship u db of Some r0 \<Rightarrow> r0 | None \<Rightarrow> new_relationship u)"
proof -
  have k: "get_relationship u db = Some x \<Longrightarrow> rl_user_id x = u" for x by (rule rels.get_key)
  have e: "row_find rl_user_id u (xs @ [new_relationship u]) = Some (new_relationship u)" if "row_find rl_user_id u xs = None" for xs
    using that by (induction xs) (auto simp: row_find_def new_relationship_def split: if_splits)
  show "get_relationship u db' = Some r" "rl_user_id r = u" "db_calls db' = db_calls db" "db_growth db' = db_growth db"
    "db_turns db' = db_turns db" "db_staged db' = db_staged db"
    "r = (case get_relationship u db of Some r0 \<Rightarrow> r0 | None \<Rightarrow> new_relationship u)"
    using assms k e by (auto simp: get_or_create_relationship_def get_relationship_def new_relationship_def split: option.splits)
qed

lemma get_or_create_same: "get_relationship u db = Some r \<Longrightarrow> get_or_create_relationship u db = (r, db)"
  by (simp add: get_or_create_relationship_def)

lemma touch_facts [simp]:
  "rl_user_id (touch_relationship c e p r) = rl_user_id r" "rl_growth_value (touch_relationship c e p r) = rl_growth_value r + p"
  "rl_level (touch_relationship c e p r) = rl_level r"
  by (simp_all add: touch_relationship_def Let_def)

section \<open>The award\<close>

lemma add_voice_growth_cases:
  assumes "add_voice_growth t u e cid db = Inr (g, db')"
  obtains (replay) c ended rel db1 where "get_call cid db = Some c" "vc_user_id c = u" "vc_status c \<in> set TERMINAL" "vc_ended_at c = Some ended"
      "get_or_create_relationship u db = (rel, db1)" "already_logged cid db" "0 \<le> e"
      "g = \<lparr>gr_points = 0, gr_leveled_up = False, gr_growth = rl_growth_value rel, gr_level = rl_level rel\<rparr>"
      "db' = stage [ev ''voice.growth.idempotent'' [] 1] db1"
  | (award) c ended rel db1 w where "get_call cid db = Some c" "vc_user_id c = u" "vc_status c \<in> set TERMINAL" "vc_ended_at c = Some ended"
      "get_or_create_relationship u db = (rel, db1)" "\<not> already_logged cid db" "0 \<le> e" "e = vc_growth_eligible_seconds c"
      "growth_settings c = Inr w" "(g, db') = award_growth t u c ended w rel db1"
proof -
  obtain c ended where c: "0 \<le> e" "get_call cid db = Some c" "vc_user_id c = u" "vc_status c \<in> set TERMINAL" "vc_ended_at c = Some ended"
    using assms by (auto simp: add_voice_growth_def TERMINAL_def split: if_splits option.splits bool.splits)
  obtain rel db1 where r: "get_or_create_relationship u db = (rel, db1)" by (cases "get_or_create_relationship u db")
  have l: "already_logged cid db1 = already_logged cid db" using get_or_create_facts(4) [OF r] by (simp add: already_logged_def)
  have a: "vc_status c \<in> {Ended, Failed, Missed, Cancelled}" using c(4) by (auto simp: TERMINAL_def)
  show ?thesis
  proof (cases "already_logged cid db")
    case True
    show ?thesis
      by (rule replay [OF c(2-5) r True c(1)]) (use assms c a r l True in \<open>auto simp: add_voice_growth_def\<close>)
  next
    case False
    have e: "e = vc_growth_eligible_seconds c" using assms c a r l False by (auto simp: add_voice_growth_def split: if_splits)
    obtain w where w: "growth_settings c = Inr w" "(g, db') = award_growth t u c ended w rel db1"
      using assms c a r l False e by (auto simp: add_voice_growth_def bindR_def split: sum.splits)
    show ?thesis by (rule award [OF c(2-5) r False c(1) e w])
  qed
qed

lemma award_facts:
  assumes "(g, db') = award_growth t u c ended w rel db" "get_relationship u db = Some rel" "get_call cid db = Some c"
  obtains rel1 eligible where "get_relationship u db' = Some rel1" "rl_growth_value rel1 = rl_growth_value rel + gr_points g"
    "rl_level rel1 = max (rl_level rel) (calc_level (rl_growth_value rel1))" "gr_growth g = rl_growth_value rel1"
    "get_call cid db' = Some (c\<lparr>vc_growth_eligible_seconds := eligible, vc_growth_points := gr_points g\<rparr>)"
    "\<And>k. k \<noteq> cid \<Longrightarrow> get_call k db' = get_call k db"
    "db_growth db' = db_growth db @ [\<lparr>gl_user_id = u, gl_action_type = ''voice_call'', gl_points = gr_points g, gl_source_type = Some ''voice_call'',
       gl_source_id = Some cid, gl_eligible_seconds = Some eligible, gl_business_date = Some (sh_date ended), gl_created_at = t\<rparr>]"
    "gr_points g = (if growth_qualifies c db then min (earned_points w eligible) (max 0 (gw_limit w - sum_list (map gl_points (voice_logs u (sh_date ended) db)))) else 0)"
    "eligible = (if call_meaningful cid db then vc_growth_eligible_seconds c else 0)"
proof -
  have kc: "vc_call_id c = cid" using assms(3) by (rule calls.get_key)
  have kr: "rl_user_id rel = u" using assms(2) by (rule rels.get_key)
  define eligible where "eligible = (if call_meaningful (vc_call_id c) db then vc_growth_eligible_seconds c else 0)"
  define p where "p = (if growth_qualifies c db then min (earned_points w eligible) (max 0 (gw_limit w - sum_list (map gl_points (voice_logs u (sh_date ended) db)))) else 0)"
  obtain rel1 db1 where r: "raise_level t (touch_relationship c ended p rel) db = (rel1, db1)" by fastforce
  note R = raise_level_facts [OF r]
  have ku: "rl_user_id rel1 = u" using R(1) kr by simp
  define c1 where "c1 = c\<lparr>vc_growth_eligible_seconds := eligible, vc_growth_points := p\<rparr>"
  have k1: "vc_call_id c1 = cid" using kc by (simp add: c1_def)
  define entry where "entry = \<lparr>gl_user_id = u, gl_action_type = ''voice_call'', gl_points = p, gl_source_type = Some ''voice_call'',
     gl_source_id = Some cid, gl_eligible_seconds = Some eligible, gl_business_date = Some (sh_date ended), gl_created_at = t\<rparr>"
  have q: "\<exists>evs. gr_points g = p \<and> gr_growth g = rl_growth_value rel1 \<and>
      db' = stage evs ((put_call c1 (put_relationship rel1 db1))\<lparr>db_growth := db_growth (put_call c1 (put_relationship rel1 db1)) @ [entry]\<rparr>)"
    using assms(1) r kc unfolding p_def eligible_def c1_def entry_def award_growth_def Let_def by auto
  then obtain evs where g: "gr_points g = p" "gr_growth g = rl_growth_value rel1"
    and d: "db' = stage evs ((put_call c1 (put_relationship rel1 db1))\<lparr>db_growth := db_growth (put_call c1 (put_relationship rel1 db1)) @ [entry]\<rparr>)"
    by blast
  have gr: "get_relationship k db1 = get_relationship k db" for k using R(7) by (simp add: get_relationship_def)
  have gc: "get_call k db' = get_call k (put_call c1 db)" for k
    using R(5) by (simp add: d get_call_def put_call_def put_relationship_def)
  have "get_relationship u db' = get_relationship u (put_relationship rel1 db1)" by (simp add: d get_relationship_def)
  also have "\<dots> = Some rel1" using ku assms(2) gr by (intro rels.get_put_same) auto
  finally have 1: "get_relationship u db' = Some rel1" .
  have 5: "get_call cid db' = Some c1" unfolding gc using k1 assms(3) kc by (intro calls.get_put_same) auto
  have 6: "get_call k db' = get_call k db" if "k \<noteq> cid" for k
    unfolding gc by (rule calls.get_put_other [OF assms(3) k1 that])
  show ?thesis
  proof (rule that [OF 1 _ _ _ _ 6, of eligible])
    show "rl_growth_value rel1 = rl_growth_value rel + gr_points g" "gr_growth g = rl_growth_value rel1"
      "rl_level rel1 = max (rl_level rel) (calc_level (rl_growth_value rel1))" using R g by simp_all
    show "get_call cid db' = Some (c\<lparr>vc_growth_eligible_seconds := eligible, vc_growth_points := gr_points g\<rparr>)" using 5 g by (simp add: c1_def)
    show "db_growth db' = db_growth db @ [\<lparr>gl_user_id = u, gl_action_type = ''voice_call'', gl_points = gr_points g, gl_source_type = Some ''voice_call'',
       gl_source_id = Some cid, gl_eligible_seconds = Some eligible, gl_business_date = Some (sh_date ended), gl_created_at = t\<rparr>]"
      using R g by (simp add: d entry_def put_relationship_def)
    show "gr_points g = (if growth_qualifies c db then min (earned_points w eligible) (max 0 (gw_limit w - sum_list (map gl_points (voice_logs u (sh_date ended) db)))) else 0)"
      unfolding g(1) by (rule p_def)
    show "eligible = (if call_meaningful cid db then vc_growth_eligible_seconds c else 0)" using kc by (simp add: eligible_def)
  qed
qed

section \<open>Once per call\<close>

lemma replay_growth:
  assumes "get_relationship u db = Some r" "get_call cid db = Some c" "vc_user_id c = u" "vc_status c \<in> set TERMINAL" "vc_ended_at c = Some ended"
    "already_logged cid db" "0 \<le> e"
  shows "add_voice_growth t u e cid db =
    Inr (\<lparr>gr_points = 0, gr_leveled_up = False, gr_growth = rl_growth_value r, gr_level = rl_level r\<rparr>, stage [ev ''voice.growth.idempotent'' [] 1] db)"
proof -
  have "vc_status c \<in> {Ended, Failed, Missed, Cancelled}" using assms(4) by (auto simp: TERMINAL_def)
  then show ?thesis using get_or_create_same [OF assms(1)] assms(2,3,5-7) by (simp add: add_voice_growth_def)
qed

text \<open>A call earns growth once. After an award (or a replay of one) every later award for the call succeeds with
  zero points, leaves the relationship as it is, writes nothing but the event of the replay, whatever time and
  seconds it names.\<close>

theorem voice_growth_once:
  assumes "add_voice_growth t u e cid db = Inr (g, db')" "0 \<le> e'"
  shows "\<exists>r. get_relationship u db' = Some r \<and> add_voice_growth t' u e' cid db' =
      Inr (\<lparr>gr_points = 0, gr_leveled_up = False, gr_growth = rl_growth_value r, gr_level = rl_level r\<rparr>, stage [ev ''voice.growth.idempotent'' [] 1] db')"
  using assms(1)
proof (cases rule: add_voice_growth_cases)
  case (replay c ended rel db1)
  note F = get_or_create_facts [OF replay(5)]
  have r: "get_relationship u db' = Some rel" and c: "get_call cid db' = Some c" and l: "already_logged cid db'"
    using F replay by (simp_all add: get_call_def already_logged_def)
  show ?thesis using replay_growth [OF r c replay(2-4) l assms(2)] r by blast
next
  case (award c ended rel db1 w)
  note F = get_or_create_facts [OF award(5)]
  have c: "get_call cid db1 = Some c" using award(1) F(3) by (simp add: get_call_def)
  obtain rel1 eligible where A: "get_relationship u db' = Some rel1"
    "get_call cid db' = Some (c\<lparr>vc_growth_eligible_seconds := eligible, vc_growth_points := gr_points g\<rparr>)"
    and G: "db_growth db' = db_growth db1 @ [\<lparr>gl_user_id = u, gl_action_type = ''voice_call'', gl_points = gr_points g, gl_source_type = Some ''voice_call'',
       gl_source_id = Some cid, gl_eligible_seconds = Some eligible, gl_business_date = Some (sh_date ended), gl_created_at = t\<rparr>]"
    by (rule award_facts [OF award(10) F(1) c]) (rule that)
  have l: "already_logged cid db'" by (simp add: already_logged_def G)
  have "add_voice_growth t' u e' cid db' = Inr (\<lparr>gr_points = 0, gr_leveled_up = False, gr_growth = rl_growth_value rel1, gr_level = rl_level rel1\<rparr>,
      stage [ev ''voice.growth.idempotent'' [] 1] db')"
    by (rule replay_growth [OF A _ _ _ l assms(2)]) (simp_all add: award(2-4))
  with A(1) show ?thesis by blast
qed

section \<open>The limit of the day\<close>

definition day_points :: "int \<Rightarrow> date \<Rightarrow> database \<Rightarrow> int" where
  "day_points u d db = sum_list (map gl_points (voice_logs u d db))"

definition growth_of :: "int \<Rightarrow> database \<Rightarrow> int" where
  "growth_of u db = (case get_relationship u db of Some r \<Rightarrow> rl_growth_value r | None \<Rightarrow> 0)"

definition level_of :: "int \<Rightarrow> database \<Rightarrow> int" where
  "level_of u db = (case get_relationship u db of Some r \<Rightarrow> rl_level r | None \<Rightarrow> 0)"

lemma growth_of_created: "get_or_create_relationship u db = (r, db') \<Longrightarrow> growth_of u db = rl_growth_value r \<and> level_of u db = rl_level r"
  using get_or_create_facts(7) [of u db r db'] by (auto simp: growth_of_def level_of_def new_relationship_def split: option.splits)

lemma growth_settings_bounds:
  assumes "growth_settings c = Inr w"
  shows "0 < gw_segment w" "0 < gw_points w" "0 \<le> gw_limit w"
  using assms by (auto simp: growth_settings_def Let_def split: if_splits json.splits)

text \<open>C27: Voice growth is bounded and exact. Whatever a call earns is not negative, the points of the user's business day grow by
  exactly that amount and stay within the limit of the call's configuration (or where they already were), the growth
  of the relationship grows by exactly that amount, and its level never drops.\<close>

theorem voice_growth_capped:
  assumes "add_voice_growth t u e cid db = Inr (g, db')" "get_call cid db = Some c" "vc_ended_at c = Some ended" "growth_settings c = Inr w"
  shows "0 \<le> gr_points g \<and> day_points u (sh_date ended) db' = day_points u (sh_date ended) db + gr_points g \<and>
    day_points u (sh_date ended) db' \<le> max (gw_limit w) (day_points u (sh_date ended) db) \<and>
    growth_of u db' = growth_of u db + gr_points g \<and> level_of u db \<le> level_of u db'"
  using assms(1)
proof (cases rule: add_voice_growth_cases)
  case (replay c1 ended1 rel db1)
  note F = get_or_create_facts [OF replay(5)]
  have r: "get_relationship u db' = Some rel" "db_growth db' = db_growth db" using F replay by simp_all
  with replay(8) growth_of_created [OF replay(5)] show ?thesis
    by (simp add: day_points_def voice_logs_def growth_of_def level_of_def)
next
  case (award c1 ended1 rel db1 w1)
  note F = get_or_create_facts [OF award(5)]
  have [simp]: "c1 = c" "ended1 = ended" "w1 = w" using award(1,4,9) assms(2-4) by simp_all
  have c: "get_call cid db1 = Some c" using award(1) F(3) by (simp add: get_call_def)
  obtain rel1 eligible where A: "get_relationship u db' = Some rel1" "rl_growth_value rel1 = rl_growth_value rel + gr_points g"
      "rl_level rel1 = max (rl_level rel) (calc_level (rl_growth_value rel1))"
    and G: "db_growth db' = db_growth db1 @ [\<lparr>gl_user_id = u, gl_action_type = ''voice_call'', gl_points = gr_points g, gl_source_type = Some ''voice_call'',
       gl_source_id = Some cid, gl_eligible_seconds = Some eligible, gl_business_date = Some (sh_date ended), gl_created_at = t\<rparr>]"
    and P: "gr_points g = (if growth_qualifies c db1 then min (earned_points w eligible) (max 0 (gw_limit w - sum_list (map gl_points (voice_logs u (sh_date ended) db1)))) else 0)"
      "eligible = (if call_meaningful cid db1 then vc_growth_eligible_seconds c else 0)"
    by (rule award_facts [OF award(10) [simplified] F(1) c]) (rule that)
  have D: "day_points u (sh_date ended) db' = day_points u (sh_date ended) db1 + gr_points g" by (simp add: day_points_def voice_logs_def G)
  have d: "day_points u (sh_date ended) db1 = day_points u (sh_date ended) db" using F(4) by (simp add: day_points_def voice_logs_def)
  note W = growth_settings_bounds [OF assms(4)]
  have e: "0 \<le> eligible" using award(7,8) by (simp add: P(2))
  have "0 \<le> earned_points w eligible" using W e by (simp add: earned_points_def pos_imp_zdiv_nonneg_iff)
  hence p: "0 \<le> gr_points g" "gr_points g \<le> max 0 (gw_limit w - day_points u (sh_date ended) db)" by (auto simp: P(1) d day_points_def [symmetric])
  show ?thesis using p A D d growth_of_created [OF award(5)] by (auto simp: growth_of_def level_of_def)
qed

section \<open>A concrete call\<close>

definition grown_call :: voice_call where
  "grown_call = (blank_call 1 ''c'' 7 Ended)\<lparr>vc_ended_at := Some 1000000, vc_connected_at := Some 0, vc_growth_eligible_seconds := 70\<rparr>"

definition grown_db :: database where
  "grown_db = empty_db\<lparr>db_calls := [grown_call], db_turns := [demo_turn]\<rparr>"

lemma grown_call_facts:
  "get_call ''c'' grown_db = Some grown_call" "vc_call_id grown_call = ''c''" "vc_user_id grown_call = 7" "vc_status grown_call = Ended"
  "vc_ended_at grown_call = Some 1000000" "vc_connected_at grown_call = Some 0" "vc_growth_eligible_seconds grown_call = 70" "vc_end_reason grown_call = None"
  "growth_settings grown_call = Inr \<lparr>gw_segment = 30, gw_points = 5, gw_limit = 100\<rparr>"
  "get_or_create_relationship 7 grown_db = (new_relationship 7, grown_db\<lparr>db_relationships := [new_relationship 7]\<rparr>)"
  "db_growth grown_db = []" "db_turns grown_db = [demo_turn]"
proof -
  have "vc_config_snapshot grown_call = JObj []" by (simp add: grown_call_def blank_call_def)
  thus "growth_settings grown_call = Inr \<lparr>gw_segment = 30, gw_points = 5, gw_limit = 100\<rparr>"
    by (simp add: growth_settings_def jget_def'_def jget_def jhas_def jkeys_def seed_growth_def Let_def)
qed (simp_all add: get_call_def row_find_def grown_db_def grown_call_def blank_call_def empty_db_def get_or_create_relationship_def get_relationship_def)

lemma grown_meaningful: "db_turns db = [demo_turn] \<Longrightarrow> call_meaningful ''c'' db"
proof -
  have "meaningful_user_text (Some (asc ''I moved''))"
    by (simp add: meaningful_user_text_def compact_text_def punct_char_def asc_def py_space_def Let_def filler_chars_def de_heads_def)
  moreover have "growth_text ''c'' demo_turn" "tn_user_text_final demo_turn = Some (asc ''I moved'')"
    by (simp_all add: growth_text_def demo_turn_def asc_def)
  ultimately have "growth_text ''c'' demo_turn \<and> meaningful_user_text (tn_user_text_final demo_turn)" by simp
  thus "db_turns db = [demo_turn] \<Longrightarrow> call_meaningful ''c'' db" by (simp add: call_meaningful_def)
qed

lemma grown_award:
  obtains g db' where "add_voice_growth 5 7 70 ''c'' grown_db = Inr (g, db')" "gr_points g = 10"
proof -
  define db1 where "db1 = grown_db\<lparr>db_relationships := [new_relationship 7]\<rparr>"
  have m: "call_meaningful ''c'' db1" by (rule grown_meaningful) (simp add: db1_def grown_call_facts)
  obtain g db' where a: "(g, db') = award_growth 5 7 grown_call 1000000 \<lparr>gw_segment = 30, gw_points = 5, gw_limit = 100\<rparr> (new_relationship 7) db1"
    by (metis surj_pair)
  have f: "get_relationship 7 db1 = Some (new_relationship 7)" "get_call ''c'' db1 = Some grown_call" "voice_logs 7 d db1 = []" for d
    using grown_call_facts by (simp_all add: db1_def get_relationship_def row_find_def new_relationship_def get_call_def voice_logs_def)
  have "growth_qualifies grown_call db1" using m by (simp add: growth_qualifies_def grown_call_facts)
  hence "gr_points g = 10"
    by (rule_tac award_facts [OF a f(1,2)]) (simp add: m f(3) earned_points_def grown_call_facts)
  moreover have "\<not> already_logged ''c'' db1" by (simp add: already_logged_def db1_def grown_call_facts)
  ultimately show ?thesis using that [of g db'] a unfolding db1_def by (simp add: add_voice_growth_def bindR_def grown_call_facts)
qed

theorem voice_growth_once_witness:
  "\<exists>g db'. add_voice_growth 5 7 70 ''c'' grown_db = Inr (g, db') \<and> gr_points g = 10 \<and>
     (\<exists>g' db''. add_voice_growth 9 7 60 ''c'' db' = Inr (g', db'') \<and> gr_points g' = 0 \<and> db_growth db'' = db_growth db')"
proof -
  obtain g db' where a: "add_voice_growth 5 7 70 ''c'' grown_db = Inr (g, db')" "gr_points g = 10" by (rule grown_award)
  have "\<exists>r. get_relationship 7 db' = Some r \<and> add_voice_growth 9 7 60 ''c'' db' =
      Inr (\<lparr>gr_points = 0, gr_leveled_up = False, gr_growth = rl_growth_value r, gr_level = rl_level r\<rparr>, stage [ev ''voice.growth.idempotent'' [] 1] db')"
    by (rule voice_growth_once [OF a(1)]) simp
  with a show ?thesis by auto
qed

theorem voice_growth_capped_witness:
  "\<exists>g db'. add_voice_growth 5 7 70 ''c'' grown_db = Inr (g, db') \<and> day_points 7 (sh_date 1000000) db' = 10 \<and> growth_of 7 db' = 10"
proof -
  obtain g db' where a: "add_voice_growth 5 7 70 ''c'' grown_db = Inr (g, db')" "gr_points g = 10" by (rule grown_award)
  have "day_points 7 (sh_date 1000000) grown_db = 0" "growth_of 7 grown_db = 0"
    by (simp_all add: day_points_def voice_logs_def growth_of_def get_relationship_def row_find_def grown_db_def empty_db_def)
  with voice_growth_capped [OF a(1) grown_call_facts(1,5,9)] a show ?thesis by auto
qed

end
