(* ===== verification/EndCallClaims.thy ===== *)
theory EndCallClaims
  imports EndCall TurnClaims GrowthClaims
begin

text \<open>
  The promises of \<open>EndCall\<close>: a call that has been ended is complete and ending it again changes nothing, the hard stop
  leaves no call of its listing open unless it names it, and a reconciliation without failures leaves only calls
  that have their lease and are below the hard limit.
\<close>

section \<open>What a flush leaves alone\<close>

definition books :: "database \<Rightarrow> int list \<times> voice_call list \<times> quota_account list \<times> ledger_row list \<times> followup_job list \<times>
    (int \<times> int) list \<times> relationship list \<times> growth_log list \<times> level_history list" where
  "books db = (db_users db, db_calls db, db_accounts db, db_ledger db, db_followups db, db_seq db, db_relationships db, db_growth db, db_levels db)"

lemma books_simps [simp]:
  "books (put_turn t db) = books db" "books (stage es db) = books db" "books (put_memory_job j db) = books db"
  "books (db\<lparr>db_turns := ts\<rparr>) = books db" "books (db\<lparr>db_memory_jobs := js\<rparr>) = books db" "books (commit_flush db) = books db"
  "books (db\<lparr>db_crises := cs, db_staged := es\<rparr>) = books db"
  by (simp_all add: books_def put_turn_def stage_def put_memory_job_def commit_flush_def)

lemma booksD:
  assumes "books db' = books db"
  shows "db_users db' = db_users db" "db_calls db' = db_calls db" "db_accounts db' = db_accounts db" "db_ledger db' = db_ledger db"
    "db_growth db' = db_growth db" "get_call cid db' = get_call cid db"
  using assms by (simp_all add: books_def get_call_def)

lemma stage_job_books: "books (snd (stage_job now lk c t db)) = books db"
  by (auto simp: stage_job_def Let_def split: option.splits)

lemma open_turn_books: "open_turn cid d db = Inr (c, row, db') \<Longrightarrow> books db' = books db"
  by (auto simp: open_turn_def Let_def split: option.splits if_splits)

context turn_service
begin

lemma isolate_books: "g_isolate (tv_gate env) db cid i d t x = Some db' \<Longrightarrow> books db' = books db"
  using isolate_frame by fastforce

lemma write_row_books: "write_row (tv_gate env) cid d side text eff row db = (row', b, d', db') \<Longrightarrow> books db' = books db"
  by (auto simp: write_row_def Let_def assess_side_def isolate_side_def extend_isolation_def
      dest: isolate_books split: if_splits option.splits prod.splits)

lemma write_text_books: "write_text (tv_gate env) cid d side text eff db = Inr (row', b, d', db') \<Longrightarrow> books db' = books db"
  by (auto simp: write_text_def bindR_Inr_iff dest!: open_turn_books write_row_books)

lemma stage_effective_books: "stage_effective env cid d r db = Inr (d', db') \<Longrightarrow> books db' = books db"
  by (auto simp: stage_effective_def bindR_Inr_iff Let_def stage_job_books dest!: write_text_books split: if_splits option.splits)

lemma flush_effective_books: "flush_effective env cid b rs db = (Inr db', b') \<Longrightarrow> books db' = books db"
proof (induction rs arbitrary: b db)
  case (Cons x rest)
  obtain rid r where x: "x = (rid, r)" by fastforce
  obtain q d d1 db1 where "map_of (tb_replies b) rid = Some q" "get_draft b q = Some d" and s: "stage_effective env cid d r db = Inr (d1, db1)"
    and f: "flush_effective env cid (put_draft d1 b) rest db1 = (Inr db', b')"
    using Cons.prems by (auto simp: x split: option.splits sum.splits)
  show ?case using Cons.IH [OF f] stage_effective_books [OF s] by simp
qed simp

lemma flush_draft_books: "flush_draft env cid d db = Inr db' \<Longrightarrow> books db' = books db"
  by (auto simp: flush_draft_def bindR_Inr_iff dest!: write_text_books open_turn_books split: if_splits option.splits)

lemma flush_drafts_books: "flush_drafts env cid ds db = Inr db' \<Longrightarrow> books db' = books db"
  by (induction ds arbitrary: db) (auto simp: bindR_Inr_iff dest: flush_draft_books)

lemma final_flush_books: "fst (final_flush env s db) = Inr db' \<Longrightarrow> books db' = books db"
  by (auto simp: final_flush_def bindR_Inr_iff Let_def split: if_splits prod.splits dest!: flush_drafts_books dest: flush_effective_books)

end

text \<open>What the end of a call relies on when it runs the flush of the owning process.\<close>

locale turn_flush =
  fixes flush :: "database \<Rightarrow> database res"
  assumes keeps: "flush db = Inr db' \<Longrightarrow> books db' = books db"
begin

lemma flush_end_books: "flush_end (Some \<lparr>lo_meter = m, lo_flush = Some flush\<rparr>) db = Inr db' \<Longrightarrow> books db' = books db"
  by (simp add: flush_end_def keeps)

end

interpretation live_flush: turn_flush "\<lambda>db. fst (final_flush (live_env p) s db)" for p s
  by unfold_locales (rule live.final_flush_books)

text \<open>The handle of the process that owns the call: its meter and the final flush of its turns.\<close>

definition call_owner :: "meter \<Rightarrow> turn_ports \<Rightarrow> turn_svc \<Rightarrow> local_call" where
  "call_owner m p s = \<lparr>lo_meter = m, lo_flush = Some (\<lambda>db. fst (final_flush (live_env p) s db))\<rparr>"

definition handle_of :: "(meter \<times> turn_ports \<times> turn_svc) option \<Rightarrow> local_call option" where
  "handle_of h = map_option (\<lambda>(m, p, s). call_owner m p s) h"

lemma flush_books: "flush_end (handle_of h) db = Inr db' \<Longrightarrow> books db' = books db"
  by (cases h) (auto simp: handle_of_def call_owner_def flush_end_def simp del: live_env.simps dest: live_flush.keeps)

section \<open>The row of the call along the transaction\<close>

text \<open>Every call but one is as before, and that one keeps its identity and how it began.\<close>

definition others_kept :: "string \<Rightarrow> database \<Rightarrow> database \<Rightarrow> bool" where
  "others_kept cid db db' \<longleftrightarrow> (\<forall>k. k \<noteq> cid \<longrightarrow> get_call k db' = get_call k db)"

lemma others_keptD: "others_kept cid db db' \<Longrightarrow> k \<noteq> cid \<Longrightarrow> get_call k db' = get_call k db"
  by (simp add: others_kept_def)

lemma others_kept_trans: "others_kept cid a b \<Longrightarrow> others_kept cid b c \<Longrightarrow> others_kept cid a c"
  by (simp add: others_kept_def)

lemma others_kept_same: "db_calls db' = db_calls db \<Longrightarrow> others_kept cid db db'"
  by (simp add: others_kept_def get_call_def)

text \<open>What the settlement and the flush may not touch on the row.\<close>

definition kept_row :: "voice_call \<Rightarrow> voice_call \<Rightarrow> bool" where
  "kept_row c c' \<longleftrightarrow> vc_call_id c' = vc_call_id c \<and> vc_user_id c' = vc_user_id c \<and> vc_status c' = vc_status c \<and>
     vc_connected_at c' = vc_connected_at c \<and> vc_config_snapshot c' = vc_config_snapshot c"

lemma final_status_kept: "kept_row c c' \<Longrightarrow> final_status c' reason = final_status c reason"
  by (simp add: kept_row_def final_status_def)

lemma settle_row:
  assumes "settle m db = Inr (r, db')" "mt_call_id m = cid" "get_call cid db = Some c"
  shows "\<exists>c'. get_call cid db' = Some c' \<and> kept_row c c'" "others_kept cid db db'" "db_growth db' = db_growth db"
proof -
  obtain es where c: "vc_user_id c = mt_user_id m"
    and alt: "replayed m c db db' \<or> (\<exists>ds day a'. debited m c es ds day a' db db')"
    using settle_cases [OF assms(1)] assms(2,3) by auto
  have id: "vc_call_id c = cid" by (rule calls.get_key [OF assms(3)])
  have "(\<exists>c'. get_call cid db' = Some c' \<and> kept_row c c') \<and> others_kept cid db db' \<and> db_growth db' = db_growth db"
    using alt
  proof
    assume r: "replayed m c db db'"
    have k: "vc_call_id (settle_replay m (totals (mt_slices m)) c) = cid" using id by (simp add: settle_replay_def)
    show ?thesis
      using r calls.get_put_same [OF assms(3) k] calls.get_put_other [OF assms(3) k]
      by (auto simp: replayed_def others_kept_def kept_row_def settle_replay_def)
  next
    assume "\<exists>ds day a'. debited m c es ds day a' db db'"
    then obtain ds day a' where d: "debited m c es ds day a' db db'" by blast
    let ?c' = "settled_call m (totals (mt_slices m)) c"
    have k: "vc_call_id ?c' = cid" using id by (simp add: settled_call_def Let_def)
    have g: "get_call i ((put_account a' (snd (account_or_new m day db)))\<lparr>db_ledger := l\<rparr>) = get_call i db" for i l
      by (simp add: get_call_def put_account_def)
    have "get_call cid db' = Some ?c'" using debited_call [OF d] assms(2,3) by simp
    moreover have "get_call i db' = get_call i db" if "i \<noteq> cid" for i
    proof -
      have "get_call i db' = get_call i (put_call ?c' ((put_account a' (snd (account_or_new m day db)))\<lparr>db_ledger := db_ledger db @
          new_rows (mt_call_id m) (max_seq (call_rows (mt_call_id m) db)) ds\<rparr>))" using d by (simp add: debited_def)
      also have "\<dots> = get_call i db" using calls.get_put_other [OF _ k that] g assms(3) by simp
      finally show ?thesis .
    qed
    moreover have "db_growth db' = db_growth db"
      using d by (auto simp: debited_def put_account_def account_or_new_def add_account_def Let_def split: option.splits)
    ultimately show ?thesis by (auto simp: others_kept_def kept_row_def settled_call_def Let_def)
  qed
  thus "\<exists>c'. get_call cid db' = Some c' \<and> kept_row c c'" "others_kept cid db db'" "db_growth db' = db_growth db" by blast+
qed

text \<open>The meter that is settled: the owner's, or the last checkpoint.\<close>

definition used_meter :: "local_call option \<Rightarrow> end_clock \<Rightarrow> string \<Rightarrow> meter option" where
  "used_meter loc k cid = (case loc of Some l \<Rightarrow> Some (lo_meter l) | None \<Rightarrow> ek_meters k cid)"

lemma settle_end_cases:
  assumes "settle_end dl k loc cid owner row db = Inr db'" "\<And>l. loc = Some l \<Longrightarrow> mt_call_id (lo_meter l) = cid"
  shows "vc_connected_at row = None \<and> db' = db \<or>
    vc_connected_at row \<noteq> None \<and> (\<exists>m r. used_meter loc k cid = Some m \<and> mt_call_id m = cid \<and> settle m db = Inr (r, db'))"
  using assms by (auto simp: settle_end_def recover_def bindR_Inr_iff used_meter_def split: option.splits if_splits)

lemma settle_end_row:
  assumes "settle_end dl k loc cid owner row db = Inr db'" "\<And>l. loc = Some l \<Longrightarrow> mt_call_id (lo_meter l) = cid" "get_call cid db = Some c"
  shows "\<exists>c'. get_call cid db' = Some c' \<and> kept_row c c'" "others_kept cid db db'"
  using settle_end_cases [OF assms(1,2)] settle_row [OF _ _ assms(3)] assms(3) by (auto simp: others_kept_def kept_row_def)

lemma finalise_row:
  assumes "finalise_call k cid reason db = Inr db'" "get_call cid db = Some c" "vc_status c \<in> set ACTIVE"
  shows "\<exists>c'. get_call cid db' = Some c' \<and> vc_user_id c' = vc_user_id c \<and> vc_connected_at c' = vc_connected_at c \<and>
      vc_status c' = final_status c reason \<and> vc_ended_at c' = Some (ek_now k)"
    "others_kept cid db db'" "db_ledger db' = db_ledger db"
proof -
  define r1 where "r1 = c\<lparr>vc_status := final_status c reason,
       vc_end_reason := Some (if final_status c reason = Cancelled then ''user_cancel'' else reason),
       vc_ended_at := Some (ek_now k),
       vc_summary_status := (if vc_connected_at c = None then Sum_not_applicable else vc_summary_status c)\<rparr>"
  have s: "stage_final_state c reason (ek_now k) = Inr (True, r1)"
    unfolding r1_def by (rule stage_final_state_active [OF assms(3)])
  have id: "vc_call_id c = cid" by (rule calls.get_key [OF assms(2)])
  have id1: "vc_call_id r1 = cid" by (simp add: r1_def id)
  have g1: "get_call k (put_call r1 db) = (if k = cid then Some r1 else get_call k db)" for k
    using calls.get_put_same [OF assms(2) id1] calls.get_put_other [OF assms(2) id1] by auto
  obtain b2 r2 db2 where c2: "stage_call_card r1 (put_call r1 db) = Inr (b2, r2, db2)"
    and d: "db' = db2 \<or> (\<exists>j. stage_missed_followup (ek_utcnow k) (ek_seed k) r2 db2 = Inr (j, db'))"
    using assms(1,2) s by (auto simp: finalise_call_def row_of_def bindR_Inr_iff split: if_splits)
  have f: "db_calls db' = db_calls db2" "db_ledger db' = db_ledger db2" using d stage_missed_followup_frame by auto
  note F = stage_call_card_frame [OF c2]
  have g2: "get_call i db' = (if i = cid then Some r2 else get_call i db)" for i
    using stage_call_card_get [OF c2, of i] g1 id1 f(1) by (simp add: get_call_def)
  show "\<exists>c'. get_call cid db' = Some c' \<and> vc_user_id c' = vc_user_id c \<and> vc_connected_at c' = vc_connected_at c \<and>
      vc_status c' = final_status c reason \<and> vc_ended_at c' = Some (ek_now k)"
    using g2 F by (simp add: r1_def)
  show "others_kept cid db db'" using g2 by (simp add: others_kept_def)
  show "db_ledger db' = db_ledger db" using f F by simp
qed

lemma award_growth_ledger: "(g, db') = award_growth t u c ended w rel db \<Longrightarrow> db_ledger db' = db_ledger db"
  by (auto simp: award_growth_def Let_def raise_level_def put_relationship_def split: if_splits)

lemma growth_row:
  assumes "add_voice_growth t u e cid db = Inr (g, db')" "get_call cid db = Some c"
  shows "\<exists>x y. get_call cid db' = Some (c\<lparr>vc_growth_eligible_seconds := x, vc_growth_points := y\<rparr>)" "others_kept cid db db'"
    "already_logged cid db'" "db_ledger db' = db_ledger db"
proof -
  have "(\<exists>x y. get_call cid db' = Some (c\<lparr>vc_growth_eligible_seconds := x, vc_growth_points := y\<rparr>)) \<and> others_kept cid db db' \<and>
    already_logged cid db' \<and> db_ledger db' = db_ledger db"
    using assms(1)
  proof (cases rule: add_voice_growth_cases)
    case (replay c1 ended rel db1)
    note F = get_or_create_facts [OF replay(5)]
    have "db_ledger db1 = db_ledger db" using replay(5) by (auto simp: get_or_create_relationship_def split: option.splits)
    moreover have "c = c\<lparr>vc_growth_eligible_seconds := vc_growth_eligible_seconds c, vc_growth_points := vc_growth_points c\<rparr>" by simp
    moreover have "get_call cid db' = Some c" "others_kept cid db db'" "already_logged cid db'"
      using replay(6,9) F assms(2) by (simp_all add: others_kept_def get_call_def already_logged_def)
    ultimately show ?thesis using replay(9) by (metis db_frame(8))
  next
    case (award c1 ended rel db1 w)
    note F = get_or_create_facts [OF award(5)]
    have l: "db_ledger db1 = db_ledger db" using award(5) by (auto simp: get_or_create_relationship_def split: option.splits)
    have g1: "get_call k db1 = get_call k db" for k using F(3) by (simp add: get_call_def)
    have c1: "c1 = c" using award(1) assms(2) by simp
    have c: "get_call cid db1 = Some c" using assms(2) g1 by simp
    obtain eligible where A: "get_call cid db' = Some (c\<lparr>vc_growth_eligible_seconds := eligible, vc_growth_points := gr_points g\<rparr>)"
      "others_kept cid db1 db'" "already_logged cid db'"
    proof (rule award_facts [OF award(10) [unfolded c1] F(1) c])
      fix rel1 eligible
      assume a: "get_call cid db' = Some (c\<lparr>vc_growth_eligible_seconds := eligible, vc_growth_points := gr_points g\<rparr>)"
        and o: "\<And>k. k \<noteq> cid \<Longrightarrow> get_call k db' = get_call k db1"
        and l: "db_growth db' = db_growth db1 @ [\<lparr>gl_user_id = u, gl_action_type = ''voice_call'', gl_points = gr_points g, gl_source_type = Some ''voice_call'',
       gl_source_id = Some cid, gl_eligible_seconds = Some eligible, gl_business_date = Some (sh_date ended), gl_created_at = t\<rparr>]"
      have "others_kept cid db1 db'" using o by (simp add: others_kept_def)
      moreover have "already_logged cid db'" by (simp add: already_logged_def l)
      ultimately show thesis by (rule that [OF a])
    qed
    from A(2) have "others_kept cid db db'" by (simp add: others_kept_def g1)
    with A l award_growth_ledger [OF award(10)] show ?thesis by (metis (no_types))
  qed
  thus "\<exists>x y. get_call cid db' = Some (c\<lparr>vc_growth_eligible_seconds := x, vc_growth_points := y\<rparr>)" "others_kept cid db db'"
    "already_logged cid db'" "db_ledger db' = db_ledger db" by blast+
qed

lemma award_row:
  assumes "award_end k owner cid db = Inr db'" "get_call cid db = Some c"
  shows "\<exists>c'. get_call cid db' = Some c' \<and> vc_user_id c' = vc_user_id c \<and> vc_status c' = vc_status c \<and> vc_ended_at c' = vc_ended_at c"
    "others_kept cid db db'" "vc_connected_at c \<noteq> None \<Longrightarrow> already_logged cid db'" "db_ledger db' = db_ledger db"
proof -
  have "vc_connected_at c = None \<and> db' = db \<or>
    (\<exists>g. add_voice_growth (ek_utcnow k) owner (vc_growth_eligible_seconds c) cid db = Inr (g, db'))"
    using assms by (auto simp: award_end_def row_of_def bindR_Inr_iff split: if_splits)
  thus "\<exists>c'. get_call cid db' = Some c' \<and> vc_user_id c' = vc_user_id c \<and> vc_status c' = vc_status c \<and> vc_ended_at c' = vc_ended_at c"
    "others_kept cid db db'" "vc_connected_at c \<noteq> None \<Longrightarrow> already_logged cid db'" "db_ledger db' = db_ledger db"
    using assms(2) growth_row [OF _ assms(2)] by (fastforce simp: others_kept_def)+
qed

section \<open>The end of a call\<close>

lemma stage_metric_calls: "db_calls (stage_transition_metric a b r db) = db_calls db" "db_growth (stage_transition_metric a b r db) = db_growth db"
  "db_ledger (stage_transition_metric a b r db) = db_ledger db"
  by (simp_all add: stage_transition_metric_def Let_def stage_def)

text \<open>The handle of a process names the call it was registered for.\<close>

definition handle_for :: "string \<Rightarrow> (meter \<times> turn_ports \<times> turn_svc) option \<Rightarrow> bool" where
  "handle_for cid h \<longleftrightarrow> (case h of None \<Rightarrow> True | Some (m, p, s) \<Rightarrow> mt_call_id m = cid)"

lemma end_call_tx_cases:
  assumes "end_call_tx dl k (handle_of h) cid user reason db = Inr (f, db')"
    and "handle_for cid h"
  obtains (replay) c where "get_call cid db = Some c" "vc_status c \<notin> set ACTIVE" "\<not> ef_changed f" "db_calls db' = db_calls db"
      "ef_owner f = vc_user_id c" "ef_ended_at f = vc_ended_at c" "db_ledger db' = db_ledger db" "db_growth db' = db_growth db" "db_accounts db' = db_accounts db"
  | (ended) c c' where "get_call cid db = Some c" "vc_status c \<in> set ACTIVE" "ef_changed f" "get_call cid db' = Some c'"
      "vc_status c' = final_status c reason" "vc_ended_at c' = Some (ek_now k)" "vc_user_id c' = vc_user_id c" "ef_owner f = vc_user_id c"
      "ef_ended_at f = Some (ek_now k)" "others_kept cid db db'"
      "vc_connected_at c \<noteq> None \<Longrightarrow> already_logged cid db' \<and> (\<exists>m r d. used_meter (handle_of h) k cid = Some m \<and> mt_call_id m = cid \<and>
        settle m db = Inr (r, d) \<and> db_ledger db' = db_ledger d)"
proof -
  have loc: "mt_call_id (lo_meter l) = cid" if "handle_of h = Some l" for l
    using assms(2) that by (auto simp: handle_of_def call_owner_def handle_for_def)
  obtain c where c: "get_call cid db = Some c" using assms(1) by (auto simp: end_call_tx_def row_of_def split: if_splits option.splits)
  show ?thesis
  proof (cases "vc_status c \<in> set ACTIVE")
    case False
    show ?thesis by (rule replay [OF c False]) (use assms(1) c False in \<open>auto simp: end_call_tx_def row_of_def Let_def commit_flush_def split: if_splits\<close>)
  next
    case True
    obtain d1 d2 d3 d4 c4 where S: "settle_end dl k (handle_of h) cid (vc_user_id c) c db = Inr d1"
      and F: "flush_end (handle_of h) d1 = Inr d2" and X: "finalise_call k cid reason d2 = Inr d3"
      and A: "award_end k (vc_user_id c) cid d3 = Inr d4" and R: "get_call cid d4 = Some c4"
      and f: "f = \<lparr>ef_changed = True, ef_owner = vc_user_id c, ef_ended_at = vc_ended_at c4\<rparr>"
      and d: "db' = commit_flush (stage [ev ''voice.finalizer.end_reason'' [(''reason'', end_reason_dim (vc_end_reason c4))] 1]
                (stage_transition_metric (vc_status c) (vc_status c4) (vc_end_reason c4) d4))"
      using assms(1) c True by (auto simp: end_call_tx_def row_of_def Let_def bindR_Inr_iff split: if_splits option.splits)
    obtain c1 where c1: "get_call cid d1 = Some c1" "kept_row c c1" using settle_end_row(1) [OF S loc c] by blast
    have o1: "others_kept cid db d1" by (rule settle_end_row(2) [OF S loc c])
    note B = booksD [OF flush_books [OF F]]
    have c2: "get_call cid d2 = Some c1" using c1(1) B(6) by simp
    have o2: "others_kept cid d1 d2" by (simp add: others_kept_def B(6))
    have a1: "vc_status c1 \<in> set ACTIVE" using c1(2) True by (simp add: kept_row_def)
    obtain c3 where c3: "get_call cid d3 = Some c3" "vc_user_id c3 = vc_user_id c1" "vc_connected_at c3 = vc_connected_at c1"
      "vc_status c3 = final_status c1 reason" "vc_ended_at c3 = Some (ek_now k)" using finalise_row(1) [OF X c2 a1] by blast
    note o3 = finalise_row(2) [OF X c2 a1] and l3 = finalise_row(3) [OF X c2 a1]
    have c4: "vc_user_id c4 = vc_user_id c3" "vc_status c4 = vc_status c3" "vc_ended_at c4 = vc_ended_at c3"
      using award_row(1) [OF A c3(1)] R by auto
    note W = award_row(2-4) [OF A c3(1)]
    have g: "get_call i db' = get_call i d4" for i by (simp add: d get_call_def stage_metric_calls)
    have l: "db_ledger db' = db_ledger d4" "db_growth db' = db_growth d4" by (simp_all add: d stage_metric_calls commit_flush_def)
    have o: "others_kept cid db db'"
      using o1 o2 o3 W(1) by (simp add: others_kept_def g)
    have k: "vc_user_id c1 = vc_user_id c" "vc_connected_at c1 = vc_connected_at c" using c1(2) by (simp_all add: kept_row_def)
    show ?thesis
    proof (rule ended [OF c True _ _ _ _ _ _ _ o])
      show "get_call cid db' = Some c4" using R g by simp
      show "vc_status c4 = final_status c reason" using c4 c3 final_status_kept [OF c1(2)] by simp
      assume co: "vc_connected_at c \<noteq> None"
      have "already_logged cid db'" using W(2) co c3 k l(2) by (simp add: already_logged_def)
      moreover have "\<exists>m r. used_meter (handle_of h) k cid = Some m \<and> mt_call_id m = cid \<and> settle m db = Inr (r, d1)"
        using settle_end_cases [OF S loc] co by blast
      moreover have "db_ledger db' = db_ledger d1" using l W(3) l3 B(4) by simp
      ultimately show "already_logged cid db' \<and> (\<exists>m r d. used_meter (handle_of h) k cid = Some m \<and> mt_call_id m = cid \<and>
        settle m db = Inr (r, d) \<and> db_ledger db' = db_ledger d)" by blast
    qed (use f c4 c3 k in simp_all)
  qed
qed

text \<open>However often a deadlock repeats the transaction, the result is that of one attempt.\<close>

lemma end_attempts_one: "\<exists>dl. end_attempts n ds k loc cid user reason db = end_call_tx dl k loc cid user reason db"
  by (induction n arbitrary: ds) (auto simp: Let_def)

lemma end_call_split:
  assumes "end_call ds k env loc cid user reason db s = (Inr r, db', s')"
  obtains dl f clean where "end_call_tx dl k loc cid user reason db = Inr (f, db')"
    "cleanup_ended env cid (ef_owner f) (ef_ended_at f) s = (clean, s')" "er_changed r = ef_changed f" "er_pending r = (\<not> clean)" "er_call_id r = cid"
proof -
  obtain dl where "end_attempts 3 ds k loc cid user reason db = end_call_tx dl k loc cid user reason db" using end_attempts_one by blast
  then show ?thesis using assms that by (auto simp: end_call_def Let_def split: sum.splits prod.splits)
qed

lemma end_call_error: "end_call ds k env loc cid user reason db s = (Inl x, db', s') \<Longrightarrow> db' = db \<and> s' = s"
  by (auto simp: end_call_def Let_def split: sum.splits prod.splits)

lemma not_active_terminal: "vc_status c \<notin> set ACTIVE \<longleftrightarrow> vc_status c \<in> set TERMINAL"
  using status_partition by auto

text \<open>C21: A call that has been ended is complete. When ending a call reports a change, the row of the call is terminal with
  the status its connection and the reason determine and the instant of the transaction as its end; if the call was
  ever connected, its ledger adds up to the meter of the owning process (or to its last checkpoint) and its growth has
  been recorded, even if the text side of the flush closed turns in between; and no other call is touched. All of it
  stands in one transaction, however often a deadlock repeated the settlement.\<close>

theorem ended_call_complete:
  assumes "end_call ds k env (handle_of h) cid user reason db s = (Inr r, db', s')" "er_changed r" "handle_for cid h" "ledger_wf db"
    and "\<And>m. used_meter (handle_of h) k cid = Some m \<Longrightarrow> slices_wf (mt_slices m)"
  shows "\<exists>c c'. get_call cid db = Some c \<and> get_call cid db' = Some c' \<and> vc_status c' = final_status c reason \<and>
    vc_ended_at c' = Some (ek_now k) \<and> (\<forall>i. i \<noteq> cid \<longrightarrow> get_call i db' = get_call i db) \<and>
    (vc_connected_at c \<noteq> None \<longrightarrow> already_logged cid db' \<and> (\<exists>m. used_meter (handle_of h) k cid = Some m \<and> ledger_matches m db'))"
proof -
  obtain dl f where tx: "end_call_tx dl k (handle_of h) cid user reason db = Inr (f, db')" and ch: "ef_changed f"
    using end_call_split [OF assms(1)] assms(2) by metis
  show ?thesis
    using tx assms(3)
  proof (cases rule: end_call_tx_cases)
    case (ended c c')
    have "ledger_matches m db'" if "settle m db = Inr (x, d)" "used_meter (handle_of h) k cid = Some m" "db_ledger db' = db_ledger d" for m x d
      using settle_matches [OF that(1) assms(4) assms(5) [OF that(2)]] that(3) by (simp add: ledger_matches_def call_rows_def)
    with ended show ?thesis unfolding others_kept_def by blast
  qed (use ch in simp)
qed

text \<open>Ending a call again changes nothing. After a call was ended (or found ended) once, every later request to end it by
  its owner or by the system, with any reason and from any process, succeeds, reports no change and the same end,
  and leaves the database as it was but for two counters.\<close>

theorem ending_again_replays:
  assumes "end_call ds k env (handle_of h) cid user reason db s = (Inr r, db', s')" "handle_for cid h" "get_call cid db' = Some c"
    "user' = None \<or> user' = Some (vc_user_id c)" "\<And>m p t. h' = Some (m, p, t) \<Longrightarrow> mt_user_id m = vc_user_id c"
  shows "\<exists>r' s''. end_call ds' k' env' (handle_of h') cid user' reason' db' s1 =
      (Inr r', commit_flush (stage [ev ''voice.state.terminal_replay'' [] 1, ev ''voice.finalizer.replay'' [] 1] db'), s'') \<and> \<not> er_changed r' \<and>
      vc_status c \<in> set TERMINAL"
proof -
  obtain dl f where tx: "end_call_tx dl k (handle_of h) cid user reason db = Inr (f, db')"
    using end_call_split [OF assms(1)] by metis
  have t: "vc_status c \<in> set TERMINAL"
    using tx assms(2)
  proof (cases rule: end_call_tx_cases)
    case (replay c0)
    then show ?thesis using assms(3) not_active_terminal [of c0] by (simp add: get_call_def)
  next
    case (ended c0 c1)
    then show ?thesis using assms(3) final_status_terminal by simp
  qed
  hence n: "vc_status c \<notin> set ACTIVE" by (simp add: not_active_terminal)
  have u: "\<not> (case (handle_of h', user') of (Some l, Some u) \<Rightarrow> mt_user_id (lo_meter l) \<noteq> u | _ \<Rightarrow> False)"
    using assms(4,5) by (auto simp: handle_of_def call_owner_def split: option.splits)
  have a: "end_call_tx dl' k' (handle_of h') cid user' reason' db' = Inr (\<lparr>ef_changed = False, ef_owner = vc_user_id c, ef_ended_at = vc_ended_at c\<rparr>,
      commit_flush (stage [ev ''voice.state.terminal_replay'' [] 1, ev ''voice.finalizer.replay'' [] 1] db'))" for dl'
    using assms(3,4) n u by (auto simp: end_call_tx_def row_of_def Let_def)
  obtain dl' where "end_attempts 3 ds' k' (handle_of h') cid user' reason' db' = end_call_tx dl' k' (handle_of h') cid user' reason' db'"
    using end_attempts_one by blast
  with a t show ?thesis by (simp add: end_call_def Let_def split: prod.splits)
qed

section \<open>The cache after an end\<close>

definition slot_free :: "string \<Rightarrow> call_cache \<Rightarrow> bool" where
  "slot_free cid s \<longleftrightarrow> map_of (ls_active (cc_leases s)) cid = None \<and> cid \<notin> set (cc_contexts s)"

lemma cooldown_frame [simp]:
  "ls_user (snd (COOLDOWN al now u c e s)) = ls_user s" "ls_active (snd (COOLDOWN al now u c e s)) = ls_active s"
  "ls_owners (snd (COOLDOWN al now u c e s)) = ls_owners s"
  by (auto simp: COOLDOWN_def Let_def split: option.splits prod.splits)

lemma cooldown_inv: "lease_inv own limit t s \<Longrightarrow> lease_inv own limit t (snd (COOLDOWN al now u c e s))"
  unfolding lease_inv_def live_entries_def cooldown_frame .

lemma release_owner:
  assumes "i \<noteq> c" "user_owner al now s v = Some i"
  shows "user_owner al now (snd (RELEASE al now u c s)) v = Some i"
  using assms by (auto simp: RELEASE_def user_owner_def px_get_def dict_get_delete split: if_splits option.splits)

lemma release_active:
  assumes "lease_inv own limit now s"
  shows "map_of (ls_active s) i = None \<Longrightarrow> map_of (ls_active (snd (RELEASE al now u c s))) i = None"
    "own c = u \<Longrightarrow> map_of (ls_active (snd (RELEASE al now u c s))) c = None"
  using lease_invD(7) [OF assms, of c] by (cases "map_of (ls_active s) c"; auto simp: RELEASE_def dict_get_delete)+

lemma cleanup_cooldown_facts:
  assumes "cleanup_cooldown env cid owner ended s = (ok, s')"
  shows "ls_user (cc_leases s') = ls_user (cc_leases s)" "ls_active (cc_leases s') = ls_active (cc_leases s)"
    "lease_inv own limit t (cc_leases s) \<Longrightarrow> lease_inv own limit t (cc_leases s')" "cc_contexts s' = cc_contexts s"
  using assms by (auto simp: cleanup_cooldown_def cooldown_inv split: option.splits if_splits)

lemma cleanup_facts:
  assumes "cleanup_ended env cid owner ended s = (ok, s')" "px_clock (cl_alive env)" "lease_inv own limit (cl_clock env) (cc_leases s)"
  shows "lease_inv own limit (cl_clock env) (cc_leases s')"
    "ok \<Longrightarrow> own cid = owner \<Longrightarrow> slot_free cid s'"
    "slot_free i s \<Longrightarrow> slot_free i s'"
    "i \<noteq> cid \<Longrightarrow> owner_matches (cl_alive env) (cl_clock env) u i (cc_leases s) \<Longrightarrow> owner_matches (cl_alive env) (cl_clock env) u i (cc_leases s')"
proof -
  obtain a s1 b s2 c s3 d where C: "cleanup_cooldown env cid owner ended s = (a, s1)" and L: "cleanup_lease env cid owner s1 = (b, s2)"
    and K: "cleanup_control env cid s2 = (c, s3)" and X: "cleanup_context env cid s3 = (d, s')" and ok: "ok = (a \<and> b \<and> c \<and> d)"
    using assms(1) by (auto simp: cleanup_ended_def Let_def split: prod.splits)
  note F = cleanup_cooldown_facts [OF C]
  let ?l = "cc_leases s1" and ?r = "snd (RELEASE (cl_alive env) (cl_clock env) owner cid (cc_leases s1))"
  have i1: "lease_inv own limit (cl_clock env) ?l" by (rule F(3) [OF assms(3)])
  have l2: "cc_leases s2 = (if b then ?r else ?l)" "cc_contexts s2 = cc_contexts s"
    using L F(4) by (auto simp: cleanup_lease_def lease_release_def bindR_def split: sum.splits if_splits prod.splits)
  have l3: "cc_leases s' = cc_leases s2" "cc_contexts s3 = cc_contexts s2"
    using K X by (auto simp: cleanup_control_def cleanup_context_def split: if_splits)
  have x: "cc_contexts s' = (if d then filter (\<lambda>c. c \<noteq> cid) (cc_contexts s) else cc_contexts s)"
    using X l2 l3 by (auto simp: cleanup_context_def split: if_splits)
  show "lease_inv own limit (cl_clock env) (cc_leases s')" using i1 release_inv [OF i1 assms(2)] by (simp add: l3 l2)
  show "slot_free cid s'" if "ok" "own cid = owner"
    using that ok x release_active(2) [OF i1 that(2)] by (simp add: slot_free_def l3 l2)
  show "slot_free i s'" if "slot_free i s"
    using that x release_active(1) [OF i1] F(2) by (auto simp: slot_free_def l3 l2)
  show "owner_matches (cl_alive env) (cl_clock env) u i (cc_leases s')"
    if "i \<noteq> cid" "owner_matches (cl_alive env) (cl_clock env) u i (cc_leases s)"
  proof -
    have "user_owner (cl_alive env) (cl_clock env) ?l u = Some i" using that(2) F(1) by (simp add: owner_matches_def user_owner_def)
    with release_owner [OF that(1) this] show ?thesis by (simp add: owner_matches_def l3 l2)
  qed
qed

section \<open>One end within many\<close>

text \<open>Every handle of the environment is one of the owning process and names its call.\<close>

definition handled :: "(string \<Rightarrow> (meter \<times> turn_ports \<times> turn_svc) option) \<Rightarrow> end_env \<Rightarrow> bool" where
  "handled H x \<longleftrightarrow> ex_local x = (\<lambda>cid. handle_of (H cid)) \<and> (\<forall>cid. handle_for cid (H cid))"

definition settled_down :: "string \<Rightarrow> database \<Rightarrow> bool" where
  "settled_down cid db \<longleftrightarrow> (\<exists>c. get_call cid db = Some c \<and> vc_status c \<in> set TERMINAL)"

lemma end_in_calls:
  assumes "end_in x cid user reason db s = (res, db', s')" "handled H x"
  shows "others_kept cid db db'" "settled_down cid db \<Longrightarrow> settled_down cid db'" "\<And>r. res = Inr r \<Longrightarrow> settled_down cid db'"
    "res = Inl e \<Longrightarrow> db' = db \<and> s' = s"
proof -
  have h: "ex_local x cid = handle_of (H cid)" "handle_for cid (H cid)" using assms(2) by (simp_all add: handled_def)
  have "(\<exists>e. res = Inl e \<and> db' = db \<and> s' = s) \<or> (\<exists>r. res = Inr r \<and> settled_down cid db' \<and> others_kept cid db db')"
  proof (cases res)
    case (Inl e)
    then show ?thesis using end_call_error assms(1) unfolding end_in_def by blast
  next
    case (Inr r)
    obtain dl f where tx: "end_call_tx dl (ex_clock x cid) (handle_of (H cid)) cid user reason db = Inr (f, db')"
      using end_call_split [OF assms(1) [unfolded end_in_def Inr h(1)]] by metis
    from tx h(2) have "settled_down cid db' \<and> others_kept cid db db'"
    proof (cases rule: end_call_tx_cases)
      case (replay c)
      then show ?thesis using not_active_terminal [of c] others_kept_same [OF replay(4)] by (auto simp: settled_down_def get_call_def)
    next
      case (ended c c')
      then show ?thesis using final_status_terminal by (auto simp: settled_down_def)
    qed
    with Inr show ?thesis by blast
  qed
  thus "others_kept cid db db'" "settled_down cid db \<Longrightarrow> settled_down cid db'" "\<And>r. res = Inr r \<Longrightarrow> settled_down cid db'"
    "res = Inl e \<Longrightarrow> db' = db \<and> s' = s" by (auto simp: others_kept_def)
qed

lemma settled_down_kept: "settled_down i db \<Longrightarrow> others_kept cid db db' \<Longrightarrow> (i = cid \<Longrightarrow> settled_down i db') \<Longrightarrow> settled_down i db'"
  by (cases "i = cid") (auto simp: settled_down_def others_kept_def)

lemma end_in_cache:
  assumes "end_in x cid user reason db s = (res, db', s')" "handled H x" "px_clock (cl_alive (ex_cleanup x))"
    "lease_inv own limit (cl_clock (ex_cleanup x)) (cc_leases s)"
  shows "lease_inv own limit (cl_clock (ex_cleanup x)) (cc_leases s')" "slot_free i s \<Longrightarrow> slot_free i s'"
    "i \<noteq> cid \<Longrightarrow> owner_matches (cl_alive (ex_cleanup x)) (cl_clock (ex_cleanup x)) u i (cc_leases s) \<Longrightarrow>
       owner_matches (cl_alive (ex_cleanup x)) (cl_clock (ex_cleanup x)) u i (cc_leases s')"
    "res = Inr r \<Longrightarrow> \<not> er_pending r \<Longrightarrow> get_call cid db = Some c \<Longrightarrow> own cid = vc_user_id c \<Longrightarrow> slot_free cid s'"
proof -
  have h: "ex_local x cid = handle_of (H cid)" "handle_for cid (H cid)" using assms(2) by (simp_all add: handled_def)
  let ?P = "\<lambda>ok o'. cleanup_ended (ex_cleanup x) cid (fst o') (snd o') s = (ok, s')"
  have alt: "res = Inl e \<and> s' = s \<or> (\<exists>ok o'. ?P ok o')" if "res = Inl e \<or> res = Inr q" for e q
    using that
  proof
    assume "res = Inl e"
    then show ?thesis using end_in_calls(4) [OF assms(1,2)] by blast
  next
    assume "res = Inr q"
    from end_call_split [OF assms(1) [unfolded end_in_def this]] show ?thesis by (metis fst_conv snd_conv)
  qed
  have k: "(\<exists>ok o'. ?P ok o') \<or> s' = s" using alt by (cases res) blast+
  show "lease_inv own limit (cl_clock (ex_cleanup x)) (cc_leases s')" using k cleanup_facts(1) [OF _ assms(3,4)] assms(4) by blast
  show "slot_free i s \<Longrightarrow> slot_free i s'" using k cleanup_facts(3) [OF _ assms(3,4)] by blast
  show "i \<noteq> cid \<Longrightarrow> owner_matches (cl_alive (ex_cleanup x)) (cl_clock (ex_cleanup x)) u i (cc_leases s) \<Longrightarrow>
       owner_matches (cl_alive (ex_cleanup x)) (cl_clock (ex_cleanup x)) u i (cc_leases s')"
    using k cleanup_facts(4) [OF _ assms(3,4)] by blast
  show "slot_free cid s'" if r: "res = Inr r" "\<not> er_pending r" "get_call cid db = Some c" "own cid = vc_user_id c"
  proof -
    obtain dl f ok where tx: "end_call_tx dl (ex_clock x cid) (handle_of (H cid)) cid user reason db = Inr (f, db')"
      and cl: "cleanup_ended (ex_cleanup x) cid (ef_owner f) (ef_ended_at f) s = (ok, s')" and ok: "ok"
      using end_call_split [OF assms(1) [unfolded end_in_def r(1) h(1)]] r(2) by metis
    from tx h(2) have "ef_owner f = vc_user_id c"
      by (cases rule: end_call_tx_cases) (use r(3) in auto)
    with cleanup_facts(2) [OF cl assms(3,4) ok] r(4) show ?thesis by simp
  qed
qed

section \<open>The hard stop\<close>

lemma end_each_facts:
  assumes "end_each x cids db s = (rs, fs, db', s')" "handled H x" "px_clock (cl_alive (ex_cleanup x))"
    "lease_inv own limit (cl_clock (ex_cleanup x)) (cc_leases s)"
    "\<And>i c. i \<in> set cids \<Longrightarrow> get_call i db = Some c \<Longrightarrow> own i = vc_user_id c" "distinct cids" "\<And>i. i \<in> set cids \<Longrightarrow> get_call i db \<noteq> None"
  shows "\<And>i. i \<notin> set cids \<Longrightarrow> get_call i db' = get_call i db" "\<And>i. slot_free i s \<Longrightarrow> slot_free i s'"
    "\<And>i. i \<in> set cids \<Longrightarrow> i \<in> set (map fst fs) \<or> settled_down i db' \<and> slot_free i s'"
proof -
  have "(\<forall>i. i \<notin> set cids \<longrightarrow> get_call i db' = get_call i db) \<and> (\<forall>i. slot_free i s \<longrightarrow> slot_free i s') \<and>
    (\<forall>i \<in> set cids. i \<in> set (map fst fs) \<or> settled_down i db' \<and> slot_free i s')"
    using assms(1,4-)
  proof (induction cids arbitrary: db s rs fs)
    case (Cons cid cids)
    obtain res db1 s1 where E: "end_in x cid None ''system_error'' db s = (res, db1, s1)" by (cases "end_in x cid None ''system_error'' db s")
    obtain rs1 fs1 where T: "end_each x cids db1 s1 = (rs1, fs1, db', s')"
      using Cons.prems(1) E by (auto split: sum.splits prod.splits)
    have fs: "set (map fst fs1) \<subseteq> set (map fst fs)" "res = Inl e \<Longrightarrow> cid \<in> set (map fst fs)" "res = Inr r \<Longrightarrow> er_pending r \<Longrightarrow> cid \<in> set (map fst fs)" for e r
      using Cons.prems(1) E T by (auto split: sum.splits prod.splits if_splits)
    note C = end_in_calls [OF E assms(2)] and K = end_in_cache [OF E assms(2,3) Cons.prems(2)]
    have g: "get_call i db1 = get_call i db" if "i \<noteq> cid" for i using C(1) that by (simp add: others_kept_def)
    have new: "cid \<notin> set cids" using Cons.prems(4) by simp
    have IH: "(\<forall>i. i \<notin> set cids \<longrightarrow> get_call i db' = get_call i db1) \<and> (\<forall>i. slot_free i s1 \<longrightarrow> slot_free i s') \<and>
      (\<forall>i \<in> set cids. i \<in> set (map fst fs1) \<or> settled_down i db' \<and> slot_free i s')"
    proof (rule Cons.IH [OF T K(1)])
      fix i c assume i: "i \<in> set cids"
      with new have n: "i \<noteq> cid" by blast
      from i Cons.prems(5) [of i] show "get_call i db1 \<noteq> None" by (simp add: g [OF n])
      assume "get_call i db1 = Some c"
      with i Cons.prems(3) [of i c] show "own i = vc_user_id c" by (simp add: g [OF n])
    qed (use Cons.prems(4) in simp)
    have "cid \<in> set (map fst fs) \<or> settled_down cid db' \<and> slot_free cid s'"
    proof (cases "cid \<in> set (map fst fs)")
      case False
      then obtain r where r: "res = Inr r" "\<not> er_pending r" using fs by (cases res) auto
      obtain c where c: "get_call cid db = Some c" using Cons.prems(5) [of cid] by auto
      have "slot_free cid s1" by (rule K(4) [OF r c]) (use Cons.prems(3) [of cid c] c in simp)
      moreover have "settled_down cid db1" by (rule C(3) [OF r(1)])
      ultimately show ?thesis using IH new by (simp add: settled_down_def)
    qed simp
    moreover have "\<forall>i \<in> set cids. i \<in> set (map fst fs) \<or> settled_down i db' \<and> slot_free i s'" using IH fs(1) by blast
    moreover have "\<forall>i. i \<notin> set (cid # cids) \<longrightarrow> get_call i db' = get_call i db" using IH g by simp
    ultimately show ?case using IH K(2) by simp
  qed simp
  thus "\<And>i. i \<notin> set cids \<Longrightarrow> get_call i db' = get_call i db" "\<And>i. slot_free i s \<Longrightarrow> slot_free i s'"
    "\<And>i. i \<in> set cids \<Longrightarrow> i \<in> set (map fst fs) \<or> settled_down i db' \<and> slot_free i s'" by blast+
qed

lemma get_call_mem: "uk_voice_call (db_calls db) \<Longrightarrow> c \<in> set (db_calls db) \<Longrightarrow> get_call (vc_call_id c) db = Some c"
proof -
  have "distinct (map vc_call_id xs) \<Longrightarrow> c \<in> set xs \<Longrightarrow> find (\<lambda>r. vc_call_id r = vc_call_id c) xs = Some c" for xs
    by (induction xs) (auto simp: image_iff)
  then show "uk_voice_call (db_calls db) \<Longrightarrow> c \<in> set (db_calls db) \<Longrightarrow> get_call (vc_call_id c) db = Some c"
    by (simp add: uk_voice_call_def get_call_def row_find_def)
qed

lemma active_calls_mem: "c \<in> set (active_calls db) \<longleftrightarrow> c \<in> set (db_calls db) \<and> vc_status c \<in> set ACTIVE"
  by (simp add: active_calls_def)

text \<open>C23: The hard stop accounts for every open call. When a confirmed hard stop returns, every call that was open at its start
  is either named in the report as failed or is terminal with its capacity slot and its session context freed,
  whatever failed in between, and no call outside its listing has been touched.\<close>

theorem hard_stop_accounts_for_all:
  assumes "hard_stop x ''CONFIRM'' db s = (Inr rep, db', s')" "handled H x" "px_clock (cl_alive (ex_cleanup x))"
    "lease_inv own limit (cl_clock (ex_cleanup x)) (cc_leases s)" "uk_voice_call (db_calls db)"
    "\<forall>c \<in> set (db_calls db). own (vc_call_id c) = vc_user_id c" "get_call cid db = Some c"
  shows "if vc_status c \<in> set ACTIVE
    then cid \<in> set (st_failed rep) \<or> (\<exists>c'. get_call cid db' = Some c' \<and> vc_status c' \<in> set TERMINAL) \<and> slot_free cid s'
    else get_call cid db' = Some c"
proof -
  let ?ids = "map vc_call_id (active_calls db)"
  obtain rs fs where E: "end_each x ?ids db s = (rs, fs, db', s')" and rep: "st_failed rep = map fst fs"
    using assms(1) by (auto simp: hard_stop_def Let_def split: prod.splits)
  have d: "distinct ?ids"
    using assms(5) by (auto simp: uk_voice_call_def active_calls_def distinct_map distinct_map_filter intro: inj_on_subset)
  have m: "i \<in> set ?ids \<Longrightarrow> \<exists>c. get_call i db = Some c \<and> vc_status c \<in> set ACTIVE \<and> own i = vc_user_id c" for i
    using get_call_mem [OF assms(5)] assms(6) by (auto simp: active_calls_mem)
  note F = end_each_facts [OF E assms(2-4) _ d]
  have id: "vc_call_id c = cid" "c \<in> set (db_calls db)"
    using assms(7) by (auto simp: get_call_def dest: row_find_key)
  have a: "cid \<in> set ?ids \<longleftrightarrow> vc_status c \<in> set ACTIVE"
    using m [of cid] assms(7) id by (auto simp: active_calls_mem)
  have o: "\<And>i c. i \<in> set ?ids \<Longrightarrow> get_call i db = Some c \<Longrightarrow> own i = vc_user_id c" "\<And>i. i \<in> set ?ids \<Longrightarrow> get_call i db \<noteq> None"
    using m by fastforce+
  show ?thesis using F(1,3) [OF o] a rep assms(7) by (auto simp: settled_down_def)
qed

section \<open>The reconciliation\<close>

definition holds_call :: "end_env \<Rightarrow> voice_call \<Rightarrow> call_cache \<Rightarrow> bool" where
  "holds_call x c s \<longleftrightarrow> owner_matches (cl_alive (ex_cleanup x)) (cl_clock (ex_cleanup x)) (vc_user_id c) (vc_call_id c) (cc_leases s)"

definition supervised :: "end_env \<Rightarrow> datetime \<Rightarrow> voice_call \<Rightarrow> database \<Rightarrow> call_cache \<Rightarrow> bool" where
  "supervised x now c db s \<longleftrightarrow> get_call (vc_call_id c) db = Some c \<and> \<not> past_hard_limit now c \<and> holds_call x c s"

definition closed_out :: "voice_call \<Rightarrow> database \<Rightarrow> call_cache \<Rightarrow> bool" where
  "closed_out c db s \<longleftrightarrow> settled_down (vc_call_id c) db \<and> slot_free (vc_call_id c) s"

definition cache_ok :: "(string \<Rightarrow> int) \<Rightarrow> int \<Rightarrow> end_env \<Rightarrow> call_cache \<Rightarrow> bool" where
  "cache_ok own limit x s \<longleftrightarrow> px_clock (cl_alive (ex_cleanup x)) \<and> lease_inv own limit (cl_clock (ex_cleanup x)) (cc_leases s)"

lemma supervise_step:
  assumes st: "supervise x now ok c (n, db, s) = (n1, db1, s1)" and h: "handled H x" and k: "cache_ok own limit x s"
    and g: "get_call (vc_call_id c) db = Some c" and o: "own (vc_call_id c) = vc_user_id c"
  shows "cache_ok own limit x s1" "rn_failures n \<le> rn_failures n1" "others_kept (vc_call_id c) db db1" "slot_free i s \<Longrightarrow> slot_free i s1"
    "vc_call_id d \<noteq> vc_call_id c \<Longrightarrow> holds_call x d s \<Longrightarrow> holds_call x d s1"
    "supervised x now c db s \<Longrightarrow> supervised x now c db1 s1"
    "rn_failures n1 = rn_failures n \<Longrightarrow> supervised x now c db1 s1 \<or> closed_out c db1 s1"
proof -
  let ?cid = "vc_call_id c"
  note K = k [unfolded cache_ok_def]
  have two: "n1 = failure_seen n \<and> db1 = db \<and> s1 = s \<or> n1 = n \<and> db1 = db \<and> s1 = s \<and> \<not> past_hard_limit now c \<and> holds_call x c s \<or>
    (past_hard_limit now c \<or> \<not> holds_call x c s) \<and> (\<exists>res reason. end_in x ?cid (Some (vc_user_id c)) reason db s = (res, db1, s1) \<and>
      rn_failures n \<le> rn_failures n1 \<and> (rn_failures n1 = rn_failures n \<longrightarrow> (\<exists>r. res = Inr r \<and> \<not> er_pending r)))"
    using st by (auto simp: supervise_def Let_def holds_call_def failure_seen_def corrected_seen_def split: if_splits sum.splits prod.splits)
  have "cache_ok own limit x s1 \<and> rn_failures n \<le> rn_failures n1 \<and> others_kept ?cid db db1 \<and> (slot_free i s \<longrightarrow> slot_free i s1) \<and>
    (vc_call_id d \<noteq> ?cid \<longrightarrow> holds_call x d s \<longrightarrow> holds_call x d s1) \<and> (supervised x now c db s \<longrightarrow> supervised x now c db1 s1) \<and>
    (rn_failures n1 = rn_failures n \<longrightarrow> supervised x now c db1 s1 \<or> closed_out c db1 s1)"
    using two
  proof (elim disjE)
    assume "n1 = failure_seen n \<and> db1 = db \<and> s1 = s"
    then show ?thesis using k by (simp add: failure_seen_def others_kept_def)
  next
    assume "n1 = n \<and> db1 = db \<and> s1 = s \<and> \<not> past_hard_limit now c \<and> holds_call x c s"
    then show ?thesis using k g by (simp add: others_kept_def supervised_def)
  next
    assume a: "(past_hard_limit now c \<or> \<not> holds_call x c s) \<and> (\<exists>res reason. end_in x ?cid (Some (vc_user_id c)) reason db s = (res, db1, s1) \<and>
      rn_failures n \<le> rn_failures n1 \<and> (rn_failures n1 = rn_failures n \<longrightarrow> (\<exists>r. res = Inr r \<and> \<not> er_pending r)))"
    then obtain res reason where E: "end_in x ?cid (Some (vc_user_id c)) reason db s = (res, db1, s1)" and f: "rn_failures n \<le> rn_failures n1"
      "rn_failures n1 = rn_failures n \<longrightarrow> (\<exists>r. res = Inr r \<and> \<not> er_pending r)" by blast
    note C = end_in_calls [OF E h] and Q = end_in_cache [OF E h conjunct1 [OF K] conjunct2 [OF K]]
    have "supervised x now c db1 s1 \<or> closed_out c db1 s1" if "rn_failures n1 = rn_failures n"
      using f(2) that C(3) Q(4) g o unfolding closed_out_def by blast
    moreover have "\<not> supervised x now c db s" using a by (auto simp: supervised_def)
    ultimately show ?thesis using K f(1) C(1) Q(1-3) unfolding cache_ok_def holds_call_def by blast
  qed
  thus "cache_ok own limit x s1" "rn_failures n \<le> rn_failures n1" "others_kept (vc_call_id c) db db1" "slot_free i s \<Longrightarrow> slot_free i s1"
    "vc_call_id d \<noteq> vc_call_id c \<Longrightarrow> holds_call x d s \<Longrightarrow> holds_call x d s1"
    "supervised x now c db s \<Longrightarrow> supervised x now c db1 s1"
    "rn_failures n1 = rn_failures n \<Longrightarrow> supervised x now c db1 s1 \<or> closed_out c db1 s1" by blast+
qed

text \<open>What happened to one call stays so while others are looked at.\<close>

lemma supervise_others:
  assumes "supervise x now ok c (n, db, s) = (n1, db1, s1)" "handled H x" "cache_ok own limit x s"
    "get_call (vc_call_id c) db = Some c" "own (vc_call_id c) = vc_user_id c" "vc_call_id d \<noteq> vc_call_id c"
  shows "get_call (vc_call_id d) db1 = get_call (vc_call_id d) db" "supervised x now d db s \<Longrightarrow> supervised x now d db1 s1"
    "closed_out d db s \<Longrightarrow> closed_out d db1 s1"
  using supervise_step(3,4,5) [OF assms(1-5)] assms(6) by (auto simp: supervised_def closed_out_def settled_down_def others_kept_def)

lemma supervise_all:
  assumes "fold (supervise x now ok) cs (n, db, s) = (n', db', s')" "handled H x" "cache_ok own limit x s" "distinct (map vc_call_id cs)"
    "\<forall>c \<in> set cs. get_call (vc_call_id c) db = Some c \<and> own (vc_call_id c) = vc_user_id c"
  shows "rn_failures n \<le> rn_failures n'" "\<And>d. vc_call_id d \<notin> vc_call_id ` set cs \<Longrightarrow> closed_out d db s \<Longrightarrow> closed_out d db' s'"
    "\<And>d. supervised x now d db s \<Longrightarrow> supervised x now d db' s'"
    "\<And>c. c \<in> set cs \<Longrightarrow> rn_failures n' = rn_failures n \<Longrightarrow> supervised x now c db' s' \<or> closed_out c db' s'"
proof -
  have "rn_failures n \<le> rn_failures n' \<and> (\<forall>d. vc_call_id d \<notin> vc_call_id ` set cs \<longrightarrow> closed_out d db s \<longrightarrow> closed_out d db' s') \<and>
    (\<forall>d. supervised x now d db s \<longrightarrow> supervised x now d db' s') \<and>
    (\<forall>c \<in> set cs. rn_failures n' = rn_failures n \<longrightarrow> supervised x now c db' s' \<or> closed_out c db' s')"
    using assms(1,3-)
  proof (induction cs arbitrary: n db s)
    case (Cons c cs)
    obtain n1 db1 s1 where S: "supervise x now ok c (n, db, s) = (n1, db1, s1)" by (cases "supervise x now ok c (n, db, s)")
    have F: "fold (supervise x now ok) cs (n1, db1, s1) = (n', db', s')" using Cons.prems(1) S by simp
    have g: "get_call (vc_call_id c) db = Some c" "own (vc_call_id c) = vc_user_id c" using Cons.prems(4) by simp_all
    note T = supervise_step [OF S assms(2) Cons.prems(2) g] and O = supervise_others [OF S assms(2) Cons.prems(2) g]
    have n: "vc_call_id c \<notin> vc_call_id ` set cs" "distinct (map vc_call_id cs)" using Cons.prems(3) by auto
    have q: "\<forall>d \<in> set cs. get_call (vc_call_id d) db1 = Some d \<and> own (vc_call_id d) = vc_user_id d"
      using Cons.prems(4) O(1) n(1) by (metis image_eqI list.set_intros(2))
    note I = Cons.IH [OF F T(1) n(2) q]
    have s: "supervised x now d db1 s1" if "supervised x now d db s" for d
    proof (cases "vc_call_id d = vc_call_id c")
      case True
      have "get_call (vc_call_id d) db = Some d" using that unfolding supervised_def by blast
      hence dc: "d = c" using g(1) True by (metis option.inject)
      show ?thesis using that T(6) unfolding dc by blast
    qed (use that O(2) in blast)
    have c: "supervised x now c db' s' \<or> closed_out c db' s'" if "rn_failures n' = rn_failures n"
    proof -
      have "rn_failures n1 = rn_failures n" using I T(2) that by linarith
      with T(7) I n(1) show ?thesis by blast
    qed
    have r: "supervised x now d db' s' \<or> closed_out d db' s'" if "rn_failures n' = rn_failures n" "d \<in> set cs" for d
    proof -
      have "rn_failures n' = rn_failures n1" using I T(2) that(1) by linarith
      with I that(2) show ?thesis by blast
    qed
    have "closed_out d db' s'" if "vc_call_id d \<notin> vc_call_id ` set (c # cs)" "closed_out d db s" for d
      using O(3) [of d] I that by auto
    moreover have "rn_failures n \<le> rn_failures n'" using I T(2) by linarith
    ultimately show ?case using s I c r by auto
  qed simp
  thus "rn_failures n \<le> rn_failures n'" "\<And>d. vc_call_id d \<notin> vc_call_id ` set cs \<Longrightarrow> closed_out d db s \<Longrightarrow> closed_out d db' s'"
    "\<And>d. supervised x now d db s \<Longrightarrow> supervised x now d db' s'"
    "\<And>c. c \<in> set cs \<Longrightarrow> rn_failures n' = rn_failures n \<Longrightarrow> supervised x now c db' s' \<or> closed_out c db' s'" by blast+
qed

lemma reclean_all:
  assumes "fold (reclean x) cs (n, db, s) = (n', db', s')" "cache_ok own limit x s" "\<forall>c \<in> set cs. vc_call_id c \<noteq> vc_call_id d"
  shows "rn_failures n \<le> rn_failures n'" "db' = db" "cache_ok own limit x s'" "holds_call x d s \<Longrightarrow> holds_call x d s'"
proof -
  have "rn_failures n \<le> rn_failures n' \<and> db' = db \<and> cache_ok own limit x s' \<and> (holds_call x d s \<longrightarrow> holds_call x d s')"
    using assms
  proof (induction cs arbitrary: n s)
    case (Cons c cs)
    obtain ok s1 where C: "cleanup_ended (ex_cleanup x) (vc_call_id c) (vc_user_id c) (vc_ended_at c) s = (ok, s1)" by fastforce
    have F: "fold (reclean x) cs ((if ok then n else failure_seen n), db, s1) = (n', db', s')"
    proof -
      have "reclean x c (n, db, s) = ((if ok then n else failure_seen n), db, s1)" using C by (simp add: reclean_def)
      with Cons.prems(1) show ?thesis by simp
    qed
    note Q = cleanup_facts [OF C conjunct1 [OF Cons.prems(2) [unfolded cache_ok_def]] conjunct2 [OF Cons.prems(2) [unfolded cache_ok_def]]]
    have k: "cache_ok own limit x s1" using Q(1) Cons.prems(2) by (simp add: cache_ok_def)
    have "holds_call x d s1" if "holds_call x d s" using Q(4) that Cons.prems(3) by (auto simp: holds_call_def)
    moreover have "rn_failures n \<le> rn_failures (if ok then n else failure_seen n)" by (simp add: failure_seen_def)
    ultimately show ?case using Cons.IH [OF F k] Cons.prems(3) by auto
  qed simp
  thus "rn_failures n \<le> rn_failures n'" "db' = db" "cache_ok own limit x s'" "holds_call x d s \<Longrightarrow> holds_call x d s'" by blast+
qed

text \<open>The calls that were open, or had ended lately, when a reconciliation started.\<close>

lemma reconcile_parts:
  assumes "reconcile x now utcnow ok db s = (n, db', s')" "cache_ok own limit x s" "uk_voice_call (db_calls db)"
    "\<forall>c \<in> set (db_calls db). own (vc_call_id c) = vc_user_id c"
  obtains n1 s1 where "fold (supervise x now ok) (filter (\<lambda>c. vc_status c \<in> set ACTIVE) (db_calls db)) (n1, db, s1) = (n, db', s')"
    "0 \<le> rn_failures n1" "cache_ok own limit x s1"
    "\<And>d. d \<in> set (db_calls db) \<Longrightarrow> vc_status d \<in> set ACTIVE \<Longrightarrow> holds_call x d s \<Longrightarrow> holds_call x d s1"
    "distinct (map vc_call_id (filter (\<lambda>c. vc_status c \<in> set ACTIVE) (db_calls db)))"
    "\<forall>c \<in> set (filter (\<lambda>c. vc_status c \<in> set ACTIVE) (db_calls db)). get_call (vc_call_id c) db = Some c \<and> own (vc_call_id c) = vc_user_id c"
proof -
  let ?z = "\<lparr>rn_corrected = 0, rn_failures = 0\<rparr>" and ?s = "s\<lparr>cc_leases := prune (cl_clock (ex_cleanup x)) (cc_leases s)\<rparr>"
  obtain n1 db1 s1 where R: "fold (reclean x) (filter (recently_ended utcnow) (db_calls db)) (?z, db, ?s) = (n1, db1, s1)"
    by (cases "fold (reclean x) (filter (recently_ended utcnow) (db_calls db)) (?z, db, ?s)")
  have k: "cache_ok own limit x ?s" using assms(2) prune_inv by (simp add: cache_ok_def)
  have ne: "\<forall>c \<in> set (filter (recently_ended utcnow) (db_calls db)). vc_call_id c \<noteq> vc_call_id d"
    if "d \<in> set (db_calls db)" "vc_status d \<in> set ACTIVE" for d
  proof (intro ballI notI)
    fix c assume c: "c \<in> set (filter (recently_ended utcnow) (db_calls db))" "vc_call_id c = vc_call_id d"
    from c have "get_call (vc_call_id d) db = Some c" using get_call_mem [OF assms(3), of c] by simp
    hence "c = d" using get_call_mem [OF assms(3) that(1)] by simp
    with c(1) that(2) show False by (simp add: recently_ended_def status_partition)
  qed
  have h: "holds_call x d ?s = holds_call x d s" for d by (simp add: holds_call_def owner_matches_def user_owner_def)
  have b: "0 \<le> rn_failures n1 \<and> db1 = db \<and> cache_ok own limit x s1"
  proof (cases "filter (recently_ended utcnow) (db_calls db) = []")
    case True
    then show ?thesis using R k by auto
  next
    case False
    obtain d :: voice_call where "\<forall>c \<in> set (filter (recently_ended utcnow) (db_calls db)). vc_call_id c \<noteq> vc_call_id d"
    proof -
      obtain i where "i \<notin> vc_call_id ` set (db_calls db)" using ex_new_if_finite [of "vc_call_id ` set (db_calls db)"] infinite_UNIV_listI by blast
      then show ?thesis using that [of "blank_call 0 i 0 Created"] by force
    qed
    from reclean_all [OF R k this] show ?thesis by simp
  qed
  have "fold (supervise x now ok) (filter (\<lambda>c. vc_status c \<in> set ACTIVE) (db_calls db)) (n1, db, s1) = (n, db', s')"
    using assms(1) R b by (simp add: reconcile_def PRUNE_EXPIRED_def Let_def)
  moreover have "distinct (map vc_call_id (filter (\<lambda>c. vc_status c \<in> set ACTIVE) (db_calls db)))"
    using assms(3) by (simp add: uk_voice_call_def distinct_map_filter)
  moreover have "\<forall>c \<in> set (filter (\<lambda>c. vc_status c \<in> set ACTIVE) (db_calls db)). get_call (vc_call_id c) db = Some c \<and> own (vc_call_id c) = vc_user_id c"
    using get_call_mem [OF assms(3)] assms(4) by simp
  moreover have "holds_call x d s1" if "d \<in> set (db_calls db)" "vc_status d \<in> set ACTIVE" "holds_call x d s" for d
    using reclean_all(4) [OF R k ne [OF that(1,2)]] h that(3) by simp
  ultimately show ?thesis using that b by blast
qed

lemma get_call_in: "get_call cid db = Some c \<Longrightarrow> c \<in> set (db_calls db) \<and> vc_call_id c = cid"
  by (auto simp: get_call_def dest: row_find_key)

text \<open>C24: The reconciliation never ends a healthy call. A call whose lease the cache confirms and whose hard limit has not passed is
  left exactly as it is and keeps its lease, whatever else is pruned, cleaned, ended or fails in the same round.\<close>

theorem reconcile_spares_healthy:
  assumes "reconcile x now utcnow ok db s = (n, db', s')" "handled H x" "cache_ok own limit x s" "uk_voice_call (db_calls db)"
    "\<forall>c \<in> set (db_calls db). own (vc_call_id c) = vc_user_id c"
    "get_call cid db = Some c" "vc_status c \<in> set ACTIVE" "\<not> past_hard_limit now c" "holds_call x c s"
  shows "get_call cid db' = Some c \<and> holds_call x c s'"
proof -
  have c: "c \<in> set (db_calls db)" "vc_call_id c = cid" using get_call_in [OF assms(6)] by auto
  from reconcile_parts [OF assms(1,3,4,5)] obtain n1 s1 where
    R: "fold (supervise x now ok) (filter (\<lambda>c. vc_status c \<in> set ACTIVE) (db_calls db)) (n1, db, s1) = (n, db', s')" "cache_ok own limit x s1"
      "distinct (map vc_call_id (filter (\<lambda>c. vc_status c \<in> set ACTIVE) (db_calls db)))"
      "\<forall>c \<in> set (filter (\<lambda>c. vc_status c \<in> set ACTIVE) (db_calls db)). get_call (vc_call_id c) db = Some c \<and> own (vc_call_id c) = vc_user_id c"
    and h: "holds_call x c s1" using c(1) assms(7,9) by metis
  have "supervised x now c db s1" using assms(6,8) c(2) h by (simp add: supervised_def)
  from supervise_all(3) [OF R(1) assms(2) R(2-4) this] show ?thesis using c(2) by (simp add: supervised_def)
qed

text \<open>C25: A reconciliation without failures leaves nothing unattended. Every call that was open at its start is afterwards either
  still open with its lease confirmed and its hard limit not passed, or terminal with its capacity slot and session
  context freed.\<close>

theorem reconcile_leaves_none_orphaned:
  assumes "reconcile x now utcnow ok db s = (n, db', s')" "rn_failures n = 0" "handled H x" "cache_ok own limit x s" "uk_voice_call (db_calls db)"
    "\<forall>c \<in> set (db_calls db). own (vc_call_id c) = vc_user_id c" "get_call cid db = Some c" "vc_status c \<in> set ACTIVE"
  shows "if (\<exists>c'. get_call cid db' = Some c' \<and> vc_status c' \<in> set TERMINAL) then slot_free cid s'
    else get_call cid db' = Some c \<and> \<not> past_hard_limit now c \<and> holds_call x c s'"
proof -
  have c: "c \<in> set (db_calls db)" "vc_call_id c = cid" using get_call_in [OF assms(7)] by auto
  from reconcile_parts [OF assms(1,4,5,6)] obtain n1 s1 where
    R: "fold (supervise x now ok) (filter (\<lambda>c. vc_status c \<in> set ACTIVE) (db_calls db)) (n1, db, s1) = (n, db', s')" "cache_ok own limit x s1"
      "distinct (map vc_call_id (filter (\<lambda>c. vc_status c \<in> set ACTIVE) (db_calls db)))"
      "\<forall>c \<in> set (filter (\<lambda>c. vc_status c \<in> set ACTIVE) (db_calls db)). get_call (vc_call_id c) db = Some c \<and> own (vc_call_id c) = vc_user_id c"
      "0 \<le> rn_failures n1" by metis
  note A = supervise_all [OF R(1) assms(3) R(2-4)]
  have m: "c \<in> set (filter (\<lambda>c. vc_status c \<in> set ACTIVE) (db_calls db))" using c(1) assms(8) by simp
  have "rn_failures n = rn_failures n1" using A(1) R(5) assms(2) by linarith
  from A(4) [OF m this] show ?thesis
    using c(2) assms(8) status_partition [of "vc_status c"] by (auto simp: supervised_def closed_out_def settled_down_def)
qed

section \<open>Concrete runs\<close>

definition demo_talk :: voice_call where
  "demo_talk = (blank_call 1 ''c1'' 7 Connected)\<lparr>vc_connected_at := Some 0\<rparr>"

definition talk_db :: database where
  "talk_db = empty_db\<lparr>db_users := [7], db_calls := [demo_talk]\<rparr>"

definition talk_clock :: end_clock where
  "talk_clock = \<lparr>ek_now = 9000000, ek_utcnow = 9000000, ek_seed = 0, ek_meters = (\<lambda>cid. if cid = ''c1'' then Some wq_m0 else None)\<rparr>"

definition talk_env :: end_env where
  "talk_env = \<lparr>ex_clock = (\<lambda>_. talk_clock), ex_cleanup = \<lparr>cl_alive = strict_expiry, cl_clock = 9000, cl_works = (\<lambda>_ _. True)\<rparr>,
     ex_local = (\<lambda>_. None), ex_deadlocks = (\<lambda>_. 0)\<rparr>"

definition no_cache :: call_cache where
  "no_cache = \<lparr>cc_leases = empty_store, cc_control = [], cc_contexts = [''c1'']\<rparr>"

lemma talk_facts:
  "get_call ''c1'' talk_db = Some demo_talk" "vc_call_id demo_talk = ''c1''" "vc_user_id demo_talk = 7" "vc_status demo_talk = Connected"
  "vc_connected_at demo_talk = Some 0" "vc_growth_eligible_seconds demo_talk = 0" "vc_config_snapshot demo_talk = JObj []"
  "db_users talk_db = [7]" "call_rows ''c1'' talk_db = []" "mt_call_id wq_m0 = ''c1''" "mt_user_id wq_m0 = 7" "mt_slices wq_m0 = []"
  by (simp_all add: talk_db_def demo_talk_def get_call_def row_find_def empty_db_def blank_call_def call_rows_def wq_m0_def)

lemma talk_settled: "\<exists>r. settle wq_m0 talk_db = Inr (r, put_call (settle_replay wq_m0 [] demo_talk) talk_db)"
  by (simp add: settle_def talk_facts totals_def Let_def dict_eq_def)

lemma talk_ends:
  assumes "user = None \<or> user = Some 7"
  shows "\<exists>r db' s'. end_in talk_env ''c1'' user reason talk_db no_cache = (Inr r, db', s') \<and> er_changed r \<and> \<not> er_pending r"
proof -
  define c1 where "c1 = settle_replay wq_m0 [] demo_talk"
  define d1 where "d1 = put_call c1 talk_db"
  have c1: "vc_call_id c1 = ''c1''" "vc_status c1 = Connected" "vc_connected_at c1 = Some 0" "vc_user_id c1 = 7" "vc_config_snapshot c1 = JObj []"
    by (simp_all add: c1_def settle_replay_def talk_facts)
  have g1: "get_call ''c1'' d1 = Some c1" unfolding d1_def by (rule calls.get_put_same [OF talk_facts(1) c1(1)])
  have S: "settle_end False talk_clock None ''c1'' 7 demo_talk talk_db = Inr d1"
    using talk_settled by (auto simp: settle_end_def recover_def talk_clock_def talk_facts d1_def c1_def)
  have a: "vc_status c1 \<in> set ACTIVE" by (simp add: c1 ACTIVE_def)
  define r1 where "r1 = c1\<lparr>vc_status := Ended, vc_end_reason := Some reason, vc_ended_at := Some (ek_now talk_clock)\<rparr>"
  have X0: "stage_final_state c1 reason (ek_now talk_clock) = Inr (True, r1)"
    by (subst stage_final_state_active [OF a]) (simp add: final_status_def c1 r1_def)
  obtain b r2 d3 where X1: "stage_call_card r1 (put_call r1 d1) = Inr (b, r2, d3)" using stage_call_card_total by blast
  note FR = stage_call_card_frame [OF X1]
  have X: "finalise_call talk_clock ''c1'' reason d1 = Inr d3"
    using X0 X1 FR(3) by (simp add: finalise_call_def row_of_def g1 r1_def)
  have k: "vc_call_id r1 = ''c1''" by (simp add: r1_def c1)
  have g3: "get_call ''c1'' d3 = Some r2"
    using stage_call_card_get [OF X1, of "''c1''"] calls.get_put_same [OF g1 k] k by simp
  have r2: "vc_user_id r2 = 7" "vc_status r2 = Ended" "vc_ended_at r2 = Some 9000000" "vc_config_snapshot r2 = JObj []" "vc_connected_at r2 = Some 0"
    using FR by (simp_all add: r1_def c1 talk_clock_def)
  obtain rel d4 where R: "get_or_create_relationship 7 d3 = (rel, d4)" by fastforce
  note F = get_or_create_facts [OF R]
  have w: "growth_settings r2 = Inr \<lparr>gw_segment = 30, gw_points = 5, gw_limit = 100\<rparr>"
    using r2(4) by (simp add: growth_settings_def jget_def'_def jget_def jhas_def jkeys_def seed_growth_def Let_def)
  have nl: "\<not> already_logged ''c1'' d4"
    using F(4) FR(15) by (simp add: already_logged_def d1_def talk_db_def empty_db_def)
  have e0: "0 \<le> vc_growth_eligible_seconds r2" using FR(8) by (simp add: r1_def c1_def settle_replay_def talk_facts)
  obtain g d5 where W: "add_voice_growth (ek_utcnow talk_clock) 7 (vc_growth_eligible_seconds r2) ''c1'' d3 = Inr (g, d5)"
    using g3 r2(1-3) R w nl e0 by (auto simp: add_voice_growth_def bindR_def split: prod.splits) (metis surj_pair)
  have A: "award_end talk_clock 7 ''c1'' d3 = Inr d5" using W by (simp add: award_end_def row_of_def g3 r2)
  obtain c5 where c5: "get_call ''c1'' d5 = Some c5" using award_row(1) [OF A g3] by blast
  have nu: "\<not> (case user of None \<Rightarrow> False | Some u \<Rightarrow> vc_user_id demo_talk \<noteq> u)" using assms by (auto simp: talk_facts)
  have T: "\<exists>d. end_call_tx False talk_clock None ''c1'' user reason talk_db = Inr (\<lparr>ef_changed = True, ef_owner = 7, ef_ended_at = vc_ended_at c5\<rparr>, d)"
    using nu S X A c5 by (simp add: end_call_tx_def row_of_def talk_facts Let_def flush_end_def ACTIVE_def)
  then obtain d where T: "end_call_tx False talk_clock None ''c1'' user reason talk_db = Inr (\<lparr>ef_changed = True, ef_owner = 7, ef_ended_at = vc_ended_at c5\<rparr>, d)" ..
  have E: "end_attempts 3 0 talk_clock None ''c1'' user reason talk_db = Inr (\<lparr>ef_changed = True, ef_owner = 7, ef_ended_at = vc_ended_at c5\<rparr>, d)"
    using T by (simp add: numeral_3_eq_3 Let_def deadlock_exn_def)
  have C: "fst (cleanup_ended (ex_cleanup talk_env) ''c1'' 7 e s)" for e s
    by (auto simp: cleanup_ended_def cleanup_cooldown_def cleanup_lease_def cleanup_control_def cleanup_context_def talk_env_def
        lease_release_def lease_user_key_def Let_def split: option.splits prod.splits)
  show ?thesis
    using E C [of "vc_ended_at c5" no_cache] by (auto simp: end_in_def talk_env_def end_call_def Let_def split: prod.splits)
qed

lemma talk_world:
  "handled (\<lambda>_. None) talk_env" "px_clock (cl_alive (ex_cleanup talk_env))" "lease_inv (\<lambda>_. 7) 1 (cl_clock (ex_cleanup talk_env)) (cc_leases no_cache)"
  "cache_ok (\<lambda>_. 7) 1 talk_env no_cache" "uk_voice_call (db_calls talk_db)" "\<forall>c \<in> set (db_calls talk_db). 7 = vc_user_id c" "ledger_wf talk_db"
proof -
  show "px_clock (cl_alive (ex_cleanup talk_env))" "lease_inv (\<lambda>_. 7) 1 (cl_clock (ex_cleanup talk_env)) (cc_leases no_cache)"
    using strict_px.px_clock_axioms empty_inv by (simp_all add: talk_env_def no_cache_def)
  then show "cache_ok (\<lambda>_. 7) 1 talk_env no_cache" by (simp add: cache_ok_def)
qed (simp_all add: handled_def handle_of_def handle_for_def talk_env_def talk_db_def empty_db_def uk_voice_call_def talk_facts ledger_wf_def)

theorem ended_call_complete_witness:
  "\<exists>r db' s'. end_in talk_env ''c1'' (Some 7) ''user_hangup'' talk_db no_cache = (Inr r, db', s') \<and> settled_down ''c1'' db' \<and> already_logged ''c1'' db'"
proof -
  obtain r db' s' where E: "end_in talk_env ''c1'' (Some 7) ''user_hangup'' talk_db no_cache = (Inr r, db', s')" "er_changed r"
    using talk_ends [of "Some 7" "''user_hangup''"] by blast
  have e: "end_call 0 talk_clock (ex_cleanup talk_env) (handle_of None) ''c1'' (Some 7) ''user_hangup'' talk_db no_cache = (Inr r, db', s')"
    using E(1) by (simp add: end_in_def talk_env_def handle_of_def)
  have m: "used_meter (handle_of None) talk_clock ''c1'' = Some m \<Longrightarrow> slices_wf (mt_slices m)" for m
    by (auto simp: used_meter_def handle_of_def talk_clock_def wq_m0_def)
  from ended_call_complete [OF e E(2) _ talk_world(7) m] obtain c' where
    "get_call ''c1'' db' = Some c'" "vc_status c' = final_status demo_talk ''user_hangup''" "already_logged ''c1'' db'"
    by (auto simp: handle_for_def talk_facts)
  with E(1) final_status_terminal show ?thesis by (auto simp: settled_down_def)
qed

theorem ending_again_replays_witness:
  "\<exists>r db' s'. end_in talk_env ''c1'' None ''system_error'' talk_db no_cache = (Inr r, db', s') \<and>
     (\<exists>r' db'' s''. end_in talk_env ''c1'' (Some 7) ''user_hangup'' db' s' = (Inr r', db'', s'') \<and> \<not> er_changed r' \<and> db_calls db'' = db_calls db')"
proof -
  obtain r db' s' where E: "end_in talk_env ''c1'' None ''system_error'' talk_db no_cache = (Inr r, db', s')"
    using talk_ends [of None "''system_error''"] by blast
  have e: "end_call 0 talk_clock (ex_cleanup talk_env) (handle_of None) ''c1'' None ''system_error'' talk_db no_cache = (Inr r, db', s')"
    using E by (simp add: end_in_def talk_env_def handle_of_def)
  have f: "handle_for ''c1'' None" by (simp add: handle_for_def)
  obtain dl g where tx: "end_call_tx dl talk_clock (handle_of None) ''c1'' None ''system_error'' talk_db = Inr (g, db')"
    using end_call_split [OF e] by metis
  obtain c where c: "get_call ''c1'' db' = Some c" "vc_user_id c = 7"
    using tx f
  proof (cases rule: end_call_tx_cases)
    case (replay c)
    then show ?thesis using that talk_facts by (simp add: get_call_def)
  next
    case (ended c c')
    then show ?thesis using that talk_facts by simp
  qed
  have "\<exists>r' s''. end_call 0 talk_clock (ex_cleanup talk_env) (handle_of None) ''c1'' (Some 7) ''user_hangup'' db' s' =
      (Inr r', commit_flush (stage [ev ''voice.state.terminal_replay'' [] 1, ev ''voice.finalizer.replay'' [] 1] db'), s'') \<and> \<not> er_changed r' \<and>
      vc_status c \<in> set TERMINAL"
    by (rule ending_again_replays [OF e f c(1)]) (simp_all add: c(2))
  with E show ?thesis by (fastforce simp: end_in_def talk_env_def handle_of_def)
qed

theorem hard_stop_accounts_for_all_witness:
  "\<exists>rep db' s'. hard_stop talk_env ''CONFIRM'' talk_db no_cache = (Inr rep, db', s') \<and> st_failed rep = [] \<and> settled_down ''c1'' db' \<and> slot_free ''c1'' s'"
proof -
  obtain r db' s' where E: "end_in talk_env ''c1'' None ''system_error'' talk_db no_cache = (Inr r, db', s')" "\<not> er_pending r"
    using talk_ends [of None "''system_error''"] by blast
  have "active_calls talk_db = [demo_talk]" by (simp add: active_calls_def talk_db_def empty_db_def talk_facts ACTIVE_def)
  hence H: "hard_stop talk_env ''CONFIRM'' talk_db no_cache = (Inr \<lparr>st_targets = [''c1''], st_results = [r], st_failed = [], st_details = []\<rparr>, db', s')"
    using E by (simp add: hard_stop_def Let_def talk_facts)
  have "vc_status demo_talk \<in> set ACTIVE" by (simp add: talk_facts ACTIVE_def)
  with hard_stop_accounts_for_all [OF H talk_world(1-3,5,6) talk_facts(1)] H show ?thesis by (auto simp: settled_down_def)
qed

lemma talk_round:
  obtains n db' s' where "reconcile talk_env 9000000 9000000 (\<lambda>_. True) talk_db no_cache = (n, db', s')" "rn_failures n = 0" "rn_corrected n = 1" "settled_down ''c1'' db'"
proof -
  obtain r db' s' where E: "end_in talk_env ''c1'' (Some 7) ''system_error'' talk_db no_cache = (Inr r, db', s')" "\<not> er_pending r"
    using talk_ends [of "Some 7" "''system_error''"] by blast
  have l: "\<not> past_hard_limit 9000000 demo_talk"
    by (simp add: past_hard_limit_def hard_limit_of_def talk_facts jget_def'_def jget_def jhas_def jkeys_def us_second_def)
  have p: "no_cache\<lparr>cc_leases := prune t (cc_leases no_cache)\<rparr> = no_cache" for t
    by (simp add: no_cache_def empty_store_def prune_def)
  have "\<not> owner_matches (cl_alive (ex_cleanup talk_env)) t 7 ''c1'' (cc_leases no_cache)" for t
    by (simp add: owner_matches_def user_owner_def px_get_def no_cache_def empty_store_def)
  hence "supervise talk_env 9000000 (\<lambda>_. True) demo_talk (\<lparr>rn_corrected = 0, rn_failures = 0\<rparr>, talk_db, no_cache) =
      (\<lparr>rn_corrected = 1, rn_failures = 0\<rparr>, db', s')"
    using E l by (simp add: supervise_def Let_def talk_facts corrected_seen_def)
  moreover have "db_calls talk_db = [demo_talk]" "\<not> recently_ended 9000000 demo_talk" "vc_status demo_talk \<in> set ACTIVE"
    by (simp_all add: talk_db_def empty_db_def recently_ended_def talk_facts TERMINAL_def ACTIVE_def)
  ultimately have "reconcile talk_env 9000000 9000000 (\<lambda>_. True) talk_db no_cache = (\<lparr>rn_corrected = 1, rn_failures = 0\<rparr>, db', s')"
    using p by (simp add: reconcile_def PRUNE_EXPIRED_def Let_def)
  moreover have "settled_down ''c1'' db'" by (rule end_in_calls(3) [OF E(1) talk_world(1)]) simp
  ultimately show ?thesis using that [of "\<lparr>rn_corrected = 1, rn_failures = 0\<rparr>" db' s'] by simp
qed

theorem reconcile_leaves_none_orphaned_witness:
  "\<exists>n db' s'. reconcile talk_env 9000000 9000000 (\<lambda>_. True) talk_db no_cache = (n, db', s') \<and> rn_corrected n = 1 \<and> settled_down ''c1'' db' \<and> slot_free ''c1'' s'"
proof -
  obtain n db' s' where R: "reconcile talk_env 9000000 9000000 (\<lambda>_. True) talk_db no_cache = (n, db', s')" "rn_failures n = 0" "rn_corrected n = 1" "settled_down ''c1'' db'"
    by (rule talk_round)
  have a: "vc_status demo_talk \<in> set ACTIVE" by (simp add: talk_facts ACTIVE_def)
  have "slot_free ''c1'' s'"
    using reconcile_leaves_none_orphaned [OF R(1,2) talk_world(1,4,5,6) talk_facts(1) a] R(4) by (auto simp: settled_down_def split: if_splits)
  with R show ?thesis by blast
qed

definition held_cache :: call_cache where
  "held_cache = no_cache\<lparr>cc_leases := snd (ACQUIRE strict_expiry 9000 7 ''c1'' 45000 1 empty_store)\<rparr>"

theorem reconcile_spares_healthy_witness:
  "\<exists>n db' s'. reconcile talk_env 9000000 9000000 (\<lambda>_. True) talk_db held_cache = (n, db', s') \<and> get_call ''c1'' db' = Some demo_talk \<and>
     holds_call talk_env demo_talk s'"
proof -
  obtain n db' s' where R: "reconcile talk_env 9000000 9000000 (\<lambda>_. True) talk_db held_cache = (n, db', s')"
    by (cases "reconcile talk_env 9000000 9000000 (\<lambda>_. True) talk_db held_cache")
  have l: "lease_inv (\<lambda>_. 7) 1 9000 (cc_leases held_cache)"
    unfolding held_cache_def using acquire_inv [OF empty_inv, of strict_expiry 9000 "\<lambda>_. 7" "''c1''"]
    by (simp add: user_owner_def px_get_def empty_store_def)
  have k: "cache_ok (\<lambda>_. 7) 1 talk_env held_cache"
    using l strict_px.px_clock_axioms by (simp add: cache_ok_def talk_env_def)
  have p: "\<not> past_hard_limit 9000000 demo_talk"
    by (simp add: past_hard_limit_def hard_limit_of_def talk_facts jget_def'_def jget_def jhas_def jkeys_def us_second_def)
  have h: "holds_call talk_env demo_talk held_cache"
    by (simp add: holds_call_def owner_matches_def user_owner_def px_get_def held_cache_def talk_facts ACQUIRE_def empty_store_def prune_def
        talk_env_def strict_expiry_def)
  have a: "vc_status demo_talk \<in> set ACTIVE" by (simp add: talk_facts ACTIVE_def)
  from reconcile_spares_healthy [OF R talk_world(1) k talk_world(5,6) talk_facts(1) a p h] R show ?thesis by blast
qed

end
