(* ===== verification/Frame.thy ===== *)
theory Frame
  imports Json "HOL-Library.Word"
begin

text \<open>
  The binary frames of the voice provider (\<open>realtime_voice_provider_service.py\<close>, \<open>encode_frame\<close> and
  \<open>decode_frame\<close>): a header of four bytes, big-endian numbers of four bytes, a body that may be compressed. The
  compression, the text of a JSON value and UTF-8 are parameters; \<open>fe_inflate\<close> is the bounded \<open>decompress\<close> with
  \<open>eof\<close> and \<open>unused_data\<close>, and a decoder answers \<open>None\<close> where Python raises.
\<close>

section \<open>Bytes\<close>

type_synonym bytes = "8 word list"

record frame_env =
  fe_gzip :: "bytes \<Rightarrow> bytes"
  fe_inflate :: "bytes \<Rightarrow> (bytes \<times> bool \<times> bytes) option"
  fe_dumps :: "json \<Rightarrow> bytes"
  fe_loads :: "bytes \<Rightarrow> json option"
  fe_utf8 :: "string \<Rightarrow> bytes"
  fe_text :: "bytes \<Rightarrow> string option"

definition MAX_FRAME_BYTES :: nat where
  "MAX_FRAME_BYTES = 1024 * 1024"

abbreviation provider_error :: "string \<Rightarrow> exn" where
  "provider_error c \<equiv> RuntimeError c"

definition be4 :: "nat \<Rightarrow> bytes" where
  "be4 n = [of_nat (n div 2 ^ 24), of_nat (n div 2 ^ 16), of_nat (n div 2 ^ 8), of_nat n]"

definition from_be :: "bytes \<Rightarrow> nat" where
  "from_be bs = foldl (\<lambda>a b. a * 256 + unat b) 0 bs"

definition high :: "8 word \<Rightarrow> nat" where
  "high b = unat b div 16"

definition low :: "8 word \<Rightarrow> nat" where
  "low b = unat b mod 16"

section \<open>Encoding\<close>

datatype frame_body = Json_body json | Raw_body bytes

definition encode_frame :: "frame_env \<Rightarrow> nat \<Rightarrow> frame_body \<Rightarrow> string \<Rightarrow> bytes res" where
  "encode_frame env ev payload session =
     (let audio = (case payload of Raw_body _ \<Rightarrow> True | Json_body _ \<Rightarrow> False);
          raw = (case payload of Raw_body b \<Rightarrow> b | Json_body j \<Rightarrow> fe_dumps env j) in
      if length raw > MAX_FRAME_BYTES then Inl (provider_error ''protocol_error'')
      else let body = fe_gzip env raw;
               header = [0x11, if audio then 0x24 else 0x14, if audio then 0x01 else 0x11, 0];
               sid = fe_utf8 env session;
               session_field = (if session \<noteq> [] then be4 (length sid) @ sid else []) in
           Inr (header @ be4 ev @ session_field @ be4 (length body) @ body))"

section \<open>Decoding\<close>

record frame =
  fr_audio :: bool
  fr_session :: string
  fr_event :: nat
  fr_sequence :: "nat option"
  fr_error :: "nat option"
  fr_payload :: frame_body

text \<open>\<open>number()\<close> at a position: the value and what follows.\<close>

definition number :: "bytes \<Rightarrow> (nat \<times> bytes) option" where
  "number bs = (if length bs < 4 then None else Some (from_be (take 4 bs), drop 4 bs))"

text \<open>\<open>size = number()\<close> and the bytes it names.\<close>

definition sized :: "bytes \<Rightarrow> (bytes \<times> bytes) option" where
  "sized bs = (case number bs of None \<Rightarrow> None | Some (n, r) \<Rightarrow> if n > length r then None else Some (take n r, drop n r))"

text \<open>The fields between header and body: error code, or sequence, event and session.\<close>

definition head_fields :: "frame_env \<Rightarrow> nat \<Rightarrow> nat \<Rightarrow> bytes \<Rightarrow> ((string \<times> nat \<times> nat option \<times> nat option) \<times> bytes) option" where
  "head_fields env kind flags bs =
     (if kind = 15 then (case number bs of None \<Rightarrow> None | Some (code, r) \<Rightarrow> Some (([], 0, None, Some code), r))
      else case (if flags mod 4 \<noteq> 0 then map_option (map_prod Some id) (number bs) else Some (None, bs)) of
        None \<Rightarrow> None
      | Some (seq, r) \<Rightarrow>
          if flags div 4 mod 2 = 0 then None
          else (case number r of None \<Rightarrow> None
            | Some (ev, r1) \<Rightarrow> (case sized r1 of None \<Rightarrow> None
                | Some (s, r2) \<Rightarrow> if length s > 255 then None
                    else (case fe_text env s of None \<Rightarrow> None | Some sid \<Rightarrow> Some ((sid, ev, seq, None), r2)))))"

definition inflate_body :: "frame_env \<Rightarrow> nat \<Rightarrow> bytes \<Rightarrow> bytes option" where
  "inflate_body env compression body =
     (if compression = 0 then Some body
      else case fe_inflate env body of None \<Rightarrow> None
        | Some (out, eof, unused) \<Rightarrow> if length out > MAX_FRAME_BYTES \<or> \<not> eof \<or> unused \<noteq> [] then None else Some out)"

text \<open>The payload, and whether it is audio.\<close>

definition read_body :: "frame_env \<Rightarrow> nat \<Rightarrow> nat \<Rightarrow> nat \<Rightarrow> bytes \<Rightarrow> (bool \<times> frame_body) option" where
  "read_body env kind serial ev body =
     (if serial \<noteq> 0 then (case fe_loads env body of None \<Rightarrow> None | Some j \<Rightarrow> if is_obj j then Some (False, Json_body j) else None)
      else if kind = 11 \<and> ev = 352 then Some (True, Raw_body body)
      else if kind \<noteq> 15 then None
      else Some (False, Raw_body body))"

definition decode_fields :: "frame_env \<Rightarrow> bytes \<Rightarrow> frame option" where
  "decode_fields env raw =
     (let kind = high (raw ! 1); flags = low (raw ! 1); serial = high (raw ! 2); compression = low (raw ! 2) in
      if high (raw ! 0) \<noteq> 1 \<or> low (raw ! 0) \<noteq> 1 \<or> raw ! 3 \<noteq> 0 then None
      else if kind \<notin> {9, 11, 15} \<or> serial \<notin> {0, 1} \<or> compression \<notin> {0, 1} then None
      else case head_fields env kind flags (drop 4 raw) of None \<Rightarrow> None
        | Some ((sid, ev, seq, code), r) \<Rightarrow> (case sized r of None \<Rightarrow> None
            | Some (body, rest) \<Rightarrow> if rest \<noteq> [] then None
                else (case Option.bind (inflate_body env compression body) (read_body env kind serial ev) of None \<Rightarrow> None
                  | Some (audio, payload) \<Rightarrow> Some \<lparr>fr_audio = audio, fr_session = sid, fr_event = ev, fr_sequence = seq,
                      fr_error = code, fr_payload = payload\<rparr>)))"

definition decode_frame :: "frame_env \<Rightarrow> bytes \<Rightarrow> frame res" where
  "decode_frame env raw =
     (if length raw < 4 \<or> length raw > MAX_FRAME_BYTES then Inl (provider_error ''protocol_error'')
      else case decode_fields env raw of None \<Rightarrow> Inl (provider_error ''protocol_error'') | Some f \<Rightarrow> Inr f)"

section \<open>The layout\<close>

lemma length_be4 [simp]: "length (be4 n) = 4"
  by (simp add: be4_def)

lemma unat_byte [simp]: "unat (of_nat n :: 8 word) = n mod 256"
  by (simp add: unsigned_of_nat take_bit_eq_mod)

lemma byte_again [simp]: "(of_nat (k * 256 + unat b) :: 8 word) = b"
  unfolding word_unat_eq_iff unat_byte by (simp add: unsigned_less [where 'b = 8, simplified])

lemma be4_split: "be4 n = [of_nat (n div 256 div 256 div 256), of_nat (n div 256 div 256), of_nat (n div 256), of_nat n]"
  by (simp add: be4_def div_mult2_eq [symmetric])

lemma from_be_be4: "n < 2 ^ 32 \<Longrightarrow> from_be (be4 n) = n"
proof -
  assume "n < 2 ^ 32"
  then have q: "n div 256 div 256 div 256 < 256" by (simp add: div_mult2_eq [symmetric])
  have "from_be (be4 n) = ((n div 256 div 256 div 256 * 256 + n div 256 div 256 mod 256) * 256 + n div 256 mod 256) * 256 + n mod 256"
    using q by (simp add: from_be_def be4_split)
  also have "\<dots> = n" by (simp only: div_mult_mod_eq)
  finally show ?thesis .
qed

lemma from_be_less: "length bs = 4 \<Longrightarrow> from_be bs < 2 ^ 32"
proof -
  assume "length bs = 4"
  then obtain a b c d where bs: "bs = [a, b, c, d]" by (auto simp: numeral_eq_Suc length_Suc_conv)
  have "unat a < 256" "unat b < 256" "unat c < 256" "unat d < 256" by (simp_all add: unsigned_less [where 'b = 8, simplified])
  then show ?thesis by (simp add: bs from_be_def)
qed

lemma be4_from_be: "length bs = 4 \<Longrightarrow> be4 (from_be bs) = bs"
proof -
  assume "length bs = 4"
  then obtain a b c d where bs: "bs = [a, b, c, d]" by (auto simp: numeral_eq_Suc length_Suc_conv)
  have lt: "unat b < 256" "unat c < 256" "unat d < 256" by (simp_all add: unsigned_less [where 'b = 8, simplified])
  have n: "from_be bs = ((unat a * 256 + unat b) * 256 + unat c) * 256 + unat d" by (simp add: bs from_be_def)
  have d1: "from_be bs div 256 = (unat a * 256 + unat b) * 256 + unat c" using lt(3) unfolding n by (simp del: add_mult_distrib)
  have d2: "from_be bs div 256 div 256 = unat a * 256 + unat b" using lt(2) unfolding d1 by (simp del: add_mult_distrib)
  have d3: "from_be bs div 256 div 256 div 256 = unat a" using lt(1) unfolding d2 by simp
  have w3: "(of_nat (from_be bs div 256 div 256 div 256) :: 8 word) = a" unfolding d3 by simp
  have w2: "(of_nat (from_be bs div 256 div 256) :: 8 word) = b" unfolding d2 by (rule byte_again)
  have w1: "(of_nat (from_be bs div 256) :: 8 word) = c" unfolding d1 by (rule byte_again)
  have w0: "(of_nat (from_be bs) :: 8 word) = d" unfolding n by (rule byte_again)
  have "be4 (from_be bs) = [a, b, c, d]" unfolding be4_split w0 w1 w2 w3 ..
  also have "\<dots> = bs" by (rule bs [symmetric])
  finally show ?thesis .
qed

lemma number_iff: "number bs = Some (n, r) \<longleftrightarrow> n < 2 ^ 32 \<and> bs = be4 n @ r"
proof
  assume "number bs = Some (n, r)"
  then have l: "4 \<le> length bs" "n = from_be (take 4 bs)" "r = drop 4 bs" by (auto simp: number_def split: if_splits)
  then show "n < 2 ^ 32 \<and> bs = be4 n @ r" using from_be_less [of "take 4 bs"] be4_from_be [of "take 4 bs"] by simp
next
  assume a: "n < 2 ^ 32 \<and> bs = be4 n @ r"
  then show "number bs = Some (n, r)" using from_be_be4 [of n] by (auto simp: number_def)
qed

lemma sized_iff: "sized bs = Some (b, r) \<longleftrightarrow> length b < 2 ^ 32 \<and> bs = be4 (length b) @ b @ r"
proof
  assume "sized bs = Some (b, r)"
  then obtain n q where q: "number bs = Some (n, q)" "n \<le> length q" "b = take n q" "r = drop n q"
    by (auto simp: sized_def split: option.splits if_splits)
  then show "length b < 2 ^ 32 \<and> bs = be4 (length b) @ b @ r" using number_iff [of bs n q] by simp
next
  assume a: "length b < 2 ^ 32 \<and> bs = be4 (length b) @ b @ r"
  then have "number bs = Some (length b, b @ r)" using number_iff [of bs "length b" "b @ r"] by simp
  then show "sized bs = Some (b, r)" by (simp add: sized_def)
qed

section \<open>The frames that are accepted\<close>

text \<open>The layout, written down without reading.\<close>

datatype frame_head = Error_head nat | Event_head "nat option" nat bytes

fun head_bytes :: "frame_head \<Rightarrow> bytes" where
  "head_bytes (Error_head code) = be4 code"
| "head_bytes (Event_head seq ev s) = (case seq of None \<Rightarrow> [] | Some n \<Rightarrow> be4 n) @ be4 ev @ be4 (length s) @ s"

definition frame_bytes :: "8 word \<Rightarrow> 8 word \<Rightarrow> frame_head \<Rightarrow> bytes \<Rightarrow> bytes" where
  "frame_bytes b1 b2 h body = [0x11, b1, b2, 0] @ head_bytes h @ be4 (length body) @ body"

fun head_describes :: "frame_env \<Rightarrow> 8 word \<Rightarrow> frame_head \<Rightarrow> frame \<Rightarrow> bool" where
  "head_describes env b1 (Error_head code) f =
     (high b1 = 15 \<and> code < 2 ^ 32 \<and> fr_session f = [] \<and> fr_event f = 0 \<and> fr_sequence f = None \<and> fr_error f = Some code)"
| "head_describes env b1 (Event_head seq ev s) f =
     (high b1 \<in> {9, 11} \<and> (seq = None) = (low b1 mod 4 = 0) \<and> low b1 div 4 mod 2 = 1 \<and> pred_option (\<lambda>n. n < 2 ^ 32) seq \<and>
      ev < 2 ^ 32 \<and> length s \<le> 255 \<and> fe_text env s = Some (fr_session f) \<and>
      fr_event f = ev \<and> fr_sequence f = seq \<and> fr_error f = None)"

definition body_describes :: "frame_env \<Rightarrow> 8 word \<Rightarrow> 8 word \<Rightarrow> bytes \<Rightarrow> frame \<Rightarrow> bool" where
  "body_describes env b1 b2 body f \<longleftrightarrow> high b2 \<in> {0, 1} \<and> low b2 \<in> {0, 1} \<and>
     Option.bind (inflate_body env (low b2) body) (read_body env (high b1) (high b2) (fr_event f)) = Some (fr_audio f, fr_payload f)"

lemma head_fields_iff:
  "head_fields env (high b1) (low b1) bs = Some ((fr_session f, fr_event f, fr_sequence f, fr_error f), r) \<and> high b1 \<in> {9, 11, 15} \<longleftrightarrow>
   (\<exists>h. bs = head_bytes h @ r \<and> head_describes env b1 h f)" (is "?L \<longleftrightarrow> ?R")
proof
  assume L: ?L
  show ?R
  proof (cases "high b1 = 15")
    case True
    with L obtain code where "number bs = Some (code, r)" "fr_error f = Some code" "fr_session f = []" "fr_event f = 0" "fr_sequence f = None"
      by (auto simp: head_fields_def split: option.splits)
    with True show ?thesis by (intro exI [of _ "Error_head code"]) (simp add: number_iff)
  next
    case False
    from L False obtain seq r0 ev r1 sb where
        q: "(if low b1 mod 4 \<noteq> 0 then map_option (map_prod Some id) (number bs) else Some (None, bs)) = Some (seq, r0)"
          "low b1 div 4 mod 2 \<noteq> 0" "number r0 = Some (ev, r1)" "sized r1 = Some (sb, r)" "length sb \<le> 255" "fe_text env sb = Some (fr_session f)"
          "fr_event f = ev" "fr_sequence f = seq" "fr_error f = None"
      unfolding head_fields_def by (auto split: option.splits if_splits)
    from q(1) have s: "(seq = None) = (low b1 mod 4 = 0)" "pred_option (\<lambda>n. n < 2 ^ 32) seq"
      "bs = (case seq of None \<Rightarrow> [] | Some n \<Rightarrow> be4 n) @ r0"
      by (auto simp: number_iff split: if_splits)
    have "r0 = be4 ev @ be4 (length sb) @ sb @ r" "ev < 2 ^ 32" using q(3,4) by (simp_all add: number_iff sized_iff)
    with s q False L show ?thesis by (intro exI [of _ "Event_head seq ev sb"]) auto
  qed
next
  assume ?R
  then obtain h where h: "bs = head_bytes h @ r" "head_describes env b1 h f" by blast
  show ?L
  proof (cases h)
    case (Error_head code)
    with h have "number bs = Some (code, r)" by (simp add: number_iff)
    with h Error_head show ?thesis by (simp add: head_fields_def)
  next
    case (Event_head seq ev sb)
    let ?r = "be4 ev @ be4 (length sb) @ sb @ r"
    have b: "bs = (case seq of None \<Rightarrow> [] | Some n \<Rightarrow> be4 n) @ ?r" using h(1) Event_head by simp
    have d: "high b1 \<in> {9, 11}" "(seq = None) = (low b1 mod 4 = 0)" "low b1 div 4 mod 2 = 1" "pred_option (\<lambda>n. n < 2 ^ 32) seq"
      "ev < 2 ^ 32" "length sb \<le> 255" "fe_text env sb = Some (fr_session f)" "fr_event f = ev" "fr_sequence f = seq" "fr_error f = None"
      using h(2) Event_head by simp_all
    have q: "(if low b1 mod 4 \<noteq> 0 then map_option (map_prod Some id) (number bs) else Some (None, bs)) = Some (seq, ?r)"
      using b d(2,4) number_iff [of bs _ ?r] by (cases seq) auto
    have n: "number ?r = Some (ev, be4 (length sb) @ sb @ r)" "sized (be4 (length sb) @ sb @ r) = Some (sb, r)"
      using d(5,6) by (simp_all add: number_iff sized_iff)
    show ?thesis using d(1,3,6-10) q n by (auto simp: head_fields_def)
  qed
qed

lemma nibbles_11: "high b = 1 \<and> low b = 1 \<longleftrightarrow> b = 0x11"
proof
  assume "high b = 1 \<and> low b = 1"
  then have "unat b = 17" by (simp add: high_def low_def) presburger
  then show "b = 0x11" by (simp add: word_unat_eq_iff)
qed (simp add: high_def low_def)

lemma decode_fields_iff:
  assumes "4 \<le> length raw"
  shows "decode_fields env raw = Some f \<longleftrightarrow>
    (\<exists>b1 b2 h body. raw = frame_bytes b1 b2 h body \<and> length body < 2 ^ 32 \<and> head_describes env b1 h f \<and> body_describes env b1 b2 body f)"
proof -
  obtain b0 b1 b2 b3 bs where raw: "raw = b0 # b1 # b2 # b3 # bs" using assms by (auto simp: Suc_le_length_iff numeral_eq_Suc)
  have hd: "high b1 \<in> {9, 11, 15}" if "head_describes env b1 h f" for h
    using that by (cases h) auto
  show ?thesis
  proof
    assume L: "decode_fields env raw = Some f"
    then have g: "b0 = 0x11" "b3 = 0" "high b1 \<in> {9, 11, 15}" "high b2 \<in> {0, 1}" "low b2 \<in> {0, 1}"
      using nibbles_11 [of b0] by (auto simp: decode_fields_def raw Let_def split: if_splits)
    have L': "(case head_fields env (high b1) (low b1) bs of None \<Rightarrow> None
        | Some ((sid, ev, seq, code), r) \<Rightarrow> (case sized r of None \<Rightarrow> None
            | Some (body, rest) \<Rightarrow> if rest \<noteq> [] then None
                else (case Option.bind (inflate_body env (low b2) body) (read_body env (high b1) (high b2) ev) of None \<Rightarrow> None
                  | Some (audio, payload) \<Rightarrow> Some \<lparr>fr_audio = audio, fr_session = sid, fr_event = ev, fr_sequence = seq,
                      fr_error = code, fr_payload = payload\<rparr>))) = Some f"
      using L g nibbles_11 [of b0] by (simp add: decode_fields_def raw Let_def split: if_splits)
    then obtain sid ev seq code r where h: "head_fields env (high b1) (low b1) bs = Some ((sid, ev, seq, code), r)"
      by (auto split: option.splits)
    with L' obtain body rest where z: "sized r = Some (body, rest)" by (auto split: option.splits)
    with L' h obtain audio payload where p: "rest = []" "Option.bind (inflate_body env (low b2) body) (read_body env (high b1) (high b2) ev) = Some (audio, payload)"
        "f = \<lparr>fr_audio = audio, fr_session = sid, fr_event = ev, fr_sequence = seq, fr_error = code, fr_payload = payload\<rparr>"
      by (auto split: option.splits if_splits)
    from h g(3) p(3) obtain hd' where "bs = head_bytes hd' @ r" "head_describes env b1 hd' f"
      using head_fields_iff [of env b1 bs f r] by auto
    with z p g show "\<exists>b1 b2 h body. raw = frame_bytes b1 b2 h body \<and> length body < 2 ^ 32 \<and> head_describes env b1 h f \<and> body_describes env b1 b2 body f"
      by (intro exI [of _ b1] exI [of _ b2] exI [of _ hd'] exI [of _ body]) (simp add: raw frame_bytes_def body_describes_def sized_iff)
  next
    assume "\<exists>b1 b2 h body. raw = frame_bytes b1 b2 h body \<and> length body < 2 ^ 32 \<and> head_describes env b1 h f \<and> body_describes env b1 b2 body f"
    then obtain h body where r: "b0 = 0x11" "b3 = 0" "bs = head_bytes h @ be4 (length body) @ body" "length body < 2 ^ 32"
        "head_describes env b1 h f" "body_describes env b1 b2 body f"
      by (auto simp: raw frame_bytes_def)
    have "head_fields env (high b1) (low b1) bs = Some ((fr_session f, fr_event f, fr_sequence f, fr_error f), be4 (length body) @ body)"
      using head_fields_iff [of env b1 bs f "be4 (length body) @ body"] r(3,5) by blast
    moreover have "sized (be4 (length body) @ body) = Some (body, [])" using r(4) by (simp add: sized_iff)
    moreover have "high b1 \<in> {9, 11, 15}" using hd [OF r(5)] .
    ultimately show "decode_fields env raw = Some f"
      using r nibbles_11 [of b0] by (simp add: decode_fields_def raw Let_def body_describes_def)
  qed
qed

end
