(* ===== verification/Provider.thy ===== *)
theory Provider
  imports Frame Turn Runtime
begin

text \<open>
  The adapter to the voice provider (\<open>VoiceProviderAdapter\<close> in \<open>realtime_voice_provider_service.py\<close>): the session, the
  messages it sends and the numbered events it makes of the provider's frames.

  Every operation takes the adapter and returns its result with the adapter, since a method that raises keeps what it did
  before. \<open>ad_wire\<close> is the list of frames written to the open connection; what the connection answers, and whether a
  write fails, are arguments. The random identifiers (\<open>uuid4\<close>), the digest of a boundary and the clock are arguments or
  parameters. One operation runs at a time: that another task finishes the session while a connection is being opened is
  left out, and so are the counters (\<open>_metric_*\<close>, the recall observations) and \<open>__repr__\<close>. A configuration has the keys
  that \<open>ConfigCheck\<close> demands.
\<close>

section \<open>State\<close>

record provider_env =
  pv_frames :: frame_env
  pv_sdk :: pystr
  pv_iso :: "pystr \<Rightarrow> (datetime \<times> bool) option"
  pv_text :: "json \<Rightarrow> pystr"
  pv_str :: "json \<Rightarrow> pystr"
  pv_digest :: "nat \<times> json \<times> pystr option \<Rightarrow> pystr"
  pv_status :: "exn \<Rightarrow> int option"

record adapter =
  ad_call_id :: string
  ad_config :: json
  ad_capabilities :: json
  ad_purpose :: string
  ad_diagnostic :: "string option"
  ad_session_id :: string
  ad_dialog_id :: pystr
  ad_wire :: "bytes list option"
  ad_secret :: "pystr option"
  ad_ready :: bool
  ad_events :: "turn_event list"
  ad_sequence :: int
  ad_question :: "pystr option"
  ad_reply :: "pystr option"
  ad_questions :: "(pystr, pystr) dict"
  ad_replies :: "(pystr, pystr) dict"
  ad_reply_questions :: "(pystr, pystr) dict"
  ad_text_started :: "pystr list"
  ad_rag_questions :: "pystr list"
  ad_rag_reply :: "(pystr, pystr) dict"
  ad_finished :: "pystr list"
  ad_preserved :: "pystr list"
  ad_seen :: "pystr list"
  ad_vendor_sequence :: "(nat \<times> pystr option \<times> pystr option, int) dict"
  ad_persona :: pystr
  ad_context :: pystr
  ad_usage :: "json option"
  ad_generation :: int
  ad_audio_reply :: "pystr option"
  ad_starting :: "int option"
  ad_greeting_session :: "string option"
  ad_greeting_pending :: bool
  ad_control_pending :: "(string \<times> pystr \<times> pystr option) option"

definition new_adapter :: "string \<Rightarrow> json \<Rightarrow> json \<Rightarrow> string \<Rightarrow> string option \<Rightarrow> adapter res" where
  "new_adapter cid config caps purpose diag =
     (if diag \<noteq> None \<and> (purpose \<noteq> ''admin_test'' \<or> the diag \<notin> set VOICE_CAPABILITY_KEYS) then Inl (provider_error ''invalid_config'')
      else Inr \<lparr>ad_call_id = cid, ad_config = config, ad_capabilities = caps, ad_purpose = purpose, ad_diagnostic = diag,
        ad_session_id = [], ad_dialog_id = [], ad_wire = None, ad_secret = None, ad_ready = False, ad_events = [], ad_sequence = 0,
        ad_question = None, ad_reply = None, ad_questions = [], ad_replies = [], ad_reply_questions = [], ad_text_started = [],
        ad_rag_questions = [], ad_rag_reply = [], ad_finished = [], ad_preserved = [], ad_seen = [], ad_vendor_sequence = [],
        ad_persona = [], ad_context = [], ad_usage = None, ad_generation = 0, ad_audio_reply = None, ad_starting = None,
        ad_greeting_session = None, ad_greeting_pending = False, ad_control_pending = None\<rparr>)"

section \<open>Capabilities\<close>

fun json_truthy :: "json \<Rightarrow> bool" where
  "json_truthy JNull = False"
| "json_truthy (JBool b) = b"
| "json_truthy (JInt n) = (n \<noteq> 0)"
| "json_truthy (JFloat f) = (f \<noteq> Fin 0)"
| "json_truthy (JStr s) = (s \<noteq> [])"
| "json_truthy (JList xs) = (xs \<noteq> [])"
| "json_truthy (JObj kvs) = (kvs \<noteq> [])"

definition PROTOCOL_PROFILE :: pystr where
  "PROTOCOL_PROFILE = asc ''doubao_dialog_v3_pcm''"

definition ADAPTER_VERSION :: pystr where
  "ADAPTER_VERSION = asc ''voice_adapter_v1''"

definition ENDPOINT :: pystr where
  "ENDPOINT = asc ''wss://openspeech.bytedance.com/api/v3/realtime/dialogue''"

definition dimensions_match :: "provider_env \<Rightarrow> json \<Rightarrow> json \<Rightarrow> bool" where
  "dimensions_match env c s2s \<longleftrightarrow> py_eq (jget c ''provider_profile'') (jget s2s ''provider'') \<and>
     py_eq (jget c ''model_version'') (jget s2s ''model_version'') \<and> jget c ''protocol_profile'' = JStr PROTOCOL_PROFILE \<and>
     jget c ''adapter_version'' = JStr ADAPTER_VERSION \<and> jget c ''sdk_version'' = JStr (pv_sdk env)"

text \<open>\<open>replace('Z', '+00:00')\<close>\<close>

definition zulu :: "pystr \<Rightarrow> pystr" where
  "zulu s = concat (map (\<lambda>c. if c = 90 then asc ''+00:00'' else [c]) s)"

text \<open>Fresh evidence: a time of expiry with an offset, in the future. A value that is no text has no \<open>replace\<close>.\<close>

definition unexpired :: "provider_env \<Rightarrow> datetime \<Rightarrow> json \<Rightarrow> bool res" where
  "unexpired env now c =
     (if \<not> jhas c ''expires_at'' then Inr False
      else case jget c ''expires_at'' of
        JStr t \<Rightarrow> Inr (case pv_iso env (zulu t) of None \<Rightarrow> False | Some (e, aware) \<Rightarrow> aware \<and> e > now)
      | _ \<Rightarrow> Inl (ValueError ''attribute_error''))"

definition verified_evidence :: "json \<Rightarrow> bool" where
  "verified_evidence c \<longleftrightarrow> jget c ''verification_status'' = jtext ''verified'' \<and> jget c ''last_test_result'' = jtext ''passed'' \<and>
     (jget c ''effective_scope'' = jtext ''test'' \<or> jget c ''effective_scope'' = jtext ''all'') \<and>
     json_truthy (jget c ''evidence_report_id'') \<and> json_truthy (jget c ''evidence_fingerprint'')"

definition capability_enabled :: "provider_env \<Rightarrow> datetime \<Rightarrow> string \<Rightarrow> adapter \<Rightarrow> bool res" where
  "capability_enabled env now key st =
     (let c = jget_def' (ad_capabilities st) key (JObj []); s2s = jget (ad_config st) ''s2s'';
          status = jget c ''verification_status'' in
      if key \<notin> set VOICE_CAPABILITY_KEYS \<or> jget c ''enabled'' \<noteq> JBool True then Inr False
      else if status = jtext ''failed'' \<or> jget c ''effective_scope'' = jtext ''off'' then Inr False
      else if \<not> dimensions_match env c s2s then Inr False
      else if status = jtext ''unverified'' \<or> status = jtext ''stale''
        then Inr (ad_purpose st = ''admin_test'' \<and> jget c ''effective_scope'' = jtext ''test'' \<and>
               jget c ''forced_enabled'' = JBool True \<and> json_truthy (jget c ''force_source''))
      else map_sum id (\<lambda>fresh. verified_evidence c \<and> fresh) (unexpired env now c))"

definition operation_allowed :: "provider_env \<Rightarrow> datetime \<Rightarrow> string \<Rightarrow> adapter \<Rightarrow> bool res" where
  "operation_allowed env now key st =
     (if ad_purpose st = ''admin_test'' \<and> ad_diagnostic st = Some key then Inr True else capability_enabled env now key st)"

section \<open>Errors and sending\<close>

definition error_category :: "provider_env \<Rightarrow> exn \<Rightarrow> string" where
  "error_category env x =
     (case x of RuntimeError c \<Rightarrow> c
      | TimeoutError \<Rightarrow> ''timeout''
      | _ \<Rightarrow> if pv_status env x = Some 401 \<or> pv_status env x = Some 403 then ''authentication_failed'' else ''upstream_unavailable'')"

definition wrapped :: "provider_env \<Rightarrow> exn \<Rightarrow> exn" where
  "wrapped env x = provider_error (error_category env x)"

text \<open>\<open>send_if\<close> may refuse, change the adapter or raise.\<close>

type_synonym claim = "adapter \<Rightarrow> bool res \<times> adapter"

definition no_claim :: claim where
  "no_claim st = (Inr True, st)"

definition write_frame :: "provider_env \<Rightarrow> exn option \<Rightarrow> nat \<Rightarrow> frame_body \<Rightarrow> adapter \<Rightarrow> bool res \<times> adapter" where
  "write_frame env fail event payload st =
     (case encode_frame (pv_frames env) event payload (ad_session_id st) of
        Inl x \<Rightarrow> (Inl (wrapped env x), st)
      | Inr b \<Rightarrow> (case fail of Some x \<Rightarrow> (Inl (wrapped env x), st)
          | None \<Rightarrow> (Inr True, st\<lparr>ad_wire := map_option (\<lambda>w. w @ [b]) (ad_wire st)\<rparr>)))"

definition send ::
  "provider_env \<Rightarrow> exn option \<Rightarrow> nat \<Rightarrow> frame_body \<Rightarrow> bool \<Rightarrow> claim \<Rightarrow> adapter \<Rightarrow> bool res \<times> adapter" where
  "send env fail event payload require_ready claim st =
     (if ad_wire st = None \<or> require_ready \<and> \<not> ad_ready st then (Inl (provider_error ''upstream_unavailable''), st)
      else case claim st of (Inl x, st') \<Rightarrow> (Inl x, st')
        | (Inr False, st') \<Rightarrow> (Inr False, st')
        | (Inr True, st') \<Rightarrow> write_frame env fail event payload st')"

definition outcome :: "string \<Rightarrow> string \<Rightarrow> bool res \<times> adapter \<Rightarrow> string res \<times> adapter" where
  "outcome yes no r = (case r of (x, st) \<Rightarrow> (map_sum id (\<lambda>sent. if sent then yes else no) x, st))"

section \<open>Events\<close>

definition event_of :: "string \<Rightarrow> ev_payload \<Rightarrow> pystr option \<Rightarrow> pystr option \<Rightarrow> json \<Rightarrow> adapter \<Rightarrow> turn_event \<times> adapter" where
  "event_of kind payload q r confidence st =
     (let n = ad_sequence st + 1 in
      (\<lparr>pe_call_id = ad_call_id st, pe_session_id = ad_session_id st, pe_sequence = n, pe_kind = kind, pe_question_id = q,
         pe_reply_id = r, pe_payload = payload, te_confidence = confidence\<rparr>, st\<lparr>ad_sequence := n\<rparr>))"

definition emit :: "string \<Rightarrow> ev_payload \<Rightarrow> pystr option \<Rightarrow> pystr option \<Rightarrow> json \<Rightarrow> adapter \<Rightarrow> turn_event option res \<times> adapter" where
  "emit kind payload q r confidence st = (case event_of kind payload q r confidence st of (e, st') \<Rightarrow> (Inr (Some e), st'))"

definition ignored :: "adapter \<Rightarrow> turn_event option res \<times> adapter" where
  "ignored st = (Inr None, st)"

definition refused :: "string \<Rightarrow> adapter \<Rightarrow> turn_event option res \<times> adapter" where
  "refused c st = (Inl (provider_error c), st)"

fun payload_of :: "json \<Rightarrow> ev_payload" where
  "payload_of (JStr s) = Text_payload s"
| "payload_of (JObj kvs) = Dict_payload (JObj kvs)"
| "payload_of _ = Other_payload"

section \<open>Reading a provider frame\<close>

text \<open>A vendor identity is absent or a text of 1 to 255 characters.\<close>

definition vendor_id :: "json \<Rightarrow> pystr option res" where
  "vendor_id v =
     (case v of JNull \<Rightarrow> Inr None
      | JStr s \<Rightarrow> if s = [] \<or> length s > 255 then Inl (provider_error ''protocol_error'') else Inr (Some s)
      | _ \<Rightarrow> Inl (provider_error ''protocol_error''))"

text \<open>The vendor's number for this kind and identity: an error, a repetition, or new.\<close>

definition vendor_sequence :: "nat \<times> pystr option \<times> pystr option \<Rightarrow> json \<Rightarrow> adapter \<Rightarrow> bool res \<times> adapter" where
  "vendor_sequence key v st =
     (case v of JNull \<Rightarrow> (Inr True, st)
      | JInt n \<Rightarrow>
          if n < 0 then (Inl (provider_error ''protocol_error''), st)
          else if n \<le> (case map_of (ad_vendor_sequence st) key of None \<Rightarrow> - 1 | Some m \<Rightarrow> m) then (Inr False, st)
          else (Inr True, st\<lparr>ad_vendor_sequence := AList.update key n (ad_vendor_sequence st)\<rparr>)
      | _ \<Rightarrow> (Inl (provider_error ''protocol_error''), st))"

definition boundary_events :: "nat list" where
  "boundary_events = [150, 152, 351, 359, 459, 559, 567, 570]"

text \<open>A boundary that was seen before is dropped; 4096 digests are remembered in order.\<close>

definition boundary_new :: "provider_env \<Rightarrow> nat \<Rightarrow> json \<Rightarrow> adapter \<Rightarrow> bool \<times> adapter" where
  "boundary_new env event payload st =
     (if event \<notin> set boundary_events then (True, st)
      else let d = pv_digest env (event, payload, if event = 459 then ad_question st else None); seen = ad_seen st @ [d] in
        if d \<in> set (ad_seen st) then (False, st)
        else (True, st\<lparr>ad_seen := if length seen > 4096 then tl seen else seen\<rparr>))"

text \<open>\<open>self._question = self._questions.setdefault(qid, str(uuid4()))\<close>\<close>

definition open_question :: "pystr \<Rightarrow> pystr \<Rightarrow> adapter \<Rightarrow> adapter" where
  "open_question qid fresh st =
     (case map_of (ad_questions st) qid of
        Some q \<Rightarrow> st\<lparr>ad_question := Some q\<rparr>
      | None \<Rightarrow> st\<lparr>ad_questions := ad_questions st @ [(qid, fresh)], ad_question := Some fresh\<rparr>)"

definition read_audio :: "frame_body \<Rightarrow> adapter \<Rightarrow> turn_event option res \<times> adapter" where
  "read_audio body st =
     (case ad_audio_reply st of None \<Rightarrow> ignored st
      | Some r \<Rightarrow> if r \<in> set (ad_finished st) then ignored st
          else (case map_of (ad_reply_questions st) r of None \<Rightarrow> (Inl (ValueError ''key_error''), st)
            | Some q \<Rightarrow> emit ''tts_audio'' (Audio_payload (case body of Raw_body b \<Rightarrow> length b | Json_body _ \<Rightarrow> 0)) (Some q) (Some r) JNull st))"

definition read_control :: "pystr option \<Rightarrow> pystr \<Rightarrow> adapter \<Rightarrow> turn_event option res \<times> adapter" where
  "read_control qid fresh st =
     (let st1 = st\<lparr>ad_control_pending := None\<rparr> in
      case (qid, ad_control_pending st) of
        (Some raw, Some (kind, token, asked)) \<Rightarrow>
          if asked \<noteq> ad_question st then ignored st1
          else let st2 = open_question raw fresh st1 in
            emit ''control_confirmed'' (Dict_payload (JObj [(''control_kind'', jtext kind), (''control_token'', JStr token)]))
              (ad_question st2) None JNull st2
      | _ \<Rightarrow> ignored st1)"

text \<open>The last recognition result of a 451 frame.\<close>

definition last_result :: "json \<Rightarrow> json res" where
  "last_result payload =
     (let results = jget_def' payload ''results'' (JList []) in
      if \<not> json_truthy results then Inl (provider_error ''protocol_error'')
      else case results of
        JList xs \<Rightarrow> if is_obj (last xs) then Inr (last xs) else Inl (provider_error ''protocol_error'')
      | JStr _ \<Rightarrow> Inl (provider_error ''protocol_error'')
      | _ \<Rightarrow> Inl (ValueError ''no_last_item''))"

definition confidence_ok :: "json \<Rightarrow> bool" where
  "confidence_ok v \<longleftrightarrow> (case v of JNull \<Rightarrow> True | JInt n \<Rightarrow> 0 \<le> n \<and> n \<le> 1 | JFloat (Fin r) \<Rightarrow> 0 \<le> r \<and> r \<le> 1 | _ \<Rightarrow> False)"

definition read_recognition :: "json \<Rightarrow> adapter \<Rightarrow> turn_event option res \<times> adapter" where
  "read_recognition payload st =
     (case last_result payload of Inl x \<Rightarrow> (Inl x, st)
      | Inr r \<Rightarrow> if \<not> confidence_ok (jget r ''confidence'') then refused ''protocol_error'' st
          else emit (if jget r ''is_interim'' = JBool True then ''asr_interim'' else ''asr_final'') (payload_of (jget_def' r ''text'' (JStr [])))
            (ad_question st) None (jget r ''confidence'') st)"

definition read_speech :: "nat \<Rightarrow> json \<Rightarrow> pystr option \<Rightarrow> pystr \<Rightarrow> adapter \<Rightarrow> turn_event option res \<times> adapter" where
  "read_speech event payload qid fresh st =
     (if event = 450
      then (case qid of None \<Rightarrow> ignored st
        | Some raw \<Rightarrow> let st1 = open_question raw fresh (st\<lparr>ad_greeting_pending := False\<rparr>) in
            emit ''user_speech_started'' Other_payload (ad_question st1) None JNull st1)
      else if ad_question st = None \<or> (case qid of None \<Rightarrow> False | Some raw \<Rightarrow> map_of (ad_questions st) raw \<noteq> ad_question st) then ignored st
      else if event = 451 then read_recognition payload st
      else emit ''user_speech_finished'' Other_payload (ad_question st) None JNull st)"

section \<open>Replies\<close>

text \<open>A greeting has no question of its own: the first sentence after it opens one.\<close>

definition bind_greeting :: "nat \<Rightarrow> pystr option \<Rightarrow> pystr option \<Rightarrow> pystr \<Rightarrow> adapter \<Rightarrow> adapter" where
  "bind_greeting event qid rid fresh st =
     (case qid of None \<Rightarrow> st
      | Some raw \<Rightarrow> if event = 350 \<and> rid \<noteq> None \<and> ad_greeting_pending st \<and> ad_question st = None
          then (open_question raw fresh st)\<lparr>ad_greeting_pending := False\<rparr> else st)"

definition question_of :: "pystr option \<Rightarrow> pystr option \<Rightarrow> adapter \<Rightarrow> pystr option" where
  "question_of qid rid st =
     (case qid of Some raw \<Rightarrow> map_of (ad_questions st) raw
      | None \<Rightarrow> Option.bind (Option.bind rid (map_of (ad_replies st))) (map_of (ad_reply_questions st)))"

definition chat_content :: "json \<Rightarrow> json" where
  "chat_content payload = jget_def' payload ''content'' (jget_def' payload ''text'' (JStr []))"

text \<open>Of a question into which context was injected only the reply that speaks first comes through.\<close>

definition rag_guard :: "nat \<Rightarrow> json \<Rightarrow> pystr \<Rightarrow> pystr \<Rightarrow> adapter \<Rightarrow> bool \<times> adapter" where
  "rag_guard event payload q raw st =
     (if ad_purpose st \<noteq> ''call'' \<or> q \<notin> set (ad_rag_questions st) then (True, st)
      else case map_of (ad_rag_reply st) q of
        None \<Rightarrow> if event = 350 \<or> event = 550 \<and> json_truthy (chat_content payload)
          then (True, st\<lparr>ad_rag_reply := AList.update q raw (ad_rag_reply st)\<rparr>) else (False, st)
      | Some selected \<Rightarrow> if selected = raw then (True, st)
          else (False, if event = 350 then st\<lparr>ad_audio_reply := None\<rparr> else st))"

definition reply_kind :: "nat \<Rightarrow> string" where
  "reply_kind event = (if event = 350 then ''sentence_started'' else if event = 351 then ''sentence_finished''
     else if event = 359 then ''tts_finished'' else if event = 550 then ''chat_text'' else ''text_finished'')"

definition picked :: "string list \<Rightarrow> json \<Rightarrow> (string \<times> json) list" where
  "picked ks payload = map (\<lambda>k. (k, jget payload k)) (filter (jhas payload) ks)"

definition reply_data :: "nat \<Rightarrow> json \<Rightarrow> ev_payload" where
  "reply_data event payload =
     (if event = 550 then payload_of (chat_content payload)
      else Dict_payload (JObj (picked ([''sentence_id'', ''start_time'', ''end_time'', ''text''] @ (if event = 359 then [''status_code''] else [])) payload)))"

definition note_reply :: "nat \<Rightarrow> pystr \<Rightarrow> pystr \<Rightarrow> adapter \<Rightarrow> adapter" where
  "note_reply event q r st =
     st\<lparr>ad_reply := Some r,
       ad_audio_reply := (if event = 350 then Some r else ad_audio_reply st),
       ad_text_started := (if event = 350 \<or> event = 550 then List.insert q (ad_text_started st) else ad_text_started st),
       ad_finished := (if event = 359 then List.insert r (ad_finished st) else ad_finished st)\<rparr>"

text \<open>The local reply, with its question bound once and for all.\<close>

definition bind_reply :: "pystr \<Rightarrow> pystr \<Rightarrow> pystr \<Rightarrow> adapter \<Rightarrow> pystr \<times> pystr \<times> adapter" where
  "bind_reply q raw fresh st =
     (let r = (case map_of (ad_replies st) raw of Some x \<Rightarrow> x | None \<Rightarrow> fresh);
          st1 = (if map_of (ad_replies st) raw = None then st\<lparr>ad_replies := ad_replies st @ [(raw, r)]\<rparr> else st) in
      case map_of (ad_reply_questions st1) r of Some q0 \<Rightarrow> (r, q0, st1)
      | None \<Rightarrow> (r, q, st1\<lparr>ad_reply_questions := ad_reply_questions st1 @ [(r, q)]\<rparr>))"

definition settle_reply_frame :: "nat \<Rightarrow> json \<Rightarrow> pystr \<Rightarrow> pystr \<Rightarrow> pystr \<Rightarrow> adapter \<Rightarrow> turn_event option res \<times> adapter" where
  "settle_reply_frame event payload q raw fresh st =
     (case bind_reply q raw fresh st of (r, q0, st1) \<Rightarrow>
        if q0 \<noteq> q \<or> r \<in> set (ad_finished st1) then ignored st1
        else emit (reply_kind event) (reply_data event payload) (Some q) (Some r) JNull (note_reply event q r st1))"

definition read_reply ::
  "nat \<Rightarrow> json \<Rightarrow> pystr option \<Rightarrow> pystr option \<Rightarrow> pystr \<Rightarrow> pystr \<Rightarrow> adapter \<Rightarrow> turn_event option res \<times> adapter" where
  "read_reply event payload qid rid fresh_q fresh_r st =
     (let st1 = bind_greeting event qid rid fresh_q st in
      case (question_of qid rid st1, rid) of
        (Some q, Some raw) \<Rightarrow>
          if ad_question st1 \<noteq> Some q \<and> q \<notin> set (ad_preserved st1) then ignored st1
          else (case rag_guard event payload q raw st1 of
              (False, st2) \<Rightarrow> ignored st2
            | (True, st2) \<Rightarrow> settle_reply_frame event payload q raw fresh_r st2)
      | _ \<Rightarrow> ignored st1)"

section \<open>The other frames\<close>

fun counted :: "json \<Rightarrow> bool" where
  "counted (JInt n) = (0 \<le> n)"
| "counted (JFloat f) = pf_le (Fin 0) f"
| "counted _ = False"

definition read_usage :: "json \<Rightarrow> adapter \<Rightarrow> turn_event option res \<times> adapter" where
  "read_usage payload st =
     (let usage = JObj (filter (\<lambda>(k, v). k \<in> {''input_tokens'', ''output_tokens'', ''audio_duration''} \<and> counted v) (obj_fields payload)) in
      emit ''usage'' (Dict_payload usage) None None JNull (st\<lparr>ad_usage := Some usage\<rparr>))"

text \<open>The item ids of a 571 frame: only objects count; a list or an object as an id is no key of a set.\<close>

fun item_ids :: "json list \<Rightarrow> json list res" where
  "item_ids [] = Inr []"
| "item_ids (v # vs) =
     (if \<not> is_obj v then item_ids vs
      else case jget v ''item_id'' of
        JList _ \<Rightarrow> Inl (ValueError ''unhashable'')
      | JObj _ \<Rightarrow> Inl (ValueError ''unhashable'')
      | j \<Rightarrow> map_sum id (Cons j) (item_ids vs))"

definition deleted_items :: "json \<Rightarrow> json list res" where
  "deleted_items payload =
     (case jget_def' payload ''items'' (JList []) of
        JList vs \<Rightarrow> item_ids vs
      | JStr _ \<Rightarrow> Inr []
      | JObj _ \<Rightarrow> Inr []
      | _ \<Rightarrow> Inl (ValueError ''not_iterable''))"

definition deleted_questions :: "json list \<Rightarrow> adapter \<Rightarrow> pystr list" where
  "deleted_questions ids st =
     sort (remdups (map snd (filter (\<lambda>(raw, q). JStr raw \<in> set ids) (ad_questions st)) @
       List.map_filter (\<lambda>(raw, r). if JStr raw \<in> set ids then map_of (ad_reply_questions st) r else None) (ad_replies st)))"

definition read_deleted :: "json \<Rightarrow> adapter \<Rightarrow> turn_event option res \<times> adapter" where
  "read_deleted payload st =
     (case deleted_items payload of Inl x \<Rightarrow> (Inl x, st)
      | Inr ids \<Rightarrow> emit ''context_deleted'' (Dict_payload (JObj [(''question_ids'', JList (map JStr (deleted_questions ids st)))])) None None JNull st)"

definition read_context :: "nat \<Rightarrow> json \<Rightarrow> adapter \<Rightarrow> turn_event option res \<times> adapter" where
  "read_context event payload st =
     emit (if event = 567 then ''context_created'' else ''context_truncated'')
       (Dict_payload (JObj (picked [''item_id'', ''audio_end_ms''] payload))) None None JNull st"

section \<open>normalize\<close>

definition read_other :: "nat \<Rightarrow> json \<Rightarrow> adapter \<Rightarrow> turn_event option res \<times> adapter" where
  "read_other event payload st =
     (if event = 154 then read_usage payload st
      else if event = 152 then emit ''session_finished'' Other_payload None None JNull (st\<lparr>ad_ready := False\<rparr>)
      else if event = 571 then read_deleted payload st
      else if event = 567 \<or> event = 570 then read_context event payload st
      else ignored st)"

text \<open>After the identities and the repetitions.\<close>

definition read_event ::
  "nat \<Rightarrow> json \<Rightarrow> pystr option \<Rightarrow> pystr option \<Rightarrow> pystr \<Rightarrow> pystr \<Rightarrow> adapter \<Rightarrow> turn_event option res \<times> adapter" where
  "read_event event payload qid rid fresh_q fresh_r st =
     (if event = 553 then read_control qid fresh_q st
      else if event \<in> {450, 451, 459} then read_speech event payload qid fresh_q st
      else if event \<in> {350, 351, 359, 550, 559} then read_reply event payload qid rid fresh_q fresh_r st
      else read_other event payload st)"

definition frame_number :: "json \<Rightarrow> nat option \<Rightarrow> json" where
  "frame_number payload header = jget_def' payload ''sequence'' (case header of None \<Rightarrow> JNull | Some n \<Rightarrow> JInt (int n))"

definition read_json :: "provider_env \<Rightarrow> nat \<Rightarrow> json \<Rightarrow> nat option \<Rightarrow> pystr \<Rightarrow> pystr \<Rightarrow> adapter \<Rightarrow> turn_event option res \<times> adapter" where
  "read_json env event payload header fresh_q fresh_r st =
     (case bindR (vendor_id (jget payload ''question_id'')) (\<lambda>qid. map_sum id (Pair qid) (vendor_id (jget payload ''reply_id''))) of
        Inl x \<Rightarrow> (Inl x, st)
      | Inr (qid, rid) \<Rightarrow> (case vendor_sequence (event, qid, rid) (frame_number payload header) st of
            (Inl x, st1) \<Rightarrow> (Inl x, st1)
          | (Inr False, st1) \<Rightarrow> ignored st1
          | (Inr True, st1) \<Rightarrow> (case boundary_new env event payload st1 of
                (False, st2) \<Rightarrow> ignored st2
              | (True, st2) \<Rightarrow> read_event event payload qid rid fresh_q fresh_r st2)))"

definition normalize_frame :: "provider_env \<Rightarrow> frame \<Rightarrow> pystr \<Rightarrow> pystr \<Rightarrow> adapter \<Rightarrow> turn_event option res \<times> adapter" where
  "normalize_frame env f fresh_q fresh_r st =
     (if (fr_error f \<noteq> None \<and> fr_error f \<noteq> Some 0) \<or> fr_event f \<in> {51, 153, 599} then refused ''upstream_unavailable'' st
      else if fr_session f \<noteq> ad_session_id st then ignored st
      else if fr_audio f then read_audio (fr_payload f) st
      else case fr_payload f of
        Raw_body _ \<Rightarrow> (Inl (ValueError ''attribute_error''), st)
      | Json_body j \<Rightarrow> read_json env (fr_event f) j (fr_sequence f) fresh_q fresh_r st)"

section \<open>receive_event\<close>

text \<open>What the connection delivers next: bytes or an error, with the identifiers drawn while they are read.\<close>

type_synonym arrival = "bytes res \<times> pystr \<times> pystr"

datatype received = Got turn_event | Failed exn | Waiting

definition read_arrival :: "provider_env \<Rightarrow> arrival \<Rightarrow> adapter \<Rightarrow> turn_event option res \<times> adapter" where
  "read_arrival env a st =
     (case a of (raw, fresh_q, fresh_r) \<Rightarrow>
        (case bindR raw (decode_frame (pv_frames env)) of
          Inl x \<Rightarrow> (Inl x, st)
        | Inr f \<Rightarrow> normalize_frame env f fresh_q fresh_r st))"

fun receive_frames :: "provider_env \<Rightarrow> arrival list \<Rightarrow> adapter \<Rightarrow> received \<times> arrival list \<times> adapter" where
  "receive_frames env as st =
     (if ad_wire st = None then (Failed (provider_error ''upstream_unavailable''), as, st)
      else case as of [] \<Rightarrow> (Waiting, [], st)
        | a # rest \<Rightarrow> (case read_arrival env a st of
              (Inl x, st') \<Rightarrow> (Failed (wrapped env x), rest, st')
            | (Inr (Some e), st') \<Rightarrow> (Got e, rest, st')
            | (Inr None, st') \<Rightarrow> receive_frames env rest st'))"

definition receive_event :: "provider_env \<Rightarrow> arrival list \<Rightarrow> adapter \<Rightarrow> received \<times> arrival list \<times> adapter" where
  "receive_event env as st =
     (case ad_events st of e # es \<Rightarrow> (Got e, as, st\<lparr>ad_events := es\<rparr>) | [] \<Rightarrow> receive_frames env as st)"

text \<open>An event of another kind is put back for the next reader.\<close>

definition receive_kind :: "provider_env \<Rightarrow> string \<Rightarrow> arrival list \<Rightarrow> adapter \<Rightarrow> received \<times> arrival list \<times> adapter" where
  "receive_kind env kind as st =
     (case receive_event env as st of
        (Got e, rest, st') \<Rightarrow> if pe_kind e \<noteq> kind
          then (Failed (provider_error ''protocol_error''), rest, st'\<lparr>ad_events := e # ad_events st'\<rparr>) else (Got e, rest, st')
      | r \<Rightarrow> r)"

declare receive_frames.simps [simp del]

section \<open>Requests\<close>

definition inject_context :: "pystr \<Rightarrow> pystr \<Rightarrow> adapter \<Rightarrow> string res \<times> adapter" where
  "inject_context persona ctx st =
     (if ad_ready st then (Inl (provider_error ''protocol_error''), st)
      else if \<not> nonblank persona \<or> length persona > 5000 \<or> length ctx > 2000 then (Inl (provider_error ''invalid_config''), st)
      else (Inr ''preamble_staged'', st\<lparr>ad_persona := persona, ad_context := ctx\<rparr>))"

definition claim_control :: "string \<Rightarrow> pystr \<Rightarrow> claim" where
  "claim_control kind token st =
     (if ad_control_pending st \<noteq> None then (Inr False, st)
      else (Inr True, st\<lparr>ad_control_pending := Some (kind, token, ad_question st)\<rparr>))"

definition control_query :: "provider_env \<Rightarrow> exn option \<Rightarrow> pystr \<Rightarrow> string \<Rightarrow> pystr \<Rightarrow> adapter \<Rightarrow> string res \<times> adapter" where
  "control_query env fail content kind token st =
     (if kind \<notin> {''time_low'', ''silence_confirm'', ''goodbye''} \<or> \<not> nonblank content \<or> length content > 2000 \<or>
         token = [] \<or> length token > 64
      then (Inl (provider_error ''protocol_error''), st)
      else case send env fail 501 (Json_body (JObj [(''content'', JStr content)])) True (claim_control kind token) st of
        (Inl x, st') \<Rightarrow> (Inl x, st'\<lparr>ad_control_pending := None\<rparr>)
      | (Inr sent, st') \<Rightarrow> (Inr (if sent then ''control_requested'' else ''control_pending''), st'))"

definition claim_greeting :: claim where
  "claim_greeting st =
     (if ad_greeting_session st = Some (ad_session_id st) then (Inr False, st)
      else (Inr True, st\<lparr>ad_greeting_session := Some (ad_session_id st), ad_greeting_pending := True\<rparr>))"

definition say_hello :: "provider_env \<Rightarrow> exn option \<Rightarrow> pystr \<Rightarrow> adapter \<Rightarrow> string res \<times> adapter" where
  "say_hello env fail content st =
     (if \<not> nonblank content \<or> length content > 200 then (Inl (provider_error ''protocol_error''), st)
      else outcome ''greeting_requested'' ''greeting_already_requested''
        (send env fail 300 (Json_body (JObj [(''content'', JStr content)])) True claim_greeting st))"

definition preserve_playing_question :: "pystr \<Rightarrow> adapter \<Rightarrow> adapter" where
  "preserve_playing_question q st =
     (if q \<in> set (map snd (ad_questions st)) then st\<lparr>ad_preserved := List.insert q (ad_preserved st)\<rparr> else st)"

definition claim_deletion :: "pystr \<Rightarrow> pystr \<Rightarrow> claim" where
  "claim_deletion raw q st = (Inr (map_of (ad_questions st) raw = Some q), st)"

definition delete_backchannel :: "provider_env \<Rightarrow> exn option \<Rightarrow> pystr \<Rightarrow> adapter \<Rightarrow> unit res \<times> adapter" where
  "delete_backchannel env fail q st =
     (case find (\<lambda>(raw, l). l = q) (ad_questions st) of None \<Rightarrow> (Inl (provider_error ''evidence_invalid''), st)
      | Some (raw, _) \<Rightarrow>
          if \<not> list_ex (\<lambda>(r, l). l = q \<and> r \<in> set (ad_finished st)) (ad_reply_questions st) then (Inl (provider_error ''evidence_invalid''), st)
          else (case send env fail 514 (Json_body (JObj [(''items'', JList [JObj [(''item_id'', JStr raw)]])])) True (claim_deletion raw q) st of
              (Inl x, st') \<Rightarrow> (Inl x, st')
            | (Inr sent, st') \<Rightarrow> (if sent then Inr () else Inl (provider_error ''evidence_invalid''), st')))"

definition send_audio :: "provider_env \<Rightarrow> exn option \<Rightarrow> bytes \<Rightarrow> adapter \<Rightarrow> unit res \<times> adapter" where
  "send_audio env fail pcm st =
     (if pcm = [] \<or> odd (length pcm) \<or> length pcm > 32000 then (Inl (provider_error ''protocol_error''), st)
      else apfst (map_sum id (\<lambda>_. ())) (send env fail 200 (Raw_body pcm) True no_claim st))"

section \<open>Requests about a reply\<close>

text \<open>\<open>_target\<close>\<close>

definition target :: "pystr \<Rightarrow> adapter \<Rightarrow> bool res" where
  "target r st = (if ad_reply st \<noteq> Some r \<or> r \<in> set (ad_finished st) then Inl (provider_error ''protocol_error'') else Inr True)"

definition claim_target :: "pystr \<Rightarrow> claim" where
  "claim_target r st = (target r st, st)"

definition reply_context_item :: "pystr \<Rightarrow> adapter \<Rightarrow> pystr option" where
  "reply_context_item r st = map_option fst (find (\<lambda>(raw, l). l = r) (ad_replies st))"

definition interrupt_reply :: "provider_env \<Rightarrow> datetime \<Rightarrow> exn option \<Rightarrow> pystr \<Rightarrow> adapter \<Rightarrow> string res \<times> adapter" where
  "interrupt_reply env now fail r st =
     (case bindR (target r st) (\<lambda>_. operation_allowed env now ''supports_reply_cancel'' st) of
        Inl x \<Rightarrow> (Inl x, st)
      | Inr False \<Rightarrow> (Inr ''local_stop_only'', st)
      | Inr True \<Rightarrow> apfst (map_sum id (\<lambda>_. ''remote_cancel_requested'')) (send env fail 515 (Json_body (JObj [])) True (claim_target r) st))"

definition truncate_target :: "pystr \<Rightarrow> pystr option \<Rightarrow> adapter \<Rightarrow> bool res" where
  "truncate_target r item st =
     (if ad_purpose st = ''admin_test'' \<and> ad_diagnostic st = Some ''supports_context_truncate''
      then (if ad_reply st \<noteq> Some r \<or> Option.bind item (map_of (ad_replies st)) \<noteq> Some r
            then Inl (provider_error ''evidence_invalid'') else Inr True)
      else target r st)"

definition claim_truncate :: "pystr \<Rightarrow> pystr option \<Rightarrow> claim" where
  "claim_truncate r item st = (truncate_target r item st, st)"

definition truncate_reply_context ::
  "provider_env \<Rightarrow> datetime \<Rightarrow> exn option \<Rightarrow> pystr \<Rightarrow> int \<Rightarrow> pystr option \<Rightarrow> adapter \<Rightarrow> string res \<times> adapter" where
  "truncate_reply_context env now fail r audio_end_ms item st =
     (case bindR (truncate_target r item st) (\<lambda>_. operation_allowed env now ''supports_context_truncate'' st) of
        Inl x \<Rightarrow> (Inl x, st)
      | Inr False \<Rightarrow> (Inr ''context_not_truncated'', st)
      | Inr True \<Rightarrow> if audio_end_ms < 0 \<or> \<not> opt_truthy item then (Inl (provider_error ''protocol_error''), st)
          else apfst (map_sum id (\<lambda>_. ''context_truncate_requested''))
            (send env fail 513 (Json_body (JObj [(''item_id'', JStr (the item)), (''audio_end_ms'', JInt audio_end_ms)])) True (claim_truncate r item) st))"

definition claim_rag :: "pystr \<Rightarrow> claim" where
  "claim_rag q st =
     (if ad_question st \<noteq> Some q \<or> q \<in> set (ad_text_started st) \<or> q \<in> set (ad_rag_questions st) then (Inr False, st)
      else (Inr True, st\<lparr>ad_rag_questions := List.insert q (ad_rag_questions st)\<rparr>))"

definition rag_payload :: "provider_env \<Rightarrow> pystr \<Rightarrow> frame_body" where
  "rag_payload env content = Json_body (JObj [(''external_rag'',
     JStr (pv_text env (JList [JObj [(''title'', jtext ''context''), (''content'', JStr content)]])))])"

definition inject_rag :: "provider_env \<Rightarrow> datetime \<Rightarrow> exn option \<Rightarrow> pystr \<Rightarrow> pystr \<Rightarrow> adapter \<Rightarrow> string res \<times> adapter" where
  "inject_rag env now fail q content st =
     (if ad_question st \<noteq> Some q \<or> length content > 2000 then (Inl (provider_error ''protocol_error''), st)
      else case operation_allowed env now ''supports_current_turn_rag_gate'' st of
        Inl x \<Rightarrow> (Inl x, st)
      | Inr allowed \<Rightarrow>
          if \<not> allowed \<or> q \<in> set (ad_text_started st) \<or> q \<in> set (ad_rag_questions st) then (Inr ''next_turn'', st)
          else outcome ''current_turn_requested'' ''next_turn'' (send env fail 502 (rag_payload env content) True (claim_rag q) st))"

section \<open>The session\<close>

text \<open>The last frames and the closing of the connection leave nothing in the adapter, whether they succeed or not.\<close>

definition finish_session :: "int option \<Rightarrow> adapter \<Rightarrow> adapter" where
  "finish_session expected st =
     (if expected \<noteq> None \<and> expected \<noteq> Some (ad_generation st) then st
      else st\<lparr>ad_secret := None, ad_wire := None, ad_generation := ad_generation st + 1, ad_greeting_pending := False,
             ad_control_pending := None, ad_ready := False\<rparr>)"

definition DEFAULT_APP_KEY :: pystr where
  "DEFAULT_APP_KEY = asc ''PlgvMymc7f3tQnJ6''"

definition profile_ok :: "json \<Rightarrow> bool" where
  "profile_ok s2s \<longleftrightarrow> jget s2s ''endpoint'' = JStr ENDPOINT \<and> jget s2s ''provider'' = jtext ''doubao'' \<and>
     jget s2s ''adapter_version'' = JStr ADAPTER_VERSION \<and> jget s2s ''protocol_profile'' = JStr PROTOCOL_PROFILE"

text \<open>The exchange after a connection is open: the first frame sent and the answer to it.\<close>

definition connect_answer :: "provider_env \<Rightarrow> exn option \<Rightarrow> bytes res \<Rightarrow> bytes res" where
  "connect_answer env opened first =
     (case opened of Some x \<Rightarrow> Inl x
      | None \<Rightarrow> bindR (encode_frame (pv_frames env) 1 (Json_body (JObj [])) []) (\<lambda>b.
          bindR (bindR first (decode_frame (pv_frames env))) (\<lambda>f.
            if fr_event f \<noteq> 50
            then Inl (provider_error (if fr_error f \<noteq> None \<and> fr_error f \<noteq> Some 0 then ''authentication_failed'' else ''protocol_error''))
            else Inr b)))"

text \<open>\<open>vars\<close>: the environment's credential, application id and application key.\<close>

definition create_connection ::
  "provider_env \<Rightarrow> pystr \<times> pystr \<times> pystr \<Rightarrow> exn option \<Rightarrow> bytes res \<Rightarrow> pystr option \<Rightarrow> adapter \<Rightarrow> unit res \<times> adapter" where
  "create_connection env vars opened first given st =
     (case vars of (env_secret, app_id, env_key) \<Rightarrow>
      let st1 = st\<lparr>ad_generation := ad_generation st + 1\<rparr>;
          access = (case given of Some s \<Rightarrow> s | None \<Rightarrow> env_secret);
          app_key = (if nonblank env_key then py_strip env_key else DEFAULT_APP_KEY) in
      if ad_wire st \<noteq> None then (Inl (provider_error ''protocol_error''), st)
      else if \<not> profile_ok (jget (ad_config st) ''s2s'') then (Inl (provider_error ''invalid_config''), st1)
      else if \<not> (nonblank access \<and> nonblank app_id \<and> nonblank app_key) then (Inl (provider_error ''credential_missing''), st1)
      else case connect_answer env opened first of
        Inl x \<Rightarrow> (Inl (wrapped env x), finish_session (Some (ad_generation st1)) st1)
      | Inr b \<Rightarrow> (Inr (), st1\<lparr>ad_wire := Some [b], ad_secret := Some access\<rparr>))"

text \<open>A new session forgets the identities of the old one.\<close>

definition forget_session :: "adapter \<Rightarrow> adapter" where
  "forget_session st =
     st\<lparr>ad_questions := [], ad_replies := [], ad_reply_questions := [], ad_text_started := [], ad_rag_questions := [], ad_rag_reply := [],
       ad_finished := [], ad_preserved := [], ad_seen := [], ad_vendor_sequence := [], ad_events := [], ad_question := None,
       ad_reply := None, ad_audio_reply := None, ad_control_pending := None, ad_sequence := 0, ad_usage := None\<rparr>"

definition session_payload :: "adapter \<Rightarrow> bool \<Rightarrow> pystr option \<Rightarrow> json" where
  "session_payload st may_truncate dialog =
     (let voice = jget (ad_config st) ''voice'';
          extra = [(''enable_user_query_exit'', JBool True), (''input_mod'', jtext ''keep_alive''),
              (''model'', jget (jget (ad_config st) ''s2s'') ''model_version'')] @
            (if may_truncate then [(''enable_conversation_truncate'', JBool True)] else []);
          dialog_part = [(''extra'', JObj extra), (''character_manifest'', JStr (ad_persona st @ [10] @ ad_context st))] @
            (case dialog of Some d \<Rightarrow> [(''dialog_id'', JStr d)] | None \<Rightarrow> []);
          tts = [(''speaker'', jget voice ''voice_id''), (''audio_config'', JObj [(''format'', jtext ''pcm_s16le''), (''sample_rate'', JInt 24000),
              (''channel'', JInt 1), (''bits'', JInt 16), (''speech_rate'', jget voice ''speech_rate''), (''loudness_rate'', jget voice ''loudness_rate'')])] @
            (if json_truthy (jget voice ''expressive'') then [(''extra'', JObj [(''tts_2.0_model'', jtext ''expressive'')])] else []) in
      JObj [(''dialog'', JObj dialog_part),
        (''asr'', JObj [(''audio_info'', JObj [(''format'', jtext ''pcm''), (''sample_rate'', JInt 16000), (''channel'', JInt 1)])]),
        (''tts'', JObj tts)])"

text \<open>The answer to the start frame: the dialog id of this session.\<close>

definition start_answer :: "provider_env \<Rightarrow> string \<Rightarrow> bytes res \<Rightarrow> pystr res" where
  "start_answer env sid first =
     bindR (bindR first (decode_frame (pv_frames env))) (\<lambda>f.
       if fr_event f \<noteq> 150 \<or> fr_session f \<noteq> sid then Inl (provider_error ''protocol_error'')
       else case fr_payload f of
         Raw_body _ \<Rightarrow> Inl (ValueError ''attribute_error'')
       | Json_body j \<Rightarrow> Inr (pv_str env (jget_def' j ''dialog_id'' (JStr []))))"

definition become_ready :: "pystr \<Rightarrow> adapter \<Rightarrow> adapter" where
  "become_ready dialog st =
     (case event_of ''session_ready'' Other_payload None None JNull (st\<lparr>ad_dialog_id := dialog, ad_ready := True\<rparr>) of
        (e, st') \<Rightarrow> st'\<lparr>ad_events := ad_events st' @ [e]\<rparr>)"

definition open_session ::
  "provider_env \<Rightarrow> exn option \<Rightarrow> bytes res \<Rightarrow> json \<Rightarrow> adapter \<Rightarrow> string res \<times> adapter" where
  "open_session env fail first payload st =
     (case send env fail 100 (Json_body payload) False no_claim st of
        (Inl x, st1) \<Rightarrow> (Inl (wrapped env x), finish_session (Some (ad_generation st1)) st1\<lparr>ad_starting := None\<rparr>)
      | (Inr _, st1) \<Rightarrow> (case start_answer env (ad_session_id st1) first of
            Inl x \<Rightarrow> (Inl (wrapped env x), finish_session (Some (ad_generation st1)) st1\<lparr>ad_starting := None\<rparr>)
          | Inr dialog \<Rightarrow> (Inr (ad_session_id st1), become_ready dialog st1\<lparr>ad_starting := None\<rparr>)))"

definition start_session ::
  "provider_env \<Rightarrow> datetime \<Rightarrow> exn option \<Rightarrow> bytes res \<Rightarrow> string \<Rightarrow> pystr option \<Rightarrow> string option \<Rightarrow> adapter \<Rightarrow> string res \<times> adapter" where
  "start_session env now fail first fresh resume_dialog resume_session st =
     (let resumed = (resume_session \<noteq> None \<and> resume_session \<noteq> Some []);
          again = operation_allowed env now ''supports_session_reconnect'' st in
      if ad_wire st = None \<or> ad_ready st \<or> ad_persona st = [] \<or> ad_starting st = Some (ad_generation st)
      then (Inl (provider_error ''protocol_error''), st)
      else if resumed \<and> \<not> opt_truthy resume_dialog then (Inl (provider_error ''evidence_invalid''), st)
      else case (if resumed then again else Inr True) of
        Inl x \<Rightarrow> (Inl x, st)
      | Inr False \<Rightarrow> (Inl (provider_error ''evidence_invalid''), st)
      | Inr True \<Rightarrow>
          (let st1 = (if resumed then st else forget_session st);
               st2 = st1\<lparr>ad_session_id := if resumed then the resume_session else fresh, ad_starting := Some (ad_generation st1)\<rparr> in
           case bindR (operation_allowed env now ''supports_context_truncate'' st2) (\<lambda>may_truncate.
               if \<not> opt_truthy resume_dialog then Inr (session_payload st2 may_truncate None)
               else bindR again (\<lambda>ok. if ok then Inr (session_payload st2 may_truncate resume_dialog)
                 else Inl (provider_error ''evidence_invalid''))) of
             Inl x \<Rightarrow> (Inl x, st2)
           | Inr payload \<Rightarrow> open_session env fail first payload st2))"

section \<open>Reconnecting\<close>

definition reset_stream :: "adapter \<Rightarrow> adapter" where
  "reset_stream st =
     st\<lparr>ad_events := [], ad_preserved := [], ad_sequence := 0, ad_control_pending := None, ad_question := None, ad_reply := None,
       ad_audio_reply := None\<rparr>"

definition drop_wire :: "adapter \<Rightarrow> adapter" where
  "drop_wire st = st\<lparr>ad_wire := None, ad_ready := False, ad_generation := ad_generation st + 1\<rparr>"

definition reconnect_session ::
  "provider_env \<Rightarrow> datetime \<Rightarrow> pystr \<times> pystr \<times> pystr \<Rightarrow> exn option \<Rightarrow> exn option \<Rightarrow> bytes res \<Rightarrow> exn option \<Rightarrow> bytes res \<Rightarrow> string
     \<Rightarrow> adapter \<Rightarrow> string res \<times> adapter" where
  "reconnect_session env now vars closing opened hello fail first fresh st =
     (case operation_allowed env now ''supports_session_reconnect'' st of
        Inl x \<Rightarrow> (Inl x, st)
      | Inr allowed \<Rightarrow>
          (let reuse = (allowed \<and> ad_dialog_id st \<noteq> []) in
           if reuse \<and> ad_wire st \<noteq> None \<and> closing \<noteq> None then (Inl (the closing), drop_wire st)
           else case create_connection env vars opened hello (ad_secret st) (reset_stream (if reuse then drop_wire st else finish_session None st)) of
             (Inl x, st1) \<Rightarrow> (Inl x, st1)
           | (Inr _, st1) \<Rightarrow>
               (case start_session env now fail first fresh (if reuse then Some (ad_dialog_id st) else None)
                   (if reuse then Some (ad_session_id st) else None) st1 of
                 (Inl x, st2) \<Rightarrow> (Inl x, st2)
               | (Inr _, st2) \<Rightarrow>
                   if reuse \<and> ad_dialog_id st2 \<noteq> ad_dialog_id st
                   then (Inl (provider_error ''evidence_invalid''), finish_session None st2)
                   else (Inr (if reuse then ''same_dialog'' else ''new_session_with_preamble''), st2))))"

definition get_usage :: "adapter \<Rightarrow> json option" where
  "get_usage st = ad_usage st"

end
