(* ===== verification/Backchannel.thy ===== *)
theory Backchannel
  imports Playback
begin

text \<open>
  The filter for short acknowledgements (\<open>realtime_voice_backchannel_service.py\<close>). While the companion speaks, a
  question the user opens is a candidate and the companion's output for it is held; a final text that only
  acknowledges blocks the question for good, anything else (a meaningful text, two seconds, 64 frames, 64 numbers)
  releases what was held in order.

  The callbacks become a list of effects in their order: an event let through, an event taken out (the gateway
  hands a text-free tombstone to the turn service), and the start of a deletion. The two-second timer is an action
  of its own that may come at any time; the lock of the filter makes every action atomic. Log lines and the counter
  port are left out, a callback that raises ends the session of the gateway.
\<close>

section \<open>Acknowledgements\<close>

definition ack_char :: "nat \<Rightarrow> bool" where
  "ack_char c \<longleftrightarrow> 48 \<le> c \<and> c \<le> 57 \<or> 65 \<le> c \<and> c \<le> 90 \<or> 97 \<le> c \<and> c \<le> 122 \<or> 0x3400 \<le> c \<and> c \<le> 0x9FFF"

text \<open>\<open>casefold\<close> of what \<open>ack_char\<close> leaves: only the Latin capitals change.\<close>

definition ack_lower :: "nat \<Rightarrow> nat" where
  "ack_lower c = (if 65 \<le> c \<and> c \<le> 90 then c + 32 else c)"

definition ack_text :: "pystr \<Rightarrow> pystr" where
  "ack_text t = map ack_lower (filter ack_char t)"

text \<open>\<open>fullmatch('(?:w1|w2|...)+', t)\<close>: some word begins the text and the rest is empty or matches again.\<close>

function spelled :: "pystr list \<Rightarrow> pystr \<Rightarrow> bool" where
  "spelled ws t = list_ex (\<lambda>w. if w \<noteq> [] \<and> take (length w) t = w then (if drop (length w) t = [] then True else spelled ws (drop (length w) t)) else False) ws"
  by pat_completeness auto
termination spelled
  by (relation "measure (\<lambda>(ws, t). length t)") (auto intro!: diff_less)

declare spelled.simps [simp del]

definition ack_tokens :: "pystr list \<Rightarrow> pystr list" where
  "ack_tokens ws = filter (\<lambda>w. w \<noteq> []) (map ack_text ws)"

definition pure_ack :: "pystr \<Rightarrow> pystr list \<Rightarrow> bool" where
  "pure_ack t ws \<longleftrightarrow> ack_text t \<noteq> [] \<and> ack_tokens ws \<noteq> [] \<and> spelled (ack_tokens ws) (ack_text t)"

section \<open>The filter\<close>

datatype bc_status = Candidate | Valid | Blocked

record 'e backchannel =
  bc_words :: "pystr list"
  bc_states :: "(pystr, bc_status) dict"
  bc_buffers :: "(pystr, 'e list) dict"
  bc_finished :: "pystr option list"
  bc_deleted :: "pystr list"
  bc_sid :: "string option"
  bc_closed :: bool

datatype 'e bc_effect = Passed 'e | Taken_out 'e | Delete_asked pystr

definition new_filter :: "pystr list \<Rightarrow> 'e backchannel" where
  "new_filter ws = \<lparr>bc_words = ws, bc_states = [], bc_buffers = [], bc_finished = [], bc_deleted = [], bc_sid = None, bc_closed = False\<rparr>"

definition bc_status_of :: "pystr option \<Rightarrow> 'e backchannel \<Rightarrow> bc_status option" where
  "bc_status_of q s = Option.bind q (map_of (bc_states s))"

definition held_frames :: "pystr \<Rightarrow> 'e backchannel \<Rightarrow> 'e list" where
  "held_frames q s = (case map_of (bc_buffers s) q of None \<Rightarrow> [] | Some es \<Rightarrow> es)"

definition set_bc :: "pystr \<Rightarrow> bc_status \<Rightarrow> 'e backchannel \<Rightarrow> 'e backchannel" where
  "set_bc q st s = s\<lparr>bc_states := AList.update q st (bc_states s)\<rparr>"

definition drop_frames :: "pystr \<Rightarrow> 'e backchannel \<Rightarrow> 'e backchannel" where
  "drop_frames q s = s\<lparr>bc_buffers := AList.delete q (bc_buffers s)\<rparr>"

text \<open>\<open>release\<close>\<close>

definition release_question :: "pystr \<Rightarrow> 'e backchannel \<Rightarrow> 'e bc_effect list \<times> 'e backchannel" where
  "release_question q s = (map Passed (held_frames q s), drop_frames q (set_bc q Valid s))"

definition timer_fired :: "pystr \<Rightarrow> 'e backchannel \<Rightarrow> 'e bc_effect list \<times> 'e backchannel" where
  "timer_fired q s = (if \<not> bc_closed s \<and> map_of (bc_states s) q = Some Candidate then release_question q s else ([], s))"

definition close_filter :: "'e backchannel \<Rightarrow> 'e backchannel" where
  "close_filter s = s\<lparr>bc_closed := True, bc_buffers := []\<rparr>"

definition schedule_delete :: "pystr \<Rightarrow> 'e backchannel \<Rightarrow> 'e bc_effect list \<times> 'e backchannel" where
  "schedule_delete q s =
     (if Some q \<in> set (bc_finished s) \<and> q \<notin> set (bc_deleted s) then ([Delete_asked q], s\<lparr>bc_deleted := bc_deleted s @ [q]\<rparr>) else ([], s))"

text \<open>A new session forgets everything that was held.\<close>

definition enter_session :: "string \<Rightarrow> 'e backchannel \<Rightarrow> 'e backchannel" where
  "enter_session sid s =
     (if bc_sid s \<noteq> None \<and> bc_sid s \<noteq> Some sid
      then s\<lparr>bc_states := [], bc_buffers := [], bc_finished := [], bc_deleted := [], bc_sid := Some sid\<rparr>
      else s\<lparr>bc_sid := Some sid\<rparr>)"

text \<open>Held frames may not fall 64 numbers behind.\<close>

definition late_frames :: "int \<Rightarrow> ('a provider_event_scheme) list \<Rightarrow> bool" where
  "late_frames n es \<longleftrightarrow> (case es of [] \<Rightarrow> False | e # _ \<Rightarrow> n - pe_sequence e \<ge> 64)"

definition release_late ::
  "int \<Rightarrow> 'a provider_event_scheme backchannel \<Rightarrow> 'a provider_event_scheme bc_effect list \<times> 'a provider_event_scheme backchannel" where
  "release_late n s =
     fold (\<lambda>(q, es) (outs, s'). if late_frames n es then (case release_question q s' of (o', s'') \<Rightarrow> (outs @ o', s'')) else (outs, s'))
       (bc_buffers s) ([], s)"

definition opens_candidate :: "pystr option \<Rightarrow> 'a provider_event_scheme \<Rightarrow> bool" where
  "opens_candidate playing e \<longleftrightarrow> pe_kind e = ''user_speech_started'' \<and> playing \<noteq> None \<and> playing \<noteq> Some [] \<and>
     pe_question_id e \<noteq> None \<and> pe_question_id e \<noteq> Some [] \<and> pe_question_id e \<noteq> playing"

definition open_candidate :: "pystr \<Rightarrow> 'e backchannel \<Rightarrow> 'e backchannel" where
  "open_candidate q s = (if map_of (bc_states s) q = None then set_bc q Candidate s else s)"

definition ack_payload :: "'e backchannel \<Rightarrow> ev_payload \<Rightarrow> bool" where
  "ack_payload s p = (case p of Text_payload t \<Rightarrow> pure_ack t (bc_words s) | _ \<Rightarrow> False)"

text \<open>The final text of a candidate decides it.\<close>

definition decide_candidate ::
  "pystr \<Rightarrow> 'a provider_event_scheme \<Rightarrow> 'a provider_event_scheme backchannel
     \<Rightarrow> 'a provider_event_scheme bc_effect list \<times> 'a provider_event_scheme backchannel" where
  "decide_candidate q e s =
     (if ack_payload s (pe_payload e)
      then (let frames = held_frames q s; (outs, s') = schedule_delete q (drop_frames q (set_bc q Blocked s)) in
            (map Taken_out frames @ outs, s'))
      else release_question q s)"

definition output_kinds :: "string list" where
  "output_kinds = [''chat_text'', ''sentence_started'', ''sentence_finished'', ''text_finished'', ''tts_audio'', ''tts_finished'']"

definition is_output :: "'a provider_event_scheme \<Rightarrow> bool" where
  "is_output e \<longleftrightarrow> pe_kind e \<in> set output_kinds"

definition own_speech :: "'a provider_event_scheme \<Rightarrow> bool" where
  "own_speech e \<longleftrightarrow> pe_kind e \<in> {''asr_interim'', ''asr_final'', ''user_speech_finished''}"

definition note_finished :: "'a provider_event_scheme \<Rightarrow> 'e backchannel \<Rightarrow> 'e backchannel" where
  "note_finished e s = (if pe_kind e = ''tts_finished'' then s\<lparr>bc_finished := pe_question_id e # bc_finished s\<rparr> else s)"

definition hold_frame ::
  "pystr \<Rightarrow> 'a provider_event_scheme \<Rightarrow> 'a provider_event_scheme backchannel
     \<Rightarrow> 'a provider_event_scheme bc_effect list \<times> 'a provider_event_scheme backchannel" where
  "hold_frame q e s =
     (let s' = s\<lparr>bc_buffers := AList.update q (held_frames q s @ [e]) (bc_buffers s)\<rparr> in
      if length (held_frames q s') \<ge> 64 then release_question q s' else ([], s'))"

text \<open>Where an event goes once its question's status is settled.\<close>

definition route_event ::
  "'a provider_event_scheme \<Rightarrow> 'a provider_event_scheme backchannel
     \<Rightarrow> 'a provider_event_scheme bc_effect list \<times> 'a provider_event_scheme backchannel" where
  "route_event e s =
     (case (pe_question_id e, bc_status_of (pe_question_id e) s) of
        (Some q, Some Candidate) \<Rightarrow> if is_output e then hold_frame q e s else ([Passed e], s)
      | (Some q, Some Blocked) \<Rightarrow>
          if is_output e \<or> own_speech e
          then (case (if pe_kind e = ''tts_finished'' then schedule_delete q s else ([], s)) of (outs, s') \<Rightarrow> (Taken_out e # outs, s'))
          else ([Passed e], s)
      | _ \<Rightarrow> ([Passed e], s))"

definition settle_final ::
  "'a provider_event_scheme \<Rightarrow> 'a provider_event_scheme backchannel
     \<Rightarrow> 'a provider_event_scheme bc_effect list \<times> 'a provider_event_scheme backchannel" where
  "settle_final e s =
     (case (pe_question_id e, bc_status_of (pe_question_id e) s) of
        (Some q, Some Candidate) \<Rightarrow> if pe_kind e = ''asr_final'' then decide_candidate q e s else ([], s)
      | _ \<Rightarrow> ([], s))"

text \<open>\<open>consume\<close>; an error leaves what was done before it.\<close>

definition consume_filter ::
  "pystr option \<Rightarrow> 'a provider_event_scheme \<Rightarrow> 'a provider_event_scheme backchannel
     \<Rightarrow> exn option \<times> 'a provider_event_scheme bc_effect list \<times> 'a provider_event_scheme backchannel" where
  "consume_filter playing e s =
     (if bc_closed s then (None, [], s)
      else let (o1, s1) = release_late (pe_sequence e) (enter_session (pe_session_id e) s) in
        if opens_candidate playing e \<and> length (bc_states s1) \<ge> 4096 then (Some (ValueError ''backchannel_turn_limit''), o1, s1)
        else let s2 = (if opens_candidate playing e then open_candidate (the (pe_question_id e)) s1 else s1);
                 (o2, s3) = settle_final e s2;
                 (o3, s4) = route_event e (note_finished e s3) in
             (None, o1 @ o2 @ o3, s4))"

end
