(* ===== verification/BackchannelClaims.thy ===== *)
theory BackchannelClaims
  imports Backchannel TurnClaims "HOL-Library.Multiset"
begin

text \<open>
  The promises of \<open>Backchannel\<close>: an acknowledgement is a sequence of the words, the output for a question that
  opened while the companion spoke comes through whole and in order or not at all, no event is lost or repeated,
  and what the filter holds never makes the turn service refuse an event.
\<close>

section \<open>The words\<close>

lemma spelled_iff: "spelled ws t \<longleftrightarrow> (\<exists>us. us \<noteq> [] \<and> set us \<subseteq> set ws \<and> [] \<notin> set us \<and> t = concat us)"
proof
  show "spelled ws t \<Longrightarrow> \<exists>us. us \<noteq> [] \<and> set us \<subseteq> set ws \<and> [] \<notin> set us \<and> t = concat us"
  proof (induction ws t rule: spelled.induct)
    case (1 ws t)
    from 1(2) obtain w where w: "w \<in> set ws" "w \<noteq> [] \<and> take (length w) t = w" "drop (length w) t = [] \<or> spelled ws (drop (length w) t)"
      by (subst (asm) spelled.simps) (auto simp: list_ex_iff split: if_splits)
    have t: "t = w @ drop (length w) t" using w(2) append_take_drop_id [of "length w" t] by simp
    show ?case
    proof (cases "drop (length w) t = []")
      case True
      with t w show ?thesis by (intro exI [of _ "[w]"]) auto
    next
      case False
      with w(3) have "spelled ws (drop (length w) t)" by simp
      from 1(1) [OF w(1,2) False this] obtain us where us: "us \<noteq> []" "set us \<subseteq> set ws" "[] \<notin> set us" "drop (length w) t = concat us" by blast
      with t w show ?thesis by (intro exI [of _ "w # us"]) auto
    qed
  qed
next
  have "us \<noteq> [] \<Longrightarrow> set us \<subseteq> set ws \<Longrightarrow> [] \<notin> set us \<Longrightarrow> spelled ws (concat us)" for us
  proof (induction us)
    case (Cons u us)
    have "us = [] \<or> spelled ws (concat us)" using Cons by auto
    moreover have "us = [] \<Longrightarrow> concat us = []" by simp
    ultimately show ?case
      by (subst spelled.simps) (use Cons.prems in \<open>auto simp: list_ex_iff intro!: bexI [of _ u]\<close>)
  qed simp
  then show "\<exists>us. us \<noteq> [] \<and> set us \<subseteq> set ws \<and> [] \<notin> set us \<and> t = concat us \<Longrightarrow> spelled ws t" by blast
qed

section \<open>Runs\<close>

datatype 'e bc_action = Event_in "pystr option" 'e | Timer pystr

fun filter_run ::
  "'a provider_event_scheme bc_action list \<Rightarrow> 'a provider_event_scheme backchannel
     \<Rightarrow> exn option \<times> 'a provider_event_scheme bc_effect list \<times> 'a provider_event_scheme backchannel" where
  "filter_run [] s = (None, [], s)"
| "filter_run (Timer q # acts) s = (case timer_fired q s of (o1, s1) \<Rightarrow> case filter_run acts s1 of (x, o2, s2) \<Rightarrow> (x, o1 @ o2, s2))"
| "filter_run (Event_in p e # acts) s =
     (case consume_filter p e s of
        (Some x, o1, s1) \<Rightarrow> (Some x, o1, s1)
      | (None, o1, s1) \<Rightarrow> (case filter_run acts s1 of (x, o2, s2) \<Rightarrow> (x, o1 @ o2, s2)))"

fun events_in :: "'e bc_action list \<Rightarrow> 'e list" where
  "events_in [] = []"
| "events_in (Event_in p e # acts) = e # events_in acts"
| "events_in (Timer q # acts) = events_in acts"

fun passed :: "'e bc_effect list \<Rightarrow> 'e list" where
  "passed [] = []"
| "passed (Passed e # os) = e # passed os"
| "passed (f # os) = passed os"

fun taken_out :: "'e bc_effect list \<Rightarrow> 'e list" where
  "taken_out [] = []"
| "taken_out (Taken_out e # os) = e # taken_out os"
| "taken_out (f # os) = taken_out os"

lemma passed_append [simp]: "passed (xs @ ys) = passed xs @ passed ys" "taken_out (xs @ ys) = taken_out xs @ taken_out ys"
  by (induction xs rule: passed.induct; simp)+

lemma passed_map [simp]: "passed (map Passed es) = es" "taken_out (map Passed es) = []" "passed (map Taken_out es) = []" "taken_out (map Taken_out es) = es"
  by (induction es; simp)+

section \<open>The invariant\<close>

text \<open>Only candidates hold frames, fewer than 64, each an output of its question.\<close>

definition outputs_of :: "pystr \<Rightarrow> 'a provider_event_scheme list \<Rightarrow> 'a provider_event_scheme list" where
  "outputs_of q es = filter (\<lambda>e. pe_question_id e = Some q \<and> is_output e) es"

definition bc_inv :: "'a provider_event_scheme backchannel \<Rightarrow> bool" where
  "bc_inv s \<longleftrightarrow> dict_wf (bc_states s) \<and> dict_wf (bc_buffers s) \<and>
     (\<forall>q es. map_of (bc_buffers s) q = Some es \<longrightarrow> map_of (bc_states s) q = Some Candidate \<and> length es < 64 \<and> outputs_of q es = es)"

lemma outputs_of_append [simp]: "outputs_of q (xs @ ys) = outputs_of q xs @ outputs_of q ys" "outputs_of q [] = []"
  by (simp_all add: outputs_of_def)

lemma outputs_of_other: "outputs_of q es = es \<Longrightarrow> q' \<noteq> q \<Longrightarrow> outputs_of q' es = []"
  by (auto simp: outputs_of_def filter_empty_conv filter_id_conv)

lemma bc_inv_held: "bc_inv s \<Longrightarrow> outputs_of q (held_frames q s) = held_frames q s"
  by (auto simp: bc_inv_def held_frames_def split: option.splits)

lemma bc_inv_other: "bc_inv s \<Longrightarrow> q' \<noteq> q \<Longrightarrow> outputs_of q' (held_frames q s) = []"
  by (rule outputs_of_other [OF bc_inv_held])

lemma bc_inv_free: "bc_inv s \<Longrightarrow> map_of (bc_states s) q \<noteq> Some Candidate \<Longrightarrow> held_frames q s = []"
  by (auto simp: bc_inv_def held_frames_def split: option.splits)

lemma new_filter_inv: "bc_inv (new_filter ws)"
  by (simp add: bc_inv_def new_filter_def)

text \<open>How one question's output moves: what arrived is held, passed or taken out, as its status says.\<close>

definition question_step ::
  "pystr \<Rightarrow> 'a provider_event_scheme backchannel \<Rightarrow> 'a provider_event_scheme list \<Rightarrow> 'a provider_event_scheme bc_effect list
     \<Rightarrow> 'a provider_event_scheme backchannel \<Rightarrow> bool" where
  "question_step q s arrived outs s' \<longleftrightarrow>
     (case (map_of (bc_states s) q, map_of (bc_states s') q) of
        (Some Candidate, Some Candidate) \<Rightarrow> outputs_of q (passed outs) = [] \<and> outputs_of q (taken_out outs) = [] \<and> held_frames q s' = held_frames q s @ arrived
      | (Some Candidate, Some Valid) \<Rightarrow> outputs_of q (passed outs) = held_frames q s @ arrived \<and> outputs_of q (taken_out outs) = [] \<and> held_frames q s' = []
      | (Some Candidate, Some Blocked) \<Rightarrow> outputs_of q (passed outs) = [] \<and> outputs_of q (taken_out outs) = held_frames q s @ arrived \<and> held_frames q s' = []
      | (Some Valid, Some Valid) \<Rightarrow> outputs_of q (passed outs) = arrived \<and> outputs_of q (taken_out outs) = [] \<and> held_frames q s' = []
      | (Some Blocked, Some Blocked) \<Rightarrow> outputs_of q (passed outs) = [] \<and> outputs_of q (taken_out outs) = arrived \<and> held_frames q s' = []
      | (None, _) \<Rightarrow> True
      | _ \<Rightarrow> False)"

lemma question_step_trans:
  assumes "question_step q s a1 o1 s1" "question_step q s1 a2 o2 s2" "map_of (bc_states s) q \<noteq> None"
  shows "question_step q s (a1 @ a2) (o1 @ o2) s2"
proof -
  have h: "map_of (bc_states s1) q \<noteq> Some Candidate \<Longrightarrow> map_of (bc_states s) q \<noteq> None \<Longrightarrow> held_frames q s1 = []"
    using assms(1) by (auto simp: question_step_def split: option.splits bc_status.splits)
  show ?thesis
    using assms h by (auto simp: question_step_def split: option.splits bc_status.splits)
qed

lemma question_step_idle:
  assumes "map_of (bc_states s') q = map_of (bc_states s) q" "held_frames q s' = held_frames q s" "bc_inv s"
    "outputs_of q (passed outs) = []" "outputs_of q (taken_out outs) = []"
  shows "question_step q s [] outs s'"
  using assms bc_inv_free [OF assms(3), of q] by (auto simp: question_step_def split: option.splits bc_status.splits)

section \<open>Nothing is lost\<close>

definition all_held :: "'e backchannel \<Rightarrow> 'e list" where
  "all_held s = concat (map snd (bc_buffers s))"

definition frames_at :: "pystr \<Rightarrow> (pystr, 'e list) dict \<Rightarrow> 'e list" where
  "frames_at q b = (case map_of b q of None \<Rightarrow> [] | Some es \<Rightarrow> es)"

lemma delete_absent: "q \<notin> fst ` set b \<Longrightarrow> AList.delete q b = b"
  by (induction b) (auto simp: image_iff)

lemma held_delete:
  "dict_wf b \<Longrightarrow> mset (concat (map snd b)) = mset (frames_at q b) + mset (concat (map snd (AList.delete q b)))"
proof (induction b)
  case (Cons kv b)
  obtain k v where kv: "kv = (k, v)" by fastforce
  show ?case
  proof (cases "k = q")
    case True
    then have "q \<notin> fst ` set b" using Cons.prems by (simp add: kv dict_wf_def)
    then show ?thesis using True by (simp add: kv frames_at_def delete_absent)
  next
    case False
    then show ?thesis using Cons by (simp add: kv frames_at_def dict_wf_def)
  qed
qed (simp add: frames_at_def)

lemma held_update:
  "dict_wf b \<Longrightarrow> mset (concat (map snd (AList.update q v b))) = mset v + mset (concat (map snd (AList.delete q b)))"
proof (induction b)
  case (Cons kv b)
  obtain k w where kv: "kv = (k, w)" by fastforce
  show ?case
  proof (cases "k = q")
    case True
    then have "q \<notin> fst ` set b" using Cons.prems by (simp add: kv dict_wf_def)
    then show ?thesis using True by (simp add: kv delete_absent)
  next
    case False
    then show ?thesis using Cons by (simp add: kv dict_wf_def)
  qed
qed simp

text \<open>What one operation of the filter does to the events that arrived.\<close>

definition bc_step ::
  "'a provider_event_scheme backchannel \<Rightarrow> 'a provider_event_scheme list \<Rightarrow> 'a provider_event_scheme bc_effect list
     \<Rightarrow> 'a provider_event_scheme backchannel \<Rightarrow> bool" where
  "bc_step s arrived outs s' \<longleftrightarrow> bc_inv s' \<and> (\<forall>q. question_step q s (outputs_of q arrived) outs s') \<and>
     mset (passed outs) + mset (taken_out outs) + mset (all_held s') = mset (all_held s) + mset arrived \<and>
     bc_sid s' = bc_sid s \<and> bc_closed s' = bc_closed s \<and> bc_words s' = bc_words s"

lemma bc_step_trans:
  assumes "bc_step s a1 o1 s1" "bc_step s1 a2 o2 s2"
  shows "bc_step s (a1 @ a2) (o1 @ o2) s2"
proof -
  have "question_step q s (outputs_of q (a1 @ a2)) (o1 @ o2) s2" for q
  proof (cases "map_of (bc_states s) q")
    case None
    then show ?thesis by (simp add: question_step_def)
  next
    case (Some st)
    then show ?thesis using assms question_step_trans [of q s "outputs_of q a1" o1 s1 "outputs_of q a2" o2 s2] by (simp add: bc_step_def)
  qed
  moreover have "mset (passed (o1 @ o2)) + mset (taken_out (o1 @ o2)) + mset (all_held s2) = mset (all_held s) + mset (a1 @ a2)"
  proof -
    have "mset (passed (o1 @ o2)) + mset (taken_out (o1 @ o2)) + mset (all_held s2) =
      mset (passed o1) + mset (taken_out o1) + (mset (passed o2) + mset (taken_out o2) + mset (all_held s2))" by (simp add: ac_simps)
    also have "\<dots> = (mset (passed o1) + mset (taken_out o1) + mset (all_held s1)) + mset a2" using assms(2) by (simp add: bc_step_def ac_simps)
    also have "\<dots> = mset (all_held s) + mset (a1 @ a2)" using assms(1) by (simp add: bc_step_def ac_simps)
    finally show ?thesis .
  qed
  ultimately show ?thesis using assms by (simp add: bc_step_def)
qed

lemma bc_step_refl: "bc_inv s \<Longrightarrow> bc_step s [] [] s"
  by (simp add: bc_step_def question_step_idle)

section \<open>The operations\<close>

lemma held_simps [simp]:
  "held_frames q (set_bc q' st s) = held_frames q s"
  "held_frames q (drop_frames q' s) = (if q = q' then [] else held_frames q s)"
  "map_of (bc_states (set_bc q' st s)) q = (if q = q' then Some st else map_of (bc_states s) q)"
  "bc_states (drop_frames q' s) = bc_states s" "bc_buffers (set_bc q' st s) = bc_buffers s"
  "bc_sid (set_bc q' st s) = bc_sid s" "bc_sid (drop_frames q' s) = bc_sid s"
  "bc_closed (set_bc q' st s) = bc_closed s" "bc_closed (drop_frames q' s) = bc_closed s"
  "bc_words (set_bc q' st s) = bc_words s" "bc_words (drop_frames q' s) = bc_words s"
  "bc_finished (set_bc q' st s) = bc_finished s" "bc_finished (drop_frames q' s) = bc_finished s"
  by (simp_all add: set_bc_def drop_frames_def held_frames_def update_conv' delete_conv')

lemma all_held_drop:
  "dict_wf (bc_buffers s) \<Longrightarrow> mset (held_frames q s) + mset (all_held (drop_frames q (set_bc q st s))) = mset (all_held s)"
  using held_delete [of "bc_buffers s" q] by (simp add: all_held_def drop_frames_def set_bc_def held_frames_def frames_at_def)

lemma bc_inv_drop: "bc_inv s \<Longrightarrow> bc_inv (drop_frames q (set_bc q st s))"
  by (auto simp: bc_inv_def drop_frames_def set_bc_def delete_conv' update_conv' split: if_splits)

lemma release_step:
  assumes "bc_inv s" "map_of (bc_states s) q = Some Candidate" "release_question q s = (outs, s')"
  shows "bc_step s [] outs s'"
proof -
  have o: "outs = map Passed (held_frames q s)" and s': "s' = drop_frames q (set_bc q Valid s)"
    using assms(3) by (simp_all add: release_question_def)
  have "question_step r s [] outs s'" for r
  proof (cases "r = q")
    case True
    then show ?thesis using assms bc_inv_held [OF assms(1)] by (simp add: question_step_def o s')
  next
    case False
    show ?thesis
      by (rule question_step_idle) (use False bc_inv_other [OF assms(1) False] assms(1) in \<open>simp_all add: o s'\<close>)
  qed
  then show ?thesis using bc_inv_drop [OF assms(1)] all_held_drop [of s q Valid] assms(1) by (simp add: bc_step_def o s' bc_inv_def)
qed

lemma block_step:
  assumes "bc_inv s" "map_of (bc_states s) q = Some Candidate"
  shows "bc_step s [] (map Taken_out (held_frames q s)) (drop_frames q (set_bc q Blocked s))"
proof -
  let ?o = "map Taken_out (held_frames q s)" and ?s = "drop_frames q (set_bc q Blocked s)"
  have "question_step r s [] ?o ?s" for r
  proof (cases "r = q")
    case True
    then show ?thesis using assms bc_inv_held [OF assms(1)] by (simp add: question_step_def)
  next
    case False
    show ?thesis by (rule question_step_idle) (use False bc_inv_other [OF assms(1) False] assms(1) in simp_all)
  qed
  then show ?thesis using bc_inv_drop [OF assms(1)] all_held_drop [of s q Blocked] assms(1) by (simp add: bc_step_def bc_inv_def)
qed

text \<open>Changes beside statuses and buffers are no step at all.\<close>

lemma bc_step_same:
  assumes "bc_inv s" "bc_states s' = bc_states s" "bc_buffers s' = bc_buffers s" "bc_sid s' = bc_sid s" "bc_closed s' = bc_closed s" "bc_words s' = bc_words s"
    "passed outs = []" "taken_out outs = []"
  shows "bc_step s [] outs s'"
proof -
  have h: "held_frames q s' = held_frames q s" for q using assms(3) by (simp add: held_frames_def)
  have "question_step q s [] outs s'" for q
    by (rule question_step_idle) (use assms h in simp_all)
  then show ?thesis using assms by (simp add: bc_step_def bc_inv_def all_held_def)
qed

lemma schedule_delete_step: "bc_inv s \<Longrightarrow> schedule_delete q s = (outs, s') \<Longrightarrow> bc_step s [] outs s'"
  by (rule bc_step_same) (auto simp: schedule_delete_def split: if_splits)

lemma timer_step: "bc_inv s \<Longrightarrow> timer_fired q s = (outs, s') \<Longrightarrow> bc_step s [] outs s'"
  using bc_step_refl [of s] by (auto simp: timer_fired_def dest: release_step split: if_splits)

lemma open_candidate_step:
  assumes "bc_inv s"
  shows "bc_step s [] [] (open_candidate q s)"
proof (cases "map_of (bc_states s) q = None")
  case True
  have h: "held_frames q s = []" using bc_inv_free [OF assms] True by simp
  have "question_step r s [] [] (open_candidate q s)" for r
  proof (cases "r = q")
    case True
    then show ?thesis using \<open>map_of (bc_states s) q = None\<close> by (simp add: question_step_def)
  next
    case False
    show ?thesis by (rule question_step_idle) (use False True assms in \<open>simp_all add: open_candidate_def\<close>)
  qed
  moreover have "bc_inv (open_candidate q s)"
    using assms True by (auto simp: bc_inv_def open_candidate_def set_bc_def update_conv')
  ultimately show ?thesis using True by (simp add: bc_step_def open_candidate_def all_held_def)
next
  case False
  then show ?thesis using bc_step_refl [OF assms] unfolding open_candidate_def by (simp only: if_False)
qed

lemma decide_step:
  assumes "bc_inv s" "map_of (bc_states s) q = Some Candidate" "decide_candidate q e s = (outs, s')"
  shows "bc_step s [] outs s'"
proof (cases "ack_payload s (pe_payload e)")
  case True
  note b = block_step [OF assms(1,2)]
  have i: "bc_inv (drop_frames q (set_bc q Blocked s))" using b by (simp add: bc_step_def)
  obtain o2 s2 where d: "schedule_delete q (drop_frames q (set_bc q Blocked s)) = (o2, s2)" by fastforce
  have "outs = map Taken_out (held_frames q s) @ o2" "s' = s2" using assms(3) True d by (simp_all add: decide_candidate_def Let_def)
  then show ?thesis using bc_step_trans [OF b schedule_delete_step [OF i d]] by simp
next
  case False
  then show ?thesis using assms release_step by (simp add: decide_candidate_def)
qed

lemma settle_final_step: "bc_inv s \<Longrightarrow> settle_final e s = (outs, s') \<Longrightarrow> bc_step s [] outs s'"
  using bc_step_refl [of s]
  by (auto simp: settle_final_def bc_status_of_def dest: decide_step split: option.splits bc_status.splits if_splits bind_splits)

lemma hold_step:
  assumes "bc_inv s" "map_of (bc_states s) q = Some Candidate" "pe_question_id e = Some q" "is_output e" "hold_frame q e s = (outs, s')"
  shows "bc_step s [e] outs s'"
proof -
  let ?h = "held_frames q s @ [e]"
  define s1 where "s1 = s\<lparr>bc_buffers := AList.update q ?h (bc_buffers s)\<rparr>"
  have h1: "held_frames r s1 = (if r = q then ?h else held_frames r s)" for r by (simp add: s1_def held_frames_def update_conv')
  have st1: "bc_states s1 = bc_states s" by (simp add: s1_def)
  have oh: "outputs_of q ?h = ?h" using bc_inv_held [OF assms(1), of q] assms(3,4) by (simp add: outputs_of_def)
  have oq: "outputs_of r [e] = (if r = q then [e] else [])" for r using assms(3,4) by (simp add: outputs_of_def)
  have m: "mset (all_held s1) = mset (all_held s) + {#e#}"
    using held_update [of "bc_buffers s" q ?h] held_delete [of "bc_buffers s" q] assms(1)
    by (simp add: all_held_def s1_def held_frames_def frames_at_def bc_inv_def ac_simps)
  show ?thesis
  proof (cases "length ?h \<ge> 64")
    case True
    have o: "outs = map Passed ?h" and s': "s' = drop_frames q (set_bc q Valid s1)"
      using assms(5) True by (simp_all add: hold_frame_def Let_def s1_def [symmetric] h1 release_question_def)
    have "question_step r s (outputs_of r [e]) outs s'" for r
    proof (cases "r = q")
      case True
      then show ?thesis using assms(2) oh by (simp add: question_step_def o s' oq)
    next
      case False
      have "outputs_of r ?h = []" by (rule outputs_of_other [OF oh False])
      then show ?thesis using False question_step_idle [of s' r s outs] assms(1) by (simp add: o s' oq h1 st1)
    qed
    moreover have "bc_inv s'"
      using assms(1) by (auto simp: bc_inv_def s' s1_def drop_frames_def set_bc_def delete_conv' update_conv' split: if_splits)
    moreover have "mset (held_frames q s1) + mset (all_held s') = mset (all_held s1)"
      unfolding s' by (rule all_held_drop) (use assms(1) in \<open>simp add: s1_def bc_inv_def\<close>)
    ultimately show ?thesis using m by (simp add: bc_step_def o h1) (simp add: s' s1_def)
  next
    case False
    have o: "outs = []" and s': "s' = s1"
      using assms(5) False by (simp_all add: hold_frame_def Let_def s1_def [symmetric] h1)
    have "question_step r s (outputs_of r [e]) outs s'" for r
    proof (cases "r = q")
      case True
      then show ?thesis using assms(2) by (simp add: question_step_def o s' oq h1 st1)
    next
      case False
      then show ?thesis using question_step_idle [of s' r s outs] assms(1) by (simp add: o s' oq h1 st1)
    qed
    moreover have "bc_inv s'"
      unfolding bc_inv_def
    proof (intro conjI allI impI)
      fix r es assume "map_of (bc_buffers s') r = Some es"
      then have es: "es = (if r = q then ?h else held_frames r s)" "r \<noteq> q \<Longrightarrow> map_of (bc_buffers s) r = Some es"
        by (auto simp: s' s1_def update_conv' held_frames_def split: if_splits)
      show "map_of (bc_states s') r = Some Candidate" "length es < 64" "outputs_of r es = es"
        using es assms(1,2) oh False by (cases "r = q"; auto simp: s' s1_def bc_inv_def)+
    qed (use assms(1) in \<open>simp_all add: s' s1_def bc_inv_def\<close>)
    ultimately show ?thesis using m by (simp add: bc_step_def o s') (simp add: s1_def)
  qed
qed

text \<open>An event that goes straight on: it is passed, or taken out of a blocked question.\<close>

lemma straight_step:
  assumes "bc_inv s" "passed outs @ taken_out outs = [e]"
    "\<And>q. pe_question_id e = Some q \<Longrightarrow> is_output e \<Longrightarrow> map_of (bc_states s) q \<noteq> Some Candidate \<and>
       (map_of (bc_states s) q = Some Blocked \<longleftrightarrow> taken_out outs = [e])"
  shows "bc_step s [e] outs s"
proof -
  have m: "mset (passed outs) + mset (taken_out outs) = {#e#}" using assms(2) by (metis mset_append mset_single_iff_right)
  have p: "passed outs = [e] \<and> taken_out outs = [] \<or> passed outs = [] \<and> taken_out outs = [e]"
    using assms(2) by (cases "passed outs") auto
  have "question_step r s (outputs_of r [e]) outs s" for r
  proof (cases "pe_question_id e = Some r \<and> is_output e")
    case True
    with assms(3) [of r] p bc_inv_free [OF assms(1), of r] show ?thesis
      by (cases "map_of (bc_states s) r"; cases "the (map_of (bc_states s) r)") (auto simp: question_step_def outputs_of_def)
  next
    case False
    have n: "outputs_of r [e] = []" using False by (auto simp: outputs_of_def)
    with p have "outputs_of r (passed outs) = []" "outputs_of r (taken_out outs) = []" by auto
    with question_step_idle [of s r s outs] assms(1) show ?thesis by (simp add: n)
  qed
  with assms(1) m show ?thesis by (simp add: bc_step_def ac_simps)
qed

lemma route_step:
  assumes "bc_inv s" "route_event e s = (outs, s')"
  shows "bc_step s [e] outs s'"
proof (cases "\<exists>q. pe_question_id e = Some q \<and> (map_of (bc_states s) q = Some Candidate \<and> is_output e \<or> map_of (bc_states s) q = Some Blocked \<and> (is_output e \<or> own_speech e))")
  case False
  have o: "outs = [Passed e]" "s' = s"
    using assms(2) False by (auto simp: route_event_def bc_status_of_def split: option.splits bc_status.splits if_splits bind_splits)
  show ?thesis unfolding o by (rule straight_step [OF assms(1)]) (use False in auto)
next
  case True
  then obtain q where q: "pe_question_id e = Some q"
    and st: "map_of (bc_states s) q = Some Candidate \<and> is_output e \<or> map_of (bc_states s) q = Some Blocked \<and> (is_output e \<or> own_speech e)" by blast
  from st show ?thesis
  proof
    assume "map_of (bc_states s) q = Some Candidate \<and> is_output e"
    then have c: "map_of (bc_states s) q = Some Candidate" and o: "is_output e" by auto
    have "hold_frame q e s = (outs, s')" using assms(2) q c o by (simp add: route_event_def bc_status_of_def)
    from hold_step [OF assms(1) c q o this] show ?thesis .
  next
    assume "map_of (bc_states s) q = Some Blocked \<and> (is_output e \<or> own_speech e)"
    then have b: "map_of (bc_states s) q = Some Blocked" and k: "is_output e \<or> own_speech e" by auto
    obtain o1 where o1: "(if pe_kind e = ''tts_finished'' then schedule_delete q s else ([], s)) = (o1, s')" and outs: "outs = Taken_out e # o1"
      using assms(2) q b k by (auto simp: route_event_def bc_status_of_def split: prod.splits)
    have d: "bc_step s [] o1 s'"
      using o1 schedule_delete_step [OF assms(1)] bc_step_refl [OF assms(1)] by (auto split: if_splits)
    have "bc_step s [e] [Taken_out e] s" by (rule straight_step [OF assms(1)]) (use q b in auto)
    from bc_step_trans [OF this d] show ?thesis by (simp add: outs)
  qed
qed

text \<open>The loop over the held questions, on a part of them.\<close>

definition release_some ::
  "int \<Rightarrow> (pystr \<times> 'a provider_event_scheme list) list \<Rightarrow> 'a provider_event_scheme bc_effect list \<times> 'a provider_event_scheme backchannel
     \<Rightarrow> 'a provider_event_scheme bc_effect list \<times> 'a provider_event_scheme backchannel" where
  "release_some n b acc =
     fold (\<lambda>(q, es) (outs, s'). if late_frames n es then (case release_question q s' of (o', s'') \<Rightarrow> (outs @ o', s'')) else (outs, s')) b acc"

lemma release_some_step:
  assumes "release_some n b (o0, s) = (outs, s')" "bc_inv s" "distinct (map fst b)" "\<forall>(q, es) \<in> set b. map_of (bc_buffers s) q = Some es"
  shows "\<exists>o1. outs = o0 @ o1 \<and> bc_step s [] o1 s' \<and> (\<forall>q \<in> fst ` set b. \<not> late_frames n (held_frames q s')) \<and>
    (\<forall>q. held_frames q s' = [] \<or> held_frames q s' = held_frames q s) \<and> (\<forall>q. q \<notin> fst ` set b \<longrightarrow> held_frames q s' = held_frames q s)"
  using assms
proof (induction b arbitrary: o0 s)
  case Nil
  then show ?case using bc_step_refl [OF Nil.prems(2)] by (simp add: release_some_def)
next
  case (Cons kv b)
  obtain q es where kv: "kv = (q, es)" by fastforce
  have m: "map_of (bc_buffers s) q = Some es" using Cons.prems(4) by (simp add: kv)
  hence h: "held_frames q s = es" by (simp add: held_frames_def)
  have nb: "q \<notin> fst ` set b" "distinct (map fst b)" using Cons.prems(3) by (auto simp: kv)
  show ?case
  proof (cases "late_frames n es")
    case True
    obtain o1 s1 where r: "release_question q s = (o1, s1)" by fastforce
    have c: "map_of (bc_states s) q = Some Candidate" using Cons.prems(2) m by (auto simp: bc_inv_def)
    note S = release_step [OF Cons.prems(2) c r]
    have s1: "s1 = drop_frames q (set_bc q Valid s)" using r by (simp add: release_question_def)
    have i1: "bc_inv s1" using S by (simp add: bc_step_def)
    have k: "\<forall>(p, fs) \<in> set b. map_of (bc_buffers s1) p = Some fs"
    proof (clarify)
      fix p fs assume "(p, fs) \<in> set b"
      moreover from this have "p \<noteq> q" using nb(1) by (force simp: image_iff)
      ultimately show "map_of (bc_buffers s1) p = Some fs" using Cons.prems(4) by (auto simp: s1 drop_frames_def set_bc_def delete_conv')
    qed
    have f: "release_some n b (o0 @ o1, s1) = (outs, s')" using Cons.prems(1) True r by (simp add: release_some_def kv)
    from Cons.IH [OF f i1 nb(2) k] obtain o2 where I: "outs = (o0 @ o1) @ o2" "bc_step s1 [] o2 s'" "\<forall>q \<in> fst ` set b. \<not> late_frames n (held_frames q s')"
      "\<forall>q. held_frames q s' = [] \<or> held_frames q s' = held_frames q s1" "\<forall>q. q \<notin> fst ` set b \<longrightarrow> held_frames q s' = held_frames q s1" by blast
    have t: "bc_step s [] (o1 @ o2) s'" using bc_step_trans [OF S I(2)] by simp
    have g: "held_frames p s1 = (if p = q then [] else held_frames p s)" for p by (simp add: s1)
    have hq: "held_frames q s' = []" using I(5) nb(1) g by simp
    have "\<forall>p. held_frames p s' = [] \<or> held_frames p s' = held_frames p s" using I(4) g by metis
    moreover have "\<forall>p. p \<notin> fst ` set (kv # b) \<longrightarrow> held_frames p s' = held_frames p s" using I(5) g by (auto simp: kv)
    moreover have "\<forall>p \<in> fst ` set (kv # b). \<not> late_frames n (held_frames p s')" using I(3) hq by (simp add: kv late_frames_def)
    ultimately show ?thesis using t I(1) by (intro exI [of _ "o1 @ o2"]) simp
  next
    case False
    have f: "release_some n b (o0, s) = (outs, s')" using Cons.prems(1) False by (simp add: release_some_def kv)
    from Cons.IH [OF f Cons.prems(2) nb(2)] Cons.prems(4) obtain o2 where I: "outs = o0 @ o2" "bc_step s [] o2 s'" "\<forall>q \<in> fst ` set b. \<not> late_frames n (held_frames q s')"
      "\<forall>q. held_frames q s' = [] \<or> held_frames q s' = held_frames q s" "\<forall>q. q \<notin> fst ` set b \<longrightarrow> held_frames q s' = held_frames q s" by (auto simp: kv)
    have "\<not> late_frames n (held_frames q s')" using I(5) nb(1) h False by simp
    with I show ?thesis by (auto simp: kv)
  qed
qed

lemma release_late_step:
  assumes "bc_inv s" "release_late n s = (outs, s')"
  shows "bc_step s [] outs s'" "\<not> late_frames n (held_frames q s')" "held_frames q s' = [] \<or> held_frames q s' = held_frames q s"
proof -
  have f: "release_some n (bc_buffers s) ([], s) = (outs, s')" using assms(2) by (simp add: release_late_def release_some_def)
  have d: "distinct (map fst (bc_buffers s))" using assms(1) by (simp add: bc_inv_def dict_wf_def)
  have k: "\<forall>(q, es) \<in> set (bc_buffers s). map_of (bc_buffers s) q = Some es" using d by auto
  note R = release_some_step [OF f assms(1) d k]
  show "bc_step s [] outs s'" using R by auto
  show "held_frames q s' = [] \<or> held_frames q s' = held_frames q s" using R by blast
  show "\<not> late_frames n (held_frames q s')"
  proof (cases "q \<in> fst ` set (bc_buffers s)")
    case False
    hence "held_frames q s = []" by (auto simp: held_frames_def split: option.splits dest: map_of_SomeD intro: rev_image_eqI)
    with R have "held_frames q s' = []" by metis
    then show ?thesis by (simp add: late_frames_def)
  qed (use R in blast)
qed

text \<open>A whole event within one session.\<close>

lemma consume_filter_parts:
  assumes "consume_filter p e s = (None, outs, s')" "\<not> bc_closed s" "bc_inv s" "bc_sid s = None \<or> bc_sid s = Some (pe_session_id e)"
  obtains o1 s1 o2 s3 o3 where "release_late (pe_sequence e) (s\<lparr>bc_sid := Some (pe_session_id e)\<rparr>) = (o1, s1)"
    "settle_final e (if opens_candidate p e then open_candidate (the (pe_question_id e)) s1 else s1) = (o2, s3)"
    "route_event e (note_finished e s3) = (o3, s')" "outs = o1 @ o2 @ o3"
proof -
  have n: "enter_session (pe_session_id e) s = s\<lparr>bc_sid := Some (pe_session_id e)\<rparr>" using assms(4) by (auto simp: enter_session_def)
  obtain o1 s1 where r: "release_late (pe_sequence e) (s\<lparr>bc_sid := Some (pe_session_id e)\<rparr>) = (o1, s1)" by fastforce
  have ne: "\<not> (opens_candidate p e \<and> length (bc_states s1) \<ge> 4096)" using assms(1,2) n r by (auto simp: consume_filter_def)
  obtain o2 s3 where f: "settle_final e (if opens_candidate p e then open_candidate (the (pe_question_id e)) s1 else s1) = (o2, s3)" by fastforce
  obtain o3 s4 where g: "route_event e (note_finished e s3) = (o3, s4)" by fastforce
  have "outs = o1 @ o2 @ o3" "s' = s4"
    using assms(1,2) n r ne f g by (simp_all add: consume_filter_def Let_def)
  with that r f g show ?thesis by blast
qed

lemma note_finished_step: "bc_inv s \<Longrightarrow> bc_step s [] [] (note_finished e s)"
  by (rule bc_step_same) (simp_all add: note_finished_def)

lemma bc_inv_sid: "bc_inv s \<Longrightarrow> bc_inv (s\<lparr>bc_sid := x\<rparr>)"
  by (simp add: bc_inv_def)

lemma bc_step_sid: "bc_step (s\<lparr>bc_sid := bc_sid s\<rparr>) a outs s' = bc_step s a outs s'"
  by simp

lemma consume_filter_step:
  assumes "consume_filter p e s = (None, outs, s')" "\<not> bc_closed s" "bc_inv s" "bc_sid s = Some (pe_session_id e)"
  shows "bc_step s [e] outs s'"
proof -
  have e: "s\<lparr>bc_sid := Some (pe_session_id e)\<rparr> = s" using assms(4) by simp
  from assms(4) consume_filter_parts [OF assms(1-3)] obtain o1 s1 o2 s3 o3 where
    P: "release_late (pe_sequence e) s = (o1, s1)"
    "settle_final e (if opens_candidate p e then open_candidate (the (pe_question_id e)) s1 else s1) = (o2, s3)"
    "route_event e (note_finished e s3) = (o3, s')" "outs = o1 @ o2 @ o3"
    by (metis e)
  let ?s2 = "if opens_candidate p e then open_candidate (the (pe_question_id e)) s1 else s1"
  have i: "bc_inv t" if "bc_step u a oo t" for u a oo t using that by (simp add: bc_step_def)
  note A = release_late_step(1) [OF assms(3) P(1)]
  have B: "bc_step s1 [] [] ?s2" using open_candidate_step [OF i [OF A]] bc_step_refl [OF i [OF A]] by simp
  note C = settle_final_step [OF i [OF B] P(2)]
  note D = note_finished_step [OF i [OF C], of e]
  note E = route_step [OF i [OF D] P(3)]
  from bc_step_trans [OF A bc_step_trans [OF B bc_step_trans [OF C bc_step_trans [OF D E]]]] show ?thesis by (simp add: P(4))
qed

lemma filter_run_step:
  assumes "filter_run acts s = (None, outs, s')" "\<not> bc_closed s" "bc_inv s" "bc_sid s = Some sid" "\<forall>e \<in> set (events_in acts). pe_session_id e = sid"
  shows "bc_step s (events_in acts) outs s'"
  using assms
proof (induction acts s arbitrary: outs rule: filter_run.induct)
  case (1 s)
  then show ?case using bc_step_refl by simp
next
  case (2 q acts s)
  obtain o1 s1 where t: "timer_fired q s = (o1, s1)" by fastforce
  obtain o2 where r: "filter_run acts s1 = (None, o2, s')" "outs = o1 @ o2" using 2(2) t by (auto split: prod.splits)
  note S = timer_step [OF 2(4) t]
  have "bc_step s1 (events_in acts) o2 s'"
    by (rule 2(1) [OF t [symmetric] r(1)]) (use S 2(3,5,6) in \<open>simp_all add: bc_step_def\<close>)
  from bc_step_trans [OF S this] show ?case by (simp add: r(2))
next
  case (3 p e acts s)
  obtain o1 s1 where c: "consume_filter p e s = (None, o1, s1)" using 3(2) by (auto split: prod.splits option.splits)
  obtain o2 where r: "filter_run acts s1 = (None, o2, s')" "outs = o1 @ o2" using 3(2) c by (auto split: prod.splits)
  have e: "bc_sid s = Some (pe_session_id e)" using 3(5,6) by simp
  note S = consume_filter_step [OF c 3(3,4) e]
  have "bc_step s1 (events_in acts) o2 s'"
    by (rule 3(1) [OF c [symmetric] refl refl r(1)]) (use S 3(3,5,6) in \<open>simp_all add: bc_step_def\<close>)
  from bc_step_trans [OF S this] show ?case by (simp add: r(2))
qed

section \<open>Whole or not at all\<close>

text \<open>C8: The companion's output for a question that opened while it spoke comes through whole or not at all. From the moment
  a question is a candidate, whatever events of the session and timers follow in any order, its output events are all
  still held, or all passed in the order they arrived, or all taken out and none passed; which of the three is told by the
  question's status, and once decided it stays.\<close>

theorem question_output_whole_or_nothing:
  assumes "filter_run acts s = (None, outs, s')" "\<not> bc_closed s" "bc_inv s" "bc_sid s = Some sid"
    "\<forall>e \<in> set (events_in acts). pe_session_id e = sid" "map_of (bc_states s) q = Some Candidate" "held_frames q s = []"
  shows "case map_of (bc_states s') q of
      Some Candidate \<Rightarrow> held_frames q s' = outputs_of q (events_in acts) \<and> outputs_of q (passed outs) = [] \<and> outputs_of q (taken_out outs) = []
    | Some Valid \<Rightarrow> outputs_of q (passed outs) = outputs_of q (events_in acts) \<and> outputs_of q (taken_out outs) = []
    | Some Blocked \<Rightarrow> outputs_of q (taken_out outs) = outputs_of q (events_in acts) \<and> outputs_of q (passed outs) = []
    | None \<Rightarrow> False"
  using filter_run_step [OF assms(1-5)] assms(6,7)
  by (auto simp: bc_step_def question_step_def split: option.splits bc_status.splits dest!: spec [of _ q])

section \<open>The window\<close>

lemma held_after_settle: "settle_final e s = (outs, s') \<Longrightarrow> held_frames r s' = [] \<or> held_frames r s' = held_frames r s"
proof -
  have k: "held_frames r (snd (schedule_delete q u)) = held_frames r u" for q and u :: "'a provider_event_scheme backchannel"
    by (simp add: schedule_delete_def held_frames_def)
  show "settle_final e s = (outs, s') \<Longrightarrow> held_frames r s' = [] \<or> held_frames r s' = held_frames r s"
    using k by (auto simp: settle_final_def decide_candidate_def release_question_def Let_def split: option.splits bc_status.splits if_splits prod.splits)
      (metis held_simps(1,2) snd_conv)+
qed

lemma held_after_route:
  assumes "route_event e s = (outs, s')"
  shows "held_frames r s' = [] \<or> held_frames r s' = held_frames r s \<or> held_frames r s' = held_frames r s @ [e]"
proof -
  have d: "held_frames r (snd (schedule_delete q s)) = held_frames r s" for q by (simp add: schedule_delete_def held_frames_def)
  have h: "held_frames r (snd (hold_frame q e s)) = [] \<or> held_frames r (snd (hold_frame q e s)) = held_frames r s \<or>
      held_frames r (snd (hold_frame q e s)) = held_frames r s @ [e]" for q
  proof -
    have u: "held_frames r (s\<lparr>bc_buffers := AList.update q v (bc_buffers s)\<rparr>) = (if r = q then v else held_frames r s)" for v
      by (simp add: held_frames_def update_conv')
    show ?thesis by (simp add: hold_frame_def Let_def release_question_def u)
  qed
  show ?thesis
    using assms d h by (auto simp: route_event_def split: option.splits bc_status.splits if_splits prod.splits) (metis snd_conv)+
qed

definition seq_less :: "'a provider_event_scheme \<Rightarrow> 'a provider_event_scheme \<Rightarrow> bool" where
  "seq_less d e \<longleftrightarrow> pe_sequence d < pe_sequence e"

definition window_inv :: "int \<Rightarrow> 'a provider_event_scheme backchannel \<Rightarrow> bool" where
  "window_inv n s \<longleftrightarrow> (\<forall>q. sorted_wrt seq_less (held_frames q s) \<and> (\<forall>e \<in> set (held_frames q s). n - 64 < pe_sequence e \<and> pe_sequence e \<le> n))"

lemma window_keep: "window_inv n s \<Longrightarrow> (\<And>q. held_frames q s' = [] \<or> held_frames q s' = held_frames q s) \<Longrightarrow> window_inv n s'"
  unfolding window_inv_def by (metis empty_iff list.set(1) sorted_wrt.simps(1))

lemma timer_window: "window_inv n s \<Longrightarrow> timer_fired q s = (outs, s') \<Longrightarrow> window_inv n s'"
  by (rule window_keep) (auto simp: timer_fired_def release_question_def split: if_splits)

lemma late_window:
  assumes "window_inv n s" "\<not> late_frames (n + 1) (held_frames q s')" "held_frames q s' = [] \<or> held_frames q s' = held_frames q s"
  shows "\<forall>e \<in> set (held_frames q s'). n + 1 - 64 < pe_sequence e"
proof (cases "held_frames q s'")
  case (Cons f fs)
  then have "sorted_wrt seq_less (f # fs)" using assms(1,3) by (auto simp: window_inv_def)
  then have "\<forall>e \<in> set fs. pe_sequence f < pe_sequence e" by (simp add: seq_less_def)
  with assms(2) Cons show ?thesis by (auto simp: late_frames_def)
qed simp

lemma consume_window:
  assumes "consume_filter p e s = (None, outs, s')" "\<not> bc_closed s" "bc_inv s" "bc_sid s = Some (pe_session_id e)" "window_inv n s" "pe_sequence e = n + 1"
  shows "window_inv (n + 1) s'"
proof -
  have e: "s\<lparr>bc_sid := Some (pe_session_id e)\<rparr> = s" using assms(4) by simp
  from assms(4) consume_filter_parts [OF assms(1-3)] obtain o1 s1 o2 s3 o3 where
    P: "release_late (n + 1) s = (o1, s1)"
    "settle_final e (if opens_candidate p e then open_candidate (the (pe_question_id e)) s1 else s1) = (o2, s3)"
    "route_event e (note_finished e s3) = (o3, s')" by (metis e assms(6))
  have w: "\<forall>f \<in> set (held_frames q s1). n + 1 - 64 < pe_sequence f" for q
    by (rule late_window [OF assms(5) release_late_step(2,3) [OF assms(3) P(1)]])
  have g1: "held_frames q s1 = [] \<or> held_frames q s1 = held_frames q s" for q by (rule release_late_step(3) [OF assms(3) P(1)])
  have g2: "held_frames q (if opens_candidate p e then open_candidate (the (pe_question_id e)) s1 else s1) = held_frames q s1" for q
    by (simp add: open_candidate_def)
  have g3: "held_frames q s3 = [] \<or> held_frames q s3 = held_frames q s1" for q using held_after_settle [OF P(2), of q] g2 by simp
  have g4: "held_frames q (note_finished e s3) = held_frames q s3" for q by (simp add: note_finished_def held_frames_def)
  have r: "held_frames q s' = [] \<or> held_frames q s' = held_frames q s3 \<or> held_frames q s' = held_frames q s3 @ [e]" for q
    using held_after_route [OF P(3), of q] g4 by simp
  have "sorted_wrt seq_less (held_frames q s') \<and> (\<forall>f \<in> set (held_frames q s'). n + 1 - 64 < pe_sequence f \<and> pe_sequence f \<le> n + 1)" for q
  proof -
    have "sorted_wrt seq_less (held_frames q s3) \<and> (\<forall>f \<in> set (held_frames q s3). n + 1 - 64 < pe_sequence f \<and> pe_sequence f \<le> n)"
      using g3 [of q] g1 [of q] w [of q] assms(5) unfolding window_inv_def by (metis empty_iff list.set(1) sorted_wrt.simps(1))
    then have "sorted_wrt seq_less (held_frames q s3) \<and> (\<forall>f \<in> set (held_frames q s3). n + 1 - 64 < pe_sequence f \<and> pe_sequence f < n + 1 \<and> pe_sequence f \<le> n + 1)"
      by fastforce
    with r [of q] assms(6) show ?thesis by (auto simp: sorted_wrt_append seq_less_def)
  qed
  then show ?thesis by (simp add: window_inv_def)
qed

section \<open>The filter in front of the turns\<close>

text \<open>What the gateway hands to the turn service: an event that was taken out becomes a tombstone without text.\<close>

fun to_turns :: "turn_event bc_effect list \<Rightarrow> turn_event list" where
  "to_turns [] = []"
| "to_turns (Passed e # os) = e # to_turns os"
| "to_turns (Taken_out e # os) = e\<lparr>pe_kind := ''backchannel_filtered'', pe_payload := Other_payload\<rparr> # to_turns os"
| "to_turns (Delete_asked q # os) = to_turns os"

definition reorder_refusal :: exn where
  "reorder_refusal = ValueError ''voice_event_reorder_limit''"

definition refusals :: "exn set" where
  "refusals = insert reorder_refusal (ValueError ` {''voice_event_identity_mismatch'', ''voice_event_sequence_invalid'', ''voice_event_identity_invalid''})"

lemma to_turns_append [simp]: "to_turns (xs @ ys) = to_turns xs @ to_turns ys"
  by (induction xs rule: to_turns.induct) simp_all

lemma to_turns_seqs: "mset (map pe_sequence (to_turns os)) = mset (map pe_sequence (passed os)) + mset (map pe_sequence (taken_out os))"
  by (induction os rule: to_turns.induct) simp_all

definition same_ids :: "turn_event \<Rightarrow> turn_event \<Rightarrow> bool" where
  "same_ids e f \<longleftrightarrow> pe_call_id e = pe_call_id f \<and> pe_session_id e = pe_session_id f \<and> pe_question_id e = pe_question_id f \<and>
     pe_reply_id e = pe_reply_id f \<and> pe_sequence e = pe_sequence f"

lemma to_turns_from: "e \<in> set (to_turns os) \<Longrightarrow> \<exists>f \<in> set (passed os) \<union> set (taken_out os). same_ids e f"
  by (induction os rule: to_turns.induct) (auto simp: same_ids_def)

lemma handle_kind_no_refusal: "handle_kind env cid e d b db = (x, b', db') \<Longrightarrow> x \<notin> Some ` refusals"
  by (auto simp: handle_kind_def refusals_def reorder_refusal_def split: if_splits ev_payload.splits bool.splits)

lemma handle_no_refusal: "handle env cid e b db = (x, b', db') \<Longrightarrow> x \<notin> Some ` refusals"
proof -
  have "ensure_draft now q b \<notin> Inl ` refusals" for now q
    by (auto simp: ensure_draft_def refusals_def reorder_refusal_def split: option.splits)
  moreover have "settle_reply e d b1 \<notin> Inl ` refusals" for d b1
    by (auto simp: settle_reply_def refusals_def reorder_refusal_def Let_def split: option.splits)
  ultimately show "handle env cid e b db = (x, b', db') \<Longrightarrow> x \<notin> Some ` refusals"
    using handle_kind_no_refusal [of env cid e]
    by (auto simp: handle_def refusals_def reorder_refusal_def split: if_splits sum.splits prod.splits)
qed

text \<open>What draining the buffer keeps, and the one error it never raises.\<close>

definition drain_ok :: "turn_svc \<Rightarrow> unit res \<Rightarrow> turn_svc \<Rightarrow> bool" where
  "drain_ok s r s' \<longleftrightarrow> r \<notin> Inl ` refusals \<and> (dict_wf (ts_pending s) \<longrightarrow> dict_wf (ts_pending s')) \<and>
     ts_session s' = ts_session s \<and> ts_call s' = ts_call s \<and> ts_frozen s' = ts_frozen s"

lemma drain_keeps: "drain env s db = (r, s', db') \<Longrightarrow> drain_ok s r s'"
proof (induction env s db rule: drain.induct)
  case (1 env s db)
  show ?case
  proof (cases "map_of (ts_pending s) (ts_sequence s + 1)")
    case None
    then show ?thesis using 1(2) by (auto simp: drain.simps drain_ok_def)
  next
    case (Some e)
    obtain y b db1 where h: "handle env (ts_call s) e (ts_books s) db = (y, b, db1)" by (cases "handle env (ts_call s) e (ts_books s) db")
    let ?s1 = "s\<lparr>ts_books := b, ts_sequence := ts_sequence s + 1, ts_pending := AList.delete (ts_sequence s + 1) (ts_pending s)\<rparr>"
    show ?thesis
    proof (cases y)
      case None
      have "drain env s db = drain env ?s1 db1" by (subst drain.simps) (simp add: Some h None)
      with 1(1) [OF Some h [symmetric] None refl] 1(2) show ?thesis by (simp add: drain_ok_def)
    next
      case y: (Some x)
      have "drain env s db = (Inl x, s\<lparr>ts_books := b\<rparr>, db1)" by (subst drain.simps) (simp add: Some h y)
      with handle_no_refusal [OF h] 1(2) y show ?thesis by (auto simp: drain_ok_def)
    qed
  qed
qed

lemma consume_keeps:
  assumes "consume env e s db = (r, s', db')"
  shows "dict_wf (ts_pending s) \<Longrightarrow> dict_wf (ts_pending s')" "ts_session s' = ts_session s" "ts_call s' = ts_call s"
  using assms by (auto simp: consume_def drain_ok_def split: if_splits dest!: drain_keeps)

text \<open>An event is refused for its number only when numbers far behind it are missing.\<close>

lemma consume_not_refused:
  assumes c: "consume env e t db = (r, t', db')" and st: "settled env b0 db0 fed t db" and wf: "dict_wf (ts_pending t)"
    and f: "\<forall>x \<in> set fed. pe_sequence x \<le> m" "\<forall>k \<in> {1..m - 65}. first_with k fed \<noteq> None" and e: "pe_sequence e \<le> m"
  shows "r \<noteq> Inl reorder_refusal"
proof -
  have io: "in_order env b0 db0 fed t db" and nx: "first_with (ts_sequence t + 1) fed = None" using st by (simp_all add: settled_def)
  have low: "m - 65 \<le> ts_sequence t"
  proof (rule ccontr)
    assume "\<not> m - 65 \<le> ts_sequence t"
    with io have "ts_sequence t + 1 \<in> {1..m - 65}" by (simp add: in_order_def)
    with f(2) nx show False by blast
  qed
  have "fst ` set (ts_pending t) \<subseteq> {ts_sequence t + 1..m}"
  proof
    fix k assume "k \<in> fst ` set (ts_pending t)"
    then obtain v where "map_of (ts_pending t) k = Some v" using map_of_eq_None_iff [of "ts_pending t" k] by (cases "map_of (ts_pending t) k") auto
    with io have k: "ts_sequence t < k" "first_with k fed = Some v" by (auto simp: in_order_def split: if_splits)
    from k(2) f(1) have "k \<le> m" by (auto simp: first_with_def dest: find_Some_mem)
    with k(1) show "k \<in> {ts_sequence t + 1..m}" by simp
  qed
  hence "card (fst ` set (ts_pending t)) \<le> card {ts_sequence t + 1..m}" by (rule card_mono [OF finite_atLeastAtMost_int])
  also have "card {ts_sequence t + 1..m} = nat (m - ts_sequence t)" by simp
  finally have "length (ts_pending t) \<le> 65" using wf low distinct_card [of "map fst (ts_pending t)"] by (simp add: dict_wf_def)
  hence "\<not> (pe_sequence e > ts_sequence t + 128 \<or> length (ts_pending t) \<ge> 128)" using low e by simp
  with c show ?thesis by (auto simp: consume_def refusals_def reorder_refusal_def drain_ok_def split: if_splits dest!: drain_keeps)
qed

text \<open>An event of this call and session with proper identities is refused for nothing else.\<close>

definition addressed :: "string \<Rightarrow> string \<Rightarrow> turn_event \<Rightarrow> bool" where
  "addressed cid sid e \<longleftrightarrow> pe_call_id e = cid \<and> pe_session_id e = sid \<and> 1 \<le> pe_sequence e \<and>
     identity_ok (pe_question_id e) \<and> identity_ok (pe_reply_id e)"

lemma same_ids_addressed: "same_ids e f \<Longrightarrow> addressed cid sid f \<Longrightarrow> addressed cid sid e"
  by (simp add: same_ids_def addressed_def)

lemma consume_addressed:
  assumes "consume env e t db = (r, t', db')" "addressed (ts_call t) (ts_session t) e"
  shows "r \<in> Inl ` refusals \<Longrightarrow> r = Inl reorder_refusal"
  using assms by (auto simp: consume_def addressed_def reorder_refusal_def drain_ok_def split: if_splits dest!: drain_keeps)

lemma consume_all_addressed:
  "consume_all env es t db = (r, t', db') \<Longrightarrow> \<forall>e \<in> set es. addressed (ts_call t) (ts_session t) e \<Longrightarrow> r \<in> Inl ` refusals \<Longrightarrow> r = Inl reorder_refusal"
proof (induction es arbitrary: t db)
  case (Cons e es)
  obtain y t1 db1 where c: "consume env e t db = (y, t1, db1)" by (cases "consume env e t db")
  show ?case
  proof (cases y)
    case (Inl x)
    then show ?thesis using Cons.prems c consume_addressed [OF c] by simp
  next
    case (Inr v)
    then show ?thesis using Cons.prems c Cons.IH [of t1 db1] consume_keeps(2,3) [OF c] by simp
  qed
qed auto

lemma consume_all_append:
  "consume_all env (xs @ ys) t db = (case consume_all env xs t db of (Inl x, t1, db1) \<Rightarrow> (Inl x, t1, db1) | (Inr u, t1, db1) \<Rightarrow> consume_all env ys t1 db1)"
  by (induction xs arbitrary: t db) (auto split: sum.splits prod.splits)

lemma consume_all_not_refused:
  assumes "consume_all env es t db = (r, t', db')" "settled env b0 db0 fed t db" "dict_wf (ts_pending t)"
    "\<forall>x \<in> set fed. pe_sequence x \<le> m" "\<forall>k \<in> {1..m - 65}. first_with k fed \<noteq> None" "\<forall>e \<in> set es. pe_sequence e \<le> m"
  shows "r \<noteq> Inl reorder_refusal" "r = Inr u \<Longrightarrow> dict_wf (ts_pending t')"
proof -
  have "r \<noteq> Inl reorder_refusal \<and> (r = Inr u \<longrightarrow> dict_wf (ts_pending t'))"
    using assms
  proof (induction es arbitrary: fed t db)
    case (Cons e es)
    obtain y t1 db1 where c: "consume env e t db = (y, t1, db1)" by (cases "consume env e t db")
    show ?case
    proof (cases y)
      case (Inl x)
      then show ?thesis using consume_not_refused [OF c Cons.prems(2-5)] Cons.prems(1,6) c by auto
    next
      case (Inr v)
      have s: "settled env b0 db0 (fed @ [e]) t1 db1" using consume_in_order [OF Cons.prems(2) c [unfolded Inr]] by simp
      have f: "\<forall>k \<in> {1..m - 65}. first_with k (fed @ [e]) \<noteq> None"
      proof
        fix k assume "k \<in> {1..m - 65}"
        with Cons.prems(5) have "first_with k fed \<noteq> None" by blast
        then show "first_with k (fed @ [e]) \<noteq> None" by (simp add: first_with_snoc)
      qed
      have r: "consume_all env es t1 db1 = (r, t', db')" using Cons.prems(1) c Inr by simp
      show ?thesis
        by (rule Cons.IH [OF r s consume_keeps(1) [OF c Cons.prems(3)] _ f]) (use Cons.prems(4,6) in auto)
    qed
  qed auto
  thus "r \<noteq> Inl reorder_refusal" "r = Inr u \<Longrightarrow> dict_wf (ts_pending t')" by blast+
qed

text \<open>After \<open>n\<close> events: what was handed on and what is held are the numbers up to \<open>n\<close>, each once.\<close>

definition pipe_inv ::
  "turn_env \<Rightarrow> turn_books \<Rightarrow> database \<Rightarrow> string \<Rightarrow> int \<Rightarrow> turn_event backchannel \<Rightarrow> turn_event list \<Rightarrow> turn_svc \<Rightarrow> database \<Rightarrow> bool" where
  "pipe_inv env b0 db0 sid n s fed t db \<longleftrightarrow> 0 \<le> n \<and> bc_inv s \<and> \<not> bc_closed s \<and> bc_sid s = Some sid \<and> window_inv n s \<and>
     mset (map pe_sequence fed) + mset (map pe_sequence (all_held s)) = mset [1..n] \<and>
     settled env b0 db0 fed t db \<and> dict_wf (ts_pending t)"

lemma first_with_iff: "first_with k es \<noteq> None \<longleftrightarrow> k \<in> set (map pe_sequence es)"
  by (induction es) (auto simp: first_with_def)

lemma held_window:
  assumes "window_inv n s" "bc_inv s" "e \<in> set (all_held s)"
  shows "n - 64 < pe_sequence e \<and> pe_sequence e \<le> n"
proof -
  obtain q es where "(q, es) \<in> set (bc_buffers s)" "e \<in> set es" using assms(3) by (auto simp: all_held_def)
  then have "e \<in> set (held_frames q s)" using assms(2) by (simp add: held_frames_def bc_inv_def dict_wf_def map_of_is_SomeI)
  then show ?thesis using assms(1) by (auto simp: window_inv_def)
qed

lemma pipe_covered:
  assumes "pipe_inv env b0 db0 sid n s fed t db"
  shows "\<forall>k \<in> {1..n - 64}. first_with k fed \<noteq> None" "\<forall>x \<in> set fed. pe_sequence x \<le> n"
proof -
  have m: "mset (map pe_sequence fed) + mset (map pe_sequence (all_held s)) = mset [1..n]" using assms by (simp add: pipe_inv_def)
  have s: "set (map pe_sequence fed) \<union> set (map pe_sequence (all_held s)) = {1..n}"
    using arg_cong [OF m, of set_mset] by simp
  show "\<forall>x \<in> set fed. pe_sequence x \<le> n" using s by force
  show "\<forall>k \<in> {1..n - 64}. first_with k fed \<noteq> None"
  proof
    fix k assume k: "k \<in> {1..n - 64}"
    then have "k \<in> {1..n}" by simp
    then have "k \<in> set (map pe_sequence fed) \<or> (\<exists>e \<in> set (all_held s). pe_sequence e = k)" using s by auto
    moreover have "\<not> (\<exists>e \<in> set (all_held s). pe_sequence e = k)"
      using held_window [of n s] assms k by (force simp: pipe_inv_def)
    ultimately show "first_with k fed \<noteq> None" using first_with_iff [of k fed] by blast
  qed
qed

text \<open>One action: the effects go to the turn service and none of them is refused for its number.\<close>

lemma pipe_step:
  assumes P: "pipe_inv env b0 db0 sid n s fed t db" and b: "bc_step s a outs s'" and w: "window_inv n' s'"
    and a: "mset (map pe_sequence a) + mset [1..n] = mset [1..n']" and n: "n \<le> n'" "n' \<le> n + 1"
    and c: "consume_all env (to_turns outs) t db = (r, t', db')"
  shows "r \<noteq> Inl reorder_refusal" "r = Inr u \<Longrightarrow> pipe_inv env b0 db0 sid n' s' (fed @ to_turns outs) t' db'"
proof -
  have e: "mset (map pe_sequence (to_turns outs)) + mset (map pe_sequence (all_held s')) = mset (map pe_sequence (all_held s)) + mset (map pe_sequence a)"
  proof -
    have "image_mset pe_sequence (mset (passed outs) + mset (taken_out outs) + mset (all_held s')) = image_mset pe_sequence (mset (all_held s) + mset a)"
      using b by (simp add: bc_step_def)
    moreover have "mset (map pe_sequence (to_turns outs)) = image_mset pe_sequence (mset (passed outs) + mset (taken_out outs))"
      unfolding to_turns_seqs by simp
    ultimately show ?thesis by simp
  qed
  have m: "mset (map pe_sequence fed) + mset (map pe_sequence (all_held s)) = mset [1..n]" using P by (simp add: pipe_inv_def)
  have m': "mset (map pe_sequence (fed @ to_turns outs)) + mset (map pe_sequence (all_held s')) = mset [1..n']"
  proof -
    have "mset (map pe_sequence (fed @ to_turns outs)) + mset (map pe_sequence (all_held s')) =
      mset (map pe_sequence fed) + (mset (map pe_sequence (to_turns outs)) + mset (map pe_sequence (all_held s')))" by (simp add: ac_simps)
    also have "\<dots> = mset (map pe_sequence a) + mset [1..n]" by (simp only: e m [symmetric]) (simp add: ac_simps)
    finally show ?thesis using a by simp
  qed
  have up: "\<forall>x \<in> set (to_turns outs). pe_sequence x \<le> n'"
  proof
    fix x assume "x \<in> set (to_turns outs)"
    then have "pe_sequence x \<in># mset (map pe_sequence (fed @ to_turns outs)) + mset (map pe_sequence (all_held s'))" by simp
    then show "pe_sequence x \<le> n'" unfolding m' by simp
  qed
  have low: "\<forall>k \<in> {1..n' - 65}. first_with k fed \<noteq> None" using pipe_covered(1) [OF P] n(2) by simp
  have f: "\<forall>x \<in> set fed. pe_sequence x \<le> n'" using pipe_covered(2) [OF P] n(1) by fastforce
  have st: "settled env b0 db0 fed t db" "dict_wf (ts_pending t)" using P by (simp_all add: pipe_inv_def)
  note C = consume_all_not_refused [OF c st f low up]
  show "r \<noteq> Inl reorder_refusal" by (rule C(1))
  show "pipe_inv env b0 db0 sid n' s' (fed @ to_turns outs) t' db'" if "r = Inr u"
    using consume_all_in_order [OF st(1) c [unfolded that]] C(2) [OF that] P b w m' n(1) by (simp add: pipe_inv_def bc_step_def)
qed

lemma pipe_run:
  assumes "filter_run acts s = (None, outs, s')" "pipe_inv env b0 db0 sid n s fed t db" "\<forall>e \<in> set (events_in acts). pe_session_id e = sid"
    "map pe_sequence (events_in acts) = [n + 1..n + int (length (events_in acts))]" "consume_all env (to_turns outs) t db = (r, t', db')"
  shows "r \<noteq> Inl reorder_refusal \<and> (r = Inr u \<longrightarrow> pipe_inv env b0 db0 sid (n + int (length (events_in acts))) s' (fed @ to_turns outs) t' db')"
  using assms
proof (induction acts s arbitrary: outs n fed t db rule: filter_run.induct)
  case (1 s)
  then show ?case by auto
next
  case (2 q acts s)
  obtain o1 s1 where f: "timer_fired q s = (o1, s1)" by fastforce
  obtain o2 where r: "filter_run acts s1 = (None, o2, s')" "outs = o1 @ o2" using 2(2) f by (auto split: prod.splits)
  have i: "bc_inv s" "window_inv n s" using 2(3) by (simp_all add: pipe_inv_def)
  obtain r1 t1 db1 where c: "consume_all env (to_turns o1) t db = (r1, t1, db1)" by (cases "consume_all env (to_turns o1) t db")
  note S = pipe_step [OF 2(3) timer_step [OF i(1) f] timer_window [OF i(2) f] _ _ _ c]
  show ?case
  proof (cases r1)
    case (Inl x)
    then have "r = Inl x" using 2(6) c by (simp add: r(2) consume_all_append)
    then show ?thesis using S(1) Inl by simp
  next
    case (Inr v)
    have c2: "consume_all env (to_turns o2) t1 db1 = (r, t', db')" using 2(6) c Inr by (simp add: r(2) consume_all_append)
    have p: "pipe_inv env b0 db0 sid n s1 (fed @ to_turns o1) t1 db1" by (rule S(2) [OF _ _ _ Inr]) simp_all
    from 2(1) [OF f [symmetric] r(1) p _ _ c2] 2(4,5) show ?thesis by (simp add: r(2))
  qed
next
  case (3 p e acts s)
  obtain o1 s1 where f: "consume_filter p e s = (None, o1, s1)" using 3(2) by (auto split: prod.splits option.splits)
  obtain o2 where r: "filter_run acts s1 = (None, o2, s')" "outs = o1 @ o2" using 3(2) f by (auto split: prod.splits)
  have i: "bc_inv s" "window_inv n s" "\<not> bc_closed s" "bc_sid s = Some (pe_session_id e)" using 3(3,4) by (simp_all add: pipe_inv_def)
  have u: "[n + 1..n + (1 + int (length (events_in acts)))] = (n + 1) # [n + 1 + 1..n + 1 + int (length (events_in acts))]"
    by (subst upto_rec1) (simp_all add: ac_simps)
  have q: "pe_sequence e = n + 1" "map pe_sequence (events_in acts) = [n + 1 + 1..n + 1 + int (length (events_in acts))]"
    using 3(5) u by simp_all
  obtain r1 t1 db1 where c: "consume_all env (to_turns o1) t db = (r1, t1, db1)" by (cases "consume_all env (to_turns o1) t db")
  have n0: "0 \<le> n" using 3(3) by (simp add: pipe_inv_def)
  have m: "mset (map pe_sequence [e]) + mset [1..n] = mset [1..n + 1]"
    using q(1) n0 upto_rec2 [of 1 "n + 1"] by simp
  note S = pipe_step [OF 3(3) consume_filter_step [OF f i(3,1,4)] consume_window [OF f i(3,1,4,2) q(1)] m _ _ c]
  show ?case
  proof (cases r1)
    case (Inl x)
    then have "r = Inl x" using 3(6) c by (simp add: r(2) consume_all_append)
    then show ?thesis using S(1) Inl by simp
  next
    case (Inr v)
    have c2: "consume_all env (to_turns o2) t1 db1 = (r, t', db')" using 3(6) c Inr by (simp add: r(2) consume_all_append)
    have p: "pipe_inv env b0 db0 sid (n + 1) s1 (fed @ to_turns o1) t1 db1" by (rule S(2) [OF _ _ Inr]) simp_all
    from 3(1) [OF f [symmetric] refl refl r(1) p _ q(2) c2] 3(4) show ?thesis by (simp add: r(2) add.assoc)
  qed
qed


text \<open>The filter can hold events back without the turn service behind it ever giving up: when the events of a session come
  in as 1, 2, 3, ... and timers run out whenever they like, what the filter hands on, text-free stand-ins for the events it
  took out included, never meets the turn service's limit of 128 numbers ahead or 128 waiting; without another error the turn
  service has handled every number up to 64 behind the newest, and all of them once nothing is held.\<close>

lemma filter_never_overruns_turns:
  assumes "filter_run acts (enter_session sid (new_filter ws)) = (None, outs, s)" "\<forall>e \<in> set (events_in acts). pe_session_id e = sid"
    "map pe_sequence (events_in acts) = [1..int (length (events_in acts))]"
    "consume_all env (to_turns outs) (new_service cid sid) db = (r, t, db')"
  shows "r \<noteq> Inl reorder_refusal \<and>
    (r = Inr () \<longrightarrow> int (length (events_in acts)) - 64 \<le> ts_sequence t \<and> (all_held s = [] \<longrightarrow> ts_sequence t = int (length (events_in acts))))"
proof -
  let ?N = "int (length (events_in acts))"
  let ?t0 = "new_service cid sid"
  have "pipe_inv env (ts_books ?t0) db sid 0 (enter_session sid (new_filter ws)) [] ?t0 db"
    by (simp add: pipe_inv_def enter_session_def new_filter_def bc_inv_def dict_wf_def window_inv_def held_frames_def all_held_def
        settled_def in_order_def new_service_def first_with_def)
  from pipe_run [OF assms(1) this assms(2) _ assms(4)] assms(3)
  have P: "r \<noteq> Inl reorder_refusal" "r = Inr () \<Longrightarrow> pipe_inv env (ts_books ?t0) db sid ?N s ([] @ to_turns outs) t db'" by simp_all
  show ?thesis
  proof (intro impI conjI)
    show "r \<noteq> Inl reorder_refusal" by (rule P(1))
  next
    assume "r = Inr ()"
    note I = P(2) [OF this]
    have nx: "0 \<le> ts_sequence t" "first_with (ts_sequence t + 1) (to_turns outs) = None" "\<forall>k \<in> {1..ts_sequence t}. first_with k (to_turns outs) \<noteq> None"
      using I by (simp_all add: pipe_inv_def settled_def in_order_def)
    note V = pipe_covered(1) [OF I]
    show "?N - 64 \<le> ts_sequence t"
    proof (rule ccontr)
      assume "\<not> ?N - 64 \<le> ts_sequence t"
      with nx(1) have "ts_sequence t + 1 \<in> {1..?N - 64}" by simp
      with V have "first_with (ts_sequence t + 1) ([] @ to_turns outs) \<noteq> None" by blast
      with nx(2) show False by simp
    qed
  next
    assume "r = Inr ()"
    note I = P(2) [OF this]
    have nx: "0 \<le> ts_sequence t" "first_with (ts_sequence t + 1) (to_turns outs) = None" "\<forall>k \<in> {1..ts_sequence t}. first_with k (to_turns outs) \<noteq> None"
      using I by (simp_all add: pipe_inv_def settled_def in_order_def)
    assume h: "all_held s = []"
    then have m: "mset (map pe_sequence (to_turns outs)) = mset [1..?N]" using I by (simp add: pipe_inv_def)
    have st: "set (map pe_sequence (to_turns outs)) = {1..?N}" using arg_cong [OF m, of set_mset] by simp
    have "ts_sequence t + 1 \<notin> {1..?N}" using nx(2) first_with_iff [of "ts_sequence t + 1" "to_turns outs"] st by blast
    moreover have "ts_sequence t \<le> ?N"
    proof (cases "ts_sequence t = 0")
      case False
      then have "ts_sequence t \<in> {1..?N}" using nx(1,3) first_with_iff [of "ts_sequence t" "to_turns outs"] st by force
      then show ?thesis by simp
    qed simp
    ultimately show "ts_sequence t = ?N" using nx(1) by simp
  qed
qed

section \<open>Witnesses\<close>

definition demo_held :: "turn_event backchannel" where
  "demo_held = set_bc (asc ''q'') Candidate (enter_session ''s'' (new_filter [asc ''ok'']))"

definition demo_heard :: "turn_event bc_action list" where
  "demo_heard = [Event_in None (demo_event 1 ''chat_text'' Other_payload), Event_in None (demo_event 2 ''asr_final'' (Text_payload (asc ''OK, ok''))),
     Timer (asc ''q''), Event_in None (demo_event 3 ''tts_audio'' Other_payload)]"

lemma demo_held_run:
  "filter_run demo_heard demo_held = (None, map Taken_out (events_in demo_heard), demo_held\<lparr>bc_states := [(asc ''q'', Blocked)]\<rparr>)"
  by code_simp

theorem question_output_whole_or_nothing_witness:
  "outputs_of (asc ''q'') (taken_out (fst (snd (filter_run demo_heard demo_held)))) =
     [demo_event 1 ''chat_text'' Other_payload, demo_event 3 ''tts_audio'' Other_payload] \<and>
   outputs_of (asc ''q'') (passed (fst (snd (filter_run demo_heard demo_held)))) = []"
proof -
  have d: "\<not> bc_closed demo_held" "bc_sid demo_held = Some ''s''" "map_of (bc_states demo_held) (asc ''q'') = Some Candidate"
    "held_frames (asc ''q'') demo_held = []" "bc_inv demo_held" "\<forall>e \<in> set (events_in demo_heard). pe_session_id e = ''s''"
    by (simp_all add: demo_held_def set_bc_def enter_session_def new_filter_def held_frames_def bc_inv_def dict_wf_def demo_heard_def demo_event_def)
  have "outputs_of (asc ''q'') (events_in demo_heard) = [demo_event 1 ''chat_text'' Other_payload, demo_event 3 ''tts_audio'' Other_payload]"
    by (simp add: demo_heard_def outputs_of_def demo_event_def is_output_def output_kinds_def)
  then show ?thesis using question_output_whole_or_nothing [OF demo_held_run d(1,5,2,6,3,4)] by (simp add: demo_held_run)
qed

end
