(* ===== verification/ProviderClaims.thy ===== *)
theory ProviderClaims
  imports Provider BackchannelClaims
begin

text \<open>
  The promises of \<open>Frame\<close> and \<open>Provider\<close>: which bytes are frames, how the events of a session are numbered and
  addressed, that a reply belongs to one question and ends once, that injected context is answered by one reply, that a
  control request is confirmed once, and that the filter and the turn service behind the adapter accept all of it.
\<close>

section \<open>One frame\<close>

definition id_ok :: "pystr \<Rightarrow> bool" where
  "id_ok s \<longleftrightarrow> identity_ok (Some s)"

definition speaks :: "turn_event \<Rightarrow> bool" where
  "speaks e \<longleftrightarrow> pe_kind e \<in> {''sentence_started'', ''chat_text'', ''tts_audio''}"

text \<open>The reply that may speak for a question.\<close>

definition chosen :: "adapter \<Rightarrow> pystr \<Rightarrow> pystr \<Rightarrow> bool" where
  "chosen st q r \<longleftrightarrow> ad_purpose st \<noteq> ''call'' \<or> q \<notin> set (ad_rag_questions st) \<or>
     (\<exists>raw. map_of (ad_rag_reply st) q = Some raw \<and> map_of (ad_replies st) raw = Some r)"

definition audio_inv :: "adapter \<Rightarrow> bool" where
  "audio_inv st \<longleftrightarrow> (\<forall>r. ad_audio_reply st = Some r \<longrightarrow>
     (\<exists>q. map_of (ad_reply_questions st) r = Some q \<and> q \<in> set (ad_text_started st) \<and> chosen st q r))"

definition ids_inv :: "adapter \<Rightarrow> bool" where
  "ids_inv st \<longleftrightarrow> (\<forall>k v. map_of (ad_questions st) k = Some v \<longrightarrow> id_ok v) \<and> (\<forall>k v. map_of (ad_replies st) k = Some v \<longrightarrow> id_ok v) \<and>
     (\<forall>k v. map_of (ad_reply_questions st) k = Some v \<longrightarrow> id_ok k \<and> id_ok v) \<and> (\<forall>q. ad_question st = Some q \<longrightarrow> id_ok q)"

definition grows :: "adapter \<Rightarrow> adapter \<Rightarrow> bool" where
  "grows st st' \<longleftrightarrow> ad_call_id st' = ad_call_id st \<and> ad_session_id st' = ad_session_id st \<and> ad_purpose st' = ad_purpose st \<and>
     ad_events st' = ad_events st \<and> ad_rag_questions st' = ad_rag_questions st \<and>
     map_of (ad_replies st) \<subseteq>\<^sub>m map_of (ad_replies st') \<and> map_of (ad_reply_questions st) \<subseteq>\<^sub>m map_of (ad_reply_questions st') \<and>
     map_of (ad_rag_reply st) \<subseteq>\<^sub>m map_of (ad_rag_reply st') \<and> set (ad_text_started st) \<subseteq> set (ad_text_started st') \<and>
     set (ad_finished st) \<subseteq> set (ad_finished st')"

definition reply_ok :: "adapter \<Rightarrow> turn_event \<Rightarrow> adapter \<Rightarrow> bool" where
  "reply_ok st e st' \<longleftrightarrow> (\<forall>r. pe_reply_id e = Some r \<longrightarrow> (\<exists>q. pe_question_id e = Some q \<and> map_of (ad_reply_questions st') r = Some q) \<and>
     r \<notin> set (ad_finished st) \<and> (pe_kind e = ''tts_finished'' \<longrightarrow> r \<in> set (ad_finished st')))"

definition speech_ok :: "turn_event \<Rightarrow> adapter \<Rightarrow> bool" where
  "speech_ok e st' \<longleftrightarrow> (speaks e \<longrightarrow> (\<exists>q r. pe_question_id e = Some q \<and> pe_reply_id e = Some r \<and> q \<in> set (ad_text_started st') \<and> chosen st' q r))"

definition event_ok :: "adapter \<Rightarrow> turn_event \<Rightarrow> adapter \<Rightarrow> bool" where
  "event_ok st e st' \<longleftrightarrow> pe_call_id e = ad_call_id st \<and> pe_session_id e = ad_session_id st \<and> pe_sequence e = ad_sequence st' \<and>
     ad_sequence st' = ad_sequence st + 1 \<and> reply_ok st e st' \<and> speech_ok e st' \<and>
     (ids_inv st' \<longrightarrow> identity_ok (pe_question_id e) \<and> identity_ok (pe_reply_id e))"

definition result_ok :: "adapter \<Rightarrow> turn_event option res \<Rightarrow> adapter \<Rightarrow> bool" where
  "result_ok st x st' \<longleftrightarrow> (case x of Inr (Some e) \<Rightarrow> event_ok st e st' | _ \<Rightarrow> ad_sequence st' = ad_sequence st)"

definition frame_ok :: "adapter \<Rightarrow> turn_event option res \<Rightarrow> adapter \<Rightarrow> bool" where
  "frame_ok st x st' \<longleftrightarrow> grows st st' \<and> result_ok st x st' \<and> audio_inv st' \<and> ids_inv st'"

lemmas frame_defs = frame_ok_def result_ok_def grows_def audio_inv_def ids_inv_def chosen_def

text \<open>Fields that the properties do not look at.\<close>

lemma frame_ok_frame [simp]:
  "frame_ok (st\<lparr>ad_vendor_sequence := a\<rparr>) x st' = frame_ok st x st'"
  "frame_ok (st\<lparr>ad_seen := b\<rparr>) x st' = frame_ok st x st'"
  "frame_ok (st\<lparr>ad_greeting_pending := c\<rparr>) x st' = frame_ok st x st'"
  "frame_ok (st\<lparr>ad_control_pending := d\<rparr>) x st' = frame_ok st x st'"
  by (auto simp: frame_ok_def result_ok_def grows_def event_ok_def reply_ok_def split: sum.splits option.splits)

lemma inv_frame [simp]:
  "audio_inv (st\<lparr>ad_vendor_sequence := a\<rparr>) = audio_inv st" "ids_inv (st\<lparr>ad_vendor_sequence := a\<rparr>) = ids_inv st"
  "audio_inv (st\<lparr>ad_seen := b\<rparr>) = audio_inv st" "ids_inv (st\<lparr>ad_seen := b\<rparr>) = ids_inv st"
  "audio_inv (st\<lparr>ad_greeting_pending := c\<rparr>) = audio_inv st" "ids_inv (st\<lparr>ad_greeting_pending := c\<rparr>) = ids_inv st"
  "audio_inv (st\<lparr>ad_control_pending := d\<rparr>) = audio_inv st" "ids_inv (st\<lparr>ad_control_pending := d\<rparr>) = ids_inv st"
  by (simp_all add: audio_inv_def ids_inv_def chosen_def)

lemma frame_ok_same: "audio_inv st \<Longrightarrow> ids_inv st \<Longrightarrow> x \<notin> range (Inr \<circ> Some) \<Longrightarrow> frame_ok st x st"
  by (auto simp: frame_ok_def result_ok_def grows_def split: sum.splits option.splits)

lemma frame_ok_quiet [simp]:
  "frame_ok st (Inl e) st = (audio_inv st \<and> ids_inv st)" "frame_ok st (Inr None) st = (audio_inv st \<and> ids_inv st)"
  by (simp_all add: frame_ok_def result_ok_def grows_def)

lemma ignored_ok: "audio_inv st \<Longrightarrow> ids_inv st \<Longrightarrow> ignored st = (x, st') \<Longrightarrow> frame_ok st x st'"
  by (auto simp: ignored_def intro: frame_ok_same)

lemma refused_ok: "audio_inv st \<Longrightarrow> ids_inv st \<Longrightarrow> refused c st = (x, st') \<Longrightarrow> frame_ok st x st'"
  by (auto simp: refused_def intro: frame_ok_same)

lemma frame_numbered [simp]:
  "grows st (st1\<lparr>ad_sequence := n\<rparr>) = grows st st1" "audio_inv (st1\<lparr>ad_sequence := n\<rparr>) = audio_inv st1"
  "ids_inv (st1\<lparr>ad_sequence := n\<rparr>) = ids_inv st1" "chosen (st1\<lparr>ad_sequence := n\<rparr>) = chosen st1"
  by (simp_all add: grows_def audio_inv_def ids_inv_def chosen_def fun_eq_iff)

text \<open>Any event.\<close>

lemma emit_ok:
  assumes e: "emit kind p q r conf st1 = (x, st')" and g: "grows st st1" and n: "ad_sequence st1 = ad_sequence st"
    and i: "audio_inv st1" "ids_inv st1" "identity_ok q" "identity_ok r"
    and rep: "\<forall>r'. r = Some r' \<longrightarrow> (\<exists>q'. q = Some q' \<and> map_of (ad_reply_questions st1) r' = Some q') \<and> r' \<notin> set (ad_finished st) \<and>
      (kind = ''tts_finished'' \<longrightarrow> r' \<in> set (ad_finished st1))"
    and sp: "kind \<in> {''sentence_started'', ''chat_text'', ''tts_audio''} \<longrightarrow>
      (\<exists>q' r'. q = Some q' \<and> r = Some r' \<and> q' \<in> set (ad_text_started st1) \<and> chosen st1 q' r')"
  shows "frame_ok st x st'"
proof -
  define ev where "ev = fst (event_of kind p q r conf st1)"
  have f: "pe_call_id ev = ad_call_id st1" "pe_session_id ev = ad_session_id st1" "pe_sequence ev = ad_sequence st1 + 1" "pe_kind ev = kind"
    "pe_question_id ev = q" "pe_reply_id ev = r"
    by (simp_all add: ev_def event_of_def Let_def)
  have x: "x = Inr (Some ev)" "st' = st1\<lparr>ad_sequence := ad_sequence st1 + 1\<rparr>"
    using e by (simp_all add: emit_def event_of_def Let_def ev_def)
  have g': "grows st st'" using g by (simp add: x(2))
  have c: "ad_call_id st1 = ad_call_id st" "ad_session_id st1 = ad_session_id st" using g by (simp_all add: grows_def)
  have "reply_ok st ev st'" using rep by (simp add: reply_ok_def f x(2))
  moreover have "speech_ok ev st'" using sp by (simp add: speech_ok_def speaks_def f x(2))
  ultimately have "event_ok st ev st'" using n i(3,4) c by (simp add: event_ok_def f x(2))
  then show ?thesis using g' i(1,2) by (simp add: frame_ok_def result_ok_def x)
qed

text \<open>An event without a reply.\<close>

lemma emit_plain:
  assumes "emit kind p q None conf st1 = (x, st')" "grows st st1" "ad_sequence st1 = ad_sequence st" "audio_inv st1" "ids_inv st1"
    "kind \<notin> {''sentence_started'', ''chat_text'', ''tts_audio''}" "ids_inv st1 \<Longrightarrow> identity_ok q"
  shows "frame_ok st x st'"
proof -
  have no: "identity_ok None" by (simp add: identity_ok_def)
  show ?thesis by (rule emit_ok [OF assms(1-5) assms(7) [OF assms(5)] no]) (use assms(6) in simp_all)
qed

lemma open_question_facts:
  "grows st (open_question raw fresh st)" "ad_sequence (open_question raw fresh st) = ad_sequence st"
  "audio_inv st \<Longrightarrow> audio_inv (open_question raw fresh st)"
  "ids_inv st \<Longrightarrow> id_ok fresh \<Longrightarrow> ids_inv (open_question raw fresh st)"
  by (auto simp: open_question_def grows_def audio_inv_def ids_inv_def chosen_def map_add_def split: option.splits)

lemma current_question_ok: "ids_inv st \<Longrightarrow> identity_ok (ad_question st)"
  by (cases "ad_question st") (auto simp: ids_inv_def id_ok_def identity_ok_def)

lemma read_audio_ok:
  assumes "audio_inv st" "ids_inv st" "read_audio b st = (x, st')"
  shows "frame_ok st x st'"
proof (cases "ad_audio_reply st")
  case None
  then show ?thesis using assms(3) ignored_ok [OF assms(1,2)] by (simp add: read_audio_def)
next
  case (Some r)
  then obtain q where q: "map_of (ad_reply_questions st) r = Some q" "q \<in> set (ad_text_started st)" "chosen st q r"
    using assms(1) by (auto simp: audio_inv_def)
  have ok: "identity_ok (Some q)" "identity_ok (Some r)" using assms(2) q(1) by (auto simp: ids_inv_def id_ok_def)
  show ?thesis
  proof (cases "r \<in> set (ad_finished st)")
    case True
    then show ?thesis using assms(3) Some ignored_ok [OF assms(1,2)] by (simp add: read_audio_def)
  next
    case False
    have e: "emit ''tts_audio'' (Audio_payload (case b of Raw_body b \<Rightarrow> length b | Json_body _ \<Rightarrow> 0)) (Some q) (Some r) JNull st = (x, st')"
      using assms(3) Some False q(1) by (simp add: read_audio_def)
    have g: "grows st st" by (simp add: grows_def)
    show ?thesis by (rule emit_ok [OF e g refl assms(1,2) ok]) (use False q in simp_all)
  qed
qed

lemma read_control_ok:
  assumes "audio_inv st" "ids_inv st" "id_ok fresh" "read_control qid fresh st = (x, st')"
  shows "frame_ok st x st'"
proof -
  let ?st1 = "st\<lparr>ad_control_pending := None\<rparr>"
  have i: "audio_inv ?st1" "ids_inv ?st1" using assms(1,2) by simp_all
  have "frame_ok ?st1 x st'"
  proof (cases "\<exists>raw k t. qid = Some raw \<and> ad_control_pending st = Some (k, t, ad_question st)")
    case True
    then obtain raw k t where c: "qid = Some raw" "ad_control_pending st = Some (k, t, ad_question st)" by blast
    let ?st2 = "open_question raw fresh ?st1"
    have e: "emit ''control_confirmed'' (Dict_payload (JObj [(''control_kind'', jtext k), (''control_token'', JStr t)])) (ad_question ?st2) None JNull ?st2 = (x, st')"
      using assms(4) c by (simp add: read_control_def Let_def)
    show ?thesis
      by (rule emit_plain [OF e]) (use i assms(3) open_question_facts current_question_ok in auto)
  next
    case False
    then have "(x, st') = ignored ?st1" using assms(4) by (auto simp: read_control_def Let_def split: option.splits prod.splits if_splits)
    then show ?thesis using ignored_ok [OF i] by metis
  qed
  then show ?thesis by simp
qed

lemma read_recognition_ok:
  assumes "audio_inv st" "ids_inv st" "read_recognition p st = (x, st')"
  shows "frame_ok st x st'"
proof (cases "last_result p")
  case (Inl y)
  then show ?thesis using assms frame_ok_same [OF assms(1,2)] by (auto simp: read_recognition_def)
next
  case (Inr r)
  show ?thesis
  proof (cases "confidence_ok (jget r ''confidence'')")
    case True
    have e: "emit (if jget r ''is_interim'' = JBool True then ''asr_interim'' else ''asr_final'') (payload_of (jget_def' r ''text'' (JStr [])))
            (ad_question st) None (jget r ''confidence'') st = (x, st')"
      using assms(3) Inr True by (simp add: read_recognition_def)
    show ?thesis by (rule emit_plain [OF e]) (use assms(1,2) current_question_ok in \<open>auto simp: grows_def\<close>)
  next
    case False
    then show ?thesis using assms(3) Inr refused_ok [OF assms(1,2)] by (simp add: read_recognition_def)
  qed
qed

lemma read_speech_ok:
  assumes "audio_inv st" "ids_inv st" "id_ok fresh" "read_speech n p qid fresh st = (x, st')"
  shows "frame_ok st x st'"
proof (cases "n = 450")
  case True
  show ?thesis
  proof (cases qid)
    case None
    then show ?thesis using assms(4) True ignored_ok [OF assms(1,2)] by (simp add: read_speech_def)
  next
    case (Some raw)
    let ?st0 = "st\<lparr>ad_greeting_pending := False\<rparr>"
    let ?st1 = "open_question raw fresh ?st0"
    have i: "audio_inv ?st0" "ids_inv ?st0" using assms(1,2) by simp_all
    have e: "emit ''user_speech_started'' Other_payload (ad_question ?st1) None JNull ?st1 = (x, st')"
      using assms(4) True Some by (simp add: read_speech_def Let_def)
    have "frame_ok ?st0 x st'"
      by (rule emit_plain [OF e]) (use i assms(3) open_question_facts current_question_ok in auto)
    then show ?thesis by simp
  qed
next
  case False
  let ?skip = "ad_question st = None \<or> (case qid of None \<Rightarrow> False | Some raw \<Rightarrow> map_of (ad_questions st) raw \<noteq> ad_question st)"
  consider "?skip" | "\<not> ?skip" "n = 451" | "\<not> ?skip" "n \<noteq> 451" by blast
  then show ?thesis
  proof cases
    case 1
    then show ?thesis using assms(4) False ignored_ok [OF assms(1,2)] by (simp add: read_speech_def)
  next
    case 2
    then show ?thesis using assms(4) read_recognition_ok [OF assms(1,2)] by (simp add: read_speech_def split: if_splits)
  next
    case 3
    have e: "emit ''user_speech_finished'' Other_payload (ad_question st) None JNull st = (x, st')"
      using assms(4) False 3 by (simp add: read_speech_def split: if_splits)
    show ?thesis by (rule emit_plain [OF e]) (use assms(1,2) current_question_ok in \<open>auto simp: grows_def\<close>)
  qed
qed

lemma grows_trans: "grows a b \<Longrightarrow> grows b c \<Longrightarrow> grows a c"
  by (auto simp: grows_def intro: map_le_trans)

lemma chosen_grows: "chosen a q r \<Longrightarrow> grows a b \<Longrightarrow> chosen b q r"
  by (auto simp: chosen_def grows_def map_le_def dest!: bspec)

text \<open>What the adapter keeps when only its tables grow.\<close>

definition moves :: "adapter \<Rightarrow> adapter \<Rightarrow> bool" where
  "moves st st' \<longleftrightarrow> grows st st' \<and> ad_sequence st' = ad_sequence st \<and> audio_inv st' \<and> ids_inv st'"

lemma moves_trans: "moves a b \<Longrightarrow> moves b c \<Longrightarrow> moves a c"
  by (auto simp: moves_def intro: grows_trans)

lemma moves_frame_ok: "moves a b \<Longrightarrow> frame_ok b x c \<Longrightarrow> frame_ok a x c"
proof -
  assume a: "moves a b" "frame_ok b x c"
  have "event_ok a e c" if "event_ok b e c" for e
    using that a(1) by (auto simp: event_ok_def reply_ok_def moves_def grows_def)
  then show ?thesis using a grows_trans [of a b c]
    by (auto simp: frame_ok_def result_ok_def moves_def split: sum.splits option.splits)
qed

lemma moves_ignored: "moves a b \<Longrightarrow> ignored b = (x, st') \<Longrightarrow> frame_ok a x st'"
  by (rule moves_frame_ok) (auto simp: moves_def intro: ignored_ok)

lemma bind_greeting_moves: "audio_inv st \<Longrightarrow> ids_inv st \<Longrightarrow> id_ok fresh \<Longrightarrow> moves st (bind_greeting n qid rid fresh st)"
proof -
  assume a: "audio_inv st" "ids_inv st" "id_ok fresh"
  let ?st1 = "\<lambda>raw. (open_question raw fresh st)\<lparr>ad_greeting_pending := False\<rparr>"
  have "moves st (?st1 raw)" for raw
    using a open_question_facts [where st = st and raw = raw and fresh = fresh] by (simp add: moves_def grows_def)
  moreover have "moves st st" using a by (simp add: moves_def grows_def)
  ultimately show ?thesis by (simp add: bind_greeting_def split: option.splits)
qed

lemma rag_guard_cases:
  assumes "rag_guard n p q raw st = (b, st')"
  obtains (free) "b" "st' = st" "ad_purpose st \<noteq> ''call'' \<or> q \<notin> set (ad_rag_questions st)"
    | (first) "b" "ad_purpose st = ''call''" "q \<in> set (ad_rag_questions st)" "map_of (ad_rag_reply st) q = None"
      "st' = st\<lparr>ad_rag_reply := AList.update q raw (ad_rag_reply st)\<rparr>"
    | (same) "b" "st' = st" "map_of (ad_rag_reply st) q = Some raw"
    | (quiet) "\<not> b" "st' = st" | (other) "\<not> b" "st' = st\<lparr>ad_audio_reply := None\<rparr>"
proof (cases "ad_purpose st \<noteq> ''call'' \<or> q \<notin> set (ad_rag_questions st)")
  case True
  then show ?thesis using free assms by (auto simp: rag_guard_def)
next
  case F: False
  then have g: "rag_guard n p q raw st = (case map_of (ad_rag_reply st) q of
        None \<Rightarrow> if n = 350 \<or> n = 550 \<and> json_truthy (chat_content p)
          then (True, st\<lparr>ad_rag_reply := AList.update q raw (ad_rag_reply st)\<rparr>) else (False, st)
      | Some selected \<Rightarrow> if selected = raw then (True, st) else (False, if n = 350 then st\<lparr>ad_audio_reply := None\<rparr> else st))"
    by (simp add: rag_guard_def)
  show ?thesis
  proof (cases "map_of (ad_rag_reply st) q")
    case None
    with g assms have "(if n = 350 \<or> n = 550 \<and> json_truthy (chat_content p)
          then (True, st\<lparr>ad_rag_reply := AList.update q raw (ad_rag_reply st)\<rparr>) else (False, st)) = (b, st')" by (simp only: option.case)
    then show ?thesis using first quiet F None by (metis prod.inject)
  next
    case (Some a)
    with g assms have "(if a = raw then (True, st) else (False, if n = 350 then st\<lparr>ad_audio_reply := None\<rparr> else st)) = (b, st')" by (simp only: option.case)
    then show ?thesis using same quiet other Some by (metis prod.inject)
  qed
qed

lemma rag_guard_moves:
  assumes "audio_inv st" "ids_inv st" "rag_guard n p q raw st = (b, st')"
  shows "moves st st'" "ad_questions st' = ad_questions st"
    "b \<Longrightarrow> ad_purpose st' \<noteq> ''call'' \<or> q \<notin> set (ad_rag_questions st') \<or> map_of (ad_rag_reply st') q = Some raw"
proof -
  have refl: "moves st st" using assms(1,2) by (simp add: moves_def grows_def)
  show "moves st st'"
    using assms(3)
  proof (cases rule: rag_guard_cases)
    case first
    have g: "grows st st'" using first by (auto simp: grows_def map_le_def update_conv')
    have k: "chosen st' q' r" if "chosen st q' r" for q' r using chosen_grows [OF that g] .
    have "audio_inv st'"
      unfolding audio_inv_def
    proof (intro allI impI)
      fix r assume "ad_audio_reply st' = Some r"
      then have "ad_audio_reply st = Some r" by (simp add: first(5))
      with assms(1) obtain q1 where "map_of (ad_reply_questions st) r = Some q1" "q1 \<in> set (ad_text_started st)" "chosen st q1 r"
        unfolding audio_inv_def by blast
      with k show "\<exists>q. map_of (ad_reply_questions st') r = Some q \<and> q \<in> set (ad_text_started st') \<and> chosen st' q r"
        by (auto simp: first(5))
    qed
    then show ?thesis using g assms(2) by (simp add: moves_def ids_inv_def first(5))
  next
    case other
    then show ?thesis using assms(1,2) by (simp add: moves_def grows_def audio_inv_def ids_inv_def)
  qed (simp_all add: refl)
  show "ad_questions st' = ad_questions st" using assms(3) by (cases rule: rag_guard_cases) simp_all
  show "b \<Longrightarrow> ad_purpose st' \<noteq> ''call'' \<or> q \<notin> set (ad_rag_questions st') \<or> map_of (ad_rag_reply st') q = Some raw"
    using assms(3) by (cases rule: rag_guard_cases) (auto simp: update_conv')
qed

lemma bind_reply_moves:
  assumes "audio_inv st" "ids_inv st" "id_ok fresh" "id_ok q" "bind_reply q raw fresh st = (r, q0, st')"
  shows "moves st st'" "map_of (ad_replies st') raw = Some r" "map_of (ad_reply_questions st') r = Some q0" "id_ok r"
    "ad_rag_reply st' = ad_rag_reply st" "ad_finished st' = ad_finished st"
proof -
  let ?st1 = "if map_of (ad_replies st) raw = None then st\<lparr>ad_replies := ad_replies st @ [(raw, r)]\<rparr> else st"
  have r: "r = (case map_of (ad_replies st) raw of Some x \<Rightarrow> x | None \<Rightarrow> fresh)"
    and st': "st' = (if map_of (ad_reply_questions st) r = None then ?st1\<lparr>ad_reply_questions := ad_reply_questions st @ [(r, q)]\<rparr> else ?st1)"
    and q0: "q0 = (case map_of (ad_reply_questions st) r of Some x \<Rightarrow> x | None \<Rightarrow> q)"
    using assms(5) by (auto simp: bind_reply_def Let_def split: option.splits if_splits)
  show ok: "id_ok r" using assms(2,3) r by (auto simp: ids_inv_def split: option.splits)
  show "map_of (ad_replies st') raw = Some r" "map_of (ad_reply_questions st') r = Some q0"
    using r q0 by (auto simp: st' map_add_def split: option.splits)
  show "ad_rag_reply st' = ad_rag_reply st" "ad_finished st' = ad_finished st" by (simp_all add: st')
  have g: "grows st st'" by (auto simp: st' grows_def map_le_def map_add_def split: option.splits)
  have "audio_inv st'"
    unfolding audio_inv_def
  proof (intro allI impI)
    fix a assume "ad_audio_reply st' = Some a"
    then have "ad_audio_reply st = Some a" by (simp add: st' split: if_splits)
    then obtain q1 where "map_of (ad_reply_questions st) a = Some q1" "q1 \<in> set (ad_text_started st)" "chosen st q1 a"
      using assms(1) by (auto simp: audio_inv_def)
    then show "\<exists>q1. map_of (ad_reply_questions st') a = Some q1 \<and> q1 \<in> set (ad_text_started st') \<and> chosen st' q1 a"
      using g chosen_grows [OF _ g] by (intro exI [of _ q1]) (auto simp: grows_def map_le_def dom_def)
  qed
  moreover have "ids_inv st'" using assms(2,4) ok r
    by (auto simp: st' ids_inv_def map_add_def split: option.splits if_splits)
  ultimately show "moves st st'" using g by (simp add: moves_def st')
qed

lemma settle_reply_frame_ok:
  assumes "audio_inv st" "ids_inv st" "id_ok fresh" "id_ok q" "settle_reply_frame n p q raw fresh st = (x, st')"
    "ad_purpose st \<noteq> ''call'' \<or> q \<notin> set (ad_rag_questions st) \<or> map_of (ad_rag_reply st) q = Some raw"
  shows "frame_ok st x st'"
proof -
  obtain r q0 st1 where b: "bind_reply q raw fresh st = (r, q0, st1)" by (cases "bind_reply q raw fresh st") auto
  note B = bind_reply_moves [OF assms(1-4) b]
  have m: "audio_inv st1" "ids_inv st1" "grows st st1" using B(1) by (simp_all add: moves_def)
  show ?thesis
  proof (cases "q0 \<noteq> q \<or> r \<in> set (ad_finished st1)")
    case True
    then have "ignored st1 = (x, st')" using assms(5) b by (simp add: settle_reply_frame_def split: if_splits)
    then show ?thesis by (rule moves_ignored [OF B(1)])
  next
    case False
    let ?st2 = "note_reply n q r st1"
    have c: "chosen st1 q r" using assms(6) m(3) B(2,5) by (auto simp: chosen_def grows_def)
    have e: "emit (reply_kind n) (reply_data n p) (Some q) (Some r) JNull ?st2 = (x, st')"
      using assms(5) b False by (simp add: settle_reply_frame_def)
    have g: "grows st1 ?st2" by (auto simp: note_reply_def grows_def)
    have ch: "chosen ?st2 q' r'" if "chosen st1 q' r'" for q' r' using chosen_grows [OF that g] .
    have ra: "audio_inv ?st2"
      unfolding audio_inv_def
    proof (intro allI impI)
      fix r' assume "ad_audio_reply ?st2 = Some r'"
      then have "(if n = 350 then Some r else ad_audio_reply st1) = Some r'" by (simp add: note_reply_def)
      then consider "n = 350" "r' = r" | "ad_audio_reply st1 = Some r'" by (metis option.inject)
      then show "\<exists>q'. map_of (ad_reply_questions ?st2) r' = Some q' \<and> q' \<in> set (ad_text_started ?st2) \<and> chosen ?st2 q' r'"
      proof cases
        case 1
        then show ?thesis using B(3) False ch [OF c] by (intro exI [of _ q]) (simp add: note_reply_def)
      next
        case 2
        then obtain q1 where "map_of (ad_reply_questions st1) r' = Some q1" "q1 \<in> set (ad_text_started st1)" "chosen st1 q1 r'"
          using m(1) by (auto simp: audio_inv_def)
        then show ?thesis using ch by (intro exI [of _ q1]) (simp add: note_reply_def)
      qed
    qed
    have ri: "ids_inv ?st2" using m(2) by (simp add: note_reply_def ids_inv_def)
    have ok: "identity_ok (Some q)" "identity_ok (Some r)" using assms(4) B(4) by (simp_all add: id_ok_def)
    have "frame_ok st1 x st'"
    proof (rule emit_ok [OF e g _ ra ri ok])
      show "ad_sequence ?st2 = ad_sequence st1" by (simp add: note_reply_def)
      show "\<forall>r'. Some r = Some r' \<longrightarrow> (\<exists>q'. Some q = Some q' \<and> map_of (ad_reply_questions ?st2) r' = Some q') \<and> r' \<notin> set (ad_finished st1) \<and>
          (reply_kind n = ''tts_finished'' \<longrightarrow> r' \<in> set (ad_finished ?st2))"
        using B(3) False by (simp add: note_reply_def reply_kind_def)
      show "reply_kind n \<in> {''sentence_started'', ''chat_text'', ''tts_audio''} \<longrightarrow>
          (\<exists>q' r'. Some q = Some q' \<and> Some r = Some r' \<and> q' \<in> set (ad_text_started ?st2) \<and> chosen ?st2 q' r')"
        using ch [OF c] by (simp add: note_reply_def reply_kind_def)
    qed
    then show ?thesis by (rule moves_frame_ok [OF B(1)])
  qed
qed

lemma question_of_ok: "ids_inv st \<Longrightarrow> question_of qid rid st = Some q \<Longrightarrow> id_ok q"
  by (cases rid) (auto simp: question_of_def ids_inv_def bind_eq_Some_conv split: option.splits)

lemma read_reply_ok:
  assumes "audio_inv st" "ids_inv st" "id_ok fq" "id_ok fr" "read_reply n p qid rid fq fr st = (x, st')"
  shows "frame_ok st x st'"
proof -
  let ?st1 = "bind_greeting n qid rid fq st"
  have m: "moves st ?st1" using bind_greeting_moves [OF assms(1-3)] .
  then have i: "audio_inv ?st1" "ids_inv ?st1" by (simp_all add: moves_def)
  show ?thesis
  proof (cases "\<exists>q raw. question_of qid rid ?st1 = Some q \<and> rid = Some raw \<and> \<not> (ad_question ?st1 \<noteq> Some q \<and> q \<notin> set (ad_preserved ?st1))")
    case False
    then have "ignored ?st1 = (x, st')"
      using assms(5) by (auto simp: read_reply_def Let_def split: option.splits if_splits)
    then show ?thesis by (rule moves_ignored [OF m])
  next
    case True
    then obtain q raw where q: "question_of qid rid ?st1 = Some q" "rid = Some raw" "\<not> (ad_question ?st1 \<noteq> Some q \<and> q \<notin> set (ad_preserved ?st1))"
      by blast
    obtain b st2 where g: "rag_guard n p q raw ?st1 = (b, st2)" by fastforce
    note G = rag_guard_moves [OF i g]
    have m2: "moves st st2" by (rule moves_trans [OF m G(1)])
    have r: "(x, st') = (case rag_guard n p q raw ?st1 of (False, st2) \<Rightarrow> ignored st2 | (True, st2) \<Rightarrow> settle_reply_frame n p q raw fr st2)"
      using assms(5) q(1,3) unfolding read_reply_def Let_def q(2) by (simp only: prod.case option.case if_False)
    show ?thesis
    proof (cases b)
      case True
      then have s: "settle_reply_frame n p q raw fr st2 = (x, st')" using r g by simp
      show ?thesis
        by (rule moves_frame_ok [OF m2], rule settle_reply_frame_ok [OF _ _ assms(4) question_of_ok [OF i(2) q(1)] s])
          (use G True in \<open>simp_all add: moves_def\<close>)
    next
      case False
      then have "ignored st2 = (x, st')" using r g by simp
      then show ?thesis by (rule moves_ignored [OF m2])
    qed
  qed
qed

lemma read_other_ok:
  assumes "audio_inv st" "ids_inv st" "read_other n p st = (x, st')"
  shows "frame_ok st x st'"
proof -
  have fr: "grows st (st\<lparr>ad_usage := u\<rparr>)" "grows st (st\<lparr>ad_ready := False\<rparr>)" "grows st st" for u by (simp_all add: grows_def)
  have i: "audio_inv (st\<lparr>ad_usage := u\<rparr>)" "ids_inv (st\<lparr>ad_usage := u\<rparr>)" "audio_inv (st\<lparr>ad_ready := False\<rparr>)" "ids_inv (st\<lparr>ad_ready := False\<rparr>)" for u
    using assms(1,2) by (simp_all add: audio_inv_def ids_inv_def chosen_def)
  have no: "identity_ok None" by (simp add: identity_ok_def)
  consider "n = 154" | "n = 152" | "n = 571" | "n = 567 \<or> n = 570" | "n \<notin> {154, 152, 571, 567, 570}" by auto
  then show ?thesis
  proof cases
    case 1
    then show ?thesis using assms(3) by (auto simp: read_other_def read_usage_def Let_def intro!: emit_plain fr i no)
  next
    case 2
    then show ?thesis using assms(3) by (auto simp: read_other_def intro!: emit_plain fr i no)
  next
    case 3
    then show ?thesis using assms
      by (cases "deleted_items p") (auto simp: read_other_def read_deleted_def intro: frame_ok_same emit_plain [OF _ fr(3) refl _ _ _ no])
  next
    case 4
    then show ?thesis using assms by (auto simp: read_other_def read_context_def intro: emit_plain [OF _ fr(3) refl _ _ _ no])
  next
    case 5
    then show ?thesis using assms ignored_ok by (simp add: read_other_def)
  qed
qed

lemma read_event_ok:
  assumes "audio_inv st" "ids_inv st" "id_ok fq" "id_ok fr" "read_event n p qid rid fq fr st = (x, st')"
  shows "frame_ok st x st'"
  using assms(5) read_control_ok [OF assms(1-3)] read_speech_ok [OF assms(1-3)] read_reply_ok [OF assms(1-4)] read_other_ok [OF assms(1,2)]
  unfolding read_event_def by (simp split: if_splits)

lemma vendor_sequence_cases:
  assumes "vendor_sequence key v st = (y, st')"
  obtains a where "st' = st\<lparr>ad_vendor_sequence := a\<rparr>"
proof (cases "\<exists>n. v = JInt n")
  case True
  then obtain n where v: "v = JInt n" by blast
  let ?a = "if n < 0 \<or> n \<le> (case map_of (ad_vendor_sequence st) key of None \<Rightarrow> - 1 | Some m \<Rightarrow> m) then ad_vendor_sequence st
    else AList.update key n (ad_vendor_sequence st)"
  have "snd (vendor_sequence key v st) = st\<lparr>ad_vendor_sequence := ?a\<rparr>" unfolding v vendor_sequence_def by simp
  then show ?thesis using that [of ?a] assms by (simp only: snd_conv)
next
  case False
  then have "snd (vendor_sequence key v st) = st\<lparr>ad_vendor_sequence := ad_vendor_sequence st\<rparr>" by (cases v) (simp_all add: vendor_sequence_def)
  then show ?thesis using that [of "ad_vendor_sequence st"] assms by (simp only: snd_conv)
qed

lemma boundary_new_cases:
  assumes "boundary_new env n p st = (y, st')"
  obtains a where "st' = st\<lparr>ad_seen := a\<rparr>"
proof -
  let ?d = "pv_digest env (n, p, if n = 459 then ad_question st else None)"
  let ?a = "if n \<notin> set boundary_events \<or> ?d \<in> set (ad_seen st) then ad_seen st
    else if length (ad_seen st @ [?d]) > 4096 then tl (ad_seen st @ [?d]) else ad_seen st @ [?d]"
  have "snd (boundary_new env n p st) = st\<lparr>ad_seen := ?a\<rparr>" by (simp add: boundary_new_def Let_def)
  then show ?thesis using that assms by simp
qed

lemma read_json_ok:
  assumes "audio_inv st" "ids_inv st" "id_ok fq" "id_ok fr" "read_json env n p h fq fr st = (x, st')"
  shows "frame_ok st x st'"
proof (cases "bindR (vendor_id (jget p ''question_id'')) (\<lambda>qid. map_sum id (Pair qid) (vendor_id (jget p ''reply_id'')))")
  case (Inl y)
  then show ?thesis using assms(5) frame_ok_same [OF assms(1,2)] by (auto simp: read_json_def)
next
  case (Inr ids)
  obtain qid rid where ids: "ids = (qid, rid)" by fastforce
  obtain y st1 where v: "vendor_sequence (n, qid, rid) (frame_number p h) st = (y, st1)" by fastforce
  obtain a where a: "st1 = st\<lparr>ad_vendor_sequence := a\<rparr>" using vendor_sequence_cases [OF v] .
  have i1: "audio_inv st1" "ids_inv st1" using assms(1,2) by (simp_all add: a)
  have s: "(case (y, st1) of (Inl x, st1) \<Rightarrow> (Inl x, st1) | (Inr False, st1) \<Rightarrow> ignored st1
      | (Inr True, st1) \<Rightarrow> (case boundary_new env n p st1 of (False, st2) \<Rightarrow> ignored st2 | (True, st2) \<Rightarrow> read_event n p qid rid fq fr st2)) = (x, st')"
    using assms(5) Inr ids v by (simp add: read_json_def)
  have "frame_ok st1 x st'"
  proof (cases "y = Inr True")
    case False
    then consider z where "y = Inl z" | "y = Inr False" by (cases y) auto
    then show ?thesis using s frame_ok_same [OF i1] ignored_ok [OF i1] by cases auto
  next
    case True
    obtain b st2 where w: "boundary_new env n p st1 = (b, st2)" by fastforce
    obtain c where c: "st2 = st1\<lparr>ad_seen := c\<rparr>" using boundary_new_cases [OF w] .
    have i2: "audio_inv st2" "ids_inv st2" using i1 by (simp_all add: c)
    have "frame_ok st2 x st'"
      using s True w ignored_ok [OF i2] read_event_ok [OF i2 assms(3,4)] by (cases b) auto
    then show ?thesis by (simp add: c)
  qed
  then show ?thesis by (simp add: a)
qed

lemma normalize_ok:
  assumes "audio_inv st" "ids_inv st" "id_ok fq" "id_ok fr" "normalize_frame env f fq fr st = (x, st')"
  shows "frame_ok st x st'"
  using assms(5) refused_ok [OF assms(1,2)] ignored_ok [OF assms(1,2)] read_audio_ok [OF assms(1,2)] read_json_ok [OF assms(1-4)]
    assms(1,2)
  unfolding normalize_frame_def by (auto split: if_splits frame_body.splits)

definition arrival_ok :: "arrival \<Rightarrow> bool" where
  "arrival_ok a \<longleftrightarrow> id_ok (fst (snd a)) \<and> id_ok (snd (snd a))"

lemma read_arrival_ok:
  assumes "audio_inv st" "ids_inv st" "arrival_ok a" "read_arrival env a st = (x, st')"
  shows "frame_ok st x st'"
  using assms normalize_ok [OF assms(1,2)]
  by (cases a) (auto simp: read_arrival_def arrival_ok_def split: sum.splits)

lemma receive_frames_ok:
  assumes "audio_inv st" "ids_inv st" "\<forall>a \<in> set as. arrival_ok a" "receive_frames env as st = (y, rest, st')"
  shows "frame_ok st (case y of Got e \<Rightarrow> Inr (Some e) | _ \<Rightarrow> Inr None) st'"
  using assms
proof (induction env as st rule: receive_frames.induct)
  case (1 env as st)
  show ?case
  proof (cases "ad_wire st = None \<or> as = []")
    case True
    then have "st' = st \<and> (\<forall>e. y \<noteq> Got e)" using 1(5) by (subst (asm) receive_frames.simps) (auto split: if_splits)
    then show ?thesis using 1(2,3) by (cases y) auto
  next
    case False
    then obtain a as' where as: "as = a # as'" by (cases as) auto
    obtain x st1 where r: "read_arrival env a st = (x, st1)" by fastforce
    have f: "frame_ok st x st1" using read_arrival_ok [OF 1(2,3) _ r] 1(4) as by simp
    then have i: "audio_inv st1" "ids_inv st1" by (simp_all add: frame_ok_def)
    consider z where "x = Inl z" | e where "x = Inr (Some e)" | "x = Inr None" by (cases x) auto
    then show ?thesis
    proof cases
      case 1: 1
      then show ?thesis using 1 \<open>receive_frames env as st = _\<close> False as r f
        by (auto simp: receive_frames.simps frame_ok_def result_ok_def)
    next
      case 2
      then show ?thesis using \<open>receive_frames env as st = _\<close> False as r f by (auto simp: receive_frames.simps)
    next
      case 3
      have m: "moves st st1" using f 3 by (simp add: frame_ok_def moves_def result_ok_def)
      have "receive_frames env as' st1 = (y, rest, st')" using \<open>receive_frames env as st = _\<close> False as r 3
        by (subst (asm) receive_frames.simps) (cases "ad_wire st", simp_all)
      then have "frame_ok st1 (case y of Got e \<Rightarrow> Inr (Some e) | _ \<Rightarrow> Inr None) st'"
        using "1.IH" [OF _ as r [symmetric] 3 refl i] False "1.prems"(3) as by auto
      then show ?thesis by (rule moves_frame_ok [OF m])
    qed
  qed
qed

section \<open>A session\<close>

text \<open>What is done with an open session, in any order and with any outcome of the writes.\<close>

datatype ad_action =
    Receive "arrival list"
  | Greet "exn option" pystr
  | Query "exn option" pystr string pystr
  | Inject datetime "exn option" pystr pystr
  | Keep pystr
  | Speak "exn option" bytes
  | Interrupt datetime "exn option" pystr
  | Truncate datetime "exn option" pystr int "pystr option"
  | Delete "exn option" pystr
  | Prepare pystr pystr
  | Finish "int option"

fun got :: "received \<Rightarrow> turn_event list" where
  "got (Got e) = [e]"
| "got _ = []"

fun ad_step :: "provider_env \<Rightarrow> ad_action \<Rightarrow> adapter \<Rightarrow> turn_event list \<times> adapter" where
  "ad_step env (Receive as) st = (case receive_event env as st of (y, _, st') \<Rightarrow> (got y, st'))"
| "ad_step env (Greet fail c) st = ([], snd (say_hello env fail c st))"
| "ad_step env (Query fail c kind token) st = ([], snd (control_query env fail c kind token st))"
| "ad_step env (Inject now fail q c) st = ([], snd (inject_rag env now fail q c st))"
| "ad_step env (Keep q) st = ([], preserve_playing_question q st)"
| "ad_step env (Speak fail pcm) st = ([], snd (send_audio env fail pcm st))"
| "ad_step env (Interrupt now fail r) st = ([], snd (interrupt_reply env now fail r st))"
| "ad_step env (Truncate now fail r ms item) st = ([], snd (truncate_reply_context env now fail r ms item st))"
| "ad_step env (Delete fail q) st = ([], snd (delete_backchannel env fail q st))"
| "ad_step env (Prepare persona ctx) st = ([], snd (inject_context persona ctx st))"
| "ad_step env (Finish expected) st = ([], finish_session expected st)"

fun ad_run :: "provider_env \<Rightarrow> ad_action list \<Rightarrow> adapter \<Rightarrow> turn_event list \<times> adapter" where
  "ad_run env [] st = ([], st)"
| "ad_run env (a # acts) st = (case ad_step env a st of (es, st1) \<Rightarrow> case ad_run env acts st1 of (fs, st2) \<Rightarrow> (es @ fs, st2))"

fun action_ok :: "ad_action \<Rightarrow> bool" where
  "action_ok (Receive as) = list_all arrival_ok as"
| "action_ok _ = True"

text \<open>A request changes nothing of what a frame is read against, but for the questions with injected context.\<close>

definition core :: "adapter \<Rightarrow> adapter" where
  "core st = st\<lparr>ad_wire := None, ad_secret := None, ad_ready := False, ad_preserved := [], ad_persona := [], ad_context := [],
     ad_generation := 0, ad_greeting_session := None, ad_greeting_pending := False, ad_control_pending := None, ad_rag_questions := []\<rparr>"

definition requested :: "adapter \<Rightarrow> adapter \<Rightarrow> bool" where
  "requested st st' \<longleftrightarrow> core st' = core st \<and>
     (ad_rag_questions st' = ad_rag_questions st \<or>
      (\<exists>q. q \<notin> set (ad_text_started st) \<and> ad_rag_questions st' = List.insert q (ad_rag_questions st)))"

lemma requested_refl [simp]: "requested st st"
  by (simp add: requested_def)

lemma requested_wire [simp]: "requested st (st1\<lparr>ad_wire := w\<rparr>) = requested st st1" "requested st (st1\<lparr>ad_control_pending := c\<rparr>) = requested st st1"
  by (simp_all add: requested_def core_def)

lemma send_requested:
  assumes "requested st (snd (claim st))"
  shows "requested st (snd (send env fail n p rr claim st))"
proof -
  have w: "requested st (snd (write_frame env fail n p s))" if "requested st s" for s
    using that by (auto simp: write_frame_def split: sum.splits option.splits)
  obtain y s where c: "claim st = (y, s)" by fastforce
  have "requested st s" using assms c by simp
  with w show ?thesis by (auto simp: send_def c split: sum.splits bool.splits)
qed

lemma core_fields:
  assumes "core st' = core st"
  shows "ad_call_id st' = ad_call_id st" "ad_session_id st' = ad_session_id st" "ad_purpose st' = ad_purpose st" "ad_events st' = ad_events st" "ad_sequence st' = ad_sequence st" "ad_question st' = ad_question st" "ad_questions st' = ad_questions st" "ad_replies st' = ad_replies st" "ad_reply_questions st' = ad_reply_questions st" "ad_text_started st' = ad_text_started st" "ad_rag_reply st' = ad_rag_reply st" "ad_finished st' = ad_finished st" "ad_audio_reply st' = ad_audio_reply st"
  using arg_cong [OF assms, of ad_call_id] arg_cong [OF assms, of ad_session_id] arg_cong [OF assms, of ad_purpose] arg_cong [OF assms, of ad_events] arg_cong [OF assms, of ad_sequence] arg_cong [OF assms, of ad_question] arg_cong [OF assms, of ad_questions] arg_cong [OF assms, of ad_replies] arg_cong [OF assms, of ad_reply_questions] arg_cong [OF assms, of ad_text_started] arg_cong [OF assms, of ad_rag_reply] arg_cong [OF assms, of ad_finished] arg_cong [OF assms, of ad_audio_reply]
  by (simp_all add: core_def)

lemma request_step:
  assumes "\<And>as. a \<noteq> Receive as"
  shows "fst (ad_step env a st) = []" "requested st (snd (ad_step env a st))"
proof -
  show "fst (ad_step env a st) = []" using assms by (cases a) auto
  have rag: "requested st (snd (claim_rag q st))" for q
  proof (cases "ad_question st \<noteq> Some q \<or> q \<in> set (ad_text_started st) \<or> q \<in> set (ad_rag_questions st)")
    case True
    then show ?thesis by (simp add: claim_rag_def)
  next
    case False
    then have "snd (claim_rag q st) = st\<lparr>ad_rag_questions := List.insert q (ad_rag_questions st)\<rparr>" by (simp add: claim_rag_def)
    then show ?thesis using False by (auto simp: requested_def core_def)
  qed
  have c: "requested st (snd (no_claim st))" "requested st (snd (claim_control k t st))" "requested st (snd (claim_greeting st))"
    "requested st (snd (claim_deletion raw q st))" "requested st (snd (claim_target r st))" "requested st (snd (claim_truncate r i st))"
    "requested st (snd (claim_rag q st))" for k t raw q r i
    using rag by (simp_all add: no_claim_def claim_control_def claim_greeting_def claim_deletion_def claim_target_def claim_truncate_def
        requested_def core_def)
  note s = send_requested
  show "requested st (snd (ad_step env a st))"
  proof (cases a)
    case (Greet fail t)
    have "requested st (snd (send env fail 300 (Json_body (JObj [(''content'', JStr t)])) True claim_greeting st))" by (rule s, rule c(3))
    with Greet show ?thesis by (auto simp: say_hello_def outcome_def split: prod.splits)
  next
    case (Query fail t k tok)
    have "requested st (snd (send env fail 501 (Json_body (JObj [(''content'', JStr t)])) True (claim_control k tok) st))" by (rule s, rule c(2))
    with Query show ?thesis by (auto simp: control_query_def split: prod.splits sum.splits)
  next
    case (Inject now fail q t)
    have "requested st (snd (send env fail 502 (rag_payload env t) True (claim_rag q) st))" by (rule s, rule c(7))
    with Inject show ?thesis by (auto simp: inject_rag_def outcome_def split: prod.splits sum.splits)
  next
    case (Keep q)
    then show ?thesis by (simp add: preserve_playing_question_def requested_def core_def)
  next
    case (Speak fail pcm)
    have "requested st (snd (send env fail 200 (Raw_body pcm) True no_claim st))" by (rule s, rule c(1))
    with Speak show ?thesis by (auto simp: send_audio_def)
  next
    case (Interrupt now fail r)
    have "requested st (snd (send env fail 515 (Json_body (JObj [])) True (claim_target r) st))" by (rule s, rule c(5))
    with Interrupt show ?thesis by (auto simp: interrupt_reply_def split: sum.splits bool.splits)
  next
    case (Truncate now fail r ms i)
    have "requested st (snd (send env fail 513 p True (claim_truncate r i) st))" for p by (rule s, rule c(6))
    with Truncate show ?thesis by (auto simp: truncate_reply_context_def split: sum.splits bool.splits)
  next
    case (Delete fail q)
    have d: "requested st (snd (send env fail 514 p True (claim_deletion raw q) st))" for p raw by (rule s, rule c(4))
    have "requested st s'" if "send env fail 514 p True (claim_deletion raw q) st = (y, s')" for p raw y s'
      using d [of p raw] that by simp
    with Delete show ?thesis by (auto simp: delete_backchannel_def split: option.splits prod.splits sum.splits)
  next
    case (Prepare p x)
    then show ?thesis by (simp add: inject_context_def requested_def core_def)
  next
    case (Finish e)
    then show ?thesis by (simp add: finish_session_def requested_def core_def)
  qed (use assms in auto)
qed

definition session_inv :: "turn_event list \<Rightarrow> adapter \<Rightarrow> bool" where
  "session_inv outs st \<longleftrightarrow> audio_inv st \<and> ids_inv st \<and> 0 \<le> ad_sequence st \<and>
     map pe_sequence (outs @ ad_events st) = [1..ad_sequence st] \<and>
     (\<forall>e \<in> set (outs @ ad_events st). addressed (ad_call_id st) (ad_session_id st) e \<and> speech_ok e st \<and>
       (\<forall>r. pe_reply_id e = Some r \<longrightarrow> (\<exists>q. pe_question_id e = Some q \<and> map_of (ad_reply_questions st) r = Some q) \<and>
          (pe_kind e = ''tts_finished'' \<longrightarrow> r \<in> set (ad_finished st)))) \<and>
     sorted_wrt (\<lambda>e e'. \<forall>r. pe_kind e = ''tts_finished'' \<and> pe_reply_id e = Some r \<longrightarrow> pe_reply_id e' \<noteq> Some r) (outs @ ad_events st)"

lemma requested_inv:
  assumes i: "session_inv outs st" and r: "requested st st'"
  shows "session_inv outs st'"
proof -
  note f = core_fields [OF conjunct1 [OF r [unfolded requested_def]]]
  have ch: "chosen st' q r'" if "chosen st q r'" "q \<in> set (ad_text_started st)" for q r'
    using that r f by (auto simp: chosen_def requested_def)
  have a: "audio_inv st'" using i ch f by (auto simp: session_inv_def audio_inv_def)
  have b: "ids_inv st'" using i f by (auto simp: session_inv_def ids_inv_def)
  have c: "speech_ok e st'" if "speech_ok e st" for e using that ch f by (auto simp: speech_ok_def)
  show ?thesis using i a b c f by (simp add: session_inv_def)
qed

lemma frame_inv:
  assumes i: "session_inv outs st" and q: "ad_events st = []" and f: "frame_ok st (case y of Got e \<Rightarrow> Inr (Some e) | _ \<Rightarrow> Inr None) st'"
  shows "session_inv (outs @ got y) st'"
proof -
  have g: "grows st st'" "audio_inv st'" "ids_inv st'" using f by (simp_all add: frame_ok_def)
  have ids: "ad_call_id st' = ad_call_id st" "ad_session_id st' = ad_session_id st" "ad_events st' = []" using g(1) q by (simp_all add: grows_def)
  have old: "addressed (ad_call_id st') (ad_session_id st') e \<and> speech_ok e st' \<and>
       (\<forall>r. pe_reply_id e = Some r \<longrightarrow> (\<exists>q. pe_question_id e = Some q \<and> map_of (ad_reply_questions st') r = Some q) \<and>
          (pe_kind e = ''tts_finished'' \<longrightarrow> r \<in> set (ad_finished st')))" if "e \<in> set outs" for e
  proof -
    have e: "addressed (ad_call_id st) (ad_session_id st) e" "speech_ok e st"
      "\<forall>r. pe_reply_id e = Some r \<longrightarrow> (\<exists>q. pe_question_id e = Some q \<and> map_of (ad_reply_questions st) r = Some q) \<and>
          (pe_kind e = ''tts_finished'' \<longrightarrow> r \<in> set (ad_finished st))"
      using i that by (auto simp: session_inv_def)
    have "speech_ok e st'" using e(2) g(1) chosen_grows [OF _ g(1)] by (auto simp: speech_ok_def grows_def)
    moreover have "map_of (ad_reply_questions st') r = Some q" if "map_of (ad_reply_questions st) r = Some q" for r q
      using that g(1) by (auto simp: grows_def map_le_def dom_def)
    moreover have "set (ad_finished st) \<subseteq> set (ad_finished st')" using g(1) by (simp add: grows_def)
    ultimately show ?thesis using e(1,3) ids by auto
  qed
  show ?thesis
  proof (cases "\<exists>e. y = Got e")
    case False
    then have y: "got y = []" "ad_sequence st' = ad_sequence st" using f by (cases y; simp add: frame_ok_def result_ok_def)+
    show ?thesis using i old g(2,3) ids q by (simp add: session_inv_def y)
  next
    case True
    then obtain e where y: "y = Got e" by blast
    then have ev: "event_ok st e st'" using f by (simp add: frame_ok_def result_ok_def)
    have n: "ad_sequence st' = ad_sequence st + 1" "pe_sequence e = ad_sequence st + 1" "0 \<le> ad_sequence st" using ev i by (simp_all add: event_ok_def session_inv_def)
    have new: "addressed (ad_call_id st') (ad_session_id st') e \<and> speech_ok e st' \<and>
       (\<forall>r. pe_reply_id e = Some r \<longrightarrow> (\<exists>q. pe_question_id e = Some q \<and> map_of (ad_reply_questions st') r = Some q) \<and>
          (pe_kind e = ''tts_finished'' \<longrightarrow> r \<in> set (ad_finished st')))"
      using ev g(3) n ids by (simp add: event_ok_def addressed_def reply_ok_def)
    have fin: "\<forall>e' \<in> set outs. \<forall>r. pe_kind e' = ''tts_finished'' \<and> pe_reply_id e' = Some r \<longrightarrow> pe_reply_id e \<noteq> Some r"
      using i ev by (auto simp: session_inv_def event_ok_def reply_ok_def)
    have s: "map pe_sequence outs = [1..ad_sequence st]"
      "sorted_wrt (\<lambda>e e'. \<forall>r. pe_kind e = ''tts_finished'' \<and> pe_reply_id e = Some r \<longrightarrow> pe_reply_id e' \<noteq> Some r) outs"
      using i q by (simp_all add: session_inv_def)
    have u: "[1..ad_sequence st + 1] = [1..ad_sequence st] @ [ad_sequence st + 1]" using n(3) upto_rec2 [of 1 "ad_sequence st + 1"] by simp
    show ?thesis
      unfolding session_inv_def using g(2,3) ids old new fin s n u by (simp add: y sorted_wrt_append)
  qed
qed

lemma step_inv:
  assumes i: "session_inv outs st" and ok: "action_ok a" and s: "ad_step env a st = (es, st')"
  shows "session_inv (outs @ es) st'"
proof (cases "\<exists>as. a = Receive as")
  case False
  then show ?thesis using request_step [where a = a and env = env and st = st] requested_inv [OF i, of st'] s by auto
next
  case True
  then obtain as where a: "a = Receive as" by blast
  obtain y rest st1 where r: "receive_event env as st = (y, rest, st1)" by (cases "receive_event env as st")
  have es: "es = got y" "st' = st1" using s a r by simp_all
  show ?thesis
  proof (cases "ad_events st")
    case (Cons e q)
    then have y: "y = Got e" "st1 = st\<lparr>ad_events := q\<rparr>" using r by (simp_all add: receive_event_def)
    have fr: "audio_inv st1 = audio_inv st" "ids_inv st1 = ids_inv st" "speech_ok x st1 = speech_ok x st" for x
      by (simp_all add: y(2) audio_inv_def ids_inv_def speech_ok_def chosen_def)
    show ?thesis using i fr by (simp add: session_inv_def es y Cons)
  next
    case Nil
    have f: "receive_frames env as st = (y, rest, st1)" using r Nil by (simp add: receive_event_def)
    have "frame_ok st (case y of Got e \<Rightarrow> Inr (Some e) | _ \<Rightarrow> Inr None) st1"
      by (rule receive_frames_ok [OF _ _ _ f]) (use i ok a in \<open>simp_all add: session_inv_def list_all_iff\<close>)
    from frame_inv [OF i Nil this] show ?thesis by (simp add: es)
  qed
qed

lemma run_inv:
  "session_inv outs st \<Longrightarrow> list_all action_ok acts \<Longrightarrow> ad_run env acts st = (es, st') \<Longrightarrow> session_inv (outs @ es) st'"
proof (induction acts arbitrary: outs st es)
  case (Cons a acts)
  obtain e1 st1 where s: "ad_step env a st = (e1, st1)" by fastforce
  obtain e2 where r: "ad_run env acts st1 = (e2, st')" "es = e1 @ e2" using Cons.prems(3) s by (auto split: prod.splits)
  have "session_inv (outs @ e1) st1" using step_inv [OF Cons.prems(1) _ s] Cons.prems(2) by simp
  from Cons.IH [OF this _ r(1)] Cons.prems(2) show ?case by (simp add: r(2))
qed simp

text \<open>A session that was started, and not resumed.\<close>

lemma start_inv:
  assumes "start_session env now fail first fresh dialog None st0 = (Inr sid, st)"
  shows "session_inv [] st" "ad_session_id st = fresh" "sid = fresh" "ad_call_id st = ad_call_id st0" "ad_purpose st = ad_purpose st0"
    "ad_control_pending st = None" "\<forall>e \<in> set (ad_events st). pe_kind e = ''session_ready''"
proof -
  let ?st2 = "(forget_session st0)\<lparr>ad_session_id := fresh, ad_starting := Some (ad_generation (forget_session st0))\<rparr>"
  obtain payload where o: "open_session env fail first payload ?st2 = (Inr sid, st)"
    using assms by (auto simp: start_session_def Let_def split: if_splits sum.splits)
  obtain x s where sd: "send env fail 100 (Json_body payload) False no_claim ?st2 = (x, s)" by fastforce
  have c: "requested ?st2 s" using send_requested [where claim = no_claim and st = ?st2 and env = env and fail = fail and n = 100 and p = "Json_body payload" and rr = False] sd
    by (simp add: no_claim_def)
  have p: "ad_control_pending s = None"
    using sd by (auto simp: send_def no_claim_def write_frame_def forget_session_def split: if_splits sum.splits option.splits)
  obtain y where x: "x = Inr y" using o sd by (cases x) (auto simp: open_session_def)
  obtain d where a: "start_answer env (ad_session_id s) first = Inr d" "sid = ad_session_id s" "st = become_ready d s\<lparr>ad_starting := None\<rparr>"
    using o sd x by (auto simp: open_session_def split: sum.splits)
  note f = core_fields [OF conjunct1 [OF c [unfolded requested_def]], unfolded forget_session_def, simplified]
  have st: "st = s\<lparr>ad_dialog_id := d, ad_ready := True, ad_sequence := 1, ad_starting := None,
      ad_events := [\<lparr>pe_call_id = ad_call_id st0, pe_session_id = fresh, pe_sequence = 1, pe_kind = ''session_ready'', pe_question_id = None,
         pe_reply_id = None, pe_payload = Other_payload, te_confidence = JNull\<rparr>]\<rparr>"
    using f by (simp add: a(3) become_ready_def event_of_def Let_def)
  show "ad_session_id st = fresh" "sid = fresh" "ad_call_id st = ad_call_id st0" "ad_purpose st = ad_purpose st0" "ad_control_pending st = None"
    "\<forall>e \<in> set (ad_events st). pe_kind e = ''session_ready''"
    using f p by (simp_all add: st a(2))
  show "session_inv [] st"
    using f by (simp add: st session_inv_def audio_inv_def ids_inv_def addressed_def identity_ok_def speech_ok_def speaks_def upto.simps)
qed

lemma session_run:
  assumes "start_session env now fail first fresh dialog None st0 = (Inr sid, st)" "list_all action_ok acts" "ad_run env acts st = (es, st')"
  shows "session_inv es st'"
  using run_inv [OF start_inv(1) [OF assms(1)] assms(2,3)] by simp

lemma ad_run_append: "ad_run env (xs @ ys) st = (case ad_run env xs st of (es, st1) \<Rightarrow> case ad_run env ys st1 of (fs, st2) \<Rightarrow> (es @ fs, st2))"
  by (induction xs arbitrary: st) (auto split: prod.splits)

section \<open>What comes out\<close>

lemma frame_identity: "session_inv outs st \<Longrightarrow> ad_call_id st = cid \<Longrightarrow> ad_session_id st = sid \<Longrightarrow> \<forall>e \<in> set outs. addressed cid sid e"
  by (auto simp: session_inv_def)

lemma upto_prefix: "map f xs @ map f ys = [1..n] \<Longrightarrow> map f xs = [1..int (length xs)]"
proof -
  assume a: "map f xs @ map f ys = [1..n]"
  then have "map f xs = take (length xs) [1..n]" by (metis append_eq_conv_conj length_map)
  moreover have "length xs \<le> length [1..n]" using a by (metis length_append length_map le_add1)
  moreover have "take (length xs) [1..n] = [1..int (length xs)]"
  proof (rule nth_equalityI)
    show "length (take (length xs) [1..n]) = length [1..int (length xs)]" using \<open>length xs \<le> length [1..n]\<close> by simp
    fix i assume "i < length (take (length xs) [1..n])"
    then have "i < length xs" "int i < n" by auto
    then show "take (length xs) [1..n] ! i = [1..int (length xs)] ! i" by (simp add: nth_upto)
  qed
  ultimately show ?thesis by simp
qed

lemma session_numbers: "session_inv outs st \<Longrightarrow> map pe_sequence outs = [1..int (length outs)]"
  by (rule upto_prefix [of _ _ "ad_events st" "ad_sequence st"]) (simp add: session_inv_def)

lemma run_keeps:
  "session_inv outs st \<Longrightarrow> list_all action_ok acts \<Longrightarrow> ad_run env acts st = (es, st') \<Longrightarrow>
   ad_call_id st' = ad_call_id st \<and> ad_session_id st' = ad_session_id st \<and> ad_purpose st' = ad_purpose st \<and>
   set (ad_rag_questions st) \<subseteq> set (ad_rag_questions st')"
proof (induction acts arbitrary: outs st es)
  case (Cons a acts)
  obtain e1 st1 where s: "ad_step env a st = (e1, st1)" by fastforce
  obtain e2 where r: "ad_run env acts st1 = (e2, st')" "es = e1 @ e2" using Cons.prems(3) s by (auto split: prod.splits)
  have i: "session_inv (outs @ e1) st1" using step_inv [OF Cons.prems(1) _ s] Cons.prems(2) by simp
  have "ad_call_id st1 = ad_call_id st \<and> ad_session_id st1 = ad_session_id st \<and> ad_purpose st1 = ad_purpose st \<and>
     set (ad_rag_questions st) \<subseteq> set (ad_rag_questions st1)"
  proof (cases "\<exists>as. a = Receive as")
    case False
    then have "requested st st1" using request_step(2) [where a = a and env = env and st = st] s by auto
    then show ?thesis using core_fields [of st1 st] by (auto simp: requested_def)
  next
    case True
    then obtain as where a: "a = Receive as" by blast
    obtain y rest st2 where q: "receive_event env as st = (y, rest, st2)" by (cases "receive_event env as st")
    have st1: "st1 = st2" using s a q by simp
    show ?thesis
    proof (cases "ad_events st")
      case (Cons e es)
      then have "st1 = st\<lparr>ad_events := es\<rparr>" using q st1 by (simp add: receive_event_def)
      then show ?thesis by simp
    next
      case Nil
      have f: "receive_frames env as st = (y, rest, st2)" using q Nil by (simp add: receive_event_def)
      have "frame_ok st (case y of Got e \<Rightarrow> Inr (Some e) | _ \<Rightarrow> Inr None) st2"
        by (rule receive_frames_ok [OF _ _ _ f]) (use Cons.prems(1,2) a in \<open>simp_all add: session_inv_def list_all_iff\<close>)
      then show ?thesis by (simp add: st1 frame_ok_def grows_def)
    qed
  qed
  then show ?case using Cons.IH [OF i _ r(1)] Cons.prems(2) by auto
qed simp

section \<open>Confirmations\<close>

definition control_payload :: "string \<times> pystr \<Rightarrow> ev_payload" where
  "control_payload c = (case c of (kind, token) \<Rightarrow>
     Dict_payload (JObj [(''control_kind'', jtext kind), (''control_token'', JStr token)]))"

definition confirmed :: "turn_event list \<Rightarrow> ev_payload list" where
  "confirmed es = map pe_payload (filter (\<lambda>e. pe_kind e = ''control_confirmed'') es)"

definition pending_control :: "adapter \<Rightarrow> ev_payload list" where
  "pending_control st = (case ad_control_pending st of None \<Rightarrow> [] | Some (kind, token, _) \<Rightarrow> [control_payload (kind, token)])"

fun asked :: "provider_env \<Rightarrow> ad_action list \<Rightarrow> adapter \<Rightarrow> ev_payload list" where
  "asked env [] st = []"
| "asked env (a # acts) st =
     (case a of Query fail c kind token \<Rightarrow> if fst (control_query env fail c kind token st) = Inr ''control_requested'' then [control_payload (kind, token)] else []
        | _ \<Rightarrow> []) @ asked env acts (snd (ad_step env a st))"

text \<open>A frame confirms the pending request or leaves it, or drops it.\<close>

definition control_ok :: "adapter \<Rightarrow> turn_event option res \<Rightarrow> adapter \<Rightarrow> bool" where
  "control_ok st x st' \<longleftrightarrow>
     (let out = (case x of Inr (Some e) \<Rightarrow> confirmed [e] | _ \<Rightarrow> []) in
      out = [] \<and> ad_control_pending st' \<in> {None, ad_control_pending st} \<or> out = pending_control st \<and> ad_control_pending st' = None)"

lemma control_plain:
  assumes "emit kind p q r conf st1 = (x, st')" "ad_control_pending st1 = ad_control_pending st" "kind \<noteq> ''control_confirmed''"
  shows "control_ok st x st'"
  using assms by (auto simp: emit_def event_of_def Let_def control_ok_def confirmed_def)

lemma control_quiet [simp]: "control_ok st (Inl e) st" "control_ok st (Inr None) st"
  by (simp_all add: control_ok_def)

lemma control_ignored: "ignored st1 = (x, st') \<Longrightarrow> ad_control_pending st1 = ad_control_pending st \<Longrightarrow> control_ok st x st'"
  by (auto simp: ignored_def control_ok_def)

lemma pending_open [simp]: "ad_control_pending (open_question raw fresh st) = ad_control_pending st"
  by (simp add: open_question_def split: option.split)

lemma control_control: "read_control qid fresh st = (x, st') \<Longrightarrow> control_ok st x st'"
  by (auto simp: read_control_def Let_def ignored_def emit_def event_of_def control_ok_def confirmed_def pending_control_def control_payload_def
      split: option.splits prod.splits if_splits)

lemma control_reply:
  assumes "read_reply n p qid rid fq fr st = (x, st')"
  shows "control_ok st x st'"
proof -
  let ?st1 = "bind_greeting n qid rid fq st"
  have p1: "ad_control_pending ?st1 = ad_control_pending st" by (simp add: bind_greeting_def split: option.split)
  show ?thesis
  proof (cases "\<exists>q raw. question_of qid rid ?st1 = Some q \<and> rid = Some raw \<and> \<not> (ad_question ?st1 \<noteq> Some q \<and> q \<notin> set (ad_preserved ?st1))")
    case False
    then have "ignored ?st1 = (x, st')" using assms by (auto simp: read_reply_def Let_def split: option.splits if_splits)
    then show ?thesis by (rule control_ignored [OF _ p1])
  next
    case True
    then obtain q raw where q: "question_of qid rid ?st1 = Some q" "rid = Some raw" "\<not> (ad_question ?st1 \<noteq> Some q \<and> q \<notin> set (ad_preserved ?st1))"
      by blast
    obtain b st2 where g: "rag_guard n p q raw ?st1 = (b, st2)" by fastforce
    have p2: "ad_control_pending st2 = ad_control_pending st" using g p1 by (cases rule: rag_guard_cases) simp_all
    have r: "(x, st') = (case rag_guard n p q raw ?st1 of (False, st2) \<Rightarrow> ignored st2 | (True, st2) \<Rightarrow> settle_reply_frame n p q raw fr st2)"
      using assms q(1,3) unfolding read_reply_def Let_def q(2) by (simp only: prod.case option.case if_False)
    show ?thesis
    proof (cases b)
      case True
      obtain l q0 st3 where bd: "bind_reply q raw fr st2 = (l, q0, st3)" by (cases "bind_reply q raw fr st2") auto
      have p3: "ad_control_pending st3 = ad_control_pending st"
        using bd p2 by (auto simp: bind_reply_def Let_def split: option.splits if_splits)
      have s: "settle_reply_frame n p q raw fr st2 = (x, st')" using r g True by simp
      show ?thesis
      proof (cases "q0 \<noteq> q \<or> l \<in> set (ad_finished st3)")
        case True
        then have "ignored st3 = (x, st')" using s bd by (simp add: settle_reply_frame_def split: if_splits)
        then show ?thesis by (rule control_ignored [OF _ p3])
      next
        case False
        then have e: "emit (reply_kind n) (reply_data n p) (Some q) (Some l) JNull (note_reply n q l st3) = (x, st')"
          using s bd by (simp add: settle_reply_frame_def)
        show ?thesis by (rule control_plain [OF e]) (simp_all add: note_reply_def p3 reply_kind_def)
      qed
    next
      case False
      then have "ignored st2 = (x, st')" using r g by simp
      then show ?thesis by (rule control_ignored [OF _ p2])
    qed
  qed
qed

lemma control_speech: "read_speech n p qid fresh st = (x, st') \<Longrightarrow> control_ok st x st'"
  by (auto simp: read_speech_def read_recognition_def refused_def Let_def split: option.splits if_splits sum.splits
      intro: control_plain control_ignored)

lemma control_other: "read_other n p st = (x, st') \<Longrightarrow> control_ok st x st'"
  by (auto simp: read_other_def read_usage_def read_deleted_def read_context_def Let_def split: if_splits sum.splits
      intro: control_plain control_ignored)

lemma control_event: "read_event n p qid rid fq fr st = (x, st') \<Longrightarrow> control_ok st x st'"
  using control_control control_speech control_reply control_other unfolding read_event_def by (simp split: if_splits)

lemma control_frame [simp]: "control_ok (st\<lparr>ad_vendor_sequence := a\<rparr>) x st' = control_ok st x st'" "control_ok (st\<lparr>ad_seen := b\<rparr>) x st' = control_ok st x st'"
  by (simp_all add: control_ok_def pending_control_def)

lemma control_json:
  assumes "read_json env n p h fq fr st = (x, st')"
  shows "control_ok st x st'"
proof (cases "bindR (vendor_id (jget p ''question_id'')) (\<lambda>qid. map_sum id (Pair qid) (vendor_id (jget p ''reply_id'')))")
  case (Inl y)
  then show ?thesis using assms by (auto simp: read_json_def)
next
  case (Inr ids)
  obtain qid rid where ids: "ids = (qid, rid)" by fastforce
  obtain y st1 where v: "vendor_sequence (n, qid, rid) (frame_number p h) st = (y, st1)" by fastforce
  obtain a where a: "st1 = st\<lparr>ad_vendor_sequence := a\<rparr>" using vendor_sequence_cases [OF v] .
  have s: "(case (y, st1) of (Inl x, st1) \<Rightarrow> (Inl x, st1) | (Inr False, st1) \<Rightarrow> ignored st1
      | (Inr True, st1) \<Rightarrow> (case boundary_new env n p st1 of (False, st2) \<Rightarrow> ignored st2 | (True, st2) \<Rightarrow> read_event n p qid rid fq fr st2)) = (x, st')"
    using assms Inr ids v by (simp add: read_json_def)
  have "control_ok st1 x st'"
  proof (cases "y = Inr True")
    case False
    then consider z where "y = Inl z" | "y = Inr False" by (cases y) auto
    then show ?thesis using s control_ignored [of st1] by cases auto
  next
    case True
    obtain b st2 where w: "boundary_new env n p st1 = (b, st2)" by fastforce
    obtain c where c: "st2 = st1\<lparr>ad_seen := c\<rparr>" using boundary_new_cases [OF w] .
    have "control_ok st2 x st'" using s True w control_ignored [of st2] control_event [of n p qid rid fq fr st2] by (cases b) auto
    then show ?thesis by (simp add: c)
  qed
  then show ?thesis by (simp add: a)
qed

lemma control_arrival: "read_arrival env a st = (x, st') \<Longrightarrow> control_ok st x st'"
proof -
  have audio: "read_audio b st = (x, st') \<Longrightarrow> control_ok st x st'" for b
    by (auto simp: read_audio_def split: option.splits if_splits intro: control_plain control_ignored)
  have "normalize_frame env f fq fr st = (x, st') \<Longrightarrow> control_ok st x st'" for f fq fr
    using audio control_ignored [of st x st' st] control_json [of env]
    unfolding normalize_frame_def refused_def by (auto split: if_splits frame_body.splits)
  then show "read_arrival env a st = (x, st') \<Longrightarrow> control_ok st x st'"
    by (cases a) (auto simp: read_arrival_def split: sum.splits)
qed

lemma control_frames: "receive_frames env as st = (y, rest, st') \<Longrightarrow> control_ok st (case y of Got e \<Rightarrow> Inr (Some e) | _ \<Rightarrow> Inr None) st'"
proof (induction env as st rule: receive_frames.induct)
  case (1 env as st)
  show ?case
  proof (cases "ad_wire st = None \<or> as = []")
    case True
    then have "st' = st \<and> (\<forall>e. y \<noteq> Got e)" using 1(2) by (subst (asm) receive_frames.simps) (auto split: if_splits)
    then show ?thesis by (cases y) auto
  next
    case False
    then obtain a as' where as: "as = a # as'" by (cases as) auto
    obtain x st1 where r: "read_arrival env a st = (x, st1)" by fastforce
    note f = control_arrival [OF r]
    have w: "ad_wire st \<noteq> None" using False by simp
    have e: "(case x of Inl z \<Rightarrow> (Failed (wrapped env z), as', st1) | Inr (Some e) \<Rightarrow> (Got e, as', st1) | Inr None \<Rightarrow> receive_frames env as' st1) = (y, rest, st')"
      using 1(2) w r unfolding as by (subst (asm) receive_frames.simps) (cases "ad_wire st"; cases x; simp split: option.splits)
    consider z where "x = Inl z" | v where "x = Inr (Some v)" | "x = Inr None" by (cases x) auto
    then show ?thesis
    proof cases
      case 1
      then show ?thesis using e f by (auto simp: control_ok_def)
    next
      case 2
      then show ?thesis using e f by auto
    next
      case 3
      then have r': "receive_frames env as' st1 = (y, rest, st')" using e by simp
      have "control_ok st1 (case y of Got e \<Rightarrow> Inr (Some e) | _ \<Rightarrow> Inr None) st'" using "1.IH" [OF w as r [symmetric] 3 refl r'] .
      then show ?thesis using f 3 by (auto simp: control_ok_def pending_control_def)
    qed
  qed
qed

lemma control_requests:
  assumes "\<And>as. a \<noteq> Receive as" "\<And>fail c kind token. a \<noteq> Query fail c kind token"
  shows "ad_control_pending (snd (ad_step env a st)) \<in> {None, ad_control_pending st}"
proof -
  have w: "ad_control_pending (snd (write_frame env fail n p s)) = ad_control_pending s" for fail n p s
    by (auto simp: write_frame_def split: sum.splits option.splits)
  have s: "ad_control_pending (snd (send env fail n p rr claim st)) = ad_control_pending st"
    if "ad_control_pending (snd (claim st)) = ad_control_pending st" for fail n p rr claim
  proof -
    obtain y s where c: "claim st = (y, s)" by fastforce
    show ?thesis using that w by (auto simp: send_def c split: sum.splits bool.splits)
  qed
  have c: "ad_control_pending (snd (no_claim st)) = ad_control_pending st" "ad_control_pending (snd (claim_greeting st)) = ad_control_pending st"
    "ad_control_pending (snd (claim_deletion raw q st)) = ad_control_pending st" "ad_control_pending (snd (claim_target r st)) = ad_control_pending st"
    "ad_control_pending (snd (claim_truncate r i st)) = ad_control_pending st" "ad_control_pending (snd (claim_rag q st)) = ad_control_pending st"
    for raw q r i
    by (simp_all add: no_claim_def claim_greeting_def claim_deletion_def claim_target_def claim_truncate_def claim_rag_def)
  have p: "ad_control_pending s' = ad_control_pending st"
    if "send env fail n q True claim st = (y, s')" "ad_control_pending (snd (claim st)) = ad_control_pending st" for fail n q claim y s'
    using s [where claim = claim and fail = fail and n = n and p = q and rr = True] that by simp
  show ?thesis
    using assms s c p
    by (cases a) (auto simp: say_hello_def outcome_def inject_rag_def preserve_playing_question_def send_audio_def interrupt_reply_def
        truncate_reply_context_def delete_backchannel_def inject_context_def finish_session_def
        split: prod.splits sum.splits option.splits bool.splits)
qed

lemma control_query_step:
  assumes "control_query env fail c kind token st = (y, st')"
  shows "y = Inr ''control_requested'' \<Longrightarrow> ad_control_pending st = None \<and> pending_control st' = [control_payload (kind, token)]"
    "y \<noteq> Inr ''control_requested'' \<Longrightarrow> ad_control_pending st' \<in> {None, ad_control_pending st}"
proof -
  have w: "ad_control_pending (snd (write_frame env fail n p s)) = ad_control_pending s" for n p s
    by (auto simp: write_frame_def split: sum.splits option.splits)
  have nf: "fst (write_frame env fail n p s) \<noteq> Inr False" for n p s
    by (auto simp: write_frame_def split: sum.splits option.splits)
  obtain z s where sd: "send env fail 501 (Json_body (JObj [(''content'', JStr c)])) True (claim_control kind token) st = (z, s)" by fastforce
  have t: "z = Inr True \<Longrightarrow> ad_control_pending st = None \<and> ad_control_pending s = Some (kind, token, ad_question st)"
    "z = Inr False \<Longrightarrow> s = st"
  proof -
    let ?p = "Json_body (JObj [(''content'', JStr c)])"
    let ?st1 = "st\<lparr>ad_control_pending := Some (kind, token, ad_question st)\<rparr>"
    consider "z = Inl (provider_error ''upstream_unavailable'')" | "ad_control_pending st \<noteq> None" "z = Inr False" "s = st"
      | "ad_control_pending st = None" "write_frame env fail 501 ?p ?st1 = (z, s)"
      using sd unfolding send_def claim_control_def by (cases "ad_control_pending st") (auto split: if_splits)
    then have "(z = Inr True \<longrightarrow> ad_control_pending st = None \<and> ad_control_pending s = Some (kind, token, ad_question st)) \<and> (z = Inr False \<longrightarrow> s = st)"
    proof cases
      case 3
      then show ?thesis using w [of 501 ?p ?st1] nf [of 501 ?p ?st1] by simp
    qed simp_all
    then show "z = Inr True \<Longrightarrow> ad_control_pending st = None \<and> ad_control_pending s = Some (kind, token, ad_question st)"
      "z = Inr False \<Longrightarrow> s = st" by blast+
  qed
  show "y = Inr ''control_requested'' \<Longrightarrow> ad_control_pending st = None \<and> pending_control st' = [control_payload (kind, token)]"
    using assms sd t by (cases z) (auto simp: control_query_def pending_control_def split: if_splits)
  show "y \<noteq> Inr ''control_requested'' \<Longrightarrow> ad_control_pending st' \<in> {None, ad_control_pending st}"
    using assms sd t by (cases z) (auto simp: control_query_def split: if_splits)
qed

definition greeted :: "adapter \<Rightarrow> bool" where
  "greeted st \<longleftrightarrow> (\<forall>e \<in> set (ad_events st). pe_kind e = ''session_ready'')"

lemma pending_le: "ad_control_pending st' \<in> {None, ad_control_pending st} \<Longrightarrow> subseq (pending_control st') (pending_control st)"
  by (auto simp: pending_control_def)

lemma control_step:
  assumes i: "session_inv outs st" "greeted st" "action_ok a" and s: "ad_step env a st = (es, st')"
  shows "greeted st'" "subseq (confirmed es @ pending_control st') (pending_control st @ asked env [a] st)"
proof -
  have "greeted st' \<and> subseq (confirmed es @ pending_control st') (pending_control st @ asked env [a] st)"
  proof (cases "\<exists>as. a = Receive as")
    case True
    then obtain as where a: "a = Receive as" by blast
    obtain y rest st1 where r: "receive_event env as st = (y, rest, st1)" by (cases "receive_event env as st")
    have es: "es = got y" "st' = st1" using s a r by simp_all
    show ?thesis
    proof (cases "ad_events st")
      case (Cons e q)
      then have y: "y = Got e" "st1 = st\<lparr>ad_events := q\<rparr>" using r by (simp_all add: receive_event_def)
      then show ?thesis using i(2) Cons by (auto simp: es greeted_def confirmed_def pending_control_def)
    next
      case Nil
      have f: "receive_frames env as st = (y, rest, st1)" using r Nil by (simp add: receive_event_def)
      have "frame_ok st (case y of Got e \<Rightarrow> Inr (Some e) | _ \<Rightarrow> Inr None) st1"
        by (rule receive_frames_ok [OF _ _ _ f]) (use i a in \<open>simp_all add: session_inv_def list_all_iff\<close>)
      then have g: "greeted st1" using Nil by (simp add: frame_ok_def grows_def greeted_def)
      have "(case y of Got e \<Rightarrow> confirmed [e] | _ \<Rightarrow> []) = confirmed (got y)" by (cases y) (simp_all add: confirmed_def)
      then have "confirmed (got y) = [] \<and> ad_control_pending st1 \<in> {None, ad_control_pending st} \<or> confirmed (got y) = pending_control st \<and> ad_control_pending st1 = None"
        using control_frames [OF f] by (cases y) (auto simp: control_ok_def)
      then have "subseq (confirmed (got y) @ pending_control st1) (pending_control st)"
        using pending_le [of st1 st] by (auto simp: pending_control_def)
      then show ?thesis using g a by (simp add: es)
    qed
  next
    case False
    then have q: "es = []" "requested st st'" using request_step [where a = a and env = env and st = st] s by auto
    have g: "greeted st'" using core_fields(4) [of st' st] q(2) i(2) by (simp add: requested_def greeted_def)
    show ?thesis
    proof (cases "\<exists>fail c kind token. a = Query fail c kind token")
      case True
      then obtain fail c kind token where a: "a = Query fail c kind token" by blast
      obtain y where y: "control_query env fail c kind token st = (y, st')" using s a by (cases "control_query env fail c kind token st") simp
      show ?thesis
      proof (cases "y = Inr ''control_requested''")
        case True
        then show ?thesis using control_query_step(1) [OF y] g q(1) y a by (simp add: confirmed_def pending_control_def)
      next
        case F: False
        then show ?thesis using pending_le [OF control_query_step(2) [OF y F]] g q(1) y a by (simp add: confirmed_def)
      qed
    next
      case F: False
      then have "ad_control_pending st' \<in> {None, ad_control_pending st}" using control_requests [of a env st] False s by auto
      from pending_le [OF this] have "subseq (pending_control st') (pending_control st @ asked env [a] st)" by (rule subseq_rev_drop_many)
      then show ?thesis using g q(1) by (simp add: confirmed_def)
    qed
  qed
  then show "greeted st'" "subseq (confirmed es @ pending_control st') (pending_control st @ asked env [a] st)" by blast+
qed

lemma asked_Cons: "asked env (a # acts) st = asked env [a] st @ asked env acts (snd (ad_step env a st))"
  by simp

lemma confirmed_append: "confirmed (xs @ ys) = confirmed xs @ confirmed ys"
  by (simp add: confirmed_def)

lemma control_run:
  "session_inv outs st \<Longrightarrow> greeted st \<Longrightarrow> list_all action_ok acts \<Longrightarrow> ad_run env acts st = (es, st') \<Longrightarrow>
   subseq (confirmed es @ pending_control st') (pending_control st @ asked env acts st)"
proof (induction acts arbitrary: outs st es)
  case Nil
  then show ?case by (simp add: confirmed_def)
next
  case (Cons a acts)
  obtain e1 st1 where s: "ad_step env a st = (e1, st1)" by fastforce
  obtain e2 where r: "ad_run env acts st1 = (e2, st')" "es = e1 @ e2" using Cons.prems(4) s by (auto split: prod.splits)
  have ok: "action_ok a" "list_all action_ok acts" using Cons.prems(3) by simp_all
  note C = control_step [OF Cons.prems(1,2) ok(1) s]
  have i: "session_inv (outs @ e1) st1" using step_inv [OF Cons.prems(1) ok(1) s] .
  have "subseq (confirmed e1 @ confirmed e2 @ pending_control st') (confirmed e1 @ pending_control st1 @ asked env acts st1)"
    by (rule list_emb_append_mono) (use Cons.IH [OF i C(1) ok(2) r(1)] in simp_all)
  also have "subseq \<dots> ((pending_control st @ asked env [a] st) @ asked env acts st1)"
    unfolding append_assoc [symmetric] by (rule list_emb_append_mono [OF C(2) [unfolded append_assoc [symmetric]]]) simp
  finally show ?case unfolding r(2) confirmed_append asked_Cons [of env a acts st] using s by simp
qed

section \<open>Properties\<close>

text \<open>C12: Bytes are accepted as a frame exactly when they follow the layout: the version byte, a kind and flags, an encoding,
  then either an error code or an optional sequence, an event and a session of at most 255 bytes, and a body of exactly the
  announced length, at most one MiB in all and after decompression, whose text is an object unless it is audio or an error.\<close>

theorem decode_frame_exact:
  "decode_frame env raw = Inr f \<longleftrightarrow>
     (\<exists>b1 b2 h body. raw = frame_bytes b1 b2 h body \<and> length raw \<le> MAX_FRAME_BYTES \<and> head_describes env b1 h f \<and> body_describes env b1 b2 body f)"
proof (cases "4 \<le> length raw")
  case True
  have "length body < 2 ^ 32" if "raw = frame_bytes b1 b2 h body" "length raw \<le> MAX_FRAME_BYTES" for b1 b2 h body
    using that by (simp add: frame_bytes_def MAX_FRAME_BYTES_def)
  then show ?thesis using True decode_fields_iff [OF True, of env f]
    by (auto simp: decode_frame_def split: option.splits)
next
  case False
  then show ?thesis by (auto simp: decode_frame_def frame_bytes_def)
qed

text \<open>C9: Every event of a session is handled behind the adapter: whatever frames, requests, failures and timers come in
  any order, the events the adapter makes pass through the acknowledgement filter and are never refused by the turn service,
  neither for the call, the session, an identity or a number nor for the limit of its buffer; without another error every
  number up to 64 behind the newest is handled, and all of them once nothing is held.\<close>

theorem provider_stream_handled:
  assumes "start_session env now fail first fresh dialog None st0 = (Inr sid, st)" "list_all action_ok acts" "ad_run env acts st = (es, st')"
    "filter_run bacts (enter_session sid (new_filter ws)) = (None, fouts, s)" "events_in bacts = es"
    "consume_all tenv (to_turns fouts) (new_service (ad_call_id st0) sid) db = (r, t, db')"
  shows "r \<notin> Inl ` refusals \<and>
    (r = Inr () \<longrightarrow> int (length es) - 64 \<le> ts_sequence t \<and> (all_held s = [] \<longrightarrow> ts_sequence t = int (length es)))"
proof -
  note S = start_inv [OF assms(1)]
  have i: "session_inv es st'" using session_run [OF assms(1-3)] .
  have k: "ad_call_id st' = ad_call_id st0" "ad_session_id st' = sid" using run_keeps [OF S(1) assms(2,3)] S by simp_all
  have ad: "\<forall>e \<in> set es. addressed (ad_call_id st0) sid e" using frame_identity [OF i k] .
  have sid: "\<forall>e \<in> set (events_in bacts). pe_session_id e = sid" using ad by (simp add: assms(5) addressed_def)
  have n: "map pe_sequence (events_in bacts) = [1..int (length (events_in bacts))]" using session_numbers [OF i] by (simp add: assms(5))
  have f: "r \<noteq> Inl reorder_refusal" "r = Inr () \<longrightarrow> int (length es) - 64 \<le> ts_sequence t \<and> (all_held s = [] \<longrightarrow> ts_sequence t = int (length es))"
    using filter_never_overruns_turns [OF assms(4) sid n assms(6)] by (simp_all add: assms(5))
  have "bc_step (enter_session sid (new_filter ws)) es fouts s"
    using filter_run_step [OF assms(4) _ _ _ sid]
    by (simp add: assms(5) enter_session_def new_filter_def bc_inv_def dict_wf_def held_frames_def)
  then have m: "mset (passed fouts) + mset (taken_out fouts) + mset (all_held s) = mset es"
    by (simp add: bc_step_def all_held_def enter_session_def new_filter_def)
  have "addressed (ad_call_id st0) sid x" if x: "x \<in> set (to_turns fouts)" for x
  proof -
    obtain y where y: "y \<in> set (passed fouts) \<union> set (taken_out fouts)" "same_ids x y" using to_turns_from [OF x] by blast
    then have "y \<in># mset es" unfolding m [symmetric] by auto
    then show ?thesis using ad same_ids_addressed [OF y(2)] by simp
  qed
  then have "\<forall>x \<in> set (to_turns fouts). addressed (ts_call (new_service (ad_call_id st0) sid)) (ts_session (new_service (ad_call_id st0) sid)) x"
    by (simp add: new_service_def)
  then show ?thesis using f consume_all_addressed [OF assms(6)] by blast
qed

text \<open>C11: A reply belongs to one question and ends once: of two events of a session that name the same reply both name
  the same question, and nothing of a reply follows the event that its speech is finished, whatever the provider sends.\<close>

theorem replies_end_once:
  assumes "start_session env now fail first fresh dialog None st0 = (Inr sid, st)" "list_all action_ok acts" "ad_run env acts st = (es, st')"
    "i < j" "j < length es" "pe_reply_id (es ! i) = Some r" "pe_reply_id (es ! j) = Some r"
  shows "pe_question_id (es ! j) = pe_question_id (es ! i) \<and> pe_question_id (es ! i) \<noteq> None \<and> pe_kind (es ! i) \<noteq> ''tts_finished''"
proof -
  have I: "session_inv es st'" using session_run [OF assms(1-3)] .
  have mem: "es ! i \<in> set es" "es ! j \<in> set es" using assms(4,5) by simp_all
  have q: "\<exists>q. pe_question_id e = Some q \<and> map_of (ad_reply_questions st') r = Some q" if "e \<in> set es" "pe_reply_id e = Some r" for e
    using I that by (auto simp: session_inv_def)
  have "sorted_wrt (\<lambda>e e'. \<forall>r. pe_kind e = ''tts_finished'' \<and> pe_reply_id e = Some r \<longrightarrow> pe_reply_id e' \<noteq> Some r) es"
    using I by (simp add: session_inv_def sorted_wrt_append)
  then have "pe_kind (es ! i) \<noteq> ''tts_finished''" using sorted_wrt_nth_less [OF _ assms(4,5)] assms(6,7) by blast
  then show ?thesis using q [OF mem(1) assms(6)] q [OF mem(2) assms(7)] by auto
qed

text \<open>C10: A question into which context was injected is answered by one reply: when \<open>inject_rag\<close> reports that the context
  was requested for the current turn of a call, all sentences, texts and audio for the question in the whole session, before
  and after, belong to one reply, although the provider may also answer without the context.\<close>

theorem injected_answered_once:
  assumes "start_session env now fail first fresh dialog None st0 = (Inr sid, st)" "ad_purpose st0 = ''call''" "list_all action_ok before"
    "list_all action_ok after" "ad_run env before st = (es1, st1)"
    "inject_rag env t lost q content st1 = (Inr ''current_turn_requested'', st2)" "ad_run env after st2 = (es2, st3)"
    "e \<in> set (es1 @ es2)" "e' \<in> set (es1 @ es2)" "speaks e" "speaks e'" "pe_question_id e = Some q" "pe_question_id e' = Some q"
  shows "pe_reply_id e = pe_reply_id e'"
proof -
  note S = start_inv [OF assms(1)]
  have i1: "session_inv es1 st1" using session_run [OF assms(1,3,5)] .
  have s: "ad_step env (Inject t lost q content) st1 = ([], st2)" using assms(6) by simp
  have i2: "session_inv es1 st2" using step_inv [OF i1 _ s] by simp
  have i3: "session_inv (es1 @ es2) st3" using run_inv [OF i2 assms(4,7)] .
  have k1: "ad_purpose st1 = ''call''" using run_keeps [OF S(1) assms(3,5)] S(5) assms(2) by simp
  have r: "requested st1 st2" using request_step(2) [where a = "Inject t lost q content" and env = env and st = st1] s by simp
  have k2: "ad_purpose st2 = ''call''" using r k1 core_fields(3) [of st2 st1] by (simp add: requested_def)
  have q2: "q \<in> set (ad_rag_questions st2)"
  proof -
    obtain x s2 where sd: "send env lost 502 (rag_payload env content) True (claim_rag q) st1 = (x, s2)" by fastforce
    have "x = Inr True" "st2 = s2" using assms(6) sd
      by (cases x; auto simp: inject_rag_def outcome_def split: if_splits sum.splits)+
    then show ?thesis using sd
      by (auto simp: send_def claim_rag_def write_frame_def split: if_splits sum.splits option.splits)
  qed
  have k3: "ad_purpose st3 = ''call''" "q \<in> set (ad_rag_questions st3)" using run_keeps [OF i2 assms(4,7)] k2 q2 by auto
  have "\<exists>raw. map_of (ad_rag_reply st3) q = Some raw \<and> map_of (ad_replies st3) raw = pe_reply_id x"
    if "x \<in> set (es1 @ es2)" "speaks x" "pe_question_id x = Some q" for x
  proof -
    have "speech_ok x st3" using i3 that(1) by (auto simp: session_inv_def)
    then show ?thesis using that(2,3) k3 by (auto simp: speech_ok_def chosen_def)
  qed
  from this [OF assms(8,10,12)] this [OF assms(9,11,13)] show ?thesis by auto
qed

text \<open>A control request is confirmed at most once and in order: the confirmations of a session are a subsequence of the
  requests that were submitted, kind and token included.\<close>

theorem control_confirmed_once:
  assumes "start_session env now fail first fresh dialog None st0 = (Inr sid, st)" "list_all action_ok acts" "ad_run env acts st = (es, st')"
  shows "subseq (confirmed es) (asked env acts st)"
proof -
  note S = start_inv [OF assms(1)]
  have "subseq (confirmed es @ pending_control st') (pending_control st @ asked env acts st)"
    by (rule control_run [OF S(1) _ assms(2,3)]) (use S(7) in \<open>simp add: greeted_def\<close>)
  then have "subseq (confirmed es @ pending_control st') (asked env acts st)" using S(6) by (simp add: pending_control_def)
  then show ?thesis by (rule subseq_order.trans [rotated]) (rule subseq_rev_drop_many, simp)
qed

section \<open>Witnesses\<close>

definition demo_loads :: "bytes \<Rightarrow> json option" where
  "demo_loads b = Some (JObj (if b = [1] then [(''dialog_id'', JStr (asc ''d''))]
     else if b = [2] then [(''question_id'', JStr (asc ''a''))]
     else if b = [3] then [(''question_id'', JStr (asc ''a'')), (''reply_id'', JStr (asc ''b''))]
     else if b = [4] then [(''question_id'', JStr (asc ''a'')), (''reply_id'', JStr (asc ''b'')), (''content'', JStr (asc ''hi''))]
     else []))"

definition demo_frames :: frame_env where
  "demo_frames = \<lparr>fe_gzip = (\<lambda>b. b), fe_inflate = (\<lambda>b. Some (b, True, [])), fe_dumps = (\<lambda>_. []), fe_loads = demo_loads,
     fe_utf8 = (\<lambda>_. [115]), fe_text = (\<lambda>b. Some ''s'')\<rparr>"

definition demo_pv :: provider_env where
  "demo_pv = \<lparr>pv_frames = demo_frames, pv_sdk = asc ''w'', pv_iso = (\<lambda>_. Some (10, True)), pv_text = (\<lambda>_. []),
     pv_str = (\<lambda>j. case j of JStr s \<Rightarrow> s | _ \<Rightarrow> []), pv_digest = (\<lambda>_. []), pv_status = (\<lambda>_. None)\<rparr>"

lemma demo_sel [simp]:
  "fe_gzip demo_frames b = b" "fe_dumps demo_frames j = []" "fe_utf8 demo_frames sid = [115]" "fe_loads demo_frames = demo_loads"
  "fe_text demo_frames b = Some ''s''" "pv_frames demo_pv = demo_frames" "pv_sdk demo_pv = asc ''w''" "pv_iso demo_pv t = Some (10, True)"
  "pv_str demo_pv (JStr t) = t" "pv_digest demo_pv d = []" "pv_text demo_pv j = []"
  by (simp_all add: demo_frames_def demo_pv_def)

definition demo_msg :: "nat \<Rightarrow> 8 word \<Rightarrow> bytes res" where
  "demo_msg n k = Inr (frame_bytes 0x94 0x10 (Event_head None n [115]) [k])"

lemma demo_decode [simp]:
  "n < 2 ^ 32 \<Longrightarrow> bindR (demo_msg n k) (decode_frame demo_frames) =
     Inr \<lparr>fr_audio = False, fr_session = ''s'', fr_event = n, fr_sequence = None, fr_error = None, fr_payload = Json_body (the (demo_loads [k]))\<rparr>"
proof -
  assume n: "n < 2 ^ 32"
  let ?f = "\<lparr>fr_audio = False, fr_session = ''s'', fr_event = n, fr_sequence = None, fr_error = None, fr_payload = Json_body (the (demo_loads [k]))\<rparr>"
  let ?raw = "frame_bytes 0x94 0x10 (Event_head None n [115]) [k]"
  have "length ?raw \<le> MAX_FRAME_BYTES" by (simp add: frame_bytes_def MAX_FRAME_BYTES_def)
  moreover have "head_describes demo_frames 0x94 (Event_head None n [115]) ?f" using n by (simp add: high_def low_def demo_frames_def)
  moreover have "body_describes demo_frames 0x94 0x10 [k] ?f"
    by (simp add: body_describes_def high_def low_def inflate_body_def read_body_def demo_frames_def demo_loads_def)
  moreover have l: "4 \<le> length ?raw" "length [k] < 2 ^ 32" by (simp_all add: frame_bytes_def)
  ultimately have "decode_fields demo_frames ?raw = Some ?f" using decode_fields_iff [OF l(1), of demo_frames ?f] by blast
  then show ?thesis using \<open>length ?raw \<le> MAX_FRAME_BYTES\<close> l(1) by (simp add: demo_msg_def decode_frame_def)
qed

definition demo_caps :: json where
  "demo_caps = JObj [(''supports_current_turn_rag_gate'', JObj [(''enabled'', JBool True), (''verification_status'', jtext ''verified''),
     (''last_test_result'', jtext ''passed''), (''effective_scope'', jtext ''all''), (''evidence_report_id'', jtext ''e''),
     (''evidence_fingerprint'', jtext ''f''), (''expires_at'', jtext ''x''), (''protocol_profile'', JStr PROTOCOL_PROFILE),
     (''adapter_version'', JStr ADAPTER_VERSION), (''sdk_version'', jtext ''w'')])]"

definition demo_adapter :: adapter where
  "demo_adapter = (case new_adapter ''c'' (JObj []) demo_caps ''call'' None of Inr a \<Rightarrow> a\<lparr>ad_wire := Some [], ad_persona := asc ''p''\<rparr>)"

definition demo_first :: adapter where
  "demo_first = demo_adapter\<lparr>ad_session_id := ''s'', ad_dialog_id := asc ''d'', ad_ready := True, ad_sequence := 1,
     ad_wire := Some [[17, 20, 17, 0] @ be4 100 @ be4 1 @ [115] @ be4 0],
     ad_events := [(demo_event 1 ''session_ready'' Other_payload)\<lparr>pe_question_id := None\<rparr>]\<rparr>"

lemma demo_start: "start_session demo_pv 5 None (demo_msg 150 1) ''s'' None None demo_adapter = (Inr ''s'', demo_first)"
  by (simp add: demo_first_def start_session_def demo_adapter_def new_adapter_def Let_def operation_allowed_def capability_enabled_def
      VOICE_CAPABILITY_KEYS_def demo_caps_def jget_def'_def opt_truthy_def forget_session_def open_session_def send_def no_claim_def
      write_frame_def encode_frame_def MAX_FRAME_BYTES_def start_answer_def become_ready_def event_of_def demo_loads_def demo_event_def)

lemma demo_receive:
  assumes "ad_events st = []" "ad_wire st = Some w" "ad_session_id st = ''s''" "n < 2 ^ 32" "n \<notin> {51, 153, 599}"
  shows "ad_step demo_pv (Receive [(demo_msg n k, fq, fr)]) st =
    (case read_json demo_pv n (the (demo_loads [k])) None fq fr st of (Inr (Some e), st') \<Rightarrow> ([e], st') | (_, st') \<Rightarrow> ([], st'))"
proof -
  have "read_arrival demo_pv (demo_msg n k, fq, fr) st = read_json demo_pv n (the (demo_loads [k])) None fq fr st"
    using assms by (simp add: read_arrival_def normalize_frame_def)
  then show ?thesis using assms(1,2)
    by (auto simp: receive_event_def receive_frames.simps split: prod.splits sum.splits option.splits)
qed

lemma demo_ready: "ad_events st = e # es \<Longrightarrow> ad_step env (Receive []) st = ([e], st\<lparr>ad_events := es\<rparr>)"
  by (simp add: receive_event_def)

lemmas demo_reads = read_json_def vendor_id_def vendor_sequence_def frame_number_def boundary_new_def boundary_events_def read_event_def
  read_speech_def read_reply_def bind_greeting_def question_of_def rag_guard_def settle_reply_frame_def bind_reply_def note_reply_def
  reply_kind_def reply_data_def read_control_def open_question_def emit_def event_of_def ignored_def demo_loads_def jget_def'_def Let_def
  picked_def jhas_def jkeys_def chat_content_def

definition demo_reply :: "int \<Rightarrow> string \<Rightarrow> ev_payload \<Rightarrow> turn_event" where
  "demo_reply n kind pl = (demo_event n kind pl)\<lparr>pe_reply_id := Some (asc ''r'')\<rparr>"

definition demo_opening :: "ad_action list" where
  "demo_opening = [Receive [], Receive [(demo_msg 450 2, asc ''q'', asc ''r'')]]"

definition demo_answer :: "ad_action list" where
  "demo_answer = [Receive [(demo_msg 350 3, asc ''x'', asc ''r'')], Receive [(demo_msg 550 4, asc ''x'', asc ''y'')], Receive [(demo_msg 359 3, asc ''x'', asc ''y'')]]"

definition demo_opened :: adapter where
  "demo_opened = demo_first\<lparr>ad_events := [], ad_questions := [(asc ''a'', asc ''q'')], ad_question := Some (asc ''q''), ad_sequence := 2\<rparr>"

definition demo_begun :: "turn_event list" where
  "demo_begun = [(demo_event 1 ''session_ready'' Other_payload)\<lparr>pe_question_id := None\<rparr>, demo_event 2 ''user_speech_started'' Other_payload]"

definition demo_replied :: "turn_event list" where
  "demo_replied = [demo_reply 3 ''sentence_started'' (Dict_payload (JObj [])), demo_reply 4 ''chat_text'' (Text_payload (asc ''hi'')),
     demo_reply 5 ''tts_finished'' (Dict_payload (JObj []))]"

lemmas demo_run_simps = demo_first_def demo_adapter_def new_adapter_def demo_ready demo_receive demo_reads demo_event_def demo_reply_def

lemma demo_opening_run: "ad_run demo_pv demo_opening demo_first = (demo_begun, demo_opened)"
  by (simp add: demo_opening_def demo_begun_def demo_opened_def demo_run_simps del: ad_step.simps(1))

lemma demo_answer_run: "fst (ad_run demo_pv demo_answer demo_opened) = demo_replied"
  by (simp add: demo_answer_def demo_replied_def demo_opened_def demo_run_simps del: ad_step.simps(1))

lemma demo_ok: "list_all action_ok (demo_opening @ demo_answer)" "list_all action_ok demo_opening" "list_all action_ok demo_answer"
  by (simp_all add: demo_opening_def demo_answer_def arrival_ok_def id_ok_def identity_ok_def)

theorem replies_end_once_witness:
  "\<exists>es. fst (ad_run demo_pv (demo_opening @ demo_answer) demo_first) = es \<and> length es = 5 \<and>
     pe_question_id (es ! 4) = pe_question_id (es ! 2) \<and> pe_kind (es ! 2) \<noteq> ''tts_finished''"
proof -
  obtain st where a: "ad_run demo_pv demo_answer demo_opened = (demo_replied, st)" using demo_answer_run by (metis prod.collapse)
  have r: "ad_run demo_pv (demo_opening @ demo_answer) demo_first = (demo_begun @ demo_replied, st)"
    by (simp add: ad_run_append demo_opening_run a)
  have l: "length (demo_begun @ demo_replied) = 5" "pe_reply_id ((demo_begun @ demo_replied) ! 2) = Some (asc ''r'')"
    "pe_reply_id ((demo_begun @ demo_replied) ! 4) = Some (asc ''r'')"
    by (simp_all add: demo_begun_def demo_replied_def demo_reply_def)
  show ?thesis using replies_end_once [OF demo_start demo_ok(1) r _ _ l(2,3)] l(1) r by simp
qed

definition demo_injected :: adapter where
  "demo_injected = demo_opened\<lparr>ad_rag_questions := [asc ''q''],
     ad_wire := Some [[17, 20, 17, 0] @ be4 100 @ be4 1 @ [115] @ be4 0, [17, 20, 17, 0] @ be4 502 @ be4 1 @ [115] @ be4 0]\<rparr>"

lemma demo_inject: "inject_rag demo_pv 5 None (asc ''q'') (asc ''c'') demo_opened = (Inr ''current_turn_requested'', demo_injected)"
  by (simp add: demo_injected_def inject_rag_def outcome_def send_def claim_rag_def write_frame_def encode_frame_def MAX_FRAME_BYTES_def
      rag_payload_def operation_allowed_def capability_enabled_def VOICE_CAPABILITY_KEYS_def demo_caps_def jget_def'_def dimensions_match_def
      unexpired_def jhas_def jkeys_def verified_evidence_def jtext_def jget_def demo_opened_def demo_first_def demo_adapter_def new_adapter_def Let_def)

lemma demo_injected_answer: "fst (ad_run demo_pv demo_answer demo_injected) = demo_replied"
  by (simp add: demo_answer_def demo_replied_def demo_injected_def demo_opened_def demo_run_simps del: ad_step.simps(1))

theorem injected_answered_once_witness:
  "speaks (demo_reply 3 ''sentence_started'' (Dict_payload (JObj []))) \<and> speaks (demo_reply 4 ''chat_text'' (Text_payload (asc ''hi''))) \<and>
   fst (inject_rag demo_pv 5 None (asc ''q'') (asc ''c'') demo_opened) = Inr ''current_turn_requested'' \<and>
   pe_reply_id (fst (ad_run demo_pv demo_answer demo_injected) ! 0) = pe_reply_id (fst (ad_run demo_pv demo_answer demo_injected) ! 1)"
proof -
  obtain st where a: "ad_run demo_pv demo_answer demo_injected = (demo_replied, st)" using demo_injected_answer by (metis prod.collapse)
  have s: "speaks (demo_replied ! 0)" "speaks (demo_replied ! 1)" "pe_question_id (demo_replied ! 0) = Some (asc ''q'')"
      "pe_question_id (demo_replied ! 1) = Some (asc ''q'')" "demo_replied ! 0 \<in> set (demo_begun @ demo_replied)" "demo_replied ! 1 \<in> set (demo_begun @ demo_replied)"
    by (simp_all add: demo_replied_def demo_reply_def demo_event_def speaks_def)
  have c: "ad_purpose demo_adapter = ''call''" by (simp add: demo_adapter_def new_adapter_def)
  show ?thesis
    using injected_answered_once [OF demo_start c demo_ok(2,3) demo_opening_run demo_inject a s(5,6,1,2,3,4)] demo_inject s(1,2)
    by (simp add: a) (simp add: demo_replied_def)
qed

definition demo_queries :: "ad_action list" where
  "demo_queries = [Receive [], Query None (asc ''hi'') ''goodbye'' (asc ''t''), Receive [(demo_msg 553 2, asc ''q'', asc ''r'')]]"

lemma demo_queries_run: "confirmed (fst (ad_run demo_pv demo_queries demo_first)) = [control_payload (''goodbye'', asc ''t'')]"
  by (simp add: demo_queries_def demo_run_simps control_query_def send_def claim_control_def write_frame_def encode_frame_def MAX_FRAME_BYTES_def
      nonblank_def py_strip_def py_space_def asc_def confirmed_def control_payload_def del: ad_step.simps(1))

theorem control_confirmed_once_witness:
  "subseq [control_payload (''goodbye'', asc ''t'')] (asked demo_pv demo_queries demo_first)"
proof -
  obtain st where r: "ad_run demo_pv demo_queries demo_first = (fst (ad_run demo_pv demo_queries demo_first), st)" by (metis prod.collapse)
  have "list_all action_ok demo_queries" by (simp add: demo_queries_def arrival_ok_def id_ok_def identity_ok_def)
  from control_confirmed_once [OF demo_start this r] show ?thesis by (simp add: demo_queries_run)
qed

lemma demo_passed:
  "filter_run (map (Event_in None) demo_begun) (enter_session ''s'' (new_filter [])) =
     (None, map Passed demo_begun, enter_session ''s'' (new_filter []))"
  by code_simp

theorem provider_stream_handled_witness:
  "ts_sequence (fst (snd (consume_all (live_env demo_ports) (to_turns (map Passed (fst (ad_run demo_pv demo_opening demo_first))))
     (new_service ''c'' ''s'') demo_db))) = 2"
proof -
  have t: "to_turns (map Passed demo_begun) = demo_begun" by (simp add: demo_begun_def)
  obtain t where c: "consume_all (live_env demo_ports) demo_begun (new_service ''c'' ''s'') demo_db = (Inr (), t, demo_db)"
    by (simp add: demo_begun_def demo_event_def consume_def new_service_def identity_ok_def drain.simps handle_def event_kinds_def
        reply_conflict_def ensure_draft_def get_draft_def put_draft_def settle_reply_def handle_kind_def new_draft_def)
  have i: "ad_call_id demo_adapter = ''c''" by (simp add: demo_adapter_def new_adapter_def)
  have c': "consume_all (live_env demo_ports) (to_turns (map Passed demo_begun)) (new_service (ad_call_id demo_adapter) ''s'') demo_db = (Inr (), t, demo_db)"
    using c by (simp only: t i)
  have e: "events_in (map (Event_in None) demo_begun) = demo_begun" by (simp add: demo_begun_def)
  have "ts_sequence t = 2"
    using provider_stream_handled [OF demo_start demo_ok(2) demo_opening_run demo_passed e c']
    by (simp add: all_held_def enter_session_def new_filter_def) (simp add: demo_begun_def)
  then show ?thesis by (simp add: demo_opening_run t c)
qed

end
