(* ===== verification/Summary.thy ===== *)
theory Summary
  imports MemoryJob
begin

text \<open>
  The summary after a call: the parser of the model's output and the prompt (\<open>realtime_voice_summary_service.py\<close>), its
  settings (\<open>realtime_voice_summary_runtime.py\<close>) and the job (\<open>realtime_voice_summary_job_service.py\<close>), each transaction
  an operation.

  \<open>summary_env\<close> holds the chat with a model (its name, the system message and the user message), the permission of a text (either may raise), \<open>json.loads\<close> and \<open>json.dumps\<close>, the fixed
  rules, the default model and prompt. The timeout of the model is an exception of the model. The counters sent outside
  a transaction, the audit entries of the administration and the client's construction are left out.
\<close>

section \<open>The output of the model\<close>

record summary_env =
  sm_loads :: "pystr \<Rightarrow> json option"
  sm_dumps :: "json \<Rightarrow> pystr"
  sm_rules :: pystr
  sm_default_model :: pystr
  sm_default_prompt :: pystr
  sm_chat :: "pystr \<Rightarrow> pystr \<Rightarrow> pystr \<Rightarrow> json res"
  sm_permits :: "pystr \<Rightarrow> bool res"

record summary_result =
  sr_call_summary :: pystr
  sr_unfinished_topics :: "pystr list"
  sr_user_emotion :: pystr
  sr_assistant_emotion :: pystr
  sr_reasoning :: "pystr option"
  sr_followup :: "candidate option"

definition bad_summary :: exn where
  "bad_summary = ValueError ''invalid_summary_output''"

text \<open>\<open>_string\<close>\<close>

definition summary_string :: "bool \<Rightarrow> nat option \<Rightarrow> json \<Rightarrow> pystr res" where
  "summary_string single_line max_length v =
     (case v of
        JStr s \<Rightarrow>
          let t = py_strip s in
          if t = [] then Inl bad_summary
          else if single_line \<and> (13 \<in> set t \<or> 10 \<in> set t) then Inl bad_summary
          else if (case max_length of None \<Rightarrow> False | Some m \<Rightarrow> length t > m) then Inl bad_summary
          else Inr t
      | _ \<Rightarrow> Inl bad_summary)"

fun summary_strings :: "json list \<Rightarrow> pystr list res" where
  "summary_strings [] = Inr []"
| "summary_strings (v # vs) = bindR (summary_string False None v) (\<lambda>t. map_sum id (Cons t) (summary_strings vs))"

definition summary_required :: "string list" where
  "summary_required = [''call_summary'', ''unfinished_topics'', ''user_emotion'', ''assistant_emotion'', ''should_send_followup'']"

definition summary_allowed :: "string list" where
  "summary_allowed = summary_required @ [''reasoning'', ''followup_delay_minutes'', ''followup_content'', ''content_type'']"

definition summary_reasoning :: "json \<Rightarrow> pystr option" where
  "summary_reasoning v = (case v of JStr s \<Rightarrow> if py_strip s = [] then None else Some (py_strip s) | _ \<Rightarrow> None)"

definition followup_kind :: "json \<Rightarrow> followup_type option" where
  "followup_kind v = (if v = JStr (asc ''topic_continuation'') then Some Topic_continuation
     else if v = JStr (asc ''emotional_followup'') then Some Emotional_followup else None)"

text \<open>A list or an object cannot be looked up in a set: a \<open>TypeError\<close>.\<close>

definition unhashable :: "json \<Rightarrow> bool" where
  "unhashable v = (case v of JList _ \<Rightarrow> True | JObj _ \<Rightarrow> True | _ \<Rightarrow> False)"

definition summary_followup :: "json \<Rightarrow> candidate option res" where
  "summary_followup data =
     (case jget data ''should_send_followup'' of
        JBool False \<Rightarrow> Inr None
      | JBool True \<Rightarrow>
          (case (jget data ''followup_delay_minutes'', followup_kind (jget data ''content_type'')) of
             (JInt delay, Some kind) \<Rightarrow>
               if delay < 0 then Inl bad_summary
               else bindR (summary_string False None (jget data ''followup_content'')) (\<lambda>t.
                 Inr (Some \<lparr>cd_type = kind, cd_content = t, cd_delay = delay\<rparr>))
           | (JInt delay, None) \<Rightarrow> if 0 \<le> delay \<and> unhashable (jget data ''content_type'') then Inl (RuntimeError ''unhashable'') else Inl bad_summary
           | _ \<Rightarrow> Inl bad_summary)
      | _ \<Rightarrow> Inl bad_summary)"

definition summary_fields :: "json \<Rightarrow> summary_result res" where
  "summary_fields data =
     bindR (summary_string True None (jget data ''call_summary'')) (\<lambda>summary.
     bindR (case jget data ''unfinished_topics'' of JList vs \<Rightarrow> summary_strings vs | _ \<Rightarrow> Inl bad_summary) (\<lambda>topics.
     bindR (summary_string False (Some 64) (jget data ''user_emotion'')) (\<lambda>user.
     bindR (summary_string False (Some 64) (jget data ''assistant_emotion'')) (\<lambda>assistant.
     bindR (summary_followup data) (\<lambda>followup.
       Inr \<lparr>sr_call_summary = summary, sr_unfinished_topics = topics, sr_user_emotion = user, sr_assistant_emotion = assistant,
         sr_reasoning = summary_reasoning (jget data ''reasoning''), sr_followup = followup\<rparr>)))))"

definition parse_summary :: "summary_env \<Rightarrow> json \<Rightarrow> summary_result res" where
  "parse_summary env raw =
     (case raw of
        JStr s \<Rightarrow>
          (case sm_loads env s of None \<Rightarrow> Inl bad_summary
           | Some data \<Rightarrow>
               if \<not> is_obj data \<or> \<not> set (jkeys data) \<subseteq> set summary_allowed \<or> \<not> set summary_required \<subseteq> set (jkeys data)
               then Inl bad_summary else summary_fields data)
      | _ \<Rightarrow> Inl bad_summary)"

section \<open>The prompt\<close>

definition text_present :: "pystr option \<Rightarrow> bool" where
  "text_present t \<longleftrightarrow> (case t of None \<Rightarrow> False | Some s \<Rightarrow> nonblank s)"

definition safe_closed_turn :: "turn_row \<Rightarrow> bool" where
  "safe_closed_turn t \<longleftrightarrow> tn_status t \<in> {Finalized, Interrupted} \<and> tn_evidence t \<noteq> No_evidence \<and>
     text_present (tn_user_text_final t) \<and> text_present (tn_assistant_text_effective t) \<and>
     tn_user_safety t = Saf_passed \<and> tn_assistant_safety t = Saf_passed \<and>
     tn_user_crisis t = Cri_passed \<and> tn_assistant_crisis t = Cri_passed"

definition turn_input :: "turn_row \<Rightarrow> json" where
  "turn_input t = JObj [(''turn_index'', JInt (tn_turn_index t)), (''user_text'', JStr (the (tn_user_text_final t))),
     (''assistant_text_effective'', JStr (the (tn_assistant_text_effective t)))]"

definition input_marker :: pystr where
  "input_marker = asc ''INPUT_JSON:'' @ [10]"

definition build_summary_prompt :: "summary_env \<Rightarrow> int \<Rightarrow> turn_row list \<Rightarrow> pystr \<Rightarrow> pystr" where
  "build_summary_prompt env seconds turns template =
     sm_rules env @ [10] @ template @ [10] @ input_marker @
     sm_dumps env (JObj [(''duration_seconds'', JInt seconds), (''turns'', JList (map turn_input (filter safe_closed_turn turns)))])"

text \<open>\<open>prompt.rpartition(sep)\<close>: the parts around the last separator.\<close>

fun rpartition :: "pystr \<Rightarrow> pystr \<Rightarrow> (pystr \<times> pystr) option" where
  "rpartition sep [] = None"
| "rpartition sep (c # cs) =
     (case rpartition sep cs of Some (a, b) \<Rightarrow> Some (c # a, b)
      | None \<Rightarrow> if take (length sep) (c # cs) = sep then Some ([], drop (length sep) (c # cs)) else None)"

definition summary_call :: "summary_env \<Rightarrow> pystr \<Rightarrow> pystr \<Rightarrow> json res" where
  "summary_call env model prompt =
     (case rpartition input_marker prompt of None \<Rightarrow> Inl (ValueError ''summary_input_missing'')
      | Some (system, inputs) \<Rightarrow> sm_chat env model system inputs)"

text \<open>Every text in order; a refusal and an exception both stop.\<close>

fun permit_all :: "(pystr \<Rightarrow> bool res) \<Rightarrow> pystr list \<Rightarrow> unit res" where
  "permit_all permits [] = Inr ()"
| "permit_all permits (t # ts) = bindR (permits t) (\<lambda>ok. if ok then permit_all permits ts else Inl (ValueError ''summary_output_rejected''))"

definition output_texts :: "summary_result \<Rightarrow> pystr list" where
  "output_texts r = [sr_call_summary r] @ sr_unfinished_topics r @ [sr_user_emotion r, sr_assistant_emotion r] @
     (case sr_followup r of None \<Rightarrow> [] | Some c \<Rightarrow> [cd_content c])"

text \<open>The private reasoning is dropped unless it is permitted.\<close>

definition check_reasoning :: "(pystr \<Rightarrow> bool res) \<Rightarrow> summary_result \<Rightarrow> summary_result" where
  "check_reasoning permits r =
     (case sr_reasoning r of None \<Rightarrow> r | Some t \<Rightarrow> if permits t = Inr True then r else r\<lparr>sr_reasoning := None\<rparr>)"

definition generate_summary :: "summary_env \<Rightarrow> pystr \<Rightarrow> int \<Rightarrow> turn_row list \<Rightarrow> pystr \<Rightarrow> bool \<Rightarrow> summary_result res" where
  "generate_summary env model seconds turns template reasoning_too =
     bindR (summary_call env model (build_summary_prompt env seconds turns template)) (\<lambda>raw.
     bindR (parse_summary env raw) (\<lambda>r.
     bindR (permit_all (sm_permits env) (output_texts r)) (\<lambda>_.
       Inr (if reasoning_too then check_reasoning (sm_permits env) r else r))))"

section \<open>Settings\<close>

definition deepseek :: pystr where
  "deepseek = asc ''deepseek-''"

text \<open>A part of the snapshot that is no object has no \<open>get\<close>.\<close>

definition part_of :: "json \<Rightarrow> string \<Rightarrow> json \<Rightarrow> json res" where
  "part_of v k d = (if is_obj v then Inr (jget_def' v k d) else Inl (ValueError ''attribute_error''))"

definition summary_settings :: "summary_env \<Rightarrow> json \<Rightarrow> (pystr \<times> pystr) res" where
  "summary_settings env snapshot =
     bindR (part_of snapshot ''resolved_config'' (JObj [])) (\<lambda>c.
     bindR (part_of c ''summary'' (JObj [(''model'', JStr (sm_default_model env))])) (\<lambda>config.
     bindR (part_of snapshot ''resolved_script'' (JObj [])) (\<lambda>s.
     bindR (part_of s ''summary'' (JObj [(''prompt_template'', JStr (sm_default_prompt env))])) (\<lambda>script.
     bindR (part_of config ''model'' JNull) (\<lambda>model.
     bindR (part_of script ''prompt_template'' JNull) (\<lambda>prompt.
       case (model, prompt) of
         (JStr m, JStr p) \<Rightarrow> if take (length deepseek) m = deepseek \<and> nonblank p then Inr (m, p)
           else Inl (ValueError ''summary_configuration_invalid'')
       | _ \<Rightarrow> Inl (ValueError ''summary_configuration_invalid'')))))))"

section \<open>The job\<close>

definition summary_job_type :: string where
  "summary_job_type = ''call_summary''"

definition find_summary_job :: "string \<Rightarrow> database \<Rightarrow> postprocess_job option" where
  "find_summary_job cid db = find (\<lambda>p. pj_call_id p = cid \<and> pj_job_type p = summary_job_type) (db_post_jobs db)"

definition put_post_job :: "postprocess_job \<Rightarrow> database \<Rightarrow> database" where
  "put_post_job j db = db\<lparr>db_post_jobs := row_put pj_id j (db_post_jobs db)\<rparr>"

definition new_summary_job :: "datetime \<Rightarrow> string \<Rightarrow> database \<Rightarrow> postprocess_job" where
  "new_summary_job now cid db = \<lparr>pj_id = fresh_id (map pj_id (db_post_jobs db)), pj_call_id = cid, pj_job_type = summary_job_type,
     pj_status = Post_pending, pj_attempt_count = 0, pj_next_retry_at = None, pj_fail_reason = None, pj_lease_owner = None,
     pj_lease_expires_at = None, pj_created_at = now\<rparr>"

definition closed_off :: "voice_call \<Rightarrow> bool" where
  "closed_off c \<longleftrightarrow> vc_deletion_fence_at c \<noteq> None \<or> vc_deleted_at c \<noteq> None"

text \<open>\<open>t and t <= now\<close> for a column that may be empty.\<close>

definition passed_by :: "datetime \<Rightarrow> datetime option \<Rightarrow> bool" where
  "passed_by now t \<longleftrightarrow> (case t of None \<Rightarrow> False | Some x \<Rightarrow> x \<le> now)"

definition enqueue_summary :: "datetime \<Rightarrow> string \<Rightarrow> database \<Rightarrow> string \<times> database" where
  "enqueue_summary now cid db =
     (case get_call cid db of None \<Rightarrow> (''not_ended'', db)
      | Some c \<Rightarrow>
          if vc_status c \<notin> {Ended, Missed, Failed, Cancelled} then (''not_ended'', db)
          else if closed_off c then (''cancelled'', db)
          else (case find_summary_job cid db of
              Some j \<Rightarrow> (postprocess_status_str (pj_status j), db)
            | None \<Rightarrow> (''pending'', db\<lparr>db_post_jobs := db_post_jobs db @ [new_summary_job now cid db]\<rparr>)))"

definition release_post :: "postprocess_job \<Rightarrow> postprocess_job" where
  "release_post j = j\<lparr>pj_lease_owner := None, pj_lease_expires_at := None, pj_next_retry_at := None\<rparr>"

text \<open>The end of a job with the status of the call's summary, where it changes.\<close>

definition settle_job :: "postprocess_job \<Rightarrow> postprocess_status \<Rightarrow> string option \<Rightarrow> voice_call \<Rightarrow> summary_status option \<Rightarrow> database \<Rightarrow> database" where
  "settle_job j st reason c summary db =
     (let j' = release_post (j\<lparr>pj_status := st, pj_fail_reason := (if reason = None then pj_fail_reason j else reason)\<rparr>);
          db1 = (case summary of None \<Rightarrow> db | Some x \<Rightarrow> put_call (c\<lparr>vc_summary_status := x\<rparr>) db) in
      put_post_job j' db1)"

definition source_turns :: "datetime \<Rightarrow> string \<Rightarrow> database \<Rightarrow> turn_row list" where
  "source_turns now cid db = filter (\<lambda>t. safe_closed_turn t \<and> (case tn_effective_text_expires_at t of None \<Rightarrow> False | Some e \<Rightarrow> e > now))
     (sort_key tn_turn_index (filter (\<lambda>t. tn_call_id t = cid) (db_turns db)))"

definition source_expiry :: "voice_call \<Rightarrow> turn_row list \<Rightarrow> datetime" where
  "source_expiry c turns = Min (set (map (\<lambda>t. the (tn_effective_text_expires_at t)) turns @
     (case vc_transcript_expires_at c of None \<Rightarrow> [] | Some e \<Rightarrow> [e])))"

record summary_work =
  wk_seconds :: int
  wk_turns :: "turn_row list"
  wk_expiry :: datetime
  wk_model :: pystr
  wk_prompt :: pystr

datatype summary_claim = Sum_stop string | Sum_work summary_work

definition start_summary ::
  "summary_env \<Rightarrow> datetime \<Rightarrow> string \<Rightarrow> int \<Rightarrow> voice_call \<Rightarrow> postprocess_job \<Rightarrow> turn_row list \<Rightarrow> database \<Rightarrow> summary_claim \<times> database" where
  "start_summary env now owner timeout c j turns db =
     (case summary_settings env (vc_config_snapshot c) of
        Inl _ \<Rightarrow> (Sum_stop ''failed'', settle_job j Post_failed (Some ''summary_configuration_invalid'') c (Some Sum_failed) db)
      | Inr (model, prompt) \<Rightarrow>
          (Sum_work \<lparr>wk_seconds = vc_duration_seconds c, wk_turns = turns, wk_expiry = source_expiry c turns, wk_model = model, wk_prompt = prompt\<rparr>,
           put_post_job (j\<lparr>pj_status := Post_processing, pj_attempt_count := pj_attempt_count j + 1, pj_lease_owner := Some owner,
             pj_lease_expires_at := Some (now + timeout + us_second), pj_fail_reason := None\<rparr>) db))"

text \<open>The first transaction of \<open>process\<close>.\<close>

definition claim_summary :: "summary_env \<Rightarrow> datetime \<Rightarrow> string \<Rightarrow> int \<Rightarrow> string \<Rightarrow> database \<Rightarrow> summary_claim \<times> database" where
  "claim_summary env now owner timeout cid db =
     (case (get_call cid db, find_summary_job cid db) of
        (None, _) \<Rightarrow> (Sum_stop ''missing'', db)
      | (_, None) \<Rightarrow> (Sum_stop ''idle'', db)
      | (Some c, Some j) \<Rightarrow>
          if closed_off c then (Sum_stop ''cancelled'', settle_job j Post_cancelled None c None db)
          else if pj_status j = Post_processing \<and> (case pj_lease_expires_at j of None \<Rightarrow> True | Some e \<Rightarrow> e \<le> now)
          then (Sum_stop ''failed'', settle_job j Post_failed (Some ''lease_expired'') c (Some Sum_failed) db)
          else if pj_status j \<noteq> Post_pending then (Sum_stop (postprocess_status_str (pj_status j)), db)
          else if vc_status c \<notin> {Ended, Missed, Failed, Cancelled} then (Sum_stop ''not_ended'', db)
          else if vc_status c \<noteq> Ended \<or> \<not> summary_eligible db c
          then (Sum_stop ''not_applicable'', settle_job j Post_success None c (Some Sum_not_applicable) db)
          else if vc_sort_seq c = None then (Sum_stop ''card_missing'', db)
          else let turns = source_turns now cid db in
            if turns = [] \<or> passed_by now (vc_transcript_expires_at c)
            then (Sum_stop ''cancelled'', settle_job j Post_cancelled (Some ''source_expired'') c (Some Sum_failed) db)
            else if \<not> list_ex (\<lambda>t. meaningful_user_text (tn_user_text_final t)) turns
            then (Sum_stop ''not_applicable'', settle_job j Post_success None c (Some Sum_not_applicable) db)
            else start_summary env now owner timeout c j turns db)"

definition owned_job :: "datetime \<Rightarrow> string \<Rightarrow> string \<Rightarrow> database \<Rightarrow> postprocess_job option" where
  "owned_job now cid owner db = find (\<lambda>p. pj_call_id p = cid \<and> pj_job_type p = summary_job_type \<and> pj_status p = Post_processing \<and>
     pj_lease_owner p = Some owner \<and> (case pj_lease_expires_at p of None \<Rightarrow> False | Some e \<Rightarrow> e > now)) (db_post_jobs db)"

definition fail_summary :: "datetime \<Rightarrow> string \<Rightarrow> string \<Rightarrow> string \<Rightarrow> database \<Rightarrow> string \<times> database" where
  "fail_summary now cid owner reason db =
     (case (get_call cid db, owned_job now cid owner db) of
        (Some c, Some j) \<Rightarrow>
          if closed_off c then (''cancelled'', settle_job j Post_cancelled (Some reason) c None db)
          else (''failed'', settle_job j Post_failed (Some reason) c (Some Sum_failed) db)
      | _ \<Rightarrow> (''stale'', db))"

text \<open>\<open>timedelta(days=...)\<close> in microseconds.\<close>

definition days_us :: "json \<Rightarrow> int res" where
  "days_us v = (case v of JInt n \<Rightarrow> Inr (n * us_day) | JBool b \<Rightarrow> Inr (if b then us_day else 0)
     | JFloat (Fin r) \<Rightarrow> Inr (round (r * of_int us_day)) | _ \<Rightarrow> Inl (RuntimeError ''timedelta''))"

definition reasoning_expiry :: "voice_call \<Rightarrow> datetime res" where
  "reasoning_expiry c =
     bindR (part_of (vc_config_snapshot c) ''resolved_config'' (JObj [])) (\<lambda>config.
     bindR (part_of config ''retention'' (JObj [])) (\<lambda>retention.
     bindR (part_of retention ''reasoning_days'' (JInt (vc_generated_retention_days c))) (\<lambda>days.
     bindR (days_us days) (\<lambda>d.
       case vc_ended_at c of None \<Rightarrow> Inl (RuntimeError ''ended_at'') | Some e \<Rightarrow> Inr (e + d)))))"

definition with_summary :: "datetime \<Rightarrow> datetime \<Rightarrow> datetime \<Rightarrow> summary_result \<Rightarrow> voice_call \<Rightarrow> voice_call" where
  "with_summary now expiry reasoning_until r c =
     c\<lparr>vc_call_summary := Some (sr_call_summary r), vc_unfinished_topics := Some (JList (map JStr (sr_unfinished_topics r))),
       vc_user_emotion := Some (sr_user_emotion r), vc_assistant_emotion := Some (sr_assistant_emotion r),
       vc_summary_reasoning := (if reasoning_until > now then sr_reasoning r else None), vc_reasoning_expires_at := Some reasoning_until,
       vc_transcript_expires_at := Some expiry, vc_summary_status := Sum_ready\<rparr>"

text \<open>The follow-up the model proposed.\<close>

definition stage_of_summary :: "datetime \<Rightarrow> int \<Rightarrow> voice_call \<Rightarrow> summary_result \<Rightarrow> database \<Rightarrow> database res" where
  "stage_of_summary now seed c r db =
     (case sr_followup r of None \<Rightarrow> Inr db | Some cand \<Rightarrow> map_sum id snd (stage_followup now seed c cand None False db))"

text \<open>The last transaction of \<open>process\<close>.\<close>

definition finish_summary ::
  "datetime \<Rightarrow> int \<Rightarrow> string \<Rightarrow> string \<Rightarrow> datetime \<Rightarrow> summary_result \<Rightarrow> database \<Rightarrow> (string \<times> database) res" where
  "finish_summary now seed cid owner expiry r db =
     (case (get_call cid db, owned_job now cid owner db) of
        (Some c, Some j) \<Rightarrow>
          if closed_off c \<or> expiry \<le> now \<or> passed_by now (vc_transcript_expires_at c)
          then Inr (''cancelled'', settle_job j Post_cancelled (Some ''source_unavailable'') c (if closed_off c then None else Some Sum_failed) db)
          else bindR (stage_of_summary now seed c r db) (\<lambda>db1.
            bindR (reasoning_expiry c) (\<lambda>until.
              Inr (''ready'', commit_flush (put_post_job (release_post (j\<lparr>pj_status := Post_success\<rparr>))
                (put_call (with_summary now expiry until r c) db1)))))
      | _ \<Rightarrow> Inr (''stale'', db))"

section \<open>process\<close>

record summary_times =
  st_prepare :: datetime
  st_claim :: datetime
  st_finish :: datetime
  st_fail :: datetime

definition model_failure :: "exn \<Rightarrow> string" where
  "model_failure x = (case x of ValueError _ \<Rightarrow> ''invalid_or_rejected_output'' | _ \<Rightarrow> ''model_unavailable'')"

definition complete_summary ::
  "summary_env \<Rightarrow> summary_times \<Rightarrow> int \<Rightarrow> string \<Rightarrow> string \<Rightarrow> summary_work \<Rightarrow> database \<Rightarrow> string \<times> database" where
  "complete_summary env tm seed cid owner w db =
     (case generate_summary env (wk_model w) (wk_seconds w) (wk_turns w) (wk_prompt w) False of
        Inl x \<Rightarrow> fail_summary (st_fail tm) cid owner (model_failure x) db
      | Inr r \<Rightarrow> (case finish_summary (st_finish tm) seed cid owner (wk_expiry w) (check_reasoning (sm_permits env) r) db of
            Inl _ \<Rightarrow> fail_summary (st_fail tm) cid owner ''result_commit_failed'' db
          | Inr x \<Rightarrow> x))"

definition process_summary ::
  "summary_env \<Rightarrow> summary_times \<Rightarrow> int \<Rightarrow> string \<Rightarrow> int \<Rightarrow> string \<Rightarrow> database \<Rightarrow> string \<times> database" where
  "process_summary env tm seed owner timeout cid db =
     (case claim_summary env (st_claim tm) owner timeout cid (snd (compensate (st_prepare tm) cid True db)) of
        (Sum_stop x, db1) \<Rightarrow> (x, db1)
      | (Sum_work w, db1) \<Rightarrow> complete_summary env tm seed cid owner w db1)"

section \<open>Selection, expiry and administration\<close>

definition missing_summaries :: "database \<Rightarrow> string list" where
  "missing_summaries db = take 8 (map vc_call_id (sort_key vc_id (filter (\<lambda>c. vc_status c = Ended \<and> vc_sort_seq c \<noteq> None \<and>
     \<not> closed_off c \<and> find_summary_job (vc_call_id c) db = None) (db_calls db))))"

definition due_summaries :: "datetime \<Rightarrow> database \<Rightarrow> string list" where
  "due_summaries now db = take 8 (map pj_call_id (sort_key pj_id (filter (\<lambda>j. pj_job_type j = summary_job_type \<and>
     (pj_status j = Post_pending \<or> pj_status j = Post_processing \<and> (case pj_lease_expires_at j of None \<Rightarrow> True | Some e \<Rightarrow> e \<le> now)))
     (db_post_jobs db))))"

definition purge_reasoning :: "datetime \<Rightarrow> database \<Rightarrow> int \<times> database" where
  "purge_reasoning now db =
     (let due = (\<lambda>c. passed_by now (vc_reasoning_expires_at c) \<and> vc_summary_reasoning c \<noteq> None) in
      (int (length (filter due (db_calls db))),
       db\<lparr>db_calls := map (\<lambda>c. if due c then c\<lparr>vc_summary_reasoning := None\<rparr> else c) (db_calls db)\<rparr>))"

definition read_summary_reasoning :: "string \<Rightarrow> datetime \<Rightarrow> string \<Rightarrow> database \<Rightarrow> pystr option res" where
  "read_summary_reasoning role now cid db =
     (if role \<noteq> ''super_admin'' then Inl (ConfigError ''VOICE_REASONING_FORBIDDEN'' 403)
      else case get_call cid db of None \<Rightarrow> Inl (ConfigError ''VOICE_CALL_NOT_FOUND'' 404)
        | Some c \<Rightarrow> if closed_off c then Inl (ConfigError ''VOICE_CALL_NOT_FOUND'' 404)
            else Inr (case vc_reasoning_expires_at c of None \<Rightarrow> None | Some e \<Rightarrow> if e > now then vc_summary_reasoning c else None))"

definition retryable_reasons :: "string list" where
  "retryable_reasons = [''lease_expired'', ''invalid_or_rejected_output'', ''model_unavailable'', ''result_commit_failed'']"

definition retry_summary_job :: "string \<Rightarrow> datetime \<Rightarrow> int \<Rightarrow> database \<Rightarrow> (int \<times> database) res" where
  "retry_summary_job role now i db =
     (if role \<notin> {''super_admin'', ''tech_ops''} then Inl (ConfigError ''VOICE_JOB_FORBIDDEN'' 403)
      else case find (\<lambda>j. pj_id j = i \<and> pj_job_type j = summary_job_type) (db_post_jobs db) of
        None \<Rightarrow> Inl (ConfigError ''VOICE_JOB_NOT_FOUND'' 404)
      | Some j \<Rightarrow> (case get_call (pj_call_id j) db of
            None \<Rightarrow> Inl (ConfigError ''VOICE_JOB_NOT_RETRYABLE'' 409)
          | Some c \<Rightarrow>
              if vc_status c \<noteq> Ended \<or> closed_off c \<or>
                \<not> list_ex (\<lambda>t. tn_call_id t = vc_call_id c \<and> (case tn_effective_text_expires_at t of None \<Rightarrow> False | Some e \<Rightarrow> e > now)) (db_turns db) \<or>
                passed_by now (vc_transcript_expires_at c) \<or> pj_status j \<noteq> Post_failed \<or>
                (case pj_fail_reason j of None \<Rightarrow> True | Some x \<Rightarrow> x \<notin> set retryable_reasons)
              then Inl (ConfigError ''VOICE_JOB_NOT_RETRYABLE'' 409)
              else Inr (pj_attempt_count j, put_post_job (release_post (j\<lparr>pj_status := Post_pending\<rparr>))
                (put_call (c\<lparr>vc_summary_status := Sum_pending\<rparr>) db))))"

end
