(* ===== verification/SummaryClaims.thy ===== *)
theory SummaryClaims
  imports Summary MemoryInv
begin

text \<open>
  What the summary job guarantees: the texts that reach the call are permitted ones, a finished job stays finished, and
  a pending job is settled by one run.
\<close>

section \<open>The rows of a call\<close>

definition post_ok :: "database \<Rightarrow> bool" where
  "post_ok db \<longleftrightarrow> distinct (map pj_id (db_post_jobs db)) \<and> distinct (map (\<lambda>p. (pj_call_id p, pj_job_type p)) (db_post_jobs db))"

lemma post_same_id: "post_ok db \<Longrightarrow> a \<in> set (db_post_jobs db) \<Longrightarrow> b \<in> set (db_post_jobs db) \<Longrightarrow> pj_id a = pj_id b \<Longrightarrow> a = b"
  by (auto simp: post_ok_def distinct_map inj_on_def)

lemma post_same_key:
  "post_ok db \<Longrightarrow> a \<in> set (db_post_jobs db) \<Longrightarrow> b \<in> set (db_post_jobs db) \<Longrightarrow> pj_call_id a = pj_call_id b \<Longrightarrow>
     pj_job_type a = pj_job_type b \<Longrightarrow> a = b"
  by (auto simp: post_ok_def distinct_map inj_on_def)

lemma find_summary_mem:
  "find_summary_job cid db = Some j \<Longrightarrow> j \<in> set (db_post_jobs db) \<and> pj_call_id j = cid \<and> pj_job_type j = summary_job_type"
  by (auto simp: find_summary_job_def dest: find_Some_mem)

lemma find_summary_iff:
  assumes "post_ok db"
  shows "find_summary_job cid db = Some j \<longleftrightarrow>
    j \<in> set (db_post_jobs db) \<and> pj_call_id j = cid \<and> pj_job_type j = summary_job_type"
proof
  assume j: "j \<in> set (db_post_jobs db) \<and> pj_call_id j = cid \<and> pj_job_type j = summary_job_type"
  then have "find_summary_job cid db \<noteq> None" by (auto simp: find_summary_job_def find_None_iff)
  then obtain k where k: "find_summary_job cid db = Some k" by blast
  from find_summary_mem [OF k] j post_same_key [OF assms, of k j] show "find_summary_job cid db = Some j" using k by auto
qed (rule find_summary_mem)

lemma owned_job_summary:
  assumes "owned_job now cid owner db = Some j"
  shows "pj_status j = Post_processing" "pj_lease_owner j = Some owner"
    "j \<in> set (db_post_jobs db)" "pj_call_id j = cid" "pj_job_type j = summary_job_type"
  using assms by (auto simp: owned_job_def dest: find_Some_mem)

lemma owned_job_find: "post_ok db \<Longrightarrow> owned_job now cid owner db = Some j \<Longrightarrow> find_summary_job cid db = Some j"
  using owned_job_summary [of now cid owner db j] by (simp add: find_summary_iff)

lemma owned_jobI:
  assumes "post_ok db" "find_summary_job cid db = Some j" "pj_status j = Post_processing" "pj_lease_owner j = Some owner"
    "pj_lease_expires_at j = Some e" "now < e"
  shows "owned_job now cid owner db = Some j"
proof -
  note m = find_summary_mem [OF assms(2)]
  have "owned_job now cid owner db \<noteq> None"
    unfolding owned_job_def find_None_iff using m assms(3-6) by auto
  then obtain k where k: "owned_job now cid owner db = Some k" by blast
  from owned_job_find [OF assms(1) k] assms(2) k show ?thesis by simp
qed

lemma find_None_map: "(\<And>x. P (f x) = P x) \<Longrightarrow> (find P (map f xs) = None) = (find P xs = None)"
  by (auto simp: find_None_iff)

lemma put_post_job:
  assumes "post_ok db" "find_summary_job cid db = Some j" "pj_id j' = pj_id j" "pj_call_id j' = cid" "pj_job_type j' = summary_job_type"
  shows "post_ok (put_post_job j' db)"
    "find_summary_job d (put_post_job j' db) = (if d = cid then Some j' else find_summary_job d db)"
proof -
  note m = find_summary_mem [OF assms(2)]
  have k: "map (\<lambda>p. (pj_call_id p, pj_job_type p)) (row_put pj_id j' (db_post_jobs db)) =
      map (\<lambda>p. (pj_call_id p, pj_job_type p)) (db_post_jobs db)"
    using post_same_id [OF assms(1)] m assms(3-5) by (fastforce simp: row_put_def)
  then show ok: "post_ok (put_post_job j' db)" using assms(1) by (simp add: post_ok_def put_post_job_def)
  have mem: "x \<in> set (db_post_jobs (put_post_job j' db)) \<longleftrightarrow> x = j' \<or> x \<in> set (db_post_jobs db) \<and> x \<noteq> j" for x
    using m assms(3) post_same_id [OF assms(1)] by (fastforce simp: put_post_job_def row_put_def image_iff)
  show "find_summary_job d (put_post_job j' db) = (if d = cid then Some j' else find_summary_job d db)"
  proof (cases "d = cid")
    case True
    then show ?thesis using find_summary_iff [OF ok, of cid j'] mem assms(4,5) by simp
  next
    case False
    have "find_summary_job d (put_post_job j' db) = Some x \<longleftrightarrow> find_summary_job d db = Some x" for x
      using find_summary_iff [OF ok, of d x] find_summary_iff [OF assms(1), of d x] mem [of x] m assms(4) False by auto
    then show ?thesis using False by (metis not_None_eq)
  qed
qed

lemma post_frame [simp]:
  "db_calls (put_post_job j db) = db_calls db" "db_post_jobs (put_call c db) = db_post_jobs db"
  "get_call d (put_post_job j db) = get_call d db" "find_summary_job d (put_call c db) = find_summary_job d db"
  "post_ok (put_call c db) = post_ok db" "db_followups (put_post_job j db) = db_followups db"
  "db_post_jobs (commit_flush db) = db_post_jobs db" "find_summary_job d (commit_flush db) = find_summary_job d db"
  "post_ok (commit_flush db) = post_ok db" "db_followups (commit_flush db) = db_followups db"
  by (simp_all add: put_post_job_def put_call_def get_call_def find_summary_job_def post_ok_def commit_flush_def)

lemma release_post_simps [simp]:
  "pj_id (release_post j) = pj_id j" "pj_call_id (release_post j) = pj_call_id j" "pj_job_type (release_post j) = pj_job_type j"
  "pj_status (release_post j) = pj_status j" "pj_lease_owner (release_post j) = None" "pj_lease_expires_at (release_post j) = None"
  "pj_attempt_count (release_post j) = pj_attempt_count j" "pj_fail_reason (release_post j) = pj_fail_reason j"
  by (simp_all add: release_post_def)

lemma settle_job:
  fixes st reason summary
  assumes "post_ok db" "get_call cid db = Some c" "find_summary_job cid db = Some j"
  defines "db' \<equiv> settle_job j st reason c summary db"
  shows "post_ok db'"
    "get_call d db' = (if d = cid then Some (case summary of None \<Rightarrow> c | Some x \<Rightarrow> c\<lparr>vc_summary_status := x\<rparr>) else get_call d db)"
    "\<exists>j'. find_summary_job d db' = (if d = cid then Some j' else find_summary_job d db) \<and> pj_status j' = st \<and>
       pj_lease_owner j' = None \<and> pj_attempt_count j' = pj_attempt_count j"
proof -
  define j' where "j' = release_post (j\<lparr>pj_status := st, pj_fail_reason := (if reason = None then pj_fail_reason j else reason)\<rparr>)"
  define db1 where "db1 = (case summary of None \<Rightarrow> db | Some x \<Rightarrow> put_call (c\<lparr>vc_summary_status := x\<rparr>) db)"
  have e: "db' = put_post_job j' db1" by (simp add: db'_def settle_job_def j'_def db1_def)
  have ok: "post_ok db1" "find_summary_job d db1 = find_summary_job d db" for d
    using assms(1) by (simp_all add: db1_def split: option.split)
  note P = put_post_job [OF ok(1), of cid j j']
  note m = find_summary_mem [OF assms(3)]
  show "post_ok db'" using P(1) ok(2) m assms(3) by (simp add: e j'_def)
  show "\<exists>j'. find_summary_job d db' = (if d = cid then Some j' else find_summary_job d db) \<and> pj_status j' = st \<and>
       pj_lease_owner j' = None \<and> pj_attempt_count j' = pj_attempt_count j"
    using P(2) [of d] ok(2) m assms(3) by (intro exI [of _ j']) (simp add: e j'_def)
  have "vc_call_id c = cid" using assms(2) by (rule calls.get_key)
  then show "get_call d db' = (if d = cid then Some (case summary of None \<Rightarrow> c | Some x \<Rightarrow> c\<lparr>vc_summary_status := x\<rparr>) else get_call d db)"
    using assms(2) by (simp add: e db1_def calls.get_put split: option.split)
qed

section \<open>What reaches the model\<close>

lemma rpartition_miss:
  assumes "10 \<notin> set x" "10 \<notin> set a" "10 \<notin> set b" "length a < length x"
  shows "rpartition (x @ [10]) (a @ 10 # b) = None"
  using assms
proof (induction a)
  case Nil
  have "rpartition (x @ [10]) b = None" if "10 \<notin> set b" for b
    using that
  proof (induction b)
    case (Cons c cs)
    have "10 \<in> set (x @ [10])" by simp
    then have "take (length (x @ [10])) (c # cs) \<noteq> x @ [10]" using Cons.prems by (metis in_set_takeD)
    with Cons show ?case by simp
  qed simp
  moreover have "take (length (x @ [10])) (10 # b) \<noteq> x @ [10]"
    using Nil(1,4) by (cases x) auto
  ultimately show ?case using Nil by simp
next
  case (Cons c a)
  have "take (length (x @ [10])) (c # a @ 10 # b) \<noteq> x @ [10]"
  proof
    assume "take (length (x @ [10])) (c # a @ 10 # b) = x @ [10]"
    then have e: "(c # a) @ 10 # b = x @ 10 # drop (length (x @ [10])) (c # a @ 10 # b)"
      by (metis append.assoc append_Cons append_Nil append_take_drop_id)
    have "takeWhile (\<lambda>z. z \<noteq> 10) (p @ 10 # q) = p" if "10 \<notin> set p" for p q :: pystr
      using that by (induction p) auto
    with e Cons.prems(1,2) have "c # a = x" by metis
    with Cons.prems(4) show False by simp
  qed
  with Cons show ?case by simp
qed

lemma rpartition_last:
  assumes "10 \<notin> set x" "10 \<notin> set b" "x \<noteq> []"
  shows "rpartition (x @ [10]) (p @ x @ 10 # b) = Some (p, b)"
proof (induction p)
  case Nil
  obtain y ys where x: "x = y # ys" using assms(3) by (cases x) auto
  have "rpartition (x @ [10]) (ys @ 10 # b) = None" by (rule rpartition_miss) (use assms(1,2) x in auto)
  then show ?case by (simp add: x)
qed simp

text \<open>C17: What was said in a call reaches the model only as data: the system message is the fixed rules and the
  configured prompt whatever the transcript holds, and the user message is the JSON of the duration and of the closed
  turns whose both sides passed the safety and the crisis check, when the JSON text has no line break (as
  \<open>json.dumps\<close> without an indent escapes them).
\<close>

theorem transcript_reaches_model_as_data:
  assumes "10 \<notin> set (sm_dumps env (JObj [(''duration_seconds'', JInt seconds), (''turns'', JList (map turn_input (filter safe_closed_turn turns)))]))"
  shows "summary_call env model (build_summary_prompt env seconds turns template) =
    sm_chat env model (sm_rules env @ [10] @ template @ [10])
      (sm_dumps env (JObj [(''duration_seconds'', JInt seconds), (''turns'', JList (map turn_input (filter safe_closed_turn turns)))]))"
  using rpartition_last [of "asc ''INPUT_JSON:''", OF _ assms, of "sm_rules env @ [10] @ template @ [10]"]
  by (simp add: summary_call_def build_summary_prompt_def input_marker_def asc_def)

section \<open>What reaches the call\<close>

definition opt_texts :: "pystr option \<Rightarrow> pystr list" where
  "opt_texts t = (case t of None \<Rightarrow> [] | Some x \<Rightarrow> [x])"

definition stored_topics :: "json option \<Rightarrow> pystr list" where
  "stored_topics v = (case v of Some (JList vs) \<Rightarrow> concat (map (\<lambda>x. case x of JStr t \<Rightarrow> [t] | _ \<Rightarrow> []) vs) | _ \<Rightarrow> [])"

text \<open>Every text the summary leaves in the call.\<close>

definition stored_texts :: "voice_call \<Rightarrow> pystr list" where
  "stored_texts c = opt_texts (vc_call_summary c) @ stored_topics (vc_unfinished_topics c) @ opt_texts (vc_user_emotion c) @
     opt_texts (vc_assistant_emotion c) @ opt_texts (vc_summary_reasoning c)"

lemma stored_topics_list [simp]: "stored_topics (Some (JList (map JStr ts))) = ts"
  by (induction ts) (simp_all add: stored_topics_def)

lemma permit_all_iff: "permit_all permits ts = Inr () \<longleftrightarrow> list_all (\<lambda>t. permits t = Inr True) ts"
proof (induction ts)
  case (Cons t ts)
  then show ?case by (cases "permits t") auto
qed simp

lemma generate_permits:
  assumes "generate_summary env model seconds turns template False = Inr r"
  shows "list_all (\<lambda>t. sm_permits env t = Inr True) (output_texts r)"
  using assms by (auto simp: generate_summary_def bindR_Inr_iff permit_all_iff)

lemma check_reasoning_simps [simp]:
  "output_texts (check_reasoning permits r) = output_texts r" "sr_followup (check_reasoning permits r) = sr_followup r"
  by (simp_all add: check_reasoning_def output_texts_def split: option.split)

lemma check_reasoning_permits: "sr_reasoning (check_reasoning permits r) = Some t \<Longrightarrow> permits t = Inr True"
  by (auto simp: check_reasoning_def split: option.splits if_splits)

lemma with_summary_texts:
  assumes "list_all Q (output_texts r)" "\<And>t. sr_reasoning r = Some t \<Longrightarrow> Q t"
  shows "list_all Q (stored_texts (with_summary now expiry until r c))"
  using assms by (auto simp: stored_texts_def with_summary_def output_texts_def opt_texts_def split: option.split)

lemma stage_followup_content:
  assumes "stage_followup utcnow seed c cand None allow_new db = Inr (row, db')"
  shows "db_post_jobs db' = db_post_jobs db"
    "x \<in> set (db_followups db') \<Longrightarrow> x \<in> set (db_followups db) \<or> fj_content x = cd_content cand \<and> fj_call_id x = vc_call_id c"
  using stage_followup_cases [OF assms]
  by (auto simp: stage_def new_followup_def Let_def bindR_Inr_iff followup_row_def split: option.splits)

lemma map_sum_Inr: "map_sum id f x = Inr y \<longleftrightarrow> (\<exists>z. x = Inr z \<and> y = f z)"
  by (cases x) auto

lemma stage_of_summary:
  assumes "stage_of_summary now seed c r db = Inr db1"
  shows "db_calls db1 = db_calls db" "db_post_jobs db1 = db_post_jobs db"
    "x \<in> set (db_followups db1) \<Longrightarrow> x \<in> set (db_followups db) \<or> fj_content x \<in> set (output_texts r) \<and> fj_call_id x = vc_call_id c"
  using assms
  by (auto simp: stage_of_summary_def output_texts_def map_sum_Inr split: option.splits
      dest: stage_followup_frame(1) stage_followup_content)

text \<open>The ready branch of the last transaction.\<close>

lemma finish_cases:
  assumes "finish_summary now seed cid owner expiry r db = Inr (out, db')" "post_ok db"
  obtains (stale) "out = ''stale''" "db' = db" "get_call cid db = None \<or> owned_job now cid owner db = None"
  | (cancelled) c j where "out = ''cancelled''" "get_call cid db = Some c" "owned_job now cid owner db = Some j"
      "db' = settle_job j Post_cancelled (Some ''source_unavailable'') c (if closed_off c then None else Some Sum_failed) db"
  | (ready) c j db1 until where "out = ''ready''" "get_call cid db = Some c" "owned_job now cid owner db = Some j"
      "\<not> closed_off c" "now < expiry" "\<not> passed_by now (vc_transcript_expires_at c)"
      "stage_of_summary now seed c r db = Inr db1" "reasoning_expiry c = Inr until"
      "db' = commit_flush (put_post_job (release_post (j\<lparr>pj_status := Post_success\<rparr>)) (put_call (with_summary now expiry until r c) db1))"
  using assms(1)
  by (auto simp: finish_summary_def bindR_Inr_iff split: option.splits if_splits)

lemma fail_summary_out: "fst (fail_summary now cid owner reason db) \<in> {''cancelled'', ''failed'', ''stale''}"
  by (simp add: fail_summary_def split: option.split)

lemma complete_ready:
  assumes "complete_summary env tm seed cid owner w db = (''ready'', db')"
  obtains r where "list_all (\<lambda>t. sm_permits env t = Inr True) (output_texts r)"
    "\<And>t. sr_reasoning r = Some t \<Longrightarrow> sm_permits env t = Inr True"
    "finish_summary (st_finish tm) seed cid owner (wk_expiry w) r db = Inr (''ready'', db')"
proof -
  have nf: "fail_summary now cid owner reason db = (''ready'', db') \<Longrightarrow> False" for now reason
    using fail_summary_out [of now cid owner reason db] by simp
  from assms nf obtain r where r: "generate_summary env (wk_model w) (wk_seconds w) (wk_turns w) (wk_prompt w) False = Inr r"
    "finish_summary (st_finish tm) seed cid owner (wk_expiry w) (check_reasoning (sm_permits env) r) db = Inr (''ready'', db')"
    by (auto simp: complete_summary_def split: sum.splits)
  show ?thesis
    by (rule that [of "check_reasoning (sm_permits env) r"])
      (use r generate_permits [OF r(1)] check_reasoning_permits in auto)
qed

lemma finish_ready:
  assumes "finish_summary now seed cid owner expiry r db = Inr (''ready'', db')" "post_ok db"
  obtains c j j' until where "get_call cid db = Some c" "owned_job now cid owner db = Some j" "\<not> closed_off c" "now < expiry"
    "get_call cid db' = Some (with_summary now expiry until r c)" "find_summary_job cid db' = Some j'" "pj_status j' = Post_success"
    "list_all (\<lambda>d. d = cid \<or> get_call d db' = get_call d db) ds" "post_ok db'" "pj_lease_owner j' = None"
    "pj_attempt_count j' = pj_attempt_count j"
    "\<And>x. x \<in> set (db_followups db') \<Longrightarrow> x \<in> set (db_followups db) \<or> fj_content x \<in> set (output_texts r) \<and> fj_call_id x = cid"
  using assms
proof (cases rule: finish_cases)
  case (ready c j db1 until)
  note S = stage_of_summary [OF ready(7)]
  define db2 where "db2 = put_call (with_summary now expiry until r c) db1"
  have c: "vc_call_id c = cid" using ready(2) by (rule calls.get_key)
  have g: "get_call d db1 = get_call d db" for d by (simp add: get_call_def S(1))
  have f: "find_summary_job d db2 = find_summary_job d db" "post_ok db2" for d
    using S(2) assms(2) by (simp_all add: db2_def find_summary_job_def post_ok_def)
  have j: "find_summary_job cid db2 = Some j" using f owned_job_find [OF assms(2) ready(3)] by simp
  note m = find_summary_mem [OF j]
  have P: "post_ok (put_post_job (release_post (j\<lparr>pj_status := Post_success\<rparr>)) db2)"
    "find_summary_job cid (put_post_job (release_post (j\<lparr>pj_status := Post_success\<rparr>)) db2) = Some (release_post (j\<lparr>pj_status := Post_success\<rparr>))"
    using put_post_job [OF f(2) j, of "release_post (j\<lparr>pj_status := Post_success\<rparr>)"] m by simp_all
  have w: "vc_call_id (with_summary now expiry until r c) = cid" by (simp add: with_summary_def c)
  have q: "get_call d db' = (if d = cid then Some (with_summary now expiry until r c) else get_call d db)" for d
    using calls.get_put [of "with_summary now expiry until r c" db1 d] ready(2) g by (simp add: ready(9) w)
  show thesis
    by (rule that [of c j until "release_post (j\<lparr>pj_status := Post_success\<rparr>)"])
      (use ready q P S(3) c in \<open>auto simp: db2_def list_all_iff\<close>)
qed auto

text \<open>C14: When a run of the summary job reports ready, whatever happened to the database between its claim and its last
  transaction, it still held the unexpired lease of the processing job, the call was neither fenced nor deleted and the
  source texts had not expired; every text the summary leaves in the call (summary, topics, emotions and the private
  reasoning) and the content of every follow-up job it added had been permitted by the safety check, the job is a
  success without a lease, and no other call is touched.
\<close>

theorem ready_summary_permitted:
  assumes "complete_summary env tm seed cid owner w db = (''ready'', db')" "post_ok db"
  shows "\<exists>c c' j j'. get_call cid db = Some c \<and> owned_job (st_finish tm) cid owner db = Some j \<and> \<not> closed_off c \<and>
    st_finish tm < wk_expiry w \<and> get_call cid db' = Some c' \<and> vc_summary_status c' = Sum_ready \<and>
    list_all (\<lambda>t. sm_permits env t = Inr True) (stored_texts c') \<and>
    list_all (\<lambda>x. x \<in> set (db_followups db) \<or> fj_call_id x = cid \<and> sm_permits env (fj_content x) = Inr True) (db_followups db') \<and>
    find_summary_job cid db' = Some j' \<and> pj_status j' = Post_success \<and> pj_lease_owner j' = None \<and>
    list_all (\<lambda>d. d = cid \<or> get_call d db' = get_call d db) (map vc_call_id (db_calls db'))"
proof -
  from complete_ready [OF assms(1)] obtain r where r: "list_all (\<lambda>t. sm_permits env t = Inr True) (output_texts r)"
    "\<And>t. sr_reasoning r = Some t \<Longrightarrow> sm_permits env t = Inr True"
    "finish_summary (st_finish tm) seed cid owner (wk_expiry w) r db = Inr (''ready'', db')" by blast
  from r(3) assms(2) show ?thesis
  proof (rule finish_ready [where ds = "map vc_call_id (db_calls db')"])
    fix c j j' until
    assume A: "get_call cid db = Some c" "owned_job (st_finish tm) cid owner db = Some j" "\<not> closed_off c" "st_finish tm < wk_expiry w"
      "get_call cid db' = Some (with_summary (st_finish tm) (wk_expiry w) until r c)" "find_summary_job cid db' = Some j'"
      "pj_status j' = Post_success" "list_all (\<lambda>d. d = cid \<or> get_call d db' = get_call d db) (map vc_call_id (db_calls db'))"
      "pj_lease_owner j' = None"
      "\<And>x. x \<in> set (db_followups db') \<Longrightarrow> x \<in> set (db_followups db) \<or> fj_content x \<in> set (output_texts r) \<and> fj_call_id x = cid"
    have "list_all (\<lambda>t. sm_permits env t = Inr True) (stored_texts (with_summary (st_finish tm) (wk_expiry w) until r c))"
      using r(1,2) by (rule with_summary_texts)
    moreover have "vc_summary_status (with_summary (st_finish tm) (wk_expiry w) until r c) = Sum_ready" by (simp add: with_summary_def)
    ultimately show ?thesis using A r(1) unfolding list_all_iff by blast
  qed
qed

section \<open>A pending job is settled\<close>

lemma post_ok_append:
  assumes "post_ok db" "pj_id j \<notin> set (map pj_id (db_post_jobs db))" "find (\<lambda>p. pj_call_id p = pj_call_id j \<and> pj_job_type p = pj_job_type j) (db_post_jobs db) = None"
  shows "post_ok (db\<lparr>db_post_jobs := db_post_jobs db @ [j]\<rparr>)"
  using assms by (auto simp: post_ok_def find_None_iff)

lemma find_summary_append:
  "find_summary_job d (db\<lparr>db_post_jobs := db_post_jobs db @ [j]\<rparr>) =
     (case find_summary_job d db of Some k \<Rightarrow> Some k
      | None \<Rightarrow> if pj_call_id j = d \<and> pj_job_type j = summary_job_type then Some j else None)"
  by (cases "find_summary_job d db") (simp_all add: find_summary_job_def find_app)

lemma find_map_id: "list_all (\<lambda>x. f x = x \<or> \<not> P (f x) \<and> \<not> P x) xs \<Longrightarrow> find P (map f xs) = find P xs"
proof (induction xs)
  case (Cons x xs)
  then show ?case by (cases "f x = x") simp_all
qed simp

lemma record_compensation_post:
  assumes "post_ok db"
  shows "post_ok (record_compensation now cid db)" "find_summary_job d (record_compensation now cid db) = find_summary_job d db"
proof -
  have "post_ok (record_compensation now cid db) \<and> find_summary_job d (record_compensation now cid db) = find_summary_job d db"
  proof (cases "find_compensation cid db")
    case None
    then show ?thesis
      using post_ok_append [OF assms, of "\<lparr>pj_id = fresh_id (map pj_id (db_post_jobs db)), pj_call_id = cid,
            pj_job_type = ''memory_compensation'', pj_status = Post_success, pj_attempt_count = 1,
            pj_next_retry_at = None, pj_fail_reason = None, pj_lease_owner = None, pj_lease_expires_at = None,
            pj_created_at = now\<rparr>"] fresh_id_fresh [of "map pj_id (db_post_jobs db)"]
      by (simp add: record_compensation_def find_compensation_def find_summary_append summary_job_type_def split: option.split)
  next
    case (Some p)
    then have p: "p \<in> set (db_post_jobs db)" "pj_job_type p = ''memory_compensation''"
      by (auto simp: find_compensation_def dest: find_Some_mem)
    define q where "q = p\<lparr>pj_status := Post_success, pj_attempt_count := pj_attempt_count p + 1\<rparr>"
    have e: "record_compensation now cid db = db\<lparr>db_post_jobs := row_put pj_id q (db_post_jobs db)\<rparr>"
      using Some by (simp add: record_compensation_def q_def)
    have "pj_id x = pj_id q \<longleftrightarrow> x = p" if "x \<in> set (db_post_jobs db)" for x
      using post_same_id [OF assms that p(1)] by (auto simp: q_def)
    then have m: "row_put pj_id q (db_post_jobs db) = map (\<lambda>x. if x = p then q else x) (db_post_jobs db)"
      by (auto simp: row_put_def)
    have q: "pj_id q = pj_id p" "pj_call_id q = pj_call_id p" "pj_job_type q = ''memory_compensation''" using p(2) by (simp_all add: q_def)
    have c: "f \<circ> (\<lambda>x. if x = p then q else x) = f" if "f q = f p" for f :: "postprocess_job \<Rightarrow> 'k"
      using that by auto
    have "post_ok (record_compensation now cid db)"
      using assms q p(2) by (simp add: e post_ok_def m c)
    moreover have "find_summary_job d (record_compensation now cid db) = find_summary_job d db"
      unfolding e find_summary_job_def m using q p(2)
      by (simp, intro find_map_id) (simp add: list_all_iff summary_job_type_def)
    ultimately show ?thesis by simp
  qed
  then show "post_ok (record_compensation now cid db)" "find_summary_job d (record_compensation now cid db) = find_summary_job d db"
    by simp_all
qed

lemma stage_job_post [simp]: "db_post_jobs (snd (stage_job now locked c t db)) = db_post_jobs db"
  by (simp add: stage_job_def Let_def split: option.split)

lemma fold_repair_post: "db_post_jobs (snd (fold (repair_turn now c existing) ts acc)) = db_post_jobs (snd acc)"
  by (induction ts arbitrary: acc) (simp_all add: repair_turn_def)

lemma compensate_post:
  assumes "post_ok db"
  shows "post_ok (snd (compensate now cid audited db))"
    "find_summary_job d (snd (compensate now cid audited db)) = find_summary_job d db"
proof -
  have a: "post_ok (snd (fold (repair_turn now c xs) ts ([], db)))"
    "find_summary_job d (snd (fold (repair_turn now c xs) ts ([], db))) = find_summary_job d db" for c xs ts
    using assms fold_repair_post [of now c xs ts "([], db)"] by (simp_all add: post_ok_def find_summary_job_def)
  have s: "post_ok (stage evs d1) = post_ok d1" "find_summary_job d (stage evs d1) = find_summary_job d d1" for evs d1
    by (simp_all add: post_ok_def find_summary_job_def)
  show "post_ok (snd (compensate now cid audited db))"
    using assms a record_compensation_post(1) [OF a(1)]
    by (simp add: compensate_def Let_def s split: option.split)
  show "find_summary_job d (snd (compensate now cid audited db)) = find_summary_job d db"
    using a record_compensation_post(2) [OF a(1)]
    by (simp add: compensate_def Let_def s split: option.split)
qed

definition settled :: "string \<Rightarrow> int \<Rightarrow> database \<Rightarrow> bool" where
  "settled cid n db \<longleftrightarrow> (case find_summary_job cid db of None \<Rightarrow> False
     | Some j \<Rightarrow> pj_status j \<in> {Post_success, Post_failed, Post_cancelled} \<and> pj_lease_owner j = None \<and> pj_attempt_count j = n)"

lemma settle_settled:
  assumes "post_ok db" "get_call cid db = Some c" "find_summary_job cid db = Some j" "st \<in> {Post_success, Post_failed, Post_cancelled}"
  shows "settled cid (pj_attempt_count j) (settle_job j st reason c summary db)"
  using settle_job(3) [OF assms(1-3), of cid st reason summary] assms(4) by (auto simp: settled_def)

lemma fail_settles:
  assumes "post_ok db" "get_call cid db = Some c" "owned_job now cid owner db = Some j"
  shows "fst (fail_summary now cid owner reason db) \<in> {''failed'', ''cancelled''} \<and>
    settled cid (pj_attempt_count j) (snd (fail_summary now cid owner reason db))"
  using settle_settled [OF assms(1,2) owned_job_find [OF assms(1,3)]] by (simp add: fail_summary_def assms(2,3))

lemma complete_settles:
  assumes "post_ok db" "get_call cid db = Some c" "owned_job (st_finish tm) cid owner db = Some j"
    "owned_job (st_fail tm) cid owner db = Some j"
  shows "fst (complete_summary env tm seed cid owner w db) \<in> {''ready'', ''failed'', ''cancelled''} \<and>
    settled cid (pj_attempt_count j) (snd (complete_summary env tm seed cid owner w db))"
proof -
  note F = fail_settles [OF assms(1,2,4)]
  show ?thesis
  proof (cases "generate_summary env (wk_model w) (wk_seconds w) (wk_turns w) (wk_prompt w) False")
    case (Inr r)
    define r' where "r' = check_reasoning (sm_permits env) r"
    show ?thesis
    proof (cases "finish_summary (st_finish tm) seed cid owner (wk_expiry w) r' db")
      case (Inr x)
      then obtain out db' where f: "finish_summary (st_finish tm) seed cid owner (wk_expiry w) r' db = Inr (out, db')"
        by (cases x) auto
      have e: "complete_summary env tm seed cid owner w db = (out, db')"
        using \<open>generate_summary _ _ _ _ _ _ = Inr r\<close> f by (simp add: complete_summary_def r'_def)
      from f assms(1) show ?thesis
      proof (cases rule: finish_cases)
        case (cancelled c' j')
        then show ?thesis using settle_settled [OF assms(1,2) owned_job_find [OF assms(1,3)]] assms(2,3) by (simp add: e)
      next
        case (ready c' j' db1 until)
        from f assms(1) show ?thesis unfolding ready(1)
          by (rule finish_ready [where ds = "[]"]) (use assms(3) ready(1) in \<open>auto simp: e settled_def\<close>)
      qed (use assms in auto)
    qed (use F \<open>generate_summary _ _ _ _ _ _ = Inr r\<close> in \<open>simp add: complete_summary_def r'_def\<close>)
  qed (use F in \<open>simp add: complete_summary_def\<close>)
qed

lemma start_settles:
  assumes "post_ok db" "get_call cid db = Some c" "find_summary_job cid db = Some j"
    "st_finish tm < now + timeout + us_second" "st_fail tm < now + timeout + us_second"
    "start_summary env now owner timeout c j turns db = (x, db1)"
  shows "case x of Sum_stop s \<Rightarrow> s = ''failed'' \<and> settled cid (pj_attempt_count j) db1
    | Sum_work w \<Rightarrow> fst (complete_summary env tm seed cid owner w db1) \<in> {''ready'', ''failed'', ''cancelled''} \<and>
        settled cid (pj_attempt_count j + 1) (snd (complete_summary env tm seed cid owner w db1))"
proof (cases "summary_settings env (vc_config_snapshot c)")
  case (Inl e)
  then show ?thesis using assms(6) settle_settled [OF assms(1-3)] by (auto simp: start_summary_def)
next
  case (Inr mp)
  define j' where "j' = j\<lparr>pj_status := Post_processing, pj_attempt_count := pj_attempt_count j + 1, pj_lease_owner := Some owner,
             pj_lease_expires_at := Some (now + timeout + us_second), pj_fail_reason := None\<rparr>"
  have db1: "db1 = put_post_job j' db" using assms(6) Inr by (auto simp: start_summary_def j'_def split: prod.splits)
  obtain w where x: "x = Sum_work w" using assms(6) Inr by (auto simp: start_summary_def split: prod.splits)
  note m = find_summary_mem [OF assms(3)]
  note P = put_post_job [OF assms(1,3), of j']
  have f: "find_summary_job cid db1 = Some j'" "post_ok db1" "get_call cid db1 = Some c"
    using P m assms(2) by (simp_all add: j'_def db1)
  have "owned_job t cid owner db1 = Some j'" if "t < now + timeout + us_second" for t
    by (rule owned_jobI [OF f(2,1)]) (use that in \<open>simp_all add: j'_def\<close>)
  from complete_settles [OF f(2,3) this this, OF assms(4,5), of env seed w] show ?thesis by (simp add: x j'_def)
qed

lemma claim_settles:
  assumes "post_ok db" "get_call cid db = Some c" "find_summary_job cid db = Some j" "pj_status j = Post_pending"
    "vc_status c \<in> {Ended, Missed, Failed, Cancelled}" "vc_sort_seq c \<noteq> None"
    "st_finish tm < now + timeout + us_second" "st_fail tm < now + timeout + us_second"
    "claim_summary env now owner timeout cid db = (x, db1)"
  shows "case x of Sum_stop s \<Rightarrow> s \<in> {''failed'', ''cancelled'', ''not_applicable''} \<and> settled cid (pj_attempt_count j) db1
    | Sum_work w \<Rightarrow> fst (complete_summary env tm seed cid owner w db1) \<in> {''ready'', ''failed'', ''cancelled''} \<and>
        settled cid (pj_attempt_count j + 1) (snd (complete_summary env tm seed cid owner w db1))"
proof -
  note S = settle_settled [OF assms(1-3)]
  consider (stop) st reason summary s where "db1 = settle_job j st reason c summary db" "x = Sum_stop s"
      "st \<in> {Post_success, Post_failed, Post_cancelled}" "s \<in> {''failed'', ''cancelled'', ''not_applicable''}"
    | (start) turns where "start_summary env now owner timeout c j turns db = (x, db1)"
    using assms(5,9) by (auto simp: claim_summary_def assms(2-4,6) Let_def split: if_splits)
  then show ?thesis
  proof cases
    case stop
    then show ?thesis using S [OF stop(3)] by simp
  next
    case start
    from start_settles [OF assms(1-3,7,8) start, of seed] show ?thesis by (auto split: summary_claim.splits)
  qed
qed

text \<open>A pending summary job of a call that has ended and has its card is settled by one run, whatever the model, the
  safety check and the configuration answer or raise, when the transactions after the claim run before the lease of
  the claim expires: the job ends as a success, a failure or cancelled, holds no lease, and the run has counted at
  most one attempt.
\<close>

theorem pending_summary_settles:
  assumes "post_ok db" "get_call cid db = Some c" "find_summary_job cid db = Some j" "pj_status j = Post_pending"
    "vc_status c \<in> {Ended, Missed, Failed, Cancelled}" "vc_sort_seq c \<noteq> None"
    "st_finish tm < st_claim tm + timeout + us_second" "st_fail tm < st_claim tm + timeout + us_second"
  shows "\<exists>out db' j'. process_summary env tm seed owner timeout cid db = (out, db') \<and>
    out \<in> {''ready'', ''failed'', ''cancelled'', ''not_applicable''} \<and> find_summary_job cid db' = Some j' \<and>
    pj_status j' \<in> {Post_success, Post_failed, Post_cancelled} \<and> pj_lease_owner j' = None \<and>
    pj_attempt_count j' \<in> {pj_attempt_count j, pj_attempt_count j + 1}"
proof -
  define db0 where "db0 = snd (compensate (st_prepare tm) cid True db)"
  have c: "get_call cid db0 = Some c"
    using assms(2) adds_jobs_calls [OF compensate_adds] by (simp add: get_call_def db0_def)
  have p: "post_ok db0" "find_summary_job cid db0 = Some j"
    using compensate_post [OF assms(1)] assms(3) by (simp_all add: db0_def)
  obtain x db1 where k: "claim_summary env (st_claim tm) owner timeout cid db0 = (x, db1)" by fastforce
  note C = claim_settles [OF p(1) c p(2) assms(4-8) k, of seed]
  obtain out db' where o: "process_summary env tm seed owner timeout cid db = (out, db')" by fastforce
  have "out \<in> {''ready'', ''failed'', ''cancelled'', ''not_applicable''} \<and>
      (settled cid (pj_attempt_count j) db' \<or> settled cid (pj_attempt_count j + 1) db')"
    using C o k by (cases x) (auto simp: process_summary_def db0_def)
  then show ?thesis using o by (auto simp: settled_def split: option.splits)
qed

section \<open>A finished summary stays as it is\<close>

text \<open>The transactions of the summary component and the deletion fence, on any call and at any time.\<close>

datatype summary_action =
    SA_enqueue datetime string
  | SA_claim datetime string int string
  | SA_finish datetime int string string datetime summary_result
  | SA_fail datetime string string string
  | SA_purge datetime
  | SA_retry string datetime int
  | SA_fence datetime string

definition fence_call :: "datetime \<Rightarrow> string \<Rightarrow> database \<Rightarrow> database" where
  "fence_call now cid db =
     (case get_call cid db of None \<Rightarrow> db
      | Some c \<Rightarrow> if vc_deletion_fence_at c = None then put_call (c\<lparr>vc_deletion_fence_at := Some now\<rparr>) db else db)"

text \<open>The database after a transaction that may raise and is then rolled back.\<close>

definition after_or :: "database \<Rightarrow> ('a \<times> database) res \<Rightarrow> database" where
  "after_or db x = (case x of Inl _ \<Rightarrow> db | Inr y \<Rightarrow> snd y)"

fun summary_apply :: "summary_env \<Rightarrow> summary_action \<Rightarrow> database \<Rightarrow> database" where
  "summary_apply env (SA_enqueue now cid) db = snd (enqueue_summary now cid db)"
| "summary_apply env (SA_claim now owner timeout cid) db = snd (claim_summary env now owner timeout cid db)"
| "summary_apply env (SA_finish now seed cid owner expiry r) db = after_or db (finish_summary now seed cid owner expiry r db)"
| "summary_apply env (SA_fail now cid owner reason) db = snd (fail_summary now cid owner reason db)"
| "summary_apply env (SA_purge now) db = snd (purge_reasoning now db)"
| "summary_apply env (SA_retry role now i) db = after_or db (retry_summary_job role now i db)"
| "summary_apply env (SA_fence now cid) db = fence_call now cid db"

text \<open>What the application shows of a summary.\<close>

definition shown :: "voice_call \<Rightarrow> pystr option \<times> json option \<times> pystr option \<times> pystr option \<times> summary_status" where
  "shown c = (vc_call_summary c, vc_unfinished_topics c, vc_user_emotion c, vc_assistant_emotion c, vc_summary_status c)"

definition finished_as ::
  "string \<Rightarrow> pystr option \<times> json option \<times> pystr option \<times> pystr option \<times> summary_status \<Rightarrow> database \<Rightarrow> bool" where
  "finished_as cid v db \<longleftrightarrow> post_ok db \<and> map_option shown (get_call cid db) = Some v \<and>
     (case find_summary_job cid db of None \<Rightarrow> False | Some j \<Rightarrow> pj_status j \<in> {Post_success, Post_cancelled})"

lemma finished_frame:
  assumes "finished_as cid v db" "post_ok db'" "map_option shown (get_call cid db') = map_option shown (get_call cid db)"
    "find_summary_job cid db' = find_summary_job cid db"
  shows "finished_as cid v db'"
  using assms by (simp add: finished_as_def)

lemma put_call_other:
  assumes "get_call d db = Some c" "vc_call_id c' = d" "d \<noteq> cid"
  shows "get_call cid (put_call c' db) = get_call cid db"
  using calls.get_put [of c' db cid] assms by simp

lemma put_post_other:
  assumes "finished_as cid v db" "find_summary_job d db = Some j" "d \<noteq> cid" "pj_id j' = pj_id j" "pj_call_id j' = d"
    "pj_job_type j' = summary_job_type"
  shows "finished_as cid v (put_post_job j' db)"
  using put_post_job [OF _ assms(2,4-6)] assms(1,3) by (simp add: finished_as_def)

lemma settle_keeps:
  assumes "finished_as cid v db" "get_call d db = Some c" "find_summary_job d db = Some j" "d \<noteq> cid"
  shows "finished_as cid v (settle_job j st reason c summary db)"
proof -
  have p: "post_ok db" using assms(1) by (simp add: finished_as_def)
  from settle_job(3) [OF p assms(2,3), of cid st reason summary] assms(4)
  have "find_summary_job cid (settle_job j st reason c summary db) = find_summary_job cid db" by auto
  with settle_job(1,2) [OF p assms(2,3)] assms(4) show ?thesis by (intro finished_frame [OF assms(1)]) simp_all
qed

lemma finished_not_owned: "finished_as cid v db \<Longrightarrow> owned_job now cid owner db = None"
  using owned_job_find [of db now cid owner] owned_job_summary(1) [of now cid owner db]
  by (cases "owned_job now cid owner db") (fastforce simp: finished_as_def split: option.splits)+

lemma enqueue_keeps:
  assumes "finished_as cid v db"
  shows "finished_as cid v (snd (enqueue_summary now d db))"
proof (cases "snd (enqueue_summary now d db) = db")
  case False
  define j where "j = new_summary_job now d db"
  have e: "snd (enqueue_summary now d db) = db\<lparr>db_post_jobs := db_post_jobs db @ [j]\<rparr>" "find_summary_job d db = None"
    using False by (auto simp: enqueue_summary_def j_def split: option.splits)
  have p: "post_ok db" using assms by (simp add: finished_as_def)
  have "d \<noteq> cid" using assms e(2) by (auto simp: finished_as_def)
  moreover have "post_ok (db\<lparr>db_post_jobs := db_post_jobs db @ [j]\<rparr>)"
    using post_ok_append [OF p, of j] e(2) fresh_id_fresh [of "map pj_id (db_post_jobs db)"]
    by (simp add: j_def new_summary_job_def find_summary_job_def)
  ultimately show ?thesis unfolding e(1)
    by (intro finished_frame [OF assms])
      (auto simp: get_call_def find_summary_append j_def new_summary_job_def split: option.split)
qed (simp add: assms)

lemma claim_keeps:
  assumes "finished_as cid v db"
  shows "finished_as cid v (snd (claim_summary env now owner timeout d db))"
proof (cases "get_call d db = None \<or> find_summary_job d db = None")
  case True
  then show ?thesis using assms by (auto simp: claim_summary_def split: option.split)
next
  case False
  then obtain c j where c: "get_call d db = Some c" "find_summary_job d db = Some j" by auto
  have p: "post_ok db" using assms by (simp add: finished_as_def)
  show ?thesis
  proof (cases "d = cid")
    case True
    then have st: "pj_status j \<in> {Post_success, Post_cancelled}" using assms c(2) by (simp add: finished_as_def)
    show ?thesis
    proof (cases "closed_off c")
      case False
      then show ?thesis using c st assms by (auto simp: claim_summary_def)
    next
      case co: True
      obtain j' where "find_summary_job cid (settle_job j Post_cancelled None c None db) = Some j'" "pj_status j' = Post_cancelled"
        using settle_job(3) [OF p c, of cid Post_cancelled None None] \<open>d = cid\<close> by auto
      then show ?thesis
        using settle_job(1,2) [OF p c] assms c co \<open>d = cid\<close> by (simp add: claim_summary_def finished_as_def)
    qed
  next
    case False
    note k = settle_keeps [OF assms c False]
    have m: "pj_call_id j = d" "pj_job_type j = summary_job_type" using find_summary_mem [OF c(2)] by simp_all
    have "finished_as cid v (snd (start_summary env now owner timeout c j turns db))" for turns
      using k put_post_other [OF assms c(2) False] m by (simp add: start_summary_def split: sum.split)
    then show ?thesis using k assms by (simp add: claim_summary_def c Let_def)
  qed
qed

lemma finish_summary_keeps:
  assumes "finished_as cid v db"
  shows "finished_as cid v (after_or db (finish_summary now seed d owner expiry r db))"
proof (cases "finish_summary now seed d owner expiry r db")
  case (Inr x)
  then obtain out db' where f: "finish_summary now seed d owner expiry r db = Inr (out, db')" by (cases x) auto
  have p: "post_ok db" using assms by (simp add: finished_as_def)
  from f p have "finished_as cid v db'"
  proof (cases rule: finish_cases)
    case (cancelled c j)
    moreover have "d \<noteq> cid" using cancelled(3) finished_not_owned [OF assms] by auto
    ultimately show ?thesis using settle_keeps [OF assms _ owned_job_find [OF p]] by simp
  next
    case (ready c j db1 until)
    have d: "d \<noteq> cid" using ready(3) finished_not_owned [OF assms] by auto
    note S = stage_of_summary [OF ready(7)]
    have c: "vc_call_id (with_summary now expiry until r c) = d" using calls.get_key [OF ready(2)] by (simp add: with_summary_def)
    have g: "get_call e db1 = get_call e db" "find_summary_job e db1 = find_summary_job e db" "post_ok db1" for e
      using S p by (simp_all add: get_call_def find_summary_job_def post_ok_def)
    have "finished_as cid v (put_call (with_summary now expiry until r c) db1)"
      using g put_call_other [OF _ c d] ready(2) p by (intro finished_frame [OF assms]) simp_all
    from put_post_other [OF this _ d] show ?thesis
      using g ready(9) owned_job_find [OF p ready(3)] owned_job_summary [OF ready(3)]
      by (simp add: finished_as_def) 
  qed (use assms in simp)
  then show ?thesis using f by (simp add: after_or_def)
qed (simp add: after_or_def assms)

lemma fail_keeps:
  assumes "finished_as cid v db"
  shows "finished_as cid v (snd (fail_summary now d owner reason db))"
proof (cases "get_call d db = None \<or> owned_job now d owner db = None")
  case True
  then show ?thesis using assms by (auto simp: fail_summary_def split: option.split)
next
  case False
  then obtain c j where c: "get_call d db = Some c" "owned_job now d owner db = Some j" by auto
  have "d \<noteq> cid" using c(2) finished_not_owned [OF assms] by auto
  then show ?thesis
    using settle_keeps [OF assms c(1) owned_job_find [OF _ c(2)]] assms by (simp add: fail_summary_def c finished_as_def)
qed

lemma find_map_key: "(\<And>x. key (f x) = key x) \<Longrightarrow> row_find key k (map f xs) = map_option f (row_find key k xs)"
  by (induction xs) (simp_all add: row_find_def)

lemma purge_keeps:
  assumes "finished_as cid v db"
  shows "finished_as cid v (snd (purge_reasoning now db))"
proof (rule finished_frame [OF assms])
  define f where "f = (\<lambda>c :: voice_call. if passed_by now (vc_reasoning_expires_at c) \<and> vc_summary_reasoning c \<noteq> None then c\<lparr>vc_summary_reasoning := None\<rparr> else c)"
  have p: "db_calls (snd (purge_reasoning now db)) = map f (db_calls db)" by (simp add: purge_reasoning_def Let_def f_def)
  have "shown (f c) = shown c" "vc_call_id (f c) = vc_call_id c" for c by (simp_all add: f_def shown_def)
  then show "map_option shown (get_call cid (snd (purge_reasoning now db))) = map_option shown (get_call cid db)"
    using find_map_key [of vc_call_id f cid "db_calls db"]
    by (simp add: p get_call_def option.map_comp comp_def)
qed (use assms in \<open>simp_all add: purge_reasoning_def Let_def find_summary_job_def post_ok_def finished_as_def\<close>)

lemma retry_keeps:
  assumes "finished_as cid v db"
  shows "finished_as cid v (after_or db (retry_summary_job role now i db))"
proof (cases "retry_summary_job role now i db")
  case (Inr x)
  then obtain j c where j: "find (\<lambda>j. pj_id j = i \<and> pj_job_type j = summary_job_type) (db_post_jobs db) = Some j"
    and c: "get_call (pj_call_id j) db = Some c" and s: "pj_status j = Post_failed"
    and e: "snd x = put_post_job (release_post (j\<lparr>pj_status := Post_pending\<rparr>)) (put_call (c\<lparr>vc_summary_status := Sum_pending\<rparr>) db)"
    by (auto simp: retry_summary_job_def split: if_splits option.splits)
  have p: "post_ok db" using assms by (simp add: finished_as_def)
  have m: "find_summary_job (pj_call_id j) db = Some j"
    using j by (auto simp: find_summary_iff [OF p] dest: find_Some_mem)
  have d: "pj_call_id j \<noteq> cid" using m s assms by (auto simp: finished_as_def)
  have "vc_call_id (c\<lparr>vc_summary_status := Sum_pending\<rparr>) = pj_call_id j" using calls.get_key [OF c] by simp
  then have "finished_as cid v (put_call (c\<lparr>vc_summary_status := Sum_pending\<rparr>) db)"
    using put_call_other [OF c _ d] p by (intro finished_frame [OF assms]) simp_all
  from put_post_other [OF this _ d] m find_summary_mem [OF m] Inr show ?thesis by (simp add: after_or_def e)
qed (simp add: after_or_def assms)

lemma fence_keeps:
  assumes "finished_as cid v db"
  shows "finished_as cid v (fence_call now d db)"
proof (rule finished_frame [OF assms])
  show "map_option shown (get_call cid (fence_call now d db)) = map_option shown (get_call cid db)"
  proof (cases "get_call d db")
    case (Some c)
    define c' where "c' = c\<lparr>vc_deletion_fence_at := Some now\<rparr>"
    have k: "vc_call_id c' = d" "shown c' = shown c" using calls.get_key [OF Some] by (simp_all add: c'_def shown_def)
    have "map_option shown (get_call cid (put_call c' db)) = map_option shown (get_call cid db)"
      using calls.get_put [of c' db cid] Some k by (cases "cid = d") simp_all
    then show ?thesis by (simp add: fence_call_def Some c'_def)
  qed (simp add: fence_call_def)
qed (use assms in \<open>simp_all add: fence_call_def finished_as_def split: option.split\<close>)

lemma summary_apply_keeps: "finished_as cid v db \<Longrightarrow> finished_as cid v (summary_apply env act db)"
  by (cases act) (simp_all add: enqueue_keeps claim_keeps finish_summary_keeps fail_keeps purge_keeps retry_keeps fence_keeps)

lemma summary_run_keeps: "finished_as cid v db \<Longrightarrow> finished_as cid v (fold (summary_apply env) acts db)"
  by (induction acts arbitrary: db) (simp_all add: summary_apply_keeps)

text \<open>C13: Once the summary job of a call is a success or cancelled, no sequence of enqueueings, claims, results, failures,
  purges, administrative retries and deletion fences on whatever calls, with whatever results and times, changes the
  summary, the topics, the emotions or the status shown for the call, or opens the job again: late results of an
  earlier worker are not written.
\<close>

theorem finished_summary_final:
  assumes "post_ok db" "get_call cid db = Some c" "find_summary_job cid db = Some j" "pj_status j \<in> {Post_success, Post_cancelled}"
  shows "\<exists>c' j'. get_call cid (fold (summary_apply env) acts db) = Some c' \<and>
    vc_call_summary c' = vc_call_summary c \<and> vc_unfinished_topics c' = vc_unfinished_topics c \<and>
    vc_user_emotion c' = vc_user_emotion c \<and> vc_assistant_emotion c' = vc_assistant_emotion c \<and>
    vc_summary_status c' = vc_summary_status c \<and>
    find_summary_job cid (fold (summary_apply env) acts db) = Some j' \<and> pj_status j' \<in> {Post_success, Post_cancelled}"
proof -
  have "finished_as cid (shown c) db" using assms by (simp add: finished_as_def)
  from summary_run_keeps [OF this, of env acts] show ?thesis
    by (auto simp: finished_as_def shown_def split: option.splits)
qed

section \<open>A run in full\<close>

definition demo_output :: json where
  "demo_output = JObj [(''call_summary'', JStr [104]), (''unfinished_topics'', JList [JStr [105]]), (''user_emotion'', JStr [106]),
     (''assistant_emotion'', JStr [107]), (''should_send_followup'', JBool False), (''reasoning'', JStr [99])]"

text \<open>A model with one answer and a check that refuses its private reasoning.\<close>

definition demo_env :: summary_env where
  "demo_env = \<lparr>sm_loads = (\<lambda>_. Some demo_output), sm_dumps = (\<lambda>_. []), sm_rules = [], sm_default_model = deepseek,
     sm_default_prompt = [104], sm_chat = (\<lambda>_ _ _. Inr (JStr [])), sm_permits = (\<lambda>t. Inr (t \<noteq> [99]))\<rparr>"

definition demo_sum_call :: voice_call where
  "demo_sum_call = (blank_call 1 ''c'' 7 Ended)\<lparr>vc_transcript_expires_at := Some 1000000000000, vc_config_snapshot := JObj [],
     vc_ended_at := Some 0, vc_sort_seq := Some 1, vc_deletion_fence_at := None, vc_deleted_at := None\<rparr>"

definition demo_sum_job :: postprocess_job where
  "demo_sum_job = \<lparr>pj_id = 1, pj_call_id = ''c'', pj_job_type = summary_job_type, pj_status = Post_processing,
     pj_attempt_count = 1, pj_next_retry_at = None, pj_fail_reason = None, pj_lease_owner = Some ''w'',
     pj_lease_expires_at = Some 100, pj_created_at = 0\<rparr>"

definition demo_sum_db :: database where
  "demo_sum_db = empty_db\<lparr>db_calls := [demo_sum_call], db_post_jobs := [demo_sum_job]\<rparr>"

definition demo_work :: summary_work where
  "demo_work = \<lparr>wk_seconds = 20, wk_turns = [], wk_expiry = 1000000000000, wk_model = deepseek, wk_prompt = [104]\<rparr>"

definition demo_times :: summary_times where
  "demo_times = \<lparr>st_prepare = 1, st_claim = 2, st_finish = 3, st_fail = 4\<rparr>"

lemma demo_call_model: "summary_call demo_env m (build_summary_prompt demo_env s [] p) = Inr (JStr [])"
  using rpartition_last [of "asc ''INPUT_JSON:''" "[]" "[10] @ p @ [10]"]
  by (simp add: summary_call_def build_summary_prompt_def input_marker_def asc_def demo_env_def)

lemma demo_strings:
  "summary_string True None (JStr [104]) = Inr [104]" "summary_string False None (JStr [105]) = Inr [105]"
  "summary_string False (Some 64) (JStr [106]) = Inr [106]" "summary_string False (Some 64) (JStr [107]) = Inr [107]"
  by (simp_all add: summary_string_def py_strip_def py_space_def Let_def)

lemma demo_output_get:
  "jget demo_output ''call_summary'' = JStr [104]" "jget demo_output ''unfinished_topics'' = JList [JStr [105]]"
  "jget demo_output ''user_emotion'' = JStr [106]" "jget demo_output ''assistant_emotion'' = JStr [107]"
  "jget demo_output ''should_send_followup'' = JBool False" "jget demo_output ''reasoning'' = JStr [99]"
  by code_simp+

lemma demo_output_keys: "is_obj demo_output" "set (jkeys demo_output) \<subseteq> set summary_allowed" "set summary_required \<subseteq> set (jkeys demo_output)"
  by (simp_all add: demo_output_def summary_allowed_def summary_required_def jkeys_def)

lemma demo_reasoning: "summary_reasoning (JStr [99]) = Some [99]"
  by (simp add: summary_reasoning_def py_strip_def py_space_def)

lemma demo_generate:
  "generate_summary demo_env m s [] p False = Inr \<lparr>sr_call_summary = [104], sr_unfinished_topics = [[105]], sr_user_emotion = [106],
     sr_assistant_emotion = [107], sr_reasoning = Some [99], sr_followup = None\<rparr>"
proof -
  have "parse_summary demo_env (JStr []) = Inr \<lparr>sr_call_summary = [104], sr_unfinished_topics = [[105]], sr_user_emotion = [106],
     sr_assistant_emotion = [107], sr_reasoning = Some [99], sr_followup = None\<rparr>"
    using demo_output_keys by (simp add: parse_summary_def demo_env_def summary_fields_def demo_output_get demo_strings demo_reasoning summary_followup_def)
  then show ?thesis using demo_call_model [of m s p] by (simp add: generate_summary_def output_texts_def) (simp add: demo_env_def)
qed

lemma demo_sum_ok: "post_ok demo_sum_db"
  by (simp add: post_ok_def demo_sum_db_def)

lemma demo_sum_get: "get_call ''c'' demo_sum_db = Some demo_sum_call"
  by (simp add: get_call_def row_find_def demo_sum_db_def demo_sum_call_def)

lemma demo_sum_owned: "owned_job 3 ''c'' ''w'' demo_sum_db = Some demo_sum_job"
  by (simp add: owned_job_def demo_sum_db_def demo_sum_job_def)

lemma demo_complete:
  "\<exists>db'. complete_summary demo_env demo_times 5 ''c'' ''w'' demo_work demo_sum_db = (''ready'', db')"
proof -
  have "reasoning_expiry demo_sum_call = Inr (vc_generated_retention_days demo_sum_call * us_day)"
    by (simp add: reasoning_expiry_def part_of_def demo_sum_call_def days_us_def jget_def'_def)
  moreover have "stage_of_summary 3 5 demo_sum_call (r\<lparr>sr_reasoning := x, sr_followup := None\<rparr>) demo_sum_db = Inr demo_sum_db" for r x
    by (simp add: stage_of_summary_def)
  moreover have "closed_off demo_sum_call = False" "passed_by 3 (vc_transcript_expires_at demo_sum_call) = False"
    by (simp_all add: demo_sum_call_def closed_off_def passed_by_def)
  ultimately have "\<exists>db'. finish_summary 3 5 ''c'' ''w'' 1000000000000 (r\<lparr>sr_reasoning := x, sr_followup := None\<rparr>) demo_sum_db = Inr (''ready'', db')" for r x
    by (simp add: finish_summary_def demo_sum_get demo_sum_owned)
  from this [where x = None and r = "\<lparr>sr_call_summary = [104], sr_unfinished_topics = [[105]], sr_user_emotion = [106],
     sr_assistant_emotion = [107], sr_reasoning = None, sr_followup = None\<rparr>"]
  obtain db' where "finish_summary 3 5 ''c'' ''w'' 1000000000000 \<lparr>sr_call_summary = [104], sr_unfinished_topics = [[105]],
     sr_user_emotion = [106], sr_assistant_emotion = [107], sr_reasoning = None, sr_followup = None\<rparr> demo_sum_db = Inr (''ready'', db')"
    by auto
  moreover have "sm_permits demo_env [99] = Inr False" by (simp add: demo_env_def)
  moreover have "wk_seconds demo_work = 20" "wk_turns demo_work = []" "wk_expiry demo_work = 1000000000000"
    "st_finish demo_times = 3" by (simp_all add: demo_work_def demo_times_def)
  ultimately show ?thesis by (simp add: complete_summary_def demo_generate check_reasoning_def)
qed

theorem transcript_reaches_model_as_data_witness:
  "summary_call demo_env [109] (build_summary_prompt demo_env 20 [] [112]) = sm_chat demo_env [109] [10, 112, 10] []"
  using transcript_reaches_model_as_data [of demo_env 20 "[]" "[109]" "[112]"] by (simp add: demo_env_def)

theorem ready_summary_permitted_witness:
  "\<exists>db' c'. complete_summary demo_env demo_times 5 ''c'' ''w'' demo_work demo_sum_db = (''ready'', db') \<and>
     get_call ''c'' db' = Some c' \<and> vc_summary_status c' = Sum_ready \<and> list_all (\<lambda>t. t \<noteq> [99]) (stored_texts c')"
proof -
  obtain db' where d: "complete_summary demo_env demo_times 5 ''c'' ''w'' demo_work demo_sum_db = (''ready'', db')"
    using demo_complete by blast
  from ready_summary_permitted [OF this demo_sum_ok] obtain c' where "get_call ''c'' db' = Some c'" "vc_summary_status c' = Sum_ready"
    "list_all (\<lambda>t. sm_permits demo_env t = Inr True) (stored_texts c')" by blast
  with d show ?thesis by (simp add: demo_env_def)
qed

definition demo_job_db :: "postprocess_status \<Rightarrow> database" where
  "demo_job_db st = empty_db\<lparr>db_calls := [demo_sum_call],
     db_post_jobs := [demo_sum_job\<lparr>pj_status := st, pj_attempt_count := 0, pj_lease_owner := None, pj_lease_expires_at := None\<rparr>]\<rparr>"

lemma demo_job_db:
  "post_ok (demo_job_db st)" "get_call ''c'' (demo_job_db st) = Some demo_sum_call"
  "find_summary_job ''c'' (demo_job_db st) =
     Some (demo_sum_job\<lparr>pj_status := st, pj_attempt_count := 0, pj_lease_owner := None, pj_lease_expires_at := None\<rparr>)"
  by (simp_all add: post_ok_def get_call_def row_find_def find_summary_job_def demo_job_db_def demo_sum_call_def demo_sum_job_def)

lemma demo_sum_call_simps: "vc_status demo_sum_call = Ended" "vc_sort_seq demo_sum_call = Some 1" "vc_call_summary demo_sum_call = None"
  by (simp_all add: demo_sum_call_def blank_call_def)

theorem pending_summary_settles_witness:
  "\<exists>out db' j'. process_summary demo_env demo_times 5 ''w'' 10 ''c'' (demo_job_db Post_pending) = (out, db') \<and>
     find_summary_job ''c'' db' = Some j' \<and> pj_status j' \<in> {Post_success, Post_failed, Post_cancelled} \<and> pj_lease_owner j' = None"
proof -
  have "\<exists>out db' j'. process_summary demo_env demo_times 5 ''w'' 10 ''c'' (demo_job_db Post_pending) = (out, db') \<and>
    out \<in> {''ready'', ''failed'', ''cancelled'', ''not_applicable''} \<and> find_summary_job ''c'' db' = Some j' \<and>
    pj_status j' \<in> {Post_success, Post_failed, Post_cancelled} \<and> pj_lease_owner j' = None \<and>
    pj_attempt_count j' \<in> {pj_attempt_count (demo_sum_job\<lparr>pj_status := Post_pending, pj_attempt_count := 0, pj_lease_owner := None, pj_lease_expires_at := None\<rparr>),
      pj_attempt_count (demo_sum_job\<lparr>pj_status := Post_pending, pj_attempt_count := 0, pj_lease_owner := None, pj_lease_expires_at := None\<rparr>) + 1}"
    by (rule pending_summary_settles [OF demo_job_db]) (simp_all add: demo_sum_call_simps demo_times_def us_second_def)
  then show ?thesis by blast
qed

theorem finished_summary_final_witness:
  "\<exists>c' j'. get_call ''c'' (fold (summary_apply demo_env)
       [SA_retry ''super_admin'' 4 1, SA_fence 5 ''c'', SA_claim 6 ''w'' 10 ''c''] (demo_job_db Post_success)) = Some c' \<and>
     vc_call_summary c' = None \<and> find_summary_job ''c'' (fold (summary_apply demo_env)
       [SA_retry ''super_admin'' 4 1, SA_fence 5 ''c'', SA_claim 6 ''w'' 10 ''c''] (demo_job_db Post_success)) = Some j' \<and>
     pj_status j' \<in> {Post_success, Post_cancelled}"
proof -
  have p: "pj_status (demo_sum_job\<lparr>pj_status := Post_success, pj_attempt_count := 0, pj_lease_owner := None, pj_lease_expires_at := None\<rparr>)
     \<in> {Post_success, Post_cancelled}" by simp
  note F = finished_summary_final [OF demo_job_db p, of demo_env "[SA_retry ''super_admin'' 4 1, SA_fence 5 ''c'', SA_claim 6 ''w'' 10 ''c'']"]
  then show ?thesis unfolding demo_sum_call_simps by blast
qed

end
