(* ===== verification/BargeIn.thy ===== *)
theory BargeIn
  imports Backchannel Provider
begin

text \<open>
  Interruptions (\<open>realtime_voice_barge_in_service.py\<close>): the classifier that decides whether what the user says over the
  companion is an interruption, and the controller that binds the remote requests to the stop the client confirms.

  \<open>barge_env\<close> holds the root mean square of the samples (a float), the Unicode category of punctuation, the settings
  and the word lists. Both parts write to one set of observations. A request to the provider is awaited, so the controller's
  methods are split at the awaits: what happens before, the call of the adapter, and what happens after it.
\<close>

section \<open>Observations\<close>

type_synonym observation = "string \<times> (string \<times> string) list"

record observations =
  ob_events :: "(observation, int) dict"
  ob_latencies :: "((string \<times> string) list \<times> int) list"

definition no_observations :: observations where
  "no_observations = \<lparr>ob_events = [], ob_latencies = []\<rparr>"

definition ob_add :: "string \<Rightarrow> (string \<times> string) list \<Rightarrow> int \<Rightarrow> observations \<Rightarrow> observations" where
  "ob_add name dims amount b =
     (if name = ''stop_clear_latency_ms'' then b\<lparr>ob_latencies := ob_latencies b @ [(dims, max 0 amount)]\<rparr>
      else b\<lparr>ob_events := AList.update (name, dims)
        (min 1000000000 ((case map_of (ob_events b) (name, dims) of None \<Rightarrow> 0 | Some n \<Rightarrow> n) + max 0 amount)) (ob_events b)\<rparr>)"

definition ob_drain :: "observations \<Rightarrow> event list \<times> observations" where
  "ob_drain b = (map (\<lambda>((name, dims), n). ev (''voice.barge_in.'' @ name) dims n) (ob_events b) @
     map (\<lambda>(dims, n). ev ''voice.barge_in.stop_clear_latency_ms'' dims n) (ob_latencies b), no_observations)"

section \<open>The classifier\<close>

record barge_env =
  bg_rms :: "int list \<Rightarrow> rat"
  bg_punctuation :: "nat \<Rightarrow> bool"
  bg_threshold :: rat
  bg_candidate_ms :: rat
  bg_weak :: "pystr list"
  bg_strong :: "pystr list"
  bg_upgrade :: "pystr list"

record classifier =
  cl_question :: "pystr option"
  cl_resolved :: bool
  cl_candidate_seen :: bool
  cl_has_text :: bool
  cl_is_weak :: bool
  cl_is_strong :: bool
  cl_meaningful :: bool
  cl_started_at :: "rat option"
  cl_last_audio :: "rat option"
  cl_audio_ms :: rat
  cl_wall_ms :: rat
  cl_speech_ms :: rat

definition new_classifier :: classifier where
  "new_classifier = \<lparr>cl_question = None, cl_resolved = False, cl_candidate_seen = False, cl_has_text = False, cl_is_weak = False,
     cl_is_strong = False, cl_meaningful = False, cl_started_at = None, cl_last_audio = None, cl_audio_ms = 0, cl_wall_ms = 0,
     cl_speech_ms = 0\<rparr>"

definition carried_ms :: "rat option \<Rightarrow> classifier \<Rightarrow> rat" where
  "carried_ms now c =
     (case (now, cl_last_audio c) of
        (Some t, Some l) \<Rightarrow> if 0 \<le> t - l \<and> t - l \<le> 1 / 4 then min (cl_audio_ms c) (cl_wall_ms c) else 0
      | _ \<Rightarrow> 0)"

definition start_question :: "pystr option \<Rightarrow> rat option \<Rightarrow> classifier \<Rightarrow> classifier" where
  "start_question q now c =
     (if q = cl_question c then c
      else c\<lparr>cl_question := q, cl_resolved := False, cl_candidate_seen := False, cl_has_text := False, cl_is_weak := False,
        cl_is_strong := False, cl_meaningful := False, cl_speech_ms := carried_ms now c\<rparr>)"

text \<open>\<open>array('h', pcm)\<close>, little-endian on every machine.\<close>

fun samples16 :: "bytes \<Rightarrow> int list res" where
  "samples16 [] = Inr []"
| "samples16 [_] = Inl (ValueError ''bytes length not a multiple of item size'')"
| "samples16 (lo # hi # bs) = map_sum id (Cons (sint (word_cat hi lo :: 16 word))) (samples16 bs)"

definition normalize_words :: "barge_env \<Rightarrow> pystr \<Rightarrow> pystr" where
  "normalize_words env t = filter (\<lambda>c. \<not> py_space c \<and> \<not> bg_punctuation env c) (py_strip t)"

datatype verdict = Barge_in | Backchannel

text \<open>\<open>_decide\<close>\<close>

definition decision_obs :: "string \<Rightarrow> observations \<Rightarrow> observations" where
  "decision_obs r = ob_add ''decision'' [(''result'', r), (''source'', ''classifier'')] 1"

definition decide :: "barge_env \<Rightarrow> bool \<Rightarrow> classifier \<times> observations \<Rightarrow> verdict option \<times> classifier \<times> observations" where
  "decide env is_final = (\<lambda>(c, b).
     if cl_resolved c \<or> \<not> opt_truthy (cl_question c) \<or> \<not> cl_has_text c then (None, c, b)
     else if cl_speech_ms c + 1 / 1000 < bg_candidate_ms env then (None, c, b)
     else let b1 = (if cl_candidate_seen c then b else decision_obs ''candidate'' b); c1 = c\<lparr>cl_candidate_seen := True\<rparr> in
       if cl_is_strong c \<or> \<not> cl_is_weak c \<and> cl_meaningful c \<and> (is_final \<or> cl_speech_ms c \<ge> 250)
       then (Some Barge_in, c1\<lparr>cl_resolved := True\<rparr>, decision_obs ''escalated'' b1)
       else if is_final \<and> cl_is_weak c then (Some Backchannel, c1\<lparr>cl_resolved := True\<rparr>, decision_obs ''backchannel'' b1)
       else (None, c1, b1))"

text \<open>\<open>audio\<close>: a gap of a quarter second starts the speech anew; the clock bounds what the samples add up to.\<close>

definition hear :: "rat \<Rightarrow> rat \<Rightarrow> classifier \<Rightarrow> classifier" where
  "hear now duration c =
     (let fresh = (case cl_last_audio c of None \<Rightarrow> True | Some l \<Rightarrow> now - l > 1 / 4);
          started = (if fresh then now else (case cl_started_at c of None \<Rightarrow> now | Some s \<Rightarrow> s));
          audio_ms = (if fresh then 0 else cl_audio_ms c) + duration;
          wall_ms = max 0 ((now - started) * 1000) + min duration 20 in
      c\<lparr>cl_started_at := Some started, cl_audio_ms := audio_ms, cl_wall_ms := wall_ms, cl_last_audio := Some now,
        cl_speech_ms := (if opt_truthy (cl_question c) then max (cl_speech_ms c) (min audio_ms wall_ms) else cl_speech_ms c)\<rparr>)"

definition classify_audio ::
  "barge_env \<Rightarrow> bytes \<Rightarrow> rat \<Rightarrow> classifier \<times> observations \<Rightarrow> verdict option res \<times> classifier \<times> observations" where
  "classify_audio env pcm now = (\<lambda>(c, b).
     case samples16 pcm of Inl x \<Rightarrow> (Inl x, c, b)
     | Inr samples \<Rightarrow>
         if bg_rms env samples < bg_threshold env
         then (Inr None, c\<lparr>cl_started_at := None, cl_last_audio := None, cl_audio_ms := 0, cl_wall_ms := 0\<rparr>, b)
         else apfst Inr (decide env False (hear now (of_nat (length samples) / 16) c, b)))"

definition note_words :: "barge_env \<Rightarrow> pystr \<Rightarrow> classifier \<Rightarrow> classifier" where
  "note_words env t c =
     (let n = normalize_words env t in
      c\<lparr>cl_has_text := n \<noteq> [], cl_is_weak := pure_ack n (bg_weak env),
        cl_is_strong := list_ex (\<lambda>w. py_in w n) (bg_strong env @ bg_upgrade env), cl_meaningful := 2 \<le> length n\<rparr>)"

definition classify_text ::
  "barge_env \<Rightarrow> pystr option \<Rightarrow> pystr \<Rightarrow> bool \<Rightarrow> classifier \<times> observations \<Rightarrow> verdict option \<times> classifier \<times> observations" where
  "classify_text env q t is_final = (\<lambda>(c, b).
     if \<not> opt_truthy (cl_question c) \<or> q \<noteq> cl_question c \<or> cl_resolved c then (None, c, b)
     else decide env is_final (note_words env t c, b))"

section \<open>The controller\<close>

record request =
  rq_started :: rat
  rq_mode :: string
  rq_confirmed :: bool
  rq_cancel_mode :: "string option"
  rq_played :: "int option"
  rq_item :: "pystr option"
  rq_session :: "string option"
  rq_outcome_observed :: bool
  rq_finished :: bool

record interruptions =
  it_requests :: "(pystr, request) dict"
  it_obs :: observations

definition new_request :: "rat \<Rightarrow> request" where
  "new_request now = \<lparr>rq_started = now, rq_mode = ''local_stop_requested'', rq_confirmed = False, rq_cancel_mode = None,
     rq_played = None, rq_item = None, rq_session = None, rq_outcome_observed = False, rq_finished = False\<rparr>"

definition find_request :: "pystr \<Rightarrow> interruptions \<Rightarrow> request option" where
  "find_request r s = map_of (it_requests s) r"

definition put_request :: "pystr \<Rightarrow> request \<Rightarrow> interruptions \<Rightarrow> interruptions" where
  "put_request r q s = s\<lparr>it_requests := AList.update r q (it_requests s)\<rparr>"

definition observe :: "string \<Rightarrow> (string \<times> string) list \<Rightarrow> interruptions \<Rightarrow> interruptions" where
  "observe name dims s = s\<lparr>it_obs := ob_add name dims 1 (it_obs s)\<rparr>"

definition can_truncate :: "provider_env \<Rightarrow> datetime \<Rightarrow> adapter \<Rightarrow> bool res" where
  "can_truncate env now ad = capability_enabled env now ''supports_context_truncate'' ad"

text \<open>\<open>_truncate_outcome\<close>: once per request; the flag is set before the capability is asked.\<close>

definition truncate_outcome ::
  "provider_env \<Rightarrow> datetime \<Rightarrow> adapter \<Rightarrow> pystr \<Rightarrow> request \<Rightarrow> string \<Rightarrow> interruptions \<Rightarrow> unit res \<times> interruptions" where
  "truncate_outcome env now ad r q result s =
     (if rq_outcome_observed q then (Inr (), s)
      else let s1 = put_request r (q\<lparr>rq_outcome_observed := True\<rparr>) s in
        case can_truncate env now ad of Inl x \<Rightarrow> (Inl x, s1)
        | Inr verified \<Rightarrow> (Inr (), observe ''truncate_outcome''
            [(''evidence'', if verified then ''verified'' else ''unverified''), (''result'', result)] s1))"

section \<open>upgrade\<close>

definition MAX_REQUESTS :: nat where
  "MAX_REQUESTS = 4096"

definition begin_upgrade :: "rat \<Rightarrow> pystr \<Rightarrow> interruptions \<Rightarrow> bool res \<times> interruptions" where
  "begin_upgrade now r s =
     (if find_request r s \<noteq> None then (Inr False, s)
      else if length (it_requests s) \<ge> MAX_REQUESTS then (Inl (ValueError ''barge_in_limit''), s)
      else (Inr True, put_request r (new_request now) s))"

definition stop_sent :: "unit res \<Rightarrow> interruptions \<Rightarrow> interruptions" where
  "stop_sent x s = observe ''stop_clear'' [(''result'', case x of Inl _ \<Rightarrow> ''send_failed'' | Inr _ \<Rightarrow> ''requested'')] s"

text \<open>The answer of the adapter, an exception or the end of the two seconds.\<close>

definition interrupt_answered :: "pystr \<Rightarrow> string res \<Rightarrow> interruptions \<Rightarrow> interruptions" where
  "interrupt_answered r x s =
     (case find_request r s of None \<Rightarrow> s
      | Some q \<Rightarrow> put_request r (q\<lparr>rq_cancel_mode := Some (case x of Inl _ \<Rightarrow> ''local_stop_only'' | Inr m \<Rightarrow> m)\<rparr>) s)"

text \<open>\<open>send\<close> may raise, which reaches the caller; the request to the provider goes on all the same.\<close>

definition upgrade ::
  "provider_env \<Rightarrow> rat \<Rightarrow> datetime \<Rightarrow> unit res \<Rightarrow> exn option \<Rightarrow> pystr \<Rightarrow> interruptions \<times> adapter \<Rightarrow> unit res \<times> interruptions \<times> adapter" where
  "upgrade env clk now sending fail r = (\<lambda>(s, ad).
     case begin_upgrade clk r s of
       (Inl x, s1) \<Rightarrow> (Inl x, s1, ad)
     | (Inr False, s1) \<Rightarrow> (Inr (), s1, ad)
     | (Inr True, s1) \<Rightarrow>
         (case interrupt_reply env now fail r ad of (x, ad') \<Rightarrow> (sending, interrupt_answered r x (stop_sent sending s1), ad')))"

section \<open>stopped\<close>

datatype stop_step = Stop_known string | Stop_ask pystr

text \<open>Up to the request to the provider.\<close>

definition not_measurable :: "provider_env \<Rightarrow> datetime \<Rightarrow> adapter \<Rightarrow> pystr \<Rightarrow> string \<Rightarrow> request \<Rightarrow> interruptions \<Rightarrow> stop_step res \<times> interruptions" where
  "not_measurable env now ad r reason q s =
     apfst (map_sum id (\<lambda>_. Stop_known (rq_mode q)))
       (truncate_outcome env now ad r q ''unknown'' (observe ''truncate'' [(''reason'', reason), (''result'', ''not_measurable'')] s))"

definition note_ack :: "rat \<Rightarrow> request \<Rightarrow> interruptions \<Rightarrow> interruptions" where
  "note_ack clk q s =
     (let s1 = observe ''stop_clear'' [(''result'', ''acknowledged'')] s in
      s1\<lparr>it_obs := ob_add ''stop_clear_latency_ms'' [(''boundary'', ''server_request_to_client_ack'')]
        (py_int ((clk - rq_started q) * 1000)) (it_obs s1)\<rparr>)"

definition begin_stopped ::
  "provider_env \<Rightarrow> rat \<Rightarrow> datetime \<Rightarrow> adapter \<Rightarrow> pystr \<Rightarrow> int \<Rightarrow> interruptions \<Rightarrow> stop_step res \<times> interruptions" where
  "begin_stopped env clk now ad r played s =
     (case find_request r s of
        None \<Rightarrow> (Inr (Stop_known ''context_not_truncated''), s)
      | Some q0 \<Rightarrow>
          if rq_played q0 \<noteq> None then (Inr (Stop_known (rq_mode q0)), s)
          else
            let q = q0\<lparr>rq_played := Some played, rq_mode := ''context_not_truncated''\<rparr>;
                s2 = note_ack clk q (put_request r q s) in
            case can_truncate env now ad of
              Inl x \<Rightarrow> (Inl x, s2)
            | Inr False \<Rightarrow> not_measurable env now ad r ''capability_unavailable'' q s2
            | Inr True \<Rightarrow> (case reply_context_item r ad of
                None \<Rightarrow> not_measurable env now ad r ''identity_unavailable'' q s2
              | Some item \<Rightarrow> (Inr (Stop_ask item), put_request r (q\<lparr>rq_item := Some item, rq_session := Some (ad_session_id ad),
                  rq_mode := ''context_truncate_requested''\<rparr>) s2)))"

text \<open>After it. A failure inside the \<open>try\<close>, also of the observation, takes the request back.\<close>

definition truncate_failed ::
  "provider_env \<Rightarrow> datetime \<Rightarrow> adapter \<Rightarrow> pystr \<Rightarrow> interruptions \<Rightarrow> string res \<times> interruptions" where
  "truncate_failed env now ad r s =
     (case find_request r s of None \<Rightarrow> (Inr ''context_not_truncated'', s)
      | Some q0 \<Rightarrow> let q = q0\<lparr>rq_mode := ''context_not_truncated'', rq_confirmed := False\<rparr> in
          apfst (map_sum id (\<lambda>_. rq_mode q)) (truncate_outcome env now ad r q ''failure''
            (observe ''truncate'' [(''reason'', ''request_failed''), (''result'', ''failure'')] (put_request r q s))))"

definition end_stopped ::
  "provider_env \<Rightarrow> datetime \<Rightarrow> adapter \<Rightarrow> pystr \<Rightarrow> string res \<Rightarrow> interruptions \<Rightarrow> string res \<times> interruptions" where
  "end_stopped env now ad r x s =
     (case (x, find_request r s) of
        (Inr mode, Some q0) \<Rightarrow>
          let q = q0\<lparr>rq_mode := mode\<rparr>; asked = (mode = ''context_truncate_requested'');
              s1 = observe ''truncate'' (if asked then [(''reason'', ''request''), (''result'', ''requested'')]
                else [(''reason'', ''capability_unavailable''), (''result'', ''not_measurable'')]) (put_request r q s) in
          if asked then (Inr mode, s1)
          else (case truncate_outcome env now ad r q ''unknown'' s1 of
                (Inl _, s2) \<Rightarrow> truncate_failed env now ad r s2
              | (Inr _, s2) \<Rightarrow> (Inr mode, s2))
      | _ \<Rightarrow> truncate_failed env now ad r s)"

definition stopped ::
  "provider_env \<Rightarrow> rat \<Rightarrow> datetime \<Rightarrow> exn option \<Rightarrow> pystr \<Rightarrow> int \<Rightarrow> interruptions \<times> adapter \<Rightarrow> string res \<times> interruptions \<times> adapter" where
  "stopped env clk now fail r played = (\<lambda>(s, ad).
     case begin_stopped env clk now ad r played s of
       (Inl x, s1) \<Rightarrow> (Inl x, s1, ad)
     | (Inr (Stop_known m), s1) \<Rightarrow> (Inr m, s1, ad)
     | (Inr (Stop_ask item), s1) \<Rightarrow>
         (case truncate_reply_context env now fail r played (Some item) ad of (x, ad') \<Rightarrow>
            (case end_stopped env now ad' r x s1 of (y, s2) \<Rightarrow> (y, s2, ad'))))"

section \<open>confirm\<close>

definition event_matches :: "turn_event \<Rightarrow> request \<Rightarrow> bool" where
  "event_matches e q \<longleftrightarrow> rq_mode q = ''context_truncate_requested'' \<and> rq_session q = Some (pe_session_id e) \<and>
     (case pe_payload e of Dict_payload d \<Rightarrow>
        (case rq_item q of None \<Rightarrow> jget d ''item_id'' = JNull | Some i \<Rightarrow> jget d ''item_id'' = JStr i) \<and>
        (case (jget d ''audio_end_ms'', rq_played q) of (JInt n, Some p) \<Rightarrow> n = p | _ \<Rightarrow> False)
      | _ \<Rightarrow> False)"

text \<open>The requests in the order of their creation: the first that matches under an enabled capability is confirmed.\<close>

fun confirm_among ::
  "provider_env \<Rightarrow> datetime \<Rightarrow> adapter \<Rightarrow> turn_event \<Rightarrow> (pystr \<times> request) list \<Rightarrow> interruptions \<Rightarrow> bool res \<times> interruptions" where
  "confirm_among env now ad e [] s = (Inr False, s)"
| "confirm_among env now ad e ((r, q) # qs) s =
     (if \<not> event_matches e q then confirm_among env now ad e qs s
      else case can_truncate env now ad of
        Inl x \<Rightarrow> (Inl x, s)
      | Inr False \<Rightarrow> confirm_among env now ad e qs s
      | Inr True \<Rightarrow>
          let s1 = (if rq_confirmed q then s else observe ''truncate'' [(''reason'', ''confirmed''), (''result'', ''success'')] s) in
          (case truncate_outcome env now ad r q ''success'' s1 of
             (Inl x, s2) \<Rightarrow> (Inl x, s2)
           | (Inr _, s2) \<Rightarrow> (Inr True, put_request r ((the (find_request r s2))\<lparr>rq_confirmed := True\<rparr>) s2)))"

definition confirm :: "provider_env \<Rightarrow> datetime \<Rightarrow> adapter \<Rightarrow> turn_event \<Rightarrow> interruptions \<Rightarrow> bool res \<times> interruptions" where
  "confirm env now ad e s =
     (if pe_kind e \<noteq> ''context_truncated'' \<or> (case pe_payload e of Dict_payload _ \<Rightarrow> False | _ \<Rightarrow> True) then (Inr False, s)
      else confirm_among env now ad e (it_requests s) s)"

section \<open>The end\<close>

text \<open>One request of \<open>finish_observations\<close>; an exception ends the loop.\<close>

definition finish_request :: "provider_env \<Rightarrow> datetime \<Rightarrow> adapter \<Rightarrow> pystr \<Rightarrow> request \<Rightarrow> interruptions \<Rightarrow> unit res \<times> interruptions" where
  "finish_request env now ad r q0 s =
     (if rq_finished q0 then (Inr (), s)
      else let q = q0\<lparr>rq_finished := True\<rparr> in
        case truncate_outcome env now ad r q (if rq_confirmed q then ''success'' else ''unknown'') (put_request r q s) of
          (Inl x, s1) \<Rightarrow> (Inl x, s1)
        | (Inr _, s1) \<Rightarrow>
            let s2 = (if rq_played q = None then observe ''stop_clear'' [(''result'', ''ack_unavailable'')] s1 else s1) in
            (Inr (), if rq_mode q = ''context_truncate_requested'' \<and> \<not> rq_confirmed q
              then observe ''truncate'' [(''reason'', ''confirmation_unavailable''), (''result'', ''not_measurable'')] s2 else s2))"

fun finish_each :: "provider_env \<Rightarrow> datetime \<Rightarrow> adapter \<Rightarrow> (pystr \<times> request) list \<Rightarrow> interruptions \<Rightarrow> unit res \<times> interruptions" where
  "finish_each env now ad [] s = (Inr (), s)"
| "finish_each env now ad ((r, q) # qs) s =
     (case finish_request env now ad r q s of (Inl x, s1) \<Rightarrow> (Inl x, s1) | (Inr _, s1) \<Rightarrow> finish_each env now ad qs s1)"

definition finish_observations :: "provider_env \<Rightarrow> datetime \<Rightarrow> adapter \<Rightarrow> interruptions \<Rightarrow> unit res \<times> interruptions" where
  "finish_observations env now ad s = finish_each env now ad (it_requests s) s"

definition confirmed :: "pystr \<Rightarrow> interruptions \<Rightarrow> bool" where
  "confirmed r s \<longleftrightarrow> (case find_request r s of None \<Rightarrow> False | Some q \<Rightarrow> rq_confirmed q)"

end
