(* ===== verification/BargeInClaims.thy ===== *)
theory BargeInClaims
  imports BargeIn
begin

text \<open>
  What the interruption policy guarantees: a verdict needs unbroken loud speech and words of the question it is about, and a
  truncation counts as confirmed only by the provider's own event for the stop the client reported.
\<close>

section \<open>The classifier\<close>

datatype speech = Sp_start "pystr option" "rat option" | Sp_audio bytes rat | Sp_text "pystr option" pystr bool

fun speech_step :: "barge_env \<Rightarrow> speech \<Rightarrow> classifier \<times> observations \<Rightarrow> verdict option \<times> classifier \<times> observations" where
  "speech_step env (Sp_start q now) s = (None, start_question q now (fst s), snd s)"
| "speech_step env (Sp_audio pcm now) s =
     (case classify_audio env pcm now s of (Inl _, s') \<Rightarrow> (None, s') | (Inr v, s') \<Rightarrow> (v, s'))"
| "speech_step env (Sp_text q t is_final) s = classify_text env q t is_final s"

definition speech_run :: "barge_env \<Rightarrow> speech list \<Rightarrow> classifier" where
  "speech_run env acts = fst (fold (\<lambda>a s. snd (speech_step env a s)) acts (new_classifier, no_observations))"

text \<open>The frames at or above the threshold, with their times and their milliseconds, and the ones below it.\<close>

fun loud_frames :: "barge_env \<Rightarrow> speech list \<Rightarrow> (rat \<times> rat) list" where
  "loud_frames env [] = []"
| "loud_frames env (Sp_audio pcm now # acts) = (case samples16 pcm of Inl _ \<Rightarrow> []
     | Inr xs \<Rightarrow> if bg_rms env xs < bg_threshold env then [] else [(now, of_nat (length xs) / 16)]) @ loud_frames env acts"
| "loud_frames env (_ # acts) = loud_frames env acts"

fun quiet :: "barge_env \<Rightarrow> speech \<Rightarrow> bool" where
  "quiet env (Sp_audio pcm now) = (case samples16 pcm of Inl _ \<Rightarrow> False | Inr xs \<Rightarrow> bg_rms env xs < bg_threshold env)"
| "quiet env _ = False"

definition loud_ms :: "barge_env \<Rightarrow> speech list \<Rightarrow> rat" where
  "loud_ms env acts = sum_list (map snd (loud_frames env acts))"

text \<open>The time from the first loud frame to the last, with at most 20 milliseconds of the last frame itself.\<close>

definition span_ms :: "barge_env \<Rightarrow> speech list \<Rightarrow> rat" where
  "span_ms env acts = max 0 ((fst (last (loud_frames env acts)) - fst (hd (loud_frames env acts))) * 1000)
     + min (snd (last (loud_frames env acts))) 20"

text \<open>Speech without a break: some loud frame, no quiet one, no gap of more than a quarter second between loud frames.\<close>

definition unbroken :: "barge_env \<Rightarrow> speech list \<Rightarrow> bool" where
  "unbroken env acts \<longleftrightarrow> loud_frames env acts \<noteq> [] \<and> list_all (\<lambda>a. \<not> quiet env a) acts \<and>
     successively (\<lambda>f g. fst g - fst f \<le> 1 / 4) (loud_frames env acts)"

text \<open>The starts name no other question; no text is one of the question.\<close>

definition stays :: "pystr option \<Rightarrow> speech list \<Rightarrow> bool" where
  "stays q acts \<longleftrightarrow> list_all (\<lambda>a. case a of Sp_start q' _ \<Rightarrow> q' = q | _ \<Rightarrow> True) acts"

definition no_text :: "pystr option \<Rightarrow> speech list \<Rightarrow> bool" where
  "no_text q acts \<longleftrightarrow> list_all (\<lambda>a. case a of Sp_text q' _ _ \<Rightarrow> q' \<noteq> q | _ \<Rightarrow> True) acts"

text \<open>
  Unbroken speech of \<open>ms\<close> milliseconds, both by its samples and by the clock, for the question started after \<open>before\<close>
  at \<open>t0\<close> and followed by \<open>after\<close>: it ends with a loud frame after the start, or it was still going when the question
  started, its last frame at most a quarter second old.
\<close>

definition spoken :: "barge_env \<Rightarrow> speech list \<Rightarrow> pystr \<Rightarrow> rat option \<Rightarrow> speech list \<Rightarrow> rat \<Rightarrow> bool" where
  "spoken env before q t0 after ms \<longleftrightarrow> (\<exists>xs ys. unbroken env ys \<and> ms \<le> loud_ms env ys \<and> ms \<le> span_ms env ys \<and>
     ((\<exists>mid a zs. after = mid @ a # zs \<and> loud_frames env [a] \<noteq> [] \<and> xs @ ys = before @ Sp_start (Some q) t0 # mid @ [a]) \<or>
      (\<exists>t. xs @ ys = before \<and> t0 = Some t \<and> 0 \<le> t - fst (last (loud_frames env ys)) \<and>
         t - fst (last (loud_frames env ys)) \<le> 1 / 4)))"

lemma loud_frames_append [simp]: "loud_frames env (xs @ ys) = loud_frames env xs @ loud_frames env ys"
  by (induction xs rule: loud_frames.induct) simp_all

lemma stays_append [simp]: "stays q (xs @ ys) \<longleftrightarrow> stays q xs \<and> stays q ys"
  by (simp add: stays_def)

lemma no_text_append [simp]: "no_text q (xs @ ys) \<longleftrightarrow> no_text q xs \<and> no_text q ys"
  by (simp add: no_text_def)

lemma spoken_later: "spoken env before q t0 after ms \<Longrightarrow> spoken env before q t0 (after @ as) ms"
  unfolding spoken_def by (metis append.assoc append_Cons)

subsection \<open>The state before the decision\<close>

fun noted :: "barge_env \<Rightarrow> speech \<Rightarrow> classifier \<Rightarrow> classifier" where
  "noted env (Sp_start q now) c = start_question q now c"
| "noted env (Sp_audio pcm now) c = (case samples16 pcm of Inl _ \<Rightarrow> c
     | Inr xs \<Rightarrow> if bg_rms env xs < bg_threshold env
         then c\<lparr>cl_started_at := None, cl_last_audio := None, cl_audio_ms := 0, cl_wall_ms := 0\<rparr>
         else hear now (of_nat (length xs) / 16) c)"
| "noted env (Sp_text q t f) c =
     (if \<not> opt_truthy (cl_question c) \<or> q \<noteq> cl_question c \<or> cl_resolved c then c else note_words env t c)"

definition marked :: "classifier \<Rightarrow> classifier \<Rightarrow> bool" where
  "marked c c' \<longleftrightarrow> (\<exists>r k. c' = c\<lparr>cl_resolved := r, cl_candidate_seen := k\<rparr> \<and> (cl_resolved c \<longrightarrow> r))"

lemma marked_refl [simp]: "marked c c"
  unfolding marked_def by (rule exI [of _ "cl_resolved c"], rule exI [of _ "cl_candidate_seen c"]) simp

lemma decide_marked: "decide env f (c, b) = (x, c', b') \<Longrightarrow> marked c c'"
  by (cases c) (auto simp: decide_def Let_def marked_def split: if_splits)

lemma decide_verdict:
  assumes "decide env f (c, b) = (Some v, c', b')"
  shows "\<not> cl_resolved c \<and> opt_truthy (cl_question c) \<and> cl_has_text c \<and> bg_candidate_ms env \<le> cl_speech_ms c + 1 / 1000 \<and>
    cl_resolved c' \<and> marked c c' \<and> (v = Barge_in \<longrightarrow> cl_is_strong c \<or> \<not> cl_is_weak c \<and> cl_meaningful c \<and> (f \<or> 250 \<le> cl_speech_ms c)) \<and>
    (v = Backchannel \<longrightarrow> cl_is_weak c \<and> f)"
  using assms decide_marked [OF assms] by (auto simp: decide_def Let_def split: if_splits)

lemma speech_step_marked: "marked (noted env a c) (fst (snd (speech_step env a (c, b))))"
proof (cases a)
  case (Sp_audio pcm now)
  show ?thesis
  proof (cases "samples16 pcm")
    case (Inr xs)
    then show ?thesis using Sp_audio
      by (cases "decide env False (hear now (of_nat (length xs) / 16) c, b)") (auto simp: classify_audio_def dest: decide_marked)
  qed (use Sp_audio in \<open>simp add: classify_audio_def\<close>)
next
  case (Sp_text q t f)
  then show ?thesis
    by (cases "decide env f (note_words env t c, b)") (auto simp: classify_text_def dest: decide_marked)
qed simp

lemma speech_step_verdict:
  assumes "speech_step env a (c, b) = (Some v, c', b')"
  shows "\<exists>f b1. decide env f (noted env a c, b1) = (Some v, c', b') \<and> (f \<longrightarrow> (\<exists>t. a = Sp_text (cl_question c) t True))"
proof (cases a)
  case (Sp_audio pcm now)
  with assms obtain xs where x: "samples16 pcm = Inr xs" "\<not> bg_rms env xs < bg_threshold env"
    by (auto simp: classify_audio_def split: sum.splits if_splits)
  with assms Sp_audio have "decide env False (noted env a c, b) = (Some v, c', b')"
    by (cases "decide env False (hear now (of_nat (length xs) / 16) c, b)") (auto simp: classify_audio_def)
  then show ?thesis by blast
next
  case (Sp_text q t f)
  with assms have "\<not> (\<not> opt_truthy (cl_question c) \<or> q \<noteq> cl_question c \<or> cl_resolved c)"
    "decide env f (noted env a c, b) = (Some v, c', b')"
    by (auto simp: classify_text_def split: if_splits)
  then show ?thesis using Sp_text by (intro exI [of _ f] exI [of _ b]) auto
qed (use assms in simp)

subsection \<open>The speech that is going on\<close>

definition going :: "barge_env \<Rightarrow> speech list \<Rightarrow> classifier \<Rightarrow> bool" where
  "going env ys c \<longleftrightarrow> unbroken env ys \<and> cl_last_audio c = Some (fst (last (loud_frames env ys))) \<and>
     cl_started_at c = Some (fst (hd (loud_frames env ys))) \<and> cl_audio_ms c = loud_ms env ys \<and> cl_wall_ms c = span_ms env ys"

definition audible :: "barge_env \<Rightarrow> speech list \<Rightarrow> classifier \<Rightarrow> bool" where
  "audible env acts c \<longleftrightarrow> cl_last_audio c = None \<or> (\<exists>xs ys. acts = xs @ ys \<and> going env ys c)"

lemma going_silent_act:
  assumes "going env ys c" "loud_frames env [a] = []" "\<not> quiet env a"
  shows "going env (ys @ [a]) c"
  using assms by (simp add: going_def unbroken_def loud_ms_def span_ms_def)

lemma audible_kept:
  assumes "audible env acts c" "loud_frames env [a] = []" "\<not> quiet env a" "cl_last_audio c' = cl_last_audio c"
    "cl_started_at c' = cl_started_at c" "cl_audio_ms c' = cl_audio_ms c" "cl_wall_ms c' = cl_wall_ms c"
  shows "audible env (acts @ [a]) c'"
proof (cases "cl_last_audio c")
  case (Some l)
  with assms(1) obtain xs ys where g: "acts = xs @ ys" "going env ys c" by (auto simp: audible_def)
  have "going env (ys @ [a]) c'" using going_silent_act [OF g(2) assms(2,3)] assms(4-7) by (simp add: going_def)
  then show ?thesis unfolding audible_def using g(1) by (metis append.assoc)
qed (simp add: audible_def assms(4))

lemma hear_going:
  assumes "audible env acts c" "loud_frames env [a] = [(now, d)]" "\<not> quiet env a"
  shows "\<exists>xs ys. acts @ [a] = xs @ ys \<and> ys \<noteq> [] \<and> going env ys (hear now d c)"
proof (cases "case cl_last_audio c of None \<Rightarrow> True | Some l \<Rightarrow> now - l > 1 / 4")
  case True
  then have "going env [a] (hear now d c)"
    using assms(2,3) by (simp add: going_def hear_def Let_def unbroken_def loud_ms_def span_ms_def)
  then show ?thesis by blast
next
  case False
  then obtain l where l: "cl_last_audio c = Some l" "\<not> now - l > 1 / 4" by (auto split: option.splits)
  with assms(1) obtain xs ys where g: "acts = xs @ ys" "going env ys c" by (auto simp: audible_def)
  then have f: "loud_frames env ys \<noteq> []" "l = fst (last (loud_frames env ys))" using l by (simp_all add: going_def unbroken_def)
  have "going env (ys @ [a]) (hear now d c)"
    using g(2) l f assms(2,3)
    by (simp add: going_def hear_def Let_def unbroken_def loud_ms_def span_ms_def successively_append_iff)
  with g(1) show ?thesis by (intro exI [of _ xs] exI [of _ "ys @ [a]"]) simp
qed

subsection \<open>What is known of the open question\<close>

definition words_of :: "barge_env \<Rightarrow> classifier \<Rightarrow> pystr \<Rightarrow> bool" where
  "words_of env c t \<longleftrightarrow> (let n = normalize_words env t in cl_has_text c = (n \<noteq> []) \<and> cl_is_weak c = pure_ack n (bg_weak env) \<and>
     cl_is_strong c = list_ex (\<lambda>w. py_in w n) (bg_strong env @ bg_upgrade env) \<and> cl_meaningful c = (2 \<le> length n))"

definition latest_words :: "barge_env \<Rightarrow> pystr \<Rightarrow> speech list \<Rightarrow> classifier \<Rightarrow> bool" where
  "latest_words env q after c \<longleftrightarrow>
     (\<exists>mid1 t f mid2. after = mid1 @ Sp_text (Some q) t f # mid2 \<and> no_text (Some q) mid2 \<and> words_of env c t)"

definition informed :: "barge_env \<Rightarrow> speech list \<Rightarrow> classifier \<Rightarrow> bool" where
  "informed env acts c \<longleftrightarrow> (\<forall>q. cl_question c = Some q \<longrightarrow> q \<noteq> [] \<longrightarrow> (\<exists>before t0 after.
     acts = before @ Sp_start (Some q) t0 # after \<and> cl_question (speech_run env before) \<noteq> Some q \<and> stays (Some q) after \<and>
     (0 < cl_speech_ms c \<longrightarrow> spoken env before q t0 after (cl_speech_ms c)) \<and>
     (cl_has_text c \<and> \<not> cl_resolved c \<longrightarrow> latest_words env q after c)))"

lemma informed_step:
  assumes "informed env acts c" "cl_question c' = cl_question c" "stays (cl_question c) [a]"
    and "\<And>q before t0 after. cl_question c = Some q \<Longrightarrow> q \<noteq> [] \<Longrightarrow> acts = before @ Sp_start (Some q) t0 # after \<Longrightarrow>
      0 < cl_speech_ms c \<longrightarrow> spoken env before q t0 after (cl_speech_ms c) \<Longrightarrow> 0 < cl_speech_ms c' \<Longrightarrow>
      spoken env before q t0 (after @ [a]) (cl_speech_ms c')"
    and "\<And>q after. cl_question c = Some q \<Longrightarrow> q \<noteq> [] \<Longrightarrow> cl_has_text c \<and> \<not> cl_resolved c \<longrightarrow> latest_words env q after c \<Longrightarrow>
      cl_has_text c' \<Longrightarrow> \<not> cl_resolved c' \<Longrightarrow> latest_words env q (after @ [a]) c'"
  shows "informed env (acts @ [a]) c'"
  unfolding informed_def
proof (intro allI impI)
  fix q assume q: "cl_question c' = Some q" "q \<noteq> []"
  with assms(1,2) obtain before t0 after where i: "acts = before @ Sp_start (Some q) t0 # after"
    "cl_question (speech_run env before) \<noteq> Some q" "stays (Some q) after"
    "0 < cl_speech_ms c \<longrightarrow> spoken env before q t0 after (cl_speech_ms c)"
    "cl_has_text c \<and> \<not> cl_resolved c \<longrightarrow> latest_words env q after c"
    unfolding informed_def by metis
  have c: "cl_question c = Some q" using q assms(2) by simp
  show "\<exists>before t0 after. acts @ [a] = before @ Sp_start (Some q) t0 # after \<and> cl_question (speech_run env before) \<noteq> Some q \<and>
      stays (Some q) after \<and> (0 < cl_speech_ms c' \<longrightarrow> spoken env before q t0 after (cl_speech_ms c')) \<and>
      (cl_has_text c' \<and> \<not> cl_resolved c' \<longrightarrow> latest_words env q after c')"
    by (rule exI [of _ before], rule exI [of _ t0], rule exI [of _ "after @ [a]"])
      (use i c assms(3) assms(4) [OF c q(2) i(1,4)] assms(5) [OF c q(2) i(5)] in simp)
qed

lemma latest_words_later:
  assumes "latest_words env q after c" "no_text (Some q) [a]" "words_of env c' = words_of env c"
  shows "latest_words env q (after @ [a]) c'"
proof -
  from assms(1) obtain mid1 t f mid2 where "after = mid1 @ Sp_text (Some q) t f # mid2" "no_text (Some q) mid2" "words_of env c t"
    unfolding latest_words_def by blast
  then show ?thesis unfolding latest_words_def using assms(2,3)
    by (intro exI [of _ mid1] exI [of _ t] exI [of _ f] exI [of _ "mid2 @ [a]"]) simp
qed

lemma informed_kept:
  assumes "informed env acts c" "cl_question c' = cl_question c" "stays (cl_question c) [a]" "cl_speech_ms c' = cl_speech_ms c"
    "words_of env c' = words_of env c" "cl_has_text c' = cl_has_text c" "cl_resolved c' = cl_resolved c"
    "cl_resolved c \<or> no_text (cl_question c) [a] \<or> \<not> opt_truthy (cl_question c)"
  shows "informed env (acts @ [a]) c'"
  by (rule informed_step [OF assms(1-3)])
    (use assms(4-) spoken_later latest_words_later in \<open>auto simp: opt_truthy_def\<close>)

text \<open>Every operation keeps both.\<close>

lemma started_informed:
  assumes "informed env acts c" "audible env acts c" "c = speech_run env acts"
  shows "informed env (acts @ [Sp_start q now]) (start_question q now c)"
proof (cases "q = cl_question c")
  case True
  then have e: "start_question q now c = c" by (simp add: start_question_def)
  show ?thesis unfolding e by (rule informed_kept [OF assms(1)]) (use True in \<open>simp_all add: stays_def no_text_def\<close>)
next
  case False
  define c1 where "c1 = start_question q now c"
  have c1: "cl_question c1 = q" "cl_speech_ms c1 = carried_ms now c" "\<not> cl_has_text c1"
    using False by (simp_all add: c1_def start_question_def)
  have "spoken env acts q' now [] (carried_ms now c)" if "0 < carried_ms now c" for q'
  proof -
    from that obtain t l where t: "now = Some t" "cl_last_audio c = Some l" "0 \<le> t - l" "t - l \<le> 1 / 4"
      "carried_ms now c = min (cl_audio_ms c) (cl_wall_ms c)"
      by (auto simp: carried_ms_def split: option.splits if_splits)
    with assms(2) obtain xs ys where "acts = xs @ ys" "going env ys c" by (auto simp: audible_def)
    then show ?thesis unfolding spoken_def using t by (intro exI [of _ xs] exI [of _ ys]) (simp add: going_def)
  qed
  then show ?thesis unfolding informed_def c1_def [symmetric] using c1 False assms(3)
    by (intro allI impI exI [of _ acts] exI [of _ now] exI [of _ "[]"]) (auto simp: stays_def)
qed

lemma heard_informed:
  assumes "informed env acts c" "audible env acts c" "a = Sp_audio pcm now" "loud_frames env [a] = [(now, d)]" "\<not> quiet env a"
  shows "informed env (acts @ [a]) (hear now d c)"
proof -
  define c1 where "c1 = hear now d c"
  have c1: "cl_question c1 = cl_question c" "words_of env c1 = words_of env c" "cl_has_text c1 = cl_has_text c"
    "cl_resolved c1 = cl_resolved c" "cl_speech_ms c1 = cl_speech_ms c \<or> cl_speech_ms c1 = min (cl_audio_ms c1) (cl_wall_ms c1)"
    by (auto simp: c1_def hear_def Let_def words_of_def fun_eq_iff max_def)
  obtain xs ys where g: "acts @ [a] = xs @ ys" "ys \<noteq> []" "going env ys c1"
    using hear_going [OF assms(2,4,5)] c1_def by blast
  have "spoken env before q t0 (after @ [a]) (min (cl_audio_ms c1) (cl_wall_ms c1))"
    if "acts = before @ Sp_start (Some q) t0 # after" for before q t0 after
    unfolding spoken_def using g that assms(4)
    by (intro exI [of _ xs] exI [of _ ys]) (auto simp: going_def intro: exI [of _ after])
  then show ?thesis unfolding c1_def [symmetric]
    by (intro informed_step [OF assms(1)])
      (use c1 assms(3) spoken_later latest_words_later in \<open>auto simp: stays_def no_text_def\<close>)
qed

lemma texted_informed:
  assumes "informed env acts c"
  shows "informed env (acts @ [Sp_text (cl_question c) t f]) (note_words env t c)"
proof -
  define c1 where "c1 = note_words env t c"
  have c1: "cl_question c1 = cl_question c" "cl_speech_ms c1 = cl_speech_ms c" "words_of env c1 t"
    by (simp_all add: c1_def note_words_def Let_def words_of_def)
  have "latest_words env q (after @ [Sp_text (Some q) t f]) c1" for q after
    unfolding latest_words_def using c1(3)
    by (intro exI [of _ after] exI [of _ t] exI [of _ f] exI [of _ "[]"]) (simp add: no_text_def)
  then show ?thesis unfolding c1_def [symmetric]
    by (intro informed_step [OF assms]) (use c1 spoken_later in \<open>auto simp: stays_def\<close>)
qed

lemma noted_known:
  assumes "informed env acts c" "audible env acts c" "c = speech_run env acts"
  shows "informed env (acts @ [a]) (noted env a c) \<and> audible env (acts @ [a]) (noted env a c)"
proof (cases a)
  case (Sp_start q now)
  have "audible env (acts @ [a]) (start_question q now c)"
    by (rule audible_kept [OF assms(2)]) (use Sp_start in \<open>simp_all add: start_question_def\<close>)
  then show ?thesis using started_informed [OF assms] Sp_start by simp
next
  case (Sp_audio pcm now)
  have keep: "stays (cl_question c) [a]" "no_text (cl_question c) [a]" using Sp_audio by (simp_all add: stays_def no_text_def)
  consider (bad) x where "samples16 pcm = Inl x" | (quiet) xs where "samples16 pcm = Inr xs" "bg_rms env xs < bg_threshold env"
    | (loud) xs where "samples16 pcm = Inr xs" "\<not> bg_rms env xs < bg_threshold env"
    by (cases "samples16 pcm") auto
  then show ?thesis
  proof cases
    case bad
    then show ?thesis using Sp_audio informed_kept [OF assms(1), of c a] audible_kept [OF assms(2), of a c] keep by simp
  next
    case quiet
    define c1 where "c1 = c\<lparr>cl_started_at := None, cl_last_audio := None, cl_audio_ms := 0, cl_wall_ms := 0\<rparr>"
    have "informed env (acts @ [a]) c1"
      by (rule informed_kept [OF assms(1)]) (use keep in \<open>simp_all add: c1_def words_of_def fun_eq_iff\<close>)
    moreover have "audible env (acts @ [a]) c1" by (simp add: audible_def c1_def)
    ultimately show ?thesis using Sp_audio quiet by (simp add: c1_def)
  next
    case loud
    then have l: "loud_frames env [a] = [(now, of_nat (length xs) / 16)]" "\<not> quiet env a" using Sp_audio by simp_all
    have "audible env (acts @ [a]) (hear now (of_nat (length xs) / 16) c)"
      using hear_going [OF assms(2) l] by (auto simp: audible_def)
    then show ?thesis using heard_informed [OF assms(1,2) Sp_audio l] Sp_audio loud by simp
  qed
next
  case (Sp_text q t f)
  have au: "audible env (acts @ [a]) c'" if "cl_last_audio c' = cl_last_audio c" "cl_started_at c' = cl_started_at c"
      "cl_audio_ms c' = cl_audio_ms c" "cl_wall_ms c' = cl_wall_ms c" for c'
    by (rule audible_kept [OF assms(2)]) (use Sp_text that in simp_all)
  show ?thesis
  proof (cases "\<not> opt_truthy (cl_question c) \<or> q \<noteq> cl_question c \<or> cl_resolved c")
    case True
    then have "informed env (acts @ [a]) c"
      by (intro informed_kept [OF assms(1)]) (use Sp_text in \<open>auto simp: stays_def no_text_def\<close>)
    then show ?thesis using au [of c] Sp_text True by auto
  next
    case False
    then show ?thesis using texted_informed [OF assms(1), of t f] au [of "note_words env t c"] Sp_text
      by (auto simp: note_words_def Let_def)
  qed
qed

lemma marked_known:
  assumes "marked c c'" "informed env acts c" "audible env acts c"
  shows "informed env acts c' \<and> audible env acts c'"
proof -
  from assms(1) obtain r k where c': "c' = c\<lparr>cl_resolved := r, cl_candidate_seen := k\<rparr>" "cl_resolved c \<longrightarrow> r"
    unfolding marked_def by blast
  have w: "latest_words env q after c' = latest_words env q after c" for q after
    by (simp add: latest_words_def words_of_def c'(1))
  have "audible env acts c'" using assms(3) by (simp add: audible_def going_def c'(1))
  moreover have "informed env acts c'" using assms(2) c'(2) unfolding informed_def w by (fastforce simp: c'(1))
  ultimately show ?thesis by blast
qed

lemma speech_run_snoc:
  "speech_run env (acts @ [a]) = fst (snd (speech_step env a (fold (\<lambda>a s. snd (speech_step env a s)) acts (new_classifier, no_observations))))"
  by (simp add: speech_run_def)

lemma run_known: "informed env acts (speech_run env acts) \<and> audible env acts (speech_run env acts)"
proof (induction acts rule: rev_induct)
  case Nil
  show ?case by (simp add: informed_def audible_def speech_run_def new_classifier_def)
next
  case (snoc a acts)
  define s where "s = fold (\<lambda>a s. snd (speech_step env a s)) acts (new_classifier, no_observations)"
  have c: "fst s = speech_run env acts" by (simp add: s_def speech_run_def)
  have "marked (noted env a (speech_run env acts)) (speech_run env (acts @ [a]))"
    using speech_step_marked [of env a "fst s" "snd s"] by (simp add: speech_run_snoc s_def [symmetric] c [symmetric])
  then show ?case using noted_known [of env acts "speech_run env acts" a] snoc marked_known by blast
qed

text \<open>Once a question is decided, only another question opens a new decision.\<close>

lemma resolved_step:
  assumes "cl_resolved (fst s)" "stays (cl_question (fst s)) [a]"
  shows "fst (speech_step env a s) = None \<and> cl_resolved (fst (snd (speech_step env a s))) \<and>
    cl_question (fst (snd (speech_step env a s))) = cl_question (fst s)"
proof -
  obtain c b where s: "s = (c, b)" by (cases s)
  have n: "cl_resolved (noted env a c)" "cl_question (noted env a c) = cl_question c"
    using assms s by (cases a; auto simp: start_question_def stays_def hear_def Let_def split: sum.split)+
  have m: "marked (noted env a c) (fst (snd (speech_step env a (c, b))))" by (rule speech_step_marked)
  have "fst (speech_step env a (c, b)) = None"
  proof (cases "fst (speech_step env a (c, b))")
    case (Some v)
    then obtain c' b' where "speech_step env a (c, b) = (Some v, c', b')" by (metis prod.collapse)
    with speech_step_verdict decide_verdict n(1) show ?thesis by blast
  qed
  with m n show ?thesis by (auto simp: s marked_def)
qed

lemma resolved_run:
  assumes "cl_resolved (fst s)" "stays (cl_question (fst s)) (xs @ [a])"
  shows "fst (speech_step env a (fold (\<lambda>a s. snd (speech_step env a s)) xs s)) = None"
  using assms
proof (induction xs arbitrary: s)
  case (Cons x xs)
  from resolved_step [OF Cons.prems(1), of x env] Cons.prems Cons.IH [of "snd (speech_step env x s)"] show ?case
    by (simp add: stays_def)
qed (simp add: resolved_step)

text \<open>A text that comes last is the latest.\<close>

lemma last_text_latest:
  assumes "acts @ [a] = before @ b # mid1 @ Sp_text (Some q) t f # mid2" "no_text (Some q) mid2" "a = Sp_text (Some q) u True"
  shows "a = Sp_text (Some q) t True"
proof -
  have "last (acts @ [a]) = last (Sp_text (Some q) t f # mid2)" unfolding assms(1) by simp
  then show ?thesis using assms(2,3) by (cases mid2 rule: rev_cases) (simp_all add: no_text_def)
qed

text \<open>C15: Sound alone never decides. Whatever audio, texts and question starts come in whatever order, a verdict is given
  only for the open question, on what was said since it was started in place of another: its latest recognised text has
  words left after the blanks and the punctuation are removed, and there is unbroken loud speech (no frame below the
  threshold, no gap of more than a quarter second) that reaches the candidate time by its samples and by the clock
  (within a microsecond) and ends with a frame of the question, or was still going when the question started. An
  interruption needs a strong or upgrading word in that text, or two characters of a text that is not a mere
  acknowledgement and is either the final one, just received, or backed by 250 milliseconds of that speech; a
  backchannel needs a final mere acknowledgement just received. After it the question is decided: no second verdict
  comes until another question starts. The settings keep the candidate time at 180 milliseconds or more.
\<close>

theorem verdict_needs_speech_and_words:
  assumes "speech_step env act (fold (\<lambda>a s. snd (speech_step env a s)) acts (new_classifier, no_observations)) = (Some v, s')"
    and "1 / 1000 < bg_candidate_ms env"
  shows "(\<exists>before q t0 after mid1 t f mid2 ms.
      acts @ [act] = before @ Sp_start (Some q) t0 # after \<and> cl_question (speech_run env before) \<noteq> Some q \<and>
      stays (Some q) after \<and> cl_question (fst s') = Some q \<and> q \<noteq> [] \<and>
      spoken env before q t0 after ms \<and> bg_candidate_ms env \<le> ms + 1 / 1000 \<and>
      after = mid1 @ Sp_text (Some q) t f # mid2 \<and> no_text (Some q) mid2 \<and> normalize_words env t \<noteq> [] \<and>
      (v = Barge_in \<longrightarrow> list_ex (\<lambda>w. py_in w (normalize_words env t)) (bg_strong env @ bg_upgrade env) \<or>
         \<not> pure_ack (normalize_words env t) (bg_weak env) \<and> 2 \<le> length (normalize_words env t) \<and>
           (act = Sp_text (Some q) t True \<or> 250 \<le> ms)) \<and>
      (v = Backchannel \<longrightarrow> pure_ack (normalize_words env t) (bg_weak env) \<and> act = Sp_text (Some q) t True)) \<and>
    (\<forall>later a. stays (cl_question (fst s')) (later @ [a]) \<longrightarrow>
       fst (speech_step env a (fold (\<lambda>a s. snd (speech_step env a s)) later s')) = None)"
proof -
  define s where "s = fold (\<lambda>a s. snd (speech_step env a s)) acts (new_classifier, no_observations)"
  obtain c b where s: "s = (c, b)" by (cases s)
  obtain c' b' where s': "s' = (c', b')" by (cases s')
  have c: "c = speech_run env acts" using s by (simp add: speech_run_def s_def)
  have run: "informed env acts c" "audible env acts c" using run_known c by simp_all
  define c1 where "c1 = noted env act c"
  obtain g b1 where d: "decide env g (c1, b1) = (Some v, c', b')" "g \<longrightarrow> (\<exists>t. act = Sp_text (cl_question c) t True)"
    using speech_step_verdict assms(1) by (metis s_def s s' c1_def)
  note D = decide_verdict [OF d(1)]
  have K: "informed env (acts @ [act]) c1" using noted_known [OF run c] by (simp add: c1_def)
  from D obtain q where q: "cl_question c1 = Some q" "q \<noteq> []" by (auto simp: opt_truthy_def split: option.splits)
  have sp: "0 < cl_speech_ms c1" using D assms(2) by linarith
  from K q sp D obtain before t0 after where i: "acts @ [act] = before @ Sp_start (Some q) t0 # after"
    "cl_question (speech_run env before) \<noteq> Some q" "stays (Some q) after"
    "spoken env before q t0 after (cl_speech_ms c1)" "latest_words env q after c1"
    unfolding informed_def by metis
  from i(5) obtain mid1 t f mid2 where w: "after = mid1 @ Sp_text (Some q) t f # mid2" "no_text (Some q) mid2" "words_of env c1 t"
    unfolding latest_words_def by blast
  have n: "cl_has_text c1 = (normalize_words env t \<noteq> [])" "cl_is_weak c1 = pure_ack (normalize_words env t) (bg_weak env)"
    "cl_is_strong c1 = list_ex (\<lambda>w. py_in w (normalize_words env t)) (bg_strong env @ bg_upgrade env)"
    "cl_meaningful c1 = (2 \<le> length (normalize_words env t))"
    using w(3) unfolding words_of_def Let_def by blast+
  have fin: "act = Sp_text (Some q) t True" if g
  proof -
    from d(2) that obtain u where u: "act = Sp_text (cl_question c) u True" by blast
    then have "cl_question c1 = cl_question c" by (simp add: c1_def note_words_def Let_def)
    then have a: "act = Sp_text (Some q) u True" using u q(1) by simp
    from i(1) show ?thesis unfolding w(1) by (rule last_text_latest [OF _ w(2) a])
  qed
  have q': "cl_question (fst s') = Some q" using D q(1) s' by (auto simp: marked_def)
  have "fst (speech_step env a (fold (\<lambda>a s. snd (speech_step env a s)) later s')) = None"
    if "stays (cl_question (fst s')) (later @ [a])" for later a
    by (rule resolved_run) (use D s' that in simp_all)
  moreover have "v = Barge_in \<longrightarrow> list_ex (\<lambda>w. py_in w (normalize_words env t)) (bg_strong env @ bg_upgrade env) \<or>
      \<not> pure_ack (normalize_words env t) (bg_weak env) \<and> 2 \<le> length (normalize_words env t) \<and>
        (act = Sp_text (Some q) t True \<or> 250 \<le> cl_speech_ms c1)"
    "v = Backchannel \<longrightarrow> pure_ack (normalize_words env t) (bg_weak env) \<and> act = Sp_text (Some q) t True"
    "normalize_words env t \<noteq> []" "bg_candidate_ms env \<le> cl_speech_ms c1 + 1 / 1000"
    using D n fin by blast+
  ultimately show ?thesis using i(1-4) q(2) q' w(1,2) by blast
qed

definition demo_barge :: barge_env where
  "demo_barge = \<lparr>bg_rms = (\<lambda>_. 1), bg_punctuation = (\<lambda>_. False), bg_threshold = 0, bg_candidate_ms = 1, bg_weak = [],
     bg_strong = [[20572]], bg_upgrade = []\<rparr>"

definition demo_speech :: "speech list" where
  "demo_speech = [Sp_start (Some [113]) None, Sp_audio (replicate 32 0) 0]"

lemma demo_verdict:
  "\<exists>c' b'. speech_step demo_barge (Sp_text (Some [113]) [20572] False)
     (fold (\<lambda>a s. snd (speech_step demo_barge a s)) demo_speech (new_classifier, no_observations)) = (Some Barge_in, c', b') \<and>
     cl_question c' = Some [113]"
proof -
  have s: "\<exists>xs. samples16 (replicate 32 0) = Inr xs \<and> length xs = 16" by (simp add: numeral_eq_Suc)
  have n: "normalize_words demo_barge [20572] = [20572]"
    by (simp add: normalize_words_def py_strip_def py_space_def demo_barge_def)
  define c1 where "c1 = start_question (Some [113]) None new_classifier"
  have q: "cl_question c1 = Some [113]" "\<not> cl_resolved c1" "cl_speech_ms c1 = 0" "cl_last_audio c1 = None" "\<not> cl_has_text c1"
    by (simp_all add: c1_def start_question_def new_classifier_def carried_ms_def)
  define c2 where "c2 = hear 0 1 c1"
  have c2: "cl_question c2 = Some [113]" "\<not> cl_resolved c2" "cl_speech_ms c2 = 1" "\<not> cl_has_text c2"
    using q by (simp_all add: c2_def hear_def Let_def opt_truthy_def)
  have f: "fold (\<lambda>a s. snd (speech_step demo_barge a s)) demo_speech (new_classifier, no_observations) = (c2, no_observations)"
    using s c2 by (auto simp: demo_speech_def c1_def [symmetric] classify_audio_def demo_barge_def c2_def [symmetric] decide_def)
  define c3 where "c3 = note_words demo_barge [20572] c2"
  have "cl_question c3 = Some [113]" "\<not> cl_resolved c3" "cl_speech_ms c3 = 1" "cl_has_text c3" "cl_is_strong c3"
    using c2 n by (simp_all add: c3_def note_words_def Let_def demo_barge_def)
  moreover have "bg_candidate_ms demo_barge = 1" by (simp add: demo_barge_def)
  ultimately show ?thesis
    using c2 by (simp add: f classify_text_def c3_def [symmetric] decide_def opt_truthy_def Let_def)
qed

theorem verdict_needs_speech_and_words_witness:
  "\<exists>s' before t0 after ms mid1 f mid2. speech_step demo_barge (Sp_text (Some [113]) [20572] False)
       (fold (\<lambda>a s. snd (speech_step demo_barge a s)) demo_speech (new_classifier, no_observations)) = (Some Barge_in, s') \<and>
     demo_speech @ [Sp_text (Some [113]) [20572] False] = before @ Sp_start (Some [113]) t0 # after \<and>
     spoken demo_barge before [113] t0 after ms \<and> bg_candidate_ms demo_barge \<le> ms + 1 / 1000 \<and>
     after = mid1 @ Sp_text (Some [113]) [20572] f # mid2 \<and>
     fst (speech_step demo_barge (Sp_text (Some [113]) [20572, 20572] True) s') = None"
proof -
  obtain c' b' where v: "speech_step demo_barge (Sp_text (Some [113]) [20572] False)
     (fold (\<lambda>a s. snd (speech_step demo_barge a s)) demo_speech (new_classifier, no_observations)) = (Some Barge_in, c', b')"
    and q: "cl_question c' = Some [113]"
    using demo_verdict by blast
  have m: "1 / 1000 < bg_candidate_ms demo_barge" by (simp add: demo_barge_def)
  note W = verdict_needs_speech_and_words [OF v m]
  from W obtain before t0 after mid1 t f mid2 ms where i:
    "demo_speech @ [Sp_text (Some [113]) [20572] False] = before @ Sp_start (Some [113]) t0 # after"
    "spoken demo_barge before [113] t0 after ms" "bg_candidate_ms demo_barge \<le> ms + 1 / 1000"
    "after = mid1 @ Sp_text (Some [113]) t f # mid2"
    using q by auto
  have "Sp_text (Some [113]) t f \<in> set (demo_speech @ [Sp_text (Some [113]) [20572] False])" unfolding i(1,4) by simp
  then have t: "t = [20572]" by (simp add: demo_speech_def)
  have "stays (cl_question (fst (c', b'))) ([] @ [a]) \<Longrightarrow>
      fst (speech_step demo_barge a (fold (\<lambda>a s. snd (speech_step demo_barge a s)) [] (c', b'))) = None" for a using W by blast
  from this [of "Sp_text (Some [113]) [20572, 20572] True"]
  have "fst (speech_step demo_barge (Sp_text (Some [113]) [20572, 20572] True) (c', b')) = None" by (simp add: stays_def)
  with v i t show ?thesis by blast
qed

section \<open>The controller\<close>

text \<open>The steps between the awaits, with whatever the adapter is at that moment.\<close>

datatype barge_action =
    BA_begin rat pystr
  | BA_sent "unit res"
  | BA_answered pystr "string res"
  | BA_stopped rat datetime adapter pystr int
  | BA_truncated datetime adapter pystr "string res"
  | BA_confirm datetime adapter turn_event
  | BA_finish datetime adapter

fun barge_apply :: "provider_env \<Rightarrow> barge_action \<Rightarrow> interruptions \<Rightarrow> interruptions" where
  "barge_apply env (BA_begin clk r) s = snd (begin_upgrade clk r s)"
| "barge_apply env (BA_sent x) s = stop_sent x s"
| "barge_apply env (BA_answered r x) s = interrupt_answered r x s"
| "barge_apply env (BA_stopped clk now ad r played) s = snd (begin_stopped env clk now ad r played s)"
| "barge_apply env (BA_truncated now ad r x) s = snd (end_stopped env now ad r x s)"
| "barge_apply env (BA_confirm now ad e) s = snd (confirm env now ad e s)"
| "barge_apply env (BA_finish now ad) s = snd (finish_observations env now ad s)"

definition no_interruptions :: interruptions where
  "no_interruptions = \<lparr>it_requests = [], it_obs = no_observations\<rparr>"

text \<open>The fields of a request that a confirmation rests on.\<close>

definition rq_key :: "request \<Rightarrow> int option \<times> pystr option \<times> string option \<times> bool" where
  "rq_key q = (rq_played q, rq_item q, rq_session q, rq_confirmed q)"

lemma find_put [simp]: "find_request r (put_request r' q s) = (if r = r' then Some q else find_request r s)"
  by (simp add: find_request_def put_request_def update_conv')

lemma find_obs [simp]:
  "find_request r (observe n d s) = find_request r s" "find_request r (s\<lparr>it_obs := b\<rparr>) = find_request r s"
  by (simp_all add: find_request_def observe_def)

definition keeps_key :: "interruptions \<Rightarrow> interruptions \<Rightarrow> bool" where
  "keeps_key s s' \<longleftrightarrow> (\<forall>r. map_option rq_key (find_request r s') = map_option rq_key (find_request r s))"

lemma truncate_outcome_key:
  assumes "find_request r s = Some q0" "rq_key q0 = rq_key q"
  shows "keeps_key s (snd (truncate_outcome env now ad r q res s))"
  using assms by (auto simp: truncate_outcome_def Let_def keeps_key_def rq_key_def split: sum.split)

text \<open>How one step changes what is known of a request.\<close>

definition key_change :: "provider_env \<Rightarrow> barge_action \<Rightarrow> pystr \<Rightarrow> request \<Rightarrow> int option \<times> pystr option \<times> string option \<times> bool \<Rightarrow> bool" where
  "key_change env a r q k \<longleftrightarrow> k = rq_key q \<or> k = (rq_played q, rq_item q, rq_session q, False) \<or>
     (\<exists>clk now ad p. a = BA_stopped clk now ad r p \<and> rq_played q = None \<and>
        (k = (Some p, rq_item q, rq_session q, rq_confirmed q) \<or>
         (\<exists>i. reply_context_item r ad = Some i \<and> can_truncate env now ad = Inr True \<and>
            k = (Some p, Some i, Some (ad_session_id ad), rq_confirmed q)))) \<or>
     (\<exists>now ad e. a = BA_confirm now ad e \<and> pe_kind e = ''context_truncated'' \<and> event_matches e q \<and>
        can_truncate env now ad = Inr True \<and> k = (rq_played q, rq_item q, rq_session q, True))"

definition key_step :: "provider_env \<Rightarrow> barge_action \<Rightarrow> interruptions \<Rightarrow> interruptions \<Rightarrow> bool" where
  "key_step env a s s' \<longleftrightarrow> (\<forall>r q'. find_request r s' = Some q' \<longrightarrow>
     (find_request r s = None \<and> rq_key q' = (None, None, None, False)) \<or>
     (\<exists>q. find_request r s = Some q \<and> key_change env a r q (rq_key q')))"

lemma key_change_same [simp]: "key_change env a r q (rq_key q)"
  by (simp add: key_change_def)

lemma keeps_find: "keeps_key s s' \<Longrightarrow> find_request r s' = Some q' \<Longrightarrow> \<exists>q. find_request r s = Some q \<and> rq_key q' = rq_key q"
  unfolding keeps_key_def by (metis map_option_eq_Some)

lemma keeps_refl [simp]: "keeps_key s s" "keeps_key s (observe n d s)" "keeps_key s (s\<lparr>it_obs := b\<rparr>)"
  by (simp_all add: keeps_key_def)

lemma keeps_trans: "keeps_key s s' \<Longrightarrow> keeps_key s' s'' \<Longrightarrow> keeps_key s s''"
  by (simp add: keeps_key_def)

lemma keeps_put: "find_request r s = Some q0 \<Longrightarrow> rq_key q = rq_key q0 \<Longrightarrow> keeps_key s (put_request r q s)"
  by (simp add: keeps_key_def)

lemma step_then_keeps:
  assumes "key_step env a s s1" "keeps_key s1 s2"
  shows "key_step env a s s2"
  unfolding key_step_def
proof (intro allI impI)
  fix r q' assume "find_request r s2 = Some q'"
  with keeps_find [OF assms(2)] obtain q1 where q1: "find_request r s1 = Some q1" "rq_key q' = rq_key q1" by blast
  show "find_request r s = None \<and> rq_key q' = (None, None, None, False) \<or>
     (\<exists>q. find_request r s = Some q \<and> key_change env a r q (rq_key q'))"
    using assms(1) q1(1) unfolding key_step_def q1(2) by blast
qed

lemma step_refl: "key_step env a s s"
  by (auto simp: key_step_def)

lemma keeps_step: "keeps_key s s' \<Longrightarrow> key_step env a s s'"
  using step_then_keeps [OF step_refl] .

lemma step_put:
  assumes "find_request r s = Some q" "key_change env a r q (rq_key q')"
  shows "key_step env a s (put_request r q' s)"
  using assms by (auto simp: key_step_def)

lemma begin_step: "key_step env (BA_begin clk r) s (snd (begin_upgrade clk r s))"
proof (cases "find_request r s = None \<and> length (it_requests s) < MAX_REQUESTS")
  case True
  then have "snd (begin_upgrade clk r s) = put_request r (new_request clk) s" by (simp add: begin_upgrade_def)
  moreover have "rq_key (new_request clk) = (None, None, None, False)" by (simp add: new_request_def rq_key_def)
  ultimately show ?thesis using True by (auto simp: key_step_def)
next
  case False
  then have "snd (begin_upgrade clk r s) = s" by (auto simp: begin_upgrade_def)
  then show ?thesis by (simp add: step_refl)
qed

lemma answered_step: "key_step env (BA_answered r x) s (interrupt_answered r x s)"
  by (auto simp: interrupt_answered_def rq_key_def intro!: keeps_step keeps_put split: option.split)

lemma not_measurable_keeps:
  assumes "find_request r s = Some q0" "rq_key q0 = rq_key q"
  shows "keeps_key s (snd (not_measurable env now ad r reason q s))"
proof -
  define s1 where "s1 = observe ''truncate'' [(''reason'', reason), (''result'', ''not_measurable'')] s"
  have "keeps_key s1 (snd (truncate_outcome env now ad r q ''unknown'' s1))"
    by (rule truncate_outcome_key [of r s1 q0 q]) (use assms in \<open>simp_all add: s1_def\<close>)
  moreover have "keeps_key s s1" by (simp add: s1_def)
  ultimately have "keeps_key s (snd (truncate_outcome env now ad r q ''unknown'' s1))" by (rule keeps_trans [rotated])
  then show ?thesis by (simp add: not_measurable_def s1_def)
qed

lemma note_ack_find: "find_request r (note_ack clk q s) = find_request r s"
  by (simp add: note_ack_def Let_def)

lemma note_ack_key: "keeps_key s (note_ack clk q s)"
  by (simp add: keeps_key_def note_ack_find)

lemma stopped_step: "key_step env (BA_stopped clk now ad r p) s (snd (begin_stopped env clk now ad r p s))"
proof (cases "find_request r s")
  case None
  then show ?thesis by (simp add: begin_stopped_def step_refl)
next
  case (Some q0)
  show ?thesis
  proof (cases "rq_played q0")
    case None
    define q where "q = q0\<lparr>rq_played := Some p, rq_mode := ''context_not_truncated''\<rparr>"
    define s2 where "s2 = note_ack clk q (put_request r q s)"
    have a: "key_step env (BA_stopped clk now ad r p) s (put_request r q s)"
      by (rule step_put [OF Some]) (use None in \<open>simp add: q_def rq_key_def key_change_def\<close>)
    have "keeps_key (put_request r q s) s2" by (simp add: s2_def note_ack_key)
    then have b: "key_step env (BA_stopped clk now ad r p) s s2"
      using a step_then_keeps by blast
    have f: "find_request r s2 = Some q" by (simp add: s2_def note_ack_find)
    have c: "key_step env (BA_stopped clk now ad r p) s (snd (not_measurable env now ad r reason q s2))" for reason
      by (rule step_then_keeps [OF b not_measurable_keeps [OF f refl]])
    have d: "key_step env (BA_stopped clk now ad r p) s (put_request r (q\<lparr>rq_item := Some i, rq_session := Some (ad_session_id ad),
        rq_mode := ''context_truncate_requested''\<rparr>) s2)"
      if "can_truncate env now ad = Inr True" "reply_context_item r ad = Some i" for i
    proof -
      have "key_change env (BA_stopped clk now ad r p) r q0 (rq_key (q\<lparr>rq_item := Some i, rq_session := Some (ad_session_id ad),
        rq_mode := ''context_truncate_requested''\<rparr>))"
        using None that by (simp add: key_change_def rq_key_def q_def)
      moreover have "find_request r' s2 = (if r' = r then Some q else find_request r' s)" for r' by (simp add: s2_def note_ack_find)
      ultimately show ?thesis using Some by (auto simp: key_step_def)
    qed
    show ?thesis
      using b c d by (auto simp: begin_stopped_def Some None Let_def q_def [symmetric] s2_def [symmetric]
          split: sum.split bool.split option.split)
  qed (simp add: begin_stopped_def Some step_refl)
qed

definition clear_confirmed :: "int option \<times> pystr option \<times> string option \<times> bool \<Rightarrow> int option \<times> pystr option \<times> string option \<times> bool" where
  "clear_confirmed k = (case k of (p, i, ses, _) \<Rightarrow> (p, i, ses, False))"

definition weakens :: "interruptions \<Rightarrow> interruptions \<Rightarrow> bool" where
  "weakens s s' \<longleftrightarrow> (\<forall>r q'. find_request r s' = Some q' \<longrightarrow>
     (\<exists>q. find_request r s = Some q \<and> (rq_key q' = rq_key q \<or> rq_key q' = clear_confirmed (rq_key q))))"

lemma weakens_step: "weakens s s' \<Longrightarrow> key_step env a s s'"
  unfolding weakens_def key_step_def key_change_def clear_confirmed_def
  by (metis (no_types, lifting) prod.case rq_key_def)

lemma keeps_weakens: "keeps_key s s' \<Longrightarrow> weakens s s'"
  unfolding weakens_def using keeps_find by blast

lemma weakens_trans:
  assumes "weakens s s1" "weakens s1 s2"
  shows "weakens s s2"
  unfolding weakens_def
proof (intro allI impI)
  fix r q2 assume "find_request r s2 = Some q2"
  with assms(2) obtain q1 where q1: "find_request r s1 = Some q1" "rq_key q2 = rq_key q1 \<or> rq_key q2 = clear_confirmed (rq_key q1)"
    unfolding weakens_def by blast
  from q1(1) assms(1) obtain q where q: "find_request r s = Some q" "rq_key q1 = rq_key q \<or> rq_key q1 = clear_confirmed (rq_key q)"
    unfolding weakens_def by blast
  have "clear_confirmed (clear_confirmed k) = clear_confirmed k" for k by (simp add: clear_confirmed_def split: prod.split)
  with q1(2) q show "\<exists>q. find_request r s = Some q \<and> (rq_key q2 = rq_key q \<or> rq_key q2 = clear_confirmed (rq_key q))" by metis
qed

lemma failed_weakens: "weakens s (snd (truncate_failed env now ad r s))"
proof (cases "find_request r s")
  case (Some q0)
  define q where "q = q0\<lparr>rq_mode := ''context_not_truncated'', rq_confirmed := False\<rparr>"
  define s1 where "s1 = observe ''truncate'' [(''reason'', ''request_failed''), (''result'', ''failure'')] (put_request r q s)"
  have "rq_key q = clear_confirmed (rq_key q0)" by (simp add: rq_key_def q_def clear_confirmed_def)
  then have "weakens s s1" using Some by (auto simp: weakens_def s1_def)
  moreover have "keeps_key s1 (snd (truncate_outcome env now ad r q ''failure'' s1))"
    by (rule truncate_outcome_key [of r s1 q q]) (simp_all add: s1_def)
  ultimately have "weakens s (snd (truncate_outcome env now ad r q ''failure'' s1))"
    using weakens_trans keeps_weakens by blast
  then show ?thesis by (simp add: truncate_failed_def Some Let_def q_def [symmetric] s1_def [symmetric])
qed (simp add: truncate_failed_def keeps_weakens)

lemma truncated_weakens: "weakens s (snd (end_stopped env now ad r x s))"
proof (cases "\<exists>mode q0. x = Inr mode \<and> find_request r s = Some q0")
  case True
  then obtain mode q0 where x: "x = Inr mode" and q0: "find_request r s = Some q0" by blast
  define q where "q = q0\<lparr>rq_mode := mode\<rparr>"
  define s1 where "s1 = observe ''truncate'' (if mode = ''context_truncate_requested'' then [(''reason'', ''request''), (''result'', ''requested'')]
                else [(''reason'', ''capability_unavailable''), (''result'', ''not_measurable'')]) (put_request r q s)"
  have k: "rq_key q = rq_key q0" by (simp add: q_def rq_key_def)
  have "keeps_key s (put_request r q s)" "keeps_key (put_request r q s) s1" using q0 k by (simp_all add: keeps_put s1_def)
  then have s1: "keeps_key s s1" by (rule keeps_trans)
  have "keeps_key s1 (snd (truncate_outcome env now ad r q ''unknown'' s1))"
    by (rule truncate_outcome_key [of r s1 q q]) (simp_all add: s1_def)
  then have o: "keeps_key s (snd (truncate_outcome env now ad r q ''unknown'' s1))" using s1 keeps_trans by blast
  have e: "end_stopped env now ad r x s = (if mode = ''context_truncate_requested'' then (Inr mode, s1)
      else case truncate_outcome env now ad r q ''unknown'' s1 of
        (Inl _, s2) \<Rightarrow> truncate_failed env now ad r s2 | (Inr _, s2) \<Rightarrow> (Inr mode, s2))"
    by (simp only: end_stopped_def x q0 prod.case sum.case option.case Let_def q_def s1_def)
  obtain y s2 where t: "truncate_outcome env now ad r q ''unknown'' s1 = (y, s2)" by fastforce
  have "weakens s s2" using o t keeps_weakens by simp
  then show ?thesis unfolding e t
    using weakens_trans [OF _ failed_weakens] keeps_weakens [OF s1] by (cases y) auto
next
  case False
  then have "end_stopped env now ad r x s = truncate_failed env now ad r s"
    by (auto simp: end_stopped_def split: sum.split option.split)
  then show ?thesis by (simp add: failed_weakens)
qed

lemma finish_keeps: 
  assumes "list_all (\<lambda>(r, q). map_option rq_key (find_request r s) = Some (rq_key q)) qs"
  shows "keeps_key s (snd (finish_each env now ad qs s))"
  using assms
proof (induction qs arbitrary: s)
  case (Cons rq qs)
  obtain r q0 where rq: "rq = (r, q0)" by (cases rq)
  obtain q1 where q1: "find_request r s = Some q1" "rq_key q1 = rq_key q0" using Cons.prems rq by auto
  have k: "keeps_key s (snd (finish_request env now ad r q0 s))"
  proof (cases "rq_finished q0")
    case False
    define q where "q = q0\<lparr>rq_finished := True\<rparr>"
    have qk: "rq_key q = rq_key q1" using q1 by (simp add: q_def rq_key_def)
    have a: "keeps_key s (put_request r q s)" using q1(1) qk by (rule keeps_put)
    have "keeps_key (put_request r q s) (snd (truncate_outcome env now ad r q res (put_request r q s)))" for res
      by (rule truncate_outcome_key [of r _ q q]) simp_all
    then have b: "keeps_key s (snd (truncate_outcome env now ad r q res (put_request r q s)))" for res using a keeps_trans by blast
    have c: "keeps_key s (observe n d s2)" if "keeps_key s s2" for n d s2 using keeps_trans [OF that keeps_refl(2)] .
    obtain y s2 where t: "truncate_outcome env now ad r q (if rq_confirmed q then ''success'' else ''unknown'') (put_request r q s) = (y, s2)" by fastforce
    have "keeps_key s s2" using b [of "if rq_confirmed q then ''success'' else ''unknown''"] t by simp
    then show ?thesis using False c t
      by (cases y) (simp_all add: finish_request_def Let_def q_def [symmetric])
  qed (simp add: finish_request_def)
  obtain y s1 where t: "finish_request env now ad r q0 s = (y, s1)" by fastforce
  have ks: "keeps_key s s1" using k t by simp
  then have "list_all (\<lambda>(r, q). map_option rq_key (find_request r s1) = Some (rq_key q)) qs"
    using Cons.prems rq unfolding keeps_key_def by simp
  from Cons.IH [OF this] ks show ?case by (cases y) (auto simp: rq t intro: keeps_trans)
qed simp

lemma confirm_step:
  assumes "list_all (\<lambda>(r, q). find_request r s = Some q) qs" "pe_kind e = ''context_truncated''"
  shows "key_step env (BA_confirm now ad e) s (snd (confirm_among env now ad e qs s))"
  using assms(1)
proof (induction qs)
  case (Cons rq qs)
  obtain r q where rq: "rq = (r, q)" by (cases rq)
  have f: "find_request r s = Some q" using Cons.prems rq by simp
  show ?case
  proof (cases "event_matches e q \<and> can_truncate env now ad = Inr True")
    case True
    define s1 where "s1 = (if rq_confirmed q then s else observe ''truncate'' [(''reason'', ''confirmed''), (''result'', ''success'')] s)"
    have k1: "keeps_key s s1" "find_request r s1 = Some q" using f by (simp_all add: s1_def)
    obtain y s2 where t: "truncate_outcome env now ad r q ''success'' s1 = (y, s2)" by fastforce
    have k2: "keeps_key s s2" using truncate_outcome_key [OF k1(2) refl, of env now ad "''success''"] k1(1) t keeps_trans by fastforce
    then obtain q2 where q2: "find_request r s2 = Some q2" "rq_key q2 = rq_key q"
      using f unfolding keeps_key_def by (metis map_option_eq_Some)
    have "key_step env (BA_confirm now ad e) s (put_request r (q2\<lparr>rq_confirmed := True\<rparr>) s2)"
      unfolding key_step_def
    proof (intro allI impI disjI2)
      fix r' q' assume q': "find_request r' (put_request r (q2\<lparr>rq_confirmed := True\<rparr>) s2) = Some q'"
      show "\<exists>q. find_request r' s = Some q \<and> key_change env (BA_confirm now ad e) r' q (rq_key q')"
      proof (cases "r' = r")
        case r: True
        have "rq_key q' = (rq_played q, rq_item q, rq_session q, True)" using q' q2(2) r by (auto simp: rq_key_def)
        then show ?thesis using f r True assms(2) by (auto simp: key_change_def)
      next
        case False
        with q' keeps_find [OF k2, of r' q'] show ?thesis by (auto simp: key_change_def)
      qed
    qed
    moreover have "key_step env (BA_confirm now ad e) s s2" using k2 by (rule keeps_step)
    ultimately show ?thesis using True t q2(1) by (cases y) (simp_all add: rq Let_def s1_def [symmetric])
  next
    case False
    then show ?thesis using Cons step_refl by (auto simp: rq split: sum.split bool.split)
  qed
qed (simp add: step_refl)

definition distinct_requests :: "interruptions \<Rightarrow> bool" where
  "distinct_requests s \<longleftrightarrow> distinct (map fst (it_requests s))"

lemma distinct_simps [simp]:
  "distinct_requests s \<Longrightarrow> distinct_requests (put_request r q s)" "distinct_requests (observe n d s) = distinct_requests s"
  "distinct_requests (s\<lparr>it_obs := b\<rparr>) = distinct_requests s"
  by (simp_all add: distinct_requests_def put_request_def observe_def distinct_update)

lemma outcome_distinct [simp]: "distinct_requests s \<Longrightarrow> distinct_requests (snd (truncate_outcome env now ad r q res s))"
  by (simp add: truncate_outcome_def Let_def split: sum.split)

lemma failed_distinct [simp]: "distinct_requests s \<Longrightarrow> distinct_requests (snd (truncate_failed env now ad r s))"
  by (simp add: truncate_failed_def Let_def split: option.split)

lemma ended_distinct: "distinct_requests s \<Longrightarrow> distinct_requests (snd (end_stopped env now ad r x s))"
  by (auto simp: end_stopped_def Let_def split_beta split: sum.split option.split)

lemma stopped_distinct: "distinct_requests s \<Longrightarrow> distinct_requests (snd (begin_stopped env clk now ad r p s))"
  by (simp add: begin_stopped_def not_measurable_def note_ack_def Let_def split: sum.split option.split bool.split)

lemma confirm_distinct: "distinct_requests s \<Longrightarrow> distinct_requests (snd (confirm_among env now ad e qs s))"
  by (induction qs) (auto simp: Let_def split_beta split: sum.split bool.split)

lemma finish_distinct: "distinct_requests s \<Longrightarrow> distinct_requests (snd (finish_each env now ad qs s))"
proof (induction qs arbitrary: s)
  case (Cons rq qs)
  obtain r q where rq: "rq = (r, q)" by (cases rq)
  have "distinct_requests (snd (finish_request env now ad r q s))"
    using Cons.prems by (auto simp: finish_request_def Let_def split_beta split: sum.split)
  with Cons.IH show ?case by (auto simp: rq split: sum.split prod.split)
qed simp

lemma apply_distinct: "distinct_requests s \<Longrightarrow> distinct_requests (barge_apply env a s)"
  by (cases a) (auto simp: begin_upgrade_def stop_sent_def interrupt_answered_def stopped_distinct ended_distinct confirm_def
      confirm_distinct finish_observations_def finish_distinct split: option.split)

lemma request_entries: "distinct_requests s \<Longrightarrow> list_all (\<lambda>(r, q). find_request r s = Some q) (it_requests s)"
  by (auto simp: distinct_requests_def find_request_def list_all_iff)

lemma apply_step:
  assumes "distinct_requests s"
  shows "key_step env a s (barge_apply env a s)"
proof (cases a)
  case (BA_confirm now ad e)
  then show ?thesis using confirm_step [OF request_entries [OF assms]] by (auto simp: confirm_def step_refl)
next
  case (BA_finish now ad)
  have "list_all (\<lambda>(r, q). map_option rq_key (find_request r s) = Some (rq_key q)) (it_requests s)"
    using request_entries [OF assms] by (auto simp: list_all_iff)
  then show ?thesis using BA_finish by (simp add: finish_observations_def keeps_step finish_keeps)
qed (simp_all add: begin_step answered_step stopped_step weakens_step truncated_weakens stop_sent_def keeps_step)

section \<open>What a confirmation rests on\<close>

text \<open>The client's stop that a request has noted, and the provider's event that confirmed one.\<close>

definition stop_of :: "provider_env \<Rightarrow> pystr \<Rightarrow> int \<Rightarrow> pystr \<Rightarrow> string \<Rightarrow> barge_action \<Rightarrow> bool" where
  "stop_of env r p i sid a \<longleftrightarrow> (case a of
     BA_stopped clk now ad r' p' \<Rightarrow> r' = r \<and> p' = p \<and> reply_context_item r ad = Some i \<and> ad_session_id ad = sid \<and>
       can_truncate env now ad = Inr True
   | _ \<Rightarrow> False)"

definition confirm_of :: "provider_env \<Rightarrow> int \<Rightarrow> pystr \<Rightarrow> string \<Rightarrow> barge_action \<Rightarrow> bool" where
  "confirm_of env p i sid a \<longleftrightarrow> (case a of
     BA_confirm now ad e \<Rightarrow> pe_kind e = ''context_truncated'' \<and> pe_session_id e = sid \<and> can_truncate env now ad = Inr True \<and>
       (case pe_payload e of Dict_payload d \<Rightarrow> jget d ''item_id'' = JStr i \<and> jget d ''audio_end_ms'' = JInt p | _ \<Rightarrow> False)
   | _ \<Rightarrow> False)"

definition genuine :: "provider_env \<Rightarrow> barge_action list \<Rightarrow> pystr \<Rightarrow> int option \<times> pystr option \<times> string option \<times> bool \<Rightarrow> bool" where
  "genuine env acts r k \<longleftrightarrow> (case k of (p, i, sid, c) \<Rightarrow>
     (p = None \<longrightarrow> sid = None) \<and> (c \<longrightarrow> sid \<noteq> None) \<and>
     (sid \<noteq> None \<longrightarrow> p \<noteq> None \<and> i \<noteq> None \<and> (\<exists>pre a post. acts = pre @ a # post \<and> stop_of env r (the p) (the i) (the sid) a \<and>
        (c \<longrightarrow> (\<exists>mid b rest. post = mid @ b # rest \<and> confirm_of env (the p) (the i) (the sid) b)))))"

lemma genuine_snoc: "genuine env acts r k \<Longrightarrow> genuine env (acts @ [a]) r k"
  by (cases k) (fastforce simp: genuine_def)

lemma genuine_clear: "genuine env acts r (p, i, sid, c) \<Longrightarrow> genuine env acts r (p, i, sid, False)"
  by (auto simp: genuine_def)

lemma genuine_stop:
  assumes "genuine env acts r (rq_key q)" "rq_played q = None" "reply_context_item r ad = Some i" "can_truncate env now ad = Inr True"
  shows "genuine env (acts @ [BA_stopped clk now ad r p]) r (Some p, Some i, Some (ad_session_id ad), rq_confirmed q)"
proof -
  have "\<not> rq_confirmed q" using assms(1,2) by (auto simp: genuine_def rq_key_def)
  moreover have "stop_of env r p i (ad_session_id ad) (BA_stopped clk now ad r p)" using assms(3,4) by (simp add: stop_of_def)
  ultimately show ?thesis by (auto simp: genuine_def)
qed

lemma genuine_confirm:
  assumes "genuine env acts r (rq_key q)" "event_matches e q" "pe_kind e = ''context_truncated''" "can_truncate env now ad = Inr True"
  shows "genuine env (acts @ [BA_confirm now ad e]) r (rq_played q, rq_item q, rq_session q, True)"
proof -
  have s: "rq_session q = Some (pe_session_id e)" using assms(2) by (simp add: event_matches_def)
  with assms(1) obtain p i pre a post where k: "rq_played q = Some p" "rq_item q = Some i" "acts = pre @ a # post"
    "stop_of env r p i (pe_session_id e) a"
    by (auto simp: genuine_def rq_key_def)
  have "confirm_of env p i (pe_session_id e) (BA_confirm now ad e)"
    using assms(2-4) k(1,2) by (auto simp: event_matches_def confirm_of_def split: ev_payload.splits json.splits)
  then have c: "\<exists>mid b rest. post @ [BA_confirm now ad e] = mid @ b # rest \<and> confirm_of env p i (pe_session_id e) b" by blast
  have "\<exists>pre a post'. acts @ [BA_confirm now ad e] = pre @ a # post' \<and> stop_of env r p i (pe_session_id e) a \<and>
      (\<exists>mid b rest. post' = mid @ b # rest \<and> confirm_of env p i (pe_session_id e) b)"
    by (rule exI [of _ pre], rule exI [of _ a], rule exI [of _ "post @ [BA_confirm now ad e]"]) (use k c in simp)
  then show ?thesis by (simp add: genuine_def k s)
qed

lemma genuine_change:
  assumes "genuine env acts r (rq_key q)" "key_change env a r q k"
  shows "genuine env (acts @ [a]) r k"
proof -
  note g = genuine_snoc [OF assms(1), of a]
  from assms(2) consider "k = rq_key q" | "k = (rq_played q, rq_item q, rq_session q, False)"
    | (stop) clk now ad p where "a = BA_stopped clk now ad r p" "rq_played q = None"
        "k = (Some p, rq_item q, rq_session q, rq_confirmed q) \<or>
         (\<exists>i. reply_context_item r ad = Some i \<and> can_truncate env now ad = Inr True \<and>
            k = (Some p, Some i, Some (ad_session_id ad), rq_confirmed q))"
    | (confirm) now ad e where "a = BA_confirm now ad e" "pe_kind e = ''context_truncated''" "event_matches e q"
        "can_truncate env now ad = Inr True" "k = (rq_played q, rq_item q, rq_session q, True)"
    unfolding key_change_def by blast
  then show ?thesis
  proof cases
    case 2
    then show ?thesis using g genuine_clear by (simp add: rq_key_def)
  next
    case stop
    have "genuine env (acts @ [a]) r (Some p, rq_item q, rq_session q, rq_confirmed q)"
      using assms(1) stop(2) by (auto simp: genuine_def rq_key_def)
    then show ?thesis using stop genuine_stop [OF assms(1) stop(2)] by auto
  next
    case confirm
    then show ?thesis using genuine_confirm [OF assms(1)] by simp
  qed (use g in simp)
qed

lemma run_genuine:
  "distinct_requests (fold (barge_apply env) acts no_interruptions) \<and>
   (\<forall>r q. find_request r (fold (barge_apply env) acts no_interruptions) = Some q \<longrightarrow> genuine env acts r (rq_key q))"
proof (induction acts rule: rev_induct)
  case Nil
  show ?case by (simp add: no_interruptions_def distinct_requests_def find_request_def)
next
  case (snoc a acts)
  define s where "s = fold (barge_apply env) acts no_interruptions"
  have d: "distinct_requests s" and g: "find_request r s = Some q \<Longrightarrow> genuine env acts r (rq_key q)" for r q
    using snoc by (simp_all add: s_def)
  have "genuine env (acts @ [a]) r (rq_key q')" if q': "find_request r (barge_apply env a s) = Some q'" for r q'
  proof -
    from apply_step [OF d, of env a] q' consider "rq_key q' = (None, None, None, False)"
      | q where "find_request r s = Some q" "key_change env a r q (rq_key q')"
      unfolding key_step_def by blast
    then show ?thesis
    proof cases
      case 2
      then show ?thesis using genuine_change [OF g] by blast
    qed (simp add: genuine_def)
  qed
  then show ?case using apply_distinct [OF d] by (simp add: s_def)
qed

text \<open>C16: A truncation of the provider's memory counts as confirmed only when it happened as asked. Whatever requests,
  answers, client reports, provider events and closings come in whatever order, with whatever adapter at each moment,
  a confirmed reply has a report of the client that it stopped after some milliseconds, at which the capability was
  enabled and the adapter knew the provider's item of the reply, and after it an event of the kind
  \<open>context_truncated\<close> of the same provider session, with exactly that item and those milliseconds, while the capability
  was enabled.
\<close>

theorem confirmed_truncation_genuine:
  assumes "confirmed r (fold (barge_apply env) acts no_interruptions)"
  shows "\<exists>pre clk now ad p i mid now' ad' e d post.
    acts = pre @ BA_stopped clk now ad r p # mid @ BA_confirm now' ad' e # post \<and>
    reply_context_item r ad = Some i \<and> capability_enabled env now ''supports_context_truncate'' ad = Inr True \<and>
    pe_kind e = ''context_truncated'' \<and> pe_session_id e = ad_session_id ad \<and> pe_payload e = Dict_payload d \<and>
    jget d ''item_id'' = JStr i \<and> jget d ''audio_end_ms'' = JInt p \<and>
    capability_enabled env now' ''supports_context_truncate'' ad' = Inr True"
proof -
  obtain q where q: "find_request r (fold (barge_apply env) acts no_interruptions) = Some q" "rq_confirmed q"
    using assms by (auto simp: confirmed_def split: option.splits)
  have "genuine env acts r (rq_key q)" using run_genuine q(1) by blast
  then obtain p i sid pre a mid b post where g: "acts = pre @ a # mid @ b # post" "stop_of env r p i sid a" "confirm_of env p i sid b"
    using q(2) by (auto simp: genuine_def rq_key_def)
  from g(2) obtain clk now ad where a: "a = BA_stopped clk now ad r p" "reply_context_item r ad = Some i" "ad_session_id ad = sid"
    "can_truncate env now ad = Inr True"
    by (cases a) (auto simp: stop_of_def)
  from g(3) obtain now' ad' e d where b: "b = BA_confirm now' ad' e" "pe_kind e = ''context_truncated''" "pe_session_id e = sid"
    "can_truncate env now' ad' = Inr True" "pe_payload e = Dict_payload d" "jget d ''item_id'' = JStr i" "jget d ''audio_end_ms'' = JInt p"
    by (cases b) (auto simp: confirm_of_def split: ev_payload.splits)
  show ?thesis using g(1) a b unfolding can_truncate_def by blast
qed

definition demo_provider :: provider_env where
  "demo_provider = \<lparr>pv_frames = \<lparr>fe_gzip = (\<lambda>b. b), fe_inflate = (\<lambda>b. None), fe_dumps = (\<lambda>_. []), fe_loads = (\<lambda>_. None),
     fe_utf8 = (\<lambda>_. []), fe_text = (\<lambda>b. None)\<rparr>, pv_sdk = asc ''w'', pv_iso = (\<lambda>_. Some (10, True)), pv_text = (\<lambda>_. []),
     pv_str = (\<lambda>_. []), pv_digest = (\<lambda>_. []), pv_status = (\<lambda>_. None)\<rparr>"

definition truncating :: adapter where
  "truncating = \<lparr>ad_call_id = ''c'', ad_config = JObj [],
     ad_capabilities = JObj [(''supports_context_truncate'', JObj [(''enabled'', JBool True), (''verification_status'', jtext ''verified''),
       (''last_test_result'', jtext ''passed''), (''effective_scope'', jtext ''all''), (''evidence_report_id'', jtext ''e''),
       (''evidence_fingerprint'', jtext ''f''), (''expires_at'', jtext ''x''), (''protocol_profile'', JStr PROTOCOL_PROFILE),
       (''adapter_version'', JStr ADAPTER_VERSION), (''sdk_version'', jtext ''w'')])],
     ad_purpose = ''call'', ad_diagnostic = None,
     ad_session_id = ''s'', ad_dialog_id = [], ad_wire = Some [], ad_secret = None, ad_ready = True, ad_events = [], ad_sequence = 0,
     ad_question = None, ad_reply = Some [114], ad_questions = [], ad_replies = [([105], [114])], ad_reply_questions = [], ad_text_started = [],
     ad_rag_questions = [], ad_rag_reply = [], ad_finished = [], ad_preserved = [], ad_seen = [], ad_vendor_sequence = [],
     ad_persona = [], ad_context = [], ad_usage = None, ad_generation = 0, ad_audio_reply = None, ad_starting = None,
     ad_greeting_session = None, ad_greeting_pending = False, ad_control_pending = None\<rparr>"

definition truncated_event :: turn_event where
  "truncated_event = \<lparr>pe_call_id = ''c'', pe_session_id = ''s'', pe_sequence = 9, pe_kind = ''context_truncated'', pe_question_id = None,
     pe_reply_id = None, pe_payload = Dict_payload (JObj [(''item_id'', JStr [105]), (''audio_end_ms'', JInt 700)]), te_confidence = JNull\<rparr>"

definition demo_actions :: "barge_action list" where
  "demo_actions = [BA_begin 0 [114], BA_stopped 1 5 truncating [114] 700, BA_confirm 6 truncating truncated_event]"

lemma truncating_can: "now < 10 \<Longrightarrow> can_truncate demo_provider now truncating = Inr True"
  by (simp add: can_truncate_def capability_enabled_def VOICE_CAPABILITY_KEYS_def truncating_def Let_def jget_def'_def
      dimensions_match_def unexpired_def jhas_def jkeys_def verified_evidence_def jtext_def jget_def demo_provider_def)

lemma truncating_item: "reply_context_item [114] truncating = Some [105]" "ad_session_id truncating = ''s''"
  by (simp_all add: reply_context_item_def truncating_def)

lemma demo_confirmed: "confirmed [114] (fold (barge_apply demo_provider) demo_actions no_interruptions)"
proof -
  define s1 where "s1 = snd (begin_upgrade 0 [114] no_interruptions)"
  have s1: "find_request [114] s1 = Some (new_request 0)" "it_requests s1 = [([114], new_request 0)]"
    by (simp_all add: s1_def begin_upgrade_def MAX_REQUESTS_def no_interruptions_def find_request_def put_request_def)
  define s2 where "s2 = snd (begin_stopped demo_provider 1 5 truncating [114] 700 s1)"
  define q where "q = (new_request 0)\<lparr>rq_played := Some 700, rq_mode := ''context_truncate_requested'', rq_item := Some [105], rq_session := Some ''s''\<rparr>"
  have s2: "it_requests s2 = [([114], q)]"
    using s1 by (simp add: s2_def begin_stopped_def new_request_def Let_def truncating_can truncating_item put_request_def
        note_ack_def observe_def q_def)
  have m: "event_matches truncated_event q"
    by (simp add: event_matches_def truncated_event_def q_def jget_def)
  define s3 where "s3 = snd (confirm demo_provider 6 truncating truncated_event s2)"
  have "find_request [114] (snd (truncate_outcome demo_provider 6 truncating [114] q ''success'' s)) = Some (q\<lparr>rq_outcome_observed := True\<rparr>)" for s
    by (simp add: truncate_outcome_def Let_def truncating_can) (simp add: q_def new_request_def)
  moreover have "fst (truncate_outcome demo_provider 6 truncating [114] q ''success'' s) = Inr ()" for s
    by (simp add: truncate_outcome_def Let_def truncating_can)
  ultimately have "confirmed [114] s3"
    using m by (simp add: s3_def confirm_def s2 truncating_can split_beta confirmed_def Let_def) (simp add: truncated_event_def)
  then show ?thesis by (simp add: demo_actions_def s1_def s2_def s3_def)
qed

theorem confirmed_truncation_genuine_witness:
  "\<exists>pre clk now ad p i mid now' ad' e post.
    demo_actions = pre @ BA_stopped clk now ad [114] p # mid @ BA_confirm now' ad' e # post \<and>
    reply_context_item [114] ad = Some i \<and> pe_session_id e = ad_session_id ad"
  using confirmed_truncation_genuine [OF demo_confirmed] by blast

end
