(* ===== verification/Spec2Isabelle.thy ===== *)
theory Spec2Isabelle
  imports CallState Decision Reconnect Playback Seed MemoryRun TurnClaims Ending DispatchClaims RuntimeClaims CreateClaims EndCallClaims ProviderClaims SummaryClaims BargeInClaims
begin

text \<open>
  A model of the realtime voice calls of the lxm companion backend (\<open>src/backend\<close>), translated from its Python
  sources, with the properties that make the parts correct.

  \<^bold>\<open>What the program does.\<close> A user and the companion call each other. A call row goes through a table of states
  (\<open>realtime_voice_state_service.py\<close>); whether and how long it rings is decided by \<open>realtime_voice_decision_service.py\<close>;
  single-use tickets let the browser attach (\<open>realtime_voice_ticket_service.py\<close>), leases in Redis bound how many
  calls run and say which process owns one (\<open>realtime_voice_lease_service.py\<close>), a window bounds a reconnect
  (\<open>realtime_voice_reconnect_service.py\<close>). While a call is connected a meter observes and settles quota
  (\<open>realtime_voice_quota_service.py\<close>), the provider's events become turns (\<open>realtime_voice_turn_service.py\<close>)
  after the safety and crisis gates (\<open>realtime_voice_safety_service.py\<close>, \<open>realtime_voice_crisis_service.py\<close>), the
  client's frames prove what was heard (\<open>realtime_voice_playback_service.py\<close>), and a policy decides when to say
  goodbye and to end (\<open>realtime_voice_ending_service.py\<close>). Afterwards the turns are read for memories
  (\<open>realtime_voice_memory_service.py\<close>) and summarised (\<open>realtime_voice_summary_job_service.py\<close>), a card and a follow-up message are staged and dispatched
  (\<open>realtime_voice_card_service.py\<close>, \<open>realtime_voice_summary_followup_service.py\<close>,
  \<open>realtime_voice_followup_job_service.py\<close>) and contents are purged (\<open>realtime_voice_retention_service.py\<close>). All of
  them read a frozen copy of the configuration, checked by \<open>realtime_voice_config_service.py\<close>, and stage counters
  (\<open>realtime_voice_metric_service.py\<close>).

  \<^bold>\<open>How it is modelled.\<close> The tables are lists of records in one record \<open>database\<close>. An operation takes the database and
  returns \<open>exn + ...\<close>: a raise is \<open>Inl\<close> and leaves the caller's database, which is the rollback. A transaction is one
  operation; its counters are staged in \<open>db_staged\<close> and sent by \<open>commit_flush\<close>. Objects that raise after a change
  return the result with the object. A service with awaits is split at them when another task can run in between,
  and the properties quantify over all lists of such actions. Row locks that may be refused are boolean arguments;
  Redis expiry, models, HMAC, hashes, Unicode tables, the JSON text of a value and random draws are parameters.
  Times are integers (microseconds), monotonic clocks rationals, Python integers \<open>int\<close>, strings lists of code
  points (\<open>pystr\<close>) or, for closed vocabularies and keys, HOL strings.

  \<^bold>\<open>Theories.\<close>
  \<^item> \<open>Prelude\<close>, \<open>Json\<close>, \<open>CallModel\<close>, \<open>Database\<close>: exceptions, rows addressed by a key, JSON values as Python sees
    them, the rows and vocabularies of \<open>models/realtime_voice.py\<close>, the tables. The locale \<open>keyed_table\<close> states the laws of
    reading and writing a table by its key and is interpreted for every table the services address so.
  \<^item> \<open>Metrics\<close>: the event table, the atomic script, staging and savepoints. Emission is all or nothing.
  \<^item> \<open>CallState\<close>: the transition table and \<open>transition_call\<close> with its finalising step: transitions follow the table,
    keep rows well formed and terminal rows frozen, and stage only valid events.
  \<^item> \<open>Decision\<close>, \<open>Ticket\<close>, \<open>Lease\<close>, \<open>Reconnect\<close>: bounds of a decision, codec of tickets with its base64 and their single use, capacity and
    ownership in every reachable lease state (the locale \<open>px_clock\<close> covers both readings of Redis expiry), the window.
  \<^item> \<open>Quota\<close>: meter, balances, grants and settlement: exact billing of time, settlement at most once, no overdraft, and
    every observed call can be settled.
  \<^item> \<open>Schedule\<close>, \<open>Card\<close>, \<open>Followup\<close>, \<open>Dispatch\<close>, \<open>DispatchClaims\<close>: follow-ups from the validated windows through
    staging and dispatch to the count: one message for a call under every interleaving, sent only when due.
  \<^item> \<open>Capability\<close>, \<open>Runtime\<close>, \<open>Loader\<close>, \<open>RuntimeClaims\<close>: the states of a capability, the frozen snapshot of a call and the
    loader behind it (cache, tables, envelope, forced sources, fallback): a capability is enabled only on evidence or as
    a recorded test of a listed tester, and the published row decides whatever the cache holds.
  \<^item> \<open>Create\<close>, \<open>CreateClaims\<close>: the creation of a call (\<open>realtime_voice_create_service.py\<close>) with a failure or a cancellation
    possible at every awaited step: it opens only when every gate is open, a failure leaves no trace, the key replays,
    a user has at most one open call, and the ticket is accepted.
  \<^item> \<open>Growth\<close>, \<open>GrowthClaims\<close>, \<open>EndCall\<close>, \<open>EndCallClaims\<close>: the growth of the relationship (\<open>relationship_service.py\<close>) and the
    end of a call, the hard stop and the reconciliation (\<open>realtime_voice_ops_service.py\<close>). The locale \<open>turn_flush\<close> is what the
    end relies on when it flushes the turns of the owning process, and is interpreted on the final flush of \<open>Turn\<close>.
  \<^item> \<open>ConfigCheck\<close>, \<open>Seed\<close>: the complete validators of the configuration and the script, the canonical seed and what
    a configuration that passes guarantees to its readers.
  \<^item> \<open>Safety\<close>: keyword match, policy, both gates and the isolation of a crisis; the locale \<open>crisis_gate\<close> is what a turn
    relies on.
  \<^item> \<open>Turn\<close>, \<open>TurnClaims\<close>: the reorder buffer, rows and drafts; the locale \<open>turn_service\<close> extends \<open>crisis_gate\<close> and carries the
    invariant of the rows; the buffer refines handling events in order.
  \<^item> \<open>Playback\<close>: the evidence and the effective text, which never claims more than the evidence.
  \<^item> \<open>Backchannel\<close>, \<open>BackchannelClaims\<close>: the filter for short acknowledgements in front of the turns
    (\<open>realtime_voice_backchannel_service.py\<close>): the output for a question comes through whole or not at all, and the
    filter never makes the reorder buffer of \<open>Turn\<close> refuse an event.
  \<^item> \<open>Frame\<close>, \<open>Provider\<close>, \<open>ProviderClaims\<close>: the provider's frames and the adapter that turns them into numbered events
    (\<open>realtime_voice_provider_service.py\<close>): the bytes that are frames, a reply with one question and one end, one reply for
    injected context, and the events of a session accepted by the filter and the turns behind it.
  \<^item> \<open>Summary\<close>, \<open>SummaryClaims\<close>: the summary after a call (\<open>realtime_voice_summary_service.py\<close>,
    \<open>realtime_voice_summary_runtime.py\<close>, \<open>realtime_voice_summary_job_service.py\<close>): the transcript reaches the model as
    data only, every text that is stored was permitted, one run settles a pending job, and a finished one stays as it is
    under every interleaving.
  \<^item> \<open>BargeIn\<close>, \<open>BargeInClaims\<close>: the classifier of interruptions and the controller behind it
    (\<open>realtime_voice_barge_in_service.py\<close>), which works on the adapter of \<open>Provider\<close>: no verdict without unbroken
    loud speech and words of the open question, and a truncation is confirmed only by the provider's event for the stop the client reported.
  \<^item> \<open>Ending\<close>: the ending policy, the semantic gate and the buffer for the output of a closing call.
  \<^item> \<open>MemoryText\<close>, \<open>MemoryJob\<close>, \<open>MemoryInv\<close>, \<open>MemoryClaims\<close>, \<open>MemoryRun\<close>: the items, the transactions of the jobs, their
    invariant under every interleaving, the deletion fence, the retry budget, the order of writes, and the worker.
  \<^item> \<open>Retention\<close>: purge and deletion: a deletion leaves no content, a call that the scan skips had nothing due.

  \<^bold>\<open>Bounds and fuel.\<close> Loops over finite collections are structural recursions; the grace and charge loops of \<open>Quota\<close> and
  the window search of \<open>Schedule\<close> terminate by the data they consume, so no definition needs fuel. The numeric limits (4096
  replies or requests, 2000000 bytes, 100 rows of a page, five items) are the code's.

  \<^bold>\<open>Not modelled.\<close> Loggers, audit entries and counters sent outside a transaction; sockets and the task structure of the
  WebSocket gateway; the HTTP routers; the parts of the repository beside the voice calls
  (chat, diary, life feed, embeddings, administration pages, the frontend), which are prompts, queries and calls of
  external models around the same tables.
\<close>

end
